(* ===== verification/Prelude.thy ===== *)
theory Prelude
  imports Main "HOL-Library.AList"
begin

text \<open>
  Shared vocabulary of the development: JavaScript strings, the results of service calls,
  JavaScript \<open>Map\<close> objects, database tables and runs of step functions, with the lemmas
  about them that the components use.  Nothing here models one particular source file.

  \<^item> A JavaScript string is the list of its UTF-16 code units (\<open>jsstr\<close>); \<open>js\<close> writes an
    ASCII literal in that form.
  \<^item> A service call that may throw returns \<open>http_error + 'a\<close>; \<open>Inl\<close> is the thrown
    exception, named after the NestJS exception class (or the Prisma error code).
  \<^item> A \<open>Map\<close> is an association list in insertion order (\<open>mset\<close> keeps the position of an
    existing key, as \<open>Map.prototype.set\<close> does).
  \<^item> A database table is a list of rows with the next value of its autoincrement column.
  \<^item> Instants (\<open>time\<close>) are milliseconds since the epoch, as \<open>Date.now()\<close> returns them.
\<close>

named_theorems js_simps \<open>facts about JavaScript strings and maps\<close>
named_theorems table_simps \<open>facts about database tables\<close>

type_synonym id = int
type_synonym time = int
type_synonym jsstr = "nat list"

section \<open>JavaScript strings\<close>

definition js :: "string \<Rightarrow> jsstr" where
  "js s = map of_char s"

text \<open>The code units that \<open>String.prototype.trim\<close> removes: WhiteSpace and LineTerminator.\<close>

definition js_space :: "nat \<Rightarrow> bool" where
  "js_space c \<longleftrightarrow> c \<in> set [9, 10, 11, 12, 13, 32, 160, 5760, 8192, 8193, 8194, 8195, 8196, 8197,
     8198, 8199, 8200, 8201, 8202, 8232, 8233, 8239, 8287, 12288, 65279]"

definition trim :: "jsstr \<Rightarrow> jsstr" where
  "trim s = rev (dropWhile js_space (rev (dropWhile js_space s)))"

lemma js_eq_iff [simp, js_simps]: "js s = js t \<longleftrightarrow> s = t"
proof -
  have "inj (of_char :: char \<Rightarrow> nat)" by (simp add: inj_def)
  then show ?thesis by (simp add: js_def inj_map_eq_map)
qed

lemma js_Nil [simp, js_simps]: "js [] = []" "(js s = []) = (s = [])" "([] = js s) = (s = [])"
  by (auto simp: js_def)

lemma length_js [simp, js_simps]: "length (js s) = length s"
  by (simp add: js_def)

lemma dropWhile_id: "(xs \<noteq> [] \<Longrightarrow> \<not> P (hd xs)) \<Longrightarrow> dropWhile P xs = xs"
  by (cases xs) auto

lemma last_dropWhile_rev:
  assumes "dropWhile P (rev xs) \<noteq> []"
  shows "last (dropWhile P (rev xs)) = hd xs"
proof -
  have "last (rev xs) = last (dropWhile P (rev xs))"
    using assms by (metis last_appendR takeWhile_dropWhile_id)
  then show ?thesis using assms by (cases xs) (auto simp: last_rev)
qed

lemma trim_trim [simp, js_simps]: "trim (trim s) = trim s"
proof -
  let ?a = "dropWhile js_space s"
  let ?t = "dropWhile js_space (rev ?a)"
  have "dropWhile js_space (rev ?t) = rev ?t"
  proof (rule dropWhile_id)
    assume "rev ?t \<noteq> []"
    then have ne: "?t \<noteq> []" by simp
    then have "?a \<noteq> []" by (cases ?a) auto
    then have "\<not> js_space (hd ?a)" by (rule hd_dropWhile)
    moreover have "hd (rev ?t) = hd ?a"
      using last_dropWhile_rev[OF ne] by (simp add: hd_rev)
    ultimately show "\<not> js_space (hd (rev ?t))" by simp
  qed
  moreover have "dropWhile js_space ?t = ?t" by (rule dropWhile_idem)
  ultimately show ?thesis unfolding trim_def by simp
qed

lemma length_trim_le: "length (trim s) \<le> length s"
  unfolding trim_def by (metis length_dropWhile_le length_rev le_trans)

lemma trim_Nil [simp, js_simps]: "trim [] = []"
  by (simp add: trim_def)

text \<open>\<open>s || dflt\<close> on an optional string: the default for \<open>undefined\<close>, \<open>null\<close> and the empty string.\<close>

definition str_or :: "jsstr option \<Rightarrow> jsstr \<Rightarrow> jsstr" where
  "str_or s dflt = (case s of None \<Rightarrow> dflt | Some x \<Rightarrow> if x = [] then dflt else x)"

text \<open>An optional string used as a condition.\<close>

definition truthy :: "jsstr option \<Rightarrow> bool" where
  "truthy s = (case s of None \<Rightarrow> False | Some x \<Rightarrow> x \<noteq> [])"

lemma truthy_simps [simp, js_simps]: "\<not> truthy None" "truthy (Some x) \<longleftrightarrow> x \<noteq> []"
  by (simp_all add: truthy_def)

lemma str_or_simps [simp, js_simps]:
  "str_or None y = y" "str_or (Some x) y = (if x = [] then y else x)"
  by (simp_all add: str_or_def)

definition starts_with :: "jsstr \<Rightarrow> jsstr \<Rightarrow> bool" where
  "starts_with s p \<longleftrightarrow> take (length p) s = p"

lemma starts_with_append [simp, js_simps]: "starts_with (p @ s) p"
  by (simp add: starts_with_def)

lemma starts_withD: "starts_with s p \<Longrightarrow> s = p @ drop (length p) s"
  by (metis append_take_drop_id starts_with_def)

text \<open>\<open>String.prototype.includes\<close>.\<close>

fun includes_str :: "jsstr \<Rightarrow> jsstr \<Rightarrow> bool" where
  "includes_str [] p \<longleftrightarrow> p = []"
| "includes_str (c # s) p \<longleftrightarrow> starts_with (c # s) p \<or> includes_str s p"

text \<open>\<open>String.prototype.split\<close> on one code unit: always at least one part.\<close>

fun split_on :: "nat \<Rightarrow> jsstr \<Rightarrow> jsstr list" where
  "split_on c [] = [[]]"
| "split_on c (x # xs) =
     (if x = c then [] # split_on c xs
      else (case split_on c xs of [] \<Rightarrow> [[x]] | p # ps \<Rightarrow> (x # p) # ps))"

lemma split_on_not_Nil [simp, js_simps]: "split_on c xs \<noteq> []"
  by (induction xs) (auto split: list.splits)

text \<open>\<open>toLowerCase\<close> on ASCII text.\<close>

definition ascii_lower :: "jsstr \<Rightarrow> jsstr" where
  "ascii_lower s = map (\<lambda>c. if 65 \<le> c \<and> c \<le> 90 then c + 32 else c) s"

section \<open>Numbers in strings\<close>

definition digit :: "nat \<Rightarrow> bool" where
  "digit c \<longleftrightarrow> 48 \<le> c \<and> c \<le> 57"

text \<open>\<open>parseInt(s, 10)\<close> of a string without sign or blanks, as an operand of a bitwise operator: the leading digits, and 0 for \<open>NaN\<close>.\<close>

definition dec_value :: "jsstr \<Rightarrow> nat" where
  "dec_value s = foldl (\<lambda>a c. 10 * a + (c - 48)) 0 (takeWhile digit s)"

fun nat_str :: "nat \<Rightarrow> jsstr" where
  "nat_str n = (if n < 10 then [48 + n] else nat_str (n div 10) @ [48 + n mod 10])"

declare nat_str.simps [simp del]

definition int_str :: "int \<Rightarrow> jsstr" where
  "int_str i = (if i < 0 then 45 # nat_str (nat (- i)) else nat_str (nat i))"

text \<open>\<open>parseInt(s, 10)\<close>: blanks, a sign, then the leading digits; \<open>None\<close> is \<open>NaN\<close>.\<close>

definition parseInt :: "jsstr \<Rightarrow> int option" where
  "parseInt s =
     (let t = dropWhile js_space s;
          neg = (t \<noteq> [] \<and> hd t = 45);
          u = (if t \<noteq> [] \<and> (hd t = 45 \<or> hd t = 43) then tl t else t)
      in if takeWhile digit u = [] then None
         else Some (if neg then - int (dec_value u) else int (dec_value u)))"

lemma nat_str_value_aux: "foldl (\<lambda>a c. 10 * a + (c - 48)) 0 (nat_str n) = n \<and> list_all digit (nat_str n)"
proof (induction n rule: nat_str.induct)
  case (1 n)
  show ?case
  proof (cases "n < 10")
    case True
    then show ?thesis by (simp add: nat_str.simps[of n] digit_def)
  next
    case False
    then show ?thesis using 1 by (simp add: nat_str.simps[of n] digit_def)
  qed
qed

lemma dec_value_nat_str [simp]: "dec_value (nat_str n) = n"
proof -
  have "takeWhile digit (nat_str n) = nat_str n" 
    using nat_str_value_aux[of n] by (simp add: list_all_iff takeWhile_eq_all_conv)
  then show ?thesis using nat_str_value_aux[of n] by (simp only: dec_value_def)
qed


text \<open>The length that \<open>class-validator\<close> measures: a surrogate pair is one character, the two variation selectors are none.\<close>

fun char_count :: "jsstr \<Rightarrow> nat" where
  "char_count (a # b # s) =
     (if 55296 \<le> a \<and> a \<le> 56319 \<and> 56320 \<le> b \<and> b \<le> 57343 then Suc (char_count s)
      else (if a = 65038 \<or> a = 65039 then 0 else 1) + char_count (b # s))"
| "char_count [a] = (if a = 65038 \<or> a = 65039 then 0 else 1)"
| "char_count [] = 0"

definition len_between :: "nat \<Rightarrow> nat \<Rightarrow> jsstr \<Rightarrow> bool" where
  "len_between lo hi s \<longleftrightarrow> lo \<le> char_count s \<and> char_count s \<le> hi"

section \<open>Results of service calls\<close>

datatype http_error =
    BadRequest string
  | Unauthorized string
  | Forbidden string
  | NotFound string
  | Conflict string
  | PrismaError string
  | ThrownError string

fun error_message :: "http_error \<Rightarrow> string" where
  "error_message (BadRequest m) = m"
| "error_message (Unauthorized m) = m"
| "error_message (Forbidden m) = m"
| "error_message (NotFound m) = m"
| "error_message (Conflict m) = m"
| "error_message (PrismaError m) = m"
| "error_message (ThrownError m) = m"

type_synonym 'a result = "http_error + 'a"

definition rbind :: "'e + 'a \<Rightarrow> ('a \<Rightarrow> 'e + 'b) \<Rightarrow> 'e + 'b" where
  "rbind r f = (case r of Inl e \<Rightarrow> Inl e | Inr x \<Rightarrow> f x)"

lemma rbind_Inr: "rbind r f = Inr y \<longleftrightarrow> (\<exists>x. r = Inr x \<and> f x = Inr y)"
  by (cases r) (auto simp: rbind_def)

lemma rbind_Inl: "rbind r f = Inl e \<longleftrightarrow> r = Inl e \<or> (\<exists>x. r = Inr x \<and> f x = Inl e)"
  by (cases r) (auto simp: rbind_def)

lemma rbind_simps [simp]: "rbind (Inr x) f = f x" "rbind (Inl e) f = Inl e"
  by (simp_all add: rbind_def)

text \<open>
  Sequencing of a check and the rest of a handler: \<open>check\<close> runs the rest on the value that the check
  returned, and otherwise throws with the state as it is; \<open>sbind\<close> does the same for a step that may
  have changed the state before it threw.
\<close>

definition check :: "'a result \<Rightarrow> ('a \<Rightarrow> 's \<Rightarrow> 'b result \<times> 's) \<Rightarrow> 's \<Rightarrow> 'b result \<times> 's" where
  "check r f s = (case r of Inl e \<Rightarrow> (Inl e, s) | Inr x \<Rightarrow> f x s)"

definition sbind :: "'a result \<times> 's \<Rightarrow> ('a \<Rightarrow> 's \<Rightarrow> 'b result \<times> 's) \<Rightarrow> 'b result \<times> 's" where
  "sbind p f = (case p of (Inl e, s) \<Rightarrow> (Inl e, s) | (Inr x, s) \<Rightarrow> f x s)"

text \<open>The answer of the validation pipe to a body that its class refuses.\<close>

abbreviation bad_body :: http_error where
  "bad_body \<equiv> BadRequest ''Bad Request Exception''"

definition ensure :: "bool \<Rightarrow> http_error \<Rightarrow> unit result" where
  "ensure b e = (if b then Inr () else Inl e)"

lemma check_simps [simp]: "check (Inr x) f s = f x s" "check (Inl e) f s = (Inl e, s)"
  by (simp_all add: check_def)

lemma sbind_simps [simp]: "sbind (Inr x, s) f = f x s" "sbind (Inl e, s) f = (Inl e, s)"
  by (simp_all add: sbind_def)

lemma ensure_simps [simp]:
  "ensure True e = Inr ()" "ensure False e = Inl e"
  "ensure b e = Inr u \<longleftrightarrow> b" "ensure b e = Inl e' \<longleftrightarrow> \<not> b \<and> e' = e"
  by (auto simp: ensure_def)

lemma check_InrD: "check r f s = (Inr y, s') \<Longrightarrow> \<exists>x. r = Inr x \<and> f x s = (Inr y, s')"
  by (cases r) auto

lemma sbind_InrD: "sbind p f = (Inr y, s') \<Longrightarrow> \<exists>x s1. p = (Inr x, s1) \<and> f x s1 = (Inr y, s')"
  by (auto simp: sbind_def split: prod.splits sum.splits)

lemma check_ensure [simp]: "check (ensure b e) f s = (if b then f () s else (Inl e, s))"
  by (simp add: ensure_def)

section \<open>JavaScript maps and sets\<close>

type_synonym ('k, 'v) jsmap = "('k \<times> 'v) list"

abbreviation mget :: "('k, 'v) jsmap \<Rightarrow> 'k \<Rightarrow> 'v option" where
  "mget m k \<equiv> map_of m k"

definition mset_at :: "'k \<Rightarrow> 'v \<Rightarrow> ('k, 'v) jsmap \<Rightarrow> ('k, 'v) jsmap" where
  "mset_at k v m = AList.update k v m"

definition mdelete :: "'k \<Rightarrow> ('k, 'v) jsmap \<Rightarrow> ('k, 'v) jsmap" where
  "mdelete k m = AList.delete k m"

definition mhas :: "('k, 'v) jsmap \<Rightarrow> 'k \<Rightarrow> bool" where
  "mhas m k \<longleftrightarrow> map_of m k \<noteq> None"

lemma mget_mset [simp, js_simps]: "mget (mset_at k v m) k' = (if k = k' then Some v else mget m k')"
  by (simp add: mset_at_def update_conv')

lemma mget_mdelete [simp, js_simps]: "mget (mdelete k m) k' = (if k = k' then None else mget m k')"
  by (simp add: mdelete_def delete_conv')

lemma mhas_simps [simp, js_simps]:
  "mhas (mset_at k v m) k' \<longleftrightarrow> k = k' \<or> mhas m k'"
  "mhas (mdelete k m) k' \<longleftrightarrow> k \<noteq> k' \<and> mhas m k'"
  "\<not> mhas [] k"
  by (auto simp: mhas_def)

lemma distinct_keys_mset [simp, js_simps]:
  "distinct (map fst m) \<Longrightarrow> distinct (map fst (mset_at k v m))"
  by (simp add: mset_at_def distinct_update)

lemma distinct_keys_mdelete [simp, js_simps]:
  "distinct (map fst m) \<Longrightarrow> distinct (map fst (mdelete k m))"
  by (simp add: mdelete_def distinct_delete)

text \<open>A JavaScript \<open>Set\<close> of strings: a list without repetition in insertion order.\<close>

definition set_add :: "'a \<Rightarrow> 'a list \<Rightarrow> 'a list" where
  "set_add x xs = (if x \<in> set xs then xs else xs @ [x])"

definition set_del :: "'a \<Rightarrow> 'a list \<Rightarrow> 'a list" where
  "set_del x xs = removeAll x xs"

lemma set_set_add [simp, js_simps]: "set (set_add x xs) = insert x (set xs)"
  by (auto simp: set_add_def)

lemma set_set_del [simp, js_simps]: "set (set_del x xs) = set xs - {x}"
  by (simp add: set_del_def)

lemma distinct_set_add [simp, js_simps]: "distinct (set_add x xs) = distinct xs"
  by (auto simp: set_add_def)

lemma distinct_set_del [simp, js_simps]: "distinct xs \<Longrightarrow> distinct (set_del x xs)"
  by (simp add: set_del_def distinct_removeAll)

lemma set_add_not_Nil [simp, js_simps]: "set_add x xs \<noteq> []"
  by (auto simp: set_add_def)

section \<open>Database tables\<close>

text \<open>
  \<open>t_insert f t\<close> appends the row that \<open>f\<close> builds from the next autoincrement value; the other
  operations are Prisma's \<open>findFirst\<close>/\<open>findUnique\<close>, \<open>findMany\<close>, \<open>count\<close>, \<open>update(Many)\<close> and
  \<open>delete(Many)\<close> with the \<open>where\<close> clause as a predicate.  The row order is the order in which
  the database returns rows when a query gives no \<open>orderBy\<close>.
\<close>

record 'r table =
  rows :: "'r list"
  nxt :: id

definition t_empty :: "'r table" where
  "t_empty = \<lparr>rows = [], nxt = 1\<rparr>"

definition t_find :: "('r \<Rightarrow> bool) \<Rightarrow> 'r table \<Rightarrow> 'r option" where
  "t_find P t = find P (rows t)"

definition t_all :: "('r \<Rightarrow> bool) \<Rightarrow> 'r table \<Rightarrow> 'r list" where
  "t_all P t = filter P (rows t)"

definition t_count :: "('r \<Rightarrow> bool) \<Rightarrow> 'r table \<Rightarrow> nat" where
  "t_count P t = length (filter P (rows t))"

definition t_insert :: "(id \<Rightarrow> 'r) \<Rightarrow> 'r table \<Rightarrow> 'r table" where
  "t_insert f t = t\<lparr>rows := rows t @ [f (nxt t)], nxt := nxt t + 1\<rparr>"

definition t_update :: "('r \<Rightarrow> bool) \<Rightarrow> ('r \<Rightarrow> 'r) \<Rightarrow> 'r table \<Rightarrow> 'r table" where
  "t_update P f t = t\<lparr>rows := map (\<lambda>r. if P r then f r else r) (rows t)\<rparr>"

definition t_delete :: "('r \<Rightarrow> bool) \<Rightarrow> 'r table \<Rightarrow> 'r table" where
  "t_delete P t = t\<lparr>rows := filter (\<lambda>r. \<not> P r) (rows t)\<rparr>"

lemma rows_t_empty [simp, table_simps]: "rows t_empty = []" "nxt t_empty = 1"
  by (simp_all add: t_empty_def)

lemma rows_t_insert [simp, table_simps]:
  "rows (t_insert f t) = rows t @ [f (nxt t)]" "nxt (t_insert f t) = nxt t + 1"
  by (simp_all add: t_insert_def)

lemma rows_t_update [simp, table_simps]:
  "rows (t_update P f t) = map (\<lambda>r. if P r then f r else r) (rows t)"
  "nxt (t_update P f t) = nxt t"
  by (simp_all add: t_update_def)

lemma rows_t_delete [simp, table_simps]:
  "rows (t_delete P t) = filter (\<lambda>r. \<not> P r) (rows t)" "nxt (t_delete P t) = nxt t"
  by (simp_all add: t_delete_def)

lemma find_append: "List.find P (xs @ ys) = (case List.find P xs of None \<Rightarrow> List.find P ys | Some x \<Rightarrow> Some x)"
  by (induction xs) auto

lemma t_find_SomeD: "t_find P t = Some r \<Longrightarrow> r \<in> set (rows t) \<and> P r"
  by (auto simp: t_find_def find_Some_iff)

lemma t_find_None_iff: "t_find P t = None \<longleftrightarrow> (\<forall>r\<in>set (rows t). \<not> P r)"
  by (auto simp: t_find_def find_None_iff)

lemma set_t_all [simp, table_simps]: "set (t_all P t) = {r \<in> set (rows t). P r}"
  by (auto simp: t_all_def)

text \<open>Keys of a table are distinct and below the autoincrement counter.\<close>

definition tbl_wf :: "('r \<Rightarrow> id) \<Rightarrow> 'r table \<Rightarrow> bool" where
  "tbl_wf key t \<longleftrightarrow> distinct (map key (rows t)) \<and> (\<forall>r\<in>set (rows t). key r < nxt t)"

lemma tbl_wf_empty [simp, intro]: "tbl_wf key t_empty"
  by (simp add: tbl_wf_def)

lemma tbl_wf_insert [intro]:
  assumes "tbl_wf key t" and "key (f (nxt t)) = nxt t"
  shows "tbl_wf key (t_insert f t)"
  using assms by (auto simp: tbl_wf_def)

lemma tbl_wf_update [intro]:
  assumes "tbl_wf key t" and "\<And>r. key (f r) = key r"
  shows "tbl_wf key (t_update P f t)"
proof -
  have "map key (map (\<lambda>r. if P r then f r else r) (rows t)) = map key (rows t)"
    using assms(2) by simp
  then show ?thesis using assms
    by (auto simp: tbl_wf_def simp del: map_map)
qed

lemma tbl_wf_delete [intro]: "tbl_wf key t \<Longrightarrow> tbl_wf key (t_delete P t)"
  by (auto simp: tbl_wf_def distinct_map_filter)

lemma tbl_wf_key_eq: "tbl_wf key t \<Longrightarrow> r \<in> set (rows t) \<Longrightarrow> r' \<in> set (rows t) \<Longrightarrow> key r = key r' \<Longrightarrow> r = r'"
  by (auto simp: tbl_wf_def distinct_map inj_on_def)

text \<open>In a table with distinct keys, finding by key is membership.\<close>

lemma t_find_key:
  assumes "tbl_wf key t"
  shows "t_find (\<lambda>r. key r = k) t = Some r \<longleftrightarrow> r \<in> set (rows t) \<and> key r = k"
proof
  assume "r \<in> set (rows t) \<and> key r = k"
  then have r: "r \<in> set (rows t)" "key r = k" by auto
  then obtain r' where r': "t_find (\<lambda>r. key r = k) t = Some r'"
    using t_find_None_iff[of "\<lambda>r. key r = k" t] by (cases "t_find (\<lambda>r. key r = k) t") auto
  with r assms show "t_find (\<lambda>r. key r = k) t = Some r"
    using t_find_SomeD[OF r'] tbl_wf_key_eq by metis
qed (auto dest: t_find_SomeD)

lemma length_filter_le_one:
  assumes "distinct (map f xs)" and "\<And>x. x \<in> set xs \<Longrightarrow> P x \<Longrightarrow> f x = k"
  shows "length (filter P xs) \<le> 1"
proof -
  have "distinct (map f (filter P xs))" using assms(1) by (rule distinct_map_filter)
  moreover have "set (map f (filter P xs)) \<subseteq> {k}" using assms(2) by auto
  ultimately have "length (map f (filter P xs)) \<le> card {k}"
    by (metis card_mono distinct_card finite.emptyI finite.insertI)
  then show ?thesis by simp
qed

section \<open>Runs of a step function\<close>

text \<open>
  A component whose operations change its state is run over a list of operations.  The
  locale \<open>run_invariant\<close> is the contract between a component's operations and a property of
  all the states it can reach: if every admissible step keeps \<open>inv\<close>, so does every run.
\<close>

fun run :: "('s \<Rightarrow> 'e \<Rightarrow> 's) \<Rightarrow> 's \<Rightarrow> 'e list \<Rightarrow> 's" where
  "run step s [] = s"
| "run step s (e # es) = run step (step s e) es"

fun run_ok :: "('s \<Rightarrow> 'e \<Rightarrow> bool) \<Rightarrow> ('s \<Rightarrow> 'e \<Rightarrow> 's) \<Rightarrow> 's \<Rightarrow> 'e list \<Rightarrow> bool" where
  "run_ok ok step s [] \<longleftrightarrow> True"
| "run_ok ok step s (e # es) \<longleftrightarrow> ok s e \<and> run_ok ok step (step s e) es"

lemma run_append [simp]: "run step s (es @ fs) = run step (run step s es) fs"
  by (induction es arbitrary: s) auto

lemma run_ok_append [simp]:
  "run_ok ok step s (es @ fs) \<longleftrightarrow> run_ok ok step s es \<and> run_ok ok step (run step s es) fs"
  by (induction es arbitrary: s) auto

lemma run_ok_True [simp]: "run_ok (\<lambda>s e. True) step s es"
  by (induction es arbitrary: s) auto

locale run_invariant =
  fixes step :: "'s \<Rightarrow> 'e \<Rightarrow> 's"
    and ok :: "'s \<Rightarrow> 'e \<Rightarrow> bool"
    and inv :: "'s \<Rightarrow> bool"
  assumes step_inv: "inv s \<Longrightarrow> ok s e \<Longrightarrow> inv (step s e)"
begin

lemma run_inv: "inv s \<Longrightarrow> run_ok ok step s es \<Longrightarrow> inv (run step s es)"
  by (induction es arbitrary: s) (auto intro: step_inv)

lemma run_inv_prefix:
  "inv s \<Longrightarrow> run_ok ok step s (es @ fs) \<Longrightarrow> inv (run step s es)"
  by (auto intro: run_inv)

end

section \<open>A self-delimiting codec\<close>

text \<open>
  Injective encodings of strings, optional strings and integers as code units, for the concrete
  serialisers with which the hypotheses about \<open>JSON.stringify\<close> and \<open>JSON.parse\<close> are shown satisfiable.
\<close>

definition enc_str :: "jsstr \<Rightarrow> jsstr" where "enc_str s = length s # s"

definition dec_str :: "jsstr \<Rightarrow> jsstr \<times> jsstr" where
  "dec_str s = (take (hd s) (tl s), drop (hd s) (tl s))"

definition enc_opt :: "jsstr option \<Rightarrow> jsstr" where
  "enc_opt x = (case x of None \<Rightarrow> [0] | Some s \<Rightarrow> 1 # enc_str s)"

definition dec_opt :: "jsstr \<Rightarrow> jsstr option \<times> jsstr" where
  "dec_opt s = (if hd s = 0 then (None, tl s) else case dec_str (tl s) of (a, b) \<Rightarrow> (Some a, b))"

definition enc_int :: "int \<Rightarrow> jsstr" where "enc_int i = [if i < 0 then 1 else 0, nat \<bar>i\<bar>]"

definition dec_int :: "jsstr \<Rightarrow> int \<times> jsstr" where
  "dec_int s = ((if s ! 0 = 0 then int (s ! 1) else - int (s ! 1)), drop 2 s)"

lemma dec_enc [simp]:
  "dec_str (enc_str a @ r) = (a, r)" "dec_opt (enc_opt x @ r) = (x, r)" "dec_int (enc_int i @ r) = (i, r)"
  by (auto simp: dec_str_def enc_str_def dec_opt_def enc_opt_def dec_int_def enc_int_def split: option.splits)

end
