(* ===== verification/Schema.thy ===== *)
theory Schema
  imports Prelude
begin

text \<open>
  The database of the server as \<open>server/prisma/schema.prisma\<close> declares it: one record per
  model, one table per record, and the writes that the declared constraints govern (foreign keys
  with their \<open>onDelete\<close> actions, unique keys).  A violated constraint is the Prisma error code
  (\<open>P2002\<close> unique, \<open>P2003\<close> foreign key, \<open>P2025\<close> record not found).  Columns that no modelled
  code reads or writes (\<open>Session.deviceName\<close>, \<open>Conversation.pinnedMessageId\<close>,
  \<open>Conversation.scheduledDeleteAt\<close>, some \<open>createdAt\<close>/\<open>updatedAt\<close> columns) are left out.
\<close>

section \<open>Enumerations\<close>

datatype user_role = USER | ADMIN_ROLE
datatype conversation_type = DIRECT | GROUP | CHANNEL
datatype member_role = OWNER | ADMIN | MEMBER
datatype friendship_status = PENDING | ACCEPTED | DECLINED | BLOCKED
datatype report_type = BUG | FEATURE_REQUEST | FEEDBACK | OTHER
datatype report_status = NEW | REVIEWED | RESOLVED | CLOSED

section \<open>Rows\<close>

record user =
  u_id :: id
  u_email :: jsstr
  u_nickname :: jsstr
  u_password :: jsstr
  u_role :: user_role
  u_avatarUrl :: "jsstr option"
  u_statusEmoji :: "jsstr option"
  u_isEmailVerified :: bool
  u_emailVerifyToken :: "jsstr option"
  u_passwordResetToken :: "jsstr option"
  u_passwordResetExpires :: "time option"
  u_isOnline :: bool
  u_lastSeen :: time
  u_tosAcceptedAt :: "time option"
  u_encryptedPrivateKey :: "jsstr option"
  u_privateKeySalt :: "jsstr option"
  u_twoFactorSecret :: "jsstr option"
  u_twoFactorEnabled :: bool
  u_encryptedPrivateKeyV2 :: "jsstr option"

record session =
  s_id :: id
  s_userId :: id
  s_refreshToken :: jsstr
  s_userAgent :: "jsstr option"
  s_ipAddress :: "jsstr option"
  s_expiresAt :: time
  s_createdAt :: time
  s_prevRefreshToken :: "jsstr option"
  s_deviceId :: "id option"

record conversation =
  c_id :: id
  c_type :: conversation_type
  c_name :: "jsstr option"
  c_description :: "jsstr option"
  c_avatarUrl :: "jsstr option"
  c_createdById :: "id option"
  c_updatedAt :: time

record member =
  m_id :: id
  m_conversationId :: id
  m_userId :: id
  m_role :: member_role
  m_joinedAt :: time
  m_lastReadAt :: time
  m_clearedAt :: "time option"
  m_isPinned :: bool
  m_isArchived :: bool

record pinned =
  p_id :: id
  p_conversationId :: id
  p_messageId :: id
  p_pinnedById :: id
  p_pinnedAt :: time

record message =
  msg_id :: id
  msg_content :: jsstr
  msg_createdAt :: time
  msg_editedAt :: "time option"
  msg_deletedAt :: "time option"
  msg_scheduledAt :: "time option"
  msg_fileUrl :: "jsstr option"
  msg_fileName :: "jsstr option"
  msg_fileType :: "jsstr option"
  msg_fileSize :: "int option"
  msg_metadata :: "jsstr option"
  msg_forwardedFromId :: "id option"
  msg_forwardedFromUserId :: "id option"
  msg_senderId :: id
  msg_conversationId :: id
  msg_replyToId :: "id option"
  msg_senderDeviceId :: "id option"

record reaction =
  r_id :: id
  r_emoji :: jsstr
  r_userId :: id
  r_messageId :: id
  r_createdAt :: time

record friendship =
  f_id :: id
  f_senderId :: id
  f_receiverId :: id
  f_status :: friendship_status
  f_createdAt :: time

record push_subscription =
  ps_id :: id
  ps_userId :: id
  ps_endpoint :: jsstr
  ps_p256dh :: jsstr
  ps_auth :: jsstr

record user_public_key =
  pk_id :: id
  pk_userId :: id
  pk_publicKey :: jsstr
  pk_updatedAt :: time

record user_key_bundle =
  kb_id :: id
  kb_userId :: id
  kb_bundle :: jsstr
  kb_updatedAt :: time

record group_sender_key =
  sk_id :: id
  sk_conversationId :: id
  sk_senderId :: id
  sk_recipientId :: id
  sk_encryptedKey :: jsstr
  sk_version :: int

record device =
  d_id :: id
  d_userId :: id
  d_bundle :: jsstr
  d_deviceName :: "jsstr option"
  d_createdAt :: time
  d_lastSeenAt :: time

record envelope =
  e_id :: id
  e_messageId :: id
  e_deviceId :: id
  e_ciphertext :: jsstr

record report_meta =
  rm_page :: "jsstr option"
  rm_userAgent :: "jsstr option"
  rm_imageUrl :: "jsstr option"

record report =
  rp_id :: id
  rp_userId :: id
  rp_type :: report_type
  rp_title :: jsstr
  rp_description :: jsstr
  rp_metadata :: "report_meta option"
  rp_status :: report_status
  rp_adminNote :: "jsstr option"
  rp_createdAt :: time

section \<open>The database\<close>

record db =
  db_users :: "user table"
  db_sessions :: "session table"
  db_convs :: "conversation table"
  db_members :: "member table"
  db_pins :: "pinned table"
  db_messages :: "message table"
  db_reactions :: "reaction table"
  db_friendships :: "friendship table"
  db_pushSubs :: "push_subscription table"
  db_pubKeys :: "user_public_key table"
  db_bundlesV2 :: "user_key_bundle table"
  db_senderKeys :: "group_sender_key table"
  db_devices :: "device table"
  db_envelopes :: "envelope table"
  db_reports :: "report table"

definition empty_db :: db where
  "empty_db = \<lparr>db_users = t_empty, db_sessions = t_empty, db_convs = t_empty, db_members = t_empty,
     db_pins = t_empty, db_messages = t_empty, db_reactions = t_empty, db_friendships = t_empty,
     db_pushSubs = t_empty, db_pubKeys = t_empty, db_bundlesV2 = t_empty, db_senderKeys = t_empty,
     db_devices = t_empty, db_envelopes = t_empty, db_reports = t_empty\<rparr>"

section \<open>Lookups by unique key\<close>

definition find_user :: "db \<Rightarrow> id \<Rightarrow> user option" where
  "find_user d uid = t_find (\<lambda>u. u_id u = uid) (db_users d)"

definition find_conv :: "db \<Rightarrow> id \<Rightarrow> conversation option" where
  "find_conv d cid = t_find (\<lambda>c. c_id c = cid) (db_convs d)"

definition find_member :: "db \<Rightarrow> id \<Rightarrow> id \<Rightarrow> member option" where
  "find_member d cid uid = t_find (\<lambda>m. m_conversationId m = cid \<and> m_userId m = uid) (db_members d)"

definition find_message :: "db \<Rightarrow> id \<Rightarrow> message option" where
  "find_message d mid = t_find (\<lambda>g. msg_id g = mid) (db_messages d)"

definition find_session :: "db \<Rightarrow> id \<Rightarrow> session option" where
  "find_session d sid = t_find (\<lambda>s. s_id s = sid) (db_sessions d)"

definition find_device :: "db \<Rightarrow> id \<Rightarrow> device option" where
  "find_device d did = t_find (\<lambda>x. d_id x = did) (db_devices d)"

lemmas find_defs = find_user_def find_conv_def find_member_def find_message_def find_session_def
  find_device_def

text \<open>An optional reference: absent, or to an existing row.\<close>

definition ref_ok :: "('k \<Rightarrow> 'r option) \<Rightarrow> 'k option \<Rightarrow> bool" where
  "ref_ok look k = (case k of None \<Rightarrow> True | Some i \<Rightarrow> look i \<noteq> None)"

section \<open>Writes under the declared constraints\<close>

definition create_member :: "id \<Rightarrow> id \<Rightarrow> member_role \<Rightarrow> time \<Rightarrow> db \<Rightarrow> member result \<times> db" where
  "create_member cid uid role now d =
     (if find_conv d cid = None \<or> find_user d uid = None then (Inl (PrismaError ''P2003''), d)
      else if find_member d cid uid \<noteq> None then (Inl (PrismaError ''P2002''), d)
      else let mk = (\<lambda>i. \<lparr>m_id = i, m_conversationId = cid, m_userId = uid, m_role = role,
                         m_joinedAt = now, m_lastReadAt = now, m_clearedAt = None,
                         m_isPinned = False, m_isArchived = False\<rparr>)
           in (Inr (mk (nxt (db_members d))), d\<lparr>db_members := t_insert mk (db_members d)\<rparr>))"

definition create_message :: "(id \<Rightarrow> message) \<Rightarrow> db \<Rightarrow> message result \<times> db" where
  "create_message mk d =
     (let g = mk (nxt (db_messages d))
      in if find_user d (msg_senderId g) = None \<or> find_conv d (msg_conversationId g) = None
            \<or> \<not> ref_ok (find_message d) (msg_replyToId g) \<or> \<not> ref_ok (find_message d) (msg_forwardedFromId g)
            \<or> \<not> ref_ok (find_user d) (msg_forwardedFromUserId g) \<or> \<not> ref_ok (find_device d) (msg_senderDeviceId g)
         then (Inl (PrismaError ''P2003''), d)
         else (Inr g, d\<lparr>db_messages := t_insert mk (db_messages d)\<rparr>))"

text \<open>\<open>createMany\<close> with \<open>skipDuplicates\<close>: rows whose unique key is taken are skipped.\<close>

fun insert_envelopes :: "id \<Rightarrow> (id \<times> jsstr) list \<Rightarrow> envelope table \<Rightarrow> envelope table" where
  "insert_envelopes mid [] t = t"
| "insert_envelopes mid ((did, ct) # es) t =
     insert_envelopes mid es
       (if t_find (\<lambda>e. e_messageId e = mid \<and> e_deviceId e = did) t \<noteq> None then t
        else t_insert (\<lambda>i. \<lparr>e_id = i, e_messageId = mid, e_deviceId = did, e_ciphertext = ct\<rparr>) t)"

definition create_envelopes :: "id \<Rightarrow> (id \<times> jsstr) list \<Rightarrow> db \<Rightarrow> unit result \<times> db" where
  "create_envelopes mid es d =
     (if find_message d mid = None \<or> (\<exists>e\<in>set es. find_device d (fst e) = None)
      then (Inl (PrismaError ''P2003''), d)
      else (Inr (), d\<lparr>db_envelopes := insert_envelopes mid es (db_envelopes d)\<rparr>))"

text \<open>
  Deleting messages: reactions, pins and envelopes are deleted with them (\<open>onDelete: Cascade\<close>),
  the optional references of other messages are set to null.
\<close>

definition unref :: "id set \<Rightarrow> id option \<Rightarrow> id option" where
  "unref ids r = (case r of None \<Rightarrow> None | Some i \<Rightarrow> if i \<in> ids then None else Some i)"

definition delete_messages :: "(message \<Rightarrow> bool) \<Rightarrow> db \<Rightarrow> db" where
  "delete_messages P d =
     (let ids = msg_id ` set (t_all P (db_messages d))
      in d\<lparr>db_messages := t_update (\<lambda>g. True)
              (\<lambda>g. g\<lparr>msg_replyToId := unref ids (msg_replyToId g),
                    msg_forwardedFromId := unref ids (msg_forwardedFromId g)\<rparr>)
              (t_delete P (db_messages d)),
           db_reactions := t_delete (\<lambda>r. r_messageId r \<in> ids) (db_reactions d),
           db_pins := t_delete (\<lambda>p. p_messageId p \<in> ids) (db_pins d),
           db_envelopes := t_delete (\<lambda>e. e_messageId e \<in> ids) (db_envelopes d)\<rparr>)"

definition delete_devices :: "(device \<Rightarrow> bool) \<Rightarrow> db \<Rightarrow> db" where
  "delete_devices P d =
     (let ids = d_id ` set (t_all P (db_devices d))
      in d\<lparr>db_devices := t_delete P (db_devices d),
           db_sessions := t_update (\<lambda>s. True) (\<lambda>s. s\<lparr>s_deviceId := unref ids (s_deviceId s)\<rparr>) (db_sessions d),
           db_messages := t_update (\<lambda>g. True)
              (\<lambda>g. g\<lparr>msg_senderDeviceId := unref ids (msg_senderDeviceId g)\<rparr>) (db_messages d),
           db_envelopes := t_delete (\<lambda>e. e_deviceId e \<in> ids) (db_envelopes d)\<rparr>)"

text \<open>Deleting a user cascades to everything the user owns.\<close>

definition delete_user :: "id \<Rightarrow> db \<Rightarrow> db" where
  "delete_user uid d =
     (let d1 = delete_devices (\<lambda>x. d_userId x = uid) (delete_messages (\<lambda>g. msg_senderId g = uid) d)
      in d1\<lparr>db_users := t_delete (\<lambda>u. u_id u = uid) (db_users d1),
            db_sessions := t_delete (\<lambda>s. s_userId s = uid) (db_sessions d1),
            db_members := t_delete (\<lambda>m. m_userId m = uid) (db_members d1),
            db_pins := t_delete (\<lambda>p. p_pinnedById p = uid) (db_pins d1),
            db_messages := t_update (\<lambda>g. True)
               (\<lambda>g. g\<lparr>msg_forwardedFromUserId := unref {uid} (msg_forwardedFromUserId g)\<rparr>) (db_messages d1),
            db_reactions := t_delete (\<lambda>r. r_userId r = uid) (db_reactions d1),
            db_friendships := t_delete (\<lambda>f. f_senderId f = uid \<or> f_receiverId f = uid) (db_friendships d1),
            db_pushSubs := t_delete (\<lambda>x. ps_userId x = uid) (db_pushSubs d1),
            db_pubKeys := t_delete (\<lambda>k. pk_userId k = uid) (db_pubKeys d1),
            db_bundlesV2 := t_delete (\<lambda>k. kb_userId k = uid) (db_bundlesV2 d1),
            db_senderKeys := t_delete (\<lambda>k. sk_senderId k = uid \<or> sk_recipientId k = uid) (db_senderKeys d1),
            db_reports := t_delete (\<lambda>r. rp_userId r = uid) (db_reports d1)\<rparr>)"

text \<open>\<open>prisma.user.update({ where: { id } })\<close>: \<open>P2025\<close> if there is no such user.\<close>

definition update_user :: "id \<Rightarrow> (user \<Rightarrow> user) \<Rightarrow> db \<Rightarrow> user result \<times> db" where
  "update_user uid f d =
     (case find_user d uid of None \<Rightarrow> (Inl (PrismaError ''P2025''), d)
      | Some u \<Rightarrow> (Inr (f u), d\<lparr>db_users := t_update (\<lambda>u. u_id u = uid) f (db_users d)\<rparr>))"

text \<open>
  \<open>prisma.$transaction\<close>: a body that throws leaves the database as it was, and the exception
  propagates.
\<close>

definition transaction :: "(db \<Rightarrow> 'a result \<times> db) \<Rightarrow> db \<Rightarrow> 'a result \<times> db" where
  "transaction body d = (case body d of (Inl e, d') \<Rightarrow> (Inl e, d) | (Inr x, d') \<Rightarrow> (Inr x, d'))"

lemma transaction_err: "fst (transaction body d) = Inl e \<Longrightarrow> snd (transaction body d) = d"
  by (auto simp: transaction_def split: prod.splits sum.splits)

lemma transaction_ok:
  "fst (transaction body d) = Inr x \<Longrightarrow> transaction body d = body d"
  by (auto simp: transaction_def split: prod.splits sum.splits)

section \<open>Facts about the lookups\<close>

lemma find_user_SomeD: "find_user d uid = Some u \<Longrightarrow> u \<in> set (rows (db_users d)) \<and> u_id u = uid"
  by (auto simp: find_user_def dest: t_find_SomeD)

lemma find_conv_SomeD: "find_conv d cid = Some c \<Longrightarrow> c \<in> set (rows (db_convs d)) \<and> c_id c = cid"
  by (auto simp: find_conv_def dest: t_find_SomeD)

lemma find_member_SomeD: "find_member d cid uid = Some m \<Longrightarrow>
    m \<in> set (rows (db_members d)) \<and> m_conversationId m = cid \<and> m_userId m = uid"
  by (auto simp: find_member_def dest: t_find_SomeD)

lemma find_message_SomeD: "find_message d mid = Some g \<Longrightarrow> g \<in> set (rows (db_messages d)) \<and> msg_id g = mid"
  by (auto simp: find_message_def dest: t_find_SomeD)

lemma find_session_SomeD: "find_session d sid = Some s \<Longrightarrow> s \<in> set (rows (db_sessions d)) \<and> s_id s = sid"
  by (auto simp: find_session_def dest: t_find_SomeD)

lemma find_device_SomeD: "find_device d did = Some x \<Longrightarrow> x \<in> set (rows (db_devices d)) \<and> d_id x = did"
  by (auto simp: find_device_def dest: t_find_SomeD)

lemmas find_SomeD = find_user_SomeD find_conv_SomeD find_member_SomeD find_message_SomeD
  find_session_SomeD find_device_SomeD

lemma update_user_err: "fst (update_user uid f d) = Inl e \<Longrightarrow> snd (update_user uid f d) = d"
  by (simp add: update_user_def split: option.splits)

lemma find_user_update:
  assumes "\<And>u. u_id (f u) = u_id u"
  shows "t_find (\<lambda>u. u_id u = k) (t_update (\<lambda>u. u_id u = uid) f t) =
         map_option (\<lambda>u. if u_id u = uid then f u else u) (t_find (\<lambda>u. u_id u = k) t)"
proof -
  have "find (\<lambda>u. u_id u = k) (map (\<lambda>r. if u_id r = uid then f r else r) us) =
        map_option (\<lambda>u. if u_id u = uid then f u else u) (find (\<lambda>u. u_id u = k) us)" for us
    using assms by (induction us) auto
  then show ?thesis by (simp add: t_find_def)
qed

section \<open>Referential integrity\<close>

abbreviation user_ids :: "db \<Rightarrow> id set" where "user_ids d \<equiv> u_id ` set (rows (db_users d))"
abbreviation conv_ids :: "db \<Rightarrow> id set" where "conv_ids d \<equiv> c_id ` set (rows (db_convs d))"
abbreviation message_ids :: "db \<Rightarrow> id set" where "message_ids d \<equiv> msg_id ` set (rows (db_messages d))"
abbreviation device_ids :: "db \<Rightarrow> id set" where "device_ids d \<equiv> d_id ` set (rows (db_devices d))"

definition opt_in :: "id option \<Rightarrow> id set \<Rightarrow> bool" where
  "opt_in r A \<longleftrightarrow> (case r of None \<Rightarrow> True | Some i \<Rightarrow> i \<in> A)"

lemma opt_in_unref: "opt_in r A \<Longrightarrow> A - ids \<subseteq> B \<Longrightarrow> opt_in (unref ids r) B"
  by (auto simp: opt_in_def unref_def split: option.splits)

lemma opt_in_mono: "opt_in r A \<Longrightarrow> A \<subseteq> B \<Longrightarrow> opt_in r B"
  by (auto simp: opt_in_def split: option.splits)

definition message_refs :: "id set \<Rightarrow> id set \<Rightarrow> id set \<Rightarrow> id set \<Rightarrow> message \<Rightarrow> bool" where
  "message_refs us cs ms ds g \<longleftrightarrow> msg_senderId g \<in> us \<and> msg_conversationId g \<in> cs
     \<and> opt_in (msg_replyToId g) ms \<and> opt_in (msg_forwardedFromId g) ms
     \<and> opt_in (msg_forwardedFromUserId g) us \<and> opt_in (msg_senderDeviceId g) ds"

definition user_refs :: "db \<Rightarrow> bool" where
  "user_refs d \<longleftrightarrow>
     (\<forall>s\<in>set (rows (db_sessions d)). s_userId s \<in> user_ids d \<and> opt_in (s_deviceId s) (device_ids d))
   \<and> (\<forall>m\<in>set (rows (db_members d)). m_userId m \<in> user_ids d \<and> m_conversationId m \<in> conv_ids d)
   \<and> (\<forall>f\<in>set (rows (db_friendships d)). f_senderId f \<in> user_ids d \<and> f_receiverId f \<in> user_ids d)
   \<and> (\<forall>x\<in>set (rows (db_pushSubs d)). ps_userId x \<in> user_ids d)
   \<and> (\<forall>x\<in>set (rows (db_pubKeys d)). pk_userId x \<in> user_ids d)
   \<and> (\<forall>x\<in>set (rows (db_bundlesV2 d)). kb_userId x \<in> user_ids d)
   \<and> (\<forall>x\<in>set (rows (db_senderKeys d)). sk_senderId x \<in> user_ids d \<and> sk_recipientId x \<in> user_ids d
        \<and> sk_conversationId x \<in> conv_ids d)
   \<and> (\<forall>x\<in>set (rows (db_devices d)). d_userId x \<in> user_ids d)
   \<and> (\<forall>x\<in>set (rows (db_reports d)). rp_userId x \<in> user_ids d)"

definition msg_refs :: "db \<Rightarrow> bool" where
  "msg_refs d \<longleftrightarrow>
     (\<forall>g\<in>set (rows (db_messages d)). message_refs (user_ids d) (conv_ids d) (message_ids d) (device_ids d) g)
   \<and> (\<forall>p\<in>set (rows (db_pins d)). p_conversationId p \<in> conv_ids d \<and> p_messageId p \<in> message_ids d
        \<and> p_pinnedById p \<in> user_ids d)
   \<and> (\<forall>r\<in>set (rows (db_reactions d)). r_userId r \<in> user_ids d \<and> r_messageId r \<in> message_ids d)
   \<and> (\<forall>e\<in>set (rows (db_envelopes d)). e_messageId e \<in> message_ids d \<and> e_deviceId e \<in> device_ids d)"

definition db_refs :: "db \<Rightarrow> bool" where
  "db_refs d \<longleftrightarrow> user_refs d \<and> msg_refs d"

lemma image_update_keep:
  "(\<And>r. key (f r) = key r) \<Longrightarrow> key ` set (rows (t_update P f t)) = key ` set (rows t)"
proof -
  assume "\<And>r. key (f r) = key r"
  then have "map key (rows (t_update P f t)) = map key (rows t)" by simp
  then show ?thesis by (metis list.set_map)
qed

lemma image_delete_supset: "key ` set (rows t) - key ` set (t_all P t) \<subseteq> key ` set (rows (t_delete P t))"
  by auto

lemma delete_messages_refs:
  assumes "db_refs d" shows "db_refs (delete_messages P d)"
proof -
  let ?ids = "msg_id ` set (t_all P (db_messages d))"
  let ?d = "delete_messages P d"
  have ids: "user_ids ?d = user_ids d" "conv_ids ?d = conv_ids d" "device_ids ?d = device_ids d"
    by (simp_all add: delete_messages_def Let_def)
  have mids: "message_ids ?d = msg_id ` set (rows (t_delete P (db_messages d)))"
    unfolding delete_messages_def Let_def by (simp add: image_update_keep del: rows_t_update rows_t_delete)
  have sup: "message_ids d - ?ids \<subseteq> message_ids ?d" unfolding mids by auto
  have "user_refs ?d" using assms by (simp add: db_refs_def user_refs_def delete_messages_def Let_def)
  moreover have "\<forall>g\<in>set (rows (db_messages ?d)). message_refs (user_ids d) (conv_ids d) (message_ids ?d) (device_ids d) g"
    using assms sup
    by (auto simp: db_refs_def msg_refs_def message_refs_def delete_messages_def Let_def intro: opt_in_unref)
  moreover have "\<forall>p\<in>set (rows (db_pins ?d)). p \<in> set (rows (db_pins d)) \<and> p_messageId p \<notin> ?ids"
    "\<forall>p\<in>set (rows (db_reactions ?d)). p \<in> set (rows (db_reactions d)) \<and> r_messageId p \<notin> ?ids"
    "\<forall>p\<in>set (rows (db_envelopes ?d)). p \<in> set (rows (db_envelopes d)) \<and> e_messageId p \<notin> ?ids"
    by (auto simp: delete_messages_def Let_def)
  ultimately show ?thesis
    using assms sup ids unfolding db_refs_def msg_refs_def
    by (simp only: ids) (meson Diff_iff subsetD)
qed

lemma delete_devices_refs:
  assumes "db_refs d" shows "db_refs (delete_devices P d)"
proof -
  let ?ids = "d_id ` set (t_all P (db_devices d))"
  let ?d = "delete_devices P d"
  have ids: "user_ids ?d = user_ids d" "conv_ids ?d = conv_ids d"
    by (simp_all add: delete_devices_def Let_def)
  have mids: "message_ids ?d = message_ids d"
    unfolding delete_devices_def Let_def by (simp add: image_update_keep del: rows_t_update)
  have sup: "device_ids d - ?ids \<subseteq> device_ids ?d" by (auto simp: delete_devices_def Let_def)
  have "user_refs ?d"
    using assms sup
    by (auto simp: db_refs_def user_refs_def delete_devices_def Let_def intro: opt_in_unref)
  moreover have "\<forall>g\<in>set (rows (db_messages ?d)). message_refs (user_ids d) (conv_ids d) (message_ids d) (device_ids ?d) g"
    using assms sup
    by (auto simp: db_refs_def msg_refs_def message_refs_def delete_devices_def Let_def intro: opt_in_unref)
  moreover have "rows (db_pins ?d) = rows (db_pins d)" "rows (db_reactions ?d) = rows (db_reactions d)"
    by (simp_all add: delete_devices_def Let_def)
  moreover have env: "\<forall>p\<in>set (rows (db_envelopes ?d)). p \<in> set (rows (db_envelopes d)) \<and> e_deviceId p \<notin> ?ids"
    by (auto simp: delete_devices_def Let_def)
  have "\<forall>p\<in>set (rows (db_envelopes ?d)). e_messageId p \<in> message_ids d \<and> e_deviceId p \<in> device_ids ?d"
  proof
    fix p assume p: "p \<in> set (rows (db_envelopes ?d))"
    then have "p \<in> set (rows (db_envelopes d))" "e_deviceId p \<notin> ?ids" using env by blast+
    moreover from this have "e_messageId p \<in> message_ids d" "e_deviceId p \<in> device_ids d"
      using assms unfolding db_refs_def msg_refs_def by blast+
    ultimately show "e_messageId p \<in> message_ids d \<and> e_deviceId p \<in> device_ids ?d" using sup by blast
  qed
  ultimately show ?thesis
    using assms sup ids mids unfolding db_refs_def msg_refs_def by auto
qed

text \<open>No row of any table belongs to or mentions the user.\<close>

definition user_gone :: "id \<Rightarrow> db \<Rightarrow> bool" where
  "user_gone uid d \<longleftrightarrow> uid \<notin> user_ids d
     \<and> (\<forall>s\<in>set (rows (db_sessions d)). s_userId s \<noteq> uid)
     \<and> (\<forall>m\<in>set (rows (db_members d)). m_userId m \<noteq> uid)
     \<and> (\<forall>p\<in>set (rows (db_pins d)). p_pinnedById p \<noteq> uid)
     \<and> (\<forall>g\<in>set (rows (db_messages d)). msg_senderId g \<noteq> uid \<and> msg_forwardedFromUserId g \<noteq> Some uid)
     \<and> (\<forall>r\<in>set (rows (db_reactions d)). r_userId r \<noteq> uid)
     \<and> (\<forall>f\<in>set (rows (db_friendships d)). f_senderId f \<noteq> uid \<and> f_receiverId f \<noteq> uid)
     \<and> (\<forall>x\<in>set (rows (db_pushSubs d)). ps_userId x \<noteq> uid)
     \<and> (\<forall>x\<in>set (rows (db_pubKeys d)). pk_userId x \<noteq> uid)
     \<and> (\<forall>x\<in>set (rows (db_bundlesV2 d)). kb_userId x \<noteq> uid)
     \<and> (\<forall>x\<in>set (rows (db_senderKeys d)). sk_senderId x \<noteq> uid \<and> sk_recipientId x \<noteq> uid)
     \<and> (\<forall>x\<in>set (rows (db_devices d)). d_userId x \<noteq> uid)
     \<and> (\<forall>x\<in>set (rows (db_reports d)). rp_userId x \<noteq> uid)"

lemma delete_user_gone: "user_gone uid (delete_user uid d)"
  unfolding user_gone_def
  by (auto simp: delete_user_def delete_devices_def delete_messages_def Let_def unref_def split: option.splits)

lemma delete_user_refs:
  assumes "db_refs d" shows "db_refs (delete_user uid d)"
proof -
  define d1 where "d1 = delete_devices (\<lambda>x. d_userId x = uid) (delete_messages (\<lambda>g. msg_senderId g = uid) d)"
  define d2 where "d2 = delete_user uid d"
  have refs: "db_refs d1" unfolding d1_def using assms by (intro delete_devices_refs delete_messages_refs)
  have no_dev: "\<forall>x\<in>set (rows (db_devices d1)). d_userId x \<noteq> uid"
    and no_msg: "\<forall>g\<in>set (rows (db_messages d1)). msg_senderId g \<noteq> uid"
    by (auto simp: d1_def delete_devices_def delete_messages_def Let_def)
  have d2: "d2 = d1\<lparr>db_users := t_delete (\<lambda>u. u_id u = uid) (db_users d1),
            db_sessions := t_delete (\<lambda>s. s_userId s = uid) (db_sessions d1),
            db_members := t_delete (\<lambda>m. m_userId m = uid) (db_members d1),
            db_pins := t_delete (\<lambda>p. p_pinnedById p = uid) (db_pins d1),
            db_messages := t_update (\<lambda>g. True)
               (\<lambda>g. g\<lparr>msg_forwardedFromUserId := unref {uid} (msg_forwardedFromUserId g)\<rparr>) (db_messages d1),
            db_reactions := t_delete (\<lambda>r. r_userId r = uid) (db_reactions d1),
            db_friendships := t_delete (\<lambda>f. f_senderId f = uid \<or> f_receiverId f = uid) (db_friendships d1),
            db_pushSubs := t_delete (\<lambda>x. ps_userId x = uid) (db_pushSubs d1),
            db_pubKeys := t_delete (\<lambda>k. pk_userId k = uid) (db_pubKeys d1),
            db_bundlesV2 := t_delete (\<lambda>k. kb_userId k = uid) (db_bundlesV2 d1),
            db_senderKeys := t_delete (\<lambda>k. sk_senderId k = uid \<or> sk_recipientId k = uid) (db_senderKeys d1),
            db_reports := t_delete (\<lambda>r. rp_userId r = uid) (db_reports d1)\<rparr>"
    by (simp add: d2_def delete_user_def d1_def Let_def)
  have us: "user_ids d2 = user_ids d1 - {uid}" by (auto simp: d2)
  have ids: "conv_ids d2 = conv_ids d1" "device_ids d2 = device_ids d1" by (simp_all add: d2)
  have mids: "message_ids d2 = message_ids d1" by (simp add: d2 image_update_keep del: rows_t_update)
  have "user_refs d2"
    using refs no_dev us ids unfolding db_refs_def user_refs_def by (auto simp: d2)
  moreover have "msg_refs d2"
    unfolding msg_refs_def us ids mids
    using refs no_msg unfolding db_refs_def msg_refs_def message_refs_def
    by (auto simp: d2 intro: opt_in_unref)
  ultimately show ?thesis by (simp add: db_refs_def d2_def)
qed

end
