(* ===== verification/Auth.thy ===== *)
theory Auth
  imports Schema
begin

text \<open>
  Accounts, sessions, password reset and two-factor authentication:
  \<open>server/src/auth/auth.service.ts\<close> and \<open>server/src/auth/utils/token.util.ts\<close>.

  What is not under \<open>src/\<close> is a parameter, collected in the record \<open>auth_env\<close>: the SHA-256
  digest, bcrypt, the JWT signer, the TOTP check, the geolocation database and whether the mail
  server accepts a mail.  Random tokens (\<open>rnd\<close>) and clock readings (\<open>now\<close>) are arguments.
  Methods that send mail also return the list of mails sent; \<open>refresh\<close> also returns its log lines.
  Console logging elsewhere, and the QR code picture that \<open>setup2FA\<close> renders from the returned
  secret, are not modelled.
\<close>

section \<open>Environment and data\<close>

datatype mail =
    VerificationMail jsstr jsstr
  | PasswordResetMail jsstr jsstr
  | SecurityUpgradeMail jsstr jsstr jsstr
  | AdminReportMail jsstr id

record jwt_payload =
  jwt_sub :: id
  jwt_email :: jsstr
  jwt_nickname :: jsstr
  jwt_role :: user_role
  jwt_avatarUrl :: "jsstr option"

record auth_env =
  sha256 :: "jsstr \<Rightarrow> jsstr"
  bcryptHash :: "jsstr \<Rightarrow> jsstr"
  bcryptCompare :: "jsstr \<Rightarrow> jsstr \<Rightarrow> bool"
  jwtSign :: "jwt_payload \<Rightarrow> jsstr"
  otpCheck :: "jsstr \<Rightarrow> jsstr option \<Rightarrow> bool"
  geoLookup :: "jsstr \<Rightarrow> (jsstr \<times> jsstr \<times> jsstr) option"
  mailOk :: "mail \<Rightarrow> bool"

record session_meta =
  meta_userAgent :: "jsstr option"
  meta_ip :: "jsstr option"

record tokens =
  tk_access :: jsstr
  tk_refresh :: jsstr

record register_dto =
  rd_email :: jsstr
  rd_password :: jsstr
  rd_confirmPassword :: jsstr
  rd_nickname :: jsstr
  rd_tosAccepted :: bool

datatype auth_log = LogReuse id | LogNotFound jsstr

definition MAX_SESSIONS :: nat where "MAX_SESSIONS = 5"
definition REFRESH_TOKEN_EXPIRY_MS :: int where "REFRESH_TOKEN_EXPIRY_MS = 7 * 24 * 60 * 60 * 1000"
definition RESET_TOKEN_EXPIRY_MS :: int where "RESET_TOKEN_EXPIRY_MS = 60 * 60 * 1000"
definition FIXED_DELAY_MS :: int where "FIXED_DELAY_MS = 500"

definition hashToken :: "auth_env \<Rightarrow> jsstr \<Rightarrow> jsstr" where
  "hashToken env token = sha256 env token"

section \<open>Issuing and rotating tokens\<close>

definition generateTokens :: "auth_env \<Rightarrow> jsstr \<Rightarrow> id \<Rightarrow> db \<Rightarrow> tokens result" where
  "generateTokens env rnd userId d =
     (case find_user d userId of
        None \<Rightarrow> Inl (PrismaError ''P2025'')
      | Some u \<Rightarrow>
          let payload = \<lparr>jwt_sub = u_id u, jwt_email = u_email u, jwt_nickname = u_nickname u,
                         jwt_role = u_role u, jwt_avatarUrl = u_avatarUrl u\<rparr>
          in Inr \<lparr>tk_access = jwtSign env payload, tk_refresh = rnd\<rparr>)"

definition rotateSession ::
  "auth_env \<Rightarrow> jsstr \<Rightarrow> time \<Rightarrow> id \<Rightarrow> id \<Rightarrow> session_meta \<Rightarrow> db \<Rightarrow> tokens result \<times> db" where
  "rotateSession env rnd now sessionId userId meta d =
     (case generateTokens env rnd userId d of
        Inl e \<Rightarrow> (Inl e, d)
      | Inr tk \<Rightarrow>
          let newHash = hashToken env (tk_refresh tk);
              current = find_session d sessionId
          in if current = None then (Inl (PrismaError ''P2025''), d)
             else if t_find (\<lambda>s. s_refreshToken s = newHash \<and> s_id s \<noteq> sessionId) (db_sessions d) \<noteq> None
             then (Inl (PrismaError ''P2002''), d)
             else (Inr tk,
                   d\<lparr>db_sessions := t_update (\<lambda>s. s_id s = sessionId)
                       (\<lambda>s. s\<lparr>s_refreshToken := newHash,
                             s_prevRefreshToken := map_option s_refreshToken current,
                             s_ipAddress := Some (str_or (meta_ip meta) (js ''unknown'')),
                             s_expiresAt := now + REFRESH_TOKEN_EXPIRY_MS\<rparr>) (db_sessions d)\<rparr>))"

definition issueTokens ::
  "auth_env \<Rightarrow> jsstr \<Rightarrow> time \<Rightarrow> id \<Rightarrow> session_meta \<Rightarrow> db \<Rightarrow> tokens result \<times> db" where
  "issueTokens env rnd now userId meta d =
     (let userAgent = str_or (meta_userAgent meta) (js ''unknown'')
      in case t_find (\<lambda>s. s_userId s = userId \<and> s_userAgent s = Some userAgent) (db_sessions d) of
           Some existing \<Rightarrow> rotateSession env rnd now (s_id existing) userId meta d
         | None \<Rightarrow>
             let activeSessions = sort_key s_createdAt (t_all (\<lambda>s. s_userId s = userId) (db_sessions d));
                 d1 = (if MAX_SESSIONS \<le> length activeSessions
                       then d\<lparr>db_sessions := t_delete (\<lambda>s. s_id s = s_id (hd activeSessions)) (db_sessions d)\<rparr>
                       else d)
             in case generateTokens env rnd userId d1 of
                  Inl e \<Rightarrow> (Inl e, d1)
                | Inr tk \<Rightarrow>
                    if t_find (\<lambda>s. s_refreshToken s = hashToken env (tk_refresh tk)) (db_sessions d1) \<noteq> None
                    then (Inl (PrismaError ''P2002''), d1)
                    else (Inr tk,
                          d1\<lparr>db_sessions := t_insert
                              (\<lambda>i. \<lparr>s_id = i, s_userId = userId,
                                   s_refreshToken = hashToken env (tk_refresh tk),
                                   s_userAgent = Some userAgent,
                                   s_ipAddress = Some (str_or (meta_ip meta) (js ''unknown'')),
                                   s_expiresAt = now + REFRESH_TOKEN_EXPIRY_MS, s_createdAt = now,
                                   s_prevRefreshToken = None, s_deviceId = None\<rparr>) (db_sessions d1)\<rparr>))"

section \<open>Register, login, refresh\<close>

definition register_body ::
  "auth_env \<Rightarrow> jsstr \<Rightarrow> jsstr \<Rightarrow> time \<Rightarrow> register_dto \<Rightarrow> session_meta \<Rightarrow> db \<Rightarrow> tokens result \<times> db" where
  "register_body env verifyToken rnd now dto meta d =
     (if t_find (\<lambda>u. u_email u = rd_email dto \<or> u_nickname u = rd_nickname dto) (db_users d) \<noteq> None
      then (Inl (Conflict ''User with this email or nickname already exists''), d)
      else
        let uid = nxt (db_users d);
            d1 = d\<lparr>db_users := t_insert
                   (\<lambda>i. \<lparr>u_id = i, u_email = rd_email dto, u_nickname = rd_nickname dto,
                        u_password = bcryptHash env (rd_password dto), u_role = USER,
                        u_avatarUrl = None, u_statusEmoji = None, u_isEmailVerified = False,
                        u_emailVerifyToken = Some (hashToken env verifyToken),
                        u_passwordResetToken = None, u_passwordResetExpires = None,
                        u_isOnline = False, u_lastSeen = now, u_tosAcceptedAt = Some now,
                        u_encryptedPrivateKey = None, u_privateKeySalt = None,
                        u_twoFactorSecret = None, u_twoFactorEnabled = False,
                        u_encryptedPrivateKeyV2 = None\<rparr>) (db_users d)\<rparr>
        in if \<not> mailOk env (VerificationMail (rd_email dto) verifyToken)
           then (Inl (ThrownError ''mail''), d1)
           else issueTokens env rnd now uid meta d1)"

definition register_mails :: "auth_env \<Rightarrow> jsstr \<Rightarrow> register_dto \<Rightarrow> db \<Rightarrow> mail list" where
  "register_mails env verifyToken dto d =
     (let m = VerificationMail (rd_email dto) verifyToken
      in if t_find (\<lambda>u. u_email u = rd_email dto \<or> u_nickname u = rd_nickname dto) (db_users d) = None
            \<and> mailOk env m then [m] else [])"

definition register ::
  "auth_env \<Rightarrow> jsstr \<Rightarrow> jsstr \<Rightarrow> time \<Rightarrow> register_dto \<Rightarrow> session_meta \<Rightarrow> db
     \<Rightarrow> (tokens result \<times> db) \<times> mail list" where
  "register env verifyToken rnd now dto meta d =
     (if \<not> rd_tosAccepted dto then ((Inl (BadRequest ''You must accept the Terms of Service''), d), [])
      else if rd_password dto \<noteq> rd_confirmPassword dto then ((Inl (BadRequest ''Passwords do not match''), d), [])
      else (transaction (register_body env verifyToken rnd now dto meta) d, register_mails env verifyToken dto d))"

definition login ::
  "auth_env \<Rightarrow> jsstr \<Rightarrow> time \<Rightarrow> jsstr \<Rightarrow> jsstr \<Rightarrow> session_meta \<Rightarrow> db \<Rightarrow> tokens result \<times> db" where
  "login env rnd now email password meta d =
     (case t_find (\<lambda>u. u_email u = email) (db_users d) of
        None \<Rightarrow> (Inl (Unauthorized ''Invalid credentials''), d)
      | Some user \<Rightarrow>
          if \<not> bcryptCompare env password (u_password user)
          then (Inl (Unauthorized ''Invalid credentials''), d)
          else if \<not> u_isEmailVerified user
          then (Inl (Unauthorized ''Please verify your email first''), d)
          else issueTokens env rnd now (u_id user) meta d)"

definition refresh_body ::
  "auth_env \<Rightarrow> jsstr \<Rightarrow> time \<Rightarrow> jsstr \<Rightarrow> session_meta \<Rightarrow> db \<Rightarrow> tokens result \<times> db" where
  "refresh_body env rnd now rawRefreshToken meta d =
     (case t_find (\<lambda>s. s_refreshToken s = hashToken env rawRefreshToken) (db_sessions d) of
        None \<Rightarrow> (Inl (Unauthorized ''Invalid or expired refresh token''), d)
      | Some session \<Rightarrow>
          if s_expiresAt session < now
          then (Inl (Unauthorized ''Refresh token expired, please log in again''),
                d\<lparr>db_sessions := t_delete (\<lambda>s. s_id s = s_id session) (db_sessions d)\<rparr>)
          else rotateSession env rnd now (s_id session) (s_userId session) meta d)"

definition refresh_log :: "auth_env \<Rightarrow> jsstr \<Rightarrow> db \<Rightarrow> auth_log list" where
  "refresh_log env rawRefreshToken d =
     (let hashed = hashToken env rawRefreshToken
      in case t_find (\<lambda>s. s_refreshToken s = hashed) (db_sessions d) of
           Some session \<Rightarrow> []
         | None \<Rightarrow>
             (case t_find (\<lambda>s. s_prevRefreshToken s = Some hashed) (db_sessions d) of
                Some reusedSession \<Rightarrow> [LogReuse (s_userId reusedSession)]
              | None \<Rightarrow> [LogNotFound (take 12 hashed)]))"

definition refresh ::
  "auth_env \<Rightarrow> jsstr \<Rightarrow> time \<Rightarrow> jsstr \<Rightarrow> session_meta \<Rightarrow> db \<Rightarrow> (tokens result \<times> db) \<times> auth_log list" where
  "refresh env rnd now rawRefreshToken meta d =
     (transaction (refresh_body env rnd now rawRefreshToken meta) d, refresh_log env rawRefreshToken d)"

section \<open>Password reset, password change, e-mail verification\<close>

text \<open>
  Both mail-sending methods pad their response time: \<open>finally\<close> sleeps for what is missing to
  \<open>FIXED_DELAY_MS\<close>, whichever branch was taken.  They read the clock when they start (\<open>start\<close>)
  and in \<open>finally\<close> (\<open>fin\<close>); the last component of their result is the time slept.
\<close>

definition padding :: "time \<Rightarrow> time \<Rightarrow> int" where
  "padding start fin =
     (let elapsed = fin - start in if elapsed < FIXED_DELAY_MS then FIXED_DELAY_MS - elapsed else 0)"

definition forgotPassword ::
  "auth_env \<Rightarrow> jsstr \<Rightarrow> time \<Rightarrow> time \<Rightarrow> time \<Rightarrow> jsstr \<Rightarrow> db
     \<Rightarrow> (unit result \<times> db) \<times> mail list \<times> int" where
  "forgotPassword env rawToken start now fin email d =
     (case t_find (\<lambda>u. u_email u = email) (db_users d) of
        None \<Rightarrow> ((Inr (), d), [], padding start fin)
      | Some user \<Rightarrow>
          if \<not> u_isEmailVerified user then ((Inr (), d), [], padding start fin)
          else
            let d1 = d\<lparr>db_users := t_update (\<lambda>u. u_id u = u_id user)
                        (\<lambda>u. u\<lparr>u_passwordResetToken := Some (hashToken env rawToken),
                              u_passwordResetExpires := Some (now + RESET_TOKEN_EXPIRY_MS)\<rparr>) (db_users d)\<rparr>;
                m = PasswordResetMail email rawToken
            in if mailOk env m then ((Inr (), d1), [m], padding start fin)
               else ((Inl (ThrownError ''mail''), d1), [], padding start fin))"

definition resetPassword :: "auth_env \<Rightarrow> time \<Rightarrow> jsstr \<Rightarrow> jsstr \<Rightarrow> db \<Rightarrow> unit result \<times> db" where
  "resetPassword env now token newPassword d =
     (case t_find (\<lambda>u. u_passwordResetToken u = Some (hashToken env token)
                     \<and> (case u_passwordResetExpires u of None \<Rightarrow> False | Some e \<Rightarrow> now < e)) (db_users d) of
        None \<Rightarrow> (Inl (BadRequest ''Invalid or expired token''), d)
      | Some user \<Rightarrow>
          (Inr (),
           d\<lparr>db_users := t_update (\<lambda>u. u_id u = u_id user)
               (\<lambda>u. u\<lparr>u_password := bcryptHash env newPassword, u_passwordResetToken := None,
                     u_passwordResetExpires := None\<rparr>) (db_users d),
             db_sessions := t_delete (\<lambda>s. s_userId s = u_id user) (db_sessions d)\<rparr>))"

definition changePassword :: "auth_env \<Rightarrow> id \<Rightarrow> jsstr \<Rightarrow> jsstr \<Rightarrow> db \<Rightarrow> unit result \<times> db" where
  "changePassword env userId oldPass newPass d =
     (case find_user d userId of
        None \<Rightarrow> (Inl (PrismaError ''P2025''), d)
      | Some user \<Rightarrow>
          if \<not> bcryptCompare env oldPass (u_password user)
          then (Inl (Unauthorized ''Current password incorrect''), d)
          else (Inr (),
                d\<lparr>db_users := t_update (\<lambda>u. u_id u = userId)
                    (\<lambda>u. u\<lparr>u_password := bcryptHash env newPass\<rparr>) (db_users d),
                  db_sessions := t_delete (\<lambda>s. s_userId s = userId) (db_sessions d)\<rparr>))"

definition verifyEmail :: "auth_env \<Rightarrow> jsstr \<Rightarrow> db \<Rightarrow> unit result \<times> db" where
  "verifyEmail env token d =
     (case t_find (\<lambda>u. u_emailVerifyToken u = Some (hashToken env token)) (db_users d) of
        None \<Rightarrow> (Inl (BadRequest ''Invalid token''), d)
      | Some user \<Rightarrow>
          (Inr (), d\<lparr>db_users := t_update (\<lambda>u. u_id u = u_id user)
                     (\<lambda>u. u\<lparr>u_isEmailVerified := True, u_emailVerifyToken := None\<rparr>) (db_users d)\<rparr>))"

definition resendVerificationEmail ::
  "auth_env \<Rightarrow> jsstr \<Rightarrow> time \<Rightarrow> time \<Rightarrow> jsstr \<Rightarrow> db
     \<Rightarrow> (unit result \<times> db) \<times> mail list \<times> int" where
  "resendVerificationEmail env verifyToken start fin email d =
     (case t_find (\<lambda>u. u_email u = email) (db_users d) of
        None \<Rightarrow> ((Inr (), d), [], padding start fin)
      | Some user \<Rightarrow>
          if u_isEmailVerified user then ((Inr (), d), [], padding start fin)
          else
            let d1 = d\<lparr>db_users := t_update (\<lambda>u. u_id u = u_id user)
                        (\<lambda>u. u\<lparr>u_emailVerifyToken := Some (hashToken env verifyToken)\<rparr>) (db_users d)\<rparr>;
                m = VerificationMail email verifyToken
            in if mailOk env m then ((Inr (), d1), [m], padding start fin)
               else ((Inl (ThrownError ''mail''), d1), [], padding start fin))"

section \<open>Logout, session termination, account deletion\<close>

definition logout :: "auth_env \<Rightarrow> jsstr \<Rightarrow> db \<Rightarrow> db" where
  "logout env rawRefreshToken d =
     d\<lparr>db_sessions := t_delete (\<lambda>s. s_refreshToken s = hashToken env rawRefreshToken) (db_sessions d)\<rparr>"

definition logoutAll :: "id \<Rightarrow> db \<Rightarrow> db" where
  "logoutAll userId d = d\<lparr>db_sessions := t_delete (\<lambda>s. s_userId s = userId) (db_sessions d)\<rparr>"

definition terminateSession :: "id \<Rightarrow> id \<Rightarrow> db \<Rightarrow> string result \<times> db" where
  "terminateSession userId sessionId d =
     (case find_session d sessionId of
        None \<Rightarrow> (Inr ''Session not found or already terminated'', d)
      | Some session \<Rightarrow>
          if s_userId session \<noteq> userId
          then (Inl (Forbidden ''Cannot terminate another user's session''), d)
          else (Inr ''Session terminated'',
                d\<lparr>db_sessions := t_delete (\<lambda>s. s_id s = sessionId) (db_sessions d)\<rparr>))"

definition verify2FAToken :: "auth_env \<Rightarrow> id \<Rightarrow> jsstr option \<Rightarrow> db \<Rightarrow> unit result" where
  "verify2FAToken env userId token d =
     (case find_user d userId of
        None \<Rightarrow> Inl (PrismaError ''P2025'')
      | Some user \<Rightarrow>
          if \<not> u_twoFactorEnabled user then Inr ()
          else if \<not> truthy token then Inl (Unauthorized ''2FA code required'')
          else if \<not> otpCheck env (the token) (u_twoFactorSecret user) then Inl (Unauthorized ''Invalid 2FA code'')
          else Inr ())"

definition deleteAccount :: "auth_env \<Rightarrow> id \<Rightarrow> jsstr \<Rightarrow> jsstr option \<Rightarrow> db \<Rightarrow> unit result \<times> db" where
  "deleteAccount env userId password twoFactorCode d =
     (case find_user d userId of
        None \<Rightarrow> (Inl (PrismaError ''P2025''), d)
      | Some user \<Rightarrow>
          if \<not> bcryptCompare env password (u_password user)
          then (Inl (Unauthorized ''Password incorrect''), d)
          else case verify2FAToken env userId twoFactorCode d of
                 Inl e \<Rightarrow> (Inl e, d)
               | Inr _ \<Rightarrow> (Inr (), delete_user userId d))"

section \<open>Listing sessions\<close>

text \<open>The regular expression \<open>^(127\.|10\.|172\.(1[6-9]|2\d|3[01])\.|192\.168\.|::1$|localhost)\<close>, ignoring case.\<close>

definition lower_ascii :: "nat \<Rightarrow> nat" where
  "lower_ascii c = (if 65 \<le> c \<and> c \<le> 90 then c + 32 else c)"

definition isPrivateIp :: "jsstr \<Rightarrow> bool" where
  "isPrivateIp ip \<longleftrightarrow>
     starts_with ip (js ''127.'') \<or> starts_with ip (js ''10.'')
     \<or> list_ex (\<lambda>p. starts_with ip (js ''172.'' @ js p @ js ''.''))
         [''16'', ''17'', ''18'', ''19'', ''20'', ''21'', ''22'', ''23'', ''24'', ''25'', ''26'', ''27'',
          ''28'', ''29'', ''30'', ''31'']
     \<or> starts_with ip (js ''192.168.'') \<or> ip = js ''::1''
     \<or> starts_with (map lower_ascii ip) (js ''localhost'')"

record session_view =
  sv_id :: id
  sv_userAgent :: "jsstr option"
  sv_ipAddress :: "jsstr option"
  sv_createdAt :: time
  sv_expiresAt :: time
  sv_location :: "jsstr option"

fun join_with :: "jsstr \<Rightarrow> jsstr list \<Rightarrow> jsstr" where
  "join_with sep [] = []"
| "join_with sep [x] = x"
| "join_with sep (x # y # ys) = x @ sep @ join_with sep (y # ys)"

definition session_location :: "auth_env \<Rightarrow> session \<Rightarrow> jsstr option" where
  "session_location env s =
     (case s_ipAddress s of
        None \<Rightarrow> None
      | Some ip \<Rightarrow>
          if ip = [] \<or> isPrivateIp ip then None
          else case geoLookup env ip of
                 None \<Rightarrow> None
               | Some (city, region, country) \<Rightarrow>
                   let l = join_with (js '', '') (filter (\<lambda>x. x \<noteq> []) [city, region, country])
                   in if l = [] then None else Some l)"

definition getUserSessions :: "auth_env \<Rightarrow> id \<Rightarrow> db \<Rightarrow> session_view list" where
  "getUserSessions env userId d =
     map (\<lambda>s. \<lparr>sv_id = s_id s, sv_userAgent = s_userAgent s, sv_ipAddress = s_ipAddress s,
               sv_createdAt = s_createdAt s, sv_expiresAt = s_expiresAt s,
               sv_location = session_location env s\<rparr>)
       (sort_key (\<lambda>s. - s_createdAt s) (t_all (\<lambda>s. s_userId s = userId) (db_sessions d)))"

section \<open>Two-factor authentication\<close>

definition get2FAStatus :: "id \<Rightarrow> db \<Rightarrow> bool result" where
  "get2FAStatus userId d =
     (case find_user d userId of None \<Rightarrow> Inl (PrismaError ''P2025'') | Some u \<Rightarrow> Inr (u_twoFactorEnabled u))"

definition setup2FA :: "jsstr \<Rightarrow> id \<Rightarrow> db \<Rightarrow> jsstr result \<times> db" where
  "setup2FA secret userId d =
     (case find_user d userId of
        None \<Rightarrow> (Inl (PrismaError ''P2025''), d)
      | Some u \<Rightarrow>
          (Inr secret, d\<lparr>db_users := t_update (\<lambda>u. u_id u = userId)
             (\<lambda>u. u\<lparr>u_twoFactorSecret := Some secret, u_twoFactorEnabled := False\<rparr>) (db_users d)\<rparr>))"

definition enable2FA :: "auth_env \<Rightarrow> id \<Rightarrow> jsstr \<Rightarrow> db \<Rightarrow> unit result \<times> db" where
  "enable2FA env userId token d =
     (case find_user d userId of
        None \<Rightarrow> (Inl (PrismaError ''P2025''), d)
      | Some u \<Rightarrow>
          if \<not> truthy (u_twoFactorSecret u)
          then (Inl (BadRequest ''2FA not set up. Call /2fa/setup first''), d)
          else if \<not> otpCheck env token (u_twoFactorSecret u)
          then (Inl (BadRequest ''Invalid 2FA token''), d)
          else (Inr (), d\<lparr>db_users := t_update (\<lambda>u. u_id u = userId)
                    (\<lambda>u. u\<lparr>u_twoFactorEnabled := True\<rparr>) (db_users d)\<rparr>))"

definition disable2FA :: "auth_env \<Rightarrow> id \<Rightarrow> jsstr \<Rightarrow> jsstr \<Rightarrow> db \<Rightarrow> unit result \<times> db" where
  "disable2FA env userId token password d =
     (case find_user d userId of
        None \<Rightarrow> (Inl (PrismaError ''P2025''), d)
      | Some u \<Rightarrow>
          if \<not> bcryptCompare env password (u_password u)
          then (Inl (Unauthorized ''Invalid password''), d)
          else if u_twoFactorEnabled u \<and> truthy (u_twoFactorSecret u) \<and> \<not> otpCheck env token (u_twoFactorSecret u)
          then (Inl (Unauthorized ''Invalid 2FA code''), d)
          else (Inr (), d\<lparr>db_users := t_update (\<lambda>u. u_id u = userId)
                    (\<lambda>u. u\<lparr>u_twoFactorEnabled := False, u_twoFactorSecret := None\<rparr>) (db_users d)\<rparr>))"

section \<open>Runs of the account service\<close>

datatype auth_op =
    Register jsstr jsstr time register_dto session_meta
  | Login jsstr time jsstr jsstr session_meta
  | Refresh jsstr time jsstr session_meta
  | ForgotPassword jsstr time time time jsstr
  | ResetPassword time jsstr jsstr
  | ChangePassword id jsstr jsstr
  | VerifyEmail jsstr
  | ResendVerification jsstr time time jsstr
  | Logout jsstr
  | LogoutAll id
  | TerminateSession id id
  | DeleteAccount id jsstr "jsstr option"
  | Setup2FA jsstr id
  | Enable2FA id jsstr
  | Disable2FA id jsstr jsstr

fun auth_step :: "auth_env \<Rightarrow> db \<Rightarrow> auth_op \<Rightarrow> db" where
  "auth_step env d (Register vt rnd now dto meta) = snd (fst (register env vt rnd now dto meta d))"
| "auth_step env d (Login rnd now email pw meta) = snd (login env rnd now email pw meta d)"
| "auth_step env d (Refresh rnd now tok meta) = snd (fst (refresh env rnd now tok meta d))"
| "auth_step env d (ForgotPassword tok start now fin email) =
     snd (fst (forgotPassword env tok start now fin email d))"
| "auth_step env d (ResetPassword now tok pw) = snd (resetPassword env now tok pw d)"
| "auth_step env d (ChangePassword uid old new) = snd (changePassword env uid old new d)"
| "auth_step env d (VerifyEmail tok) = snd (verifyEmail env tok d)"
| "auth_step env d (ResendVerification tok start fin email) =
     snd (fst (resendVerificationEmail env tok start fin email d))"
| "auth_step env d (Logout tok) = logout env tok d"
| "auth_step env d (LogoutAll uid) = logoutAll uid d"
| "auth_step env d (TerminateSession uid sid) = snd (terminateSession uid sid d)"
| "auth_step env d (DeleteAccount uid pw code) = snd (deleteAccount env uid pw code d)"
| "auth_step env d (Setup2FA secret uid) = snd (setup2FA secret uid d)"
| "auth_step env d (Enable2FA uid tok) = snd (enable2FA env uid tok d)"
| "auth_step env d (Disable2FA uid tok pw) = snd (disable2FA env uid tok pw d)"

text \<open>The one assumption about inputs: \<open>authenticator.generateSecret\<close> returns a non-empty string.\<close>

fun auth_op_ok :: "db \<Rightarrow> auth_op \<Rightarrow> bool" where
  "auth_op_ok d (Setup2FA secret uid) \<longleftrightarrow> secret \<noteq> []"
| "auth_op_ok d _ \<longleftrightarrow> True"

subsection \<open>The session table\<close>

definition sessions_ok :: "session table \<Rightarrow> bool" where
  "sessions_ok t \<longleftrightarrow> tbl_wf s_id t \<and> distinct (map s_refreshToken (rows t))
     \<and> distinct (map (\<lambda>s. (s_userId s, s_userAgent s)) (rows t))
     \<and> (\<forall>uid. t_count (\<lambda>s. s_userId s = uid) t \<le> MAX_SESSIONS)"

lemma sessions_ok_empty [simp]: "sessions_ok t_empty"
  by (simp add: sessions_ok_def t_count_def)

lemma count_filter_le: "length (filter (\<lambda>x. Q x \<and> P x) xs) \<le> length (filter P xs)"
  by (induction xs) auto

lemma sessions_ok_delete: "sessions_ok t \<Longrightarrow> sessions_ok (t_delete P t)"
  unfolding sessions_ok_def t_count_def
  by (auto simp: distinct_map_filter intro: le_trans[OF count_filter_le])

lemma sessions_ok_frame:
  assumes "sessions_ok t" and "\<And>s. s_id (f s) = s_id s" "\<And>s. s_userId (f s) = s_userId s"
    "\<And>s. s_userAgent (f s) = s_userAgent s" "\<And>s. s_refreshToken (f s) = s_refreshToken s"
  shows "sessions_ok (t_update P f t)"
proof -
  let ?g = "\<lambda>s. if P s then f s else s"
  have m: "map h (map ?g (rows t)) = map h (rows t)" if "\<And>s. h (f s) = h s" for h :: "session \<Rightarrow> 'b"
    using that by simp
  have "length (filter (\<lambda>s. s_userId s = uid) (map ?g (rows t))) =
        length (filter (\<lambda>s. s_userId s = uid) (rows t))" for uid
    using assms(3) by (simp add: filter_map o_def)
  then show ?thesis
    using assms m[of s_refreshToken] m[of "\<lambda>s. (s_userId s, s_userAgent s)"] tbl_wf_update[of s_id t f P]
    unfolding sessions_ok_def t_count_def by (simp del: map_map)
qed

lemma distinct_map_change_one:
  assumes "distinct (map key xs)" "distinct (map val xs)"
    and "\<forall>x\<in>set xs. key x \<noteq> k \<longrightarrow> val x \<noteq> v"
  shows "distinct (map (\<lambda>x. if key x = k then v else val x) xs)"
  using assms by (induction xs) (auto simp: image_iff)

lemma sessions_ok_rotate:
  assumes ok: "sessions_ok t"
    and fresh: "t_find (\<lambda>s. s_refreshToken s = h \<and> s_id s \<noteq> k) t = None"
    and f: "\<And>s. s_id (f s) = s_id s" "\<And>s. s_userId (f s) = s_userId s"
      "\<And>s. s_userAgent (f s) = s_userAgent s" "\<And>s. s_refreshToken (f s) = h"
  shows "sessions_ok (t_update (\<lambda>s. s_id s = k) f t)"
proof -
  let ?g = "\<lambda>s. if s_id s = k then f s else s"
  have "map s_refreshToken (map ?g (rows t)) = map (\<lambda>s. if s_id s = k then h else s_refreshToken s) (rows t)"
    using f(4) by simp
  moreover have "distinct (map (\<lambda>s. if s_id s = k then h else s_refreshToken s) (rows t))"
    using ok fresh
    by (intro distinct_map_change_one) (auto simp: sessions_ok_def tbl_wf_def t_find_None_iff)
  moreover have "map (\<lambda>s. (s_userId s, s_userAgent s)) (map ?g (rows t)) =
      map (\<lambda>s. (s_userId s, s_userAgent s)) (rows t)" using f by simp
  moreover have "length (filter (\<lambda>s. s_userId s = uid) (map ?g (rows t))) =
        length (filter (\<lambda>s. s_userId s = uid) (rows t))" for uid
    using f(2) by (simp add: filter_map o_def)
  ultimately show ?thesis
    using ok tbl_wf_update[of s_id t f] f(1) unfolding sessions_ok_def t_count_def
    by (simp del: map_map)
qed

lemma sessions_ok_insert:
  assumes ok: "sessions_ok t"
    and "t_find (\<lambda>s. s_refreshToken s = s_refreshToken (f (nxt t))) t = None"
    and "t_find (\<lambda>s. s_userId s = s_userId (f (nxt t)) \<and> s_userAgent s = s_userAgent (f (nxt t))) t = None"
    and "t_count (\<lambda>s. s_userId s = s_userId (f (nxt t))) t < MAX_SESSIONS"
    and "s_id (f (nxt t)) = nxt t"
  shows "sessions_ok (t_insert f t)"
  using assms tbl_wf_insert[of s_id t f] unfolding sessions_ok_def
  by (auto simp: t_count_def t_find_None_iff)

subsection \<open>The invariant of the account service\<close>

definition tfa_ok :: "user \<Rightarrow> bool" where
  "tfa_ok u \<longleftrightarrow> (u_twoFactorEnabled u \<longrightarrow> truthy (u_twoFactorSecret u))"

definition users_ok :: "user table \<Rightarrow> bool" where
  "users_ok t \<longleftrightarrow> tbl_wf u_id t \<and> distinct (map u_email (rows t)) \<and> distinct (map u_nickname (rows t))
     \<and> (\<forall>u\<in>set (rows t). tfa_ok u)"

definition auth_inv :: "db \<Rightarrow> bool" where
  "auth_inv d \<longleftrightarrow> users_ok (db_users d) \<and> sessions_ok (db_sessions d)
     \<and> (\<forall>s\<in>set (rows (db_sessions d)). \<exists>u\<in>set (rows (db_users d)). u_id u = s_userId s)"

lemma auth_inv_empty [simp]: "auth_inv empty_db"
  by (simp add: auth_inv_def users_ok_def empty_db_def)

lemma users_ok_update:
  assumes "users_ok t" and "\<And>u. u_id (f u) = u_id u" "\<And>u. u_email (f u) = u_email u"
    "\<And>u. u_nickname (f u) = u_nickname u" and "\<And>u. u \<in> set (rows t) \<Longrightarrow> P u \<Longrightarrow> tfa_ok u \<Longrightarrow> tfa_ok (f u)"
  shows "users_ok (t_update P f t)"
proof -
  let ?g = "\<lambda>u. if P u then f u else u"
  have m: "map h (map ?g (rows t)) = map h (rows t)" if "\<And>u. h (f u) = h u" for h :: "user \<Rightarrow> 'b"
    using that by simp
  have "\<forall>u\<in>set (map ?g (rows t)). tfa_ok u" using assms(1,5) by (auto simp: users_ok_def)
  then show ?thesis
    using assms m[of u_email] m[of u_nickname] tbl_wf_update[of u_id t f P]
    unfolding users_ok_def by (simp del: map_map)
qed

lemma users_ok_delete: "users_ok t \<Longrightarrow> users_ok (t_delete P t)"
  unfolding users_ok_def by (auto simp: distinct_map_filter)

lemma users_ok_insert:
  assumes "users_ok t" and "t_find (\<lambda>u. u_email u = u_email (f (nxt t)) \<or> u_nickname u = u_nickname (f (nxt t))) t = None"
    and "u_id (f (nxt t)) = nxt t" "tfa_ok (f (nxt t))"
  shows "users_ok (t_insert f t)"
  using assms tbl_wf_insert[of u_id t f] unfolding users_ok_def by (auto simp: t_find_None_iff)

text \<open>Changing columns of users other than id, e-mail and nickname, while deleting sessions.\<close>

lemma auth_inv_user_update:
  assumes "auth_inv d" and "\<And>u. u_id (f u) = u_id u" "\<And>u. u_email (f u) = u_email u"
    "\<And>u. u_nickname (f u) = u_nickname u"
    and "\<And>u. u \<in> set (rows (db_users d)) \<Longrightarrow> P u \<Longrightarrow> tfa_ok u \<Longrightarrow> tfa_ok (f u)"
  shows "auth_inv (d\<lparr>db_users := t_update P f (db_users d)\<rparr>)"
    and "auth_inv (d\<lparr>db_users := t_update P f (db_users d), db_sessions := t_delete Q (db_sessions d)\<rparr>)"
proof -
  have u: "users_ok (t_update P f (db_users d))"
    using assms by (intro users_ok_update) (auto simp: auth_inv_def)
  have "map u_id (rows (t_update P f (db_users d))) = map u_id (rows (db_users d))"
    using assms(2) by simp
  then have ids: "u_id ` set (rows (t_update P f (db_users d))) = u_id ` set (rows (db_users d))"
    by (metis list.set_map)
  have refs: "\<forall>s\<in>set (rows (db_sessions d)). \<exists>u\<in>set (rows (t_update P f (db_users d))). u_id u = s_userId s"
    using assms(1) ids unfolding auth_inv_def by (metis imageE imageI)
  show "auth_inv (d\<lparr>db_users := t_update P f (db_users d)\<rparr>)"
    using u refs assms(1) by (simp add: auth_inv_def del: rows_t_update)
  show "auth_inv (d\<lparr>db_users := t_update P f (db_users d), db_sessions := t_delete Q (db_sessions d)\<rparr>)"
    using u refs assms(1) sessions_ok_delete by (simp add: auth_inv_def del: rows_t_update)
qed

lemma auth_inv_delete_sessions:
  "auth_inv d \<Longrightarrow> auth_inv (d\<lparr>db_sessions := t_delete P (db_sessions d)\<rparr>)"
  using sessions_ok_delete by (auto simp: auth_inv_def)

lemma auth_inv_rotateSession:
  assumes "auth_inv d" shows "auth_inv (snd (rotateSession env rnd now k uid meta d))"
proof -
  have "sessions_ok (t_update (\<lambda>s. s_id s = k) f (db_sessions d))"
    if "t_find (\<lambda>s. s_refreshToken s = h \<and> s_id s \<noteq> k) (db_sessions d) = None"
      "\<And>s. s_id (f s) = s_id s" "\<And>s. s_userId (f s) = s_userId s"
      "\<And>s. s_userAgent (f s) = s_userAgent s" "\<And>s. s_refreshToken (f s) = h" for f h
    using assms that by (intro sessions_ok_rotate) (auto simp: auth_inv_def)
  then show ?thesis
    using assms by (auto simp: rotateSession_def Let_def auth_inv_def split: sum.split option.split)
qed

lemma length_filter_remove:
  assumes "x \<in> set xs" "P x" "\<not> Q x"
  shows "length (filter (\<lambda>y. Q y \<and> P y) xs) < length (filter P xs)"
proof -
  have "length (filter Q (filter P xs)) < length (filter P xs)"
    using assms by (intro length_filter_less) auto
  then show ?thesis by (simp add: conj_commute)
qed

lemma sessions_after_eviction:
  fixes t :: "session table" and uid :: id
  defines "act \<equiv> sort_key s_createdAt (t_all (\<lambda>s. s_userId s = uid) t)"
  assumes "sessions_ok t"
  shows "t_count (\<lambda>s. s_userId s = uid)
           (if MAX_SESSIONS \<le> length act then t_delete (\<lambda>s. s_id s = s_id (hd act)) t else t) < MAX_SESSIONS"
proof (cases "MAX_SESSIONS \<le> length act")
  case True
  have len: "length act = t_count (\<lambda>s. s_userId s = uid) t"
    unfolding act_def t_all_def t_count_def by simp
  have "act \<noteq> []" using True by (auto simp: MAX_SESSIONS_def)
  then have "hd act \<in> set act" by simp
  then have h: "hd act \<in> set (rows t)" "s_userId (hd act) = uid" unfolding act_def by auto
  have "length (filter (\<lambda>s. s_id s \<noteq> s_id (hd act) \<and> s_userId s = uid) (rows t)) < t_count (\<lambda>s. s_userId s = uid) t"
    unfolding t_count_def using h by (intro length_filter_remove) auto
  moreover have "t_count (\<lambda>s. s_userId s = uid) t \<le> MAX_SESSIONS" using assms(2) by (simp add: sessions_ok_def)
  ultimately show ?thesis using True by (simp add: t_count_def)
next
  case False
  then show ?thesis unfolding act_def t_all_def t_count_def by simp
qed

lemma auth_inv_issueTokens:
  assumes inv: "auth_inv d" shows "auth_inv (snd (issueTokens env rnd now uid meta d))"
proof -
  define ua where "ua = str_or (meta_userAgent meta) (js ''unknown'')"
  define act where "act = sort_key s_createdAt (t_all (\<lambda>s. s_userId s = uid) (db_sessions d))"
  define d1 where "d1 = (if MAX_SESSIONS \<le> length act
      then d\<lparr>db_sessions := t_delete (\<lambda>s. s_id s = s_id (hd act)) (db_sessions d)\<rparr> else d)"
  have inv1: "auth_inv d1" using inv auth_inv_delete_sessions by (auto simp: d1_def)
  have cnt: "t_count (\<lambda>s. s_userId s = uid) (db_sessions d1) < MAX_SESSIONS"
    using sessions_after_eviction[of "db_sessions d" uid] inv
    by (simp add: d1_def act_def auth_inv_def if_distrib cong: if_cong)
  have us: "find_user d1 uid = find_user d uid" by (simp add: d1_def find_user_def)
  have "auth_inv (d1\<lparr>db_sessions := t_insert f (db_sessions d1)\<rparr>)"
    if none: "t_find (\<lambda>s. s_userId s = uid \<and> s_userAgent s = Some ua) (db_sessions d) = None"
      and tk: "t_find (\<lambda>s. s_refreshToken s = h) (db_sessions d1) = None"
      and u: "find_user d1 uid \<noteq> None"
      and f: "\<And>i. s_id (f i) = i" "\<And>i. s_userId (f i) = uid" "\<And>i. s_userAgent (f i) = Some ua"
        "\<And>i. s_refreshToken (f i) = h" for f h
  proof -
    have "t_find (\<lambda>s. s_userId s = uid \<and> s_userAgent s = Some ua) (db_sessions d1) = None"
      using none by (auto simp: t_find_None_iff d1_def)
    then have "sessions_ok (t_insert f (db_sessions d1))"
      using inv1 tk cnt f by (intro sessions_ok_insert) (auto simp: auth_inv_def)
    moreover have "\<exists>u\<in>set (rows (db_users d1)). u_id u = uid"
      using u find_user_SomeD by blast
    ultimately show ?thesis using inv1 f by (auto simp: auth_inv_def)
  qed
  note created = this
  show ?thesis
    unfolding issueTokens_def Let_def ua_def[symmetric] act_def[symmetric] d1_def[symmetric]
    using inv1 auth_inv_rotateSession[OF inv]
    by (auto simp: generateTokens_def Let_def split: option.split intro!: created)
qed

lemma auth_inv_transaction:
  assumes "auth_inv d" and "auth_inv (snd (body d))" shows "auth_inv (snd (transaction body d))"
  using assms by (auto simp: transaction_def split: prod.splits sum.splits)

lemma auth_inv_register_body:
  assumes "auth_inv d" shows "auth_inv (snd (register_body env vt rnd now dto meta d))"
proof -
  have "auth_inv (d\<lparr>db_users := t_insert f (db_users d)\<rparr>)"
    if "t_find (\<lambda>u. u_email u = rd_email dto \<or> u_nickname u = rd_nickname dto) (db_users d) = None"
      "\<And>i. u_id (f i) = i" "\<And>i. u_email (f i) = rd_email dto" "\<And>i. u_nickname (f i) = rd_nickname dto"
      "\<And>i. tfa_ok (f i)" for f
    using assms that users_ok_insert[of "db_users d" f] by (auto simp: auth_inv_def)
  note created = this
  show ?thesis unfolding register_body_def Let_def
    using assms by (auto intro!: created auth_inv_issueTokens simp: tfa_ok_def)
qed

lemma auth_inv_delete_user:
  assumes "auth_inv d" shows "auth_inv (delete_user uid d)"
proof -
  let ?f = "\<lambda>ids s. s\<lparr>s_deviceId := unref ids (s_deviceId s)\<rparr>"
  have "sessions_ok (t_delete (\<lambda>s. s_userId s = uid) (t_update (\<lambda>s. True) (?f ids) (db_sessions d)))" for ids
    using assms by (intro sessions_ok_delete sessions_ok_frame) (auto simp: auth_inv_def)
  moreover have "\<exists>u. u \<in> set (rows (db_users d)) \<and> u_id u \<noteq> uid \<and> u_id u = s_userId x"
    if "s_userId x \<noteq> uid" "x \<in> set (rows (db_sessions d))" for x
    using assms that unfolding auth_inv_def by metis
  ultimately show ?thesis
    using assms
    by (auto simp: auth_inv_def delete_user_def delete_devices_def delete_messages_def Let_def
        intro: users_ok_delete)
qed

lemma auth_inv_step:
  assumes inv: "auth_inv d" and ok: "auth_op_ok d e" shows "auth_inv (auth_step env d e)"
proof (cases e)
  case (Login rnd now email pw meta)
  then show ?thesis using inv by (auto simp: login_def split: option.split intro: auth_inv_issueTokens)
next
  case (Register vt rnd now dto meta)
  then show ?thesis
    using inv auth_inv_transaction[OF inv, of "register_body env vt rnd now dto meta"]
      auth_inv_register_body[OF inv, of env vt rnd now dto meta]
    by (auto simp: register_def)
next
  case (Refresh rnd now tok meta)
  have "auth_inv (snd (refresh_body env rnd now tok meta d))"
    using inv auth_inv_rotateSession auth_inv_delete_sessions
    by (auto simp: refresh_body_def split: option.split)
  then show ?thesis using Refresh auth_inv_transaction[OF inv] by (auto simp: refresh_def)
next
  case (ForgotPassword tok start now fin email)
  then show ?thesis using inv
    by (auto simp: forgotPassword_def Let_def tfa_ok_def split: option.split intro!: auth_inv_user_update)
next
  case (ResetPassword now tok pw)
  then show ?thesis using inv
    by (auto simp: resetPassword_def tfa_ok_def split: option.split intro!: auth_inv_user_update)
next
  case (ChangePassword uid old new)
  then show ?thesis using inv
    by (auto simp: changePassword_def tfa_ok_def split: option.split intro!: auth_inv_user_update)
next
  case (VerifyEmail tok)
  then show ?thesis using inv
    by (auto simp: verifyEmail_def tfa_ok_def split: option.split intro!: auth_inv_user_update)
next
  case (ResendVerification tok start fin email)
  then show ?thesis using inv
    by (auto simp: resendVerificationEmail_def Let_def tfa_ok_def split: option.split intro!: auth_inv_user_update)
next
  case (Enable2FA uid tok)
  have "truthy (u_twoFactorSecret u)"
    if f: "find_user d uid = Some v" "truthy (u_twoFactorSecret v)" "u \<in> set (rows (db_users d))" "u_id u = uid"
    for u v
    using that inv find_user_SomeD[OF f(1)] tbl_wf_key_eq[of u_id "db_users d" u v]
    by (auto simp: auth_inv_def users_ok_def)
  then show ?thesis using Enable2FA inv
    by (auto simp: enable2FA_def tfa_ok_def split: option.split intro!: auth_inv_user_update)
next
  case (Setup2FA secret uid)
  then show ?thesis using inv
    by (auto simp: setup2FA_def tfa_ok_def split: option.split intro!: auth_inv_user_update)
next
  case (Disable2FA uid tok pw)
  then show ?thesis using inv
    by (auto simp: disable2FA_def tfa_ok_def split: option.split intro!: auth_inv_user_update)
next
  case (DeleteAccount uid pw code)
  then show ?thesis using inv
    by (auto simp: deleteAccount_def split: option.split sum.split intro!: auth_inv_delete_user)
qed (use inv in \<open>auto simp: logout_def logoutAll_def terminateSession_def split: option.split
       intro!: auth_inv_delete_sessions\<close>)

interpretation auth: run_invariant "auth_step env" auth_op_ok auth_inv for env
  by unfold_locales (rule auth_inv_step)

section \<open>Facts about single operations\<close>

lemma sessions_refresh_unique:
  assumes "auth_inv d" "s \<in> set (rows (db_sessions d))" "s' \<in> set (rows (db_sessions d))"
    "s_refreshToken s = s_refreshToken s'"
  shows "s = s'"
  using assms by (auto simp: auth_inv_def sessions_ok_def distinct_map inj_on_def)

lemma sessions_id_unique:
  assumes "auth_inv d" "s \<in> set (rows (db_sessions d))" "s' \<in> set (rows (db_sessions d))" "s_id s = s_id s'"
  shows "s = s'"
  using assms tbl_wf_key_eq[of s_id "db_sessions d" s s'] by (auto simp: auth_inv_def sessions_ok_def)

lemma find_session_member:
  assumes "auth_inv d" "s \<in> set (rows (db_sessions d))" shows "find_session d (s_id s) = Some s"
  using assms t_find_key[of s_id "db_sessions d" "s_id s" s]
  by (auto simp: find_session_def auth_inv_def sessions_ok_def)

lemma find_user_member:
  assumes "auth_inv d" "u \<in> set (rows (db_users d))" shows "find_user d (u_id u) = Some u"
  using assms t_find_key[of u_id "db_users d" "u_id u" u]
  by (auto simp: find_user_def auth_inv_def users_ok_def)

lemma generateTokens_ok:
  "find_user d uid \<noteq> None \<Longrightarrow> \<exists>tk. generateTokens env rnd uid d = Inr tk \<and> tk_refresh tk = rnd"
  by (auto simp: generateTokens_def Let_def)

lemma generateTokens_refresh: "generateTokens env rnd uid d = Inr tk \<Longrightarrow> tk_refresh tk = rnd"
  by (auto simp: generateTokens_def Let_def split: option.splits)

text \<open>What a successful rotation leaves in the session table.\<close>

lemma rotateSession_okD:
  assumes "rotateSession env rnd now k uid meta d = (Inr tk, d')"
  shows "tk_refresh tk = rnd"
    and "\<exists>c. find_session d k = Some c \<and> db_sessions d' = t_update (\<lambda>s. s_id s = k)
           (\<lambda>s. s\<lparr>s_refreshToken := hashToken env rnd, s_prevRefreshToken := Some (s_refreshToken c),
                 s_ipAddress := Some (str_or (meta_ip meta) (js ''unknown'')),
                 s_expiresAt := now + REFRESH_TOKEN_EXPIRY_MS\<rparr>) (db_sessions d)"
    and "db_users d' = db_users d"
  using assms
  by (auto simp: rotateSession_def Let_def dest: generateTokens_refresh split: sum.splits if_splits)

lemma rotateSession_ok:
  assumes "find_user d uid \<noteq> None" "find_session d k \<noteq> None"
    "t_find (\<lambda>s. s_refreshToken s = hashToken env rnd \<and> s_id s \<noteq> k) (db_sessions d) = None"
  shows "\<exists>tk. fst (rotateSession env rnd now k uid meta d) = Inr tk"
proof -
  obtain tk where "generateTokens env rnd uid d = Inr tk" "tk_refresh tk = rnd"
    using generateTokens_ok[OF assms(1)] by blast
  then show ?thesis using assms by (auto simp: rotateSession_def Let_def)
qed

lemma refresh_okD:
  assumes "fst (refresh env rnd now tok meta d) = (Inr tk, d')"
  shows "\<exists>s. s \<in> set (rows (db_sessions d)) \<and> s_refreshToken s = hashToken env tok \<and> now \<le> s_expiresAt s
           \<and> rotateSession env rnd now (s_id s) (s_userId s) meta d = (Inr tk, d')"
proof -
  have "transaction (refresh_body env rnd now tok meta) d = (Inr tk, d')"
    using assms by (simp add: refresh_def)
  then have "refresh_body env rnd now tok meta d = (Inr tk, d')"
    by (auto simp: transaction_def split: prod.splits sum.splits)
  then show ?thesis
    by (auto simp: refresh_body_def dest!: t_find_SomeD split: option.splits if_splits)
qed

section \<open>Properties\<close>

text \<open>C1. In every state the account service reaches from an empty database, a user has at most five
  sessions and at most one per user agent, no two sessions share a refresh-token hash, every session
  belongs to an existing user, e-mails and nicknames are unique, and two-factor authentication is only
  enabled where a secret is stored.\<close>

theorem auth_reachable_invariant:
  assumes "run_ok auth_op_ok (auth_step env) empty_db ops"
    and "d = run (auth_step env) empty_db ops"
  shows "(\<forall>uid. t_count (\<lambda>s. s_userId s = uid) (db_sessions d) \<le> 5)
    \<and> distinct (map (\<lambda>s. (s_userId s, s_userAgent s)) (rows (db_sessions d)))
    \<and> distinct (map s_refreshToken (rows (db_sessions d)))
    \<and> (\<forall>s\<in>set (rows (db_sessions d)). \<exists>u\<in>set (rows (db_users d)). u_id u = s_userId s)
    \<and> distinct (map u_email (rows (db_users d))) \<and> distinct (map u_nickname (rows (db_users d)))
    \<and> (\<forall>u\<in>set (rows (db_users d)). u_twoFactorEnabled u \<longrightarrow> truthy (u_twoFactorSecret u))"
proof -
  have "auth_inv d" unfolding assms(2) using auth_inv_empty assms(1) by (rule auth.run_inv)
  then show ?thesis by (simp add: auth_inv_def sessions_ok_def users_ok_def tfa_ok_def MAX_SESSIONS_def)
qed

text \<open>A concrete environment and database for the witnesses.\<close>

definition demo_env :: auth_env where
  "demo_env = \<lparr>sha256 = (\<lambda>t. 0 # t), bcryptHash = (\<lambda>p. 1 # p), bcryptCompare = (\<lambda>p h. h = 1 # p),
     jwtSign = (\<lambda>p. jwt_email p), otpCheck = (\<lambda>t s. s = Some t), geoLookup = (\<lambda>ip. None),
     mailOk = (\<lambda>m. True)\<rparr>"

definition demo_user :: "id \<Rightarrow> jsstr \<Rightarrow> user" where
  "demo_user i name = \<lparr>u_id = i, u_email = name, u_nickname = name, u_password = [1, 5], u_role = USER,
     u_avatarUrl = None, u_statusEmoji = None, u_isEmailVerified = True, u_emailVerifyToken = None,
     u_passwordResetToken = Some [0, 9], u_passwordResetExpires = Some 1000, u_isOnline = False, u_lastSeen = 0,
     u_tosAcceptedAt = Some 0, u_encryptedPrivateKey = None, u_privateKeySalt = None,
     u_twoFactorSecret = Some [42], u_twoFactorEnabled = True, u_encryptedPrivateKeyV2 = None\<rparr>"

definition demo_session :: session where
  "demo_session = \<lparr>s_id = 1, s_userId = 1, s_refreshToken = [0, 7], s_userAgent = Some [3], s_ipAddress = None,
     s_expiresAt = 500, s_createdAt = 0, s_prevRefreshToken = None, s_deviceId = None\<rparr>"

definition demo_db :: db where
  "demo_db = empty_db\<lparr>db_users := \<lparr>rows = [demo_user 1 [65], demo_user 2 [66]], nxt = 3\<rparr>,
     db_sessions := \<lparr>rows = [demo_session], nxt = 2\<rparr>\<rparr>"

definition demo_meta :: session_meta where
  "demo_meta = \<lparr>meta_userAgent = Some [3], meta_ip = None\<rparr>"

lemmas demo_defs = demo_env_def demo_user_def demo_session_def demo_db_def demo_meta_def empty_db_def

lemma demo_inv: "auth_inv demo_db"
  by (auto simp: auth_inv_def users_ok_def sessions_ok_def tbl_wf_def tfa_ok_def demo_defs t_count_def
      MAX_SESSIONS_def)

lemma demo_inj: "inj (sha256 demo_env)"
  by (auto simp: demo_env_def inj_def)

theorem auth_reachable_invariant_witness:
  "t_count (\<lambda>s. s_userId s = 1)
     (db_sessions (run (auth_step demo_env) empty_db
        [Register [1] [2] 0 \<lparr>rd_email = [65], rd_password = [5], rd_confirmPassword = [5], rd_nickname = [65],
            rd_tosAccepted = True\<rparr> demo_meta, Setup2FA [8] 1])) \<le> 5"
  using auth_reachable_invariant[OF _ refl, of demo_env
      "[Register [1] [2] 0 \<lparr>rd_email = [65], rd_password = [5], rd_confirmPassword = [5], rd_nickname = [65],
            rd_tosAccepted = True\<rparr> demo_meta, Setup2FA [8] 1]"]
  by simp



text \<open>A failing refresh is rolled back: it leaves the database as it was, also when the session has
  expired and the code asked for its deletion before it threw.\<close>

theorem refresh_failure_rolls_back:
  assumes "fst (fst (refresh env rnd now tok meta d)) = Inl e"
  shows "snd (fst (refresh env rnd now tok meta d)) = d"
  using assms by (auto simp: refresh_def intro: transaction_err)

theorem refresh_failure_rolls_back_witness:
  "fst (fst (refresh demo_env [8] 600 [7] demo_meta demo_db))
      = Inl (Unauthorized ''Refresh token expired, please log in again'')
   \<and> snd (fst (refresh demo_env [8] 600 [7] demo_meta demo_db)) = demo_db"
proof -
  have e: "fst (fst (refresh demo_env [8] 600 [7] demo_meta demo_db))
      = Inl (Unauthorized ''Refresh token expired, please log in again'')"
    by (simp add: refresh_def refresh_body_def transaction_def hashToken_def t_find_def demo_defs)
  show ?thesis using refresh_failure_rolls_back[OF e] e by simp
qed

text \<open>A password reset consumes its token and logs the user out everywhere: the account found by the
  unexpired token has the new password, no pending token and no session left, all other accounts and
  sessions are untouched, and the same token is refused from then on unless another account holds it.\<close>

theorem reset_password_effect:
  assumes inv: "auth_inv d" and ok: "resetPassword env now tok pw d = (Inr (), d')"
  shows "\<exists>u\<in>set (rows (db_users d)).
       u_passwordResetToken u = Some (hashToken env tok)
     \<and> (\<exists>e. u_passwordResetExpires u = Some e \<and> now < e)
     \<and> find_user d' (u_id u) = Some (u\<lparr>u_password := bcryptHash env pw, u_passwordResetToken := None,
                                         u_passwordResetExpires := None\<rparr>)
     \<and> t_all (\<lambda>s. s_userId s = u_id u) (db_sessions d') = []
     \<and> t_all (\<lambda>s. s_userId s \<noteq> u_id u) (db_sessions d') = t_all (\<lambda>s. s_userId s \<noteq> u_id u) (db_sessions d)
     \<and> (\<forall>k. k \<noteq> u_id u \<longrightarrow> find_user d' k = find_user d k)
     \<and> ((\<forall>v\<in>set (rows (db_users d)). v \<noteq> u \<longrightarrow> u_passwordResetToken v \<noteq> Some (hashToken env tok)) \<longrightarrow>
          fst (resetPassword env now' tok pw' d') = Inl (BadRequest ''Invalid or expired token''))"
proof -
  obtain u where u: "t_find (\<lambda>u. u_passwordResetToken u = Some (hashToken env tok)
             \<and> (case u_passwordResetExpires u of None \<Rightarrow> False | Some e \<Rightarrow> now < e)) (db_users d) = Some u"
    and d': "d' = d\<lparr>db_users := t_update (\<lambda>v. u_id v = u_id u)
               (\<lambda>v. v\<lparr>u_password := bcryptHash env pw, u_passwordResetToken := None,
                     u_passwordResetExpires := None\<rparr>) (db_users d),
             db_sessions := t_delete (\<lambda>s. s_userId s = u_id u) (db_sessions d)\<rparr>"
    using ok by (auto simp: resetPassword_def split: option.splits)
  have mem: "u \<in> set (rows (db_users d))" "u_passwordResetToken u = Some (hashToken env tok)"
    "\<exists>e. u_passwordResetExpires u = Some e \<and> now < e"
    using t_find_SomeD[OF u] by (auto split: option.splits)
  have fu: "find_user d' k = map_option (\<lambda>v. if u_id v = u_id u then v\<lparr>u_password := bcryptHash env pw,
      u_passwordResetToken := None, u_passwordResetExpires := None\<rparr> else v) (find_user d k)" for k
    unfolding d' find_user_def by (simp add: find_user_update)
  have other: "find_user d' k = find_user d k" if "k \<noteq> u_id u" for k
    using that fu[of k] find_user_SomeD[of d k] by (cases "find_user d k") auto
  have dead: "t_find (\<lambda>v. u_passwordResetToken v = Some (hashToken env tok)
             \<and> (case u_passwordResetExpires v of None \<Rightarrow> False | Some e \<Rightarrow> now' < e)) (db_users d') = None"
    if "\<forall>v\<in>set (rows (db_users d)). v \<noteq> u \<longrightarrow> u_passwordResetToken v \<noteq> Some (hashToken env tok)"
    using that unfolding d' by (auto simp: t_find_None_iff split: if_splits)
  have "filter (\<lambda>s. s_userId s \<noteq> u_id u \<and> s_userId s \<noteq> u_id u) xs = filter (\<lambda>s. s_userId s \<noteq> u_id u) xs" for xs
    by simp
  then show ?thesis
    using mem fu[of "u_id u"] find_user_member[OF inv mem(1)] other dead
    by (intro bexI[OF _ mem(1)]) (auto simp: t_all_def d' resetPassword_def filter_empty_conv)
qed

theorem reset_password_effect_witness:
  "\<exists>u\<in>set (rows (db_users demo_db)). t_all (\<lambda>s. s_userId s = u_id u)
     (db_sessions (snd (resetPassword demo_env 10 [9] [6] demo_db))) = []"
proof -
  have r: "resetPassword demo_env 10 [9] [6] demo_db
      = (Inr (), snd (resetPassword demo_env 10 [9] [6] demo_db))"
    by (simp add: resetPassword_def t_find_def hashToken_def demo_defs)
  show ?thesis using reset_password_effect[OF demo_inv r] by blast
qed

lemma kept_by_delete:
  "(\<And>s. s_userId s = v \<Longrightarrow> s \<in> set xs \<Longrightarrow> \<not> P s) \<Longrightarrow>
     filter (\<lambda>s. s_userId s = v) (filter (\<lambda>s. \<not> P s) xs) = filter (\<lambda>s. s_userId s = v) xs"
  by (induction xs) auto

text \<open>Ending sessions is confined to the caller's own: terminating a session, logging out everywhere and
  changing the password leave the sessions of every other user as they are, in any state of the service.\<close>

theorem session_removal_is_own:
  assumes inv: "auth_inv d" and other: "v \<noteq> uid"
  shows "t_all (\<lambda>s. s_userId s = v) (db_sessions (snd (terminateSession uid sid d)))
           = t_all (\<lambda>s. s_userId s = v) (db_sessions d)
    \<and> t_all (\<lambda>s. s_userId s = v) (db_sessions (logoutAll uid d)) = t_all (\<lambda>s. s_userId s = v) (db_sessions d)
    \<and> t_all (\<lambda>s. s_userId s = v) (db_sessions (snd (changePassword env uid old new d)))
           = t_all (\<lambda>s. s_userId s = v) (db_sessions d)"
proof -
  have "filter (\<lambda>s. s_userId s = v) (filter (\<lambda>s. \<not> s_id s = sid) (rows (db_sessions d)))
      = filter (\<lambda>s. s_userId s = v) (rows (db_sessions d))"
    if f: "find_session d sid = Some x" "s_userId x = uid" for x
    using find_session_SomeD[OF f(1)] f(2) sessions_id_unique[OF inv] other by (intro kept_by_delete) blast
  moreover have "filter (\<lambda>s. s_userId s = v) (filter (\<lambda>s. \<not> s_userId s = uid) (rows (db_sessions d)))
      = filter (\<lambda>s. s_userId s = v) (rows (db_sessions d))"
    using other by (intro kept_by_delete) auto
  ultimately show ?thesis
    by (auto simp: terminateSession_def logoutAll_def changePassword_def t_all_def simp del: filter_filter
        split: option.split)
qed

theorem session_removal_is_own_witness:
  "t_all (\<lambda>s. s_userId s = 1) (db_sessions (logoutAll 2 demo_db)) = t_all (\<lambda>s. s_userId s = 1) (db_sessions demo_db)"
proof -
  have "(1 :: id) \<noteq> 2" by simp
  then show ?thesis using session_removal_is_own[OF demo_inv] by blast
qed

lemma find_by_email_ok:
  assumes "auth_inv d" "u \<in> set (rows (db_users d))"
  shows "t_find (\<lambda>v. u_email v = u_email u) (db_users d) = Some u"
proof -
  obtain v where v: "t_find (\<lambda>v. u_email v = u_email u) (db_users d) = Some v"
    using assms(2) t_find_None_iff[of "\<lambda>v. u_email v = u_email u" "db_users d"]
    by (cases "t_find (\<lambda>v. u_email v = u_email u) (db_users d)") auto
  then have "v \<in> set (rows (db_users d))" "u_email v = u_email u" by (auto dest: t_find_SomeD)
  then have "v = u" using assms by (auto simp: auth_inv_def users_ok_def distinct_map inj_on_def)
  then show ?thesis using v by simp
qed

lemma issueTokens_ok:
  assumes inv: "auth_inv d" and u: "find_user d uid \<noteq> None"
    and fresh: "\<forall>s\<in>set (rows (db_sessions d)). s_refreshToken s \<noteq> hashToken env rnd"
  shows "\<exists>tk. fst (issueTokens env rnd now uid meta d) = Inr tk \<and> tk_refresh tk = rnd"
proof -
  have fr: "t_find (\<lambda>s. s_refreshToken s = hashToken env rnd \<and> s_id s \<noteq> k) (db_sessions d) = None" for k
    using fresh by (auto simp: t_find_None_iff)
  have gt: "\<exists>tk. generateTokens env rnd uid d' = Inr tk \<and> tk_refresh tk = rnd" if "db_users d' = db_users d" for d'
    using u generateTokens_ok[of d' uid] that by (simp add: find_user_def)
  show ?thesis
  proof (cases "t_find (\<lambda>s. s_userId s = uid \<and> s_userAgent s = Some (str_or (meta_userAgent meta) (js ''unknown'')))
      (db_sessions d)")
    case (Some ex)
    then have "ex \<in> set (rows (db_sessions d))" by (auto dest: t_find_SomeD)
    then have "find_session d (s_id ex) \<noteq> None" using find_session_member[OF inv] by simp
    then obtain tk d' where "rotateSession env rnd now (s_id ex) uid meta d = (Inr tk, d')"
      using rotateSession_ok[OF u _ fr] by (metis prod.collapse)
    then show ?thesis using Some rotateSession_okD(1) by (auto simp: issueTokens_def Let_def)
  next
    case None
    let ?act = "sort_key s_createdAt (t_all (\<lambda>s. s_userId s = uid) (db_sessions d))"
    define d1 where "d1 = (if MAX_SESSIONS \<le> length ?act
       then d\<lparr>db_sessions := t_delete (\<lambda>s. s_id s = s_id (hd ?act)) (db_sessions d)\<rparr> else d)"
    obtain tk where tk: "generateTokens env rnd uid d1 = Inr tk" "tk_refresh tk = rnd"
      using gt[of d1] by (auto simp: d1_def)
    have "t_find (\<lambda>s. s_refreshToken s = hashToken env rnd) (db_sessions d1) = None"
      using fresh by (auto simp: t_find_None_iff d1_def)
    then show ?thesis
      using None tk unfolding issueTokens_def Let_def d1_def[symmetric] by simp
  qed
qed

text \<open>Login succeeds with the right password alone: for a verified account of the service and a fresh
  random token, a correct password yields tokens whether or not the account has two-factor authentication
  enabled; no code is asked for.\<close>

theorem login_password_suffices:
  assumes inv: "auth_inv d" and u: "u \<in> set (rows (db_users d))"
    and "u_isEmailVerified u" "bcryptCompare env pw (u_password u)"
    and fresh: "\<forall>s\<in>set (rows (db_sessions d)). s_refreshToken s \<noteq> hashToken env rnd"
  shows "\<exists>tk. fst (login env rnd now (u_email u) pw meta d) = Inr tk \<and> tk_refresh tk = rnd"
proof -
  have "find_user d (u_id u) \<noteq> None" using find_user_member[OF inv u] by simp
  then show ?thesis
    using assms issueTokens_ok[OF inv _ fresh] find_by_email_ok[OF inv u] by (simp add: login_def)
qed

theorem login_password_suffices_witness:
  "u_twoFactorEnabled (demo_user 1 [65])
   \<and> (\<exists>tk. fst (login demo_env [8] 0 (u_email (demo_user 1 [65])) [5] demo_meta demo_db) = Inr tk \<and> tk_refresh tk = [8])"
proof -
  have "\<exists>tk. fst (login demo_env [8] 0 (u_email (demo_user 1 [65])) [5] demo_meta demo_db) = Inr tk \<and> tk_refresh tk = [8]"
    by (rule login_password_suffices[OF demo_inv]) (simp_all add: demo_defs hashToken_def)
  then show ?thesis by (simp add: demo_user_def)
qed

text \<open>Starting the two-factor setup switches two-factor authentication off: for any account, enabled or
  not, \<open>setup2FA\<close> needs neither code nor password, and afterwards the second factor is no longer asked
  for, so that the account can be deleted with the password alone.\<close>

theorem setup2FA_disables:
  assumes inv: "auth_inv d" and u: "u \<in> set (rows (db_users d))"
    and d': "d' = snd (setup2FA secret (u_id u) d)"
  shows "verify2FAToken env (u_id u) None d' = Inr ()
    \<and> (bcryptCompare env pw (u_password u) \<longrightarrow> fst (deleteAccount env (u_id u) pw None d') = Inr ())"
proof -
  have "find_user d' (u_id u) = Some (u\<lparr>u_twoFactorSecret := Some secret, u_twoFactorEnabled := False\<rparr>)"
    using find_user_member[OF inv u] unfolding d' setup2FA_def
    by (simp add: find_user_def find_user_update)
  then show ?thesis by (simp add: verify2FAToken_def deleteAccount_def)
qed

theorem setup2FA_disables_witness:
  "verify2FAToken demo_env (u_id (demo_user 1 [65])) None demo_db \<noteq> Inr ()
   \<and> verify2FAToken demo_env (u_id (demo_user 1 [65])) None (snd (setup2FA [9] (u_id (demo_user 1 [65])) demo_db)) = Inr ()"
proof -
  have "demo_user 1 [65] \<in> set (rows (db_users demo_db))" by (simp add: demo_db_def)
  moreover have "verify2FAToken demo_env (u_id (demo_user 1 [65])) None demo_db \<noteq> Inr ()"
    by (simp add: verify2FAToken_def find_user_def t_find_def demo_defs)
  ultimately show ?thesis using setup2FA_disables[OF demo_inv _ refl] by blast
qed

text \<open>Account deletion is authorised and complete: it succeeds only with the account's password and, where
  two-factor authentication is enabled, a valid code; afterwards no row of any table mentions the user, and
  a database whose references were all valid still has only valid references.\<close>

theorem deleteAccount_complete:
  assumes ok: "deleteAccount env uid pw code d = (Inr (), d')" and refs: "db_refs d"
  shows "\<exists>u. find_user d uid = Some u \<and> bcryptCompare env pw (u_password u)
      \<and> (u_twoFactorEnabled u \<longrightarrow> (\<exists>c. code = Some c \<and> c \<noteq> [] \<and> otpCheck env c (u_twoFactorSecret u)))
      \<and> user_gone uid d' \<and> db_refs d'"
  using ok delete_user_gone[of uid d] delete_user_refs[OF refs, of uid]
  by (auto simp: deleteAccount_def verify2FAToken_def truthy_def split: option.splits if_splits sum.splits)

theorem deleteAccount_complete_witness:
  "user_gone 1 (snd (deleteAccount demo_env 1 [5] (Some [42]) demo_db))"
proof -
  have ok: "deleteAccount demo_env 1 [5] (Some [42]) demo_db = (Inr (), snd (deleteAccount demo_env 1 [5] (Some [42]) demo_db))"
    by (simp add: deleteAccount_def verify2FAToken_def find_user_def t_find_def demo_defs)
  have "db_refs demo_db"
    by (simp add: db_refs_def user_refs_def msg_refs_def demo_defs opt_in_def)
  then show ?thesis using deleteAccount_complete[OF ok] by blast
qed

text \<open>The password-reset and resend-verification endpoints do not reveal whether an account exists:
  when the mail server accepts mail and the work takes less than the fixed delay, any two addresses get the
  same result after the same time.\<close>

theorem no_account_enumeration:
  assumes "\<And>m. mailOk env m" and "fin - start < FIXED_DELAY_MS" and "fin' - start' < FIXED_DELAY_MS"
  shows "fst (fst (forgotPassword env t1 start now fin e1 d)) = fst (fst (forgotPassword env t2 start' now' fin' e2 d))
    \<and> fin - start + snd (snd (forgotPassword env t1 start now fin e1 d)) = FIXED_DELAY_MS
    \<and> fin' - start' + snd (snd (forgotPassword env t2 start' now' fin' e2 d)) = FIXED_DELAY_MS
    \<and> fst (fst (resendVerificationEmail env t1 start fin e1 d))
        = fst (fst (resendVerificationEmail env t2 start' fin' e2 d))
    \<and> fin - start + snd (snd (resendVerificationEmail env t1 start fin e1 d)) = FIXED_DELAY_MS"
  using assms
  by (auto simp: forgotPassword_def resendVerificationEmail_def padding_def Let_def split: option.split)

theorem no_account_enumeration_witness:
  "fst (fst (forgotPassword demo_env [1] 0 5 10 [65] demo_db)) = fst (fst (forgotPassword demo_env [1] 0 5 300 [90] demo_db))"
  using no_account_enumeration[of demo_env 10 0 300 0 "[1]" 5 "[65]" demo_db "[1]" 5 "[90]"]
  by (simp add: demo_env_def FIXED_DELAY_MS_def)

end
