(* ===== verification/AuthController.thy ===== *)
theory AuthController
  imports Auth
begin

text \<open>
  The HTTP layer of the account service: \<open>server/src/auth/auth.controller.ts\<close>, its DTO classes under
  \<open>server/src/auth/dto/\<close> and \<open>server/src/auth/decorators/current-user.decorator.ts\<close>.

  A handler takes what the framework hands it (the validated user of the JWT guard, or none; the request
  headers, address and cookie) and returns the response body or exception, the cookie commands of the
  response and the database.  \<open>isEmail\<close> stands for class-validator's e-mail check.  Request throttling is
  done by a library decorator and is not modelled.
\<close>

section \<open>Requests, cookies and validation\<close>

record http_req =
  rq_forwardedFor :: "jsstr option"
  rq_ip :: "jsstr option"
  rq_flyClientIp :: "jsstr option"
  rq_userAgent :: "jsstr option"
  rq_refreshCookie :: "jsstr option"

datatype same_site = SS_None | SS_Lax

record cookie_opts =
  ck_httpOnly :: bool
  ck_secure :: bool
  ck_sameSite :: same_site
  ck_path :: string
  ck_maxAge :: "int option"

datatype cookie_cmd = SetRefreshCookie jsstr cookie_opts | ClearRefreshCookie cookie_opts

type_synonym 'a reply = "('a result \<times> cookie_cmd list) \<times> db"

definition refresh_cookie_opts :: "bool \<Rightarrow> int option \<Rightarrow> cookie_opts" where
  "refresh_cookie_opts secure maxAge =
     \<lparr>ck_httpOnly = True, ck_secure = secure, ck_sameSite = (if secure then SS_None else SS_Lax),
      ck_path = ''/'', ck_maxAge = maxAge\<rparr>"

text \<open>\<open>secure\<close> is \<open>process.env.COOKIE_SECURE === 'true'\<close>.\<close>

definition setRefreshCookie :: "bool \<Rightarrow> jsstr \<Rightarrow> cookie_cmd" where
  "setRefreshCookie secure token =
     SetRefreshCookie token (refresh_cookie_opts secure (Some (7 * 24 * 60 * 60 * 1000)))"

definition clearRefreshCookie :: "bool \<Rightarrow> cookie_cmd" where
  "clearRefreshCookie secure = ClearRefreshCookie (refresh_cookie_opts secure None)"

definition extractMeta :: "http_req \<Rightarrow> session_meta" where
  "extractMeta req =
     (let xffFirst = (if truthy (rq_forwardedFor req)
                      then Some (trim (hd (split_on 44 (the (rq_forwardedFor req))))) else None);
          ip0 = str_or xffFirst (str_or (rq_ip req) (str_or (rq_flyClientIp req) (js ''unknown'')));
          ip1 = (if includes_str ip0 (js ''::ffff:'') then last (split_on 58 ip0) else ip0);
          ip2 = (if starts_with ip1 (js ''2001:19f0'') \<and> truthy (rq_ip req)
                    \<and> \<not> starts_with (the (rq_ip req)) (js ''2001:19f0'')
                 then the (rq_ip req) else ip1)
      in \<lparr>meta_userAgent = Some (str_or (rq_userAgent req) (js ''unknown'')), meta_ip = Some ip2\<rparr>)"

definition valid_register :: "(jsstr \<Rightarrow> bool) \<Rightarrow> register_dto \<Rightarrow> bool" where
  "valid_register isEmail dto \<longleftrightarrow> isEmail (rd_email dto) \<and> len_between 6 32 (rd_password dto)
     \<and> len_between 6 32 (rd_confirmPassword dto) \<and> len_between 3 20 (rd_nickname dto)"

definition valid_login :: "(jsstr \<Rightarrow> bool) \<Rightarrow> jsstr \<Rightarrow> jsstr \<Rightarrow> bool" where
  "valid_login isEmail email password \<longleftrightarrow> isEmail email \<and> 6 \<le> char_count password"

definition valid_changePassword :: "jsstr \<Rightarrow> bool" where
  "valid_changePassword newPassword \<longleftrightarrow> 6 \<le> char_count newPassword"

definition valid_resetPassword :: "jsstr \<Rightarrow> bool" where
  "valid_resetPassword newPassword \<longleftrightarrow> 6 \<le> char_count newPassword"

definition valid_code :: "jsstr \<Rightarrow> bool" where
  "valid_code token \<longleftrightarrow> char_count token = 6"

definition valid_deleteAccount :: "jsstr \<Rightarrow> jsstr option \<Rightarrow> bool" where
  "valid_deleteAccount password code \<longleftrightarrow>
     1 \<le> char_count password \<and> (case code of None \<Rightarrow> True | Some c \<Rightarrow> valid_code c)"

definition invalid :: "'a result" where
  "invalid = Inl (BadRequest ''Bad Request Exception'')"

text \<open>\<open>@UseGuards(JwtAuthGuard)\<close> and \<open>@CurrentUser('sub')\<close>: the handler runs with the user of the token.\<close>

definition with_user :: "id option \<Rightarrow> (id \<Rightarrow> 'a reply) \<Rightarrow> db \<Rightarrow> 'a reply" where
  "with_user auth h d = (case auth of None \<Rightarrow> ((Inl (Unauthorized ''Unauthorized''), []), d) | Some uid \<Rightarrow> h uid)"

section \<open>Handlers\<close>

definition ctl_register ::
  "auth_env \<Rightarrow> (jsstr \<Rightarrow> bool) \<Rightarrow> jsstr \<Rightarrow> jsstr \<Rightarrow> time \<Rightarrow> register_dto \<Rightarrow> http_req \<Rightarrow> db \<Rightarrow> string reply" where
  "ctl_register env isEmail vt rnd now dto req d =
     (if \<not> valid_register isEmail dto then ((invalid, []), d)
      else case fst (register env vt rnd now dto (extractMeta req) d) of
             (Inl e, d') \<Rightarrow> ((Inl e, []), d')
           | (Inr tk, d') \<Rightarrow> ((Inr ''Registration successful. Please check your email.'', []), d'))"

definition ctl_login ::
  "auth_env \<Rightarrow> (jsstr \<Rightarrow> bool) \<Rightarrow> bool \<Rightarrow> jsstr \<Rightarrow> time \<Rightarrow> jsstr \<Rightarrow> jsstr \<Rightarrow> http_req \<Rightarrow> db \<Rightarrow> jsstr reply" where
  "ctl_login env isEmail secure rnd now email password req d =
     (if \<not> valid_login isEmail email password then ((invalid, []), d)
      else case login env rnd now email password (extractMeta req) d of
             (Inl e, d') \<Rightarrow> ((Inl e, []), d')
           | (Inr tk, d') \<Rightarrow> ((Inr (tk_access tk), [setRefreshCookie secure (tk_refresh tk)]), d'))"

definition ctl_refresh :: "auth_env \<Rightarrow> bool \<Rightarrow> jsstr \<Rightarrow> time \<Rightarrow> http_req \<Rightarrow> db \<Rightarrow> jsstr reply" where
  "ctl_refresh env secure rnd now req d =
     (if \<not> truthy (rq_refreshCookie req) then ((Inl (Unauthorized ''Refresh token missing''), []), d)
      else case fst (refresh env rnd now (the (rq_refreshCookie req)) (extractMeta req) d) of
             (Inl e, d') \<Rightarrow> ((Inl e, []), d')
           | (Inr tk, d') \<Rightarrow> ((Inr (tk_access tk), [setRefreshCookie secure (tk_refresh tk)]), d'))"

definition ctl_logout :: "auth_env \<Rightarrow> bool \<Rightarrow> http_req \<Rightarrow> db \<Rightarrow> string reply" where
  "ctl_logout env secure req d =
     (let d' = (if truthy (rq_refreshCookie req) then logout env (the (rq_refreshCookie req)) d else d)
      in ((Inr ''Logged out successfully'', [clearRefreshCookie secure]), d'))"

definition ctl_getSessions :: "auth_env \<Rightarrow> id option \<Rightarrow> db \<Rightarrow> session_view list reply" where
  "ctl_getSessions env auth d = with_user auth (\<lambda>uid. ((Inr (getUserSessions env uid d), []), d)) d"

text \<open>\<open>verify\<close> answers with a redirect in both cases; the result is the page it redirects to.\<close>

definition ctl_verify :: "auth_env \<Rightarrow> jsstr \<Rightarrow> db \<Rightarrow> string reply" where
  "ctl_verify env token d =
     (case verifyEmail env token d of
        (Inr _, d') \<Rightarrow> ((Inr ''/auth/login?verified=true'', []), d')
      | (Inl e, d') \<Rightarrow> ((Inr ''/auth/verify-pending?error=invalid-token'', []), d'))"

definition ctl_resendVerification ::
  "auth_env \<Rightarrow> (jsstr \<Rightarrow> bool) \<Rightarrow> jsstr \<Rightarrow> time \<Rightarrow> time \<Rightarrow> jsstr \<Rightarrow> db \<Rightarrow> string reply" where
  "ctl_resendVerification env isEmail vt start fin email d =
     (if \<not> isEmail email then ((invalid, []), d)
      else case fst (resendVerificationEmail env vt start fin email d) of
             (Inl e, d') \<Rightarrow> ((Inl e, []), d')
           | (Inr _, d') \<Rightarrow> ((Inr ''If an unverified account with that email exists, a new verification link has been sent'', []), d'))"

definition ctl_logoutAll :: "bool \<Rightarrow> id option \<Rightarrow> db \<Rightarrow> string reply" where
  "ctl_logoutAll secure auth d =
     with_user auth (\<lambda>uid. ((Inr ''All sessions terminated'', [clearRefreshCookie secure]), logoutAll uid d)) d"

definition ctl_terminateSession :: "id option \<Rightarrow> id \<Rightarrow> db \<Rightarrow> string reply" where
  "ctl_terminateSession auth sessionId d =
     with_user auth (\<lambda>uid. case terminateSession uid sessionId d of (r, d') \<Rightarrow> ((r, []), d')) d"

definition ctl_deleteAccount ::
  "auth_env \<Rightarrow> bool \<Rightarrow> id option \<Rightarrow> jsstr \<Rightarrow> jsstr option \<Rightarrow> db \<Rightarrow> string reply" where
  "ctl_deleteAccount env secure auth password code d =
     with_user auth (\<lambda>uid.
       if \<not> valid_deleteAccount password code then ((invalid, []), d)
       else case deleteAccount env uid password code d of
              (Inl e, d') \<Rightarrow> ((Inl e, []), d')
            | (Inr _, d') \<Rightarrow> ((Inr ''Account deleted successfully'', [clearRefreshCookie secure]), d')) d"

definition ctl_changePassword :: "auth_env \<Rightarrow> id option \<Rightarrow> jsstr \<Rightarrow> jsstr \<Rightarrow> db \<Rightarrow> string reply" where
  "ctl_changePassword env auth current new d =
     with_user auth (\<lambda>uid.
       if \<not> valid_changePassword new then ((invalid, []), d)
       else case changePassword env uid current new d of
              (Inl e, d') \<Rightarrow> ((Inl e, []), d')
            | (Inr _, d') \<Rightarrow> ((Inr ''Password updated'', []), d')) d"

definition ctl_forgotPassword ::
  "auth_env \<Rightarrow> (jsstr \<Rightarrow> bool) \<Rightarrow> jsstr \<Rightarrow> time \<Rightarrow> time \<Rightarrow> time \<Rightarrow> jsstr \<Rightarrow> db \<Rightarrow> string reply" where
  "ctl_forgotPassword env isEmail tok start now fin email d =
     (if \<not> isEmail email then ((invalid, []), d)
      else case fst (forgotPassword env tok start now fin email d) of
             (Inl e, d') \<Rightarrow> ((Inl e, []), d')
           | (Inr _, d') \<Rightarrow> ((Inr ''If an account with that email exists, a reset link has been sent'', []), d'))"

definition ctl_resetPassword :: "auth_env \<Rightarrow> time \<Rightarrow> jsstr \<Rightarrow> jsstr \<Rightarrow> db \<Rightarrow> string reply" where
  "ctl_resetPassword env now token newPassword d =
     (if \<not> valid_resetPassword newPassword then ((invalid, []), d)
      else case resetPassword env now token newPassword d of
             (Inl e, d') \<Rightarrow> ((Inl e, []), d')
           | (Inr _, d') \<Rightarrow> ((Inr ''Password changed. You can log in now.'', []), d'))"

definition ctl_get2FAStatus :: "id option \<Rightarrow> db \<Rightarrow> bool reply" where
  "ctl_get2FAStatus auth d = with_user auth (\<lambda>uid. ((get2FAStatus uid d, []), d)) d"

definition ctl_setup2FA :: "jsstr \<Rightarrow> id option \<Rightarrow> db \<Rightarrow> jsstr reply" where
  "ctl_setup2FA secret auth d = with_user auth (\<lambda>uid. case setup2FA secret uid d of (r, d') \<Rightarrow> ((r, []), d')) d"

definition ctl_enable2FA :: "auth_env \<Rightarrow> id option \<Rightarrow> jsstr \<Rightarrow> db \<Rightarrow> unit reply" where
  "ctl_enable2FA env auth token d =
     with_user auth (\<lambda>uid. if \<not> valid_code token then ((invalid, []), d)
       else case enable2FA env uid token d of (r, d') \<Rightarrow> ((r, []), d')) d"

definition ctl_disable2FA :: "auth_env \<Rightarrow> id option \<Rightarrow> jsstr \<Rightarrow> jsstr \<Rightarrow> db \<Rightarrow> unit reply" where
  "ctl_disable2FA env auth token password d =
     with_user auth (\<lambda>uid. if \<not> valid_code token then ((invalid, []), d)
       else case disable2FA env uid token password d of (r, d') \<Rightarrow> ((r, []), d')) d"

section \<open>Properties\<close>

lemma split_on_parts: "p \<in> set (split_on c xs) \<Longrightarrow> c \<notin> set p"
  by (induction xs arbitrary: p) (auto split: list.splits if_splits)

text \<open>A new refresh token is only ever handed out after the old one was accepted, in an http-only cookie:
  the refresh endpoint sets a cookie exactly when it answers with an access token, the cookie holds the fresh
  token, lives as long as the stored session and cannot be read by scripts, and on failure neither the
  database nor any cookie changes.\<close>

theorem refresh_endpoint_cookie:
  assumes "ctl_refresh env secure rnd now req d = ((r, cookies), d')"
  shows "(\<exists>e. r = Inl e \<and> cookies = [] \<and> d' = d)
    \<or> (\<exists>tok access s o'. rq_refreshCookie req = Some tok \<and> r = Inr access \<and> cookies = [SetRefreshCookie rnd o']
        \<and> ck_httpOnly o' \<and> (ck_sameSite o' = SS_None \<longrightarrow> ck_secure o')
        \<and> ck_maxAge o' = Some REFRESH_TOKEN_EXPIRY_MS
        \<and> s \<in> set (rows (db_sessions d)) \<and> s_refreshToken s = hashToken env tok \<and> now \<le> s_expiresAt s)"
proof (cases "truthy (rq_refreshCookie req)")
  case False
  then show ?thesis using assms by (auto simp: ctl_refresh_def)
next
  case True
  then obtain tok where tok: "rq_refreshCookie req = Some tok" by (cases "rq_refreshCookie req") auto
  obtain r0 d0 where rf: "fst (refresh env rnd now tok (extractMeta req) d) = (r0, d0)" by fastforce
  show ?thesis
  proof (cases r0)
    case (Inl e)
    then have "d0 = d" using rf transaction_err[of "refresh_body env rnd now tok (extractMeta req)" d e] by (simp add: refresh_def)
    then show ?thesis using assms True tok rf Inl by (auto simp: ctl_refresh_def)
  next
    case (Inr tk)
    obtain s where s: "s \<in> set (rows (db_sessions d))" "s_refreshToken s = hashToken env tok" "now \<le> s_expiresAt s"
      and rot: "rotateSession env rnd now (s_id s) (s_userId s) (extractMeta req) d = (Inr tk, d0)"
      using refresh_okD rf Inr by blast
    have "tk_refresh tk = rnd" using rotateSession_okD(1)[OF rot] .
    then show ?thesis using assms True tok rf Inr s
      by (auto simp: ctl_refresh_def setRefreshCookie_def refresh_cookie_opts_def REFRESH_TOKEN_EXPIRY_MS_def)
  qed
qed

theorem refresh_endpoint_cookie_witness:
  "\<exists>r cookies d'. ctl_refresh demo_env True [8] 100 \<lparr>rq_forwardedFor = None, rq_ip = None, rq_flyClientIp = None,
      rq_userAgent = None, rq_refreshCookie = None\<rparr> demo_db = ((r, cookies), d') \<and> cookies = [] \<and> d' = demo_db"
proof -
  let ?req = "\<lparr>rq_forwardedFor = None, rq_ip = None, rq_flyClientIp = None, rq_userAgent = None, rq_refreshCookie = None\<rparr>"
  have r: "ctl_refresh demo_env True [8] 100 ?req demo_db = ((Inl (Unauthorized ''Refresh token missing''), []), demo_db)"
    by (simp add: ctl_refresh_def)
  show ?thesis using refresh_endpoint_cookie[OF r] r by auto
qed

end
