(* ===== verification/MessageView.thy ===== *)
theory MessageView
  imports Schema
begin

text \<open>
  What the conversations service shows of a message:
  \<open>server/src/conversations/conversations.service.ts\<close>, lines 14--127: the columns and relations
  that \<open>MSG_SELECT\<close> reads, the grouping of reactions, the read receipts, and the filter that hides
  scheduled messages.

  A relation through a foreign key is an option here because a lookup is one; the referential
  integrity of \<open>Schema\<close> makes it \<open>Some\<close>.
\<close>

section \<open>Selected views\<close>

record user_brief =
  ub_id :: id
  ub_nickname :: jsstr
  ub_avatarUrl :: "jsstr option"

definition reaction_user :: "db \<Rightarrow> id \<Rightarrow> user_brief option" where
  "reaction_user d uid = map_option (\<lambda>u. \<lparr>ub_id = u_id u, ub_nickname = u_nickname u, ub_avatarUrl = u_avatarUrl u\<rparr>)
     (find_user d uid)"

definition named_user :: "db \<Rightarrow> id \<Rightarrow> (id \<times> jsstr) option" where
  "named_user d uid = map_option (\<lambda>u. (u_id u, u_nickname u)) (find_user d uid)"

record reply_view =
  rv_id :: id
  rv_content :: jsstr
  rv_deletedAt :: "time option"
  rv_sender :: "(id \<times> jsstr) option"

record forward_view =
  fv_id :: id
  fv_content :: jsstr
  fv_fileType :: "jsstr option"
  fv_sender :: "(id \<times> jsstr) option"

type_synonym raw_reaction = "jsstr \<times> id \<times> user_brief option"

record msg_view =
  mv_id :: id
  mv_content :: jsstr
  mv_createdAt :: time
  mv_editedAt :: "time option"
  mv_deletedAt :: "time option"
  mv_fileUrl :: "jsstr option"
  mv_fileName :: "jsstr option"
  mv_fileType :: "jsstr option"
  mv_fileSize :: "int option"
  mv_metadata :: "jsstr option"
  mv_scheduledAt :: "time option"
  mv_senderId :: id
  mv_senderDeviceId :: "id option"
  mv_conversationId :: id
  mv_replyToId :: "id option"
  mv_forwardedFromId :: "id option"
  mv_forwardedFromUser :: "user option"
  mv_sender :: "user_brief option"
  mv_replyTo :: "reply_view option"
  mv_forwardedFrom :: "forward_view option"
  mv_envelopes :: "(id \<times> jsstr) list"

definition reply_of :: "db \<Rightarrow> id option \<Rightarrow> reply_view option" where
  "reply_of d r = map_option (\<lambda>g. \<lparr>rv_id = msg_id g, rv_content = msg_content g, rv_deletedAt = msg_deletedAt g,
     rv_sender = named_user d (msg_senderId g)\<rparr>) (Option.bind r (find_message d))"

definition forward_of :: "db \<Rightarrow> id option \<Rightarrow> forward_view option" where
  "forward_of d r = map_option (\<lambda>g. \<lparr>fv_id = msg_id g, fv_content = msg_content g, fv_fileType = msg_fileType g,
     fv_sender = named_user d (msg_senderId g)\<rparr>) (Option.bind r (find_message d))"

text \<open>\<open>MSG_SELECT\<close>; the reactions are selected separately because every caller groups them.\<close>

definition select_message :: "db \<Rightarrow> message \<Rightarrow> msg_view" where
  "select_message d g =
     \<lparr>mv_id = msg_id g, mv_content = msg_content g, mv_createdAt = msg_createdAt g, mv_editedAt = msg_editedAt g,
      mv_deletedAt = msg_deletedAt g, mv_fileUrl = msg_fileUrl g, mv_fileName = msg_fileName g,
      mv_fileType = msg_fileType g, mv_fileSize = msg_fileSize g, mv_metadata = msg_metadata g,
      mv_scheduledAt = msg_scheduledAt g, mv_senderId = msg_senderId g, mv_senderDeviceId = msg_senderDeviceId g,
      mv_conversationId = msg_conversationId g, mv_replyToId = msg_replyToId g,
      mv_forwardedFromId = msg_forwardedFromId g,
      mv_forwardedFromUser = Option.bind (msg_forwardedFromUserId g) (find_user d),
      mv_sender = reaction_user d (msg_senderId g),
      mv_replyTo = reply_of d (msg_replyToId g), mv_forwardedFrom = forward_of d (msg_forwardedFromId g),
      mv_envelopes = map (\<lambda>e. (e_deviceId e, e_ciphertext e)) (t_all (\<lambda>e. e_messageId e = msg_id g) (db_envelopes d))\<rparr>"

definition select_reactions :: "db \<Rightarrow> id \<Rightarrow> raw_reaction list" where
  "select_reactions d mid = map (\<lambda>r. (r_emoji r, r_userId r, reaction_user d (r_userId r)))
     (sort_key r_createdAt (t_all (\<lambda>r. r_messageId r = mid) (db_reactions d)))"

record member_user =
  mu_id :: id
  mu_nickname :: jsstr
  mu_avatarUrl :: "jsstr option"
  mu_isOnline :: bool
  mu_lastSeen :: time

text \<open>\<open>MEMBER_USER_SELECT\<close>.\<close>

definition select_member_user :: "db \<Rightarrow> id \<Rightarrow> member_user option" where
  "select_member_user d uid = map_option (\<lambda>u. \<lparr>mu_id = u_id u, mu_nickname = u_nickname u,
     mu_avatarUrl = u_avatarUrl u, mu_isOnline = u_isOnline u, mu_lastSeen = u_lastSeen u\<rparr>) (find_user d uid)"

section \<open>Grouping reactions\<close>

record reaction_group =
  rg_emoji :: jsstr
  rg_count :: nat
  rg_userIds :: "id list"
  rg_users :: "user_brief option list"

type_synonym reaction_map = "(jsstr, id list \<times> user_brief option list) jsmap"

definition add_reaction :: "raw_reaction \<Rightarrow> reaction_map \<Rightarrow> reaction_map" where
  "add_reaction r m =
     (case r of (emoji, uid, usr) \<Rightarrow>
        let slot = (case mget m emoji of Some s \<Rightarrow> s | None \<Rightarrow> ([], []))
        in mset_at emoji (fst slot @ [uid], snd slot @ [usr]) m)"

definition groupReactions :: "raw_reaction list \<Rightarrow> reaction_group list" where
  "groupReactions rs = map (\<lambda>(emoji, uids, usrs).
       \<lparr>rg_emoji = emoji, rg_count = length uids, rg_userIds = uids, rg_users = usrs\<rparr>)
     (fold add_reaction rs [])"

text \<open>The specification: one group per emoji, in the order of its first reaction, with the reactions
  to it in order.\<close>

definition first_seen :: "'a list \<Rightarrow> 'a list" where
  "first_seen xs = rev (remdups (rev xs))"

definition group_spec :: "raw_reaction list \<Rightarrow> reaction_group list" where
  "group_spec rs = map (\<lambda>e. let mine = filter (\<lambda>r. fst r = e) rs
       in \<lparr>rg_emoji = e, rg_count = length mine, rg_userIds = map (fst \<circ> snd) mine, rg_users = map (snd \<circ> snd) mine\<rparr>)
     (first_seen (map fst rs))"

lemma first_seen_simps [simp]:
  "first_seen [] = []"
  "first_seen (xs @ [x]) = (if x \<in> set xs then first_seen xs else first_seen xs @ [x])"
  "set (first_seen xs) = set xs" "distinct (first_seen xs)"
  by (simp_all add: first_seen_def)

lemma mset_at_present:
  assumes "distinct (map fst m)" "map fst m = ks" "m = map (\<lambda>k. (k, f k)) ks"
  shows "mset_at k v m = map (\<lambda>k'. (k', (f(k := v)) k')) (if k \<in> set ks then ks else ks @ [k])"
proof -
  have "distinct ks \<Longrightarrow> AList.update k v (map (\<lambda>k. (k, f k)) ks) =
      map (\<lambda>k'. (k', (f(k := v)) k')) (if k \<in> set ks then ks else ks @ [k])" for ks
    by (induction ks) auto
  then show ?thesis using assms by (simp add: mset_at_def)
qed

lemma fold_add_reaction:
  "fold add_reaction rs [] =
   map (\<lambda>e. (e, map (fst \<circ> snd) (filter (\<lambda>r. fst r = e) rs), map (snd \<circ> snd) (filter (\<lambda>r. fst r = e) rs)))
     (first_seen (map fst rs))"
proof (induction rs rule: rev_induct)
  case (snoc r rs)
  obtain e uid usr where r: "r = (e, uid, usr)" by (cases r)
  let ?f = "\<lambda>rs e. (map (fst \<circ> snd) (filter (\<lambda>r. fst r = e) rs), map (snd \<circ> snd) (filter (\<lambda>r. fst r = e) rs))"
  let ?m = "map (\<lambda>e. (e, ?f rs e)) (first_seen (map fst rs))"
  have slot: "(case mget ?m e of Some s \<Rightarrow> s | None \<Rightarrow> ([], [])) = ?f rs e"
    by (auto simp: map_of_map_restrict restrict_map_def filter_empty_conv image_iff)
  have "add_reaction r ?m = mset_at e (?f (rs @ [r]) e) ?m"
    using slot by (simp add: add_reaction_def r Let_def)
  also have "\<dots> = map (\<lambda>e'. (e', ((?f rs)(e := ?f (rs @ [r]) e)) e')) (first_seen (map fst (rs @ [r])))"
    by (subst mset_at_present[of ?m "first_seen (map fst rs)" "?f rs"]) (auto simp: o_def r)
  also have "\<dots> = map (\<lambda>e'. (e', ?f (rs @ [r]) e')) (first_seen (map fst (rs @ [r])))"
    by (rule map_cong) (auto simp: r)
  finally have step: "add_reaction r ?m = map (\<lambda>e'. (e', ?f (rs @ [r]) e')) (first_seen (map fst (rs @ [r])))" .
  have "fold add_reaction (rs @ [r]) [] = add_reaction r (fold add_reaction rs [])" by simp
  then show ?case unfolding snoc.IH using step by (rule trans)
qed simp

text \<open>Grouping reactions with a JavaScript map is the specification: each emoji occurs once, groups are
  ordered by their first reaction, each group lists its users in reaction order, and its count is their
  number.\<close>

theorem groupReactions_spec: "groupReactions rs = group_spec rs"
  by (simp add: groupReactions_def group_spec_def fold_add_reaction Let_def)

section \<open>Read receipts\<close>

record msg_out =
  mo_msg :: msg_view
  mo_reactions :: "reaction_group list"
  mo_isRead :: bool
  mo_readBy :: "(id \<times> jsstr) list option"

text \<open>\<open>mapMessage\<close> with the \<open>isRead: false\<close> that all its callers add.\<close>

definition mapMessage :: "db \<Rightarrow> message \<Rightarrow> msg_out" where
  "mapMessage d g = \<lparr>mo_msg = select_message d g, mo_reactions = groupReactions (select_reactions d (msg_id g)),
     mo_isRead = False, mo_readBy = None\<rparr>"

type_synonym last_reads = "(id, time \<times> jsstr) jsmap"

definition nickname_of :: "db \<Rightarrow> id \<Rightarrow> jsstr" where
  "nickname_of d uid = (case find_user d uid of None \<Rightarrow> [] | Some u \<Rightarrow> u_nickname u)"

definition getOtherMembersLastRead :: "db \<Rightarrow> id \<Rightarrow> id \<Rightarrow> last_reads" where
  "getOtherMembersLastRead d cid currentUserId =
     fold (\<lambda>m. mset_at (m_userId m) (m_lastReadAt m, nickname_of d (m_userId m)))
       (t_all (\<lambda>m. m_conversationId m = cid \<and> m_userId m \<noteq> currentUserId) (db_members d)) []"

text \<open>The loop over the other members, with its two accumulators.\<close>

fun read_loop :: "bool \<Rightarrow> time \<Rightarrow> last_reads \<Rightarrow> bool \<times> (id \<times> jsstr) list \<Rightarrow> bool \<times> (id \<times> jsstr) list" where
  "read_loop own msgTime [] acc = acc"
| "read_loop own msgTime ((uid, (lastReadAt, nickname)) # ms) (isRead, readBy) =
     read_loop own msgTime ms
       (if msgTime \<le> lastReadAt then (isRead \<or> own, readBy @ [(uid, nickname)]) else (isRead, readBy))"

definition mapMessageWithRead :: "db \<Rightarrow> message \<Rightarrow> id \<Rightarrow> last_reads \<Rightarrow> msg_out" where
  "mapMessageWithRead d g currentUserId others =
     (let own = (msg_senderId g = currentUserId);
          (r, readBy) = read_loop own (msg_createdAt g) others (False, [])
      in \<lparr>mo_msg = select_message d g, mo_reactions = groupReactions (select_reactions d (msg_id g)),
          mo_isRead = (if own then r else True), mo_readBy = Some readBy\<rparr>)"

lemma read_loop_spec:
  "read_loop own t ms (b, rs) =
     ((b \<or> own \<and> (\<exists>x\<in>set ms. t \<le> fst (snd x))),
      rs @ map (\<lambda>x. (fst x, snd (snd x))) (filter (\<lambda>x. t \<le> fst (snd x)) ms))"
  by (induction own t ms "(b, rs)" arbitrary: b rs rule: read_loop.induct) auto

text \<open>Read receipts mean what they say: a message is shown to its author as read exactly when some other
  member has read up to its creation, those members (and only those) are listed, and to everybody else it is
  always shown as read.\<close>

theorem read_receipts:
  "mo_isRead (mapMessageWithRead d g uid others) =
     (msg_senderId g = uid \<longrightarrow> (\<exists>x\<in>set others. msg_createdAt g \<le> fst (snd x)))
   \<and> mo_readBy (mapMessageWithRead d g uid others) =
     Some (map (\<lambda>x. (fst x, snd (snd x))) (filter (\<lambda>x. msg_createdAt g \<le> fst (snd x)) others))"
  by (simp add: mapMessageWithRead_def read_loop_spec Let_def)

theorem read_receipts_witness:
  "let g = \<lparr>msg_id = 1, msg_content = [104], msg_createdAt = 50, msg_editedAt = None, msg_deletedAt = None,
         msg_scheduledAt = None, msg_fileUrl = None, msg_fileName = None, msg_fileType = None, msg_fileSize = None,
         msg_metadata = None, msg_forwardedFromId = None, msg_forwardedFromUserId = None, msg_senderId = 1,
         msg_conversationId = 1, msg_replyToId = None, msg_senderDeviceId = None\<rparr>;
       out = mapMessageWithRead empty_db g 1 [(2, (40, [66])), (3, (60, [67]))]
   in mo_isRead out \<and> mo_readBy out = Some [(3, [67])]"
  by (simp add: read_receipts Let_def)

section \<open>Scheduled messages\<close>

definition scheduledFilter :: "id \<Rightarrow> time \<Rightarrow> message \<Rightarrow> bool" where
  "scheduledFilter uid now g \<longleftrightarrow>
     (case msg_scheduledAt g of None \<Rightarrow> True | Some t \<Rightarrow> t \<le> now) \<or> msg_senderId g = uid"

end
