(* ===== verification/Metadata.thy ===== *)
theory Metadata
  imports Complex_Main Prelude
begin

text \<open>
  Message metadata, \<open>server/src/conversations/metadata.validator.ts\<close>: the JSON object a client
  attaches to a voice or self-destructing message is checked field by field and re-serialised.

  \<open>JSON.parse\<close>, \<open>JSON.stringify\<close>, \<open>toLowerCase\<close> and the rounding of doubles are the fields of
  \<open>json_env\<close>.  A JSON number is a finite rational or an infinity (\<open>JSON.parse\<close> of \<open>1e999\<close>).
  An object is the list of its own properties, each key once.  The values interpolated into the
  error messages are left out.
\<close>

datatype jsnum = Fin rat | Inf | NegInf

datatype json =
    JNull
  | JBool bool
  | JNum jsnum
  | JStr jsstr
  | JArr "json list"
  | JObj "(jsstr \<times> json) list"

record json_env =
  parse :: "jsstr \<Rightarrow> json option"
  stringify :: "json \<Rightarrow> jsstr"
  toLower :: "jsstr \<Rightarrow> jsstr"
  fl :: "rat \<Rightarrow> rat"

section \<open>Bytes of a string\<close>

text \<open>\<open>Buffer.byteLength(s, 'utf8')\<close>: a surrogate pair is one four-byte character, an unpaired
  surrogate is written as the three bytes of U+FFFD.\<close>

fun utf8_length :: "jsstr \<Rightarrow> nat" where
  "utf8_length [] = 0"
| "utf8_length [c] = (if c < 128 then 1 else if c < 2048 then 2 else 3)"
| "utf8_length (c # e # s) =
     (if c < 128 then 1 + utf8_length (e # s)
      else if c < 2048 then 2 + utf8_length (e # s)
      else if 55296 \<le> c \<and> c < 56320 \<and> 56320 \<le> e \<and> e < 57344 then 4 + utf8_length s
      else 3 + utf8_length (e # s))"

lemma utf8_le_length: "utf8_length s \<le> 3 * length s"
  by (induction s rule: utf8_length.induct) auto

lemma length_le_utf8: "length s \<le> utf8_length s"
  by (induction s rule: utf8_length.induct) auto

section \<open>The validator\<close>

definition MAX_METADATA_BYTES :: nat where "MAX_METADATA_BYTES = 64 * 1024"
definition MAX_WAVEFORM_POINTS :: nat where "MAX_WAVEFORM_POINTS = 2000"
definition MAX_DURATION_SEC :: rat where "MAX_DURATION_SEC = 3 * 3600"
definition MAX_DESTRUCT_SEC :: rat where "MAX_DESTRUCT_SEC = 7 * 24 * 3600"

definition FORBIDDEN_KEYS :: "jsstr list" where
  "FORBIDDEN_KEYS = map js [''__proto__'', ''constructor'', ''prototype'', ''toString'', ''valueOf'',
     ''hasOwnProperty'', ''isPrototypeOf'']"

definition allowedKeys :: "jsstr list" where
  "allowedKeys = map js [''waveform'', ''duration'', ''mimeType'', ''encrypted'', ''destructAfterSeconds'']"

record validated =
  vm_waveform :: "rat list option"
  vm_duration :: "rat option"
  vm_mimeType :: "jsstr option"
  vm_encrypted :: bool
  vm_destruct :: "int option"

definition bad :: "string \<Rightarrow> 'a result" where "bad m = Inl (BadRequest m)"

text \<open>The character class of the MIME pattern: lower-case letters, digits and the punctuation
  plus, minus, semicolon, equals, white space, dot and double quote.\<close>

definition mime_char :: "nat \<Rightarrow> bool" where
  "mime_char c \<longleftrightarrow> 97 \<le> c \<and> c \<le> 122 \<or> 48 \<le> c \<and> c \<le> 57 \<or> c \<in> set [43, 45, 59, 61, 46, 34] \<or> js_space c"

definition isSafeAudioMime :: "json_env \<Rightarrow> jsstr \<Rightarrow> bool" where
  "isSafeAudioMime J mime =
     (let n = trim (toLower J mime)
      in if \<not> starts_with n (js ''audio/'') then False
         else if length n > 100 then False
         else if list_ex (includes_str n) (map js [''html'', ''javascript'', ''script'', ''<'', ''>'', ''data:'']) then False
         else if \<not> (length n > 6 \<and> list_all mime_char (drop 6 n)) then False
         else True)"

text \<open>\<open>Math.round\<close>: the nearest integer, halves upwards.\<close>

definition math_round :: "rat \<Rightarrow> int" where "math_round x = \<lfloor>x + 1 / 2\<rfloor>"

fun norm_points :: "json list \<Rightarrow> rat list result" where
  "norm_points [] = Inr []"
| "norm_points (v # vs) =
     (case v of
        JNum (Fin x) \<Rightarrow>
          (case norm_points vs of Inl e \<Rightarrow> Inl e | Inr xs \<Rightarrow> Inr (min 1 (max 0 x) # xs))
      | _ \<Rightarrow> bad ''metadata.waveform: must be a finite number'')"

definition check_waveform :: "json option \<Rightarrow> rat list option result" where
  "check_waveform v =
     (case v of
        None \<Rightarrow> Inr None
      | Some (JArr ps) \<Rightarrow>
          if length ps > MAX_WAVEFORM_POINTS then bad ''metadata.waveform: too many points''
          else map_sum id Some (norm_points ps)
      | Some _ \<Rightarrow> bad ''metadata.waveform: must be an array'')"

definition check_duration :: "json_env \<Rightarrow> json option \<Rightarrow> rat option result" where
  "check_duration J v =
     (case v of
        None \<Rightarrow> Inr None
      | Some (JNum (Fin x)) \<Rightarrow>
          if x < 0 then bad ''metadata.duration: must be a non-negative finite number''
          else if x > MAX_DURATION_SEC then bad ''metadata.duration: exceeds maximum''
          else Inr (Some (fl J (of_int (math_round (fl J (x * 1000))) / 1000)))
      | Some _ \<Rightarrow> bad ''metadata.duration: must be a non-negative finite number'')"

definition check_mime :: "json_env \<Rightarrow> json option \<Rightarrow> jsstr option result" where
  "check_mime J v =
     (case v of
        None \<Rightarrow> Inr None
      | Some (JStr m) \<Rightarrow>
          if \<not> isSafeAudioMime J (trim m) then bad ''metadata.mimeType: is not a valid audio MIME type''
          else Inr (Some (trim m))
      | Some _ \<Rightarrow> bad ''metadata.mimeType: must be a string'')"

definition check_encrypted :: "json option \<Rightarrow> bool result" where
  "check_encrypted v =
     (case v of
        None \<Rightarrow> Inr False
      | Some (JBool b) \<Rightarrow> Inr b
      | Some _ \<Rightarrow> bad ''metadata.encrypted: must be a boolean'')"

definition check_destruct :: "json option \<Rightarrow> int option result" where
  "check_destruct v =
     (case v of
        None \<Rightarrow> Inr None
      | Some (JNum (Fin x)) \<Rightarrow>
          if x < 1 then bad ''metadata.destructAfterSeconds: must be a positive integer''
          else if x > MAX_DESTRUCT_SEC then bad ''metadata.destructAfterSeconds: exceeds maximum''
          else Inr (Some (math_round x))
      | Some _ \<Rightarrow> bad ''metadata.destructAfterSeconds: must be a positive integer'')"

text \<open>The field checks, in the order of the code.\<close>

definition validate_fields :: "json_env \<Rightarrow> (jsstr \<times> json) list \<Rightarrow> validated result" where
  "validate_fields J ps =
     rbind (check_waveform (map_of ps (js ''waveform''))) (\<lambda>w.
     rbind (check_duration J (map_of ps (js ''duration''))) (\<lambda>du.
     rbind (check_mime J (map_of ps (js ''mimeType''))) (\<lambda>m.
     rbind (check_encrypted (map_of ps (js ''encrypted''))) (\<lambda>e.
     rbind (check_destruct (map_of ps (js ''destructAfterSeconds''))) (\<lambda>ds.
       Inr \<lparr>vm_waveform = w, vm_duration = du, vm_mimeType = m, vm_encrypted = e, vm_destruct = ds\<rparr>)))))"

definition opt_prop :: "string \<Rightarrow> ('a \<Rightarrow> json) \<Rightarrow> 'a option \<Rightarrow> (jsstr \<times> json) list" where
  "opt_prop k f x = (case x of None \<Rightarrow> [] | Some y \<Rightarrow> [(js k, f y)])"

definition result_props :: "validated \<Rightarrow> (jsstr \<times> json) list" where
  "result_props v =
     opt_prop ''waveform'' (\<lambda>xs. JArr (map (JNum \<circ> Fin) xs)) (vm_waveform v)
     @ opt_prop ''duration'' (JNum \<circ> Fin) (vm_duration v)
     @ opt_prop ''mimeType'' JStr (vm_mimeType v)
     @ (if vm_encrypted v then [(js ''encrypted'', JBool True)] else [])
     @ opt_prop ''destructAfterSeconds'' (JNum \<circ> Fin \<circ> of_int) (vm_destruct v)"

definition validate_object :: "json_env \<Rightarrow> (jsstr \<times> json) list \<Rightarrow> validated result" where
  "validate_object J ps =
     (if list_ex (\<lambda>k. k \<in> set FORBIDDEN_KEYS) (map fst ps) then bad ''metadata: forbidden key''
      else if list_ex (\<lambda>k. k \<notin> set allowedKeys) (map fst ps) then bad ''metadata: unknown field''
      else validate_fields J ps)"

definition validateAndNormalizeMetadata :: "json_env \<Rightarrow> jsstr option \<Rightarrow> jsstr option result" where
  "validateAndNormalizeMetadata J raw =
     (if \<not> truthy raw then Inr None
      else if utf8_length (the raw) > MAX_METADATA_BYTES then bad ''metadata: exceeds maximum size of 64 KB''
      else case parse J (the raw) of
        None \<Rightarrow> bad ''metadata: invalid JSON''
      | Some (JObj ps) \<Rightarrow>
          rbind (validate_object J ps) (\<lambda>v.
            if result_props v = [] then Inr None else Inr (Some (stringify J (JObj (result_props v)))))
      | Some _ \<Rightarrow> bad ''metadata: must be a JSON object'')"

section \<open>What an accepted object looks like\<close>

lemma bad_not_Inr [simp]: "bad m \<noteq> Inr x" by (simp add: bad_def)

text \<open>Rounding to doubles: monotone, exact on doubles and on the integers up to \<open>2 ^ 53\<close>, and off by
  at most half a unit in the last place (for the two magnitudes that occur).\<close>

definition fl_laws :: "(rat \<Rightarrow> rat) \<Rightarrow> bool" where
  "fl_laws f \<longleftrightarrow> (\<forall>x y. x \<le> y \<longrightarrow> f x \<le> f y) \<and> (\<forall>x. f (f x) = f x)
     \<and> (\<forall>i::int. \<bar>i\<bar> \<le> 2 ^ 53 \<longrightarrow> f (of_int i) = of_int i)
     \<and> (\<forall>x. \<bar>x\<bar> \<le> 2 ^ 24 \<longrightarrow> \<bar>f x - x\<bar> \<le> 1 / 2 ^ 29)
     \<and> (\<forall>x. \<bar>x\<bar> \<le> 2 ^ 14 \<longrightarrow> \<bar>f x - x\<bar> \<le> 1 / 2 ^ 39)"

lemma fl_lawsD:
  assumes "fl_laws f"
  shows "x \<le> y \<Longrightarrow> f x \<le> f y" "f (f x) = f x" "\<bar>i\<bar> \<le> 2 ^ 53 \<Longrightarrow> f (of_int i) = of_int i"
    "\<bar>x\<bar> \<le> 2 ^ 24 \<Longrightarrow> \<bar>f x - x\<bar> \<le> 1 / 2 ^ 29" "\<bar>x\<bar> \<le> 2 ^ 14 \<Longrightarrow> \<bar>f x - x\<bar> \<le> 1 / 2 ^ 39"
  using assms unfolding fl_laws_def by blast+

lemma math_round_of_int [simp]: "math_round (of_int i) = i"
  by (simp add: math_round_def floor_unique)

lemma math_round_near: "\<bar>x - of_int i\<bar> < 1 / 2 \<Longrightarrow> math_round x = i"
  unfolding math_round_def abs_less_iff by (rule floor_unique) linarith+

lemma math_round_mono: "x \<le> y \<Longrightarrow> math_round x \<le> math_round y"
  by (simp add: math_round_def floor_mono)

lemma math_round_bounds:
  "of_int a \<le> x \<Longrightarrow> x \<le> of_int b \<Longrightarrow> a \<le> math_round x \<and> math_round x \<le> b"
  using math_round_mono[of "of_int a" x] math_round_mono[of x "of_int b"] by simp

definition duration_ok :: "json_env \<Rightarrow> rat \<Rightarrow> bool" where
  "duration_ok J x \<longleftrightarrow> 0 \<le> x \<and> x \<le> MAX_DURATION_SEC \<and>
     (\<exists>n. 0 \<le> n \<and> n \<le> 10800000 \<and> x = fl J (of_int n / 1000))"

definition valid_meta :: "json_env \<Rightarrow> validated \<Rightarrow> bool" where
  "valid_meta J v \<longleftrightarrow>
     (\<forall>xs. vm_waveform v = Some xs \<longrightarrow> length xs \<le> MAX_WAVEFORM_POINTS \<and> (\<forall>x\<in>set xs. 0 \<le> x \<and> x \<le> 1))
   \<and> (\<forall>x. vm_duration v = Some x \<longrightarrow> duration_ok J x)
   \<and> (\<forall>m. vm_mimeType v = Some m \<longrightarrow> isSafeAudioMime J m \<and> trim m = m)
   \<and> (\<forall>n. vm_destruct v = Some n \<longrightarrow> 1 \<le> n \<and> n \<le> 604800)"

lemma norm_points_Inr: "norm_points vs = Inr xs \<Longrightarrow>
    length xs = length vs \<and> (\<forall>x\<in>set xs. 0 \<le> x \<and> x \<le> 1)"
  by (induction vs arbitrary: xs) (auto split: json.splits jsnum.splits sum.splits)

lemma check_waveform_Inr:
  "check_waveform v = Inr (Some xs) \<Longrightarrow> length xs \<le> MAX_WAVEFORM_POINTS \<and> (\<forall>x\<in>set xs. 0 \<le> x \<and> x \<le> 1)"
  by (cases "\<exists>ps. v = Some (JArr ps)")
    (auto simp: check_waveform_def map_sum_def dest!: norm_points_Inr split: option.splits json.splits if_splits sum.splits)

lemma check_duration_Inr:
  assumes fl: "fl_laws (fl J)" and "check_duration J v = Inr (Some y)"
  shows "duration_ok J y"
proof -
  obtain x where v: "v = Some (JNum (Fin x))" and x: "0 \<le> x" "x \<le> MAX_DURATION_SEC"
    and y: "y = fl J (of_int (math_round (fl J (x * 1000))) / 1000)"
    using assms(2) by (auto simp: check_duration_def split: option.splits json.splits jsnum.splits if_splits)
  let ?n = "math_round (fl J (x * 1000))"
  have "fl J (of_int 0) \<le> fl J (x * 1000)" "fl J (x * 1000) \<le> fl J (of_int 10800000)"
    using x by (auto simp: MAX_DURATION_SEC_def intro!: fl_lawsD(1)[OF fl])
  then have "0 \<le> ?n" "?n \<le> 10800000"
    using fl_lawsD(3)[OF fl, of 0] fl_lawsD(3)[OF fl, of 10800000] math_round_bounds[of 0 "fl J (x * 1000)" 10800000]
    by auto
  moreover then have "fl J (of_int 0) \<le> y" "y \<le> fl J (of_int 10800)"
    unfolding y by (auto intro!: fl_lawsD(1)[OF fl])
  ultimately show ?thesis
    using y fl_lawsD(3)[OF fl, of 0] fl_lawsD(3)[OF fl, of 10800]
    by (auto simp: duration_ok_def MAX_DURATION_SEC_def)
qed

lemma check_destruct_Inr: "check_destruct v = Inr (Some n) \<Longrightarrow> 1 \<le> n \<and> n \<le> 604800"
  using math_round_bounds[of 1 _ 604800]
  by (auto simp: check_destruct_def MAX_DESTRUCT_SEC_def split: option.splits json.splits jsnum.splits if_splits)

lemma validate_fields_Inr:
  assumes "fl_laws (fl J)" "validate_fields J ps = Inr v"
  shows "valid_meta J v"
  using assms(2) check_waveform_Inr check_duration_Inr[OF assms(1)] check_destruct_Inr
  by (fastforce simp: validate_fields_def rbind_Inr valid_meta_def check_mime_def
      split: option.splits json.splits if_splits)

lemma validate_okD:
  assumes "validateAndNormalizeMetadata J raw = Inr (Some out)"
  shows "\<exists>s ps v. raw = Some s \<and> parse J s = Some (JObj ps) \<and> validate_fields J ps = Inr v
    \<and> result_props v \<noteq> [] \<and> out = stringify J (JObj (result_props v))
    \<and> set (map fst ps) \<subseteq> set allowedKeys \<and> utf8_length s \<le> MAX_METADATA_BYTES"
proof (cases raw)
  case (Some s)
  show ?thesis
  proof (cases "\<exists>ps. parse J s = Some (JObj ps)")
    case True
    then obtain ps where ps: "parse J s = Some (JObj ps)" by blast
    have s: "s \<noteq> []" "utf8_length s \<le> MAX_METADATA_BYTES"
      using assms Some by (auto simp: validateAndNormalizeMetadata_def split: if_splits)
    then obtain v where v: "validate_object J ps = Inr v" "result_props v \<noteq> []"
        "out = stringify J (JObj (result_props v))"
      using assms Some ps by (auto simp: validateAndNormalizeMetadata_def rbind_Inr split: if_splits)
    then have "validate_fields J ps = Inr v" "set (map fst ps) \<subseteq> set allowedKeys"
      by (auto simp: validate_object_def list_ex_iff split: if_splits)
    then show ?thesis using Some ps s v by blast
  next
    case False
    then show ?thesis using assms Some
      by (auto simp: validateAndNormalizeMetadata_def split: if_splits option.splits json.splits)
  qed
qed (use assms in \<open>simp add: validateAndNormalizeMetadata_def\<close>)

text \<open>C28. Whatever a client sends as metadata, what is stored is bounded and well formed: an object with at
  least one of the five known fields, at most 2000 waveform points each between 0 and 1, a duration between
  0 and three hours, an audio MIME type that passes the filter, and a self-destruct time of 1 second to one
  week; and the input was at most 64 KB and had no other keys.\<close>

theorem metadata_bounds:
  assumes "fl_laws (fl J)" and "validateAndNormalizeMetadata J raw = Inr (Some out)"
  shows "\<exists>v s ps. out = stringify J (JObj (result_props v)) \<and> result_props v \<noteq> [] \<and> valid_meta J v
    \<and> raw = Some s \<and> length s \<le> MAX_METADATA_BYTES \<and> parse J s = Some (JObj ps)
    \<and> set (map fst ps) \<subseteq> set allowedKeys \<and> set (map fst ps) \<inter> set FORBIDDEN_KEYS = {}"
proof -
  obtain s ps v where *: "raw = Some s" "parse J s = Some (JObj ps)" "validate_fields J ps = Inr v"
    "result_props v \<noteq> []" "out = stringify J (JObj (result_props v))"
    "set (map fst ps) \<subseteq> set allowedKeys" "utf8_length s \<le> MAX_METADATA_BYTES"
    using validate_okD[OF assms(2)] by blast
  moreover have "set allowedKeys \<inter> set FORBIDDEN_KEYS = {}"
    by (simp add: allowedKeys_def FORBIDDEN_KEYS_def)
  ultimately show ?thesis
    using validate_fields_Inr[OF assms(1) *(3)] length_le_utf8[of s] by (intro exI[of _ v] exI[of _ s] exI[of _ ps]) auto
qed

section \<open>Normalising twice changes nothing\<close>

fun doubles :: "(rat \<Rightarrow> rat) \<Rightarrow> json \<Rightarrow> bool" where
  "doubles f (JNum (Fin x)) \<longleftrightarrow> f x = x"
| "doubles f (JArr vs) \<longleftrightarrow> (\<forall>v\<in>set vs. doubles f v)"
| "doubles f (JObj ps) \<longleftrightarrow> (\<forall>p\<in>set ps. doubles f (snd p))"
| "doubles f _ \<longleftrightarrow> True"

text \<open>The JSON codec: \<open>JSON.parse\<close> yields doubles and reads back what \<open>JSON.stringify\<close> writes of them.\<close>

definition json_laws :: "json_env \<Rightarrow> bool" where
  "json_laws J \<longleftrightarrow> (\<forall>s j. parse J s = Some j \<longrightarrow> doubles (fl J) j)
     \<and> (\<forall>j. doubles (fl J) j \<longrightarrow> stringify J j \<noteq> [] \<and> parse J (stringify J j) = Some j)"

lemma norm_points_fix:
  "\<forall>x\<in>set xs. 0 \<le> x \<and> x \<le> 1 \<Longrightarrow> norm_points (map (JNum \<circ> Fin) xs) = Inr xs"
  by (induction xs) auto

lemma duration_fix:
  assumes fl: "fl_laws (fl J)" and "duration_ok J x"
  shows "check_duration J (Some (JNum (Fin x))) = Inr (Some x)"
proof -
  obtain n where n: "0 \<le> n" "n \<le> 10800000" and x: "x = fl J (of_int n / 1000)"
    using assms(2) by (auto simp: duration_ok_def)
  have "\<bar>x - of_int n / 1000\<bar> \<le> 1 / 2 ^ 39" unfolding x by (rule fl_lawsD(5)[OF fl]) (use n in auto)
  then have a: "\<bar>x * 1000 - of_int n\<bar> \<le> 1000 / 2 ^ 39" by (simp add: field_simps abs_le_iff)
  have "(of_int n :: rat) \<le> 10800000" "(0::rat) \<le> of_int n" using n by simp_all
  then have "x * 1000 \<le> 2 ^ 24" "- (x * 1000) \<le> 2 ^ 24" using a unfolding abs_le_iff by (simp; linarith)+
  then have "\<bar>x * 1000\<bar> \<le> 2 ^ 24" by (simp add: abs_le_iff)
  then have "\<bar>fl J (x * 1000) - x * 1000\<bar> \<le> 1 / 2 ^ 29" by (rule fl_lawsD(4)[OF fl])
  then have "\<bar>fl J (x * 1000) - of_int n\<bar> < 1 / 2" using a unfolding abs_le_iff abs_less_iff by (simp; linarith)
  then have "math_round (fl J (x * 1000)) = n" by (rule math_round_near)
  then show ?thesis using assms(2) x by (simp add: check_duration_def duration_ok_def)
qed

lemma props_lookup [simp]:
  "map_of (result_props v) (js ''waveform'') = map_option (\<lambda>xs. JArr (map (JNum \<circ> Fin) xs)) (vm_waveform v)"
  "map_of (result_props v) (js ''duration'') = map_option (JNum \<circ> Fin) (vm_duration v)"
  "map_of (result_props v) (js ''mimeType'') = map_option JStr (vm_mimeType v)"
  "map_of (result_props v) (js ''encrypted'') = (if vm_encrypted v then Some (JBool True) else None)"
  "map_of (result_props v) (js ''destructAfterSeconds'') = map_option (JNum \<circ> Fin \<circ> of_int) (vm_destruct v)"
  by (auto simp: result_props_def opt_prop_def map_add_def split: option.splits)

lemma validate_fields_fix:
  assumes "fl_laws (fl J)" "valid_meta J v"
  shows "validate_fields J (result_props v) = Inr v"
proof -
  have "check_waveform (map_of (result_props v) (js ''waveform'')) = Inr (vm_waveform v)"
    using assms(2) by (auto simp: check_waveform_def valid_meta_def norm_points_fix split: option.splits)
  moreover have "check_duration J (map_of (result_props v) (js ''duration'')) = Inr (vm_duration v)"
    using assms duration_fix by (cases "vm_duration v") (auto simp: valid_meta_def check_duration_def)
  moreover have "check_mime J (map_of (result_props v) (js ''mimeType'')) = Inr (vm_mimeType v)"
    using assms(2) by (cases "vm_mimeType v") (auto simp: valid_meta_def check_mime_def)
  moreover have "check_encrypted (map_of (result_props v) (js ''encrypted'')) = Inr (vm_encrypted v)"
    by (simp add: check_encrypted_def)
  moreover have "check_destruct (map_of (result_props v) (js ''destructAfterSeconds'')) = Inr (vm_destruct v)"
    using assms(2) by (cases "vm_destruct v") (auto simp: valid_meta_def check_destruct_def MAX_DESTRUCT_SEC_def)
  ultimately show ?thesis by (simp add: validate_fields_def)
qed

lemma norm_points_doubles:
  "norm_points vs = Inr xs \<Longrightarrow> \<forall>v\<in>set vs. doubles f v \<Longrightarrow> f 0 = 0 \<Longrightarrow> f 1 = 1 \<Longrightarrow> \<forall>x\<in>set xs. f x = x"
  by (induction vs arbitrary: xs) (auto split: json.splits jsnum.splits sum.splits simp: min_def max_def)

lemma keys_result_props: "set (map fst (result_props v)) \<subseteq> set allowedKeys"
  by (auto simp: result_props_def opt_prop_def allowedKeys_def split: option.splits)

lemma doubles_opt_prop:
  "(\<And>y. x = Some y \<Longrightarrow> doubles f (g y)) \<Longrightarrow> \<forall>p\<in>set (opt_prop k g x). doubles f (snd p)"
  by (cases x) (simp_all add: opt_prop_def)

lemma validate_fields_doubles:
  assumes fl: "fl_laws (fl J)" and ps: "doubles (fl J) (JObj ps)" and v: "validate_fields J ps = Inr v"
  shows "doubles (fl J) (JObj (result_props v))"
proof -
  have "\<forall>x\<in>set xs. fl J x = x" if "vm_waveform v = Some xs" for xs
  proof -
    have "check_waveform (map_of ps (js ''waveform'')) = Inr (Some xs)"
      using v that by (auto simp: validate_fields_def rbind_Inr)
    then obtain ws where ws: "map_of ps (js ''waveform'') = Some (JArr ws)" "norm_points ws = Inr xs"
      by (auto simp: check_waveform_def map_sum_def split: option.splits json.splits if_splits sum.splits)
    have "\<forall>w\<in>set ws. doubles (fl J) w" using ps map_of_SomeD[OF ws(1)] by fastforce
    moreover have "fl J 0 = 0" "fl J 1 = 1" using fl_lawsD(3)[OF fl, of 0] fl_lawsD(3)[OF fl, of 1] by simp_all
    ultimately show ?thesis by (rule norm_points_doubles[OF ws(2)])
  qed
  moreover have "fl J x = x" if "vm_duration v = Some x" for x
    using validate_fields_Inr[OF fl v] that fl_lawsD(2)[OF fl] by (auto simp: valid_meta_def duration_ok_def)
  moreover have "fl J (of_int n) = of_int n" if "vm_destruct v = Some n" for n
    using validate_fields_Inr[OF fl v] that by (intro fl_lawsD(3)[OF fl]) (auto simp: valid_meta_def)
  ultimately have
    "\<forall>p\<in>set (opt_prop ''waveform'' (\<lambda>xs. JArr (map (JNum \<circ> Fin) xs)) (vm_waveform v)). doubles (fl J) (snd p)"
    "\<forall>p\<in>set (opt_prop ''duration'' (JNum \<circ> Fin) (vm_duration v)). doubles (fl J) (snd p)"
    "\<forall>p\<in>set (opt_prop ''mimeType'' JStr (vm_mimeType v)). doubles (fl J) (snd p)"
    "\<forall>p\<in>set (opt_prop ''destructAfterSeconds'' (JNum \<circ> Fin \<circ> of_int) (vm_destruct v)). doubles (fl J) (snd p)"
    by - (rule doubles_opt_prop; auto)+
  then show ?thesis unfolding result_props_def by (simp add: ball_Un)
qed

text \<open>The normal form is stable: metadata that the server has stored, sent again by a client that
  forwards or edits the message, is accepted and stored unchanged (as long as it still fits in 64 KB).\<close>

theorem metadata_idempotent:
  assumes "fl_laws (fl J)" and "json_laws J"
    and "validateAndNormalizeMetadata J raw = Inr (Some out)" and "utf8_length out \<le> MAX_METADATA_BYTES"
  shows "validateAndNormalizeMetadata J (Some out) = Inr (Some out)"
proof -
  obtain s ps v where *: "raw = Some s" "parse J s = Some (JObj ps)" "validate_fields J ps = Inr v"
    "result_props v \<noteq> []" "out = stringify J (JObj (result_props v))"
    "set (map fst ps) \<subseteq> set allowedKeys" "utf8_length s \<le> MAX_METADATA_BYTES"
    using validate_okD[OF assms(3)] by blast
  have "doubles (fl J) (JObj ps)" using assms(2) *(2) unfolding json_laws_def by blast
  then have "doubles (fl J) (JObj (result_props v))" by (rule validate_fields_doubles[OF assms(1) _ *(3)])
  then have out: "out \<noteq> []" "parse J out = Some (JObj (result_props v))" using assms(2) *(5) by (auto simp: json_laws_def)
  have "validate_object J (result_props v) = Inr v"
    using keys_result_props[of v] validate_fields_fix[OF assms(1) validate_fields_Inr[OF assms(1) *(3)]]
    by (auto simp: validate_object_def list_ex_iff allowedKeys_def FORBIDDEN_KEYS_def)
  then show ?thesis using out *(4,5) assms(4) by (simp add: validateAndNormalizeMetadata_def)
qed

section \<open>A concrete codec\<close>

text \<open>A prefix encoding of JSON values with its decoder, and exact arithmetic: an environment that
  satisfies the hypotheses of this theory.\<close>

fun enc_json :: "json \<Rightarrow> jsstr" where
  "enc_json JNull = [0]"
| "enc_json (JBool b) = [1, if b then 1 else 0]"
| "enc_json (JNum (Fin x)) = 2 # enc_int (fst (quotient_of x)) @ enc_int (snd (quotient_of x))"
| "enc_json (JNum Inf) = [3]"
| "enc_json (JNum NegInf) = [4]"
| "enc_json (JStr s) = 5 # enc_str s"
| "enc_json (JArr vs) = 6 # length vs # concat (map enc_json vs)"
| "enc_json (JObj ps) = 7 # length ps # concat (map (\<lambda>p. enc_str (fst p) @ enc_json (snd p)) ps)"

fun dec_many :: "(jsstr \<Rightarrow> 'a \<times> jsstr) \<Rightarrow> nat \<Rightarrow> jsstr \<Rightarrow> 'a list \<times> jsstr" where
  "dec_many f 0 s = ([], s)"
| "dec_many f (Suc n) s = (case f s of (x, r) \<Rightarrow> case dec_many f n r of (xs, r') \<Rightarrow> (x # xs, r'))"

fun dec_json :: "nat \<Rightarrow> jsstr \<Rightarrow> json \<times> jsstr" where
  "dec_json (Suc n) (t # s) =
     (if t = 0 then (JNull, s)
      else if t = 1 then (JBool (hd s = 1), tl s)
      else if t = 2 then (case dec_int s of (a, r) \<Rightarrow> case dec_int r of (b, r') \<Rightarrow>
             (JNum (Fin (of_int a / of_int b)), r'))
      else if t = 3 then (JNum Inf, s)
      else if t = 4 then (JNum NegInf, s)
      else if t = 5 then (case dec_str s of (x, r) \<Rightarrow> (JStr x, r))
      else if t = 6 then (case dec_many (dec_json n) (hd s) (tl s) of (vs, r) \<Rightarrow> (JArr vs, r))
      else (case dec_many (\<lambda>s. case dec_str s of (k, r) \<Rightarrow> case dec_json n r of (v, r') \<Rightarrow> ((k, v), r'))
              (hd s) (tl s) of (ps, r) \<Rightarrow> (JObj ps, r)))"
| "dec_json _ s = (JNull, s)"

lemma dec_many_concat:
  "(\<And>x r. x \<in> set xs \<Longrightarrow> f (g x @ r) = (x, r)) \<Longrightarrow> dec_many f (length xs) (concat (map g xs) @ r) = (xs, r)"
  by (induction xs) auto

lemma length_concat_le: "x \<in> set xs \<Longrightarrow> length (g x) \<le> length (concat (map g xs))"
  by (induction xs) auto

lemma dec_enc_json: "length (enc_json j) \<le> n \<Longrightarrow> dec_json n (enc_json j @ r) = (j, r)"
proof (induction j arbitrary: n r)
  case (JNum x)
  then show ?case
    by (cases n; cases x) (auto simp: quotient_of_div[of _ "fst (quotient_of _)" "snd (quotient_of _)", symmetric])
next
  case (JStr s)
  then show ?case by (cases n) auto
next
  case (JArr vs)
  then obtain m where n: "n = Suc m" by (cases n) auto
  have "dec_json m (enc_json v @ r) = (v, r)" if "v \<in> set vs" for v r
    using JArr.IH[OF that] JArr.prems length_concat_le[OF that, of enc_json] n by simp
  then show ?case using dec_many_concat[of vs "dec_json m" enc_json] n by simp
next
  case (JObj ps)
  then obtain m where n: "n = Suc m" by (cases n) auto
  let ?g = "\<lambda>p. enc_str (fst p) @ enc_json (snd p)"
  let ?f = "\<lambda>s. case dec_str s of (k, r) \<Rightarrow> case dec_json m r of (v, r') \<Rightarrow> ((k, v), r')"
  have "?f (?g p @ r) = (p, r)" if "p \<in> set ps" for p r
  proof -
    have "length (enc_json (snd p)) \<le> m"
      using JObj.prems length_concat_le[OF that, of ?g] n by simp
    then show ?thesis using JObj.IH[OF that, of "snd p"] by (simp add: snds.simps)
  qed
  then show ?case using dec_many_concat[of ps ?f ?g] n by simp
next
  case JNull
  then show ?case by (cases n) auto
next
  case (JBool b)
  then show ?case by (cases n) auto
qed

definition demo_json :: json_env where
  "demo_json = \<lparr>parse = (\<lambda>s. Some (fst (dec_json (length s) s))), stringify = enc_json,
     toLower = (\<lambda>s. s), fl = (\<lambda>x. x)\<rparr>"

lemma demo_json_fl: "fl_laws (fl demo_json)"
  by (simp add: fl_laws_def demo_json_def)

lemma doubles_id: "doubles (\<lambda>x. x) j"
proof (induction j)
  case (JNum x) then show ?case by (cases x) auto
next
  case (JObj ps) then show ?case by (auto simp: snds.simps)
qed auto

lemma demo_json_laws: "json_laws demo_json"
proof -
  have "enc_json j \<noteq> []" for j by (cases j rule: enc_json.cases) auto
  moreover have "fst (dec_json (length (enc_json j)) (enc_json j)) = j" for j
    using dec_enc_json[of j "length (enc_json j)" "[]"] by simp
  ultimately show ?thesis by (simp add: json_laws_def demo_json_def doubles_id)
qed

definition demo_wave :: "(jsstr \<times> json) list" where
  "demo_wave = [(js ''waveform'', JArr [JNum (Fin 2), JNum (Fin (1 / 2))]), (js ''encrypted'', JBool True)]"

lemma demo_wave_result:
  "validateAndNormalizeMetadata demo_json (Some (enc_json (JObj demo_wave))) =
   Inr (Some (enc_json (JObj [(js ''waveform'', JArr [JNum (Fin 1), JNum (Fin (1 / 2))]), (js ''encrypted'', JBool True)])))"
proof -
  have "fst (dec_json (length (enc_json j)) (enc_json j)) = j" for j
    using dec_enc_json[of j "length (enc_json j)" "[]"] by simp
  then have "parse demo_json (enc_json (JObj demo_wave)) = Some (JObj demo_wave)"
    by (simp only: demo_json_def json_env.simps)
  moreover have "enc_json (JObj demo_wave) \<noteq> []" by simp
  moreover have "length (enc_json (JObj demo_wave)) \<le> 100"
    by (simp add: demo_wave_def enc_str_def enc_int_def)
  then have "utf8_length (enc_json (JObj demo_wave)) \<le> MAX_METADATA_BYTES"
    using utf8_le_length[of "enc_json (JObj demo_wave)"] by (simp add: MAX_METADATA_BYTES_def)
  ultimately show ?thesis
    by (simp add: validateAndNormalizeMetadata_def validate_object_def validate_fields_def demo_wave_def
      allowedKeys_def FORBIDDEN_KEYS_def check_waveform_def MAX_WAVEFORM_POINTS_def check_duration_def check_mime_def
      check_encrypted_def check_destruct_def result_props_def opt_prop_def demo_json_def[THEN arg_cong, of stringify])
qed

abbreviation demo_stored :: jsstr where
  "demo_stored \<equiv> enc_json (JObj [(js ''waveform'', JArr [JNum (Fin 1), JNum (Fin (1 / 2))]), (js ''encrypted'', JBool True)])"

theorem metadata_bounds_witness:
  "\<exists>v. result_props v \<noteq> [] \<and> valid_meta demo_json v \<and> stringify demo_json (JObj (result_props v)) = demo_stored"
  using metadata_bounds[OF demo_json_fl demo_wave_result] by metis

theorem metadata_idempotent_witness:
  "validateAndNormalizeMetadata demo_json (Some demo_stored) = Inr (Some demo_stored)"
proof (rule metadata_idempotent[OF demo_json_fl demo_json_laws demo_wave_result])
  have "length demo_stored \<le> 100" by (simp add: enc_str_def enc_int_def)
  then show "utf8_length demo_stored \<le> MAX_METADATA_BYTES"
    using utf8_le_length[of demo_stored] by (simp add: MAX_METADATA_BYTES_def)
qed

end
