(* ===== verification/Conversations.thy ===== *)
theory Conversations
  imports MessageView Metadata
begin

text \<open>
  The conversations service, \<open>server/src/conversations/conversations.service.ts\<close>: chats, members and
  roles, pinned messages, message pages, sending, editing, deleting, reacting, forwarding, and sender
  keys.

  Every operation takes the instant its \<open>new Date()\<close> reads and the database, and returns the value or
  the exception together with the database it leaves.  The operations are not transactions in the
  code, so a later throw keeps the earlier writes; the model keeps them too.  \<open>deleteMessage\<close> also
  returns the files it asks the storage to delete.  Ids that a caller cannot influence (autoincrement)
  come from the tables.
\<close>

definition EDIT_WINDOW_MS :: int where "EDIT_WINDOW_MS = 15 * 60 * 1000"
definition MAX_PINNED_MESSAGES :: nat where "MAX_PINNED_MESSAGES = 20"
definition MAX_CONTENT :: nat where "MAX_CONTENT = 4096"

definition ALLOWED_EMOJIS :: "jsstr list" where
  "ALLOWED_EMOJIS = [[55357, 56397], [10084, 65039], [55357, 56834], [55357, 56878], [55357, 56866],
     [55357, 56865], [55357, 56613], [55357, 56399], [55356, 57225], [55357, 56495]]"

section \<open>Membership\<close>

definition assertMember :: "id \<Rightarrow> id \<Rightarrow> db \<Rightarrow> member result" where
  "assertMember uid cid d = (case find_member d cid uid of None \<Rightarrow> Inl (Forbidden ''Not a member'') | Some m \<Rightarrow> Inr m)"

definition assertAdmin :: "id \<Rightarrow> id \<Rightarrow> db \<Rightarrow> member result" where
  "assertAdmin uid cid d = rbind (assertMember uid cid d)
     (\<lambda>m. if m_role m = MEMBER then Inl (Forbidden ''Admin required'') else Inr m)"

definition is_member :: "db \<Rightarrow> id \<Rightarrow> id \<Rightarrow> bool" where
  "is_member d cid uid \<longleftrightarrow> find_member d cid uid \<noteq> None"

definition is_admin :: "db \<Rightarrow> id \<Rightarrow> id \<Rightarrow> bool" where
  "is_admin d cid uid = (case find_member d cid uid of None \<Rightarrow> False | Some m \<Rightarrow> m_role m \<noteq> MEMBER)"

lemma is_admin_iff: "is_admin d cid uid \<longleftrightarrow> (\<exists>m. find_member d cid uid = Some m \<and> m_role m \<noteq> MEMBER)"
  by (simp add: is_admin_def split: option.split)

lemma assertMember_simps [simp]:
  "assertMember uid cid d = Inr m \<longleftrightarrow> find_member d cid uid = Some m"
  "assertMember uid cid d = Inl e \<longleftrightarrow> find_member d cid uid = None \<and> e = Forbidden ''Not a member''"
  by (auto simp: assertMember_def split: option.splits)

lemma assertAdmin_Inr: "assertAdmin uid cid d = Inr m \<longleftrightarrow> find_member d cid uid = Some m \<and> m_role m \<noteq> MEMBER"
  by (auto simp: assertAdmin_def rbind_Inr)

text \<open>\<open>conversationMember.update\<close> and \<open>conversation.update\<close> by unique key.\<close>

definition update_member :: "id \<Rightarrow> id \<Rightarrow> (member \<Rightarrow> member) \<Rightarrow> db \<Rightarrow> member result \<times> db" where
  "update_member cid uid f d =
     (case find_member d cid uid of None \<Rightarrow> (Inl (PrismaError ''P2025''), d)
      | Some m \<Rightarrow> (Inr (f m),
          d\<lparr>db_members := t_update (\<lambda>m. m_conversationId m = cid \<and> m_userId m = uid) f (db_members d)\<rparr>))"

definition update_conv :: "id \<Rightarrow> (conversation \<Rightarrow> conversation) \<Rightarrow> db \<Rightarrow> conversation result \<times> db" where
  "update_conv cid f d =
     (case find_conv d cid of None \<Rightarrow> (Inl (PrismaError ''P2025''), d)
      | Some c \<Rightarrow> (Inr (f c), d\<lparr>db_convs := t_update (\<lambda>c. c_id c = cid) f (db_convs d)\<rparr>))"

definition update_msg :: "id \<Rightarrow> (message \<Rightarrow> message) \<Rightarrow> db \<Rightarrow> message result \<times> db" where
  "update_msg mid f d =
     (case find_message d mid of None \<Rightarrow> (Inl (PrismaError ''P2025''), d)
      | Some g \<Rightarrow> (Inr (f g), d\<lparr>db_messages := t_update (\<lambda>g. msg_id g = mid) f (db_messages d)\<rparr>))"

definition touch_conv :: "id \<Rightarrow> time \<Rightarrow> db \<Rightarrow> conversation result \<times> db" where
  "touch_conv cid now = update_conv cid (\<lambda>c. c\<lparr>c_updatedAt := now\<rparr>)"

section \<open>The list of my conversations\<close>

record last_message =
  lm_id :: id
  lm_content :: jsstr
  lm_senderId :: id
  lm_createdAt :: time
  lm_fileType :: "jsstr option"
  lm_fileUrl :: "jsstr option"

type_synonym pin_msg = "id \<times> jsstr \<times> (id \<times> jsstr) option"

record conv_item =
  ci_id :: id
  ci_type :: conversation_type
  ci_name :: "jsstr option"
  ci_avatarUrl :: "jsstr option"
  ci_description :: "jsstr option"
  ci_isOnline :: bool
  ci_myRole :: member_role
  ci_lastMessage :: "last_message option"
  ci_unreadCount :: nat
  ci_members :: "(id \<times> member_role \<times> time \<times> member_user option) list"
  ci_updatedAt :: time
  ci_isPinned :: bool
  ci_isArchived :: bool
  ci_pinnedMessage :: "pin_msg option"
  ci_pinnedCount :: nat

definition conv_members :: "db \<Rightarrow> id \<Rightarrow> member list" where
  "conv_members d cid = t_all (\<lambda>m. m_conversationId m = cid) (db_members d)"

definition pin_message_view :: "db \<Rightarrow> id \<Rightarrow> pin_msg option" where
  "pin_message_view d mid = map_option (\<lambda>g. (msg_id g, msg_content g, named_user d (msg_senderId g))) (find_message d mid)"

definition latest_pin :: "db \<Rightarrow> id \<Rightarrow> pinned option" where
  "latest_pin d cid = (case sort_key (\<lambda>p. - p_pinnedAt p) (t_all (\<lambda>p. p_conversationId p = cid) (db_pins d)) of
     [] \<Rightarrow> None | p # _ \<Rightarrow> Some p)"

definition pin_count :: "db \<Rightarrow> id \<Rightarrow> nat" where
  "pin_count d cid = t_count (\<lambda>p. p_conversationId p = cid) (db_pins d)"

definition by_id_desc :: "message list \<Rightarrow> message list" where
  "by_id_desc gs = sort_key (\<lambda>g. - msg_id g) gs"

definition unread_count :: "db \<Rightarrow> id \<Rightarrow> member \<Rightarrow> time \<Rightarrow> nat" where
  "unread_count d uid m now = t_count (\<lambda>g. msg_conversationId g = m_conversationId m \<and> msg_senderId g \<noteq> uid
       \<and> msg_deletedAt g = None \<and> m_lastReadAt m < msg_createdAt g \<and> scheduledFilter uid now g) (db_messages d)"

definition last_message_of :: "db \<Rightarrow> id \<Rightarrow> id \<Rightarrow> time \<Rightarrow> last_message option" where
  "last_message_of d cid uid now =
     (case by_id_desc (t_all (\<lambda>g. msg_conversationId g = cid \<and> msg_deletedAt g = None \<and> scheduledFilter uid now g)
             (db_messages d)) of
        [] \<Rightarrow> None
      | g # _ \<Rightarrow> Some \<lparr>lm_id = msg_id g, lm_content = msg_content g, lm_senderId = msg_senderId g,
                    lm_createdAt = msg_createdAt g, lm_fileType = msg_fileType g, lm_fileUrl = msg_fileUrl g\<rparr>)"

text \<open>The literal for the chat with oneself.\<close>

definition saved_name :: jsstr where
  "saved_name = [1047, 1073, 1077, 1088, 1077, 1078, 1077, 1085, 1110]"

definition conv_view :: "db \<Rightarrow> id \<Rightarrow> time \<Rightarrow> member \<Rightarrow> conversation \<Rightarrow> conv_item" where
  "conv_view d uid now m c =
     (let mems = conv_members d (c_id c);
          other = List.find (\<lambda>x. m_userId x \<noteq> uid) mems;
          other_user = Option.bind other (\<lambda>x. select_member_user d (m_userId x));
          (name, avatar, online) =
            (if c_type c = DIRECT then
               (case other of
                  Some x \<Rightarrow> (map_option mu_nickname other_user, Option.bind other_user mu_avatarUrl,
                             (case other_user of Some u \<Rightarrow> mu_isOnline u | None \<Rightarrow> False))
                | None \<Rightarrow> (Some saved_name, c_avatarUrl c, False))
             else (c_name c, c_avatarUrl c, False))
      in \<lparr>ci_id = c_id c, ci_type = c_type c, ci_name = name, ci_avatarUrl = avatar, ci_description = c_description c,
          ci_isOnline = online, ci_myRole = m_role m, ci_lastMessage = last_message_of d (c_id c) uid now,
          ci_unreadCount = unread_count d uid m now,
          ci_members = map (\<lambda>x. (m_userId x, m_role x, m_joinedAt x, select_member_user d (m_userId x))) mems,
          ci_updatedAt = c_updatedAt c, ci_isPinned = m_isPinned m, ci_isArchived = m_isArchived m,
          ci_pinnedMessage = Option.bind (latest_pin d (c_id c)) (\<lambda>p. pin_message_view d (p_messageId p)),
          ci_pinnedCount = pin_count d (c_id c)\<rparr>)"

text \<open>\<open>orderBy: [{ isPinned: 'desc' }, { conversation: { updatedAt: 'desc' } }]\<close> as two stable sorts.\<close>

definition my_memberships :: "db \<Rightarrow> id \<Rightarrow> bool \<Rightarrow> (member \<times> conversation) list" where
  "my_memberships d uid showArchived =
     sort_key (\<lambda>(m, c). if m_isPinned m then 0 else 1 :: int)
       (sort_key (\<lambda>(m, c). - c_updatedAt c)
         (List.map_filter (\<lambda>m. map_option (Pair m) (find_conv d (m_conversationId m)))
           (t_all (\<lambda>m. m_userId m = uid \<and> m_isArchived m = showArchived) (db_members d))))"

definition getMyConversations :: "id \<Rightarrow> nat \<Rightarrow> nat \<Rightarrow> bool \<Rightarrow> time \<Rightarrow> db \<Rightarrow> conv_item list \<times> bool" where
  "getMyConversations uid skp tk showArchived now d =
     (let TAKE = min tk 50;
          ms = take (TAKE + 1) (drop skp (my_memberships d uid showArchived));
          hasMore = length ms > TAKE;
          page = (if hasMore then take TAKE ms else ms)
      in (map (\<lambda>(m, c). conv_view d uid now m c) page, hasMore))"

definition setChatPinned :: "id \<Rightarrow> id \<Rightarrow> bool \<Rightarrow> db \<Rightarrow> bool result \<times> db" where
  "setChatPinned uid cid isPinned d =
     check (assertMember uid cid d) (\<lambda>_ d.
       sbind (update_member cid uid (\<lambda>m. m\<lparr>m_isPinned := isPinned\<rparr>) d) (\<lambda>_ d. (Inr isPinned, d))) d"

definition setChatArchived :: "id \<Rightarrow> id \<Rightarrow> bool \<Rightarrow> db \<Rightarrow> bool result \<times> db" where
  "setChatArchived uid cid isArchived d =
     check (assertMember uid cid d) (\<lambda>_ d.
       sbind (update_member cid uid
                (\<lambda>m. if isArchived then m\<lparr>m_isArchived := isArchived, m_isPinned := False\<rparr>
                     else m\<lparr>m_isArchived := isArchived\<rparr>) d) (\<lambda>_ d. (Inr isArchived, d))) d"

section \<open>Pinned messages\<close>

record pin_result =
  pr_messageId :: id
  pr_pinnedAt :: time
  pr_message :: "pin_msg option"
  pr_count :: nat

definition upsert_pin :: "id \<Rightarrow> id \<Rightarrow> id \<Rightarrow> time \<Rightarrow> db \<Rightarrow> unit result \<times> db" where
  "upsert_pin cid mid uid now d =
     (let same = (\<lambda>p. p_conversationId p = cid \<and> p_messageId p = mid)
      in if t_find same (db_pins d) \<noteq> None
         then (Inr (), d\<lparr>db_pins := t_update same (\<lambda>p. p\<lparr>p_pinnedAt := now, p_pinnedById := uid\<rparr>) (db_pins d)\<rparr>)
         else if find_conv d cid = None \<or> find_message d mid = None \<or> find_user d uid = None
              then (Inl (PrismaError ''P2003''), d)
         else (Inr (), d\<lparr>db_pins := t_insert (\<lambda>i. \<lparr>p_id = i, p_conversationId = cid, p_messageId = mid,
                            p_pinnedById = uid, p_pinnedAt = now\<rparr>) (db_pins d)\<rparr>))"

definition addPinnedMessage :: "id \<Rightarrow> id \<Rightarrow> id \<Rightarrow> time \<Rightarrow> db \<Rightarrow> pin_result result \<times> db" where
  "addPinnedMessage uid cid mid now d =
     check (assertAdmin uid cid d) (\<lambda>_ d.
       (case find_message d mid of
          None \<Rightarrow> (Inl (NotFound ''Message not found''), d)
        | Some g \<Rightarrow>
            if msg_conversationId g \<noteq> cid then (Inl (NotFound ''Message not found''), d)
            else if msg_deletedAt g \<noteq> None then (Inl (BadRequest ''Cannot pin a deleted message''), d)
            else if pin_count d cid \<ge> MAX_PINNED_MESSAGES
                 then (Inl (BadRequest ''Cannot pin more than 20 messages''), d)
            else sbind (upsert_pin cid mid uid now d) (\<lambda>_ d.
                   (Inr \<lparr>pr_messageId = mid, pr_pinnedAt = now, pr_message = pin_message_view d mid,
                         pr_count = pin_count d cid\<rparr>, d)))) d"

definition removePinnedMessage :: "id \<Rightarrow> id \<Rightarrow> id \<Rightarrow> db \<Rightarrow> (id \<times> nat \<times> pin_msg option) result \<times> db" where
  "removePinnedMessage uid cid mid d =
     check (assertAdmin uid cid d) (\<lambda>_ d.
       let d = d\<lparr>db_pins := t_delete (\<lambda>p. p_conversationId p = cid \<and> p_messageId p = mid) (db_pins d)\<rparr>
       in (Inr (mid, pin_count d cid, Option.bind (latest_pin d cid) (\<lambda>p. pin_message_view d (p_messageId p))), d)) d"

record pinned_item =
  pi_id :: id
  pi_messageId :: id
  pi_pinnedAt :: time
  pi_pinnedBy :: "(id \<times> jsstr) option"
  pi_message :: "(id \<times> jsstr \<times> jsstr option \<times> jsstr option \<times> (id \<times> jsstr) option) option"

definition getPinnedMessages :: "id \<Rightarrow> id \<Rightarrow> db \<Rightarrow> pinned_item list result" where
  "getPinnedMessages uid cid d =
     rbind (assertMember uid cid d) (\<lambda>_. Inr (map (\<lambda>p.
       \<lparr>pi_id = p_id p, pi_messageId = p_messageId p, pi_pinnedAt = p_pinnedAt p,
        pi_pinnedBy = named_user d (p_pinnedById p),
        pi_message = map_option (\<lambda>g. (msg_id g, msg_content g, msg_fileType g, msg_fileUrl g,
           named_user d (msg_senderId g))) (find_message d (p_messageId p))\<rparr>)
       (sort_key (\<lambda>p. - p_pinnedAt p) (t_all (\<lambda>p. p_conversationId p = cid) (db_pins d)))))"

section \<open>Pages of messages\<close>

definition PAGE :: nat where "PAGE = 30"

text \<open>The \<open>clearedAt\<close> condition that a member's watermark adds.\<close>

definition after_clear :: "time option \<Rightarrow> message \<Rightarrow> bool" where
  "after_clear cleared g \<longleftrightarrow> (case cleared of None \<Rightarrow> True | Some t \<Rightarrow> t < msg_createdAt g)"

definition visible :: "id \<Rightarrow> id \<Rightarrow> time option \<Rightarrow> time \<Rightarrow> message \<Rightarrow> bool" where
  "visible uid cid cleared now g \<longleftrightarrow>
     msg_conversationId g = cid \<and> after_clear cleared g \<and> scheduledFilter uid now g"

definition with_reads :: "db \<Rightarrow> id \<Rightarrow> id \<Rightarrow> message list \<Rightarrow> msg_out list" where
  "with_reads d cid uid gs = (let others = getOtherMembersLastRead d cid uid
     in map (\<lambda>g. mapMessageWithRead d g uid others) gs)"

text \<open>
  \<open>cursor: { id }, skip: 1\<close>: rows from the cursor row on, in the order of the query, without the first;
  nothing if there is no row with that id.
\<close>

definition from_cursor :: "db \<Rightarrow> id \<Rightarrow> message list \<Rightarrow> message list" where
  "from_cursor d cursor gs =
     (if find_message d cursor = None then [] else drop 1 (filter (\<lambda>g. msg_id g \<le> cursor) gs))"

definition has_cursor :: "id option \<Rightarrow> bool" where
  "has_cursor cursor \<longleftrightarrow> cursor \<noteq> None \<and> cursor \<noteq> Some 0"

definition page_rows :: "id \<Rightarrow> id \<Rightarrow> id option \<Rightarrow> member \<Rightarrow> time \<Rightarrow> db \<Rightarrow> message list" where
  "page_rows uid cid cursor m now d =
     (let cleared = (if has_cursor cursor then None else m_clearedAt m);
          gs = by_id_desc (t_all (visible uid cid cleared now) (db_messages d))
      in take PAGE (if has_cursor cursor then from_cursor d (the cursor) gs else gs))"

text \<open>With a cursor the code returns the bare array, without one also the first unread id.\<close>

definition getMessages :: "id \<Rightarrow> id \<Rightarrow> id option \<Rightarrow> time \<Rightarrow> db \<Rightarrow> (msg_out list \<times> id option) result" where
  "getMessages uid cid cursor now d =
     rbind (assertMember uid cid d) (\<lambda>m.
       let ordered = rev (page_rows uid cid cursor m now d);
           firstUnread = (if has_cursor cursor then None
              else List.find (\<lambda>g. msg_senderId g \<noteq> uid \<and> m_lastReadAt m < msg_createdAt g) ordered)
       in Inr (with_reads d cid uid ordered, map_option msg_id firstUnread))"

definition getMessagesAround :: "id \<Rightarrow> id \<Rightarrow> id \<Rightarrow> time \<Rightarrow> db \<Rightarrow> msg_out list result" where
  "getMessagesAround uid cid around now d =
     rbind (assertMember uid cid d) (\<lambda>m.
       Inr (with_reads d cid uid (rev (take PAGE (by_id_desc
         (t_all (\<lambda>g. msg_id g \<le> around \<and> visible uid cid (m_clearedAt m) now g) (db_messages d)))))))"

definition getMessagesAfter :: "id \<Rightarrow> id \<Rightarrow> id \<Rightarrow> time \<Rightarrow> db \<Rightarrow> msg_out list result" where
  "getMessagesAfter uid cid after now d =
     rbind (assertMember uid cid d) (\<lambda>m.
       Inr (with_reads d cid uid (take PAGE (sort_key msg_id
         (t_all (\<lambda>g. after < msg_id g \<and> visible uid cid (m_clearedAt m) now g) (db_messages d))))))"

text \<open>The database's case-insensitive \<open>contains\<close> is a parameter.\<close>

definition searchMessages :: "(jsstr \<Rightarrow> jsstr \<Rightarrow> bool) \<Rightarrow> id \<Rightarrow> id \<Rightarrow> jsstr \<Rightarrow> time \<Rightarrow> db \<Rightarrow> msg_out list result" where
  "searchMessages icontains uid cid query now d =
     rbind (assertMember uid cid d) (\<lambda>_.
       let q = trim query
       in if length q < 2 then Inr []
          else Inr (with_reads d cid uid (rev (take PAGE (by_id_desc
            (t_all (\<lambda>g. msg_conversationId g = cid \<and> msg_deletedAt g = None \<and> icontains (msg_content g) q
                \<and> scheduledFilter uid now g) (db_messages d)))))))"

record media_item =
  md_id :: id
  md_fileUrl :: "jsstr option"
  md_fileName :: "jsstr option"
  md_fileType :: "jsstr option"
  md_fileSize :: "int option"
  md_metadata :: "jsstr option"
  md_createdAt :: time
  md_senderId :: id
  md_sender :: "(id \<times> jsstr) option"

definition getMediaFiles :: "id \<Rightarrow> id \<Rightarrow> time \<Rightarrow> db \<Rightarrow> media_item list result" where
  "getMediaFiles uid cid now d =
     rbind (assertMember uid cid d) (\<lambda>_. Inr (map (\<lambda>g.
       \<lparr>md_id = msg_id g, md_fileUrl = msg_fileUrl g, md_fileName = msg_fileName g, md_fileType = msg_fileType g,
        md_fileSize = msg_fileSize g, md_metadata = msg_metadata g, md_createdAt = msg_createdAt g,
        md_senderId = msg_senderId g, md_sender = named_user d (msg_senderId g)\<rparr>)
       (take 200 (by_id_desc (t_all (\<lambda>g. msg_conversationId g = cid \<and> msg_deletedAt g = None
           \<and> msg_fileUrl g \<noteq> None \<and> scheduledFilter uid now g) (db_messages d))))))"

definition getMessageById :: "id \<Rightarrow> db \<Rightarrow> msg_out option" where
  "getMessageById mid d = map_option (mapMessage d) (find_message d mid)"

datatype clear_scope = Self | Both

definition clearMessages :: "id \<Rightarrow> id \<Rightarrow> clear_scope \<Rightarrow> time \<Rightarrow> db \<Rightarrow> clear_scope result \<times> db" where
  "clearMessages uid cid scope now d =
     check (assertMember uid cid d) (\<lambda>m d.
       case find_conv d cid of
         None \<Rightarrow> (Inl (PrismaError ''P2025''), d)
       | Some c \<Rightarrow>
           (case scope of
              Both \<Rightarrow>
                if c_type c \<noteq> DIRECT \<and> m_role m = MEMBER
                then (Inl (Forbidden ''Only admins can clear chat for everyone''), d)
                else sbind (touch_conv cid now
                       (d\<lparr>db_messages := t_update (\<lambda>g. msg_conversationId g = cid \<and> msg_deletedAt g = None)
                                          (\<lambda>g. g\<lparr>msg_deletedAt := Some now\<rparr>) (db_messages d),
                          db_pins := t_delete (\<lambda>p. p_conversationId p = cid) (db_pins d),
                          db_members := t_update (\<lambda>x. m_conversationId x = cid) (\<lambda>x. x\<lparr>m_clearedAt := Some now\<rparr>)
                                          (db_members d)\<rparr>)) (\<lambda>_ d. (Inr Both, d))
            | Self \<Rightarrow>
                sbind (update_member cid uid (\<lambda>x. x\<lparr>m_clearedAt := Some now\<rparr>) d) (\<lambda>_ d. (Inr Self, d)))) d"

section \<open>Sending, editing, deleting, reacting, forwarding\<close>

record send_dto =
  sd_content :: "jsstr option"
  sd_fileUrl :: "jsstr option"
  sd_fileName :: "jsstr option"
  sd_fileType :: "jsstr option"
  sd_fileSize :: "int option"
  sd_replyToId :: "id option"
  sd_metadata :: "jsstr option"
  sd_scheduledAt :: "time option"
  sd_senderDeviceId :: "id option"
  sd_envelopes :: "(id \<times> jsstr) list"

definition new_message :: "id \<Rightarrow> id \<Rightarrow> send_dto \<Rightarrow> jsstr option \<Rightarrow> time \<Rightarrow> id \<Rightarrow> message" where
  "new_message uid cid dto meta now i =
     \<lparr>msg_id = i, msg_content = (case sd_content dto of None \<Rightarrow> [] | Some c \<Rightarrow> trim c), msg_createdAt = now,
      msg_editedAt = None, msg_deletedAt = None, msg_scheduledAt = sd_scheduledAt dto,
      msg_fileUrl = sd_fileUrl dto, msg_fileName = sd_fileName dto, msg_fileType = sd_fileType dto,
      msg_fileSize = sd_fileSize dto, msg_metadata = meta, msg_forwardedFromId = None,
      msg_forwardedFromUserId = None, msg_senderId = uid, msg_conversationId = cid,
      msg_replyToId = sd_replyToId dto, msg_senderDeviceId = sd_senderDeviceId dto\<rparr>"

definition saveMessage :: "json_env \<Rightarrow> id \<Rightarrow> id \<Rightarrow> send_dto \<Rightarrow> time \<Rightarrow> db \<Rightarrow> msg_out result \<times> db" where
  "saveMessage J uid cid dto now d =
     (if length (str_or (sd_content dto) []) > MAX_CONTENT
      then (Inl (BadRequest ''Message content exceeds maximum length of 4096 characters''), d)
      else check (assertMember uid cid d) (\<lambda>m d.
        case find_conv d cid of
          None \<Rightarrow> (Inl (NotFound ''Conversation not found''), d)
        | Some c \<Rightarrow>
            if c_type c = CHANNEL \<and> m_role m = MEMBER then (Inl (Forbidden ''Only admins can post in channels''), d)
            else check (validateAndNormalizeMetadata J (sd_metadata dto)) (\<lambda>meta d.
              sbind (create_message (new_message uid cid dto meta now) d) (\<lambda>g d.
              sbind (if sd_envelopes dto = [] then (Inr (), d)
                     else create_envelopes (msg_id g) (sd_envelopes dto) d) (\<lambda>_ d.
              sbind (touch_conv cid now d) (\<lambda>_ d.
                (Inr (mapMessage d g), d))))) d) d)"

definition markAsRead :: "id \<Rightarrow> id \<Rightarrow> time \<Rightarrow> db \<Rightarrow> db" where
  "markAsRead uid cid now d =
     d\<lparr>db_members := t_update (\<lambda>m. m_conversationId m = cid \<and> m_userId m = uid)
         (\<lambda>m. m\<lparr>m_lastReadAt := now\<rparr>) (db_members d)\<rparr>"

definition deleteMessage :: "id \<Rightarrow> id \<Rightarrow> time \<Rightarrow> db \<Rightarrow> (message \<times> jsstr list) result \<times> db" where
  "deleteMessage mid uid now d =
     (case find_message d mid of
        None \<Rightarrow> (Inl (NotFound ''Message not found''), d)
      | Some g \<Rightarrow>
          if msg_senderId g \<noteq> uid \<and> \<not> is_admin d (msg_conversationId g) uid
          then (Inl (Forbidden ''Cannot delete this message''), d)
          else if msg_deletedAt g \<noteq> None then (Inr (g, []), d)
          else sbind (update_msg mid (\<lambda>g. g\<lparr>msg_deletedAt := Some now\<rparr>) d) (\<lambda>g' d.
            let files = (if truthy (msg_fileUrl g)
                  then if t_count (\<lambda>x. msg_fileUrl x = msg_fileUrl g \<and> msg_deletedAt x = None \<and> msg_id x \<noteq> mid)
                            (db_messages d) = 0
                       then [the (msg_fileUrl g)] else []
                  else [])
            in (Inr (g', files), d)))"

definition editMessage :: "id \<Rightarrow> id \<Rightarrow> jsstr \<Rightarrow> time \<Rightarrow> db \<Rightarrow> message result \<times> db" where
  "editMessage mid uid content now d =
     (case find_message d mid of
        None \<Rightarrow> (Inl (NotFound ''Not found''), d)
      | Some g \<Rightarrow>
          if msg_senderId g \<noteq> uid then (Inl (Forbidden ''Cannot edit others messages''), d)
          else if msg_deletedAt g \<noteq> None then (Inl (BadRequest ''Cannot edit deleted message''), d)
          else if now - msg_createdAt g > EDIT_WINDOW_MS then (Inl (BadRequest ''Edit window expired''), d)
          else if trim content = [] then (Inl (BadRequest ''Content empty''), d)
          else if trim content = msg_content g then (Inr g, d)
          else update_msg mid (\<lambda>g. g\<lparr>msg_content := trim content, msg_editedAt := Some now\<rparr>) d)"

definition same_reaction :: "id \<Rightarrow> id \<Rightarrow> jsstr \<Rightarrow> reaction \<Rightarrow> bool" where
  "same_reaction mid uid emoji r \<longleftrightarrow> r_userId r = uid \<and> r_messageId r = mid \<and> r_emoji r = emoji"

definition flip_reaction :: "id \<Rightarrow> id \<Rightarrow> jsstr \<Rightarrow> time \<Rightarrow> db \<Rightarrow> unit result \<times> db" where
  "flip_reaction mid uid emoji now d =
     (case t_find (same_reaction mid uid emoji) (db_reactions d) of
        Some ex \<Rightarrow> (Inr (), d\<lparr>db_reactions := t_delete (\<lambda>r. r_id r = r_id ex) (db_reactions d)\<rparr>)
      | None \<Rightarrow>
          if find_user d uid = None then (Inl (PrismaError ''P2003''), d)
          else (Inr (), d\<lparr>db_reactions := t_insert (\<lambda>i. \<lparr>r_id = i, r_emoji = emoji, r_userId = uid,
                            r_messageId = mid, r_createdAt = now\<rparr>) (db_reactions d)\<rparr>))"

definition toggleReaction :: "id \<Rightarrow> id \<Rightarrow> jsstr \<Rightarrow> time \<Rightarrow> db \<Rightarrow> (reaction_group list \<times> id) result \<times> db" where
  "toggleReaction mid uid emoji now d =
     (if emoji \<notin> set ALLOWED_EMOJIS then (Inl (BadRequest ''Invalid emoji''), d)
      else case find_message d mid of
        None \<Rightarrow> (Inl (NotFound ''Not found''), d)
      | Some g \<Rightarrow>
          if msg_deletedAt g \<noteq> None then (Inl (BadRequest ''Cannot react to deleted message''), d)
          else check (assertMember uid (msg_conversationId g) d) (\<lambda>_ d.
            sbind (flip_reaction mid uid emoji now d) (\<lambda>_ d.
              (Inr (groupReactions (select_reactions d mid), msg_conversationId g), d))) d)"

definition forwardMessage :: "id \<Rightarrow> id \<Rightarrow> id \<Rightarrow> jsstr option \<Rightarrow> time \<Rightarrow> db \<Rightarrow> msg_out result \<times> db" where
  "forwardMessage uid mid target reEncrypted now d =
     check (assertMember uid target d) (\<lambda>_ d.
       case find_message d mid of
         None \<Rightarrow> (Inl (NotFound ''Message not found''), d)
       | Some orig \<Rightarrow>
           sbind (create_message (\<lambda>i. \<lparr>msg_id = i,
                msg_content = (case reEncrypted of None \<Rightarrow> msg_content orig | Some c \<Rightarrow> c), msg_createdAt = now,
                msg_editedAt = None, msg_deletedAt = None, msg_scheduledAt = None,
                msg_fileUrl = msg_fileUrl orig, msg_fileName = msg_fileName orig, msg_fileType = msg_fileType orig,
                msg_fileSize = msg_fileSize orig, msg_metadata = None, msg_forwardedFromId = Some (msg_id orig),
                msg_forwardedFromUserId = Some (msg_senderId orig), msg_senderId = uid, msg_conversationId = target,
                msg_replyToId = None, msg_senderDeviceId = None\<rparr>) d) (\<lambda>g d.
           sbind (touch_conv target now d) (\<lambda>_ d. (Inr (mapMessage d g), d)))) d"

section \<open>Creating conversations\<close>

record conv_full =
  cf_conv :: conversation
  cf_members :: "(member \<times> member_user option) list"

definition full_conv :: "db \<Rightarrow> conversation \<Rightarrow> conv_full" where
  "full_conv d c = \<lparr>cf_conv = c, cf_members = map (\<lambda>m. (m, select_member_user d (m_userId m))) (conv_members d (c_id c))\<rparr>"

fun create_members :: "id \<Rightarrow> (id \<times> member_role) list \<Rightarrow> time \<Rightarrow> db \<Rightarrow> unit result \<times> db" where
  "create_members cid [] now d = (Inr (), d)"
| "create_members cid ((uid, role) # ms) now d =
     sbind (create_member cid uid role now d) (\<lambda>_ d. create_members cid ms now d)"

text \<open>\<open>conversation.create\<close> with nested members: one transaction.\<close>

definition create_conversation :: "conversation_type \<Rightarrow> jsstr option \<Rightarrow> jsstr option \<Rightarrow> id
    \<Rightarrow> (id \<times> member_role) list \<Rightarrow> time \<Rightarrow> db \<Rightarrow> conv_full result \<times> db" where
  "create_conversation ty name descr uid mems now = transaction (\<lambda>d.
     let c = \<lparr>c_id = nxt (db_convs d), c_type = ty, c_name = name, c_description = descr, c_avatarUrl = None,
              c_createdById = Some uid, c_updatedAt = now\<rparr>
     in sbind (create_members (c_id c) mems now (d\<lparr>db_convs := t_insert (\<lambda>i. c\<lparr>c_id := i\<rparr>) (db_convs d)\<rparr>))
          (\<lambda>_ d. (Inr (full_conv d c), d)))"

text \<open>The \<open>where\<close> clauses of \<open>getOrCreateDirect\<close>.\<close>

definition direct_with :: "db \<Rightarrow> id \<Rightarrow> id \<Rightarrow> conversation \<Rightarrow> bool" where
  "direct_with d uid target c \<longleftrightarrow> c_type c = DIRECT \<and>
     (if uid = target
      then list_ex (\<lambda>m. m_userId m = uid) (conv_members d (c_id c))
         \<and> list_all (\<lambda>m. m_userId m = uid) (conv_members d (c_id c))
      else list_ex (\<lambda>m. m_userId m = uid) (conv_members d (c_id c))
         \<and> list_ex (\<lambda>m. m_userId m = target) (conv_members d (c_id c)))"

definition getOrCreateDirect :: "id \<Rightarrow> id \<Rightarrow> time \<Rightarrow> db \<Rightarrow> conv_full result \<times> db" where
  "getOrCreateDirect uid target now d =
     (if uid \<noteq> target \<and> find_user d target = None then (Inl (NotFound ''User not found''), d)
      else case t_find (direct_with d uid target) (db_convs d) of
        Some c \<Rightarrow> (Inr (full_conv d c), d)
      | None \<Rightarrow> create_conversation DIRECT None None uid
          (if uid = target then [(uid, MEMBER)] else [(uid, MEMBER), (target, MEMBER)]) now d)"

definition createGroup :: "id \<Rightarrow> jsstr \<Rightarrow> jsstr option \<Rightarrow> id list \<Rightarrow> time \<Rightarrow> db \<Rightarrow> conv_full result \<times> db" where
  "createGroup uid name descr memberIds now d =
     (let uniqueIds = fold set_add (filter (\<lambda>i. i \<noteq> uid) memberIds) []
      in create_conversation GROUP (Some name) descr uid ((uid, OWNER) # map (\<lambda>i. (i, MEMBER)) uniqueIds) now d)"

definition createChannel :: "id \<Rightarrow> jsstr \<Rightarrow> jsstr option \<Rightarrow> time \<Rightarrow> db \<Rightarrow> conv_full result \<times> db" where
  "createChannel uid name descr now d = create_conversation CHANNEL (Some name) descr uid [(uid, OWNER)] now d"

definition getConversation :: "id \<Rightarrow> id \<Rightarrow> db \<Rightarrow> conv_full option result" where
  "getConversation uid cid d = rbind (assertMember uid cid d) (\<lambda>_. Inr (map_option (full_conv d) (find_conv d cid)))"

section \<open>Members and roles\<close>

definition is_direct :: "db \<Rightarrow> id \<Rightarrow> bool" where
  "is_direct d cid \<longleftrightarrow> (case find_conv d cid of None \<Rightarrow> False | Some c \<Rightarrow> c_type c = DIRECT)"

definition addMember :: "id \<Rightarrow> id \<Rightarrow> id \<Rightarrow> time \<Rightarrow> db \<Rightarrow> (member \<times> member_user option) result \<times> db" where
  "addMember adminId cid target now d =
     (if is_direct d cid then (Inl (BadRequest ''Cannot add to direct chats''), d)
      else check (assertAdmin adminId cid d) (\<lambda>_ d.
        if is_member d cid target then (Inl (Conflict ''Already a member''), d)
        else sbind (create_member cid target MEMBER now d) (\<lambda>m d. (Inr (m, select_member_user d target), d))) d)"

definition removeMember :: "id \<Rightarrow> id \<Rightarrow> id \<Rightarrow> db \<Rightarrow> id result \<times> db" where
  "removeMember adminId cid target d =
     (if is_direct d cid then (Inl (BadRequest ''Cannot remove from direct chats''), d)
      else check (if adminId \<noteq> target
                  then rbind (assertAdmin adminId cid d) (\<lambda>_.
                    case find_member d cid target of
                      Some m \<Rightarrow> if m_role m = OWNER then Inl (Forbidden ''Cannot remove owner'') else Inr ()
                    | None \<Rightarrow> Inr ())
                  else Inr ()) (\<lambda>_ d.
        let d = d\<lparr>db_senderKeys := t_delete (\<lambda>k. sk_conversationId k = cid \<and> sk_senderId k = target) (db_senderKeys d)\<rparr>
        in if \<not> is_member d cid target then (Inl (PrismaError ''P2025''), d)
           else (Inr target, d\<lparr>db_members := t_delete (\<lambda>m. m_conversationId m = cid \<and> m_userId m = target)
                                (db_members d)\<rparr>)) d)"

text \<open>The request body's \<open>role\<close> is not validated, so it can be any role of the enumeration.\<close>

definition setMemberRole :: "id \<Rightarrow> id \<Rightarrow> id \<Rightarrow> member_role \<Rightarrow> db \<Rightarrow> member result \<times> db" where
  "setMemberRole ownerId cid target role d =
     (case find_member d cid ownerId of
        Some m \<Rightarrow> if m_role m \<noteq> OWNER then (Inl (Forbidden ''Owner only''), d)
                   else update_member cid target (\<lambda>m. m\<lparr>m_role := role\<rparr>) d
      | None \<Rightarrow> (Inl (Forbidden ''Owner only''), d))"

record conv_dto =
  cd_name :: "jsstr option"
  cd_description :: "jsstr option"
  cd_avatarUrl :: "jsstr option"

definition keep_or :: "'a option \<Rightarrow> 'a option \<Rightarrow> 'a option" where
  "keep_or new old = (case new of None \<Rightarrow> old | Some x \<Rightarrow> Some x)"

definition updateConversation :: "id \<Rightarrow> id \<Rightarrow> conv_dto \<Rightarrow> time \<Rightarrow> db \<Rightarrow> conversation result \<times> db" where
  "updateConversation uid cid dto now d =
     check (assertAdmin uid cid d) (\<lambda>_.
       update_conv cid (\<lambda>c. c\<lparr>c_name := keep_or (cd_name dto) (c_name c),
         c_description := keep_or (cd_description dto) (c_description c),
         c_avatarUrl := keep_or (cd_avatarUrl dto) (c_avatarUrl c), c_updatedAt := now\<rparr>)) d"

section \<open>Sender keys\<close>

definition upsert_sender_key :: "id \<Rightarrow> id \<Rightarrow> int \<Rightarrow> id \<times> jsstr \<Rightarrow> db \<Rightarrow> unit result \<times> db" where
  "upsert_sender_key cid sender version k d =
     (let same = (\<lambda>x. sk_conversationId x = cid \<and> sk_senderId x = sender \<and> sk_recipientId x = fst k)
      in if t_find same (db_senderKeys d) \<noteq> None
         then (Inr (), d\<lparr>db_senderKeys := t_update same
                (\<lambda>x. x\<lparr>sk_encryptedKey := snd k, sk_version := version\<rparr>) (db_senderKeys d)\<rparr>)
         else if find_conv d cid = None \<or> find_user d sender = None \<or> find_user d (fst k) = None
              then (Inl (PrismaError ''P2003''), d)
         else (Inr (), d\<lparr>db_senderKeys := t_insert (\<lambda>i. \<lparr>sk_id = i, sk_conversationId = cid, sk_senderId = sender,
                sk_recipientId = fst k, sk_encryptedKey = snd k, sk_version = version\<rparr>) (db_senderKeys d)\<rparr>))"

text \<open>\<open>Promise.all\<close>: every upsert runs, and the call rejects if one of them does.\<close>

fun upsert_all :: "id \<Rightarrow> id \<Rightarrow> int \<Rightarrow> (id \<times> jsstr) list \<Rightarrow> db \<Rightarrow> unit result \<times> db" where
  "upsert_all cid sender version [] d = (Inr (), d)"
| "upsert_all cid sender version (k # ks) d =
     (case upsert_sender_key cid sender version k d of
        (r, d1) \<Rightarrow> (case upsert_all cid sender version ks d1 of
                      (r', d2) \<Rightarrow> (rbind r (\<lambda>_. r'), d2)))"

definition setSenderKey :: "id \<Rightarrow> id \<Rightarrow> (id \<times> jsstr) list \<Rightarrow> int \<Rightarrow> db \<Rightarrow> unit result \<times> db" where
  "setSenderKey uid cid keys version d = check (assertMember uid cid d) (\<lambda>_. upsert_all cid uid version keys) d"

definition deleteAllMySenderKeys :: "id \<Rightarrow> db \<Rightarrow> db" where
  "deleteAllMySenderKeys uid d = d\<lparr>db_senderKeys := t_delete (\<lambda>k. sk_senderId k = uid) (db_senderKeys d)\<rparr>"

definition getSenderKeysForMe :: "id \<Rightarrow> id \<Rightarrow> db \<Rightarrow> (id \<times> jsstr \<times> int) list result" where
  "getSenderKeysForMe uid cid d = rbind (assertMember uid cid d) (\<lambda>_.
     Inr (map (\<lambda>k. (sk_senderId k, sk_encryptedKey k, sk_version k))
       (t_all (\<lambda>k. sk_conversationId k = cid \<and> sk_recipientId k = uid) (db_senderKeys d))))"

definition getPendingScheduledMessages :: "time \<Rightarrow> db \<Rightarrow> message list" where
  "getPendingScheduledMessages now d = t_all (\<lambda>g. (case msg_scheduledAt g of None \<Rightarrow> False | Some t \<Rightarrow> now < t)
     \<and> msg_deletedAt g = None) (db_messages d)"

end
