(* ===== verification/ConvInvariant.thy ===== *)
theory ConvInvariant
  imports Conversations
begin

text \<open>
  The invariant of the conversations service: the keys that the schema declares unique stay unique,
  every reference points to an existing row, no conversation has more than 20 pinned messages, no
  direct chat has more than two members, pins stay inside their conversation, and only the ten allowed
  emojis are stored.  Each elementary write keeps it (\<open>inv_writes\<close>), so each operation of
  \<open>Conversations\<close> does, so every run does.
\<close>

section \<open>Unique keys of a table\<close>

abbreviation uniq :: "('r \<Rightarrow> 'k) \<Rightarrow> 'r table \<Rightarrow> bool" where
  "uniq key t \<equiv> distinct (map key (rows t))"

lemma uniq_update [intro]:
  assumes "uniq key t" "\<And>r. key (f r) = key r"
  shows "uniq key (t_update P f t)"
proof -
  have "map key (map (\<lambda>r. if P r then f r else r) (rows t)) = map key (rows t)" using assms(2) by simp
  then show ?thesis using assms(1) by (simp del: map_map)
qed

lemma uniq_delete [intro]: "uniq key t \<Longrightarrow> uniq key (t_delete P t)"
  by (simp add: distinct_map_filter)

lemma uniq_insert: "uniq key t \<Longrightarrow> key (f (nxt t)) \<notin> key ` set (rows t) \<Longrightarrow> uniq key (t_insert f t)"
  by auto

lemma uniq_eq: "uniq key t \<Longrightarrow> a \<in> set (rows t) \<Longrightarrow> b \<in> set (rows t) \<Longrightarrow> key a = key b \<Longrightarrow> a = b"
  by (auto simp: distinct_map inj_on_def)

section \<open>The invariant\<close>

definition member_key :: "member \<Rightarrow> id \<times> id" where "member_key m = (m_conversationId m, m_userId m)"
definition pin_key :: "pinned \<Rightarrow> id \<times> id" where "pin_key p = (p_conversationId p, p_messageId p)"
definition reaction_key :: "reaction \<Rightarrow> id \<times> id \<times> jsstr" where "reaction_key r = (r_userId r, r_messageId r, r_emoji r)"
definition sender_key_key :: "group_sender_key \<Rightarrow> id \<times> id \<times> id" where
  "sender_key_key k = (sk_conversationId k, sk_senderId k, sk_recipientId k)"

definition msg_key :: "message \<Rightarrow> id \<times> id" where "msg_key g = (msg_conversationId g, msg_id g)"

lemmas key_defs = msg_key_def member_key_def pin_key_def reaction_key_def sender_key_key_def

definition conv_keys :: "db \<Rightarrow> bool" where
  "conv_keys d \<longleftrightarrow> tbl_wf c_id (db_convs d) \<and> tbl_wf msg_id (db_messages d) \<and> tbl_wf r_id (db_reactions d)
     \<and> uniq member_key (db_members d) \<and> uniq pin_key (db_pins d) \<and> uniq reaction_key (db_reactions d)
     \<and> uniq sender_key_key (db_senderKeys d)"

definition pins_ok :: "db \<Rightarrow> bool" where
  "pins_ok d \<longleftrightarrow> (\<forall>cid. pin_count d cid \<le> MAX_PINNED_MESSAGES)
     \<and> pin_key ` set (rows (db_pins d)) \<subseteq> msg_key ` set (rows (db_messages d))"

definition direct_ok :: "db \<Rightarrow> bool" where
  "direct_ok d \<longleftrightarrow> (\<forall>c\<in>set (rows (db_convs d)). c_type c = DIRECT \<longrightarrow> length (conv_members d (c_id c)) \<le> 2)"

definition emojis_ok :: "db \<Rightarrow> bool" where
  "emojis_ok d \<longleftrightarrow> (\<forall>r\<in>set (rows (db_reactions d)). r_emoji r \<in> set ALLOWED_EMOJIS)"

definition conv_inv :: "db \<Rightarrow> bool" where
  "conv_inv d \<longleftrightarrow> conv_keys d \<and> pins_ok d \<and> direct_ok d \<and> emojis_ok d \<and> db_refs d"

named_theorems inv_writes \<open>elementary writes that keep the invariant\<close>

lemma inv_check:
  "Q s \<Longrightarrow> (\<And>x. r = Inr x \<Longrightarrow> Q (snd (f x s))) \<Longrightarrow> Q (snd (check r f s))"
  by (cases r) auto

lemma inv_sbind:
  "Q (snd p) \<Longrightarrow> (\<And>x s. p = (Inr x, s) \<Longrightarrow> Q s \<Longrightarrow> Q (snd (f x s))) \<Longrightarrow> Q (snd (sbind p f))"
  by (auto simp: sbind_def split: prod.splits sum.splits)

subsection \<open>Writes that leave keys and references alone\<close>

lemma conv_members_cong: "rows (db_members d') = rows (db_members d) \<Longrightarrow> conv_members d' = conv_members d"
  by (simp add: conv_members_def t_all_def fun_eq_iff)

lemma length_filter_update:
  assumes "\<And>r. Q (f r) = Q r"
  shows "length (filter Q (map (\<lambda>r. if P r then f r else r) xs)) = length (filter Q xs)"
  using assms by (induction xs) auto

lemma length_filter_sub: "length (filter (\<lambda>x. P x \<and> Q x) xs) \<le> length (filter Q xs)"
    "length (filter (\<lambda>x. Q x \<and> P x) xs) \<le> length (filter Q xs)"
  by (induction xs) auto

lemma inv_update_members:
  assumes "conv_inv d" and f: "\<And>m. m_conversationId (f m) = m_conversationId m" "\<And>m. m_userId (f m) = m_userId m"
  shows "conv_inv (d\<lparr>db_members := t_update P f (db_members d)\<rparr>)" (is "conv_inv ?d")
proof -
  have "conv_keys ?d"
    using assms by (auto simp: conv_inv_def conv_keys_def key_defs simp del: rows_t_update intro!: uniq_update)
  moreover have "length (conv_members ?d cid) = length (conv_members d cid)" for cid
    using f length_filter_update[of "\<lambda>m. m_conversationId m = cid" f] by (simp add: conv_members_def t_all_def)
  then have "direct_ok ?d" using assms(1) by (simp add: conv_inv_def direct_ok_def)
  moreover have "db_refs ?d"
    using assms by (auto simp: conv_inv_def db_refs_def user_refs_def msg_refs_def)
  ultimately show ?thesis using assms(1) by (simp add: conv_inv_def pins_ok_def pin_count_def emojis_ok_def)
qed

lemma inv_update_convs:
  assumes "conv_inv d" and f: "\<And>c. c_id (f c) = c_id c" "\<And>c. c_type (f c) = c_type c"
  shows "conv_inv (d\<lparr>db_convs := t_update P f (db_convs d)\<rparr>)" (is "conv_inv ?d")
proof -
  have ids: "conv_ids ?d = conv_ids d" using f(1) by (simp add: image_update_keep del: rows_t_update)
  have "conv_keys ?d"
    using assms by (auto simp: conv_inv_def conv_keys_def simp del: rows_t_update)
  moreover have "direct_ok ?d"
    using assms by (auto simp: conv_inv_def direct_ok_def conv_members_def split: if_splits)
  moreover have "db_refs ?d"
    using assms(1) ids unfolding conv_inv_def db_refs_def user_refs_def msg_refs_def by (simp del: rows_t_update)
  ultimately show ?thesis using assms(1) by (simp add: conv_inv_def pins_ok_def pin_count_def emojis_ok_def)
qed

definition same_links :: "(message \<Rightarrow> message) \<Rightarrow> bool" where
  "same_links f \<longleftrightarrow> (\<forall>g. msg_id (f g) = msg_id g \<and> msg_conversationId (f g) = msg_conversationId g
     \<and> msg_senderId (f g) = msg_senderId g \<and> msg_replyToId (f g) = msg_replyToId g
     \<and> msg_forwardedFromId (f g) = msg_forwardedFromId g \<and> msg_forwardedFromUserId (f g) = msg_forwardedFromUserId g
     \<and> msg_senderDeviceId (f g) = msg_senderDeviceId g)"

lemma inv_update_messages:
  assumes "conv_inv d" and f: "same_links f"
  shows "conv_inv (d\<lparr>db_messages := t_update P f (db_messages d)\<rparr>)" (is "conv_inv ?d")
proof -
  have f': "msg_id (f g) = msg_id g" "msg_conversationId (f g) = msg_conversationId g" for g
    using f by (auto simp: same_links_def)
  have ids: "message_ids ?d = message_ids d" using f' by (simp add: image_update_keep del: rows_t_update)
  have "conv_keys ?d" using assms(1) f' by (auto simp: conv_inv_def conv_keys_def simp del: rows_t_update)
  moreover have "pins_ok ?d"
    using assms(1) f' by (simp add: conv_inv_def pins_ok_def pin_count_def image_update_keep msg_key_def del: rows_t_update)
  moreover have "db_refs ?d"
  proof -
    have "user_refs ?d" using assms(1) by (simp add: conv_inv_def db_refs_def user_refs_def)
    moreover have "\<forall>g\<in>set (rows (db_messages ?d)).
        message_refs (user_ids d) (conv_ids d) (message_ids d) (device_ids d) g"
      using assms by (auto simp: conv_inv_def db_refs_def msg_refs_def message_refs_def same_links_def)
    ultimately show ?thesis
      using assms(1) ids unfolding conv_inv_def db_refs_def msg_refs_def by (simp del: rows_t_update)
  qed
  ultimately show ?thesis using assms(1) by (simp add: conv_inv_def direct_ok_def conv_members_def emojis_ok_def)
qed

lemma inv_delete_pins:
  assumes "conv_inv d" shows "conv_inv (d\<lparr>db_pins := t_delete P (db_pins d)\<rparr>)" (is "conv_inv ?d")
proof -
  have "pin_count ?d cid \<le> pin_count d cid" for cid
    using length_filter_sub by (simp add: pin_count_def t_count_def)
  then have "pins_ok ?d" using assms by (auto simp: conv_inv_def pins_ok_def intro: order_trans)
  then show ?thesis
    using assms by (auto simp: conv_inv_def conv_keys_def direct_ok_def conv_members_def emojis_ok_def db_refs_def
        user_refs_def msg_refs_def distinct_map_filter)
qed

lemma inv_delete_sender_keys:
  "conv_inv d \<Longrightarrow> conv_inv (d\<lparr>db_senderKeys := t_delete P (db_senderKeys d)\<rparr>)"
  by (simp add: conv_inv_def conv_keys_def pins_ok_def pin_count_def direct_ok_def conv_members_def emojis_ok_def
      db_refs_def user_refs_def msg_refs_def distinct_map_filter)

lemma inv_delete_members:
  assumes "conv_inv d" shows "conv_inv (d\<lparr>db_members := t_delete P (db_members d)\<rparr>)" (is "conv_inv ?d")
proof -
  have "length (conv_members ?d cid) \<le> length (conv_members d cid)" for cid
    using length_filter_sub by (simp add: conv_members_def t_all_def)
  then have "direct_ok ?d" using assms by (auto simp: conv_inv_def direct_ok_def intro: order_trans)
  then show ?thesis
    using assms by (auto simp: conv_inv_def conv_keys_def pins_ok_def pin_count_def emojis_ok_def db_refs_def
        user_refs_def msg_refs_def distinct_map_filter)
qed

lemma inv_update_sender_keys:
  assumes "conv_inv d" "\<And>k. sender_key_key (f k) = sender_key_key k"
  shows "conv_inv (d\<lparr>db_senderKeys := t_update P f (db_senderKeys d)\<rparr>)" (is "conv_inv ?d")
proof -
  have "uniq sender_key_key (t_update P f (db_senderKeys d))"
    using assms by (auto simp: conv_inv_def conv_keys_def simp del: rows_t_update)
  moreover have "sk_conversationId (f k) = sk_conversationId k" "sk_senderId (f k) = sk_senderId k"
    "sk_recipientId (f k) = sk_recipientId k" for k
    using assms(2)[of k] by (auto simp: key_defs)
  ultimately show ?thesis
    using assms(1) by (auto simp: conv_inv_def conv_keys_def pins_ok_def pin_count_def direct_ok_def conv_members_def
        emojis_ok_def db_refs_def user_refs_def msg_refs_def)
qed

subsection \<open>Inserting rows\<close>

lemma find_ids:
  "find_user d i = None \<longleftrightarrow> i \<notin> user_ids d" "find_conv d i = None \<longleftrightarrow> i \<notin> conv_ids d"
  "find_message d i = None \<longleftrightarrow> i \<notin> message_ids d" "find_device d i = None \<longleftrightarrow> i \<notin> device_ids d"
  by (auto simp: find_defs t_find_None_iff)

lemma ref_ok_ids:
  "ref_ok (find_user d) r = opt_in r (user_ids d)" "ref_ok (find_message d) r = opt_in r (message_ids d)"
  "ref_ok (find_device d) r = opt_in r (device_ids d)"
  by (auto simp: ref_ok_def opt_in_def find_ids split: option.splits)

lemma inv_insert_pin:
  assumes "conv_inv d" "pin_count d cid < MAX_PINNED_MESSAGES" "(cid, mid) \<in> msg_key ` set (rows (db_messages d))"
    and "cid \<in> conv_ids d" "uid \<in> user_ids d"
    and "t_find (\<lambda>p. p_conversationId p = cid \<and> p_messageId p = mid) (db_pins d) = None"
  shows "conv_inv (d\<lparr>db_pins := t_insert (\<lambda>i. \<lparr>p_id = i, p_conversationId = cid, p_messageId = mid,
     p_pinnedById = uid, p_pinnedAt = now\<rparr>) (db_pins d)\<rparr>)" (is "conv_inv ?d")
proof -
  have "conv_keys ?d"
    using assms(1,6) by (auto simp: conv_inv_def conv_keys_def key_defs t_find_None_iff)
  moreover have "pin_count ?d c \<le> MAX_PINNED_MESSAGES" for c
    using assms(1,2) by (auto simp: conv_inv_def pins_ok_def pin_count_def t_count_def)
  then have "pins_ok ?d" using assms(1,3) by (auto simp: conv_inv_def pins_ok_def key_defs)
  moreover have "mid \<in> message_ids d" using assms(3) by (auto simp: key_defs)
  then have "db_refs ?d" using assms(1,4,5) by (auto simp: conv_inv_def db_refs_def user_refs_def msg_refs_def)
  ultimately show ?thesis using assms(1) by (simp add: conv_inv_def direct_ok_def conv_members_def emojis_ok_def)
qed

lemma inv_update_pins:
  assumes "conv_inv d" "uid \<in> user_ids d"
  shows "conv_inv (d\<lparr>db_pins := t_update P (\<lambda>p. p\<lparr>p_pinnedAt := now, p_pinnedById := uid\<rparr>) (db_pins d)\<rparr>)" (is "conv_inv ?d")
proof -
  have "conv_keys ?d" using assms(1) by (auto simp: conv_inv_def conv_keys_def key_defs simp del: rows_t_update)
  moreover have "pin_count ?d c = pin_count d c" for c
    using length_filter_update[of "\<lambda>p. p_conversationId p = c" "\<lambda>p. p\<lparr>p_pinnedAt := now, p_pinnedById := uid\<rparr>" P]
    by (simp add: pin_count_def t_count_def)
  then have "pins_ok ?d"
    using assms(1) by (simp add: conv_inv_def pins_ok_def image_update_keep key_defs del: rows_t_update)
  moreover have "db_refs ?d" using assms by (auto simp: conv_inv_def db_refs_def user_refs_def msg_refs_def)
  ultimately show ?thesis using assms(1) by (simp add: conv_inv_def direct_ok_def conv_members_def emojis_ok_def)
qed

lemma upsert_pin_inv [inv_writes]:
  assumes "conv_inv d" "find_message d mid = Some g" "msg_conversationId g = cid"
    and "pin_count d cid < MAX_PINNED_MESSAGES" "is_member d cid uid"
  shows "conv_inv (snd (upsert_pin cid mid uid now d))"
proof -
  have u: "uid \<in> user_ids d"
    using assms(1,5) by (auto simp: is_member_def conv_inv_def db_refs_def user_refs_def dest!: find_member_SomeD)
  have g: "(cid, mid) \<in> msg_key ` set (rows (db_messages d))"
    using assms(2,3) by (force simp: key_defs dest!: find_message_SomeD)
  show ?thesis
    using inv_insert_pin[OF assms(1,4) g _ u] inv_update_pins[OF assms(1) u] assms(1)
    by (auto simp: upsert_pin_def Let_def find_ids)
qed

lemma create_message_inv [inv_writes]:
  assumes "conv_inv d" "\<And>i. msg_id (mk i) = i"
  shows "conv_inv (snd (create_message mk d))"
proof -
  let ?g = "mk (nxt (db_messages d))" and ?d = "d\<lparr>db_messages := t_insert mk (db_messages d)\<rparr>"
  have "conv_inv ?d" if "message_refs (user_ids d) (conv_ids d) (message_ids d) (device_ids d) ?g"
  proof -
    have "conv_keys ?d" using assms by (auto simp: conv_inv_def conv_keys_def simp del: rows_t_insert)
    moreover have "pins_ok ?d" using assms(1) by (auto simp: conv_inv_def pins_ok_def pin_count_def)
    moreover have "message_refs (user_ids d) (conv_ids d) (message_ids ?d) (device_ids d) g"
      if "message_refs (user_ids d) (conv_ids d) (message_ids d) (device_ids d) g" for g
      using that by (auto simp: message_refs_def elim: opt_in_mono)
    then have "db_refs ?d" using assms(1) that
      by (auto simp: conv_inv_def db_refs_def user_refs_def msg_refs_def)
    ultimately show ?thesis using assms(1) by (simp add: conv_inv_def direct_ok_def conv_members_def emojis_ok_def)
  qed
  then show ?thesis
    using assms(1) by (auto simp: create_message_def Let_def find_ids ref_ok_ids message_refs_def)
qed

lemma insert_envelopes_rows:
  "x \<in> set (rows (insert_envelopes mid es t)) \<Longrightarrow>
     x \<in> set (rows t) \<or> e_messageId x = mid \<and> e_deviceId x \<in> fst ` set es"
proof (induction mid es t rule: insert_envelopes.induct)
  case (2 mid did ct es t)
  then show ?case by (auto split: if_splits)
qed simp

lemma create_envelopes_inv [inv_writes]:
  assumes "conv_inv d" shows "conv_inv (snd (create_envelopes mid es d))"
proof -
  have "conv_inv (d\<lparr>db_envelopes := insert_envelopes mid es (db_envelopes d)\<rparr>)"
    if "mid \<in> message_ids d" "\<forall>e\<in>set es. fst e \<in> device_ids d"
    using assms that
    by (auto simp: conv_inv_def conv_keys_def pins_ok_def pin_count_def direct_ok_def conv_members_def emojis_ok_def
        db_refs_def user_refs_def msg_refs_def dest!: insert_envelopes_rows)
  then show ?thesis using assms by (auto simp: create_envelopes_def find_ids)
qed

lemma flip_reaction_inv [inv_writes]:
  assumes "conv_inv d" "find_message d mid \<noteq> None" "emoji \<in> set ALLOWED_EMOJIS"
  shows "conv_inv (snd (flip_reaction mid uid emoji now d))"
proof -
  have "conv_inv (d\<lparr>db_reactions := t_delete P (db_reactions d)\<rparr>)" for P
    using assms(1) tbl_wf_delete[of r_id "db_reactions d" P]
    by (simp add: conv_inv_def conv_keys_def pins_ok_def pin_count_def direct_ok_def conv_members_def
        emojis_ok_def db_refs_def user_refs_def msg_refs_def distinct_map_filter)
  moreover have "conv_inv (d\<lparr>db_reactions := t_insert (\<lambda>i. \<lparr>r_id = i, r_emoji = emoji, r_userId = uid,
      r_messageId = mid, r_createdAt = now\<rparr>) (db_reactions d)\<rparr>)" (is "conv_inv ?d")
    if "uid \<in> user_ids d" "t_find (same_reaction mid uid emoji) (db_reactions d) = None"
  proof -
    have "tbl_wf r_id (t_insert (\<lambda>i. \<lparr>r_id = i, r_emoji = emoji, r_userId = uid, r_messageId = mid,
        r_createdAt = now\<rparr>) (db_reactions d))"
      using assms(1) by (intro tbl_wf_insert) (auto simp: conv_inv_def conv_keys_def)
    moreover have "uniq reaction_key (t_insert (\<lambda>i. \<lparr>r_id = i, r_emoji = emoji, r_userId = uid, r_messageId = mid,
        r_createdAt = now\<rparr>) (db_reactions d))"
      using assms(1) that(2)
      by (intro uniq_insert) (auto simp: conv_inv_def conv_keys_def key_defs t_find_None_iff same_reaction_def)
    ultimately have "conv_keys ?d" using assms(1) by (simp add: conv_inv_def conv_keys_def)
    moreover have "db_refs ?d" using assms(1,2) that(1)
      by (auto simp: conv_inv_def db_refs_def user_refs_def msg_refs_def find_ids)
    ultimately show ?thesis using assms(1,3)
      by (auto simp: conv_inv_def direct_ok_def conv_members_def emojis_ok_def pins_ok_def pin_count_def)
  qed
  ultimately show ?thesis using assms(1) by (auto simp: flip_reaction_def find_ids split: option.splits)
qed

lemma upsert_sender_key_inv [inv_writes]:
  assumes "conv_inv d" shows "conv_inv (snd (upsert_sender_key cid sender version k d))"
proof -
  have "conv_inv (d\<lparr>db_senderKeys := t_insert (\<lambda>i. \<lparr>sk_id = i, sk_conversationId = cid, sk_senderId = sender,
                sk_recipientId = fst k, sk_encryptedKey = snd k, sk_version = version\<rparr>) (db_senderKeys d)\<rparr>)"
    if "cid \<in> conv_ids d" "sender \<in> user_ids d" "fst k \<in> user_ids d"
      "t_find (\<lambda>x. sk_conversationId x = cid \<and> sk_senderId x = sender \<and> sk_recipientId x = fst k) (db_senderKeys d) = None"
    using assms that
    by (auto simp: conv_inv_def conv_keys_def key_defs t_find_None_iff pins_ok_def pin_count_def direct_ok_def
        conv_members_def emojis_ok_def db_refs_def user_refs_def msg_refs_def)
  then show ?thesis using assms
    by (auto simp: upsert_sender_key_def Let_def find_ids key_defs intro!: inv_update_sender_keys)
qed

lemma upsert_all_inv [inv_writes]:
  "conv_inv d \<Longrightarrow> conv_inv (snd (upsert_all cid sender version ks d))"
proof (induction ks arbitrary: d)
  case (Cons k ks)
  obtain r d1 where up: "upsert_sender_key cid sender version k d = (r, d1)" by fastforce
  have "conv_inv d1" using upsert_sender_key_inv[OF Cons.prems, of cid sender version k] up by simp
  then have "conv_inv (snd (upsert_all cid sender version ks d1))" by (rule Cons.IH)
  then show ?case using up by (cases "upsert_all cid sender version ks d1") simp
qed simp

lemma create_member_inv:
  assumes "conv_inv d" "\<And>c. find_conv d cid = Some c \<Longrightarrow> c_type c = DIRECT \<Longrightarrow> length (conv_members d cid) < 2"
  shows "conv_inv (snd (create_member cid uid role now d))"
proof -
  let ?mk = "\<lambda>i. \<lparr>m_id = i, m_conversationId = cid, m_userId = uid, m_role = role, m_joinedAt = now,
      m_lastReadAt = now, m_clearedAt = None, m_isPinned = False, m_isArchived = False\<rparr>"
  have "conv_inv (d\<lparr>db_members := t_insert ?mk (db_members d)\<rparr>)" (is "conv_inv ?d")
    if ok: "cid \<in> conv_ids d" "uid \<in> user_ids d" "find_member d cid uid = None"
  proof -
    have "conv_keys ?d"
      using assms(1) ok(3) by (auto simp: conv_inv_def conv_keys_def key_defs find_member_def t_find_None_iff)
    moreover have "length (conv_members ?d (c_id c)) \<le> 2"
      if c: "c \<in> set (rows (db_convs d))" "c_type c = DIRECT" for c
    proof (cases "c_id c = cid")
      case True
      have "find_conv d cid = Some c"
        using assms(1) c True t_find_key[of c_id "db_convs d" cid c]
        by (simp add: conv_inv_def conv_keys_def find_conv_def)
      then have "length (conv_members d cid) < 2" using assms(2) c(2) by blast
      then show ?thesis using True by (simp add: conv_members_def t_all_def)
    next
      case False
      then show ?thesis using assms(1) c by (simp add: conv_inv_def direct_ok_def conv_members_def t_all_def)
    qed
    then have "direct_ok ?d" by (simp add: direct_ok_def)
    moreover have "db_refs ?d" using assms(1) ok by (auto simp: conv_inv_def db_refs_def user_refs_def msg_refs_def)
    ultimately show ?thesis using assms(1) by (simp add: conv_inv_def emojis_ok_def pins_ok_def pin_count_def)
  qed
  then show ?thesis using assms(1) by (auto simp: create_member_def Let_def find_ids)
qed

section \<open>Operations keep the invariant\<close>

lemmas conv_check = inv_check[where Q = conv_inv] and conv_sbind = inv_sbind[where Q = conv_inv]

lemma conv_members_fresh:
  assumes "conv_inv d" "cid \<notin> conv_ids d" shows "conv_members d cid = []"
proof -
  have "\<forall>m\<in>set (rows (db_members d)). m_conversationId m \<in> conv_ids d"
    using assms(1) by (simp add: conv_inv_def db_refs_def user_refs_def)
  then have "\<forall>m\<in>set (rows (db_members d)). m_conversationId m \<noteq> cid" using assms(2) by metis
  then show ?thesis by (simp add: conv_members_def t_all_def)
qed

lemma update_member_inv [inv_writes]:
  assumes "conv_inv d" "\<And>m. m_conversationId (f m) = m_conversationId m" "\<And>m. m_userId (f m) = m_userId m"
  shows "conv_inv (snd (update_member cid uid f d))"
  using assms by (auto simp: update_member_def intro: inv_update_members split: option.splits)

lemma update_conv_inv [inv_writes]:
  assumes "conv_inv d" "\<And>c. c_id (f c) = c_id c" "\<And>c. c_type (f c) = c_type c"
  shows "conv_inv (snd (update_conv cid f d))"
  using assms by (auto simp: update_conv_def intro: inv_update_convs split: option.splits)

lemma touch_conv_inv [inv_writes]: "conv_inv d \<Longrightarrow> conv_inv (snd (touch_conv cid now d))"
  unfolding touch_conv_def by (rule update_conv_inv) auto

lemma update_msg_inv [inv_writes]:
  "conv_inv d \<Longrightarrow> same_links f \<Longrightarrow> conv_inv (snd (update_msg mid f d))"
  by (auto simp: update_msg_def intro: inv_update_messages split: option.splits)

lemma create_members_inv:
  assumes "conv_inv d" "\<And>c. find_conv d cid = Some c \<Longrightarrow> c_type c = DIRECT \<Longrightarrow> length (conv_members d cid) + length ms \<le> 2"
  shows "conv_inv (snd (create_members cid ms now d))"
  using assms
proof (induction ms arbitrary: d)
  case (Cons x ms)
  obtain uid role where x: "x = (uid, role)" by (cases x)
  have d1: "conv_inv (snd (create_member cid uid role now d))"
    using Cons.prems by (intro create_member_inv) auto
  have "conv_inv (snd (create_members cid ms now d'))"
    if cm: "create_member cid uid role now d = (Inr m, d')" for m d'
  proof (rule Cons.IH)
    show "conv_inv d'" using d1 cm by simp
    fix c assume c: "find_conv d' cid = Some c" "c_type c = DIRECT"
    have d': "find_conv d' = find_conv d" "length (conv_members d' cid) = length (conv_members d cid) + 1"
      using cm by (auto simp: create_member_def Let_def find_conv_def fun_eq_iff conv_members_def t_all_def split: if_splits)
    then show "length (conv_members d' cid) + length ms \<le> 2" using Cons.prems(2)[of c] c by simp
  qed
  then show ?case using d1 by (simp add: x) (rule conv_sbind)
qed simp

lemma insert_conv_inv:
  assumes "conv_inv d" "\<And>i. c_id (mk i) = i"
  shows "conv_inv (d\<lparr>db_convs := t_insert mk (db_convs d)\<rparr>)" (is "conv_inv ?d")
proof -
  let ?n = "nxt (db_convs d)"
  have fresh: "?n \<notin> conv_ids d" using assms(1) by (auto simp: conv_inv_def conv_keys_def tbl_wf_def)
  have none: "conv_members d ?n = []" using conv_members_fresh[OF assms(1) fresh] .
  have "conv_keys ?d" using assms by (auto simp: conv_inv_def conv_keys_def simp del: rows_t_insert)
  moreover have "direct_ok ?d" using assms none by (auto simp: conv_inv_def direct_ok_def conv_members_def)
  moreover have "message_refs us (conv_ids ?d) ms ds g" if "message_refs us (conv_ids d) ms ds g" for us ms ds g
    using that by (auto simp: message_refs_def)
  then have "db_refs ?d" using assms(1) by (auto simp: conv_inv_def db_refs_def user_refs_def msg_refs_def)
  ultimately show ?thesis using assms(1) by (simp add: conv_inv_def emojis_ok_def pins_ok_def pin_count_def)
qed

lemma create_conversation_inv:
  assumes "conv_inv d" "ty = DIRECT \<Longrightarrow> length mems \<le> 2"
  shows "conv_inv (snd (create_conversation ty name descr uid mems now d))"
proof -
  let ?mk = "\<lambda>i. \<lparr>c_id = i, c_type = ty, c_name = name, c_description = descr, c_avatarUrl = None,
      c_createdById = Some uid, c_updatedAt = now\<rparr>"
  let ?d = "d\<lparr>db_convs := t_insert ?mk (db_convs d)\<rparr>" and ?n = "nxt (db_convs d)"
  have inv: "conv_inv ?d" using insert_conv_inv[OF assms(1), of ?mk] by simp
  have fresh: "?n \<notin> conv_ids d" using assms(1) by (auto simp: conv_inv_def conv_keys_def tbl_wf_def)
  then have none: "conv_members ?d ?n = []"
    using conv_members_fresh[OF assms(1)] conv_members_cong[of ?d d] by simp
  have "tbl_wf c_id (db_convs ?d)" using inv by (simp add: conv_inv_def conv_keys_def)
  then have "find_conv ?d ?n = Some (?mk ?n)" unfolding find_conv_def by (subst t_find_key) auto
  then have "conv_inv (snd (create_members ?n mems now ?d))"
    using inv assms(2) none by (intro create_members_inv) auto
  then have "conv_inv (snd (sbind (create_members ?n mems now ?d) (\<lambda>_ d. (Inr (full_conv d (?mk ?n)), d))))"
    by (rule conv_sbind) simp
  then show ?thesis using assms(1)
    by (auto simp: create_conversation_def transaction_def Let_def split: prod.splits sum.splits)
qed

lemma pin_ops_inv:
  assumes "conv_inv d"
  shows "conv_inv (snd (addPinnedMessage uid cid mid now d))" "conv_inv (snd (removePinnedMessage uid cid mid d))"
proof -
  have "conv_inv (snd (upsert_pin cid mid uid now d))"
    if "assertAdmin uid cid d = Inr m" "find_message d mid = Some g" "msg_conversationId g = cid"
      "\<not> pin_count d cid \<ge> MAX_PINNED_MESSAGES" for g m
    using assms that by (intro upsert_pin_inv) (auto simp: assertAdmin_Inr is_member_def)
  then show "conv_inv (snd (addPinnedMessage uid cid mid now d))"
    using assms unfolding addPinnedMessage_def
    by (intro conv_check) (auto split: option.splits intro!: conv_sbind)
  show "conv_inv (snd (removePinnedMessage uid cid mid d))"
    using assms unfolding removePinnedMessage_def
    by (intro conv_check) (auto simp: Let_def intro: inv_delete_pins)
qed

lemma same_links_upd [simp]:
  "same_links (\<lambda>g. g\<lparr>msg_deletedAt := x\<rparr>)" "same_links (\<lambda>g. g\<lparr>msg_content := c, msg_editedAt := e\<rparr>)"
  by (simp_all add: same_links_def)

lemma chat_flag_ops_inv:
  assumes "conv_inv d"
  shows "conv_inv (snd (setChatPinned uid cid b d))" "conv_inv (snd (setChatArchived uid cid b d))"
    "conv_inv (markAsRead uid cid now d)" "conv_inv (snd (setMemberRole uid cid target role d))"
    "conv_inv (snd (updateConversation uid cid dto now d))"
  using assms unfolding setChatPinned_def setChatArchived_def markAsRead_def setMemberRole_def updateConversation_def
  by (auto intro!: conv_check conv_sbind update_member_inv update_conv_inv inv_update_members split: option.splits)

lemma clearMessages_inv:
  assumes "conv_inv d" shows "conv_inv (snd (clearMessages uid cid scope now d))"
proof -
  have "conv_inv (d\<lparr>db_messages := t_update P (\<lambda>g. g\<lparr>msg_deletedAt := Some now\<rparr>) (db_messages d),
          db_pins := t_delete Q (db_pins d), db_members := t_update R (\<lambda>x. x\<lparr>m_clearedAt := Some now\<rparr>) (db_members d)\<rparr>)"
    for P Q R
    using inv_update_members[OF inv_delete_pins[OF inv_update_messages[OF assms, of "\<lambda>g. g\<lparr>msg_deletedAt := Some now\<rparr>" P], of Q],
        of "\<lambda>x. x\<lparr>m_clearedAt := Some now\<rparr>" R] by simp
  then show ?thesis using assms unfolding clearMessages_def
    by (intro conv_check) (auto intro!: conv_sbind touch_conv_inv update_member_inv split: option.splits clear_scope.splits)
qed

lemma message_ops_inv:
  assumes "conv_inv d"
  shows "conv_inv (snd (saveMessage J uid cid sd now d))" "conv_inv (snd (deleteMessage mid uid now d))"
    "conv_inv (snd (editMessage mid uid content now d))" "conv_inv (snd (toggleReaction mid uid emoji now d))"
    "conv_inv (snd (forwardMessage uid mid target re now d))"
proof -
  show "conv_inv (snd (saveMessage J uid cid sd now d))"
    using assms unfolding saveMessage_def
    by (auto intro!: conv_check conv_sbind create_message_inv create_envelopes_inv touch_conv_inv
        simp: new_message_def split: option.splits)
  show "conv_inv (snd (deleteMessage mid uid now d))"
    using assms unfolding deleteMessage_def
    by (auto intro!: conv_sbind update_msg_inv simp: Let_def split: option.splits)
  show "conv_inv (snd (editMessage mid uid content now d))"
    using assms unfolding editMessage_def by (auto intro!: update_msg_inv split: option.splits)
  show "conv_inv (snd (toggleReaction mid uid emoji now d))"
    using assms unfolding toggleReaction_def
    by (auto intro!: conv_check conv_sbind flip_reaction_inv split: option.splits)
  show "conv_inv (snd (forwardMessage uid mid target re now d))"
    using assms unfolding forwardMessage_def
    by (auto intro!: conv_check conv_sbind create_message_inv touch_conv_inv split: option.splits)
qed

lemma creation_ops_inv:
  assumes "conv_inv d"
  shows "conv_inv (snd (getOrCreateDirect uid target now d))" "conv_inv (snd (createGroup uid name descr ids now d))"
    "conv_inv (snd (createChannel uid name descr now d))"
  using assms unfolding getOrCreateDirect_def createGroup_def createChannel_def
  by (auto simp: Let_def intro!: create_conversation_inv split: option.splits)

lemma member_ops_inv:
  assumes "conv_inv d"
  shows "conv_inv (snd (addMember adminId cid target now d))" "conv_inv (snd (removeMember adminId cid target d))"
    "conv_inv (snd (setSenderKey uid cid ks v d))" "conv_inv (deleteAllMySenderKeys uid d)"
proof -
  show "conv_inv (snd (addMember adminId cid target now d))"
    using assms unfolding addMember_def
    by (auto intro!: conv_check conv_sbind create_member_inv simp: is_direct_def)
  have "conv_inv (d\<lparr>db_senderKeys := t_delete P (db_senderKeys d), db_members := t_delete Q (db_members d)\<rparr>)" for P Q
    using inv_delete_members[OF inv_delete_sender_keys[OF assms, of P], of Q] by simp
  then show "conv_inv (snd (removeMember adminId cid target d))"
    using assms unfolding removeMember_def Let_def
    by (auto intro!: conv_check inv_delete_sender_keys)
  show "conv_inv (snd (setSenderKey uid cid ks v d))"
    using assms unfolding setSenderKey_def by (auto intro!: conv_check upsert_all_inv)
  show "conv_inv (deleteAllMySenderKeys uid d)"
    using assms by (simp add: deleteAllMySenderKeys_def inv_delete_sender_keys)
qed

section \<open>Every run keeps it\<close>

datatype conv_op =
    SetChatPinned id id bool
  | SetChatArchived id id bool
  | AddPin id id id time
  | RemovePin id id id
  | ClearMessages id id clear_scope time
  | SaveMessage id id send_dto time
  | MarkAsRead id id time
  | DeleteMessage id id time
  | EditMessage id id jsstr time
  | ToggleReaction id id jsstr time
  | ForwardMessage id id id "jsstr option" time
  | GetOrCreateDirect id id time
  | CreateGroup id jsstr "jsstr option" "id list" time
  | CreateChannel id jsstr "jsstr option" time
  | AddMember id id id time
  | RemoveMember id id id
  | SetMemberRole id id id member_role
  | UpdateConversation id id conv_dto time
  | SetSenderKey id id "(id \<times> jsstr) list" int
  | DeleteAllMySenderKeys id

fun conv_step :: "json_env \<Rightarrow> db \<Rightarrow> conv_op \<Rightarrow> db" where
  "conv_step J d (SetChatPinned u c b) = snd (setChatPinned u c b d)"
| "conv_step J d (SetChatArchived u c b) = snd (setChatArchived u c b d)"
| "conv_step J d (AddPin u c m t) = snd (addPinnedMessage u c m t d)"
| "conv_step J d (RemovePin u c m) = snd (removePinnedMessage u c m d)"
| "conv_step J d (ClearMessages u c s t) = snd (clearMessages u c s t d)"
| "conv_step J d (SaveMessage u c dto t) = snd (saveMessage J u c dto t d)"
| "conv_step J d (MarkAsRead u c t) = markAsRead u c t d"
| "conv_step J d (DeleteMessage m u t) = snd (deleteMessage m u t d)"
| "conv_step J d (EditMessage m u x t) = snd (editMessage m u x t d)"
| "conv_step J d (ToggleReaction m u e t) = snd (toggleReaction m u e t d)"
| "conv_step J d (ForwardMessage u m c r t) = snd (forwardMessage u m c r t d)"
| "conv_step J d (GetOrCreateDirect u v t) = snd (getOrCreateDirect u v t d)"
| "conv_step J d (CreateGroup u n x is t) = snd (createGroup u n x is t d)"
| "conv_step J d (CreateChannel u n x t) = snd (createChannel u n x t d)"
| "conv_step J d (AddMember u c v t) = snd (addMember u c v t d)"
| "conv_step J d (RemoveMember u c v) = snd (removeMember u c v d)"
| "conv_step J d (SetMemberRole u c v r) = snd (setMemberRole u c v r d)"
| "conv_step J d (UpdateConversation u c dto t) = snd (updateConversation u c dto t d)"
| "conv_step J d (SetSenderKey u c ks v) = snd (setSenderKey u c ks v d)"
| "conv_step J d (DeleteAllMySenderKeys u) = deleteAllMySenderKeys u d"

lemmas conv_ops_inv = pin_ops_inv chat_flag_ops_inv clearMessages_inv message_ops_inv creation_ops_inv member_ops_inv

interpretation conv: run_invariant "conv_step J" "\<lambda>_ _. True" conv_inv
proof unfold_locales
  fix d op assume "conv_inv d"
  then show "conv_inv (conv_step J d op)" by (cases op) (simp_all add: conv_ops_inv)
qed

text \<open>C2. Whatever sequence of calls clients make, with whatever arguments, the conversations database stays
  consistent: unique keys stay unique, no reference dangles, at most 20 messages are pinned per
  conversation and they belong to it, direct chats have at most two members, and only the ten allowed
  emojis are stored as reactions.\<close>

theorem conv_reachable_invariant:
  assumes "conv_inv d" shows "conv_inv (run (conv_step J) d ops)"
  using assms by (rule conv.run_inv) simp

lemma conv_inv_empty: "conv_inv empty_db"
  by (simp add: conv_inv_def conv_keys_def pins_ok_def pin_count_def direct_ok_def emojis_ok_def db_refs_def
      user_refs_def msg_refs_def empty_db_def t_count_def)

theorem conv_reachable_invariant_witness:
  "conv_inv (run (conv_step demo_json) empty_db [GetOrCreateDirect 1 2 0, AddPin 1 1 1 5])"
  by (rule conv_reachable_invariant[OF conv_inv_empty])

end
