(* ===== verification/Demo.thy ===== *)
theory Demo
  imports Schema
begin

text \<open>
  A small database with concrete rows, on which the theorems of several components are applied.
  It models no code.
\<close>

definition chat_user :: "id \<Rightarrow> user" where
  "chat_user i = \<lparr>u_id = i, u_email = [nat i], u_nickname = [nat i], u_password = [0], u_role = USER, u_avatarUrl = None,
     u_statusEmoji = None, u_isEmailVerified = True, u_emailVerifyToken = None, u_passwordResetToken = None,
     u_passwordResetExpires = None, u_isOnline = False, u_lastSeen = 0, u_tosAcceptedAt = None,
     u_encryptedPrivateKey = None, u_privateKeySalt = None, u_twoFactorSecret = None, u_twoFactorEnabled = False,
     u_encryptedPrivateKeyV2 = None\<rparr>"

definition chat_member :: "id \<Rightarrow> id \<Rightarrow> id \<Rightarrow> member_role \<Rightarrow> member" where
  "chat_member i c u r = \<lparr>m_id = i, m_conversationId = c, m_userId = u, m_role = r, m_joinedAt = 0, m_lastReadAt = 0,
     m_clearedAt = None, m_isPinned = False, m_isArchived = False\<rparr>"

definition chat_message :: "id \<Rightarrow> id \<Rightarrow> id \<Rightarrow> jsstr \<Rightarrow> time \<Rightarrow> message" where
  "chat_message i c u x t = \<lparr>msg_id = i, msg_content = x, msg_createdAt = t, msg_editedAt = None, msg_deletedAt = None,
     msg_scheduledAt = None, msg_fileUrl = None, msg_fileName = None, msg_fileType = None, msg_fileSize = None,
     msg_metadata = None, msg_forwardedFromId = None, msg_forwardedFromUserId = None, msg_senderId = u,
     msg_conversationId = c, msg_replyToId = None, msg_senderDeviceId = None\<rparr>"

definition chat_conv :: "id \<Rightarrow> conversation_type \<Rightarrow> conversation" where
  "chat_conv i ty = \<lparr>c_id = i, c_type = ty, c_name = Some [71], c_description = None, c_avatarUrl = None,
     c_createdById = Some 1, c_updatedAt = 0\<rparr>"

text \<open>Users 1, 2, 3; a group 1 owned by 1 with member 2 and two messages of 2; a chat 2 of 3 with itself.\<close>

definition chat_db :: db where
  "chat_db = empty_db\<lparr>db_users := \<lparr>rows = [chat_user 1, chat_user 2, chat_user 3], nxt = 4\<rparr>,
     db_convs := \<lparr>rows = [chat_conv 1 GROUP, chat_conv 2 DIRECT], nxt = 3\<rparr>,
     db_members := \<lparr>rows = [chat_member 1 1 1 OWNER, chat_member 2 1 2 MEMBER, chat_member 3 2 3 MEMBER], nxt = 4\<rparr>,
     db_messages := \<lparr>rows = [chat_message 1 1 2 [104, 105] 10, chat_message 2 1 2 [111, 107] 20], nxt = 3\<rparr>\<rparr>"

lemmas chat_defs = chat_db_def chat_user_def chat_member_def chat_message_def chat_conv_def empty_db_def
  find_member_def find_user_def find_conv_def find_message_def find_device_def t_find_def

end
