(* ===== verification/ConvProperties.thy ===== *)
theory ConvProperties
  imports ConvInvariant Demo
begin

text \<open>
  What the conversations service promises its callers: message pages, hidden scheduled messages, unread
  counters, who may change a membership, the effect of sending, editing, deleting, reacting and
  clearing, and what forwarding discloses.  The last section holds a small database on which the
  hypotheses of these theorems hold.
\<close>

section \<open>The demonstration database\<close>

lemma chat_inv: "conv_inv chat_db"
  by (auto simp: conv_inv_def conv_keys_def pins_ok_def pin_count_def direct_ok_def emojis_ok_def db_refs_def
      user_refs_def msg_refs_def t_count_def chat_defs tbl_wf_def message_refs_def opt_in_def key_defs
      conv_members_def t_all_def)

section \<open>Pages of messages\<close>

lemma with_reads_rows: "map mo_msg (with_reads d cid uid gs) = map (select_message d) gs"
  by (simp add: with_reads_def mapMessageWithRead_def Let_def o_def split: prod.splits)

lemma select_message_simps [simp]:
  "mv_id (select_message d g) = msg_id g" "mv_content (select_message d g) = msg_content g"
  "mv_createdAt (select_message d g) = msg_createdAt g" "mv_deletedAt (select_message d g) = msg_deletedAt g"
  "mv_scheduledAt (select_message d g) = msg_scheduledAt g" "mv_senderId (select_message d g) = msg_senderId g"
  "mv_conversationId (select_message d g) = msg_conversationId g" "mv_replyToId (select_message d g) = msg_replyToId g"
  by (simp_all add: select_message_def)

text \<open>Sorting rows with distinct ids gives a strictly ordered list.\<close>

lemma distinct_map_sort: "distinct (map f xs) \<Longrightarrow> distinct (map f (sort_key k xs))"
  by (simp add: distinct_map)

lemma sorted_strictI:
  "sorted (map k ys) \<Longrightarrow> distinct (map k ys) \<Longrightarrow> sorted_wrt (\<lambda>a b. k a < (k b :: int)) ys"
  by (induction ys) (auto simp: less_le image_iff)

lemma asc_strict: "distinct (map f xs) \<Longrightarrow> sorted_wrt (\<lambda>a b. f a < (f b :: int)) (sort_key f xs)"
  by (intro sorted_strictI) (auto intro: distinct_map_sort)

lemma desc_strict: "distinct (map f xs) \<Longrightarrow> sorted_wrt (\<lambda>a b. f b < (f a :: int)) (sort_key (\<lambda>x. - f x) xs)"
proof -
  assume "distinct (map f xs)"
  then have "distinct (map (\<lambda>x. - f x) xs)" by (auto simp: distinct_map inj_on_def)
  from asc_strict[OF this] show ?thesis by simp
qed

text \<open>The first \<open>n\<close> of a strictly descending list, turned around: ascending, and nothing that was cut
  off is newer than what is kept.\<close>

lemma take_desc:
  assumes "sorted_wrt (\<lambda>a b. f b < (f a :: int)) gs"
  shows "sorted_wrt (\<lambda>a b. f a < f b) (rev (take n gs))"
    and "g \<in> set gs \<Longrightarrow> g \<notin> set (take n gs) \<Longrightarrow> length (take n gs) = n \<and> (\<forall>x\<in>set (take n gs). f g < f x)"
proof -
  show "sorted_wrt (\<lambda>a b. f a < f b) (rev (take n gs))"
    using assms by (simp add: sorted_wrt_rev sorted_wrt_take)
  assume g: "g \<in> set gs" "g \<notin> set (take n gs)"
  then have "g \<in> set (drop n gs)" by (metis Un_iff append_take_drop_id set_append)
  then have "n < length gs" by (metis drop_all empty_iff empty_set not_le)
  moreover have "sorted_wrt (\<lambda>a b. f b < f a) (take n gs @ drop n gs)" using assms by simp
  ultimately show "length (take n gs) = n \<and> (\<forall>x\<in>set (take n gs). f g < f x)"
    using \<open>g \<in> set (drop n gs)\<close> unfolding sorted_wrt_append by auto
qed

lemma visible_rows:
  assumes "conv_inv d"
  shows "sorted_wrt (\<lambda>a b. msg_id b < msg_id a) (by_id_desc (t_all P (db_messages d)))"
  unfolding by_id_desc_def
  using assms by (intro desc_strict) (simp add: conv_inv_def conv_keys_def tbl_wf_def t_all_def distinct_map_filter)

lemma set_by_id_desc [simp]: "set (by_id_desc gs) = set gs" by (simp add: by_id_desc_def)

text \<open>\<open>skip: 1\<close> drops exactly the cursor row when the cursor is one of the caller's own rows.\<close>

lemma drop_cursor:
  assumes "sorted_wrt (\<lambda>a b. f b < (f a :: int)) gs" "g \<in> set gs" "f g = c"
  shows "drop 1 (filter (\<lambda>x. f x \<le> c) gs) = filter (\<lambda>x. f x < c) gs"
  using assms
proof (induction gs)
  case (Cons a gs)
  show ?case
  proof (cases "f a = c")
    case True
    then have "\<forall>x\<in>set gs. f x < c" using Cons.prems(1) by auto
    then have "filter (\<lambda>x. f x \<le> c) gs = gs" "filter (\<lambda>x. f x < c) gs = gs"
      by (auto simp: filter_id_conv)
    then show ?thesis using True by simp
  next
    case False
    then have "g \<in> set gs" using Cons.prems by auto
    moreover from this have "c < f a" using Cons.prems by auto
    ultimately show ?thesis using Cons by auto
  qed
qed simp

text \<open>What the rows of a page are, with and without a cursor.\<close>

definition page_scope :: "id \<Rightarrow> id \<Rightarrow> id option \<Rightarrow> member \<Rightarrow> time \<Rightarrow> message \<Rightarrow> bool" where
  "page_scope uid cid cursor m now g \<longleftrightarrow>
     (if has_cursor cursor then visible uid cid None now g \<and> msg_id g < the cursor
      else visible uid cid (m_clearedAt m) now g)"

definition cursor_ok :: "id \<Rightarrow> id \<Rightarrow> id option \<Rightarrow> time \<Rightarrow> db \<Rightarrow> bool" where
  "cursor_ok uid cid cursor now d \<longleftrightarrow>
     (has_cursor cursor \<longrightarrow> (\<exists>g\<in>set (rows (db_messages d)). msg_id g = the cursor \<and> visible uid cid None now g))"

lemma page_rows_eq:
  assumes "conv_inv d" "cursor_ok uid cid cursor now d"
  shows "\<exists>gs. page_rows uid cid cursor m now d = take PAGE gs \<and> sorted_wrt (\<lambda>a b. msg_id b < msg_id a) gs
    \<and> set gs = {g \<in> set (rows (db_messages d)). page_scope uid cid cursor m now g}"
proof (cases "has_cursor cursor")
  case False
  then show ?thesis using visible_rows[OF assms(1)]
    by (intro exI[of _ "by_id_desc (t_all (visible uid cid (m_clearedAt m) now) (db_messages d))"])
      (auto simp: page_rows_def page_scope_def)
next
  case True
  let ?gs = "by_id_desc (t_all (visible uid cid None now) (db_messages d))"
  obtain g where g: "g \<in> set (rows (db_messages d))" "msg_id g = the cursor" "visible uid cid None now g"
    using assms(2) True by (auto simp: cursor_ok_def)
  have "drop 1 (filter (\<lambda>x. msg_id x \<le> the cursor) ?gs) = filter (\<lambda>x. msg_id x < the cursor) ?gs"
    by (rule drop_cursor[OF visible_rows[OF assms(1)], of g]) (use g in auto)
  moreover have "the cursor \<in> message_ids d" using g(1,2) by (metis imageI)
  then have "find_message d (the cursor) \<noteq> None" by (simp add: find_ids)
  ultimately show ?thesis using visible_rows[OF assms(1)] True
    by (intro exI[of _ "filter (\<lambda>x. msg_id x < the cursor) ?gs"])
      (auto simp: page_rows_def page_scope_def from_cursor_def intro: sorted_wrt_filter)
qed



text \<open>Ids on a page are ids of the rows it was made from.\<close>

lemma with_reads_ids: "(\<lambda>x. mv_id (mo_msg x)) ` set (with_reads d cid uid gs) = msg_id ` set gs"
proof -
  have "map (mv_id \<circ> mo_msg) (with_reads d cid uid gs) = map msg_id gs"
    using arg_cong[OF with_reads_rows, of "map mv_id" d cid uid gs] by (simp add: o_def)
  then have "set (map (mv_id \<circ> mo_msg) (with_reads d cid uid gs)) = set (map msg_id gs)" by simp
  then show ?thesis by (simp add: o_def)
qed



section \<open>The list of conversations and the unread counter\<close>

lemma sort_key_pair:
  assumes "sorted_wrt Q ys" "\<And>a b. a \<in> set ys \<Longrightarrow> b \<in> set ys \<Longrightarrow> k a < (k b :: int) \<Longrightarrow> R a b"
    and "\<And>a b. k a = k b \<Longrightarrow> Q a b \<Longrightarrow> R a b"
  shows "sorted_wrt R (sort_key k ys)"
proof -
  have "sorted_wrt R zs"
    if z: "sorted (map k zs)" "\<forall>v. sorted_wrt Q (filter (\<lambda>x. k x = v) zs)" "set zs \<subseteq> set ys" for zs
    using z
  proof (induction zs)
    case (Cons a zs)
    have "R a b" if b: "b \<in> set zs" for b
    proof (cases "k a = k b")
      case True
      have "sorted_wrt Q (filter (\<lambda>x. k x = k a) (a # zs))" using Cons.prems(2) by blast
      then have "Q a b" using b True by auto
      then show ?thesis using assms(3) True by blast
    next
      case False
      then have "k a < k b" using Cons.prems(1) b by (simp add: less_le)
      then show ?thesis using assms(2) Cons.prems(3) b by auto
    qed
    moreover have "sorted_wrt Q (filter (\<lambda>x. k x = v) zs)" for v
      using Cons.prems(2)[rule_format, of v] by (auto split: if_splits)
    ultimately show ?case using Cons by simp
  qed simp
  moreover have "sorted_wrt Q (filter (\<lambda>x. k x = v) (sort_key k ys))" for v
    using sorted_wrt_filter[OF assms(1), of "\<lambda>x. k x = v"] by (simp only: sort_key_stable)
  ultimately show ?thesis by simp
qed

lemma page_slice: "(if length (take (n + 1) xs) > n then take n (take (n + 1) xs) else take (n + 1) xs) = take n xs"
  by auto

text \<open>The conversation list is paged without gaps or overlaps: the answer to \<open>skip\<close> and \<open>take\<close> is exactly
  that slice (of at most 50) of the caller's memberships ordered pinned first and then by latest activity,
  and \<open>hasMore\<close> says exactly whether something follows.\<close>

theorem my_conversations_page:
  "getMyConversations uid skp tk showArchived now d =
     (map (\<lambda>(m, c). conv_view d uid now m c) (take (min tk 50) (drop skp (my_memberships d uid showArchived))),
      skp + min tk 50 < length (my_memberships d uid showArchived))
   \<and> sorted_wrt (\<lambda>(m, c) (m', c'). (m_isPinned m' \<longrightarrow> m_isPinned m) \<and>
        (m_isPinned m = m_isPinned m' \<longrightarrow> c_updatedAt c' \<le> c_updatedAt c)) (my_memberships d uid showArchived)"
proof
  let ?ms = "my_memberships d uid showArchived"
  have "length (take (min tk 50 + 1) (drop skp ?ms)) > min tk 50 \<longleftrightarrow> skp + min tk 50 < length ?ms" by auto
  then show "getMyConversations uid skp tk showArchived now d =
     (map (\<lambda>(m, c). conv_view d uid now m c) (take (min tk 50) (drop skp ?ms)), skp + min tk 50 < length ?ms)"
    unfolding getMyConversations_def Let_def page_slice by simp
next
  show "sorted_wrt (\<lambda>(m, c) (m', c'). (m_isPinned m' \<longrightarrow> m_isPinned m) \<and>
        (m_isPinned m = m_isPinned m' \<longrightarrow> c_updatedAt c' \<le> c_updatedAt c)) (my_memberships d uid showArchived)"
    unfolding my_memberships_def
  proof (rule sort_key_pair[where Q = "\<lambda>(m, c) (m', c'). c_updatedAt c' \<le> c_updatedAt c"])
    show "sorted_wrt (\<lambda>(m, c) (m', c'). c_updatedAt c' \<le> c_updatedAt c) (sort_key (\<lambda>(m, c). - c_updatedAt c)
         (List.map_filter (\<lambda>m. map_option (Pair m) (find_conv d (m_conversationId m)))
           (t_all (\<lambda>m. m_userId m = uid \<and> m_isArchived m = showArchived) (db_members d))))" (is "sorted_wrt _ ?s")
    proof -
      have "sorted (map (\<lambda>(m, c). - c_updatedAt c) ?s)" by simp
      then show ?thesis by (simp add: sorted_wrt_map case_prod_unfold)
    qed
  qed (auto split: if_splits)
qed

theorem my_conversations_page_witness:
  "snd (getMyConversations 1 0 20 False 100 chat_db) = False
   \<and> length (fst (getMyConversations 1 0 20 False 100 chat_db)) = 1"
proof -
  have "length (my_memberships chat_db 1 False) = 1"
    by (simp add: my_memberships_def t_all_def chat_defs List.map_filter_def)
  then show ?thesis using my_conversations_page[of 1 0 20 False 100 chat_db] by simp
qed

lemma conv_members_markAsRead:
  "find_member (markAsRead uid cid now d) cid uid = map_option (\<lambda>m. m\<lparr>m_lastReadAt := now\<rparr>) (find_member d cid uid)"
proof -
  have "List.find (\<lambda>m. m_conversationId m = cid \<and> m_userId m = uid)
          (map (\<lambda>m. if m_conversationId m = cid \<and> m_userId m = uid then m\<lparr>m_lastReadAt := now\<rparr> else m) ms) =
        map_option (\<lambda>m. m\<lparr>m_lastReadAt := now\<rparr>) (List.find (\<lambda>m. m_conversationId m = cid \<and> m_userId m = uid) ms)" for ms
    by (induction ms) auto
  then show ?thesis by (simp add: find_member_def markAsRead_def t_find_def)
qed

text \<open>Reading a conversation clears its badge: right after \<open>markAsRead\<close> the caller's unread counter of that
  conversation is zero, provided no message claims to be from the future.\<close>

theorem mark_read_clears_badge:
  assumes "find_member (markAsRead uid cid now d) cid uid = Some m"
    and "\<And>g. g \<in> set (rows (db_messages d)) \<Longrightarrow> msg_createdAt g \<le> now"
  shows "unread_count (markAsRead uid cid now d) uid m now = 0"
proof -
  have "m_lastReadAt m = now" using assms(1) by (auto simp: conv_members_markAsRead)
  moreover have "db_messages (markAsRead uid cid now d) = db_messages d" by (simp add: markAsRead_def)
  ultimately show ?thesis using assms(2) by (fastforce simp: unread_count_def t_count_def filter_empty_conv not_less)
qed

theorem mark_read_clears_badge_witness:
  "\<exists>m m'. find_member chat_db 1 1 = Some m \<and> unread_count chat_db 1 m 100 = 2
     \<and> find_member (markAsRead 1 1 100 chat_db) 1 1 = Some m' \<and> unread_count (markAsRead 1 1 100 chat_db) 1 m' 100 = 0"
proof -
  obtain m where m: "find_member chat_db 1 1 = Some m" by (simp add: chat_defs)
  then have m': "find_member (markAsRead 1 1 100 chat_db) 1 1 = Some (m\<lparr>m_lastReadAt := 100\<rparr>)"
    by (simp add: conv_members_markAsRead)
  have "unread_count chat_db 1 m 100 = 2"
    using m by (auto simp: chat_defs unread_count_def t_count_def scheduledFilter_def)
  moreover have "unread_count (markAsRead 1 1 100 chat_db) 1 (m\<lparr>m_lastReadAt := 100\<rparr>) 100 = 0"
    by (rule mark_read_clears_badge[OF m']) (auto simp: chat_defs)
  ultimately show ?thesis using m m' by blast
qed

section \<open>Reactions\<close>

lemma image_delete_where:
  assumes "\<And>r. r \<in> set (rows t) \<Longrightarrow> P r \<longleftrightarrow> key r = k"
  shows "key ` set (rows (t_delete P t)) = key ` set (rows t) - {k}"
  using assms by auto

lemma flip_reaction_keys:
  assumes "conv_inv d" "flip_reaction mid uid emoji now d = (Inr u, d')"
  shows "reaction_key ` set (rows (db_reactions d')) =
     (if (uid, mid, emoji) \<in> reaction_key ` set (rows (db_reactions d))
      then reaction_key ` set (rows (db_reactions d)) - {(uid, mid, emoji)}
      else insert (uid, mid, emoji) (reaction_key ` set (rows (db_reactions d))))"
proof (cases "t_find (same_reaction mid uid emoji) (db_reactions d)")
  case None
  then have "(uid, mid, emoji) \<notin> reaction_key ` set (rows (db_reactions d))"
    by (auto simp: t_find_None_iff same_reaction_def key_defs)
  then show ?thesis using assms(2) None by (auto simp: flip_reaction_def key_defs split: if_splits)
next
  case (Some x)
  then have x: "x \<in> set (rows (db_reactions d))" "same_reaction mid uid emoji x" by (auto dest!: t_find_SomeD)
  have wf: "tbl_wf r_id (db_reactions d)" "uniq reaction_key (db_reactions d)"
    using assms(1) by (auto simp: conv_inv_def conv_keys_def)
  have key: "reaction_key x = (uid, mid, emoji)" using x(2) by (simp add: same_reaction_def key_defs)
  have "r_id r = r_id x \<longleftrightarrow> reaction_key r = (uid, mid, emoji)" if "r \<in> set (rows (db_reactions d))" for r
    using tbl_wf_key_eq[OF wf(1) that x(1)] uniq_eq[OF wf(2) that x(1)] key by auto
  then have del: "reaction_key ` set (rows (t_delete (\<lambda>r. r_id r = r_id x) (db_reactions d))) =
      reaction_key ` set (rows (db_reactions d)) - {(uid, mid, emoji)}"
    by (rule image_delete_where)
  have "(uid, mid, emoji) \<in> reaction_key ` set (rows (db_reactions d))" using x(1) key by (metis imageI)
  moreover have "db_reactions d' = t_delete (\<lambda>r. r_id r = r_id x) (db_reactions d)"
    using assms(2) Some by (auto simp: flip_reaction_def)
  ultimately show ?thesis using del by simp
qed

lemma toggleReaction_okD:
  assumes "toggleReaction mid uid emoji now d = (Inr r, d')"
  shows "\<exists>g. emoji \<in> set ALLOWED_EMOJIS \<and> find_message d mid = Some g \<and> msg_deletedAt g = None
    \<and> is_member d (msg_conversationId g) uid \<and> flip_reaction mid uid emoji now d = (Inr (), d')"
proof -
  have e: "emoji \<in> set ALLOWED_EMOJIS" using assms by (simp add: toggleReaction_def split: if_splits)
  obtain g where g: "find_message d mid = Some g" "msg_deletedAt g = None"
    using assms e by (auto simp: toggleReaction_def split: option.splits if_splits)
  then obtain m where m: "find_member d (msg_conversationId g) uid = Some m"
    using assms e by (auto simp: toggleReaction_def dest: check_InrD)
  obtain r1 d1 where f: "flip_reaction mid uid emoji now d = (r1, d1)" by fastforce
  then have "r1 = Inr () \<and> d1 = d'"
    using assms e g m by (cases r1) (auto simp: toggleReaction_def assertMember_def)
  then show ?thesis using e g m f by (simp add: is_member_def)
qed

text \<open>Reacting is a switch: a successful call, which needs an allowed emoji, a message that is not deleted and
  membership in its conversation, adds the caller's reaction if it was absent and removes it if it was
  present, touches no other reaction and nothing else in the database, and so twice is the same as not at
  all.\<close>

theorem toggle_reaction:
  assumes "conv_inv d" "toggleReaction mid uid emoji now d = (Inr r, d')" "toggleReaction mid uid emoji now' d' = (Inr r', d'')"
  shows "(\<exists>g. find_message d mid = Some g \<and> msg_deletedAt g = None \<and> is_member d (msg_conversationId g) uid)
    \<and> emoji \<in> set ALLOWED_EMOJIS
    \<and> reaction_key ` set (rows (db_reactions d')) =
        (if (uid, mid, emoji) \<in> reaction_key ` set (rows (db_reactions d))
         then reaction_key ` set (rows (db_reactions d)) - {(uid, mid, emoji)}
         else insert (uid, mid, emoji) (reaction_key ` set (rows (db_reactions d))))
    \<and> reaction_key ` set (rows (db_reactions d'')) = reaction_key ` set (rows (db_reactions d))
    \<and> d'\<lparr>db_reactions := db_reactions d\<rparr> = d"
proof -
  obtain g where g: "emoji \<in> set ALLOWED_EMOJIS" "find_message d mid = Some g" "msg_deletedAt g = None"
      "is_member d (msg_conversationId g) uid" "flip_reaction mid uid emoji now d = (Inr (), d')"
    using toggleReaction_okD[OF assms(2)] by blast
  have "conv_inv d'" using message_ops_inv(4)[OF assms(1), of mid uid emoji now] assms(2) by simp
  moreover obtain g' where g': "flip_reaction mid uid emoji now' d' = (Inr (), d'')"
    using toggleReaction_okD[OF assms(3)] by blast
  ultimately have k: "reaction_key ` set (rows (db_reactions d'')) = reaction_key ` set (rows (db_reactions d))"
    using flip_reaction_keys[OF assms(1) g(5)] flip_reaction_keys[of d' mid uid emoji now' "()" d'']
    by (auto split: if_splits)
  have "d'\<lparr>db_reactions := db_reactions d\<rparr> = d"
    using g(5) by (auto simp: flip_reaction_def split: option.splits if_splits)
  then show ?thesis using g flip_reaction_keys[OF assms(1) g(5)] k by blast
qed

theorem toggle_reaction_witness:
  "\<exists>r d' r' d''. toggleReaction 1 1 [55357, 56613] 5 chat_db = (Inr r, d')
     \<and> toggleReaction 1 1 [55357, 56613] 6 d' = (Inr r', d'') \<and> d'\<lparr>db_reactions := db_reactions chat_db\<rparr> = chat_db
     \<and> (1, 1, [55357, 56613]) \<in> reaction_key ` set (rows (db_reactions d'))"
proof -
  obtain r d' where 1: "toggleReaction 1 1 [55357, 56613] 5 chat_db = (Inr r, d')"
      "db_reactions d' = t_insert (\<lambda>i. \<lparr>r_id = i, r_emoji = [55357, 56613], r_userId = 1, r_messageId = 1, r_createdAt = 5\<rparr>) t_empty"
      "db_messages d' = db_messages chat_db" "db_members d' = db_members chat_db"
    by (simp add: toggleReaction_def ALLOWED_EMOJIS_def chat_defs assertMember_def flip_reaction_def t_insert_def)
  then obtain r' d'' where 2: "toggleReaction 1 1 [55357, 56613] 6 d' = (Inr r', d'')"
    by (simp add: toggleReaction_def ALLOWED_EMOJIS_def chat_defs assertMember_def flip_reaction_def same_reaction_def t_insert_def t_empty_def)
  show ?thesis using toggle_reaction[OF chat_inv 1(1) 2] 1 2 by (auto simp: key_defs)
qed

section \<open>Who may change a membership\<close>

fun actor :: "conv_op \<Rightarrow> id" where
  "actor (SetChatPinned u c b) = u"
| "actor (SetChatArchived u c b) = u"
| "actor (AddPin u c m t) = u"
| "actor (RemovePin u c m) = u"
| "actor (ClearMessages u c s t) = u"
| "actor (SaveMessage u c dto t) = u"
| "actor (MarkAsRead u c t) = u"
| "actor (DeleteMessage m u t) = u"
| "actor (EditMessage m u x t) = u"
| "actor (ToggleReaction m u e t) = u"
| "actor (ForwardMessage u m c r t) = u"
| "actor (GetOrCreateDirect u v t) = u"
| "actor (CreateGroup u n x is t) = u"
| "actor (CreateChannel u n x t) = u"
| "actor (AddMember u c v t) = u"
| "actor (RemoveMember u c v) = u"
| "actor (SetMemberRole u c v r) = u"
| "actor (UpdateConversation u c dto t) = u"
| "actor (SetSenderKey u c ks v) = u"
| "actor (DeleteAllMySenderKeys u) = u"

text \<open>The role of a user in a conversation, \<open>None\<close> for a non-member.\<close>

definition role_in :: "db \<Rightarrow> id \<Rightarrow> id \<Rightarrow> member_role option" where
  "role_in d cid v = map_option m_role (find_member d cid v)"

lemma role_in_update:
  assumes "\<And>m. m_conversationId (f m) = m_conversationId m" "\<And>m. m_userId (f m) = m_userId m"
  shows "role_in (d\<lparr>db_members := t_update P f (db_members d)\<rparr>) cid v =
    map_option (\<lambda>m. m_role (if P m then f m else m)) (find_member d cid v)"
proof -
  have "List.find (\<lambda>m. m_conversationId m = cid \<and> m_userId m = v) (map (\<lambda>m. if P m then f m else m) ms) =
      map_option (\<lambda>m. if P m then f m else m) (List.find (\<lambda>m. m_conversationId m = cid \<and> m_userId m = v) ms)" for ms
    using assms by (induction ms) auto
  then show ?thesis by (simp add: role_in_def find_member_def t_find_def option.map_comp o_def)
qed

lemma role_in_same_members: "db_members d' = db_members d \<Longrightarrow> role_in d' = role_in d"
  by (simp add: role_in_def find_member_def fun_eq_iff)

lemma role_in_keep:
  assumes "\<And>m. m_conversationId (f m) = m_conversationId m" "\<And>m. m_userId (f m) = m_userId m" "\<And>m. m_role (f m) = m_role m"
  shows "role_in (d\<lparr>db_members := t_update P f (db_members d)\<rparr>) = role_in d"
  using role_in_update[OF assms(1,2)] assms(3) by (simp add: fun_eq_iff role_in_def if_distrib cong: if_cong)

lemma snd_sbind_const: "snd (sbind p (\<lambda>_ s. (Inr x, s))) = snd p"
  by (auto simp: sbind_def split: prod.splits sum.splits)

lemma members_sbind:
  "db_members (snd p) = ms \<Longrightarrow> (\<And>x s. p = (Inr x, s) \<Longrightarrow> db_members s = ms \<Longrightarrow> db_members (snd (f x s)) = ms)
    \<Longrightarrow> db_members (snd (sbind p f)) = ms"
  by (auto simp: sbind_def split: prod.splits sum.splits)

lemma members_check:
  "db_members d = ms \<Longrightarrow> (\<And>x. db_members (snd (f x d)) = ms) \<Longrightarrow> db_members (snd (check r f d)) = ms"
  by (auto simp: check_def split: sum.splits)

lemma writes_keep_members [simp]:
  "db_members (snd (update_msg mid f d)) = db_members d" "db_members (snd (touch_conv cid now d)) = db_members d"
  "db_members (snd (update_conv cid g d)) = db_members d" "db_members (snd (upsert_pin cid mid uid now d)) = db_members d"
  "db_members (snd (create_message mk d)) = db_members d" "db_members (snd (create_envelopes mid es d)) = db_members d"
  "db_members (snd (flip_reaction mid uid emoji now d)) = db_members d"
  "db_members (snd (upsert_sender_key cid uid v k d)) = db_members d"
  by (auto simp: update_msg_def touch_conv_def update_conv_def upsert_pin_def create_message_def create_envelopes_def
      flip_reaction_def upsert_sender_key_def Let_def split: option.splits)

lemma upsert_all_members [simp]: "db_members (snd (upsert_all cid uid v ks d)) = db_members d"
proof (induction ks arbitrary: d)
  case (Cons k ks)
  obtain r d1 where up: "upsert_sender_key cid uid v k d = (r, d1)" by fastforce
  then have "db_members d1 = db_members d" using writes_keep_members(8)[of cid uid v k d] by simp
  then show ?case using Cons.IH[of d1] up by (cases "upsert_all cid uid v ks d1") simp
qed simp

lemma ops_keep_members:
  "db_members (snd (addPinnedMessage u c m t d)) = db_members d"
  "db_members (snd (removePinnedMessage u c m d)) = db_members d"
  "db_members (snd (saveMessage J u c dto t d)) = db_members d"
  "db_members (snd (deleteMessage m u t d)) = db_members d"
  "db_members (snd (editMessage m u x t d)) = db_members d"
  "db_members (snd (toggleReaction m u e t d)) = db_members d"
  "db_members (snd (forwardMessage u m c re t d)) = db_members d"
  "db_members (snd (updateConversation u c cdto t d)) = db_members d"
  "db_members (snd (setSenderKey u c ks v d)) = db_members d"
  "db_members (deleteAllMySenderKeys u d) = db_members d"
  unfolding addPinnedMessage_def removePinnedMessage_def saveMessage_def deleteMessage_def editMessage_def
    toggleReaction_def forwardMessage_def updateConversation_def setSenderKey_def deleteAllMySenderKeys_def Let_def
  by (auto intro!: members_check members_sbind split: option.splits)

lemma create_member_role:
  assumes "create_member cid uid role now d = (Inr m, d')"
  shows "role_in d' cid' v = (if cid' = cid \<and> v = uid then Some role else role_in d cid' v)"
  using assms
  by (auto simp: create_member_def Let_def role_in_def find_member_def t_find_def find_append split: option.splits if_splits)

lemma create_member_errD: "create_member cid uid role now d = (Inl e, d') \<Longrightarrow> d' = d"
  by (auto simp: create_member_def Let_def split: if_splits)

lemma find_filter_other: "(\<And>x. P x \<Longrightarrow> Q x) \<Longrightarrow> List.find P (filter Q xs) = List.find P xs"
  by (induction xs) auto

lemma role_in_delete:
  "role_in (d\<lparr>db_members := t_delete (\<lambda>m. m_conversationId m = cid \<and> m_userId m = w) (db_members d)\<rparr>) cid' v =
     (if cid' = cid \<and> v = w then None else role_in d cid' v)"
proof (cases "cid' = cid \<and> v = w")
  case True
  then show ?thesis by (auto simp: role_in_def find_member_def t_find_def find_None_iff)
next
  case False
  then have "List.find (\<lambda>m. m_conversationId m = cid' \<and> m_userId m = v)
      (filter (\<lambda>m. \<not> (m_conversationId m = cid \<and> m_userId m = w)) (rows (db_members d))) =
      List.find (\<lambda>m. m_conversationId m = cid' \<and> m_userId m = v) (rows (db_members d))"
    by (intro find_filter_other) auto
  then show ?thesis using False by (auto simp: role_in_def find_member_def t_find_def)
qed

lemma create_members_other:
  "cid \<noteq> cid' \<Longrightarrow> role_in (snd (create_members cid ms now d)) cid' v = role_in d cid' v"
proof (induction ms arbitrary: d)
  case (Cons x ms)
  obtain uid role where x: "x = (uid, role)" by (cases x)
  obtain r d1 where c: "create_member cid uid role now d = (r, d1)" by fastforce
  then have "role_in d1 cid' v = role_in d cid' v"
    using Cons.prems create_member_role[of cid uid role now d _ d1 cid' v] create_member_errD[of cid uid role now d _ d1]
    by (cases r) auto
  then show ?case using Cons c by (cases r) (auto simp: x)
qed simp

lemma create_conversation_other:
  assumes "conv_inv d" "cid \<in> conv_ids d"
  shows "role_in (snd (create_conversation ty name descr uid mems now d)) cid v = role_in d cid v"
proof -
  let ?n = "nxt (db_convs d)"
  have "?n \<noteq> cid" using assms by (auto simp: conv_inv_def conv_keys_def tbl_wf_def)
  then have "role_in (snd (create_members ?n mems now (d\<lparr>db_convs := X\<rparr>))) cid v = role_in d cid v" for X
    using create_members_other[of ?n cid mems now "d\<lparr>db_convs := X\<rparr>" v]
      role_in_same_members[of "d\<lparr>db_convs := X\<rparr>" d] by simp
  then show ?thesis
    by (auto simp: create_conversation_def transaction_def Let_def sbind_def split: prod.splits sum.splits)
      (metis snd_conv)
qed

text \<open>C3. Only the right people change who is in an existing conversation: a user who was not a member becomes
  one only through an owner or admin of it; a member disappears only by leaving or through an owner or
  admin, who cannot remove the owner; and a role changes only through an owner.\<close>

theorem membership_authority:
  assumes "conv_inv d" "cid \<in> conv_ids d" "role_in (conv_step J d op) cid v \<noteq> role_in d cid v"
  shows "(role_in d cid v = None \<longrightarrow> is_admin d cid (actor op) \<and> role_in (conv_step J d op) cid v = Some MEMBER)
    \<and> (role_in (conv_step J d op) cid v = None \<longrightarrow>
         actor op = v \<or> is_admin d cid (actor op) \<and> role_in d cid v \<noteq> Some OWNER)
    \<and> (role_in d cid v \<noteq> None \<and> role_in (conv_step J d op) cid v \<noteq> None \<longrightarrow> role_in d cid (actor op) = Some OWNER)
    \<and> \<not> (is_direct d cid \<and> (role_in d cid v = None \<or> role_in (conv_step J d op) cid v = None))"
proof (cases op)
  case (AddMember u c w t)
  let ?r = "create_member c w MEMBER t d"
  have ok: "\<not> is_direct d c \<and> is_admin d c u \<and> role_in d c w = None \<and> (\<exists>m d'. ?r = (Inr m, d') \<and> conv_step J d op = d')"
  proof (rule ccontr)
    assume no: "\<not> ?thesis"
    have "conv_step J d op = d"
    proof (cases "is_direct d c \<or> \<not> is_admin d c u \<or> is_member d c w")
      case True
      then show ?thesis
        by (auto simp: AddMember addMember_def assertAdmin_Inr is_admin_iff check_def split: sum.splits)
    next
      case False
      obtain r d' where r: "?r = (r, d')" by fastforce
      obtain a where "assertAdmin u c d = Inr a" using False by (auto simp: is_admin_iff assertAdmin_Inr)
      then have step: "conv_step J d op = d'"
        using False r by (cases r) (auto simp: AddMember addMember_def)
      with no False r obtain e where "r = Inl e" by (cases r) (auto simp: is_member_def role_in_def)
      then show ?thesis using r step create_member_errD by simp
    qed
    then show False using assms(3) by simp
  qed
  then show ?thesis using assms(3) create_member_role[of c w MEMBER t d _ _ cid v] AddMember
    by (auto split: if_splits)
next
  case (RemoveMember u c w)
  let ?d = "d\<lparr>db_senderKeys := t_delete (\<lambda>k. sk_conversationId k = c \<and> sk_senderId k = w) (db_senderKeys d)\<rparr>"
  have same: "role_in ?d = role_in d" by (rule role_in_same_members) simp
  have ok: "\<not> is_direct d c \<and> (u = w \<or> is_admin d c u \<and> role_in d c w \<noteq> Some OWNER) \<and> cid = c \<and> v = w
      \<and> role_in (conv_step J d op) cid v = None"
    using assms(3) same role_in_delete[where d = ?d and cid = c and w = w and cid' = cid and v = v]
    by (auto simp: RemoveMember removeMember_def Let_def check_def rbind_def is_admin_iff assertAdmin_def
        assertMember_def role_in_def[of d] split: if_splits sum.splits option.splits)
  then show ?thesis using RemoveMember assms(3) by auto
next
  case (SetMemberRole u c w r)
  obtain m where m: "find_member d c u = Some m" "m_role m = OWNER"
    and step: "conv_step J d op = snd (update_member c w (\<lambda>m. m\<lparr>m_role := r\<rparr>) d)"
    using assms(3) by (auto simp: SetMemberRole setMemberRole_def split: option.splits if_splits)
  let ?d = "d\<lparr>db_members := t_update (\<lambda>m. m_conversationId m = c \<and> m_userId m = w) (\<lambda>m. m\<lparr>m_role := r\<rparr>) (db_members d)\<rparr>"
  have "role_in ?d cid v = map_option (\<lambda>m. m_role (if m_conversationId m = c \<and> m_userId m = w then m\<lparr>m_role := r\<rparr> else m))
      (find_member d cid v)"
    by (rule role_in_update) auto
  then have upd: "role_in ?d cid v = (if cid = c \<and> v = w then map_option (\<lambda>_. r) (role_in d cid v) else role_in d cid v)"
    by (cases "find_member d cid v") (auto simp: role_in_def dest: find_member_SomeD)
  have "role_in (conv_step J d op) cid v =
      (if cid = c \<and> v = w then map_option (\<lambda>_. r) (role_in d cid v) else role_in d cid v)"
    using upd by (cases "find_member d c w") (auto simp: step update_member_def role_in_def)
  moreover have "role_in d cid (actor op) = Some OWNER" if "cid = c"
    using m that by (simp add: SetMemberRole role_in_def)
  ultimately show ?thesis using assms(3) by (cases "role_in d cid v") (auto split: if_splits)
next
  case (SetChatPinned u c b)
  have "role_in (snd (setChatPinned u c b d)) = role_in d"
    by (auto simp: setChatPinned_def check_def sbind_def update_member_def role_in_keep split: sum.splits option.splits)
  then show ?thesis using assms(3) SetChatPinned by simp
next
  case (SetChatArchived u c b)
  have "role_in (snd (setChatArchived u c b d)) = role_in d"
    by (auto simp: setChatArchived_def check_def sbind_def update_member_def role_in_keep split: sum.splits option.splits)
  then show ?thesis using assms(3) SetChatArchived by simp
next
  case (ClearMessages u c sc t)
  have keep: "role_in (d\<lparr>db_messages := X, db_pins := Y,
      db_members := t_update P (\<lambda>m. m\<lparr>m_clearedAt := Some t\<rparr>) (db_members d)\<rparr>) = role_in d" for X Y P
    using role_in_keep[where f = "\<lambda>m. m\<lparr>m_clearedAt := Some t\<rparr>" and d = "d\<lparr>db_messages := X, db_pins := Y\<rparr>" and P = P]
      role_in_same_members[of "d\<lparr>db_messages := X, db_pins := Y\<rparr>" d] by simp
  have touch: "role_in (snd (touch_conv c t d')) = role_in d'" for d' by (rule role_in_same_members) simp
  have "role_in (snd (clearMessages u c sc t d)) = role_in d"
    by (cases "assertMember u c d"; cases "find_conv d c"; cases sc)
      (auto simp: clearMessages_def snd_sbind_const keep touch update_member_def role_in_keep simp del: assertMember_simps
        split: option.splits)
  then show ?thesis using assms(3) ClearMessages by simp
next
  case (MarkAsRead u c t)
  then show ?thesis using assms(3) by (simp add: markAsRead_def role_in_keep)
next
  case (GetOrCreateDirect u w t)
  then show ?thesis using assms create_conversation_other[OF assms(1,2)]
    by (auto simp: getOrCreateDirect_def split: option.splits if_splits)
next
  case (CreateGroup u n x ids t)
  then show ?thesis using assms create_conversation_other[OF assms(1,2)] by (simp add: createGroup_def Let_def)
next
  case (CreateChannel u n x t)
  then show ?thesis using assms create_conversation_other[OF assms(1,2)] by (simp add: createChannel_def)
qed (use assms(3) role_in_same_members[of "conv_step J d op" d] in \<open>simp_all add: ops_keep_members\<close>)

theorem membership_authority_witness:
  "role_in (conv_step demo_json chat_db (RemoveMember 1 1 2)) 1 2 = None \<and> role_in chat_db 1 2 = Some MEMBER
   \<and> is_admin chat_db 1 1"
proof -
  have r: "role_in (conv_step demo_json chat_db (RemoveMember 1 1 2)) 1 2 = None" "role_in chat_db 1 2 = Some MEMBER"
    by (simp_all add: role_in_def removeMember_def is_direct_def is_member_def assertAdmin_def assertMember_def
        chat_defs Let_def)
  have "1 \<in> conv_ids chat_db" by (simp add: chat_defs)
  from membership_authority[OF chat_inv this, of demo_json "RemoveMember 1 1 2" 2] r show ?thesis by simp
qed

section \<open>Sending\<close>

lemma find_append_fresh: "find_message d (nxt (db_messages d)) = None \<Longrightarrow>
    db_messages d' = t_insert mk (db_messages d) \<Longrightarrow> (\<And>i. msg_id (mk i) = i) \<Longrightarrow>
    find_message d' (nxt (db_messages d)) = Some (mk (nxt (db_messages d)))"
  by (auto simp: find_message_def t_find_def find_append)

lemma fresh_message: "conv_inv d \<Longrightarrow> find_message d (nxt (db_messages d)) = None"
  by (force simp: conv_inv_def conv_keys_def tbl_wf_def find_message_def t_find_None_iff)

definition may_post :: "db \<Rightarrow> id \<Rightarrow> id \<Rightarrow> bool" where
  "may_post d cid uid \<longleftrightarrow> (\<exists>m c. find_member d cid uid = Some m \<and> find_conv d cid = Some c
     \<and> (c_type c = CHANNEL \<longrightarrow> m_role m \<noteq> MEMBER))"

definition unknown_device :: "db \<Rightarrow> (id \<times> jsstr) list \<Rightarrow> bool" where
  "unknown_device d es \<longleftrightarrow> (\<exists>e\<in>set es. find_device d (fst e) = None)"

lemma saveMessage_cases:
  assumes "saveMessage J uid cid dto now d = (r, d')" and no: "\<not> (\<exists>e. r = Inl e \<and> d' = d)"
  shows "\<exists>meta g d1. length (str_or (sd_content dto) []) \<le> MAX_CONTENT \<and> may_post d cid uid
    \<and> validateAndNormalizeMetadata J (sd_metadata dto) = Inr meta
    \<and> create_message (new_message uid cid dto meta now) d = (Inr g, d1)
    \<and> sbind (if sd_envelopes dto = [] then (Inr (), d1) else create_envelopes (msg_id g) (sd_envelopes dto) d1)
        (\<lambda>_ d. sbind (touch_conv cid now d) (\<lambda>_ d. (Inr (mapMessage d g), d))) = (r, d')"
proof -
  note sm = assms(1)[unfolded saveMessage_def assertMember_def]
  have len: "length (str_or (sd_content dto) []) \<le> MAX_CONTENT" using sm no by (auto split: if_splits)
  then obtain m where m: "find_member d cid uid = Some m" using sm no by (cases "find_member d cid uid") auto
  obtain c where c: "find_conv d cid = Some c" using sm no len m by (cases "find_conv d cid") auto
  have post: "\<not> (c_type c = CHANNEL \<and> m_role m = MEMBER)" using sm no len m c by auto
  obtain meta where meta: "validateAndNormalizeMetadata J (sd_metadata dto) = Inr meta"
    using sm no len m c post by (cases "validateAndNormalizeMetadata J (sd_metadata dto)") auto
  obtain r1 d1 where cm: "create_message (new_message uid cid dto meta now) d = (r1, d1)" by fastforce
  have "\<forall>e. r1 = Inl e \<longrightarrow> d1 = d" using cm by (auto simp: create_message_def Let_def split: if_splits)
  then obtain g where g: "r1 = Inr g" using sm no len m c post meta cm by (cases r1) auto
  have "may_post d cid uid" using m c post by (auto simp: may_post_def)
  then show ?thesis using sm len m c post meta cm g by auto
qed

text \<open>C26. What sending does: either nothing is stored, or exactly one message is appended, written by the caller in a
  conversation they belong to (and administer, if it is a channel), with trimmed content of at most 4096
  characters and validated metadata, and the caller gets its view; with one exception, which the code does
  not guard against: if an envelope names an unknown device the caller gets an error although the message
  has been stored.\<close>

theorem save_message_effect:
  assumes "conv_inv d" "saveMessage J uid cid dto now d = (r, d')"
  shows "(\<exists>e. r = Inl e \<and> d' = d)
    \<or> (\<exists>meta g. may_post d cid uid \<and> validateAndNormalizeMetadata J (sd_metadata dto) = Inr meta
        \<and> g = new_message uid cid dto meta now (nxt (db_messages d)) \<and> length (msg_content g) \<le> 4096
        \<and> rows (db_messages d') = rows (db_messages d) @ [g]
        \<and> (if unknown_device d (sd_envelopes dto)
           then r = Inl (PrismaError ''P2003'') \<and> d' = d\<lparr>db_messages := db_messages d'\<rparr>
           else (\<exists>out. r = Inr out \<and> mo_msg out = select_message d' g)))"
proof (cases "\<exists>e. r = Inl e \<and> d' = d")
  case False
  let ?n = "nxt (db_messages d)"
  obtain meta g d1 where len: "length (str_or (sd_content dto) []) \<le> MAX_CONTENT" and post: "may_post d cid uid"
    and meta: "validateAndNormalizeMetadata J (sd_metadata dto) = Inr meta"
    and cm: "create_message (new_message uid cid dto meta now) d = (Inr g, d1)"
    and rest: "sbind (if sd_envelopes dto = [] then (Inr (), d1) else create_envelopes (msg_id g) (sd_envelopes dto) d1)
        (\<lambda>_ d. sbind (touch_conv cid now d) (\<lambda>_ d. (Inr (mapMessage d g), d))) = (r, d')"
    using saveMessage_cases[OF assms(2) False] by blast
  have g: "g = new_message uid cid dto meta now ?n" "d1 = d\<lparr>db_messages := t_insert (new_message uid cid dto meta now) (db_messages d)\<rparr>"
    using cm by (auto simp: create_message_def Let_def split: if_splits)
  have "length (msg_content g) \<le> 4096"
    using len order_trans[OF length_trim_le, of _ 4096] by (auto simp: g new_message_def MAX_CONTENT_def split: option.splits if_splits)
  moreover have rows1: "rows (db_messages d1) = rows (db_messages d) @ [g]" by (simp add: g)
  moreover have found: "find_message d1 (msg_id g) = Some g"
    using find_append_fresh[OF fresh_message[OF assms(1)], of d1 "new_message uid cid dto meta now"]
    by (simp add: g new_message_def)
  have dev: "find_device d1 = find_device d" by (simp add: g find_device_def fun_eq_iff)
  obtain c where conv: "find_conv d cid = Some c" using post by (auto simp: may_post_def)
  have touch: "\<exists>c' d3. touch_conv cid now d2 = (Inr c', d3) \<and> db_messages d3 = db_messages d2"
    if "db_convs d2 = db_convs d" for d2
    using conv that by (auto simp: touch_conv_def update_conv_def find_conv_def)
  show ?thesis
  proof (cases "unknown_device d (sd_envelopes dto)")
    case True
    then have "r = Inl (PrismaError ''P2003'')" "d' = d1"
      using rest dev by (auto simp: unknown_device_def create_envelopes_def split: if_splits)
    then show ?thesis using True post meta g rows1 calculation(1) by auto
  next
    case unk: False
    have "\<not> (\<exists>e\<in>set (sd_envelopes dto). find_device d1 (fst e) = None)"
      using unk unfolding dev unknown_device_def .
    with found have env: "create_envelopes (msg_id g) (sd_envelopes dto) d1 =
        (Inr (), d1\<lparr>db_envelopes := insert_envelopes (msg_id g) (sd_envelopes dto) (db_envelopes d1)\<rparr>)"
      unfolding create_envelopes_def by simp
    obtain d2 where d2: "(if sd_envelopes dto = [] then (Inr (), d1) else create_envelopes (msg_id g) (sd_envelopes dto) d1) = (Inr (), d2)"
        "db_convs d2 = db_convs d" "db_messages d2 = db_messages d1"
      unfolding env using g(2) by (cases "sd_envelopes dto = []") simp_all
    obtain c' d3 where d3: "touch_conv cid now d2 = (Inr c', d3)" "db_messages d3 = db_messages d2"
      using touch[OF d2(2)] by blast
    then have "r = Inr (mapMessage d3 g)" "d' = d3" using rest d2 by auto
    then have "mo_msg (mapMessage d3 g) = select_message d' g" "rows (db_messages d') = rows (db_messages d) @ [g]"
      using d3 d2 rows1 by (simp_all add: mapMessage_def)
    then show ?thesis using \<open>r = Inr (mapMessage d3 g)\<close> unk post meta g calculation(1) by auto
  qed
qed simp

theorem save_message_effect_witness:
  "let dto = \<lparr>sd_content = Some [32, 104, 105], sd_fileUrl = None, sd_fileName = None, sd_fileType = None,
         sd_fileSize = None, sd_replyToId = None, sd_metadata = None, sd_scheduledAt = None,
         sd_senderDeviceId = None, sd_envelopes = [(77, [1])]\<rparr>;
       out = saveMessage demo_json 1 1 dto 50 chat_db
   in fst out = Inl (PrismaError ''P2003'') \<and> length (rows (db_messages (snd out))) = 3"
proof -
  let ?dto = "\<lparr>sd_content = Some [32, 104, 105], sd_fileUrl = None, sd_fileName = None, sd_fileType = None,
         sd_fileSize = None, sd_replyToId = None, sd_metadata = None, sd_scheduledAt = None,
         sd_senderDeviceId = None, sd_envelopes = [(77, [1])]\<rparr>"
  obtain r d' where s: "saveMessage demo_json 1 1 ?dto 50 chat_db = (r, d')" by fastforce
  have "length (rows (db_messages (snd (saveMessage demo_json 1 1 ?dto 50 chat_db)))) = 3"
    by (simp add: saveMessage_def assertMember_def MAX_CONTENT_def validateAndNormalizeMetadata_def create_message_def
        Let_def new_message_def ref_ok_def create_envelopes_def chat_defs)
  moreover have "length (rows (db_messages chat_db)) = 2" by (simp add: chat_defs)
  ultimately have ne: "d' \<noteq> chat_db" using s by auto
  have "unknown_device chat_db (sd_envelopes ?dto)" by (simp add: unknown_device_def find_device_def chat_defs)
  with save_message_effect[OF chat_inv s] ne have "r = Inl (PrismaError ''P2003'')"
    "\<exists>g. rows (db_messages d') = rows (db_messages chat_db) @ [g]" by auto
  then show ?thesis using s by (auto simp: chat_defs)
qed

section \<open>Who may change a message\<close>

text \<open>How a message may differ after one operation: nothing of its origin changes; its text changes only by an
  edit of its author within the edit window; it is deleted at most once, by its author, by an administrator
  of its conversation, or by a member clearing a direct chat for both.\<close>

definition allowed_change :: "db \<Rightarrow> conv_op \<Rightarrow> message \<Rightarrow> message \<Rightarrow> bool" where
  "allowed_change d op g g' \<longleftrightarrow>
     msg_id g' = msg_id g \<and> msg_senderId g' = msg_senderId g \<and> msg_conversationId g' = msg_conversationId g
   \<and> msg_createdAt g' = msg_createdAt g \<and> msg_fileUrl g' = msg_fileUrl g \<and> msg_metadata g' = msg_metadata g
   \<and> msg_scheduledAt g' = msg_scheduledAt g \<and> msg_replyToId g' = msg_replyToId g
   \<and> (msg_content g' \<noteq> msg_content g \<longrightarrow> msg_deletedAt g = None \<and>
        (\<exists>x t. op = EditMessage (msg_id g) (msg_senderId g) x t \<and> t - msg_createdAt g \<le> EDIT_WINDOW_MS
           \<and> msg_content g' = trim x \<and> trim x \<noteq> []))
   \<and> (msg_deletedAt g' \<noteq> msg_deletedAt g \<longrightarrow> msg_deletedAt g = None \<and>
        (actor op = msg_senderId g \<or> is_admin d (msg_conversationId g) (actor op)
         \<or> is_direct d (msg_conversationId g) \<and> is_member d (msg_conversationId g) (actor op)))"

lemma allowed_refl [simp]: "allowed_change d op g g"
  by (simp add: allowed_change_def)

definition messages_evolve :: "db \<Rightarrow> conv_op \<Rightarrow> db \<Rightarrow> bool" where
  "messages_evolve d op d' \<longleftrightarrow>
     (\<exists>f new. rows (db_messages d') = map f (rows (db_messages d)) @ new
        \<and> (\<forall>g\<in>set (rows (db_messages d)). allowed_change d op g (f g)))"

lemma evolve_same: "db_messages d' = db_messages d \<Longrightarrow> messages_evolve d op d'"
  unfolding messages_evolve_def by (intro exI[of _ "\<lambda>g. g"] exI[of _ "[]"]) simp

lemma evolve_insert: "db_messages d' = t_insert mk (db_messages d) \<Longrightarrow> messages_evolve d op d'"
  unfolding messages_evolve_def by (intro exI[of _ "\<lambda>g. g"] exI[of _ "[mk (nxt (db_messages d))]"]) simp

lemma evolve_update:
  "db_messages d' = t_update P f (db_messages d) \<Longrightarrow>
    (\<And>g. g \<in> set (rows (db_messages d)) \<Longrightarrow> P g \<Longrightarrow> allowed_change d op g (f g)) \<Longrightarrow> messages_evolve d op d'"
  unfolding messages_evolve_def by (intro exI[of _ "\<lambda>g. if P g then f g else g"] exI[of _ "[]"]) auto

lemma messages_sbind:
  "db_messages (snd p) = ms \<Longrightarrow> (\<And>x s. p = (Inr x, s) \<Longrightarrow> db_messages s = ms \<Longrightarrow> db_messages (snd (f x s)) = ms)
    \<Longrightarrow> db_messages (snd (sbind p f)) = ms"
  by (auto simp: sbind_def split: prod.splits sum.splits)

lemma messages_check:
  "db_messages d = ms \<Longrightarrow> (\<And>x. db_messages (snd (f x d)) = ms) \<Longrightarrow> db_messages (snd (check r f d)) = ms"
  by (auto simp: check_def split: sum.splits)

lemma writes_keep_messages [simp]:
  "db_messages (snd (update_member cid v h d)) = db_messages d" "db_messages (snd (touch_conv cid now d)) = db_messages d"
  "db_messages (snd (update_conv cid g d)) = db_messages d" "db_messages (snd (upsert_pin cid mid uid now d)) = db_messages d"
  "db_messages (snd (create_member cid uid role now d)) = db_messages d"
  "db_messages (snd (create_envelopes mid es d)) = db_messages d"
  "db_messages (snd (flip_reaction mid uid emoji now d)) = db_messages d"
  "db_messages (snd (upsert_sender_key cid uid v k d)) = db_messages d"
  by (auto simp: update_member_def touch_conv_def update_conv_def upsert_pin_def create_member_def create_envelopes_def
      flip_reaction_def upsert_sender_key_def Let_def split: option.splits)

lemma upsert_all_messages [simp]: "db_messages (snd (upsert_all cid uid v ks d)) = db_messages d"
proof (induction ks arbitrary: d)
  case (Cons k ks)
  obtain r d1 where up: "upsert_sender_key cid uid v k d = (r, d1)" by fastforce
  then have "db_messages d1 = db_messages d" using writes_keep_messages(8)[of cid uid v k d] by simp
  then show ?case using Cons.IH[of d1] up by (cases "upsert_all cid uid v ks d1") simp
qed simp

lemma create_members_messages [simp]: "db_messages (snd (create_members cid ms now d)) = db_messages d"
proof (induction ms arbitrary: d)
  case (Cons x ms)
  obtain uid role where x: "x = (uid, role)" by (cases x)
  show ?case using Cons by (auto simp: x intro!: messages_sbind)
qed simp

lemma transaction_messages:
  "db_messages (snd (body d)) = db_messages d \<Longrightarrow> db_messages (snd (transaction body d)) = db_messages d"
  by (auto simp: transaction_def split: prod.splits sum.splits)

lemma create_conversation_messages [simp]:
  "db_messages (snd (create_conversation ty name descr uid mems now d)) = db_messages d"
proof -
  have "db_messages (snd (sbind (create_members n mems now d1) (\<lambda>_ d. (Inr (full_conv d c), d)))) = db_messages d1" for n d1 c
    by (rule messages_sbind) simp_all
  then show ?thesis unfolding create_conversation_def Let_def
    by (intro transaction_messages) simp
qed

lemma ops_keep_messages:
  "db_messages (snd (setChatPinned u c b d)) = db_messages d" "db_messages (snd (setChatArchived u c b d)) = db_messages d"
  "db_messages (snd (addPinnedMessage u c m t d)) = db_messages d" "db_messages (snd (removePinnedMessage u c m d)) = db_messages d"
  "db_messages (markAsRead u c t d) = db_messages d" "db_messages (snd (toggleReaction m u e t d)) = db_messages d"
  "db_messages (snd (getOrCreateDirect u w t d)) = db_messages d" "db_messages (snd (createGroup u n x ids t d)) = db_messages d"
  "db_messages (snd (createChannel u n x t d)) = db_messages d" "db_messages (snd (addMember u c w t d)) = db_messages d"
  "db_messages (snd (removeMember u c w d)) = db_messages d" "db_messages (snd (setMemberRole u c w r d)) = db_messages d"
  "db_messages (snd (updateConversation u c cdto t d)) = db_messages d"
  "db_messages (snd (setSenderKey u c ks v d)) = db_messages d" "db_messages (deleteAllMySenderKeys u d) = db_messages d"
  unfolding setChatPinned_def setChatArchived_def addPinnedMessage_def removePinnedMessage_def markAsRead_def
    toggleReaction_def getOrCreateDirect_def createGroup_def createChannel_def addMember_def removeMember_def
    setMemberRole_def updateConversation_def setSenderKey_def deleteAllMySenderKeys_def Let_def
  by (auto intro!: messages_check messages_sbind split: option.splits)

text \<open>C4. Messages are tamper-evident at the service: over any operation no message disappears or changes its
  author, conversation, time, file or metadata; its text changes only by an edit of its author at most 15
  minutes after it was sent; and it is marked deleted at most once, by its author, by an administrator of
  its conversation, or by either side of a direct chat clearing it.\<close>

theorem message_authority:
  assumes "conv_inv d"
  shows "messages_evolve d op (conv_step J d op)"
proof (cases op)
  case (SaveMessage u c dto t)
  show ?thesis
  proof (cases "\<exists>e. fst (saveMessage J u c dto t d) = Inl e \<and> snd (saveMessage J u c dto t d) = d")
    case False
    then obtain meta g d1 where cm: "create_message (new_message u c dto meta t) d = (Inr g, d1)"
      and rest: "sbind (if sd_envelopes dto = [] then (Inr (), d1) else create_envelopes (msg_id g) (sd_envelopes dto) d1)
        (\<lambda>_ d. sbind (touch_conv c t d) (\<lambda>_ d. (Inr (mapMessage d g), d))) = saveMessage J u c dto t d"
      using saveMessage_cases[of J u c dto t d "fst (saveMessage J u c dto t d)" "snd (saveMessage J u c dto t d)"]
      by auto
    have "db_messages (snd (saveMessage J u c dto t d)) = db_messages d1"
      unfolding rest[symmetric] by (auto intro!: messages_sbind)
    moreover have "db_messages d1 = t_insert (new_message u c dto meta t) (db_messages d)"
      using cm by (auto simp: create_message_def Let_def split: if_splits)
    ultimately show ?thesis using SaveMessage by (intro evolve_insert) simp
  qed (auto simp: SaveMessage intro: evolve_same)
next
  case (ForwardMessage u m c re t)
  show ?thesis
  proof (cases "find_member d c u = None \<or> find_message d m = None")
    case True
    then show ?thesis unfolding ForwardMessage
      by (intro evolve_same) (auto simp: forwardMessage_def assertMember_def split: option.splits)
  next
    case False
    then obtain mem orig where mo: "find_member d c u = Some mem" "find_message d m = Some orig" by auto
    define mk where "mk = (\<lambda>i. \<lparr>msg_id = i,
                msg_content = (case re of None \<Rightarrow> msg_content orig | Some c \<Rightarrow> c), msg_createdAt = t,
                msg_editedAt = None, msg_deletedAt = None, msg_scheduledAt = None,
                msg_fileUrl = msg_fileUrl orig, msg_fileName = msg_fileName orig, msg_fileType = msg_fileType orig,
                msg_fileSize = msg_fileSize orig, msg_metadata = None, msg_forwardedFromId = Some (msg_id orig),
                msg_forwardedFromUserId = Some (msg_senderId orig), msg_senderId = u, msg_conversationId = c,
                msg_replyToId = None, msg_senderDeviceId = None\<rparr>)"
    have fw: "forwardMessage u m c re t d = sbind (create_message mk d) (\<lambda>g d.
           sbind (touch_conv c t d) (\<lambda>_ d. (Inr (mapMessage d g), d)))"
      using mo by (simp add: forwardMessage_def assertMember_def mk_def)
    obtain r d1 where cm: "create_message mk d = (r, d1)" by fastforce
    then have d1: "(\<exists>e. r = Inl e) \<and> d1 = d \<or> db_messages d1 = t_insert mk (db_messages d)"
      by (auto simp: create_message_def Let_def split: if_splits)
    have "db_messages (snd (forwardMessage u m c re t d)) = db_messages d1"
      unfolding fw cm by (cases r) (auto intro!: messages_sbind)
    then show ?thesis using d1 unfolding ForwardMessage by (auto intro: evolve_same evolve_insert)
  qed
next
  case (DeleteMessage m u t)
  show ?thesis
  proof (cases "db_messages (snd (deleteMessage m u t d)) = db_messages d")
    case False
    then obtain g where g: "find_message d m = Some g" by (cases "find_message d m") (auto simp: deleteMessage_def)
    have ok: "msg_senderId g = u \<or> is_admin d (msg_conversationId g) u" "msg_deletedAt g = None"
      using False g by (auto simp: deleteMessage_def split: if_splits)
    have upd: "db_messages (snd (deleteMessage m u t d)) =
        t_update (\<lambda>g. msg_id g = m) (\<lambda>g. g\<lparr>msg_deletedAt := Some t\<rparr>) (db_messages d)"
      using False g ok by (auto simp: deleteMessage_def update_msg_def Let_def split: if_splits)
    have "x = g" if "x \<in> set (rows (db_messages d))" "msg_id x = m" for x
      using tbl_wf_key_eq[of msg_id "db_messages d" x g] assms that find_message_SomeD[OF g]
      by (simp add: conv_inv_def conv_keys_def)
    then show ?thesis using ok upd DeleteMessage
      by (intro evolve_update[of _ "\<lambda>g. msg_id g = m" "\<lambda>g. g\<lparr>msg_deletedAt := Some t\<rparr>"]) (auto simp: allowed_change_def)
  qed (simp add: DeleteMessage evolve_same)
next
  case (EditMessage m u x t)
  show ?thesis
  proof (cases "db_messages (snd (editMessage m u x t d)) = db_messages d")
    case False
    then obtain g where g: "find_message d m = Some g" by (cases "find_message d m") (auto simp: editMessage_def)
    have ok: "msg_senderId g = u" "msg_deletedAt g = None" "t - msg_createdAt g \<le> EDIT_WINDOW_MS" "trim x \<noteq> []"
      using False g by (auto simp: editMessage_def not_less[symmetric] split: if_splits)
    have upd: "db_messages (snd (editMessage m u x t d)) =
        t_update (\<lambda>g. msg_id g = m) (\<lambda>g. g\<lparr>msg_content := trim x, msg_editedAt := Some t\<rparr>) (db_messages d)"
      using False g ok by (auto simp: editMessage_def update_msg_def split: if_splits)
    have "y = g" if "y \<in> set (rows (db_messages d))" "msg_id y = m" for y
      using tbl_wf_key_eq[of msg_id "db_messages d" y g] assms that find_message_SomeD[OF g]
      by (simp add: conv_inv_def conv_keys_def)
    then show ?thesis using ok upd EditMessage
      by (intro evolve_update[of _ "\<lambda>g. msg_id g = m" "\<lambda>g. g\<lparr>msg_content := trim x, msg_editedAt := Some t\<rparr>"])
        (auto simp: allowed_change_def)
  qed (simp add: EditMessage evolve_same)
next
  case (ClearMessages u c sc t)
  show ?thesis
  proof (cases "db_messages (snd (clearMessages u c sc t d)) = db_messages d")
    case False
    then obtain mem where mem: "find_member d c u = Some mem"
      by (cases "find_member d c u") (auto simp: clearMessages_def assertMember_def)
    obtain conv where conv: "find_conv d c = Some conv"
      using False mem by (cases "find_conv d c") (auto simp: clearMessages_def assertMember_def)
    have ok: "c_type conv = DIRECT \<or> m_role mem \<noteq> MEMBER" "sc = Both"
      using False mem conv
      by (cases sc; auto simp: clearMessages_def assertMember_def snd_sbind_const split: if_splits)+
    have upd: "db_messages (snd (clearMessages u c sc t d)) =
        t_update (\<lambda>g. msg_conversationId g = c \<and> msg_deletedAt g = None) (\<lambda>g. g\<lparr>msg_deletedAt := Some t\<rparr>) (db_messages d)"
      using mem conv ok by (auto simp: clearMessages_def assertMember_def snd_sbind_const)
    have "is_admin d c u \<or> is_direct d c \<and> is_member d c u"
      using mem conv ok by (auto simp: is_admin_iff is_direct_def is_member_def)
    then show ?thesis using upd ClearMessages
      by (intro evolve_update[of _ "\<lambda>g. msg_conversationId g = c \<and> msg_deletedAt g = None" "\<lambda>g. g\<lparr>msg_deletedAt := Some t\<rparr>"])
        (auto simp: allowed_change_def)
  qed (simp add: ClearMessages evolve_same)
qed (auto simp: ops_keep_messages intro!: evolve_same)

theorem message_authority_witness:
  "messages_evolve chat_db (EditMessage 1 2 [121] 500) (conv_step demo_json chat_db (EditMessage 1 2 [121] 500))
   \<and> map msg_content (rows (db_messages (conv_step demo_json chat_db (EditMessage 1 2 [121] 500)))) = [[121], [111, 107]]"
proof -
  have "map msg_content (rows (db_messages (conv_step demo_json chat_db (EditMessage 1 2 [121] 500)))) = [[121], [111, 107]]"
    by (simp add: editMessage_def EDIT_WINDOW_MS_def trim_def js_space_def update_msg_def chat_defs)
  then show ?thesis using message_authority[OF chat_inv, of "EditMessage 1 2 [121] 500" demo_json] by blast
qed

end
