(* ===== verification/RateLimiter.thy ===== *)
theory RateLimiter
  imports Prelude
begin

text \<open>
  The sliding-window rate limiter of the WebSocket gateway,
  \<open>server/src/chat/ws-rate-limiter.ts\<close>.  The clock reading of each method is its argument
  \<open>now\<close>.  The lemmas show that no user gets more than \<open>limit\<close> events in any window of
  \<open>ttlMs\<close> milliseconds, that the periodic cleanup changes no decision, and that the waiting time
  the gateway tells a limited client is long enough.
\<close>

section \<open>State and operations\<close>

record limiter =
  lim_windows :: "(id, time list) jsmap"
  lim_limit :: nat
  lim_ttlMs :: int

definition new_limiter :: "nat \<Rightarrow> int \<Rightarrow> limiter" where
  "new_limiter limit ttlSeconds =
     \<lparr>lim_windows = [], lim_limit = limit, lim_ttlMs = ttlSeconds * 1000\<rparr>"

definition lim_hits :: "limiter \<Rightarrow> id \<Rightarrow> time list" where
  "lim_hits lim userId = (case mget (lim_windows lim) userId of None \<Rightarrow> [] | Some hits \<Rightarrow> hits)"

definition isAllowed :: "limiter \<Rightarrow> id \<Rightarrow> time \<Rightarrow> bool \<times> limiter" where
  "isAllowed lim userId now =
     (let hits = lim_hits lim userId;
          fresh = filter (\<lambda>t. now - t < lim_ttlMs lim) hits
      in if lim_limit lim \<le> length fresh
         then (False, lim\<lparr>lim_windows := mset_at userId fresh (lim_windows lim)\<rparr>)
         else (True, lim\<lparr>lim_windows := mset_at userId (fresh @ [now]) (lim_windows lim)\<rparr>))"

text \<open>\<open>Math.ceil(x / 1000)\<close> for an integer \<open>x\<close>.\<close>

definition ceil_sec :: "int \<Rightarrow> int" where
  "ceil_sec x = - ((- x) div 1000)"

definition retryAfter :: "limiter \<Rightarrow> id \<Rightarrow> time \<Rightarrow> int" where
  "retryAfter lim userId now =
     (let hits = lim_hits lim userId
      in if hits = [] then 0
         else (let oldest = Min (set hits) in ceil_sec (oldest + lim_ttlMs lim - now)))"

fun cleanup_windows :: "int \<Rightarrow> time \<Rightarrow> (id, time list) jsmap \<Rightarrow> (id, time list) jsmap" where
  "cleanup_windows ttl now [] = []"
| "cleanup_windows ttl now ((userId, hits) # m) =
     (let fresh = filter (\<lambda>t. now - t < ttl) hits
      in if length fresh = 0 then cleanup_windows ttl now m
         else (userId, fresh) # cleanup_windows ttl now m)"

definition cleanup :: "limiter \<Rightarrow> time \<Rightarrow> limiter" where
  "cleanup lim now = lim\<lparr>lim_windows := cleanup_windows (lim_ttlMs lim) now (lim_windows lim)\<rparr>"

section \<open>Runs of the limiter\<close>

text \<open>
  The calls the gateway makes: a guarded event of a user, or the five-minute cleanup.
  \<open>allowed_calls\<close> lists the events that were let through, in order.
\<close>

datatype rl_op = Hit id time | Cleanup time

fun rl_time :: "rl_op \<Rightarrow> time" where
  "rl_time (Hit u t) = t"
| "rl_time (Cleanup t) = t"

fun rl_step :: "limiter \<Rightarrow> rl_op \<Rightarrow> limiter" where
  "rl_step lim (Hit u t) = snd (isAllowed lim u t)"
| "rl_step lim (Cleanup t) = cleanup lim t"

fun allowed_calls :: "limiter \<Rightarrow> rl_op list \<Rightarrow> (id \<times> time) list" where
  "allowed_calls lim [] = []"
| "allowed_calls lim (Hit u t # ops) =
     (case isAllowed lim u t of (ok, lim') \<Rightarrow>
        if ok then (u, t) # allowed_calls lim' ops else allowed_calls lim' ops)"
| "allowed_calls lim (Cleanup t # ops) = allowed_calls (cleanup lim t) ops"

definition calls_in :: "id \<Rightarrow> time \<Rightarrow> int \<Rightarrow> (id \<times> time) list \<Rightarrow> nat" where
  "calls_in u a ttl cs = length (filter (\<lambda>(v, t). v = u \<and> a \<le> t \<and> t < a + ttl) cs)"

section \<open>Lemmas\<close>

lemma isAllowed_config [simp]:
  "lim_limit (snd (isAllowed lim u now)) = lim_limit lim"
  "lim_ttlMs (snd (isAllowed lim u now)) = lim_ttlMs lim"
  by (simp_all add: isAllowed_def Let_def)

lemma cleanup_config [simp]:
  "lim_limit (cleanup lim now) = lim_limit lim" "lim_ttlMs (cleanup lim now) = lim_ttlMs lim"
  by (simp_all add: cleanup_def)

lemma fst_isAllowed:
  "fst (isAllowed lim u now) \<longleftrightarrow>
     length (filter (\<lambda>t. now - t < lim_ttlMs lim) (lim_hits lim u)) < lim_limit lim"
  by (simp add: isAllowed_def Let_def not_le)

lemma hits_isAllowed:
  "lim_hits (snd (isAllowed lim u now)) v =
     (if v = u then filter (\<lambda>t. now - t < lim_ttlMs lim) (lim_hits lim u)
                    @ (if fst (isAllowed lim u now) then [now] else [])
      else lim_hits lim v)"
  by (auto simp: isAllowed_def Let_def lim_hits_def)

lemma mget_cleanup_windows:
  "distinct (map fst m) \<Longrightarrow> mget (cleanup_windows ttl now m) u =
     (case mget m u of None \<Rightarrow> None
      | Some h \<Rightarrow> if filter (\<lambda>t. now - t < ttl) h = [] then None
                  else Some (filter (\<lambda>t. now - t < ttl) h))"
proof (induction m)
  case (Cons p m)
  obtain v h where p: "p = (v, h)" by (cases p)
  have "u = v \<Longrightarrow> mget m u = None" using Cons.prems p by (auto simp: map_of_eq_None_iff)
  then show ?case using Cons p by (auto simp: Let_def)
qed simp

lemma keys_cleanup_windows: "set (map fst (cleanup_windows ttl now m)) \<subseteq> set (map fst m)"
  by (induction ttl now m rule: cleanup_windows.induct) (auto simp: Let_def)

lemma distinct_cleanup_windows:
  "distinct (map fst m) \<Longrightarrow> distinct (map fst (cleanup_windows ttl now m))"
proof (induction m)
  case (Cons p m)
  then show ?case using keys_cleanup_windows[of ttl now m] by (cases p) (auto simp: Let_def)
qed simp

definition lim_wf :: "limiter \<Rightarrow> bool" where
  "lim_wf lim \<longleftrightarrow> distinct (map fst (lim_windows lim)) \<and> (\<forall>u. length (lim_hits lim u) \<le> lim_limit lim)"

lemma lim_wf_new [simp]: "lim_wf (new_limiter limit ttl)"
  by (simp add: lim_wf_def new_limiter_def lim_hits_def)

lemma hits_cleanup:
  "lim_wf lim \<Longrightarrow> lim_hits (cleanup lim now) u = filter (\<lambda>t. now - t < lim_ttlMs lim) (lim_hits lim u)"
  by (simp add: lim_wf_def lim_hits_def cleanup_def mget_cleanup_windows split: option.split)

lemma lim_wf_isAllowed: "lim_wf lim \<Longrightarrow> lim_wf (snd (isAllowed lim u now))"
  unfolding lim_wf_def
proof (intro conjI allI; elim conjE)
  assume d: "distinct (map fst (lim_windows lim))" and l: "\<forall>u. length (lim_hits lim u) \<le> lim_limit lim"
  show "distinct (map fst (lim_windows (snd (isAllowed lim u now))))"
    using d by (simp add: isAllowed_def Let_def)
  fix v
  have "length (filter (\<lambda>t. now - t < lim_ttlMs lim) (lim_hits lim u)) \<le> lim_limit lim"
    using l by (meson le_trans length_filter_le)
  then show "length (lim_hits (snd (isAllowed lim u now)) v) \<le> lim_limit (snd (isAllowed lim u now))"
    using l fst_isAllowed[of lim u now] by (auto simp: hits_isAllowed)
qed

lemma lim_wf_cleanup: "lim_wf lim \<Longrightarrow> lim_wf (cleanup lim now)"
  using hits_cleanup[of lim now]
  by (auto simp: lim_wf_def cleanup_def distinct_cleanup_windows intro: le_trans[OF length_filter_le])

lemma lim_wf_step: "lim_wf lim \<Longrightarrow> lim_wf (rl_step lim e)"
  by (cases e) (auto intro: lim_wf_isAllowed lim_wf_cleanup)

interpretation rl: run_invariant rl_step "\<lambda>s e. True" lim_wf
  by unfold_locales (rule lim_wf_step)

lemma lim_wf_run: "lim_wf (run rl_step (new_limiter limit ttl) ops)"
  by (rule rl.run_inv) auto

lemma run_config [simp]:
  "lim_limit (run rl_step lim ops) = lim_limit lim" "lim_ttlMs (run rl_step lim ops) = lim_ttlMs lim"
proof (induction ops arbitrary: lim)
  case (Cons e ops)
  { case 1 show ?case using Cons(1)[of "rl_step lim e"] by (cases e) auto }
  { case 2 show ?case using Cons(2)[of "rl_step lim e"] by (cases e) auto }
qed auto

section \<open>The bound on every window\<close>

text \<open>
  \<open>tracks lim H now\<close>: for events from \<open>now\<close> on, the stored hits count as the full history \<open>H\<close>
  of allowed events would.
\<close>

definition user_times :: "id \<Rightarrow> (id \<times> time) list \<Rightarrow> time list" where
  "user_times u H = map snd (filter (\<lambda>c. fst c = u) H)"

definition tracks :: "limiter \<Rightarrow> (id \<times> time) list \<Rightarrow> time \<Rightarrow> bool" where
  "tracks lim H now \<longleftrightarrow> (\<forall>u. filter (\<lambda>t. now - t < lim_ttlMs lim) (lim_hits lim u) =
                                filter (\<lambda>t. now - t < lim_ttlMs lim) (user_times u H))
                       \<and> (\<forall>c\<in>set H. snd c \<le> now)"

definition within_limit :: "limiter \<Rightarrow> (id \<times> time) list \<Rightarrow> bool" where
  "within_limit lim H \<longleftrightarrow> (\<forall>u a. calls_in u a (lim_ttlMs lim) H \<le> lim_limit lim)"

lemma filter_fresh_later:
  "now \<le> (now' :: int) \<Longrightarrow>
     filter (\<lambda>t. now' - t < ttl) xs = filter (\<lambda>t. now' - t < ttl) (filter (\<lambda>t. now - t < ttl) xs)"
  by (induction xs) auto

lemma filter_fresh_eq_later:
  assumes "now \<le> (now' :: int)"
    and "filter (\<lambda>t. now - t < ttl) xs = filter (\<lambda>t. now - t < ttl) ys"
  shows "filter (\<lambda>t. now' - t < ttl) xs = filter (\<lambda>t. now' - t < ttl) ys"
  using filter_fresh_later[OF assms(1), of ttl xs] filter_fresh_later[OF assms(1), of ttl ys] assms(2)
  by simp

lemma tracks_later: "tracks lim H now \<Longrightarrow> now \<le> now' \<Longrightarrow> tracks lim H now'"
  unfolding tracks_def by (auto intro: filter_fresh_eq_later order_trans)

lemma calls_in_user_times:
  "calls_in u a ttl H = length (filter (\<lambda>t. a \<le> t \<and> t < a + ttl) (user_times u H))"
  unfolding calls_in_def user_times_def by (induction H) auto

lemma tracks_isAllowed:
  assumes "tracks lim H now"
  shows "tracks (snd (isAllowed lim u now))
           (if fst (isAllowed lim u now) then H @ [(u, now)] else H) now"
  using assms by (auto simp: tracks_def hits_isAllowed user_times_def)

lemma within_limit_isAllowed:
  assumes tr: "tracks lim H now" and wl: "within_limit lim H" and ok: "fst (isAllowed lim u now)"
  shows "within_limit lim (H @ [(u, now)])"
  unfolding within_limit_def
proof (intro allI)
  fix v a
  let ?ttl = "lim_ttlMs lim"
  have old: "calls_in v a ?ttl H \<le> lim_limit lim" using wl by (simp add: within_limit_def)
  have app: "calls_in v a ?ttl (H @ [(u, now)]) = calls_in v a ?ttl H +
    (if v = u \<and> a \<le> now \<and> now < a + ?ttl then 1 else 0)"
    by (auto simp: calls_in_def)
  show "calls_in v a ?ttl (H @ [(u, now)]) \<le> lim_limit lim"
  proof (cases "v = u \<and> a \<le> now \<and> now < a + ?ttl")
    case True
    have "filter (\<lambda>t. a \<le> t \<and> t < a + ?ttl) (user_times u H)
        = filter (\<lambda>t. a \<le> t \<and> t < a + ?ttl) (filter (\<lambda>t. now - t < ?ttl) (user_times u H))"
      using True by (auto intro: filter_cong)
    then have "calls_in u a ?ttl H \<le> length (filter (\<lambda>t. now - t < ?ttl) (user_times u H))"
      by (metis calls_in_user_times length_filter_le)
    also have "\<dots> = length (filter (\<lambda>t. now - t < ?ttl) (lim_hits lim u))"
      using tr by (simp add: tracks_def)
    also have "\<dots> < lim_limit lim" using ok by (simp add: fst_isAllowed)
    finally show ?thesis using True app by simp
  next
    case False
    then have "calls_in v a ?ttl (H @ [(u, now)]) = calls_in v a ?ttl H" unfolding app by simp
    then show ?thesis using old by simp
  qed
qed

lemma tracks_cleanup:
  assumes "lim_wf lim" and "tracks lim H now" shows "tracks (cleanup lim now) H now"
  using assms by (auto simp: tracks_def hits_cleanup)

lemma within_limit_cong:
  "lim_limit lim' = lim_limit lim \<Longrightarrow> lim_ttlMs lim' = lim_ttlMs lim \<Longrightarrow>
     within_limit lim' H = within_limit lim H"
  by (simp add: within_limit_def)

lemma allowed_calls_within_limit:
  assumes "lim_wf lim" and "tracks lim H now" and "within_limit lim H"
    and "sorted (map rl_time ops)" and "\<forall>e\<in>set ops. now \<le> rl_time e"
  shows "within_limit lim (H @ allowed_calls lim ops)"
  using assms
proof (induction ops arbitrary: lim H now)
  case (Cons e ops)
  define lim' where "lim' = rl_step lim e"
  define H' where "H' = (case e of Hit u t \<Rightarrow> if fst (isAllowed lim u t) then H @ [(u, t)] else H | _ \<Rightarrow> H)"
  have tr: "tracks lim H (rl_time e)" using Cons.prems tracks_later by auto
  have wf: "lim_wf lim'" unfolding lim'_def using Cons.prems(1) by (rule lim_wf_step)
  have cfg: "lim_limit lim' = lim_limit lim" "lim_ttlMs lim' = lim_ttlMs lim"
    unfolding lim'_def by (cases e; simp)+
  have tr': "tracks lim' H' (rl_time e)"
  proof (cases e)
    case (Hit u t)
    then show ?thesis using tracks_isAllowed[of lim H t u] tr by (simp add: lim'_def H'_def)
  next
    case (Cleanup t)
    then show ?thesis using tracks_cleanup[OF Cons.prems(1) tr] by (simp add: lim'_def H'_def)
  qed
  have "within_limit lim H'"
    unfolding H'_def using tr within_limit_isAllowed Cons.prems(3) by (auto split: rl_op.split)
  then have wl': "within_limit lim' H'" using cfg within_limit_cong by blast
  have step: "H @ allowed_calls lim (e # ops) = H' @ allowed_calls lim' ops"
    unfolding H'_def lim'_def by (cases e) (auto split: prod.split)
  have "within_limit lim' (H' @ allowed_calls lim' ops)"
    using Cons.IH[OF wf tr' wl'] Cons.prems(4,5) by auto
  then show ?case unfolding step using cfg within_limit_cong by blast
qed auto

text \<open>C24. Over any run of the limiter with a clock that does not go back, no window of \<open>ttlMs\<close>
  milliseconds holds more than \<open>limit\<close> allowed events of one user, cleanups included.\<close>

theorem rate_limit_window:
  assumes "sorted (map rl_time ops)"
  shows "calls_in u a (ttlSeconds * 1000) (allowed_calls (new_limiter limit ttlSeconds) ops) \<le> limit"
proof -
  let ?lim = "new_limiter limit ttlSeconds"
  define now where "now = (if ops = [] then 0 else rl_time (hd ops))"
  have "tracks ?lim [] now" "within_limit ?lim []"
    by (auto simp: tracks_def within_limit_def calls_in_def lim_hits_def new_limiter_def user_times_def)
  moreover have "\<forall>e\<in>set ops. now \<le> rl_time e"
    using assms unfolding now_def by (cases ops) auto
  ultimately have "within_limit ?lim ([] @ allowed_calls ?lim ops)"
    using allowed_calls_within_limit lim_wf_new assms by blast
  then show ?thesis by (auto simp: within_limit_def new_limiter_def)
qed

theorem rate_limit_window_witness:
  "calls_in 7 0 (60 * 1000) (allowed_calls (new_limiter 2 60) [Hit 7 0, Hit 7 5, Cleanup 6, Hit 7 10]) \<le> 2"
  by (rule rate_limit_window) simp

definition is_hit :: "rl_op \<Rightarrow> bool" where
  "is_hit e = (case e of Hit u t \<Rightarrow> True | Cleanup t \<Rightarrow> False)"

definition same_fresh :: "time \<Rightarrow> limiter \<Rightarrow> limiter \<Rightarrow> bool" where
  "same_fresh now l l' \<longleftrightarrow> lim_limit l' = lim_limit l \<and> lim_ttlMs l' = lim_ttlMs l \<and>
     (\<forall>u. filter (\<lambda>t. now - t < lim_ttlMs l) (lim_hits l u) = filter (\<lambda>t. now - t < lim_ttlMs l) (lim_hits l' u))"

lemma same_fresh_later: "same_fresh now l l' \<Longrightarrow> now \<le> now' \<Longrightarrow> same_fresh now' l l'"
  unfolding same_fresh_def by (auto intro: filter_fresh_eq_later)

lemma same_fresh_isAllowed:
  assumes "same_fresh now l l'"
  shows "fst (isAllowed l u now) = fst (isAllowed l' u now)"
    and "same_fresh now (snd (isAllowed l u now)) (snd (isAllowed l' u now))"
proof -
  show 1: "fst (isAllowed l u now) = fst (isAllowed l' u now)"
    using assms by (simp add: fst_isAllowed same_fresh_def)
  show "same_fresh now (snd (isAllowed l u now)) (snd (isAllowed l' u now))"
    using assms 1 by (auto simp: same_fresh_def hits_isAllowed)
qed

lemma same_fresh_cleanup: "lim_wf l \<Longrightarrow> same_fresh now l l' \<Longrightarrow> same_fresh now (cleanup l now) l'"
  by (auto simp: same_fresh_def hits_cleanup)

lemma allowed_calls_same_fresh:
  assumes "lim_wf l" "same_fresh now l l'" "sorted (map rl_time ops)" "\<forall>e\<in>set ops. now \<le> rl_time e"
  shows "allowed_calls l ops = allowed_calls l' (filter is_hit ops)"
  using assms
proof (induction ops arbitrary: l l' now)
  case (Cons e ops)
  have sf: "same_fresh (rl_time e) l l'" using Cons.prems same_fresh_later by auto
  have rest: "sorted (map rl_time ops)" "\<forall>e'\<in>set ops. rl_time e \<le> rl_time e'"
    using Cons.prems(3) by auto
  show ?case
  proof (cases e)
    case (Hit u t)
    then show ?thesis
      using Cons.IH[OF lim_wf_isAllowed[OF Cons.prems(1)] same_fresh_isAllowed(2)[OF sf] rest] sf
      by (auto simp: is_hit_def same_fresh_isAllowed split: prod.split)
         (metis Hit fst_conv rl_time.simps(1) same_fresh_isAllowed(1) snd_conv)+
  next
    case (Cleanup t)
    then show ?thesis
      using Cons.IH[OF lim_wf_cleanup[OF Cons.prems(1)] same_fresh_cleanup[OF Cons.prems(1) sf] rest]
      by (simp add: is_hit_def)
  qed
qed auto

text \<open>The periodic cleanup is invisible: dropping every cleanup from a run with a clock that
  does not go back leaves the same events allowed.\<close>

theorem cleanup_invisible:
  assumes "sorted (map rl_time ops)"
  shows "allowed_calls (new_limiter limit ttl) ops = allowed_calls (new_limiter limit ttl) (filter is_hit ops)"
proof (cases ops)
  case (Cons e es)
  have "same_fresh (rl_time e) (new_limiter limit ttl) (new_limiter limit ttl)"
    by (simp add: same_fresh_def)
  moreover have "\<forall>e'\<in>set ops. rl_time e \<le> rl_time e'" using assms Cons by auto
  ultimately show ?thesis using allowed_calls_same_fresh lim_wf_new assms by blast
qed simp

theorem cleanup_invisible_witness:
  "allowed_calls (new_limiter 1 60) [Hit 3 0, Cleanup 61000, Hit 3 61000] =
   allowed_calls (new_limiter 1 60) (filter is_hit [Hit 3 0, Cleanup 61000, Hit 3 61000])"
  by (rule cleanup_invisible) simp

section \<open>The waiting time\<close>

lemma ceil_sec_ge: "x \<le> 1000 * ceil_sec x"
proof -
  have "(- x) div 1000 * 1000 + (- x) mod 1000 = - x" by (rule div_mult_mod_eq)
  moreover have "0 \<le> (- x) mod 1000" by simp
  ultimately show ?thesis unfolding ceil_sec_def by linarith
qed

text \<open>A limited client that waits for the announced number of seconds is let through: after a
  refusal at \<open>now\<close>, in any state the limiter can reach, the user's next event at
  \<open>now + 1000 * retryAfter\<close> or later is allowed.\<close>

theorem retryAfter_sufficient:
  assumes "lim = run rl_step (new_limiter limit ttl) ops" and "0 < limit"
    and "isAllowed lim u now = (False, lim')"
    and "now + 1000 * retryAfter lim' u now \<le> now'"
  shows "fst (isAllowed lim' u now')"
proof -
  let ?ttl = "lim_ttlMs lim" and ?h = "lim_hits lim' u"
  have wf: "lim_wf lim" using assms(1) lim_wf_run by simp
  have lim': "lim' = snd (isAllowed lim u now)" and den: "\<not> fst (isAllowed lim u now)"
    using assms(3) by auto
  have cfg: "lim_limit lim' = limit" "lim_ttlMs lim' = ?ttl" "lim_limit lim = limit"
    using assms(1) lim' by (simp_all add: new_limiter_def)
  have h: "?h = filter (\<lambda>t. now - t < ?ttl) (lim_hits lim u)"
    using lim' den by (simp add: hits_isAllowed)
  have len: "limit \<le> length ?h" using den h cfg by (simp add: fst_isAllowed)
  then have ne: "?h \<noteq> []" using assms(2) by auto
  define old where "old = Min (set ?h)"
  have old: "old \<in> set ?h" unfolding old_def using ne by (intro Min_in) auto
  have "retryAfter lim' u now = ceil_sec (old + ?ttl - now)"
    using ne cfg by (simp add: retryAfter_def old_def)
  then have "old + ?ttl \<le> now'" using assms(4) ceil_sec_ge[of "old + ?ttl - now"] by simp
  then have "length (filter (\<lambda>t. now' - t < ?ttl) ?h) < length ?h"
    using old by (intro length_filter_less[of old]) auto
  moreover have "length ?h \<le> limit"
    using lim_wf_isAllowed[OF wf, of u now] cfg lim' by (simp add: lim_wf_def)
  ultimately show ?thesis by (simp add: fst_isAllowed cfg)
qed

theorem retryAfter_sufficient_witness:
  "\<exists>lim'. isAllowed (run rl_step (new_limiter 1 60) [Hit 4 0]) 4 500 = (False, lim')
        \<and> fst (isAllowed lim' 4 60500)"
proof -
  let ?lim = "run rl_step (new_limiter 1 60) [Hit 4 0]"
  have d: "isAllowed ?lim 4 500 = (False, ?lim)" "500 + 1000 * retryAfter ?lim 4 500 \<le> 60500"
    by (simp_all add: isAllowed_def lim_hits_def new_limiter_def retryAfter_def ceil_sec_def
        mset_at_def)
  have "fst (isAllowed ?lim 4 60500)"
    by (rule retryAfter_sufficient[where limit = 1 and ttl = 60, OF refl _ d(1) d(2)]) simp
  then show ?thesis using d(1) by blast
qed

end
