(* ===== verification/SyncSession.thy ===== *)
theory SyncSession
  imports Prelude
begin

text \<open>
  The device-sync session store, \<open>server/src/chat/sync-session.service.ts\<close>.

  The service keeps a map from session ids to sessions and a map from socket ids to session ids,
  either in two JavaScript maps or, when \<open>REDIS_URL\<close> is configured, in Redis.  The Redis client and
  \<open>JSON.stringify\<close>/\<open>JSON.parse\<close> are parameters (\<open>redis_api\<close>); every method has both branches of
  the code.  The locale \<open>sync_store\<close> is the contract that the gateway relies on, the in-memory
  branch is an instance of it, and \<open>redis_view_step\<close> shows that the Redis branch does the same to
  what its methods read, given the documented behaviour of \<open>GET\<close>, \<open>SET\<close>, \<open>DEL\<close> and \<open>EXISTS\<close>
  within the time to live.
\<close>

record sync_session =
  ss_userId :: id
  ss_sourceSocketId :: jsstr
  ss_targetSocketId :: "jsstr option"
  ss_expiresAt :: time
  ss_ekSource :: "jsstr option"
  ss_sdpOffer :: "jsstr option"

definition TTL_S :: nat where "TTL_S = 5 * 60"

definition KEY :: "jsstr \<Rightarrow> jsstr" where "KEY i = js ''dsync:'' @ i"

definition SKT_KEY :: "jsstr \<Rightarrow> jsstr" where "SKT_KEY skt = js ''dsync_skt:'' @ skt"

text \<open>The Redis client on a server state \<open>'r\<close>, and the JSON codec for sessions.\<close>

record 'r redis_api =
  rd_exists :: "'r \<Rightarrow> time \<Rightarrow> jsstr \<Rightarrow> bool"
  rd_get :: "'r \<Rightarrow> time \<Rightarrow> jsstr \<Rightarrow> jsstr option"
  rd_set :: "'r \<Rightarrow> time \<Rightarrow> jsstr \<Rightarrow> jsstr \<Rightarrow> nat \<Rightarrow> 'r"
  rd_del :: "'r \<Rightarrow> jsstr list \<Rightarrow> 'r"
  json_enc :: "sync_session \<Rightarrow> jsstr"
  json_dec :: "jsstr \<Rightarrow> sync_session"

record 'r sync_svc =
  sy_redis :: "'r option"
  sy_mem :: "(jsstr, sync_session) jsmap"
  sy_sktMem :: "(jsstr, jsstr) jsmap"

section \<open>Operations\<close>

definition sync_has :: "'r redis_api \<Rightarrow> time \<Rightarrow> 'r sync_svc \<Rightarrow> jsstr \<Rightarrow> bool" where
  "sync_has api now sv i =
     (case sy_redis sv of Some r \<Rightarrow> rd_exists api r now (KEY i) | None \<Rightarrow> mhas (sy_mem sv) i)"

definition sync_get :: "'r redis_api \<Rightarrow> time \<Rightarrow> 'r sync_svc \<Rightarrow> jsstr \<Rightarrow> sync_session option" where
  "sync_get api now sv i =
     (case sy_redis sv of
        Some r \<Rightarrow> (case rd_get api r now (KEY i) of
                     Some raw \<Rightarrow> if raw \<noteq> [] then Some (json_dec api raw) else None
                   | None \<Rightarrow> None)
      | None \<Rightarrow> mget (sy_mem sv) i)"

definition sync_set :: "'r redis_api \<Rightarrow> time \<Rightarrow> jsstr \<Rightarrow> sync_session \<Rightarrow> 'r sync_svc \<Rightarrow> 'r sync_svc" where
  "sync_set api now i s sv =
     (case sy_redis sv of
        Some r \<Rightarrow> sv\<lparr>sy_redis := Some (rd_set api r now (KEY i) (json_enc api s) TTL_S)\<rparr>
      | None \<Rightarrow> sv\<lparr>sy_mem := mset_at i s (sy_mem sv)\<rparr>)"

text \<open>The patch object of \<open>update\<close> is spread over the session: a function on sessions.\<close>

definition sync_update :: "'r redis_api \<Rightarrow> time \<Rightarrow> jsstr \<Rightarrow> (sync_session \<Rightarrow> sync_session) \<Rightarrow> 'r sync_svc
    \<Rightarrow> sync_session option \<times> 'r sync_svc" where
  "sync_update api now i patch sv =
     (case sync_get api now sv i of
        None \<Rightarrow> (None, sv)
      | Some s \<Rightarrow> (Some (patch s), sync_set api now i (patch s) sv))"

definition trackSocket :: "'r redis_api \<Rightarrow> time \<Rightarrow> jsstr \<Rightarrow> jsstr \<Rightarrow> 'r sync_svc \<Rightarrow> 'r sync_svc" where
  "trackSocket api now skt i sv =
     (case sy_redis sv of
        Some r \<Rightarrow> sv\<lparr>sy_redis := Some (rd_set api r now (SKT_KEY skt) i TTL_S)\<rparr>
      | None \<Rightarrow> sv\<lparr>sy_sktMem := mset_at skt i (sy_sktMem sv)\<rparr>)"

definition sync_socket :: "'r redis_api \<Rightarrow> time \<Rightarrow> 'r sync_svc \<Rightarrow> jsstr \<Rightarrow> jsstr option" where
  "sync_socket api now sv skt =
     (case sy_redis sv of Some r \<Rightarrow> rd_get api r now (SKT_KEY skt) | None \<Rightarrow> mget (sy_sktMem sv) skt)"

definition getSessionBySocket :: "'r redis_api \<Rightarrow> time \<Rightarrow> 'r sync_svc \<Rightarrow> jsstr \<Rightarrow> (jsstr \<times> sync_session) option" where
  "getSessionBySocket api now sv skt =
     (let i = sync_socket api now sv skt
      in if \<not> truthy i then None
         else map_option (\<lambda>s. (the i, s)) (sync_get api now sv (the i)))"

text \<open>The sockets whose tracking goes away with a session: the source, and the target if there is one.\<close>

definition session_sockets :: "sync_session \<Rightarrow> jsstr list" where
  "session_sockets s = ss_sourceSocketId s #
     (case ss_targetSocketId s of None \<Rightarrow> [] | Some t \<Rightarrow> if t = [] then [] else [t])"

definition deleteSession :: "'r redis_api \<Rightarrow> time \<Rightarrow> jsstr \<Rightarrow> 'r sync_svc \<Rightarrow> sync_session option \<times> 'r sync_svc" where
  "deleteSession api now i sv =
     (case sync_get api now sv i of
        None \<Rightarrow> (None, sv)
      | Some s \<Rightarrow>
          (Some s,
           (case sy_redis sv of
              Some r \<Rightarrow> sv\<lparr>sy_redis := Some (rd_del api r (KEY i # map SKT_KEY (session_sockets s)))\<rparr>
            | None \<Rightarrow> sv\<lparr>sy_mem := mdelete i (sy_mem sv),
                         sy_sktMem := fold mdelete (session_sockets s) (sy_sktMem sv)\<rparr>)))"

text \<open>One pass over the entries that the map had at the start: deleting the current entry does not disturb it.\<close>

definition purgeExpired :: "time \<Rightarrow> 'r sync_svc \<Rightarrow> 'r sync_svc" where
  "purgeExpired now sv =
     (if sy_redis sv \<noteq> None then sv
      else fold (\<lambda>(i, s) v.
             if ss_expiresAt s \<le> now
             then v\<lparr>sy_sktMem := fold mdelete (session_sockets s) (sy_sktMem v), sy_mem := mdelete i (sy_mem v)\<rparr>
             else v) (sy_mem sv) sv)"

section \<open>The contract\<close>

text \<open>
  What the store must never lose: a tracked socket belongs to the session it is tracked to, and that
  session exists; the two ends of a session are different sockets; once a target has joined, the
  source's key share and offer are gone.
\<close>

definition sync_ok :: "(jsstr \<Rightarrow> sync_session option) \<Rightarrow> (jsstr \<Rightarrow> jsstr option) \<Rightarrow> bool" where
  "sync_ok get sock \<longleftrightarrow>
     (\<forall>k i. sock k = Some i \<longrightarrow> (\<exists>s. get i = Some s \<and> k \<in> set (session_sockets s)))
   \<and> (\<forall>i s. get i = Some s \<longrightarrow> ss_sourceSocketId s \<noteq> []
        \<and> (\<forall>t. ss_targetSocketId s = Some t \<longrightarrow>
             t \<noteq> [] \<and> t \<noteq> ss_sourceSocketId s \<and> ss_ekSource s = None \<and> ss_sdpOffer s = None))"

definition join_patch :: "jsstr \<Rightarrow> sync_session \<Rightarrow> sync_session" where
  "join_patch k s = s\<lparr>ss_targetSocketId := Some k, ss_ekSource := None, ss_sdpOffer := None\<rparr>"

lemma session_sockets_join [simp]:
  "k \<noteq> [] \<Longrightarrow> set (session_sockets (join_patch k s)) = {ss_sourceSocketId s, k}"
  by (simp add: session_sockets_def join_patch_def insert_commute)

lemma sync_ok_sockD: "sync_ok get sock \<Longrightarrow> sock k = Some i \<Longrightarrow> \<exists>s. get i = Some s \<and> k \<in> set (session_sockets s)"
  by (simp add: sync_ok_def)

lemma sync_ok_getD: "sync_ok get sock \<Longrightarrow> get i = Some s \<Longrightarrow> ss_sourceSocketId s \<noteq> []
    \<and> (\<forall>t. ss_targetSocketId s = Some t \<longrightarrow>
         t \<noteq> [] \<and> t \<noteq> ss_sourceSocketId s \<and> ss_ekSource s = None \<and> ss_sdpOffer s = None)"
  by (simp add: sync_ok_def)

locale sync_store =
  fixes get :: "'s \<Rightarrow> jsstr \<Rightarrow> sync_session option"
    and sock :: "'s \<Rightarrow> jsstr \<Rightarrow> jsstr option"
    and put :: "jsstr \<Rightarrow> sync_session \<Rightarrow> 's \<Rightarrow> 's"
    and trk :: "jsstr \<Rightarrow> jsstr \<Rightarrow> 's \<Rightarrow> 's"
    and del :: "jsstr \<Rightarrow> 's \<Rightarrow> 's"
    and wf :: "'s \<Rightarrow> bool"
  assumes get_put: "wf a \<Longrightarrow> get (put i s a) j = (if j = i then Some s else get a j)"
    and sock_put: "wf a \<Longrightarrow> sock (put i s a) k = sock a k"
    and get_trk: "wf a \<Longrightarrow> get (trk k i a) j = get a j"
    and sock_trk: "wf a \<Longrightarrow> sock (trk k i a) l = (if l = k then Some i else sock a l)"
    and get_del: "wf a \<Longrightarrow> get (del i a) j = (if j = i then None else get a j)"
    and sock_del: "wf a \<Longrightarrow> sock (del i a) k =
          (case get a i of None \<Rightarrow> sock a k | Some s \<Rightarrow> if k \<in> set (session_sockets s) then None else sock a k)"
    and wf_put: "wf a \<Longrightarrow> wf (put i s a)"
    and wf_trk: "wf a \<Longrightarrow> wf (trk k i a)"
    and wf_del: "wf a \<Longrightarrow> wf (del i a)"
begin

lemma start_ok:
  assumes "wf a" "sync_ok (get a) (sock a)" "get a i = None" "ss_sourceSocketId s \<noteq> []" "ss_targetSocketId s = None"
  shows "sync_ok (get (trk (ss_sourceSocketId s) i (put i s a))) (sock (trk (ss_sourceSocketId s) i (put i s a)))"
proof -
  have "j \<noteq> i" if "sock a k = Some j" for j k
    using sync_ok_sockD[OF assms(2) that] assms(3) by auto
  then show ?thesis
    using assms unfolding sync_ok_def
    by (auto simp: get_trk sock_trk get_put sock_put wf_put session_sockets_def)
qed

lemma join_ok:
  assumes "wf a" "sync_ok (get a) (sock a)" "get a i = Some s" "ss_targetSocketId s = None"
    and "ss_sourceSocketId s \<noteq> k" "k \<noteq> []"
  shows "sync_ok (get (trk k i (put i (join_patch k s) a))) (sock (trk k i (put i (join_patch k s) a)))"
proof -
  have src: "ss_sourceSocketId s \<noteq> []" using assms(2,3) by (auto simp: sync_ok_def)
  have old: "set (session_sockets s) \<subseteq> set (session_sockets (join_patch k s))"
    using assms(4,6) by (simp add: session_sockets_def join_patch_def)
  have "\<exists>s'. get (trk k i (put i (join_patch k s) a)) j = Some s' \<and> l \<in> set (session_sockets s')"
    if "sock (trk k i (put i (join_patch k s) a)) l = Some j" for l j
  proof (cases "l = k")
    case True
    then show ?thesis using that assms by (simp add: get_trk sock_trk get_put sock_put wf_put)
  next
    case False
    then have "sock a l = Some j" using that assms(1) by (simp add: sock_trk sock_put wf_put)
    then obtain s' where "get a j = Some s'" "l \<in> set (session_sockets s')"
      using sync_ok_sockD[OF assms(2)] by blast
    then show ?thesis using assms(1,3) old by (auto simp: get_trk get_put wf_put)
  qed
  moreover have "ss_sourceSocketId s' \<noteq> [] \<and> (\<forall>t. ss_targetSocketId s' = Some t \<longrightarrow>
        t \<noteq> [] \<and> t \<noteq> ss_sourceSocketId s' \<and> ss_ekSource s' = None \<and> ss_sdpOffer s' = None)"
    if "get (trk k i (put i (join_patch k s) a)) j = Some s'" for j s'
  proof (cases "j = i")
    case True
    then have "s' = join_patch k s" using that assms(1) by (simp add: get_trk get_put wf_put)
    then show ?thesis using assms(5,6) src by (auto simp: join_patch_def)
  next
    case False
    then show ?thesis using that assms(1,2) by (auto simp: get_trk get_put wf_put sync_ok_def)
  qed
  ultimately show ?thesis by (auto simp: sync_ok_def)
qed

lemma del_ok:
  assumes "wf a" "sync_ok (get a) (sock a)"
  shows "sync_ok (get (del i a)) (sock (del i a))"
proof (cases "get a i")
  case None
  then have "get (del i a) = get a" "sock (del i a) = sock a" using assms(1) by (auto simp: get_del sock_del)
  then show ?thesis using assms(2) by simp
next
  case (Some s)
  have "j \<noteq> i" if "sock (del i a) k = Some j" for j k
    using sync_ok_sockD[OF assms(2), of k j] assms(1) that Some by (auto simp: sock_del split: if_splits)
  then show ?thesis using assms Some
    by (auto simp: sync_ok_def get_del sock_del split: if_splits)
qed

text \<open>After a session is deleted, neither of its ends is tracked.\<close>

lemma del_untracks:
  "wf a \<Longrightarrow> get a i = Some s \<Longrightarrow> k \<in> set (session_sockets s) \<Longrightarrow> sock (del i a) k = None"
  by (simp add: sock_del)

end

section \<open>The in-memory store keeps the contract\<close>

lemma mget_fold_mdelete [simp, js_simps]: "mget (fold mdelete ks m) k = (if k \<in> set ks then None else mget m k)"
  by (induction ks arbitrary: m) auto

lemma distinct_fold_mdelete [simp, js_simps]:
  "distinct (map fst m) \<Longrightarrow> distinct (map fst (fold mdelete ks m))"
  by (induction ks arbitrary: m) auto

definition mem_wf :: "'r sync_svc \<Rightarrow> bool" where
  "mem_wf sv \<longleftrightarrow> sy_redis sv = None \<and> distinct (map fst (sy_mem sv)) \<and> distinct (map fst (sy_sktMem sv))"

lemma mem_ops_simps:
  assumes "sy_redis sv = None"
  shows "sync_has api now sv i = mhas (sy_mem sv) i"
    and "sync_get api now sv i = mget (sy_mem sv) i"
    and "sync_set api now i s sv = sv\<lparr>sy_mem := mset_at i s (sy_mem sv)\<rparr>"
    and "trackSocket api now k i sv = sv\<lparr>sy_sktMem := mset_at k i (sy_sktMem sv)\<rparr>"
    and "sync_socket api now sv k = mget (sy_sktMem sv) k"
  using assms by (simp_all add: sync_has_def sync_get_def sync_set_def trackSocket_def sync_socket_def)

interpretation mem_store: sync_store
  "\<lambda>sv. sync_get api now sv" "\<lambda>sv. sync_socket api now sv" "sync_set api now" "trackSocket api now"
  "\<lambda>i sv. snd (deleteSession api now i sv)" mem_wf
  by unfold_locales
    (auto simp: mem_wf_def mem_ops_simps deleteSession_def split: option.splits)

text \<open>The 5-minute sweep drops exactly the expired sessions.\<close>

lemma purge_get:
  assumes "distinct (map fst xs)" "\<forall>(i, s)\<in>set xs. mget (sy_mem v) i = Some s"
  shows "mget (sy_mem (fold (\<lambda>(i, s) v.
             if ss_expiresAt s \<le> now
             then v\<lparr>sy_sktMem := fold mdelete (session_sockets s) (sy_sktMem v), sy_mem := mdelete i (sy_mem v)\<rparr>
             else v) xs v)) j =
         (case map_of xs j of Some s \<Rightarrow> if ss_expiresAt s \<le> now then None else Some s | None \<Rightarrow> mget (sy_mem v) j)"
  using assms
proof (induction xs arbitrary: v)
  case (Cons x xs)
  obtain i s where x: "x = (i, s)" by (cases x)
  let ?v = "if ss_expiresAt s \<le> now
      then v\<lparr>sy_sktMem := fold mdelete (session_sockets s) (sy_sktMem v), sy_mem := mdelete i (sy_mem v)\<rparr> else v"
  have "\<forall>(i', s')\<in>set xs. mget (sy_mem ?v) i' = Some s'"
    using Cons.prems x by (fastforce simp: image_iff)
  then have "mget (sy_mem (fold (\<lambda>(i, s) v.
             if ss_expiresAt s \<le> now
             then v\<lparr>sy_sktMem := fold mdelete (session_sockets s) (sy_sktMem v), sy_mem := mdelete i (sy_mem v)\<rparr>
             else v) xs ?v)) j =
         (case map_of xs j of Some s \<Rightarrow> if ss_expiresAt s \<le> now then None else Some s | None \<Rightarrow> mget (sy_mem ?v) j)"
    using Cons.prems(1) by (intro Cons.IH) auto
  moreover have "map_of xs i = None" using Cons.prems(1) x by (simp add: map_of_eq_None_iff)
  ultimately show ?case using Cons.prems(2) x by (auto split: option.splits)
qed simp

lemma purge_frame: "sy_redis (purgeExpired now sv) = sy_redis sv"
proof -
  have "sy_redis (fold (\<lambda>(i, s) v.
             if ss_expiresAt s \<le> now
             then v\<lparr>sy_sktMem := fold mdelete (session_sockets s) (sy_sktMem v), sy_mem := mdelete i (sy_mem v)\<rparr>
             else v) xs v) = sy_redis v" for xs and v :: "'a sync_svc"
    by (induction xs arbitrary: v) auto
  then show ?thesis by (simp add: purgeExpired_def)
qed

lemma purge_get_mem:
  assumes "mem_wf sv"
  shows "mget (sy_mem (purgeExpired now sv)) i =
    (case mget (sy_mem sv) i of Some s \<Rightarrow> if ss_expiresAt s \<le> now then None else Some s | None \<Rightarrow> None)"
  using assms purge_get[of "sy_mem sv" sv now i]
  by (auto simp: purgeExpired_def mem_wf_def split: option.splits)

lemma purge_as_deletes:
  assumes "sy_redis sv = None" "distinct (map fst xs)" "\<forall>(i, s)\<in>set xs. mget (sy_mem sv) i = Some s"
  shows "fold (\<lambda>(i, s) v.
             if ss_expiresAt s \<le> now
             then v\<lparr>sy_sktMem := fold mdelete (session_sockets s) (sy_sktMem v), sy_mem := mdelete i (sy_mem v)\<rparr>
             else v) xs sv =
         fold (\<lambda>(i, s) v. if ss_expiresAt s \<le> now then snd (deleteSession api now i v) else v) xs sv"
  using assms
proof (induction xs arbitrary: sv)
  case (Cons x xs)
  obtain i s where x: "x = (i, s)" by (cases x)
  let ?v = "if ss_expiresAt s \<le> now
      then sv\<lparr>sy_sktMem := fold mdelete (session_sockets s) (sy_sktMem sv), sy_mem := mdelete i (sy_mem sv)\<rparr> else sv"
  have v: "?v = (if ss_expiresAt s \<le> now then snd (deleteSession api now i sv) else sv)"
    using Cons.prems x by (simp add: deleteSession_def mem_ops_simps)
  have keep: "\<forall>(i', s')\<in>set xs. mget (sy_mem ?v) i' = Some s'"
    using Cons.prems x by (fastforce simp: image_iff)
  have "sy_redis ?v = None" using Cons.prems(1) by simp
  from Cons.IH[OF this _ keep] Cons.prems(2) v show ?case by (simp add: x)
qed simp

lemma purge_ok:
  fixes api :: "'r redis_api" and sv :: "'r sync_svc"
  assumes "mem_wf sv" "sync_ok (mget (sy_mem sv)) (mget (sy_sktMem sv))"
  shows "mem_wf (purgeExpired now sv) \<and>
    sync_ok (mget (sy_mem (purgeExpired now sv))) (mget (sy_sktMem (purgeExpired now sv)))"
proof -
  let ?del = "\<lambda>(i, s) v. if ss_expiresAt s \<le> now then snd (deleteSession api now i v) else v"
  have one: "mem_wf (?del x v) \<and> sync_ok (sync_get api now (?del x v)) (sync_socket api now (?del x v))"
    if "mem_wf v" "sync_ok (sync_get api now v) (sync_socket api now v)" for x and v :: "'r sync_svc"
    using that mem_store.del_ok[OF that] mem_store.wf_del[OF that(1)] by (simp split: prod.split)
  have step: "mem_wf (fold ?del xs v) \<and> sync_ok (sync_get api now (fold ?del xs v)) (sync_socket api now (fold ?del xs v))"
    if "mem_wf v" "sync_ok (sync_get api now v) (sync_socket api now v)" for xs and v :: "'r sync_svc"
    using that
  proof (induction xs arbitrary: v)
    case (Cons x xs)
    then show ?case using one[OF Cons.prems, of x] by (simp del: split_paired_All)
  qed simp
  have get: "sync_get api now v = mget (sy_mem v)" "sync_socket api now v = mget (sy_sktMem v)"
    if "mem_wf v" for v :: "'r sync_svc"
    using that by (auto simp: mem_wf_def mem_ops_simps fun_eq_iff)
  have "\<forall>(i, s)\<in>set (sy_mem sv). mget (sy_mem sv) i = Some s" using assms(1) by (auto simp: mem_wf_def)
  then have "purgeExpired now sv =
      fold (\<lambda>(i, s) v. if ss_expiresAt s \<le> now then snd (deleteSession api now i v) else v) (sy_mem sv) sv"
    using assms(1) purge_as_deletes[of sv "sy_mem sv" now api] by (simp add: purgeExpired_def mem_wf_def)
  then show ?thesis using step[of sv "sy_mem sv"] assms get by metis
qed

section \<open>The Redis store refines the same specification\<close>

text \<open>What the methods of the service read: the sessions and the tracked sockets.\<close>

type_synonym sync_reads = "(jsstr \<Rightarrow> sync_session option) \<times> (jsstr \<Rightarrow> jsstr option)"

definition sync_view :: "'r redis_api \<Rightarrow> time \<Rightarrow> 'r sync_svc \<Rightarrow> sync_reads" where
  "sync_view api now sv = (sync_get api now sv, sync_socket api now sv)"

datatype sync_op =
    SetSession jsstr sync_session
  | JoinSession jsstr jsstr
  | Track jsstr jsstr
  | DeleteSession jsstr

fun sync_apply :: "'r redis_api \<Rightarrow> time \<Rightarrow> sync_op \<Rightarrow> 'r sync_svc \<Rightarrow> 'r sync_svc" where
  "sync_apply api now (SetSession i s) sv = sync_set api now i s sv"
| "sync_apply api now (JoinSession i k) sv = snd (sync_update api now i (join_patch k) sv)"
| "sync_apply api now (Track k i) sv = trackSocket api now k i sv"
| "sync_apply api now (DeleteSession i) sv = snd (deleteSession api now i sv)"

fun view_apply :: "sync_op \<Rightarrow> sync_reads \<Rightarrow> sync_reads" where
  "view_apply (SetSession i s) (g, k) = (g(i \<mapsto> s), k)"
| "view_apply (JoinSession i t) (g, k) =
     (case g i of None \<Rightarrow> (g, k) | Some s \<Rightarrow> (g(i \<mapsto> join_patch t s), k))"
| "view_apply (Track t i) (g, k) = (g, k(t \<mapsto> i))"
| "view_apply (DeleteSession i) (g, k) =
     (case g i of None \<Rightarrow> (g, k)
      | Some s \<Rightarrow> (g(i := None), \<lambda>t. if t \<in> set (session_sockets s) then None else k t))"

text \<open>The documented behaviour of Redis at one instant, and of the JSON codec.\<close>

definition redis_laws :: "'r redis_api \<Rightarrow> time \<Rightarrow> bool" where
  "redis_laws api now \<longleftrightarrow>
     (\<forall>r k v ttl. rd_get api (rd_set api r now k v ttl) now = (rd_get api r now)(k \<mapsto> v))
   \<and> (\<forall>r ks. rd_get api (rd_del api r ks) now = (\<lambda>k. if k \<in> set ks then None else rd_get api r now k))
   \<and> (\<forall>s. json_enc api s \<noteq> [] \<and> json_dec api (json_enc api s) = s)"

lemma KEY_eq_iff [simp]: "KEY i = KEY j \<longleftrightarrow> i = j" "SKT_KEY i = SKT_KEY j \<longleftrightarrow> i = j"
  by (simp_all add: KEY_def SKT_KEY_def)

lemma KEY_SKT_KEY [simp]: "KEY i \<noteq> SKT_KEY j" "SKT_KEY j \<noteq> KEY i"
  by (simp_all add: KEY_def SKT_KEY_def js_def)

text \<open>C27. One contract, two stores: every write of the sync-session service changes what the service's
  readers see (sessions by id, session ids by socket) in the same way whether the store is the pair of
  in-memory maps or Redis, so in particular the two key spaces of Redis never collide.\<close>

theorem sync_store_refines:
  assumes "\<And>r. sy_redis sv = Some r \<Longrightarrow> redis_laws api now"
  shows "sync_view api now (sync_apply api now op sv) = view_apply op (sync_view api now sv)"
proof (cases "sy_redis sv")
  case None
  then show ?thesis
    by (cases op) (auto simp: sync_view_def mem_ops_simps sync_update_def deleteSession_def fun_eq_iff
      split: option.splits)
next
  case (Some r)
  then have laws: "redis_laws api now" using assms by blast
  have get: "sync_get api now (sv\<lparr>sy_redis := Some r'\<rparr>) = (\<lambda>i. case rd_get api r' now (KEY i) of
      Some raw \<Rightarrow> if raw \<noteq> [] then Some (json_dec api raw) else None | None \<Rightarrow> None)" for r'
    by (simp add: sync_get_def fun_eq_iff)
  have sock: "sync_socket api now (sv\<lparr>sy_redis := Some r'\<rparr>) = (\<lambda>k. rd_get api r' now (SKT_KEY k))" for r'
    by (simp add: sync_socket_def fun_eq_iff)
  have sv: "sv\<lparr>sy_redis := Some r\<rparr> = sv" using Some by simp
  show ?thesis
    using Some laws get[of r] sock[of r]
    by (cases op) (auto simp: sync_view_def redis_laws_def sync_update_def deleteSession_def sync_set_def
        trackSocket_def get sock sv fun_eq_iff image_iff split: option.splits)
qed


text \<open>A key-value store with the behaviour that \<open>redis_laws\<close> states and an injective codec: the
  hypothesis of the refinement can be met.\<close>

definition kv_enc :: "sync_session \<Rightarrow> jsstr" where
  "kv_enc s = enc_int (ss_userId s) @ enc_str (ss_sourceSocketId s) @ enc_opt (ss_targetSocketId s)
     @ enc_int (ss_expiresAt s) @ enc_opt (ss_ekSource s) @ enc_opt (ss_sdpOffer s) @ []"

definition kv_dec :: "jsstr \<Rightarrow> sync_session" where
  "kv_dec raw =
     (let (u, r) = dec_int raw; (src, r) = dec_str r; (tgt, r) = dec_opt r; (ex, r) = dec_int r;
          (ek, r) = dec_opt r; (sdp, r) = dec_opt r
      in \<lparr>ss_userId = u, ss_sourceSocketId = src, ss_targetSocketId = tgt, ss_expiresAt = ex,
          ss_ekSource = ek, ss_sdpOffer = sdp\<rparr>)"

definition kv_api :: "(jsstr \<Rightarrow> jsstr option) redis_api" where
  "kv_api = \<lparr>rd_exists = (\<lambda>r now k. r k \<noteq> None), rd_get = (\<lambda>r now k. r k),
     rd_set = (\<lambda>r now k v ttl. r(k \<mapsto> v)), rd_del = (\<lambda>r ks k. if k \<in> set ks then None else r k),
     json_enc = kv_enc, json_dec = kv_dec\<rparr>"

lemma kv_dec_enc: "kv_dec (kv_enc s) = s"
  unfolding kv_dec_def kv_enc_def by (simp del: append_Nil2)

lemma kv_laws: "redis_laws kv_api now"
proof -
  have "kv_enc s \<noteq> []" for s by (simp add: kv_enc_def enc_int_def)
  then show ?thesis by (simp add: redis_laws_def kv_api_def kv_dec_enc fun_eq_iff)
qed

definition demo_sync :: sync_session where
  "demo_sync = \<lparr>ss_userId = 7, ss_sourceSocketId = [1], ss_targetSocketId = None, ss_expiresAt = 300000,
     ss_ekSource = Some [4], ss_sdpOffer = Some [5]\<rparr>"

theorem sync_store_refines_witness:
  "fst (sync_view kv_api 0 (sync_apply kv_api 0 (JoinSession [97] [2])
      (sync_apply kv_api 0 (SetSession [97] demo_sync) \<lparr>sy_redis = Some Map.empty, sy_mem = [], sy_sktMem = []\<rparr>))) [97]
   = Some (join_patch [2] demo_sync)"
  using sync_store_refines[of "sync_apply kv_api 0 (SetSession [97] demo_sync)
      \<lparr>sy_redis = Some Map.empty, sy_mem = [], sy_sktMem = []\<rparr>" kv_api 0 "JoinSession [97] [2]"]
    sync_store_refines[of "\<lparr>sy_redis = Some Map.empty, sy_mem = [], sy_sktMem = []\<rparr>" kv_api 0
      "SetSession [97] demo_sync"] kv_laws[of 0]
  by (simp add: sync_view_def split: prod.splits)

end
