(* ===== verification/Friends.thy ===== *)
theory Friends
  imports MessageView Demo
begin

text \<open>
  Friend requests, \<open>server/src/friends/friends.service.ts\<close>.  The concrete operations work on the
  friendship table; what they promise is stated on an abstract state per pair of users
  (\<open>pair_state\<close>) with a step relation (\<open>pair_step\<close>), and the refinement theorem says that every
  operation moves every pair by such a step or not at all.

  The responses \<open>action\<close> of \<open>respond\<close> are validated by the REST controller only, so the operation
  takes any status.
\<close>

section \<open>Operations\<close>

record friend_view =
  fr_row :: friendship
  fr_sender :: "member_user option"
  fr_receiver :: "member_user option"

definition friend_view :: "db \<Rightarrow> friendship \<Rightarrow> friend_view" where
  "friend_view d f = \<lparr>fr_row = f, fr_sender = select_member_user d (f_senderId f),
     fr_receiver = select_member_user d (f_receiverId f)\<rparr>"

definition find_friendship :: "db \<Rightarrow> id \<Rightarrow> friendship option" where
  "find_friendship d i = t_find (\<lambda>f. f_id f = i) (db_friendships d)"

definition between :: "id \<Rightarrow> id \<Rightarrow> friendship \<Rightarrow> bool" where
  "between a b f \<longleftrightarrow> f_senderId f = a \<and> f_receiverId f = b \<or> f_senderId f = b \<and> f_receiverId f = a"

definition delete_friendship :: "id \<Rightarrow> db \<Rightarrow> db" where
  "delete_friendship i d = d\<lparr>db_friendships := t_delete (\<lambda>f. f_id f = i) (db_friendships d)\<rparr>"

definition create_friendship :: "id \<Rightarrow> id \<Rightarrow> time \<Rightarrow> db \<Rightarrow> friendship result \<times> db" where
  "create_friendship s r now d =
     (if find_user d s = None \<or> find_user d r = None then (Inl (PrismaError ''P2003''), d)
      else if t_find (\<lambda>f. f_senderId f = s \<and> f_receiverId f = r) (db_friendships d) \<noteq> None
           then (Inl (PrismaError ''P2002''), d)
      else let mk = (\<lambda>i. \<lparr>f_id = i, f_senderId = s, f_receiverId = r, f_status = PENDING, f_createdAt = now\<rparr>)
           in (Inr (mk (nxt (db_friendships d))), d\<lparr>db_friendships := t_insert mk (db_friendships d)\<rparr>))"

definition sendRequest :: "id \<Rightarrow> id \<Rightarrow> time \<Rightarrow> db \<Rightarrow> friend_view result \<times> db" where
  "sendRequest s r now d =
     (if s = r then (Inl (BadRequest ''Cannot send request to yourself''), d)
      else if find_user d r = None then (Inl (NotFound ''User not found''), d)
      else check (case t_find (between s r) (db_friendships d) of
                    None \<Rightarrow> Inr None
                  | Some f \<Rightarrow> (case f_status f of
                        ACCEPTED \<Rightarrow> Inl (Conflict ''Already friends'')
                      | PENDING \<Rightarrow> Inl (Conflict ''Request already pending'')
                      | BLOCKED \<Rightarrow> Inl (Forbidden ''Cannot send request'')
                      | DECLINED \<Rightarrow> Inr (Some f)))
             (\<lambda>old d.
               sbind (create_friendship s r now
                        (case old of None \<Rightarrow> d | Some f \<Rightarrow> delete_friendship (f_id f) d))
                 (\<lambda>f d. (Inr (friend_view d f), d))) d)"

definition respond :: "id \<Rightarrow> id \<Rightarrow> friendship_status \<Rightarrow> db \<Rightarrow> friend_view result \<times> db" where
  "respond uid fid action d =
     (case find_friendship d fid of
        None \<Rightarrow> (Inl (NotFound ''Request not found''), d)
      | Some f \<Rightarrow>
          if f_receiverId f \<noteq> uid then (Inl (Forbidden ''Not your request''), d)
          else if f_status f \<noteq> PENDING then (Inl (BadRequest ''Already responded''), d)
          else let d' = d\<lparr>db_friendships := t_update (\<lambda>x. f_id x = fid) (\<lambda>x. x\<lparr>f_status := action\<rparr>) (db_friendships d)\<rparr>
               in (Inr (friend_view d' (f\<lparr>f_status := action\<rparr>)), d'))"

definition cancelRequest :: "id \<Rightarrow> id \<Rightarrow> db \<Rightarrow> unit result \<times> db" where
  "cancelRequest uid fid d =
     (case find_friendship d fid of
        None \<Rightarrow> (Inl (NotFound ''Request not found''), d)
      | Some f \<Rightarrow>
          if f_senderId f \<noteq> uid then (Inl (Forbidden ''Not your request''), d)
          else if f_status f \<noteq> PENDING then (Inl (BadRequest ''Already responded''), d)
          else (Inr (), delete_friendship fid d))"

definition removeFriend :: "id \<Rightarrow> id \<Rightarrow> db \<Rightarrow> unit result \<times> db" where
  "removeFriend uid friendId d =
     (case t_find (\<lambda>f. f_status f = ACCEPTED \<and> between uid friendId f) (db_friendships d) of
        None \<Rightarrow> (Inl (NotFound ''Friendship not found''), d)
      | Some f \<Rightarrow> (Inr (), delete_friendship (f_id f) d))"

definition getMyFriends :: "id \<Rightarrow> db \<Rightarrow> (id \<times> member_user option) list" where
  "getMyFriends uid d = map (\<lambda>f. (f_id f,
       if f_senderId f = uid then select_member_user d (f_receiverId f) else select_member_user d (f_senderId f)))
     (t_all (\<lambda>f. f_status f = ACCEPTED \<and> (f_senderId f = uid \<or> f_receiverId f = uid)) (db_friendships d))"

definition getPendingRequests :: "id \<Rightarrow> db \<Rightarrow> (friendship \<times> member_user option) list" where
  "getPendingRequests uid d = map (\<lambda>f. (f, select_member_user d (f_senderId f)))
     (sort_key (\<lambda>f. - f_createdAt f) (t_all (\<lambda>f. f_receiverId f = uid \<and> f_status f = PENDING) (db_friendships d)))"

definition getSentRequests :: "id \<Rightarrow> db \<Rightarrow> (friendship \<times> member_user option) list" where
  "getSentRequests uid d = map (\<lambda>f. (f, select_member_user d (f_receiverId f)))
     (sort_key (\<lambda>f. - f_createdAt f) (t_all (\<lambda>f. f_senderId f = uid \<and> f_status f = PENDING) (db_friendships d)))"

record user_hit =
  uh_id :: id
  uh_nickname :: jsstr
  uh_avatarUrl :: "jsstr option"
  uh_isOnline :: bool
  uh_friendshipId :: "id option"
  uh_friendshipStatus :: "friendship_status option"
  uh_isRequester :: bool

text \<open>The database's case-insensitive \<open>contains\<close> is a parameter.\<close>

definition searchUsers :: "(jsstr \<Rightarrow> jsstr \<Rightarrow> bool) \<Rightarrow> id \<Rightarrow> jsstr \<Rightarrow> db \<Rightarrow> user_hit list" where
  "searchUsers icontains uid query d =
     (if length (trim query) < 2 then []
      else
        let q = trim query;
            users = take 20 (t_all (\<lambda>u. u_id u \<noteq> uid \<and> u_isEmailVerified u
                       \<and> (icontains (u_nickname u) q \<or> icontains (u_email u) q)) (db_users d));
            ids = map u_id users;
            fs = t_all (\<lambda>f. f_senderId f = uid \<and> f_receiverId f \<in> set ids
                          \<or> f_receiverId f = uid \<and> f_senderId f \<in> set ids) (db_friendships d)
        in map (\<lambda>u. let f = List.find (\<lambda>f. f_senderId f = u_id u \<or> f_receiverId f = u_id u) fs
             in \<lparr>uh_id = u_id u, uh_nickname = u_nickname u, uh_avatarUrl = u_avatarUrl u, uh_isOnline = u_isOnline u,
                 uh_friendshipId = map_option f_id f, uh_friendshipStatus = map_option f_status f,
                 uh_isRequester = (case f of None \<Rightarrow> False | Some f \<Rightarrow> f_senderId f = uid)\<rparr>) users)"

definition areFriends :: "id \<Rightarrow> id \<Rightarrow> db \<Rightarrow> bool" where
  "areFriends a b d \<longleftrightarrow> t_find (\<lambda>f. f_status f = ACCEPTED \<and> between a b f) (db_friendships d) \<noteq> None"

section \<open>The relation between two users\<close>

datatype pair_state = Strangers | Asked id | Friends | Refused id | Blocked id

text \<open>\<open>pair_step u s t\<close>: user \<open>u\<close>, one of the two, moves the pair from \<open>s\<close> to \<open>t\<close>.\<close>

inductive pair_step :: "id \<Rightarrow> pair_state \<Rightarrow> pair_state \<Rightarrow> bool" where
  ask: "pair_step u Strangers (Asked u)"
| ask_again: "pair_step u (Refused v) (Asked u)"
| accept: "u \<noteq> v \<Longrightarrow> pair_step u (Asked v) Friends"
| decline: "u \<noteq> v \<Longrightarrow> pair_step u (Asked v) (Refused v)"
| block: "u \<noteq> v \<Longrightarrow> pair_step u (Asked v) (Blocked v)"
| cancel: "pair_step u (Asked u) Strangers"
| unfriend: "pair_step u Friends Strangers"

code_pred pair_step .

inductive_cases to_FriendsE: "pair_step u s Friends"
inductive_cases from_BlockedE: "pair_step u (Blocked v) t"
inductive_simps pair_step_Friends: "pair_step u s Friends"
inductive_simps pair_step_Blocked: "pair_step u (Blocked v) t"

definition pair_abs :: "friendship \<Rightarrow> pair_state" where
  "pair_abs f = (case f_status f of PENDING \<Rightarrow> Asked (f_senderId f) | ACCEPTED \<Rightarrow> Friends
     | DECLINED \<Rightarrow> Refused (f_senderId f) | BLOCKED \<Rightarrow> Blocked (f_senderId f))"

definition relation_of :: "db \<Rightarrow> id \<Rightarrow> id \<Rightarrow> pair_state" where
  "relation_of d a b = (case t_find (between a b) (db_friendships d) of None \<Rightarrow> Strangers | Some f \<Rightarrow> pair_abs f)"

definition pair_key :: "friendship \<Rightarrow> id \<times> id" where
  "pair_key f = (min (f_senderId f) (f_receiverId f), max (f_senderId f) (f_receiverId f))"

definition friends_inv :: "db \<Rightarrow> bool" where
  "friends_inv d \<longleftrightarrow> tbl_wf f_id (db_friendships d) \<and> distinct (map pair_key (rows (db_friendships d)))
     \<and> (\<forall>f\<in>set (rows (db_friendships d)). f_senderId f \<noteq> f_receiverId f)"

datatype friend_op =
    SendRequest id id time
  | Respond id id friendship_status
  | CancelRequest id id
  | RemoveFriend id id

fun friend_actor :: "friend_op \<Rightarrow> id" where
  "friend_actor (SendRequest u r t) = u"
| "friend_actor (Respond u f a) = u"
| "friend_actor (CancelRequest u f) = u"
| "friend_actor (RemoveFriend u v) = u"

fun friend_exec :: "db \<Rightarrow> friend_op \<Rightarrow> db" where
  "friend_exec d (SendRequest u r t) = snd (sendRequest u r t d)"
| "friend_exec d (Respond u f a) = snd (respond u f a d)"
| "friend_exec d (CancelRequest u f) = snd (cancelRequest u f d)"
| "friend_exec d (RemoveFriend u v) = snd (removeFriend u v d)"

subsection \<open>The table and the abstract relation\<close>

definition same_pair :: "id \<Rightarrow> id \<Rightarrow> id \<Rightarrow> id \<Rightarrow> bool" where
  "same_pair a b u v \<longleftrightarrow> a = u \<and> b = v \<or> a = v \<and> b = u"

lemma between_key: "between a b f \<longleftrightarrow> pair_key f = (min a b, max a b)"
  by (auto simp: between_def pair_key_def min_def max_def)

lemma between_commute: "between a b f = between b a f"
  by (auto simp: between_def)

lemma relation_of_row:
  assumes "friends_inv d" "f \<in> set (rows (db_friendships d))" "between a b f"
  shows "relation_of d a b = pair_abs f"
proof -
  obtain f' where f': "t_find (between a b) (db_friendships d) = Some f'"
    using assms(2,3) t_find_None_iff[of "between a b"] by (cases "t_find (between a b) (db_friendships d)") auto
  then have "f' \<in> set (rows (db_friendships d))" "pair_key f' = pair_key f"
    using assms(3) by (auto dest!: t_find_SomeD simp: between_key)
  then have "f' = f" using assms(1,2) by (auto simp: friends_inv_def distinct_map inj_on_def)
  then show ?thesis using f' by (simp add: relation_of_def)
qed

lemma relation_of_none:
  "(\<And>f. f \<in> set (rows (db_friendships d)) \<Longrightarrow> \<not> between a b f) \<Longrightarrow> relation_of d a b = Strangers"
  using t_find_None_iff[of "between a b" "db_friendships d"] by (simp add: relation_of_def)

text \<open>Deleting a row makes its pair strangers and leaves every other pair alone.\<close>

lemma friends_inv_delete: "friends_inv d \<Longrightarrow> friends_inv (delete_friendship i d)"
  by (auto simp: friends_inv_def delete_friendship_def distinct_map_filter simp del: rows_t_delete)
    (auto simp: distinct_map_filter)

lemma relation_delete:
  assumes "friends_inv d" "f \<in> set (rows (db_friendships d))"
  shows "relation_of (delete_friendship (f_id f) d) a b = (if between a b f then Strangers else relation_of d a b)"
proof -
  let ?d = "delete_friendship (f_id f) d"
  have inv: "friends_inv ?d" using friends_inv_delete[OF assms(1)] .
  have rows: "set (rows (db_friendships ?d)) = set (rows (db_friendships d)) - {f}"
    using assms tbl_wf_key_eq[of f_id "db_friendships d" _ f] by (auto simp: delete_friendship_def friends_inv_def)
  show ?thesis
  proof (cases "\<exists>g\<in>set (rows (db_friendships ?d)). between a b g")
    case True
    then obtain g where g: "g \<in> set (rows (db_friendships ?d))" "between a b g" by blast
    then have "\<not> between a b f"
      using assms rows by (auto simp: friends_inv_def distinct_map inj_on_def between_key)
    then show ?thesis using g rows relation_of_row[OF inv g] relation_of_row[OF assms(1), of g a b] by auto
  next
    case False
    then have none: "relation_of ?d a b = Strangers" by (intro relation_of_none) blast
    show ?thesis
    proof (cases "between a b f")
      case nb: False
      then have "relation_of d a b = Strangers" using False rows by (intro relation_of_none) auto
      then show ?thesis using none nb by simp
    qed (use none in simp)
  qed
qed

text \<open>Inserting a request for a pair without a row.\<close>

lemma create_friendship_ok:
  assumes "friends_inv d" "s \<noteq> r" "\<And>f. f \<in> set (rows (db_friendships d)) \<Longrightarrow> \<not> between s r f"
    and "create_friendship s r now d = (x, d')"
  shows "friends_inv d' \<and> (d' = d \<or> (\<forall>a b. relation_of d' a b = (if same_pair a b s r then Asked s else relation_of d a b)))"
proof (cases x)
  case (Inl e)
  then show ?thesis using assms by (auto simp: create_friendship_def Let_def split: if_splits)
next
  case (Inr f)
  let ?f = "\<lparr>f_id = nxt (db_friendships d), f_senderId = s, f_receiverId = r, f_status = PENDING, f_createdAt = now\<rparr>"
  have d': "rows (db_friendships d') = rows (db_friendships d) @ [?f]" "nxt (db_friendships d') = nxt (db_friendships d) + 1"
    using Inr assms(4) by (auto simp: create_friendship_def Let_def split: if_splits)
  have "pair_key ?f \<notin> pair_key ` set (rows (db_friendships d))"
    using assms(3) by (force simp: between_key pair_key_def)
  then have inv: "friends_inv d'"
    using assms(1,2) d' by (auto simp: friends_inv_def tbl_wf_def)
  have bt: "between a b ?f \<longleftrightarrow> same_pair a b s r" for a b
    using assms(2) by (auto simp: between_def same_pair_def)
  have "relation_of d' a b = (if same_pair a b s r then Asked s else relation_of d a b)" for a b
  proof (cases "same_pair a b s r")
    case True
    then show ?thesis using relation_of_row[OF inv, of ?f a b] bt d' by (simp add: pair_abs_def)
  next
    case False
    then have "t_find (between a b) (db_friendships d') = t_find (between a b) (db_friendships d)"
      using bt[of a b] d'(1) by (simp add: t_find_def find_append split: option.split)
    then show ?thesis using False by (simp add: relation_of_def)
  qed
  then show ?thesis using inv by blast
qed

text \<open>
  A move of user \<open>u\<close>: every pair either stays as it is or, when \<open>u\<close> belongs to it, takes a step of \<open>u\<close>.
\<close>

definition moves :: "id \<Rightarrow> db \<Rightarrow> db \<Rightarrow> bool" where
  "moves u d d' \<longleftrightarrow> friends_inv d' \<and> (\<forall>a b. relation_of d' a b = relation_of d a b
     \<or> u \<in> {a, b} \<and> pair_step u (relation_of d a b) (relation_of d' a b))"

lemma moves_same [simp]: "friends_inv d \<Longrightarrow> moves u d d"
  by (simp add: moves_def)

lemma moves_pair:
  assumes "friends_inv d'"
    and "\<And>a b. relation_of d' a b = (if same_pair a b v w then t else relation_of d a b)"
    and "\<And>a b. same_pair a b v w \<Longrightarrow> pair_step u (relation_of d a b) t"
    and "u \<in> {v, w}"
  shows "moves u d d'"
  using assms by (auto simp: moves_def same_pair_def)

lemma between_same_pair: "between u v f \<Longrightarrow> between a b f \<longleftrightarrow> same_pair a b u v"
  by (auto simp: between_def same_pair_def)

lemma relation_of_pair:
  assumes "friends_inv d" "f \<in> set (rows (db_friendships d))" "between u v f" "same_pair a b u v"
  shows "relation_of d a b = pair_abs f"
  using relation_of_row[OF assms(1,2), of a b] between_same_pair[OF assms(3)] assms(4) by simp

lemma sendRequest_moves:
  assumes "friends_inv d" "find_user d u \<noteq> None"
  shows "moves u d (snd (sendRequest u r now d))"
proof (cases "u = r \<or> find_user d r = None")
  case True
  then show ?thesis using assms by (auto simp: sendRequest_def)
next
  case ne: False
  show ?thesis
  proof (cases "t_find (between u r) (db_friendships d)")
    case None
    then have free: "\<And>f. f \<in> set (rows (db_friendships d)) \<Longrightarrow> \<not> between u r f" by (auto simp: t_find_None_iff)
    obtain x d1 where c: "create_friendship u r now d = (x, d1)" by fastforce
    have s: "snd (sendRequest u r now d) = d1"
      using ne None c by (cases x) (auto simp: sendRequest_def)
    have st: "pair_step u (relation_of d a b) (Asked u)" if "same_pair a b u r" for a b
      using free that relation_of_none[of d a b]
      by (auto simp: same_pair_def between_def intro: pair_step.ask)
    consider "d1 = d" | "friends_inv d1" "\<And>a b. relation_of d1 a b = (if same_pair a b u r then Asked u else relation_of d a b)"
      using create_friendship_ok[OF assms(1) _ free c] ne by auto
    then have "moves u d d1"
    proof cases
      case 2
      then show ?thesis using st by (rule moves_pair[where v = u and w = r]) simp_all
    qed (use assms(1) in simp)
    then show ?thesis using s by simp
  next
    case (Some f)
    then have f: "f \<in> set (rows (db_friendships d))" "between u r f" by (auto dest: t_find_SomeD)
    show ?thesis
    proof (cases "f_status f = DECLINED")
      case False
      then show ?thesis using ne Some assms by (cases "f_status f") (auto simp: sendRequest_def)
    next
      case dec: True
      let ?d = "delete_friendship (f_id f) d"
      obtain x d1 where c: "create_friendship u r now ?d = (x, d1)" by fastforce
      have s: "snd (sendRequest u r now d) = d1"
        using ne Some dec c by (cases x) (auto simp: sendRequest_def)
      have inv: "friends_inv ?d" using friends_inv_delete[OF assms(1)] .
      have free: "\<not> between u r g" if "g \<in> set (rows (db_friendships ?d))" for g
        using that f assms(1) by (auto simp: delete_friendship_def friends_inv_def distinct_map inj_on_def between_key)
      have old: "relation_of d a b = Refused (f_senderId f)" if "same_pair a b u r" for a b
        using relation_of_pair[OF assms(1) f that] dec by (simp add: pair_abs_def)
      have del: "relation_of ?d a b = (if same_pair a b u r then Strangers else relation_of d a b)" for a b
        using relation_delete[OF assms(1) f(1), of a b] between_same_pair[OF f(2), of a b] by simp
      have "t_find (\<lambda>f. f_senderId f = u \<and> f_receiverId f = r) (db_friendships ?d) = None"
        using free by (auto simp: t_find_None_iff between_def)
      then have "length (rows (db_friendships d1)) = Suc (length (rows (db_friendships ?d)))"
        using c ne assms(2) by (auto simp: create_friendship_def Let_def find_user_def delete_friendship_def)
      then have "d1 \<noteq> ?d" by auto
      then have "friends_inv d1" "\<And>a b. relation_of d1 a b = (if same_pair a b u r then Asked u else relation_of d a b)"
        using create_friendship_ok[OF inv _ free c] ne del by auto
      then have "moves u d d1"
        by (rule moves_pair[where v = u and w = r]) (use old in \<open>simp_all add: pair_step.ask_again\<close>)
      then show ?thesis using s by simp
    qed
  qed
qed

text \<open>Changing the status of a row that stays in the table.\<close>

definition set_status :: "id \<Rightarrow> friendship_status \<Rightarrow> db \<Rightarrow> db" where
  "set_status i s d = d\<lparr>db_friendships := t_update (\<lambda>x. f_id x = i) (\<lambda>x. x\<lparr>f_status := s\<rparr>) (db_friendships d)\<rparr>"

lemma friends_inv_set_status:
  assumes "friends_inv d"
  shows "friends_inv (set_status i s d)"
proof -
  have "map pair_key (rows (db_friendships (set_status i s d))) = map pair_key (rows (db_friendships d))"
    by (auto simp: set_status_def pair_key_def)
  moreover have "tbl_wf f_id (db_friendships (set_status i s d))"
    using assms by (auto simp: friends_inv_def set_status_def)
  moreover have "\<forall>f\<in>set (rows (db_friendships (set_status i s d))). f_senderId f \<noteq> f_receiverId f"
    using assms by (auto simp: friends_inv_def set_status_def)
  ultimately show ?thesis using assms unfolding friends_inv_def by metis
qed

lemma relation_set_status:
  assumes inv: "friends_inv d" and f: "f \<in> set (rows (db_friendships d))" "between u v f"
  shows "relation_of (set_status (f_id f) s d) a b
    = (if same_pair a b u v then pair_abs (f\<lparr>f_status := s\<rparr>) else relation_of d a b)"
proof -
  let ?g = "\<lambda>x. if f_id x = f_id f then x\<lparr>f_status := s\<rparr> else x"
  let ?d = "set_status (f_id f) s d"
  have inv': "friends_inv ?d" using friends_inv_set_status[OF inv] .
  have rows: "rows (db_friendships ?d) = map ?g (rows (db_friendships d))" by (simp add: set_status_def)
  have b: "between a b (?g x) = between a b x" for a b x by (simp add: between_def)
  show ?thesis
  proof (cases "same_pair a b u v")
    case True
    have "?g f \<in> set (rows (db_friendships ?d))" "between u v (?g f)" using f rows by (auto simp: between_def)
    then show ?thesis using relation_of_pair[OF inv' _ _ True, of "?g f"] True by simp
  next
    case nb: False
    show ?thesis
    proof (cases "\<exists>x\<in>set (rows (db_friendships d)). between a b x")
      case True
      then obtain x where x: "x \<in> set (rows (db_friendships d))" "between a b x" by blast
      then have "x \<noteq> f" using nb between_same_pair[OF f(2)] by auto
      then have "?g x = x" using tbl_wf_key_eq[of f_id "db_friendships d" x f] x f inv by (auto simp: friends_inv_def)
      then have "x \<in> set (rows (db_friendships ?d))" using x rows by force
      then show ?thesis using nb relation_of_row[OF inv' _ x(2)] relation_of_row[OF inv x] by simp
    next
      case False
      then have "relation_of d a b = Strangers" by (intro relation_of_none) blast
      moreover have "relation_of ?d a b = Strangers" using False rows b by (intro relation_of_none) fastforce
      ultimately show ?thesis using nb by simp
    qed
  qed
qed

lemma respond_moves:
  assumes "friends_inv d" "action \<noteq> PENDING"
  shows "moves u d (snd (respond u i action d))"
proof (cases "fst (respond u i action d)")
  case (Inl e)
  then show ?thesis using assms by (auto simp: respond_def Let_def split: option.splits if_splits)
next
  case (Inr v)
  then obtain f where f: "find_friendship d i = Some f" "f_receiverId f = u" "f_status f = PENDING"
    by (auto simp: respond_def Let_def split: option.splits if_splits)
  then have row: "f \<in> set (rows (db_friendships d))" "f_id f = i"
    by (auto simp: find_friendship_def dest: t_find_SomeD)
  let ?s = "f_senderId f"
  have bt: "between ?s u f" using f(2) by (simp add: between_def)
  have ne: "u \<noteq> ?s" using assms(1) row(1) f(2) by (auto simp: friends_inv_def)
  have s: "snd (respond u i action d) = set_status (f_id f) action d"
    using f row(2) by (simp add: respond_def set_status_def Let_def)
  have "pair_step u (relation_of d a b) (pair_abs (f\<lparr>f_status := action\<rparr>))" if "same_pair a b ?s u" for a b
    using relation_of_pair[OF assms(1) row(1) bt that] f(3) ne assms(2)
    by (cases action) (auto simp: pair_abs_def intro: pair_step.intros)
  then have "moves u d (set_status (f_id f) action d)"
    using moves_pair[OF friends_inv_set_status[OF assms(1)] relation_set_status[OF assms(1) row(1) bt]] by simp
  then show ?thesis using s by simp
qed

lemma delete_moves:
  assumes "friends_inv d" "f \<in> set (rows (db_friendships d))" "between v w f" "u \<in> {v, w}"
    and "pair_step u (pair_abs f) Strangers"
  shows "moves u d (delete_friendship (f_id f) d)"
proof (rule moves_pair[OF friends_inv_delete[OF assms(1)] _ _ assms(4)])
  show "relation_of (delete_friendship (f_id f) d) a b = (if same_pair a b v w then Strangers else relation_of d a b)" for a b
    using relation_delete[OF assms(1,2), of a b] between_same_pair[OF assms(3)] by simp
  show "pair_step u (relation_of d a b) Strangers" if "same_pair a b v w" for a b
    using relation_of_pair[OF assms(1-3) that] assms(5) by simp
qed

lemma cancelRequest_moves:
  assumes "friends_inv d"
  shows "moves u d (snd (cancelRequest u i d))"
proof (cases "fst (cancelRequest u i d)")
  case (Inl e)
  then show ?thesis using assms by (auto simp: cancelRequest_def split: option.splits if_splits)
next
  case (Inr v)
  then obtain f where f: "find_friendship d i = Some f" "f_senderId f = u" "f_status f = PENDING"
    by (auto simp: cancelRequest_def split: option.splits if_splits)
  then have row: "f \<in> set (rows (db_friendships d))" "f_id f = i"
    by (auto simp: find_friendship_def dest: t_find_SomeD)
  have "pair_step u (pair_abs f) Strangers" using f by (simp add: pair_abs_def pair_step.cancel)
  then show ?thesis
    using delete_moves[OF assms row(1), of u "f_receiverId f" u] f row(2)
    by (simp add: cancelRequest_def between_def)
qed

lemma removeFriend_moves:
  assumes "friends_inv d"
  shows "moves u d (snd (removeFriend u v d))"
proof (cases "t_find (\<lambda>f. f_status f = ACCEPTED \<and> between u v f) (db_friendships d)")
  case None
  then show ?thesis using assms by (simp add: removeFriend_def)
next
  case (Some f)
  then have f: "f \<in> set (rows (db_friendships d))" "between u v f" "f_status f = ACCEPTED"
    by (auto dest: t_find_SomeD)
  then have "pair_step u (pair_abs f) Strangers" by (simp add: pair_abs_def pair_step.unfriend)
  then show ?thesis using delete_moves[OF assms f(1,2), of u] Some by (simp add: removeFriend_def)
qed

fun friend_ok :: "db \<Rightarrow> friend_op \<Rightarrow> bool" where
  "friend_ok d (SendRequest u r t) \<longleftrightarrow> find_user d u \<noteq> None"
| "friend_ok d (Respond u f a) \<longleftrightarrow> a \<noteq> PENDING"
| "friend_ok d (CancelRequest u f) \<longleftrightarrow> True"
| "friend_ok d (RemoveFriend u v) \<longleftrightarrow> True"

lemma friend_exec_moves: "friends_inv d \<Longrightarrow> friend_ok d op \<Longrightarrow> moves (friend_actor op) d (friend_exec d op)"
  by (cases op) (simp_all add: sendRequest_moves respond_moves cancelRequest_moves removeFriend_moves)

interpretation friends: run_invariant friend_exec friend_ok friends_inv
  by unfold_locales (use friend_exec_moves in \<open>auto simp: moves_def\<close>)

lemma areFriends_iff:
  assumes "friends_inv d"
  shows "areFriends a b d \<longleftrightarrow> relation_of d a b = Friends"
proof (cases "t_find (between a b) (db_friendships d)")
  case None
  then have "\<not> areFriends a b d" by (auto simp: areFriends_def t_find_None_iff)
  then show ?thesis using None by (simp add: relation_of_def)
next
  case (Some f)
  then have f: "f \<in> set (rows (db_friendships d))" "between a b f" by (auto dest: t_find_SomeD)
  have st: "pair_abs g = Friends \<longleftrightarrow> f_status g = ACCEPTED" for g
    by (simp add: pair_abs_def split: friendship_status.splits)
  have "areFriends a b d \<longleftrightarrow> (\<exists>g\<in>set (rows (db_friendships d)). f_status g = ACCEPTED \<and> between a b g)"
    by (simp add: areFriends_def t_find_None_iff)
  also have "\<dots> \<longleftrightarrow> relation_of d a b = Friends"
    using f st relation_of_row[OF assms] by metis
  finally show ?thesis .
qed

lemma relation_AskedD: "relation_of d a b = Asked v \<Longrightarrow> v \<in> {a, b}"
  by (auto simp: relation_of_def pair_abs_def between_def dest!: t_find_SomeD
      split: option.splits friendship_status.splits)

lemma relation_commute: "relation_of d a b = relation_of d b a"
proof -
  have "between a b = between b a" by (rule ext) (rule between_commute)
  then show ?thesis by (simp add: relation_of_def)
qed

lemma blocked_stays:
  assumes "friends_inv d" "run_ok friend_ok friend_exec d ops" "relation_of d a b = Blocked v"
  shows "relation_of (run friend_exec d ops) a b = Blocked v"
  using assms
proof (induction ops arbitrary: d)
  case (Cons op ops)
  then have "friends_inv (friend_exec d op)" "relation_of (friend_exec d op) a b = Blocked v"
    using friend_exec_moves[of d op] unfolding moves_def run_ok.simps by (metis from_BlockedE)+
  then show ?case using Cons by simp
qed simp

section \<open>HTTP handlers\<close>

text \<open>
  \<open>server/src/friends/friends.controller.ts\<close> with \<open>dto/friend.dto.ts\<close>: the body's ids must be positive and the
  action one of the two answers.  \<open>uid\<close> is the user of the JWT guard.
\<close>

definition valid_friend_request :: "id \<Rightarrow> bool" where
  "valid_friend_request receiverId \<longleftrightarrow> 0 < receiverId"

definition valid_friend_respond :: "id \<Rightarrow> friendship_status \<Rightarrow> bool" where
  "valid_friend_respond friendshipId action \<longleftrightarrow> 0 < friendshipId \<and> (action = ACCEPTED \<or> action = DECLINED)"

definition ctl_friend_request :: "id \<Rightarrow> id \<Rightarrow> time \<Rightarrow> db \<Rightarrow> friend_view result \<times> db" where
  "ctl_friend_request uid receiverId now d =
     check (ensure (valid_friend_request receiverId) (BadRequest ''Bad Request Exception'')) (\<lambda>_. sendRequest uid receiverId now) d"

definition ctl_friend_respond :: "id \<Rightarrow> id \<Rightarrow> friendship_status \<Rightarrow> db \<Rightarrow> friend_view result \<times> db" where
  "ctl_friend_respond uid friendshipId action d =
     check (ensure (valid_friend_respond friendshipId action) (BadRequest ''Bad Request Exception''))
       (\<lambda>_. respond uid friendshipId action) d"

definition ctl_friend_search :: "(jsstr \<Rightarrow> jsstr \<Rightarrow> bool) \<Rightarrow> id \<Rightarrow> jsstr option \<Rightarrow> db \<Rightarrow> user_hit list" where
  "ctl_friend_search icontains uid q d = searchUsers icontains uid (case q of None \<Rightarrow> [] | Some x \<Rightarrow> x) d"

section \<open>Properties\<close>

text \<open>C33. Every friend operation refines the abstract relation between two users: whatever operations ran
  before, one more operation moves each pair of users by a step of the acting user, who belongs to the pair, or
  leaves the pair as it was; there is at most one row per pair and none from a user to itself.\<close>

theorem friends_refine:
  assumes "friends_inv d" "run_ok friend_ok friend_exec d (ops @ [op])"
  shows "let d1 = run friend_exec d ops; d2 = friend_exec d1 op in friends_inv d1 \<and> friends_inv d2
    \<and> (\<forall>a b. relation_of d2 a b = relation_of d1 a b
         \<or> friend_actor op \<in> {a, b} \<and> pair_step (friend_actor op) (relation_of d1 a b) (relation_of d2 a b))"
  using friends.run_inv[OF assms(1), of ops] friend_exec_moves[of "run friend_exec d ops" op] assms(2)
  by (auto simp: Let_def moves_def)

lemma friends_inv_chat: "friends_inv chat_db"
  by (simp add: friends_inv_def chat_defs)

lemma chat_befriend:
  "run_ok friend_ok friend_exec chat_db ([SendRequest 1 2 5] @ [Respond 2 1 ACCEPTED])"
  "\<not> areFriends 1 2 (run friend_exec chat_db [SendRequest 1 2 5])"
  "areFriends 1 2 (run friend_exec chat_db ([SendRequest 1 2 5] @ [Respond 2 1 ACCEPTED]))"
  by (simp_all add: chat_defs sendRequest_def create_friendship_def Let_def areFriends_def between_def
      respond_def find_friendship_def t_empty_def t_insert_def t_update_def)

theorem friends_refine_witness:
  "friends_inv (run friend_exec chat_db ([SendRequest 1 2 5] @ [Respond 2 1 ACCEPTED]))"
  using friends_refine[OF friends_inv_chat chat_befriend(1)] by (simp add: Let_def)

text \<open>Nobody becomes a friend without having agreed: when an operation makes two users friends, it is a
  response of one of them to a pending request of the other; and a blocked pair stays blocked whatever
  operations follow.\<close>

theorem friend_consent:
  assumes "friends_inv d" "run_ok friend_ok friend_exec d (ops @ [op])"
  shows "(areFriends a b (run friend_exec d (ops @ [op])) \<longrightarrow> \<not> areFriends a b (run friend_exec d ops) \<longrightarrow>
        (\<exists>v. relation_of (run friend_exec d ops) a b = Asked v \<and> v \<noteq> friend_actor op \<and> {v, friend_actor op} = {a, b}))
    \<and> (relation_of d a b = Blocked w \<longrightarrow> relation_of (run friend_exec d ops) a b = Blocked w)"
proof -
  let ?d1 = "run friend_exec d ops" and ?u = "friend_actor op"
  have ok: "run_ok friend_ok friend_exec d ops" "friend_ok ?d1 op" using assms(2) by auto
  have inv1: "friends_inv ?d1" using friends.run_inv[OF assms(1) ok(1)] .
  have mv: "moves ?u ?d1 (friend_exec ?d1 op)" by (rule friend_exec_moves[OF inv1 ok(2)])
  then have inv2: "friends_inv (friend_exec ?d1 op)" by (simp add: moves_def)
  have "\<exists>v. relation_of ?d1 a b = Asked v \<and> v \<noteq> ?u \<and> {v, ?u} = {a, b}"
    if fr: "areFriends a b (friend_exec ?d1 op)" "\<not> areFriends a b ?d1"
  proof -
    have "pair_step ?u (relation_of ?d1 a b) Friends \<and> ?u \<in> {a, b}"
      using mv fr areFriends_iff[OF inv1] areFriends_iff[OF inv2] unfolding moves_def by metis
    then show ?thesis by (auto elim!: to_FriendsE dest: relation_AskedD)
  qed
  then show ?thesis using blocked_stays[OF assms(1) ok(1)] by simp
qed

theorem friend_consent_witness:
  "\<exists>v. relation_of (run friend_exec chat_db [SendRequest 1 2 5]) 1 2 = Asked v \<and> v \<noteq> 2 \<and> {v, 2} = {1, 2}"
  using friend_consent[OF friends_inv_chat chat_befriend(1), of 1 2 0] chat_befriend(2,3) by auto

text \<open>The lists show exactly the relation: a friend list holds the users whose pair with the caller is friends,
  the incoming requests those who asked the caller, the outgoing requests those whom the caller asked.\<close>

theorem friend_lists:
  assumes "friends_inv d" "find_user d v \<noteq> None" "u \<noteq> v"
  shows "((\<exists>i mu. (i, Some mu) \<in> set (getMyFriends u d) \<and> mu_id mu = v) \<longleftrightarrow> relation_of d u v = Friends)
    \<and> ((\<exists>f mu. (f, mu) \<in> set (getPendingRequests u d) \<and> f_senderId f = v) \<longleftrightarrow> relation_of d u v = Asked v)
    \<and> ((\<exists>f mu. (f, mu) \<in> set (getSentRequests u d) \<and> f_receiverId f = v) \<longleftrightarrow> relation_of d u v = Asked u)"
proof -
  let ?F = "set (rows (db_friendships d))"
  have row: "relation_of d u v = s \<longleftrightarrow> (\<exists>f\<in>?F. between u v f \<and> pair_abs f = s)" if "s \<noteq> Strangers" for s
  proof
    assume "relation_of d u v = s"
    then show "\<exists>f\<in>?F. between u v f \<and> pair_abs f = s"
      using that by (auto simp: relation_of_def dest!: t_find_SomeD split: option.splits)
  qed (use relation_of_row[OF assms(1)] in auto)
  have pa: "pair_abs f = Friends \<longleftrightarrow> f_status f = ACCEPTED"
    "pair_abs f = Asked w \<longleftrightarrow> f_status f = PENDING \<and> f_senderId f = w" for f w
    by (auto simp: pair_abs_def split: friendship_status.splits)
  have mu: "select_member_user d w = Some x \<Longrightarrow> mu_id x = w" for w x
    by (auto simp: select_member_user_def find_user_def dest: t_find_SomeD)
  obtain x where x: "select_member_user d v = Some x" using assms(2) by (auto simp: select_member_user_def)
  have "(\<exists>i mu. (i, Some mu) \<in> set (getMyFriends u d) \<and> mu_id mu = v) \<longleftrightarrow>
      (\<exists>f\<in>?F. between u v f \<and> f_status f = ACCEPTED)" (is "?L \<longleftrightarrow> ?R")
  proof
    assume ?L
    then show ?R by (auto simp: getMyFriends_def between_def dest: mu split: if_splits) (metis mu)+
  next
    assume ?R
    then obtain f where f: "f \<in> ?F" "between u v f" "f_status f = ACCEPTED" by blast
    then have "(f_id f, Some x) \<in> set (getMyFriends u d)"
      using x assms(3) by (force simp: getMyFriends_def between_def)
    then show ?L using mu[OF x] by blast
  qed
  moreover have "(\<exists>f mu. (f, mu) \<in> set (getPendingRequests u d) \<and> f_senderId f = v) \<longleftrightarrow>
      (\<exists>f\<in>?F. between u v f \<and> f_status f = PENDING \<and> f_senderId f = v)"
    using assms(3) by (auto simp: getPendingRequests_def between_def image_iff)
  moreover have "(\<exists>f mu. (f, mu) \<in> set (getSentRequests u d) \<and> f_receiverId f = v) \<longleftrightarrow>
      (\<exists>f\<in>?F. between u v f \<and> f_status f = PENDING \<and> f_senderId f = u)"
    using assms(3) by (auto simp: getSentRequests_def between_def image_iff)
  ultimately show ?thesis using row[of Friends] row[of "Asked v"] row[of "Asked u"] by (simp add: pa)
qed

theorem friend_lists_witness:
  "\<exists>f mu. (f, mu) \<in> set (getPendingRequests 2 (run friend_exec chat_db [SendRequest 1 2 5])) \<and> f_senderId f = 1"
proof -
  let ?d = "run friend_exec chat_db [SendRequest 1 2 5]"
  have "friends_inv ?d" by (rule friends.run_inv[OF friends_inv_chat]) (simp add: chat_defs)
  moreover have "find_user ?d 1 \<noteq> None"
    by (simp add: chat_defs sendRequest_def create_friendship_def Let_def t_empty_def t_insert_def)
  moreover have "relation_of ?d 2 1 = Asked 1"
    by (simp add: chat_defs sendRequest_def create_friendship_def Let_def t_empty_def t_insert_def
        relation_of_def between_def pair_abs_def)
  ultimately show ?thesis using friend_lists[of ?d 1 2] by simp
qed

end
