(* ===== verification/Sockets.thy ===== *)
theory Sockets
  imports RateLimiter SyncSession Conversations Friends Auth
begin

text \<open>
  The state of the WebSocket gateway (\<open>server/src/chat/chat.gateway.ts\<close>), the guard of its messages
  (\<open>server/src/chat/guards/ws-jwt.guard.ts\<close>) and its helpers.

  \<^item> A Socket.IO room is a constructor per name pattern: \<open>user_n\<close>, \<open>conv_n\<close>, \<open>dsync_s\<close>, the room every
    socket has under its own id, and the \<open>user?n\<close> that the push service addresses.
  \<^item> An emission is a pair of recipients and event; \<open>w_out\<close> is the log of all emissions, newest last, and
    \<open>receivers\<close> says which sockets get one.
  \<^item> A handler is a function on the \<open>world\<close>: the gateway's maps, its limiters, the sync-session service, the
    sockets with their rooms and \<open>client.data\<close>, the pending timers, and the database.  One handler call is one
    step; the clock is read once per call.
  \<^item> The JWT verifier, the web-push library, the Redis client, the JSON codec and \<open>new Date(string)\<close> are the
    fields of \<open>gw_env\<close>.
\<close>

section \<open>Rooms, events, sockets\<close>

type_synonym sock_id = jsstr

datatype room = UserRoom id | ConvRoom id | SyncRoom jsstr | SockRoom sock_id | UserQRoom id

datatype recipients = ToSocket sock_id | ToRoom room | ToRoomExcept room sock_id | ToAll | ToAllExcept sock_id

datatype call_type = Audio | Video

text \<open>The events by the part of the gateway that sends them, each named after its Socket.IO event.\<close>

datatype chat_event =
    MessageScheduled msg_out
  | OnMessage msg_out
  | MessageFailed string
  | ConversationRead id id
  | OnTyping id jsstr id bool
  | MessageDeleted id id
  | DeleteFailed id string
  | MessageEdited id jsstr "time option" id
  | EditFailed id string
  | ReactionToggled id "reaction_group list" id
  | MessagePinned id id "pin_msg option" nat
  | PinFailed string
  | MessageUnpinned id
  | UnpinFailed string
  | ForwardFailed string
  | JoinedConversation id
  | AddedToConversation id

datatype friend_event =
    FriendRequestReceived friend_view
  | FriendRequestSent friend_view
  | FriendRequestFailed string
  | FriendRequestResponded friend_view friendship_status
  | RespondFailed string

datatype call_event =
    IncomingCall jsstr id id jsstr "jsstr option" call_type
  | CallAccepted jsstr call_type
  | CallRejected jsstr
  | CallEnded jsstr
  | CallBusy jsstr
  | SdpOffer jsstr jsstr
  | SdpAnswer jsstr jsstr
  | IceCandidate jsstr jsstr

datatype sync_event =
    DeviceSyncError string
  | DeviceSyncReady jsstr
  | DeviceSyncOffer jsstr "jsstr option" "jsstr option"
  | DeviceSyncPeerJoined jsstr jsstr
  | DeviceSyncPeerAnswer jsstr jsstr
  | DeviceSyncIce jsstr jsstr
  | DeviceSyncAborted jsstr string

datatype event =
    RateLimited string int
  | AuthError string
  | UserStatusChanged id bool
  | TokenUpdated bool
  | SenderKeyRedistributionRequested id id
  | PeerKeyRotated id
  | PushResubscribe
  | Chat chat_event
  | Friend friend_event
  | Calling call_event
  | Sync sync_event

text \<open>\<open>client.data.user\<close>, which the connection sets with two fields and the guard with four.\<close>

record sock_user =
  su_id :: id
  su_nickname :: jsstr
  su_email :: "jsstr option"
  su_role :: "user_role option"

record sock =
  k_authToken :: "jsstr option"
  k_queryToken :: "jsstr option"
  k_currentToken :: "jsstr option"
  k_userId :: "id option"
  k_user :: "sock_user option"
  k_rooms :: "room list"

record call =
  call_callerId :: id
  call_calleeId :: id
  call_conversationId :: id
  call_callType :: call_type

record push_payload =
  pp_title :: jsstr
  pp_body :: jsstr
  pp_senderId :: id
  pp_url :: "jsstr option"

text \<open>What a push service answers: accepted, or an error with the status code of the response, if there was one.\<close>

datatype push_outcome = Delivered | PushError "int option"

datatype jwt_error = TokenExpiredError | JsonWebTokenError

record 'r gw_env =
  ge_verify :: "jsstr \<Rightarrow> time \<Rightarrow> jwt_error + jwt_payload"
  ge_push :: "push_subscription \<Rightarrow> push_payload \<Rightarrow> push_outcome"
  ge_redis :: "'r redis_api"
  ge_json :: json_env
  ge_parseDate :: "jsstr \<Rightarrow> time option"

section \<open>The gateway\<close>

datatype limit_name = MsgLim | TypingLim | ReactLim | MutateLim | FriendLim | CallLim | ForwardLim | SyncLim

record 'r world =
  w_db :: db
  w_active :: "(id, sock_id list) jsmap"
  w_calls :: "(jsstr, call) jsmap"
  w_lims :: "limit_name \<Rightarrow> limiter"
  w_sync :: "'r sync_svc"
  w_sockets :: "(sock_id, sock) jsmap"
  w_timers :: "(time \<times> id \<times> id) list"
  w_out :: "(recipients \<times> event) list"
  w_pushed :: "(push_subscription \<times> push_payload) list"

fun initial_limiter :: "limit_name \<Rightarrow> limiter" where
  "initial_limiter MsgLim = new_limiter 60 60"
| "initial_limiter TypingLim = new_limiter 20 60"
| "initial_limiter ReactLim = new_limiter 30 60"
| "initial_limiter MutateLim = new_limiter 30 60"
| "initial_limiter FriendLim = new_limiter 10 60"
| "initial_limiter CallLim = new_limiter 10 60"
| "initial_limiter ForwardLim = new_limiter 20 60"
| "initial_limiter SyncLim = new_limiter 5 60"

definition start_world :: "'r sync_svc \<Rightarrow> db \<Rightarrow> 'r world" where
  "start_world sv d = \<lparr>w_db = d, w_active = [], w_calls = [], w_lims = initial_limiter, w_sync = sv,
     w_sockets = [], w_timers = [], w_out = [], w_pushed = []\<rparr>"

text \<open>The interval timer of the constructor.\<close>

definition interval_cleanup :: "time \<Rightarrow> 'r world \<Rightarrow> 'r world" where
  "interval_cleanup now w =
     w\<lparr>w_lims := (\<lambda>l. cleanup (w_lims w l) now), w_sync := purgeExpired now (w_sync w)\<rparr>"

definition emit :: "recipients \<Rightarrow> event \<Rightarrow> 'r world \<Rightarrow> 'r world" where
  "emit to e w = w\<lparr>w_out := w_out w @ [(to, e)]\<rparr>"

definition receives :: "sock_id \<Rightarrow> sock \<Rightarrow> recipients \<Rightarrow> bool" where
  "receives sid k to = (case to of
       ToSocket s \<Rightarrow> sid = s
     | ToRoom r \<Rightarrow> r \<in> set (k_rooms k)
     | ToRoomExcept r s \<Rightarrow> r \<in> set (k_rooms k) \<and> sid \<noteq> s
     | ToAll \<Rightarrow> True
     | ToAllExcept s \<Rightarrow> sid \<noteq> s)"

definition receivers :: "'r world \<Rightarrow> recipients \<Rightarrow> sock_id set" where
  "receivers w to = {sid. \<exists>k. mget (w_sockets w) sid = Some k \<and> receives sid k to}"

definition upd_sock :: "sock_id \<Rightarrow> (sock \<Rightarrow> sock) \<Rightarrow> 'r world \<Rightarrow> 'r world" where
  "upd_sock sid f w =
     (case mget (w_sockets w) sid of None \<Rightarrow> w | Some k \<Rightarrow> w\<lparr>w_sockets := mset_at sid (f k) (w_sockets w)\<rparr>)"

definition join_room :: "room \<Rightarrow> sock \<Rightarrow> sock" where
  "join_room r k = k\<lparr>k_rooms := set_add r (k_rooms k)\<rparr>"

text \<open>A database call of a handler.\<close>

definition on_db :: "(db \<Rightarrow> 'a result \<times> db) \<Rightarrow> 'r world \<Rightarrow> 'a result \<times> 'r world" where
  "on_db f w = (case f (w_db w) of (r, d) \<Rightarrow> (r, w\<lparr>w_db := d\<rparr>))"

section \<open>Rate limiting and the guard\<close>

definition rateLimit :: "sock_id \<Rightarrow> limit_name \<Rightarrow> string \<Rightarrow> time \<Rightarrow> 'r world \<Rightarrow> bool \<times> 'r world" where
  "rateLimit sid l ev now w =
     (case Option.bind (mget (w_sockets w) sid) k_user of
        None \<Rightarrow> (False, w)
      | Some u \<Rightarrow>
          if su_id u = 0 then (False, w)
          else case isAllowed (w_lims w l) (su_id u) now of (ok, l') \<Rightarrow>
            let w' = w\<lparr>w_lims := (w_lims w)(l := l')\<rparr>
            in if ok then (True, w')
               else (False, emit (ToSocket sid) (RateLimited ev (retryAfter l' (su_id u) now)) w'))"

definition limited :: "sock_id \<Rightarrow> limit_name \<Rightarrow> string \<Rightarrow> time \<Rightarrow> ('r world \<Rightarrow> 'r world) \<Rightarrow> 'r world \<Rightarrow> 'r world" where
  "limited sid l ev now h w = (case rateLimit sid l ev now w of (ok, w') \<Rightarrow> if ok then h w' else w')"

text \<open>\<open>a || b\<close> on optional tokens.\<close>

definition or_token :: "jsstr option \<Rightarrow> jsstr option \<Rightarrow> jsstr option" where
  "or_token a b = (if truthy a then a else b)"

definition ws_guard :: "'r gw_env \<Rightarrow> time \<Rightarrow> sock_id \<Rightarrow> 'r world \<Rightarrow> sock_user option \<times> 'r world" where
  "ws_guard env now sid w =
     (case mget (w_sockets w) sid of
        None \<Rightarrow> (None, w)
      | Some k \<Rightarrow>
          let token = or_token (k_currentToken k) (or_token (k_authToken k) (k_queryToken k))
          in if \<not> truthy token then (None, w)
             else case ge_verify env (the token) now of
               Inl TokenExpiredError \<Rightarrow> (None, emit (ToSocket sid) (AuthError ''TOKEN_EXPIRED'') w)
             | Inl JsonWebTokenError \<Rightarrow> (None, emit (ToSocket sid) (AuthError ''INVALID_TOKEN'') w)
             | Inr p \<Rightarrow>
                 if k_user k = None then (None, w)
                 else let u = \<lparr>su_id = jwt_sub p, su_nickname = jwt_nickname p, su_email = Some (jwt_email p),
                               su_role = Some (jwt_role p)\<rparr>
                      in (Some u, upd_sock sid (\<lambda>k. k\<lparr>k_user := Some u\<rparr>) w))"

text \<open>\<open>@UseGuards(WsJwtGuard)\<close>: the handler runs with the user that the guard has just set.\<close>

definition guarded :: "'r gw_env \<Rightarrow> time \<Rightarrow> sock_id \<Rightarrow> (sock_user \<Rightarrow> 'r world \<Rightarrow> 'r world) \<Rightarrow> 'r world \<Rightarrow> 'r world" where
  "guarded env now sid h w = (case ws_guard env now sid w of (None, w') \<Rightarrow> w' | (Some u, w') \<Rightarrow> h u w')"

section \<open>Frame lemmas\<close>

named_theorems world_simps \<open>what an elementary step leaves unchanged\<close>

lemma emit_simps [simp, world_simps]:
  "w_db (emit to e w) = w_db w" "w_active (emit to e w) = w_active w" "w_calls (emit to e w) = w_calls w"
  "w_lims (emit to e w) = w_lims w" "w_sync (emit to e w) = w_sync w" "w_sockets (emit to e w) = w_sockets w"
  "w_timers (emit to e w) = w_timers w" "w_out (emit to e w) = w_out w @ [(to, e)]"
  "w_pushed (emit to e w) = w_pushed w"
  by (simp_all add: emit_def)

lemma upd_sock_simps [simp, world_simps]:
  "w_db (upd_sock s f w) = w_db w" "w_active (upd_sock s f w) = w_active w" "w_calls (upd_sock s f w) = w_calls w"
  "w_lims (upd_sock s f w) = w_lims w" "w_sync (upd_sock s f w) = w_sync w"
  "w_timers (upd_sock s f w) = w_timers w" "w_out (upd_sock s f w) = w_out w"
  "w_pushed (upd_sock s f w) = w_pushed w"
  by (simp_all add: upd_sock_def split: option.split)

lemma mget_upd_sock [simp, world_simps]:
  "mget (w_sockets (upd_sock s f w)) t = (if t = s then map_option f (mget (w_sockets w) s) else mget (w_sockets w) t)"
  by (auto simp: upd_sock_def split: option.split)

lemma on_db_simps [simp, world_simps]:
  "w_db (snd (on_db f w)) = snd (f (w_db w))" "w_active (snd (on_db f w)) = w_active w"
  "w_calls (snd (on_db f w)) = w_calls w" "w_lims (snd (on_db f w)) = w_lims w" "w_sync (snd (on_db f w)) = w_sync w"
  "w_sockets (snd (on_db f w)) = w_sockets w" "w_timers (snd (on_db f w)) = w_timers w"
  "w_out (snd (on_db f w)) = w_out w" "w_pushed (snd (on_db f w)) = w_pushed w"
  "fst (on_db f w) = fst (f (w_db w))"
  by (simp_all add: on_db_def split: prod.split)

lemma rateLimit_simps [simp, world_simps]:
  "w_db (snd (rateLimit s l ev now w)) = w_db w" "w_active (snd (rateLimit s l ev now w)) = w_active w"
  "w_calls (snd (rateLimit s l ev now w)) = w_calls w" "w_sync (snd (rateLimit s l ev now w)) = w_sync w"
  "w_sockets (snd (rateLimit s l ev now w)) = w_sockets w" "w_timers (snd (rateLimit s l ev now w)) = w_timers w"
  "w_pushed (snd (rateLimit s l ev now w)) = w_pushed w"
  by (simp_all add: rateLimit_def Let_def split: option.split prod.split)

text \<open>A message that passed the guard: the socket's user is the subject of its verified token.\<close>

lemma ws_guard_SomeD:
  assumes "ws_guard env now sid w = (Some u, w')"
  shows "\<exists>k p tok. mget (w_sockets w) sid = Some k \<and> k_user k \<noteq> None \<and> truthy (Some tok)
    \<and> Some tok = or_token (k_currentToken k) (or_token (k_authToken k) (k_queryToken k))
    \<and> ge_verify env tok now = Inr p \<and> su_id u = jwt_sub p \<and> su_nickname u = jwt_nickname p
    \<and> w' = upd_sock sid (\<lambda>k. k\<lparr>k_user := Some u\<rparr>) w"
proof -
  obtain k where k: "mget (w_sockets w) sid = Some k" using assms by (auto simp: ws_guard_def split: option.splits)
  obtain tok where tok: "or_token (k_currentToken k) (or_token (k_authToken k) (k_queryToken k)) = Some tok" "tok \<noteq> []"
    using assms k by (cases "or_token (k_currentToken k) (or_token (k_authToken k) (k_queryToken k))")
      (auto simp: ws_guard_def Let_def split: if_splits)
  then obtain p where p: "ge_verify env tok now = Inr p"
    using assms k by (auto simp: ws_guard_def split: sum.splits jwt_error.splits if_splits)
  show ?thesis using assms k tok p by (auto simp: ws_guard_def Let_def split: if_splits)
qed

lemma ws_guard_NoneD: "ws_guard env now sid w = (None, w') \<Longrightarrow> w' = w \<or> (\<exists>c. w' = emit (ToSocket sid) (AuthError c) w)"
  by (auto simp: ws_guard_def Let_def split: option.splits if_splits sum.splits jwt_error.splits)

lemma receivers_socket [simp]: "sid \<in> receivers w (ToSocket s) \<longleftrightarrow> sid = s \<and> mhas (w_sockets w) s"
  by (auto simp: receivers_def receives_def mhas_def)

lemma receivers_room: "sid \<in> receivers w (ToRoom r) \<longleftrightarrow> (\<exists>k. mget (w_sockets w) sid = Some k \<and> r \<in> set (k_rooms k))"
  by (auto simp: receivers_def receives_def)

end
