(* ===== verification/Push.thy ===== *)
theory Push
  imports Sockets
begin

text \<open>
  Web push: \<open>server/src/push/push.service.ts\<close> and the bodies that \<open>push.controller.ts\<close> accepts.  The
  answer of a push service to a notification is \<open>ge_push\<close>; \<open>w_pushed\<close> logs the notifications that were
  sent.  The notifications of one call are sent concurrently; each touches only its own subscription,
  so their order does not matter.
\<close>

section \<open>Operations\<close>

definition push_subscribe :: "id \<Rightarrow> jsstr \<Rightarrow> jsstr \<Rightarrow> jsstr \<Rightarrow> db \<Rightarrow> unit result \<times> db" where
  "push_subscribe uid endpoint p256dh auth d =
     (if t_find (\<lambda>s. ps_endpoint s = endpoint) (db_pushSubs d) \<noteq> None
      then (if find_user d uid = None then (Inl (PrismaError ''P2003''), d)
            else (Inr (), d\<lparr>db_pushSubs := t_update (\<lambda>s. ps_endpoint s = endpoint)
                   (\<lambda>s. s\<lparr>ps_userId := uid, ps_p256dh := p256dh, ps_auth := auth\<rparr>) (db_pushSubs d)\<rparr>))
      else if find_user d uid = None then (Inl (PrismaError ''P2003''), d)
      else (Inr (), d\<lparr>db_pushSubs := t_insert (\<lambda>i. \<lparr>ps_id = i, ps_userId = uid, ps_endpoint = endpoint,
                        ps_p256dh = p256dh, ps_auth = auth\<rparr>) (db_pushSubs d)\<rparr>))"

definition push_unsubscribe :: "id \<Rightarrow> jsstr \<Rightarrow> db \<Rightarrow> db" where
  "push_unsubscribe uid endpoint d =
     d\<lparr>db_pushSubs := t_delete (\<lambda>s. ps_userId s = uid \<and> ps_endpoint s = endpoint) (db_pushSubs d)\<rparr>"

definition valid_subscribe :: "jsstr \<Rightarrow> jsstr \<Rightarrow> jsstr \<Rightarrow> bool" where
  "valid_subscribe endpoint p256dh auth \<longleftrightarrow> endpoint \<noteq> [] \<and> p256dh \<noteq> [] \<and> auth \<noteq> []"

definition ctl_push_subscribe :: "id \<Rightarrow> jsstr \<Rightarrow> jsstr \<Rightarrow> jsstr \<Rightarrow> db \<Rightarrow> unit result \<times> db" where
  "ctl_push_subscribe uid endpoint p256dh auth d =
     check (ensure (valid_subscribe endpoint p256dh auth) (BadRequest ''Bad Request Exception''))
       (\<lambda>_. push_subscribe uid endpoint p256dh auth) d"

fun stale :: "push_outcome \<Rightarrow> bool" where
  "stale Delivered \<longleftrightarrow> False"
| "stale (PushError status) \<longleftrightarrow> status = Some 410 \<or> status = Some 404"

definition user_subs :: "id \<Rightarrow> db \<Rightarrow> push_subscription list" where
  "user_subs uid d = t_all (\<lambda>s. ps_userId s = uid) (db_pushSubs d)"

text \<open>One notification: its error handler removes a subscription that is gone and asks the user's clients to
  subscribe again, when the caller passed the server.\<close>

definition push_one :: "'r gw_env \<Rightarrow> id \<Rightarrow> push_payload \<Rightarrow> bool \<Rightarrow> push_subscription \<Rightarrow> 'r world \<Rightarrow> 'r world" where
  "push_one env uid payload server sub w =
     (let w = w\<lparr>w_pushed := w_pushed w @ [(sub, payload)]\<rparr>
      in if stale (ge_push env sub payload)
         then let w = w\<lparr>w_db := (w_db w)\<lparr>db_pushSubs := t_delete (\<lambda>s. ps_id s = ps_id sub) (db_pushSubs (w_db w))\<rparr>\<rparr>
              in if server then emit (ToRoom (UserQRoom uid)) PushResubscribe w else w
         else w)"

definition sendToUser :: "'r gw_env \<Rightarrow> id \<Rightarrow> push_payload \<Rightarrow> bool \<Rightarrow> 'r world \<Rightarrow> 'r world" where
  "sendToUser env uid payload server w = fold (push_one env uid payload server) (user_subs uid (w_db w)) w"

section \<open>Lemmas\<close>

text \<open>What a notification leaves alone: everything but the subscriptions and the two logs.\<close>

definition same_core :: "'r world \<Rightarrow> 'r world \<Rightarrow> bool" where
  "same_core w w' \<longleftrightarrow> (\<exists>t out p. w' = w\<lparr>w_db := (w_db w)\<lparr>db_pushSubs := t\<rparr>, w_out := w_out w @ out, w_pushed := p\<rparr>
     \<and> set out \<subseteq> {(ToRoom (UserQRoom u), PushResubscribe) | u. True})"

lemma same_core_refl [simp]: "same_core w w"
proof -
  have "w = w\<lparr>w_db := (w_db w)\<lparr>db_pushSubs := db_pushSubs (w_db w)\<rparr>, w_out := w_out w @ [], w_pushed := w_pushed w\<rparr>" by simp
  then show ?thesis unfolding same_core_def by (metis empty_set empty_subsetI)
qed

lemma same_core_trans: "same_core a b \<Longrightarrow> same_core b c \<Longrightarrow> same_core a c"
proof -
  assume "same_core a b" "same_core b c"
  then obtain t out p t' out' p' where
    b: "b = a\<lparr>w_db := (w_db a)\<lparr>db_pushSubs := t\<rparr>, w_out := w_out a @ out, w_pushed := p\<rparr>"
      "set out \<subseteq> {(ToRoom (UserQRoom u), PushResubscribe) | u. True}" and
    c: "c = b\<lparr>w_db := (w_db b)\<lparr>db_pushSubs := t'\<rparr>, w_out := w_out b @ out', w_pushed := p'\<rparr>"
      "set out' \<subseteq> {(ToRoom (UserQRoom u), PushResubscribe) | u. True}"
    unfolding same_core_def by blast
  have "c = a\<lparr>w_db := (w_db a)\<lparr>db_pushSubs := t'\<rparr>, w_out := w_out a @ (out @ out'), w_pushed := p'\<rparr>"
    using b(1) c(1) by simp
  moreover have "set (out @ out') \<subseteq> {(ToRoom (UserQRoom u), PushResubscribe) | u. True}"
    unfolding set_append using b(2) c(2) by (rule Un_least)
  ultimately show ?thesis unfolding same_core_def by blast
qed

lemma same_coreI:
  "w' = w\<lparr>w_db := (w_db w)\<lparr>db_pushSubs := t\<rparr>, w_out := w_out w @ out, w_pushed := p\<rparr> \<Longrightarrow>
   set out \<subseteq> {(ToRoom (UserQRoom u), PushResubscribe) | u. True} \<Longrightarrow> same_core w w'"
  unfolding same_core_def by blast

lemma push_one_core: "same_core w (push_one env uid payload server sub w)"
proof -
  let ?t = "if stale (ge_push env sub payload) then t_delete (\<lambda>s. ps_id s = ps_id sub) (db_pushSubs (w_db w))
            else db_pushSubs (w_db w)"
  let ?o = "if stale (ge_push env sub payload) \<and> server then [(ToRoom (UserQRoom uid), PushResubscribe)] else []"
  show ?thesis
    by (rule same_coreI[where t = ?t and out = ?o and p = "w_pushed w @ [(sub, payload)]"])
      (auto simp: push_one_def emit_def Let_def)
qed

lemma fold_core: "(\<And>x w. same_core w (f x w)) \<Longrightarrow> same_core w (fold f xs w)"
  by (induction xs arbitrary: w) (auto intro: same_core_trans)

lemma sendToUser_core: "same_core w (sendToUser env uid payload server w)"
  unfolding sendToUser_def by (rule fold_core) (rule push_one_core)

lemma same_core_simps:
  assumes "same_core w w'"
  shows "w_active w' = w_active w" "w_calls w' = w_calls w" "w_lims w' = w_lims w" "w_sync w' = w_sync w"
    "w_sockets w' = w_sockets w" "w_timers w' = w_timers w" "db_users (w_db w') = db_users (w_db w)"
    "db_members (w_db w') = db_members (w_db w)" "db_messages (w_db w') = db_messages (w_db w)"
    "db_convs (w_db w') = db_convs (w_db w)"
    "\<exists>out. w_out w' = w_out w @ out \<and> set out \<subseteq> {(ToRoom (UserQRoom u), PushResubscribe) | u. True}"
  using assms unfolding same_core_def by auto

lemma push_one_effect:
  "w_pushed (push_one env uid payload server sub w) = w_pushed w @ [(sub, payload)]"
  "rows (db_pushSubs (w_db (push_one env uid payload server sub w))) =
     filter (\<lambda>s. \<not> (stale (ge_push env sub payload) \<and> ps_id s = ps_id sub)) (rows (db_pushSubs (w_db w)))"
  "nxt (db_pushSubs (w_db (push_one env uid payload server sub w))) = nxt (db_pushSubs (w_db w))"
  by (auto simp: push_one_def emit_def Let_def)

lemma fold_push_effect:
  "w_pushed (fold (push_one env uid payload server) subs w) = w_pushed w @ map (\<lambda>s. (s, payload)) subs"
  "rows (db_pushSubs (w_db (fold (push_one env uid payload server) subs w))) =
     filter (\<lambda>s. \<not> (\<exists>x\<in>set subs. stale (ge_push env x payload) \<and> ps_id s = ps_id x)) (rows (db_pushSubs (w_db w)))"
  "nxt (db_pushSubs (w_db (fold (push_one env uid payload server) subs w))) = nxt (db_pushSubs (w_db w))"
  by (induction subs arbitrary: w) (auto simp: push_one_effect intro: filter_cong)

text \<open>Endpoints are unique; every operation keeps that.\<close>

definition push_inv :: "db \<Rightarrow> bool" where
  "push_inv d \<longleftrightarrow> tbl_wf ps_id (db_pushSubs d) \<and> distinct (map ps_endpoint (rows (db_pushSubs d)))"

datatype push_op = Subscribe id jsstr jsstr jsstr | Unsubscribe id jsstr

fun push_exec :: "db \<Rightarrow> push_op \<Rightarrow> db" where
  "push_exec d (Subscribe u e p a) = snd (push_subscribe u e p a d)"
| "push_exec d (Unsubscribe u e) = push_unsubscribe u e d"

lemma push_subscribe_inv:
  assumes "push_inv d"
  shows "push_inv (snd (push_subscribe u e p a d))"
proof (cases "find_user d u = None")
  case True
  then show ?thesis using assms by (simp add: push_subscribe_def)
next
  case False
  show ?thesis
  proof (cases "t_find (\<lambda>s. ps_endpoint s = e) (db_pushSubs d) \<noteq> None")
    case True
    have "map ps_endpoint (map (\<lambda>s. if ps_endpoint s = e then s\<lparr>ps_userId := u, ps_p256dh := p, ps_auth := a\<rparr> else s)
        (rows (db_pushSubs d))) = map ps_endpoint (rows (db_pushSubs d))" by auto
    then show ?thesis using True assms False
      by (auto simp: push_subscribe_def push_inv_def simp del: map_map)
  next
    case new: False
    then show ?thesis using assms False
      by (auto simp: push_subscribe_def push_inv_def t_find_None_iff)
  qed
qed

lemma push_exec_inv: "push_inv d \<Longrightarrow> push_inv (push_exec d op)"
  by (cases op) (simp_all add: push_subscribe_inv, auto simp: push_unsubscribe_def push_inv_def distinct_map_filter)

interpretation push: run_invariant push_exec "\<lambda>_ _. True" push_inv
  by unfold_locales (rule push_exec_inv)

lemma sendToUser_effect:
  assumes "push_inv (w_db w)"
  shows "w_pushed (sendToUser env uid payload server w) =
      w_pushed w @ map (\<lambda>s. (s, payload)) (user_subs uid (w_db w))"
    and "rows (db_pushSubs (w_db (sendToUser env uid payload server w))) =
      filter (\<lambda>s. \<not> (ps_userId s = uid \<and> stale (ge_push env s payload))) (rows (db_pushSubs (w_db w)))"
    and "push_inv (w_db (sendToUser env uid payload server w))"
proof -
  have "(\<exists>x\<in>set (user_subs uid (w_db w)). stale (ge_push env x payload) \<and> ps_id s = ps_id x)
      \<longleftrightarrow> ps_userId s = uid \<and> stale (ge_push env s payload)"
    if "s \<in> set (rows (db_pushSubs (w_db w)))" for s
    using assms that tbl_wf_key_eq[of ps_id "db_pushSubs (w_db w)" s]
    by (auto simp: push_inv_def user_subs_def)
  then show rows: "rows (db_pushSubs (w_db (sendToUser env uid payload server w))) =
      filter (\<lambda>s. \<not> (ps_userId s = uid \<and> stale (ge_push env s payload))) (rows (db_pushSubs (w_db w)))"
    unfolding sendToUser_def fold_push_effect by (intro filter_cong) auto
  show "w_pushed (sendToUser env uid payload server w) =
      w_pushed w @ map (\<lambda>s. (s, payload)) (user_subs uid (w_db w))"
    by (simp add: sendToUser_def fold_push_effect)
  have "nxt (db_pushSubs (w_db (sendToUser env uid payload server w))) = nxt (db_pushSubs (w_db w))"
    by (simp add: sendToUser_def fold_push_effect)
  then show "push_inv (w_db (sendToUser env uid payload server w))"
    using assms rows by (simp add: push_inv_def tbl_wf_def distinct_map_filter)
qed

section \<open>Properties\<close>

text \<open>A notification goes to every subscription of the user and to no other; afterwards exactly those of
  them whose push service answered 404 or 410 are gone, and nothing else of the database has changed.\<close>

theorem send_to_user_effect:
  assumes "push_inv (w_db w)"
  shows "w_pushed (sendToUser env uid payload server w) =
      w_pushed w @ map (\<lambda>s. (s, payload)) (user_subs uid (w_db w))
    \<and> rows (db_pushSubs (w_db (sendToUser env uid payload server w))) =
      filter (\<lambda>s. \<not> (ps_userId s = uid \<and> stale (ge_push env s payload))) (rows (db_pushSubs (w_db w)))
    \<and> (\<exists>t. w_db (sendToUser env uid payload server w) = (w_db w)\<lparr>db_pushSubs := t\<rparr>)"
  using sendToUser_effect[OF assms] sendToUser_core[of w env uid payload server]
  unfolding same_core_def by auto

definition gw_demo :: "(jsstr \<Rightarrow> jsstr option) gw_env" where
  "gw_demo = \<lparr>ge_verify = (\<lambda>tok now. case tok of [u] \<Rightarrow> if u = 0 then Inl JsonWebTokenError
       else Inr \<lparr>jwt_sub = int u, jwt_email = [u], jwt_nickname = [u], jwt_role = USER, jwt_avatarUrl = None\<rparr>
     | _ \<Rightarrow> Inl JsonWebTokenError),
     ge_push = (\<lambda>s p. if ps_p256dh s = [] then PushError (Some 410) else Delivered), ge_redis = kv_api,
     ge_json = demo_json, ge_parseDate = (\<lambda>s. case s of [t] \<Rightarrow> Some (int t) | _ \<Rightarrow> None)\<rparr>"

definition push_db :: db where
  "push_db = chat_db\<lparr>db_pushSubs := \<lparr>rows = [\<lparr>ps_id = 1, ps_userId = 1, ps_endpoint = [1], ps_p256dh = [], ps_auth = []\<rparr>,
     \<lparr>ps_id = 2, ps_userId = 1, ps_endpoint = [2], ps_p256dh = [9], ps_auth = []\<rparr>], nxt = 3\<rparr>\<rparr>"

definition mem_svc :: "'r sync_svc" where
  "mem_svc = \<lparr>sy_redis = None, sy_mem = [], sy_sktMem = []\<rparr>"

theorem send_to_user_effect_witness:
  "map ps_id (rows (db_pushSubs (w_db (sendToUser gw_demo 1 \<lparr>pp_title = [], pp_body = [], pp_senderId = 2, pp_url = None\<rparr>
     True (start_world mem_svc push_db))))) = [2]"
proof -
  have "push_inv (w_db (start_world mem_svc push_db :: (jsstr \<Rightarrow> jsstr option) world))"
    by (auto simp: push_inv_def push_db_def start_world_def tbl_wf_def)
  from send_to_user_effect[OF this] show ?thesis
    by (simp add: gw_demo_def start_world_def push_db_def)
qed

end
