(* ===== verification/Presence.thy ===== *)
theory Presence
  imports Push
begin

text \<open>
  Connecting, disconnecting and renewing the token of a socket: \<open>handleConnection\<close>,
  \<open>handleDisconnect\<close>, \<open>handleUpdateToken\<close> of \<open>server/src/chat/chat.gateway.ts\<close>.

  \<open>client.disconnect()\<close> removes the socket with its rooms from the server, then the framework calls
  \<open>handleDisconnect\<close> with the data of the socket (\<open>disconnect\<close>).
\<close>

section \<open>Operations\<close>

definition new_sock :: "sock_id \<Rightarrow> jsstr option \<Rightarrow> jsstr option \<Rightarrow> sock" where
  "new_sock sid auth query = \<lparr>k_authToken = auth, k_queryToken = query, k_currentToken = None, k_userId = None,
     k_user = None, k_rooms = [SockRoom sid]\<rparr>"

definition peer_of :: "sock_id \<Rightarrow> sync_session \<Rightarrow> jsstr option" where
  "peer_of sid s = (if ss_sourceSocketId s = sid then ss_targetSocketId s else Some (ss_sourceSocketId s))"

definition to_peer :: "jsstr option \<Rightarrow> sync_event \<Rightarrow> 'r world \<Rightarrow> 'r world" where
  "to_peer peer e w = (if truthy peer then emit (ToRoom (SockRoom (the peer))) (Sync e) w else w)"

definition abort_sync :: "'r gw_env \<Rightarrow> time \<Rightarrow> sock_id \<Rightarrow> 'r world \<Rightarrow> 'r world" where
  "abort_sync env now sid w =
     (case getSessionBySocket (ge_redis env) now (w_sync w) sid of
        None \<Rightarrow> w
      | Some (i, s) \<Rightarrow>
          to_peer (peer_of sid s) (DeviceSyncAborted i ''peer_disconnected'')
            (w\<lparr>w_sync := snd (deleteSession (ge_redis env) now i (w_sync w))\<rparr>))"

definition remote_of :: "id \<Rightarrow> call \<Rightarrow> id" where
  "remote_of uid c = (if call_callerId c = uid then call_calleeId c else call_callerId c)"

definition party :: "id \<Rightarrow> call \<Rightarrow> bool" where
  "party uid c \<longleftrightarrow> call_callerId c = uid \<or> call_calleeId c = uid"

definition end_calls :: "id \<Rightarrow> 'r world \<Rightarrow> 'r world" where
  "end_calls uid w = fold (\<lambda>(cid, c) w.
       if party uid c
       then (emit (ToRoom (UserRoom (remote_of uid c))) (Calling (CallEnded cid)) w)
              \<lparr>w_calls := mdelete cid (w_calls w)\<rparr>
       else w) (w_calls w) w"

definition set_offline :: "id \<Rightarrow> time \<Rightarrow> db \<Rightarrow> db" where
  "set_offline uid now d =
     d\<lparr>db_users := t_update (\<lambda>u. u_id u = uid) (\<lambda>u. u\<lparr>u_isOnline := False, u_lastSeen := now\<rparr>) (db_users d)\<rparr>"

definition drop_active :: "sock_id \<Rightarrow> id \<Rightarrow> time \<Rightarrow> 'r world \<Rightarrow> 'r world" where
  "drop_active sid uid now w =
     (case mget (w_active w) uid of
        None \<Rightarrow> w
      | Some socks \<Rightarrow>
          if set_del sid socks = []
          then emit ToAll (UserStatusChanged uid False)
                 (w\<lparr>w_active := mdelete uid (w_active w), w_db := set_offline uid now (w_db w)\<rparr>)
          else w\<lparr>w_active := mset_at uid (set_del sid socks) (w_active w)\<rparr>)"

definition handleDisconnect :: "'r gw_env \<Rightarrow> time \<Rightarrow> sock_id \<Rightarrow> id option \<Rightarrow> 'r world \<Rightarrow> 'r world" where
  "handleDisconnect env now sid userId w =
     (case userId of
        None \<Rightarrow> w
      | Some uid \<Rightarrow> if uid = 0 then w else drop_active sid uid now (end_calls uid (abort_sync env now sid w)))"

definition disconnect :: "'r gw_env \<Rightarrow> time \<Rightarrow> sock_id \<Rightarrow> 'r world \<Rightarrow> 'r world" where
  "disconnect env now sid w =
     (case mget (w_sockets w) sid of
        None \<Rightarrow> w
      | Some k \<Rightarrow> handleDisconnect env now sid (k_userId k) (w\<lparr>w_sockets := mdelete sid (w_sockets w)\<rparr>))"

definition sign_in :: "jsstr \<Rightarrow> jwt_payload \<Rightarrow> sock \<Rightarrow> sock" where
  "sign_in tok p k = k\<lparr>k_currentToken := Some tok, k_userId := Some (jwt_sub p),
     k_user := Some \<lparr>su_id = jwt_sub p, su_nickname = jwt_nickname p, su_email = None, su_role = None\<rparr>\<rparr>"

definition add_active :: "sock_id \<Rightarrow> id \<Rightarrow> 'r world \<Rightarrow> 'r world" where
  "add_active sid uid w =
     w\<lparr>w_active := mset_at uid (set_add sid (case mget (w_active w) uid of None \<Rightarrow> [] | Some s \<Rightarrow> s)) (w_active w)\<rparr>"

definition user_rooms :: "db \<Rightarrow> id \<Rightarrow> room list" where
  "user_rooms d uid = UserRoom uid # map (\<lambda>m. ConvRoom (m_conversationId m)) (t_all (\<lambda>m. m_userId m = uid) (db_members d))"

definition handleConnection :: "'r gw_env \<Rightarrow> time \<Rightarrow> sock_id \<Rightarrow> 'r world \<Rightarrow> 'r world" where
  "handleConnection env now sid w =
     (case mget (w_sockets w) sid of
        None \<Rightarrow> w
      | Some k \<Rightarrow>
          let token = or_token (k_authToken k) (k_queryToken k)
          in if \<not> truthy token then disconnect env now sid w
             else case ge_verify env (the token) now of
                Inl e \<Rightarrow> disconnect env now sid w
              | Inr p \<Rightarrow>
                  let uid = jwt_sub p;
                      w = add_active sid uid (upd_sock sid (sign_in (the token) p) w);
                      w = upd_sock sid (fold join_room (user_rooms (w_db w) uid)) w
                  in if length (the (mget (w_active w) uid)) = 1
                     then (case on_db (update_user uid (\<lambda>u. u\<lparr>u_isOnline := True\<rparr>)) w of
                             (Inl e, w) \<Rightarrow> disconnect env now sid w
                           | (Inr _, w) \<Rightarrow> emit ToAll (UserStatusChanged uid True) w)
                     else w)"

text \<open>A new connection: the server creates the socket and calls \<open>handleConnection\<close>.\<close>

definition connect :: "'r gw_env \<Rightarrow> time \<Rightarrow> sock_id \<Rightarrow> jsstr option \<Rightarrow> jsstr option \<Rightarrow> 'r world \<Rightarrow> 'r world" where
  "connect env now sid auth query w =
     handleConnection env now sid (w\<lparr>w_sockets := mset_at sid (new_sock sid auth query) (w_sockets w)\<rparr>)"

definition handleUpdateToken :: "'r gw_env \<Rightarrow> time \<Rightarrow> sock_id \<Rightarrow> jsstr \<Rightarrow> 'r world \<Rightarrow> 'r world" where
  "handleUpdateToken env now sid token w =
     (case mget (w_sockets w) sid of
        None \<Rightarrow> w
      | Some k \<Rightarrow>
          (case ge_verify env token now of
             Inl e \<Rightarrow> emit (ToSocket sid) (TokenUpdated False) w
           | Inr p \<Rightarrow>
               if k_userId k \<noteq> Some (jwt_sub p) then disconnect env now sid w
               else emit (ToSocket sid) (TokenUpdated True)
                      (upd_sock sid (\<lambda>k. k\<lparr>k_currentToken := Some token\<rparr>) w)))"

end
