(* ===== verification/GatewayMessages.thy ===== *)
theory GatewayMessages
  imports Presence Metadata
begin

text \<open>
  The chat messages of the gateway, \<open>server/src/chat/chat.gateway.ts\<close>: sending (at once or scheduled), reading,
  typing, editing, deleting, reacting, pinning, forwarding, friend requests and joining rooms.  Each handler
  calls the conversations or the friends service and emits what the service returned.

  \<^item> The fields of a payload have their declared types; an optional field that is \<open>null\<close> is absent.
  \<^item> \<open>setTimeout\<close> is an entry of \<open>w_timers\<close> with the time at which Node fires it: a delay above
    \<open>2 ^ 31 - 1\<close> milliseconds is not kept (\<open>timeout_delay\<close>).
  \<^item> \<open>handleMarkAsRead\<close> throws nothing: an update of no rows is not an error.
\<close>

section \<open>Texts\<close>

definition new_message_title :: jsstr where
  "new_message_title =
     [1053, 1086, 1074, 1077, 32, 1087, 1086, 1074, 1110, 1076, 1086, 1084, 1083, 1077, 1085, 1085,
      1103]"

definition encrypted_body :: jsstr where
  "encrypted_body =
     [55357, 56594, 32, 1047, 1072, 1096, 1080, 1092, 1088, 1086, 1074, 1072, 1085, 1077, 32, 1087,
      1086, 1074, 1110, 1076, 1086, 1084, 1083, 1077, 1085, 1085, 1103]"

definition paperclip :: jsstr where
  "paperclip =
     [55357, 56526, 32]"

definition file_word :: jsstr where
  "file_word =
     [1060, 1072, 1081, 1083]"

section \<open>Sending\<close>

record ws_message =
  wm_conversationId :: "id option"
  wm_dto :: send_dto
  wm_scheduledAt :: "jsstr option"

definition MAX_SCHEDULE_MS :: int where "MAX_SCHEDULE_MS = 30 * 24 * 60 * 60 * 1000"
definition MAX_FILENAME :: nat where "MAX_FILENAME = 255"
definition MAX_FILETYPE :: nat where "MAX_FILETYPE = 127"

text \<open>Node's \<open>setTimeout\<close> replaces a delay that does not fit a signed 32-bit integer, or is below one, by one millisecond.\<close>

definition timeout_delay :: "int \<Rightarrow> int" where
  "timeout_delay delay = (if delay < 1 \<or> 2 ^ 31 - 1 < delay then 1 else delay)"

definition scheduleMessageDelivery :: "time \<Rightarrow> id \<Rightarrow> id \<Rightarrow> int \<Rightarrow> 'r world \<Rightarrow> 'r world" where
  "scheduleMessageDelivery now mid cid delay w = w\<lparr>w_timers := w_timers w @ [(now + timeout_delay delay, mid, cid)]\<rparr>"

definition other_members :: "db \<Rightarrow> id \<Rightarrow> id \<Rightarrow> id list" where
  "other_members d cid uid = map m_userId (t_all (\<lambda>m. m_conversationId m = cid \<and> m_userId m \<noteq> uid) (db_members d))"

definition push_all :: "'r gw_env \<Rightarrow> push_payload \<Rightarrow> bool \<Rightarrow> id list \<Rightarrow> 'r world \<Rightarrow> 'r world" where
  "push_all env payload server = fold (\<lambda>uid. sendToUser env uid payload server)"

definition deliverScheduledMessage :: "'r gw_env \<Rightarrow> time \<Rightarrow> id \<Rightarrow> id \<Rightarrow> 'r world \<Rightarrow> 'r world" where
  "deliverScheduledMessage env now mid cid w =
     (case getMessageById mid (w_db w) of
        None \<Rightarrow> w
      | Some msg \<Rightarrow>
          if mv_deletedAt (mo_msg msg) \<noteq> None then w
          else let sender = mv_senderId (mo_msg msg)
          in if find_member (w_db w) cid sender = None
             then snd (on_db (update_msg mid (\<lambda>g. g\<lparr>msg_deletedAt := Some now\<rparr>)) w)
             else
               let w = emit (ToRoom (ConvRoom cid)) (Chat (OnMessage msg)) w
               in push_all env \<lparr>pp_title = new_message_title, pp_body = encrypted_body, pp_senderId = sender,
                    pp_url = Some (js ''/chat'')\<rparr> False (other_members (w_db w) cid sender) w)"

text \<open>The timer that fires: it leaves the queue and delivers its message.\<close>

definition fire_timer :: "'r gw_env \<Rightarrow> time \<Rightarrow> time \<times> id \<times> id \<Rightarrow> 'r world \<Rightarrow> 'r world" where
  "fire_timer env now t w =
     (if t \<in> set (w_timers w) \<and> fst t \<le> now
      then deliverScheduledMessage env now (fst (snd t)) (snd (snd t)) (w\<lparr>w_timers := remove1 t (w_timers w)\<rparr>)
      else w)"

text \<open>\<open>onModuleInit\<close>, after the Redis adapter: messages that are still due are scheduled again.\<close>

definition onModuleInit :: "'r gw_env \<Rightarrow> time \<Rightarrow> 'r world \<Rightarrow> 'r world" where
  "onModuleInit env now w = fold (\<lambda>g w.
       let delay = (case msg_scheduledAt g of None \<Rightarrow> 0 | Some t \<Rightarrow> t) - now
       in if 0 < delay then scheduleMessageDelivery now (msg_id g) (msg_conversationId g) delay w
          else deliverScheduledMessage env now (msg_id g) (msg_conversationId g) w)
     (getPendingScheduledMessages now (w_db w)) w"

definition fail_message :: "sock_id \<Rightarrow> string \<Rightarrow> 'r world \<Rightarrow> 'r world" where
  "fail_message sid e = emit (ToSocket sid) (Chat (MessageFailed e))"

definition longer_than :: "nat \<Rightarrow> jsstr option \<Rightarrow> bool" where
  "longer_than n s \<longleftrightarrow> (case s of None \<Rightarrow> False | Some x \<Rightarrow> n < length x)"

definition empty_message :: "send_dto \<Rightarrow> bool" where
  "empty_message dto \<longleftrightarrow> \<not> truthy (map_option trim (sd_content dto)) \<and> \<not> truthy (sd_fileUrl dto)"

text \<open>\<open>rawScheduled\<close>: absent, an invalid date, or an instant.\<close>

definition raw_scheduled :: "'r gw_env \<Rightarrow> jsstr option \<Rightarrow> time option option" where
  "raw_scheduled env s = (if truthy s then Some (ge_parseDate env (the s)) else None)"

text \<open>The checks before the message is saved, in their order; the value is the instant to schedule it at.\<close>

definition message_checks :: "'r gw_env \<Rightarrow> time \<Rightarrow> ws_message \<Rightarrow> string + time option" where
  "message_checks env now m =
     (if longer_than MAX_CONTENT (sd_content (wm_dto m)) then Inl ''Message too long (max 4096 chars)''
      else if longer_than MAX_FILENAME (sd_fileName (wm_dto m)) then Inl ''File name too long''
      else if longer_than MAX_FILETYPE (sd_fileType (wm_dto m)) then Inl ''Invalid file type''
      else if (case sd_fileSize (wm_dto m) of None \<Rightarrow> False | Some n \<Rightarrow> 10 * 1024 * 1024 < n)
           then Inl ''File size exceeds limit''
      else case raw_scheduled env (wm_scheduledAt m) of
             None \<Rightarrow> Inr None
           | Some None \<Rightarrow> Inl ''Invalid scheduledAt''
           | Some (Some t) \<Rightarrow>
               if t - now > MAX_SCHEDULE_MS then Inl ''scheduledAt too far in the future (max 30 days)''
               else Inr (if now < t then Some t else None))"

definition push_body :: "send_dto \<Rightarrow> jsstr" where
  "push_body dto = (if truthy (sd_fileUrl dto)
     then paperclip @ (case sd_fileName dto of None \<Rightarrow> file_word | Some n \<Rightarrow> n) else encrypted_body)"

definition deliver_now :: "'r gw_env \<Rightarrow> sock_user \<Rightarrow> id \<Rightarrow> send_dto \<Rightarrow> msg_out \<Rightarrow> 'r world \<Rightarrow> 'r world" where
  "deliver_now env u cid dto msg w =
     (let w = emit (ToRoom (ConvRoom cid)) (Chat (OnMessage msg)) w
      in push_all env \<lparr>pp_title = su_nickname u, pp_body = push_body dto, pp_senderId = su_id u,
           pp_url = Some (js ''/chat'')\<rparr> True (other_members (w_db w) cid (su_id u)) w)"

text \<open>The \<open>try\<close> block: save, then schedule or deliver.\<close>

definition save_and_send :: "'r gw_env \<Rightarrow> time \<Rightarrow> sock_id \<Rightarrow> sock_user \<Rightarrow> id \<Rightarrow> send_dto \<Rightarrow> 'r world \<Rightarrow> 'r world" where
  "save_and_send env now sid u cid dto w =
     (case on_db (saveMessage (ge_json env) (su_id u) cid dto now) w of
        (Inl e, w) \<Rightarrow> fail_message sid (error_message e) w
      | (Inr msg, w) \<Rightarrow>
          (case sd_scheduledAt dto of
             Some t \<Rightarrow> scheduleMessageDelivery now (mv_id (mo_msg msg)) cid (t - now)
                        (emit (ToSocket sid) (Chat (MessageScheduled msg)) w)
           | None \<Rightarrow> deliver_now env u cid dto msg w))"

definition handleMessage :: "'r gw_env \<Rightarrow> time \<Rightarrow> sock_id \<Rightarrow> ws_message \<Rightarrow> sock_user \<Rightarrow> 'r world \<Rightarrow> 'r world" where
  "handleMessage env now sid m u =
     limited sid MsgLim ''sendMessage'' now (\<lambda>w.
       case wm_conversationId m of
         None \<Rightarrow> w
       | Some cid \<Rightarrow>
           if cid = 0 \<or> empty_message (wm_dto m) then w
           else case message_checks env now m of
             Inl e \<Rightarrow> fail_message sid e w
           | Inr due \<Rightarrow> save_and_send env now sid u cid ((wm_dto m)\<lparr>sd_scheduledAt := due\<rparr>) w)"

section \<open>Reading, typing, changing\<close>

definition handleMarkAsRead :: "time \<Rightarrow> sock_id \<Rightarrow> id \<Rightarrow> sock_user \<Rightarrow> 'r world \<Rightarrow> 'r world" where
  "handleMarkAsRead now sid cid u w =
     emit (ToRoomExcept (ConvRoom cid) sid) (Chat (ConversationRead (su_id u) cid))
       (w\<lparr>w_db := markAsRead (su_id u) cid now (w_db w)\<rparr>)"

definition handleTyping :: "time \<Rightarrow> sock_id \<Rightarrow> id \<Rightarrow> bool \<Rightarrow> sock_user \<Rightarrow> 'r world \<Rightarrow> 'r world" where
  "handleTyping now sid cid isTyping u =
     limited sid TypingLim ''typing'' now
       (emit (ToRoomExcept (ConvRoom cid) sid) (Chat (OnTyping (su_id u) (su_nickname u) cid isTyping)))"

definition handleDelete :: "time \<Rightarrow> sock_id \<Rightarrow> id \<Rightarrow> sock_user \<Rightarrow> 'r world \<Rightarrow> 'r world" where
  "handleDelete now sid mid u =
     limited sid MutateLim ''deleteMessage'' now (\<lambda>w.
       case on_db (deleteMessage mid (su_id u) now) w of
         (Inl e, w) \<Rightarrow> emit (ToSocket sid) (Chat (DeleteFailed mid (error_message e))) w
       | (Inr (g, files), w) \<Rightarrow>
           emit (ToRoom (ConvRoom (msg_conversationId g))) (Chat (MessageDeleted (msg_id g) (msg_conversationId g))) w)"

definition handleEdit :: "time \<Rightarrow> sock_id \<Rightarrow> id \<Rightarrow> jsstr \<Rightarrow> sock_user \<Rightarrow> 'r world \<Rightarrow> 'r world" where
  "handleEdit now sid mid content u =
     limited sid MutateLim ''editMessage'' now (\<lambda>w.
       case on_db (editMessage mid (su_id u) content now) w of
         (Inl e, w) \<Rightarrow> emit (ToSocket sid) (Chat (EditFailed mid (error_message e))) w
       | (Inr g, w) \<Rightarrow>
           emit (ToRoom (ConvRoom (msg_conversationId g)))
             (Chat (MessageEdited (msg_id g) (msg_content g) (msg_editedAt g) (msg_conversationId g))) w)"

text \<open>A failed reaction is only logged.\<close>

definition handleReaction :: "time \<Rightarrow> sock_id \<Rightarrow> id \<Rightarrow> jsstr \<Rightarrow> sock_user \<Rightarrow> 'r world \<Rightarrow> 'r world" where
  "handleReaction now sid mid emoji u =
     limited sid ReactLim ''toggleReaction'' now (\<lambda>w.
       case on_db (toggleReaction mid (su_id u) emoji now) w of
         (Inl e, w) \<Rightarrow> w
       | (Inr (grouped, cid), w) \<Rightarrow> emit (ToRoom (ConvRoom cid)) (Chat (ReactionToggled mid grouped cid)) w)"

definition handleFriendRequest :: "time \<Rightarrow> sock_id \<Rightarrow> id \<Rightarrow> sock_user \<Rightarrow> 'r world \<Rightarrow> 'r world" where
  "handleFriendRequest now sid receiverId u =
     limited sid FriendLim ''sendFriendRequest'' now (\<lambda>w.
       case on_db (sendRequest (su_id u) receiverId now) w of
         (Inl e, w) \<Rightarrow> emit (ToSocket sid) (Friend (FriendRequestFailed (error_message e))) w
       | (Inr f, w) \<Rightarrow>
           emit (ToSocket sid) (Friend (FriendRequestSent f))
             (emit (ToRoom (UserRoom receiverId)) (Friend (FriendRequestReceived f)) w))"

definition handleRespondFriend :: "time \<Rightarrow> sock_id \<Rightarrow> id \<Rightarrow> friendship_status \<Rightarrow> sock_user \<Rightarrow> 'r world \<Rightarrow> 'r world" where
  "handleRespondFriend now sid fid action u =
     limited sid FriendLim ''respondFriendRequest'' now (\<lambda>w.
       case on_db (respond (su_id u) fid action) w of
         (Inl e, w) \<Rightarrow> emit (ToSocket sid) (Friend (RespondFailed (error_message e))) w
       | (Inr f, w) \<Rightarrow>
           emit (ToSocket sid) (Friend (FriendRequestResponded f action))
             (emit (ToRoom (UserRoom (f_senderId (fr_row f)))) (Friend (FriendRequestResponded f action)) w))"

text \<open>Joining a room checks nothing but the token.\<close>

definition handleJoin :: "sock_id \<Rightarrow> id \<Rightarrow> sock_user \<Rightarrow> 'r world \<Rightarrow> 'r world" where
  "handleJoin sid cid u w =
     emit (ToSocket sid) (Chat (JoinedConversation cid)) (upd_sock sid (join_room (ConvRoom cid)) w)"

definition notifyUserJoinRoom :: "id \<Rightarrow> id \<Rightarrow> 'r world \<Rightarrow> 'r world" where
  "notifyUserJoinRoom uid cid w =
     emit (ToRoom (UserRoom uid)) (Chat (AddedToConversation cid))
       (w\<lparr>w_sockets := map (\<lambda>(s, k). (s, if UserRoom uid \<in> set (k_rooms k) then join_room (ConvRoom cid) k else k))
                        (w_sockets w)\<rparr>)"

definition handlePin :: "time \<Rightarrow> sock_id \<Rightarrow> id \<Rightarrow> id \<Rightarrow> sock_user \<Rightarrow> 'r world \<Rightarrow> 'r world" where
  "handlePin now sid cid mid u =
     limited sid MutateLim ''pinMessage'' now (\<lambda>w.
       case on_db (addPinnedMessage (su_id u) cid mid now) w of
         (Inl e, w) \<Rightarrow> emit (ToSocket sid) (Chat (PinFailed (error_message e))) w
       | (Inr r, w) \<Rightarrow> emit (ToRoom (ConvRoom cid)) (Chat (MessagePinned cid (pr_messageId r) (pr_message r) (pr_count r))) w)"

definition handleUnpin :: "time \<Rightarrow> sock_id \<Rightarrow> id \<Rightarrow> id \<Rightarrow> sock_user \<Rightarrow> 'r world \<Rightarrow> 'r world" where
  "handleUnpin now sid cid mid u =
     limited sid MutateLim ''unpinMessage'' now (\<lambda>w.
       case on_db (removePinnedMessage (su_id u) cid mid) w of
         (Inl e, w) \<Rightarrow> emit (ToSocket sid) (Chat (UnpinFailed (error_message e))) w
       | (Inr r, w) \<Rightarrow> emit (ToRoom (ConvRoom cid)) (Chat (MessageUnpinned cid)) w)"

text \<open>The two key relays use the \<open>userId\<close> that the connection stored; a failed lookup is swallowed.\<close>

definition handleRequestSenderKeyRedistribution :: "sock_id \<Rightarrow> id \<Rightarrow> id \<Rightarrow> sock_user \<Rightarrow> 'r world \<Rightarrow> 'r world" where
  "handleRequestSenderKeyRedistribution sid cid target u w =
     (case Option.bind (mget (w_sockets w) sid) k_userId of
        None \<Rightarrow> w
      | Some uid \<Rightarrow>
          if find_member (w_db w) cid uid = None then w
          else emit (ToRoom (UserRoom target)) (SenderKeyRedistributionRequested cid uid) w)"

definition handleKeyRotated :: "sock_id \<Rightarrow> sock_user \<Rightarrow> 'r world \<Rightarrow> 'r world" where
  "handleKeyRotated sid u w =
     (case Option.bind (mget (w_sockets w) sid) k_userId of
        None \<Rightarrow> w | Some uid \<Rightarrow> emit (ToAllExcept sid) (PeerKeyRotated uid) w)"

definition handleForwardMessage :: "time \<Rightarrow> sock_id \<Rightarrow> id \<Rightarrow> id \<Rightarrow> jsstr option \<Rightarrow> sock_user \<Rightarrow> 'r world \<Rightarrow> 'r world" where
  "handleForwardMessage now sid mid target reEncrypted u =
     limited sid ForwardLim ''forwardMessage'' now (\<lambda>w.
       case on_db (forwardMessage (su_id u) mid target reEncrypted now) w of
         (Inl e, w) \<Rightarrow> emit (ToSocket sid) (Chat (ForwardFailed (error_message e))) w
       | (Inr msg, w) \<Rightarrow> emit (ToRoom (ConvRoom target)) (Chat (OnMessage msg)) w)"

end
