(* ===== verification/DeviceSync.thy ===== *)
theory DeviceSync
  imports Presence
begin

text \<open>
  The signalling of a history transfer between two devices of one account,
  \<open>server/src/chat/chat.gateway.ts\<close> lines 749--946.  Public keys, session descriptions and candidates are
  opaque strings; the sessions live in the service that \<open>SyncSession\<close> models.
\<close>

section \<open>Operations\<close>

definition SYNC_SESSION_TTL_MS :: int where "SYNC_SESSION_TTL_MS = 5 * 60 * 1000"

text \<open>\<open>SESSION_ID_RE\<close>: 32 lower-case hexadecimal digits.\<close>

definition session_id_ok :: "jsstr \<Rightarrow> bool" where
  "session_id_ok s \<longleftrightarrow> length s = 32 \<and> list_all (\<lambda>c. 48 \<le> c \<and> c \<le> 57 \<or> 97 \<le> c \<and> c \<le> 102) s"

definition handleDeviceSyncStart ::
  "'r gw_env \<Rightarrow> time \<Rightarrow> sock_id \<Rightarrow> jsstr option \<Rightarrow> jsstr option \<Rightarrow> jsstr option \<Rightarrow> sock_user \<Rightarrow> 'r world \<Rightarrow> 'r world" where
  "handleDeviceSyncStart env now sid sessionId ekSource sdpOffer u =
     limited sid SyncLim ''deviceSyncStart'' now (\<lambda>w.
       let i = (case sessionId of None \<Rightarrow> [] | Some i \<Rightarrow> i)
       in if \<not> session_id_ok i then emit (ToSocket sid) (Sync (DeviceSyncError ''invalid_session_id'')) w
          else if sync_has (ge_redis env) now (w_sync w) i
               then emit (ToSocket sid) (Sync (DeviceSyncError ''session_exists'')) w
          else
            let s = \<lparr>ss_userId = su_id u, ss_sourceSocketId = sid, ss_targetSocketId = None,
                     ss_expiresAt = now + SYNC_SESSION_TTL_MS, ss_ekSource = ekSource, ss_sdpOffer = sdpOffer\<rparr>;
                w = w\<lparr>w_sync := trackSocket (ge_redis env) now sid i (sync_set (ge_redis env) now i s (w_sync w))\<rparr>
            in emit (ToSocket sid) (Sync (DeviceSyncReady i)) (upd_sock sid (join_room (SyncRoom i)) w))"

definition handleDeviceSyncJoin ::
  "'r gw_env \<Rightarrow> time \<Rightarrow> sock_id \<Rightarrow> jsstr \<Rightarrow> jsstr \<Rightarrow> sock_user \<Rightarrow> 'r world \<Rightarrow> 'r world" where
  "handleDeviceSyncJoin env now sid i ekTarget u =
     limited sid SyncLim ''deviceSyncJoin'' now (\<lambda>w.
       case sync_get (ge_redis env) now (w_sync w) i of
         None \<Rightarrow> emit (ToSocket sid) (Sync (DeviceSyncError ''not_found'')) w
       | Some s \<Rightarrow>
           if ss_expiresAt s \<le> now then emit (ToSocket sid) (Sync (DeviceSyncError ''not_found'')) w
           else if ss_userId s \<noteq> su_id u then emit (ToSocket sid) (Sync (DeviceSyncError ''not_found'')) w
           else if truthy (ss_targetSocketId s) then emit (ToSocket sid) (Sync (DeviceSyncError ''not_available'')) w
           else if ss_sourceSocketId s = sid then emit (ToSocket sid) (Sync (DeviceSyncError ''not_available'')) w
           else
             let w = w\<lparr>w_sync := trackSocket (ge_redis env) now sid i
                        (snd (sync_update (ge_redis env) now i (join_patch sid) (w_sync w)))\<rparr>
             in emit (ToRoom (SockRoom (ss_sourceSocketId s))) (Sync (DeviceSyncPeerJoined i ekTarget))
                  (emit (ToSocket sid) (Sync (DeviceSyncOffer i (ss_ekSource s) (ss_sdpOffer s)))
                    (upd_sock sid (join_room (SyncRoom i)) w)))"

definition handleDeviceSyncRelayAnswer ::
  "'r gw_env \<Rightarrow> time \<Rightarrow> sock_id \<Rightarrow> jsstr \<Rightarrow> jsstr \<Rightarrow> sock_user \<Rightarrow> 'r world \<Rightarrow> 'r world" where
  "handleDeviceSyncRelayAnswer env now sid i sdpAnswer u w =
     (case sync_get (ge_redis env) now (w_sync w) i of
        None \<Rightarrow> w
      | Some s \<Rightarrow>
          if ss_targetSocketId s \<noteq> Some sid then w
          else emit (ToRoom (SockRoom (ss_sourceSocketId s))) (Sync (DeviceSyncPeerAnswer i sdpAnswer)) w)"

definition handleDeviceSyncIce ::
  "'r gw_env \<Rightarrow> time \<Rightarrow> sock_id \<Rightarrow> jsstr \<Rightarrow> jsstr \<Rightarrow> sock_user \<Rightarrow> 'r world \<Rightarrow> 'r world" where
  "handleDeviceSyncIce env now sid i candidate u w =
     (case sync_get (ge_redis env) now (w_sync w) i of
        None \<Rightarrow> w
      | Some s \<Rightarrow>
          if ss_expiresAt s \<le> now then w
          else if ss_sourceSocketId s \<noteq> sid \<and> ss_targetSocketId s \<noteq> Some sid then w
          else to_peer (peer_of sid s) (DeviceSyncIce i candidate) w)"

definition handleDeviceSyncAbort ::
  "'r gw_env \<Rightarrow> time \<Rightarrow> sock_id \<Rightarrow> jsstr \<Rightarrow> sock_user \<Rightarrow> 'r world \<Rightarrow> 'r world" where
  "handleDeviceSyncAbort env now sid i u w =
     (case sync_get (ge_redis env) now (w_sync w) i of
        None \<Rightarrow> w
      | Some s \<Rightarrow>
          if ss_sourceSocketId s \<noteq> sid \<and> ss_targetSocketId s \<noteq> Some sid then w
          else emit (ToSocket sid) (Sync (DeviceSyncAborted i ''self_aborted''))
                 (to_peer (peer_of sid s) (DeviceSyncAborted i ''peer_aborted'')
                   (w\<lparr>w_sync := snd (deleteSession (ge_redis env) now i (w_sync w))\<rparr>)))"

end
