(* ===== verification/Calls.thy ===== *)
theory Calls
  imports Presence
begin

text \<open>
  Calls and WebRTC signalling, \<open>server/src/chat/chat.gateway.ts\<close> lines 522--652.  Session descriptions and
  ICE candidates are opaque strings.  The loggers are left out.
\<close>

section \<open>Operations\<close>

definition unknown_name :: jsstr where "unknown_name = js ''Unknown''"

definition handleCallUser :: "time \<Rightarrow> sock_id \<Rightarrow> jsstr \<Rightarrow> id \<Rightarrow> id \<Rightarrow> call_type \<Rightarrow> sock_user \<Rightarrow> 'r world \<Rightarrow> 'r world" where
  "handleCallUser now sid callId cid target ty u =
     limited sid CallLim ''callUser'' now (\<lambda>w.
       if mhas (w_calls w) callId then w
       else
         let w = w\<lparr>w_calls := mset_at callId \<lparr>call_callerId = su_id u, call_calleeId = target,
                    call_conversationId = cid, call_callType = ty\<rparr> (w_calls w)\<rparr>;
             caller = find_user (w_db w) (su_id u)
         in emit (ToRoom (UserRoom target)) (Calling (IncomingCall callId cid (su_id u)
              (case caller of None \<Rightarrow> unknown_name | Some c \<Rightarrow> u_nickname c)
              (Option.bind caller u_avatarUrl) ty)) w)"

definition handleCallAccept :: "jsstr \<Rightarrow> call_type \<Rightarrow> sock_user \<Rightarrow> 'r world \<Rightarrow> 'r world" where
  "handleCallAccept callId ty u w =
     (case mget (w_calls w) callId of None \<Rightarrow> w
      | Some c \<Rightarrow> emit (ToRoom (UserRoom (call_callerId c))) (Calling (CallAccepted callId ty)) w)"

definition handleCallReject :: "jsstr \<Rightarrow> sock_user \<Rightarrow> 'r world \<Rightarrow> 'r world" where
  "handleCallReject callId u w =
     (case mget (w_calls w) callId of None \<Rightarrow> w
      | Some c \<Rightarrow> emit (ToRoom (UserRoom (call_callerId c))) (Calling (CallRejected callId))
                   (w\<lparr>w_calls := mdelete callId (w_calls w)\<rparr>))"

definition other_party :: "sock_user \<Rightarrow> call \<Rightarrow> id" where
  "other_party u c = (if su_id u = call_callerId c then call_calleeId c else call_callerId c)"

definition handleCallEnd :: "jsstr \<Rightarrow> sock_user \<Rightarrow> 'r world \<Rightarrow> 'r world" where
  "handleCallEnd callId u w =
     (case mget (w_calls w) callId of None \<Rightarrow> w
      | Some c \<Rightarrow> emit (ToRoom (UserRoom (other_party u c))) (Calling (CallEnded callId))
                   (w\<lparr>w_calls := mdelete callId (w_calls w)\<rparr>))"

definition handleCallBusy :: "jsstr \<Rightarrow> sock_user \<Rightarrow> 'r world \<Rightarrow> 'r world" where
  "handleCallBusy callId u w =
     (case mget (w_calls w) callId of None \<Rightarrow> w
      | Some c \<Rightarrow> emit (ToRoom (UserRoom (call_callerId c))) (Calling (CallBusy callId))
                   (w\<lparr>w_calls := mdelete callId (w_calls w)\<rparr>))"

definition handleSdpOffer :: "jsstr \<Rightarrow> jsstr \<Rightarrow> sock_user \<Rightarrow> 'r world \<Rightarrow> 'r world" where
  "handleSdpOffer callId offer u w =
     (case mget (w_calls w) callId of None \<Rightarrow> w
      | Some c \<Rightarrow> emit (ToRoom (UserRoom (other_party u c))) (Calling (SdpOffer callId offer)) w)"

definition handleSdpAnswer :: "jsstr \<Rightarrow> jsstr \<Rightarrow> sock_user \<Rightarrow> 'r world \<Rightarrow> 'r world" where
  "handleSdpAnswer callId answer u w =
     (case mget (w_calls w) callId of None \<Rightarrow> w
      | Some c \<Rightarrow> emit (ToRoom (UserRoom (other_party u c))) (Calling (SdpAnswer callId answer)) w)"

definition handleIceCandidate :: "jsstr \<Rightarrow> jsstr \<Rightarrow> sock_user \<Rightarrow> 'r world \<Rightarrow> 'r world" where
  "handleIceCandidate callId candidate u w =
     (case mget (w_calls w) callId of None \<Rightarrow> w
      | Some c \<Rightarrow> emit (ToRoom (UserRoom (other_party u c))) (Calling (IceCandidate callId candidate)) w)"

end
