(* ===== verification/Gateway.thy ===== *)
theory Gateway
  imports GatewayMessages DeviceSync Calls
begin

text \<open>
  The gateway as one state machine: the messages it subscribes to (\<open>ws_in\<close>), the events of the server
  (\<open>gw_op\<close>), the step function that dispatches them to the handlers, and the invariant of the states it
  reaches: which user each socket speaks for, which sockets a user has, who is in whose room, who takes part
  in a sync session, and the online flags of the users.

  The sync sessions are those of the in-memory store (the server without \<open>REDIS_URL\<close>);
  \<open>SyncSession.sync_store_refines\<close> relates the Redis store to it.
\<close>

section \<open>Dispatch\<close>

datatype chat_in =
    SendMessage ws_message
  | MarkAsRead id
  | Typing id bool
  | DeleteMsg id
  | EditMsg id jsstr
  | React id jsstr
  | SendFriendReq id
  | RespondFriendReq id friendship_status
  | JoinConv id
  | PinMsg id id
  | UnpinMsg id id
  | RedistributeKeys id id
  | KeyRotated
  | ForwardMsg id id "jsstr option"

datatype call_in =
    CallUser jsstr id id call_type
  | AcceptCall jsstr call_type
  | RejectCall jsstr
  | EndCall jsstr
  | BusyCall jsstr
  | OfferSdp jsstr jsstr
  | AnswerSdp jsstr jsstr
  | SendIce jsstr jsstr

datatype sync_in =
    SyncStart "jsstr option" "jsstr option" "jsstr option"
  | SyncJoin jsstr jsstr
  | SyncAnswer jsstr jsstr
  | SyncIce jsstr jsstr
  | SyncAbort jsstr

datatype ws_in = UpdateToken jsstr | ChatIn chat_in | CallIn call_in | SyncIn sync_in

fun handle_chat :: "'r gw_env \<Rightarrow> time \<Rightarrow> sock_id \<Rightarrow> chat_in \<Rightarrow> sock_user \<Rightarrow> 'r world \<Rightarrow> 'r world" where
  "handle_chat env now sid (SendMessage m) = handleMessage env now sid m"
| "handle_chat env now sid (MarkAsRead cid) = handleMarkAsRead now sid cid"
| "handle_chat env now sid (Typing cid b) = handleTyping now sid cid b"
| "handle_chat env now sid (DeleteMsg mid) = handleDelete now sid mid"
| "handle_chat env now sid (EditMsg mid x) = handleEdit now sid mid x"
| "handle_chat env now sid (React mid e) = handleReaction now sid mid e"
| "handle_chat env now sid (SendFriendReq r) = handleFriendRequest now sid r"
| "handle_chat env now sid (RespondFriendReq f a) = handleRespondFriend now sid f a"
| "handle_chat env now sid (JoinConv cid) = handleJoin sid cid"
| "handle_chat env now sid (PinMsg cid mid) = handlePin now sid cid mid"
| "handle_chat env now sid (UnpinMsg cid mid) = handleUnpin now sid cid mid"
| "handle_chat env now sid (RedistributeKeys cid t) = handleRequestSenderKeyRedistribution sid cid t"
| "handle_chat env now sid KeyRotated = handleKeyRotated sid"
| "handle_chat env now sid (ForwardMsg mid t c) = handleForwardMessage now sid mid t c"

fun handle_call :: "time \<Rightarrow> sock_id \<Rightarrow> call_in \<Rightarrow> sock_user \<Rightarrow> 'r world \<Rightarrow> 'r world" where
  "handle_call now sid (CallUser i cid t ty) = handleCallUser now sid i cid t ty"
| "handle_call now sid (AcceptCall i ty) = handleCallAccept i ty"
| "handle_call now sid (RejectCall i) = handleCallReject i"
| "handle_call now sid (EndCall i) = handleCallEnd i"
| "handle_call now sid (BusyCall i) = handleCallBusy i"
| "handle_call now sid (OfferSdp i x) = handleSdpOffer i x"
| "handle_call now sid (AnswerSdp i x) = handleSdpAnswer i x"
| "handle_call now sid (SendIce i x) = handleIceCandidate i x"

fun handle_sync :: "'r gw_env \<Rightarrow> time \<Rightarrow> sock_id \<Rightarrow> sync_in \<Rightarrow> sock_user \<Rightarrow> 'r world \<Rightarrow> 'r world" where
  "handle_sync env now sid (SyncStart i k x) = handleDeviceSyncStart env now sid i k x"
| "handle_sync env now sid (SyncJoin i k) = handleDeviceSyncJoin env now sid i k"
| "handle_sync env now sid (SyncAnswer i x) = handleDeviceSyncRelayAnswer env now sid i x"
| "handle_sync env now sid (SyncIce i x) = handleDeviceSyncIce env now sid i x"
| "handle_sync env now sid (SyncAbort i) = handleDeviceSyncAbort env now sid i"

fun ws_dispatch :: "'r gw_env \<Rightarrow> time \<Rightarrow> sock_id \<Rightarrow> ws_in \<Rightarrow> 'r world \<Rightarrow> 'r world" where
  "ws_dispatch env now sid (UpdateToken t) = handleUpdateToken env now sid t"
| "ws_dispatch env now sid (ChatIn m) = guarded env now sid (handle_chat env now sid m)"
| "ws_dispatch env now sid (CallIn m) = guarded env now sid (handle_call now sid m)"
| "ws_dispatch env now sid (SyncIn m) = guarded env now sid (handle_sync env now sid m)"

datatype gw_op =
    Connect sock_id "jsstr option" "jsstr option"
  | Receive sock_id ws_in
  | Close sock_id
  | FireTimer "time \<times> id \<times> id"
  | Interval
  | NotifyJoin id id
  | ModuleInit

fun gw_step :: "'r gw_env \<Rightarrow> 'r world \<Rightarrow> time \<times> gw_op \<Rightarrow> 'r world" where
  "gw_step env w (now, Connect sid auth query) = connect env now sid auth query w"
| "gw_step env w (now, Receive sid m) = ws_dispatch env now sid m w"
| "gw_step env w (now, Close sid) = disconnect env now sid w"
| "gw_step env w (now, FireTimer t) = fire_timer env now t w"
| "gw_step env w (now, Interval) = interval_cleanup now w"
| "gw_step env w (now, NotifyJoin uid cid) = notifyUserJoinRoom uid cid w"
| "gw_step env w (now, ModuleInit) = onModuleInit env now w"

text \<open>Socket.IO gives a new connection an id that nothing mentions yet.\<close>

fun gw_ok :: "'r gw_env \<Rightarrow> 'r world \<Rightarrow> time \<times> gw_op \<Rightarrow> bool" where
  "gw_ok env w (now, Connect sid auth query) \<longleftrightarrow> sid \<noteq> [] \<and> mget (w_sockets w) sid = None
     \<and> (\<forall>x\<in>set (sy_mem (w_sync w)). sid \<notin> set (session_sockets (snd x)))"
| "gw_ok env w (now, op) \<longleftrightarrow> True"

section \<open>The invariant\<close>

text \<open>What the token library promises: a token keeps its claims, is not empty, and its subject is a user id.\<close>

definition good_jwt :: "'r gw_env \<Rightarrow> bool" where
  "good_jwt env \<longleftrightarrow> (\<forall>tok t p. ge_verify env tok t = Inr p \<longrightarrow> tok \<noteq> [] \<and> 0 < jwt_sub p
     \<and> (\<forall>t' p'. ge_verify env tok t' = Inr p' \<longrightarrow> p' = p))"

fun room_ok :: "sock_id \<Rightarrow> id option \<Rightarrow> room \<Rightarrow> bool" where
  "room_ok sid uid (UserRoom u) \<longleftrightarrow> uid = Some u"
| "room_ok sid uid (SockRoom s) \<longleftrightarrow> s = sid"
| "room_ok sid uid (UserQRoom u) \<longleftrightarrow> False"
| "room_ok sid uid (ConvRoom c) \<longleftrightarrow> True"
| "room_ok sid uid (SyncRoom i) \<longleftrightarrow> True"

definition sock_ok :: "'r gw_env \<Rightarrow> sock_id \<Rightarrow> sock \<Rightarrow> bool" where
  "sock_ok env sid k \<longleftrightarrow> (\<forall>r\<in>set (k_rooms k). room_ok sid (k_userId k) r)
     \<and> (case k_userId k of None \<Rightarrow> k_user k = None \<and> k_currentToken k = None
        | Some uid \<Rightarrow> 0 < uid \<and> (\<exists>u. k_user k = Some u \<and> su_id u = uid)
            \<and> (\<exists>tok t p. k_currentToken k = Some tok \<and> tok \<noteq> [] \<and> ge_verify env tok t = Inr p \<and> jwt_sub p = uid))"

definition sockets_of :: "'r world \<Rightarrow> id \<Rightarrow> sock_id set" where
  "sockets_of w uid = {sid. \<exists>k. mget (w_sockets w) sid = Some k \<and> k_userId k = Some uid}"

lemma sockets_of_bind: "sockets_of w uid = {sid. Option.bind (mget (w_sockets w) sid) k_userId = Some uid}"
  by (auto simp: sockets_of_def bind_eq_Some_conv)

definition active_of :: "'r world \<Rightarrow> id \<Rightarrow> sock_id list" where
  "active_of w uid = (case mget (w_active w) uid of None \<Rightarrow> [] | Some s \<Rightarrow> s)"

definition conn_inv :: "'r gw_env \<Rightarrow> 'r world \<Rightarrow> bool" where
  "conn_inv env w \<longleftrightarrow> (\<forall>sid k. mget (w_sockets w) sid = Some k \<longrightarrow> sock_ok env sid k)
     \<and> (\<forall>u. distinct (active_of w u) \<and> set (active_of w u) = sockets_of w u \<and> mget (w_active w) u \<noteq> Some [])"

definition online_inv :: "'r world \<Rightarrow> bool" where
  "online_inv w \<longleftrightarrow> tbl_wf u_id (db_users (w_db w))
     \<and> (\<forall>u\<in>set (rows (db_users (w_db w))). u_isOnline u \<longleftrightarrow> mget (w_active w) (u_id u) \<noteq> None)"

definition owned :: "'r world \<Rightarrow> sync_session \<Rightarrow> bool" where
  "owned w s \<longleftrightarrow> (\<forall>sid\<in>set (session_sockets s). \<forall>k. mget (w_sockets w) sid = Some k \<longrightarrow> k_userId k = Some (ss_userId s))"

definition store_inv :: "(sync_session \<Rightarrow> bool) \<Rightarrow> 'r sync_svc \<Rightarrow> bool" where
  "store_inv P sv \<longleftrightarrow> mem_wf sv \<and> sync_ok (mget (sy_mem sv)) (mget (sy_sktMem sv))
     \<and> (\<forall>i s. mget (sy_mem sv) i = Some s \<longrightarrow> P s)"

definition gw_inv :: "'r gw_env \<Rightarrow> 'r world \<Rightarrow> bool" where
  "gw_inv env w \<longleftrightarrow> conn_inv env w \<and> online_inv w \<and> store_inv (owned w) (w_sync w) \<and> mget (w_sockets w) [] = None"

text \<open>Most handlers leave connections, sync sessions and users alone.\<close>

definition same_conn :: "'r world \<Rightarrow> 'r world \<Rightarrow> bool" where
  "same_conn w w' \<longleftrightarrow> w_active w' = w_active w \<and> w_sockets w' = w_sockets w \<and> w_sync w' = w_sync w
     \<and> db_users (w_db w') = db_users (w_db w)"

lemma same_conn_inv: "same_conn w w' \<Longrightarrow> gw_inv env w \<Longrightarrow> gw_inv env w'"
  by (simp add: same_conn_def gw_inv_def conn_inv_def online_inv_def owned_def[abs_def] active_of_def sockets_of_def)

named_theorems conn_intros \<open>handlers that leave the connections alone\<close>

lemma same_conn_refl [simp, conn_intros]: "same_conn w w"
  by (simp add: same_conn_def)

lemma same_conn_trans: "same_conn a b \<Longrightarrow> same_conn b c \<Longrightarrow> same_conn a c"
  by (simp add: same_conn_def)

lemma same_conn_emit [conn_intros]: "same_conn w w' \<Longrightarrow> same_conn w (emit to e w')"
  by (simp add: same_conn_def)

lemma same_conn_to_peer [conn_intros]: "same_conn w w' \<Longrightarrow> same_conn w (to_peer p e w')"
  by (simp add: same_conn_def to_peer_def)

lemma same_conn_limited [conn_intros]: "(\<And>w. same_conn w (h w)) \<Longrightarrow> same_conn w (limited s l ev now h w)"
proof -
  assume h: "\<And>w. same_conn w (h w)"
  have r: "same_conn w (snd (rateLimit s l ev now w))" by (simp add: same_conn_def)
  show ?thesis using same_conn_trans[OF r h] r by (cases "rateLimit s l ev now w") (simp add: limited_def)
qed

lemma same_conn_on_db:
  assumes "\<And>d. db_users (snd (f d)) = db_users d" "\<And>e w. same_conn w (g (Inl e, w))" "\<And>x w. same_conn w (g (Inr x, w))"
  shows "same_conn w (g (on_db f w))"
proof -
  obtain r w' where o: "on_db f w = (r, w')" by fastforce
  then have "w' = snd (on_db f w)" by simp
  then have "same_conn w w'" using assms(1) by (simp add: same_conn_def)
  moreover have "same_conn w' (g (r, w'))" using assms(2,3) by (cases r) auto
  ultimately show ?thesis unfolding o by (rule same_conn_trans)
qed

lemma same_conn_core: "same_core w w' \<Longrightarrow> same_conn w w'"
  unfolding same_conn_def using same_core_simps by metis

lemma same_conn_fold: "(\<And>x w. same_conn w (f x w)) \<Longrightarrow> same_conn w (fold f xs w)"
  by (induction xs arbitrary: w) (auto intro: same_conn_trans)

lemma same_conn_push_all [conn_intros]: "same_conn w w' \<Longrightarrow> same_conn w (push_all env p b us w')"
  by (rule same_conn_trans[where b = w'], assumption)
    (simp add: push_all_def same_conn_fold same_conn_core sendToUser_core)

lemma same_conn_schedule [conn_intros]: "same_conn w w' \<Longrightarrow> same_conn w (scheduleMessageDelivery now mid cid delay w')"
  by (simp add: same_conn_def scheduleMessageDelivery_def)

section \<open>Which handlers leave the connections alone\<close>

named_theorems users_frame \<open>service calls that do not touch the users\<close>

lemma users_elementary [simp, users_frame]:
  "db_users (snd (create_message mk d)) = db_users d"
  "db_users (snd (create_envelopes mid es d)) = db_users d"
  "db_users (snd (touch_conv cid now d)) = db_users d"
  "db_users (snd (update_msg mid f d)) = db_users d"
  "db_users (snd (upsert_pin cid mid uid now d)) = db_users d"
  "db_users (snd (flip_reaction mid uid emoji now d)) = db_users d"
  "db_users (snd (create_friendship s r now d)) = db_users d"
  "db_users (delete_friendship i d) = db_users d"
  "db_users (markAsRead uid cid now d) = db_users d"
  by (auto simp: create_message_def create_envelopes_def touch_conv_def update_conv_def update_msg_def upsert_pin_def
      flip_reaction_def create_friendship_def delete_friendship_def markAsRead_def Let_def split: option.split)

lemma users_check: "(\<And>x. db_users (snd (f x d)) = db_users d) \<Longrightarrow> db_users (snd (check r f d)) = db_users d"
  by (cases r) auto

lemma users_sbind:
  "db_users (snd p) = db_users d \<Longrightarrow> (\<And>x d'. db_users d' = db_users d \<Longrightarrow> db_users (snd (f x d')) = db_users d)
   \<Longrightarrow> db_users (snd (sbind p f)) = db_users d"
  by (auto simp: sbind_def split: prod.split sum.split)

lemma users_services [simp, users_frame]:
  "db_users (snd (saveMessage J uid cid dto now d)) = db_users d"
  "db_users (snd (deleteMessage mid uid now d)) = db_users d"
  "db_users (snd (editMessage mid uid x now d)) = db_users d"
  "db_users (snd (toggleReaction mid uid emoji now d)) = db_users d"
  "db_users (snd (addPinnedMessage uid cid mid now d)) = db_users d"
  "db_users (snd (removePinnedMessage uid cid mid d)) = db_users d"
  "db_users (snd (forwardMessage uid mid target c now d)) = db_users d"
  "db_users (snd (sendRequest uid r now d)) = db_users d"
  "db_users (snd (respond uid fid a d)) = db_users d"
proof -
  show "db_users (snd (saveMessage J uid cid dto now d)) = db_users d"
    unfolding saveMessage_def by (auto intro!: users_check users_sbind split: option.split)
  show "db_users (snd (deleteMessage mid uid now d)) = db_users d"
    unfolding deleteMessage_def by (auto intro!: users_sbind simp: Let_def split: option.split)
  show "db_users (snd (editMessage mid uid x now d)) = db_users d"
    unfolding editMessage_def by (auto split: option.split)
  show "db_users (snd (toggleReaction mid uid emoji now d)) = db_users d"
    unfolding toggleReaction_def by (auto intro!: users_check users_sbind split: option.split)
  show "db_users (snd (addPinnedMessage uid cid mid now d)) = db_users d"
    unfolding addPinnedMessage_def by (auto intro!: users_check users_sbind split: option.split)
  show "db_users (snd (removePinnedMessage uid cid mid d)) = db_users d"
    unfolding removePinnedMessage_def by (auto intro!: users_check simp: Let_def)
  show "db_users (snd (forwardMessage uid mid target c now d)) = db_users d"
    unfolding forwardMessage_def by (auto intro!: users_check users_sbind split: option.split)
  show "db_users (snd (sendRequest uid r now d)) = db_users d"
    unfolding sendRequest_def by (auto intro!: users_check users_sbind split: option.split)
  show "db_users (snd (respond uid fid a d)) = db_users d"
    unfolding respond_def by (auto simp: Let_def split: option.split)
qed

lemma same_conn_deliver [conn_intros]: "same_conn w (deliverScheduledMessage env now mid cid w)"
  unfolding deliverScheduledMessage_def Let_def
  by (auto intro!: conn_intros split: option.split) (simp add: same_conn_def)

lemma same_conn_save: "same_conn w (save_and_send env now sid u cid dto w)"
  unfolding save_and_send_def
  by (rule same_conn_on_db)
    (simp_all add: fail_message_def deliver_now_def conn_intros Let_def split: option.split)

lemma same_conn_handlers [conn_intros]:
  "same_conn w (handleMessage env now sid m u w)"
  "same_conn w (handleMarkAsRead now sid cid u w)"
  "same_conn w (handleTyping now sid cid b u w)"
  "same_conn w (handleDelete now sid mid u w)"
  "same_conn w (handleEdit now sid mid x u w)"
  "same_conn w (handleReaction now sid mid e u w)"
  "same_conn w (handleFriendRequest now sid r u w)"
  "same_conn w (handleRespondFriend now sid f a u w)"
  "same_conn w (handlePin now sid cid mid u w)"
  "same_conn w (handleUnpin now sid cid mid u w)"
  "same_conn w (handleRequestSenderKeyRedistribution sid cid t u w)"
  "same_conn w (handleKeyRotated sid u w)"
  "same_conn w (handleForwardMessage now sid mid t c u w)"
proof -
  show "same_conn w (handleMessage env now sid m u w)"
    unfolding handleMessage_def
    by (rule same_conn_limited) (simp add: same_conn_save fail_message_def conn_intros split: option.split sum.split)
  show "same_conn w (handleMarkAsRead now sid cid u w)" by (simp add: handleMarkAsRead_def same_conn_def)
  show "same_conn w (handleTyping now sid cid b u w)" unfolding handleTyping_def by (simp add: conn_intros)
  show "same_conn w (handleDelete now sid mid u w)" unfolding handleDelete_def
    by (rule same_conn_limited, rule same_conn_on_db) (auto intro!: conn_intros)
  show "same_conn w (handleEdit now sid mid x u w)" unfolding handleEdit_def
    by (rule same_conn_limited, rule same_conn_on_db) (auto intro!: conn_intros)
  show "same_conn w (handleReaction now sid mid e u w)" unfolding handleReaction_def
    by (rule same_conn_limited, rule same_conn_on_db) (auto intro!: conn_intros)
  show "same_conn w (handleFriendRequest now sid r u w)" unfolding handleFriendRequest_def
    by (rule same_conn_limited, rule same_conn_on_db) (auto intro!: conn_intros)
  show "same_conn w (handleRespondFriend now sid f a u w)" unfolding handleRespondFriend_def
    by (rule same_conn_limited, rule same_conn_on_db) (auto intro!: conn_intros)
  show "same_conn w (handlePin now sid cid mid u w)" unfolding handlePin_def
    by (rule same_conn_limited, rule same_conn_on_db) (auto intro!: conn_intros)
  show "same_conn w (handleUnpin now sid cid mid u w)" unfolding handleUnpin_def
    by (rule same_conn_limited, rule same_conn_on_db) (auto intro!: conn_intros)
  show "same_conn w (handleRequestSenderKeyRedistribution sid cid t u w)"
    unfolding handleRequestSenderKeyRedistribution_def by (auto intro!: conn_intros split: option.split)
  show "same_conn w (handleKeyRotated sid u w)"
    unfolding handleKeyRotated_def by (auto intro!: conn_intros split: option.split)
  show "same_conn w (handleForwardMessage now sid mid t c u w)" unfolding handleForwardMessage_def
    by (rule same_conn_limited, rule same_conn_on_db) (auto intro!: conn_intros)
qed

lemma same_conn_call: "same_conn w (handle_call now sid m u w)"
proof (cases m)
  case (CallUser i cid t ty)
  show ?thesis unfolding CallUser handle_call.simps handleCallUser_def
    by (rule same_conn_limited) (simp add: same_conn_def Let_def)
qed (auto simp: handleCallAccept_def handleCallReject_def handleCallEnd_def handleCallBusy_def handleSdpOffer_def
      handleSdpAnswer_def handleIceCandidate_def same_conn_def split: option.split)

lemma same_conn_relay:
  "same_conn w (handleDeviceSyncRelayAnswer env now sid i x u w)"
  "same_conn w (handleDeviceSyncIce env now sid i x u w)"
  by (auto simp: handleDeviceSyncRelayAnswer_def handleDeviceSyncIce_def intro!: conn_intros split: option.split)

lemma same_conn_timer: "same_conn w (fire_timer env now t w)"
proof -
  have "same_conn w (w\<lparr>w_timers := remove1 t (w_timers w)\<rparr>)" by (simp add: same_conn_def)
  from same_conn_trans[OF this same_conn_deliver] show ?thesis by (simp add: fire_timer_def)
qed

lemma same_conn_init: "same_conn w (onModuleInit env now w)"
  unfolding onModuleInit_def Let_def by (rule same_conn_fold) (auto intro!: conn_intros)

section \<open>The invariant is kept\<close>

subsection \<open>The session store\<close>

lemma store_views:
  assumes "mem_wf sv"
  shows "sync_get api now sv = mget (sy_mem sv)" "sync_socket api now sv = mget (sy_sktMem sv)"
  using assms by (auto simp: mem_wf_def mem_ops_simps fun_eq_iff)

lemma store_mono: "store_inv P sv \<Longrightarrow> (\<And>s. P s \<Longrightarrow> Q s) \<Longrightarrow> store_inv Q sv"
  unfolding store_inv_def by blast

lemma store_start:
  fixes api :: "'r redis_api"
  assumes "store_inv P sv" "\<not> sync_has api now sv i" "ss_sourceSocketId s = k" "k \<noteq> []" "ss_targetSocketId s = None" "P s"
  shows "store_inv P (trackSocket api now k i (sync_set api now i s sv))"
proof -
  have wf: "mem_wf sv" and ok: "sync_ok (sync_get api now sv) (sync_socket api now sv)"
    using assms(1) by (auto simp: store_inv_def store_views)
  let ?sv = "trackSocket api now k i (sync_set api now i s sv)"
  have wf': "mem_wf ?sv" using mem_store.wf_trk mem_store.wf_put wf by metis
  have get: "sync_get api now ?sv j = (if j = i then Some s else sync_get api now sv j)" for j
    using mem_store.wf_put[OF wf] wf by (simp only: mem_store.get_trk mem_store.get_put)
  have none: "sync_get api now sv i = None" 
    using assms(2) wf by (cases "mget (sy_mem sv) i") (simp_all add: mem_wf_def mem_ops_simps mhas_def)
  have "sync_ok (sync_get api now ?sv) (sync_socket api now ?sv)"
    using mem_store.start_ok[OF wf ok none] assms(3-5) by metis
  moreover have "P s'" if "sync_get api now ?sv j = Some s'" for j s'
    using that assms(1,6) wf by (auto simp: get store_inv_def store_views split: if_splits)
  ultimately show ?thesis using wf' by (simp add: store_inv_def store_views)
qed

lemma store_join:
  fixes api :: "'r redis_api"
  assumes "store_inv P sv" "sync_get api now sv i = Some s" "ss_targetSocketId s = None" "ss_sourceSocketId s \<noteq> k" "k \<noteq> []"
    and "P (join_patch k s)"
  shows "store_inv P (trackSocket api now k i (snd (sync_update api now i (join_patch k) sv)))"
proof -
  have wf: "mem_wf sv" and ok: "sync_ok (sync_get api now sv) (sync_socket api now sv)"
    using assms(1) by (auto simp: store_inv_def store_views)
  have up: "snd (sync_update api now i (join_patch k) sv) = sync_set api now i (join_patch k s) sv"
    using assms(2) by (simp add: sync_update_def)
  let ?sv = "trackSocket api now k i (sync_set api now i (join_patch k s) sv)"
  have wf': "mem_wf ?sv" using mem_store.wf_trk mem_store.wf_put wf by metis
  have get: "sync_get api now ?sv j = (if j = i then Some (join_patch k s) else sync_get api now sv j)" for j
    using mem_store.wf_put[OF wf] wf by (simp only: mem_store.get_trk mem_store.get_put)
  have "sync_ok (sync_get api now ?sv) (sync_socket api now ?sv)"
    using mem_store.join_ok[OF wf ok assms(2-5)] .
  moreover have "P s'" if "sync_get api now ?sv j = Some s'" for j s'
    using that assms(1,6) wf by (auto simp: get store_inv_def store_views split: if_splits)
  ultimately show ?thesis using wf' up by (simp add: store_inv_def store_views)
qed

lemma store_delete:
  fixes api :: "'r redis_api"
  assumes "store_inv P sv"
  shows "store_inv P (snd (deleteSession api now i sv))"
proof -
  have wf: "mem_wf sv" and ok: "sync_ok (sync_get api now sv) (sync_socket api now sv)"
    using assms by (auto simp: store_inv_def store_views)
  let ?sv = "snd (deleteSession api now i sv)"
  have wf': "mem_wf ?sv" using mem_store.wf_del[OF wf] .
  have "sync_ok (sync_get api now ?sv) (sync_socket api now ?sv)" using mem_store.del_ok[OF wf ok] .
  moreover have "P s'" if "sync_get api now ?sv j = Some s'" for j s'
    using that assms wf by (auto simp: mem_store.get_del store_inv_def store_views split: if_splits)
  ultimately show ?thesis using wf' by (simp add: store_inv_def store_views)
qed

lemma store_purge: "store_inv P sv \<Longrightarrow> store_inv P (purgeExpired now sv)"
  using purge_ok[of sv now] by (auto simp: store_inv_def purge_get_mem split: option.splits if_splits)

subsection \<open>Sockets\<close>

lemma join_room_simps [simp]:
  "k_userId (join_room r k) = k_userId k" "k_user (join_room r k) = k_user k"
  "k_currentToken (join_room r k) = k_currentToken k" "set (k_rooms (join_room r k)) = insert r (set (k_rooms k))"
  by (simp_all add: join_room_def)

lemma fold_join_room [simp]: "k_userId (fold join_room rs k) = k_userId k" "k_user (fold join_room rs k) = k_user k"
  by (induction rs arbitrary: k) (auto simp: join_room_def)

lemma sock_ok_rooms:
  "sock_ok env sid k \<Longrightarrow> (\<And>r. r \<in> set rs \<Longrightarrow> room_ok sid (k_userId k) r) \<Longrightarrow> sock_ok env sid (fold join_room rs k)"
proof (induction rs arbitrary: k)
  case (Cons r rs)
  have "sock_ok env sid (join_room r k)" using Cons.prems by (cases "k_userId k") (auto simp: sock_ok_def)
  then show ?case using Cons by simp
qed simp

lemma gw_inv_upd_sock:
  assumes "gw_inv env w"
    and "\<And>k. mget (w_sockets w) sid = Some k \<Longrightarrow> k_userId (f k) = k_userId k \<and> sock_ok env sid (f k)"
  shows "gw_inv env (upd_sock sid f w)"
proof -
  have "sockets_of (upd_sock sid f w) u = sockets_of w u" for u
    using assms(2) by (auto simp: sockets_of_def split: if_splits)
  moreover have "owned w s \<Longrightarrow> owned (upd_sock sid f w) s" for s
    using assms(2) by (auto simp: owned_def)
  ultimately show ?thesis using assms store_mono[of "owned w" "w_sync w" "owned (upd_sock sid f w)"]
    by (auto simp: gw_inv_def conn_inv_def online_inv_def active_of_def)
qed

lemma gw_inv_sockD: "gw_inv env w \<Longrightarrow> mget (w_sockets w) sid = Some k \<Longrightarrow> sock_ok env sid k"
  by (simp add: gw_inv_def conn_inv_def)

text \<open>The guard never changes whom a socket speaks for.\<close>

lemma guard_identity:
  assumes inv: "gw_inv env w" and jwt: "good_jwt env" and g: "ws_guard env now sid w = (Some u, w')"
  shows "gw_inv env w' \<and> sockets_of w' (su_id u) = sockets_of w (su_id u) \<and> sid \<in> sockets_of w' (su_id u)
    \<and> Option.bind (mget (w_sockets w') sid) k_user = Some u"
proof -
  obtain k p tok where k: "mget (w_sockets w) sid = Some k" "k_user k \<noteq> None" "tok \<noteq> []"
      "Some tok = or_token (k_currentToken k) (or_token (k_authToken k) (k_queryToken k))"
    and p: "ge_verify env tok now = Inr p" "su_id u = jwt_sub p"
    and w': "w' = upd_sock sid (\<lambda>k. k\<lparr>k_user := Some u\<rparr>) w"
    using ws_guard_SomeD[OF g] by auto
  have ok: "sock_ok env sid k" using gw_inv_sockD[OF inv k(1)] .
  then obtain uid tok' t p' where uid: "k_userId k = Some uid" "0 < uid" "k_currentToken k = Some tok'" "tok' \<noteq> []"
      "ge_verify env tok' t = Inr p'" "jwt_sub p' = uid"
    using k(2) by (auto simp: sock_ok_def split: option.splits)
  have "tok = tok'" using k(4) uid(3,4) by (simp add: or_token_def)
  then have "p' = p" using p(1) uid(5) jwt unfolding good_jwt_def by metis
  then have id: "su_id u = uid" using p(2) uid(6) by simp
  have "gw_inv env w'" unfolding w'
    by (rule gw_inv_upd_sock[OF inv]) (use ok k(1) uid id in \<open>auto simp: sock_ok_def\<close>)
  then show ?thesis using w' k(1) uid(1) id by (auto simp: sockets_of_def split: if_splits)
qed

lemma handleJoin_inv: "gw_inv env w \<Longrightarrow> gw_inv env (handleJoin sid cid u w)"
proof -
  assume inv: "gw_inv env w"
  have "gw_inv env (upd_sock sid (join_room (ConvRoom cid)) w)"
    by (rule gw_inv_upd_sock[OF inv]) (use gw_inv_sockD[OF inv] in \<open>auto intro: sock_ok_rooms[of env sid _ "[ConvRoom cid]", simplified]\<close>)
  then show ?thesis unfolding handleJoin_def by (rule same_conn_inv[rotated]) (simp add: same_conn_def)
qed

lemma map_of_map_values: "map_of (map (\<lambda>(s, k). (s, f k)) m) s = map_option f (map_of m s)"
  by (induction m) auto

lemma notify_inv:
  assumes "gw_inv env w"
  shows "gw_inv env (notifyUserJoinRoom uid cid w)"
proof -
  let ?f = "\<lambda>k. if UserRoom uid \<in> set (k_rooms k) then join_room (ConvRoom cid) k else k"
  let ?w = "notifyUserJoinRoom uid cid w"
  have get: "mget (w_sockets ?w) sid = map_option ?f (mget (w_sockets w) sid)" for sid
    by (simp add: notifyUserJoinRoom_def map_of_map_values)
  have other: "w_active ?w = w_active w" "w_sync ?w = w_sync w" "w_db ?w = w_db w" by (simp_all add: notifyUserJoinRoom_def)
  have "Option.bind (mget (w_sockets ?w) sid) k_userId = Option.bind (mget (w_sockets w) sid) k_userId" for sid
    by (cases "mget (w_sockets w) sid") (simp_all add: get)
  then have "sockets_of ?w u = sockets_of w u" for u by (simp add: sockets_of_bind)
  moreover have "sock_ok env sid k" if "mget (w_sockets ?w) sid = Some k" for sid k
    using that gw_inv_sockD[OF assms] sock_ok_rooms[of env sid _ "[ConvRoom cid]"] by (auto simp: get)
  moreover have "owned w s \<Longrightarrow> owned ?w s" for s by (auto simp: owned_def get)
  ultimately show ?thesis using assms store_mono[of "owned w" "w_sync w" "owned ?w"]
    by (auto simp: gw_inv_def conn_inv_def online_inv_def active_of_def other get)
qed

lemma interval_inv: "gw_inv env w \<Longrightarrow> gw_inv env (interval_cleanup now w)"
  using store_purge[of "owned w" "w_sync w" now]
  by (simp add: gw_inv_def interval_cleanup_def conn_inv_def online_inv_def active_of_def sockets_of_def owned_def[abs_def])

subsection \<open>Sync sessions\<close>

lemma sync_step_inv:
  assumes "gw_inv env w" "store_inv (owned w) sv"
  shows "gw_inv env (w\<lparr>w_sync := sv\<rparr>)"
  using assms by (simp add: gw_inv_def conn_inv_def online_inv_def active_of_def sockets_of_def owned_def[abs_def])

lemma gw_inv_storeD: "gw_inv env w \<Longrightarrow> store_inv (owned w) (w_sync w)"
  by (simp add: gw_inv_def)

lemma join_sync_inv:
  assumes "gw_inv env w"
  shows "gw_inv env (upd_sock sid (join_room (SyncRoom i)) w)"
  by (rule gw_inv_upd_sock[OF assms])
    (use gw_inv_sockD[OF assms] in \<open>auto intro: sock_ok_rooms[of env sid _ "[SyncRoom i]", simplified]\<close>)

lemma gw_inv_emit: "gw_inv env w \<Longrightarrow> gw_inv env (emit to e w)"
  by (rule same_conn_inv[of w]) (simp_all add: same_conn_def)

lemma gw_inv_limited:
  assumes "gw_inv env w" "\<And>w'. w' = snd (rateLimit sid l ev now w) \<Longrightarrow> gw_inv env w' \<Longrightarrow> gw_inv env (h w')"
  shows "gw_inv env (limited sid l ev now h w)"
proof -
  have "same_conn w (snd (rateLimit sid l ev now w))" by (simp add: same_conn_def)
  then have "gw_inv env (snd (rateLimit sid l ev now w))" using assms(1) by (rule same_conn_inv)
  then show ?thesis using assms(2) by (cases "rateLimit sid l ev now w") (auto simp: limited_def)
qed

lemma sockets_of_unique: "sid \<in> sockets_of w u \<Longrightarrow> mget (w_sockets w) sid = Some k \<Longrightarrow> k_userId k = Some u"
  by (auto simp: sockets_of_def)

lemma sync_start_inv:
  assumes "gw_inv env w" "sid \<in> sockets_of w (su_id u)"
  shows "gw_inv env (handleDeviceSyncStart env now sid i ek sdp u w)"
  unfolding handleDeviceSyncStart_def
proof (rule gw_inv_limited[OF assms(1)])
  fix w' assume w': "w' = snd (rateLimit sid SyncLim ''deviceSyncStart'' now w)" and inv: "gw_inv env w'"
  have sid: "sid \<in> sockets_of w' (su_id u)" "sid \<noteq> []"
    using assms w' by (auto simp: sockets_of_def gw_inv_def)
  let ?i = "case i of None \<Rightarrow> [] | Some i \<Rightarrow> i"
  let ?s = "\<lparr>ss_userId = su_id u, ss_sourceSocketId = sid, ss_targetSocketId = None,
     ss_expiresAt = now + SYNC_SESSION_TTL_MS, ss_ekSource = ek, ss_sdpOffer = sdp\<rparr>"
  have own: "owned w' ?s" using sid by (auto simp: owned_def session_sockets_def dest: sockets_of_unique)
  have "gw_inv env (w'\<lparr>w_sync := trackSocket (ge_redis env) now sid ?i (sync_set (ge_redis env) now ?i ?s (w_sync w'))\<rparr>)"
    if "\<not> sync_has (ge_redis env) now (w_sync w') ?i"
    by (rule sync_step_inv[OF inv]) (rule store_start[OF gw_inv_storeD[OF inv] that _ sid(2) _ own], simp_all)
  then show "gw_inv env (let i = ?i in if \<not> session_id_ok i then emit (ToSocket sid) (Sync (DeviceSyncError ''invalid_session_id'')) w'
          else if sync_has (ge_redis env) now (w_sync w') i
               then emit (ToSocket sid) (Sync (DeviceSyncError ''session_exists'')) w'
          else
            let s = \<lparr>ss_userId = su_id u, ss_sourceSocketId = sid, ss_targetSocketId = None,
                     ss_expiresAt = now + SYNC_SESSION_TTL_MS, ss_ekSource = ek, ss_sdpOffer = sdp\<rparr>;
                w = w'\<lparr>w_sync := trackSocket (ge_redis env) now sid i (sync_set (ge_redis env) now i s (w_sync w'))\<rparr>
            in emit (ToSocket sid) (Sync (DeviceSyncReady i)) (upd_sock sid (join_room (SyncRoom i)) w))"
    using inv by (auto simp: Let_def intro!: gw_inv_emit join_sync_inv)
qed

lemma sync_join_inv:
  assumes "gw_inv env w" "sid \<in> sockets_of w (su_id u)"
  shows "gw_inv env (handleDeviceSyncJoin env now sid i ek u w)"
  unfolding handleDeviceSyncJoin_def
proof (rule gw_inv_limited[OF assms(1)])
  fix w' assume w': "w' = snd (rateLimit sid SyncLim ''deviceSyncJoin'' now w)" and inv: "gw_inv env w'"
  have sid: "sid \<in> sockets_of w' (su_id u)" "sid \<noteq> []"
    using assms w' by (auto simp: sockets_of_def gw_inv_def)
  have st: "store_inv (owned w') (w_sync w')" using gw_inv_storeD[OF inv] .
  have "gw_inv env (w'\<lparr>w_sync := trackSocket (ge_redis env) now sid i
      (snd (sync_update (ge_redis env) now i (join_patch sid) (w_sync w')))\<rparr>)"
    if s: "sync_get (ge_redis env) now (w_sync w') i = Some s" "ss_userId s = su_id u" "\<not> truthy (ss_targetSocketId s)"
      "ss_sourceSocketId s \<noteq> sid" for s
  proof (rule sync_step_inv[OF inv], rule store_join[OF st s(1) _ s(4) sid(2)])
    have get: "mget (sy_mem (w_sync w')) i = Some s" using s(1) st by (simp add: store_inv_def store_views)
    have ok: "sync_ok (mget (sy_mem (w_sync w'))) (mget (sy_sktMem (w_sync w')))" and own: "owned w' s"
      using st get by (auto simp: store_inv_def)
    show "ss_targetSocketId s = None" using sync_ok_getD[OF ok, of i s] get s(3) by (cases "ss_targetSocketId s") auto
    show "owned w' (join_patch sid s)"
      using own s(2) sid by (auto simp: owned_def session_sockets_def join_patch_def dest: sockets_of_unique)
  qed
  then show "gw_inv env (case sync_get (ge_redis env) now (w_sync w') i of
         None \<Rightarrow> emit (ToSocket sid) (Sync (DeviceSyncError ''not_found'')) w'
       | Some s \<Rightarrow>
           if ss_expiresAt s \<le> now then emit (ToSocket sid) (Sync (DeviceSyncError ''not_found'')) w'
           else if ss_userId s \<noteq> su_id u then emit (ToSocket sid) (Sync (DeviceSyncError ''not_found'')) w'
           else if truthy (ss_targetSocketId s) then emit (ToSocket sid) (Sync (DeviceSyncError ''not_available'')) w'
           else if ss_sourceSocketId s = sid then emit (ToSocket sid) (Sync (DeviceSyncError ''not_available'')) w'
           else
             let w = w'\<lparr>w_sync := trackSocket (ge_redis env) now sid i
                        (snd (sync_update (ge_redis env) now i (join_patch sid) (w_sync w')))\<rparr>
             in emit (ToRoom (SockRoom (ss_sourceSocketId s))) (Sync (DeviceSyncPeerJoined i ek))
                  (emit (ToSocket sid) (Sync (DeviceSyncOffer i (ss_ekSource s) (ss_sdpOffer s)))
                    (upd_sock sid (join_room (SyncRoom i)) w)))"
    using inv by (auto simp: Let_def intro!: gw_inv_emit join_sync_inv split: option.split)
qed

lemma gw_inv_to_peer: "gw_inv env w \<Longrightarrow> gw_inv env (to_peer p e w)"
  by (rule same_conn_inv[OF same_conn_to_peer[OF same_conn_refl]])

lemma sync_abort_inv: "gw_inv env w \<Longrightarrow> gw_inv env (handleDeviceSyncAbort env now sid i u w)"
  by (auto simp: handleDeviceSyncAbort_def intro!: gw_inv_emit gw_inv_to_peer sync_step_inv store_delete gw_inv_storeD
      split: option.split)

lemma abort_sync_inv: "gw_inv env w \<Longrightarrow> gw_inv env (abort_sync env now sid w)"
  by (auto simp: abort_sync_def intro!: gw_inv_to_peer sync_step_inv store_delete gw_inv_storeD split: option.split)

lemma handle_sync_inv: "gw_inv env w \<Longrightarrow> sid \<in> sockets_of w (su_id u) \<Longrightarrow> gw_inv env (handle_sync env now sid m u w)"
  by (cases m) (auto simp: sync_start_inv sync_join_inv sync_abort_inv intro: same_conn_inv[OF same_conn_relay(1)]
      same_conn_inv[OF same_conn_relay(2)])

subsection \<open>Connecting and disconnecting\<close>

lemma same_conn_end_calls: "same_conn w (end_calls uid w)"
  unfolding end_calls_def by (rule same_conn_fold) (auto simp: same_conn_def)

lemma active_ofD: "conn_inv env w \<Longrightarrow> set (active_of w u) = sockets_of w u \<and> distinct (active_of w u) \<and> mget (w_active w) u \<noteq> Some []"
  by (simp add: conn_inv_def)

lemma active_None_iff: "conn_inv env w \<Longrightarrow> mget (w_active w) u = None \<longleftrightarrow> sockets_of w u = {}"
  using active_ofD[of env w u] by (cases "mget (w_active w) u") (auto simp: active_of_def)

lemma online_set_offline:
  assumes "tbl_wf u_id (db_users d)" "\<forall>u\<in>set (rows (db_users d)). u_isOnline u \<longleftrightarrow> P (u_id u)"
  shows "tbl_wf u_id (db_users (set_offline uid now d))
    \<and> (\<forall>u\<in>set (rows (db_users (set_offline uid now d))). u_isOnline u \<longleftrightarrow> u_id u \<noteq> uid \<and> P (u_id u))"
  using assms by (auto simp: set_offline_def intro!: tbl_wf_update)

lemma drop_active_inv:
  assumes inv: "gw_inv env w" and k: "mget (w_sockets w) sid = Some k" "k_userId k = Some uid"
    and w1: "w_sockets w1 = mdelete sid (w_sockets w)" "w_active w1 = w_active w" "db_users (w_db w1) = db_users (w_db w)"
    and st: "store_inv (owned w1) (w_sync w1)"
  shows "gw_inv env (drop_active sid uid now w1)"
proof -
  let ?w = "drop_active sid uid now w1"
  have conn: "conn_inv env w" and onl: "online_inv w" and nil: "mget (w_sockets w) [] = None"
    using inv by (auto simp: gw_inv_def)
  have sk: "w_sockets ?w = mdelete sid (w_sockets w)" "w_sync ?w = w_sync w1"
    using w1 by (auto simp: drop_active_def split: option.split)
  have of: "sockets_of ?w v = sockets_of w v - {sid}" for v by (auto simp: sockets_of_def sk)
  obtain socks where so: "mget (w_active w) uid = Some socks" "set socks = sockets_of w uid" "distinct socks"
    using active_ofD[OF conn, of uid] k by (cases "mget (w_active w) uid") (auto simp: active_of_def sockets_of_def)
  have act: "mget (w_active ?w) v = (if v = uid then (if set_del sid socks = [] then None else Some (set_del sid socks))
      else mget (w_active w) v)" for v
    using so(1) w1(2) by (auto simp: drop_active_def)
  have "distinct (active_of ?w v) \<and> set (active_of ?w v) = sockets_of ?w v \<and> mget (w_active ?w) v \<noteq> Some []" for v
  proof (cases "v = uid")
    case True
    have "set_del sid socks = [] \<longleftrightarrow> set socks \<subseteq> {sid}" by (metis Diff_eq_empty_iff set_empty set_set_del)
    then show ?thesis using True so by (auto simp: active_of_def act of)
  next
    case False
    then have "sid \<notin> sockets_of w v" using k by (auto simp: sockets_of_def)
    then show ?thesis using False active_ofD[OF conn, of v] by (auto simp: active_of_def act of)
  qed
  moreover have "sock_ok env t x" if "mget (w_sockets ?w) t = Some x" for t x
    using that gw_inv_sockD[OF inv] by (simp add: sk split: if_splits)
  ultimately have "conn_inv env ?w" by (simp add: conn_inv_def)
  moreover have "online_inv ?w"
  proof (cases "set_del sid socks = []")
    case True
    have "tbl_wf u_id (db_users (w_db w1))"
        "\<forall>u\<in>set (rows (db_users (w_db w1))). u_isOnline u \<longleftrightarrow> mget (w_active w) (u_id u) \<noteq> None"
      using onl by (simp_all add: online_inv_def w1)
    from online_set_offline[OF this, of uid now]
    have "tbl_wf u_id (db_users (w_db ?w))" "\<forall>u\<in>set (rows (db_users (w_db ?w))). u_isOnline u \<longleftrightarrow> u_id u \<noteq> uid \<and> mget (w_active w) (u_id u) \<noteq> None"
      using True so(1) w1(2) by (simp_all add: drop_active_def)
    then show ?thesis using True by (simp add: online_inv_def act)
  next
    case False
    have "db_users (w_db ?w) = db_users (w_db w)" using False so(1) w1 by (simp add: drop_active_def)
    then show ?thesis using False so(1) onl by (simp add: online_inv_def act)
  qed
  moreover have "store_inv (owned ?w) (w_sync ?w)"
    using store_mono[OF st, of "owned ?w"] by (simp add: owned_def sk w1)
  ultimately show ?thesis using nil by (simp add: gw_inv_def sk)
qed

lemma disconnect_inv:
  assumes inv: "gw_inv env w"
  shows "gw_inv env (disconnect env now sid w)"
proof (cases "mget (w_sockets w) sid")
  case None
  then show ?thesis using inv by (simp add: disconnect_def)
next
  case (Some k)
  let ?w0 = "w\<lparr>w_sockets := mdelete sid (w_sockets w)\<rparr>"
  have own: "store_inv (owned ?w0) (w_sync w)"
    using gw_inv_storeD[OF inv] by (rule store_mono) (auto simp: owned_def split: if_splits)
  show ?thesis
  proof (cases "k_userId k")
    case None
    have of: "sockets_of ?w0 v = sockets_of w v" for v
      using Some None by (auto simp: sockets_of_def)
    have "gw_inv env ?w0" using inv own
      by (auto simp: gw_inv_def conn_inv_def online_inv_def active_of_def of split: if_splits)
    then show ?thesis using Some None by (simp add: disconnect_def handleDisconnect_def)
  next
    case uid: (Some uid)
    have pos: "uid \<noteq> 0" using gw_inv_sockD[OF inv Some] uid by (auto simp: sock_ok_def)
    let ?w1 = "end_calls uid (abort_sync env now sid ?w0)"
    have ab: "w_sockets (abort_sync env now sid ?w0) = w_sockets ?w0" "w_active (abort_sync env now sid ?w0) = w_active w"
      "w_db (abort_sync env now sid ?w0) = w_db w"
      by (auto simp: abort_sync_def to_peer_def split: option.split)
    have "store_inv (owned ?w0) (w_sync (abort_sync env now sid ?w0))"
      using own by (auto simp: abort_sync_def to_peer_def store_delete split: option.split)
    moreover have w1: "same_conn (abort_sync env now sid ?w0) ?w1" by (rule same_conn_end_calls)
    ultimately have "store_inv (owned ?w1) (w_sync ?w1)"
      using ab by (simp add: same_conn_def owned_def[abs_def])
    moreover have "w_sockets ?w1 = mdelete sid (w_sockets w)" "w_active ?w1 = w_active w" "db_users (w_db ?w1) = db_users (w_db w)"
      using w1 ab by (simp_all add: same_conn_def)
    ultimately have "gw_inv env (drop_active sid uid now ?w1)" by (intro drop_active_inv[OF inv Some uid])
    then show ?thesis using Some uid pos by (simp add: disconnect_def handleDisconnect_def)
  qed
qed

lemma update_token_inv:
  assumes inv: "gw_inv env w" and jwt: "good_jwt env"
  shows "gw_inv env (handleUpdateToken env now sid token w)"
proof (cases "mget (w_sockets w) sid")
  case None
  then show ?thesis using inv by (simp add: handleUpdateToken_def)
next
  case (Some k)
  show ?thesis
  proof (cases "ge_verify env token now")
    case (Inl e)
    then show ?thesis using Some inv by (simp add: handleUpdateToken_def gw_inv_emit)
  next
    case (Inr p)
    have ne: "token \<noteq> []" using jwt Inr by (auto simp: good_jwt_def)
    have "gw_inv env (upd_sock sid (\<lambda>k. k\<lparr>k_currentToken := Some token\<rparr>) w)" if "k_userId k = Some (jwt_sub p)"
      by (rule gw_inv_upd_sock[OF inv]) (use gw_inv_sockD[OF inv Some] Some that Inr ne in \<open>auto simp: sock_ok_def\<close>)
    then show ?thesis using Some Inr by (simp add: handleUpdateToken_def disconnect_inv[OF inv] gw_inv_emit)
  qed
qed

text \<open>A new socket, before it is signed in.\<close>

lemma add_socket_inv:
  assumes inv: "gw_inv env w" and new: "sid \<noteq> []" "mget (w_sockets w) sid = None"
    and fresh: "\<forall>x\<in>set (sy_mem (w_sync w)). sid \<notin> set (session_sockets (snd x))"
  shows "gw_inv env (w\<lparr>w_sockets := mset_at sid (new_sock sid auth query) (w_sockets w)\<rparr>)"
proof -
  let ?w = "w\<lparr>w_sockets := mset_at sid (new_sock sid auth query) (w_sockets w)\<rparr>"
  have of: "sockets_of ?w v = sockets_of w v" for v
    using new(2) by (auto simp: sockets_of_def new_sock_def)
  have "owned ?w s" if "mget (sy_mem (w_sync w)) i = Some s" for i s
  proof -
    have "sid \<notin> set (session_sockets s)" using fresh map_of_SomeD[OF that] by fastforce
    moreover have "owned w s" using gw_inv_storeD[OF inv] that by (auto simp: store_inv_def)
    ultimately show ?thesis by (auto simp: owned_def)
  qed
  then have "store_inv (owned ?w) (w_sync w)" using gw_inv_storeD[OF inv] by (auto simp: store_inv_def)
  moreover have "sock_ok env sid (new_sock sid auth query)" by (simp add: sock_ok_def new_sock_def)
  ultimately show ?thesis using inv new
    by (auto simp: gw_inv_def conn_inv_def online_inv_def active_of_def of)
qed

lemma length_set_add: "length (set_add x xs) = (if x \<in> set xs then length xs else Suc (length xs))"
  by (simp add: set_add_def)

text \<open>The socket signed in and in its rooms: everything but the online flag of its user is in order.\<close>

lemma sign_in_inv:
  assumes inv: "gw_inv env w" and k: "mget (w_sockets w) sid = Some k" "k_userId k = None"
    and p: "ge_verify env tok now = Inr p" "0 < jwt_sub p" "tok \<noteq> []"
    and fresh: "\<forall>x\<in>set (sy_mem (w_sync w)). sid \<notin> set (session_sockets (snd x))"
    and w2: "w2 = upd_sock sid (fold join_room (user_rooms (w_db w) (jwt_sub p)))
                   (add_active sid (jwt_sub p) (upd_sock sid (sign_in tok p) w))"
  shows "conn_inv env w2" "store_inv (owned w2) (w_sync w2)" "mget (w_sockets w2) [] = None"
    "mget (w_active w2) v \<noteq> None \<longleftrightarrow> v = jwt_sub p \<or> mget (w_active w) v \<noteq> None"
    "length (the (mget (w_active w2) (jwt_sub p))) = 1 \<longleftrightarrow> mget (w_active w) (jwt_sub p) = None"
    "w_db w2 = w_db w"
proof -
  let ?u = "jwt_sub p" and ?k = "fold join_room (user_rooms (w_db w) (jwt_sub p)) (sign_in tok p k)"
  have conn: "conn_inv env w" using inv by (simp add: gw_inv_def)
  have sk: "mget (w_sockets w2) s = (if s = sid then Some ?k else mget (w_sockets w) s)" for s
    using k(1) by (simp add: w2 add_active_def)
  have of: "sockets_of w2 v = (if v = ?u then insert sid (sockets_of w v) else sockets_of w v)" for v
    using k by (auto simp: sockets_of_def sk sign_in_def)
  have new: "sid \<notin> sockets_of w v" for v using k by (auto simp: sockets_of_def)
  have act: "mget (w_active w2) v = (if v = ?u then Some (set_add sid (active_of w ?u)) else mget (w_active w) v)" for v
    by (simp add: w2 add_active_def active_of_def)
  have rooms: "set (k_rooms k) \<subseteq> {r. room_ok sid None r}"
    using gw_inv_sockD[OF inv k(1)] k(2) by (auto simp: sock_ok_def)
  have mono: "room_ok sid None r \<Longrightarrow> room_ok sid v r" for v r by (cases r) auto
  have "sock_ok env sid (sign_in tok p k)"
    using rooms mono p by (auto simp: sock_ok_def sign_in_def)
  then have "sock_ok env sid ?k"
    by (rule sock_ok_rooms) (auto simp: user_rooms_def sign_in_def)
  then have ok: "mget (w_sockets w2) s = Some x \<Longrightarrow> sock_ok env s x" for s x
    using gw_inv_sockD[OF inv] by (auto simp: sk split: if_splits)
  show "conn_inv env w2"
    unfolding conn_inv_def using ok active_ofD[OF conn] by (auto simp: act of active_of_def)
  have "owned w2 s" if "mget (sy_mem (w_sync w)) i = Some s" for i s
  proof -
    have "sid \<notin> set (session_sockets s)" using fresh map_of_SomeD[OF that] by fastforce
    moreover have "owned w s" using gw_inv_storeD[OF inv] that by (auto simp: store_inv_def)
    ultimately show ?thesis by (auto simp: owned_def sk)
  qed
  then show "store_inv (owned w2) (w_sync w2)"
    using gw_inv_storeD[OF inv] by (auto simp: store_inv_def w2 add_active_def)
  show "mget (w_sockets w2) [] = None" using inv k by (auto simp: gw_inv_def sk)
  show "mget (w_active w2) v \<noteq> None \<longleftrightarrow> v = ?u \<or> mget (w_active w) v \<noteq> None" by (simp add: act)
  have "sid \<notin> set (active_of w ?u)" using active_ofD[OF conn, of ?u] new by simp
  moreover have "active_of w ?u = [] \<longleftrightarrow> mget (w_active w) ?u = None"
    using active_ofD[OF conn, of ?u] by (cases "mget (w_active w) ?u") (auto simp: active_of_def)
  ultimately show "length (the (mget (w_active w2) ?u)) = 1 \<longleftrightarrow> mget (w_active w) ?u = None"
    by (simp add: act length_set_add)
  show "w_db w2 = w_db w" by (simp add: w2 add_active_def)
qed

lemma handleConnection_inv:
  assumes inv: "gw_inv env w" and jwt: "good_jwt env" and k: "mget (w_sockets w) sid = Some k" "k_userId k = None"
    and fresh: "\<forall>x\<in>set (sy_mem (w_sync w)). sid \<notin> set (session_sockets (snd x))"
  shows "gw_inv env (handleConnection env now sid w)"
proof (cases "\<exists>tok p. or_token (k_authToken k) (k_queryToken k) = Some tok \<and> tok \<noteq> [] \<and> ge_verify env tok now = Inr p")
  case False
  then have "handleConnection env now sid w = disconnect env now sid w"
    using k(1) by (cases "or_token (k_authToken k) (k_queryToken k)") (auto simp: handleConnection_def Let_def split: sum.split)
  then show ?thesis using disconnect_inv[OF inv] by simp
next
  case True
  then obtain tok p where tok: "or_token (k_authToken k) (k_queryToken k) = Some tok" "tok \<noteq> []" and p: "ge_verify env tok now = Inr p"
    by blast
  let ?u = "jwt_sub p"
  define w2 where "w2 = upd_sock sid (fold join_room (user_rooms (w_db w) (jwt_sub p)))
      (add_active sid (jwt_sub p) (upd_sock sid (sign_in tok p) w))"
  have pos: "0 < ?u" using jwt p by (auto simp: good_jwt_def)
  note s2 = sign_in_inv[OF inv k p pos tok(2) fresh w2_def]
  have onl: "online_inv w" using inv by (simp add: gw_inv_def)
  have eq: "handleConnection env now sid w =
      (if mget (w_active w) ?u = None
       then (case on_db (update_user ?u (\<lambda>u. u\<lparr>u_isOnline := True\<rparr>)) w2 of
               (Inl e, w) \<Rightarrow> disconnect env now sid w
             | (Inr _, w) \<Rightarrow> emit ToAll (UserStatusChanged ?u True) w)
       else w2)"
    using k(1) tok p s2(5) by (simp add: handleConnection_def Let_def w2_def add_active_def)
  show ?thesis
  proof (cases "mget (w_active w) ?u = None")
    case False
    have "mget (w_active w2) v \<noteq> None \<longleftrightarrow> mget (w_active w) v \<noteq> None" for v using s2(4)[of v] False by auto
    then have "online_inv w2" using onl by (simp add: online_inv_def s2(6))
    then have "gw_inv env w2" using s2 by (simp add: gw_inv_def)
    moreover have "handleConnection env now sid w = w2" using eq False by (simp only: if_False)
    ultimately show ?thesis by simp
  next
    case first: True
    show ?thesis
    proof (cases "find_user (w_db w) ?u")
      case None
      then have "\<forall>u\<in>set (rows (db_users (w_db w))). u_id u \<noteq> ?u" by (simp add: find_user_def t_find_None_iff)
      then have "online_inv w2" using onl s2(4) by (auto simp: online_inv_def s2(6))
      then have "gw_inv env w2" using s2 by (simp add: gw_inv_def)
      moreover have "on_db (update_user ?u (\<lambda>u. u\<lparr>u_isOnline := True\<rparr>)) w2 = (Inl (PrismaError ''P2025''), w2)"
        using None by (simp add: on_db_def update_user_def s2(6))
      ultimately show ?thesis using first eq disconnect_inv by simp
    next
      case (Some row)
      let ?d = "(w_db w)\<lparr>db_users := t_update (\<lambda>u. u_id u = ?u) (\<lambda>u. u\<lparr>u_isOnline := True\<rparr>) (db_users (w_db w))\<rparr>"
      let ?w = "w2\<lparr>w_db := ?d\<rparr>"
      have "online_inv ?w" using onl s2(4) by (auto simp: online_inv_def intro!: tbl_wf_update)
      moreover have "conn_inv env ?w" "store_inv (owned ?w) (w_sync ?w)"
        using s2(1,2) by (simp_all add: conn_inv_def active_of_def sockets_of_def owned_def[abs_def])
      ultimately have "gw_inv env ?w" using s2(3) by (simp add: gw_inv_def)
      then show ?thesis using first eq Some
        by (simp add: on_db_def update_user_def s2(6) gw_inv_emit)
    qed
  qed
qed

lemma connect_inv:
  "gw_inv env w \<Longrightarrow> good_jwt env \<Longrightarrow> gw_ok env w (now, Connect sid auth query) \<Longrightarrow> gw_inv env (connect env now sid auth query w)"
  unfolding connect_def
  by (rule handleConnection_inv[OF add_socket_inv]) (auto simp: new_sock_def)

lemma guarded_inv:
  assumes "gw_inv env w" "good_jwt env"
    and "\<And>u w'. gw_inv env w' \<Longrightarrow> sid \<in> sockets_of w' (su_id u) \<Longrightarrow> gw_inv env (h u w')"
  shows "gw_inv env (guarded env now sid h w)"
proof -
  obtain u w' where g: "ws_guard env now sid w = (u, w')" by fastforce
  show ?thesis
  proof (cases u)
    case None
    then have "gw_inv env w'" using ws_guard_NoneD g gw_inv_emit[OF assms(1)] assms(1) by metis
    then show ?thesis using g None by (simp add: guarded_def)
  next
    case (Some u)
    then have "gw_inv env w'" "sid \<in> sockets_of w' (su_id u)"
      using guard_identity[OF assms(1,2), of now sid u w'] g by auto
    from assms(3)[OF this] show ?thesis using g Some by (simp add: guarded_def)
  qed
qed

lemma handle_chat_inv: "gw_inv env w \<Longrightarrow> gw_inv env (handle_chat env now sid m u w)"
proof (cases m)
  case (JoinConv c)
  then show "gw_inv env w \<Longrightarrow> ?thesis" by (simp add: handleJoin_inv)
qed (auto intro: same_conn_inv[OF same_conn_handlers(1)] same_conn_inv[OF same_conn_handlers(2)]
  same_conn_inv[OF same_conn_handlers(3)] same_conn_inv[OF same_conn_handlers(4)] same_conn_inv[OF same_conn_handlers(5)]
  same_conn_inv[OF same_conn_handlers(6)] same_conn_inv[OF same_conn_handlers(7)] same_conn_inv[OF same_conn_handlers(8)]
  same_conn_inv[OF same_conn_handlers(9)] same_conn_inv[OF same_conn_handlers(10)] same_conn_inv[OF same_conn_handlers(11)]
  same_conn_inv[OF same_conn_handlers(12)] same_conn_inv[OF same_conn_handlers(13)])

lemma gw_step_inv:
  assumes "gw_inv env w" "good_jwt env" "gw_ok env w e"
  shows "gw_inv env (gw_step env w e)"
proof -
  obtain now op where e: "e = (now, op)" by (cases e)
  show ?thesis
  proof (cases op)
    case (Connect sid auth query)
    then show ?thesis using connect_inv assms e by simp
  next
    case (Receive sid m)
    then show ?thesis using e assms(1,2)
      by (cases m) (auto simp: update_token_inv intro!: guarded_inv handle_chat_inv handle_sync_inv intro: same_conn_inv[OF same_conn_call])
  next
    case (Close sid)
    then show ?thesis using e assms(1) by (simp add: disconnect_inv)
  next
    case (FireTimer t)
    then show ?thesis using e assms(1) by (simp add: same_conn_inv[OF same_conn_timer])
  next
    case Interval
    then show ?thesis using e assms(1) by (simp add: interval_inv)
  next
    case (NotifyJoin uid cid)
    then show ?thesis using e assms(1) by (simp add: notify_inv)
  next
    case ModuleInit
    then show ?thesis using e assms(1) by (simp add: same_conn_inv[OF same_conn_init])
  qed
qed

text \<open>The runs of the gateway, from the start of the server.\<close>

interpretation gateway: run_invariant "gw_step env" "\<lambda>w e. good_jwt env \<and> gw_ok env w e" "gw_inv env"
  by unfold_locales (auto intro: gw_step_inv)

lemma start_inv:
  assumes "mem_wf sv" "sy_mem sv = []" "sy_sktMem sv = []" "tbl_wf u_id (db_users d)"
    and "\<forall>u\<in>set (rows (db_users d)). \<not> u_isOnline u"
  shows "gw_inv env (start_world sv d)"
  using assms by (simp add: gw_inv_def conn_inv_def online_inv_def store_inv_def start_world_def active_of_def
      sockets_of_def sync_ok_def)

abbreviation gw_run :: "'r gw_env \<Rightarrow> 'r world \<Rightarrow> (time \<times> gw_op) list \<Rightarrow> 'r world" where
  "gw_run env \<equiv> run (gw_step env)"

abbreviation gw_run_ok :: "'r gw_env \<Rightarrow> 'r world \<Rightarrow> (time \<times> gw_op) list \<Rightarrow> bool" where
  "gw_run_ok env \<equiv> run_ok (\<lambda>w e. good_jwt env \<and> gw_ok env w e) (gw_step env)"

definition fresh_start :: "'r sync_svc \<Rightarrow> db \<Rightarrow> bool" where
  "fresh_start sv d \<longleftrightarrow> mem_wf sv \<and> sy_mem sv = [] \<and> sy_sktMem sv = [] \<and> tbl_wf u_id (db_users d)
     \<and> (\<forall>u\<in>set (rows (db_users d)). \<not> u_isOnline u)"

lemma reachable_inv: "fresh_start sv d \<Longrightarrow> gw_run_ok env (start_world sv d) es \<Longrightarrow> gw_inv env (gw_run env (start_world sv d) es)"
  by (rule gateway.run_inv) (auto simp: fresh_start_def intro: start_inv)

end
