(* ===== verification/GatewayProperties.thy ===== *)
theory GatewayProperties
  imports Gateway
begin

text \<open>
  What the gateway promises in every state it can reach: presence, identity, privacy of rooms and of
  device-sync sessions, calls, scheduled messages; and that a rejected message has no effect.
\<close>

section \<open>Presence and identity\<close>


section \<open>A demonstration run\<close>

lemma good_gw_demo: "good_jwt gw_demo"
  by (auto simp: good_jwt_def gw_demo_def split: list.splits if_splits)

abbreviation demo_start :: "(jsstr \<Rightarrow> jsstr option) world" where
  "demo_start \<equiv> start_world mem_svc chat_db"

lemma demo_fresh: "fresh_start (mem_svc :: (jsstr \<Rightarrow> jsstr option) sync_svc) chat_db"
  by (auto simp: fresh_start_def mem_svc_def mem_wf_def chat_db_def chat_user_def tbl_wf_def)

text \<open>Users 1 and 2 connect (sockets 11 and 12 of user 1, socket 21 of user 2).\<close>

definition demo_connects :: "(time \<times> gw_op) list" where
  "demo_connects = [(0, Connect [11] (Some [1]) None), (0, Connect [21] None (Some [2])), (0, Connect [12] (Some [1]) None)]"

lemmas run_defs = gw_demo_def start_world_def mem_svc_def demo_connects_def connect_def handleConnection_def new_sock_def
  or_token_def truthy_def Let_def add_active_def upd_sock_def sign_in_def user_rooms_def on_db_def update_user_def
  join_room_def mset_at_def set_add_def emit_def mdelete_def t_all_def t_update_def

definition demo_sock :: "nat \<Rightarrow> nat \<Rightarrow> jsstr option \<Rightarrow> jsstr option \<Rightarrow> sock" where
  "demo_sock s u auth query = \<lparr>k_authToken = auth, k_queryToken = query, k_currentToken = Some [u], k_userId = Some (int u),
     k_user = Some \<lparr>su_id = int u, su_nickname = [u], su_email = None, su_role = None\<rparr>,
     k_rooms = [SockRoom [s], UserRoom (int u), ConvRoom 1]\<rparr>"

lemma demo_connected:
  "gw_run_ok gw_demo demo_start demo_connects"
  "w_sockets (gw_run gw_demo demo_start demo_connects) =
     [([11], demo_sock 11 1 (Some [1]) None), ([21], demo_sock 21 2 None (Some [2])), ([12], demo_sock 12 1 (Some [1]) None)]"
  "w_active (gw_run gw_demo demo_start demo_connects) = [(1, [[11], [12]]), (2, [[21]])]"
  by (simp_all add: good_gw_demo) (simp_all add: run_defs chat_defs demo_sock_def)


text \<open>A socket never changes sides: in every reachable state, what the guard hands to a handler is the user the
  socket signed in as (renewing the token included), an emission to a user's room reaches only sockets signed in as
  that user, an emission to a socket's own room reaches only that socket, and the room that the push service
  addresses (\<open>user?n\<close>) reaches nobody.\<close>

theorem gateway_identity:
  assumes "fresh_start sv d" "gw_run_ok env (start_world sv d) es" "w = gw_run env (start_world sv d) es" "good_jwt env"
  shows "(\<forall>sid now u w'. ws_guard env now sid w = (Some u, w') \<longrightarrow> sid \<in> sockets_of w (su_id u))
    \<and> (\<forall>v. receivers w (ToRoom (UserRoom v)) \<subseteq> sockets_of w v)
    \<and> (\<forall>s. receivers w (ToRoom (SockRoom s)) \<subseteq> {s})
    \<and> (\<forall>v. receivers w (ToRoom (UserQRoom v)) = {})"
proof -
  have inv: "gw_inv env w" unfolding assms(3) by (rule reachable_inv[OF assms(1,2)])
  have room: "room_ok sid (k_userId k) r" if "mget (w_sockets w) sid = Some k" "r \<in> set (k_rooms k)" for sid k r
    using gw_inv_sockD[OF inv that(1)] that(2) by (simp add: sock_ok_def)
  have "sid \<in> sockets_of w (su_id u)" if "ws_guard env now sid w = (Some u, w')" for sid now u w'
    using guard_identity[OF inv assms(4) that] by auto
  moreover have "receivers w (ToRoom (UserRoom v)) \<subseteq> sockets_of w v" for v
    using room[of _ _ "UserRoom v"] by (auto simp: receivers_room sockets_of_def)
  moreover have "receivers w (ToRoom (SockRoom s)) \<subseteq> {s}" for s
    using room[of _ _ "SockRoom s"] by (auto simp: receivers_room) metis
  moreover have "receivers w (ToRoom (UserQRoom v)) = {}" for v
    using room[of _ _ "UserQRoom v"] by (auto simp: receivers_room)
  ultimately show ?thesis by blast
qed

theorem gateway_identity_witness:
  "receivers (gw_run gw_demo demo_start demo_connects) (ToRoom (UserRoom 1)) \<subseteq> {[11], [12]}
   \<and> receivers (gw_run gw_demo demo_start demo_connects) (ToRoom (UserQRoom 1)) = {}"
proof -
  have "sockets_of (gw_run gw_demo demo_start demo_connects) 1 = {[11], [12]}"
    by (auto simp: sockets_of_def demo_connected(2) demo_sock_def split: if_splits)
  then show ?thesis using gateway_identity[OF demo_fresh demo_connected(1) refl good_gw_demo] by metis
qed

text \<open>Joining a conversation's room needs a valid token and nothing else: after \<open>joinConversation\<close> for any
  conversation, a member of it or not, the socket receives what is sent to the conversation.\<close>

theorem join_conversation_unchecked:
  assumes "ws_guard env now sid w = (Some u, w1)"
  shows "sid \<in> receivers (ws_dispatch env now sid (ChatIn (JoinConv cid)) w) (ToRoom (ConvRoom cid))"
proof -
  obtain k where "mget (w_sockets w) sid = Some k" "w1 = upd_sock sid (\<lambda>k. k\<lparr>k_user := Some u\<rparr>) w"
    using ws_guard_SomeD[OF assms] by blast
  then show ?thesis using assms by (simp add: guarded_def handleJoin_def receivers_room)
qed

theorem join_conversation_unchecked_witness:
  "[21] \<in> receivers (ws_dispatch gw_demo 5 [21] (ChatIn (JoinConv 2)) (gw_run gw_demo demo_start demo_connects)) (ToRoom (ConvRoom 2))
   \<and> find_member (w_db (gw_run gw_demo demo_start demo_connects)) 2 2 = None"
proof -
  let ?w = "gw_run gw_demo demo_start demo_connects"
  obtain w1 where g: "ws_guard gw_demo 5 [21] ?w = (Some \<lparr>su_id = 2, su_nickname = [2], su_email = Some [2], su_role = Some USER\<rparr>, w1)"
  proof -
    have s: "mget (w_sockets ?w) [21] = Some (demo_sock 21 2 None (Some [2]))" by (simp add: demo_connected(2))
    have v: "ge_verify gw_demo [2] 5 = Inr \<lparr>jwt_sub = 2, jwt_email = [2], jwt_nickname = [2], jwt_role = USER, jwt_avatarUrl = None\<rparr>"
      by (simp add: gw_demo_def)
    show thesis by (rule that) (simp add: ws_guard_def s v demo_sock_def or_token_def Let_def)
  qed
  have "db_members (w_db ?w) = db_members chat_db" by (simp add: run_defs chat_defs)
  then show ?thesis using join_conversation_unchecked[OF g] by (simp add: chat_defs)
qed

section \<open>Device sync\<close>

text \<open>Where the device-sync handlers send their events.\<close>

definition within_user :: "'r world \<Rightarrow> sock_id \<Rightarrow> id \<Rightarrow> recipients \<Rightarrow> bool" where
  "within_user w sid uid to \<longleftrightarrow> to = ToSocket sid
     \<or> (\<exists>s. to = ToRoom (SockRoom s) \<and> (\<forall>k. mget (w_sockets w) s = Some k \<longrightarrow> k_userId k = Some uid))"

definition sends :: "'r world \<Rightarrow> 'r world \<Rightarrow> (recipients \<Rightarrow> bool) \<Rightarrow> bool" where
  "sends w w' P \<longleftrightarrow> (\<exists>new. w_out w' = w_out w @ new \<and> (\<forall>x\<in>set new. P (fst x)))"

lemma sends_refl [simp]: "w_out w' = w_out w \<Longrightarrow> sends w w' P"
  by (simp add: sends_def)

lemma sends_emit: "sends w w' P \<Longrightarrow> P to \<Longrightarrow> sends w (emit to e w') P"
  by (auto simp: sends_def)

lemma sends_to_peer: "sends w w' P \<Longrightarrow> (\<And>p. peer = Some p \<Longrightarrow> p \<noteq> [] \<Longrightarrow> P (ToRoom (SockRoom p))) \<Longrightarrow> sends w (to_peer peer e w') P"
  by (cases peer) (auto simp: to_peer_def intro: sends_emit)

lemma rateLimit_sends: "P (ToSocket sid) \<Longrightarrow> sends w (snd (rateLimit sid l ev now w)) P"
  by (auto simp: rateLimit_def sends_def Let_def split: option.split prod.split)

lemma sends_limited:
  assumes "P (ToSocket sid)" "\<And>w'. w' = snd (rateLimit sid l ev now w) \<Longrightarrow> sends w w' P \<Longrightarrow> sends w (h w') P"
  shows "sends w (limited sid l ev now h w) P"
  using assms rateLimit_sends[of P sid w l ev now] by (cases "rateLimit sid l ev now w") (auto simp: limited_def)

lemma sends_frame:
  "sends w w' P \<Longrightarrow> sends w (upd_sock s f w') P"
  "sends w w' P \<Longrightarrow> sends w (w'\<lparr>w_sync := sv\<rparr>) P"
  "sends w w' P \<Longrightarrow> sends w (w'\<lparr>w_calls := cs\<rparr>) P"
  by (simp_all add: sends_def)

lemma session_owner:
  assumes "gw_inv env w" "sync_get api now (w_sync w) i = Some s" "x \<in> set (session_sockets s)" "mget (w_sockets w) x = Some k"
  shows "k_userId k = Some (ss_userId s)"
proof -
  have st: "store_inv (owned w) (w_sync w)" using assms(1) by (simp add: gw_inv_def)
  then have "owned w s" using assms(2) by (simp add: store_inv_def store_views)
  then show ?thesis using assms(3,4) by (simp add: owned_def)
qed

lemma handle_sync_sends:
  assumes inv: "gw_inv env w" and sid: "sid \<in> sockets_of w (su_id u)"
  shows "sends w (handle_sync env now sid m u w) (within_user w sid (su_id u))"
proof -
  let ?P = "within_user w sid (su_id u)"
  have self: "?P (ToSocket sid)" by (simp add: within_user_def)
  obtain k where k: "mget (w_sockets w) sid = Some k" "k_userId k = Some (su_id u)" using sid by (auto simp: sockets_of_def)
  have ends: "?P (ToRoom (SockRoom x))"
    if "sync_get (ge_redis env) now (w_sync w) i = Some s" "ss_userId s = su_id u" "x \<in> set (session_sockets s)" for i s x
    using session_owner[OF inv that(1,3)] that(2) by (simp add: within_user_def)
  have mine: "ss_userId s = su_id u" if "sync_get (ge_redis env) now (w_sync w) i = Some s" "sid \<in> set (session_sockets s)" for i s
    using session_owner[OF inv that k(1)] k(2) by simp
  have pt: "sid \<in> set (session_sockets s)"
    if "ss_sourceSocketId s = sid \<or> ss_targetSocketId s = Some sid" "sid \<noteq> []" for s
    using that unfolding session_sockets_def by (elim disjE) simp_all
  have ne: "sid \<noteq> []" using k inv by (auto simp: gw_inv_def)
  have peer: "p \<in> set (session_sockets s)" if "peer_of sid s = Some p" "p \<noteq> []" for s p
    using that by (auto simp: peer_of_def session_sockets_def split: if_splits)
  have peer_ok: "?P (ToRoom (SockRoom p))"
    if "sync_get (ge_redis env) now (w_sync w) i = Some s" "\<not> (ss_sourceSocketId s \<noteq> sid \<and> ss_targetSocketId s \<noteq> Some sid)"
      "peer_of sid s = Some p" "p \<noteq> []" for i s p
    using ends[OF that(1) _ peer[OF that(3,4)]] mine[OF that(1) pt[OF _ ne]] that(2) by blast
  show ?thesis
  proof (cases m)
    case (SyncStart i ek x)
    show ?thesis unfolding SyncStart handle_sync.simps handleDeviceSyncStart_def Let_def
      by (rule sends_limited[where P = ?P, OF self]) (simp add: sends_emit sends_frame self)
  next
    case (SyncJoin i ek)
    show ?thesis unfolding SyncJoin handle_sync.simps handleDeviceSyncJoin_def
    proof (rule sends_limited[where P = ?P, OF self])
      fix w' assume w': "w' = snd (rateLimit sid SyncLim ''deviceSyncJoin'' now w)" "sends w w' ?P"
      then have sy: "w_sync w' = w_sync w" by simp
      show "sends w (case sync_get (ge_redis env) now (w_sync w') i of
         None \<Rightarrow> emit (ToSocket sid) (Sync (DeviceSyncError ''not_found'')) w'
       | Some s \<Rightarrow>
           if ss_expiresAt s \<le> now then emit (ToSocket sid) (Sync (DeviceSyncError ''not_found'')) w'
           else if ss_userId s \<noteq> su_id u then emit (ToSocket sid) (Sync (DeviceSyncError ''not_found'')) w'
           else if truthy (ss_targetSocketId s) then emit (ToSocket sid) (Sync (DeviceSyncError ''not_available'')) w'
           else if ss_sourceSocketId s = sid then emit (ToSocket sid) (Sync (DeviceSyncError ''not_available'')) w'
           else
             let w = w'\<lparr>w_sync := trackSocket (ge_redis env) now sid i
                        (snd (sync_update (ge_redis env) now i (join_patch sid) (w_sync w')))\<rparr>
             in emit (ToRoom (SockRoom (ss_sourceSocketId s))) (Sync (DeviceSyncPeerJoined i ek))
                  (emit (ToSocket sid) (Sync (DeviceSyncOffer i (ss_ekSource s) (ss_sdpOffer s)))
                    (upd_sock sid (join_room (SyncRoom i)) w))) ?P"
        unfolding sy using w'(2) self
        by (auto simp: Let_def session_sockets_def intro!: sends_emit sends_frame ends split: option.split)
    qed
  next
    case (SyncAnswer i x)
    show ?thesis unfolding SyncAnswer handle_sync.simps handleDeviceSyncRelayAnswer_def
      using pt[OF _ ne] mine by (auto simp: session_sockets_def intro!: sends_emit ends split: option.split)
  next
    case (SyncIce i x)
    show ?thesis unfolding SyncIce handle_sync.simps handleDeviceSyncIce_def
      using peer_ok by (simp add: sends_to_peer split: option.split)
  next
    case (SyncAbort i)
    show ?thesis unfolding SyncAbort handle_sync.simps handleDeviceSyncAbort_def
      using peer_ok self by (simp add: sends_emit sends_to_peer split: option.split)
  qed
qed

lemma sockets_of_map: "sockets_of w v = {t. map_option k_userId (mget (w_sockets w) t) = Some (Some v)}"
  by (auto simp: sockets_of_def)

lemma handle_sync_sockets:
  "map_option k_userId (mget (w_sockets (handle_sync env now sid m u w)) t) = map_option k_userId (mget (w_sockets w) t)"
proof -
  have l: "map_option k_userId (mget (w_sockets (limited sid l ev now h w)) t) = map_option k_userId (mget (w_sockets w) t)"
    if "\<And>w'. map_option k_userId (mget (w_sockets (h w')) t) = map_option k_userId (mget (w_sockets w') t)"
    for l ev h and w :: "'a world"
    using that rateLimit_simps(5)[of sid l ev now w] by (cases "rateLimit sid l ev now w") (auto simp: limited_def)
  have j: "map_option k_userId (if t = sid then map_option (join_room r) (mget m sid) else mget m t) = map_option k_userId (mget m t)"
    for r m by (cases "mget m sid") auto
  have p: "w_sockets (to_peer q e w) = w_sockets w" for q e and w :: "'a world" by (simp add: to_peer_def)
  show ?thesis
    by (cases m) (auto simp: handleDeviceSyncStart_def handleDeviceSyncJoin_def handleDeviceSyncRelayAnswer_def
        handleDeviceSyncIce_def handleDeviceSyncAbort_def Let_def p j simp del: map_option_eq_Some split: option.split intro!: l)
qed

text \<open>C30. Device sync stays within one account: whatever a device-sync message makes the gateway send goes to the
  sender or to a socket signed in as the same user; and in every reachable state a session that has a target has
  two different ends and no longer holds the source's key share and offer, so they are handed out at most once.\<close>

theorem device_sync_private:
  assumes "fresh_start sv d" "gw_run_ok env (start_world sv d) (es @ [(now, Receive sid (SyncIn m))])"
    and "w = gw_run env (start_world sv d) es" "w' = gw_step env w (now, Receive sid (SyncIn m))"
  shows "(\<exists>new. w_out w' = w_out w @ new \<and> (\<forall>x\<in>set new. \<forall>t\<in>receivers w' (fst x).
            t = sid \<or> (\<exists>uid. t \<in> sockets_of w' uid \<and> sid \<in> sockets_of w' uid)))
    \<and> (\<forall>i s t. mget (sy_mem (w_sync w')) i = Some s \<longrightarrow> ss_targetSocketId s = Some t \<longrightarrow>
          t \<noteq> ss_sourceSocketId s \<and> ss_ekSource s = None \<and> ss_sdpOffer s = None)"
proof -
  have jwt: "good_jwt env" and ok: "gw_run_ok env (start_world sv d) es" using assms(2) by auto
  have inv: "gw_inv env w" unfolding assms(3) by (rule reachable_inv[OF assms(1) ok])
  have inv': "gw_inv env w'" unfolding assms(4) by (rule gw_step_inv[OF inv jwt]) simp
  then have "sync_ok (mget (sy_mem (w_sync w'))) (mget (sy_sktMem (w_sync w')))" by (simp add: gw_inv_def store_inv_def)
  then have two: "t \<noteq> ss_sourceSocketId s \<and> ss_ekSource s = None \<and> ss_sdpOffer s = None"
    if "mget (sy_mem (w_sync w')) i = Some s" "ss_targetSocketId s = Some t" for i s t
    using sync_ok_getD[of "mget (sy_mem (w_sync w'))" _ i s] that by blast
  have "sends w w' (\<lambda>to. \<forall>t\<in>receivers w' to. t = sid \<or> (\<exists>uid. t \<in> sockets_of w' uid \<and> sid \<in> sockets_of w' uid))"
  proof (cases "fst (ws_guard env now sid w)")
    case None
    then obtain w1 where g: "ws_guard env now sid w = (None, w1)" by (cases "ws_guard env now sid w") auto
    then have "w' = w1" using assms(4) by (simp add: guarded_def)
    then show ?thesis using ws_guard_NoneD[OF g] by (auto intro: sends_emit)
  next
    case (Some u)
    then obtain w1 where g: "ws_guard env now sid w = (Some u, w1)" by (cases "ws_guard env now sid w") auto
    have inv1: "gw_inv env w1" and sid: "sid \<in> sockets_of w1 (su_id u)" and o1: "w_out w1 = w_out w"
      using guard_identity[OF inv jwt g] ws_guard_SomeD[OF g] by auto
    have w': "w' = handle_sync env now sid m u w1" using assms(4) g by (simp add: guarded_def)
    have ids: "map_option k_userId (mget (w_sockets w') t) = map_option k_userId (mget (w_sockets w1) t)" for t
      unfolding w' by (rule handle_sync_sockets)
    then have of: "sockets_of w' v = sockets_of w1 v" for v
      by (simp only: sockets_of_map)
    have "t = sid \<or> (t \<in> sockets_of w' (su_id u) \<and> sid \<in> sockets_of w' (su_id u))"
      if to: "within_user w1 sid (su_id u) to" and t: "t \<in> receivers w' to" for t to
    proof -
      consider "to = ToSocket sid" | s where "to = ToRoom (SockRoom s)"
          "\<forall>k. mget (w_sockets w1) s = Some k \<longrightarrow> k_userId k = Some (su_id u)"
        using to by (auto simp: within_user_def)
      then show ?thesis
      proof cases
        case 1
        then show ?thesis using t by simp
      next
        case (2 s)
        then obtain k where k: "mget (w_sockets w') t = Some k" "SockRoom s \<in> set (k_rooms k)"
          using t by (auto simp: receivers_room)
        have "room_ok t (k_userId k) (SockRoom s)" using gw_inv_sockD[OF inv' k(1)] k(2) unfolding sock_ok_def by blast
        then have "s = t" by (simp only: room_ok.simps)
        moreover obtain k1 where "mget (w_sockets w1) t = Some k1" "k_userId k1 = k_userId k"
          using ids[of t] k(1) by (cases "mget (w_sockets w1) t") auto
        ultimately have "t \<in> sockets_of w' (su_id u)" using 2(2) k(1) by (auto simp: sockets_of_def)
        then show ?thesis using sid of by simp
      qed
    qed
    then show ?thesis using handle_sync_sends[OF inv1 sid, of now m] o1 unfolding w' sends_def by (metis (no_types, lifting))
  qed
  then show ?thesis using two unfolding sends_def by blast
qed

definition demo_session_id :: jsstr where "demo_session_id = replicate 32 48"

definition demo_sync_run :: "(time \<times> gw_op) list" where
  "demo_sync_run = demo_connects @ [(1, Receive [11] (SyncIn (SyncStart (Some demo_session_id) (Some [7]) (Some [8]))))]"

lemma demo_sync_ok:
  "gw_run_ok gw_demo demo_start (demo_sync_run @ [(2, Receive [12] (SyncIn (SyncJoin demo_session_id [9])))])"
  using demo_connected(1) by (simp add: demo_sync_run_def good_gw_demo)

definition demo_synced :: "(jsstr \<Rightarrow> jsstr option) world" where
  "demo_synced = gw_run gw_demo demo_start (demo_sync_run @ [(2, Receive [12] (SyncIn (SyncJoin demo_session_id [9])))])"

theorem device_sync_private_witness:
  "map_option ss_targetSocketId (mget (sy_mem (w_sync demo_synced)) demo_session_id) = Some (Some [12])
   \<and> map_option ss_ekSource (mget (sy_mem (w_sync demo_synced)) demo_session_id) = Some None"
proof -
  have "map_option ss_targetSocketId (mget (sy_mem (w_sync demo_synced)) demo_session_id) = Some (Some [12])"
    by code_simp
  moreover from this have "map_option ss_ekSource (mget (sy_mem (w_sync demo_synced)) demo_session_id) = Some None"
    using device_sync_private[OF demo_fresh demo_sync_ok refl refl] by (auto simp: demo_synced_def)
  ultimately show ?thesis by simp
qed

end
