(* ===== verification/GatewaySchedule.thy ===== *)
theory GatewaySchedule
  imports GatewayProperties
begin

text \<open>
  Calls, rejected messages and scheduled messages.  The last part follows the pending timers through the runs of the
  gateway: what \<open>setTimeout\<close> does with a delay of more than \<open>2 ^ 31 - 1\<close> milliseconds is visible here.
\<close>

section \<open>Calls\<close>

lemma sends_mono: "sends w w' P \<Longrightarrow> (\<And>to. P to \<Longrightarrow> Q to) \<Longrightarrow> sends w w' Q"
  unfolding sends_def by blast

lemma sends_snoc: "sends w w1 P \<Longrightarrow> w_out w2 = w_out w1 @ [(to, e)] \<Longrightarrow> P to \<Longrightarrow> sends w w2 P"
  by (auto simp: sends_def)

text \<open>Signalling stays between the parties: a call message changes nothing in the database, never redirects an
  existing call (it stays as it is or ends), creates a call only with the sender as its caller, and whatever it
  makes the gateway send goes to the sender's socket or to the user room of the caller or the callee of a call.\<close>

theorem call_signalling:
  "let w' = handle_call now sid m u w in
     (\<forall>j c. mget (w_calls w) j = Some c \<longrightarrow> mget (w_calls w') j = None \<or> mget (w_calls w') j = Some c)
   \<and> (\<forall>j c. mget (w_calls w) j = None \<longrightarrow> mget (w_calls w') j = Some c \<longrightarrow> call_callerId c = su_id u)
   \<and> w_db w' = w_db w
   \<and> sends w w' (\<lambda>to. to = ToSocket sid \<or> (\<exists>j c. (mget (w_calls w) j = Some c \<or> mget (w_calls w') j = Some c)
        \<and> (to = ToRoom (UserRoom (call_callerId c)) \<or> to = ToRoom (UserRoom (call_calleeId c)))))"
proof (cases m)
  case (CallUser i cid t ty)
  let ?w = "snd (rateLimit sid CallLim ''callUser'' now w)"
  let ?c = "\<lparr>call_callerId = su_id u, call_calleeId = t, call_conversationId = cid, call_callType = ty\<rparr>"
  have r: "sends w ?w (\<lambda>to. to = ToSocket sid)" by (rule rateLimit_sends) simp
  show ?thesis
  proof (cases "fst (rateLimit sid CallLim ''callUser'' now w) \<and> \<not> mhas (w_calls w) i")
    case True
    obtain w2 where w2: "rateLimit sid CallLim ''callUser'' now w = (True, w2)" using True by (cases "rateLimit sid CallLim ''callUser'' now w") auto
    then have "w_calls w2 = w_calls w" "w_db w2 = w_db w"
      using rateLimit_simps(3)[of sid CallLim "''callUser''" now w] rateLimit_simps(1)[of sid CallLim "''callUser''" now w] by auto
    then have eq: "w_calls (handle_call now sid m u w) = mset_at i ?c (w_calls w)" "w_db (handle_call now sid m u w) = w_db w"
      "\<exists>e. w_out (handle_call now sid m u w) = w_out ?w @ [(ToRoom (UserRoom t), e)]"
      using True CallUser w2 by (auto simp: handleCallUser_def limited_def Let_def)
    then obtain e where out: "w_out (handle_call now sid m u w) = w_out ?w @ [(ToRoom (UserRoom t), e)]" by blast
    have i: "mget (w_calls w) i = None" using True by (auto simp: mhas_def)
    have get: "mget (w_calls (handle_call now sid m u w)) j = (if j = i then Some ?c else mget (w_calls w) j)" for j
      using eq(1) by simp
    let ?P = "\<lambda>to. to = ToSocket sid \<or> (\<exists>j c. (mget (w_calls w) j = Some c \<or> mget (w_calls (handle_call now sid m u w)) j = Some c)
        \<and> (to = ToRoom (UserRoom (call_callerId c)) \<or> to = ToRoom (UserRoom (call_calleeId c))))"
    have "?P (ToRoom (UserRoom t))" by (rule disjI2, rule exI[of _ i], rule exI[of _ ?c]) (simp add: get)
    moreover have "sends w ?w ?P" by (rule sends_mono[OF r], rule disjI1)
    ultimately have "sends w (handle_call now sid m u w) ?P" by (rule sends_snoc[where P = ?P, OF _ out, rotated])
    moreover have "\<forall>j c. mget (w_calls w) j = Some c \<longrightarrow>
        mget (w_calls (handle_call now sid m u w)) j = None \<or> mget (w_calls (handle_call now sid m u w)) j = Some c"
      unfolding get using i by simp
    moreover have "\<forall>j c. mget (w_calls w) j = None \<longrightarrow> mget (w_calls (handle_call now sid m u w)) j = Some c \<longrightarrow> call_callerId c = su_id u"
      unfolding get by simp
    ultimately show ?thesis using eq(2) unfolding Let_def by blast
  next
    case False
    obtain b w2 where w2: "rateLimit sid CallLim ''callUser'' now w = (b, w2)" by fastforce
    then have "w_calls w2 = w_calls w" using rateLimit_simps(3)[of sid CallLim "''callUser''" now w] by simp
    then have "handle_call now sid m u w = ?w"
      using False CallUser w2 by (auto simp: handleCallUser_def limited_def Let_def)
    then show ?thesis using sends_mono[OF r] by (simp add: Let_def)
  qed
qed (auto simp: handleCallAccept_def handleCallReject_def handleCallEnd_def handleCallBusy_def handleSdpOffer_def
      handleSdpAnswer_def handleIceCandidate_def other_party_def sends_def Let_def split: option.split)

text \<open>A small call: user 1 rings user 2, who rejects.\<close>

theorem call_signalling_witness:
  "\<exists>w :: (jsstr \<Rightarrow> jsstr option) world. mget (w_calls w) [5] \<noteq> None
     \<and> mget (w_calls (handle_call 0 [21] (RejectCall [5]) \<lparr>su_id = 2, su_nickname = [], su_email = None, su_role = None\<rparr> w)) [5] = None
     \<and> w_db (handle_call 0 [21] (RejectCall [5]) \<lparr>su_id = 2, su_nickname = [], su_email = None, su_role = None\<rparr> w) = w_db w"
proof -
  let ?w = "demo_start\<lparr>w_calls := [([5], \<lparr>call_callerId = 1, call_calleeId = 2, call_conversationId = 1, call_callType = Audio\<rparr>)]\<rparr>"
  let ?u = "\<lparr>su_id = 2, su_nickname = [], su_email = None, su_role = None\<rparr>"
  have "w_db (handle_call 0 [21] (RejectCall [5]) ?u ?w) = w_db ?w"
    using call_signalling[where w = ?w and now = 0 and sid = "[21]" and m = "RejectCall [5]" and u = ?u] by (simp only: Let_def)
  moreover have "mget (w_calls (handle_call 0 [21] (RejectCall [5]) ?u ?w)) [5] = None" by (simp add: handleCallReject_def)
  ultimately show ?thesis by (intro exI[of _ ?w]) simp
qed

lemma end_calls_fold:
  assumes "distinct (map fst cs)"
  shows "mget (w_calls (fold (\<lambda>(cid, c) w. if party uid c
       then (emit (ToRoom (UserRoom (remote_of uid c))) (Calling (CallEnded cid)) w)\<lparr>w_calls := mdelete cid (w_calls w)\<rparr>
       else w) cs w)) i = (case map_of cs i of Some c \<Rightarrow> if party uid c then None else mget (w_calls w) i | None \<Rightarrow> mget (w_calls w) i)"
    and "w_out (fold (\<lambda>(cid, c) w. if party uid c
       then (emit (ToRoom (UserRoom (remote_of uid c))) (Calling (CallEnded cid)) w)\<lparr>w_calls := mdelete cid (w_calls w)\<rparr>
       else w) cs w) = w_out w @ map (\<lambda>(cid, c). (ToRoom (UserRoom (remote_of uid c)), Calling (CallEnded cid)))
         (filter (\<lambda>(cid, c). party uid c) cs)"
  using assms
proof (induction cs arbitrary: w)
  case (Cons x cs)
  obtain j c where x: "x = (j, c)" by (cases x)
  {
    case 1
    then have "map_of cs j = None" using x by (simp add: map_of_eq_None_iff)
    then show ?case using Cons.IH(1) 1 x by (auto split: option.split)
  next
    case 2
    then show ?case using Cons.IH(2) x by auto
  }
qed auto

text \<open>When a socket of a user goes away, every call of the user ends, the other party of each is told, and no
  other call is touched: this is so even when the user has further sockets.\<close>

theorem calls_end_on_disconnect:
  assumes "mget (w_sockets w) sid = Some k" "k_userId k = Some uid" "uid \<noteq> 0" "distinct (map fst (w_calls w))"
  shows "(\<forall>i. mget (w_calls (disconnect env now sid w)) i =
           (case mget (w_calls w) i of None \<Rightarrow> None | Some c \<Rightarrow> if party uid c then None else Some c))
    \<and> (\<forall>i c. mget (w_calls w) i = Some c \<longrightarrow> party uid c \<longrightarrow>
           (ToRoom (UserRoom (remote_of uid c)), Calling (CallEnded i)) \<in> set (w_out (disconnect env now sid w)))"
proof -
  let ?w0 = "abort_sync env now sid (w\<lparr>w_sockets := mdelete sid (w_sockets w)\<rparr>)"
  have c0: "w_calls ?w0 = w_calls w" by (auto simp: abort_sync_def to_peer_def split: option.split)
  have d: "disconnect env now sid w = drop_active sid uid now (end_calls uid ?w0)"
    using assms(1-3) by (simp add: disconnect_def handleDisconnect_def)
  have f: "w_calls (drop_active sid uid now v) = w_calls v" "\<exists>es. w_out (drop_active sid uid now v) = w_out v @ es" for v :: "'a world"
    by (auto simp: drop_active_def split: option.split)
  note e = end_calls_fold[OF assms(4), of uid ?w0, folded c0]
  have "mget (w_calls (disconnect env now sid w)) i =
      (case mget (w_calls w) i of None \<Rightarrow> None | Some c \<Rightarrow> if party uid c then None else Some c)" for i
    using e(1)[of i] c0 by (auto simp: d f end_calls_def split: option.split)
  moreover have "(ToRoom (UserRoom (remote_of uid c)), Calling (CallEnded i)) \<in> set (w_out (disconnect env now sid w))"
    if "mget (w_calls w) i = Some c" "party uid c" for i c
  proof -
    have "(i, c) \<in> set (w_calls ?w0)" using map_of_SomeD[OF that(1)] c0 by simp
    then have "(ToRoom (UserRoom (remote_of uid c)), Calling (CallEnded i)) \<in> set (w_out (end_calls uid ?w0))"
      unfolding end_calls_def e(2) using that(2) by force
    then show ?thesis using f(2)[of "end_calls uid ?w0"] by (auto simp: d)
  qed
  ultimately show ?thesis by blast
qed

theorem calls_end_on_disconnect_witness:
  "mget (w_calls (disconnect gw_demo 9 [11] ((gw_run gw_demo demo_start demo_connects)\<lparr>w_calls :=
     [([5], \<lparr>call_callerId = 2, call_calleeId = 1, call_conversationId = 1, call_callType = Audio\<rparr>)]\<rparr>))) [5] = None"
proof -
  let ?w = "(gw_run gw_demo demo_start demo_connects)\<lparr>w_calls :=
     [([5], \<lparr>call_callerId = 2, call_calleeId = 1, call_conversationId = 1, call_callType = Audio\<rparr>)]\<rparr>"
  have "mget (w_sockets ?w) [11] = Some (demo_sock 11 1 (Some [1]) None)" by (simp add: demo_connected(2))
  from calls_end_on_disconnect[OF this, of 1 gw_demo 9] show ?thesis by (simp add: demo_sock_def party_def)
qed

section \<open>Rejected messages\<close>

fun chat_limit :: "chat_in \<Rightarrow> (limit_name \<times> string) option" where
  "chat_limit (SendMessage m) = Some (MsgLim, ''sendMessage'')"
| "chat_limit (Typing cid b) = Some (TypingLim, ''typing'')"
| "chat_limit (DeleteMsg mid) = Some (MutateLim, ''deleteMessage'')"
| "chat_limit (EditMsg mid x) = Some (MutateLim, ''editMessage'')"
| "chat_limit (React mid e) = Some (ReactLim, ''toggleReaction'')"
| "chat_limit (SendFriendReq r) = Some (FriendLim, ''sendFriendRequest'')"
| "chat_limit (RespondFriendReq f a) = Some (FriendLim, ''respondFriendRequest'')"
| "chat_limit (PinMsg cid mid) = Some (MutateLim, ''pinMessage'')"
| "chat_limit (UnpinMsg cid mid) = Some (MutateLim, ''unpinMessage'')"
| "chat_limit (ForwardMsg mid t c) = Some (ForwardLim, ''forwardMessage'')"
| "chat_limit _ = None"

fun msg_limit :: "ws_in \<Rightarrow> (limit_name \<times> string) option" where
  "msg_limit (ChatIn m) = chat_limit m"
| "msg_limit (CallIn (CallUser i cid t ty)) = Some (CallLim, ''callUser'')"
| "msg_limit (SyncIn (SyncStart i k x)) = Some (SyncLim, ''deviceSyncStart'')"
| "msg_limit (SyncIn (SyncJoin i k)) = Some (SyncLim, ''deviceSyncJoin'')"
| "msg_limit _ = None"

fun guarded_msg :: "ws_in \<Rightarrow> bool" where
  "guarded_msg (UpdateToken t) \<longleftrightarrow> False"
| "guarded_msg _ \<longleftrightarrow> True"

definition same_state :: "'r world \<Rightarrow> 'r world \<Rightarrow> bool" where
  "same_state w w' \<longleftrightarrow> w_db w' = w_db w \<and> w_active w' = w_active w \<and> w_calls w' = w_calls w \<and> w_sync w' = w_sync w
     \<and> w_timers w' = w_timers w \<and> w_pushed w' = w_pushed w"

lemma over_limit:
  assumes "\<not> fst (rateLimit sid l ev now w)"
  shows "limited sid l ev now h w = snd (rateLimit sid l ev now w)"
  using assms by (cases "rateLimit sid l ev now w") (simp add: limited_def)

lemma rateLimit_out:
  "\<exists>new. w_out (snd (rateLimit sid l ev now w)) = w_out w @ new \<and> (\<forall>x\<in>set new. \<exists>n. x = (ToSocket sid, RateLimited ev n))"
  by (auto simp: rateLimit_def Let_def split: option.split prod.split)

text \<open>C31. A rejected message does nothing: when the guard refuses the socket's token, or the user is over the limit of the
  message's kind, then the database, the calls, the sync sessions, the timers and the pushes stay as they were and
  at most the sender hears of it (an authentication error, or when to try again).\<close>

theorem rejected_message_no_effect:
  assumes "guarded_msg m"
    and "ws_guard env now sid w = (None, w1) \<or>
      (\<exists>u l ev. ws_guard env now sid w = (Some u, w1) \<and> msg_limit m = Some (l, ev) \<and> \<not> fst (rateLimit sid l ev now w1))"
  shows "same_state w (ws_dispatch env now sid m w)
    \<and> (\<exists>new. w_out (ws_dispatch env now sid m w) = w_out w @ new
         \<and> (\<forall>x\<in>set new. \<exists>e. x = (ToSocket sid, e) \<and> ((\<exists>c. e = AuthError c) \<or> (\<exists>ev n. e = RateLimited ev n))))"
  using assms(2)
proof
  assume g: "ws_guard env now sid w = (None, w1)"
  then have "ws_dispatch env now sid m w = w1" using assms(1) by (cases m) (simp_all add: guarded_def)
  then show ?thesis using ws_guard_NoneD[OF g] by (auto simp: same_state_def)
next
  assume "\<exists>u l ev. ws_guard env now sid w = (Some u, w1) \<and> msg_limit m = Some (l, ev) \<and> \<not> fst (rateLimit sid l ev now w1)"
  then obtain u l ev where g: "ws_guard env now sid w = (Some u, w1)" and m: "msg_limit m = Some (l, ev)"
    and lim: "\<not> fst (rateLimit sid l ev now w1)" by blast
  note over = over_limit[OF lim]
  have "ws_dispatch env now sid m w = snd (rateLimit sid l ev now w1)"
  proof (cases m)
    case (ChatIn c)
    then show ?thesis using m g over
      by (cases c) (auto simp: guarded_def handleMessage_def handleTyping_def handleDelete_def handleEdit_def handleReaction_def
          handleFriendRequest_def handleRespondFriend_def handlePin_def handleUnpin_def handleForwardMessage_def)
  next
    case (CallIn c)
    then show ?thesis using m g over by (cases c) (auto simp: guarded_def handleCallUser_def)
  next
    case (SyncIn c)
    then show ?thesis using m g over
      by (cases c) (auto simp: guarded_def handleDeviceSyncStart_def handleDeviceSyncJoin_def)
  qed (use assms(1) in simp)
  moreover obtain f where "w1 = upd_sock sid f w" using ws_guard_SomeD[OF g] by blast
  moreover obtain new where "w_out (snd (rateLimit sid l ev now w1)) = w_out w1 @ new"
      "\<forall>x\<in>set new. \<exists>n. x = (ToSocket sid, RateLimited ev n)" using rateLimit_out by blast
  ultimately show ?thesis unfolding same_state_def by (intro conjI exI[of _ new]) (simp_all, blast)
qed

theorem rejected_message_no_effect_witness:
  "same_state demo_start (ws_dispatch gw_demo 5 [77] (ChatIn (DeleteMsg 1)) demo_start)
   \<and> w_db (ws_dispatch gw_demo 5 [77] (ChatIn (DeleteMsg 1)) demo_start) = chat_db"
proof -
  have "ws_guard gw_demo 5 [77] demo_start = (None, demo_start)" by (simp add: ws_guard_def start_world_def)
  then show ?thesis
    using rejected_message_no_effect[of "ChatIn (DeleteMsg 1)" gw_demo 5 "[77]" demo_start demo_start]
    by (simp add: same_state_def start_world_def)
qed

section \<open>Scheduled messages\<close>

text \<open>A step of the message table that keeps ids fresh and the schedule of every old message.\<close>

definition msgs_step :: "db \<Rightarrow> db \<Rightarrow> bool" where
  "msgs_step d d' \<longleftrightarrow> nxt (db_messages d) \<le> nxt (db_messages d')
     \<and> (tbl_wf msg_id (db_messages d) \<longrightarrow> tbl_wf msg_id (db_messages d'))
     \<and> (\<forall>g'\<in>set (rows (db_messages d')). nxt (db_messages d) \<le> msg_id g' \<and> msg_id g' < nxt (db_messages d')
          \<or> (\<exists>g\<in>set (rows (db_messages d)). msg_id g = msg_id g' \<and> msg_scheduledAt g = msg_scheduledAt g'))"

lemma msgs_refl [simp]: "db_messages d' = db_messages d \<Longrightarrow> msgs_step d d'"
  by (auto simp: msgs_step_def)

lemma msgs_trans:
  assumes "msgs_step a b" "msgs_step b c"
  shows "msgs_step a c"
  unfolding msgs_step_def
proof (intro conjI ballI)
  show "nxt (db_messages a) \<le> nxt (db_messages c)" using assms by (auto simp: msgs_step_def)
  show "tbl_wf msg_id (db_messages a) \<longrightarrow> tbl_wf msg_id (db_messages c)" using assms by (auto simp: msgs_step_def)
  fix g assume "g \<in> set (rows (db_messages c))"
  then consider "nxt (db_messages b) \<le> msg_id g \<and> msg_id g < nxt (db_messages c)"
    | h where "h \<in> set (rows (db_messages b))" "msg_id h = msg_id g" "msg_scheduledAt h = msg_scheduledAt g"
    using assms(2) unfolding msgs_step_def by blast
  then show "nxt (db_messages a) \<le> msg_id g \<and> msg_id g < nxt (db_messages c)
      \<or> (\<exists>h\<in>set (rows (db_messages a)). msg_id h = msg_id g \<and> msg_scheduledAt h = msg_scheduledAt g)"
  proof cases
    case 1
    then show ?thesis using assms(1) by (auto simp: msgs_step_def)
  next
    case (2 h)
    then show ?thesis using assms unfolding msgs_step_def by fastforce
  qed
qed

lemma msgs_check: "(\<And>x. msgs_step d (snd (f x d))) \<Longrightarrow> msgs_step d (snd (check r f d))"
  by (cases r) auto

lemma msgs_sbind: "msgs_step d (snd p) \<Longrightarrow> (\<And>x d'. msgs_step d' (snd (f x d'))) \<Longrightarrow> msgs_step d (snd (sbind p f))"
  by (cases p; cases "fst p") (auto intro: msgs_trans)

lemma msgs_create: "(\<And>i. msg_id (mk i) = i) \<Longrightarrow> msgs_step d (snd (create_message mk d))"
  by (auto simp: create_message_def Let_def msgs_step_def intro!: tbl_wf_insert)

lemma msgs_update:
  "(\<And>g. msg_id (f g) = msg_id g \<and> msg_scheduledAt (f g) = msg_scheduledAt g) \<Longrightarrow> msgs_step d (snd (update_msg mid f d))"
  by (auto simp: update_msg_def msgs_step_def intro!: tbl_wf_update split: option.split)

lemma msgs_other [simp]:
  "msgs_step d (snd (create_envelopes mid es d))" "msgs_step d (snd (touch_conv cid now d))"
  "msgs_step d (snd (upsert_pin cid mid uid now d))" "msgs_step d (snd (flip_reaction mid uid emoji now d))"
  "msgs_step d (snd (create_friendship s r now d))" "msgs_step d (markAsRead uid cid now d)"
  by (auto simp: create_envelopes_def touch_conv_def update_conv_def upsert_pin_def flip_reaction_def
      create_friendship_def markAsRead_def Let_def split: option.split intro!: msgs_refl)

lemma msgs_services:
  "msgs_step d (snd (saveMessage J uid cid dto now d))"
  "msgs_step d (snd (deleteMessage mid uid now d))"
  "msgs_step d (snd (editMessage mid uid x now d))"
  "msgs_step d (snd (toggleReaction mid uid emoji now d))"
  "msgs_step d (snd (addPinnedMessage uid cid mid now d))"
  "msgs_step d (snd (removePinnedMessage uid cid mid d))"
  "msgs_step d (snd (forwardMessage uid mid target c now d))"
  "msgs_step d (snd (sendRequest uid r now d))"
  "msgs_step d (snd (respond uid fid a d))"
proof -
  show "msgs_step d (snd (saveMessage J uid cid dto now d))"
    unfolding saveMessage_def by (auto intro!: msgs_check msgs_sbind msgs_create simp: new_message_def split: option.split)
  show "msgs_step d (snd (deleteMessage mid uid now d))"
    unfolding deleteMessage_def by (auto intro!: msgs_sbind msgs_update simp: Let_def split: option.split)
  show "msgs_step d (snd (editMessage mid uid x now d))"
    unfolding editMessage_def by (auto intro!: msgs_update split: option.split)
  show "msgs_step d (snd (toggleReaction mid uid emoji now d))"
    unfolding toggleReaction_def by (auto intro!: msgs_check msgs_sbind split: option.split)
  show "msgs_step d (snd (addPinnedMessage uid cid mid now d))"
    unfolding addPinnedMessage_def by (auto intro!: msgs_check msgs_sbind split: option.split)
  show "msgs_step d (snd (removePinnedMessage uid cid mid d))"
    unfolding removePinnedMessage_def by (auto intro!: msgs_check simp: Let_def)
  show "msgs_step d (snd (forwardMessage uid mid target c now d))"
    unfolding forwardMessage_def by (auto intro!: msgs_check msgs_sbind msgs_create split: option.split)
  show "msgs_step d (snd (sendRequest uid r now d))"
    unfolding sendRequest_def
    by (auto intro!: msgs_check split: option.split)
      (auto intro!: msgs_sbind msgs_trans[OF msgs_refl msgs_other(5)] simp: delete_friendship_def)
  show "msgs_step d (snd (respond uid fid a d))"
    unfolding respond_def by (auto simp: Let_def split: option.split)
qed

text \<open>A timer fires no earlier than its message is due, unless the delay did not fit 31 bits.\<close>

definition timer_fits :: "message \<Rightarrow> time \<Rightarrow> bool" where
  "timer_fits g due \<longleftrightarrow> (case msg_scheduledAt g of None \<Rightarrow> True | Some t \<Rightarrow> t \<le> due \<or> due + (2 ^ 31 - 2) < t)"

definition timers_inv :: "'r world \<Rightarrow> bool" where
  "timers_inv w \<longleftrightarrow> tbl_wf msg_id (db_messages (w_db w))
     \<and> (\<forall>(due, mid, cid)\<in>set (w_timers w). mid < nxt (db_messages (w_db w))
          \<and> (\<forall>g\<in>set (rows (db_messages (w_db w))). msg_id g = mid \<longrightarrow> timer_fits g due))"

lemma timers_step:
  assumes "timers_inv w" "msgs_step (w_db w) (w_db w')" "set (w_timers w') \<subseteq> set (w_timers w)"
  shows "timers_inv w'"
  unfolding timers_inv_def
proof (intro conjI ballI; (clarify)?)
  show "tbl_wf msg_id (db_messages (w_db w'))" using assms(1,2) by (simp add: timers_inv_def msgs_step_def)
  fix due mid cid assume "(due, mid, cid) \<in> set (w_timers w')"
  then have t: "mid < nxt (db_messages (w_db w))" "\<forall>g\<in>set (rows (db_messages (w_db w))). msg_id g = mid \<longrightarrow> timer_fits g due"
    using assms(1,3) unfolding timers_inv_def by blast+
  have "timer_fits g due" if g: "g \<in> set (rows (db_messages (w_db w')))" "msg_id g = mid" for g
  proof -
    from g t(1) obtain h where "h \<in> set (rows (db_messages (w_db w)))" "msg_id h = msg_id g" "msg_scheduledAt h = msg_scheduledAt g"
      using assms(2) unfolding msgs_step_def by force
    then show ?thesis using t(2) g(2) by (auto simp: timer_fits_def)
  qed
  then show "mid < nxt (db_messages (w_db w')) \<and> (\<forall>g\<in>set (rows (db_messages (w_db w'))). msg_id g = mid \<longrightarrow> timer_fits g due)"
    using t(1) assms(2) unfolding msgs_step_def by auto
qed

text \<open>Steps that start no timer.\<close>

definition quiet :: "'r world \<Rightarrow> 'r world \<Rightarrow> bool" where
  "quiet w w' \<longleftrightarrow> msgs_step (w_db w) (w_db w') \<and> set (w_timers w') \<subseteq> set (w_timers w)"

lemma quiet_timers: "quiet w w' \<Longrightarrow> timers_inv w \<Longrightarrow> timers_inv w'"
  unfolding quiet_def by (rule timers_step) auto

named_theorems quiet_intros \<open>handlers that start no timer\<close>

lemma quiet_refl [simp]: "quiet w w"
  by (simp add: quiet_def)

lemma quiet_trans: "quiet a b \<Longrightarrow> quiet b c \<Longrightarrow> quiet a c"
  unfolding quiet_def by (blast intro: msgs_trans)

lemma quiet_same: "db_messages (w_db w') = db_messages (w_db w) \<Longrightarrow> w_timers w' = w_timers w \<Longrightarrow> quiet w w'"
  by (simp add: quiet_def)

lemma quiet_emit [quiet_intros]: "quiet w w' \<Longrightarrow> quiet w (emit to e w')"
  by (simp add: quiet_def)

lemma quiet_fail [quiet_intros]: "quiet w w' \<Longrightarrow> quiet w (fail_message sid e w')"
  by (simp add: fail_message_def quiet_emit)

lemma quiet_limited: "(\<And>w. quiet w (h w)) \<Longrightarrow> quiet w (limited s l ev now h w)"
proof -
  assume h: "\<And>w. quiet w (h w)"
  have r: "quiet w (snd (rateLimit s l ev now w))" by (rule quiet_same) simp_all
  show ?thesis using quiet_trans[OF r h] r by (cases "rateLimit s l ev now w") (simp add: limited_def)
qed

lemma quiet_on_db:
  assumes "\<And>d. msgs_step d (snd (f d))" "\<And>e w. quiet w (g (Inl e, w))" "\<And>x w. quiet w (g (Inr x, w))"
  shows "quiet w (g (on_db f w))"
proof -
  obtain r w' where o: "on_db f w = (r, w')" by fastforce
  then have "w' = snd (on_db f w)" by simp
  then have "quiet w w'" using assms(1) by (simp add: quiet_def)
  moreover have "quiet w' (g (r, w'))" using assms(2,3) by (cases r) auto
  ultimately show ?thesis unfolding o by (rule quiet_trans)
qed

lemma quiet_fold: "(\<And>x w. quiet w (f x w)) \<Longrightarrow> quiet w (fold f xs w)"
  by (induction xs arbitrary: w) (auto intro: quiet_trans)

lemma quiet_push_all [quiet_intros]: "quiet w w' \<Longrightarrow> quiet w (push_all env p b us w')"
proof -
  have "quiet v (push_all env p b us v)" for v :: "'a world"
    unfolding push_all_def
    by (rule quiet_fold, rule quiet_same) (simp_all add: same_core_simps[OF sendToUser_core])
  then show "quiet w w' \<Longrightarrow> ?thesis" by (blast intro: quiet_trans)
qed

lemma quiet_deliver: "quiet w (deliverScheduledMessage env now mid cid w)"
  unfolding deliverScheduledMessage_def Let_def
  by (auto intro!: quiet_intros split: option.split) (auto simp: quiet_def intro!: msgs_update)

lemma quiet_handlers:
  "quiet w (handleMarkAsRead now sid cid u w)"
  "quiet w (handleTyping now sid cid b u w)"
  "quiet w (handleDelete now sid mid u w)"
  "quiet w (handleEdit now sid mid x u w)"
  "quiet w (handleReaction now sid mid e u w)"
  "quiet w (handleFriendRequest now sid r u w)"
  "quiet w (handleRespondFriend now sid f a u w)"
  "quiet w (handleJoin sid cid u w)"
  "quiet w (handlePin now sid cid mid u w)"
  "quiet w (handleUnpin now sid cid mid u w)"
  "quiet w (handleRequestSenderKeyRedistribution sid cid t u w)"
  "quiet w (handleKeyRotated sid u w)"
  "quiet w (handleForwardMessage now sid mid t c u w)"
proof -
  show "quiet w (handleMarkAsRead now sid cid u w)"
    unfolding handleMarkAsRead_def by (rule quiet_emit) (simp add: quiet_def)
  show "quiet w (handleTyping now sid cid b u w)" unfolding handleTyping_def by (rule quiet_limited) (simp add: quiet_emit)
  show "quiet w (handleDelete now sid mid u w)" unfolding handleDelete_def
    by (rule quiet_limited, rule quiet_on_db) (auto intro!: quiet_intros msgs_services)
  show "quiet w (handleEdit now sid mid x u w)" unfolding handleEdit_def
    by (rule quiet_limited, rule quiet_on_db) (auto intro!: quiet_intros msgs_services)
  show "quiet w (handleReaction now sid mid e u w)" unfolding handleReaction_def
    by (rule quiet_limited, rule quiet_on_db) (auto intro!: quiet_intros msgs_services)
  show "quiet w (handleFriendRequest now sid r u w)" unfolding handleFriendRequest_def
    by (rule quiet_limited, rule quiet_on_db) (auto intro!: quiet_intros msgs_services)
  show "quiet w (handleRespondFriend now sid f a u w)" unfolding handleRespondFriend_def
    by (rule quiet_limited, rule quiet_on_db) (auto intro!: quiet_intros msgs_services)
  show "quiet w (handleJoin sid cid u w)" by (simp add: handleJoin_def quiet_emit quiet_same)
  show "quiet w (handlePin now sid cid mid u w)" unfolding handlePin_def
    by (rule quiet_limited, rule quiet_on_db) (auto intro!: quiet_intros msgs_services)
  show "quiet w (handleUnpin now sid cid mid u w)" unfolding handleUnpin_def
    by (rule quiet_limited, rule quiet_on_db) (auto intro!: quiet_intros msgs_services)
  show "quiet w (handleRequestSenderKeyRedistribution sid cid t u w)"
    unfolding handleRequestSenderKeyRedistribution_def by (auto intro!: quiet_intros split: option.split)
  show "quiet w (handleKeyRotated sid u w)"
    unfolding handleKeyRotated_def by (auto intro!: quiet_intros split: option.split)
  show "quiet w (handleForwardMessage now sid mid t c u w)" unfolding handleForwardMessage_def
    by (rule quiet_limited, rule quiet_on_db) (auto intro!: quiet_intros msgs_services)
qed

lemma quiet_call: "quiet w (handle_call now sid m u w)"
proof (cases m)
  case (CallUser i cid t ty)
  show ?thesis unfolding CallUser handle_call.simps handleCallUser_def
    by (rule quiet_limited) (simp add: quiet_same Let_def)
qed (auto simp: handleCallAccept_def handleCallReject_def handleCallEnd_def handleCallBusy_def handleSdpOffer_def
      handleSdpAnswer_def handleIceCandidate_def intro!: quiet_same split: option.split)

lemma quiet_sync: "quiet w (handle_sync env now sid m u w)"
proof -
  have p: "quiet v (to_peer q e v')" if "quiet v v'" for q e and v v' :: "'a world" using that by (simp add: to_peer_def quiet_emit)
  show ?thesis
    by (cases m) (auto simp: handleDeviceSyncStart_def handleDeviceSyncJoin_def handleDeviceSyncRelayAnswer_def
        handleDeviceSyncIce_def handleDeviceSyncAbort_def Let_def intro!: quiet_limited quiet_emit p quiet_same split: option.split)
qed

lemma quiet_disconnect: "quiet w (disconnect env now sid w)"
proof -
  have a: "quiet v (abort_sync env now sid v)" for v :: "'a world"
    by (auto simp: abort_sync_def to_peer_def intro!: quiet_same split: option.split)
  have e: "quiet v (end_calls uid v)" for uid and v :: "'a world"
    unfolding end_calls_def by (rule quiet_fold) (auto intro!: quiet_same)
  have d: "quiet v (drop_active sid uid now v)" for uid and v :: "'a world"
    by (auto simp: drop_active_def set_offline_def intro!: quiet_same split: option.split)
  have s: "quiet w (w\<lparr>w_sockets := m\<rparr>)" for m by (rule quiet_same) simp_all
  show ?thesis unfolding disconnect_def handleDisconnect_def
    using quiet_trans[OF quiet_trans[OF quiet_trans[OF s a] e] d] s by (simp split: option.split)
qed

lemma quiet_update_token: "quiet w (handleUpdateToken env now sid tok w)"
  by (auto simp: handleUpdateToken_def intro!: quiet_disconnect quiet_same split: option.split sum.split)

lemma quiet_connect: "quiet w (connect env now sid auth query w)"
proof -
  let ?w = "w\<lparr>w_sockets := mset_at sid (new_sock sid auth query) (w_sockets w)\<rparr>"
  have "quiet ?w (handleConnection env now sid ?w)"
  proof (cases "\<exists>tok p. or_token auth query = Some tok \<and> tok \<noteq> [] \<and> ge_verify env tok now = Inr p")
    case False
    then have "handleConnection env now sid ?w = disconnect env now sid ?w"
      by (cases "or_token auth query") (auto simp: handleConnection_def new_sock_def Let_def split: sum.split)
    then show ?thesis by (simp add: quiet_disconnect)
  next
    case True
    then obtain tok p where t: "or_token auth query = Some tok" "tok \<noteq> []" "ge_verify env tok now = Inr p" by blast
    let ?w2 = "upd_sock sid (fold join_room (user_rooms (w_db ?w) (jwt_sub p))) (add_active sid (jwt_sub p) (upd_sock sid (sign_in tok p) ?w))"
    have q: "quiet ?w ?w2" by (rule quiet_same) (simp_all add: add_active_def)
    have "quiet ?w2 (case on_db (update_user (jwt_sub p) (\<lambda>u. u\<lparr>u_isOnline := True\<rparr>)) ?w2 of
        (Inl e, w) \<Rightarrow> disconnect env now sid w | (Inr _, w) \<Rightarrow> emit ToAll (UserStatusChanged (jwt_sub p) True) w)"
      by (rule quiet_on_db) (auto simp: update_user_def quiet_disconnect quiet_emit split: option.split)
    from quiet_trans[OF q this] q show ?thesis
      using t by (simp add: handleConnection_def new_sock_def Let_def add_active_def)
  qed
  moreover have "quiet w ?w" by (rule quiet_same) simp_all
  ultimately show ?thesis unfolding connect_def by (rule quiet_trans[rotated])
qed

text \<open>The two steps that start timers.\<close>

lemma schedule_inv:
  assumes "timers_inv w" "mid < nxt (db_messages (w_db w))"
    and "\<And>g. g \<in> set (rows (db_messages (w_db w))) \<Longrightarrow> msg_id g = mid \<Longrightarrow>
      (case msg_scheduledAt g of None \<Rightarrow> True | Some t \<Rightarrow> delay = t - now)"
  shows "timers_inv (scheduleMessageDelivery now mid cid delay w)"
proof -
  have "timer_fits g (now + timeout_delay delay)" if "g \<in> set (rows (db_messages (w_db w)))" "msg_id g = mid" for g
    using assms(3)[OF that] by (auto simp: timer_fits_def timeout_delay_def split: option.splits)
  then show ?thesis using assms(1,2) by (auto simp: timers_inv_def scheduleMessageDelivery_def)
qed

lemma save_row:
  assumes "saveMessage J uid cid dto now d = (Inr msg, d')"
  shows "\<exists>g. rows (db_messages d') = rows (db_messages d) @ [g] \<and> nxt (db_messages d') = nxt (db_messages d) + 1
    \<and> msg_id g = nxt (db_messages d) \<and> mv_id (mo_msg msg) = msg_id g \<and> msg_scheduledAt g = sd_scheduledAt dto"
proof -
  obtain meta g d1 d2 d3 v where
    c: "create_message (new_message uid cid dto meta now) d = (Inr g, d1)"
    and e: "(if sd_envelopes dto = [] then (Inr (), d1) else create_envelopes (msg_id g) (sd_envelopes dto) d1) = (Inr (), d2)"
    and t: "touch_conv cid now d2 = (Inr v, d3)" and m: "msg = mapMessage d3 g" "d' = d3"
    using assms by (auto simp: saveMessage_def split: if_splits option.splits dest!: check_InrD sbind_InrD)
  have "db_messages d2 = db_messages d1"
    using e by (auto simp: create_envelopes_def split: if_splits)
  moreover have "db_messages d3 = db_messages d2"
    using t by (auto simp: touch_conv_def update_conv_def split: option.splits)
  moreover have "db_messages d1 = t_insert (new_message uid cid dto meta now) (db_messages d)"
      "g = new_message uid cid dto meta now (nxt (db_messages d))"
    using c by (auto simp: create_message_def Let_def split: if_splits)
  ultimately show ?thesis using m by (auto simp: mapMessage_def select_message_def new_message_def)
qed

lemma save_and_send_timers:
  assumes inv: "timers_inv w"
  shows "timers_inv (save_and_send env now sid u cid dto w)"
proof -
  obtain r d where s: "saveMessage (ge_json env) (su_id u) cid dto now (w_db w) = (r, d)" by fastforce
  have step: "msgs_step (w_db w) d" using msgs_services(1)[of "w_db w" "ge_json env" "su_id u" cid dto now] s by simp
  have inv1: "timers_inv (w\<lparr>w_db := d\<rparr>)" by (rule timers_step[OF inv]) (simp_all add: step)
  have quiet: "timers_inv (emit to e v)" if "timers_inv v" for to e and v :: "'a world"
    by (rule quiet_timers[OF quiet_emit[OF quiet_refl] that])
  show ?thesis
  proof (cases r)
    case (Inl e)
    then show ?thesis using s quiet[OF inv1] by (simp add: save_and_send_def on_db_def fail_message_def)
  next
    case (Inr msg)
    obtain g where g: "rows (db_messages d) = rows (db_messages (w_db w)) @ [g]" "nxt (db_messages d) = nxt (db_messages (w_db w)) + 1"
      "msg_id g = nxt (db_messages (w_db w))" "mv_id (mo_msg msg) = msg_id g" "msg_scheduledAt g = sd_scheduledAt dto"
      using save_row[OF s[unfolded Inr]] by blast
    show ?thesis
    proof (cases "sd_scheduledAt dto")
      case None
      have "quiet (w\<lparr>w_db := d\<rparr>) (deliver_now env u cid dto msg (w\<lparr>w_db := d\<rparr>))"
        unfolding deliver_now_def Let_def by (intro quiet_intros quiet_refl)
      from quiet_timers[OF this inv1] show ?thesis using s Inr None by (simp add: save_and_send_def on_db_def)
    next
      case (Some t)
      let ?w = "emit (ToSocket sid) (Chat (MessageScheduled msg)) (w\<lparr>w_db := d\<rparr>)"
      have "timers_inv (scheduleMessageDelivery now (mv_id (mo_msg msg)) cid (t - now) ?w)"
      proof (rule schedule_inv)
        show "timers_inv ?w" by (rule quiet[OF inv1])
        show "mv_id (mo_msg msg) < nxt (db_messages (w_db ?w))" using g by simp
        fix h assume "h \<in> set (rows (db_messages (w_db ?w)))" "msg_id h = mv_id (mo_msg msg)"
        then have "h = g" using g inv unfolding timers_inv_def tbl_wf_def by auto
        then show "case msg_scheduledAt h of None \<Rightarrow> True | Some t' \<Rightarrow> t - now = t' - now" using g(5) Some by simp
      qed
      then show ?thesis using s Inr Some by (simp add: save_and_send_def on_db_def)
    qed
  qed
qed

lemma handleMessage_timers: "timers_inv w \<Longrightarrow> timers_inv (handleMessage env now sid m u w)"
proof -
  assume inv: "timers_inv w"
  let ?w = "snd (rateLimit sid MsgLim ''sendMessage'' now w)"
  have q: "quiet w ?w" by (rule quiet_same) simp_all
  have i: "timers_inv ?w" by (rule quiet_timers[OF q inv])
  have e: "timers_inv (fail_message sid e ?w)" for e by (rule quiet_timers[OF quiet_fail[OF quiet_refl] i])
  show ?thesis using i e save_and_send_timers[OF i]
    by (cases "rateLimit sid MsgLim ''sendMessage'' now w") (simp add: handleMessage_def limited_def split: option.split sum.split)
qed

lemma init_timers:
  assumes "\<forall>g\<in>set gs. \<exists>t. msg_scheduledAt g = Some t \<and> now < t"
  shows "fold (\<lambda>g w. let delay = (case msg_scheduledAt g of None \<Rightarrow> 0 | Some t \<Rightarrow> t) - now
       in if 0 < delay then scheduleMessageDelivery now (msg_id g) (msg_conversationId g) delay w
          else deliverScheduledMessage env now (msg_id g) (msg_conversationId g) w) gs w
     = w\<lparr>w_timers := w_timers w @ map (\<lambda>g. (now + timeout_delay (the (msg_scheduledAt g) - now), msg_id g, msg_conversationId g)) gs\<rparr>"
  using assms
proof (induction gs arbitrary: w)
  case (Cons g gs)
  obtain t where t: "msg_scheduledAt g = Some t" "now < t" using Cons.prems(1) by auto
  let ?w = "scheduleMessageDelivery now (msg_id g) (msg_conversationId g) (t - now) w"
  show ?case using Cons.IH[of ?w] Cons.prems t by (simp add: Let_def scheduleMessageDelivery_def)
qed simp

lemma quiet_guard: "quiet w (snd (ws_guard env now sid w))"
  by (cases "ws_guard env now sid w"; cases "fst (ws_guard env now sid w)")
    (auto dest!: ws_guard_NoneD ws_guard_SomeD intro: quiet_same quiet_emit)

lemma guarded_timers:
  assumes "timers_inv w" "\<And>u v. timers_inv v \<Longrightarrow> timers_inv (h u v)"
  shows "timers_inv (guarded env now sid h w)"
  using quiet_timers[OF quiet_guard[of w env now sid] assms(1)] assms(2)
  by (cases "ws_guard env now sid w") (auto simp: guarded_def split: option.split)

lemma chat_timers: "timers_inv w \<Longrightarrow> timers_inv (handle_chat env now sid m u w)"
  by (cases m) (simp_all add: handleMessage_timers quiet_timers[OF quiet_handlers(1)] quiet_timers[OF quiet_handlers(2)]
      quiet_timers[OF quiet_handlers(3)] quiet_timers[OF quiet_handlers(4)] quiet_timers[OF quiet_handlers(5)]
      quiet_timers[OF quiet_handlers(6)] quiet_timers[OF quiet_handlers(7)] quiet_timers[OF quiet_handlers(8)]
      quiet_timers[OF quiet_handlers(9)] quiet_timers[OF quiet_handlers(10)] quiet_timers[OF quiet_handlers(11)]
      quiet_timers[OF quiet_handlers(12)] quiet_timers[OF quiet_handlers(13)])

lemma quiet_timer_fires: "quiet w (fire_timer env now t w)"
proof -
  have "quiet w (w\<lparr>w_timers := remove1 t (w_timers w)\<rparr>)"
    using set_remove1_subset[of t "w_timers w"] by (simp add: quiet_def)
  from quiet_trans[OF this quiet_deliver] show ?thesis by (simp add: fire_timer_def)
qed

lemma init_timers_inv:
  assumes "timers_inv w"
  shows "timers_inv (onModuleInit env now w)"
proof -
  have pending: "g \<in> set (rows (db_messages (w_db w))) \<and> (\<exists>t. msg_scheduledAt g = Some t \<and> now < t)"
    if "g \<in> set (getPendingScheduledMessages now (w_db w))" for g
    using that by (auto simp: getPendingScheduledMessages_def split: option.splits)
  let ?w = "onModuleInit env now w"
  have eq: "?w = w\<lparr>w_timers := w_timers w @ map (\<lambda>g. (now + timeout_delay (the (msg_scheduledAt g) - now), msg_id g,
      msg_conversationId g)) (getPendingScheduledMessages now (w_db w))\<rparr>"
    unfolding onModuleInit_def by (rule init_timers) (use pending in blast)
  have "mid < nxt (db_messages (w_db w)) \<and> (\<forall>h\<in>set (rows (db_messages (w_db w))). msg_id h = mid \<longrightarrow> timer_fits h due)"
    if in_timers: "(due, mid, cid) \<in> set (w_timers ?w)" for due mid cid
  proof (cases "(due, mid, cid) \<in> set (w_timers w)")
    case True
    then show ?thesis using assms by (auto simp: timers_inv_def)
  next
    case False
    then obtain g where g: "g \<in> set (getPendingScheduledMessages now (w_db w))" "mid = msg_id g"
        "due = now + timeout_delay (the (msg_scheduledAt g) - now)"
      using in_timers eq by auto
    then obtain t where t: "g \<in> set (rows (db_messages (w_db w)))" "msg_scheduledAt g = Some t" using pending by blast
    have wf: "tbl_wf msg_id (db_messages (w_db w))" using assms by (simp add: timers_inv_def)
    then have "msg_id g < nxt (db_messages (w_db w))" using t(1) by (simp add: tbl_wf_def)
    moreover have "h = g" if "h \<in> set (rows (db_messages (w_db w)))" "msg_id h = mid" for h
      using tbl_wf_key_eq[OF wf that(1) t(1)] that(2) g(2) by simp
    moreover have "timer_fits g due" using t(2) g(3) by (auto simp: timer_fits_def timeout_delay_def)
    ultimately show ?thesis using g(2) by auto
  qed
  then show ?thesis using assms eq by (auto simp: timers_inv_def)
qed

lemma gw_step_timers: "timers_inv w \<Longrightarrow> timers_inv (gw_step env w e)"
proof -
  assume inv: "timers_inv w"
  obtain now op where e: "e = (now, op)" by (cases e)
  have "quiet w (interval_cleanup now w)" "quiet w (notifyUserJoinRoom u c w)" for u c
    by (rule quiet_same; simp add: interval_cleanup_def notifyUserJoinRoom_def)+
  note q = quiet_timers[OF this(1) inv] quiet_timers[OF this(2) inv] quiet_timers[OF quiet_connect inv]
    quiet_timers[OF quiet_disconnect inv] quiet_timers[OF quiet_timer_fires inv] quiet_timers[OF quiet_update_token inv]
  show ?thesis
  proof (cases op)
    case (Receive sid m)
    then show ?thesis using e inv q(6)
      by (cases m) (simp_all add: guarded_timers chat_timers quiet_timers[OF quiet_call] quiet_timers[OF quiet_sync])
  qed (use e inv q in \<open>simp_all add: init_timers_inv\<close>)
qed

interpretation timers: run_invariant "gw_step env" "\<lambda>w e. True" timers_inv
  by unfold_locales (rule gw_step_timers)

text \<open>After a restart the gateway schedules exactly the messages that are still in the future and not deleted, each
  with its remaining delay, and delivers nothing at once: a message that became due while the server was down is
  neither scheduled nor delivered.\<close>

theorem restart_reload:
  "onModuleInit env now w = w\<lparr>w_timers := w_timers w @
      map (\<lambda>g. (now + timeout_delay (the (msg_scheduledAt g) - now), msg_id g, msg_conversationId g))
        (filter (\<lambda>g. msg_deletedAt g = None \<and> (\<exists>t. msg_scheduledAt g = Some t \<and> now < t)) (rows (db_messages (w_db w))))\<rparr>"
proof -
  have "getPendingScheduledMessages now (w_db w) =
      filter (\<lambda>g. msg_deletedAt g = None \<and> (\<exists>t. msg_scheduledAt g = Some t \<and> now < t)) (rows (db_messages (w_db w)))"
    unfolding getPendingScheduledMessages_def t_all_def by (rule filter_cong) (auto split: option.split)
  then show ?thesis unfolding onModuleInit_def by (simp only:) (rule init_timers, simp)
qed

text \<open>Scheduled messages are not delivered early: in every state the gateway reaches, each pending timer fires no
  earlier than its message is scheduled for, unless the message was scheduled more than \<open>2 ^ 31 - 1\<close> milliseconds
  (about 24.8 days) ahead: such a message, which the 30-day limit allows, is delivered one millisecond later.\<close>

theorem scheduled_not_early:
  assumes "tbl_wf msg_id (db_messages d)"
    and "w = run (gw_step env) (start_world sv d) es" "(due, mid, cid) \<in> set (w_timers w)"
    and "g \<in> set (rows (db_messages (w_db w)))" "msg_id g = mid" "msg_scheduledAt g = Some t"
  shows "t \<le> due \<or> due + (2 ^ 31 - 2) < t"
proof -
  have "timers_inv w" unfolding assms(2)
  proof (rule timers.run_inv)
    show "timers_inv (start_world sv d)" using assms(1) by (simp add: timers_inv_def start_world_def)
  qed simp
  then have "timer_fits g due" using assms(3-5) by (auto simp: timers_inv_def)
  then show ?thesis using assms(6) by (simp add: timer_fits_def)
qed

lemma demo_overflow: "timeout_delay (25 * 24 * 60 * 60 * 1000) = 1" "25 * 24 * 60 * 60 * 1000 < MAX_SCHEDULE_MS"
  by (simp_all add: timeout_delay_def MAX_SCHEDULE_MS_def)

text \<open>User 1 schedules a message 25 days ahead: its timer is due after a millisecond.\<close>

definition demo_send :: ws_message where
  "demo_send = \<lparr>wm_conversationId = Some 1, wm_dto = \<lparr>sd_content = Some [104], sd_fileUrl = None, sd_fileName = None,
     sd_fileType = None, sd_fileSize = None, sd_replyToId = None, sd_metadata = None, sd_scheduledAt = None,
     sd_senderDeviceId = None, sd_envelopes = []\<rparr>, wm_scheduledAt = Some [2160000000]\<rparr>"

lemmas send_defs = guarded_def ws_guard_def handleMessage_def limited_def rateLimit_def isAllowed_def lim_hits_def
  new_limiter_def empty_message_def message_checks_def longer_than_def raw_scheduled_def save_and_send_def saveMessage_def
  demo_send_def scheduleMessageDelivery_def assertMember_def validateAndNormalizeMetadata_def create_message_def
  new_message_def touch_conv_def update_conv_def mapMessage_def select_message_def ref_ok_def

abbreviation demo_far :: "(jsstr \<Rightarrow> jsstr option) world" where
  "demo_far \<equiv> gw_run gw_demo demo_start (demo_connects @ [(0, Receive [11] (ChatIn (SendMessage demo_send)))])"

lemma demo_far_eval:
  "w_timers demo_far = [(1, 3, 1)]
   \<and> list_ex (\<lambda>g. msg_id g = 3 \<and> msg_scheduledAt g = Some 2160000000) (rows (db_messages (w_db demo_far)))"
  by (simp add: run_defs send_defs chat_defs timeout_delay_def MAX_SCHEDULE_MS_def MAX_CONTENT_def trim_def js_space_def)

theorem scheduled_not_early_witness:
  "\<exists>due mid cid. (due, mid, cid) \<in> set (w_timers demo_far) \<and> due + (2 ^ 31 - 2) < (2160000000 :: int)"
proof -
  obtain g where g: "g \<in> set (rows (db_messages (w_db demo_far)))" "msg_id g = 3" "msg_scheduledAt g = Some 2160000000"
    using demo_far_eval by (auto simp: list_ex_iff)
  have "tbl_wf msg_id (db_messages chat_db)" by (simp add: tbl_wf_def chat_defs)
  from scheduled_not_early[OF this refl _ g] demo_far_eval show ?thesis by auto
qed

end
