(* ===== verification/Delivery.thy ===== *)
theory Delivery
  imports GatewaySchedule
begin

text \<open>
  What reaches the members of a conversation when a message is sent: the event in the conversation's room and
  the push notifications; and the checks that a scheduled message passes when its timer fires.
\<close>

lemma find_map_update:
  "List.find P xs = Some g \<Longrightarrow> (\<And>x. P (f x) = P x) \<Longrightarrow> List.find P (map (\<lambda>r. if P r then f r else r) xs) = Some (f g)"
  by (induction xs) (auto split: if_splits)

lemma push_all_effect:
  assumes "push_inv (w_db w)"
  shows "set (w_pushed (push_all env p b us w)) =
      set (w_pushed w) \<union> {(s, p) | s. s \<in> set (rows (db_pushSubs (w_db w))) \<and> ps_userId s \<in> set us}"
  using assms
proof (induction us arbitrary: w)
  case (Cons a us)
  let ?w = "sendToUser env a p b w"
  note e = sendToUser_effect[OF Cons.prems, of env a p b]
  have "push_all env p b (a # us) w = push_all env p b us ?w" by (simp add: push_all_def)
  then show ?case using Cons.IH[OF e(3)] by (auto simp: e(1,2) user_subs_def)
qed (simp add: push_all_def)

lemma push_all_out:
  "\<exists>out. w_out (push_all env p b us w) = w_out w @ out \<and> (\<forall>x\<in>set out. \<exists>u. x = (ToRoom (UserQRoom u), PushResubscribe))"
proof (induction us arbitrary: w)
  case (Cons a us)
  let ?w = "sendToUser env a p b w"
  obtain o1 where 1: "w_out ?w = w_out w @ o1" "set o1 \<subseteq> {(ToRoom (UserQRoom u), PushResubscribe) | u. True}"
    using same_core_simps(11)[OF sendToUser_core] by blast
  obtain o2 where 2: "w_out (push_all env p b us ?w) = w_out ?w @ o2" "\<forall>x\<in>set o2. \<exists>u. x = (ToRoom (UserQRoom u), PushResubscribe)"
    using Cons.IH by blast
  have "push_all env p b (a # us) w = push_all env p b us ?w" by (simp add: push_all_def)
  moreover have "\<forall>x\<in>set (o1 @ o2). \<exists>u. x = (ToRoom (UserQRoom u), PushResubscribe)" using 1(2) 2(2) by auto
  ultimately show ?case using 1(1) 2(1) by (intro exI[of _ "o1 @ o2"]) simp
qed (simp add: push_all_def)

text \<open>C32. Sending a message at once reaches the conversation and nobody else: one event in the conversation's room, and a
  notification to every subscription of every member other than the sender, none to a non-member and none to the
  sender; the other emissions are the resubscribe hints of dead subscriptions.\<close>

theorem message_reaches_members:
  assumes "push_inv (w_db w)"
  shows "(\<exists>out. w_out (deliver_now env u cid dto msg w) = w_out w @ (ToRoom (ConvRoom cid), Chat (OnMessage msg)) # out
        \<and> (\<forall>x\<in>set out. \<exists>v. x = (ToRoom (UserQRoom v), PushResubscribe)))
    \<and> set (w_pushed (deliver_now env u cid dto msg w)) = set (w_pushed w) \<union>
        (\<lambda>s. (s, \<lparr>pp_title = su_nickname u, pp_body = push_body dto, pp_senderId = su_id u, pp_url = Some (js ''/chat'')\<rparr>)) `
        {s \<in> set (rows (db_pushSubs (w_db w))). ps_userId s \<noteq> su_id u \<and> is_member (w_db w) cid (ps_userId s)}"
proof -
  let ?p = "\<lparr>pp_title = su_nickname u, pp_body = push_body dto, pp_senderId = su_id u, pp_url = Some (js ''/chat'')\<rparr>"
  let ?w = "emit (ToRoom (ConvRoom cid)) (Chat (OnMessage msg)) w"
  let ?us = "other_members (w_db w) cid (su_id u)"
  have eq: "deliver_now env u cid dto msg w = push_all env ?p True ?us ?w" by (simp add: deliver_now_def Let_def)
  have us: "v \<in> set ?us \<longleftrightarrow> v \<noteq> su_id u \<and> is_member (w_db w) cid v" for v
    by (auto simp: other_members_def is_member_def find_member_def t_find_None_iff)
  have "push_inv (w_db ?w)" using assms by simp
  note p = push_all_effect[OF this, of env ?p True ?us]
  obtain out where "w_out (push_all env ?p True ?us ?w) = w_out ?w @ out"
      "\<forall>x\<in>set out. \<exists>v. x = (ToRoom (UserQRoom v), PushResubscribe)" using push_all_out by blast
  then show ?thesis unfolding eq using p us by (intro conjI exI[of _ out]) auto
qed

theorem message_reaches_members_witness:
  "\<forall>msg. \<exists>x\<in>set (w_pushed (deliver_now gw_demo \<lparr>su_id = 2, su_nickname = [66], su_email = None, su_role = None\<rparr> 1 (wm_dto demo_send)
      msg (start_world mem_svc push_db))). ps_id (fst x) = 2"
proof
  fix msg :: msg_out
  define u where "u = \<lparr>su_id = 2, su_nickname = [66], su_email = None, su_role = None :: user_role option\<rparr>"
  then have "su_id u = 2" by simp
  have inv: "push_inv (w_db (start_world mem_svc push_db :: (jsstr \<Rightarrow> jsstr option) world))"
    by (auto simp: push_inv_def push_db_def start_world_def tbl_wf_def)
  let ?s = "\<lparr>ps_id = 2, ps_userId = 1, ps_endpoint = [2], ps_p256dh = [9], ps_auth = []\<rparr>"
  have "?s \<in> {s \<in> set (rows (db_pushSubs push_db)). ps_userId s \<noteq> su_id u \<and> is_member push_db 1 (ps_userId s)}"
    using \<open>su_id u = 2\<close> by (simp add: push_db_def chat_defs is_member_def)
  moreover have w: "w_db (start_world mem_svc push_db :: (jsstr \<Rightarrow> jsstr option) world) = push_db" by (simp add: start_world_def)
  moreover note message_reaches_members[OF inv, of gw_demo u 1 "wm_dto demo_send" msg, THEN conjunct2, unfolded w]
  ultimately obtain p where "(?s, p) \<in> set (w_pushed (deliver_now gw_demo u 1 (wm_dto demo_send) msg (start_world mem_svc push_db)))"
    by blast
  then have "\<exists>x\<in>set (w_pushed (deliver_now gw_demo u 1 (wm_dto demo_send) msg (start_world mem_svc push_db))). ps_id (fst x) = 2"
    by (rule bexI[rotated]) simp
  then show "\<exists>x\<in>set (w_pushed (deliver_now gw_demo \<lparr>su_id = 2, su_nickname = [66], su_email = None, su_role = None\<rparr> 1 (wm_dto demo_send)
      msg (start_world mem_svc push_db))). ps_id (fst x) = 2" by (simp only: u_def)
qed

text \<open>When its timer fires, a scheduled message is delivered once or not at all: a message deleted meanwhile is not
  sent; if its author has left the conversation it is not sent and becomes deleted; otherwise the conversation's room
  gets it. The timer is used up.\<close>

theorem scheduled_delivery:
  assumes "(due, mid, cid) \<in> set (w_timers w)" "due \<le> now" "find_message (w_db w) mid = Some g"
    and "w' = fire_timer env now (due, mid, cid) w"
  shows "w_timers w' = remove1 (due, mid, cid) (w_timers w)
    \<and> (msg_deletedAt g \<noteq> None \<or> find_member (w_db w) cid (msg_senderId g) = None \<longrightarrow> w_out w' = w_out w \<and> w_pushed w' = w_pushed w)
    \<and> (msg_deletedAt g = None \<and> find_member (w_db w) cid (msg_senderId g) = None \<longrightarrow>
         (\<exists>g'. find_message (w_db w') mid = Some g' \<and> msg_deletedAt g' = Some now))
    \<and> (msg_deletedAt g = None \<and> find_member (w_db w) cid (msg_senderId g) \<noteq> None \<longrightarrow>
         (\<exists>out. w_out w' = w_out w @ (ToRoom (ConvRoom cid), Chat (OnMessage (mapMessage (w_db w) g))) # out
            \<and> (\<forall>x\<in>set out. \<exists>v. x = (ToRoom (UserQRoom v), PushResubscribe))))"
proof -
  let ?w = "w\<lparr>w_timers := remove1 (due, mid, cid) (w_timers w)\<rparr>"
  have eq: "w' = deliverScheduledMessage env now mid cid ?w" using assms(1,2,4) by (simp add: fire_timer_def)
  have m: "getMessageById mid (w_db ?w) = Some (mapMessage (w_db w) g)" using assms(3) by (simp add: getMessageById_def)
  have v: "mv_deletedAt (mo_msg (mapMessage (w_db w) g)) = msg_deletedAt g"
    "mv_senderId (mo_msg (mapMessage (w_db w) g)) = msg_senderId g"
    by (simp_all add: mapMessage_def select_message_def)
  consider "msg_deletedAt g \<noteq> None" | "msg_deletedAt g = None" "find_member (w_db w) cid (msg_senderId g) = None"
    | "msg_deletedAt g = None" "find_member (w_db w) cid (msg_senderId g) \<noteq> None" by blast
  then show ?thesis
  proof cases
    case 1
    then have "w' = ?w" using m v by (simp add: eq deliverScheduledMessage_def)
    then show ?thesis using 1 by auto
  next
    case 2
    then have w': "w' = snd (on_db (update_msg mid (\<lambda>g. g\<lparr>msg_deletedAt := Some now\<rparr>)) ?w)"
      using m v by (simp add: eq deliverScheduledMessage_def Let_def)
    have "t_find (\<lambda>g. msg_id g = mid) (t_update (\<lambda>g. msg_id g = mid) (\<lambda>g. g\<lparr>msg_deletedAt := Some now\<rparr>) (db_messages (w_db w)))
        = Some (g\<lparr>msg_deletedAt := Some now\<rparr>)"
      using assms(3) unfolding find_message_def t_find_def rows_t_update by (rule find_map_update) simp
    then show ?thesis using 2 assms(3) by (simp add: w' update_msg_def find_message_def)
  next
    case 3
    let ?p = "\<lparr>pp_title = new_message_title, pp_body = encrypted_body, pp_senderId = msg_senderId g, pp_url = Some (js ''/chat'')\<rparr>"
    let ?e = "emit (ToRoom (ConvRoom cid)) (Chat (OnMessage (mapMessage (w_db w) g))) ?w"
    have w': "w' = push_all env ?p False (other_members (w_db w) cid (msg_senderId g)) ?e"
      using 3 m v by (auto simp: eq deliverScheduledMessage_def Let_def)
    obtain out where "w_out w' = w_out ?e @ out" "\<forall>x\<in>set out. \<exists>v. x = (ToRoom (UserQRoom v), PushResubscribe)"
      unfolding w' using push_all_out by blast
    moreover have "w_timers w' = w_timers ?e"
      unfolding w' push_all_def
    proof -
      have "w_timers (fold (\<lambda>uid. sendToUser env uid ?p False) us v) = w_timers v" for us and v :: "'a world"
        by (induction us arbitrary: v) (simp_all add: same_core_simps(6)[OF sendToUser_core])
      then show "w_timers (fold (\<lambda>uid. sendToUser env uid ?p False) (other_members (w_db w) cid (msg_senderId g)) ?e) = w_timers ?e" .
    qed
    ultimately show ?thesis using 3 by auto
  qed
qed

theorem scheduled_delivery_witness:
  "\<exists>g. find_message (w_db (fire_timer gw_demo 50 (40, 1, 2) (demo_start\<lparr>w_timers := [(40, 1, 2)]\<rparr>))) 1 = Some g \<and> msg_deletedAt g = Some 50"
proof -
  let ?w = "demo_start\<lparr>w_timers := [(40, 1, 2)]\<rparr>"
  have "(40, 1, 2) \<in> set (w_timers ?w)" "find_message (w_db ?w) 1 = Some (chat_message 1 1 2 [104, 105] 10)"
    by (simp_all add: start_world_def chat_defs)
  from scheduled_delivery[OF this(1) _ this(2) refl, of 50 gw_demo] show ?thesis
    by (simp add: start_world_def chat_defs)
qed

end
