(* ===== verification/Ssrf.thy ===== *)
theory Ssrf
  imports Prelude "HOL-Library.Word"
begin

text \<open>
  The fetcher behind link previews, \<open>server/src/og/guards/ssrf.guard.ts\<close>: it refuses to request private
  addresses.  JavaScript's 32-bit operators are words of 32 bits; a comparison of two results of \<open>&\<close> is
  a comparison of words.

  Node's \<open>net.isIPv4\<close>, \<open>net.isIPv6\<close>, \<open>dns.lookup\<close>, the \<open>URL\<close> parser and \<open>fetch\<close> are the fields of
  \<open>net_env\<close>.  An aborted or failed request is \<open>None\<close>.  Addresses are ASCII, so \<open>toLowerCase\<close> is
  \<open>ascii_lower\<close>.
\<close>

unbundle bit_operations_syntax

section \<open>Hexadecimal numbers and dotted addresses\<close>

definition hex_digit :: "nat \<Rightarrow> bool" where
  "hex_digit c \<longleftrightarrow> digit c \<or> 97 \<le> c \<and> c \<le> 102"

definition hex_value :: "jsstr \<Rightarrow> nat" where
  "hex_value s = foldl (\<lambda>a c. 16 * a + (if digit c then c - 48 else c - 87)) 0 (takeWhile hex_digit s)"

definition join_dots :: "nat list \<Rightarrow> jsstr" where
  "join_dots ns = concat (map (\<lambda>(i, n). if i = 0 then nat_str n else 46 # nat_str n) (enumerate 0 ns))"

section \<open>Private addresses\<close>

definition ipv4ToInt :: "jsstr \<Rightarrow> 32 word" where
  "ipv4ToInt ip = foldl (\<lambda>acc octet. push_bit 8 acc OR of_nat (dec_value octet)) 0 (split_on 46 ip)"

definition cidrToRange :: "jsstr \<Rightarrow> 32 word \<times> 32 word" where
  "cidrToRange cidr =
     (let parts = split_on 47 cidr;
          bits = dec_value (parts ! 1);
          base = ipv4ToInt (parts ! 0);
          mask = (if bits = 0 then 0 else push_bit (32 - bits) (-1))
      in (base AND mask, mask))"

definition BLOCKED_IPV4_CIDRS :: "(32 word \<times> 32 word) list" where
  "BLOCKED_IPV4_CIDRS = map (\<lambda>s. cidrToRange (js s))
     [''0.0.0.0/8'', ''10.0.0.0/8'', ''100.64.0.0/10'', ''127.0.0.0/8'', ''169.254.0.0/16'', ''172.16.0.0/12'',
      ''192.0.0.0/24'', ''192.0.2.0/24'', ''192.168.0.0/16'', ''198.18.0.0/15'', ''198.51.100.0/24'',
      ''203.0.113.0/24'', ''240.0.0.0/4'']"

definition isPrivateIPv4 :: "jsstr \<Rightarrow> bool" where
  "isPrivateIPv4 ip = list_ex (\<lambda>(base, mask). (ipv4ToInt ip AND mask) = base) BLOCKED_IPV4_CIDRS"

record net_env =
  ne_isIPv4 :: "jsstr \<Rightarrow> bool"
  ne_isIPv6 :: "jsstr \<Rightarrow> bool"
  ne_lookup :: "jsstr \<Rightarrow> (jsstr \<times> nat) option"

text \<open>The pattern \<open>/^([0-9a-f]{1,4}):([0-9a-f]{1,4})$/\<close>.\<close>

definition hex_pair :: "jsstr \<Rightarrow> (jsstr \<times> jsstr) option" where
  "hex_pair s = (case split_on 58 s of
       [a, b] \<Rightarrow> if list_all hex_digit a \<and> list_all hex_digit b \<and> length a \<in> {1..4} \<and> length b \<in> {1..4}
                 then Some (a, b) else None
     | _ \<Rightarrow> None)"

definition pad4 :: "jsstr \<Rightarrow> jsstr" where
  "pad4 s = replicate (4 - length s) 48 @ s"

definition two_bytes :: "nat \<Rightarrow> nat list" where
  "two_bytes n = [n div 256 mod 256, n mod 256]"

definition isPrivateIPv6 :: "(jsstr \<Rightarrow> bool) \<Rightarrow> jsstr \<Rightarrow> bool" where
  "isPrivateIPv6 isIPv4 ip =
     (let n = hd (split_on 37 (ascii_lower ip))
      in if n = js ''::1'' \<or> n = js ''::'' then True
         else if starts_with n (js ''fc'') \<or> starts_with n (js ''fd'') then True
         else if starts_with n (js ''fe8'') \<or> starts_with n (js ''fe9'') \<or> starts_with n (js ''fea'') \<or> starts_with n (js ''feb'')
              then True
         else if starts_with n (js ''::ffff:'')
              then (let v4part = drop 7 n
                    in if isIPv4 v4part then isPrivateIPv4 v4part
                       else case hex_pair v4part of
                              Some (a, b) \<Rightarrow> isPrivateIPv4 (join_dots (two_bytes (hex_value a) @ two_bytes (hex_value b)))
                            | None \<Rightarrow> True)
         else if starts_with n (js ''64:ff9b::'') then True
         else if starts_with n (js ''2002:'')
              then (let parts = split_on 58 n
                    in if 3 \<le> length parts
                       then (let hex = pad4 (parts ! 1) @ pad4 (parts ! 2)
                             in if length hex = 8
                                then isPrivateIPv4 (join_dots (map hex_value
                                       [take 2 hex, take 2 (drop 2 hex), take 2 (drop 4 hex), take 2 (drop 6 hex)]))
                                else False)
                       else False)
         else False)"

datatype ssrf_error = BlockedIPv4 | BlockedIPv6 | DnsFailed | InvalidUrl | BlockedProtocol | NoLocation
  | TooManyRedirects | InvalidRedirect | RedirectProtocol

definition validateHostname :: "net_env \<Rightarrow> jsstr \<Rightarrow> ssrf_error + unit" where
  "validateHostname env host =
     (if ne_isIPv4 env host then (if isPrivateIPv4 host then Inl BlockedIPv4 else Inr ())
      else if ne_isIPv6 env host then (if isPrivateIPv6 (ne_isIPv4 env) host then Inl BlockedIPv6 else Inr ())
      else case ne_lookup env host of
             None \<Rightarrow> Inl DnsFailed
           | Some (address, family) \<Rightarrow>
               if family = 4 \<and> isPrivateIPv4 address then Inl BlockedIPv4
               else if family = 6 \<and> isPrivateIPv6 (ne_isIPv4 env) address then Inl BlockedIPv6
               else Inr ())"

section \<open>Fetching\<close>

record url =
  url_protocol :: jsstr
  url_hostname :: jsstr
  url_href :: jsstr
  url_origin :: jsstr

record response =
  rs_status :: nat
  rs_location :: "jsstr option"
  rs_contentType :: "jsstr option"
  rs_body :: "nat list list option"

record fetch_env =
  fe_net :: net_env
  fe_url :: "jsstr \<Rightarrow> jsstr option \<Rightarrow> url option"
  fe_fetch :: "jsstr \<Rightarrow> response option"

datatype fetch_error = Ssrf ssrf_error | NetworkError

text \<open>The answer: no content, the response without a readable body, or its status with the capped body.\<close>

datatype fetch_result = NoContent | Unread nat | Fetched nat "nat list"

definition http_protocol :: "url \<Rightarrow> bool" where
  "http_protocol u \<longleftrightarrow> url_protocol u = js ''http:'' \<or> url_protocol u = js ''https:''"

text \<open>The reading loop: the chunks kept, and the number of bytes seen.\<close>

fun read_chunks :: "nat \<Rightarrow> nat list list \<Rightarrow> nat list list \<Rightarrow> nat \<Rightarrow> nat list list \<times> nat" where
  "read_chunks maxBytes [] chunks seen = (chunks, seen)"
| "read_chunks maxBytes (v # vs) chunks seen =
     (let seen = seen + length v
      in if maxBytes < seen then (chunks, seen) else read_chunks maxBytes vs (chunks @ [v]) seen)"

text \<open>A typed array of \<open>min(totalBytes, maxBytes)\<close> zeros into which the chunks are copied.\<close>

definition capped_body :: "nat \<Rightarrow> nat list list \<Rightarrow> nat list" where
  "capped_body maxBytes vs =
     (case read_chunks maxBytes vs [] 0 of (chunks, seen) \<Rightarrow>
        let data = concat chunks in data @ replicate (min seen maxBytes - length data) 0)"

definition read_response :: "nat \<Rightarrow> response \<Rightarrow> fetch_result" where
  "read_response maxBytes r =
     (if \<not> includes_str (case rs_contentType r of None \<Rightarrow> [] | Some c \<Rightarrow> c) (js ''text/html'') then NoContent
      else case rs_body r of None \<Rightarrow> Unread (rs_status r) | Some vs \<Rightarrow> Fetched (rs_status r) (capped_body maxBytes vs))"

text \<open>The loop over redirects; the second component is the log of the requests made.\<close>

fun fetch_loop :: "fetch_env \<Rightarrow> nat \<Rightarrow> nat \<Rightarrow> url \<Rightarrow> url list \<Rightarrow> (fetch_error + fetch_result) \<times> url list" where
  "fetch_loop env maxBytes left u log =
     (case validateHostname (fe_net env) (url_hostname u) of
        Inl e \<Rightarrow> (Inl (Ssrf e), log)
      | Inr _ \<Rightarrow>
          (case fe_fetch env (url_href u) of
             None \<Rightarrow> (Inl NetworkError, log @ [u])
           | Some r \<Rightarrow>
               if 300 \<le> rs_status r \<and> rs_status r < 400
               then (if \<not> truthy (rs_location r) then (Inl (Ssrf NoLocation), log @ [u])
                     else if left = 0 then (Inl (Ssrf TooManyRedirects), log @ [u])
                     else case fe_url env (the (rs_location r)) (Some (url_href u)) of
                            None \<Rightarrow> (Inl (Ssrf InvalidRedirect), log @ [u])
                          | Some u' \<Rightarrow>
                              if \<not> http_protocol u' then (Inl (Ssrf RedirectProtocol), log @ [u])
                              else fetch_loop env maxBytes (left - 1) u' (log @ [u]))
               else (Inr (read_response maxBytes r), log @ [u])))"

declare fetch_loop.simps [simp del]

definition safeFetch :: "fetch_env \<Rightarrow> nat \<Rightarrow> nat \<Rightarrow> jsstr \<Rightarrow> (fetch_error + fetch_result) \<times> url list" where
  "safeFetch env maxBytes maxRedirects rawUrl =
     (case fe_url env rawUrl None of
        None \<Rightarrow> (Inl (Ssrf InvalidUrl), [])
      | Some u \<Rightarrow>
          if \<not> http_protocol u then (Inl (Ssrf BlockedProtocol), [])
          else fetch_loop env maxBytes maxRedirects u [])"

section \<open>Lemmas\<close>

lemma nat_str_no_dot: "46 \<notin> set (nat_str n)"
  using nat_str_value_aux[of n] by (auto simp: list_all_iff digit_def)

lemma split_on_no: "c \<notin> set xs \<Longrightarrow> split_on c xs = [xs]"
  by (induction xs) auto

lemma split_on_append: "c \<notin> set xs \<Longrightarrow> split_on c (xs @ c # ys) = xs # split_on c ys"
  by (induction xs) (auto split: list.split)

definition dotted :: "jsstr \<Rightarrow> jsstr \<Rightarrow> jsstr \<Rightarrow> jsstr \<Rightarrow> jsstr" where
  "dotted a b c d = a @ 46 # b @ 46 # c @ 46 # d"

lemma split_dotted:
  "46 \<notin> set a \<Longrightarrow> 46 \<notin> set b \<Longrightarrow> 46 \<notin> set c \<Longrightarrow> 46 \<notin> set d \<Longrightarrow> split_on 46 (dotted a b c d) = [a, b, c, d]"
  by (simp add: dotted_def split_on_append split_on_no)

lemma join_dots_four: "join_dots [a, b, c, d] = dotted (nat_str a) (nat_str b) (nat_str c) (nat_str d)"
  by (simp add: join_dots_def dotted_def)

text \<open>The 32-bit number of four octets.\<close>

lemma shift_or:
  fixes x :: nat
  assumes "y < 256"
  shows "push_bit 8 (of_nat x :: 32 word) OR of_nat y = of_nat (256 * x + y)"
proof -
  have "bit y n \<Longrightarrow> \<not> 8 \<le> n" for n
    using assms(1) take_bit_nat_eq_self[of y 8] bit_take_bit_iff[of 8 y n] by auto
  then have "push_bit 8 (of_nat x :: 32 word) + of_nat y = push_bit 8 (of_nat x) OR of_nat y"
    by (intro disjunctive_add) (auto simp: bit_simps)
  then show ?thesis by (simp add: push_bit_eq_mult mult.commute)
qed

lemma ipv4ToInt_dotted:
  assumes "46 \<notin> set a" "46 \<notin> set b" "46 \<notin> set c" "46 \<notin> set d"
    and "dec_value a < 256" "dec_value b < 256" "dec_value c < 256" "dec_value d < 256"
  shows "ipv4ToInt (dotted a b c d)
    = of_nat (((dec_value a * 256 + dec_value b) * 256 + dec_value c) * 256 + dec_value d)"
proof -
  have "ipv4ToInt (dotted a b c d) =
      push_bit 8 (push_bit 8 (push_bit 8 (push_bit 8 (of_nat 0) OR of_nat (dec_value a)) OR of_nat (dec_value b))
        OR of_nat (dec_value c)) OR of_nat (dec_value d)"
    using assms(1-4) by (simp add: ipv4ToInt_def split_dotted)
  also have "\<dots> = of_nat (((dec_value a * 256 + dec_value b) * 256 + dec_value c) * 256 + dec_value d)"
    using assms(5-8) by (simp only: shift_or) (simp add: ac_simps)
  finally show ?thesis .
qed

text \<open>Comparing under a prefix mask is comparing quotients.\<close>

lemma unat_of_nat_32: "i < 2 ^ 32 \<Longrightarrow> unat (of_nat i :: 32 word) = i"
  by (simp add: unat_of_nat take_bit_nat_eq_self)

lemma prefix_mask:
  assumes "m < 2 ^ 32" "n < 2 ^ 32"
  shows "(of_nat n AND push_bit k (-1) = (of_nat m AND push_bit k (-1) :: 32 word)) \<longleftrightarrow> n div 2 ^ k = m div 2 ^ k"
proof -
  have "(of_nat n AND push_bit k (-1) = (of_nat m AND push_bit k (-1) :: 32 word)) \<longleftrightarrow>
      drop_bit k (of_nat n :: 32 word) = drop_bit k (of_nat m)"
  proof
    assume eq: "of_nat n AND push_bit k (-1) = (of_nat m AND push_bit k (-1) :: 32 word)"
    show "drop_bit k (of_nat n :: 32 word) = drop_bit k (of_nat m)"
    proof (rule bit_word_eqI)
      fix i assume "i < LENGTH(32)"
      show "bit (drop_bit k (of_nat n :: 32 word)) i \<longleftrightarrow> bit (drop_bit k (of_nat m :: 32 word)) i"
        using arg_cong[OF eq, of "\<lambda>w. bit w (k + i)"] by (auto simp: bit_simps)
    qed
  next
    assume eq: "drop_bit k (of_nat n :: 32 word) = drop_bit k (of_nat m)"
    show "of_nat n AND push_bit k (-1) = (of_nat m AND push_bit k (-1) :: 32 word)"
    proof (rule bit_word_eqI)
      fix i assume "i < LENGTH(32)"
      show "bit (of_nat n AND push_bit k (-1) :: 32 word) i \<longleftrightarrow> bit (of_nat m AND push_bit k (-1) :: 32 word) i"
        using arg_cong[OF eq, of "\<lambda>w. bit w (i - k)"] by (cases "k \<le> i") (auto simp: bit_simps)
    qed
  qed
  also have "\<dots> \<longleftrightarrow> unat (drop_bit k (of_nat n :: 32 word)) = unat (drop_bit k (of_nat m :: 32 word))"
    by (simp add: word_unat_eq_iff)
  also have "\<dots> \<longleftrightarrow> n div 2 ^ k = m div 2 ^ k"
    using assms by (simp only: unat_drop_bit_eq unat_of_nat_32) (simp add: drop_bit_eq_div)
  finally show ?thesis .
qed

text \<open>The blocked ranges as numbers: base address and prefix length.\<close>

definition blocked_ranges :: "(nat \<times> nat) list" where
  "blocked_ranges = [(0, 24), (10 * 2 ^ 24, 24), (100 * 2 ^ 24 + 64 * 2 ^ 16, 22), (127 * 2 ^ 24, 24),
     (169 * 2 ^ 24 + 254 * 2 ^ 16, 16), (172 * 2 ^ 24 + 16 * 2 ^ 16, 20), (192 * 2 ^ 24, 8), (192 * 2 ^ 24 + 2 * 2 ^ 8, 8),
     (192 * 2 ^ 24 + 168 * 2 ^ 16, 16), (198 * 2 ^ 24 + 18 * 2 ^ 16, 17), (198 * 2 ^ 24 + 51 * 2 ^ 16 + 100 * 2 ^ 8, 8),
     (203 * 2 ^ 24 + 113 * 2 ^ 8, 8), (240 * 2 ^ 24, 28)]"

lemma blocked_eq: "BLOCKED_IPV4_CIDRS = map (\<lambda>(b, k). (of_nat b AND push_bit k (-1), push_bit k (-1))) blocked_ranges"
  by (simp add: BLOCKED_IPV4_CIDRS_def blocked_ranges_def cidrToRange_def js_def ipv4ToInt_def dec_value_def digit_def
      push_bit_eq_mult Let_def)

definition octets :: "nat \<Rightarrow> nat \<Rightarrow> nat \<Rightarrow> nat \<Rightarrow> nat" where
  "octets a b c d = ((a * 256 + b) * 256 + c) * 256 + d"

lemma octets_div:
  assumes "b < 256" "c < 256" "d < 256"
  shows "octets a b c d div 2 ^ 24 = a" "octets a b c d div 2 ^ 28 = a div 16"
    "octets a b c d div 2 ^ 16 = a * 256 + b" "octets a b c d div 2 ^ 17 = a * 128 + b div 2"
    "octets a b c d div 2 ^ 20 = a * 16 + b div 16" "octets a b c d div 2 ^ 22 = a * 4 + b div 64"
    "octets a b c d div 2 ^ 8 = (a * 256 + b) * 256 + c"
  using assms by (simp_all add: octets_def)

lemma octets_bound: "a < 256 \<Longrightarrow> b < 256 \<Longrightarrow> c < 256 \<Longrightarrow> d < 256 \<Longrightarrow> octets a b c d < 2 ^ 32"
  by (simp add: octets_def)

lemma isPrivateIPv4_ranges:
  assumes "ipv4ToInt ip = of_nat n" "n < 2 ^ 32"
  shows "isPrivateIPv4 ip \<longleftrightarrow> (\<exists>(base, k) \<in> set blocked_ranges. n div 2 ^ k = base div 2 ^ k)"
proof -
  have "base < 2 ^ 32" if "(base, k) \<in> set blocked_ranges" for base k
    using that by (auto simp: blocked_ranges_def)
  then have "(of_nat n AND push_bit k (-1) = (of_nat base AND push_bit k (-1) :: 32 word)) \<longleftrightarrow> n div 2 ^ k = base div 2 ^ k"
    if "(base, k) \<in> set blocked_ranges" for base k
    using that assms(2) by (intro prefix_mask)
  then show ?thesis
    unfolding isPrivateIPv4_def blocked_eq list_ex_iff assms(1) set_map bex_simps split_beta fst_conv snd_conv
    by (metis prod.collapse)
qed

lemma digits_eq: "q < m \<Longrightarrow> a * m + q = r \<longleftrightarrow> a = r div m \<and> q = r mod (m :: nat)"
  by auto

lemma div_between: "0 < m \<Longrightarrow> q div m = (k :: nat) \<longleftrightarrow> k * m \<le> q \<and> q < (k + 1) * m"
  by (auto simp: div_nat_eqI mult.commute dest: sym) (simp_all add: dividend_less_times_div)

lemma in_blocked_ranges:
  assumes "a < 256" "b < 256" "c < 256" "d < 256"
  shows "(\<exists>(base, k) \<in> set blocked_ranges. octets a b c d div 2 ^ k = base div 2 ^ k) \<longleftrightarrow>
     a \<in> {0, 10, 127} \<or> 240 \<le> a \<or> a = 100 \<and> 64 \<le> b \<and> b \<le> 127 \<or> a = 169 \<and> b = 254
   \<or> a = 172 \<and> 16 \<le> b \<and> b \<le> 31 \<or> a = 192 \<and> (b = 168 \<or> b = 0 \<and> c \<in> {0, 2})
   \<or> a = 198 \<and> (b \<in> {18, 19} \<or> b = 51 \<and> c = 100) \<or> a = 203 \<and> b = 0 \<and> c = 113"
  (is "?l \<longleftrightarrow> ?r")
proof -
  have quotients: "a * 4 + b div 64 = 401 \<longleftrightarrow> a = 100 \<and> 64 \<le> b \<and> b \<le> 127"
    "a * 256 + b = 43518 \<longleftrightarrow> a = 169 \<and> b = 254" "a * 16 + b div 16 = 2753 \<longleftrightarrow> a = 172 \<and> 16 \<le> b \<and> b \<le> 31"
    "(a * 256 + b) * 256 + c = 12582912 \<longleftrightarrow> a = 192 \<and> b = 0 \<and> c = 0"
    "(a * 256 + b) * 256 + c = 12582914 \<longleftrightarrow> a = 192 \<and> b = 0 \<and> c = 2" "a * 256 + b = 49320 \<longleftrightarrow> a = 192 \<and> b = 168"
    "a * 128 + b div 2 = 25353 \<longleftrightarrow> a = 198 \<and> b \<in> {18, 19}"
    "(a * 256 + b) * 256 + c = 12989284 \<longleftrightarrow> a = 198 \<and> b = 51 \<and> c = 100"
    "(a * 256 + b) * 256 + c = 13303921 \<longleftrightarrow> a = 203 \<and> b = 0 \<and> c = 113" "a div 16 = 15 \<longleftrightarrow> 240 \<le> a"
    using assms digits_eq[of "b div 64" 4 a 401] digits_eq[of b 256 a] digits_eq[of "b div 16" 16 a 2753]
      digits_eq[of "b div 2" 128 a 25353] digits_eq[of c 256 "a * 256 + b"]
    by (simp_all add: div_between) auto
  have quotient_values: "(0 :: nat) div 2 ^ 24 = 0" "10 * 2 ^ 24 div 2 ^ 24 = (10 :: nat)"
    "(100 * 2 ^ 24 + 64 * 2 ^ 16) div 2 ^ 22 = (401 :: nat)" "127 * 2 ^ 24 div 2 ^ 24 = (127 :: nat)"
    "(169 * 2 ^ 24 + 254 * 2 ^ 16) div 2 ^ 16 = (43518 :: nat)" "(172 * 2 ^ 24 + 16 * 2 ^ 16) div 2 ^ 20 = (2753 :: nat)"
    "192 * 2 ^ 24 div 2 ^ 8 = (12582912 :: nat)" "(192 * 2 ^ 24 + 2 * 2 ^ 8) div 2 ^ 8 = (12582914 :: nat)"
    "(192 * 2 ^ 24 + 168 * 2 ^ 16) div 2 ^ 16 = (49320 :: nat)" "(198 * 2 ^ 24 + 18 * 2 ^ 16) div 2 ^ 17 = (25353 :: nat)"
    "(198 * 2 ^ 24 + 51 * 2 ^ 16 + 100 * 2 ^ 8) div 2 ^ 8 = (12989284 :: nat)"
    "(203 * 2 ^ 24 + 113 * 2 ^ 8) div 2 ^ 8 = (13303921 :: nat)" "240 * 2 ^ 24 div 2 ^ 28 = (15 :: nat)"
    by simp_all
  show ?thesis
    unfolding blocked_ranges_def list.set bex_simps split_beta fst_conv snd_conv octets_div[OF assms(2-4)]
      quotient_values quotients insert_iff empty_iff
    by (intro iffI; elim disjE conjE; simp)
qed

text \<open>An address of four decimal octets is refused exactly when it lies in one of these blocks: 0/8, 10/8,
  127/8, 240/4 and above, 100.64/10, 169.254/16, 172.16/12, 192.168/16, 192.0.0/24, 192.0.2/24, 198.18/15,
  198.51.100/24, 203.0.113/24 (multicast 224/4 is not among them).\<close>

theorem private_ipv4_exact:
  assumes "a < 256" "b < 256" "c < 256" "d < 256"
  shows "isPrivateIPv4 (join_dots [a, b, c, d]) \<longleftrightarrow>
     a \<in> {0, 10, 127} \<or> 240 \<le> a \<or> a = 100 \<and> 64 \<le> b \<and> b \<le> 127 \<or> a = 169 \<and> b = 254
   \<or> a = 172 \<and> 16 \<le> b \<and> b \<le> 31 \<or> a = 192 \<and> (b = 168 \<or> b = 0 \<and> c \<in> {0, 2})
   \<or> a = 198 \<and> (b \<in> {18, 19} \<or> b = 51 \<and> c = 100) \<or> a = 203 \<and> b = 0 \<and> c = 113"
proof -
  have "ipv4ToInt (join_dots [a, b, c, d]) = of_nat (octets a b c d)"
    using assms by (simp add: join_dots_four octets_def ipv4ToInt_dotted nat_str_no_dot)
  from isPrivateIPv4_ranges[OF this octets_bound[OF assms]] in_blocked_ranges[OF assms]
  show ?thesis by simp
qed

theorem private_ipv4_exact_witness: "isPrivateIPv4 (join_dots [169, 254, 169, 254]) \<and> \<not> isPrivateIPv4 (join_dots [224, 0, 0, 1])"
  using private_ipv4_exact[of 169 254 169 254] private_ipv4_exact[of 224 0 0 1] by simp

section \<open>The body cap\<close>

lemma read_chunks_all:
  "length (concat cs) + length (concat vs) \<le> m \<Longrightarrow>
    read_chunks m vs cs (length (concat cs)) = (cs @ vs, length (concat cs) + length (concat vs))"
proof (induction vs arbitrary: cs)
  case (Cons v vs)
  then show ?case using Cons.IH[of "cs @ [v]"] by (simp add: Let_def add.assoc)
qed simp

lemma read_chunks_cut:
  "length (concat cs) \<le> m \<Longrightarrow> m < length (concat cs) + length (concat vs) \<Longrightarrow>
    \<exists>k seen. k < length vs \<and> read_chunks m vs cs (length (concat cs)) = (cs @ take k vs, seen) \<and> m < seen
      \<and> length (concat (cs @ take k vs)) \<le> m"
proof (induction vs arbitrary: cs)
  case (Cons v vs)
  show ?case
  proof (cases "m < length (concat cs) + length v")
    case True
    then show ?thesis using Cons.prems
      by (intro exI[of _ 0] exI[of _ "length (concat cs) + length v"]) (simp add: Let_def)
  next
    case False
    with Cons.prems Cons.IH[of "cs @ [v]"]
    obtain k seen where "k < length vs" "read_chunks m vs (cs @ [v]) (length (concat cs) + length v) = (cs @ v # take k vs, seen)"
      "m < seen" "length (concat cs) + (length v + length (concat (take k vs))) \<le> m"
      by (auto simp: add.assoc)
    with False show ?thesis by (intro exI[of _ "Suc k"] exI[of _ seen]) (simp add: Let_def)
  qed
qed simp

text \<open>The body read from a page is the whole body when it has at most \<open>maxBytes\<close> bytes; otherwise it is a
  prefix of whole chunks, followed by zero bytes up to \<open>maxBytes\<close>.\<close>

theorem capped_body_spec:
  "if length (concat vs) \<le> maxBytes then capped_body maxBytes vs = concat vs
   else length (capped_body maxBytes vs) = maxBytes
     \<and> (\<exists>k. k < length vs \<and> capped_body maxBytes vs = concat (take k vs) @ replicate (maxBytes - length (concat (take k vs))) 0)"
proof (cases "length (concat vs) \<le> maxBytes")
  case True
  then show ?thesis using read_chunks_all[of "[]" vs maxBytes] by (simp add: capped_body_def)
next
  case False
  then obtain k seen where k: "k < length vs" "read_chunks maxBytes vs [] 0 = (take k vs, seen)" "maxBytes < seen"
    "length (concat (take k vs)) \<le> maxBytes"
    using read_chunks_cut[of "[]" maxBytes vs] by auto
  then have "capped_body maxBytes vs = concat (take k vs) @ replicate (maxBytes - length (concat (take k vs))) 0"
    by (simp add: capped_body_def Let_def min_def)
  with k(1,4) False show ?thesis by auto
qed

section \<open>Requests made\<close>

definition host_allowed :: "net_env \<Rightarrow> jsstr \<Rightarrow> bool" where
  "host_allowed env h \<longleftrightarrow>
     (if ne_isIPv4 env h then \<not> isPrivateIPv4 h
      else if ne_isIPv6 env h then \<not> isPrivateIPv6 (ne_isIPv4 env) h
      else \<exists>address family. ne_lookup env h = Some (address, family) \<and> \<not> (family = 4 \<and> isPrivateIPv4 address)
             \<and> \<not> (family = 6 \<and> isPrivateIPv6 (ne_isIPv4 env) address))"

lemma validateHostname_Inr: "validateHostname env h = Inr u \<longleftrightarrow> host_allowed env h"
  by (auto simp: validateHostname_def host_allowed_def split: option.splits)

lemma fetch_loop_log:
  "http_protocol u \<Longrightarrow> fetch_loop env maxBytes left u log = (r, log') \<Longrightarrow>
    \<exists>new. log' = log @ new \<and> length new \<le> left + 1
      \<and> list_all (\<lambda>v. http_protocol v \<and> host_allowed (fe_net env) (url_hostname v)) new"
proof (induction env maxBytes left u log rule: fetch_loop.induct)
  case (1 env maxBytes left u log)
  show ?case
  proof (cases "validateHostname (fe_net env) (url_hostname u)")
    case (Inl e)
    with "1.prems" show ?thesis by (simp add: fetch_loop.simps[of env maxBytes left u log])
  next
    case valid: (Inr _)
    then have allowed: "host_allowed (fe_net env) (url_hostname u)" by (simp add: validateHostname_Inr)
    show ?thesis
    proof (cases "fetch_loop env maxBytes left u log = (r, log @ [u])")
      case True
      with "1.prems" have "log' = log @ [u]" by simp
      then show ?thesis using "1.prems"(1) allowed by (intro exI[of _ "[u]"]) simp
    next
      case False
      with "1.prems" valid obtain rs u' where rec: "fe_fetch env (url_href u) = Some rs" "300 \<le> rs_status rs \<and> rs_status rs < 400"
        "truthy (rs_location rs)" "left \<noteq> 0" "fe_url env (the (rs_location rs)) (Some (url_href u)) = Some u'" "http_protocol u'"
        "fetch_loop env maxBytes (left - 1) u' (log @ [u]) = (r, log')"
        by (auto simp: fetch_loop.simps[of env maxBytes left u log] split: option.splits if_splits)
      from "1.IH"[OF valid rec(1,2) _ rec(4,5) _ rec(6,7)] rec(3,6)
      obtain new where "log' = (log @ [u]) @ new" "length new \<le> left - 1 + 1"
        "list_all (\<lambda>v. http_protocol v \<and> host_allowed (fe_net env) (url_hostname v)) new"
        by auto
      then show ?thesis using "1.prems"(1) allowed rec(4) by (intro exI[of _ "u # new"]) simp
    qed
  qed
qed

text \<open>C36. Every request a link preview makes, redirects included, goes to an \<open>http\<close> or \<open>https\<close> URL whose host was
  checked first (a literal address outside the private ranges, or a name that resolved to one), and a preview makes
  at most \<open>maxRedirects + 1\<close> requests whatever the servers answer.\<close>

theorem safe_fetch_guarded:
  "length (snd (safeFetch env maxBytes maxRedirects rawUrl)) \<le> maxRedirects + 1
   \<and> list_all (\<lambda>v. http_protocol v \<and> host_allowed (fe_net env) (url_hostname v)) (snd (safeFetch env maxBytes maxRedirects rawUrl))"
proof (cases "fe_url env rawUrl None")
  case (Some u)
  obtain r log where "fetch_loop env maxBytes maxRedirects u [] = (r, log)" by (cases "fetch_loop env maxBytes maxRedirects u []")
  with Some fetch_loop_log[OF _ this] show ?thesis by (auto simp: safeFetch_def)
qed (simp add: safeFetch_def)

end
