(* ===== verification/Og.thy ===== *)
theory Og
  imports Ssrf
begin

text \<open>
  Link previews, \<open>server/src/og/og.service.ts\<close> and \<open>og.controller.ts\<close>: the result cache and the extraction of
  the preview from the page.  The regular expressions of the code are sequences of literals, classes and greedy
  repeated classes with one group; \<open>re_search\<close> is their backtracking match.  They have the flag \<open>i\<close>
  and no flag \<open>u\<close>, so a literal ASCII letter matches both cases and nothing else.

  Decoding the body (\<open>Response.text\<close>) is a parameter; the rest of the environment is that of \<open>Ssrf\<close>.
\<close>

section \<open>Regular expressions\<close>

datatype re_item = One "nat \<Rightarrow> bool" | Many "nat \<Rightarrow> bool" nat "nat option" bool

fun first_some :: "('a \<Rightarrow> 'b option) \<Rightarrow> 'a list \<Rightarrow> 'b option" where
  "first_some f [] = None"
| "first_some f (x # xs) = (case f x of Some y \<Rightarrow> Some y | None \<Rightarrow> first_some f xs)"

text \<open>The numbers of repetitions a greedy class can take, longest first.\<close>

definition run_lengths :: "(nat \<Rightarrow> bool) \<Rightarrow> nat \<Rightarrow> nat option \<Rightarrow> jsstr \<Rightarrow> nat list" where
  "run_lengths P lo hi s =
     (let n = length (takeWhile P s); m = (case hi of None \<Rightarrow> n | Some h \<Rightarrow> min h n) in rev [lo..<Suc m])"

text \<open>A match at the start of the string, with the text of the group.\<close>

primrec re_here :: "re_item list \<Rightarrow> jsstr \<Rightarrow> jsstr option" where
  "re_here [] s = Some []"
| "re_here (r # rs) s =
     (case r of
        One P \<Rightarrow> (case s of [] \<Rightarrow> None | c # t \<Rightarrow> if P c then re_here rs t else None)
      | Many P lo hi cap \<Rightarrow>
          first_some (\<lambda>k. map_option (\<lambda>g. if cap then take k s else g) (re_here rs (drop k s))) (run_lengths P lo hi s))"

fun re_search :: "re_item list \<Rightarrow> jsstr \<Rightarrow> jsstr option" where
  "re_search rs [] = re_here rs []"
| "re_search rs (c # s) = (case re_here rs (c # s) of Some g \<Rightarrow> Some g | None \<Rightarrow> re_search rs s)"

definition lits :: "jsstr \<Rightarrow> re_item list" where
  "lits s = map (\<lambda>c. One (\<lambda>d. ascii_lower [d] = ascii_lower [c])) s"

definition quote :: "nat \<Rightarrow> bool" where
  "quote c \<longleftrightarrow> c = 34 \<or> c = 39"

definition inside_tag :: re_item where
  "inside_tag = Many (\<lambda>c. c \<noteq> 62) 1 None False"

definition quoted_group :: "re_item list" where
  "quoted_group = [One quote, Many (\<lambda>c. \<not> quote c) 1 (Some 500) True, One quote]"

definition quoted_literal :: "jsstr \<Rightarrow> re_item list" where
  "quoted_literal v = One quote # lits v @ [One quote]"

definition getMeta :: "jsstr \<Rightarrow> string \<Rightarrow> string \<Rightarrow> jsstr option" where
  "getMeta html attr v =
     (let a = re_search (lits (js ''<meta'') @ inside_tag # lits (js attr @ js ''='') @ quoted_literal (js v)
                         @ inside_tag # lits (js ''content='') @ quoted_group) html;
          b = re_search (lits (js ''<meta'') @ inside_tag # lits (js ''content='') @ quoted_group
                         @ inside_tag # lits (js attr @ js ''='') @ quoted_literal (js v)) html
      in map_option trim (case a of Some x \<Rightarrow> Some x | None \<Rightarrow> b))"

definition title_tag :: "jsstr \<Rightarrow> jsstr option" where
  "title_tag html =
     map_option trim (re_search (lits (js ''<title'') @ [Many (\<lambda>c. c \<noteq> 62) 0 None False] @ lits (js ''>'')
                                 @ [Many (\<lambda>c. c \<noteq> 60) 1 (Some 200) True]) html)"

section \<open>Text\<close>

text \<open>\<open>replace(/p/g, r)\<close> for a literal pattern.\<close>

fun replace_all :: "jsstr \<Rightarrow> jsstr \<Rightarrow> jsstr \<Rightarrow> jsstr" where
  "replace_all p r [] = []"
| "replace_all p r (c # s) =
     (if starts_with (c # s) p then r @ replace_all p r (drop (length p - 1) s) else c # replace_all p r s)"

text \<open>\<open>replace(/\s+/g, ' ')\<close>.\<close>

function squeeze :: "jsstr \<Rightarrow> jsstr" where
  "squeeze [] = []"
| "squeeze (c # s) = (if js_space c then 32 # squeeze (dropWhile js_space s) else c # squeeze s)"
  by pat_completeness auto
termination by (relation "measure length") (auto simp: less_Suc_eq_le length_dropWhile_le)

definition sanitizeText :: "jsstr \<Rightarrow> jsstr" where
  "sanitizeText text =
     (let t = replace_all (js ''&amp;'') (js ''&'') text;
          t = replace_all (js ''&lt;'') (js ''<'') t;
          t = replace_all (js ''&gt;'') (js ''>'') t;
          t = replace_all (js ''&quot;'') [34] t;
          t = replace_all (js ''&#39;'') [39] t;
          t = replace_all (js ''&nbsp;'') (js '' '') t
      in take 300 (trim (squeeze t)))"

section \<open>Previews\<close>

record og_data =
  og_url :: jsstr
  og_title :: "jsstr option"
  og_description :: "jsstr option"
  og_image :: "jsstr option"
  og_siteName :: "jsstr option"

text \<open>\<open>a || b\<close> on two optional strings.\<close>

definition opt_or :: "jsstr option \<Rightarrow> jsstr option \<Rightarrow> jsstr option" where
  "opt_or a b = (if truthy a then a else b)"

definition http_image :: "fetch_env \<Rightarrow> url \<Rightarrow> jsstr option \<Rightarrow> jsstr option" where
  "http_image env u img =
     (if \<not> truthy img then img
      else case fe_url env (the img) (Some (url_origin u)) of
             None \<Rightarrow> None
           | Some resolved \<Rightarrow>
               (case fe_url env (url_href resolved) None of
                  None \<Rightarrow> None
                | Some imgUrl \<Rightarrow> if http_protocol imgUrl then Some (url_href resolved) else None))"

definition sanitized :: "jsstr option \<Rightarrow> jsstr option" where
  "sanitized s = (if truthy s then map_option sanitizeText s else None)"

definition parseOgData :: "fetch_env \<Rightarrow> jsstr \<Rightarrow> jsstr \<Rightarrow> url \<Rightarrow> og_data option" where
  "parseOgData env key html u =
     (let title = opt_or (getMeta html ''property'' ''og:title'')
                    (opt_or (getMeta html ''name'' ''twitter:title'') (title_tag html));
          description = opt_or (getMeta html ''property'' ''og:description'') (getMeta html ''name'' ''description'');
          img = http_image env u (opt_or (getMeta html ''property'' ''og:image'') (getMeta html ''name'' ''twitter:image''));
          host = url_hostname u;
          siteName = opt_or (getMeta html ''property'' ''og:site_name'')
                       (Some (if starts_with host (js ''www.'') then drop 4 host else host))
      in if \<not> truthy title \<and> \<not> truthy description \<and> \<not> truthy img then None
         else Some \<lparr>og_url = key, og_title = sanitized title, og_description = sanitized description,
                    og_image = img, og_siteName = sanitized siteName\<rparr>)"

section \<open>The cache\<close>

record og_entry =
  oe_data :: "og_data option"
  oe_ts :: time
  oe_ttl :: int

definition SUCCESS_TTL_MS :: int where "SUCCESS_TTL_MS = 10 * 60 * 1000"

definition ERROR_TTL_MS :: int where "ERROR_TTL_MS = 2 * 60 * 1000"

definition ok_status :: "nat \<Rightarrow> bool" where
  "ok_status n \<longleftrightarrow> 200 \<le> n \<and> n \<le> 299"

text \<open>What a finished request yields: the data and the time it is kept.  The text of a response without a body is empty.\<close>

definition og_outcome ::
  "fetch_env \<Rightarrow> (nat list \<Rightarrow> jsstr) \<Rightarrow> url \<Rightarrow> fetch_error + fetch_result \<Rightarrow> og_data option \<times> int" where
  "og_outcome env text u r =
     (let parsed = (\<lambda>html. let data = parseOgData env (url_href u) html u
                           in (data, if data \<noteq> None then SUCCESS_TTL_MS else ERROR_TTL_MS))
      in case r of
           Inl (Ssrf _) \<Rightarrow> (None, SUCCESS_TTL_MS)
         | Inl NetworkError \<Rightarrow> (None, ERROR_TTL_MS)
         | Inr NoContent \<Rightarrow> (None, ERROR_TTL_MS)
         | Inr (Unread status) \<Rightarrow> if status = 204 \<or> \<not> ok_status status then (None, ERROR_TTL_MS) else parsed []
         | Inr (Fetched status body) \<Rightarrow> if status = 204 \<or> \<not> ok_status status then (None, ERROR_TTL_MS) else parsed (text body))"

text \<open>\<open>now\<close> is the time of the call and \<open>later\<close> the time the request ends; the last component is the log of requests.\<close>

definition og_fetch ::
  "fetch_env \<Rightarrow> (nat list \<Rightarrow> jsstr) \<Rightarrow> time \<Rightarrow> time \<Rightarrow> jsstr \<Rightarrow> (jsstr, og_entry) jsmap
     \<Rightarrow> og_data option \<times> (jsstr, og_entry) jsmap \<times> url list" where
  "og_fetch env text now later rawUrl cache =
     (case fe_url env rawUrl None of
        None \<Rightarrow> (None, cache, [])
      | Some u \<Rightarrow>
          if \<not> http_protocol u then (None, cache, [])
          else let key = url_href u;
                   miss = (case safeFetch env (512 * 1024) 3 key of (r, log) \<Rightarrow>
                             case og_outcome env text u r of (data, ttl) \<Rightarrow>
                               (data, mset_at key \<lparr>oe_data = data, oe_ts = later, oe_ttl = ttl\<rparr> cache, log))
               in case mget cache key of
                    Some cached \<Rightarrow> if now - oe_ts cached < oe_ttl cached then (oe_data cached, cache, []) else miss
                  | None \<Rightarrow> miss)"

definition ctl_og_fetch ::
  "fetch_env \<Rightarrow> (nat list \<Rightarrow> jsstr) \<Rightarrow> time \<Rightarrow> time \<Rightarrow> jsstr option \<Rightarrow> (jsstr, og_entry) jsmap
     \<Rightarrow> og_data option \<times> (jsstr, og_entry) jsmap \<times> url list" where
  "ctl_og_fetch env text now later rawUrl cache =
     (if \<not> truthy rawUrl then (None, cache, []) else og_fetch env text now later (the rawUrl) cache)"

section \<open>Sanitized text\<close>

fun single_spaced :: "jsstr \<Rightarrow> bool" where
  "single_spaced [] \<longleftrightarrow> True"
| "single_spaced [c] \<longleftrightarrow> \<not> js_space c \<or> c = 32"
| "single_spaced (c # d # s) \<longleftrightarrow> (\<not> js_space c \<or> c = 32) \<and> \<not> (js_space c \<and> js_space d) \<and> single_spaced (d # s)"

lemma single_spaced_Cons:
  "single_spaced (c # s) \<longleftrightarrow> (\<not> js_space c \<or> c = 32) \<and> (s = [] \<or> \<not> (js_space c \<and> js_space (hd s))) \<and> single_spaced s"
  by (cases s) auto

lemma single_spaced_append:
  "single_spaced (xs @ ys) \<Longrightarrow> single_spaced xs \<and> single_spaced ys"
  by (induction xs) (auto simp: single_spaced_Cons)

lemma squeeze_hd: "s \<noteq> [] \<Longrightarrow> \<not> js_space (hd s) \<Longrightarrow> squeeze s \<noteq> [] \<and> hd (squeeze s) = hd s"
  by (cases s) auto

lemma squeeze_spaced: "single_spaced (squeeze s)"
proof (induction s rule: squeeze.induct)
  case (2 c s)
  show ?case
  proof (cases "js_space c")
    case True
    have "squeeze (dropWhile js_space s) = [] \<or> \<not> js_space (hd (squeeze (dropWhile js_space s)))"
    proof (cases "dropWhile js_space s")
      case (Cons d t)
      then show ?thesis using squeeze_hd[of "d # t"] hd_dropWhile[of js_space s] by simp
    qed (simp del: dropWhile_eq_Nil_conv)
    with 2(1)[OF True] True show ?thesis by (auto simp: single_spaced_Cons)
  qed (use 2(2) in \<open>simp add: single_spaced_Cons\<close>)
qed simp

lemma single_spaced_trim_take: "single_spaced s \<Longrightarrow> single_spaced (take n (trim s))"
proof -
  assume "single_spaced s"
  then have "single_spaced (dropWhile js_space s)"
    by (metis single_spaced_append takeWhile_dropWhile_id)
  moreover have "\<exists>zs. dropWhile js_space s = trim s @ zs"
    unfolding trim_def by (metis rev_append rev_rev_ident takeWhile_dropWhile_id)
  ultimately have "single_spaced (trim s)" by (metis single_spaced_append)
  then show ?thesis by (metis append_take_drop_id single_spaced_append)
qed

lemma trim_hd: "trim s = [] \<or> \<not> js_space (hd (trim s))"
proof -
  obtain zs where "dropWhile js_space s = trim s @ zs"
    unfolding trim_def by (metis rev_append rev_rev_ident takeWhile_dropWhile_id)
  then show ?thesis using hd_dropWhile[of js_space s] by (cases "trim s") auto
qed

definition tidy_text :: "jsstr \<Rightarrow> bool" where
  "tidy_text s \<longleftrightarrow> length s \<le> 300 \<and> single_spaced s \<and> (s = [] \<or> \<not> js_space (hd s))"

lemma sanitizeText_tidy: "tidy_text (sanitizeText t)"
  unfolding sanitizeText_def Let_def tidy_text_def
  using trim_hd by (auto simp: single_spaced_trim_take squeeze_spaced hd_take)

lemma sanitized_tidy: "pred_option tidy_text (sanitized s)"
  by (cases s) (auto simp: sanitized_def sanitizeText_tidy)

text \<open>What a preview may contain: tidy texts and an image whose URL is \<open>http\<close> or \<open>https\<close>.\<close>

definition preview_safe :: "(jsstr \<Rightarrow> jsstr option \<Rightarrow> url option) \<Rightarrow> og_data \<Rightarrow> bool" where
  "preview_safe parse d \<longleftrightarrow> pred_option tidy_text (og_title d) \<and> pred_option tidy_text (og_description d)
     \<and> pred_option tidy_text (og_siteName d)
     \<and> pred_option (\<lambda>i. i = [] \<or> (\<exists>v. parse i None = Some v \<and> http_protocol v)) (og_image d)"

definition cache_safe :: "(jsstr \<Rightarrow> jsstr option \<Rightarrow> url option) \<Rightarrow> (jsstr, og_entry) jsmap \<Rightarrow> bool" where
  "cache_safe parse c \<longleftrightarrow> list_all (\<lambda>(k, e). pred_option (preview_safe parse) (oe_data e)) c"

lemma http_image_safe:
  "pred_option (\<lambda>i. i = [] \<or> (\<exists>v. fe_url env i None = Some v \<and> http_protocol v)) (http_image env u img)"
  by (cases img) (auto simp: http_image_def split: option.splits)

lemma parseOgData_safe: "pred_option (preview_safe (fe_url env)) (parseOgData env key html u)"
  by (auto simp: parseOgData_def Let_def preview_safe_def sanitized_tidy http_image_safe)

lemma og_outcome_safe: "pred_option (preview_safe (fe_url env)) (fst (og_outcome env text u r))"
  using parseOgData_safe
  by (auto simp: og_outcome_def Let_def split: sum.splits fetch_error.splits fetch_result.splits)

lemma cache_safe_get: "cache_safe parse c \<Longrightarrow> mget c k = Some e \<Longrightarrow> pred_option (preview_safe parse) (oe_data e)"
  by (auto simp: cache_safe_def list_all_iff dest!: map_of_SomeD)

lemma cache_safe_set:
  "cache_safe parse c \<Longrightarrow> pred_option (preview_safe parse) (oe_data e) \<Longrightarrow> cache_safe parse (mset_at k e c)"
  unfolding cache_safe_def mset_at_def by (induction c) (auto simp: list_all_iff)

definition no_preview_env :: fetch_env where
  "no_preview_env = \<lparr>fe_net = \<lparr>ne_isIPv4 = (\<lambda>_. False), ne_isIPv6 = (\<lambda>_. False), ne_lookup = (\<lambda>_. Some (js ''93.184.216.34'', 4))\<rparr>,
     fe_url = (\<lambda>s _. Some \<lparr>url_protocol = js ''https:'', url_hostname = js ''www.a.io'', url_href = s, url_origin = s\<rparr>),
     fe_fetch = (\<lambda>_. Some \<lparr>rs_status = 200, rs_location = None, rs_contentType = Some (js ''text/html''),
                           rs_body = Some [js ''<TITLE>A &lt;b&gt;</TITLE>'']\<rparr>)\<rparr>"

text \<open>Whatever page it comes from, a preview handed out or kept in the cache has a title, a description and a site name of at
  most 300 code units with single plain spaces and no leading space, and an image that is empty or an absolute \<open>http\<close> or
  \<open>https\<close> URL.\<close>

theorem preview_contents:
  assumes "cache_safe (fe_url env) cache" "og_fetch env text now later rawUrl cache = (data, cache', log)"
  shows "pred_option (preview_safe (fe_url env)) data \<and> cache_safe (fe_url env) cache'"
proof -
  let ?safe = "\<lambda>(data, cache', log). pred_option (preview_safe (fe_url env)) data \<and> cache_safe (fe_url env) cache'"
  have miss: "?safe (case safeFetch env (512 * 1024) 3 key of (r, log) \<Rightarrow> case og_outcome env text u r of (data, ttl) \<Rightarrow>
      (data, mset_at key \<lparr>oe_data = data, oe_ts = later, oe_ttl = ttl\<rparr> cache, log))" for key u
    using og_outcome_safe[of env] cache_safe_set[OF assms(1)] by (auto split: prod.split) (metis fst_conv og_entry.select_convs(1))+
  have "?safe (og_fetch env text now later rawUrl cache)"
    unfolding og_fetch_def Let_def using miss assms(1) cache_safe_get[OF assms(1)] by (auto split: option.split)
  with assms(2) show ?thesis by simp
qed

theorem preview_contents_witness:
  "pred_option (preview_safe (fe_url no_preview_env)) (fst (og_fetch no_preview_env (\<lambda>b. b) 0 5 (js ''https://a.io'') []))"
proof -
  obtain d c l where eq: "og_fetch no_preview_env (\<lambda>b. b) 0 5 (js ''https://a.io'') [] = (d, c, l)"
    by (metis prod_cases3)
  from preview_contents[OF _ eq] eq show ?thesis by (simp add: cache_safe_def)
qed

text \<open>A URL that was fetched is not requested again before its time is over: for two minutes at least (ten when the
  preview had data or the address was refused), asking again gives the same answer, makes no request and leaves the
  cache as it is.\<close>

theorem preview_cached:
  assumes "fe_url env rawUrl None = Some u" "http_protocol u" "mget cache (url_href u) = None"
    and "og_fetch env text now later rawUrl cache = (data, cache', log)"
    and "now' - later < ERROR_TTL_MS \<or> (data \<noteq> None \<and> now' - later < SUCCESS_TTL_MS)"
  shows "og_fetch env text now' later' rawUrl cache' = (data, cache', [])"
proof -
  obtain r where r: "safeFetch env (512 * 1024) 3 (url_href u) = (r, log)"
    using assms(1-4) by (cases "safeFetch env (512 * 1024) 3 (url_href u)") (auto simp: og_fetch_def Let_def split: prod.splits)
  obtain ttl where o: "og_outcome env text u r = (data, ttl)"
    "cache' = mset_at (url_href u) \<lparr>oe_data = data, oe_ts = later, oe_ttl = ttl\<rparr> cache"
    using assms(1-4) r by (cases "og_outcome env text u r") (auto simp: og_fetch_def Let_def)
  then have "ttl \<ge> ERROR_TTL_MS" "data \<noteq> None \<Longrightarrow> ttl = SUCCESS_TTL_MS"
    by (auto simp: og_outcome_def Let_def SUCCESS_TTL_MS_def ERROR_TTL_MS_def
        split: sum.splits fetch_error.splits fetch_result.splits if_splits)
  with assms(5) have "now' - later < ttl" by auto
  with assms(1,2) o(2) show ?thesis by (simp add: og_fetch_def Let_def)
qed

theorem preview_cached_witness:
  "og_fetch no_preview_env (\<lambda>b. b) 60000 60010 (js ''https://a.io'') (fst (snd (og_fetch no_preview_env (\<lambda>b. b) 0 5 (js ''https://a.io'') [])))
   = (fst (og_fetch no_preview_env (\<lambda>b. b) 0 5 (js ''https://a.io'') []), fst (snd (og_fetch no_preview_env (\<lambda>b. b) 0 5 (js ''https://a.io'') [])), [])"
  by (rule preview_cached[where now = 0 and later = 5 and cache = "[]" and
        u = "\<lparr>url_protocol = js ''https:'', url_hostname = js ''www.a.io'', url_href = js ''https://a.io'', url_origin = js ''https://a.io''\<rparr>" and
        log = "snd (snd (og_fetch no_preview_env (\<lambda>b. b) 0 5 (js ''https://a.io'') []))"])
    (simp_all add: no_preview_env_def http_protocol_def ERROR_TTL_MS_def)

end
