(* ===== verification/Storage.thy ===== *)
theory Storage
  imports Schema
begin

text \<open>
  Uploaded files: \<open>server/src/upload/upload.service.ts\<close> and \<open>upload.controller.ts\<close>, and the signed URLs of
  \<open>server/src/files/files.controller.ts\<close>.

  The object storage is a service: whether it stores, signs or removes an object is the fields of
  \<open>storage_env\<close>, with the bucket and the public base address of the configuration, and
  \<open>toLowerCase\<close>.  The state is the cache of signed URLs, with a log of what was stored and removed.
\<close>

section \<open>State\<close>

record storage_env =
  se_bucket :: jsstr
  se_base :: jsstr
  se_upload :: "jsstr \<Rightarrow> bool"
  se_sign :: "jsstr \<Rightarrow> int \<Rightarrow> jsstr option"
  se_lowercase :: "jsstr \<Rightarrow> jsstr"

record cache_entry =
  ce_url :: jsstr
  ce_expiresAt :: time

record store =
  st_cache :: "(jsstr, cache_entry) jsmap"
  st_stored :: "(jsstr \<times> jsstr) list"
  st_removed :: "jsstr list"

record upload_file =
  uf_name :: jsstr
  uf_mime :: jsstr
  uf_size :: int

record uploaded =
  up_url :: jsstr
  up_fileName :: jsstr
  up_fileType :: jsstr
  up_fileSize :: int

definition MAX_FILE_SIZE :: int where "MAX_FILE_SIZE = 10 * 1024 * 1024"

definition MAX_AVATAR_SIZE :: int where "MAX_AVATAR_SIZE = 5 * 1024 * 1024"

definition AVATAR_MIME_TYPES :: "jsstr list" where
  "AVATAR_MIME_TYPES = map js [''image/jpeg'', ''image/png'', ''image/webp'']"

definition ALLOWED_MIME_TYPES :: "jsstr list" where
  "ALLOWED_MIME_TYPES = map js
     [''image/jpeg'', ''image/png'', ''image/gif'', ''image/webp'', ''image/svg+xml'', ''application/pdf'', ''application/msword'',
      ''application/vnd.openxmlformats-officedocument.wordprocessingml.document'', ''application/vnd.ms-excel'',
      ''application/vnd.openxmlformats-officedocument.spreadsheetml.sheet'', ''text/plain'', ''application/zip'',
      ''video/mp4'', ''video/webm'', ''audio/mpeg'', ''audio/ogg'', ''audio/wav'', ''audio/webm'', ''audio/webm;codecs=opus'']"

definition CACHE_BUFFER_MS :: int where "CACHE_BUFFER_MS = 5 * 60 * 1000"

section \<open>Uploading\<close>

text \<open>Node's \<open>path.extname\<close>: from the last dot of the last path segment, unless that dot is its first character.\<close>

definition basename :: "jsstr \<Rightarrow> jsstr" where
  "basename p = rev (takeWhile (\<lambda>c. c \<noteq> 47) (dropWhile (\<lambda>c. c = 47) (rev p)))"

definition extname :: "jsstr \<Rightarrow> jsstr" where
  "extname p =
     (let b = basename p; ext = rev (takeWhile (\<lambda>c. c \<noteq> 46) (rev b)); stem = take (length b - length ext) b
      in if length stem \<le> 1 \<or> b = [46, 46] then [] else 46 # ext)"

definition proxy_url :: "storage_env \<Rightarrow> jsstr \<Rightarrow> jsstr" where
  "proxy_url env path = js ''/storage/'' @ se_bucket env @ 47 # path"

definition uploadFile :: "storage_env \<Rightarrow> jsstr \<Rightarrow> upload_file \<Rightarrow> id \<Rightarrow> store \<Rightarrow> uploaded result \<times> store" where
  "uploadFile env uuid f uid st =
     (let allowed = uf_mime f \<in> set ALLOWED_MIME_TYPES \<or> starts_with (uf_mime f) (js ''audio/'')
      in if MAX_FILE_SIZE < uf_size f then (Inl (BadRequest ''File is too large (max 10 MB)''), st)
         else if \<not> allowed then (Inl (BadRequest ''File type is not allowed''), st)
         else let path = int_str uid @ 47 # uuid @ se_lowercase env (extname (uf_name f))
              in if \<not> se_upload env path then (Inl (BadRequest ''File upload failed''), st)
                 else (Inr \<lparr>up_url = proxy_url env path, up_fileName = uf_name f, up_fileType = uf_mime f, up_fileSize = uf_size f\<rparr>,
                       st\<lparr>st_stored := st_stored st @ [(path, uf_mime f)]\<rparr>))"

definition uploadAvatar :: "storage_env \<Rightarrow> jsstr \<Rightarrow> upload_file \<Rightarrow> id \<Rightarrow> store \<Rightarrow> jsstr result \<times> store" where
  "uploadAvatar env uuid f uid st =
     (if MAX_AVATAR_SIZE < uf_size f then (Inl (BadRequest ''Avatar too large (max 5 MB)''), st)
      else if uf_mime f \<notin> set AVATAR_MIME_TYPES
      then (Inl (BadRequest ''Invalid avatar type (only JPEG, PNG, WEBP allowed)''), st)
      else let ext = (if uf_mime f = js ''image/webp'' then js ''.webp'' else if uf_mime f = js ''image/png'' then js ''.png'' else js ''.jpg'');
               path = js ''avatars/'' @ int_str uid @ 47 # uuid @ ext
           in if \<not> se_upload env path then (Inl (BadRequest ''Avatar upload failed''), st)
              else (Inr (proxy_url env path), st\<lparr>st_stored := st_stored st @ [(path, uf_mime f)]\<rparr>))"

definition ctl_upload :: "storage_env \<Rightarrow> jsstr \<Rightarrow> upload_file option \<Rightarrow> id \<Rightarrow> store \<Rightarrow> uploaded result \<times> store" where
  "ctl_upload env uuid f uid st =
     (case f of None \<Rightarrow> (Inl (BadRequest ''No file provided''), st) | Some f \<Rightarrow> uploadFile env uuid f uid st)"

section \<open>Signed URLs\<close>

definition evictExpired :: "time \<Rightarrow> (jsstr, cache_entry) jsmap \<Rightarrow> (jsstr, cache_entry) jsmap" where
  "evictExpired now c = filter (\<lambda>(k, e). \<not> ce_expiresAt e < now) c"

text \<open>\<open>now\<close> is the time of the call, \<open>later\<close> the time the storage has answered.\<close>

definition getSignedUrl :: "storage_env \<Rightarrow> time \<Rightarrow> time \<Rightarrow> jsstr \<Rightarrow> int \<Rightarrow> store \<Rightarrow> cache_entry result \<times> store" where
  "getSignedUrl env now later path expiresIn st =
     (let request = (\<lambda>_ :: unit.
            if \<not> truthy (se_sign env path expiresIn) then (Inl (BadRequest ''Cannot generate signed URL''), st)
            else let entry = \<lparr>ce_url = the (se_sign env path expiresIn), ce_expiresAt = later + expiresIn * 1000\<rparr>;
                     c = mset_at path entry (st_cache st)
                 in (Inr entry, st\<lparr>st_cache := if 5000 < length c then evictExpired later c else c\<rparr>))
      in case mget (st_cache st) path of
           Some cached \<Rightarrow> if now < ce_expiresAt cached - CACHE_BUFFER_MS then (Inr cached, st) else request ()
         | None \<Rightarrow> request ())"

definition extractStoragePath :: "storage_env \<Rightarrow> jsstr \<Rightarrow> jsstr option" where
  "extractStoragePath env fileUrl =
     (let proxyPrefix = proxy_url env []; publicPrefix = se_base env @ [47]
      in if starts_with fileUrl proxyPrefix then Some (drop (length proxyPrefix) fileUrl)
         else if starts_with fileUrl publicPrefix then Some (drop (length publicPrefix) fileUrl)
         else None)"

definition deleteFile :: "storage_env \<Rightarrow> jsstr \<Rightarrow> store \<Rightarrow> store" where
  "deleteFile env fileUrl st =
     (if \<not> truthy (extractStoragePath env fileUrl) then st
      else let path = the (extractStoragePath env fileUrl)
           in st\<lparr>st_removed := st_removed st @ [path], st_cache := mdelete path (st_cache st)\<rparr>)"

section \<open>The endpoint of signed URLs\<close>

definition word_char :: "nat \<Rightarrow> bool" where
  "word_char c \<longleftrightarrow> digit c \<or> 65 \<le> c \<and> c \<le> 90 \<or> 97 \<le> c \<and> c \<le> 122 \<or> c = 95"

text \<open>\<open>SAFE_PATH_RE\<close>: one or more word characters, hyphens, dots and slashes.\<close>

definition safe_path :: "jsstr \<Rightarrow> bool" where
  "safe_path s \<longleftrightarrow> s \<noteq> [] \<and> list_all (\<lambda>c. word_char c \<or> c \<in> {45, 46, 47}) s"

fun remove_dots :: "jsstr \<Rightarrow> jsstr" where
  "remove_dots (a # b # s) = (if a = 46 \<and> b = 46 then remove_dots s else a # remove_dots (b # s))"
| "remove_dots s = s"

definition clean_path :: "jsstr \<Rightarrow> jsstr" where
  "clean_path raw = remove_dots (dropWhile (\<lambda>c. c = 47) (trim raw))"

definition getSigned :: "storage_env \<Rightarrow> time \<Rightarrow> time \<Rightarrow> jsstr option \<Rightarrow> store \<Rightarrow> cache_entry result \<times> store" where
  "getSigned env now later rawPath st =
     (if \<not> truthy (map_option trim rawPath) then (Inl (BadRequest ''Path is required''), st)
      else let path = clean_path (the rawPath)
           in if path = [] \<or> \<not> safe_path path then (Inl (BadRequest ''Invalid path format''), st)
              else getSignedUrl env now later path 3600 st)"

section \<open>Properties\<close>

text \<open>The URL given out for an object leads back to it.\<close>

lemma extract_proxy_url [simp]: "extractStoragePath env (proxy_url env path) = Some path" "proxy_url env path \<noteq> []"
  by (simp_all add: extractStoragePath_def proxy_url_def starts_with_def Let_def js_def)

fun has_dots :: "jsstr \<Rightarrow> bool" where
  "has_dots (a # b # s) \<longleftrightarrow> a = 46 \<and> b = 46 \<or> has_dots (b # s)"
| "has_dots s \<longleftrightarrow> False"

lemma remove_dots_hd: "remove_dots (b # s) \<noteq> [] \<Longrightarrow> hd (remove_dots (b # s)) = 46 \<Longrightarrow> b = 46"
  by (cases s) (auto split: if_splits)

lemma has_dots_Cons: "has_dots (a # s) \<longleftrightarrow> (s \<noteq> [] \<and> a = 46 \<and> hd s = 46) \<or> has_dots s"
  by (cases s) auto

lemma remove_dots_clean: "\<not> has_dots (remove_dots s)"
proof (induction s rule: remove_dots.induct)
  case (1 a b s)
  then show ?case using remove_dots_hd[of b s] by (auto simp: has_dots_Cons)
qed auto

lemma mget_evict: "distinct (map fst c) \<Longrightarrow> mget (evictExpired now c) k =
    (case mget c k of None \<Rightarrow> None | Some e \<Rightarrow> if ce_expiresAt e < now then None else Some e)"
proof (induction c)
  case (Cons p c)
  obtain k' e where p: "p = (k', e)" by (cases p)
  have "mget (evictExpired now c) k' = None"
    using Cons.prems p by (auto simp: evictExpired_def map_of_eq_None_iff)
  then show ?case using Cons p by (auto simp: evictExpired_def)
qed (simp add: evictExpired_def)

text \<open>What the cache may hold: one entry for a path, with a URL that the storage made for this path.\<close>

definition cache_ok :: "(jsstr \<Rightarrow> jsstr \<Rightarrow> bool) \<Rightarrow> (jsstr, cache_entry) jsmap \<Rightarrow> bool" where
  "cache_ok signed c \<longleftrightarrow> distinct (map fst c) \<and> (\<forall>k e. mget c k = Some e \<longrightarrow> signed k (ce_url e))"

lemma cache_ok_set: "cache_ok signed c \<Longrightarrow> signed k (ce_url e) \<Longrightarrow> cache_ok signed (mset_at k e c)"
  by (auto simp: cache_ok_def)

lemma cache_ok_evict: "cache_ok signed c \<Longrightarrow> cache_ok signed (evictExpired now c)"
proof -
  assume ok: "cache_ok signed c"
  then have "distinct (map fst (evictExpired now c))" by (simp add: cache_ok_def evictExpired_def distinct_map_filter)
  then show ?thesis using ok by (auto simp: cache_ok_def mget_evict split: option.splits if_splits)
qed

lemma cache_ok_delete: "cache_ok signed c \<Longrightarrow> cache_ok signed (mdelete k c)"
  by (auto simp: cache_ok_def split: if_splits)

lemma getSignedUrl_ok:
  assumes "cache_ok signed (st_cache st)" "\<forall>p n u. se_sign env p n = Some u \<longrightarrow> signed p u" "now \<le> later" "300 < n"
    and "getSignedUrl env now later path n st = (r, st')"
  shows "cache_ok signed (st_cache st') \<and> (\<forall>e. r = Inr e \<longrightarrow> signed path (ce_url e) \<and> now + CACHE_BUFFER_MS < ce_expiresAt e)"
proof -
  have fresh: "now + CACHE_BUFFER_MS < later + n * 1000" using assms(3,4) by (simp add: CACHE_BUFFER_MS_def)
  show ?thesis
  proof (cases "r = Inl (BadRequest ''Cannot generate signed URL'') \<and> st' = st")
    case True
    with assms(1) show ?thesis by simp
  next
    case no: False
    show ?thesis
    proof (cases "st' = st \<and> (\<exists>e. mget (st_cache st) path = Some e \<and> r = Inr e \<and> now < ce_expiresAt e - CACHE_BUFFER_MS)")
      case True
      with assms(1) show ?thesis by (auto simp: cache_ok_def)
    next
      case False
      with no assms(5) obtain u where u: "se_sign env path n = Some u"
        "r = Inr \<lparr>ce_url = u, ce_expiresAt = later + n * 1000\<rparr>"
        "st_cache st' \<in> {mset_at path \<lparr>ce_url = u, ce_expiresAt = later + n * 1000\<rparr> (st_cache st),
           evictExpired later (mset_at path \<lparr>ce_url = u, ce_expiresAt = later + n * 1000\<rparr> (st_cache st))}"
        by (cases "se_sign env path n") (auto simp: getSignedUrl_def Let_def split: option.splits if_splits)
      then have "signed path u" using assms(2) by blast
      then show ?thesis using u fresh cache_ok_set[OF assms(1)] cache_ok_evict by auto
    qed
  qed
qed

definition demo_storage :: storage_env where
  "demo_storage = \<lparr>se_bucket = js ''chat'', se_base = js ''https://x'', se_upload = (\<lambda>_. True),
     se_sign = (\<lambda>p n. Some (49 # p)), se_lowercase = ascii_lower\<rparr>"

text \<open>A signed URL is handed out only for a path without \<open>..\<close> and made of word characters, hyphens, dots and slashes;
  whether it comes from the cache or not, it was signed for that very path and stays valid for more than five minutes; and
  the cache keeps holding only such URLs.\<close>

theorem signed_url_sound:
  assumes "cache_ok signed (st_cache st)" "\<forall>p n u. se_sign env p n = Some u \<longrightarrow> signed p u" "now \<le> later"
    and "getSigned env now later rawPath st = (r, st')"
  shows "cache_ok signed (st_cache st') \<and>
    (\<forall>e. r = Inr e \<longrightarrow> (\<exists>path. path = clean_path (the rawPath) \<and> safe_path path \<and> \<not> has_dots path
        \<and> signed path (ce_url e) \<and> now + 5 * 60 * 1000 < ce_expiresAt e))"
proof (cases "truthy (map_option trim rawPath) \<and> safe_path (clean_path (the rawPath))")
  case False
  then show ?thesis using assms(1,4) by (auto simp: getSigned_def Let_def split: if_splits)
next
  case True
  then have "getSignedUrl env now later (clean_path (the rawPath)) 3600 st = (r, st')"
    using assms(4) by (auto simp: getSigned_def Let_def safe_path_def)
  from getSignedUrl_ok[OF assms(1-3) _ this] True show ?thesis
    by (auto simp: CACHE_BUFFER_MS_def clean_path_def remove_dots_clean)
qed

theorem signed_url_sound_witness:
  "\<exists>e. fst (getSigned demo_storage 0 10 (Some [32, 47, 55, 47, 46, 46, 47, 97]) \<lparr>st_cache = [], st_stored = [], st_removed = []\<rparr>) = Inr e
     \<and> ce_url e = [49, 55, 47, 47, 97] \<and> 300000 < ce_expiresAt e"
proof -
  let ?st = "\<lparr>st_cache = [], st_stored = [], st_removed = []\<rparr> :: store"
  obtain r st' where eq: "getSigned demo_storage 0 10 (Some [32, 47, 55, 47, 46, 46, 47, 97]) ?st = (r, st')" by fastforce
  have "map_sum id ce_url (fst (getSigned demo_storage 0 10 (Some [32, 47, 55, 47, 46, 46, 47, 97]) ?st)) = Inr ([49, 55, 47, 47, 97])"
    by (simp add: getSigned_def clean_path_def trim_def js_space_def safe_path_def word_char_def digit_def getSignedUrl_def demo_storage_def Let_def)
  then obtain e where e: "r = Inr e" "ce_url e = [49, 55, 47, 47, 97]" using eq by (cases r) auto
  have "cache_ok (\<lambda>p u. u = 49 # p) (st_cache ?st)" by (simp add: cache_ok_def)
  from signed_url_sound[OF this _ _ eq] e(1) have "300000 < ce_expiresAt e" by (auto simp: demo_storage_def)
  then show ?thesis using e eq by auto
qed

end
