(* ===== verification/Cleanup.thy ===== *)
theory Cleanup
  imports Storage Demo
begin

text \<open>
  The periodic removal of deleted messages and of files nobody refers to,
  \<open>server/src/conversations/cleanup.service.ts\<close>.  One call of \<open>runCleanup\<close> is one step; the timers that call it
  (15 seconds after the start and then every ten minutes) are left out.
\<close>

definition GRACE_MS :: int where "GRACE_MS = 60 * 60 * 1000"

definition past_grace :: "time \<Rightarrow> message \<Rightarrow> bool" where
  "past_grace now g = (case msg_deletedAt g of None \<Rightarrow> False | Some t \<Rightarrow> t \<le> now - GRACE_MS)"

definition hard_delete :: "id list \<Rightarrow> db \<Rightarrow> db" where
  "hard_delete ids d =
     (let d = d\<lparr>db_reactions := t_delete (\<lambda>r. r_messageId r \<in> set ids) (db_reactions d)\<rparr>;
          d = d\<lparr>db_pins := t_delete (\<lambda>p. p_messageId p \<in> set ids) (db_pins d)\<rparr>
      in delete_messages (\<lambda>g. msg_id g \<in> set ids) d)"

definition remove_orphan :: "storage_env \<Rightarrow> db \<Rightarrow> jsstr \<Rightarrow> store \<Rightarrow> store" where
  "remove_orphan env d fileUrl st =
     (if t_count (\<lambda>g. msg_fileUrl g = Some fileUrl) (db_messages d) = 0 then deleteFile env fileUrl st else st)"

definition runCleanup :: "storage_env \<Rightarrow> time \<Rightarrow> db \<Rightarrow> store \<Rightarrow> db \<times> store" where
  "runCleanup env now d st =
     (let messages = take 1000 (t_all (past_grace now) (db_messages d))
      in if messages = [] then (d, st)
         else let ids = map msg_id messages;
                  fileUrls = map the (filter truthy (map msg_fileUrl messages));
                  d = hard_delete ids d
              in (d, fold (remove_orphan env d) fileUrls st))"

section \<open>Lemmas\<close>

lemma hard_delete_messages:
  "rows (db_messages (hard_delete ids d)) =
    map (\<lambda>g. g\<lparr>msg_replyToId := unref (set ids \<inter> message_ids d) (msg_replyToId g),
              msg_forwardedFromId := unref (set ids \<inter> message_ids d) (msg_forwardedFromId g)\<rparr>)
      (filter (\<lambda>g. msg_id g \<notin> set ids) (rows (db_messages d)))"
proof -
  have "msg_id ` {g \<in> set (rows (db_messages d)). msg_id g \<in> set ids} = set ids \<inter> message_ids d" by auto
  then show ?thesis by (simp add: hard_delete_def delete_messages_def Let_def)
qed

lemma hard_delete_refs:
  assumes "db_refs d" shows "db_refs (hard_delete ids d)"
proof -
  have sub: "db_refs (d\<lparr>db_reactions := t_delete P (db_reactions d), db_pins := t_delete Q (db_pins d)\<rparr>)" for P Q
    using assms by (auto simp: db_refs_def user_refs_def msg_refs_def)
  have "hard_delete ids d = delete_messages (\<lambda>g. msg_id g \<in> set ids)
      (d\<lparr>db_reactions := t_delete (\<lambda>r. r_messageId r \<in> set ids) (db_reactions d),
         db_pins := t_delete (\<lambda>p. p_messageId p \<in> set ids) (db_pins d)\<rparr>)"
    by (simp add: hard_delete_def Let_def)
  then show ?thesis by (simp add: delete_messages_refs sub)
qed

lemma filter_not_taken:
  "distinct (map f xs) \<Longrightarrow> filter P (filter (\<lambda>x. f x \<notin> f ` set (take n (filter P xs))) xs) = drop n (filter P xs)"
proof (induction xs arbitrary: n)
  case (Cons x xs)
  show ?case
  proof (cases "P x \<and> 0 < n")
    case True
    then obtain m where n: "n = Suc m" by (cases n) auto
    have "filter (\<lambda>y. f y \<noteq> f x \<and> f y \<notin> f ` set (take m (filter P xs))) xs = filter (\<lambda>y. f y \<notin> f ` set (take m (filter P xs))) xs"
      using Cons.prems by (intro filter_cong) (auto simp: image_iff)
    with True n Cons show ?thesis by simp
  next
    case False
    have "f x \<notin> f ` set (take n (filter P xs))" using Cons.prems by (auto dest!: in_set_takeD)
    with False Cons show ?thesis by (cases "n = 0") auto
  qed
qed simp

lemma fold_remove_orphan:
  "\<exists>new. st_removed (fold (remove_orphan env d) urls st) = st_removed st @ new
    \<and> (\<forall>p\<in>set new. \<exists>u. extractStoragePath env u = Some p \<and> (\<forall>g\<in>set (rows (db_messages d)). msg_fileUrl g \<noteq> Some u))"
proof (induction urls arbitrary: st)
  case (Cons u urls)
  from Cons.IH[of "remove_orphan env d u st"] obtain new where new:
    "st_removed (fold (remove_orphan env d) urls (remove_orphan env d u st)) = st_removed (remove_orphan env d u st) @ new"
    "\<forall>p\<in>set new. \<exists>u. extractStoragePath env u = Some p \<and> (\<forall>g\<in>set (rows (db_messages d)). msg_fileUrl g \<noteq> Some u)"
    by blast
  show ?case
  proof (cases "st_removed (remove_orphan env d u st) = st_removed st")
    case True
    with new show ?thesis by auto
  next
    case False
    then obtain p where "extractStoragePath env u = Some p" "st_removed (remove_orphan env d u st) = st_removed st @ [p]"
      "\<forall>g\<in>set (rows (db_messages d)). msg_fileUrl g \<noteq> Some u"
      by (cases "extractStoragePath env u") (auto simp: remove_orphan_def deleteFile_def Let_def t_count_def filter_empty_conv split: if_splits)
    with new show ?thesis by (intro exI[of _ "p # new"]) auto
  qed
qed simp

text \<open>A clean-up removes only messages deleted at least an hour before, at most 1000 of them, and all of them when there
  are no more; it removes a file from the storage only if no remaining message has its URL; and every reference in
  the database still has its target.\<close>

theorem cleanup_sound:
  assumes "db_refs d" "tbl_wf msg_id (db_messages d)" "runCleanup env now d st = (d', st')"
  shows "db_refs d'
    \<and> (\<forall>g\<in>set (rows (db_messages d)). msg_id g \<notin> message_ids d' \<longrightarrow> past_grace now g)
    \<and> t_count (past_grace now) (db_messages d') = t_count (past_grace now) (db_messages d) - 1000
    \<and> (\<exists>new. st_removed st' = st_removed st @ new
         \<and> (\<forall>p\<in>set new. \<exists>u. extractStoragePath env u = Some p \<and> (\<forall>g\<in>set (rows (db_messages d')). msg_fileUrl g \<noteq> Some u)))"
proof (cases "t_all (past_grace now) (db_messages d) = []")
  case True
  then show ?thesis using assms by (auto simp: runCleanup_def t_count_def t_all_def)
next
  case False
  let ?ms = "take 1000 (t_all (past_grace now) (db_messages d))"
  have d': "d' = hard_delete (map msg_id ?ms) d"
    and st': "st' = fold (remove_orphan env d') (map the (filter truthy (map msg_fileUrl ?ms))) st"
    using assms(3) False by (auto simp: runCleanup_def Let_def)
  have "\<forall>g\<in>set (rows (db_messages d)). msg_id g \<notin> message_ids d' \<longrightarrow> past_grace now g"
  proof (intro ballI impI)
    fix g assume g: "g \<in> set (rows (db_messages d))" "msg_id g \<notin> message_ids d'"
    then have "msg_id g \<in> msg_id ` set ?ms" by (auto simp: d' hard_delete_messages image_iff)
    then obtain h where "h \<in> set (t_all (past_grace now) (db_messages d))" "msg_id h = msg_id g" by (auto dest: in_set_takeD)
    with g(1) tbl_wf_key_eq[OF assms(2)] show "past_grace now g" by auto
  qed
  moreover have "t_count (past_grace now) (db_messages d') = t_count (past_grace now) (db_messages d) - 1000"
  proof -
    have "distinct (map msg_id (rows (db_messages d)))" using assms(2) by (simp add: tbl_wf_def)
    from filter_not_taken[OF this, of "past_grace now" 1000]
    show ?thesis by (simp add: t_count_def d' hard_delete_messages filter_map o_def past_grace_def t_all_def)
  qed
  ultimately show ?thesis
    using hard_delete_refs[OF assms(1)] fold_remove_orphan[of env d' _ st] unfolding st' by (auto simp: d')
qed

definition cleanup_db :: db where
  "cleanup_db = chat_db\<lparr>db_messages := \<lparr>rows = [(chat_message 1 1 2 [104, 105] 10)\<lparr>msg_deletedAt := Some 20,
     msg_fileUrl := Some (proxy_url demo_storage [97])\<rparr>, (chat_message 2 1 2 [111, 107] 20)\<lparr>msg_replyToId := Some 1\<rparr>], nxt = 3\<rparr>\<rparr>"

lemma cleanup_db_ok: "db_refs cleanup_db" "tbl_wf msg_id (db_messages cleanup_db)"
  by (simp_all add: cleanup_db_def chat_defs db_refs_def user_refs_def msg_refs_def message_refs_def opt_in_def tbl_wf_def)

theorem cleanup_sound_witness:
  "t_count (past_grace 4000000) (db_messages (fst (runCleanup demo_storage 4000000 cleanup_db \<lparr>st_cache = [], st_stored = [], st_removed = []\<rparr>))) = 0
   \<and> db_refs (fst (runCleanup demo_storage 4000000 cleanup_db \<lparr>st_cache = [], st_stored = [], st_removed = []\<rparr>))
   \<and> st_removed (snd (runCleanup demo_storage 4000000 cleanup_db \<lparr>st_cache = [], st_stored = [], st_removed = []\<rparr>)) = [[97]]"
proof -
  let ?st = "\<lparr>st_cache = [], st_stored = [], st_removed = []\<rparr> :: store"
  obtain d' st' where eq: "runCleanup demo_storage 4000000 cleanup_db ?st = (d', st')" by fastforce
  have "st_removed (snd (runCleanup demo_storage 4000000 cleanup_db ?st)) = [[97]]"
    by (simp add: runCleanup_def cleanup_db_def chat_defs t_all_def past_grace_def GRACE_MS_def hard_delete_def delete_messages_def Let_def
        remove_orphan_def deleteFile_def t_count_def)
  moreover have "t_count (past_grace 4000000) (db_messages cleanup_db) \<le> 1000"
    by (simp add: t_count_def cleanup_db_def)
  ultimately show ?thesis using cleanup_sound[OF cleanup_db_ok eq] eq by simp
qed

end
