(* ===== verification/Keys.thy ===== *)
theory Keys
  imports Schema Demo
begin

text \<open>
  Public keys, recovery blobs and devices: \<open>server/src/keys/\<close>, \<open>server/src/devices/\<close> and
  \<open>server/src/common/verify-bundle.ts\<close>.

  Node's base64 decoder, the parsing of an Ed25519 public key in DER form, signature verification, the one-time
  password check of \<open>otplib\<close> and the mailer are the fields of \<open>key_env\<close>.  Messages that the code writes in
  Ukrainian are given in English.  \<open>uid\<close> is the user of the JWT guard.
\<close>

section \<open>Verification of a key bundle\<close>

record 'k key_env =
  ke_base64 :: "jsstr \<Rightarrow> nat list"
  ke_publicKey :: "nat list \<Rightarrow> 'k option"
  ke_verify :: "nat list \<Rightarrow> 'k \<Rightarrow> nat list \<Rightarrow> bool"
  ke_otpCheck :: "jsstr \<Rightarrow> jsstr option \<Rightarrow> bool"
  ke_mailOk :: "jsstr \<Rightarrow> bool"

definition BUNDLE_BYTES :: nat where "BUNDLE_BYTES = 161"

definition ED25519_SPKI_HEADER :: "nat list" where
  "ED25519_SPKI_HEADER = [0x30, 0x2a, 0x30, 0x05, 0x06, 0x03, 0x2b, 0x65, 0x70, 0x03, 0x21, 0x00]"

definition decodeB64Url :: "'k key_env \<Rightarrow> jsstr \<Rightarrow> nat list" where
  "decodeB64Url env s = ke_base64 env (map (\<lambda>c. if c = 95 then 47 else c) (map (\<lambda>c. if c = 45 then 43 else c) s))"

definition subarray :: "nat \<Rightarrow> nat \<Rightarrow> 'a list \<Rightarrow> 'a list" where
  "subarray i j xs = take (j - i) (drop i xs)"

definition verifyKeyBundle :: "'k key_env \<Rightarrow> jsstr \<Rightarrow> unit result" where
  "verifyKeyBundle env bundleB64url =
     (let bundle = decodeB64Url env bundleB64url
      in if length bundle \<noteq> BUNDLE_BYTES then Inl (BadRequest ''Invalid bundle length'')
         else let ikSignPub = subarray 0 32 bundle; spkPub = subarray 64 96 bundle; spkSig = subarray 96 160 bundle
              in case ke_publicKey env (ED25519_SPKI_HEADER @ ikSignPub) of
                   None \<Rightarrow> Inl (BadRequest ''Invalid identity signing key in bundle'')
                 | Some publicKey \<Rightarrow>
                     if \<not> ke_verify env spkPub publicKey spkSig then Inl (BadRequest ''Bundle signature verification failed'')
                     else Inr ())"

section \<open>Keys\<close>

text \<open>\<open>upsert\<close> by \<open>userId\<close>.\<close>

definition publishKey :: "id \<Rightarrow> jsstr \<Rightarrow> time \<Rightarrow> db \<Rightarrow> unit result \<times> db" where
  "publishKey uid publicKey now d =
     (if t_find (\<lambda>k. pk_userId k = uid) (db_pubKeys d) \<noteq> None
      then (Inr (), d\<lparr>db_pubKeys := t_update (\<lambda>k. pk_userId k = uid)
              (\<lambda>k. k\<lparr>pk_publicKey := publicKey, pk_updatedAt := now\<rparr>) (db_pubKeys d)\<rparr>)
      else if find_user d uid = None then (Inl (PrismaError ''P2003''), d)
      else (Inr (), d\<lparr>db_pubKeys := t_insert
              (\<lambda>i. \<lparr>pk_id = i, pk_userId = uid, pk_publicKey = publicKey, pk_updatedAt = now\<rparr>) (db_pubKeys d)\<rparr>))"

definition getKey :: "id \<Rightarrow> db \<Rightarrow> (id \<times> jsstr \<times> time) result" where
  "getKey userId d =
     (case t_find (\<lambda>k. pk_userId k = userId) (db_pubKeys d) of
        None \<Rightarrow> Inl (NotFound ''Public key not found'')
      | Some k \<Rightarrow> Inr (pk_userId k, pk_publicKey k, pk_updatedAt k))"

text \<open>The check of the second factor when a recovery blob is reset.\<close>

definition reset_check :: "'k key_env \<Rightarrow> id \<Rightarrow> bool \<Rightarrow> jsstr option \<Rightarrow> db \<Rightarrow> unit result" where
  "reset_check env uid isReset twoFactorCode d =
     (if \<not> isReset then Inr ()
      else case find_user d uid of
             None \<Rightarrow> Inl (PrismaError ''P2025'')
           | Some u \<Rightarrow>
               if \<not> u_twoFactorEnabled u then Inr ()
               else if \<not> truthy twoFactorCode then Inl (Unauthorized ''2FA code required'')
               else if \<not> ke_otpCheck env (the twoFactorCode) (u_twoFactorSecret u) then Inl (Unauthorized ''Invalid 2FA code'')
               else Inr ())"

definition saveRecoveryKey ::
  "'k key_env \<Rightarrow> id \<Rightarrow> jsstr \<Rightarrow> jsstr \<Rightarrow> bool \<Rightarrow> jsstr option \<Rightarrow> db \<Rightarrow> user result \<times> db" where
  "saveRecoveryKey env uid encryptedBlob salt isReset twoFactorCode d =
     check (reset_check env uid isReset twoFactorCode d)
       (\<lambda>_. update_user uid (\<lambda>u. u\<lparr>u_encryptedPrivateKey := Some encryptedBlob, u_privateKeySalt := Some salt\<rparr>)) d"

definition getRecoveryKey :: "id \<Rightarrow> db \<Rightarrow> (jsstr \<times> jsstr option) result" where
  "getRecoveryKey uid d =
     (case find_user d uid of
        None \<Rightarrow> Inl (NotFound ''No recovery key found'')
      | Some u \<Rightarrow> if \<not> truthy (u_encryptedPrivateKey u) then Inl (NotFound ''No recovery key found'')
                  else Inr (the (u_encryptedPrivateKey u), u_privateKeySalt u))"

definition hasRecoveryKey :: "id \<Rightarrow> db \<Rightarrow> bool" where
  "hasRecoveryKey uid d = (case find_user d uid of None \<Rightarrow> False | Some u \<Rightarrow> truthy (u_encryptedPrivateKey u))"

definition publishBundleV2 :: "'k key_env \<Rightarrow> id \<Rightarrow> jsstr \<Rightarrow> time \<Rightarrow> db \<Rightarrow> (id \<times> time) result \<times> db" where
  "publishBundleV2 env uid bundle now d =
     check (verifyKeyBundle env bundle) (\<lambda>_ d.
       if t_find (\<lambda>k. kb_userId k = uid) (db_bundlesV2 d) \<noteq> None
       then (Inr (uid, now), d\<lparr>db_bundlesV2 := t_update (\<lambda>k. kb_userId k = uid)
               (\<lambda>k. k\<lparr>kb_bundle := bundle, kb_updatedAt := now\<rparr>) (db_bundlesV2 d)\<rparr>)
       else if find_user d uid = None then (Inl (PrismaError ''P2003''), d)
       else (Inr (uid, now), d\<lparr>db_bundlesV2 := t_insert
               (\<lambda>i. \<lparr>kb_id = i, kb_userId = uid, kb_bundle = bundle, kb_updatedAt = now\<rparr>) (db_bundlesV2 d)\<rparr>)) d"

definition getBundleV2 :: "id \<Rightarrow> db \<Rightarrow> (id \<times> jsstr \<times> time) result" where
  "getBundleV2 userId d =
     (case t_find (\<lambda>k. kb_userId k = userId) (db_bundlesV2 d) of
        None \<Rightarrow> Inl (NotFound ''V2 key bundle not found'')
      | Some k \<Rightarrow> Inr (kb_userId k, kb_bundle k, kb_updatedAt k))"

definition saveRecoveryV2 :: "'k key_env \<Rightarrow> id \<Rightarrow> jsstr \<Rightarrow> bool \<Rightarrow> jsstr option \<Rightarrow> db \<Rightarrow> user result \<times> db" where
  "saveRecoveryV2 env uid encryptedBlob isReset twoFactorCode d =
     check (reset_check env uid isReset twoFactorCode d)
       (\<lambda>_. update_user uid (\<lambda>u. u\<lparr>u_encryptedPrivateKeyV2 := Some encryptedBlob\<rparr>)) d"

definition getRecoveryV2 :: "id \<Rightarrow> db \<Rightarrow> jsstr result" where
  "getRecoveryV2 uid d =
     (case find_user d uid of
        None \<Rightarrow> Inl (NotFound ''No v2 recovery key found'')
      | Some u \<Rightarrow> if \<not> truthy (u_encryptedPrivateKeyV2 u) then Inl (NotFound ''No v2 recovery key found'')
                  else Inr (the (u_encryptedPrivateKeyV2 u)))"

text \<open>The mail: its recipient, the recipient's nickname and the requester's.\<close>

definition notifyUpgradeV2 :: "'k key_env \<Rightarrow> id \<Rightarrow> id \<Rightarrow> db \<Rightarrow> (jsstr \<times> jsstr \<times> jsstr) result" where
  "notifyUpgradeV2 env requesterId targetUserId d =
     (case find_user d targetUserId of
        None \<Rightarrow> Inl (NotFound ''Target user not found'')
      | Some target \<Rightarrow>
          if u_email target = [] then Inl (NotFound ''Target user not found'')
          else if \<not> ke_mailOk env (u_email target) then Inl (ThrownError ''mail'')
          else Inr (u_email target, u_nickname target,
                    case find_user d requesterId of None \<Rightarrow> js ''Your contact'' | Some r \<Rightarrow> u_nickname r))"

section \<open>Devices\<close>

definition MAX_DEVICES :: nat where "MAX_DEVICES = 5"

definition register_device ::
  "'k key_env \<Rightarrow> id \<Rightarrow> jsstr \<Rightarrow> jsstr option \<Rightarrow> time \<Rightarrow> db \<Rightarrow> id result \<times> db" where
  "register_device env uid bundle deviceName now d =
     check (verifyKeyBundle env bundle) (\<lambda>_ d.
       case t_find (\<lambda>x. d_userId x = uid \<and> d_bundle x = bundle) (db_devices d) of
         Some existing \<Rightarrow>
           (Inr (d_id existing),
            d\<lparr>db_devices := t_update (\<lambda>x. d_id x = d_id existing) (\<lambda>x. x\<lparr>d_lastSeenAt := now\<rparr>) (db_devices d)\<rparr>)
       | None \<Rightarrow>
           if MAX_DEVICES \<le> t_count (\<lambda>x. d_userId x = uid) (db_devices d)
           then (Inl (BadRequest ''Maximum 5 devices per account''), d)
           else if find_user d uid = None then (Inl (PrismaError ''P2003''), d)
           else (Inr (nxt (db_devices d)),
                 d\<lparr>db_devices := t_insert (\<lambda>i. \<lparr>d_id = i, d_userId = uid, d_bundle = bundle, d_deviceName = deviceName,
                       d_createdAt = now, d_lastSeenAt = now\<rparr>) (db_devices d)\<rparr>)) d"

definition listMine :: "id \<Rightarrow> db \<Rightarrow> (id \<times> jsstr option \<times> time \<times> time) list" where
  "listMine uid d = map (\<lambda>x. (d_id x, d_deviceName x, d_createdAt x, d_lastSeenAt x))
     (sort_key d_createdAt (t_all (\<lambda>x. d_userId x = uid) (db_devices d)))"

definition remove_device :: "id \<Rightarrow> id \<Rightarrow> db \<Rightarrow> unit result \<times> db" where
  "remove_device uid deviceId d =
     (case find_device d deviceId of
        None \<Rightarrow> (Inl (NotFound ''Device not found''), d)
      | Some x \<Rightarrow>
          if d_userId x \<noteq> uid then (Inl (BadRequest ''Not your device''), d)
          else (Inr (), delete_devices (\<lambda>x. d_id x = deviceId) d))"

definition touch_device :: "id \<Rightarrow> time \<Rightarrow> db \<Rightarrow> db" where
  "touch_device deviceId now d =
     d\<lparr>db_devices := t_update (\<lambda>x. d_id x = deviceId) (\<lambda>x. x\<lparr>d_lastSeenAt := now\<rparr>) (db_devices d)\<rparr>"

definition getBundle :: "id \<Rightarrow> db \<Rightarrow> (id \<times> jsstr) option" where
  "getBundle deviceId d = map_option (\<lambda>x. (d_id x, d_bundle x)) (find_device d deviceId)"

definition getUserBundles :: "id \<Rightarrow> db \<Rightarrow> (id \<times> jsstr) list" where
  "getUserBundles uid d = map (\<lambda>x. (d_id x, d_bundle x)) (t_all (\<lambda>x. d_userId x = uid) (db_devices d))"

section \<open>Endpoints\<close>

definition valid_code_opt :: "jsstr option \<Rightarrow> bool" where
  "valid_code_opt code \<longleftrightarrow> pred_option (len_between 6 6) code"

definition ctl_publish :: "id \<Rightarrow> jsstr \<Rightarrow> time \<Rightarrow> db \<Rightarrow> unit result \<times> db" where
  "ctl_publish uid publicKey now d =
     check (ensure (len_between 43 44 publicKey) bad_body) (\<lambda>_. publishKey uid publicKey now) d"

definition ctl_saveRecovery ::
  "'k key_env \<Rightarrow> id \<Rightarrow> jsstr \<Rightarrow> jsstr \<Rightarrow> bool option \<Rightarrow> jsstr option \<Rightarrow> db \<Rightarrow> user result \<times> db" where
  "ctl_saveRecovery env uid encryptedBlob salt isReset code d =
     check (ensure (encryptedBlob \<noteq> [] \<and> salt \<noteq> [] \<and> valid_code_opt code) bad_body)
       (\<lambda>_. saveRecoveryKey env uid encryptedBlob salt (case isReset of None \<Rightarrow> False | Some b \<Rightarrow> b) code) d"

definition ctl_publishBundleV2 :: "'k key_env \<Rightarrow> id \<Rightarrow> jsstr \<Rightarrow> time \<Rightarrow> db \<Rightarrow> (id \<times> time) result \<times> db" where
  "ctl_publishBundleV2 env uid bundle now d =
     check (ensure (len_between 200 300 bundle) bad_body) (\<lambda>_. publishBundleV2 env uid bundle now) d"

definition ctl_saveRecoveryV2 ::
  "'k key_env \<Rightarrow> id \<Rightarrow> jsstr \<Rightarrow> bool option \<Rightarrow> jsstr option \<Rightarrow> db \<Rightarrow> user result \<times> db" where
  "ctl_saveRecoveryV2 env uid encryptedBlob isReset code d =
     check (ensure (encryptedBlob \<noteq> [] \<and> valid_code_opt code) bad_body)
       (\<lambda>_. saveRecoveryV2 env uid encryptedBlob (case isReset of None \<Rightarrow> False | Some b \<Rightarrow> b) code) d"

definition ctl_getDeviceBundle :: "id \<Rightarrow> db \<Rightarrow> (id \<times> jsstr) result" where
  "ctl_getDeviceBundle deviceId d =
     (case getBundle deviceId d of None \<Rightarrow> Inl (NotFound ''Device bundle not found'') | Some r \<Rightarrow> Inr r)"

definition ctl_register_device ::
  "'k key_env \<Rightarrow> id \<Rightarrow> jsstr \<Rightarrow> jsstr option \<Rightarrow> time \<Rightarrow> db \<Rightarrow> id result \<times> db" where
  "ctl_register_device env uid bundle deviceName now d =
     check (ensure (pred_option (\<lambda>n. char_count n \<le> 200) deviceName) bad_body)
       (\<lambda>_. register_device env uid bundle deviceName now) d"

section \<open>The invariant\<close>

datatype key_op =
    PublishKey id jsstr time
  | SaveRecovery id jsstr jsstr "bool option" "jsstr option"
  | PublishBundle id jsstr time
  | SaveRecoveryBlob id jsstr "bool option" "jsstr option"
  | RegisterDevice id jsstr "jsstr option" time
  | RemoveDevice id id
  | TouchDevice id time
  | RemoveAccount id

fun key_step :: "'k key_env \<Rightarrow> db \<Rightarrow> key_op \<Rightarrow> db" where
  "key_step env d (PublishKey uid k now) = snd (ctl_publish uid k now d)"
| "key_step env d (SaveRecovery uid b salt r c) = snd (ctl_saveRecovery env uid b salt r c d)"
| "key_step env d (PublishBundle uid b now) = snd (ctl_publishBundleV2 env uid b now d)"
| "key_step env d (SaveRecoveryBlob uid b r c) = snd (ctl_saveRecoveryV2 env uid b r c d)"
| "key_step env d (RegisterDevice uid b n now) = snd (ctl_register_device env uid b n now d)"
| "key_step env d (RemoveDevice uid i) = snd (remove_device uid i d)"
| "key_step env d (TouchDevice i now) = touch_device i now d"
| "key_step env d (RemoveAccount uid) = delete_user uid d"

definition verified :: "'k key_env \<Rightarrow> jsstr \<Rightarrow> bool" where
  "verified env bundle \<longleftrightarrow> verifyKeyBundle env bundle = Inr ()"

definition keys_inv :: "'k key_env \<Rightarrow> db \<Rightarrow> bool" where
  "keys_inv env d \<longleftrightarrow> tbl_wf d_id (db_devices d)
     \<and> distinct (map pk_userId (rows (db_pubKeys d))) \<and> distinct (map kb_userId (rows (db_bundlesV2 d)))
     \<and> (\<forall>uid. t_count (\<lambda>x. d_userId x = uid) (db_devices d) \<le> MAX_DEVICES)
     \<and> (\<forall>x\<in>set (rows (db_devices d)). verified env (d_bundle x))
     \<and> (\<forall>k\<in>set (rows (db_bundlesV2 d)). verified env (kb_bundle k))"

lemma update_user_tables:
  "db_devices (snd (update_user uid f d)) = db_devices d" "db_pubKeys (snd (update_user uid f d)) = db_pubKeys d"
  "db_bundlesV2 (snd (update_user uid f d)) = db_bundlesV2 d"
  by (simp_all add: update_user_def split: option.split)

lemma comp_key_update: "(\<And>r. key (f r) = key r) \<Longrightarrow> key \<circ> (\<lambda>r. if P r then f r else r) = key"
  by (auto simp: fun_eq_iff)

lemma t_count_update: "(\<And>r. Q (f r) = Q r) \<Longrightarrow> t_count Q (t_update P f t) = t_count Q t"
proof -
  assume "\<And>r. Q (f r) = Q r"
  then have "length (filter Q (map (\<lambda>r. if P r then f r else r) xs)) = length (filter Q xs)" for xs
    by (induction xs) auto
  then show ?thesis by (simp add: t_count_def)
qed

lemma t_count_delete_le: "t_count Q (t_delete P t) \<le> t_count Q t"
proof -
  have "length (filter Q (filter (\<lambda>r. \<not> P r) xs)) \<le> length (filter Q xs)" for xs by (induction xs) auto
  then show ?thesis by (simp add: t_count_def)
qed

lemma keys_inv_update_device:
  assumes "keys_inv env d" "\<And>x. d_id (f x) = d_id x" "\<And>x. d_userId (f x) = d_userId x" "\<And>x. d_bundle (f x) = d_bundle x"
  shows "keys_inv env (d\<lparr>db_devices := t_update P f (db_devices d)\<rparr>)"
proof -
  have "tbl_wf d_id (t_update P f (db_devices d))" using assms(1,2) by (auto simp: keys_inv_def)
  moreover have "t_count (\<lambda>x. d_userId x = uid) (t_update P f (db_devices d)) = t_count (\<lambda>x. d_userId x = uid) (db_devices d)" for uid
    using assms(3) by (intro t_count_update) simp
  ultimately show ?thesis using assms(1,4) by (auto simp: keys_inv_def)
qed

lemma keys_inv_delete_device:
  assumes "keys_inv env d" "rows (db_devices d') = filter (\<lambda>r. \<not> P r) (rows (db_devices d))" "nxt (db_devices d') = nxt (db_devices d)"
    and "rows (db_pubKeys d') = filter Q (rows (db_pubKeys d))" "rows (db_bundlesV2 d') = filter R (rows (db_bundlesV2 d))"
  shows "keys_inv env d'"
proof -
  have t: "db_devices d' = t_delete P (db_devices d)" using assms(2,3) by (simp add: t_delete_def)
  have "t_count (\<lambda>x. d_userId x = uid) (db_devices d') \<le> MAX_DEVICES" for uid
    unfolding t using assms(1) t_count_delete_le le_trans unfolding keys_inv_def by blast
  then show ?thesis using assms by (auto simp: keys_inv_def t distinct_map_filter)
qed

lemma publishKey_inv: "keys_inv env d \<Longrightarrow> keys_inv env (snd (publishKey uid k now d))"
  by (auto simp: comp_key_update publishKey_def keys_inv_def t_find_None_iff)

lemma publishBundle_inv: "keys_inv env d \<Longrightarrow> keys_inv env (snd (publishBundleV2 env uid b now d))"
  by (cases "verifyKeyBundle env b") (auto simp: comp_key_update publishBundleV2_def keys_inv_def t_find_None_iff verified_def)

lemma register_device_inv: "keys_inv env d \<Longrightarrow> keys_inv env (snd (register_device env uid b n now d))"
proof (cases "verifyKeyBundle env b")
  case (Inr u)
  assume inv: "keys_inv env d"
  have seen: "keys_inv env (d\<lparr>db_devices := t_update P (\<lambda>x. x\<lparr>d_lastSeenAt := now\<rparr>) (db_devices d)\<rparr>)" for P
    using inv by (rule keys_inv_update_device) simp_all
  have new: "keys_inv env (d\<lparr>db_devices := t_insert (\<lambda>i. \<lparr>d_id = i, d_userId = uid, d_bundle = b, d_deviceName = n,
      d_createdAt = now, d_lastSeenAt = now\<rparr>) (db_devices d)\<rparr>)"
    if "\<not> MAX_DEVICES \<le> t_count (\<lambda>x. d_userId x = uid) (db_devices d)"
    using inv that Inr by (auto simp: keys_inv_def t_count_def verified_def)
  show ?thesis using Inr inv seen new by (auto simp: register_device_def split: option.split)
qed (simp add: register_device_def)

lemma delete_user_tables:
  "rows (db_devices (delete_user uid d)) = filter (\<lambda>x. d_userId x \<noteq> uid) (rows (db_devices d))"
  "nxt (db_devices (delete_user uid d)) = nxt (db_devices d)"
  "rows (db_pubKeys (delete_user uid d)) = filter (\<lambda>x. pk_userId x \<noteq> uid) (rows (db_pubKeys d))"
  "rows (db_bundlesV2 (delete_user uid d)) = filter (\<lambda>x. kb_userId x \<noteq> uid) (rows (db_bundlesV2 d))"
  "rows (db_users (delete_user uid d)) = filter (\<lambda>x. u_id x \<noteq> uid) (rows (db_users d))"
  by (simp_all add: delete_user_def delete_devices_def delete_messages_def Let_def)

lemma delete_devices_tables:
  "rows (db_devices (delete_devices P d)) = filter (\<lambda>x. \<not> P x) (rows (db_devices d))"
  "nxt (db_devices (delete_devices P d)) = nxt (db_devices d)" "db_pubKeys (delete_devices P d) = db_pubKeys d"
  "db_bundlesV2 (delete_devices P d) = db_bundlesV2 d" "db_users (delete_devices P d) = db_users d"
  by (simp_all add: delete_devices_def Let_def)

lemma recovery_tables:
  "db_devices (snd (saveRecoveryKey env uid b salt r c d)) = db_devices d"
  "db_pubKeys (snd (saveRecoveryKey env uid b salt r c d)) = db_pubKeys d"
  "db_bundlesV2 (snd (saveRecoveryKey env uid b salt r c d)) = db_bundlesV2 d"
  "db_devices (snd (saveRecoveryV2 env uid b r c d)) = db_devices d"
  "db_pubKeys (snd (saveRecoveryV2 env uid b r c d)) = db_pubKeys d"
  "db_bundlesV2 (snd (saveRecoveryV2 env uid b r c d)) = db_bundlesV2 d"
  by (cases "reset_check env uid r c d"; simp add: saveRecoveryKey_def saveRecoveryV2_def update_user_tables)+

lemma recovery_inv:
  "keys_inv env d \<Longrightarrow> keys_inv env (snd (saveRecoveryKey env' uid b salt r c d))"
  "keys_inv env d \<Longrightarrow> keys_inv env (snd (saveRecoveryV2 env' uid b r c d))"
  by (simp_all add: keys_inv_def recovery_tables)

lemma snd_check_ensure: "snd (check (ensure b e) f d) = (if b then snd (f () d) else d)"
  by simp

lemmas ctl_key_defs = ctl_publish_def ctl_saveRecovery_def ctl_publishBundleV2_def ctl_saveRecoveryV2_def ctl_register_device_def

lemma key_step_inv:
  assumes "keys_inv env d" shows "keys_inv env (key_step env d op)"
proof (cases op)
  case (RemoveDevice uid i)
  have "keys_inv env (delete_devices (\<lambda>x. d_id x = i) d)"
    by (rule keys_inv_delete_device[OF assms, where P = "\<lambda>x. d_id x = i" and Q = "\<lambda>_. True" and R = "\<lambda>_. True"])
      (simp_all add: delete_devices_tables)
  then show ?thesis using assms by (simp add: RemoveDevice remove_device_def split: option.split)
next
  case (RemoveAccount uid)
  have "keys_inv env (delete_user uid d)"
    by (rule keys_inv_delete_device[OF assms, where P = "\<lambda>x. d_userId x = uid"]) (simp_all add: delete_user_tables)
  then show ?thesis by (simp add: RemoveAccount)
next
  case (TouchDevice i now)
  then show ?thesis using keys_inv_update_device[OF assms] by (simp add: touch_device_def)
qed (use assms in \<open>simp_all add: ctl_key_defs snd_check_ensure publishKey_inv publishBundle_inv register_device_inv
      recovery_inv\<close>)

interpretation keys: run_invariant "key_step env" "\<lambda>_ _. True" "keys_inv env" for env
  by unfold_locales (simp add: key_step_inv)

section \<open>Properties\<close>

definition demo_keys :: "unit key_env" where
  "demo_keys = \<lparr>ke_base64 = (\<lambda>s. s), ke_publicKey = (\<lambda>_. Some ()), ke_verify = (\<lambda>m k sig. sig = m @ m), ke_otpCheck = (\<lambda>c _. c = [1]),
     ke_mailOk = (\<lambda>_. True)\<rparr>"

text \<open>The state after the calls: one owner at a time may register devices and publish bundles.\<close>

lemma keys_run_inv: "keys_inv env d \<Longrightarrow> keys_inv env (run (key_step env) d ops)"
  by (rule keys.run_inv) simp_all

text \<open>C34. Whatever calls were made, every bundle handed out to a peer (of a device, of all devices of a user, or a user's identity
  bundle) passes verification: it has 161 bytes and its prekey is signed by its identity key; and no user has more than five
  devices.\<close>

theorem served_bundles_verified:
  assumes "keys_inv env d" "d' = run (key_step env) d ops"
  shows "(\<forall>i b. ctl_getDeviceBundle did d' = Inr (i, b) \<longrightarrow> verified env b)
    \<and> list_all (\<lambda>(i, b). verified env b) (getUserBundles uid d') \<and> length (getUserBundles uid d') \<le> 5
    \<and> (\<forall>v b t. getBundleV2 uid d' = Inr (v, b, t) \<longrightarrow> v = uid \<and> verified env b)"
proof -
  have inv: "keys_inv env d'" unfolding assms(2) using assms(1) by (rule keys_run_inv)
  have "length (getUserBundles uid d') \<le> 5"
    using inv by (auto simp: keys_inv_def getUserBundles_def t_all_def t_count_def MAX_DEVICES_def)
  then show ?thesis
    using inv by (auto simp: keys_inv_def ctl_getDeviceBundle_def getBundle_def getUserBundles_def getBundleV2_def find_device_def
        list_all_iff split: option.splits dest!: t_find_SomeD)
qed

definition key_actor :: "key_op \<Rightarrow> id option" where
  "key_actor op = (case op of PublishKey uid _ _ \<Rightarrow> Some uid | SaveRecovery uid _ _ _ _ \<Rightarrow> Some uid | PublishBundle uid _ _ \<Rightarrow> Some uid
     | SaveRecoveryBlob uid _ _ _ \<Rightarrow> Some uid | RegisterDevice uid _ _ _ \<Rightarrow> Some uid | RemoveDevice uid _ \<Rightarrow> Some uid
     | TouchDevice _ _ \<Rightarrow> None | RemoveAccount uid \<Rightarrow> Some uid)"

text \<open>What other people's encryption to a user depends on, and what the user's recovery depends on.\<close>

definition key_material :: "id \<Rightarrow> db \<Rightarrow> (id \<times> jsstr) list \<times> jsstr list \<times> jsstr list \<times> (jsstr option \<times> jsstr option \<times> jsstr option) option" where
  "key_material v d = (getUserBundles v d, map pk_publicKey (t_all (\<lambda>k. pk_userId k = v) (db_pubKeys d)),
     map kb_bundle (t_all (\<lambda>k. kb_userId k = v) (db_bundlesV2 d)),
     map_option (\<lambda>u. (u_encryptedPrivateKey u, u_privateKeySalt u, u_encryptedPrivateKeyV2 u)) (find_user d v))"

lemma t_all_update_other:
  assumes "v \<noteq> uid" "\<And>x. g (f x) = g x"
  shows "t_all (\<lambda>x. g x = v) (t_update (\<lambda>x. g x = uid) f t) = t_all (\<lambda>x. g x = v) t"
proof -
  have "filter (\<lambda>x. g x = v) (map (\<lambda>r. if g r = uid then f r else r) xs) = filter (\<lambda>x. g x = v) xs" for xs
    using assms by (induction xs) auto
  then show ?thesis by (simp add: t_all_def)
qed

lemma t_all_insert_other: "\<not> Q (f (nxt t)) \<Longrightarrow> t_all Q (t_insert f t) = t_all Q t"
  by (simp add: t_all_def)

lemma bundles_touch:
  "map (\<lambda>x. (d_id x, d_bundle x)) (t_all (\<lambda>x. d_userId x = v) (t_update P (\<lambda>x. x\<lparr>d_lastSeenAt := now\<rparr>) t))
    = map (\<lambda>x. (d_id x, d_bundle x)) (t_all (\<lambda>x. d_userId x = v) t)"
proof -
  have "map (\<lambda>x. (d_id x, d_bundle x)) (filter (\<lambda>x. d_userId x = v) (map (\<lambda>r. if P r then r\<lparr>d_lastSeenAt := now\<rparr> else r) xs))
      = map (\<lambda>x. (d_id x, d_bundle x)) (filter (\<lambda>x. d_userId x = v) xs)" for xs by (induction xs) auto
  then show ?thesis by (simp add: t_all_def)
qed

lemma find_user_update_other:
  assumes "\<And>u. u_id (f u) = u_id u" "v \<noteq> uid"
  shows "find_user (snd (update_user uid f d)) v = find_user d v"
proof (cases "find_user d uid")
  case (Some u)
  then have "find_user (snd (update_user uid f d)) v = map_option (\<lambda>u. if u_id u = uid then f u else u) (find_user d v)"
    using find_user_update[of f v uid "db_users d"] assms(1) by (simp add: update_user_def find_user_def)
  then show ?thesis using assms(2) by (cases "find_user d v") (auto dest: find_user_SomeD)
qed (simp add: update_user_def)

lemma recovery_material:
  assumes "v \<noteq> uid"
  shows "key_material v (snd (saveRecoveryKey env uid b salt r c d)) = key_material v d"
    "key_material v (snd (saveRecoveryV2 env uid b r c d)) = key_material v d"
proof -
  have find: "find_user (snd (saveRecoveryKey env uid b salt r c d)) v = find_user d v"
      "find_user (snd (saveRecoveryV2 env uid b r c d)) v = find_user d v"
    by (cases "reset_check env uid r c d"; simp add: saveRecoveryKey_def saveRecoveryV2_def find_user_update_other assms)+
  show "key_material v (snd (saveRecoveryKey env uid b salt r c d)) = key_material v d"
    "key_material v (snd (saveRecoveryV2 env uid b r c d)) = key_material v d"
    by (simp_all add: key_material_def getUserBundles_def recovery_tables find)
qed

lemma publish_material:
  assumes "v \<noteq> uid"
  shows "key_material v (snd (publishKey uid k now d)) = key_material v d"
    "key_material v (snd (publishBundleV2 env uid b now d)) = key_material v d"
proof -
  show "key_material v (snd (publishKey uid k now d)) = key_material v d"
    using assms not_sym[OF assms] by (auto simp: publishKey_def key_material_def getUserBundles_def find_user_def t_all_insert_other
        t_all_update_other[of _ _ pk_userId])
  show "key_material v (snd (publishBundleV2 env uid b now d)) = key_material v d"
    using assms not_sym[OF assms] by (cases "verifyKeyBundle env b")
      (auto simp: publishBundleV2_def key_material_def getUserBundles_def find_user_def t_all_insert_other
        t_all_update_other[of _ _ kb_userId])
qed

lemma touch_material: "key_material w (touch_device i now d) = key_material w d"
  by (simp add: touch_device_def key_material_def getUserBundles_def find_user_def bundles_touch)

lemma device_material:
  assumes "v \<noteq> uid"
  shows "key_material v (snd (register_device env uid b n now d)) = key_material v d"
    "tbl_wf d_id (db_devices d) \<Longrightarrow> key_material v (snd (remove_device uid i d)) = key_material v d"
proof -
  show "key_material v (snd (register_device env uid b n now d)) = key_material v d"
    using assms by (cases "verifyKeyBundle env b")
      (auto simp: register_device_def key_material_def getUserBundles_def find_user_def bundles_touch t_all_insert_other split: option.split)
  assume ids: "tbl_wf d_id (db_devices d)"
  have keep: "t_all (\<lambda>x. d_userId x = v) (db_devices (delete_devices (\<lambda>x. d_id x = i) d)) = t_all (\<lambda>x. d_userId x = v) (db_devices d)"
    if "x \<in> set (rows (db_devices d))" "d_id x = i" "d_userId x = uid" for x
    using that assms tbl_wf_key_eq[OF ids] by (auto simp: t_all_def delete_devices_tables intro!: filter_cong)
  show "key_material v (snd (remove_device uid i d)) = key_material v d"
    using keep by (auto simp: remove_device_def key_material_def getUserBundles_def find_user_def delete_devices_tables t_find_def
        split: option.split dest!: find_device_SomeD)
qed

lemma filter_other_key: "v \<noteq> uid \<Longrightarrow> filter (\<lambda>x. g x \<noteq> uid \<and> g x = v) xs = filter (\<lambda>x. g x = v) xs"
  by (auto intro: filter_cong)

lemma find_filter_other_key:
  "v \<noteq> uid \<Longrightarrow> List.find (\<lambda>u. g u = v) (filter (\<lambda>u. g u \<noteq> uid) us) = List.find (\<lambda>u. g u = v) us"
  by (induction us) auto

text \<open>C35. A call changes the keys, the bundles, the devices and the recovery data of the calling user only.\<close>

theorem key_authority:
  assumes "keys_inv env d" "key_actor op \<noteq> Some v"
  shows "key_material v (key_step env d op) = key_material v d"
proof (cases op)
  case (RemoveAccount uid)
  then have "v \<noteq> uid" using assms(2) by (auto simp: key_actor_def)
  then show ?thesis
    by (simp add: filter_other_key find_filter_other_key RemoveAccount key_material_def getUserBundles_def find_user_def t_find_def t_all_def delete_user_tables)
qed (use assms in \<open>auto simp: key_actor_def ctl_key_defs snd_check_ensure recovery_material publish_material device_material touch_material keys_inv_def\<close>)

definition demo_bundle :: jsstr where
  "demo_bundle = replicate 161 7"

lemma demo_bundle_verified: "verifyKeyBundle demo_keys demo_bundle = Inr ()"
  by (simp add: verifyKeyBundle_def demo_bundle_def demo_keys_def decodeB64Url_def BUNDLE_BYTES_def subarray_def Let_def
      flip: replicate_add)

lemma keys_inv_chat: "keys_inv env chat_db"
  by (simp add: keys_inv_def chat_defs t_count_def)

theorem served_bundles_verified_witness:
  "getUserBundles 1 (run (key_step demo_keys) chat_db [RegisterDevice 1 demo_bundle None 7]) = [(1, demo_bundle)]
   \<and> verified demo_keys demo_bundle"
proof -
  have "getUserBundles 1 (run (key_step demo_keys) chat_db [RegisterDevice 1 demo_bundle None 7]) = [(1, demo_bundle)]"
    by (simp add: ctl_register_device_def register_device_def demo_bundle_verified getUserBundles_def chat_defs t_all_def t_count_def
        MAX_DEVICES_def)
  then show ?thesis
    using served_bundles_verified[OF keys_inv_chat[of demo_keys] refl, of 1 "[RegisterDevice 1 demo_bundle None 7]" 1] by simp
qed

theorem key_authority_witness:
  "key_material 2 (key_step demo_keys chat_db (RegisterDevice 1 demo_bundle None 7)) = key_material 2 chat_db"
  by (rule key_authority[OF keys_inv_chat]) (simp add: key_actor_def)

end
