(* ===== verification/Reports.thy ===== *)
theory Reports
  imports Storage Demo
begin

text \<open>
  Reports to the administrators, \<open>server/src/reports/\<close>, and the user profile endpoints, \<open>server/src/users/\<close>.
  \<open>uid\<close> is the user of the JWT guard.  A report's metadata is a JSON object given by the reporter; the model keeps
  the three fields that some code reads or declares.  The administrators' address is a parameter, as is the storage.
\<close>

section \<open>Reports\<close>

record report_dto =
  rt_type :: report_type
  rt_title :: jsstr
  rt_description :: jsstr
  rt_metadata :: "report_meta option"

record report_mail =
  rl_to :: jsstr
  rl_id :: id
  rl_type :: report_type
  rl_title :: jsstr
  rl_nickname :: jsstr
  rl_email :: jsstr
  rl_page :: jsstr

definition empty_meta :: report_meta where
  "empty_meta = \<lparr>rm_page = None, rm_userAgent = None, rm_imageUrl = None\<rparr>"

text \<open>The result carries the mail to the administrators, which is sent without waiting for it.\<close>

definition create_report :: "jsstr option \<Rightarrow> id \<Rightarrow> report_dto \<Rightarrow> time \<Rightarrow> db \<Rightarrow> (id \<times> report_mail option) result \<times> db" where
  "create_report adminEmail uid dto now d =
     (case find_user d uid of
        None \<Rightarrow> (Inl (PrismaError ''P2003''), d)
      | Some u \<Rightarrow>
          let meta = (case rt_metadata dto of None \<Rightarrow> empty_meta | Some m \<Rightarrow> m);
              i = nxt (db_reports d);
              mail = (if truthy adminEmail
                      then Some \<lparr>rl_to = the adminEmail, rl_id = i, rl_type = rt_type dto, rl_title = rt_title dto,
                                 rl_nickname = u_nickname u, rl_email = u_email u,
                                 rl_page = (case rm_page meta of None \<Rightarrow> [8212] | Some p \<Rightarrow> p)\<rparr>
                      else None)
          in (Inr (i, mail),
              d\<lparr>db_reports := t_insert (\<lambda>i. \<lparr>rp_id = i, rp_userId = uid, rp_type = rt_type dto, rp_title = rt_title dto,
                    rp_description = rt_description dto, rp_metadata = Some meta, rp_status = NEW, rp_adminNote = None,
                    rp_createdAt = now\<rparr>) (db_reports d)\<rparr>))"

record report_query =
  rq_status :: "report_status option"
  rq_type :: "report_type option"
  rq_page :: "jsstr option"
  rq_take :: "jsstr option"

record report_page =
  pg_reports :: "(report \<times> user option) list"
  pg_total :: nat
  pg_page :: int
  pg_take :: int

definition report_matches :: "report_query \<Rightarrow> report \<Rightarrow> bool" where
  "report_matches q r \<longleftrightarrow> (case rq_status q of None \<Rightarrow> True | Some s \<Rightarrow> rp_status r = s)
     \<and> (case rq_type q of None \<Rightarrow> True | Some t \<Rightarrow> rp_type r = t)"

text \<open>Prisma's \<open>skip\<close> and \<open>take\<close>: a negative \<open>skip\<close> is refused, a negative \<open>take\<close> counts from the end.\<close>

definition prisma_slice :: "int \<Rightarrow> int \<Rightarrow> 'a list \<Rightarrow> 'a list" where
  "prisma_slice skip n xs =
     (if 0 \<le> n then take (nat n) (drop (nat skip) xs)
      else rev (take (nat (- n)) (drop (nat skip) (rev xs))))"

definition find_reports :: "report_query \<Rightarrow> db \<Rightarrow> report_page result" where
  "find_reports q d =
     (case (parseInt (case rq_take q of None \<Rightarrow> js ''50'' | Some s \<Rightarrow> s), parseInt (case rq_page q of None \<Rightarrow> js ''1'' | Some s \<Rightarrow> s)) of
        (Some t, Some p) \<Rightarrow>
          let n = min t 100; page = max p 1; skip = (page - 1) * n;
              matching = t_all (report_matches q) (db_reports d)
          in if skip < 0 then Inl (PrismaError ''Invalid value for skip argument'')
             else Inr \<lparr>pg_reports = map (\<lambda>r. (r, find_user d (rp_userId r)))
                          (prisma_slice skip n (sort_key (\<lambda>r. - rp_createdAt r) matching)),
                       pg_total = length matching, pg_page = page, pg_take = n\<rparr>
      | _ \<Rightarrow> Inl (PrismaError ''Invalid value NaN''))"

definition update_report ::
  "storage_env \<Rightarrow> id \<Rightarrow> report_status option \<Rightarrow> jsstr option \<Rightarrow> db \<Rightarrow> store \<Rightarrow> report result \<times> db \<times> store" where
  "update_report env reportId status adminNote d st =
     (case t_find (\<lambda>r. rp_id r = reportId) (db_reports d) of
        None \<Rightarrow> (Inl (NotFound ''Report not found''), d, st)
      | Some existing \<Rightarrow>
          let st = (if status = Some CLOSED
                    then (case rp_metadata existing of
                            None \<Rightarrow> st
                          | Some meta \<Rightarrow> (case rm_imageUrl meta of None \<Rightarrow> st | Some u \<Rightarrow> deleteFile env u st))
                    else st);
              change = (\<lambda>r. r\<lparr>rp_status := (case status of None \<Rightarrow> rp_status r | Some s \<Rightarrow> s),
                             rp_adminNote := (case adminNote of None \<Rightarrow> rp_adminNote r | Some n \<Rightarrow> Some n)\<rparr>)
          in (Inr (change existing), d\<lparr>db_reports := t_update (\<lambda>r. rp_id r = reportId) change (db_reports d)\<rparr>, st))"

section \<open>Endpoints of reports\<close>

definition assert_site_admin :: "id \<Rightarrow> db \<Rightarrow> unit result" where
  "assert_site_admin uid d =
     ensure (case find_user d uid of None \<Rightarrow> False | Some u \<Rightarrow> u_role u = ADMIN_ROLE) (Forbidden ''Admin only'')"

definition valid_report :: "report_dto \<Rightarrow> bool" where
  "valid_report dto \<longleftrightarrow> len_between 5 200 (rt_title dto) \<and> len_between 10 2000 (rt_description dto)"

definition ctl_create_report ::
  "jsstr option \<Rightarrow> id \<Rightarrow> report_dto \<Rightarrow> time \<Rightarrow> db \<Rightarrow> (id \<times> report_mail option) result \<times> db" where
  "ctl_create_report adminEmail uid dto now d =
     check (ensure (valid_report dto) bad_body) (\<lambda>_. create_report adminEmail uid dto now) d"

definition ctl_find_reports :: "id \<Rightarrow> report_query \<Rightarrow> db \<Rightarrow> report_page result" where
  "ctl_find_reports uid q d = rbind (assert_site_admin uid d) (\<lambda>_. find_reports q d)"

definition ctl_update_report ::
  "storage_env \<Rightarrow> id \<Rightarrow> id \<Rightarrow> report_status option \<Rightarrow> jsstr option \<Rightarrow> db \<Rightarrow> store \<Rightarrow> report result \<times> db \<times> store" where
  "ctl_update_report env uid reportId status adminNote d st =
     (if \<not> pred_option (\<lambda>n. char_count n \<le> 1000) adminNote then (Inl bad_body, d, st)
      else case assert_site_admin uid d of
             Inl e \<Rightarrow> (Inl e, d, st)
           | Inr _ \<Rightarrow> update_report env reportId status adminNote d st)"

section \<open>Profiles\<close>

record profile =
  pf_id :: id
  pf_nickname :: jsstr
  pf_email :: jsstr
  pf_isOnline :: bool
  pf_lastSeen :: time
  pf_avatarUrl :: "jsstr option"

definition find_all_users :: "id \<Rightarrow> db \<Rightarrow> profile list" where
  "find_all_users uid d =
     map (\<lambda>u. \<lparr>pf_id = u_id u, pf_nickname = u_nickname u, pf_email = u_email u, pf_isOnline = u_isOnline u,
               pf_lastSeen = u_lastSeen u, pf_avatarUrl = u_avatarUrl u\<rparr>)
       (sort_key (\<lambda>u. \<not> u_isOnline u) (t_all (\<lambda>u. u_id u \<noteq> uid) (db_users d)))"

definition find_one_user :: "id \<Rightarrow> db \<Rightarrow> (id \<times> jsstr \<times> bool) option" where
  "find_one_user i d = map_option (\<lambda>u. (u_id u, u_nickname u, u_isOnline u)) (find_user d i)"

definition updateAvatar :: "id \<Rightarrow> jsstr \<Rightarrow> db \<Rightarrow> user result \<times> db" where
  "updateAvatar uid url = update_user uid (\<lambda>u. u\<lparr>u_avatarUrl := Some url\<rparr>)"

definition updateStatusEmoji :: "id \<Rightarrow> jsstr option \<Rightarrow> db \<Rightarrow> user result \<times> db" where
  "updateStatusEmoji uid emoji = update_user uid (\<lambda>u. u\<lparr>u_statusEmoji := emoji\<rparr>)"

definition ctl_uploadAvatar ::
  "storage_env \<Rightarrow> jsstr \<Rightarrow> upload_file option \<Rightarrow> id \<Rightarrow> db \<Rightarrow> store \<Rightarrow> jsstr result \<times> db \<times> store" where
  "ctl_uploadAvatar env uuid f uid d st =
     (case f of
        None \<Rightarrow> (Inl (BadRequest ''No file provided''), d, st)
      | Some f \<Rightarrow>
          case uploadAvatar env uuid f uid st of
            (Inl e, st) \<Rightarrow> (Inl e, d, st)
          | (Inr url, st) \<Rightarrow>
              (case updateAvatar uid url d of (Inl e, d) \<Rightarrow> (Inl e, d, st) | (Inr _, d) \<Rightarrow> (Inr url, d, st)))"

section \<open>Properties\<close>

lemma concat_pages: "concat (map (\<lambda>i. take n (drop (i * n) xs)) [0..<k]) = take (k * n) xs"
proof (induction k)
  case (Suc k)
  then show ?case using take_add[of "k * n" n xs] by (simp add: add.commute)
qed simp

lemma parseInt_nat_str [simp]: "parseInt (nat_str n) = Some (int n)"
proof -
  have digits: "list_all digit (nat_str n)" using nat_str_value_aux by blast
  have ne: "nat_str n \<noteq> []" by (simp add: nat_str.simps[of n])
  then have "digit (hd (nat_str n))" using digits by (cases "nat_str n") auto
  then have hd: "\<not> js_space (hd (nat_str n))" "hd (nat_str n) \<noteq> 45" "hd (nat_str n) \<noteq> 43"
    by (auto simp: digit_def js_space_def)
  then have dw: "dropWhile js_space (nat_str n) = nat_str n" by (intro dropWhile_id) auto
  have tw: "takeWhile digit (nat_str n) = nat_str n" using digits by (simp add: list_all_iff takeWhile_eq_all_conv)
  show ?thesis using hd ne by (simp add: parseInt_def Let_def dw tw)
qed

text \<open>Only a site administrator can list or change reports (another caller changes nothing and removes no file); the pages
  of a listing with a page size from 1 to 100, put together, are the matching reports, newest first, without gap or repetition.\<close>

theorem report_pages:
  assumes "u_role u = ADMIN_ROLE" "find_user d uid = Some u" "1 \<le> n" "n \<le> 100"
  shows "concat (map (\<lambda>i. case ctl_find_reports uid (q\<lparr>rq_take := Some (nat_str n), rq_page := Some (nat_str (i + 1))\<rparr>) d of
             Inl e \<Rightarrow> [] | Inr p \<Rightarrow> map fst (pg_reports p)) [0..<k])
         = take (k * n) (sort_key (\<lambda>r. - rp_createdAt r) (t_all (report_matches q) (db_reports d)))
    \<and> (assert_site_admin v d \<noteq> Inr () \<longrightarrow>
         ctl_find_reports v q d = Inl (Forbidden ''Admin only'')
       \<and> snd (ctl_update_report env v i status note d st) = (d, st))"
proof -
  have m: "report_matches (q\<lparr>rq_take := a, rq_page := b\<rparr>) = report_matches q" for a b
    by (simp add: report_matches_def fun_eq_iff)
  have "(case ctl_find_reports uid (q\<lparr>rq_take := Some (nat_str n), rq_page := Some (nat_str (i + 1))\<rparr>) d of
             Inl e \<Rightarrow> [] | Inr p \<Rightarrow> map fst (pg_reports p))
      = take n (drop (i * n) (sort_key (\<lambda>r. - rp_createdAt r) (t_all (report_matches q) (db_reports d))))" for i
    using assms by (simp add: ctl_find_reports_def assert_site_admin_def find_reports_def prisma_slice_def m Let_def nat_mult_distrib o_def
        flip: of_nat_mult)
  then show ?thesis
    by (auto simp: concat_pages ctl_find_reports_def ctl_update_report_def assert_site_admin_def ensure_def rbind_def)
qed

text \<open>Closing a report removes from the storage whatever object the reporter named as its image: the path is not checked
  against what the reporter uploaded.\<close>

theorem closing_removes_named_file:
  assumes "ctl_create_report mail uid dto now d = (Inr (i, m), d')" "rt_metadata dto = Some meta"
    and "rm_imageUrl meta = Some (proxy_url env path)" "path \<noteq> []" "tbl_wf rp_id (db_reports d)"
    and "find_user d admin = Some u" "u_role u = ADMIN_ROLE"
  shows "st_removed (snd (snd (ctl_update_report env admin i (Some CLOSED) None d' st))) = st_removed st @ [path]"
proof -
  have new: "d' = d\<lparr>db_reports := t_insert (\<lambda>i. \<lparr>rp_id = i, rp_userId = uid, rp_type = rt_type dto, rp_title = rt_title dto,
        rp_description = rt_description dto, rp_metadata = Some meta, rp_status = NEW, rp_adminNote = None,
        rp_createdAt = now\<rparr>) (db_reports d)\<rparr>" "i = nxt (db_reports d)"
    using assms(1,2) by (auto simp: ctl_create_report_def create_report_def Let_def split: option.splits if_splits)
  have "List.find (\<lambda>r. rp_id r = nxt (db_reports d)) (rows (db_reports d)) = None"
    using assms(5) by (auto simp: find_None_iff tbl_wf_def)
  then show ?thesis
    using assms(3,4,6,7) by (simp add: new ctl_update_report_def assert_site_admin_def update_report_def t_find_def find_append find_user_def
        deleteFile_def Let_def)
qed

definition admin_db :: db where
  "admin_db = chat_db\<lparr>db_users := \<lparr>rows = [(chat_user 1)\<lparr>u_role := ADMIN_ROLE\<rparr>, chat_user 2], nxt = 3\<rparr>\<rparr>"

definition demo_report :: report_dto where
  "demo_report = \<lparr>rt_type = BUG, rt_title = [66, 66, 66, 66, 66], rt_description = [66, 66, 66, 66, 66, 66, 66, 66, 66, 66],
     rt_metadata = Some (empty_meta\<lparr>rm_imageUrl := Some (proxy_url demo_storage [97])\<rparr>)\<rparr>"

lemma admin_db_users: "find_user admin_db 1 = Some ((chat_user 1)\<lparr>u_role := ADMIN_ROLE\<rparr>)" "find_user admin_db 2 = Some (chat_user 2)"
  by (simp_all add: admin_db_def chat_defs)

lemma admin_db_reports: "db_reports admin_db = t_empty"
  by (simp add: admin_db_def chat_db_def empty_db_def)

lemma demo_report_created:
  "\<exists>d'. ctl_create_report None 2 demo_report 9 admin_db = (Inr (1, None), d')"
  by (simp add: ctl_create_report_def create_report_def demo_report_def valid_report_def len_between_def  admin_db_users admin_db_reports Let_def)

theorem report_pages_witness:
  "concat (map (\<lambda>i. case ctl_find_reports 1 (\<lparr>rq_status = Some NEW, rq_type = None, rq_page = None, rq_take = None\<rparr>
       \<lparr>rq_take := Some (nat_str 1), rq_page := Some (nat_str (i + 1))\<rparr>) (snd (ctl_create_report None 2 demo_report 9 admin_db)) of
       Inl e \<Rightarrow> [] | Inr p \<Rightarrow> map fst (pg_reports p)) [0..<1])
   = take (1 * 1) (sort_key (\<lambda>r. - rp_createdAt r) (t_all (report_matches \<lparr>rq_status = Some NEW, rq_type = None, rq_page = None, rq_take = None\<rparr>)
       (db_reports (snd (ctl_create_report None 2 demo_report 9 admin_db)))))"
proof -
  have admin: "find_user (snd (ctl_create_report None 2 demo_report 9 admin_db)) 1 = Some ((chat_user 1)\<lparr>u_role := ADMIN_ROLE\<rparr>)"
    by (simp add: ctl_create_report_def create_report_def demo_report_def valid_report_def len_between_def
        admin_db_users Let_def find_user_def[of "_\<lparr>db_reports := _\<rparr>"]) (simp add: admin_db_users flip: find_user_def)
  have "u_role ((chat_user 1)\<lparr>u_role := ADMIN_ROLE\<rparr>) = ADMIN_ROLE" "1 \<le> (1 :: nat)" "(1 :: nat) \<le> 100" by simp_all
  from report_pages[OF this(1) admin this(2,3)] show ?thesis by (rule conjunct1)
qed

theorem closing_removes_named_file_witness:
  "st_removed (snd (snd (ctl_update_report demo_storage 1 1 (Some CLOSED) None
     (snd (ctl_create_report None 2 demo_report 9 admin_db)) \<lparr>st_cache = [], st_stored = [], st_removed = []\<rparr>))) = [[97]]"
proof -
  obtain d' where eq: "ctl_create_report None 2 demo_report 9 admin_db = (Inr (1, None), d')"
    using demo_report_created by blast
  have "tbl_wf rp_id (db_reports admin_db)" by (simp add: admin_db_reports)
  from closing_removes_named_file[OF eq _ _ _ this admin_db_users(1), of _ demo_storage "[97]" "\<lparr>st_cache = [], st_stored = [], st_removed = []\<rparr>"]
  have "st_removed (snd (snd (ctl_update_report demo_storage 1 1 (Some CLOSED) None d' \<lparr>st_cache = [], st_stored = [], st_removed = []\<rparr>)))
      = [[97]]" by (simp add: demo_report_def empty_meta_def)
  then show ?thesis by (simp only: eq snd_conv)
qed

end
