(* ===== verification/ConvController.thy ===== *)
theory ConvController
  imports Gateway Demo
begin

text \<open>
  The HTTP endpoints of conversations, \<open>server/src/conversations/conversations.controller.ts\<close> with the classes of
  \<open>dto/conversation.dto.ts\<close>, over the state of the gateway: adding a member also puts that user's sockets into the
  conversation's room.  \<open>uid\<close> is the user of the JWT guard; query parameters are strings.  A \<open>NaN\<close> that
  reaches the database is refused by Prisma, after the membership check.  Throttling is the framework's.
\<close>

section \<open>Bodies\<close>

definition nan_error :: http_error where "nan_error = PrismaError ''Invalid value NaN''"

definition valid_direct :: "id \<Rightarrow> bool" where "valid_direct targetUserId \<longleftrightarrow> 0 < targetUserId"

definition valid_name_descr :: "jsstr \<Rightarrow> jsstr option \<Rightarrow> bool" where
  "valid_name_descr name descr \<longleftrightarrow> len_between 2 50 name \<and> pred_option (\<lambda>s. char_count s \<le> 200) descr"

definition valid_update :: "conv_dto \<Rightarrow> bool" where
  "valid_update dto \<longleftrightarrow> pred_option (\<lambda>s. char_count s \<le> 50) (cd_name dto) \<and> pred_option (\<lambda>s. char_count s \<le> 200) (cd_description dto)"

definition valid_ids :: "id list \<Rightarrow> bool" where "valid_ids ids \<longleftrightarrow> list_all (\<lambda>i. 0 < i) ids"

definition valid_version :: "int option \<Rightarrow> bool" where
  "valid_version v \<longleftrightarrow> pred_option (\<lambda>n. n = 1 \<or> n = 2) v"

section \<open>Listing and creating\<close>

definition ctl_getAll ::
  "id \<Rightarrow> jsstr option \<Rightarrow> jsstr option \<Rightarrow> jsstr option \<Rightarrow> time \<Rightarrow> 'r world \<Rightarrow> (conv_item list \<times> bool) result" where
  "ctl_getAll uid skip tk archived now w =
     (let skipNum = (if truthy skip then map_option (max 0) (parseInt (the skip)) else Some 0);
          takeNum = (if truthy tk then map_option (\<lambda>n. min 50 (max 1 n)) (parseInt (the tk)) else Some 20)
      in case (skipNum, takeNum) of
           (Some s, Some t) \<Rightarrow> Inr (getMyConversations uid (nat s) (nat t) (archived = Some (js ''true'')) now (w_db w))
         | _ \<Rightarrow> Inl nan_error)"

definition ctl_createDirect :: "id \<Rightarrow> id \<Rightarrow> time \<Rightarrow> 'r world \<Rightarrow> conv_full result \<times> 'r world" where
  "ctl_createDirect uid target now w =
     (if \<not> valid_direct target then (Inl bad_body, w) else on_db (getOrCreateDirect uid target now) w)"

definition ctl_createGroup :: "id \<Rightarrow> jsstr \<Rightarrow> jsstr option \<Rightarrow> id list \<Rightarrow> time \<Rightarrow> 'r world \<Rightarrow> conv_full result \<times> 'r world" where
  "ctl_createGroup uid name descr memberIds now w =
     (if \<not> valid_name_descr name descr then (Inl bad_body, w)
      else case on_db (createGroup uid name descr memberIds now) w of
             (Inl e, w) \<Rightarrow> (Inl e, w)
           | (Inr conv, w) \<Rightarrow>
               let otherMembers = filter (\<lambda>m. m \<noteq> uid) (map (\<lambda>(m, _). m_userId m) (cf_members conv))
               in (Inr conv, fold (\<lambda>m. notifyUserJoinRoom m (c_id (cf_conv conv))) otherMembers w))"

definition ctl_createChannel :: "id \<Rightarrow> jsstr \<Rightarrow> jsstr option \<Rightarrow> time \<Rightarrow> 'r world \<Rightarrow> conv_full result \<times> 'r world" where
  "ctl_createChannel uid name descr now w =
     (if \<not> valid_name_descr name descr then (Inl bad_body, w) else on_db (createChannel uid name descr now) w)"

definition ctl_update :: "id \<Rightarrow> id \<Rightarrow> conv_dto \<Rightarrow> time \<Rightarrow> 'r world \<Rightarrow> conversation result \<times> 'r world" where
  "ctl_update uid cid dto now w =
     (if \<not> valid_update dto then (Inl bad_body, w) else on_db (updateConversation uid cid dto now) w)"

section \<open>Messages\<close>

datatype messages_reply = Bare "msg_out list" | WithMeta "msg_out list" "id option"

definition ctl_getMessages ::
  "id \<Rightarrow> id \<Rightarrow> jsstr option \<Rightarrow> jsstr option \<Rightarrow> jsstr option \<Rightarrow> time \<Rightarrow> 'r world \<Rightarrow> messages_reply result" where
  "ctl_getMessages uid cid cursor after around now w =
     (if truthy around
      then (case parseInt (the around) of
              None \<Rightarrow> rbind (assertMember uid cid (w_db w)) (\<lambda>_. Inl nan_error)
            | Some i \<Rightarrow> map_sum id Bare (getMessagesAround uid cid i now (w_db w)))
      else if truthy after
      then (case parseInt (the after) of
              None \<Rightarrow> rbind (assertMember uid cid (w_db w)) (\<lambda>_. Inl nan_error)
            | Some i \<Rightarrow> map_sum id Bare (getMessagesAfter uid cid i now (w_db w)))
      else let c = (if truthy cursor then parseInt (the cursor) else None)
           in map_sum id (\<lambda>(ms, first). if has_cursor c then Bare ms else WithMeta ms first) (getMessages uid cid c now (w_db w)))"

definition ctl_clearMessages :: "id \<Rightarrow> id \<Rightarrow> jsstr option \<Rightarrow> time \<Rightarrow> 'r world \<Rightarrow> clear_scope result \<times> 'r world" where
  "ctl_clearMessages uid cid scope now w =
     (case scope of
        None \<Rightarrow> on_db (clearMessages uid cid Self now) w
      | Some s \<Rightarrow> if s = js ''self'' then on_db (clearMessages uid cid Self now) w
                  else if s = js ''both'' then on_db (clearMessages uid cid Both now) w
                  else (Inl (BadRequest ''Scope must be either self or both''), w))"

definition ctl_searchMessages ::
  "(jsstr \<Rightarrow> jsstr \<Rightarrow> bool) \<Rightarrow> id \<Rightarrow> id \<Rightarrow> jsstr option \<Rightarrow> time \<Rightarrow> 'r world \<Rightarrow> msg_out list result" where
  "ctl_searchMessages icontains uid cid q now w =
     searchMessages icontains uid cid (case q of None \<Rightarrow> [] | Some s \<Rightarrow> s) now (w_db w)"

section \<open>Members, pins, forwarding and sender keys\<close>

definition ctl_addMember :: "id \<Rightarrow> id \<Rightarrow> id \<Rightarrow> time \<Rightarrow> 'r world \<Rightarrow> (member \<times> member_user option) result \<times> 'r world" where
  "ctl_addMember uid cid target now w =
     (if \<not> valid_ids [target] then (Inl bad_body, w)
      else case on_db (addMember uid cid target now) w of
             (Inl e, w) \<Rightarrow> (Inl e, w)
           | (Inr m, w) \<Rightarrow> (Inr m, notifyUserJoinRoom target cid w))"

definition ctl_removeMember :: "id \<Rightarrow> id \<Rightarrow> id \<Rightarrow> 'r world \<Rightarrow> id result \<times> 'r world" where
  "ctl_removeMember uid cid target w = on_db (removeMember uid cid target) w"

definition ctl_pinMessage :: "id \<Rightarrow> id \<Rightarrow> id \<Rightarrow> time \<Rightarrow> 'r world \<Rightarrow> pin_result result \<times> 'r world" where
  "ctl_pinMessage uid cid mid now w =
     (if \<not> valid_ids [mid] then (Inl bad_body, w) else on_db (addPinnedMessage uid cid mid now) w)"

definition ctl_forwardMessage ::
  "id \<Rightarrow> id \<Rightarrow> id \<Rightarrow> time \<Rightarrow> 'r world \<Rightarrow> msg_out result \<times> 'r world" where
  "ctl_forwardMessage uid mid target now w =
     (if \<not> valid_ids [mid, target] then (Inl bad_body, w) else on_db (forwardMessage uid mid target None now) w)"

definition ctl_setSenderKeys ::
  "id \<Rightarrow> id \<Rightarrow> (id \<times> jsstr) list \<Rightarrow> int option \<Rightarrow> 'r world \<Rightarrow> unit result \<times> 'r world" where
  "ctl_setSenderKeys uid cid keys version w =
     (if \<not> valid_version version then (Inl bad_body, w)
      else on_db (setSenderKey uid cid keys (case version of None \<Rightarrow> 1 | Some v \<Rightarrow> v)) w)"

text \<open>The role of the body is not validated by a class: any other value than a role of the enumeration is refused by Prisma, and a
  missing one changes nothing; likewise the flags.  Both are read after the service's own check.\<close>

datatype 'a body_value = Given 'a | Missing | Malformed

definition ctl_setRole :: "id \<Rightarrow> id \<Rightarrow> id \<Rightarrow> member_role body_value \<Rightarrow> 'r world \<Rightarrow> member result \<times> 'r world" where
  "ctl_setRole uid cid target role w =
     (case role of
        Given r \<Rightarrow> on_db (setMemberRole uid cid target r) w
      | other \<Rightarrow>
          (case find_member (w_db w) cid uid of
             Some m \<Rightarrow>
               if m_role m \<noteq> OWNER then (Inl (Forbidden ''Owner only''), w)
               else if other = Malformed then (Inl (PrismaError ''Invalid value for role''), w)
               else (case find_member (w_db w) cid target of None \<Rightarrow> (Inl (PrismaError ''P2025''), w) | Some t \<Rightarrow> (Inr t, w))
           | None \<Rightarrow> (Inl (Forbidden ''Owner only''), w)))"

definition on_flag ::
  "id \<Rightarrow> id \<Rightarrow> (bool \<Rightarrow> db \<Rightarrow> bool result \<times> db) \<Rightarrow> bool body_value \<Rightarrow> 'r world \<Rightarrow> bool option result \<times> 'r world" where
  "on_flag uid cid f flag w =
     (case flag of
        Given b \<Rightarrow> (case on_db (f b) w of (r, w) \<Rightarrow> (map_sum id Some r, w))
      | Missing \<Rightarrow> (rbind (assertMember uid cid (w_db w)) (\<lambda>_. Inr None), w)
      | Malformed \<Rightarrow> (rbind (assertMember uid cid (w_db w)) (\<lambda>_. Inl (PrismaError ''Invalid value for flag'')), w))"

definition ctl_pinChat :: "id \<Rightarrow> id \<Rightarrow> bool body_value \<Rightarrow> 'r world \<Rightarrow> bool option result \<times> 'r world" where
  "ctl_pinChat uid cid isPinned w = on_flag uid cid (setChatPinned uid cid) isPinned w"

definition ctl_archiveChat :: "id \<Rightarrow> id \<Rightarrow> bool body_value \<Rightarrow> 'r world \<Rightarrow> bool option result \<times> 'r world" where
  "ctl_archiveChat uid cid isArchived w = on_flag uid cid (setChatArchived uid cid) isArchived w"

definition ctl_unpinMessage :: "id \<Rightarrow> id \<Rightarrow> id \<Rightarrow> 'r world \<Rightarrow> (id \<times> nat \<times> pin_msg option) result \<times> 'r world" where
  "ctl_unpinMessage uid cid mid w = on_db (removePinnedMessage uid cid mid) w"

definition ctl_deleteAllMySenderKeys :: "id \<Rightarrow> 'r world \<Rightarrow> 'r world" where
  "ctl_deleteAllMySenderKeys uid w = w\<lparr>w_db := deleteAllMySenderKeys uid (w_db w)\<rparr>"

text \<open>The endpoints that only read.\<close>

definition ctl_getOne :: "id \<Rightarrow> id \<Rightarrow> 'r world \<Rightarrow> conv_full option result" where
  "ctl_getOne uid cid w = getConversation uid cid (w_db w)"

definition ctl_getMedia :: "id \<Rightarrow> id \<Rightarrow> time \<Rightarrow> 'r world \<Rightarrow> media_item list result" where
  "ctl_getMedia uid cid now w = getMediaFiles uid cid now (w_db w)"

definition ctl_getPinnedMessages :: "id \<Rightarrow> id \<Rightarrow> 'r world \<Rightarrow> pinned_item list result" where
  "ctl_getPinnedMessages uid cid w = getPinnedMessages uid cid (w_db w)"

definition ctl_getMyGroupKey :: "id \<Rightarrow> id \<Rightarrow> 'r world \<Rightarrow> (id \<times> jsstr \<times> int) list result" where
  "ctl_getMyGroupKey uid cid w = getSenderKeysForMe uid cid (w_db w)"

section \<open>Rooms and membership\<close>

lemma notify_sockets:
  "mget (w_sockets (notifyUserJoinRoom uid cid w)) sid =
    map_option (\<lambda>k. if UserRoom uid \<in> set (k_rooms k) then join_room (ConvRoom cid) k else k) (mget (w_sockets w) sid)"
  by (simp add: notifyUserJoinRoom_def map_of_map_values)

lemma notify_db [simp]: "w_db (notifyUserJoinRoom uid cid w) = w_db w"
  by (simp add: notifyUserJoinRoom_def)

lemma notify_receivers:
  "receivers (notifyUserJoinRoom uid cid w) (ToRoom (ConvRoom c)) =
    receivers w (ToRoom (ConvRoom c)) \<union> (if c = cid then receivers w (ToRoom (UserRoom uid)) else {})"
proof -
  have "sid \<in> receivers (notifyUserJoinRoom uid cid w) (ToRoom (ConvRoom c)) \<longleftrightarrow>
      sid \<in> receivers w (ToRoom (ConvRoom c)) \<union> (if c = cid then receivers w (ToRoom (UserRoom uid)) else {})" for sid
    by (cases "mget (w_sockets w) sid") (auto simp: receivers_room notify_sockets)
  then show ?thesis by blast
qed

lemma on_db_receivers [simp]: "receivers (snd (on_db f w)) to = receivers w to"
  by (simp add: receivers_def)

lemma addMember_okD:
  assumes "addMember uid cid target now d = (Inr m, d')"
  shows "is_admin d cid uid \<and> \<not> is_member d cid target \<and> is_member d' cid target"
  using assms
  by (auto simp: addMember_def assertAdmin_Inr is_admin_iff create_member_def Let_def is_member_def find_member_def t_find_def find_append
      split: if_splits option.splits dest!: check_InrD sbind_InrD)

text \<open>Adding a member is an administrator's act: when it succeeds the user is a member, the user's connected sockets receive
  what is sent to the conversation from then on, and nobody else starts to receive anything; when it fails, no socket
  changes rooms.\<close>

theorem added_member_receives:
  assumes "ctl_addMember uid cid target now w = (r, w')"
  shows "(case r of
      Inl e \<Rightarrow> w_sockets w' = w_sockets w
    | Inr m \<Rightarrow> is_admin (w_db w) cid uid \<and> is_member (w_db w') cid target
        \<and> (\<forall>c. receivers w' (ToRoom (ConvRoom c)) = receivers w (ToRoom (ConvRoom c))
              \<union> (if c = cid then receivers w (ToRoom (UserRoom target)) else {})))"
proof (cases r)
  case (Inl e)
  then have "w' = w \<or> on_db (addMember uid cid target now) w = (Inl e, w')"
    using assms by (auto simp: ctl_addMember_def split: if_splits prod.splits sum.splits)
  then have "w_sockets w' = w_sockets w" using on_db_simps(6) by (metis snd_conv)
  then show ?thesis by (simp add: Inl)
next
  case (Inr m)
  then obtain w1 where w1: "on_db (addMember uid cid target now) w = (Inr m, w1)" "w' = notifyUserJoinRoom target cid w1"
    using assms by (auto simp: ctl_addMember_def split: if_splits prod.splits sum.splits)
  then have "addMember uid cid target now (w_db w) = (Inr m, w_db w1)" and "\<And>to. receivers w1 to = receivers w to"
    using on_db_receivers[of "addMember uid cid target now" w] by (auto simp: on_db_def split: prod.splits)
  with addMember_okD[OF this(1)] show ?thesis by (simp add: Inr w1(2) notify_receivers)
qed

lemma removeMember_okD:
  assumes "removeMember uid cid target d = (Inr r, d')"
  shows "db_members d' = t_delete (\<lambda>m. m_conversationId m = cid \<and> m_userId m = target) (db_members d)"
proof -
  obtain x where "(let d = d\<lparr>db_senderKeys := t_delete (\<lambda>k. sk_conversationId k = cid \<and> sk_senderId k = target) (db_senderKeys d)\<rparr>
      in if \<not> is_member d cid target then (Inl (PrismaError ''P2025''), d)
         else (Inr target, d\<lparr>db_members := t_delete (\<lambda>m. m_conversationId m = cid \<and> m_userId m = target) (db_members d)\<rparr>)) = (Inr r, d')"
    using assms by (auto simp: removeMember_def split: if_splits dest: check_InrD)
  then show ?thesis by (auto simp: Let_def split: if_splits)
qed

text \<open>Removing a member does not take the user's sockets out of the conversation's room: whoever received its events before
  the removal still receives them, although no longer a member.\<close>

theorem removed_member_still_receives:
  assumes "ctl_removeMember uid cid target w = (Inr r, w')"
  shows "\<not> is_member (w_db w') cid target
    \<and> receivers w' (ToRoom (ConvRoom cid)) = receivers w (ToRoom (ConvRoom cid))"
proof -
  have "removeMember uid cid target (w_db w) = (Inr r, w_db w')" "receivers w' to = receivers w to" for to
    using assms on_db_receivers[of "removeMember uid cid target" w] by (auto simp: ctl_removeMember_def on_db_def split: prod.splits)
  then show ?thesis using removeMember_okD by (auto simp: is_member_def find_member_def t_find_None_iff)
qed

definition room_world :: "(jsstr \<Rightarrow> jsstr option) world" where
  "room_world = (start_world mem_svc chat_db)\<lparr>w_sockets :=
     [([51], \<lparr>k_authToken = None, k_queryToken = None, k_currentToken = None, k_userId = Some 3, k_user = None, k_rooms = [UserRoom 3]\<rparr>),
      ([50], \<lparr>k_authToken = None, k_queryToken = None, k_currentToken = None, k_userId = Some 2, k_user = None,
              k_rooms = [UserRoom 2, ConvRoom 1]\<rparr>)]\<rparr>"

lemma room_world_db [simp]: "w_db room_world = chat_db"
  by (simp add: room_world_def start_world_def)

theorem added_member_receives_witness:
  "[51] \<in> receivers (snd (ctl_addMember 1 1 3 9 room_world)) (ToRoom (ConvRoom 1))
   \<and> is_member (w_db (snd (ctl_addMember 1 1 3 9 room_world))) 1 3"
proof -
  obtain r w' where eq: "ctl_addMember 1 1 3 9 room_world = (r, w')" by fastforce
  obtain m d' where "addMember 1 1 3 9 chat_db = (Inr m, d')"
    by (simp add: addMember_def is_direct_def assertAdmin_def assertMember_def is_member_def create_member_def chat_defs)
  then have "r = Inr m"
    using eq by (auto simp: ctl_addMember_def valid_ids_def on_db_def)
  moreover have "[51] \<in> receivers room_world (ToRoom (UserRoom 3))" by (simp add: receivers_room room_world_def)
  ultimately show ?thesis using added_member_receives[OF eq] eq by auto
qed

theorem removed_member_still_receives_witness:
  "[50] \<in> receivers (snd (ctl_removeMember 1 1 2 room_world)) (ToRoom (ConvRoom 1))
   \<and> \<not> is_member (w_db (snd (ctl_removeMember 1 1 2 room_world))) 1 2"
proof -
  obtain r w' where eq: "ctl_removeMember 1 1 2 room_world = (r, w')" by fastforce
  obtain d' where "removeMember 1 1 2 chat_db = (Inr 2, d')"
    by (simp add: removeMember_def is_direct_def assertAdmin_def assertMember_def is_member_def rbind_def chat_defs)
  then have r: "r = Inr 2" using eq by (auto simp: ctl_removeMember_def on_db_def)
  moreover have "[50] \<in> receivers room_world (ToRoom (ConvRoom 1))" by (simp add: receivers_room room_world_def)
  ultimately show ?thesis using removed_member_still_receives[OF eq[unfolded r]] eq by auto
qed

end
