(* ===== verification/ConvHttp.thy ===== *)
theory ConvHttp
  imports ConvController ConvProperties
begin

text \<open>
  The requests of \<open>server/src/conversations/conversations.controller.ts\<close> as one transition system over the state of the gateway, and how
  it refines the transition system of the service: what holds of every operation of \<open>conversations.service.ts\<close> holds of the requests,
  each of which acts as the user of its token.
\<close>

section \<open>Requests\<close>

text \<open>The requests that can change something; all others leave the state alone.\<close>

datatype conv_request =
    PostDirect id
  | PostGroup jsstr "jsstr option" "id list"
  | PostChannel jsstr "jsstr option"
  | PutConversation id conv_dto
  | PatchPinChat id "bool body_value"
  | PatchArchive id "bool body_value"
  | DeleteMessages id "jsstr option"
  | PostMember id id
  | DeleteMember id id
  | PostRole id id "member_role body_value"
  | PostPin id id
  | DeletePin id id
  | PostForward id id
  | DeleteSenderKeys
  | PostSenderKeys id "(id \<times> jsstr) list" "int option"

fun http_step :: "id \<Rightarrow> time \<Rightarrow> conv_request \<Rightarrow> 'r world \<Rightarrow> 'r world" where
  "http_step uid now (PostDirect target) w = snd (ctl_createDirect uid target now w)"
| "http_step uid now (PostGroup name descr ids) w = snd (ctl_createGroup uid name descr ids now w)"
| "http_step uid now (PostChannel name descr) w = snd (ctl_createChannel uid name descr now w)"
| "http_step uid now (PutConversation cid dto) w = snd (ctl_update uid cid dto now w)"
| "http_step uid now (PatchPinChat cid flag) w = snd (ctl_pinChat uid cid flag w)"
| "http_step uid now (PatchArchive cid flag) w = snd (ctl_archiveChat uid cid flag w)"
| "http_step uid now (DeleteMessages cid scope) w = snd (ctl_clearMessages uid cid scope now w)"
| "http_step uid now (PostMember cid target) w = snd (ctl_addMember uid cid target now w)"
| "http_step uid now (DeleteMember cid target) w = snd (ctl_removeMember uid cid target w)"
| "http_step uid now (PostRole cid target role) w = snd (ctl_setRole uid cid target role w)"
| "http_step uid now (PostPin cid mid) w = snd (ctl_pinMessage uid cid mid now w)"
| "http_step uid now (DeletePin cid mid) w = snd (ctl_unpinMessage uid cid mid w)"
| "http_step uid now (PostForward mid target) w = snd (ctl_forwardMessage uid mid target now w)"
| "http_step uid now DeleteSenderKeys w = ctl_deleteAllMySenderKeys uid w"
| "http_step uid now (PostSenderKeys cid keys version) w = snd (ctl_setSenderKeys uid cid keys version w)"

text \<open>The operation of the service behind a request, if its body passes.\<close>

fun service_op :: "id \<Rightarrow> time \<Rightarrow> conv_request \<Rightarrow> conv_op option" where
  "service_op uid now (PostDirect target) = (if valid_direct target then Some (GetOrCreateDirect uid target now) else None)"
| "service_op uid now (PostGroup name descr ids) = (if valid_name_descr name descr then Some (CreateGroup uid name descr ids now) else None)"
| "service_op uid now (PostChannel name descr) = (if valid_name_descr name descr then Some (CreateChannel uid name descr now) else None)"
| "service_op uid now (PutConversation cid dto) = (if valid_update dto then Some (UpdateConversation uid cid dto now) else None)"
| "service_op uid now (PatchPinChat cid flag) = (case flag of Given b \<Rightarrow> Some (SetChatPinned uid cid b) | _ \<Rightarrow> None)"
| "service_op uid now (PatchArchive cid flag) = (case flag of Given b \<Rightarrow> Some (SetChatArchived uid cid b) | _ \<Rightarrow> None)"
| "service_op uid now (DeleteMessages cid scope) =
     (case scope of
        None \<Rightarrow> Some (ClearMessages uid cid Self now)
      | Some s \<Rightarrow> if s = js ''self'' then Some (ClearMessages uid cid Self now)
                  else if s = js ''both'' then Some (ClearMessages uid cid Both now) else None)"
| "service_op uid now (PostMember cid target) = (if valid_ids [target] then Some (AddMember uid cid target now) else None)"
| "service_op uid now (DeleteMember cid target) = Some (RemoveMember uid cid target)"
| "service_op uid now (PostRole cid target role) = (case role of Given r \<Rightarrow> Some (SetMemberRole uid cid target r) | _ \<Rightarrow> None)"
| "service_op uid now (PostPin cid mid) = (if valid_ids [mid] then Some (AddPin uid cid mid now) else None)"
| "service_op uid now (DeletePin cid mid) = Some (RemovePin uid cid mid)"
| "service_op uid now (PostForward mid target) = (if valid_ids [mid, target] then Some (ForwardMessage uid mid target None now) else None)"
| "service_op uid now DeleteSenderKeys = Some (DeleteAllMySenderKeys uid)"
| "service_op uid now (PostSenderKeys cid keys version) =
     (if valid_version version then Some (SetSenderKey uid cid keys (case version of None \<Rightarrow> 1 | Some v \<Rightarrow> v)) else None)"

section \<open>Requests refine the service\<close>

lemma notify_all_db: "w_db (fold (\<lambda>m. notifyUserJoinRoom m cid) ms w) = w_db w"
  by (induction ms arbitrary: w) simp_all

lemma on_db_parts: "w_db (snd (on_db f w)) = snd (f (w_db w))" "fst (on_db f w) = fst (f (w_db w))"
  by (simp_all add: on_db_def split: prod.split)

lemma created_group_db: "w_db (snd (ctl_createGroup uid name descr ids now w))
    = (if valid_name_descr name descr then snd (createGroup uid name descr ids now (w_db w)) else w_db w)"
  by (simp add: ctl_createGroup_def on_db_def Let_def notify_all_db split: prod.split sum.split)

lemma added_member_db: "w_db (snd (ctl_addMember uid cid target now w))
    = (if valid_ids [target] then snd (addMember uid cid target now (w_db w)) else w_db w)"
  by (simp add: ctl_addMember_def on_db_def split: prod.split sum.split)

lemma flag_db: "w_db (snd (on_flag uid cid f flag w)) = (case flag of Given b \<Rightarrow> snd (f b (w_db w)) | _ \<Rightarrow> w_db w)"
  by (simp add: on_flag_def on_db_def split: prod.split body_value.split)

lemma role_db: "w_db (snd (ctl_setRole uid cid target role w))
    = (case role of Given r \<Rightarrow> snd (setMemberRole uid cid target r (w_db w)) | _ \<Rightarrow> w_db w)"
  by (simp add: ctl_setRole_def on_db_parts split: body_value.split option.split)

lemmas request_db = created_group_db added_member_db flag_db role_db on_db_parts

lemma http_db:
  "w_db (http_step uid now req w) = (case service_op uid now req of None \<Rightarrow> w_db w | Some op \<Rightarrow> conv_step J (w_db w) op)"
  by (cases req) (simp_all add: request_db ctl_createDirect_def ctl_createChannel_def ctl_update_def ctl_pinChat_def ctl_archiveChat_def
      ctl_clearMessages_def ctl_removeMember_def ctl_pinMessage_def ctl_unpinMessage_def ctl_forwardMessage_def ctl_deleteAllMySenderKeys_def
      ctl_setSenderKeys_def split: body_value.split option.split)

section \<open>Rooms\<close>

definition rooms_of :: "'r world \<Rightarrow> sock_id \<Rightarrow> room set" where
  "rooms_of w sid = (case mget (w_sockets w) sid of None \<Rightarrow> {} | Some k \<Rightarrow> set (k_rooms k))"

lemma notify_rooms:
  "rooms_of (notifyUserJoinRoom m cid w) sid = rooms_of w sid \<union> (if UserRoom m \<in> rooms_of w sid then {ConvRoom cid} else {})"
  by (auto simp: rooms_of_def notify_sockets join_room_def split: option.split)

lemma notify_all_rooms:
  "rooms_of (fold (\<lambda>m. notifyUserJoinRoom m cid) ms w) sid
     = rooms_of w sid \<union> (if \<exists>m \<in> set ms. UserRoom m \<in> rooms_of w sid then {ConvRoom cid} else {})"
  by (induction ms arbitrary: w) (auto simp: notify_rooms)

lemma on_db_rooms [simp]: "rooms_of (snd (on_db f w)) sid = rooms_of w sid"
  by (simp add: rooms_of_def on_db_def split: prod.split)

lemma db_rooms [simp]: "rooms_of (w\<lparr>w_db := d\<rparr>) sid = rooms_of w sid"
  by (simp add: rooms_of_def)

lemma created_members:
  assumes "create_conversation ty name descr uid mems now d = (Inr conv, d')" "m \<in> set (cf_members conv)"
  shows "is_member d' (c_id (cf_conv conv)) (m_userId (fst m))"
  using assms
  by (auto simp: create_conversation_def transaction_def Let_def full_conv_def is_member_def find_member_def conv_members_def t_find_def t_all_def
      find_None_iff split: prod.splits sum.splits dest!: sbind_InrD, blast)

text \<open>A request lets a socket into a room only with its user a member of the conversation.\<close>

definition lets_in :: "'r world \<Rightarrow> 'r world \<Rightarrow> bool" where
  "lets_in w w' \<longleftrightarrow> (\<forall>sid. rooms_of w sid \<subseteq> rooms_of w' sid
     \<and> (\<forall>r \<in> rooms_of w' sid - rooms_of w sid. \<exists>c m. r = ConvRoom c \<and> UserRoom m \<in> rooms_of w sid \<and> is_member (w_db w') c m))"

lemma lets_in_same: "(\<And>sid. rooms_of w' sid = rooms_of w sid) \<Longrightarrow> lets_in w w'"
  by (simp add: lets_in_def)

lemma group_lets_in: "lets_in w (snd (ctl_createGroup uid name descr ids now w))"
proof (cases "valid_name_descr name descr")
  case True
  obtain r d' where c: "createGroup uid name descr ids now (w_db w) = (r, d')" by fastforce
  show ?thesis
  proof (cases r)
    case (Inl e)
    then show ?thesis using c True by (intro lets_in_same) (simp add: ctl_createGroup_def on_db_def)
  next
    case (Inr conv)
    let ?ms = "filter (\<lambda>m. m \<noteq> uid) (map (\<lambda>(m, _). m_userId m) (cf_members conv))"
    have "is_member d' (c_id (cf_conv conv)) m" if "m \<in> set ?ms" for m
      using created_members[OF c[unfolded createGroup_def Let_def Inr]] that by auto
    then show ?thesis using c True Inr by (auto simp: lets_in_def ctl_createGroup_def on_db_def Let_def notify_all_rooms notify_all_db split: if_splits)
  qed
qed (simp add: lets_in_same ctl_createGroup_def)

lemma member_lets_in: "lets_in w (snd (ctl_addMember uid cid target now w))"
proof (cases "valid_ids [target]")
  case True
  obtain r d' where c: "addMember uid cid target now (w_db w) = (r, d')" by fastforce
  show ?thesis
  proof (cases r)
    case (Inl e)
    then show ?thesis using c True by (intro lets_in_same) (simp add: ctl_addMember_def on_db_def)
  next
    case (Inr m)
    then have "is_member d' cid target" using addMember_okD c by blast
    then show ?thesis using c True Inr by (auto simp: lets_in_def ctl_addMember_def on_db_def notify_rooms split: if_splits)
  qed
qed (simp add: lets_in_same ctl_addMember_def)

lemma flag_rooms: "rooms_of (snd (on_flag uid cid f flag w)) sid = rooms_of w sid"
  by (simp add: on_flag_def rooms_of_def on_db_def split: prod.split body_value.split)

lemma role_rooms: "rooms_of (snd (ctl_setRole uid cid target role w)) sid = rooms_of w sid"
  by (simp add: ctl_setRole_def split: body_value.split option.split)

lemma http_lets_in: "lets_in w (http_step uid now req w)"
proof (cases req)
  case (PostGroup name descr ids)
  then show ?thesis by (simp add: group_lets_in)
next
  case (PostMember cid target)
  then show ?thesis by (simp add: member_lets_in)
qed (auto intro!: lets_in_same simp: flag_rooms role_rooms ctl_createDirect_def ctl_createChannel_def ctl_update_def ctl_pinChat_def
    ctl_archiveChat_def ctl_clearMessages_def ctl_removeMember_def ctl_pinMessage_def ctl_unpinMessage_def ctl_forwardMessage_def
    ctl_deleteAllMySenderKeys_def ctl_setSenderKeys_def split: option.split)

section \<open>Runs of requests\<close>

definition http_run :: "(id \<times> time \<times> conv_request) list \<Rightarrow> 'r world \<Rightarrow> 'r world" where
  "http_run rs w = fold (\<lambda>(uid, now, req). http_step uid now req) rs w"

lemma service_actor: "service_op uid now req = Some op \<Longrightarrow> actor op = uid"
  by (cases req) (auto split: if_splits option.splits body_value.splits)

text \<open>C5. The endpoints of conversations refine the service.  Any sequence of requests, with whatever bodies and parameters, acts on the
  database as a sequence of the service's operations, at most one per request and each in the name of the user of the request's token;
  so the database stays consistent.  A single request never takes a socket out of a room, and it lets a socket into the room of a
  conversation only if the socket's user is then a member of it.\<close>

theorem requests_refine_service:
  fixes J :: json_env
  shows "(\<exists>ops. w_db (http_run rs w) = run (conv_step J) (w_db w) ops \<and> length ops \<le> length rs \<and> actor ` set ops \<subseteq> fst ` set rs
      \<and> (conv_inv (w_db w) \<longrightarrow> conv_inv (w_db (http_run rs w)))) \<and> lets_in w (http_step uid now req w)"
proof
  show "\<exists>ops. w_db (http_run rs w) = run (conv_step J) (w_db w) ops \<and> length ops \<le> length rs \<and> actor ` set ops \<subseteq> fst ` set rs
      \<and> (conv_inv (w_db w) \<longrightarrow> conv_inv (w_db (http_run rs w)))"
  proof (induction rs arbitrary: w)
    case (Cons x rs)
    obtain u t q where x: "x = (u, t, q)" by (cases x)
    let ?w = "http_step u t q w"
    from Cons.IH[of ?w] obtain ops where ops: "w_db (http_run rs ?w) = run (conv_step J) (w_db ?w) ops" "length ops \<le> length rs"
      "actor ` set ops \<subseteq> fst ` set rs" by blast
    let ?ops = "(case service_op u t q of None \<Rightarrow> [] | Some op \<Rightarrow> [op]) @ ops"
    have "w_db (http_run (x # rs) w) = run (conv_step J) (w_db w) ?ops"
      using ops(1) http_db[of u t q w J] by (simp add: http_run_def x split: option.split)
    moreover have "length ?ops \<le> length (x # rs)" "actor ` set ?ops \<subseteq> fst ` set (x # rs)"
      using ops(2,3) service_actor by (auto simp: x split: option.split)
    moreover have "conv_inv (run (conv_step J) (w_db w) ?ops)" if "conv_inv (w_db w)" using that by (rule conv.run_inv) simp
    ultimately show ?case by metis
  qed (use exI[of _ "[]"] in \<open>simp add: http_run_def\<close>)
qed (rule http_lets_in)

theorem requests_refine_service_witness:
  "conv_inv (w_db (http_run [(1, 0, PostDirect 2), (1, 1, PostRole 1 2 Malformed), (2, 2, PostPin 1 1)] ((start_world mem_svc empty_db) :: (jsstr \<Rightarrow> jsstr option) world)))"
  using requests_refine_service[of "[(1, 0, PostDirect 2), (1, 1, PostRole 1 2 Malformed), (2, 2, PostPin 1 1)]" "start_world mem_svc empty_db" demo_json 1 0 DeleteSenderKeys]
    conv_inv_empty
  by (simp add: start_world_def) blast

end
