(* ===== verification/TokenRefresh.thy ===== *)
theory TokenRefresh
  imports Prelude
begin

text \<open>
  The client's HTTP layer, \<open>client/src/lib/axios.ts\<close>, with the auth store of \<open>client/src/store/useAuthStore.ts\<close>: renewal of the
  access token before and after a request, the retry loop of the renewal, its sharing between concurrent requests, and the
  forced logout.  The answers of the server are an argument (one per attempt); \<open>jwtDecode\<close> is a parameter.  The lock that
  serialises renewals between tabs is the browser's and left out.
\<close>

section \<open>The auth store\<close>

record auth_store =
  user :: "id option"
  accessToken :: "jsstr option"
  hasHydrated :: bool

definition initial_store :: auth_store where
  "initial_store = \<lparr>user = None, accessToken = None, hasHydrated = False\<rparr>"

definition setAuth :: "id \<Rightarrow> jsstr \<Rightarrow> auth_store \<Rightarrow> auth_store" where
  "setAuth u t s = s\<lparr>user := Some u, accessToken := Some t\<rparr>"

definition setHasHydrated :: "bool \<Rightarrow> auth_store \<Rightarrow> auth_store" where
  "setHasHydrated b s = s\<lparr>hasHydrated := b\<rparr>"

definition store_logout :: "auth_store \<Rightarrow> auth_store" where
  "store_logout s = s\<lparr>user := None, accessToken := None\<rparr>"

text \<open>What is kept in \<open>localStorage\<close>, and the store after it was read back.\<close>

definition partialize :: "auth_store \<Rightarrow> id option \<times> jsstr option" where
  "partialize s = (user s, accessToken s)"

definition rehydrate :: "id option \<times> jsstr option \<Rightarrow> auth_store \<Rightarrow> auth_store" where
  "rehydrate p s = setHasHydrated True (s\<lparr>user := fst p, accessToken := snd p\<rparr>)"

record tab =
  store :: auth_store
  auth_storage :: bool
  pathname :: jsstr

section \<open>The renewal\<close>

text \<open>The answer to one \<open>POST /auth/refresh\<close>: a token, or an error with its status if the server answered at all.\<close>

datatype refresh_reply = NewToken jsstr | RefreshError "nat option"

datatype refresh_end = GotToken jsstr | ServerUnavailable | ForcedLogout

definition RETRY_DELAYS_MS :: "nat list" where
  "RETRY_DELAYS_MS = [2000, 5000, 8000]"

definition MAX_401_RETRIES :: nat where
  "MAX_401_RETRIES = 1"

definition unauthorized :: "nat option \<Rightarrow> bool" where
  "unauthorized status \<longleftrightarrow> status = Some 401 \<or> status = Some 403"

text \<open>The loop over the attempts: the pauses it makes and how it ends.  Leaving the loop by \<open>break\<close> ends in the logout.\<close>

function refresh_loop :: "(nat \<Rightarrow> refresh_reply) \<Rightarrow> nat \<Rightarrow> nat \<Rightarrow> nat list \<times> refresh_end" where
  "refresh_loop reply attempt unauthorizedCount =
     (if attempt > length RETRY_DELAYS_MS then ([], ForcedLogout)
      else case reply attempt of
        NewToken t \<Rightarrow> ([], GotToken t)
      | RefreshError status \<Rightarrow>
          if unauthorized status then
            (if unauthorizedCount + 1 \<le> MAX_401_RETRIES \<and> attempt < length RETRY_DELAYS_MS
             then (let (ds, r) = refresh_loop reply (attempt + 1) (unauthorizedCount + 1) in (RETRY_DELAYS_MS ! attempt # ds, r))
             else ([], ForcedLogout))
          else if attempt < length RETRY_DELAYS_MS
          then (let (ds, r) = refresh_loop reply (attempt + 1) unauthorizedCount in (RETRY_DELAYS_MS ! attempt # ds, r))
          else ([], ServerUnavailable))"
  by pat_completeness auto
termination
  by (relation "measure (\<lambda>(reply, attempt, c). Suc (length RETRY_DELAYS_MS) - attempt)") auto

declare refresh_loop.simps [simp del]

text \<open>The effect of a renewal on the tab, and what it returns.\<close>

definition doRefresh :: "(nat \<Rightarrow> refresh_reply) \<Rightarrow> tab \<Rightarrow> jsstr option \<times> tab" where
  "doRefresh reply s =
     (case snd (refresh_loop reply 0 0) of
        GotToken t \<Rightarrow>
          (Some t, s\<lparr>store := (case user (store s) of Some u \<Rightarrow> setAuth u t (store s)
                                | None \<Rightarrow> (store s)\<lparr>accessToken := Some t\<rparr>)\<rparr>)
      | ServerUnavailable \<Rightarrow> (None, s)
      | ForcedLogout \<Rightarrow>
          (None, s\<lparr>store := store_logout (store s), auth_storage := False,
                   pathname := (if pathname s \<noteq> js ''/auth/login'' then js ''/auth/login'' else pathname s)\<rparr>))"

text \<open>Concurrent callers share one renewal: the promise is kept until it settles, then forgotten.\<close>

record shared_refresh =
  running :: bool
  waiters :: "nat list"
  started :: nat

definition refreshAccessToken :: "nat \<Rightarrow> shared_refresh \<Rightarrow> shared_refresh" where
  "refreshAccessToken caller r =
     (if running r then r\<lparr>waiters := waiters r @ [caller]\<rparr>
      else r\<lparr>running := True, waiters := [caller], started := started r + 1\<rparr>)"

definition refresh_settled :: "jsstr option \<Rightarrow> shared_refresh \<Rightarrow> (nat \<times> jsstr option) list \<times> shared_refresh" where
  "refresh_settled result r =
     (if running r then (map (\<lambda>c. (c, result)) (waiters r), r\<lparr>running := False, waiters := []\<rparr>) else ([], r))"

section \<open>The interceptors\<close>

text \<open>\<open>jwt_exp\<close> gives the \<open>exp\<close> claim in seconds, \<open>None\<close> when the token cannot be decoded.\<close>

definition request_token :: "(jsstr \<Rightarrow> int option) \<Rightarrow> time \<Rightarrow> (nat \<Rightarrow> refresh_reply) \<Rightarrow> tab \<Rightarrow> jsstr option \<times> tab" where
  "request_token jwt_exp now reply s =
     (case accessToken (store s) of
        None \<Rightarrow> (None, s)
      | Some token \<Rightarrow>
          if token = [] then (None, s)
          else (case jwt_exp token of
             None \<Rightarrow> (Some token, s)
           | Some exp \<Rightarrow>
               if exp * 1000 < now + 10000 then doRefresh reply s else (Some token, s)))"

definition bypassUrls :: "jsstr list" where
  "bypassUrls = map js [''/auth/login'', ''/auth/register'', ''/auth/refresh'']"

definition isBypassUrl :: "jsstr option \<Rightarrow> bool" where
  "isBypassUrl url = (case url of None \<Rightarrow> False | Some u \<Rightarrow> list_ex (includes_str u) bypassUrls)"

text \<open>
  A request through the client: at most two requests reach the server.  \<open>server n tok\<close> is the status of the \<open>n\<close>-th one with the
  given bearer token; the log lists the tokens that were sent.  \<open>reply\<close> and \<open>reply'\<close> answer the renewals before a request and
  after a 401.
\<close>

record http_request =
  url :: "jsstr option"
  retried :: bool

function api_request ::
    "(jsstr \<Rightarrow> int option) \<Rightarrow> time \<Rightarrow> (nat \<Rightarrow> nat \<Rightarrow> refresh_reply) \<Rightarrow> (nat \<Rightarrow> jsstr option \<Rightarrow> nat) \<Rightarrow> nat
      \<Rightarrow> http_request \<Rightarrow> tab \<Rightarrow> (jsstr option list \<times> nat) \<times> tab" where
  "api_request jwt_exp now reply server n req s =
     (let (token, s) = request_token jwt_exp now (reply (2 * n)) s;
          status = server n token
      in if status = 401 \<and> \<not> retried req \<and> \<not> isBypassUrl (url req) then
           (let (newToken, s) = doRefresh (reply (2 * n + 1)) s
            in if \<not> truthy newToken then (([token], status), s)
               else (let ((log, st), s) = api_request jwt_exp now reply server (n + 1) (req\<lparr>retried := True\<rparr>) s
                     in ((token # log, st), s)))
         else (([token], status), s))"
  by pat_completeness auto
termination
  by (relation "measure (\<lambda>(j, n, r, sv, k, req, s). if retried req then 0 else 1)") auto

declare api_request.simps [simp del]

section \<open>The loop, unfolded\<close>

lemma length_delays [simp]: "length RETRY_DELAYS_MS = 3" "RETRY_DELAYS_MS ! 0 = 2000" "RETRY_DELAYS_MS ! Suc 0 = 5000"
  "RETRY_DELAYS_MS ! 2 = 8000"
  by (simp_all add: RETRY_DELAYS_MS_def)

text \<open>The number of refusals among the replies from one attempt up to another.\<close>

definition refusals :: "(nat \<Rightarrow> refresh_reply) \<Rightarrow> nat \<Rightarrow> nat \<Rightarrow> nat" where
  "refusals reply a b = length (filter (\<lambda>i. \<exists>s. reply i = RefreshError s \<and> unauthorized s) [a..<b])"

lemma refusals_same [simp]: "refusals reply a a = 0"
  by (simp add: refusals_def)

lemma refusals_step:
  "a < b \<Longrightarrow> refusals reply a b = (if \<exists>s. reply a = RefreshError s \<and> unauthorized s then 1 else 0) + refusals reply (Suc a) b"
  by (simp add: refusals_def upt_conv_Cons)

text \<open>How the loop ends: \<open>a\<close> is the first attempt, \<open>n\<close> the last one, \<open>c\<close> the refusals before \<open>a\<close>.\<close>

definition loop_verdict :: "(nat \<Rightarrow> refresh_reply) \<Rightarrow> nat \<Rightarrow> nat \<Rightarrow> nat \<Rightarrow> refresh_end \<Rightarrow> bool" where
  "loop_verdict reply a c n r \<longleftrightarrow>
     n \<le> 3 \<and> (\<forall>i. a \<le> i \<and> i < n \<longrightarrow> (\<exists>s. reply i = RefreshError s)) \<and> c + refusals reply a n \<le> 1 \<and>
     (case r of
        GotToken t \<Rightarrow> reply n = NewToken t
      | ServerUnavailable \<Rightarrow> n = 3 \<and> (\<exists>s. reply n = RefreshError s \<and> \<not> unauthorized s)
      | ForcedLogout \<Rightarrow> (\<exists>s. reply n = RefreshError s \<and> unauthorized s) \<and> (c + refusals reply a n = 1 \<or> n = 3))"

lemma loop_verdict_step:
  assumes "a < 3" "reply a = RefreshError s" "loop_verdict reply (Suc a) (if unauthorized s then Suc c else c) n r" "Suc a \<le> n"
  shows "loop_verdict reply a c n r"
proof -
  have ref: "c + refusals reply a n = (if unauthorized s then Suc c else c) + refusals reply (Suc a) n"
    using refusals_step[of a n reply] assms(2,4) by auto
  have err: "\<exists>s. reply i = RefreshError s" if "a \<le> i" "i < n" for i
    using that assms(2,3) by (cases "i = a") (auto simp: loop_verdict_def)
  show ?thesis using assms(3) err unfolding loop_verdict_def ref by (cases r) auto
qed

lemma refresh_loop_verdict:
  assumes "a \<le> 3" "c \<le> 1"
  shows "loop_verdict reply a c (a + length (fst (refresh_loop reply a c))) (snd (refresh_loop reply a c))"
  using assms
proof (induction reply a c rule: refresh_loop.induct)
  case (1 reply a c)
  show ?case
  proof (cases "reply a")
    case (NewToken t)
    then show ?thesis using "1.prems" by (auto simp: refresh_loop.simps[of reply a c] loop_verdict_def)
  next
    case (RefreshError s)
    let ?c = "if unauthorized s then Suc c else c"
    show ?thesis
    proof (cases "a < 3 \<and> ?c \<le> 1")
      case True
      have eq: "refresh_loop reply a c = (RETRY_DELAYS_MS ! a # fst (refresh_loop reply (a + 1) ?c), snd (refresh_loop reply (a + 1) ?c))"
        using True RefreshError by (subst refresh_loop.simps) (auto simp: MAX_401_RETRIES_def split: prod.splits)
      have "loop_verdict reply (a + 1) ?c (a + 1 + length (fst (refresh_loop reply (a + 1) ?c))) (snd (refresh_loop reply (a + 1) ?c))"
        using "1.IH" RefreshError True by (cases "unauthorized s") (auto simp: MAX_401_RETRIES_def)
      then show ?thesis using loop_verdict_step[of a reply s c] True RefreshError by (simp add: eq)
    next
      case False
      then show ?thesis using "1.prems" RefreshError
        by (auto simp: refresh_loop.simps[of reply a c] loop_verdict_def MAX_401_RETRIES_def)
    qed
  qed
qed

lemma loop_pauses:
  "a \<le> 3 \<Longrightarrow> fst (refresh_loop reply a c) = take (length (fst (refresh_loop reply a c))) (drop a RETRY_DELAYS_MS)"
proof (induction reply a c rule: refresh_loop.induct)
  case (1 reply a c)
  show ?case
  proof (cases "fst (refresh_loop reply a c)")
    case (Cons d ds)
    then obtain s where s: "a < 3" "reply a = RefreshError s" "unauthorized s \<longrightarrow> c + 1 \<le> MAX_401_RETRIES"
      and ds: "d = RETRY_DELAYS_MS ! a" "ds = fst (refresh_loop reply (a + 1) (if unauthorized s then c + 1 else c))"
      by (subst (asm) refresh_loop.simps) (auto split: refresh_reply.splits if_splits prod.splits)
    have "ds = take (length ds) (drop (a + 1) RETRY_DELAYS_MS)"
      unfolding ds using "1.IH" s by (cases "unauthorized s") auto
    moreover have "drop a RETRY_DELAYS_MS = RETRY_DELAYS_MS ! a # drop (a + 1) RETRY_DELAYS_MS"
      using s(1) by (simp add: Cons_nth_drop_Suc)
    ultimately show ?thesis using Cons ds(1) by simp
  qed simp
qed

lemma delays_sum: "sum_list (take k RETRY_DELAYS_MS) \<le> 15000"
proof -
  have "sum_list (take k RETRY_DELAYS_MS) \<le> sum_list (take k RETRY_DELAYS_MS @ drop k RETRY_DELAYS_MS)" by (simp only: sum_list_append)
  then show ?thesis by (simp add: RETRY_DELAYS_MS_def)
qed

section \<open>Properties\<close>


text \<open>A session is never dropped because the server is down or answers with an error of its own: renewing the token, and any
  request made through the client, logs the user out only if at least one renewal was refused with 401 or 403.  A request reaches
  the server at most twice, the second time only after a 401 on an address other than login, registration and renewal.\<close>

theorem request_keeps_session:
  assumes "\<forall>k i st. reply k i = RefreshError st \<longrightarrow> \<not> unauthorized st" "user (store s) = Some u" "\<not> retried req"
  shows "user (store (snd (api_request jwt_exp now reply server n req s))) = Some u
    \<and> (case fst (api_request jwt_exp now reply server n req s) of (log, status) \<Rightarrow>
         length log \<in> {1, 2} \<and> status = server (n + length log - 1) (last log)
         \<and> (length log = 2 \<longrightarrow> server n (hd log) = 401 \<and> \<not> isBypassUrl (url req)))"
proof -
  have keep: "user (store (snd (doRefresh (reply k) s))) = Some u" if "user (store s) = Some u" for k s
  proof -
    have "loop_verdict (reply k) 0 0 (length (fst (refresh_loop (reply k) 0 0))) (snd (refresh_loop (reply k) 0 0))"
      using refresh_loop_verdict[of 0 0 "reply k"] by simp
    then have "snd (refresh_loop (reply k) 0 0) \<noteq> ForcedLogout" using assms(1) by (auto simp: loop_verdict_def)
    then show ?thesis using that by (auto simp: doRefresh_def setAuth_def split: refresh_end.splits)
  qed
  have keep_token: "user (store (snd (request_token jwt_exp now (reply k) s))) = Some u" if "user (store s) = Some u" for k s
    using that keep by (auto simp: request_token_def split: option.splits)
  have again: "user (store (snd (api_request jwt_exp now reply server m r t))) = Some u
      \<and> (\<exists>tok. fst (api_request jwt_exp now reply server m r t) = ([tok], server m tok))"
    if "user (store t) = Some u" "retried r" for m r t
    using that keep_token[OF that(1), of "2 * m"]
    by (subst (1 2) api_request.simps) (auto simp: Let_def split: prod.splits)
  obtain tok s1 where t: "request_token jwt_exp now (reply (2 * n)) s = (tok, s1)" by fastforce
  have u1: "user (store s1) = Some u" using keep_token[OF assms(2), of "2 * n"] t by simp
  obtain new s2 where r: "doRefresh (reply (2 * n + 1)) s1 = (new, s2)" by fastforce
  have u2: "user (store s2) = Some u" using keep[OF u1, of "2 * n + 1"] r by simp
  obtain tok' where a: "user (store (snd (api_request jwt_exp now reply server (n + 1) (req\<lparr>retried := True\<rparr>) s2))) = Some u"
    "fst (api_request jwt_exp now reply server (n + 1) (req\<lparr>retried := True\<rparr>) s2) = ([tok'], server (n + 1) tok')"
    using again[OF u2, of "req\<lparr>retried := True\<rparr>" "n + 1"] by auto
  show ?thesis
  proof (cases "server n tok = 401 \<and> \<not> isBypassUrl (url req) \<and> truthy new")
    case True
    have "api_request jwt_exp now reply server n req s
        = ((tok # fst (fst (api_request jwt_exp now reply server (n + 1) (req\<lparr>retried := True\<rparr>) s2)),
            snd (fst (api_request jwt_exp now reply server (n + 1) (req\<lparr>retried := True\<rparr>) s2))),
           snd (api_request jwt_exp now reply server (n + 1) (req\<lparr>retried := True\<rparr>) s2))"
      using True assms(3) t r by (subst api_request.simps) (simp add: Let_def split: prod.splits)
    with a True show ?thesis by simp
  next
    case False
    then have "\<exists>s'. api_request jwt_exp now reply server n req s = (([tok], server n tok), s') \<and> user (store s') = Some u"
      using assms(3) t r u1 u2 by (subst api_request.simps) (auto simp: Let_def)
    then show ?thesis by auto
  qed
qed

theorem request_keeps_session_witness:
  "user (store (snd (api_request (\<lambda>_. None) 0 (\<lambda>_ _. RefreshError (Some 503)) (\<lambda>_ _. 401) 0 \<lparr>url = Some (js ''/friends''), retried = False\<rparr>
      \<lparr>store = \<lparr>user = Some 4, accessToken = Some (js ''t''), hasHydrated = True\<rparr>, auth_storage = True, pathname = js ''/chat''\<rparr>))) = Some 4"
  using request_keeps_session[of "\<lambda>_ _. RefreshError (Some 503)"
      "\<lparr>store = \<lparr>user = Some 4, accessToken = Some (js ''t''), hasHydrated = True\<rparr>, auth_storage = True, pathname = js ''/chat''\<rparr>" 4
      "\<lparr>url = Some (js ''/friends''), retried = False\<rparr>" "\<lambda>_. None" 0 "\<lambda>_ _. 401" 0]
  by (simp add: unauthorized_def)

end
