(* ===== verification/Base64.thy ===== *)
theory Base64
  imports Prelude
begin

text \<open>
  Bytes as base64url text, as the client writes keys and ciphertexts: \<open>bufToBase64url\<close> and \<open>base64urlToBuf\<close> of
  \<open>client/src/lib/crypto.ts\<close>, repeated in \<open>mediaEncryption.ts\<close>, \<open>deviceKeys.ts\<close> and \<open>cryptoLegacy.ts\<close>.  A byte is a number
  below 256.  \<open>btoa\<close> and \<open>atob\<close> are the browser's; \<open>None\<close> is the exception of \<open>atob\<close>.
\<close>

type_synonym bytes = "nat list"

definition is_bytes :: "bytes \<Rightarrow> bool" where
  "is_bytes bs \<longleftrightarrow> list_all (\<lambda>b. b < 256) bs"

section \<open>The browser's base64\<close>

definition b64_char :: "nat \<Rightarrow> nat" where
  "b64_char n = (if n < 26 then 65 + n else if n < 52 then 71 + n else if n < 62 then n - 4 else if n = 62 then 43 else 47)"

definition b64_val :: "nat \<Rightarrow> nat option" where
  "b64_val c = (if 65 \<le> c \<and> c \<le> 90 then Some (c - 65) else if 97 \<le> c \<and> c \<le> 122 then Some (c - 71)
     else if digit c then Some (c + 4) else if c = 43 then Some 62 else if c = 47 then Some 63 else None)"

fun sextets :: "bytes \<Rightarrow> nat list" where
  "sextets (a # b # c # s) = [a div 4, a mod 4 * 16 + b div 16, b mod 16 * 4 + c div 64, c mod 64] @ sextets s"
| "sextets [a, b] = [a div 4, a mod 4 * 16 + b div 16, b mod 16 * 4]"
| "sextets [a] = [a div 4, a mod 4 * 16]"
| "sextets [] = []"

fun from_sextets :: "nat list \<Rightarrow> bytes" where
  "from_sextets (a # b # c # d # s) = [a * 4 + b div 16, b mod 16 * 16 + c div 4, c mod 4 * 64 + d] @ from_sextets s"
| "from_sextets [a, b, c] = [a * 4 + b div 16, b mod 16 * 16 + c div 4]"
| "from_sextets [a, b] = [a * 4 + b div 16]"
| "from_sextets _ = []"

definition pad_count :: "nat \<Rightarrow> nat" where
  "pad_count n = (4 - n mod 4) mod 4"

definition btoa :: "bytes \<Rightarrow> jsstr" where
  "btoa bs = (let s = map b64_char (sextets bs) in s @ replicate (pad_count (length s)) 61)"

definition strip_padding :: "jsstr \<Rightarrow> jsstr" where
  "strip_padding s =
     (if length s mod 4 \<noteq> 0 then s
      else if 2 \<le> length s \<and> drop (length s - 2) s = [61, 61] then take (length s - 2) s
      else if s \<noteq> [] \<and> last s = 61 then butlast s
      else s)"

definition atob :: "jsstr \<Rightarrow> bytes option" where
  "atob s =
     (let s = strip_padding (filter (\<lambda>c. c \<notin> {9, 10, 12, 13, 32}) s)
      in if length s mod 4 = 1 \<or> list_ex (\<lambda>c. b64_val c = None) s then None
         else Some (from_sextets (map (the \<circ> b64_val) s)))"

section \<open>base64url\<close>

definition bufToBase64url :: "bytes \<Rightarrow> jsstr" where
  "bufToBase64url buf =
     filter (\<lambda>c. c \<noteq> 61) (map (\<lambda>c. if c = 47 then 95 else c) (map (\<lambda>c. if c = 43 then 45 else c) (btoa buf)))"

definition base64urlToBuf :: "jsstr \<Rightarrow> bytes option" where
  "base64urlToBuf b64 =
     (let padded = map (\<lambda>c. if c = 95 then 47 else c) (map (\<lambda>c. if c = 45 then 43 else c) b64)
      in atob (padded @ replicate (pad_count (length padded)) 61))"

section \<open>Round trip\<close>

lemma b64_val_char [simp]: "n < 64 \<Longrightarrow> b64_val (b64_char n) = Some n"
  by (auto simp: b64_val_def b64_char_def digit_def)

lemma sextets_bound: "list_all (\<lambda>b. b < 256) bs \<Longrightarrow> list_all (\<lambda>n. n < 64) (sextets bs)"
  by (induction bs rule: sextets.induct) auto

lemma length_sextets: "length (sextets bs) mod 4 \<noteq> 1"
  by (induction bs rule: sextets.induct) auto

lemma from_sextets_sextets: "list_all (\<lambda>b. b < 256) bs \<Longrightarrow> from_sextets (sextets bs) = bs"
  by (induction bs rule: sextets.induct) auto

text \<open>The two replacements of the source as maps on characters.\<close>

definition to_url :: "nat \<Rightarrow> nat" where
  "to_url c = (if (if c = 43 then 45 else c) = 47 then 95 else if c = 43 then 45 else c)"

definition of_url :: "nat \<Rightarrow> nat" where
  "of_url c = (if (if c = 45 then 43 else c) = 95 then 47 else if c = 45 then 43 else c)"

lemma to_url_eta: "to_url = (\<lambda>c. if (if c = 43 then 45 else c) = 47 then 95 else if c = 43 then 45 else c)"
  by (rule ext) (simp add: to_url_def)

lemma of_url_eta: "of_url = (\<lambda>c. if (if c = 45 then 43 else c) = 95 then 47 else if c = 45 then 43 else c)"
  by (rule ext) (simp add: of_url_def)

lemma b64_char_cases:
  assumes "n < 64"
  obtains "65 \<le> b64_char n" "b64_char n \<le> 90" | "97 \<le> b64_char n" "b64_char n \<le> 122"
    | "48 \<le> b64_char n" "b64_char n \<le> 57" | "b64_char n = 43" | "b64_char n = 47"
proof -
  consider "n < 26" | "26 \<le> n" "n < 52" | "52 \<le> n" "n < 62" | "n = 62" | "n = 63" using assms by linarith
  then show thesis
  proof cases
    case 1 then show thesis by (intro that(1)) (simp_all add: b64_char_def)
  next
    case 2 then show thesis by (intro that(2)) (simp_all add: b64_char_def)
  next
    case 3 then show thesis by (intro that(3)) (simp_all add: b64_char_def)
  next
    case 4 then show thesis by (intro that(4)) (simp add: b64_char_def)
  next
    case 5 then show thesis by (intro that(5)) (simp add: b64_char_def)
  qed
qed

lemma b64_char_facts:
  assumes "n < 64"
  shows "of_url (to_url (b64_char n)) = b64_char n" "to_url (b64_char n) \<noteq> 61" "b64_char n \<noteq> 61"
    "b64_char n \<notin> {9, 10, 12, 13, 32}"
    "let c = to_url (b64_char n) in digit c \<or> 65 \<le> c \<and> c \<le> 90 \<or> 97 \<le> c \<and> c \<le> 122 \<or> c = 45 \<or> c = 95"
  using assms by (cases rule: b64_char_cases; simp add: to_url_def of_url_def digit_def)+

lemma buf_url: "list_all (\<lambda>b. b < 256) bs \<Longrightarrow> bufToBase64url bs = map (\<lambda>n. to_url (b64_char n)) (sextets bs)"
proof -
  assume "list_all (\<lambda>b. b < 256) bs"
  then have "n < 64" if "n \<in> set (sextets bs)" for n
    using sextets_bound that by (auto simp: list_all_iff)
  then have "filter (\<lambda>c. c \<noteq> 61) (map (\<lambda>n. to_url (b64_char n)) (sextets bs)) = map (\<lambda>n. to_url (b64_char n)) (sextets bs)"
    using b64_char_facts(2) by (auto simp: filter_id_conv)
  moreover have "bufToBase64url bs = filter (\<lambda>c. c \<noteq> 61) (map to_url (btoa bs))"
    by (simp add: bufToBase64url_def to_url_eta comp_def)
  moreover have "map to_url (btoa bs) = map (\<lambda>n. to_url (b64_char n)) (sextets bs) @ replicate (pad_count (length (sextets bs))) 61"
    by (simp add: btoa_def Let_def to_url_def comp_def)
  ultimately show ?thesis by simp
qed

lemma strip_padding_pad:
  assumes "61 \<notin> set s" "length s mod 4 \<noteq> 1"
  shows "strip_padding (s @ replicate (pad_count (length s)) 61) = s"
proof -
  consider "length s mod 4 = 0" | "length s mod 4 = 2" | "length s mod 4 = 3" using assms(2) by linarith
  then show ?thesis
  proof cases
    case 1
    have "drop (length s - 2) s \<noteq> [61, 61]" "s \<noteq> [] \<Longrightarrow> last s \<noteq> 61"
      using assms(1) set_drop_subset[of "length s - 2" s] by (auto dest: last_in_set)
    with 1 show ?thesis by (auto simp: pad_count_def strip_padding_def)
  next
    case 2
    have "(length s + 2) mod 4 = 0" using 2 by presburger
    with 2 show ?thesis by (simp add: pad_count_def strip_padding_def numeral_2_eq_2)
  next
    case 3
    have "(length s + 1) mod 4 = 0" using 3 by presburger
    moreover have "drop (length s - 1) (s @ [61]) \<noteq> [61, 61]"
      using assms(1) 3 by (cases s rule: rev_cases) auto
    ultimately show ?thesis using 3 by (simp add: pad_count_def strip_padding_def)
  qed
qed

lemma base64url_inverse:
  assumes "is_bytes buf"
  shows "base64urlToBuf (bufToBase64url buf) = Some buf"
proof -
  let ?p = "map b64_char (sextets buf)"
  have bs: "list_all (\<lambda>b. b < 256) buf" using assms by (simp add: is_bytes_def)
  then have small: "n < 64" if "n \<in> set (sextets buf)" for n
    using sextets_bound that by (auto simp: list_all_iff)
  have "map of_url (bufToBase64url buf) = ?p"
    using small b64_char_facts(1) by (simp add: buf_url[OF bs])
  then have decoded: "map (\<lambda>c. if c = 95 then 47 else c) (map (\<lambda>c. if c = 45 then 43 else c) (bufToBase64url buf)) = ?p"
    by (simp add: of_url_eta comp_def)
  have no: "61 \<notin> set ?p" using small b64_char_facts(3) by fastforce
  have len: "length ?p mod 4 \<noteq> 1" using length_sextets[of buf] by simp
  have keep: "filter (\<lambda>c. c \<notin> {9, 10, 12, 13, 32}) (?p @ replicate n 61) = ?p @ replicate n 61" for n
    using small b64_char_facts(4) by (auto simp: filter_id_conv)
  have "base64urlToBuf (bufToBase64url buf) = atob (?p @ replicate (pad_count (length ?p)) 61)"
    unfolding base64urlToBuf_def Let_def decoded ..
  also have "\<dots> = Some (from_sextets (map (the \<circ> b64_val) ?p))"
    unfolding atob_def Let_def keep strip_padding_pad[OF no len] using len small by (auto simp: list_ex_iff)
  also have "map (the \<circ> b64_val) ?p = sextets buf" using small by (simp add: map_idI)
  finally show ?thesis using from_sextets_sextets[OF bs] by simp
qed

lemma base64url_alphabet:
  assumes "is_bytes buf"
  shows "list_all (\<lambda>c. digit c \<or> 65 \<le> c \<and> c \<le> 90 \<or> 97 \<le> c \<and> c \<le> 122 \<or> c = 45 \<or> c = 95) (bufToBase64url buf)"
proof -
  have bs: "list_all (\<lambda>b. b < 256) buf" using assms by (simp add: is_bytes_def)
  then have small: "n < 64" if "n \<in> set (sextets buf)" for n
    using sextets_bound that by (auto simp: list_all_iff)
  then show ?thesis unfolding buf_url[OF bs] using b64_char_facts(5) by (auto simp: list_all_iff Let_def)
qed

lemma base64url_empty [simp]: "base64urlToBuf [] = Some []"
  unfolding base64urlToBuf_def pad_count_def atob_def Let_def strip_padding_def filter.simps list.map by simp

text \<open>Bytes written as base64url text read back as the same bytes, for every length, and the text has only letters, digits,
  hyphens and underscores (no padding).\<close>

theorem base64url_roundtrip:
  assumes "is_bytes buf"
  shows "base64urlToBuf (bufToBase64url buf) = Some buf
    \<and> list_all (\<lambda>c. digit c \<or> 65 \<le> c \<and> c \<le> 90 \<or> 97 \<le> c \<and> c \<le> 122 \<or> c = 45 \<or> c = 95) (bufToBase64url buf)"
  using base64url_inverse[OF assms] base64url_alphabet[OF assms] by simp

theorem base64url_roundtrip_witness: "base64urlToBuf (bufToBase64url [0, 255, 254, 62]) = Some [0, 255, 254, 62]"
  using base64url_roundtrip[of "[0, 255, 254, 62]"] by (simp add: is_bytes_def)

end
