(* ===== verification/Utf8.thy ===== *)
theory Utf8
  imports Base64
begin

text \<open>
  \<open>TextEncoder\<close> and \<open>TextDecoder\<close> as the client uses them: a string of UTF-16 code units becomes UTF-8 bytes, with U+FFFD for a
  lone surrogate; bytes become a string by the decoder of the Encoding Standard, which replaces a malformed sequence by U+FFFD and
  drops a leading byte order mark.
\<close>

section \<open>Code points\<close>

definition high_surrogate :: "nat \<Rightarrow> bool" where
  "high_surrogate c \<longleftrightarrow> 55296 \<le> c \<and> c \<le> 56319"

definition low_surrogate :: "nat \<Rightarrow> bool" where
  "low_surrogate c \<longleftrightarrow> 56320 \<le> c \<and> c \<le> 57343"

definition scalar :: "nat \<Rightarrow> bool" where
  "scalar c \<longleftrightarrow> c < 1114112 \<and> \<not> high_surrogate c \<and> \<not> low_surrogate c"

fun code_points :: "jsstr \<Rightarrow> nat list" where
  "code_points (a # b # s) =
     (if high_surrogate a \<and> low_surrogate b then (65536 + (a - 55296) * 1024 + (b - 56320)) # code_points s
      else (if high_surrogate a \<or> low_surrogate a then 65533 else a) # code_points (b # s))"
| "code_points [a] = [if high_surrogate a \<or> low_surrogate a then 65533 else a]"
| "code_points [] = []"

definition utf16_units :: "nat \<Rightarrow> jsstr" where
  "utf16_units c = (if c < 65536 then [c] else [55296 + (c - 65536) div 1024, 56320 + (c - 65536) mod 1024])"

text \<open>A string of 16-bit units without a lone surrogate.\<close>

fun well_paired :: "jsstr \<Rightarrow> bool" where
  "well_paired (a # b # s) =
     (if high_surrogate a \<and> low_surrogate b then well_paired s
      else \<not> high_surrogate a \<and> \<not> low_surrogate a \<and> a < 65536 \<and> well_paired (b # s))"
| "well_paired [a] \<longleftrightarrow> \<not> high_surrogate a \<and> \<not> low_surrogate a \<and> a < 65536"
| "well_paired [] \<longleftrightarrow> True"

section \<open>Encoder and decoder\<close>

definition utf8_bytes :: "nat \<Rightarrow> bytes" where
  "utf8_bytes c =
     (if c < 128 then [c]
      else if c < 2048 then [192 + c div 64, 128 + c mod 64]
      else if c < 65536 then [224 + c div 4096, 128 + c div 64 mod 64, 128 + c mod 64]
      else [240 + c div 262144, 128 + c div 4096 mod 64, 128 + c div 64 mod 64, 128 + c mod 64])"

definition encode_utf8 :: "jsstr \<Rightarrow> bytes" where
  "encode_utf8 s = concat (map utf8_bytes (code_points s))"

text \<open>The decoder's loop: continuation bytes still needed, the code point so far, and the range allowed for the next byte.\<close>

fun utf8_run :: "nat \<Rightarrow> nat \<Rightarrow> nat \<Rightarrow> nat \<Rightarrow> bytes \<Rightarrow> nat list" where
  "utf8_run needed c lower upper [] = (if needed = 0 then [] else [65533])"
| "utf8_run needed c lower upper (b # s) =
     (if needed = 0 then
        (if b < 128 then b # utf8_run 0 0 128 191 s
         else if 194 \<le> b \<and> b \<le> 223 then utf8_run 1 (b - 192) 128 191 s
         else if 224 \<le> b \<and> b \<le> 239 then
           utf8_run 2 (b - 224) (if b = 224 then 160 else 128) (if b = 237 then 159 else 191) s
         else if 240 \<le> b \<and> b \<le> 244 then
           utf8_run 3 (b - 240) (if b = 240 then 144 else 128) (if b = 244 then 143 else 191) s
         else 65533 # utf8_run 0 0 128 191 s)
      else if b < lower \<or> upper < b then 65533 # utf8_run 0 0 128 191 (b # s)
      else if needed = 1 then (c * 64 + (b - 128)) # utf8_run 0 0 128 191 s
      else utf8_run (needed - 1) (c * 64 + (b - 128)) 128 191 s)"

definition decode_utf8 :: "bytes \<Rightarrow> jsstr" where
  "decode_utf8 bs =
     concat (map utf16_units (utf8_run 0 0 128 191 (if take 3 bs = [239, 187, 191] then drop 3 bs else bs)))"

section \<open>Round trip\<close>

lemma utf8_two:
  assumes "128 \<le> c" "c < 2048"
  shows "utf8_run 0 0 128 191 ((192 + c div 64) # (128 + c mod 64) # s) = c # utf8_run 0 0 128 191 s"
proof -
  have "2 \<le> c div 64" "c div 64 \<le> 31" "c mod 64 < 64" using assms by (simp_all add: less_eq_div_iff_mult_less_eq div_le_mono2 less_mult_imp_div_less less_Suc_eq_le[symmetric])
  moreover have "c div 64 * 64 + c mod 64 = c" by simp
  ultimately show ?thesis by simp
qed

lemma run_three:
  assumes "x \<le> 15" "y < 64" "z < 64" "x = 0 \<Longrightarrow> 32 \<le> y" "x = 13 \<Longrightarrow> y \<le> 31"
  shows "utf8_run 0 0 128 191 ((224 + x) # (128 + y) # (128 + z) # s) = ((x * 64 + y) * 64 + z) # utf8_run 0 0 128 191 s"
  using assms by (cases "x = 0"; cases "x = 13") simp_all

lemma run_four:
  assumes "w \<le> 4" "x < 64" "y < 64" "z < 64" "w = 0 \<Longrightarrow> 16 \<le> x" "w = 4 \<Longrightarrow> x \<le> 15"
  shows "utf8_run 0 0 128 191 ((240 + w) # (128 + x) # (128 + y) # (128 + z) # s)
    = (((w * 64 + x) * 64 + y) * 64 + z) # utf8_run 0 0 128 191 s"
  using assms by (cases "w = 0"; cases "w = 4") simp_all

text \<open>What the digits of a code point in base 64 say about its size.\<close>

lemma digits_range:
  fixes c w x y z :: nat
  shows "(x * 64 + y) * 64 + z = c \<Longrightarrow> 2048 \<le> c \<Longrightarrow> z < 64 \<Longrightarrow> x = 0 \<Longrightarrow> 32 \<le> y"
    "(x * 64 + y) * 64 + z = c \<Longrightarrow> c < 55296 \<or> 57343 < c \<Longrightarrow> y < 64 \<Longrightarrow> z < 64 \<Longrightarrow> x = 13 \<Longrightarrow> y \<le> 31"
    "((w * 64 + x) * 64 + y) * 64 + z = c \<Longrightarrow> 65536 \<le> c \<Longrightarrow> y < 64 \<Longrightarrow> z < 64 \<Longrightarrow> w = 0 \<Longrightarrow> 16 \<le> x"
    "((w * 64 + x) * 64 + y) * 64 + z = c \<Longrightarrow> c < 1114112 \<Longrightarrow> w = 4 \<Longrightarrow> x \<le> 15"
  by simp_all

lemma div_split:
  "(c div 4096 * 64 + c div 64 mod 64) * 64 + c mod 64 = (c :: nat)"
  "((c div 262144 * 64 + c div 4096 mod 64) * 64 + c div 64 mod 64) * 64 + c mod 64 = c"
proof -
  have a: "c div 4096 = c div 64 div 64" and d: "c div 262144 = c div 4096 div 64" by (simp_all add: div_mult2_eq[symmetric])
  show one: "(c div 4096 * 64 + c div 64 mod 64) * 64 + c mod 64 = c"
    unfolding a div_mult_mod_eq ..
  have "c div 262144 * 64 + c div 4096 mod 64 = c div 4096" unfolding d div_mult_mod_eq ..
  with one show "((c div 262144 * 64 + c div 4096 mod 64) * 64 + c div 64 mod 64) * 64 + c mod 64 = c" by simp
qed

lemma mod64: "m mod 64 < (64 :: nat)"
  by simp

lemma utf8_three:
  assumes "2048 \<le> c" "c < 65536" "scalar c"
  shows "utf8_run 0 0 128 191 ((224 + c div 4096) # (128 + c div 64 mod 64) # (128 + c mod 64) # s) = c # utf8_run 0 0 128 191 s"
proof -
  have x: "c div 4096 \<le> 15" using assms(2) by linarith
  have out: "c < 55296 \<or> 57343 < c"
    using assms(3) unfolding scalar_def high_surrogate_def low_surrogate_def by linarith
  note low = digits_range(1)[OF div_split(1) assms(1) mod64]
  note high = digits_range(2)[OF div_split(1) out mod64 mod64]
  show ?thesis using run_three[OF x mod64 mod64[of c] low high, of s] unfolding div_split by simp
qed

lemma utf8_four:
  assumes "65536 \<le> c" "c < 1114112"
  shows "utf8_run 0 0 128 191 ((240 + c div 262144) # (128 + c div 4096 mod 64) # (128 + c div 64 mod 64) # (128 + c mod 64) # s)
    = c # utf8_run 0 0 128 191 s"
proof -
  have w: "c div 262144 \<le> 4" using assms(2) by linarith
  note low = digits_range(3)[OF div_split(2) assms(1) mod64 mod64]
  note high = digits_range(4)[OF div_split(2) assms(2)]
  show ?thesis using run_four[OF w mod64 mod64[of "c div 64"] mod64[of c] low high, of s] unfolding div_split by simp
qed

lemma utf8_run_bytes: "scalar c \<Longrightarrow> utf8_run 0 0 128 191 (utf8_bytes c @ s) = c # utf8_run 0 0 128 191 s"
  using utf8_two[of c s] utf8_three[of c s] utf8_four[of c s]
  by (cases "c < 128"; cases "c < 2048"; cases "c < 65536") (simp_all add: utf8_bytes_def scalar_def)

lemma utf8_run_concat:
  "list_all scalar cs \<Longrightarrow> utf8_run 0 0 128 191 (concat (map utf8_bytes cs)) = cs"
  by (induction cs) (simp_all add: utf8_run_bytes)

lemma code_points_scalar: "well_paired s \<Longrightarrow> list_all scalar (code_points s)"
  by (induction s rule: well_paired.induct) (auto simp: scalar_def high_surrogate_def low_surrogate_def split: if_splits)

lemma utf16_pair:
  assumes "high_surrogate a" "low_surrogate b"
  shows "utf16_units (65536 + (a - 55296) * 1024 + (b - 56320)) = [a, b]"
proof -
  have "b - 56320 < 1024" using assms(2) by (auto simp: low_surrogate_def)
  then have "((a - 55296) * 1024 + (b - 56320)) div 1024 = a - 55296" "((a - 55296) * 1024 + (b - 56320)) mod 1024 = b - 56320"
    by simp_all
  moreover have "55296 + (a - 55296) = a" "56320 + (b - 56320) = b" using assms by (simp_all add: high_surrogate_def low_surrogate_def)
  ultimately show ?thesis by (simp only: utf16_units_def) simp
qed

lemma utf16_code_points: "well_paired s \<Longrightarrow> concat (map utf16_units (code_points s)) = s"
proof (induction s rule: well_paired.induct)
  case (1 a b s)
  then show ?case by (cases "high_surrogate a \<and> low_surrogate b") (simp_all add: utf16_pair, simp add: utf16_units_def)
qed (simp_all add: utf16_units_def)

lemma utf8_bom: "utf8_run 0 0 128 191 (239 # 187 # 191 # s) = 65279 # utf8_run 0 0 128 191 s"
  by simp

text \<open>Only U+FEFF is encoded with the three bytes of the mark.\<close>

lemma bom_bytes:
  assumes "list_all scalar cs" "take 3 (concat (map utf8_bytes cs)) = [239, 187, 191]"
  shows "cs \<noteq> [] \<and> hd cs = 65279"
proof -
  have "concat (map utf8_bytes cs) = [239, 187, 191] @ drop 3 (concat (map utf8_bytes cs))"
    using assms(2) by (metis append_take_drop_id)
  then have "utf8_run 0 0 128 191 (concat (map utf8_bytes cs)) = 65279 # utf8_run 0 0 128 191 (drop 3 (concat (map utf8_bytes cs)))"
    by (metis (no_types) append_Cons append_Nil utf8_bom)
  then show ?thesis using utf8_run_concat[OF assms(1)] by (metis list.distinct(1) list.sel(1))
qed

theorem utf8_roundtrip:
  assumes "well_paired s" "s = [] \<or> hd s \<noteq> 65279"
  shows "decode_utf8 (encode_utf8 s) = s"
proof -
  let ?cs = "code_points s"
  have sc: "list_all scalar ?cs" using code_points_scalar[OF assms(1)] .
  have "take 3 (encode_utf8 s) \<noteq> [239, 187, 191]"
  proof
    assume "take 3 (encode_utf8 s) = [239, 187, 191]"
    then have "?cs \<noteq> []" "hd ?cs = 65279" using bom_bytes[OF sc] by (auto simp: encode_utf8_def)
    then have "concat (map utf16_units ?cs) \<noteq> [] \<and> hd (concat (map utf16_units ?cs)) = 65279"
      by (cases ?cs) (simp_all add: utf16_units_def)
    with utf16_code_points[OF assms(1)] assms(2) show False by simp
  qed
  then show ?thesis
    using utf8_run_concat[OF sc] utf16_code_points[OF assms(1)] by (simp add: decode_utf8_def encode_utf8_def)
qed

lemma is_bytes_append [simp]: "is_bytes (a @ b) \<longleftrightarrow> is_bytes a \<and> is_bytes b"
  by (simp add: is_bytes_def)

lemma is_bytes_replicate [simp]: "is_bytes (replicate n x) \<longleftrightarrow> n = 0 \<or> x < 256"
  by (auto simp: is_bytes_def list_all_iff)

lemma is_bytes_Cons [simp]: "is_bytes []" "is_bytes (x # xs) \<longleftrightarrow> x < 256 \<and> is_bytes xs"
  by (simp_all add: is_bytes_def)

lemma digit_bound: "128 + m mod 64 < (256 :: nat)"
proof -
  have "m mod 64 < 64" by simp
  then show ?thesis by linarith
qed

lemma is_bytes_utf8: "list_all scalar cs \<Longrightarrow> is_bytes (concat (map utf8_bytes cs))"
proof (induction cs)
  case (Cons c cs)
  have "is_bytes (utf8_bytes c)" if "c < 1114112"
  proof -
    have "240 + c div 262144 < 256" using that by linarith
    moreover have "224 + c div 4096 < 256" if "c < 65536" using that by linarith
    moreover have "192 + c div 64 < 256" if "c < 2048" using that by linarith
    ultimately show ?thesis
      using digit_bound[of c] digit_bound[of "c div 64"] digit_bound[of "c div 4096"]
      unfolding utf8_bytes_def is_bytes_def by (simp del: mod_less_divisor add_less_cancel_left)
  qed
  with Cons show ?case by (simp add: scalar_def)
qed (simp add: is_bytes_def)

end
