(* ===== verification/ClientCrypto.thy ===== *)
theory ClientCrypto
  imports Utf8
begin

text \<open>
  The browser's key handling and message encryption: \<open>client/src/lib/crypto.ts\<close>, the read-only decryption of old messages
  (\<open>cryptoLegacy.ts\<close>), one-time media keys (\<open>mediaEncryption.ts\<close>) and the per-device key pairs (\<open>deviceKeys.ts\<close>,
  \<open>deviceId.ts\<close>).  WebCrypto and the Rust primitives behind \<open>wasm\<close> are parameters (records of functions); what they document
  (decryption inverts encryption, both sides of an X25519 exchange agree) is a named hypothesis of the theorems that use it.
  Random bytes are arguments.  The result \<open>None\<close> of an operation is a rejected promise.  Writing to \<open>localStorage\<close> and
  IndexedDB succeeds.
\<close>

section \<open>WebCrypto\<close>

text \<open>A symmetric key is its bytes; a private key is its PKCS#8 encoding with the \<open>extractable\<close> flag.\<close>

record cryptokey =
  key_bytes :: bytes
  extractable :: bool

record webcrypto =
  gcm_encrypt :: "bytes \<Rightarrow> bytes \<Rightarrow> bytes \<Rightarrow> bytes"
  gcm_decrypt :: "bytes \<Rightarrow> bytes \<Rightarrow> bytes \<Rightarrow> bytes option"
  hkdf_sha256 :: "bytes \<Rightarrow> bytes \<Rightarrow> bytes \<Rightarrow> bytes"
  pbkdf2_sha256 :: "nat \<Rightarrow> bytes \<Rightarrow> bytes \<Rightarrow> bytes"
  x25519 :: "bytes \<Rightarrow> bytes \<Rightarrow> bytes option"
  x25519_public :: "bytes \<Rightarrow> bytes"
  pkcs8_key :: "bytes \<Rightarrow> bool"

text \<open>The documented laws: GCM decryption inverts encryption and yields bytes, and two key pairs agree on a secret.\<close>

definition gcm_inverts :: "webcrypto \<Rightarrow> bool" where
  "gcm_inverts w \<longleftrightarrow>
     (\<forall>k iv p. length iv = 12 \<longrightarrow> is_bytes p \<longrightarrow>
        is_bytes (gcm_encrypt w k iv p) \<and> gcm_decrypt w k iv (gcm_encrypt w k iv p) = Some p)"

definition gcm_authentic :: "webcrypto \<Rightarrow> bool" where
  "gcm_authentic w \<longleftrightarrow> (\<forall>k iv c p. gcm_decrypt w k iv c = Some p \<longrightarrow> c = gcm_encrypt w k iv p)"

text \<open>A ciphertext is never shorter than the 16-byte tag.\<close>

definition gcm_tagged :: "webcrypto \<Rightarrow> bool" where
  "gcm_tagged w \<longleftrightarrow> (\<forall>k iv c. length c < 16 \<longrightarrow> gcm_decrypt w k iv c = None)"

definition dh_agrees :: "webcrypto \<Rightarrow> bytes \<Rightarrow> bytes \<Rightarrow> bool" where
  "dh_agrees w a b \<longleftrightarrow>
     is_bytes (x25519_public w a) \<and> is_bytes (x25519_public w b) \<and>
     x25519 w a (x25519_public w b) = x25519 w b (x25519_public w a) \<and> x25519 w a (x25519_public w b) \<noteq> None"

section \<open>Shared keys and messages\<close>

definition public_key_text :: "webcrypto \<Rightarrow> cryptokey \<Rightarrow> jsstr" where
  "public_key_text w priv = bufToBase64url (x25519_public w (key_bytes priv))"

definition generateKeyPair :: "webcrypto \<Rightarrow> bytes \<Rightarrow> jsstr \<times> cryptokey" where
  "generateKeyPair w pkcs8 =
     (let priv = \<lparr>key_bytes = pkcs8, extractable = True\<rparr> in (public_key_text w priv, priv))"

definition deriveSharedKey :: "webcrypto \<Rightarrow> cryptokey \<Rightarrow> jsstr \<Rightarrow> bytes option" where
  "deriveSharedKey w myPrivateKey theirPublicKeyB64 =
     Option.bind (base64urlToBuf theirPublicKeyB64) (\<lambda>rawPublic.
     Option.bind (x25519 w (key_bytes myPrivateKey) rawPublic) (\<lambda>sharedBits.
       Some (hkdf_sha256 w sharedBits (replicate 32 0) (encode_utf8 (js ''messenger-e2e-v1'')))))"

definition encryptMessage :: "webcrypto \<Rightarrow> bytes \<Rightarrow> bytes \<Rightarrow> jsstr \<Rightarrow> jsstr" where
  "encryptMessage w iv aesKey plaintext = bufToBase64url (iv @ gcm_encrypt w aesKey iv (encode_utf8 plaintext))"

definition decryptMessage :: "webcrypto \<Rightarrow> bytes \<Rightarrow> jsstr \<Rightarrow> jsstr option" where
  "decryptMessage w aesKey ciphertext =
     Option.bind (base64urlToBuf ciphertext) (\<lambda>combined.
       map_option decode_utf8 (gcm_decrypt w aesKey (take 12 combined) (drop 12 combined)))"

definition encryptFile :: "webcrypto \<Rightarrow> bytes \<Rightarrow> bytes \<Rightarrow> bytes \<Rightarrow> bytes" where
  "encryptFile w iv aesKey data = iv @ gcm_encrypt w aesKey iv data"

definition decryptFile :: "webcrypto \<Rightarrow> bytes \<Rightarrow> bytes \<Rightarrow> bytes option" where
  "decryptFile w aesKey data = gcm_decrypt w aesKey (take 12 data) (drop 12 data)"

text \<open>Old messages: the same derivation and format, errors become \<open>null\<close>.\<close>

definition legacyDeriveSharedKey :: "webcrypto \<Rightarrow> cryptokey \<Rightarrow> jsstr \<Rightarrow> bytes option" where
  "legacyDeriveSharedKey w myPrivateKey theirPublicKeyB64 =
     Option.bind (base64urlToBuf theirPublicKeyB64) (\<lambda>raw.
     Option.bind (x25519 w (key_bytes myPrivateKey) raw) (\<lambda>bits.
       Some (hkdf_sha256 w bits (replicate 32 0) (encode_utf8 (js ''messenger-e2e-v1'')))))"

definition legacyDecryptText :: "webcrypto \<Rightarrow> bytes \<Rightarrow> jsstr \<Rightarrow> jsstr option" where
  "legacyDecryptText w aesKey ciphertext =
     (case base64urlToBuf ciphertext of
        None \<Rightarrow> None
      | Some combined \<Rightarrow>
          (case gcm_decrypt w aesKey (take 12 combined) (drop 12 combined) of
             None \<Rightarrow> None | Some pt \<Rightarrow> Some (decode_utf8 pt)))"

definition legacyDecryptBinary :: "webcrypto \<Rightarrow> bytes \<Rightarrow> bytes \<Rightarrow> bytes option" where
  "legacyDecryptBinary w aesKey data =
     (case gcm_decrypt w aesKey (take 12 data) (drop 12 data) of None \<Rightarrow> None | Some pt \<Rightarrow> Some pt)"

section \<open>Media keys\<close>

definition encryptMedia :: "webcrypto \<Rightarrow> bytes \<Rightarrow> bytes \<Rightarrow> bytes \<Rightarrow> bytes \<times> bytes \<times> bytes" where
  "encryptMedia w key iv data = (gcm_encrypt w key iv data, key, iv)"

definition decryptMedia :: "webcrypto \<Rightarrow> bytes \<Rightarrow> bytes \<Rightarrow> bytes \<Rightarrow> bytes option" where
  "decryptMedia w encryptedData key iv = gcm_decrypt w key iv encryptedData"

text \<open>\<open>TypedArray.prototype.set\<close>: \<open>None\<close> is the \<open>RangeError\<close> of a source that does not fit.\<close>

definition array_set :: "bytes \<Rightarrow> bytes \<Rightarrow> nat \<Rightarrow> bytes option" where
  "array_set buf src off =
     (if off + length src \<le> length buf then Some (take off buf @ src @ drop (off + length src) buf) else None)"

definition js_slice :: "nat \<Rightarrow> nat \<Rightarrow> 'a list \<Rightarrow> 'a list" where
  "js_slice from till xs = take (till - from) (drop from xs)"

definition packMediaKey :: "bytes \<Rightarrow> bytes \<Rightarrow> bytes option" where
  "packMediaKey key iv =
     Option.bind (array_set (replicate 44 0) key 0) (\<lambda>out. array_set out iv 32)"

definition unpackMediaKey :: "bytes \<Rightarrow> bytes \<times> bytes" where
  "unpackMediaKey buf = (js_slice 0 32 buf, js_slice 32 44 buf)"

definition MEDIA_KEY_PREFIX :: jsstr where
  "MEDIA_KEY_PREFIX = js ''mk:''"

section \<open>The browser's storage\<close>

text \<open>\<open>localStorage\<close> and the object store \<open>keypairs\<close>; a stored value is binary, a \<open>CryptoKey\<close> or a string.\<close>

datatype idbval = IBytes bytes | IKey cryptokey | IText jsstr

record browser =
  local :: "jsstr \<Rightarrow> jsstr option"
  keypairs :: "jsstr \<Rightarrow> idbval option"

definition vault_ls_key :: "id \<Rightarrow> jsstr" where
  "vault_ls_key userId = js ''e2e_vault_'' @ int_str userId"

definition privkey_v4 :: "id \<Rightarrow> jsstr" where
  "privkey_v4 userId = js ''privkey_v4_'' @ int_str userId"

definition privkey_v3 :: "id \<Rightarrow> jsstr" where
  "privkey_v3 userId = js ''privkey_v3_'' @ int_str userId"

definition pubkey_v4 :: "id \<Rightarrow> jsstr" where
  "pubkey_v4 userId = js ''pubkey_v4_'' @ int_str userId"

definition ls_set :: "jsstr \<Rightarrow> jsstr \<Rightarrow> browser \<Rightarrow> browser" where
  "ls_set k v b = b\<lparr>local := (local b)(k \<mapsto> v)\<rparr>"

definition ls_remove :: "jsstr \<Rightarrow> browser \<Rightarrow> browser" where
  "ls_remove k b = b\<lparr>local := (local b)(k := None)\<rparr>"

definition idbGet :: "browser \<Rightarrow> jsstr \<Rightarrow> idbval option" where
  "idbGet b k = keypairs b k"

definition idbPut :: "jsstr \<Rightarrow> idbval \<Rightarrow> browser \<Rightarrow> browser" where
  "idbPut k v b = b\<lparr>keypairs := (keypairs b)(k \<mapsto> v)\<rparr>"

definition idbDelete :: "jsstr \<Rightarrow> browser \<Rightarrow> browser" where
  "idbDelete k b = b\<lparr>keypairs := (keypairs b)(k := None)\<rparr>"

section \<open>The vault key and the stored private key\<close>

definition vault_secret :: "bytes \<Rightarrow> id \<Rightarrow> browser \<Rightarrow> jsstr \<times> browser" where
  "vault_secret rnd userId b =
     (if truthy (local b (vault_ls_key userId)) then (the (local b (vault_ls_key userId)), b)
      else (bufToBase64url rnd, ls_set (vault_ls_key userId) (bufToBase64url rnd) b))"

definition getOrCreateVaultKey :: "webcrypto \<Rightarrow> bytes \<Rightarrow> id \<Rightarrow> browser \<Rightarrow> bytes option \<times> browser" where
  "getOrCreateVaultKey w rnd userId b =
     (let (secret, b) = vault_secret rnd userId b
      in (map_option (\<lambda>raw. hkdf_sha256 w raw (encode_utf8 (js ''vault-v1-'' @ int_str userId))
                             (encode_utf8 (js ''e2e-private-key-protection'')))
           (base64urlToBuf secret), b))"

definition encryptKeyBytes :: "webcrypto \<Rightarrow> bytes \<Rightarrow> bytes \<Rightarrow> bytes \<Rightarrow> id \<Rightarrow> browser \<Rightarrow> bytes option \<times> browser" where
  "encryptKeyBytes w rnd iv rawKey userId b =
     (let (vaultKey, b) = getOrCreateVaultKey w rnd userId b
      in (map_option (\<lambda>k. iv @ gcm_encrypt w k iv rawKey) vaultKey, b))"

definition decryptKeyBytes :: "webcrypto \<Rightarrow> bytes \<Rightarrow> bytes \<Rightarrow> id \<Rightarrow> browser \<Rightarrow> bytes option \<times> browser" where
  "decryptKeyBytes w rnd encryptedData userId b =
     (let (vaultKey, b) = getOrCreateVaultKey w rnd userId b
      in (Option.bind vaultKey (\<lambda>k. gcm_decrypt w k (take 12 encryptedData) (drop 12 encryptedData)), b))"

text \<open>\<open>exportKey\<close> rejects for a key that is not extractable, before anything is stored.\<close>

definition exportKey :: "cryptokey \<Rightarrow> bytes option" where
  "exportKey k = (if extractable k then Some (key_bytes k) else None)"

definition savePrivateKey :: "webcrypto \<Rightarrow> bytes \<Rightarrow> bytes \<Rightarrow> id \<Rightarrow> cryptokey \<Rightarrow> browser \<Rightarrow> bool \<times> browser" where
  "savePrivateKey w rnd iv userId key b =
     (case exportKey key of
        None \<Rightarrow> (False, b)
      | Some rawKey \<Rightarrow>
          (case encryptKeyBytes w rnd iv rawKey userId b of
             (None, b) \<Rightarrow> (False, b)
           | (Some encrypted, b) \<Rightarrow> (True, idbPut (privkey_v4 userId) (IBytes encrypted) b)))"

definition savePublicKey :: "id \<Rightarrow> jsstr \<Rightarrow> browser \<Rightarrow> browser" where
  "savePublicKey userId pubKey b = idbPut (pubkey_v4 userId) (IText pubKey) b"

definition loadPublicKey :: "id \<Rightarrow> browser \<Rightarrow> jsstr option" where
  "loadPublicKey userId b =
     (case idbGet b (pubkey_v4 userId) of Some (IText s) \<Rightarrow> Some s | _ \<Rightarrow> None)"

text \<open>
  The value of a load: a key, \<open>null\<close>, or a rejection.  A failed decryption is caught and gives \<open>null\<close>; the final
  \<open>importKey\<close> is returned without \<open>await\<close>, so its rejection is not caught.
\<close>

datatype loaded = Loaded cryptokey | LoadNull | LoadRejected

definition importPkcs8 :: "webcrypto \<Rightarrow> bytes \<Rightarrow> cryptokey option" where
  "importPkcs8 w raw = (if pkcs8_key w raw then Some \<lparr>key_bytes = raw, extractable = True\<rparr> else None)"

definition decryptAndImport :: "webcrypto \<Rightarrow> bytes \<Rightarrow> bytes \<Rightarrow> id \<Rightarrow> browser \<Rightarrow> loaded \<times> browser" where
  "decryptAndImport w rnd encryptedData userId b =
     (case decryptKeyBytes w rnd encryptedData userId b of
        (None, b) \<Rightarrow> (LoadNull, b)
      | (Some rawKey, b) \<Rightarrow>
          ((case importPkcs8 w rawKey of Some k \<Rightarrow> Loaded k | None \<Rightarrow> LoadRejected), b))"

text \<open>The load calls itself after it has migrated a v3 key; the v3 entry is gone by then.\<close>

lemma vault_key_keypairs [simp]: "keypairs (snd (getOrCreateVaultKey w rnd u b)) = keypairs b"
  by (simp add: getOrCreateVaultKey_def vault_secret_def ls_set_def)

lemma encryptKeyBytes_keypairs: "encryptKeyBytes w rnd iv raw u b = (r, b') \<Longrightarrow> keypairs b' = keypairs b"
  using vault_key_keypairs[of w rnd u b] by (cases "getOrCreateVaultKey w rnd u b") (auto simp: encryptKeyBytes_def)

lemma privkey_keys_differ [simp]: "privkey_v4 u \<noteq> privkey_v3 v" "privkey_v3 u \<noteq> privkey_v4 v"
  "privkey_v4 u \<noteq> pubkey_v4 v" "privkey_v3 u \<noteq> pubkey_v4 v" "pubkey_v4 u \<noteq> privkey_v4 v" "pubkey_v4 u \<noteq> privkey_v3 v"
  by (simp_all add: privkey_v4_def privkey_v3_def pubkey_v4_def js_def)

lemma savePrivateKey_v3: "savePrivateKey w rnd iv u k b = (r, b') \<Longrightarrow> keypairs b' (privkey_v3 v) = keypairs b (privkey_v3 v)"
  by (auto simp: savePrivateKey_def idbPut_def split: option.splits prod.splits dest: encryptKeyBytes_keypairs)

function loadPrivateKey :: "webcrypto \<Rightarrow> bytes \<Rightarrow> bytes \<Rightarrow> id \<Rightarrow> browser \<Rightarrow> loaded \<times> browser" where
  "loadPrivateKey w rnd iv userId b =
     (case idbGet b (privkey_v4 userId) of
        Some (IBytes stored) \<Rightarrow> decryptAndImport w rnd stored userId b
      | _ \<Rightarrow>
          (case idbGet b (privkey_v3 userId) of
             Some (IKey legacy) \<Rightarrow>
               (case savePrivateKey w rnd iv userId legacy b of
                  (False, b') \<Rightarrow> (LoadNull, b')
                | (True, b') \<Rightarrow> loadPrivateKey w rnd iv userId (idbDelete (privkey_v3 userId) b'))
           | _ \<Rightarrow> (LoadNull, b)))"
  by pat_completeness auto
termination
proof (relation "measure (\<lambda>(w, rnd, iv, u, b). if keypairs b (privkey_v3 u) = None then 0 else 1)")
qed (auto simp: idbGet_def idbDelete_def)

declare loadPrivateKey.simps [simp del]

definition deletePrivateKey :: "id \<Rightarrow> browser \<Rightarrow> browser" where
  "deletePrivateKey userId b =
     idbDelete (pubkey_v4 userId) (idbDelete (privkey_v3 userId) (idbDelete (privkey_v4 userId)
       (ls_remove (vault_ls_key userId) b)))"

section \<open>The PIN backup\<close>

definition deriveKeyFromPin :: "webcrypto \<Rightarrow> jsstr \<Rightarrow> bytes \<Rightarrow> bytes" where
  "deriveKeyFromPin w pin salt = pbkdf2_sha256 w 600000 (encode_utf8 pin) salt"

definition encryptPrivateKeyWithPin :: "webcrypto \<Rightarrow> bytes \<Rightarrow> bytes \<Rightarrow> cryptokey \<Rightarrow> jsstr \<Rightarrow> (jsstr \<times> jsstr) option" where
  "encryptPrivateKeyWithPin w salt iv privateKey pin =
     (let derivedKey = deriveKeyFromPin w pin salt
      in map_option (\<lambda>rawPkcs8. (bufToBase64url (iv @ gcm_encrypt w derivedKey iv rawPkcs8), bufToBase64url salt))
           (exportKey privateKey))"

definition decryptPrivateKeyWithPin :: "webcrypto \<Rightarrow> jsstr \<Rightarrow> jsstr \<Rightarrow> jsstr \<Rightarrow> cryptokey option" where
  "decryptPrivateKeyWithPin w encryptedBlob salt pin =
     Option.bind (base64urlToBuf salt) (\<lambda>saltBytes.
     Option.bind (base64urlToBuf encryptedBlob) (\<lambda>blobBytes.
     Option.bind (gcm_decrypt w (deriveKeyFromPin w pin saltBytes) (take 12 blobBytes) (drop 12 blobBytes)) (\<lambda>rawKey.
       importPkcs8 w rawKey)))"

section \<open>Per-device keys\<close>

record device_keys =
  ikDhSecret :: bytes
  ikDhPub :: bytes
  spkSecret :: bytes
  spkPub :: bytes
  spkSig :: bytes

definition device_keys_ls :: "id \<Rightarrow> jsstr" where
  "device_keys_ls userId = js ''v3_device_keys_'' @ int_str userId"

definition unpack_device_keys :: "bytes \<Rightarrow> device_keys" where
  "unpack_device_keys buf =
     \<lparr>ikDhSecret = js_slice 0 32 buf, ikDhPub = js_slice 32 64 buf, spkSecret = js_slice 64 96 buf,
      spkPub = js_slice 96 128 buf, spkSig = js_slice 128 192 buf\<rparr>"

definition pack_device_keys :: "device_keys \<Rightarrow> bytes option" where
  "pack_device_keys k =
     Option.bind (array_set (replicate 192 0) (ikDhSecret k) 0) (\<lambda>p.
     Option.bind (array_set p (ikDhPub k) 32) (\<lambda>p.
     Option.bind (array_set p (spkSecret k) 64) (\<lambda>p.
     Option.bind (array_set p (spkPub k) 96) (\<lambda>p.
       array_set p (spkSig k) 128))))"

text \<open>\<open>ikKp\<close> and \<open>spkKp\<close> are the two pairs (secret, then public) that \<open>wasm\<close> generates; \<open>sign\<close> is its Ed25519 signature.\<close>

definition getOrCreateDeviceKeys ::
    "(bytes \<Rightarrow> bytes \<Rightarrow> bytes) \<Rightarrow> bytes \<Rightarrow> bytes \<Rightarrow> id \<Rightarrow> bytes \<Rightarrow> browser \<Rightarrow> device_keys option \<times> browser" where
  "getOrCreateDeviceKeys sign ikKp spkKp userId ikSignSeed b =
     (if truthy (local b (device_keys_ls userId))
      then (map_option unpack_device_keys (base64urlToBuf (the (local b (device_keys_ls userId)))), b)
      else
        (let k = \<lparr>ikDhSecret = js_slice 0 32 ikKp, ikDhPub = js_slice 32 64 ikKp, spkSecret = js_slice 0 32 spkKp,
                  spkPub = js_slice 32 64 spkKp, spkSig = sign ikSignSeed (js_slice 32 64 spkKp)\<rparr>
         in case pack_device_keys k of
              None \<Rightarrow> (None, b)
            | Some packed \<Rightarrow> (Some k, ls_set (device_keys_ls userId) (bufToBase64url packed) b)))"

definition clearDeviceKeys :: "id \<Rightarrow> browser \<Rightarrow> browser" where
  "clearDeviceKeys userId b = ls_remove (device_keys_ls userId) b"

definition device_id_ls :: "id \<Rightarrow> jsstr" where
  "device_id_ls userId = js ''v3_device_'' @ int_str userId"

text \<open>The inner \<open>None\<close> is \<open>NaN\<close>.\<close>

definition getStoredDeviceId :: "id \<Rightarrow> browser \<Rightarrow> int option option" where
  "getStoredDeviceId userId b =
     (if truthy (local b (device_id_ls userId)) then Some (parseInt (the (local b (device_id_ls userId)))) else None)"

definition storeDeviceId :: "id \<Rightarrow> int \<Rightarrow> browser \<Rightarrow> browser" where
  "storeDeviceId userId deviceId b = ls_set (device_id_ls userId) (int_str deviceId) b"

definition clearDeviceId :: "id \<Rightarrow> browser \<Rightarrow> browser" where
  "clearDeviceId userId b = ls_remove (device_id_ls userId) b"

section \<open>Lemmas\<close>

lemma js_append_eq_iff: "js a @ x = js a @ y \<longleftrightarrow> x = y"
  by simp

lemma nat_str_inj: "nat_str m = nat_str n \<Longrightarrow> m = n"
  by (metis dec_value_nat_str)

lemma nat_str_digits: "list_all digit (nat_str n)" "nat_str n \<noteq> []"
  using nat_str_value_aux[of n] by (simp_all add: nat_str.simps[of n])

lemma nat_str_hd: "hd (nat_str n) \<noteq> 45" "hd (nat_str n) \<noteq> 43" "\<not> js_space (hd (nat_str n))"
proof -
  have "digit (hd (nat_str n))" using nat_str_digits[of n] by (cases "nat_str n") auto
  then show "hd (nat_str n) \<noteq> 45" "hd (nat_str n) \<noteq> 43" "\<not> js_space (hd (nat_str n))"
    by (auto simp: digit_def js_space_def)
qed

lemma parseInt_int_str [simp]: "parseInt (int_str i) = Some i"
proof -
  have tw: "takeWhile digit (nat_str n) = nat_str n" for n
    using nat_str_digits(1)[of n] by (simp add: list_all_iff takeWhile_eq_all_conv)
  have dw: "dropWhile js_space (nat_str n) = nat_str n" for n
    using nat_str_hd(3) by (intro dropWhile_id) simp
  show ?thesis
  proof (cases "i < 0")
    case True
    then show ?thesis by (simp add: parseInt_def int_str_def tw nat_str_digits(2) js_space_def Let_def)
  next
    case False
    then show ?thesis
      using nat_str_hd(1,2) by (simp add: parseInt_def int_str_def dw tw nat_str_digits(2) Let_def)
  qed
qed

lemma int_str_inj [simp]: "int_str a = int_str b \<longleftrightarrow> a = b"
  by (metis option.inject parseInt_int_str)

lemma int_str_ne [simp]: "int_str a \<noteq> []"
  by (simp add: int_str_def nat_str_digits(2))

lemma storage_keys_inj [simp]:
  "vault_ls_key u = vault_ls_key v \<longleftrightarrow> u = v" "privkey_v4 u = privkey_v4 v \<longleftrightarrow> u = v"
  "privkey_v3 u = privkey_v3 v \<longleftrightarrow> u = v" "pubkey_v4 u = pubkey_v4 v \<longleftrightarrow> u = v"
  by (simp_all add: vault_ls_key_def privkey_v4_def privkey_v3_def pubkey_v4_def)

lemma is_bytes_take_drop: "is_bytes bs \<Longrightarrow> is_bytes (take n bs) \<and> is_bytes (drop n bs)"
  by (auto simp: is_bytes_def list_all_iff dest: in_set_takeD in_set_dropD)

lemma sealed_text:
  assumes "is_bytes iv" "length iv = 12" "is_bytes c"
  shows "base64urlToBuf (bufToBase64url (iv @ c)) = Some (iv @ c)" "take 12 (iv @ c) = iv" "drop 12 (iv @ c) = c"
  using base64url_inverse[of "iv @ c"] assms by simp_all

lemma gcm_invertsD:
  assumes "gcm_inverts w" "length iv = 12" "is_bytes p"
  shows "gcm_decrypt w k iv (gcm_encrypt w k iv p) = Some p" "is_bytes (gcm_encrypt w k iv p)"
  using assms by (auto simp: gcm_inverts_def)

text \<open>The vault key is the same at every later call, whatever random bytes are offered.\<close>

lemma btoa_url_ne: "bs \<noteq> [] \<Longrightarrow> is_bytes bs \<Longrightarrow> bufToBase64url bs \<noteq> []"
  using base64url_inverse[of bs] base64url_empty by auto

lemma vault_key_stable:
  assumes "getOrCreateVaultKey w rnd u b = (k, b')" "is_bytes rnd" "rnd \<noteq> []" "local b'' (vault_ls_key u) = local b' (vault_ls_key u)"
  shows "getOrCreateVaultKey w rnd' u b'' = (k, b'')"
  using assms btoa_url_ne[OF assms(3,2)]
  by (auto simp: getOrCreateVaultKey_def vault_secret_def ls_set_def Let_def split: if_splits)

lemma encryptKeyBytes_decrypt:
  assumes "gcm_inverts w" "encryptKeyBytes w rnd iv raw u b = (Some e, b')" "is_bytes rnd" "rnd \<noteq> []"
    "length iv = 12" "is_bytes raw" "local b'' = local b'"
  shows "decryptKeyBytes w rnd' e u b'' = (Some raw, b'')"
proof -
  obtain k where k: "getOrCreateVaultKey w rnd u b = (Some k, b')" and e: "e = iv @ gcm_encrypt w k iv raw"
    using assms(2) by (auto simp: encryptKeyBytes_def split: prod.splits)
  have "getOrCreateVaultKey w rnd' u b'' = (Some k, b'')"
    using vault_key_stable[OF k assms(3,4)] assms(7) by simp
  then show ?thesis using e assms(5) gcm_invertsD(1)[OF assms(1,5,6)] by (simp add: decryptKeyBytes_def)
qed

lemma save_then_load:
  assumes "gcm_inverts w" "savePrivateKey w rnd iv u k b = (True, b')" "is_bytes rnd" "rnd \<noteq> []" "length iv = 12"
    "is_bytes (key_bytes k)" "pkcs8_key w (key_bytes k)" "local b'' = local b'"
    "keypairs b'' (privkey_v4 u) = keypairs b' (privkey_v4 u)"
  shows "loadPrivateKey w rnd' iv' u b'' = (Loaded (k\<lparr>extractable := True\<rparr>), b'')"
proof -
  obtain e b1 where e: "encryptKeyBytes w rnd iv (key_bytes k) u b = (Some e, b1)"
    and b': "b' = idbPut (privkey_v4 u) (IBytes e) b1"
    using assms(2) by (auto simp: savePrivateKey_def exportKey_def split: option.splits prod.splits if_splits)
  have "decryptKeyBytes w rnd' e u b'' = (Some (key_bytes k), b'')"
    using encryptKeyBytes_decrypt[OF assms(1) e assms(3-6)] assms(8) b' by (simp add: idbPut_def)
  moreover have "idbGet b'' (privkey_v4 u) = Some (IBytes e)" using assms(9) b' by (simp add: idbGet_def idbPut_def)
  ultimately show ?thesis
    using assms(7) by (subst loadPrivateKey.simps) (simp add: decryptAndImport_def importPkcs8_def)
qed

lemma load_migrates:
  assumes "gcm_inverts w" "is_bytes rnd" "rnd \<noteq> []" "length iv = 12"
    "is_bytes (key_bytes k)" "pkcs8_key w (key_bytes k)"
    "keypairs b (privkey_v3 u) = Some (IKey k)" "\<forall>e. keypairs b (privkey_v4 u) \<noteq> Some (IBytes e)"
    "savePrivateKey w rnd iv u k b = (True, b')"
  shows "loadPrivateKey w rnd iv u b = (Loaded (k\<lparr>extractable := True\<rparr>), idbDelete (privkey_v3 u) b')"
proof -
  have step: "loadPrivateKey w rnd iv u b = loadPrivateKey w rnd iv u (idbDelete (privkey_v3 u) b')"
    using assms(7-9) by (subst loadPrivateKey.simps) (auto simp: idbGet_def split: option.splits idbval.splits)
  show ?thesis unfolding step
    by (rule save_then_load[OF assms(1,9,2-6)]) (simp_all add: idbDelete_def)
qed

lemma load_without_key:
  assumes "keypairs b (privkey_v4 u) = None" "keypairs b (privkey_v3 u) = None"
  shows "loadPrivateKey w rnd iv u b = (LoadNull, b)"
  using assms by (subst loadPrivateKey.simps) (simp add: idbGet_def)

text \<open>A toy cipher that satisfies the laws: the tag is constant.\<close>

definition toy_crypto :: webcrypto where
  "toy_crypto = \<lparr>gcm_encrypt = (\<lambda>k iv p. p @ replicate 16 7),
     gcm_decrypt = (\<lambda>k iv c. if 16 \<le> length c \<and> drop (length c - 16) c = replicate 16 7 then Some (take (length c - 16) c) else None),
     hkdf_sha256 = (\<lambda>ikm salt info. ikm), pbkdf2_sha256 = (\<lambda>n p salt. p @ salt),
     x25519 = (\<lambda>priv pub. Some [(hd priv + hd pub) mod 256]), x25519_public = (\<lambda>priv. [hd priv mod 256]),
     pkcs8_key = (\<lambda>raw. raw \<noteq> [])\<rparr>"

lemma toy_inverts: "gcm_inverts toy_crypto"
  by (auto simp: gcm_inverts_def toy_crypto_def)

lemma toy_authentic: "gcm_authentic toy_crypto"
  by (auto simp: gcm_authentic_def toy_crypto_def split: if_splits) (metis append_take_drop_id)

lemma toy_tagged: "gcm_tagged toy_crypto"
  by (simp add: gcm_tagged_def toy_crypto_def)

section \<open>Properties\<close>

text \<open>A saved private key is the one that is loaded, also after other entries changed: once \<open>savePrivateKey\<close> has succeeded, a load
  in any later state with the same vault secret and the same v4 entry gives the same key (now always extractable) and changes
  nothing, whatever random bytes it is offered.  A key stored in the old v3 form is loaded through one migration that removes the
  v3 entry, and after \<open>deletePrivateKey\<close> there is nothing to load, for this user only.\<close>

theorem private_key_persistence:
  assumes "gcm_inverts w" "is_bytes rnd" "rnd \<noteq> []" "length iv = 12" "is_bytes (key_bytes k)" "pkcs8_key w (key_bytes k)"
    "savePrivateKey w rnd iv u k b = (True, b')"
  shows "(local b'' = local b' \<and> keypairs b'' (privkey_v4 u) = keypairs b' (privkey_v4 u)
        \<longrightarrow> loadPrivateKey w rnd' iv' u b'' = (Loaded (k\<lparr>extractable := True\<rparr>), b''))
    \<and> (keypairs b (privkey_v3 u) = Some (IKey k) \<and> keypairs b (privkey_v4 u) = None
        \<longrightarrow> loadPrivateKey w rnd iv u b = (Loaded (k\<lparr>extractable := True\<rparr>), idbDelete (privkey_v3 u) b'))
    \<and> loadPrivateKey w rnd' iv' u (deletePrivateKey u b') = (LoadNull, deletePrivateKey u b')
    \<and> (v \<noteq> u \<longrightarrow> keypairs (deletePrivateKey u b') (privkey_v4 v) = keypairs b (privkey_v4 v)
        \<and> local (deletePrivateKey u b') (vault_ls_key v) = local b (vault_ls_key v))"
proof (intro conjI impI)
  have other: "keypairs b' (privkey_v4 v) = keypairs b (privkey_v4 v) \<and> local b' (vault_ls_key v) = local b (vault_ls_key v)"
    if "v \<noteq> u"
    using assms(7) that
    by (auto simp: savePrivateKey_def encryptKeyBytes_def getOrCreateVaultKey_def vault_secret_def idbPut_def ls_set_def
        split: option.splits prod.splits if_splits)
  show "loadPrivateKey w rnd' iv' u b'' = (Loaded (k\<lparr>extractable := True\<rparr>), b'')"
    if "local b'' = local b' \<and> keypairs b'' (privkey_v4 u) = keypairs b' (privkey_v4 u)"
    using save_then_load[OF assms(1,7,2-6)] that by simp
  show "loadPrivateKey w rnd iv u b = (Loaded (k\<lparr>extractable := True\<rparr>), idbDelete (privkey_v3 u) b')"
    if "keypairs b (privkey_v3 u) = Some (IKey k) \<and> keypairs b (privkey_v4 u) = None"
    using load_migrates[OF assms(1-6) _ _ assms(7)] that by simp
  show "loadPrivateKey w rnd' iv' u (deletePrivateKey u b') = (LoadNull, deletePrivateKey u b')"
    by (rule load_without_key) (simp_all add: deletePrivateKey_def idbDelete_def ls_remove_def)
  show "keypairs (deletePrivateKey u b') (privkey_v4 v) = keypairs b (privkey_v4 v)" if "v \<noteq> u"
    using other that by (simp add: deletePrivateKey_def idbDelete_def ls_remove_def)
  show "local (deletePrivateKey u b') (vault_ls_key v) = local b (vault_ls_key v)" if "v \<noteq> u"
    using other that by (simp add: deletePrivateKey_def idbDelete_def ls_remove_def)
qed

theorem private_key_persistence_witness:
  "\<exists>b'. savePrivateKey toy_crypto [1] (replicate 12 5) 3 \<lparr>key_bytes = [9, 8], extractable = True\<rparr>
        \<lparr>local = (\<lambda>_. None), keypairs = (\<lambda>_. None)\<rparr> = (True, b')
     \<and> loadPrivateKey toy_crypto [2] [] 3 b' = (Loaded \<lparr>key_bytes = [9, 8], extractable = True\<rparr>, b')"
proof -
  let ?k = "\<lparr>key_bytes = [9, 8], extractable = True\<rparr>"
  let ?b = "\<lparr>local = (\<lambda>_. None), keypairs = (\<lambda>_. None)\<rparr>"
  obtain b' where b': "savePrivateKey toy_crypto [1] (replicate 12 5) 3 ?k ?b = (True, b')"
    using base64url_inverse[of "[1]"]
    by (simp add: savePrivateKey_def exportKey_def encryptKeyBytes_def getOrCreateVaultKey_def vault_secret_def is_bytes_def)
  have "loadPrivateKey toy_crypto [2] [] 3 b' = (Loaded (?k\<lparr>extractable := True\<rparr>), b')"
    using private_key_persistence[OF toy_inverts _ _ _ _ _ b', of b' "[2]" "[]" 3]
    by (simp add: is_bytes_def toy_crypto_def)
  with b' show ?thesis by simp
qed

text \<open>Two users who know each other's published keys read each other's v1 messages: what one encrypts under the key derived from
  his private key and her public key, she decrypts under the key derived from hers and his, for every text without lone
  surrogates that does not begin with a byte order mark, and the read-only decryption of old messages agrees.  A text that
  decrypts at all is the encryption of what was read.\<close>

theorem direct_message_roundtrip:
  assumes "gcm_inverts w" "gcm_authentic w" "dh_agrees w (key_bytes a) (key_bytes b)"
    "length iv = 12" "is_bytes iv" "well_paired text" "text = [] \<or> hd text \<noteq> 65279"
  shows "\<exists>key. deriveSharedKey w a (public_key_text w b) = Some key
      \<and> deriveSharedKey w b (public_key_text w a) = Some key
      \<and> decryptMessage w key (encryptMessage w iv key text) = Some text
      \<and> legacyDeriveSharedKey w b (public_key_text w a) = Some key
      \<and> legacyDecryptText w key (encryptMessage w iv key text) = Some text
      \<and> (\<forall>c t. decryptMessage w key c = Some t
           \<longrightarrow> (\<exists>raw p. base64urlToBuf c = Some raw \<and> drop 12 raw = gcm_encrypt w key (take 12 raw) p \<and> t = decode_utf8 p))"
proof -
  obtain s where s: "x25519 w (key_bytes a) (x25519_public w (key_bytes b)) = Some s"
    "x25519 w (key_bytes b) (x25519_public w (key_bytes a)) = Some s"
    using assms(3) by (metis dh_agrees_def not_None_eq)
  let ?key = "hkdf_sha256 w s (replicate 32 0) (encode_utf8 (js ''messenger-e2e-v1''))"
  have pub: "base64urlToBuf (public_key_text w x) = Some (x25519_public w (key_bytes x))" if "x \<in> {a, b}" for x
    using that assms(3) base64url_inverse by (auto simp: public_key_text_def dh_agrees_def)
  have enc: "is_bytes (encode_utf8 text)"
    using is_bytes_utf8[OF code_points_scalar[OF assms(6)]] by (simp add: encode_utf8_def)
  note sealed = sealed_text[OF assms(5,4) gcm_invertsD(2)[OF assms(1,4) enc, of ?key]]
  have "decryptMessage w ?key (encryptMessage w iv ?key text) = Some text"
    "legacyDecryptText w ?key (encryptMessage w iv ?key text) = Some text"
    unfolding decryptMessage_def legacyDecryptText_def encryptMessage_def sealed
    using gcm_invertsD(1)[OF assms(1,4) enc] utf8_roundtrip[OF assms(6,7)] sealed(2,3) by simp_all
  moreover have "deriveSharedKey w a (public_key_text w b) = Some ?key" "deriveSharedKey w b (public_key_text w a) = Some ?key"
    "legacyDeriveSharedKey w b (public_key_text w a) = Some ?key"
    using s pub by (simp_all add: deriveSharedKey_def legacyDeriveSharedKey_def)
  ultimately show ?thesis using assms(2) by (fastforce simp: decryptMessage_def gcm_authentic_def bind_eq_Some_conv)
qed

theorem direct_message_roundtrip_witness:
  "\<exists>key. deriveSharedKey toy_crypto \<lparr>key_bytes = [3], extractable = True\<rparr> (public_key_text toy_crypto \<lparr>key_bytes = [4], extractable = False\<rparr>)
       = Some key
     \<and> decryptMessage toy_crypto key (encryptMessage toy_crypto (replicate 12 1) key (js ''hi'')) = Some (js ''hi'')"
proof -
  note toy_authentic
  moreover have "dh_agrees toy_crypto [3] [4]" by (simp add: dh_agrees_def toy_crypto_def is_bytes_def)
  moreover have "well_paired (js ''hi'')" "hd (js ''hi'') \<noteq> 65279" "is_bytes (replicate 12 1)"
    by (simp_all add: js_def high_surrogate_def low_surrogate_def)
  ultimately show ?thesis
    using direct_message_roundtrip[OF toy_inverts, of "\<lparr>key_bytes = [3], extractable = True\<rparr>" "\<lparr>key_bytes = [4], extractable = False\<rparr>"
        "replicate 12 1" "js ''hi''"] by auto
qed

text \<open>A private key backed up under a PIN comes back under the same PIN: the stored blob and salt are text, any salt and any PIN
  are good, the restored key is the same key and is extractable, so that it can be backed up again under another PIN; a key that
  is not extractable is never backed up.\<close>

theorem pin_backup_roundtrip:
  assumes "gcm_inverts w" "length iv = 12" "is_bytes iv" "is_bytes salt" "is_bytes (key_bytes k)" "pkcs8_key w (key_bytes k)"
  shows "(extractable k
      \<longrightarrow> (\<exists>blob s. encryptPrivateKeyWithPin w salt iv k pin = Some (blob, s)
           \<and> decryptPrivateKeyWithPin w blob s pin = Some (k\<lparr>extractable := True\<rparr>)
           \<and> (\<forall>pin'. encryptPrivateKeyWithPin w salt iv (the (decryptPrivateKeyWithPin w blob s pin)) pin' \<noteq> None)))
    \<and> (\<not> extractable k \<longrightarrow> encryptPrivateKeyWithPin w salt iv k pin = None)"
proof -
  let ?d = "deriveKeyFromPin w pin salt"
  note sealed = sealed_text[OF assms(3,2) gcm_invertsD(2)[OF assms(1,2,5), of ?d]]
  have "decryptPrivateKeyWithPin w (bufToBase64url (iv @ gcm_encrypt w ?d iv (key_bytes k))) (bufToBase64url salt) pin
      = Some (k\<lparr>extractable := True\<rparr>)"
    using sealed(2,3) gcm_invertsD(1)[OF assms(1,2,5)] assms(6)
    unfolding decryptPrivateKeyWithPin_def base64url_inverse[OF assms(4)] sealed(1) by (simp add: importPkcs8_def)
  then show ?thesis by (auto simp: encryptPrivateKeyWithPin_def Let_def exportKey_def)
qed

theorem pin_backup_roundtrip_witness:
  "\<exists>blob s. encryptPrivateKeyWithPin toy_crypto [4, 5] (replicate 12 1) \<lparr>key_bytes = [3, 200], extractable = True\<rparr> (js ''0000'') = Some (blob, s)
     \<and> decryptPrivateKeyWithPin toy_crypto blob s (js ''0000'') = Some \<lparr>key_bytes = [3, 200], extractable = True\<rparr>"
proof -
  have "pkcs8_key toy_crypto [3, 200]" by (simp add: toy_crypto_def)
  then show ?thesis
    using pin_backup_roundtrip[OF toy_inverts, of "replicate 12 1" "[4, 5]" "\<lparr>key_bytes = [3, 200], extractable = True\<rparr>" "js ''0000''"]
    by auto
qed

lemma js_slice_append:
  "length a = 32 \<Longrightarrow> js_slice 0 32 (a @ b) = a"
  "length a = n \<Longrightarrow> js_slice (n + i) (n + j) (a @ b) = js_slice i j b"
  by (simp_all add: js_slice_def)

lemma array_set_fits:
  "length a = off \<Longrightarrow> length src \<le> n \<Longrightarrow> array_set (a @ replicate n 0) src off = Some (a @ src @ replicate (n - length src) 0)"
  by (simp add: array_set_def)

lemma pack_device_keys_concat:
  assumes "length (ikDhSecret k) = 32" "length (ikDhPub k) = 32" "length (spkSecret k) = 32" "length (spkPub k) = 32"
    "length (spkSig k) = 64"
  shows "pack_device_keys k = Some (ikDhSecret k @ ikDhPub k @ spkSecret k @ spkPub k @ spkSig k)"
  using assms array_set_fits[of "[]" 0 "ikDhSecret k" 192] array_set_fits[of "ikDhSecret k" 32 "ikDhPub k" 160]
    array_set_fits[of "ikDhSecret k @ ikDhPub k" 64 "spkSecret k" 128]
    array_set_fits[of "ikDhSecret k @ ikDhPub k @ spkSecret k" 96 "spkPub k" 96]
    array_set_fits[of "ikDhSecret k @ ikDhPub k @ spkSecret k @ spkPub k" 128 "spkSig k" 64]
  by (simp add: pack_device_keys_def)

lemma unpack_device_keys_concat:
  assumes "length a = 32" "length b = 32" "length c = 32" "length d = 32" "length e = 64"
  shows "unpack_device_keys (a @ b @ c @ d @ e) = \<lparr>ikDhSecret = a, ikDhPub = b, spkSecret = c, spkPub = d, spkSig = e\<rparr>"
  using assms by (simp add: unpack_device_keys_def js_slice_def)

lemma media_key_roundtrip:
  "length key = 32 \<Longrightarrow> length iv = 12 \<Longrightarrow> map_option unpackMediaKey (packMediaKey key iv) = Some (key, iv)"
  using array_set_fits[of "[]" 0 key 44] array_set_fits[of key 32 iv 12]
  by (simp add: packMediaKey_def unpackMediaKey_def js_slice_def)

text \<open>A browser keeps one device key pair per user: the first call of \<open>getOrCreateDeviceKeys\<close> stores what it generated, and every
  later call with the same stored text returns exactly these keys, whatever new key pairs and signatures are offered, until
  \<open>clearDeviceKeys\<close>; another user's stored keys do not change.\<close>

theorem device_keys_stable:
  assumes "length ik = 64" "length spk = 64" "is_bytes ik" "is_bytes spk"
    "\<forall>m. length (sign seed m) = 64 \<and> is_bytes (sign seed m)" "local b (device_keys_ls u) = None"
    "getOrCreateDeviceKeys sign ik spk u seed b = (r, b')"
  shows "\<exists>k. r = Some k \<and> ikDhSecret k @ ikDhPub k = ik \<and> spkSecret k @ spkPub k = spk \<and> spkSig k = sign seed (spkPub k)
    \<and> (\<forall>b''. local b'' (device_keys_ls u) = local b' (device_keys_ls u)
         \<longrightarrow> getOrCreateDeviceKeys sign' ik' spk' u seed' b'' = (Some k, b''))
    \<and> local (clearDeviceKeys u b') (device_keys_ls u) = None
    \<and> (v \<noteq> u \<longrightarrow> local b' (device_keys_ls v) = local b (device_keys_ls v))"
proof -
  let ?k = "\<lparr>ikDhSecret = js_slice 0 32 ik, ikDhPub = js_slice 32 64 ik, spkSecret = js_slice 0 32 spk, spkPub = js_slice 32 64 spk,
    spkSig = sign seed (js_slice 32 64 spk)\<rparr>"
  let ?packed = "js_slice 0 32 ik @ js_slice 32 64 ik @ js_slice 0 32 spk @ js_slice 32 64 spk @ sign seed (js_slice 32 64 spk)"
  have len: "length (js_slice 0 32 ik) = 32" "length (js_slice 32 64 ik) = 32" "length (js_slice 0 32 spk) = 32"
    "length (js_slice 32 64 spk) = 32" "length (sign seed (js_slice 32 64 spk)) = 64"
    using assms(1,2,5) by (simp_all add: js_slice_def)
  have pack: "pack_device_keys ?k = Some ?packed" using pack_device_keys_concat[of ?k] len by simp
  have bytes: "is_bytes ?packed"
    using assms(3-5) by (simp add: js_slice_def) (simp add: is_bytes_take_drop)
  have res: "r = Some ?k" "b' = ls_set (device_keys_ls u) (bufToBase64url ?packed) b"
    using assms(6,7) pack by (simp_all add: getOrCreateDeviceKeys_def Let_def)
  have stored: "local b' (device_keys_ls u) = Some (bufToBase64url ?packed)" using res by (simp add: ls_set_def)
  have ne: "bufToBase64url ?packed \<noteq> []" using btoa_url_ne[OF _ bytes] len(1) by (metis append_is_Nil_conv list.size(3) zero_neq_numeral)
  have again: "getOrCreateDeviceKeys sign' ik' spk' u seed' b'' = (Some ?k, b'')"
    if "local b'' (device_keys_ls u) = local b' (device_keys_ls u)" for b''
    using that stored ne base64url_inverse[OF bytes] unpack_device_keys_concat[OF len] by (simp add: getOrCreateDeviceKeys_def)
  have "js_slice 0 32 x @ js_slice 32 64 x = x" if "length x = 64" for x :: bytes
    using that by (simp add: js_slice_def)
  then have "ikDhSecret ?k @ ikDhPub ?k = ik \<and> spkSecret ?k @ spkPub ?k = spk \<and> spkSig ?k = sign seed (spkPub ?k)"
    using assms(1,2) by simp
  then show ?thesis using res again
    by (intro exI[of _ ?k]) (simp add: clearDeviceKeys_def ls_remove_def ls_set_def device_keys_ls_def)
qed

theorem device_keys_stable_witness:
  "\<exists>k b'. getOrCreateDeviceKeys (\<lambda>_ _. replicate 64 9) (replicate 64 1) (replicate 64 2) 5 [] \<lparr>local = (\<lambda>_. None), keypairs = (\<lambda>_. None)\<rparr> = (Some k, b')
     \<and> getOrCreateDeviceKeys (\<lambda>_ _. []) [] [] 5 [] b' = (Some k, b')"
proof -
  obtain r b' where e: "getOrCreateDeviceKeys (\<lambda>_ _. replicate 64 9) (replicate 64 1) (replicate 64 2) 5 [] \<lparr>local = (\<lambda>_. None), keypairs = (\<lambda>_. None)\<rparr> = (r, b')"
    by (cases "getOrCreateDeviceKeys (\<lambda>_ _. replicate 64 9) (replicate 64 1) (replicate 64 2) 5 [] \<lparr>local = (\<lambda>_. None), keypairs = (\<lambda>_. None)\<rparr>")
  show ?thesis
    using device_keys_stable[OF _ _ _ _ _ _ e, of "\<lambda>_ _. []" "[]" "[]" "[]" 5] e by fastforce
qed

end
