(* ===== verification/CryptoDb.thy ===== *)
theory CryptoDb
  imports ClientCrypto Metadata
begin

text \<open>
  The browser's database of end-to-end encryption, \<open>client/src/lib/cryptoDb.ts\<close>: identity keys sealed under a vault key, ratchet
  and group sessions, the cache of decrypted messages, media keys, and the export and import of all records for the transfer to
  another device.  A store is the list of its records in key order; a value is binary, the identity object, the plaintext object
  or another parsed JSON value.  \<open>None\<close> as a result of an operation that can throw is the exception.
\<close>

datatype store_name = Identity | Ratchet | GroupSender | GroupReceiver | MsgPlaintext | MediaKeys

datatype dbval =
    DBuf bytes
  | DIdentity bytes bytes
  | DText jsstr bool
  | DJson json

record crypto_db =
  ls :: "jsstr \<Rightarrow> jsstr option"
  stores :: "store_name \<Rightarrow> (jsstr, dbval) jsmap"
  pendingMediaKeys :: "(jsstr, bytes \<times> bytes) jsmap"

definition empty_db :: crypto_db where
  "empty_db = \<lparr>ls = (\<lambda>_. None), stores = (\<lambda>_. []), pendingMediaKeys = []\<rparr>"

definition SYNC_STORES :: "(store_name \<times> nat \<times> bool) list" where
  "SYNC_STORES = [(Identity, 1, True), (Ratchet, 2, True), (GroupSender, 3, True), (GroupReceiver, 4, True),
     (MsgPlaintext, 5, False), (MediaKeys, 6, True)]"

definition db_get :: "crypto_db \<Rightarrow> store_name \<Rightarrow> jsstr \<Rightarrow> dbval option" where
  "db_get db s k = mget (stores db s) k"

definition db_put :: "store_name \<Rightarrow> jsstr \<Rightarrow> dbval \<Rightarrow> crypto_db \<Rightarrow> crypto_db" where
  "db_put s k v db = db\<lparr>stores := (stores db)(s := mset_at k v (stores db s))\<rparr>"

definition db_delete :: "store_name \<Rightarrow> jsstr \<Rightarrow> crypto_db \<Rightarrow> crypto_db" where
  "db_delete s k db = db\<lparr>stores := (stores db)(s := mdelete k (stores db s))\<rparr>"

definition db_clear :: "store_name \<Rightarrow> crypto_db \<Rightarrow> crypto_db" where
  "db_clear s db = db\<lparr>stores := (stores db)(s := [])\<rparr>"

text \<open>\<open>new Uint8Array(v)\<close> of a stored value: an object without a length gives the empty array.\<close>

definition as_array :: "dbval \<Rightarrow> bytes" where
  "as_array v = (case v of DBuf b \<Rightarrow> b | _ \<Rightarrow> [])"

section \<open>The vault and the identity keys\<close>

definition v2_vault_key :: "id \<Rightarrow> jsstr" where
  "v2_vault_key userId = js ''v2_vault_'' @ int_str userId"

definition vaultKey :: "webcrypto \<Rightarrow> bytes \<Rightarrow> id \<Rightarrow> crypto_db \<Rightarrow> bytes option \<times> crypto_db" where
  "vaultKey w rnd userId db =
     (let (secret, db) = (if truthy (ls db (v2_vault_key userId)) then (the (ls db (v2_vault_key userId)), db)
                          else (bufToBase64url rnd, db\<lparr>ls := (ls db)(v2_vault_key userId \<mapsto> bufToBase64url rnd)\<rparr>))
      in (map_option (\<lambda>raw. hkdf_sha256 w raw (replicate 32 0) (encode_utf8 (js ''v2-identity-vault''))) (base64urlToBuf secret), db))"

definition vaultEncrypt :: "webcrypto \<Rightarrow> bytes \<Rightarrow> bytes \<Rightarrow> id \<Rightarrow> bytes \<Rightarrow> crypto_db \<Rightarrow> bytes option \<times> crypto_db" where
  "vaultEncrypt w rnd iv userId data db =
     (let (k, db) = vaultKey w rnd userId db in (map_option (\<lambda>k. iv @ gcm_encrypt w k iv data) k, db))"

definition vaultDecrypt :: "webcrypto \<Rightarrow> bytes \<Rightarrow> id \<Rightarrow> bytes \<Rightarrow> crypto_db \<Rightarrow> bytes option \<times> crypto_db" where
  "vaultDecrypt w rnd userId data db =
     (let (k, db) = vaultKey w rnd userId db in (Option.bind k (\<lambda>k. gcm_decrypt w k (take 12 data) (drop 12 data)), db))"

record identity_keys =
  ikSignSeed :: bytes
  ikSignPub :: bytes
  id_ikDhSecret :: bytes
  id_ikDhPub :: bytes
  id_spkSecret :: bytes
  id_spkPub :: bytes
  id_spkSig :: bytes

definition priv_blob :: "identity_keys \<Rightarrow> bytes option" where
  "priv_blob k =
     Option.bind (array_set (replicate 96 0) (id_ikDhSecret k) 0) (\<lambda>b.
     Option.bind (array_set b (ikSignSeed k) 32) (\<lambda>b. array_set b (id_spkSecret k) 64))"

definition pub_blob :: "identity_keys \<Rightarrow> bytes option" where
  "pub_blob k =
     Option.bind (array_set (replicate 160 0) (ikSignPub k) 0) (\<lambda>b.
     Option.bind (array_set b (id_ikDhPub k) 32) (\<lambda>b.
     Option.bind (array_set b (id_spkPub k) 64) (\<lambda>b. array_set b (id_spkSig k) 96)))"

definition saveIdentityKeys :: "webcrypto \<Rightarrow> bytes \<Rightarrow> bytes \<Rightarrow> id \<Rightarrow> identity_keys \<Rightarrow> crypto_db \<Rightarrow> bool \<times> crypto_db" where
  "saveIdentityKeys w rnd iv userId keys db =
     (case priv_blob keys of
        None \<Rightarrow> (False, db)
      | Some priv \<Rightarrow>
          (case vaultEncrypt w rnd iv userId priv db of
             (None, db) \<Rightarrow> (False, db)
           | (Some enc, db) \<Rightarrow>
               (case pub_blob keys of
                  None \<Rightarrow> (False, db)
                | Some pub \<Rightarrow> (True, db_put Identity (int_str userId) (DIdentity enc pub) db))))"

text \<open>A record without the fields \<open>enc\<close> and \<open>pub\<close> is read as two empty arrays.\<close>

definition loadIdentityKeys :: "webcrypto \<Rightarrow> bytes \<Rightarrow> id \<Rightarrow> crypto_db \<Rightarrow> identity_keys option \<times> crypto_db" where
  "loadIdentityKeys w rnd userId db =
     (case db_get db Identity (int_str userId) of
        None \<Rightarrow> (None, db)
      | Some rec \<Rightarrow>
          (let (enc, pub) = (case rec of DIdentity e p \<Rightarrow> (e, p) | _ \<Rightarrow> ([], []))
           in case vaultDecrypt w rnd userId enc db of
                (None, db) \<Rightarrow> (None, db)
              | (Some priv, db) \<Rightarrow>
                  (Some \<lparr>ikSignSeed = js_slice 32 64 priv, ikSignPub = js_slice 0 32 pub, id_ikDhSecret = js_slice 0 32 priv,
                         id_ikDhPub = js_slice 32 64 pub, id_spkSecret = js_slice 64 96 priv, id_spkPub = js_slice 64 96 pub,
                         id_spkSig = js_slice 96 160 pub\<rparr>, db)))"

definition deleteIdentityKeys :: "id \<Rightarrow> crypto_db \<Rightarrow> crypto_db" where
  "deleteIdentityKeys userId db =
     db_delete Identity (int_str userId) (db\<lparr>ls := (ls db)(v2_vault_key userId := None)\<rparr>)"

section \<open>Sessions\<close>

definition saveRatchetSession :: "jsstr \<Rightarrow> bytes \<Rightarrow> crypto_db \<Rightarrow> crypto_db" where
  "saveRatchetSession convKey b db = db_put Ratchet convKey (DBuf b) db"

definition loadRatchetSession :: "jsstr \<Rightarrow> crypto_db \<Rightarrow> bytes option" where
  "loadRatchetSession convKey db = map_option as_array (db_get db Ratchet convKey)"

definition deleteRatchetSession :: "jsstr \<Rightarrow> crypto_db \<Rightarrow> crypto_db" where
  "deleteRatchetSession convKey db = db_delete Ratchet convKey db"

definition clearAllRatchetSessions :: "crypto_db \<Rightarrow> crypto_db" where
  "clearAllRatchetSessions db = db_clear Ratchet db"

definition saveGroupSender :: "id \<Rightarrow> bytes \<Rightarrow> crypto_db \<Rightarrow> crypto_db" where
  "saveGroupSender convId b db = db_put GroupSender (int_str convId) (DBuf b) db"

definition loadGroupSender :: "id \<Rightarrow> crypto_db \<Rightarrow> bytes option" where
  "loadGroupSender convId db = map_option as_array (db_get db GroupSender (int_str convId))"

definition deleteGroupSender :: "id \<Rightarrow> crypto_db \<Rightarrow> crypto_db" where
  "deleteGroupSender convId db = db_delete GroupSender (int_str convId) db"

definition receiver_key :: "id \<Rightarrow> id \<Rightarrow> jsstr" where
  "receiver_key convId senderId = int_str convId @ js '':'' @ int_str senderId"

definition saveGroupReceiver :: "id \<Rightarrow> id \<Rightarrow> bytes \<Rightarrow> crypto_db \<Rightarrow> crypto_db" where
  "saveGroupReceiver convId senderId b db = db_put GroupReceiver (receiver_key convId senderId) (DBuf b) db"

definition loadGroupReceiver :: "id \<Rightarrow> id \<Rightarrow> crypto_db \<Rightarrow> bytes option" where
  "loadGroupReceiver convId senderId db = map_option as_array (db_get db GroupReceiver (receiver_key convId senderId))"

definition deleteGroupReceiver :: "id \<Rightarrow> id \<Rightarrow> crypto_db \<Rightarrow> crypto_db" where
  "deleteGroupReceiver convId senderId db = db_delete GroupReceiver (receiver_key convId senderId) db"

text \<open>The cursor visits every key of the store.\<close>

definition deleteAllGroupReceivers :: "id \<Rightarrow> crypto_db \<Rightarrow> crypto_db" where
  "deleteAllGroupReceivers convId db =
     db\<lparr>stores := (stores db)(GroupReceiver :=
       filter (\<lambda>(k, v). \<not> starts_with k (int_str convId @ js '':'')) (stores db GroupReceiver))\<rparr>"

section \<open>Plaintext cache and media keys\<close>

definition savePlaintext :: "id \<Rightarrow> jsstr \<Rightarrow> bool \<Rightarrow> crypto_db \<Rightarrow> crypto_db" where
  "savePlaintext msgId content isLegacy db = db_put MsgPlaintext (int_str msgId) (DText content isLegacy) db"

definition loadPlaintext :: "id \<Rightarrow> crypto_db \<Rightarrow> dbval option" where
  "loadPlaintext msgId db = db_get db MsgPlaintext (int_str msgId)"

definition saveMediaKey :: "id \<Rightarrow> bytes \<Rightarrow> bytes \<Rightarrow> crypto_db \<Rightarrow> crypto_db option" where
  "saveMediaKey messageId key iv db =
     map_option (\<lambda>buf. db_put MediaKeys (int_str messageId) (DBuf buf) db) (packMediaKey key iv)"

definition loadMediaKey :: "id \<Rightarrow> crypto_db \<Rightarrow> (bytes \<times> bytes) option" where
  "loadMediaKey messageId db = map_option (unpackMediaKey \<circ> as_array) (db_get db MediaKeys (int_str messageId))"

definition setPendingMediaKey :: "jsstr \<Rightarrow> bytes \<Rightarrow> bytes \<Rightarrow> crypto_db \<Rightarrow> crypto_db" where
  "setPendingMediaKey fileUrl key iv db = db\<lparr>pendingMediaKeys := mset_at fileUrl (key, iv) (pendingMediaKeys db)\<rparr>"

definition consumePendingMediaKey :: "jsstr \<Rightarrow> crypto_db \<Rightarrow> (bytes \<times> bytes) option \<times> crypto_db" where
  "consumePendingMediaKey fileUrl db =
     (case mget (pendingMediaKeys db) fileUrl of
        None \<Rightarrow> (None, db)
      | Some v \<Rightarrow> (Some v, db\<lparr>pendingMediaKeys := mdelete fileUrl (pendingMediaKeys db)\<rparr>))"

definition clearAllCryptoState :: "id \<Rightarrow> crypto_db \<Rightarrow> crypto_db" where
  "clearAllCryptoState userId db =
     db\<lparr>ls := (ls db)(v2_vault_key userId := None), pendingMediaKeys := [], stores := (\<lambda>_. [])\<rparr>"

section \<open>Export and import\<close>

definition countSyncRecords :: "crypto_db \<Rightarrow> nat" where
  "countSyncRecords db = sum_list (map (\<lambda>(name, sid, binary). length (stores db name)) SYNC_STORES)"

text \<open>\<open>JSON.stringify\<close> of a stored value: a binary field has no enumerable property and becomes an empty object.\<close>

definition json_of_value :: "dbval \<Rightarrow> json" where
  "json_of_value v =
     (case v of
        DBuf b \<Rightarrow> JObj []
      | DIdentity e p \<Rightarrow> JObj [(js ''enc'', JObj []), (js ''pub'', JObj [])]
      | DText c l \<Rightarrow> JObj [(js ''content'', JStr c), (js ''isLegacy'', JBool l)]
      | DJson j \<Rightarrow> j)"

definition value_of_json :: "json \<Rightarrow> dbval" where
  "value_of_json j =
     (case j of
        JObj [(k1, JStr c), (k2, JBool l)] \<Rightarrow> if k1 = js ''content'' \<and> k2 = js ''isLegacy'' then DText c l else DJson j
      | _ \<Rightarrow> DJson j)"

definition record_payload :: "json_env \<Rightarrow> nat \<Rightarrow> bool \<Rightarrow> jsstr \<Rightarrow> dbval \<Rightarrow> bytes" where
  "record_payload J storeId binary key v =
     (let keyBytes = encode_utf8 key;
          valueBytes = (case v of DBuf b \<Rightarrow> if binary then b else encode_utf8 (stringify J (json_of_value v))
                        | _ \<Rightarrow> encode_utf8 (stringify J (json_of_value v)))
      in storeId # length keyBytes div 256 mod 256 # length keyBytes mod 256 # keyBytes @ valueBytes)"

definition cursorIterator :: "json_env \<Rightarrow> crypto_db \<Rightarrow> store_name \<times> nat \<times> bool \<Rightarrow> bytes list" where
  "cursorIterator J db s =
     (case s of (name, storeId, binary) \<Rightarrow> map (\<lambda>(k, v). record_payload J storeId binary k v) (stores db name))"

definition exportSyncRecords :: "json_env \<Rightarrow> crypto_db \<Rightarrow> bytes list" where
  "exportSyncRecords J db = concat (map (cursorIterator J db) SYNC_STORES)"

definition importSyncRecord :: "json_env \<Rightarrow> bytes \<Rightarrow> crypto_db \<Rightarrow> crypto_db option" where
  "importSyncRecord J payload db =
     (if length payload < 4 then None
      else
        (let keyLen = payload ! 1 * 256 + payload ! 2
         in if length payload < 3 + keyLen then None
            else
              (let key = decode_utf8 (js_slice 3 (3 + keyLen) payload);
                   rawValue = drop (3 + keyLen) payload
               in case find (\<lambda>(n, sid, b). sid = payload ! 0) SYNC_STORES of
                    None \<Rightarrow> None
                  | Some (name, sid, binary) \<Rightarrow>
                      if binary then Some (db_put name key (DBuf rawValue) db)
                      else map_option (\<lambda>j. db_put name key (value_of_json j) db) (parse J (decode_utf8 rawValue)))))"

text \<open>All chunks of a transfer, in order.\<close>

fun import_all :: "json_env \<Rightarrow> bytes list \<Rightarrow> crypto_db \<Rightarrow> crypto_db option" where
  "import_all J [] db = Some db"
| "import_all J (p # ps) db = Option.bind (importSyncRecord J p db) (import_all J ps)"

section \<open>Lemmas\<close>

lemma db_get_put [simp]: "db_get (db_put s k v db) s' k' = (if s' = s \<and> k' = k then Some v else db_get db s' k')"
  by (simp add: db_get_def db_put_def)

lemma db_get_delete [simp]: "db_get (db_delete s k db) s' k' = (if s' = s \<and> k' = k then None else db_get db s' k')"
  by (simp add: db_get_def db_delete_def)

lemma ls_put [simp]: "ls (db_put s k v db) = ls db"
  by (simp add: db_put_def)

lemma int_str_chars: "c \<in> set (int_str i) \<Longrightarrow> digit c \<or> c = 45"
  using nat_str_digits(1) by (auto simp: int_str_def list_all_iff split: if_splits)

lemma colon_prefix: "starts_with (int_str a @ js '':'' @ s) (int_str b @ js '':'') \<longleftrightarrow> a = b"
proof
  assume "starts_with (int_str a @ js '':'' @ s) (int_str b @ js '':'')"
  then obtain t where eq: "int_str a @ js '':'' @ s = int_str b @ js '':'' @ t"
    by (metis append.assoc starts_withD)
  have "58 \<notin> set (int_str i)" for i using int_str_chars[of 58 i] by (auto simp: digit_def)
  then have "takeWhile (\<lambda>c. c \<noteq> 58) (int_str i @ js '':'' @ u) = int_str i" for i u
    by (subst takeWhile_append2) (auto simp: js_def)
  then have "int_str a = int_str b" using eq by metis
  then show "a = b" by simp
qed (simp add: starts_with_def)

lemma receiver_key_inj: "receiver_key c s = receiver_key c' s' \<longleftrightarrow> c = c' \<and> s = s'"
proof
  assume eq: "receiver_key c s = receiver_key c' s'"
  then have "starts_with (receiver_key c s) (int_str c' @ js '':'')" by (simp add: receiver_key_def starts_with_def)
  then have "c = c'" using colon_prefix by (simp add: receiver_key_def)
  with eq show "c = c' \<and> s = s'" by (simp add: receiver_key_def)
qed simp

lemma map_of_filter_keys: "map_of (filter (\<lambda>(k, v). P k) m) k = (if P k then map_of m k else None)"
  by (induction m) auto

lemma load_after_deleteAll:
  "loadGroupReceiver c s (deleteAllGroupReceivers c' db) = (if c = c' then None else loadGroupReceiver c s db)"
proof -
  have "starts_with (receiver_key c s) (int_str c' @ js '':'') \<longleftrightarrow> c = c'" using colon_prefix by (simp add: receiver_key_def)
  then show ?thesis
    by (simp add: loadGroupReceiver_def deleteAllGroupReceivers_def db_get_def
        map_of_filter_keys[of "\<lambda>k. \<not> starts_with k (int_str c' @ js '':'')"])
qed

lemma vaultKey_stable:
  assumes "vaultKey w rnd u db = (k, db')" "is_bytes rnd" "rnd \<noteq> []" "ls db'' (v2_vault_key u) = ls db' (v2_vault_key u)"
  shows "vaultKey w rnd' u db'' = (k, db'')"
  using assms btoa_url_ne[OF assms(3,2)] by (auto simp: vaultKey_def Let_def split: if_splits)

definition sized_keys :: "identity_keys \<Rightarrow> bool" where
  "sized_keys k \<longleftrightarrow>
     list_all (\<lambda>b. length b = 32 \<and> is_bytes b)
       [ikSignSeed k, ikSignPub k, id_ikDhSecret k, id_ikDhPub k, id_spkSecret k, id_spkPub k]
     \<and> length (id_spkSig k) = 64 \<and> is_bytes (id_spkSig k)"

lemma blobs_concat:
  assumes "sized_keys k"
  shows "priv_blob k = Some (id_ikDhSecret k @ ikSignSeed k @ id_spkSecret k)"
    "pub_blob k = Some (ikSignPub k @ id_ikDhPub k @ id_spkPub k @ id_spkSig k)"
  using assms array_set_fits[of "[]" 0 "id_ikDhSecret k" 96] array_set_fits[of "id_ikDhSecret k" 32 "ikSignSeed k" 64]
    array_set_fits[of "id_ikDhSecret k @ ikSignSeed k" 64 "id_spkSecret k" 32]
    array_set_fits[of "[]" 0 "ikSignPub k" 160] array_set_fits[of "ikSignPub k" 32 "id_ikDhPub k" 128]
    array_set_fits[of "ikSignPub k @ id_ikDhPub k" 64 "id_spkPub k" 96]
    array_set_fits[of "ikSignPub k @ id_ikDhPub k @ id_spkPub k" 96 "id_spkSig k" 64]
  by (simp_all add: sized_keys_def priv_blob_def pub_blob_def)

lemma saved_identity:
  assumes "sized_keys k" "saveIdentityKeys w rnd iv u k db = (True, db')"
  obtains key db1 where "vaultKey w rnd u db = (Some key, db1)"
    "db' = db_put Identity (int_str u) (DIdentity (iv @ gcm_encrypt w key iv (id_ikDhSecret k @ ikSignSeed k @ id_spkSecret k))
       (ikSignPub k @ id_ikDhPub k @ id_spkPub k @ id_spkSig k)) db1"
  using assms(2) blobs_concat[OF assms(1)]
  by (auto simp: saveIdentityKeys_def vaultEncrypt_def split: option.splits prod.splits)

lemma saved_identity_loads:
  assumes "gcm_inverts w" "sized_keys k" "is_bytes rnd" "rnd \<noteq> []" "length iv = 12" "saveIdentityKeys w rnd iv u k db = (True, db')"
    "ls db'' = ls db'" "db_get db'' Identity (int_str u) = db_get db' Identity (int_str u)"
  shows "loadIdentityKeys w rnd' u db'' = (Some k, db'')"
proof -
  let ?priv = "id_ikDhSecret k @ ikSignSeed k @ id_spkSecret k"
  have bytes: "is_bytes ?priv" using assms(2) by (simp add: sized_keys_def)
  obtain key db1 where key: "vaultKey w rnd u db = (Some key, db1)"
    and db': "db' = db_put Identity (int_str u) (DIdentity (iv @ gcm_encrypt w key iv ?priv)
       (ikSignPub k @ id_ikDhPub k @ id_spkPub k @ id_spkSig k)) db1"
    by (rule saved_identity[OF assms(2,6)])
  have "vaultKey w rnd' u db'' = (Some key, db'')" using vaultKey_stable[OF key assms(3,4)] assms(7) db' by simp
  then have "vaultDecrypt w rnd' u (iv @ gcm_encrypt w key iv ?priv) db'' = (Some ?priv, db'')"
    using gcm_invertsD(1)[OF assms(1,5) bytes] assms(5) by (simp add: vaultDecrypt_def)
  then show ?thesis using assms(2,8) db' by (simp add: loadIdentityKeys_def sized_keys_def js_slice_def)
qed

lemma save_identity_succeeds:
  assumes "sized_keys k" "is_bytes rnd" "ls db (v2_vault_key u) = None"
  obtains db' where "saveIdentityKeys w rnd iv u k db = (True, db')"
  using that blobs_concat[OF assms(1)] base64url_inverse[OF assms(2)] assms(3)
  by (simp add: saveIdentityKeys_def vaultEncrypt_def vaultKey_def)

section \<open>Properties\<close>

text \<open>The identity keys of a user survive a reload: after a successful \<open>saveIdentityKeys\<close> every later load in a state with the
  same record and the same vault secret returns exactly the saved keys and changes nothing; after \<open>deleteIdentityKeys\<close> or the full
  wipe there are none, and another user's record and vault secret are as before.\<close>

theorem identity_persistence:
  assumes "gcm_inverts w" "sized_keys k" "is_bytes rnd" "rnd \<noteq> []" "length iv = 12"
    "saveIdentityKeys w rnd iv u k db = (True, db')"
  shows "(ls db'' = ls db' \<and> db_get db'' Identity (int_str u) = db_get db' Identity (int_str u)
        \<longrightarrow> loadIdentityKeys w rnd' u db'' = (Some k, db''))
    \<and> fst (loadIdentityKeys w rnd' u (deleteIdentityKeys u db')) = None
    \<and> fst (loadIdentityKeys w rnd' u (clearAllCryptoState u db')) = None
    \<and> (v \<noteq> u \<longrightarrow> db_get (deleteIdentityKeys u db') Identity (int_str v) = db_get db Identity (int_str v)
        \<and> ls (deleteIdentityKeys u db') (v2_vault_key v) = ls db (v2_vault_key v))"
proof -
  obtain key db1 where key: "vaultKey w rnd u db = (Some key, db1)"
    and db': "db' = db_put Identity (int_str u) (DIdentity (iv @ gcm_encrypt w key iv (id_ikDhSecret k @ ikSignSeed k @ id_spkSecret k))
       (ikSignPub k @ id_ikDhPub k @ id_spkPub k @ id_spkSig k)) db1"
    by (rule saved_identity[OF assms(2,6)])
  have keep: "stores db1 = stores db \<and> (v \<noteq> u \<longrightarrow> ls db1 (v2_vault_key v) = ls db (v2_vault_key v))"
    using key by (auto simp: vaultKey_def v2_vault_key_def Let_def split: if_splits)
  have "fst (loadIdentityKeys w rnd' u (deleteIdentityKeys u db')) = None"
    "fst (loadIdentityKeys w rnd' u (clearAllCryptoState u db')) = None"
    by (simp_all add: loadIdentityKeys_def deleteIdentityKeys_def clearAllCryptoState_def) (simp add: db_get_def)
  then show ?thesis using saved_identity_loads[OF assms] keep db'
    by (auto simp: deleteIdentityKeys_def db_delete_def db_get_def db_put_def v2_vault_key_def)
qed

theorem identity_persistence_witness:
  "\<exists>db'. saveIdentityKeys toy_crypto [1] (replicate 12 0) 6
       \<lparr>ikSignSeed = replicate 32 1, ikSignPub = replicate 32 2, id_ikDhSecret = replicate 32 3, id_ikDhPub = replicate 32 4,
        id_spkSecret = replicate 32 5, id_spkPub = replicate 32 6, id_spkSig = replicate 64 7\<rparr> empty_db = (True, db')
     \<and> loadIdentityKeys toy_crypto [9] 6 db'
       = (Some \<lparr>ikSignSeed = replicate 32 1, ikSignPub = replicate 32 2, id_ikDhSecret = replicate 32 3, id_ikDhPub = replicate 32 4,
        id_spkSecret = replicate 32 5, id_spkPub = replicate 32 6, id_spkSig = replicate 64 7\<rparr>, db')"
proof -
  let ?k = "\<lparr>ikSignSeed = replicate 32 1, ikSignPub = replicate 32 2, id_ikDhSecret = replicate 32 3, id_ikDhPub = replicate 32 4,
    id_spkSecret = replicate 32 5, id_spkPub = replicate 32 6, id_spkSig = replicate 64 7\<rparr>"
  have sized: "sized_keys ?k" by (simp add: sized_keys_def)
  obtain db' where db': "saveIdentityKeys toy_crypto [1] (replicate 12 0) 6 ?k empty_db = (True, db')"
    using blobs_concat[OF sized] base64url_inverse[of "[1]"]
    by (simp add: saveIdentityKeys_def vaultEncrypt_def vaultKey_def empty_db_def)
  show ?thesis
    using identity_persistence[OF toy_inverts sized _ _ _ db', of db' "[9]" 0] db' by auto
qed

section \<open>The transfer of all records\<close>

text \<open>\<open>JSON.stringify\<close> writes well-formed text that does not begin with a byte order mark.\<close>

definition json_text :: "json_env \<Rightarrow> bool" where
  "json_text J \<longleftrightarrow> (\<forall>j. well_paired (stringify J j) \<and> (stringify J j = [] \<or> hd (stringify J j) \<noteq> 65279))"

definition good_key :: "jsstr \<Rightarrow> bool" where
  "good_key k \<longleftrightarrow> k \<noteq> [] \<and> well_paired k \<and> hd k \<noteq> 65279 \<and> length (encode_utf8 k) < 65536"

text \<open>The value that the receiving device stores for a sent value.\<close>

definition received :: "json_env \<Rightarrow> bool \<Rightarrow> dbval \<Rightarrow> dbval" where
  "received J binary v =
     (if binary then DBuf (case v of DBuf b \<Rightarrow> b | _ \<Rightarrow> encode_utf8 (stringify J (json_of_value v)))
      else value_of_json (json_of_value v))"

text \<open>A database as the other operations leave it: keys are distinct and short, every store but the first holds what its operations put there.\<close>

definition transferable :: "crypto_db \<Rightarrow> bool" where
  "transferable db \<longleftrightarrow>
     list_all (\<lambda>(n, sid, b). distinct (map fst (stores db n)) \<and> list_all (good_key \<circ> fst) (stores db n)) SYNC_STORES
     \<and> list_all (\<lambda>n. list_all (\<lambda>(k, v). \<exists>b. v = DBuf b) (stores db n)) [Ratchet, GroupSender, GroupReceiver, MediaKeys]
     \<and> list_all (\<lambda>(k, v). \<exists>c l. v = DText c l) (stores db MsgPlaintext)
     \<and> list_all (\<lambda>(k, v). \<exists>e p. v = DIdentity e p) (stores db Identity)"

lemma encode_key:
  assumes "good_key k"
  shows "decode_utf8 (encode_utf8 k) = k" "encode_utf8 k \<noteq> []" "is_bytes (encode_utf8 k)"
proof -
  show dec: "decode_utf8 (encode_utf8 k) = k" using assms by (intro utf8_roundtrip) (auto simp: good_key_def)
  show "encode_utf8 k \<noteq> []" using dec assms by (auto simp: good_key_def decode_utf8_def)
  show "is_bytes (encode_utf8 k)"
    using assms is_bytes_utf8[OF code_points_scalar] by (simp add: good_key_def encode_utf8_def)
qed

lemma import_record:
  assumes "good_key k" "(n, sid, b) \<in> set SYNC_STORES" "json_laws J" "json_text J" "b \<or> doubles (fl J) (json_of_value v)"
  shows "importSyncRecord J (record_payload J sid b k v) db = Some (db_put n k (received J b v) db)"
proof -
  let ?k = "encode_utf8 k"
  let ?val = "case v of DBuf x \<Rightarrow> if b then x else encode_utf8 (stringify J (json_of_value v))
    | _ \<Rightarrow> encode_utf8 (stringify J (json_of_value v))"
  let ?p = "sid # length ?k div 256 mod 256 # length ?k mod 256 # ?k @ ?val"
  have p: "record_payload J sid b k v = ?p" by (simp add: record_payload_def Let_def)
  have "length ?k div 256 < 256" using assms(1) by (auto simp: good_key_def)
  then have len: "length ?k div 256 mod 256 * 256 + length ?k mod 256 = length ?k" by simp
  have ne: "1 \<le> length ?k" using encode_key(2)[OF assms(1)] by (cases ?k) auto
  have store: "find (\<lambda>(n, s, b). s = sid) SYNC_STORES = Some (n, sid, b)"
    using assms(2) by (auto simp: SYNC_STORES_def)
  have parts: "js_slice 3 (3 + length ?k) ?p = ?k" "drop (3 + length ?k) ?p = ?val" "4 \<le> length ?p" "3 + length ?k \<le> length ?p"
    using ne by (simp_all add: js_slice_def numeral_3_eq_3)
  have "importSyncRecord J ?p db
      = (if b then Some (db_put n k (DBuf ?val) db)
         else map_option (\<lambda>j. db_put n k (value_of_json j) db) (parse J (decode_utf8 ?val)))"
    using len store encode_key(1,2)[OF assms(1)] parts unfolding importSyncRecord_def Let_def by simp
  also have "\<dots> = Some (db_put n k (received J b v) db)"
  proof (cases b)
    case True
    then show ?thesis by (cases v) (simp_all add: received_def)
  next
    case False
    have "?val = encode_utf8 (stringify J (json_of_value v))" using False by (cases v) simp_all
    moreover have "decode_utf8 (encode_utf8 (stringify J (json_of_value v))) = stringify J (json_of_value v)"
      using assms(4) by (intro utf8_roundtrip) (auto simp: json_text_def)
    moreover have "parse J (stringify J (json_of_value v)) = Some (json_of_value v)"
      using assms(3,5) False by (simp add: json_laws_def)
    ultimately show ?thesis using False by (simp add: received_def)
  qed
  finally show ?thesis unfolding p .
qed

lemma import_all_append: "import_all J (ps @ qs) db = Option.bind (import_all J ps db) (import_all J qs)"
  by (induction ps arbitrary: db) (simp_all split: Option.bind_splits)

lemma import_store:
  assumes "list_all (good_key \<circ> fst) m" "distinct (map fst m)" "(n, sid, b) \<in> set SYNC_STORES" "json_laws J" "json_text J"
    "b \<or> list_all (\<lambda>(k, v). doubles (fl J) (json_of_value v)) m"
  shows "\<exists>db'. import_all J (map (\<lambda>(k, v). record_payload J sid b k v) m) db = Some db' \<and> ls db' = ls db
    \<and> (\<forall>n' k. db_get db' n' k = (if n' = n then (case map_of m k of Some v \<Rightarrow> Some (received J b v) | None \<Rightarrow> db_get db n k)
                                  else db_get db n' k))"
  using assms
proof (induction m arbitrary: db)
  case (Cons kv m)
  obtain k v where kv: "kv = (k, v)" by fastforce
  have one: "importSyncRecord J (record_payload J sid b k v) db = Some (db_put n k (received J b v) db)"
    by (rule import_record) (use Cons.prems kv in auto)
  obtain db' where db': "import_all J (map (\<lambda>(k, v). record_payload J sid b k v) m) (db_put n k (received J b v) db) = Some db'"
    "ls db' = ls db"
    "\<forall>n' k'. db_get db' n' k' = (if n' = n then (case map_of m k' of Some v \<Rightarrow> Some (received J b v)
        | None \<Rightarrow> db_get (db_put n k (received J b v) db) n k') else db_get (db_put n k (received J b v) db) n' k')"
    using Cons.IH[of "db_put n k (received J b v) db"] Cons.prems by auto
  have "map_of m k = None" using Cons.prems(2) kv by (simp add: map_of_eq_None_iff)
  then show ?case using db' one kv by (intro exI[of _ db']) (auto split: option.splits)
qed (simp add: db_get_def)

lemma received_binary [simp]: "received J True (DBuf x) = DBuf x"
  by (simp add: received_def)

lemma received_text [simp]: "received J False (DText c l) = DText c l"
  by (simp add: received_def json_of_value_def value_of_json_def)

text \<open>The stores one after the other: each record of the source, as received, over what was there.\<close>

lemma import_stores:
  assumes "transferable src" "json_laws J" "json_text J" "set ss \<subseteq> set SYNC_STORES" "distinct (map fst ss)"
  shows "\<exists>db'. import_all J (concat (map (cursorIterator J src) ss)) db = Some db' \<and>
    (\<forall>n k. db_get db' n k =
      (case map_of ss n of
         None \<Rightarrow> db_get db n k
       | Some (sid, b) \<Rightarrow> (case db_get src n k of Some v \<Rightarrow> Some (received J b v) | None \<Rightarrow> db_get db n k)))"
  using assms(4,5)
proof (induction ss arbitrary: db)
  case (Cons e ss)
  obtain n sid b where e: "e = (n, sid, b)" by (cases e) auto
  have mem: "(n, sid, b) \<in> set SYNC_STORES" using Cons.prems(1) e by simp
  have "b \<or> list_all (\<lambda>(k, v). doubles (fl J) (json_of_value v)) (stores src n)"
    using mem assms(1) by (auto simp: SYNC_STORES_def transferable_def list_all_iff json_of_value_def)
  moreover have "list_all (good_key \<circ> fst) (stores src n)" "distinct (map fst (stores src n))"
    using mem assms(1) by (auto simp: SYNC_STORES_def transferable_def)
  ultimately obtain d where d: "import_all J (cursorIterator J src e) db = Some d"
    and gd: "\<forall>n' k. db_get d n' k = (if n' = n then (case db_get src n k of Some v \<Rightarrow> Some (received J b v) | None \<Rightarrow> db_get db n k)
                                  else db_get db n' k)"
    using import_store[of "stores src n" n sid b J db] mem assms(2,3) e by (auto simp: cursorIterator_def db_get_def)
  have ss: "set ss \<subseteq> set SYNC_STORES" "distinct (map fst ss)" using Cons.prems by auto
  obtain d' where d': "import_all J (concat (map (cursorIterator J src) ss)) d = Some d'"
    and gd': "\<forall>n k. db_get d' n k = (case map_of ss n of None \<Rightarrow> db_get d n k
       | Some (sid, b) \<Rightarrow> (case db_get src n k of Some v \<Rightarrow> Some (received J b v) | None \<Rightarrow> db_get d n k))"
    using Cons.IH[OF ss, of d] by blast
  have "map_of ss n = None" using Cons.prems(2) e by (simp add: map_of_eq_None_iff)
  then show ?case using d d' gd gd' e
    by (intro exI[of _ d']) (auto simp: import_all_append split: option.splits)
qed simp

lemma stored_values:
  assumes "transferable db" "db_get db s k = Some v" "s \<noteq> Identity"
  shows "if s = MsgPlaintext then \<exists>c l. v = DText c l else \<exists>b. v = DBuf b"
proof -
  have "(k, v) \<in> set (stores db s)" using assms(2) by (auto simp: db_get_def dest: map_of_SomeD)
  then show ?thesis using assms(1,3) by (cases s) (auto simp: transferable_def list_all_iff)
qed

text \<open>What importing all records of another device leaves: every store of the source under its keys, but no identity keys.\<close>

lemma device_transfer:
  assumes "transferable src" "json_laws J" "json_text J" "gcm_tagged w"
  shows "\<exists>db. import_all J (exportSyncRecords J src) target = Some db
    \<and> (\<forall>s k. s \<noteq> Identity \<longrightarrow> db_get db s k = (case db_get src s k of Some v \<Rightarrow> Some v | None \<Rightarrow> db_get target s k))
    \<and> (\<forall>u. db_get src Identity (int_str u) \<noteq> None \<longrightarrow> fst (loadIdentityKeys w rnd u db) = None)"
proof -
  obtain db where db: "import_all J (exportSyncRecords J src) target = Some db"
    and get: "\<forall>n k. db_get db n k = (case map_of SYNC_STORES n of None \<Rightarrow> db_get target n k
       | Some (sid, b) \<Rightarrow> (case db_get src n k of Some v \<Rightarrow> Some (received J b v) | None \<Rightarrow> db_get target n k))"
    using import_stores[OF assms(1-3) order_refl, of target] by (auto simp: exportSyncRecords_def SYNC_STORES_def)
  have others: "db_get db s k = (case db_get src s k of Some v \<Rightarrow> Some v | None \<Rightarrow> db_get target s k)" if "s \<noteq> Identity" for s k
  proof (cases "db_get src s k")
    case None
    then show ?thesis using get that by (cases s) (simp_all add: SYNC_STORES_def)
  next
    case (Some v)
    then have "received J (s \<noteq> MsgPlaintext) v = v" using stored_values[OF assms(1) Some that] by (cases "s = MsgPlaintext") auto
    with Some show ?thesis using get that by (cases s) (simp_all add: SYNC_STORES_def)
  qed
  have "fst (loadIdentityKeys w rnd u db) = None" if stored: "db_get src Identity (int_str u) \<noteq> None" for u
  proof -
    obtain v where "db_get src Identity (int_str u) = Some v" using stored by blast
    then obtain b where "db_get db Identity (int_str u) = Some (DBuf b)"
      using get by (auto simp: SYNC_STORES_def received_def)
    then show ?thesis using assms(4) by (auto simp: loadIdentityKeys_def vaultDecrypt_def gcm_tagged_def split: prod.splits option.splits)
  qed
  with db others show ?thesis by (intro exI[of _ db]) simp
qed

definition demo_src :: crypto_db where
  "demo_src = \<lparr>ls = (\<lambda>_. None), stores = (\<lambda>s. case s of Identity \<Rightarrow> [(int_str 3, DIdentity [1, 2] [3])]
     | Ratchet \<Rightarrow> [(js ''3:4'', DBuf [9, 9])] | MsgPlaintext \<Rightarrow> [(int_str 70, DText (js ''hi'') False)] | _ \<Rightarrow> []),
     pendingMediaKeys = []\<rparr>"

text \<open>A codec that writes printable text: every unit of the earlier codec as a decimal number.\<close>

definition text_json :: json_env where
  "text_json = demo_json\<lparr>parse := (\<lambda>s. parse demo_json (map dec_value (butlast (split_on 32 s)))),
     stringify := (\<lambda>j. concat (map (\<lambda>n. nat_str n @ [32]) (enc_json j)))\<rparr>"

lemma split_on_cut: "c \<notin> set x \<Longrightarrow> split_on c (x @ c # s) = x # split_on c s"
  by (induction x) auto

lemma split_numbers: "split_on 32 (concat (map (\<lambda>n. nat_str n @ [32]) ns)) = map nat_str ns @ [[]]"
proof (induction ns)
  case (Cons n ns)
  have "32 \<notin> set (nat_str n)" using nat_str_digits(1)[of n] by (auto simp: list_all_iff digit_def)
  then show ?case using Cons split_on_cut[of 32 "nat_str n"] by simp
qed simp

lemma small_well_paired: "list_all (\<lambda>c. c < 55296) s \<Longrightarrow> well_paired s"
  by (induction s rule: well_paired.induct) (auto simp: high_surrogate_def low_surrogate_def)

lemma text_json_laws: "json_laws text_json" "json_text text_json"
proof -
  have dec: "map dec_value (butlast (split_on 32 (stringify text_json j))) = enc_json j" for j
    by (simp add: text_json_def split_numbers comp_def)
  have "parse demo_json (enc_json j) = Some j" "enc_json j \<noteq> []" for j
    using demo_json_laws doubles_id[of j] by (simp_all add: json_laws_def demo_json_def)
  moreover have "parse text_json t = parse demo_json (map dec_value (butlast (split_on 32 t)))" "fl text_json = (\<lambda>x. x)" for t
    by (simp_all add: text_json_def demo_json_def)
  moreover have "stringify text_json j \<noteq> []" for j
    using dec[of j] calculation(2)[of j] by (auto simp: demo_json_def)
  ultimately show "json_laws text_json"
    using dec doubles_id by (simp add: json_laws_def)
  have "list_all (\<lambda>c. c < 128) (stringify text_json j)" for j
    using nat_str_digits(1) by (fastforce simp: text_json_def list_all_iff digit_def)
  then have small: "list_all (\<lambda>c. c < 128) (stringify text_json j)" for j .
  have "well_paired (stringify text_json j)" for j
    using small[of j] by (intro small_well_paired) (auto simp: list_all_iff)
  moreover have "stringify text_json j = [] \<or> hd (stringify text_json j) \<noteq> 65279" for j
    using small[of j] by (cases "stringify text_json j") auto
  ultimately show "json_text text_json" by (simp add: json_text_def)
qed

lemma demo_transferable: "transferable demo_src"
proof -
  have "good_key (int_str 3)" "good_key (js ''3:4'')" "good_key (int_str 70)"
    by (simp_all add: good_key_def int_str_def nat_str.simps js_def high_surrogate_def low_surrogate_def encode_utf8_def utf8_bytes_def)
  then show ?thesis by (auto simp: transferable_def demo_src_def SYNC_STORES_def)
qed

end
