(* ===== verification/SyncWire.thy ===== *)
theory SyncWire
  imports CryptoDb "HOL-Library.Word"
begin

text \<open>
  The formats of the device transfer, \<open>client/src/hooks/useDeviceSync.ts\<close>: the text of the QR code, sequence numbers as 32-bit
  words in big-endian order, and the frames on the data channel.
\<close>

unbundle bit_operations_syntax

section \<open>Sequence numbers\<close>

type_synonym seq = "32 word"

definition byte_at :: "nat \<Rightarrow> seq \<Rightarrow> nat" where
  "byte_at k n = unat (drop_bit k n AND 0xff)"

definition join_bytes :: "nat \<Rightarrow> nat \<Rightarrow> nat \<Rightarrow> nat \<Rightarrow> seq" where
  "join_bytes a b c d =
     push_bit 24 (word_of_nat a) OR push_bit 16 (word_of_nat b) OR push_bit 8 (word_of_nat c) OR word_of_nat d"

definition seqToU64BE :: "seq \<Rightarrow> bytes" where
  "seqToU64BE n = [0, 0, 0, 0, byte_at 24 n, byte_at 16 n, byte_at 8 n, byte_at 0 n]"

definition u64BEToSeq :: "bytes \<Rightarrow> nat \<Rightarrow> seq" where
  "u64BEToSeq b off = join_bytes (b ! (off + 4)) (b ! (off + 5)) (b ! (off + 6)) (b ! (off + 7))"

lemma byte_at_bound: "byte_at k n < 256"
proof -
  have "drop_bit k n AND 0xff = take_bit 8 (drop_bit k n)" by (simp add: take_bit_eq_mask mask_eq_exp_minus_1)
  then have "byte_at k n = take_bit 8 (unat (drop_bit k n))" by (simp add: byte_at_def unsigned_take_bit_eq)
  then show ?thesis using take_bit_nat_less_exp[of 8 "unat (drop_bit k n)"] by simp
qed

lemma join_bytes_byte_at [simp]: "join_bytes (byte_at 24 n) (byte_at 16 n) (byte_at 8 n) (byte_at 0 n) = n"
proof (rule bit_word_eqI)
  fix i assume i: "i < LENGTH(32)"
  have ff: "(0xff :: seq) = mask 8" by (simp add: mask_eq_exp_minus_1)
  consider "i < 8" | j where "i = j + 8" "j < 8" | j where "i = j + 16" "j < 8" | j where "i = j + 24" "j < 8"
  proof -
    have "i < 32" using i by simp
    then consider "i < 8" | "8 \<le> i" "i < 16" | "16 \<le> i" "i < 24" | "24 \<le> i" "i < 32" by linarith
    then show thesis
      by cases (use that(1) that(2)[of "i - 8"] that(3)[of "i - 16"] that(4)[of "i - 24"] in simp_all)
  qed
  then show "bit (join_bytes (byte_at 24 n) (byte_at 16 n) (byte_at 8 n) (byte_at 0 n)) i = bit n i"
    unfolding join_bytes_def byte_at_def ff
    by cases (simp_all add: bit_or_iff bit_push_bit_iff bit_and_iff bit_drop_bit_eq bit_mask_iff add.commute)
qed

lemma u64_roundtrip: "u64BEToSeq (seqToU64BE n) 0 = n" "length (seqToU64BE n) = 8" "is_bytes (seqToU64BE n)"
  by (simp_all add: u64BEToSeq_def seqToU64BE_def byte_at_bound)

section \<open>Frames\<close>

definition MSG_CHUNK :: nat where "MSG_CHUNK = 1"
definition MSG_MANIFEST :: nat where "MSG_MANIFEST = 2"

record frame =
  f_type :: nat
  f_seq :: seq
  f_data :: bytes

definition encodeFrame :: "nat \<Rightarrow> seq \<Rightarrow> bytes \<Rightarrow> bytes" where
  "encodeFrame t n payload = [t, byte_at 24 n, byte_at 16 n, byte_at 8 n, byte_at 0 n] @ payload"

definition decodeFrame :: "bytes \<Rightarrow> frame option" where
  "decodeFrame buf =
     (if length buf < 5 then None
      else Some \<lparr>f_type = buf ! 0, f_seq = join_bytes (buf ! 1) (buf ! 2) (buf ! 3) (buf ! 4), f_data = drop 5 buf\<rparr>)"

lemma decode_encode [simp]: "decodeFrame (encodeFrame t n p) = Some \<lparr>f_type = t, f_seq = n, f_data = p\<rparr>"
  by (simp add: encodeFrame_def decodeFrame_def)

text \<open>The comparison that does not stop at the first difference.\<close>

definition timingSafeEq :: "bytes \<Rightarrow> bytes \<Rightarrow> bool" where
  "timingSafeEq a b =
     (if length a \<noteq> length b then False
      else foldl (\<lambda>diff (x, y). diff OR (x XOR y)) 0 (zip a b) = 0)"

lemma or_zero_nat: "(m OR n = 0) = (m = 0 \<and> n = (0 :: nat))"
  by (auto simp: bit_eq_iff bit_or_iff)

lemma xor_zero_nat: "(m XOR n = 0) = (m = (n :: nat))"
  by (auto simp: bit_eq_iff bit_xor_iff)

lemma or_xor_step: "(d OR (x XOR y) = 0) = (d = 0 \<and> x = (y :: nat))"
  using or_zero_nat xor_zero_nat by metis

lemma foldl_diff: "foldl (\<lambda>diff (x, y). diff OR (x XOR y)) d zs = 0 \<longleftrightarrow> d = 0 \<and> list_all (\<lambda>(x, y). x = y) zs"
  for d and zs :: "(nat \<times> nat) list"
proof (induction zs arbitrary: d)
  case (Cons z zs)
  obtain x y where "z = (x, y)" by fastforce
  then show ?case using Cons[of "d OR (x XOR y)"] or_xor_step[of d x y] by simp
qed simp

lemma timingSafeEq_iff: "timingSafeEq a b \<longleftrightarrow> a = b"
proof -
  have "length a = length b \<Longrightarrow> list_all (\<lambda>(x, y). x = y) (zip a b) \<longleftrightarrow> a = b" for a b :: bytes
    by (induction a b rule: list_induct2) auto
  then show ?thesis by (auto simp: timingSafeEq_def foldl_diff)
qed

section \<open>The QR code\<close>

definition QR_PREFIX :: jsstr where
  "QR_PREFIX = js ''vesper-sync://''"

definition hex_digit :: "nat \<Rightarrow> nat" where
  "hex_digit n = (if n < 10 then 48 + n else 87 + n)"

definition uint8ToHex :: "bytes \<Rightarrow> jsstr" where
  "uint8ToHex b = concat (map (\<lambda>x. [hex_digit (x div 16), hex_digit (x mod 16)]) b)"

definition qr_content :: "bytes \<Rightarrow> bytes \<Rightarrow> jsstr" where
  "qr_content sidBytes otp = QR_PREFIX @ uint8ToHex sidBytes @ js ''?otp='' @ bufToBase64url otp"

text \<open>\<open>URLSearchParams.get\<close>: pairs separated by an ampersand, name and value by the first equals sign, plus as blank, then
  percent-decoding of UTF-8.\<close>

definition hex_value :: "nat \<Rightarrow> nat option" where
  "hex_value c = (if digit c then Some (c - 48) else if 65 \<le> c \<and> c \<le> 70 then Some (c - 55)
     else if 97 \<le> c \<and> c \<le> 102 then Some (c - 87) else None)"

fun percent_decode :: "bytes \<Rightarrow> bytes" where
  "percent_decode (c # a # b # s) =
     (if c = 37 \<and> hex_value a \<noteq> None \<and> hex_value b \<noteq> None
      then (the (hex_value a) * 16 + the (hex_value b)) # percent_decode s
      else c # percent_decode (a # b # s))"
| "percent_decode (c # s) = c # percent_decode s"
| "percent_decode [] = []"

definition url_decode :: "jsstr \<Rightarrow> jsstr" where
  "url_decode s =
     concat (map utf16_units (utf8_run 0 0 128 191 (percent_decode (encode_utf8 (map (\<lambda>c. if c = 43 then 32 else c) s)))))"

definition cut_at :: "nat \<Rightarrow> jsstr \<Rightarrow> jsstr \<times> jsstr" where
  "cut_at c s = (takeWhile (\<lambda>x. x \<noteq> c) s, drop 1 (dropWhile (\<lambda>x. x \<noteq> c) s))"

definition search_get :: "jsstr \<Rightarrow> jsstr \<Rightarrow> jsstr option" where
  "search_get query name =
     (let q = (if query \<noteq> [] \<and> hd query = 63 then tl query else query);
          ps = map (\<lambda>p. case cut_at 61 p of (k, v) \<Rightarrow> (url_decode k, url_decode v)) (filter (\<lambda>p. p \<noteq> []) (split_on 38 q))
      in map_of ps name)"

definition hex_sid :: "jsstr \<Rightarrow> bool" where
  "hex_sid s \<longleftrightarrow> length s = 32 \<and> list_all (\<lambda>c. hex_value c \<noteq> None) s"

text \<open>What the scanning device reads, or the error it reports.\<close>

definition parse_qr :: "jsstr \<Rightarrow> (jsstr \<times> bytes) result" where
  "parse_qr qrContent =
     (if \<not> starts_with qrContent QR_PREFIX then Inl (ThrownError ''bad QR code'')
      else
        (let rest = drop (length QR_PREFIX) qrContent;
             sessionId = (if 63 \<in> set rest then fst (cut_at 63 rest) else rest);
             otpStr = search_get (if 63 \<in> set rest then snd (cut_at 63 rest) else []) (js ''otp'')
         in if \<not> truthy otpStr \<or> \<not> hex_sid sessionId then Inl (ThrownError ''bad QR format'')
            else case base64urlToBuf (the otpStr) of
                   None \<Rightarrow> Inl (ThrownError ''InvalidCharacterError'')
                 | Some otp \<Rightarrow> if length otp \<noteq> 16 then Inl (ThrownError ''bad OTP size'') else Inr (sessionId, otp)))"

section \<open>Reading back what was shown\<close>

definition plain_char :: "nat \<Rightarrow> bool" where
  "plain_char c \<longleftrightarrow> c < 128 \<and> c \<noteq> 37 \<and> c \<noteq> 38 \<and> c \<noteq> 43 \<and> c \<noteq> 61 \<and> c \<noteq> 63"

lemma percent_decode_plain: "37 \<notin> set s \<Longrightarrow> percent_decode s = s"
  by (induction s rule: percent_decode.induct) auto

lemma ascii_code_points: "list_all (\<lambda>c. c < 128) s \<Longrightarrow> code_points s = s \<and> concat (map utf8_bytes s) = s \<and> concat (map utf16_units s) = s
    \<and> list_all scalar s"
  by (induction s rule: code_points.induct)
    (auto simp: high_surrogate_def low_surrogate_def utf8_bytes_def utf16_units_def scalar_def)

lemma url_decode_plain:
  assumes "list_all plain_char s"
  shows "url_decode s = s"
proof -
  have ascii: "list_all (\<lambda>c. c < 128) s" and no: "37 \<notin> set s" "43 \<notin> set s"
    using assms by (auto simp: list_all_iff plain_char_def)
  have "map (\<lambda>c. if c = 43 then 32 else c) s = s" using no(2) by (intro map_idI) auto
  moreover have "encode_utf8 s = s" using ascii_code_points[OF ascii] by (simp add: encode_utf8_def)
  moreover have "utf8_run 0 0 128 191 s = s" using utf8_run_concat[of s] ascii_code_points[OF ascii] by simp
  ultimately show ?thesis using percent_decode_plain[OF no(1)] ascii_code_points[OF ascii] by (simp add: url_decode_def)
qed

lemma plain_base64url: "is_bytes b \<Longrightarrow> list_all plain_char (bufToBase64url b)"
  using base64url_alphabet[of b] by (auto simp: list_all_iff plain_char_def digit_def)

lemma split_on_absent: "c \<notin> set s \<Longrightarrow> split_on c s = [s]"
  by (induction s) auto

lemma search_get_otp:
  assumes "list_all plain_char v"
  shows "search_get (js ''otp='' @ v) (js ''otp'') = Some v"
proof -
  have no: "38 \<notin> set v" "61 \<notin> set v" using assms by (auto simp: list_all_iff plain_char_def)
  have otp: "js ''otp='' = [111, 116, 112, 61]" "js ''otp'' = [111, 116, 112]" by (simp_all add: js_def)
  have "split_on 38 (js ''otp='' @ v) = [js ''otp='' @ v]" using no by (intro split_on_absent) (simp add: otp)
  moreover have "cut_at 61 (js ''otp='' @ v) = (js ''otp'', v)" by (simp add: cut_at_def otp)
  moreover have "url_decode (js ''otp'') = js ''otp''" "url_decode v = v"
    using url_decode_plain assms by (simp_all add: otp plain_char_def)
  ultimately show ?thesis by (simp add: search_get_def otp)
qed

lemma hex_digit_value: "n < 16 \<Longrightarrow> hex_value (hex_digit n) = Some n \<and> hex_digit n \<noteq> 63"
  by (auto simp: hex_value_def hex_digit_def digit_def)

lemma uint8ToHex_sid:
  assumes "is_bytes sid" "length sid = 16"
  shows "hex_sid (uint8ToHex sid)" "63 \<notin> set (uint8ToHex sid)"
proof -
  have len: "length (uint8ToHex b) = 2 * length b" for b by (induction b) (simp_all add: uint8ToHex_def)
  have chars: "is_bytes b \<Longrightarrow> list_all (\<lambda>c. hex_value c \<noteq> None \<and> c \<noteq> 63) (uint8ToHex b)" for b
  proof (induction b)
    case (Cons x b)
    then have "x div 16 < 16" "x mod 16 < 16" by auto
    then show ?case using Cons hex_digit_value[of "x div 16"] hex_digit_value[of "x mod 16"] by (simp add: uint8ToHex_def)
  qed (simp add: uint8ToHex_def)
  show "hex_sid (uint8ToHex sid)" "63 \<notin> set (uint8ToHex sid)"
    using len[of sid] chars[OF assms(1)] assms(2) by (auto simp: hex_sid_def list_all_iff)
qed

lemma cut_absent:
  assumes "c \<notin> set x"
  shows "takeWhile (\<lambda>a. a \<noteq> c) (x @ c # s) = x" "dropWhile (\<lambda>a. a \<noteq> c) (x @ c # s) = c # s"
  using assms by (induction x) auto

lemma qr_roundtrip:
  assumes "is_bytes sid" "length sid = 16" "is_bytes otp" "length otp = 16"
  shows "parse_qr (qr_content sid otp) = Inr (uint8ToHex sid, otp)"
proof -
  let ?rest = "uint8ToHex sid @ js ''?otp='' @ bufToBase64url otp"
  note sid = uint8ToHex_sid[OF assms(1,2)]
  have q: "js ''?otp='' = 63 # js ''otp=''" by (simp add: js_def)
  have tw: "takeWhile (\<lambda>x. x \<noteq> 63) ?rest = uint8ToHex sid" "dropWhile (\<lambda>x. x \<noteq> 63) ?rest = js ''?otp='' @ bufToBase64url otp"
    using cut_absent[OF sid(2)] by (simp_all add: q)
  then have cut: "cut_at 63 ?rest = (uint8ToHex sid, js ''otp='' @ bufToBase64url otp)" by (simp add: cut_at_def q)
  have ne: "bufToBase64url otp \<noteq> []" using btoa_url_ne[OF _ assms(3)] assms(4) by (metis list.size(3) zero_neq_numeral)
  show ?thesis
    using cut search_get_otp[OF plain_base64url[OF assms(3)]] sid(1) base64url_inverse[OF assms(3)] assms(4) ne
    by (simp add: parse_qr_def qr_content_def q)
qed

text \<open>The wire formats of a device transfer read back what was written: the scanning device gets exactly the session identifier and
  the one-time password of the QR code (so both sides derive their key from the same password); a frame gives back its type,
  its sequence number at all 32 bits and its data; a sequence number survives the eight-byte form of the manifest; and the
  comparison of hashes is equality.\<close>

theorem sync_wire_roundtrip:
  assumes "is_bytes sid" "length sid = 16" "is_bytes otp" "length otp = 16"
  shows "parse_qr (qr_content sid otp) = Inr (uint8ToHex sid, otp)
    \<and> decodeFrame (encodeFrame t n p) = Some \<lparr>f_type = t, f_seq = n, f_data = p\<rparr>
    \<and> u64BEToSeq (a @ seqToU64BE n @ b) (length a) = n
    \<and> timingSafeEq x y = (x = y)"
proof -
  have "u64BEToSeq (a @ seqToU64BE n @ b) (length a) = n"
    by (simp add: u64BEToSeq_def nth_append) (simp add: seqToU64BE_def)
  then show ?thesis using qr_roundtrip[OF assms] decode_encode timingSafeEq_iff by simp
qed

theorem sync_wire_roundtrip_witness:
  "parse_qr (qr_content (replicate 16 171) (replicate 16 200)) = Inr (uint8ToHex (replicate 16 171), replicate 16 200)"
  using sync_wire_roundtrip[of "replicate 16 171" "replicate 16 200"] by simp

end
