(* ===== verification/DeviceTransfer.thy ===== *)
theory DeviceTransfer
  imports SyncWire
begin

text \<open>
  The device transfer itself, \<open>client/src/hooks/useDeviceSync.ts\<close>: the source streams sealed records and a signed manifest, the
  target opens, hashes and imports each record and compares with the manifest.  The target's message handler awaits several
  times, so handlers of different messages interleave: \<open>tasks\<close> holds one entry per running handler, and a step resumes any one
  of them.  The Rust primitives behind \<open>wasm\<close> and SHA-256 are a parameter.
\<close>

record sync_crypto =
  sealChunk :: "bytes \<Rightarrow> seq \<Rightarrow> bytes \<Rightarrow> bytes"
  openChunk :: "bytes \<Rightarrow> seq \<Rightarrow> bytes \<Rightarrow> bytes option"
  buildManifest :: "bytes \<Rightarrow> bytes \<Rightarrow> bytes \<Rightarrow> bytes"
  verifyManifest :: "bytes \<Rightarrow> bytes \<Rightarrow> bytes option"
  deriveKeys :: "bytes \<Rightarrow> bytes \<Rightarrow> bytes \<Rightarrow> bytes"
  sha256 :: "bytes \<Rightarrow> bytes"

section \<open>The source\<close>

definition mac_key :: "bytes \<Rightarrow> bytes" where
  "mac_key keys = js_slice 32 64 keys"

text \<open>
  The loop over the exported records: frames sent, identifiers and hashes of the manifest.  The manifest buffers have room for
  the records counted before; one more record raises a \<open>RangeError\<close> (\<open>None\<close> in the last component).
\<close>

fun source_loop :: "sync_crypto \<Rightarrow> bytes \<Rightarrow> nat \<Rightarrow> nat \<Rightarrow> bytes list \<Rightarrow> bytes list \<times> (bytes \<times> bytes) option" where
  "source_loop S keys total_count n [] = ([], Some ([], []))"
| "source_loop S keys total_count n (p # ps) =
     (if n \<ge> total_count then ([], None)
      else
        (case source_loop S keys total_count (n + 1) ps of
           (frames, r) \<Rightarrow>
             (encodeFrame MSG_CHUNK (word_of_nat n) (sealChunk S keys (word_of_nat n) p) # frames,
              map_option (\<lambda>(ids, hashes). (seqToU64BE (word_of_nat n) @ ids, sha256 S p @ hashes)) r)))"

definition runSourceTransfer :: "sync_crypto \<Rightarrow> bytes \<Rightarrow> nat \<Rightarrow> bytes list \<Rightarrow> bytes list \<times> bool" where
  "runSourceTransfer S keys total_count payloads =
     (case source_loop S keys total_count 0 payloads of
        (frames, None) \<Rightarrow> (frames, False)
      | (frames, Some (ids, hashes)) \<Rightarrow>
          (let n = word_of_nat (length payloads)
           in (frames @ [encodeFrame MSG_MANIFEST n (sealChunk S keys n (buildManifest S (mac_key keys) ids hashes))], True)))"

section \<open>The target\<close>

datatype task =
    Opening seq bytes
  | Hashing seq bytes
  | Importing bytes
  | OpeningManifest seq bytes
  | Verifying bytes

datatype rx_end = Resolved | Rejected

record rx =
  tasks :: "task list"
  received :: "(seq, bytes) jsmap"
  rx_db :: crypto_db
  imported :: "bytes list"
  outcome :: "rx_end option"

definition rx_start :: "crypto_db \<Rightarrow> rx" where
  "rx_start db = \<lparr>tasks = [], received = [], rx_db = db, imported = [], outcome = None\<rparr>"

text \<open>\<open>safeResolve\<close> and \<open>safeReject\<close>: the first call settles.\<close>

definition settle :: "rx_end \<Rightarrow> rx \<Rightarrow> rx" where
  "settle e s = (if outcome s = None then s\<lparr>outcome := Some e\<rparr> else s)"

definition entry_at :: "bytes \<Rightarrow> nat \<Rightarrow> seq \<times> bytes" where
  "entry_at entries i = (u64BEToSeq entries (i * 40), js_slice (i * 40 + 8) (i * 40 + 40) entries)"

definition manifest_verdict :: "bytes \<Rightarrow> (seq, bytes) jsmap \<Rightarrow> rx_end" where
  "manifest_verdict entries rcv =
     (if length entries mod 40 \<noteq> 0 then Rejected
      else if length rcv \<noteq> length entries div 40 then Rejected
      else if list_all (\<lambda>i. case entry_at entries i of (n, h) \<Rightarrow>
                          (case mget rcv n of None \<Rightarrow> False | Some h' \<Rightarrow> timingSafeEq h h')) [0..<length entries div 40]
      then Resolved else Rejected)"

text \<open>A message arrives: \<open>aborted\<close> rejects, a malformed frame is dropped, a known one starts its handler.\<close>

definition rx_arrive :: "bool \<Rightarrow> bytes \<Rightarrow> rx \<Rightarrow> rx" where
  "rx_arrive aborted buf s =
     (if aborted then settle Rejected s
      else case decodeFrame buf of
        None \<Rightarrow> s
      | Some f \<Rightarrow>
          if f_type f = MSG_CHUNK then s\<lparr>tasks := tasks s @ [Opening (f_seq f) (f_data f)]\<rparr>
          else if f_type f = MSG_MANIFEST then s\<lparr>tasks := tasks s @ [OpeningManifest (f_seq f) (f_data f)]\<rparr>
          else s)"

text \<open>The handler resumes with the result it awaited; \<open>Some\<close> of what it awaits next.\<close>

fun resume :: "sync_crypto \<Rightarrow> json_env \<Rightarrow> bytes \<Rightarrow> task \<Rightarrow> rx \<Rightarrow> task option \<times> rx" where
  "resume S J keys (Opening n data) s =
     (case openChunk S keys n data of None \<Rightarrow> (None, settle Rejected s) | Some plain \<Rightarrow> (Some (Hashing n plain), s))"
| "resume S J keys (Hashing n plain) s = (Some (Importing plain), s\<lparr>received := mset_at n (sha256 S plain) (received s)\<rparr>)"
| "resume S J keys (Importing plain) s =
     (case importSyncRecord J plain (rx_db s) of
        None \<Rightarrow> (None, settle Rejected s)
      | Some db \<Rightarrow> (None, s\<lparr>rx_db := db, imported := imported s @ [plain]\<rparr>))"
| "resume S J keys (OpeningManifest n data) s =
     (case openChunk S keys n data of None \<Rightarrow> (None, settle Rejected s) | Some raw \<Rightarrow> (Some (Verifying raw), s))"
| "resume S J keys (Verifying raw) s =
     (case verifyManifest S (mac_key keys) raw of
        None \<Rightarrow> (None, settle Rejected s)
      | Some entries \<Rightarrow> (None, settle (manifest_verdict entries (received s)) s))"

fun_cases resumeE: "resume S J keys t s = (nt, s')"

definition rx_advance :: "sync_crypto \<Rightarrow> json_env \<Rightarrow> bytes \<Rightarrow> nat \<Rightarrow> rx \<Rightarrow> rx" where
  "rx_advance S J keys i s =
     (if i < length (tasks s) then
        (case resume S J keys (tasks s ! i) s of
           (None, s') \<Rightarrow> s'\<lparr>tasks := take i (tasks s) @ drop (Suc i) (tasks s)\<rparr>
         | (Some t, s') \<Rightarrow> s'\<lparr>tasks := (tasks s)[i := t]\<rparr>)
      else s)"

datatype rx_event = Arrive bool bytes | Advance nat | Closed bool

fun rx_step :: "sync_crypto \<Rightarrow> json_env \<Rightarrow> bytes \<Rightarrow> rx_event \<Rightarrow> rx \<Rightarrow> rx" where
  "rx_step S J keys (Arrive aborted buf) s = rx_arrive aborted buf s"
| "rx_step S J keys (Advance i) s = rx_advance S J keys i s"
| "rx_step S J keys (Closed aborted) s = (if aborted then s else settle Rejected s)"

definition rx_run :: "sync_crypto \<Rightarrow> json_env \<Rightarrow> bytes \<Rightarrow> rx_event list \<Rightarrow> rx \<Rightarrow> rx" where
  "rx_run S J keys es s = foldl (\<lambda>s e. rx_step S J keys e s) s es"

section \<open>The session's secrets on the wire\<close>

text \<open>What the primitives promise for one session: opening inverts sealing, the hash has 32 bytes, and verifying a manifest gives back its
  entries.\<close>

fun entries_of :: "bytes \<Rightarrow> bytes \<Rightarrow> nat \<Rightarrow> bytes" where
  "entries_of ids hashes 0 = []"
| "entries_of ids hashes (Suc n) = take 8 ids @ take 32 hashes @ entries_of (drop 8 ids) (drop 32 hashes) n"

definition sync_laws :: "sync_crypto \<Rightarrow> bytes \<Rightarrow> bool" where
  "sync_laws S keys \<longleftrightarrow>
     (\<forall>n p. openChunk S keys n (sealChunk S keys n p) = Some p) \<and> (\<forall>p. length (sha256 S p) = 32 \<and> is_bytes (sha256 S p))
     \<and> (\<forall>n ids hashes. 5 + n * 40 < 2 ^ 32 \<and> length ids = 8 * n \<and> length hashes = 32 * n \<and> is_bytes ids \<and> is_bytes hashes
          \<longrightarrow> verifyManifest S (mac_key keys) (buildManifest S (mac_key keys) ids hashes) = Some (entries_of ids hashes n))"

text \<open>Only the source seals under the session key, and only these plaintexts; only it signs manifests.\<close>

definition manifest_ids :: "nat \<Rightarrow> nat \<Rightarrow> bytes" where
  "manifest_ids from n = concat (map (\<lambda>i. seqToU64BE (word_of_nat i)) [from..<from + n])"

definition manifest_hashes :: "sync_crypto \<Rightarrow> bytes list \<Rightarrow> bytes" where
  "manifest_hashes S ps = concat (map (sha256 S) ps)"

definition the_manifest :: "sync_crypto \<Rightarrow> bytes \<Rightarrow> bytes list \<Rightarrow> bytes" where
  "the_manifest S keys ps = buildManifest S (mac_key keys) (manifest_ids 0 (length ps)) (manifest_hashes S ps)"

definition from_source :: "sync_crypto \<Rightarrow> bytes \<Rightarrow> bytes list \<Rightarrow> seq \<Rightarrow> bytes \<Rightarrow> bool" where
  "from_source S keys ps n p \<longleftrightarrow>
     (\<exists>i < length ps. n = word_of_nat i \<and> p = ps ! i) \<or> n = word_of_nat (length ps) \<and> p = the_manifest S keys ps"

definition authentic :: "sync_crypto \<Rightarrow> bytes \<Rightarrow> bytes list \<Rightarrow> bytes \<Rightarrow> bool" where
  "authentic S keys ps buf \<longleftrightarrow>
     (case decodeFrame buf of
        None \<Rightarrow> True
      | Some f \<Rightarrow> (case openChunk S keys (f_seq f) (f_data f) of None \<Rightarrow> True | Some p \<Rightarrow> from_source S keys ps (f_seq f) p))"

definition unsigned :: "sync_crypto \<Rightarrow> bytes \<Rightarrow> bytes list \<Rightarrow> bool" where
  "unsigned S keys ps \<longleftrightarrow> list_all (\<lambda>p. verifyManifest S (mac_key keys) p = None) ps"

lemma source_loop_frames:
  assumes "n + length ps \<le> total_count"
  shows "source_loop S keys total_count n ps
    = (map (\<lambda>i. encodeFrame MSG_CHUNK (word_of_nat (n + i)) (sealChunk S keys (word_of_nat (n + i)) (ps ! i))) [0..<length ps],
       Some (manifest_ids n (length ps), manifest_hashes S ps))"
  using assms
proof (induction ps arbitrary: n)
  case (Cons p ps)
  have "map (\<lambda>i. encodeFrame MSG_CHUNK (word_of_nat (n + i)) (sealChunk S keys (word_of_nat (n + i)) ((p # ps) ! i))) [0..<length (p # ps)]
      = encodeFrame MSG_CHUNK (word_of_nat n) (sealChunk S keys (word_of_nat n) p)
        # map (\<lambda>i. encodeFrame MSG_CHUNK (word_of_nat (Suc n + i)) (sealChunk S keys (word_of_nat (Suc n + i)) (ps ! i))) [0..<length ps]"
    by (subst upt_conv_Cons) (simp_all add: map_Suc_upt[symmetric] comp_def ac_simps del: upt_Suc)
  moreover have "manifest_ids n (Suc (length ps)) = seqToU64BE (word_of_nat n) @ manifest_ids (Suc n) (length ps)"
    by (simp add: manifest_ids_def upt_conv_Cons del: upt_Suc)
  ultimately show ?case using Cons by (simp add: manifest_hashes_def ac_simps del: upt_Suc)
qed (simp add: manifest_ids_def manifest_hashes_def)

lemma entry_at_skip:
  "length a = 8 \<Longrightarrow> length b = 32 \<Longrightarrow> entry_at (a @ b @ e) (Suc i) = entry_at e i"
proof -
  assume len: "length a = 8" "length b = 32"
  have "(a @ b @ e) ! (Suc i * 40 + k) = e ! (i * 40 + k)" for k using len by (simp add: nth_append)
  moreover have "drop (Suc i * 40 + k) (a @ b @ e) = drop (i * 40 + k) e" for k using len by simp
  ultimately show ?thesis by (simp add: entry_at_def u64BEToSeq_def js_slice_def del: mult_Suc)
qed

lemma manifest_entries:
  assumes "\<forall>p. length (sha256 S p) = 32" "n = length ps"
  shows "length (entries_of (manifest_ids a n) (manifest_hashes S ps) n) = 40 * n"
    "i < n \<Longrightarrow> entry_at (entries_of (manifest_ids a n) (manifest_hashes S ps) n) i = (word_of_nat (a + i), sha256 S (ps ! i))"
proof -
  have cons: "manifest_ids a (Suc m) = seqToU64BE (word_of_nat a) @ manifest_ids (Suc a) m" for a m
    by (simp add: manifest_ids_def upt_conv_Cons del: upt_Suc)
  have step: "entries_of (manifest_ids a (Suc m)) (manifest_hashes S (p # qs)) (Suc m)
      = seqToU64BE (word_of_nat a) @ sha256 S p @ entries_of (manifest_ids (Suc a) m) (manifest_hashes S qs) m" for a m p qs
    using assms(1) u64_roundtrip(2) by (simp add: cons manifest_hashes_def)
  have head: "entry_at (seqToU64BE w @ sha256 S p @ e) 0 = (w, sha256 S p)" for w p e
    using assms(1) u64_roundtrip(2)[of w]
    by (simp add: entry_at_def u64BEToSeq_def js_slice_def nth_append) (simp add: seqToU64BE_def)
  show "length (entries_of (manifest_ids a n) (manifest_hashes S ps) n) = 40 * n"
    using assms(2)
  proof (induction ps arbitrary: a n)
    case (Cons p ps)
    show ?case using Cons.IH[of "n - 1" "Suc a"] Cons.prems assms(1) u64_roundtrip(2) by (simp add: step del: entries_of.simps)
  qed simp
  show "entry_at (entries_of (manifest_ids a n) (manifest_hashes S ps) n) i = (word_of_nat (a + i), sha256 S (ps ! i))" if "i < n"
    using assms(2) that
  proof (induction ps arbitrary: a n i)
    case (Cons p ps)
    show ?case
    proof (cases i)
      case 0
      then show ?thesis using Cons.prems by (simp add: step head del: entries_of.simps)
    next
      case (Suc j)
      then show ?thesis
        using Cons.IH[of "length ps" j "Suc a"] Cons.prems assms(1) u64_roundtrip(2) by (simp add: step entry_at_skip ac_simps del: entries_of.simps)
    qed
  qed simp
qed

lemma manifest_sizes:
  "length (manifest_ids a n) = 8 * n" "\<forall>p. length (sha256 S p) = 32 \<Longrightarrow> length (manifest_hashes S ps) = 32 * length ps"
  by (induction n) (simp_all add: manifest_ids_def u64_roundtrip(2), induction ps, simp_all add: manifest_hashes_def)

lemma manifest_bytes: "is_bytes (manifest_ids a n)" "\<forall>p. is_bytes (sha256 S p) \<Longrightarrow> is_bytes (manifest_hashes S ps)"
  by (induction n) (simp_all add: manifest_ids_def u64_roundtrip(3), induction ps, simp_all add: manifest_hashes_def)

lemma verify_the_manifest:
  assumes "sync_laws S keys" "5 + length ps * 40 < 2 ^ 32"
  shows "verifyManifest S (mac_key keys) (the_manifest S keys ps)
    = Some (entries_of (manifest_ids 0 (length ps)) (manifest_hashes S ps) (length ps))"
  using assms manifest_sizes manifest_bytes unfolding sync_laws_def the_manifest_def by blast

text \<open>The verdict is positive exactly when every record of the manifest was received with its hash and nothing else was.\<close>

lemma verdict_iff:
  assumes "\<forall>p. length (sha256 S p) = 32"
  shows "manifest_verdict (entries_of (manifest_ids 0 (length ps)) (manifest_hashes S ps) (length ps)) rcv = Resolved
    \<longleftrightarrow> length rcv = length ps \<and> (\<forall>i < length ps. mget rcv (word_of_nat i) = Some (sha256 S (ps ! i)))"
proof -
  let ?e = "entries_of (manifest_ids 0 (length ps)) (manifest_hashes S ps) (length ps)"
  have len: "length ?e = 40 * length ps" using manifest_entries(1)[OF assms refl] .
  have "(case entry_at ?e i of (n, h) \<Rightarrow> (case mget rcv n of None \<Rightarrow> False | Some h' \<Rightarrow> timingSafeEq h h'))
      \<longleftrightarrow> mget rcv (word_of_nat i) = Some (sha256 S (ps ! i))" if "i < length ps" for i
    using manifest_entries(2)[OF assms refl that, of 0] by (auto simp: timingSafeEq_iff split: option.splits)
  then show ?thesis by (auto simp: manifest_verdict_def len list_all_iff)
qed

section \<open>One record after the other\<close>

definition in_order :: "bytes list \<Rightarrow> rx_event list" where
  "in_order frames = concat (map (\<lambda>f. [Arrive False f, Advance 0, Advance 0, Advance 0]) frames)"

lemma rx_run_append: "rx_run S J keys (es @ fs) s = rx_run S J keys fs (rx_run S J keys es s)"
  by (simp add: rx_run_def)

lemma rx_run_simps [simp]: "rx_run S J keys [] s = s" "rx_run S J keys (e # es) s = rx_run S J keys es (rx_step S J keys e s)"
  by (simp_all add: rx_run_def)

lemma chunk_in_order:
  assumes "sync_laws S keys" "tasks s = []" "importSyncRecord J p (rx_db s) = Some db"
  shows "rx_run S J keys [Arrive False (encodeFrame MSG_CHUNK n (sealChunk S keys n p)), Advance 0, Advance 0, Advance 0] s
    = s\<lparr>received := mset_at n (sha256 S p) (received s), rx_db := db, imported := imported s @ [p]\<rparr>"
  using assms by (simp add: rx_arrive_def rx_advance_def sync_laws_def MSG_CHUNK_def)

lemma word_of_nat_inj32: "i < 2 ^ 32 \<Longrightarrow> j < 2 ^ 32 \<Longrightarrow> (word_of_nat i :: seq) = word_of_nat j \<longleftrightarrow> i = j"
  by (simp add: word_of_nat_eq_iff take_bit_nat_eq_self)

lemma distinct_seq: "k < n \<Longrightarrow> n < 2 ^ 32 \<Longrightarrow> i < k \<Longrightarrow> (word_of_nat k :: seq) \<noteq> word_of_nat i"
  using word_of_nat_inj32[of k i] by simp

definition chunk_frame :: "sync_crypto \<Rightarrow> bytes \<Rightarrow> bytes list \<Rightarrow> nat \<Rightarrow> bytes" where
  "chunk_frame S keys ps i = encodeFrame MSG_CHUNK (word_of_nat i) (sealChunk S keys (word_of_nat i) (ps ! i))"

definition manifest_frame :: "sync_crypto \<Rightarrow> bytes \<Rightarrow> bytes list \<Rightarrow> bytes" where
  "manifest_frame S keys ps =
     encodeFrame MSG_MANIFEST (word_of_nat (length ps)) (sealChunk S keys (word_of_nat (length ps)) (the_manifest S keys ps))"

lemma source_frames:
  assumes "length ps \<le> total_count"
  shows "runSourceTransfer S keys total_count ps
    = (map (chunk_frame S keys ps) [0..<length ps] @ [manifest_frame S keys ps], True)"
  using source_loop_frames[of 0 ps total_count S keys] assms
  by (simp add: runSourceTransfer_def Let_def the_manifest_def manifest_frame_def chunk_frame_def)

lemma importing_prefix: "import_all J (ps @ [p]) db = Some db' \<longleftrightarrow> (\<exists>d. import_all J ps db = Some d \<and> importSyncRecord J p d = Some db')"
  by (auto simp: import_all_append bind_eq_Some_conv)

text \<open>After the first \<open>k\<close> chunks.\<close>

lemma chunks_in_order:
  assumes "sync_laws S keys" "length ps < 2 ^ 32" "k \<le> length ps" "import_all J (take k ps) db = Some d"
  shows "\<exists>rcv. rx_run S J keys (in_order (map (chunk_frame S keys ps) [0..<k])) (rx_start db)
      = \<lparr>tasks = [], received = rcv, rx_db = d, imported = take k ps, outcome = None\<rparr>
    \<and> map fst rcv = map word_of_nat [0..<k] \<and> (\<forall>i < k. mget rcv (word_of_nat i) = Some (sha256 S (ps ! i)))"
  using assms(3,4)
proof (induction k arbitrary: d)
  case (Suc k)
  have tk: "take (Suc k) ps = take k ps @ [ps ! k]" using Suc.prems(1) by (simp add: take_Suc_conv_app_nth)
  then obtain d0 where d0: "import_all J (take k ps) db = Some d0" "importSyncRecord J (ps ! k) d0 = Some d"
    using Suc.prems(2) importing_prefix by metis
  obtain rcv where run: "rx_run S J keys (in_order (map (chunk_frame S keys ps) [0..<k])) (rx_start db)
      = \<lparr>tasks = [], received = rcv, rx_db = d0, imported = take k ps, outcome = None\<rparr>"
    and keys: "map fst rcv = map word_of_nat [0..<k]" and vals: "\<forall>i < k. mget rcv (word_of_nat i) = Some (sha256 S (ps ! i))"
    using Suc.IH[OF _ d0(1)] Suc.prems(1) by auto
  let ?rcv = "mset_at (word_of_nat k) (sha256 S (ps ! k)) rcv"
  have ord: "in_order (map (chunk_frame S keys ps) [0..<Suc k]) = in_order (map (chunk_frame S keys ps) [0..<k])
      @ [Arrive False (chunk_frame S keys ps k), Advance 0, Advance 0, Advance 0]"
    by (simp add: in_order_def)
  have "rx_run S J keys (in_order (map (chunk_frame S keys ps) [0..<Suc k])) (rx_start db)
      = \<lparr>tasks = [], received = ?rcv, rx_db = d, imported = take (Suc k) ps, outcome = None\<rparr>"
    unfolding ord rx_run_append run chunk_frame_def
    using chunk_in_order[OF assms(1), of "\<lparr>tasks = [], received = rcv, rx_db = d0, imported = take k ps, outcome = None\<rparr>" J "ps ! k" d "word_of_nat k"] d0(2)
    by (simp add: tk)
  moreover have new: "word_of_nat k \<notin> set (map fst rcv)"
  proof
    assume "word_of_nat k \<in> set (map fst rcv)"
    then obtain i where "i < k" "(word_of_nat k :: seq) = word_of_nat i" unfolding keys by auto
    then show False using word_of_nat_inj32[of k i] Suc.prems(1) assms(2) by simp
  qed
  then have "map fst ?rcv = map word_of_nat [0..<Suc k]"
    using keys by (auto simp: mset_at_def update_keys)
  moreover have "\<forall>i < Suc k. mget ?rcv (word_of_nat i) = Some (sha256 S (ps ! i))"
    using vals distinct_seq[of k "length ps"] Suc.prems(1) assms(2) by (auto simp: less_Suc_eq)
  ultimately show ?case by blast
qed (simp add: in_order_def rx_start_def)

section \<open>Any interleaving\<close>

text \<open>A running handler only works on what the source sealed.\<close>

fun task_ok :: "sync_crypto \<Rightarrow> bytes \<Rightarrow> bytes list \<Rightarrow> task \<Rightarrow> bool" where
  "task_ok S keys ps (Opening n d) = (\<forall>p. openChunk S keys n d = Some p \<longrightarrow> from_source S keys ps n p)"
| "task_ok S keys ps (Hashing n p) = from_source S keys ps n p"
| "task_ok S keys ps (Importing p) = True"
| "task_ok S keys ps (OpeningManifest n d) = (\<forall>p. openChunk S keys n d = Some p \<longrightarrow> from_source S keys ps n p)"
| "task_ok S keys ps (Verifying raw) = (\<exists>n. from_source S keys ps n raw)"

definition accounted :: "json_env \<Rightarrow> rx \<Rightarrow> bytes \<Rightarrow> bool" where
  "accounted J s p \<longleftrightarrow> p \<in> set (imported s) \<or> Importing p \<in> set (tasks s) \<or> (\<exists>db. importSyncRecord J p db = None)"

definition rx_inv :: "sync_crypto \<Rightarrow> json_env \<Rightarrow> bytes \<Rightarrow> bytes list \<Rightarrow> rx \<Rightarrow> bool" where
  "rx_inv S J keys ps s \<longleftrightarrow>
     (\<forall>t \<in> set (tasks s). task_ok S keys ps t)
     \<and> (\<forall>n h. mget (received s) n = Some h \<longrightarrow> (\<exists>p. from_source S keys ps n p \<and> h = sha256 S p \<and> accounted J s p))
     \<and> (outcome s = Some Resolved \<longrightarrow> (\<forall>i < length ps. mget (received s) (word_of_nat i) \<noteq> None))"

lemma set_remove_nth: "i < length xs \<Longrightarrow> set xs \<subseteq> insert (xs ! i) (set (take i xs @ drop (Suc i) xs))"
  by (metis Un_insert_right id_take_nth_drop list.simps(15) set_append subset_refl)

lemma set_replace_nth: "i < length xs \<Longrightarrow> set xs \<subseteq> insert (xs ! i) (set (xs[i := t])) \<and> t \<in> set (xs[i := t])"
  using set_update_subset_insert[of "xs[i := t]" i "xs ! i"] by (simp add: set_update_memI)

lemma settle_simps [simp]:
  "tasks (settle e s) = tasks s" "received (settle e s) = received s" "imported (settle e s) = imported s" "rx_db (settle e s) = rx_db s"
  by (simp_all add: settle_def)

lemma accounted_mono:
  "accounted J s p \<Longrightarrow> set (imported s) \<subseteq> set (imported s') \<Longrightarrow> (Importing p \<in> set (tasks s) \<Longrightarrow> accounted J s' p) \<Longrightarrow> accounted J s' p"
  by (auto simp: accounted_def)

lemma rx_inv_settle: "rx_inv S J keys ps s \<Longrightarrow> rx_inv S J keys ps (settle Rejected s)"
  by (auto simp: rx_inv_def accounted_def settle_def)

lemma rx_inv_mono:
  assumes "rx_inv S J keys ps s" "\<And>p. accounted J s p \<Longrightarrow> accounted J s' p" "received s' = received s" "outcome s' = outcome s"
    "\<And>t. t \<in> set (tasks s') \<Longrightarrow> t \<in> set (tasks s) \<or> task_ok S keys ps t"
  shows "rx_inv S J keys ps s'"
proof -
  have "\<forall>t \<in> set (tasks s'). task_ok S keys ps t" using assms(1,5) unfolding rx_inv_def by blast
  moreover have "\<forall>n h. mget (received s') n = Some h \<longrightarrow> (\<exists>p. from_source S keys ps n p \<and> h = sha256 S p \<and> accounted J s' p)"
    using assms(1,2) unfolding rx_inv_def assms(3) by blast
  moreover have "outcome s' = Some Resolved \<longrightarrow> (\<forall>i < length ps. mget (received s') (word_of_nat i) \<noteq> None)"
    using assms(1) unfolding rx_inv_def assms(3,4) by blast
  ultimately show ?thesis unfolding rx_inv_def by blast
qed

lemma rx_inv_arrive:
  assumes "rx_inv S J keys ps s" "authentic S keys ps buf"
  shows "rx_inv S J keys ps (rx_arrive aborted buf s)"
proof -
  have more: "rx_inv S J keys ps (s\<lparr>tasks := tasks s @ [t]\<rparr>)" if "task_ok S keys ps t" for t
    by (rule rx_inv_mono[OF assms(1)]) (use that in \<open>auto simp: accounted_def\<close>)
  show ?thesis
  proof (cases "decodeFrame buf")
    case (Some f)
    then have "openChunk S keys (f_seq f) (f_data f) = Some p \<Longrightarrow> from_source S keys ps (f_seq f) p" for p
      using assms(2) by (simp add: authentic_def)
    then show ?thesis using Some more assms(1) rx_inv_settle by (simp add: rx_arrive_def)
  qed (use assms rx_inv_settle in \<open>simp add: rx_arrive_def\<close>)
qed

text \<open>Resuming one handler.\<close>

lemma resume_task_ok:
  "resume S J keys t s = (Some u, s') \<Longrightarrow> task_ok S keys ps t \<Longrightarrow> task_ok S keys ps u"
  by (auto elim!: resumeE split: option.splits)

lemma resume_outcome:
  "resume S J keys t s = (nt, s') \<Longrightarrow> outcome s \<noteq> Some Resolved \<Longrightarrow> outcome s' = Some Resolved \<Longrightarrow>
   \<exists>raw e. t = Verifying raw \<and> verifyManifest S (mac_key keys) raw = Some e \<and> manifest_verdict e (received s) = Resolved
     \<and> received s' = received s"
  by (auto simp: settle_def elim!: resumeE split: option.splits if_splits)

lemma resume_received:
  "resume S J keys t s = (nt, s') \<Longrightarrow> mget (received s') n = Some h \<Longrightarrow>
   mget (received s) n = Some h \<or> (\<exists>p. t = Hashing n p \<and> h = sha256 S p \<and> nt = Some (Importing p))"
  by (auto elim!: resumeE split: option.splits if_splits)

lemma resume_grows:
  "resume S J keys t s = (nt, s') \<Longrightarrow> mget (received s) n \<noteq> None \<Longrightarrow> mget (received s') n \<noteq> None"
  "resume S J keys t s = (nt, s') \<Longrightarrow> set (imported s) \<subseteq> set (imported s')"
  by (auto elim!: resumeE split: option.splits)

lemma resume_importing:
  "resume S J keys (Importing p) s = (nt, s') \<Longrightarrow> p \<in> set (imported s') \<or> (\<exists>db. importSyncRecord J p db = None)"
  by (auto split: option.splits)

lemma resume_inv:
  assumes inv: "rx_inv S J keys ps s" and t: "t \<in> set (tasks s)" and r: "resume S J keys t s = (nt, s')"
    and laws: "sync_laws S keys" "unsigned S keys ps" "5 + length ps * 40 < 2 ^ 32"
    and ts: "set (tasks s) \<subseteq> insert t (set ts)" "\<forall>u. nt = Some u \<longrightarrow> u \<in> set ts" "set ts \<subseteq> set (tasks s) \<union> set_option nt"
  shows "rx_inv S J keys ps (s'\<lparr>tasks := ts\<rparr>)"
proof -
  have ok: "task_ok S keys ps t" using inv t by (simp add: rx_inv_def)
  have tasks: "\<forall>u \<in> set ts. task_ok S keys ps u"
    using ts(3) inv resume_task_ok[OF _ ok] r by (fastforce simp: rx_inv_def)
  have kept: "accounted J (s'\<lparr>tasks := ts\<rparr>) p" if "accounted J s p" for p
  proof (rule accounted_mono[OF that])
    show "set (imported s) \<subseteq> set (imported (s'\<lparr>tasks := ts\<rparr>))" using resume_grows(2)[OF r] by simp
    show "accounted J (s'\<lparr>tasks := ts\<rparr>) p" if imp: "Importing p \<in> set (tasks s)"
      using imp ts(1) r resume_importing[of S J keys p s nt s'] by (auto simp: accounted_def)
  qed
  have rcv: "\<exists>p. from_source S keys ps n p \<and> h = sha256 S p \<and> accounted J (s'\<lparr>tasks := ts\<rparr>) p" if "mget (received s') n = Some h" for n h
    using resume_received[OF r that]
  proof
    assume "mget (received s) n = Some h"
    then obtain p where "from_source S keys ps n p" "h = sha256 S p" "accounted J s p" using inv unfolding rx_inv_def by blast
    then show ?thesis using kept by blast
  next
    assume "\<exists>p. t = Hashing n p \<and> h = sha256 S p \<and> nt = Some (Importing p)"
    then obtain p where p: "t = Hashing n p" "h = sha256 S p" "nt = Some (Importing p)" by blast
    then have "accounted J (s'\<lparr>tasks := ts\<rparr>) p" using ts(2) by (simp add: accounted_def)
    then show ?thesis using p ok by auto
  qed
  have res: "\<forall>i < length ps. mget (received s') (word_of_nat i) \<noteq> None" if out: "outcome s' = Some Resolved"
  proof (cases "outcome s = Some Resolved")
    case True
    then show ?thesis using inv resume_grows(1)[OF r] unfolding rx_inv_def by blast
  next
    case False
    then obtain raw e where v: "t = Verifying raw" "verifyManifest S (mac_key keys) raw = Some e"
      "manifest_verdict e (received s) = Resolved" "received s' = received s"
      using resume_outcome[OF r _ out] by blast
    then have "raw = the_manifest S keys ps" using ok laws(2) by (auto simp: from_source_def unsigned_def list_all_length)
    then have "e = entries_of (manifest_ids 0 (length ps)) (manifest_hashes S ps) (length ps)"
      using verify_the_manifest[OF laws(1,3)] v(2) by simp
    then show ?thesis using verdict_iff[of S ps "received s"] v(3,4) laws(1) by (auto simp: sync_laws_def)
  qed
  show ?thesis using tasks rcv res unfolding rx_inv_def by simp
qed

lemma rx_inv_advance:
  assumes "rx_inv S J keys ps s" "sync_laws S keys" "unsigned S keys ps" "5 + length ps * 40 < 2 ^ 32"
  shows "rx_inv S J keys ps (rx_advance S J keys i s)"
proof (cases "i < length (tasks s)")
  case True
  let ?t = "tasks s ! i"
  obtain nt s' where r: "resume S J keys ?t s = (nt, s')" by fastforce
  show ?thesis
  proof (cases nt)
    case None
    have "rx_inv S J keys ps (s'\<lparr>tasks := take i (tasks s) @ drop (Suc i) (tasks s)\<rparr>)"
      by (rule resume_inv[OF assms(1) nth_mem[OF True] r assms(2-4) set_remove_nth[OF True]])
        (auto simp: None dest: in_set_takeD in_set_dropD)
    then show ?thesis using True r None by (simp add: rx_advance_def)
  next
    case (Some t)
    have "rx_inv S J keys ps (s'\<lparr>tasks := (tasks s)[i := t]\<rparr>)"
      by (rule resume_inv[OF assms(1) nth_mem[OF True] r assms(2-4)])
        (use set_replace_nth[OF True, of t] set_update_subset_insert[of "tasks s" i t] in \<open>auto simp: Some\<close>)
    then show ?thesis using True r Some by (simp add: rx_advance_def)
  qed
qed (use assms in \<open>simp add: rx_advance_def\<close>)

fun authentic_event :: "sync_crypto \<Rightarrow> bytes \<Rightarrow> bytes list \<Rightarrow> rx_event \<Rightarrow> bool" where
  "authentic_event S keys ps (Arrive aborted buf) = authentic S keys ps buf"
| "authentic_event S keys ps _ = True"

lemma rx_inv_run:
  assumes "sync_laws S keys" "unsigned S keys ps" "5 + length ps * 40 < 2 ^ 32" "list_all (authentic_event S keys ps) es"
  shows "rx_inv S J keys ps (rx_run S J keys es (rx_start db))"
  using assms(4)
proof (induction es rule: rev_induct)
  case Nil
  show ?case by (simp add: rx_inv_def rx_start_def)
next
  case (snoc e es)
  then show ?case using rx_inv_advance[OF _ assms(1-3)] rx_inv_arrive rx_inv_settle
    by (cases e) (simp_all add: rx_run_append)
qed

section \<open>Properties of the transfer\<close>

lemma manifest_in_order:
  assumes "sync_laws S keys" "tasks s = []" "outcome s = None" "length (received s) = length ps"
    "\<forall>i < length ps. mget (received s) (word_of_nat i) = Some (sha256 S (ps ! i))" "5 + length ps * 40 < 2 ^ 32"
  shows "rx_run S J keys [Arrive False (manifest_frame S keys ps), Advance 0, Advance 0, Advance 0] s = s\<lparr>outcome := Some Resolved\<rparr>"
proof -
  have opens: "openChunk S keys n (sealChunk S keys n p) = Some p" for n p using assms(1) by (simp add: sync_laws_def)
  have "manifest_verdict (entries_of (manifest_ids 0 (length ps)) (manifest_hashes S ps) (length ps)) (received s) = Resolved"
    using verdict_iff[of S ps "received s"] assms by (simp add: sync_laws_def)
  then show ?thesis
    using assms(2,3) opens verify_the_manifest[OF assms(1,6)]
    by (simp add: manifest_frame_def rx_arrive_def rx_advance_def settle_def MSG_CHUNK_def MSG_MANIFEST_def)
qed

lemma transfer_in_order:
  assumes "sync_laws S keys" "5 + length ps * 40 < 2 ^ 32" "import_all J ps db = Some db'"
  shows "\<exists>rcv. rx_run S J keys (in_order (map (chunk_frame S keys ps) [0..<length ps] @ [manifest_frame S keys ps])) (rx_start db)
    = \<lparr>tasks = [], received = rcv, rx_db = db', imported = ps, outcome = Some Resolved\<rparr>"
proof -
  have small: "length ps < 2 ^ 32" using assms(2) by simp
  obtain rcv where run: "rx_run S J keys (in_order (map (chunk_frame S keys ps) [0..<length ps])) (rx_start db)
      = \<lparr>tasks = [], received = rcv, rx_db = db', imported = ps, outcome = None\<rparr>"
    and keys: "map fst rcv = map word_of_nat [0..<length ps]"
    and vals: "\<forall>i < length ps. mget rcv (word_of_nat i) = Some (sha256 S (ps ! i))"
    using chunks_in_order[OF assms(1) small order_refl, of J db db'] assms(3) by auto
  have "length rcv = length ps" using arg_cong[OF keys, of length] by simp
  then have "rx_run S J keys [Arrive False (manifest_frame S keys ps), Advance 0, Advance 0, Advance 0]
      \<lparr>tasks = [], received = rcv, rx_db = db', imported = ps, outcome = None\<rparr>
      = \<lparr>tasks = [], received = rcv, rx_db = db', imported = ps, outcome = Some Resolved\<rparr>"
    using manifest_in_order[OF assms(1), of "\<lparr>tasks = [], received = rcv, rx_db = db', imported = ps, outcome = None\<rparr>" ps J] vals assms(2)
    by (simp del: rx_run_simps)
  moreover have "in_order (fs @ [f]) = in_order fs @ [Arrive False f, Advance 0, Advance 0, Advance 0]" for fs f by (simp add: in_order_def)
  ultimately show ?thesis using run by (simp add: rx_run_append del: rx_run_simps)
qed

lemma source_authentic:
  assumes "sync_laws S keys"
  shows "list_all (authentic S keys ps) (map (chunk_frame S keys ps) [0..<length ps] @ [manifest_frame S keys ps])"
  using assms by (auto simp: list_all_iff authentic_def chunk_frame_def manifest_frame_def sync_laws_def from_source_def)

lemma export_count: "length (exportSyncRecords J db) = countSyncRecords db"
  by (simp add: exportSyncRecords_def countSyncRecords_def SYNC_STORES_def cursorIterator_def)

text \<open>A device sync from database to database.  The source counts and exports its crypto database, seals every record and signs a
  manifest; the target opens, checks and imports the frames in order.  Then the source finishes, the target accepts the manifest with
  no handler left running, and every ratchet session, group key, media key and cached message of the source is on the target, whose
  other entries stay.  The identity keys are not: after the sync, loading the identity keys of a user of the source fails, even if the
  target had them (their record is exported as JSON, which drops binary fields, and imported as raw bytes).\<close>

theorem device_sync_databases:
  assumes "transferable src" "json_laws J" "json_text J" "gcm_tagged w" "sync_laws S keys" "5 + countSyncRecords src * 40 < 2 ^ 32"
  shows "\<exists>frames db rcv. runSourceTransfer S keys (countSyncRecords src) (exportSyncRecords J src) = (frames, True)
    \<and> rx_run S J keys (in_order frames) (rx_start target)
        = \<lparr>tasks = [], received = rcv, rx_db = db, imported = exportSyncRecords J src, outcome = Some Resolved\<rparr>
    \<and> (\<forall>s k. s \<noteq> Identity \<longrightarrow> db_get db s k = (case db_get src s k of Some v \<Rightarrow> Some v | None \<Rightarrow> db_get target s k))
    \<and> (\<forall>u. db_get src Identity (int_str u) \<noteq> None \<longrightarrow> fst (loadIdentityKeys w rnd u db) = None)"
proof -
  obtain db where "import_all J (exportSyncRecords J src) target = Some db"
    and "(\<forall>s k. s \<noteq> Identity \<longrightarrow> db_get db s k = (case db_get src s k of Some v \<Rightarrow> Some v | None \<Rightarrow> db_get target s k))
      \<and> (\<forall>u. db_get src Identity (int_str u) \<noteq> None \<longrightarrow> fst (loadIdentityKeys w rnd u db) = None)"
    using device_transfer[OF assms(1-4)] by blast
  then show ?thesis
    using transfer_in_order[OF assms(5), of "exportSyncRecords J src" J target db] assms(6) export_count[of J src]
      source_frames[of "exportSyncRecords J src" "countSyncRecords src" S keys] by auto
qed

definition toy_sync :: sync_crypto where
  "toy_sync = \<lparr>sealChunk = (\<lambda>k n p. p @ k), openChunk = (\<lambda>k n d. if drop (length d - length k) d = k then Some (take (length d - length k) d) else None),
     buildManifest = (\<lambda>k ids hashes. 77 # entries_of ids hashes (length ids div 8)),
     verifyManifest = (\<lambda>k m. if m \<noteq> [] \<and> hd m = 77 then Some (tl m) else None),
     deriveKeys = (\<lambda>sk pk otp. take 64 (sort (sk @ pk) @ otp @ replicate 64 0)), sha256 = (\<lambda>p. map (\<lambda>x. x mod 256) (take 32 (p @ replicate 32 0)))\<rparr>"

lemma toy_sync_laws: "sync_laws toy_sync keys"
  by (auto simp: sync_laws_def toy_sync_def is_bytes_def list_all_iff)

theorem device_sync_databases_witness:
  "\<exists>frames db rcv. runSourceTransfer toy_sync [5] 3 (exportSyncRecords text_json demo_src) = (frames, True)
     \<and> rx_run toy_sync text_json [5] (in_order frames) (rx_start empty_db)
         = \<lparr>tasks = [], received = rcv, rx_db = db, imported = exportSyncRecords text_json demo_src, outcome = Some Resolved\<rparr>
     \<and> db_get db Ratchet (js ''3:4'') = Some (DBuf [9, 9]) \<and> db_get db MsgPlaintext (int_str 70) = Some (DText (js ''hi'') False)
     \<and> fst (loadIdentityKeys toy_crypto [1] 3 db) = None"
proof -
  have count: "countSyncRecords demo_src = 3" by (simp add: countSyncRecords_def SYNC_STORES_def demo_src_def)
  have "db_get demo_src Ratchet (js ''3:4'') = Some (DBuf [9, 9])" "db_get demo_src MsgPlaintext (int_str 70) = Some (DText (js ''hi'') False)"
    "db_get demo_src Identity (int_str 3) \<noteq> None"
    by (simp_all add: db_get_def demo_src_def)
  then show ?thesis
    using device_sync_databases[OF demo_transferable text_json_laws toy_tagged toy_sync_laws, where target = empty_db and keys = "[5]" and rnd = "[1]"] count
    by simp fastforce
qed

text \<open>What an accepted transfer means, for every order in which messages arrive and handlers resume.  If only the source seals
  under the session key (every arriving frame that opens holds a record or the manifest of the source, at its position) and no record
  verifies as a manifest, then once the target reports success every record of the source was received at its position with its hash,
  and it is imported, or its import is still running, or it cannot be imported into some database.\<close>

theorem accepted_transfer_is_complete:
  assumes "sync_laws S keys" "unsigned S keys ps" "5 + length ps * 40 < 2 ^ 32" "list_all (authentic_event S keys ps) es"
    "outcome (rx_run S J keys es (rx_start db)) = Some Resolved" "i < length ps"
  shows "mget (received (rx_run S J keys es (rx_start db))) (word_of_nat i) = Some (sha256 S (ps ! i))
    \<and> accounted J (rx_run S J keys es (rx_start db)) (ps ! i)"
proof -
  let ?s = "rx_run S J keys es (rx_start db)"
  have inv: "rx_inv S J keys ps ?s" by (rule rx_inv_run[OF assms(1-4)])
  then obtain h where h: "mget (received ?s) (word_of_nat i) = Some h" using assms(5,6) unfolding rx_inv_def by blast
  then obtain p where p: "from_source S keys ps (word_of_nat i) p" "h = sha256 S p" "accounted J ?s p"
    using inv unfolding rx_inv_def by blast
  have "(word_of_nat i :: seq) \<noteq> word_of_nat (length ps)" using word_of_nat_inj32[of i "length ps"] assms(3,6) by simp
  moreover have "i = j" if "j < length ps" "(word_of_nat i :: seq) = word_of_nat j" for j
    using word_of_nat_inj32[of i j] assms(3,6) that by simp
  ultimately have "p = ps ! i" using p(1) by (auto simp: from_source_def)
  then show ?thesis using h p by simp
qed

theorem accepted_transfer_is_complete_witness:
  "\<exists>es. mget (received (rx_run toy_sync text_json [5] es (rx_start empty_db))) 0 = Some ([2, 0, 1, 65, 66] @ replicate 27 0)
     \<and> accounted text_json (rx_run toy_sync text_json [5] es (rx_start empty_db)) [2, 0, 1, 65, 66]"
proof -
  let ?ps = "[[2, 0, 1, 65, 66]] :: bytes list"
  let ?es = "in_order (map (chunk_frame toy_sync [5] ?ps) [0..<length ?ps] @ [manifest_frame toy_sync [5] ?ps])"
  obtain db where "import_all text_json ?ps empty_db = Some db"
    by (auto simp: importSyncRecord_def SYNC_STORES_def)
  then have "outcome (rx_run toy_sync text_json [5] ?es (rx_start empty_db)) = Some Resolved"
    using transfer_in_order[OF toy_sync_laws, of ?ps text_json empty_db db "[5]"] by auto
  moreover have "list_all (authentic_event toy_sync [5] ?ps) ?es"
    using source_authentic[OF toy_sync_laws, of "[5]" ?ps] by (simp add: in_order_def)
  moreover have "unsigned toy_sync [5] ?ps" by (simp add: unsigned_def toy_sync_def)
  ultimately show ?thesis
    using accepted_transfer_is_complete[OF toy_sync_laws, of "[5]" ?ps ?es text_json empty_db 0]
    by (intro exI[of _ ?es]) (simp add: toy_sync_def del: replicate.simps)
qed

text \<open>The manifest may overtake the records.  If all frames of a non-empty transfer have arrived and the manifest's handler is resumed
  before the others (the handlers await independent calls of a worker), the target rejects the transfer although every frame is
  authentic and nothing is lost.\<close>

theorem manifest_overtakes:
  assumes "sync_laws S keys" "ps \<noteq> []" "5 + length ps * 40 < 2 ^ 32"
  shows "outcome (rx_run S J keys (map (Arrive False) (map (chunk_frame S keys ps) [0..<length ps] @ [manifest_frame S keys ps])
      @ [Advance (length ps), Advance (length ps)]) (rx_start db)) = Some Rejected"
proof -
  have chunks: "rx_run S J keys (map (Arrive False \<circ> chunk_frame S keys ps) is) s
      = s\<lparr>tasks := tasks s @ map (\<lambda>i. Opening (word_of_nat i) (sealChunk S keys (word_of_nat i) (ps ! i))) is\<rparr>" for "is" s
    by (induction "is" arbitrary: s) (simp_all add: rx_arrive_def chunk_frame_def)
  have opens: "openChunk S keys n (sealChunk S keys n p) = Some p" for n p using assms(1) by (simp add: sync_laws_def)
  let ?e = "entries_of (manifest_ids 0 (length ps)) (manifest_hashes S ps) (length ps)"
  have "length ?e = 40 * length ps" using manifest_entries(1)[of S "length ps" ps 0] assms(1) by (simp add: sync_laws_def)
  then have "manifest_verdict ?e [] = Rejected" using assms(2) by (simp add: manifest_verdict_def)
  then show ?thesis
    using verify_the_manifest[OF assms(1,3)] opens
    by (simp add: chunks rx_run_append rx_arrive_def rx_advance_def rx_start_def manifest_frame_def MSG_CHUNK_def MSG_MANIFEST_def
        nth_append settle_def)
qed

theorem manifest_overtakes_witness:
  "outcome (rx_run toy_sync text_json [5] (map (Arrive False) (map (chunk_frame toy_sync [5] [[1]]) [0..<1] @ [manifest_frame toy_sync [5] [[1]]])
     @ [Advance 1, Advance 1]) (rx_start empty_db)) = Some Rejected"
  using manifest_overtakes[OF toy_sync_laws, of "[[1]]" text_json "[5]" empty_db] by simp

end
