(* ===== verification/SyncHook.thy ===== *)
theory SyncHook
  imports DeviceTransfer
begin

text \<open>
  The life of a sync session in the hook, \<open>client/src/hooks/useDeviceSync.ts\<close>: starting as source or target, the signalling
  messages of the server, ICE candidates, errors and \<open>cleanup\<close>.  A function with \<open>await\<close>s is one event per stretch of code between
  two of them, so that other events can come in between; what the awaited calls return is the event's argument (\<open>None\<close> when they
  throw).
\<close>

section \<open>State\<close>

datatype sync_phase = Idle | Generating | WaitingPeer | Handshaking | Transferring | VerifyingManifest | Done | Failed

record sync_sess =
  ss_sessionId :: jsstr
  ss_otp :: bytes
  ss_secret :: bytes
  ss_ekPubB64 :: jsstr
  ss_keys :: "bytes option"

datatype ('sdp, 'ice) sync_emit =
    EmitStart jsstr jsstr 'sdp
  | EmitJoin jsstr jsstr
  | EmitAnswer jsstr 'sdp
  | EmitIce jsstr 'ice
  | EmitAbort jsstr

record ('sdp, 'ice) hook =
  phase :: sync_phase
  qr :: "jsstr option"
  err :: "string option"
  sess :: "sync_sess option"
  pc :: bool
  dc :: bool
  iceBuf :: "'ice list"
  iceAdded :: "'ice list"
  remoteSet :: bool
  aborted :: bool
  emitted :: "('sdp, 'ice) sync_emit list"

definition hook_init :: "('sdp, 'ice) hook" where
  "hook_init = \<lparr>phase = Idle, qr = None, err = None, sess = None, pc = False, dc = False, iceBuf = [], iceAdded = [],
     remoteSet = False, aborted = False, emitted = []\<rparr>"

definition emit :: "('sdp, 'ice) sync_emit \<Rightarrow> ('sdp, 'ice) hook \<Rightarrow> ('sdp, 'ice) hook" where
  "emit e h = h\<lparr>emitted := emitted h @ [e]\<rparr>"

section \<open>Operations\<close>

definition cleanup_sync :: "('sdp, 'ice) hook \<Rightarrow> ('sdp, 'ice) hook" where
  "cleanup_sync h = h\<lparr>aborted := True, dc := False, pc := False, iceBuf := [], iceAdded := [], remoteSet := False, sess := None\<rparr>"

definition sync_fail :: "string \<Rightarrow> ('sdp, 'ice) hook \<Rightarrow> ('sdp, 'ice) hook" where
  "sync_fail e h = cleanup_sync (h\<lparr>phase := Failed, err := Some e\<rparr>)"

definition abort :: "('sdp, 'ice) hook \<Rightarrow> ('sdp, 'ice) hook" where
  "abort h =
     (let h' = cleanup_sync h;
          h' = (case sess h of None \<Rightarrow> h' | Some s \<Rightarrow> if truthy (Some (ss_sessionId s)) then emit (EmitAbort (ss_sessionId s)) h' else h')
      in h'\<lparr>phase := Idle, qr := None, err := None\<rparr>)"

definition flushIce :: "('sdp, 'ice) hook \<Rightarrow> ('sdp, 'ice) hook" where
  "flushIce h = (if \<not> pc h \<or> \<not> remoteSet h then h else h\<lparr>iceAdded := iceAdded h @ iceBuf h, iceBuf := []\<rparr>)"

definition buildPC :: "('sdp, 'ice) hook \<Rightarrow> ('sdp, 'ice) hook" where
  "buildPC h = h\<lparr>pc := True, remoteSet := False, iceAdded := []\<rparr>"

definition localIce :: "jsstr \<Rightarrow> 'ice option \<Rightarrow> ('sdp, 'ice) hook \<Rightarrow> ('sdp, 'ice) hook" where
  "localIce sessionId c h = (case c of None \<Rightarrow> h | Some c \<Rightarrow> emit (EmitIce sessionId c) h)"

definition iceState :: "string \<Rightarrow> ('sdp, 'ice) hook \<Rightarrow> ('sdp, 'ice) hook" where
  "iceState s h = (if (s = ''disconnected'' \<or> s = ''closed'') \<and> \<not> aborted h then sync_fail ''WebRTC connection lost'' h else h)"

text \<open>\<open>startAsSource\<close>, up to the generation of the secrets, with them, and with the offer.\<close>

definition source_begin :: "('sdp, 'ice) hook \<Rightarrow> ('sdp, 'ice) hook" where
  "source_begin h = (if phase h \<noteq> Idle then h else h\<lparr>aborted := False, phase := Generating, err := None\<rparr>)"

definition new_sess :: "jsstr \<Rightarrow> bytes \<Rightarrow> bytes \<Rightarrow> sync_sess" where
  "new_sess sid otp keypair = \<lparr>ss_sessionId = sid, ss_otp = otp, ss_secret = js_slice 0 32 keypair,
     ss_ekPubB64 = bufToBase64url (js_slice 32 64 keypair), ss_keys = None\<rparr>"

definition source_generated :: "(bytes \<times> bytes \<times> bytes) option \<Rightarrow> ('sdp, 'ice) hook \<Rightarrow> ('sdp, 'ice) hook" where
  "source_generated g h =
     (case g of
        None \<Rightarrow> sync_fail ''wasm'' h
      | Some (otp, sidBytes, keypair) \<Rightarrow> h\<lparr>sess := Some (new_sess (uint8ToHex sidBytes) otp keypair)\<rparr>)"

definition source_qr :: "bool \<Rightarrow> ('sdp, 'ice) hook \<Rightarrow> ('sdp, 'ice) hook" where
  "source_qr ok h = (if ok then (buildPC h)\<lparr>dc := True\<rparr> else sync_fail ''QRCode'' h)"

definition source_offer :: "sync_sess \<Rightarrow> jsstr \<Rightarrow> 'sdp option \<Rightarrow> ('sdp, 'ice) hook \<Rightarrow> ('sdp, 'ice) hook" where
  "source_offer s qrText offer h =
     (case offer of
        None \<Rightarrow> sync_fail ''createOffer'' h
      | Some sdp \<Rightarrow> (emit (EmitStart (ss_sessionId s) (ss_ekPubB64 s) sdp) h)\<lparr>phase := WaitingPeer, qr := Some qrText\<rparr>)"

text \<open>The data channel opens: without keys the session fails; otherwise the transfer runs with \<open>ss_keys\<close> and ends.\<close>

definition channel_open :: "('sdp, 'ice) hook \<Rightarrow> bytes option \<times> ('sdp, 'ice) hook" where
  "channel_open h =
     (if aborted h then (None, h)
      else case Option.bind (sess h) ss_keys of
        None \<Rightarrow> (None, sync_fail ''keys not derived before the DataChannel opened'' h)
      | Some keys \<Rightarrow> (Some keys, h))"

definition transfer_end :: "string option \<Rightarrow> ('sdp, 'ice) hook \<Rightarrow> ('sdp, 'ice) hook" where
  "transfer_end failure h =
     cleanup_sync (if aborted h then h
       else case failure of None \<Rightarrow> h\<lparr>phase := Done\<rparr> | Some e \<Rightarrow> h\<lparr>phase := Failed, err := Some e\<rparr>)"

text \<open>\<open>startAsTarget\<close>: reading the code, the free space, the key pair.\<close>

definition MIN_FREE_BYTES :: int where
  "MIN_FREE_BYTES = 50 * 1024 * 1024"

definition target_begin :: "jsstr \<Rightarrow> ('sdp, 'ice) hook \<Rightarrow> (jsstr \<times> bytes) option \<times> ('sdp, 'ice) hook" where
  "target_begin qrContent h =
     (if phase h \<noteq> Idle then (None, h)
      else
        (let h = h\<lparr>aborted := False, phase := Generating, err := None\<rparr>
         in case parse_qr qrContent of
              Inl (ThrownError e) \<Rightarrow> (None, sync_fail e h)
            | Inl _ \<Rightarrow> (None, sync_fail ''QR'' h)
            | Inr r \<Rightarrow> (Some r, h)))"

definition target_quota :: "(int \<times> int) option \<Rightarrow> ('sdp, 'ice) hook \<Rightarrow> bool \<times> ('sdp, 'ice) hook" where
  "target_quota e h =
     (case e of
        None \<Rightarrow> (True, h)
      | Some (quota, usage) \<Rightarrow> if quota - usage < MIN_FREE_BYTES then (False, sync_fail ''not enough space'' h) else (True, h))"

definition target_generated :: "jsstr \<Rightarrow> bytes \<Rightarrow> bytes option \<Rightarrow> ('sdp, 'ice) hook \<Rightarrow> ('sdp, 'ice) hook" where
  "target_generated sid otp g h =
     (case g of
        None \<Rightarrow> sync_fail ''wasm'' h
      | Some keypair \<Rightarrow>
          (let s = new_sess sid otp keypair; h = buildPC (h\<lparr>sess := Some s\<rparr>)
           in emit (EmitJoin sid (ss_ekPubB64 s)) (h\<lparr>phase := Handshaking\<rparr>)))"

definition channel_arrives :: "('sdp, 'ice) hook \<Rightarrow> ('sdp, 'ice) hook" where
  "channel_arrives h = h\<lparr>dc := True\<rparr>"

section \<open>Messages of the server\<close>

text \<open>The guard that the first three handlers share.\<close>

definition for_session :: "jsstr \<Rightarrow> ('sdp, 'ice) hook \<Rightarrow> bool" where
  "for_session sid h \<longleftrightarrow> pc h \<and> \<not> aborted h \<and> (case sess h of None \<Rightarrow> False | Some s \<Rightarrow> ss_sessionId s = sid)"

text \<open>\<open>sess.keys = keys\<close> after an \<open>await\<close>: the object of the session that was current before it, which \<open>cleanup\<close> may have dropped.\<close>

definition set_keys :: "sync_sess \<Rightarrow> bytes \<Rightarrow> ('sdp, 'ice) hook \<Rightarrow> ('sdp, 'ice) hook" where
  "set_keys s keys h = (if map_option ss_sessionId (sess h) = Some (ss_sessionId s)
     then h\<lparr>sess := map_option (ss_keys_update (\<lambda>_. Some keys)) (sess h)\<rparr> else h)"

definition derive :: "sync_crypto \<Rightarrow> sync_sess \<Rightarrow> jsstr \<Rightarrow> bytes option" where
  "derive S s ek = map_option (\<lambda>peerPub. deriveKeys S (ss_secret s) peerPub (ss_otp s)) (base64urlToBuf ek)"

definition onPeerJoined :: "jsstr \<Rightarrow> ('sdp, 'ice) hook \<Rightarrow> sync_sess option \<times> ('sdp, 'ice) hook" where
  "onPeerJoined sid h = (if for_session sid h then (sess h, h\<lparr>phase := Handshaking\<rparr>) else (None, h))"

definition derived :: "sync_crypto \<Rightarrow> sync_sess \<Rightarrow> jsstr \<Rightarrow> ('sdp, 'ice) hook \<Rightarrow> ('sdp, 'ice) hook" where
  "derived S s ek h = (case derive S s ek of None \<Rightarrow> sync_fail ''deriveKeys'' h | Some keys \<Rightarrow> set_keys s keys h)"

definition onPeerAnswer :: "jsstr \<Rightarrow> bool \<Rightarrow> ('sdp, 'ice) hook \<Rightarrow> ('sdp, 'ice) hook" where
  "onPeerAnswer sid ok h =
     (if \<not> for_session sid h then h
      else if ok then flushIce (h\<lparr>remoteSet := True\<rparr>) else sync_fail ''setRemoteDescription'' h)"

definition onOffer :: "jsstr \<Rightarrow> ('sdp, 'ice) hook \<Rightarrow> sync_sess option" where
  "onOffer sid h = (if for_session sid h then sess h else None)"

definition offer_applied :: "bool \<Rightarrow> ('sdp, 'ice) hook \<Rightarrow> ('sdp, 'ice) hook" where
  "offer_applied ok h = (if ok then flushIce (h\<lparr>remoteSet := True\<rparr>) else sync_fail ''setRemoteDescription'' h)"

definition answer_made :: "jsstr \<Rightarrow> 'sdp option \<Rightarrow> ('sdp, 'ice) hook \<Rightarrow> ('sdp, 'ice) hook" where
  "answer_made sid answer h = (case answer of None \<Rightarrow> sync_fail ''createAnswer'' h | Some sdp \<Rightarrow> emit (EmitAnswer sid sdp) h)"

definition onIce :: "jsstr \<Rightarrow> 'ice option \<Rightarrow> ('sdp, 'ice) hook \<Rightarrow> ('sdp, 'ice) hook" where
  "onIce sid candidate h =
     (case (sess h, candidate) of
        (Some s, Some c) \<Rightarrow>
          if ss_sessionId s \<noteq> sid then h
          else if \<not> remoteSet h then h\<lparr>iceBuf := iceBuf h @ [c]\<rparr>
          else if pc h then h\<lparr>iceAdded := iceAdded h @ [c]\<rparr> else h
      | _ \<Rightarrow> h)"

definition onAborted :: "jsstr \<Rightarrow> string \<Rightarrow> ('sdp, 'ice) hook \<Rightarrow> ('sdp, 'ice) hook" where
  "onAborted sid reason h =
     (case sess h of
        None \<Rightarrow> h
      | Some s \<Rightarrow>
          if ss_sessionId s \<noteq> sid then h
          else (let h = cleanup_sync h in if phase h \<noteq> Idle then h\<lparr>phase := Failed, qr := None, err := Some reason\<rparr> else h))"

definition onError :: "string \<Rightarrow> ('sdp, 'ice) hook \<Rightarrow> ('sdp, 'ice) hook" where
  "onError reason h = sync_fail reason h"

section \<open>The handshake\<close>

lemmas hook_defs = emit_def cleanup_sync_def sync_fail_def buildPC_def new_sess_def source_begin_def source_generated_def source_qr_def
  source_offer_def target_begin_def target_quota_def target_generated_def channel_arrives_def for_session_def set_keys_def derived_def
  derive_def onPeerJoined_def onOffer_def answer_made_def channel_open_def

text \<open>What the source does until the code is on its screen, and the target until it has joined.\<close>

definition source_shown :: "bytes \<Rightarrow> bytes \<Rightarrow> bytes \<Rightarrow> 'sdp \<Rightarrow> ('sdp, 'ice) hook \<Rightarrow> ('sdp, 'ice) hook" where
  "source_shown otp sid keypair offer h =
     source_offer (new_sess (uint8ToHex sid) otp keypair) (qr_content sid otp) (Some offer)
       (source_qr True (source_generated (Some (otp, sid, keypair)) (source_begin h)))"

definition target_joined :: "jsstr \<Rightarrow> bytes \<Rightarrow> (int \<times> int) option \<Rightarrow> ('sdp, 'ice) hook \<Rightarrow> ('sdp, 'ice) hook" where
  "target_joined code keypair quota h =
     (case target_begin code h of
        (None, h) \<Rightarrow> h
      | (Some (sid, otp), h) \<Rightarrow>
          (case target_quota quota h of (False, h) \<Rightarrow> h | (True, h) \<Rightarrow> target_generated sid otp (Some keypair) h))"

text \<open>The source hears of the target, and the target of the source, each in two steps around the derivation of the keys.\<close>

definition source_keyed :: "sync_crypto \<Rightarrow> jsstr \<Rightarrow> jsstr \<Rightarrow> ('sdp, 'ice) hook \<Rightarrow> ('sdp, 'ice) hook" where
  "source_keyed S sid ek h = (case onPeerJoined sid h of (None, h) \<Rightarrow> h | (Some s, h) \<Rightarrow> derived S s ek h)"

definition target_keyed :: "sync_crypto \<Rightarrow> jsstr \<Rightarrow> jsstr \<Rightarrow> 'sdp \<Rightarrow> ('sdp, 'ice) hook \<Rightarrow> ('sdp, 'ice) hook" where
  "target_keyed S sid ek answer h =
     (case onOffer sid h of None \<Rightarrow> h | Some s \<Rightarrow> answer_made sid (Some answer) (offer_applied True (derived S s ek h)))"

definition ice_all :: "jsstr \<Rightarrow> 'ice list \<Rightarrow> ('sdp, 'ice) hook \<Rightarrow> ('sdp, 'ice) hook" where
  "ice_all sid cs h = foldl (\<lambda>h c. onIce sid (Some c) h) h cs"

definition sync_pairs :: "sync_crypto \<Rightarrow> (bytes \<Rightarrow> bytes) \<Rightarrow> bool" where
  "sync_pairs S pub \<longleftrightarrow> (\<forall>a b otp. deriveKeys S a (pub b) otp = deriveKeys S b (pub a) otp)"

lemma ice_buffered:
  assumes "sess h = Some s" "\<not> remoteSet h"
  shows "ice_all (ss_sessionId s) cs h = h\<lparr>iceBuf := iceBuf h @ cs\<rparr>"
  using assms by (induction cs arbitrary: h) (simp_all add: ice_all_def onIce_def)

lemma ice_direct:
  assumes "sess h = Some s" "remoteSet h" "pc h"
  shows "ice_all (ss_sessionId s) cs h = h\<lparr>iceAdded := iceAdded h @ cs\<rparr>"
  using assms by (induction cs arbitrary: h) (simp_all add: ice_all_def onIce_def)

definition keypair_of :: "(bytes \<Rightarrow> bytes) \<Rightarrow> bytes \<Rightarrow> bytes" where
  "keypair_of pub a = a @ pub a"

lemma keypair_parts:
  assumes "length a = 32" "length (pub a) = 32"
  shows "js_slice 0 32 (keypair_of pub a) = a" "js_slice 32 64 (keypair_of pub a) = pub a"
  using assms by (simp_all add: js_slice_def keypair_of_def)

lemma source_shown_state:
  assumes "phase h = Idle" "length a = 32" "length (pub a) = 32"
  shows "source_shown otp sid (keypair_of pub a) offer h
    = h\<lparr>phase := WaitingPeer, qr := Some (qr_content sid otp), err := None,
        sess := Some \<lparr>ss_sessionId = uint8ToHex sid, ss_otp = otp, ss_secret = a, ss_ekPubB64 = bufToBase64url (pub a), ss_keys = None\<rparr>,
        pc := True, dc := True, iceAdded := [], remoteSet := False, aborted := False,
        emitted := emitted h @ [EmitStart (uint8ToHex sid) (bufToBase64url (pub a)) offer]\<rparr>"
  using assms by (simp add: source_shown_def hook_defs keypair_parts)

lemma target_joined_state:
  assumes "phase h = Idle" "parse_qr code = Inr (sid, otp)" "length b = 32" "length (pub b) = 32" "quota \<ge> usage + MIN_FREE_BYTES"
  shows "target_joined code (keypair_of pub b) (Some (quota, usage)) h
    = h\<lparr>phase := Handshaking, err := None,
        sess := Some \<lparr>ss_sessionId = sid, ss_otp = otp, ss_secret = b, ss_ekPubB64 = bufToBase64url (pub b), ss_keys = None\<rparr>,
        pc := True, iceAdded := [], remoteSet := False, aborted := False, emitted := emitted h @ [EmitJoin sid (bufToBase64url (pub b))]\<rparr>"
  using assms by (simp add: target_joined_def hook_defs keypair_parts)

lemma read_own_code:
  assumes "is_bytes sid" "length sid = 16" "is_bytes otp" "length otp = 16"
  shows "parse_qr (qr_content sid otp) = Inr (uint8ToHex sid, otp)"
  by (rule qr_roundtrip[OF assms])


definition toy_pub :: "bytes \<Rightarrow> bytes" where
  "toy_pub a = take 32 (map (\<lambda>x. x mod 256) a @ replicate 32 0)"

definition toy_hook_sync :: sync_crypto where
  "toy_hook_sync = toy_sync\<lparr>deriveKeys := (\<lambda>a pk otp. map2 (\<lambda>x y. x + y) (toy_pub a) pk @ otp @ replicate 16 0)\<rparr>"

lemma hook_idle: "phase hook_init = Idle" "iceBuf hook_init = []" "sess hook_init = None"
  by (simp_all add: hook_init_def)

lemma demo_bytes: "is_bytes (replicate n 171)" "is_bytes (replicate n 200)"
  by (simp_all add: is_bytes_def list_all_iff)


text \<open>Cancelling while the source still generates its secrets is not honoured.  When the awaited calls return, the start goes on: the
  code is shown, the session is announced to the server, and the hook waits for a peer, but every message of a peer is ignored, for
  every session identifier, and an opening channel is dropped: the flag set by the cancellation is never reset.\<close>

theorem abort_while_generating:
  fixes h :: "('sdp, 'ice) hook" and offer :: 'sdp and otp sid keypair :: bytes and code :: jsstr
  assumes "phase h = Idle" "sess h = None"
  defines "s \<equiv> new_sess (uint8ToHex sid) otp keypair"
  defines "h' \<equiv> source_offer s code (Some offer) (source_qr True (source_generated (Some (otp, sid, keypair)) (abort (source_begin h))))"
  shows "phase h' = WaitingPeer \<and> qr h' = Some code \<and> EmitStart (uint8ToHex sid) (ss_ekPubB64 s) offer \<in> set (emitted h')
    \<and> onPeerJoined i h' = (None, h') \<and> onPeerAnswer i ok h' = h' \<and> channel_open h' = (None, h')"
  using assms(1,2) by (simp add: h'_def s_def abort_def hook_defs onPeerAnswer_def)

theorem abort_while_generating_witness:
  "phase (source_offer (new_sess (uint8ToHex [1]) [2] [3]) (js ''c'') (Some (0 :: nat))
     (source_qr True (source_generated (Some ([2], [1], [3])) (abort (source_begin (hook_init :: (nat, nat) hook)))))) = WaitingPeer"
  using abort_while_generating[of "hook_init :: (nat, nat) hook" "[1]" "[2]" "[3]"] by (simp add: hook_init_def)

end
