(* ===== verification/E2ELocks.thy ===== *)
theory E2ELocks
  imports Prelude
begin

text \<open>
  \<open>withLock\<close> of \<open>client/src/hooks/useE2E.ts\<close>: the operations on one ratchet or group session are chained through promises, so
  that each sees the session the previous one stored.  A call remembers the promise that was in the map for its key; it may start when
  that promise has settled, successfully or not; its own promise then stands in the map.  Steps interleave freely otherwise.  Clearing
  the map, which key rotation and logout do, is a step of its own.
\<close>

datatype call_phase = Waiting | Running | Settled

record 'k call =
  c_key :: 'k
  c_prev :: "nat option"
  c_phase :: call_phase

record 'k locks =
  lock_map :: "('k, nat) jsmap"
  calls :: "'k call list"

definition no_locks :: "'k locks" where
  "no_locks = \<lparr>lock_map = [], calls = []\<rparr>"

definition withLock :: "'k \<Rightarrow> 'k locks \<Rightarrow> 'k locks" where
  "withLock k s =
     s\<lparr>calls := calls s @ [\<lparr>c_key = k, c_prev = mget (lock_map s) k, c_phase = Waiting\<rparr>],
       lock_map := mset_at k (length (calls s)) (lock_map s)\<rparr>"

definition settled :: "'k locks \<Rightarrow> nat option \<Rightarrow> bool" where
  "settled s p \<longleftrightarrow> (case p of None \<Rightarrow> True | Some i \<Rightarrow> i < length (calls s) \<and> c_phase (calls s ! i) = Settled)"

definition set_phase :: "nat \<Rightarrow> call_phase \<Rightarrow> 'k locks \<Rightarrow> 'k locks" where
  "set_phase i ph s = s\<lparr>calls := (calls s)[i := (calls s ! i)\<lparr>c_phase := ph\<rparr>]\<rparr>"

definition clearLocks :: "'k locks \<Rightarrow> 'k locks" where
  "clearLocks s = s\<lparr>lock_map := []\<rparr>"

inductive lock_step :: "'k locks \<Rightarrow> 'k locks \<Rightarrow> bool" where
  call: "lock_step s (withLock k s)"
| start: "i < length (calls s) \<Longrightarrow> c_phase (calls s ! i) = Waiting \<Longrightarrow> settled s (c_prev (calls s ! i)) \<Longrightarrow> lock_step s (set_phase i Running s)"
| settle: "i < length (calls s) \<Longrightarrow> c_phase (calls s ! i) = Running \<Longrightarrow> lock_step s (set_phase i Settled s)"

inductive clearing_step :: "'k locks \<Rightarrow> 'k locks \<Rightarrow> bool" where
  lock: "lock_step s t \<Longrightarrow> clearing_step s t"
| clear: "clearing_step s (clearLocks s)"

inductive_cases lock_stepE: "lock_step s t"

section \<open>One at a time, in order\<close>

text \<open>The last call for a key among the first \<open>n\<close>.\<close>

fun last_call :: "'k call list \<Rightarrow> 'k \<Rightarrow> nat \<Rightarrow> nat option" where
  "last_call cs k 0 = None"
| "last_call cs k (Suc n) = (if c_key (cs ! n) = k then Some n else last_call cs k n)"

definition lock_inv :: "'k locks \<Rightarrow> bool" where
  "lock_inv s \<longleftrightarrow>
     (\<forall>k. mget (lock_map s) k = last_call (calls s) k (length (calls s)))
     \<and> (\<forall>j < length (calls s). c_prev (calls s ! j) = last_call (calls s) (c_key (calls s ! j)) j)
     \<and> (\<forall>j < length (calls s). c_phase (calls s ! j) \<noteq> Waiting \<longrightarrow>
          (\<forall>i < j. c_key (calls s ! i) = c_key (calls s ! j) \<longrightarrow> c_phase (calls s ! i) = Settled))"

lemma lock_invD:
  "lock_inv s \<Longrightarrow> j < length (calls s) \<Longrightarrow> c_phase (calls s ! j) \<noteq> Waiting \<Longrightarrow> i < j \<Longrightarrow> c_key (calls s ! i) = c_key (calls s ! j)
   \<Longrightarrow> c_phase (calls s ! i) = Settled"
  unfolding lock_inv_def by blast

lemma last_call_cong: "(\<And>i. i < n \<Longrightarrow> c_key (cs ! i) = c_key (ds ! i)) \<Longrightarrow> last_call cs k n = last_call ds k n"
  by (induction n) auto

lemma last_call_None: "last_call cs k n = None \<Longrightarrow> i < n \<Longrightarrow> c_key (cs ! i) \<noteq> k"
  by (induction n) (auto simp: less_Suc_eq split: if_splits)

lemma last_call_Some:
  "last_call cs k n = Some i \<Longrightarrow> i < n \<and> c_key (cs ! i) = k \<and> (\<forall>j. i < j \<and> j < n \<longrightarrow> c_key (cs ! j) \<noteq> k)"
  by (induction n) (auto simp: less_Suc_eq split: if_splits)

lemma lock_inv_call:
  assumes "lock_inv s"
  shows "lock_inv (withLock k s)"
proof -
  have lc: "last_call (calls s @ cs) x n = last_call (calls s) x n" if "n \<le> length (calls s)" for cs x n
    using that by (intro last_call_cong) (simp add: nth_append)
  show ?thesis using assms by (auto simp: lock_inv_def withLock_def lc nth_append less_Suc_eq)
qed

lemma set_phase_nth:
  "j < length (calls s) \<Longrightarrow> calls (set_phase i ph s) ! j = (if j = i then (calls s ! i)\<lparr>c_phase := ph\<rparr> else calls s ! j)"
  by (auto simp: set_phase_def nth_list_update)

lemma lock_inv_phase:
  assumes "lock_inv s" "i < length (calls s)"
    and ok: "ph = Settled \<or> (\<forall>j < i. c_key (calls s ! j) = c_key (calls s ! i) \<longrightarrow> c_phase (calls s ! j) = Settled)"
    and was: "c_phase (calls s ! i) \<noteq> Settled" "ph = Settled \<longrightarrow> c_phase (calls s ! i) = Running"
  shows "lock_inv (set_phase i ph s)"
proof -
  have len: "length (calls (set_phase i ph s)) = length (calls s)" and lm: "lock_map (set_phase i ph s) = lock_map s"
    by (simp_all add: set_phase_def)
  have keys: "c_key (calls (set_phase i ph s) ! j) = c_key (calls s ! j)" "c_prev (calls (set_phase i ph s) ! j) = c_prev (calls s ! j)"
    if "j < length (calls s)" for j using that by (simp_all add: set_phase_nth)
  have lc: "last_call (calls (set_phase i ph s)) k n = last_call (calls s) k n" if "n \<le> length (calls s)" for k n
    using that keys by (intro last_call_cong) simp
  have order: "c_phase (calls (set_phase i ph s) ! a) = Settled"
    if "b < length (calls s)" "c_phase (calls (set_phase i ph s) ! b) \<noteq> Waiting" "a < b" "c_key (calls s ! a) = c_key (calls s ! b)" for a b
  proof -
    have old: "c_phase (calls s ! b) \<noteq> Waiting \<Longrightarrow> c_phase (calls s ! a) = Settled" using lock_invD[OF assms(1)] that(1,3,4) by blast
    show ?thesis
    proof (cases "b = i")
      case True
      then show ?thesis using ok was old that(1,3,4) by (auto simp: set_phase_nth)
    next
      case False
      then show ?thesis using old that(1-3) was(1) by (auto simp: set_phase_nth split: if_splits)
    qed
  qed
  show ?thesis using assms(1) order by (simp add: lock_inv_def len lm keys lc)
qed

lemma lock_inv_start:
  assumes "lock_inv s" "i < length (calls s)" "c_phase (calls s ! i) = Waiting" "settled s (c_prev (calls s ! i))"
  shows "lock_inv (set_phase i Running s)"
proof (rule lock_inv_phase[OF assms(1,2)])
  have prev: "c_prev (calls s ! i) = last_call (calls s) (c_key (calls s ! i)) i" using assms(1,2) by (simp add: lock_inv_def)
  have "c_phase (calls s ! j) = Settled" if j: "j < i" "c_key (calls s ! j) = c_key (calls s ! i)" for j
  proof (cases "c_prev (calls s ! i)")
    case None
    then show ?thesis using last_call_None[of "calls s" "c_key (calls s ! i)" i j] prev j by simp
  next
    case (Some p)
    then have p: "p < i" "c_key (calls s ! p) = c_key (calls s ! i)" "\<forall>j. p < j \<and> j < i \<longrightarrow> c_key (calls s ! j) \<noteq> c_key (calls s ! i)"
      using last_call_Some[of "calls s" "c_key (calls s ! i)" i p] prev by auto
    have ps: "c_phase (calls s ! p) = Settled" using assms(4) Some by (simp add: settled_def)
    consider "j = p" | "j < p" using p(3) j by (metis linorder_neqE_nat)
    then show ?thesis
      using ps p(1,2) j(2) assms(2) lock_invD[OF assms(1), of p j] by cases simp_all
  qed
  then show "Running = Settled \<or> (\<forall>j < i. c_key (calls s ! j) = c_key (calls s ! i) \<longrightarrow> c_phase (calls s ! j) = Settled)" by blast
qed (use assms(3) in simp_all)

lemma lock_inv_step:
  assumes "lock_step s t" "lock_inv s"
  shows "lock_inv t"
  using assms(1)
proof cases
  case (call k)
  then show ?thesis using lock_inv_call[OF assms(2)] by simp
next
  case (start i)
  then show ?thesis using lock_inv_start[OF assms(2)] by simp
next
  case (settle i)
  then show ?thesis using lock_inv_phase[OF assms(2), of i Settled] by simp
qed

lemma lock_inv_reach: "lock_step\<^sup>*\<^sup>* no_locks s \<Longrightarrow> lock_inv s"
proof (induction rule: rtranclp_induct)
  case base
  show ?case by (simp add: no_locks_def lock_inv_def)
next
  case (step y z)
  then show ?case using lock_inv_step by blast
qed


lemma reach_call: "lock_step\<^sup>*\<^sup>* a s \<Longrightarrow> lock_step\<^sup>*\<^sup>* a (withLock k s)"
  using lock_step.call[of s k] by (meson rtranclp.rtrancl_into_rtrancl)

lemma reach_start:
  "lock_step\<^sup>*\<^sup>* a s \<Longrightarrow> i < length (calls s) \<Longrightarrow> c_phase (calls s ! i) = Waiting \<Longrightarrow> settled s (c_prev (calls s ! i))
   \<Longrightarrow> lock_step\<^sup>*\<^sup>* a (set_phase i Running s)"
  using lock_step.start[of i s] by (meson rtranclp.rtrancl_into_rtrancl)

lemma reach_settle:
  "lock_step\<^sup>*\<^sup>* a s \<Longrightarrow> i < length (calls s) \<Longrightarrow> c_phase (calls s ! i) = Running \<Longrightarrow> lock_step\<^sup>*\<^sup>* a (set_phase i Settled s)"
  using lock_step.settle[of i s] by (meson rtranclp.rtrancl_into_rtrancl)

lemma first_starts: "lock_step\<^sup>*\<^sup>* no_locks (set_phase 0 Running (withLock k no_locks))"
  by (intro reach_start reach_call) (simp_all add: withLock_def no_locks_def settled_def)


text \<open>Clearing the lock map breaks the serialisation.  Key rotation and logout clear the maps while operations may be under way; the next
  call for the same session then starts at once, and two operations on one ratchet session run at the same time, both from the same
  stored session.\<close>

theorem clearing_breaks_exclusion:
  "\<exists>s :: nat locks. clearing_step\<^sup>*\<^sup>* no_locks s \<and> c_key (calls s ! 0) = c_key (calls s ! 1)
     \<and> c_phase (calls s ! 0) = Running \<and> c_phase (calls s ! 1) = Running"
proof -
  let ?a = "clearLocks (set_phase 0 Running (withLock 7 no_locks)) :: nat locks"
  let ?s = "set_phase 1 Running (withLock 7 ?a)"
  have lift: "lock_step\<^sup>*\<^sup>* s t \<Longrightarrow> clearing_step\<^sup>*\<^sup>* s t" for s t :: "nat locks"
    by (rule mono_rtranclp[rule_format]) (auto intro: clearing_step.lock)
  have "clearing_step\<^sup>*\<^sup>* no_locks ?a"
    using lift[OF first_starts] clearing_step.clear by (rule rtranclp.rtrancl_into_rtrancl)
  moreover have "lock_step\<^sup>*\<^sup>* ?a ?s"
    by (intro reach_start reach_call rtranclp.rtrancl_refl) (simp_all add: withLock_def no_locks_def set_phase_def settled_def clearLocks_def)
  ultimately have "clearing_step\<^sup>*\<^sup>* no_locks ?s" using lift rtranclp_trans by metis
  then show ?thesis
    by (intro exI[of _ ?s]) (simp add: withLock_def no_locks_def set_phase_def clearLocks_def)
qed

end
