(* ===== verification/ClientCalls.thy ===== *)
theory ClientCalls
  imports Gateway
begin

text \<open>
  Calls in the browser, \<open>client/src/hooks/useWebRTC.ts\<close>: the hook's state with its refs, peer connections, media tracks and timers,
  and one function per callback, split where the code awaits.  What the hook emits are the messages that \<open>Gateway\<close> handles, what
  it receives are the gateway's call events.  React copies the state to \<open>callStateRef\<close> after a commit: \<open>render\<close>.  Media, session
  descriptions and ICE candidates come from the browser and are arguments; the ringing sound is a flag.
\<close>

section \<open>State\<close>

datatype call_status = C_idle | C_calling | C_incoming | C_connecting | C_active | C_ended

datatype end_reason = R_rejected | R_ended | R_no_answer | R_error | R_busy

record incoming_data =
  in_callId :: jsstr
  in_conversationId :: id
  in_callerId :: id
  in_callerName :: jsstr
  in_callerAvatar :: "jsstr option"
  in_callType :: call_type

record call_state =
  cs_status :: call_status
  cs_callId :: "jsstr option"
  cs_conversationId :: "id option"
  cs_targetUserId :: "id option"
  cs_callType :: "call_type option"
  cs_incomingData :: "incoming_data option"
  cs_startedAt :: "time option"
  cs_endReason :: "end_reason option"

definition status_only :: "call_status \<Rightarrow> call_state" where
  "status_only s = \<lparr>cs_status = s, cs_callId = None, cs_conversationId = None, cs_targetUserId = None, cs_callType = None,
     cs_incomingData = None, cs_startedAt = None, cs_endReason = None\<rparr>"

definition ended_with :: "end_reason \<Rightarrow> call_state" where
  "ended_with r = (status_only C_ended)\<lparr>cs_endReason := Some r\<rparr>"

text \<open>Track objects are shared between streams: a stream is a list of indices into \<open>tracks\<close>.  Likewise \<open>pcRef\<close> is an index into
  \<open>peers\<close>, the connections created so far.\<close>

record track =
  tk_video :: bool
  tk_enabled :: bool
  tk_live :: bool
  tk_screenLabel :: bool

record peer =
  pr_callId :: jsstr
  pr_senders :: "nat option list"
  pr_local :: "jsstr option"
  pr_remote :: "jsstr option"
  pr_ice :: "jsstr list"
  pr_remoteTracks :: "nat list"
  pr_handlers :: bool
  pr_closed :: bool

datatype timer = RingOut jsstr id | RingIn jsstr id | BackToIdle

text \<open>What a callback of the hook is waiting for, with what it does next: media for a call to start or to accept, an offer or an
  answer to be made for connection \<open>k\<close>, a received description to be applied to it.\<close>

datatype await =
    StartWithMedia jsstr id id call_type
  | AcceptWithMedia incoming_data "call_type option"
  | MakeOffer nat
  | ApplyOffer nat jsstr
  | MakeAnswer nat
  | ApplyAnswer nat jsstr

record rtc =
  callState :: call_state
  callStateRef :: call_state
  localStream :: "nat list option"
  remoteStream :: "nat list option"
  isMuted :: bool
  isCameraOff :: bool
  isScreenSharing :: bool
  tracks :: "track list"
  peers :: "peer list"
  pcRef :: "nat option"
  localStreamRef :: "nat list option"
  screenStreamRef :: "nat list option"
  ringing :: bool
  ringTimeoutRef :: "nat option"
  timers :: "(nat \<times> time \<times> timer) list"
  nextTimer :: nat
  iceCandidateBuffer :: "jsstr list"
  remoteDescSet :: bool
  awaits :: "await list"
  rtc_emits :: "call_in list"

record rtc_props =
  rp_socket :: bool
  rp_currentUserId :: "id option"

definition rtc_init :: rtc where
  "rtc_init = \<lparr>callState = status_only C_idle, callStateRef = status_only C_idle, localStream = None, remoteStream = None, isMuted = False,
     isCameraOff = False, isScreenSharing = False, tracks = [], peers = [], pcRef = None, localStreamRef = None, screenStreamRef = None,
     ringing = False, ringTimeoutRef = None, timers = [], nextTimer = 0, iceCandidateBuffer = [], remoteDescSet = False, awaits = [],
     rtc_emits = []\<rparr>"

definition render :: "rtc \<Rightarrow> rtc" where
  "render h = h\<lparr>callStateRef := callState h\<rparr>"

definition rtc_emit :: "rtc_props \<Rightarrow> call_in \<Rightarrow> rtc \<Rightarrow> rtc" where
  "rtc_emit p m h = (if rp_socket p then h\<lparr>rtc_emits := rtc_emits h @ [m]\<rparr> else h)"

definition await_for :: "await \<Rightarrow> rtc \<Rightarrow> rtc" where
  "await_for x h = h\<lparr>awaits := awaits h @ [x]\<rparr>"

text \<open>\<open>setTimeout\<close>, and the ring timer, whose identifier is kept in a ref.\<close>

definition later :: "time \<Rightarrow> timer \<Rightarrow> rtc \<Rightarrow> rtc" where
  "later t x h = h\<lparr>timers := timers h @ [(nextTimer h, t, x)], nextTimer := Suc (nextTimer h)\<rparr>"

definition set_ring :: "time \<Rightarrow> timer \<Rightarrow> rtc \<Rightarrow> rtc" where
  "set_ring t x h = (later t x h)\<lparr>ringTimeoutRef := Some (nextTimer h)\<rparr>"

definition clear_ring :: "rtc \<Rightarrow> rtc" where
  "clear_ring h =
     (case ringTimeoutRef h of
        None \<Rightarrow> h
      | Some i \<Rightarrow> h\<lparr>timers := filter (\<lambda>(j, _). j \<noteq> i) (timers h), ringTimeoutRef := None\<rparr>)"

definition upd_peer :: "nat \<Rightarrow> (peer \<Rightarrow> peer) \<Rightarrow> rtc \<Rightarrow> rtc" where
  "upd_peer k f h = (if k < length (peers h) then h\<lparr>peers := (peers h)[k := f (peers h ! k)]\<rparr> else h)"

definition upd_tracks :: "nat list \<Rightarrow> (track \<Rightarrow> track) \<Rightarrow> rtc \<Rightarrow> rtc" where
  "upd_tracks ks f h = h\<lparr>tracks := map (\<lambda>(i, t). if i \<in> set ks then f t else t) (enumerate 0 (tracks h))\<rparr>"

definition stream_of :: "nat list option \<Rightarrow> nat list" where
  "stream_of s = (case s of None \<Rightarrow> [] | Some ks \<Rightarrow> ks)"

section \<open>Connections\<close>

definition flushIceCandidates :: "rtc \<Rightarrow> rtc" where
  "flushIceCandidates h =
     (case pcRef h of
        None \<Rightarrow> h
      | Some k \<Rightarrow> (upd_peer k (\<lambda>c. c\<lparr>pr_ice := pr_ice c @ iceCandidateBuffer h\<rparr>) h)\<lparr>iceCandidateBuffer := []\<rparr>)"

definition cleanup_call :: "rtc \<Rightarrow> rtc" where
  "cleanup_call h =
     (let h = upd_tracks (stream_of (localStreamRef h) @ stream_of (screenStreamRef h)) (\<lambda>t. t\<lparr>tk_live := False\<rparr>) h;
          h = h\<lparr>localStreamRef := None, screenStreamRef := None, localStream := None, remoteStream := None, isMuted := False,
                isCameraOff := False, isScreenSharing := False\<rparr>;
          h = (case pcRef h of None \<Rightarrow> h | Some k \<Rightarrow> (upd_peer k (\<lambda>c. c\<lparr>pr_handlers := False, pr_closed := True\<rparr>) h)\<lparr>pcRef := None\<rparr>);
          h = h\<lparr>iceCandidateBuffer := [], remoteDescSet := False, ringing := False\<rparr>
      in clear_ring h)"

text \<open>\<open>createPC\<close>, and the tracks of the local stream added to it.  Its index is returned.\<close>

definition createPC :: "jsstr \<Rightarrow> rtc \<Rightarrow> nat \<times> rtc" where
  "createPC callId h =
     (length (peers h),
      h\<lparr>peers := peers h @ [\<lparr>pr_callId = callId, pr_senders = [], pr_local = None, pr_remote = None, pr_ice = [], pr_remoteTracks = [],
          pr_handlers = True, pr_closed = False\<rparr>], pcRef := Some (length (peers h)), remoteDescSet := False\<rparr>)"

definition add_local_tracks :: "nat \<Rightarrow> rtc \<Rightarrow> rtc" where
  "add_local_tracks k h = upd_peer k (\<lambda>c. c\<lparr>pr_senders := pr_senders c @ map Some (stream_of (localStreamRef h))\<rparr>) h"

definition on_track :: "nat \<Rightarrow> nat \<Rightarrow> rtc \<Rightarrow> rtc" where
  "on_track k t h =
     (if k < length (peers h) \<and> pr_handlers (peers h ! k)
      then (upd_peer k (\<lambda>c. c\<lparr>pr_remoteTracks := pr_remoteTracks c @ [t]\<rparr>) h)\<lparr>remoteStream := Some (pr_remoteTracks (peers h ! k) @ [t])\<rparr>
      else h)"

definition on_local_ice :: "rtc_props \<Rightarrow> nat \<Rightarrow> jsstr option \<Rightarrow> rtc \<Rightarrow> rtc" where
  "on_local_ice p k candidate h =
     (if k < length (peers h) \<and> pr_handlers (peers h ! k)
      then case candidate of None \<Rightarrow> h | Some c \<Rightarrow> rtc_emit p (SendIce (pr_callId (peers h ! k)) c) h
      else h)"

definition on_ice_state :: "nat \<Rightarrow> string \<Rightarrow> time \<Rightarrow> rtc \<Rightarrow> rtc" where
  "on_ice_state k s now h =
     (if k < length (peers h) \<and> pr_handlers (peers h ! k) then
        (if s = ''connected'' \<or> s = ''completed'' then
           (if cs_status (callState h) = C_connecting
            then h\<lparr>callState := (callState h)\<lparr>cs_status := C_active, cs_startedAt := Some now\<rparr>\<rparr> else h)
         else if s = ''disconnected'' \<or> s = ''closed'' then
           (if cs_status (callState h) = C_active \<or> cs_status (callState h) = C_connecting
            then (later (now + 2000) BackToIdle (cleanup_call h))\<lparr>callState := ended_with R_ended\<rparr> else h)
         else h)
      else h)"

section \<open>Media\<close>

text \<open>What \<open>getUserMedia\<close> answers: the tracks of a stream, or the name of an error.\<close>

datatype media = Got "track list" | MediaFail string

definition take_stream :: "track list \<Rightarrow> rtc \<Rightarrow> rtc" where
  "take_stream ts h =
     (let ks = map (\<lambda>i. length (tracks h) + i) [0..<length ts]
      in h\<lparr>tracks := tracks h @ ts, localStreamRef := Some ks, localStream := Some ks\<rparr>)"

definition not_found :: "string \<Rightarrow> bool" where
  "not_found n \<longleftrightarrow> n = ''NotFoundError'' \<or> n = ''DevicesNotFoundError''"

text \<open>\<open>getMedia\<close> with its answers, the second for audio only; \<open>Some\<close> is the error it throws.\<close>

definition getMedia :: "call_type \<Rightarrow> media \<Rightarrow> media \<Rightarrow> rtc \<Rightarrow> string option \<times> rtc" where
  "getMedia ty a1 a2 h =
     (case a1 of
        Got ts \<Rightarrow> (None, take_stream ts h)
      | MediaFail n \<Rightarrow>
          if ty = Video \<and> not_found n then
            (case a2 of
               Got ts \<Rightarrow> (None, (take_stream ts h)\<lparr>callState := (callState h)\<lparr>cs_callType := Some Audio\<rparr>,
                                                   callStateRef := (callStateRef h)\<lparr>cs_callType := Some Audio\<rparr>\<rparr>)
             | MediaFail n' \<Rightarrow> (Some n', h))
          else (Some n, h))"

definition first_kind :: "bool \<Rightarrow> nat list option \<Rightarrow> rtc \<Rightarrow> nat option" where
  "first_kind video s h = find (\<lambda>i. tk_video (tracks h ! i) = video) (stream_of s)"

definition toggle_track :: "nat \<Rightarrow> rtc \<Rightarrow> rtc" where
  "toggle_track i h = upd_tracks [i] (\<lambda>t. t\<lparr>tk_enabled := \<not> tk_enabled t\<rparr>) h"

definition toggleMute :: "rtc \<Rightarrow> rtc" where
  "toggleMute h =
     (case first_kind False (localStreamRef h) h of
        None \<Rightarrow> h
      | Some i \<Rightarrow> (toggle_track i h)\<lparr>isMuted := tk_enabled (tracks h ! i)\<rparr>)"

definition toggleCamera :: "rtc \<Rightarrow> rtc" where
  "toggleCamera h =
     (case first_kind True (localStreamRef h) h of
        None \<Rightarrow> h
      | Some i \<Rightarrow> (toggle_track i h)\<lparr>isCameraOff := tk_enabled (tracks h ! i)\<rparr>)"

text \<open>The index of the sender of video in a connection.\<close>

definition video_sender :: "nat \<Rightarrow> rtc \<Rightarrow> nat option" where
  "video_sender k h =
     find (\<lambda>j. case pr_senders (peers h ! k) ! j of None \<Rightarrow> False | Some i \<Rightarrow> tk_video (tracks h ! i)) [0..<length (pr_senders (peers h ! k))]"

definition audio_tracks :: "rtc \<Rightarrow> nat list" where
  "audio_tracks h = filter (\<lambda>i. \<not> tk_video (tracks h ! i)) (stream_of (localStreamRef h))"

text \<open>\<open>startScreenShare\<close> once \<open>getDisplayMedia\<close> has answered for connection \<open>k\<close>.\<close>

definition share_begin :: "rtc \<Rightarrow> nat option" where
  "share_begin h = (if cs_status (callStateRef h) = C_active then pcRef h else None)"

definition startScreenShare :: "nat \<Rightarrow> media \<Rightarrow> rtc \<Rightarrow> rtc" where
  "startScreenShare k a h =
     (case a of
        MediaFail n \<Rightarrow> h
      | Got ts \<Rightarrow>
          (let ks = map (\<lambda>i. length (tracks h) + i) [0..<length ts];
               h = h\<lparr>tracks := tracks h @ ts, screenStreamRef := Some ks\<rparr>
           in case first_kind True (Some ks) h of
                None \<Rightarrow> h
              | Some s \<Rightarrow>
                  (let h = (case video_sender k h of
                              Some j \<Rightarrow> upd_peer k (\<lambda>c. c\<lparr>pr_senders := (pr_senders c)[j := Some s]\<rparr>) h
                            | None \<Rightarrow> upd_peer k (\<lambda>c. c\<lparr>pr_senders := pr_senders c @ [Some s]\<rparr>) h)
                   in h\<lparr>localStream := Some (audio_tracks h @ [s]), isScreenSharing := True\<rparr>)))"

definition stopScreenShare :: "rtc \<Rightarrow> rtc" where
  "stopScreenShare h =
     (case pcRef h of
        None \<Rightarrow> h
      | Some k \<Rightarrow>
          (let h = (upd_tracks (stream_of (screenStreamRef h)) (\<lambda>t. t\<lparr>tk_live := False\<rparr>) h)\<lparr>screenStreamRef := None\<rparr>;
               camera = find (\<lambda>i. tk_video (tracks h ! i) \<and> \<not> tk_screenLabel (tracks h ! i)) (stream_of (localStreamRef h));
               h = (case (video_sender k h, camera) of
                      (Some j, Some c) \<Rightarrow> (upd_peer k (\<lambda>x. x\<lparr>pr_senders := (pr_senders x)[j := Some c]\<rparr>) h)
                                            \<lparr>localStream := Some (audio_tracks h @ [c])\<rparr>
                    | (Some j, None) \<Rightarrow> upd_peer k (\<lambda>x. x\<lparr>pr_senders := (pr_senders x)[j := None]\<rparr>) h
                    | (None, _) \<Rightarrow> h)
           in h\<lparr>isScreenSharing := False\<rparr>))"

section \<open>The life of a call\<close>

text \<open>\<open>startCall\<close> up to \<open>getMedia\<close>, and with its answers.\<close>

definition call_id :: "id \<Rightarrow> id \<Rightarrow> time \<Rightarrow> jsstr" where
  "call_id me target now = int_str me @ js ''-'' @ int_str target @ js ''-'' @ int_str now"

definition startCall :: "rtc_props \<Rightarrow> time \<Rightarrow> id \<Rightarrow> id \<Rightarrow> call_type \<Rightarrow> rtc \<Rightarrow> rtc" where
  "startCall p now conv target ty h =
     (case rp_currentUserId p of
        Some me \<Rightarrow> if \<not> rp_socket p \<or> me = 0 \<or> cs_status (callStateRef h) \<noteq> C_idle then h
                   else await_for (StartWithMedia (call_id me target now) conv target ty) h
      | None \<Rightarrow> h)"

definition start_with_media :: "rtc_props \<Rightarrow> time \<Rightarrow> jsstr \<Rightarrow> id \<Rightarrow> id \<Rightarrow> call_type \<Rightarrow> media \<Rightarrow> media \<Rightarrow> rtc \<Rightarrow> rtc" where
  "start_with_media p now callId conv target ty a1 a2 h =
     (case getMedia ty a1 a2 h of
        (Some n, h) \<Rightarrow> (cleanup_call h)\<lparr>callState := status_only C_idle\<rparr>
      | (None, h) \<Rightarrow>
          set_ring (now + 45000) (RingOut callId conv)
            (rtc_emit p (CallUser callId conv target ty)
              (h\<lparr>callState := (status_only C_calling)\<lparr>cs_callId := Some callId, cs_conversationId := Some conv,
                   cs_targetUserId := Some target, cs_callType := Some ty\<rparr>\<rparr>)))"

definition rejectCall :: "rtc_props \<Rightarrow> rtc \<Rightarrow> rtc" where
  "rejectCall p h =
     (case (cs_status (callStateRef h), cs_incomingData (callStateRef h)) of
        (C_incoming, Some d) \<Rightarrow>
          if rp_socket p then (cleanup_call ((rtc_emit p (RejectCall (in_callId d)) h)\<lparr>ringing := False\<rparr>))\<lparr>callState := status_only C_idle\<rparr>
          else h
      | _ \<Rightarrow> h)"

definition acceptCall :: "rtc_props \<Rightarrow> call_type option \<Rightarrow> rtc \<Rightarrow> rtc" where
  "acceptCall p asType h =
     (case (cs_status (callStateRef h), cs_incomingData (callStateRef h)) of
        (C_incoming, Some d) \<Rightarrow> if rp_socket p then await_for (AcceptWithMedia d asType) (clear_ring (h\<lparr>ringing := False\<rparr>)) else h
      | _ \<Rightarrow> h)"

definition accept_with_media :: "rtc_props \<Rightarrow> incoming_data \<Rightarrow> call_type option \<Rightarrow> media \<Rightarrow> media \<Rightarrow> rtc \<Rightarrow> rtc" where
  "accept_with_media p d asType a1 a2 h =
     (let ty = (case asType of None \<Rightarrow> in_callType d | Some t \<Rightarrow> t)
      in case getMedia ty a1 a2 h of
           (Some n, h) \<Rightarrow> rejectCall p h
         | (None, h) \<Rightarrow>
             (let s = (status_only C_connecting)\<lparr>cs_callId := Some (in_callId d), cs_conversationId := Some (in_conversationId d),
                         cs_callType := Some ty\<rparr>
              in rtc_emit p (AcceptCall (in_callId d) ty) (h\<lparr>callStateRef := s, callState := s\<rparr>)))"

definition endCall :: "rtc_props \<Rightarrow> time \<Rightarrow> rtc \<Rightarrow> rtc" where
  "endCall p now h =
     (if cs_status (callStateRef h) = C_idle then h
      else
        (let h = (case cs_callId (callStateRef h) of None \<Rightarrow> h | Some i \<Rightarrow> if i = [] then h else rtc_emit p (EndCall i) h)
         in later (now + 2000) BackToIdle ((cleanup_call h)\<lparr>callState := ended_with R_ended\<rparr>)))"

text \<open>Timers.\<close>

definition ring_out :: "rtc_props \<Rightarrow> time \<Rightarrow> jsstr \<Rightarrow> rtc \<Rightarrow> rtc" where
  "ring_out p now callId h =
     (if cs_status (callStateRef h) = C_calling
      then later (now + 2000) BackToIdle ((cleanup_call (rtc_emit p (EndCall callId) h))\<lparr>callState := ended_with R_no_answer\<rparr>) else h)"

definition ring_in :: "rtc_props \<Rightarrow> jsstr \<Rightarrow> rtc \<Rightarrow> rtc" where
  "ring_in p callId h =
     (if cs_status (callStateRef h) = C_incoming
      then (cleanup_call ((rtc_emit p (RejectCall callId) h)\<lparr>ringing := False\<rparr>))\<lparr>callState := status_only C_idle\<rparr> else h)"

fun timer_fires :: "rtc_props \<Rightarrow> time \<Rightarrow> timer \<Rightarrow> rtc \<Rightarrow> rtc" where
  "timer_fires p now (RingOut i conv) h = ring_out p now i h"
| "timer_fires p now (RingIn i conv) h = ring_in p i h"
| "timer_fires p now BackToIdle h = h\<lparr>callState := status_only C_idle\<rparr>"

text \<open>Timer \<open>i\<close> fires when it is due.\<close>

definition fire :: "rtc_props \<Rightarrow> time \<Rightarrow> nat \<Rightarrow> rtc \<Rightarrow> rtc" where
  "fire p now i h =
     (case find (\<lambda>(j, t, x). j = i \<and> t \<le> now) (timers h) of
        None \<Rightarrow> h
      | Some (j, t, x) \<Rightarrow> timer_fires p now x (h\<lparr>timers := filter (\<lambda>(j, _). j \<noteq> i) (timers h)\<rparr>))"

section \<open>Events of the socket\<close>

definition onIncomingCall :: "rtc_props \<Rightarrow> time \<Rightarrow> incoming_data \<Rightarrow> rtc \<Rightarrow> rtc" where
  "onIncomingCall p now d h =
     (if cs_status (callStateRef h) \<noteq> C_idle then rtc_emit p (BusyCall (in_callId d)) h
      else
        (let s = (status_only C_incoming)\<lparr>cs_callId := Some (in_callId d), cs_conversationId := Some (in_conversationId d),
                    cs_callType := Some (in_callType d), cs_incomingData := Some d\<rparr>
         in set_ring (now + 45000) (RingIn (in_callId d) (in_conversationId d)) (h\<lparr>callStateRef := s, callState := s, ringing := True\<rparr>)))"

text \<open>The handlers that create an offer or apply a description, up to their first \<open>await\<close>, and the steps after it.\<close>

definition onCallAccepted :: "jsstr \<Rightarrow> rtc \<Rightarrow> rtc" where
  "onCallAccepted callId h =
     (if cs_status (callStateRef h) \<noteq> C_calling then h
      else
        (let h = clear_ring h;
             s = (callStateRef h)\<lparr>cs_status := C_connecting\<rparr>;
             (k, h) = createPC callId (h\<lparr>callStateRef := s, callState := s\<rparr>)
         in await_for (MakeOffer k) (add_local_tracks k h)))"

definition offer_ready :: "rtc_props \<Rightarrow> nat \<Rightarrow> jsstr \<Rightarrow> rtc \<Rightarrow> rtc" where
  "offer_ready p k offer h =
     (if k < length (peers h)
      then rtc_emit p (OfferSdp (pr_callId (peers h ! k)) offer) (upd_peer k (\<lambda>c. c\<lparr>pr_local := Some offer\<rparr>) h) else h)"

definition onSdpOffer :: "jsstr \<Rightarrow> jsstr \<Rightarrow> rtc \<Rightarrow> rtc" where
  "onSdpOffer callId offer h =
     (if cs_status (callStateRef h) \<noteq> C_connecting \<and> cs_status (callStateRef h) \<noteq> C_incoming then h
      else (case createPC callId h of (k, h) \<Rightarrow> await_for (ApplyOffer k offer) (add_local_tracks k h)))"

definition remote_applied :: "nat \<Rightarrow> jsstr \<Rightarrow> rtc \<Rightarrow> rtc" where
  "remote_applied k sdp h =
     flushIceCandidates ((upd_peer k (\<lambda>c. c\<lparr>pr_remote := Some sdp\<rparr>) h)\<lparr>remoteDescSet := True\<rparr>)"

definition answer_ready :: "rtc_props \<Rightarrow> nat \<Rightarrow> jsstr \<Rightarrow> rtc \<Rightarrow> rtc" where
  "answer_ready p k answer h =
     (if k < length (peers h)
      then rtc_emit p (AnswerSdp (pr_callId (peers h ! k)) answer) (upd_peer k (\<lambda>c. c\<lparr>pr_local := Some answer\<rparr>) h) else h)"

definition onSdpAnswer :: "jsstr \<Rightarrow> rtc \<Rightarrow> rtc" where
  "onSdpAnswer answer h = (case pcRef h of None \<Rightarrow> h | Some k \<Rightarrow> await_for (ApplyAnswer k answer) h)"

text \<open>An awaited promise settles: with the answers of \<open>getUserMedia\<close>, with a new description, or done; a rejected one ends the
  callback.\<close>

datatype settled_with = WithMedia media media | WithSdp jsstr | Done | RejectedPromise

fun continue_with :: "rtc_props \<Rightarrow> time \<Rightarrow> await \<Rightarrow> settled_with \<Rightarrow> rtc \<Rightarrow> rtc" where
  "continue_with p now (StartWithMedia i conv target ty) (WithMedia a1 a2) h = start_with_media p now i conv target ty a1 a2 h"
| "continue_with p now (AcceptWithMedia d asType) (WithMedia a1 a2) h = accept_with_media p d asType a1 a2 h"
| "continue_with p now (MakeOffer k) (WithSdp x) h = offer_ready p k x h"
| "continue_with p now (ApplyOffer k x) Done h = await_for (MakeAnswer k) (remote_applied k x h)"
| "continue_with p now (MakeAnswer k) (WithSdp x) h = answer_ready p k x h"
| "continue_with p now (ApplyAnswer k x) Done h = remote_applied k x h"
| "continue_with p now x r h = h"

definition resume_await :: "rtc_props \<Rightarrow> time \<Rightarrow> nat \<Rightarrow> settled_with \<Rightarrow> rtc \<Rightarrow> rtc" where
  "resume_await p now i r h =
     (if i < length (awaits h)
      then continue_with p now (awaits h ! i) r (h\<lparr>awaits := take i (awaits h) @ drop (Suc i) (awaits h)\<rparr>) else h)"

definition onIceCandidate :: "jsstr \<Rightarrow> rtc \<Rightarrow> rtc" where
  "onIceCandidate candidate h =
     (if candidate = [] then h
      else if \<not> remoteDescSet h then h\<lparr>iceCandidateBuffer := iceCandidateBuffer h @ [candidate]\<rparr>
      else case pcRef h of None \<Rightarrow> h | Some k \<Rightarrow> upd_peer k (\<lambda>c. c\<lparr>pr_ice := pr_ice c @ [candidate]\<rparr>) h)"

definition over_with :: "end_reason \<Rightarrow> time \<Rightarrow> rtc \<Rightarrow> rtc" where
  "over_with r now h = later (now + 2500) BackToIdle ((cleanup_call h)\<lparr>callState := ended_with r\<rparr>)"

text \<open>The part of each handler before its first \<open>await\<close>.\<close>

fun rtc_on :: "rtc_props \<Rightarrow> time \<Rightarrow> call_event \<Rightarrow> rtc \<Rightarrow> rtc" where
  "rtc_on p now (IncomingCall i conv caller name avatar ty) h =
     onIncomingCall p now \<lparr>in_callId = i, in_conversationId = conv, in_callerId = caller, in_callerName = name, in_callerAvatar = avatar,
       in_callType = ty\<rparr> h"
| "rtc_on p now (CallAccepted i ty) h = onCallAccepted i h"
| "rtc_on p now (SdpOffer i offer) h = onSdpOffer i offer h"
| "rtc_on p now (SdpAnswer i answer) h = onSdpAnswer answer h"
| "rtc_on p now (IceCandidate i c) h = onIceCandidate c h"
| "rtc_on p now (CallRejected i) h = over_with R_rejected now h"
| "rtc_on p now (CallEnded i) h = over_with R_ended now h"
| "rtc_on p now (CallBusy i) h = over_with R_busy now h"

end
