(* ===== verification/CallNetwork.thy ===== *)
theory CallNetwork
  imports ClientCalls GatewayProperties
begin

text \<open>
  Calls end to end: browsers running the hook of \<open>ClientCalls\<close>, each on a socket of the gateway of \<open>Calls\<close>.  What a hook emits
  waits to be served by the gateway, what the gateway sends to a room waits at every socket of the room; both queues keep their
  order.  React commits after every step of a hook.
\<close>

section \<open>Browsers and gateway\<close>

datatype rtc_act =
    StartsCall id id call_type
  | AcceptsCall "call_type option"
  | RejectsCall
  | EndsCall
  | Settles nat settled_with
  | LocalIce nat "jsstr option"
  | IceState nat string
  | Fires nat

fun rtc_exec :: "rtc_props \<Rightarrow> time \<Rightarrow> rtc_act \<Rightarrow> rtc \<Rightarrow> rtc" where
  "rtc_exec p now (StartsCall conv target ty) h = startCall p now conv target ty h"
| "rtc_exec p now (AcceptsCall ty) h = acceptCall p ty h"
| "rtc_exec p now RejectsCall h = rejectCall p h"
| "rtc_exec p now EndsCall h = endCall p now h"
| "rtc_exec p now (Settles i r) h = resume_await p now i r h"
| "rtc_exec p now (LocalIce k c) h = on_local_ice p k c h"
| "rtc_exec p now (IceState k s) h = on_ice_state k s now h"
| "rtc_exec p now (Fires i) h = fire p now i h"

record 'r call_net =
  cn_world :: "'r world"
  cn_client :: "sock_id \<Rightarrow> rtc"
  cn_user :: "sock_id \<Rightarrow> sock_user"
  cn_up :: "(sock_id \<times> call_in) list"
  cn_down :: "(sock_id \<times> call_event) list"

definition props_of :: "sock_user \<Rightarrow> rtc_props" where
  "props_of u = \<lparr>rp_socket = True, rp_currentUserId = Some (su_id u)\<rparr>"

text \<open>A step of the hook on socket \<open>s\<close>: what it emitted goes up.\<close>

definition client_step :: "sock_id \<Rightarrow> (rtc \<Rightarrow> rtc) \<Rightarrow> 'r call_net \<Rightarrow> 'r call_net" where
  "client_step s f n =
     (let h = render (f ((cn_client n s)\<lparr>rtc_emits := []\<rparr>))
      in n\<lparr>cn_client := (cn_client n)(s := h), cn_up := cn_up n @ map (Pair s) (rtc_emits h)\<rparr>)"

text \<open>The sockets a message is for, and the call events among what the gateway sent.\<close>

definition sockets_for :: "'r world \<Rightarrow> recipients \<Rightarrow> sock_id list" where
  "sockets_for w to = map fst (filter (\<lambda>(s, k). receives s k to) (w_sockets w))"

fun call_events :: "'r world \<Rightarrow> (recipients \<times> event) list \<Rightarrow> (sock_id \<times> call_event) list" where
  "call_events w [] = []"
| "call_events w ((to, e) # es) = (case e of Calling c \<Rightarrow> map (\<lambda>s. (s, c)) (sockets_for w to) | _ \<Rightarrow> []) @ call_events w es"

definition serve :: "time \<Rightarrow> 'r call_net \<Rightarrow> 'r call_net" where
  "serve now n =
     (case cn_up n of
        [] \<Rightarrow> n
      | (s, m) # rest \<Rightarrow>
          (let w = handle_call now s m (cn_user n s) (cn_world n)
           in n\<lparr>cn_world := w, cn_up := rest, cn_down := cn_down n @ call_events w (drop (length (w_out (cn_world n))) (w_out w))\<rparr>))"

text \<open>The first message waiting at socket \<open>s\<close>.\<close>

fun first_at :: "sock_id \<Rightarrow> (sock_id \<times> 'e) list \<Rightarrow> ('e \<times> (sock_id \<times> 'e) list) option" where
  "first_at s [] = None"
| "first_at s ((t, e) # rest) =
     (if t = s then Some (e, rest) else map_option (\<lambda>(x, r). (x, (t, e) # r)) (first_at s rest))"

definition receive :: "time \<Rightarrow> sock_id \<Rightarrow> 'r call_net \<Rightarrow> 'r call_net" where
  "receive now s n =
     (case first_at s (cn_down n) of
        None \<Rightarrow> n
      | Some (e, rest) \<Rightarrow> client_step s (rtc_on (props_of (cn_user n s)) now e) (n\<lparr>cn_down := rest\<rparr>))"

datatype net_op = Act sock_id rtc_act | Serve | Recv sock_id

fun net_exec :: "time \<Rightarrow> net_op \<Rightarrow> 'r call_net \<Rightarrow> 'r call_net" where
  "net_exec now (Act s a) n = client_step s (rtc_exec (props_of (cn_user n s)) now a) n"
| "net_exec now Serve n = serve now n"
| "net_exec now (Recv s) n = receive now s n"

definition net_run :: "(time \<times> net_op) list \<Rightarrow> 'r call_net \<Rightarrow> 'r call_net" where
  "net_run es n = fold (\<lambda>(now, e). net_exec now e) es n"

section \<open>One side of a call\<close>

text \<open>A hook at rest, and one in a call with connection \<open>k\<close>: its descriptions, the candidates it has, those it keeps back, and what it
  awaits.\<close>

definition at_rest :: "rtc \<Rightarrow> bool" where
  "at_rest h \<longleftrightarrow> callState h = status_only C_idle \<and> callStateRef h = callState h \<and> timers h = [] \<and> ringTimeoutRef h = None
     \<and> iceCandidateBuffer h = [] \<and> awaits h = []"

definition in_call :: "call_status \<Rightarrow> jsstr \<Rightarrow> nat \<Rightarrow> jsstr option \<Rightarrow> jsstr option \<Rightarrow> jsstr list \<Rightarrow> jsstr list \<Rightarrow> bool \<Rightarrow> await list \<Rightarrow> rtc \<Rightarrow> bool" where
  "in_call st i k loc rem ice buf ready aw h \<longleftrightarrow>
     cs_status (callState h) = st \<and> callStateRef h = callState h \<and> cs_callId (callState h) = Some i \<and> timers h = []
     \<and> pcRef h = Some k \<and> k < length (peers h) \<and> pr_callId (peers h ! k) = i \<and> pr_local (peers h ! k) = loc \<and> pr_remote (peers h ! k) = rem
     \<and> pr_ice (peers h ! k) = ice \<and> pr_handlers (peers h ! k) \<and> iceCandidateBuffer h = buf \<and> remoteDescSet h = ready \<and> awaits h = aw"

text \<open>A step of a hook, as \<open>client_step\<close> takes it.\<close>

abbreviation hook_step :: "(rtc \<Rightarrow> rtc) \<Rightarrow> rtc \<Rightarrow> rtc" where
  "hook_step f h \<equiv> render (f (h\<lparr>rtc_emits := []\<rparr>))"

lemmas hook_defs = at_rest_def in_call_def render_def rtc_emit_def await_for_def resume_await_def set_ring_def later_def clear_ring_def
  upd_peer_def createPC_def add_local_tracks_def stream_of_def take_stream_def getMedia_def status_only_def props_of_def Let_def

lemma starting:
  assumes "at_rest h" "su_id u \<noteq> 0"
    "h1 = hook_step (startCall (props_of u) now conv target ty) h"
  shows "rtc_emits h1 = [] \<and> awaits h1 = [StartWithMedia (call_id (su_id u) target now) conv target ty] \<and> callStateRef h1 = callState h1
    \<and> timers h1 = [] \<and> iceCandidateBuffer h1 = [] \<and> peers h1 = peers h"
  using assms by (simp add: startCall_def hook_defs)

lemma calling:
  assumes "awaits h = [StartWithMedia i conv target ty]" "timers h = []" "iceCandidateBuffer h = []"
    "h1 = hook_step (resume_await (props_of u) now 0 (WithMedia (Got ts) x)) h"
  shows "rtc_emits h1 = [CallUser i conv target ty] \<and> awaits h1 = [] \<and> callStateRef h1 = callState h1 \<and> cs_status (callState h1) = C_calling
    \<and> cs_callId (callState h1) = Some i \<and> (\<exists>m. timers h1 = [(m, now + 45000, RingOut i conv)] \<and> ringTimeoutRef h1 = Some m)
    \<and> iceCandidateBuffer h1 = [] \<and> peers h1 = peers h"
  using assms by (simp add: start_with_media_def hook_defs)

lemma accepted:
  assumes "awaits h = []" "callStateRef h = callState h" "cs_status (callState h) = C_calling" "cs_callId (callState h) = Some i"
    "timers h = [(m, t, x)]" "ringTimeoutRef h = Some m" "iceCandidateBuffer h = []"
    "h1 = hook_step (onCallAccepted i) h"
  shows "rtc_emits h1 = [] \<and> in_call C_connecting i (length (peers h)) None None [] [] False [MakeOffer (length (peers h))] h1"
  using assms by (simp add: onCallAccepted_def hook_defs nth_append)

lemma rung:
  assumes "at_rest h" "d = \<lparr>in_callId = i, in_conversationId = conv, in_callerId = c, in_callerName = name, in_callerAvatar = av, in_callType = ty\<rparr>"
    "h1 = hook_step (onIncomingCall (props_of u) now d) h"
  shows "rtc_emits h1 = [] \<and> callStateRef h1 = callState h1 \<and> cs_status (callState h1) = C_incoming \<and> cs_incomingData (callState h1) = Some d
    \<and> (\<exists>m. timers h1 = [(m, now + 45000, RingIn i conv)] \<and> ringTimeoutRef h1 = Some m) \<and> awaits h1 = [] \<and> iceCandidateBuffer h1 = []
    \<and> peers h1 = peers h"
  using assms by (simp add: onIncomingCall_def hook_defs)

lemma accepting:
  assumes "callStateRef h = callState h" "cs_status (callState h) = C_incoming" "cs_incomingData (callState h) = Some d"
    "timers h = [(m, t, x)]" "ringTimeoutRef h = Some m" "awaits h = []" "iceCandidateBuffer h = []"
    "h1 = hook_step (acceptCall (props_of u) None) h"
  shows "rtc_emits h1 = [] \<and> awaits h1 = [AcceptWithMedia d None] \<and> timers h1 = [] \<and> iceCandidateBuffer h1 = [] \<and> peers h1 = peers h"
  using assms by (simp add: acceptCall_def hook_defs)

lemma accepting_media:
  assumes "awaits h = [AcceptWithMedia d None]" "timers h = []" "iceCandidateBuffer h = []"
    "h1 = hook_step (resume_await (props_of u) now 0 (WithMedia (Got ts) x)) h"
  shows "rtc_emits h1 = [AcceptCall (in_callId d) (in_callType d)] \<and> awaits h1 = [] \<and> timers h1 = [] \<and> callStateRef h1 = callState h1
    \<and> cs_status (callState h1) = C_connecting \<and> cs_callId (callState h1) = Some (in_callId d) \<and> iceCandidateBuffer h1 = [] \<and> peers h1 = peers h"
  using assms by (simp add: accept_with_media_def hook_defs)

lemma offered:
  assumes "awaits h = []" "callStateRef h = callState h" "cs_status (callState h) = C_connecting" "cs_callId (callState h) = Some i"
    "timers h = []" "iceCandidateBuffer h = []"
    "h1 = hook_step (onSdpOffer i offer) h"
  shows "rtc_emits h1 = [] \<and> in_call C_connecting i (length (peers h)) None None [] [] False [ApplyOffer (length (peers h)) offer] h1"
  using assms by (simp add: onSdpOffer_def hook_defs nth_append)

lemma local_description:
  assumes "in_call st i k None rem ice buf ready [x] h" "x = MakeOffer k \<and> m = OfferSdp i sdp \<or> x = MakeAnswer k \<and> m = AnswerSdp i sdp"
    "h1 = hook_step (resume_await (props_of u) now 0 (WithSdp sdp)) h"
  shows "rtc_emits h1 = [m] \<and> in_call st i k (Some sdp) rem ice buf ready [] h1"
  using assms by (auto simp: offer_ready_def answer_ready_def hook_defs)

lemma remote_description:
  assumes "in_call st i k loc None [] buf False [x] h" "x = ApplyOffer k sdp \<and> aw = [MakeAnswer k] \<or> x = ApplyAnswer k sdp \<and> aw = []"
    "h1 = hook_step (resume_await (props_of u) now 0 Done) h"
  shows "rtc_emits h1 = [] \<and> in_call st i k loc (Some sdp) buf [] True aw h1"
  using assms by (auto simp: remote_applied_def flushIceCandidates_def hook_defs)

lemma answered:
  assumes "in_call st i k loc None [] buf False [] h"
  shows "rtc_emits (hook_step (onSdpAnswer answer) h) = [] \<and> in_call st i k loc None [] buf False [ApplyAnswer k answer] (hook_step (onSdpAnswer answer) h)"
  using assms by (simp add: onSdpAnswer_def hook_defs)

lemma local_candidate:
  assumes "in_call st i k loc rem ice buf ready aw h"
  shows "rtc_emits (hook_step (on_local_ice (props_of u) k (Some c)) h) = [SendIce i c]
    \<and> in_call st i k loc rem ice buf ready aw (hook_step (on_local_ice (props_of u) k (Some c)) h)"
  using assms by (simp add: on_local_ice_def hook_defs)

lemma remote_candidate:
  assumes "in_call st i k loc rem ice buf ready aw h" "c \<noteq> []"
    "h1 = hook_step (onIceCandidate c) h"
  shows "rtc_emits h1 = [] \<and> in_call st i k loc rem (if ready then ice @ [c] else ice) (if ready then buf else buf @ [c]) ready aw h1"
  using assms by (auto simp: onIceCandidate_def hook_defs)

lemma connected:
  assumes "in_call C_connecting i k loc rem ice buf ready aw h"
    "h1 = hook_step (on_ice_state k ''connected'' now) h"
  shows "rtc_emits h1 = [] \<and> in_call C_active i k loc rem ice buf ready aw h1"
  using assms by (simp add: on_ice_state_def hook_defs)

section \<open>Two browsers and the gateway\<close>

text \<open>The call \<open>i\<close> from \<open>a\<close> to \<open>b\<close> is registered, each user has one socket, nothing is on its way.\<close>

definition pair_net :: "sock_id \<Rightarrow> sock_id \<Rightarrow> 'r call_net \<Rightarrow> bool" where
  "pair_net a b n \<longleftrightarrow>
     a \<noteq> b \<and> su_id (cn_user n a) \<noteq> su_id (cn_user n b) \<and> su_id (cn_user n a) \<noteq> 0
     \<and> sockets_for (cn_world n) (ToRoom (UserRoom (su_id (cn_user n a)))) = [a]
     \<and> sockets_for (cn_world n) (ToRoom (UserRoom (su_id (cn_user n b)))) = [b] \<and> cn_up n = [] \<and> cn_down n = []"

definition registered :: "sock_id \<Rightarrow> sock_id \<Rightarrow> jsstr \<Rightarrow> 'r call_net \<Rightarrow> bool" where
  "registered a b i n \<longleftrightarrow>
     (\<exists>c. mget (w_calls (cn_world n)) i = Some c \<and> call_callerId c = su_id (cn_user n a) \<and> call_calleeId c = su_id (cn_user n b))"

text \<open>How the gateway passes a message on.\<close>

definition passed_on :: "sock_id \<Rightarrow> sock_id \<Rightarrow> sock_id \<Rightarrow> jsstr \<Rightarrow> call_in \<Rightarrow> call_event \<Rightarrow> bool" where
  "passed_on a b s i m e \<longleftrightarrow>
     (case m of
        AcceptCall j ty \<Rightarrow> s = b \<and> j = i \<and> e = CallAccepted i ty
      | OfferSdp j x \<Rightarrow> j = i \<and> e = SdpOffer i x
      | AnswerSdp j x \<Rightarrow> j = i \<and> e = SdpAnswer i x
      | SendIce j x \<Rightarrow> j = i \<and> e = IceCandidate i x
      | _ \<Rightarrow> False)"

lemma sockets_for_emit [simp]: "sockets_for (emit x e w) = sockets_for w"
  by (rule ext) (simp add: sockets_for_def emit_def)

lemma sockets_for_upd [simp]: "sockets_for (w\<lparr>w_out := x\<rparr>) = sockets_for w" "sockets_for (w\<lparr>w_calls := y\<rparr>) = sockets_for w"
  by (rule ext, simp add: sockets_for_def)+

lemma served:
  assumes "pair_net a b n" "registered a b i n" "passed_on a b s i m e" "s = a \<and> t = b \<or> s = b \<and> t = a"
  shows "serve now (n\<lparr>cn_client := cl, cn_up := [(s, m)]\<rparr>)
    = n\<lparr>cn_client := cl, cn_up := [], cn_down := [(t, e)],
        cn_world := emit (ToRoom (UserRoom (su_id (cn_user n t)))) (Calling e) (cn_world n)\<rparr>"
  using assms
  by (auto simp: serve_def pair_net_def registered_def passed_on_def handleCallAccept_def handleSdpOffer_def handleSdpAnswer_def
      handleIceCandidate_def other_party_def emit_def Let_def sockets_for_def split: call_in.splits)

lemma received:
  assumes "cn_down n = [(t, e)]" "h2 = hook_step (rtc_on (props_of (cn_user n t)) now e) (cn_client n t)" "rtc_emits h2 = []"
  shows "receive now t n = n\<lparr>cn_down := [], cn_client := (cn_client n)(t := h2)\<rparr>"
  using assms by (simp add: receive_def client_step_def Let_def)

text \<open>A step of one side whose message reaches the other, and one that emits nothing.\<close>

lemma hop:
  assumes net: "pair_net a b n" "registered a b i n" and ends: "s = a \<and> t = b \<or> s = b \<and> t = a"
    and step: "h1 = hook_step (rtc_exec (props_of (cn_user n s)) now act) (cn_client n s)" "rtc_emits h1 = [m]" "passed_on a b s i m e"
    and other: "h2 = hook_step (rtc_on (props_of (cn_user n t)) now e) (cn_client n t)" "rtc_emits h2 = []"
  shows "\<exists>n'. net_run [(now, Act s act), (now, Serve), (now, Recv t)] n = n' \<and> pair_net a b n' \<and> registered a b i n'
    \<and> cn_client n' = (cn_client n)(s := h1, t := h2) \<and> cn_user n' = cn_user n \<and> w_calls (cn_world n') = w_calls (cn_world n)"
proof -
  have st: "s \<noteq> t" and idle: "cn_up n = []" using net(1) ends by (auto simp: pair_net_def)
  let ?w = "emit (ToRoom (UserRoom (su_id (cn_user n t)))) (Calling e) (cn_world n)"
  have "net_run [(now, Act s act), (now, Serve), (now, Recv t)] n
      = receive now t (serve now (n\<lparr>cn_client := (cn_client n)(s := h1), cn_up := [(s, m)]\<rparr>))"
    using step(1,2) idle by (simp add: net_run_def client_step_def Let_def)
  also have "\<dots> = n\<lparr>cn_client := (cn_client n)(s := h1, t := h2), cn_up := [], cn_down := [], cn_world := ?w\<rparr>"
    unfolding served[OF net step(3) ends] using other st by (subst received) (auto simp: fun_upd_twist)
  finally show ?thesis using net st by (auto simp: pair_net_def registered_def emit_def sockets_for_def)
qed

lemma solo:
  assumes "pair_net a b n" "registered a b i n" "h1 = hook_step (rtc_exec (props_of (cn_user n s)) now act) (cn_client n s)" "rtc_emits h1 = []"
  shows "\<exists>n'. net_run [(now, Act s act)] n = n' \<and> pair_net a b n' \<and> registered a b i n' \<and> cn_client n' = (cn_client n)(s := h1)
    \<and> cn_user n' = cn_user n \<and> w_calls (cn_world n') = w_calls (cn_world n)"
  using assms by (auto simp: net_run_def client_step_def pair_net_def registered_def Let_def)

lemma net_run_append: "net_run (xs @ ys) n = net_run ys (net_run xs n)"
  by (simp add: net_run_def)

definition trickle :: "time \<Rightarrow> sock_id \<Rightarrow> nat \<Rightarrow> sock_id \<Rightarrow> jsstr list \<Rightarrow> (time \<times> net_op) list" where
  "trickle now s k t cs = concat (map (\<lambda>c. [(now, Act s (LocalIce k (Some c))), (now, Serve), (now, Recv t)]) cs)"

lemma trickled:
  assumes "pair_net a b n" "registered a b i n" "s = a \<and> t = b \<or> s = b \<and> t = a" "in_call st i k loc rem ice buf ready aw (cn_client n s)"
    "in_call st' i k' loc' rem' ice' buf' ready' aw' (cn_client n t)" "list_all (\<lambda>c. c \<noteq> []) cs"
  shows "\<exists>n'. net_run (trickle now s k t cs) n = n' \<and> pair_net a b n' \<and> registered a b i n' \<and> cn_user n' = cn_user n
    \<and> w_calls (cn_world n') = w_calls (cn_world n)
    \<and> in_call st i k loc rem ice buf ready aw (cn_client n' s)
    \<and> in_call st' i k' loc' rem' (if ready' then ice' @ cs else ice') (if ready' then buf' else buf' @ cs) ready' aw' (cn_client n' t)"
  using assms
proof (induction cs arbitrary: n ice' buf')
  case Nil
  then show ?case by (cases ready') (simp_all add: net_run_def trickle_def)
next
  case (Cons c cs)
  let ?ice = "if ready' then ice' @ [c] else ice'" and ?buf = "if ready' then buf' else buf' @ [c]"
  have st: "s \<noteq> t" using Cons.prems(1,3) by (auto simp: pair_net_def)
  define h1 where "h1 = hook_step (on_local_ice (props_of (cn_user n s)) k (Some c)) (cn_client n s)"
  define h2 where "h2 = hook_step (onIceCandidate c) (cn_client n t)"
  have h1: "rtc_emits h1 = [SendIce i c]" "in_call st i k loc rem ice buf ready aw h1"
    using local_candidate[OF Cons.prems(4)] by (simp_all add: h1_def)
  have h2: "rtc_emits h2 = []" "in_call st' i k' loc' rem' ?ice ?buf ready' aw' h2"
    using remote_candidate[OF Cons.prems(5), of c h2] Cons.prems(6) by (simp_all add: h2_def)
  obtain n1 where n1: "net_run [(now, Act s (LocalIce k (Some c))), (now, Serve), (now, Recv t)] n = n1" "pair_net a b n1" "registered a b i n1"
    "cn_client n1 = (cn_client n)(s := h1, t := h2)" "cn_user n1 = cn_user n" "w_calls (cn_world n1) = w_calls (cn_world n)"
    using hop[OF Cons.prems(1-3), of h1 now "LocalIce k (Some c)" "SendIce i c" "IceCandidate i c" h2] h1(1) h2(1)
    by (auto simp: h1_def h2_def passed_on_def)
  have "net_run (trickle now s k t (c # cs)) n = net_run (trickle now s k t cs) n1"
    using n1(1) by (simp add: trickle_def net_run_def)
  moreover have "in_call st i k loc rem ice buf ready aw (cn_client n1 s)" "in_call st' i k' loc' rem' ?ice ?buf ready' aw' (cn_client n1 t)"
    using h1(2) h2(2) st n1(4) by simp_all
  ultimately show ?case using Cons.IH[OF n1(2,3) Cons.prems(3), of ?ice ?buf] Cons.prems(6) n1(5,6)
    by (auto split: if_splits)
qed

text \<open>Ringing: the gateway registers the call and rings every socket of the callee.\<close>

lemma served_call:
  assumes "mget (w_calls (cn_world n)) i = None" "fst (rateLimit a CallLim ''callUser'' now (cn_world n))" "cn_down n = []"
  shows "\<exists>w name av. serve now (n\<lparr>cn_client := cl, cn_up := [(a, CallUser i conv ub ty)]\<rparr>)
      = n\<lparr>cn_client := cl, cn_up := [], cn_world := w,
          cn_down := map (\<lambda>s. (s, IncomingCall i conv (su_id (cn_user n a)) name av ty)) (sockets_for w (ToRoom (UserRoom ub)))\<rparr>
    \<and> w_sockets w = w_sockets (cn_world n)
    \<and> mget (w_calls w) i = Some \<lparr>call_callerId = su_id (cn_user n a), call_calleeId = ub, call_conversationId = conv, call_callType = ty\<rparr>"
proof -
  let ?ua = "cn_user n a" and ?w = "cn_world n"
  obtain w1 where w1: "rateLimit a CallLim ''callUser'' now ?w = (True, w1)"
    using assms(2) by (cases "rateLimit a CallLim ''callUser'' now ?w") auto
  have same: "w_calls w1 = w_calls ?w" "w_sockets w1 = w_sockets ?w" "w_out w1 = w_out ?w"
    using w1 by (auto simp: rateLimit_def Let_def split: option.splits prod.splits if_splits)
  let ?c = "\<lparr>call_callerId = su_id ?ua, call_calleeId = ub, call_conversationId = conv, call_callType = ty\<rparr>"
  let ?me = "find_user (w_db w1) (su_id ?ua)"
  let ?name = "case ?me of None \<Rightarrow> unknown_name | Some c \<Rightarrow> u_nickname c" and ?av = "Option.bind ?me u_avatarUrl"
  let ?w2 = "emit (ToRoom (UserRoom ub)) (Calling (IncomingCall i conv (su_id ?ua) ?name ?av ty)) (w1\<lparr>w_calls := mset_at i ?c (w_calls w1)\<rparr>)"
  have "handle_call now a (CallUser i conv ub ty) ?ua ?w = ?w2"
    using w1 same assms(1) by (simp add: handleCallUser_def limited_def mhas_def Let_def)
  then have "serve now (n\<lparr>cn_client := cl, cn_up := [(a, CallUser i conv ub ty)]\<rparr>)
      = n\<lparr>cn_client := cl, cn_up := [], cn_world := ?w2,
          cn_down := map (\<lambda>s. (s, IncomingCall i conv (su_id ?ua) ?name ?av ty)) (sockets_for ?w2 (ToRoom (UserRoom ub)))\<rparr>"
    using same assms(3) by (simp add: serve_def emit_def Let_def)
  then show ?thesis using same by (intro exI[of _ ?w2] exI[of _ ?name] exI[of _ ?av]) (simp add: emit_def)
qed

text \<open>The caller's part.\<close>

lemma calls_out:
  assumes "a \<noteq> b" "su_id (cn_user n a) \<noteq> 0" "cn_up n = []" "at_rest (cn_client n a)" "i = call_id (su_id (cn_user n a)) ub now"
  shows "\<exists>h. net_run (map (Pair now) [Act a (StartsCall conv ub ty), Act a (Settles 0 (WithMedia (Got ta) (Got ta)))]) n
      = n\<lparr>cn_client := (cn_client n)(a := h), cn_up := [(a, CallUser i conv ub ty)]\<rparr>
    \<and> awaits h = [] \<and> callStateRef h = callState h \<and> cs_status (callState h) = C_calling \<and> cs_callId (callState h) = Some i
    \<and> (\<exists>m. timers h = [(m, now + 45000, RingOut i conv)] \<and> ringTimeoutRef h = Some m) \<and> iceCandidateBuffer h = []
    \<and> peers h = peers (cn_client n a)"
proof -
  let ?ua = "cn_user n a"
  define h1 where "h1 = hook_step (startCall (props_of ?ua) now conv ub ty) (cn_client n a)"
  define h2 where "h2 = hook_step (resume_await (props_of ?ua) now 0 (WithMedia (Got ta) (Got ta))) h1"
  have h1: "rtc_emits h1 = []" "awaits h1 = [StartWithMedia i conv ub ty]" "timers h1 = []" "iceCandidateBuffer h1 = []"
      "peers h1 = peers (cn_client n a)"
    using starting[OF assms(4), of ?ua h1 now conv ub ty] assms(2,5) by (simp_all add: h1_def)
  have h2: "rtc_emits h2 = [CallUser i conv ub ty]" "awaits h2 = []" "callStateRef h2 = callState h2" "cs_status (callState h2) = C_calling"
    "cs_callId (callState h2) = Some i" "\<exists>m. timers h2 = [(m, now + 45000, RingOut i conv)] \<and> ringTimeoutRef h2 = Some m"
    "iceCandidateBuffer h2 = []" "peers h2 = peers (cn_client n a)"
    using calling[OF h1(2-4), of h2 ?ua now ta "Got ta"] h1(5) by (simp_all add: h2_def)
  have "net_run (map (Pair now) [Act a (StartsCall conv ub ty), Act a (Settles 0 (WithMedia (Got ta) (Got ta)))]) n
      = n\<lparr>cn_client := (cn_client n)(a := h2), cn_up := [(a, CallUser i conv ub ty)]\<rparr>"
    using h1(1) h2(1) assms(3) by (simp add: net_run_def client_step_def Let_def flip: h1_def) (simp flip: h2_def)
  then show ?thesis using h2 by blast
qed

lemma rings:
  assumes "pair_net a b n" "at_rest (cn_client n a)" "at_rest (cn_client n b)" "mget (w_calls (cn_world n)) i = None"
    "i = call_id (su_id (cn_user n a)) (su_id (cn_user n b)) now"
    "fst (rateLimit a CallLim ''callUser'' now (cn_world n))"
  shows "\<exists>n' d. net_run (map (Pair now) [Act a (StartsCall conv (su_id (cn_user n b)) ty), Act a (Settles 0 (WithMedia (Got ta) (Got ta))), Serve, Recv b]) n = n'
    \<and> pair_net a b n' \<and> registered a b i n' \<and> cn_user n' = cn_user n
    \<and> (let h = cn_client n' a in awaits h = [] \<and> callStateRef h = callState h \<and> cs_status (callState h) = C_calling
        \<and> cs_callId (callState h) = Some i \<and> (\<exists>m. timers h = [(m, now + 45000, RingOut i conv)] \<and> ringTimeoutRef h = Some m)
        \<and> iceCandidateBuffer h = [] \<and> peers h = peers (cn_client n a))
    \<and> in_callId d = i \<and> in_callType d = ty
    \<and> (let h = cn_client n' b in callStateRef h = callState h \<and> cs_status (callState h) = C_incoming \<and> cs_incomingData (callState h) = Some d
        \<and> (\<exists>m. timers h = [(m, now + 45000, RingIn i conv)] \<and> ringTimeoutRef h = Some m) \<and> awaits h = [] \<and> iceCandidateBuffer h = []
        \<and> peers h = peers (cn_client n b))"
proof -
  let ?ua = "cn_user n a" and ?ub = "cn_user n b"
  note ab = assms(1)[unfolded pair_net_def]
  obtain ha where ha: "net_run (map (Pair now) [Act a (StartsCall conv (su_id ?ub) ty), Act a (Settles 0 (WithMedia (Got ta) (Got ta)))]) n
      = n\<lparr>cn_client := (cn_client n)(a := ha), cn_up := [(a, CallUser i conv (su_id ?ub) ty)]\<rparr>"
    "awaits ha = [] \<and> callStateRef ha = callState ha \<and> cs_status (callState ha) = C_calling \<and> cs_callId (callState ha) = Some i
      \<and> (\<exists>m. timers ha = [(m, now + 45000, RingOut i conv)] \<and> ringTimeoutRef ha = Some m) \<and> iceCandidateBuffer ha = []
      \<and> peers ha = peers (cn_client n a)"
    using calls_out[of a b n i "su_id ?ub" now conv ty ta] ab assms(2,5) by blast
  obtain w name av where w: "serve now (n\<lparr>cn_client := (cn_client n)(a := ha), cn_up := [(a, CallUser i conv (su_id ?ub) ty)]\<rparr>)
      = n\<lparr>cn_client := (cn_client n)(a := ha), cn_up := [], cn_world := w,
          cn_down := map (\<lambda>s. (s, IncomingCall i conv (su_id ?ua) name av ty)) (sockets_for w (ToRoom (UserRoom (su_id ?ub))))\<rparr>"
    "w_sockets w = w_sockets (cn_world n)"
    "mget (w_calls w) i = Some \<lparr>call_callerId = su_id ?ua, call_calleeId = su_id ?ub, call_conversationId = conv, call_callType = ty\<rparr>"
    using served_call[OF assms(4,6), where cl = "(cn_client n)(a := ha)" and conv = conv and ub = "su_id ?ub" and ty = ty] ab by blast
  have rooms: "sockets_for w = sockets_for (cn_world n)" by (rule ext) (simp add: sockets_for_def w(2))
  let ?d = "\<lparr>in_callId = i, in_conversationId = conv, in_callerId = su_id ?ua, in_callerName = name, in_callerAvatar = av, in_callType = ty\<rparr>"
  define h3 where "h3 = hook_step (onIncomingCall (props_of ?ub) now ?d) (cn_client n b)"
  have h3: "rtc_emits h3 = []" "callStateRef h3 = callState h3 \<and> cs_status (callState h3) = C_incoming \<and> cs_incomingData (callState h3) = Some ?d
    \<and> (\<exists>m. timers h3 = [(m, now + 45000, RingIn i conv)] \<and> ringTimeoutRef h3 = Some m) \<and> awaits h3 = [] \<and> iceCandidateBuffer h3 = []
    \<and> peers h3 = peers (cn_client n b)"
    using rung[OF assms(3) refl, of h3 ?ub now i conv "su_id ?ua" name av ty] by (simp_all add: h3_def)
  let ?n = "n\<lparr>cn_client := (cn_client n)(a := ha, b := h3), cn_world := w, cn_up := [], cn_down := []\<rparr>"
  have split: "map (Pair now) [Act a (StartsCall conv (su_id ?ub) ty), Act a (Settles 0 (WithMedia (Got ta) (Got ta))), Serve, Recv b]
      = map (Pair now) [Act a (StartsCall conv (su_id ?ub) ty), Act a (Settles 0 (WithMedia (Got ta) (Got ta)))] @ [(now, Serve), (now, Recv b)]"
    by simp
  have "net_run (map (Pair now) [Act a (StartsCall conv (su_id ?ub) ty), Act a (Settles 0 (WithMedia (Got ta) (Got ta))), Serve, Recv b]) n
      = receive now b (serve now (n\<lparr>cn_client := (cn_client n)(a := ha), cn_up := [(a, CallUser i conv (su_id ?ub) ty)]\<rparr>))"
    unfolding split net_run_append ha(1) by (simp add: net_run_def)
  also have "\<dots> = ?n" unfolding w(1) using ab h3(1) rooms by (subst received) (auto simp: h3_def)
  finally have run: "net_run (map (Pair now) [Act a (StartsCall conv (su_id ?ub) ty), Act a (Settles 0 (WithMedia (Got ta) (Got ta))), Serve, Recv b]) n = ?n" .
  have "pair_net a b ?n" "registered a b i ?n" using ab rooms w(3) by (auto simp: pair_net_def registered_def)
  then show ?thesis using run ha(2) h3(2) ab by (intro exI[of _ ?n] exI[of _ ?d]) (simp add: Let_def)
qed

text \<open>Accepting, up to the offer at the callee.\<close>

definition accept_and_offer :: "time \<Rightarrow> sock_id \<Rightarrow> sock_id \<Rightarrow> track list \<Rightarrow> jsstr \<Rightarrow> (time \<times> net_op) list" where
  "accept_and_offer now a b tb offer =
     [(now, Act b (AcceptsCall None))]
     @ [(now, Act b (Settles 0 (WithMedia (Got tb) (Got tb)))), (now, Serve), (now, Recv a)]
     @ [(now, Act a (Settles 0 (WithSdp offer))), (now, Serve), (now, Recv b)]"

lemma accepts:
  assumes net: "pair_net a b n" "registered a b i n"
    and ha: "awaits (cn_client n a) = []" "callStateRef (cn_client n a) = callState (cn_client n a)" "cs_status (callState (cn_client n a)) = C_calling"
      "cs_callId (callState (cn_client n a)) = Some i" "timers (cn_client n a) = [(ma, tt, x)]" "ringTimeoutRef (cn_client n a) = Some ma"
      "iceCandidateBuffer (cn_client n a) = []"
    and d: "in_callId d = i"
    and hb: "callStateRef (cn_client n b) = callState (cn_client n b)" "cs_status (callState (cn_client n b)) = C_incoming"
      "cs_incomingData (callState (cn_client n b)) = Some d" "timers (cn_client n b) = [(mb, tt', x')]" "ringTimeoutRef (cn_client n b) = Some mb"
      "awaits (cn_client n b) = []" "iceCandidateBuffer (cn_client n b) = []"
  defines "ka \<equiv> length (peers (cn_client n a))" and "kb \<equiv> length (peers (cn_client n b))"
  shows "\<exists>n'. net_run (accept_and_offer now a b tb offer) n = n' \<and> pair_net a b n' \<and> registered a b i n' \<and> cn_user n' = cn_user n
    \<and> in_call C_connecting i ka (Some offer) None [] [] False [] (cn_client n' a)
    \<and> in_call C_connecting i kb None None [] [] False [ApplyOffer kb offer] (cn_client n' b)"
proof -
  have ab: "a \<noteq> b" using net(1) by (simp add: pair_net_def)
  define b1 where "b1 = hook_step (acceptCall (props_of (cn_user n b)) None) (cn_client n b)"
  have b1: "rtc_emits b1 = []" "awaits b1 = [AcceptWithMedia d None]" "timers b1 = []" "iceCandidateBuffer b1 = []" "peers b1 = peers (cn_client n b)"
    using accepting[OF hb, of b1 "cn_user n b"] by (simp_all add: b1_def)
  obtain n1 where n1: "net_run [(now, Act b (AcceptsCall None))] n = n1" "pair_net a b n1" "registered a b i n1"
    "cn_client n1 = (cn_client n)(b := b1)" "cn_user n1 = cn_user n"
    using solo[OF net, of b1 b now "AcceptsCall None"] b1(1) by (auto simp: b1_def)
  define b2 where "b2 = hook_step (resume_await (props_of (cn_user n b)) now 0 (WithMedia (Got tb) (Got tb))) b1"
  have b2: "rtc_emits b2 = [AcceptCall i (in_callType d)]" "awaits b2 = []" "timers b2 = []" "callStateRef b2 = callState b2"
    "cs_status (callState b2) = C_connecting" "cs_callId (callState b2) = Some i" "iceCandidateBuffer b2 = []" "peers b2 = peers (cn_client n b)"
    using accepting_media[OF b1(2-4), of b2 "cn_user n b" now tb "Got tb"] b1(5) d by (simp_all add: b2_def)
  define a1 where "a1 = hook_step (onCallAccepted i) (cn_client n a)"
  have a1: "rtc_emits a1 = []" "in_call C_connecting i ka None None [] [] False [MakeOffer ka] a1"
    using accepted[OF ha, of a1] by (simp_all add: a1_def ka_def)
  obtain n2 where n2: "net_run [(now, Act b (Settles 0 (WithMedia (Got tb) (Got tb)))), (now, Serve), (now, Recv a)] n1 = n2" "pair_net a b n2"
    "registered a b i n2" "cn_client n2 = (cn_client n1)(b := b2, a := a1)" "cn_user n2 = cn_user n1"
    using hop[OF n1(2,3), of b a b2 now "Settles 0 (WithMedia (Got tb) (Got tb))" "AcceptCall i (in_callType d)" "CallAccepted i (in_callType d)" a1]
      b2(1) a1(1) n1(4,5) ab by (auto simp: b2_def a1_def passed_on_def)
  define a2 where "a2 = hook_step (resume_await (props_of (cn_user n a)) now 0 (WithSdp offer)) a1"
  have a2: "rtc_emits a2 = [OfferSdp i offer]" "in_call C_connecting i ka (Some offer) None [] [] False [] a2"
    using local_description[OF a1(2), of "OfferSdp i offer" offer a2 "cn_user n a" now] by (simp_all add: a2_def)
  define b3 where "b3 = hook_step (onSdpOffer i offer) b2"
  have b3: "rtc_emits b3 = []" "in_call C_connecting i kb None None [] [] False [ApplyOffer kb offer] b3"
    using offered[OF b2(2,4,5,6,3,7), of b3 offer] b2(8) by (simp_all add: b3_def kb_def)
  obtain n3 where n3: "net_run [(now, Act a (Settles 0 (WithSdp offer))), (now, Serve), (now, Recv b)] n2 = n3" "pair_net a b n3"
    "registered a b i n3" "cn_client n3 = (cn_client n2)(a := a2, b := b3)" "cn_user n3 = cn_user n2"
    using hop[OF n2(2,3), of a b a2 now "Settles 0 (WithSdp offer)" "OfferSdp i offer" "SdpOffer i offer" b3] a2(1) b3(1) n2(4,5) n1(4,5) ab
    by (auto simp: a2_def b3_def passed_on_def)
  have "net_run (accept_and_offer now a b tb offer) n = n3"
    unfolding accept_and_offer_def net_run_append n1(1) n2(1) n3(1) by simp
  then show ?thesis using n3 n2(5) n1(5) a2(2) b3(2) ab by (intro exI[of _ n3]) simp
qed

text \<open>Descriptions and candidates, some before and some after the other side has applied the description.\<close>

definition negotiate :: "time \<Rightarrow> sock_id \<Rightarrow> nat \<Rightarrow> sock_id \<Rightarrow> nat \<Rightarrow> jsstr \<Rightarrow> jsstr list \<Rightarrow> jsstr list \<Rightarrow> jsstr list \<Rightarrow> jsstr list \<Rightarrow> (time \<times> net_op) list" where
  "negotiate now a ka b kb answer cs1 cs2 ds1 ds2 =
     trickle now a ka b cs1 @ [(now, Act b (Settles 0 Done))] @ trickle now a ka b cs2
     @ [(now, Act b (Settles 0 (WithSdp answer))), (now, Serve), (now, Recv a)]
     @ trickle now b kb a ds1 @ [(now, Act a (Settles 0 Done))] @ trickle now b kb a ds2"

lemma negotiated:
  assumes net: "pair_net a b n" "registered a b i n"
    and ha: "in_call st i ka (Some offer) None [] [] False [] (cn_client n a)"
    and hb: "in_call st i kb None None [] [] False [ApplyOffer kb offer] (cn_client n b)"
    and cs: "list_all (\<lambda>c. c \<noteq> []) (cs1 @ cs2 @ ds1 @ ds2)"
  shows "\<exists>n'. net_run (negotiate now a ka b kb answer cs1 cs2 ds1 ds2) n = n' \<and> pair_net a b n' \<and> registered a b i n' \<and> cn_user n' = cn_user n
    \<and> in_call st i ka (Some offer) (Some answer) (ds1 @ ds2) [] True [] (cn_client n' a)
    \<and> in_call st i kb (Some answer) (Some offer) (cs1 @ cs2) [] True [] (cn_client n' b)"
proof -
  have ab: "a \<noteq> b" using net(1) by (simp add: pair_net_def)
  obtain n1 where n1: "net_run (trickle now a ka b cs1) n = n1" "pair_net a b n1" "registered a b i n1" "cn_user n1 = cn_user n"
    "in_call st i ka (Some offer) None [] [] False [] (cn_client n1 a)" "in_call st i kb None None [] cs1 False [ApplyOffer kb offer] (cn_client n1 b)"
    using trickled[OF net _ ha hb, of cs1 now] cs by auto
  define b1 where "b1 = hook_step (resume_await (props_of (cn_user n1 b)) now 0 Done) (cn_client n1 b)"
  have b1: "rtc_emits b1 = []" "in_call st i kb None (Some offer) cs1 [] True [MakeAnswer kb] b1"
    using remote_description[OF n1(6), of offer "[MakeAnswer kb]" b1 "cn_user n1 b" now] by (simp_all add: b1_def)
  obtain n2 where n2: "net_run [(now, Act b (Settles 0 Done))] n1 = n2" "pair_net a b n2" "registered a b i n2"
    "cn_client n2 = (cn_client n1)(b := b1)" "cn_user n2 = cn_user n1"
    using solo[OF n1(2,3), of b1 b now "Settles 0 Done"] b1(1) by (auto simp: b1_def)
  have c2: "in_call st i ka (Some offer) None [] [] False [] (cn_client n2 a)" "in_call st i kb None (Some offer) cs1 [] True [MakeAnswer kb] (cn_client n2 b)"
    using n1(5) b1(2) n2(4) ab by simp_all
  obtain n3 where n3: "net_run (trickle now a ka b cs2) n2 = n3" "pair_net a b n3" "registered a b i n3" "cn_user n3 = cn_user n2"
    "in_call st i ka (Some offer) None [] [] False [] (cn_client n3 a)" "in_call st i kb None (Some offer) (cs1 @ cs2) [] True [MakeAnswer kb] (cn_client n3 b)"
    using trickled[OF n2(2,3) _ c2, of cs2 now] cs by auto
  define b2 where "b2 = hook_step (resume_await (props_of (cn_user n3 b)) now 0 (WithSdp answer)) (cn_client n3 b)"
  have b2: "rtc_emits b2 = [AnswerSdp i answer]" "in_call st i kb (Some answer) (Some offer) (cs1 @ cs2) [] True [] b2"
    using local_description[OF n3(6), of "AnswerSdp i answer" answer b2 "cn_user n3 b" now] by (simp_all add: b2_def)
  define a1 where "a1 = hook_step (onSdpAnswer answer) (cn_client n3 a)"
  have a1: "rtc_emits a1 = []" "in_call st i ka (Some offer) None [] [] False [ApplyAnswer ka answer] a1"
    using answered[OF n3(5)] by (simp_all add: a1_def)
  obtain n4 where n4: "net_run [(now, Act b (Settles 0 (WithSdp answer))), (now, Serve), (now, Recv a)] n3 = n4" "pair_net a b n4" "registered a b i n4"
    "cn_client n4 = (cn_client n3)(b := b2, a := a1)" "cn_user n4 = cn_user n3"
    using hop[OF n3(2,3), of b a b2 now "Settles 0 (WithSdp answer)" "AnswerSdp i answer" "SdpAnswer i answer" a1] b2(1) a1(1)
    by (auto simp: b2_def a1_def passed_on_def)
  have c4: "in_call st i kb (Some answer) (Some offer) (cs1 @ cs2) [] True [] (cn_client n4 b)"
    "in_call st i ka (Some offer) None [] [] False [ApplyAnswer ka answer] (cn_client n4 a)"
    using b2(2) a1(2) n4(4) ab by simp_all
  obtain n5 where n5: "net_run (trickle now b kb a ds1) n4 = n5" "pair_net a b n5" "registered a b i n5" "cn_user n5 = cn_user n4"
    "in_call st i kb (Some answer) (Some offer) (cs1 @ cs2) [] True [] (cn_client n5 b)"
    "in_call st i ka (Some offer) None [] ds1 False [ApplyAnswer ka answer] (cn_client n5 a)"
    using trickled[OF n4(2,3) _ c4, of ds1 now] cs by auto
  define a2 where "a2 = hook_step (resume_await (props_of (cn_user n5 a)) now 0 Done) (cn_client n5 a)"
  have a2: "rtc_emits a2 = []" "in_call st i ka (Some offer) (Some answer) ds1 [] True [] a2"
    using remote_description[OF n5(6), of answer "[]" a2 "cn_user n5 a" now] by (simp_all add: a2_def)
  obtain n6 where n6: "net_run [(now, Act a (Settles 0 Done))] n5 = n6" "pair_net a b n6" "registered a b i n6"
    "cn_client n6 = (cn_client n5)(a := a2)" "cn_user n6 = cn_user n5"
    using solo[OF n5(2,3), of a2 a now "Settles 0 Done"] a2(1) by (auto simp: a2_def)
  have c6: "in_call st i kb (Some answer) (Some offer) (cs1 @ cs2) [] True [] (cn_client n6 b)"
    "in_call st i ka (Some offer) (Some answer) ds1 [] True [] (cn_client n6 a)"
    using n5(5) a2(2) n6(4) ab by simp_all
  obtain n7 where n7: "net_run (trickle now b kb a ds2) n6 = n7" "pair_net a b n7" "registered a b i n7" "cn_user n7 = cn_user n6"
    "in_call st i kb (Some answer) (Some offer) (cs1 @ cs2) [] True [] (cn_client n7 b)"
    "in_call st i ka (Some offer) (Some answer) (ds1 @ ds2) [] True [] (cn_client n7 a)"
    using trickled[OF n6(2,3) _ c6, of ds2 now] cs by auto
  have "net_run (negotiate now a ka b kb answer cs1 cs2 ds1 ds2) n = n7"
    unfolding negotiate_def net_run_append n1(1) n2(1) n3(1) n4(1) n5(1) n6(1) n7(1) ..
  then show ?thesis using n7 n6(5) n5(4) n4(5) n3(4) n2(5) n1(4) by (intro exI[of _ n7]) simp
qed


section \<open>Two tabs of the callee\<close>

lemma rung_timer:
  assumes "at_rest h" "h1 = hook_step (onIncomingCall p now d) h"
  shows "rtc_emits h1 = [] \<and> cs_status (callStateRef h1) = C_incoming
    \<and> timers h1 = [(nextTimer h, now + 45000, RingIn (in_callId d) (in_conversationId d))] \<and> rtc_emits (hook_step (fire p t (nextTimer h)) h1)
      = (if now + 45000 \<le> t \<and> rp_socket p then [RejectCall (in_callId d)] else [])"
  using assms by (simp add: onIncomingCall_def fire_def ring_in_def cleanup_call_def upd_tracks_def hook_defs split: option.split)

lemma rejected_call: "callState (hook_step (over_with r now) h) = ended_with r" "rtc_emits (hook_step (over_with r now) h) = []"
  "pcRef (hook_step (over_with r now) h) = None" "localStreamRef (hook_step (over_with r now) h) = None"
  by (simp_all add: over_with_def cleanup_call_def later_def clear_ring_def render_def upd_tracks_def upd_peer_def Let_def split: option.split)

lemma client_other [simp]: "s \<noteq> t \<Longrightarrow> cn_client (client_step s f n) t = cn_client n t"
  by (simp add: client_step_def Let_def)

text \<open>A second tab of the callee ends the accepted call.  Two tabs ring; the first accepts and the call goes on; nothing tells the
  second, whose ringing timer fires after 45 seconds and rejects the call.  The gateway does not know that it was accepted: it forgets the
  call and tells the caller that it was rejected, whose hook closes the connection and the microphone.\<close>

theorem second_tab_ends_call:
  fixes n :: "'r call_net"
  assumes "distinct [a, b, c]" "su_id (cn_user n a) \<noteq> 0" "cn_up n = []" "cn_down n = []" "su_id (cn_user n c) = su_id (cn_user n b)"
    "sockets_for (cn_world n) (ToRoom (UserRoom (su_id (cn_user n a)))) = [a]"
    "sockets_for (cn_world n) (ToRoom (UserRoom (su_id (cn_user n b)))) = [b, c]"
    "at_rest (cn_client n a)" "at_rest (cn_client n b)" "at_rest (cn_client n c)"
    "i = call_id (su_id (cn_user n a)) (su_id (cn_user n b)) now" "mget (w_calls (cn_world n)) i = None"
    "fst (rateLimit a CallLim ''callUser'' now (cn_world n))" "now + 45000 \<le> t"
  shows "\<exists>n1 n2. net_run (map (Pair now) [Act a (StartsCall conv (su_id (cn_user n b)) ty), Act a (Settles 0 (WithMedia (Got ta) (Got ta)))]
        @ map (Pair now) [Serve, Recv b, Recv c, Act b (AcceptsCall None), Act b (Settles 0 (WithMedia (Got tb) (Got tb))), Serve, Recv a]) n = n1
    \<and> cs_status (callState (cn_client n1 a)) = C_connecting \<and> cs_status (callState (cn_client n1 b)) = C_connecting
    \<and> net_run [(t, Act c (Fires (nextTimer (cn_client n c)))), (t, Serve), (t, Recv a)] n1 = n2
    \<and> callState (cn_client n2 a) = ended_with R_rejected \<and> pcRef (cn_client n2 a) = None \<and> localStreamRef (cn_client n2 a) = None
    \<and> mget (w_calls (cn_world n2)) i = None"
proof -
  let ?ua = "cn_user n a" and ?ub = "cn_user n b"
  have ne: "a \<noteq> b" "b \<noteq> a" "a \<noteq> c" "c \<noteq> a" "b \<noteq> c" "c \<noteq> b" using assms(1) by auto
  obtain ha where ha: "net_run (map (Pair now) [Act a (StartsCall conv (su_id ?ub) ty), Act a (Settles 0 (WithMedia (Got ta) (Got ta)))]) n
      = n\<lparr>cn_client := (cn_client n)(a := ha), cn_up := [(a, CallUser i conv (su_id ?ub) ty)]\<rparr>"
    "awaits ha = []" "callStateRef ha = callState ha" "cs_status (callState ha) = C_calling" "cs_callId (callState ha) = Some i"
    "\<exists>m. timers ha = [(m, now + 45000, RingOut i conv)] \<and> ringTimeoutRef ha = Some m" "iceCandidateBuffer ha = []"
    using calls_out[of a b n i "su_id ?ub" now conv ty ta] assms(1-3,8,11) by auto
  obtain w name av where w: "serve now (n\<lparr>cn_client := (cn_client n)(a := ha), cn_up := [(a, CallUser i conv (su_id ?ub) ty)]\<rparr>)
      = n\<lparr>cn_client := (cn_client n)(a := ha), cn_up := [], cn_world := w,
          cn_down := map (\<lambda>s. (s, IncomingCall i conv (su_id ?ua) name av ty)) (sockets_for w (ToRoom (UserRoom (su_id ?ub))))\<rparr>"
    "w_sockets w = w_sockets (cn_world n)"
    "mget (w_calls w) i = Some \<lparr>call_callerId = su_id ?ua, call_calleeId = su_id ?ub, call_conversationId = conv, call_callType = ty\<rparr>"
    using served_call[OF assms(12,13,4), where cl = "(cn_client n)(a := ha)" and conv = conv and ub = "su_id ?ub" and ty = ty] by blast
  have rooms: "sockets_for w = sockets_for (cn_world n)" by (rule ext) (simp add: sockets_for_def w(2))
  let ?d = "\<lparr>in_callId = i, in_conversationId = conv, in_callerId = su_id ?ua, in_callerName = name, in_callerAvatar = av, in_callType = ty\<rparr>"
  let ?pb = "props_of ?ub"
  have pc: "props_of (cn_user n c) = ?pb" using assms(5) by (simp add: props_of_def)
  define hb where "hb = hook_step (onIncomingCall ?pb now ?d) (cn_client n b)"
  define hc where "hc = hook_step (onIncomingCall ?pb now ?d) (cn_client n c)"
  obtain mb where hb: "rtc_emits hb = []" "callStateRef hb = callState hb" "cs_status (callState hb) = C_incoming" "cs_incomingData (callState hb) = Some ?d"
    "timers hb = [(mb, now + 45000, RingIn i conv)]" "ringTimeoutRef hb = Some mb" "awaits hb = []" "iceCandidateBuffer hb = []"
    using rung[OF assms(9) refl, of hb ?ub now i conv "su_id ?ua" name av ty] by (auto simp: hb_def)
  have hc: "rtc_emits hc = []" "rtc_emits (hook_step (fire ?pb t (nextTimer (cn_client n c))) hc) = [RejectCall i]"
    using rung_timer[OF assms(10), of hc ?pb now ?d t] assms(14) by (simp_all add: hc_def props_of_def)
  define b1 where "b1 = hook_step (acceptCall ?pb None) hb"
  have b1: "rtc_emits b1 = []" "awaits b1 = [AcceptWithMedia ?d None]" "timers b1 = []" "iceCandidateBuffer b1 = []"
    using accepting[OF hb(2-8), of b1 ?ub] by (simp_all add: b1_def)
  define b2 where "b2 = hook_step (resume_await ?pb now 0 (WithMedia (Got tb) (Got tb))) b1"
  have b2: "rtc_emits b2 = [AcceptCall i ty]" "cs_status (callState b2) = C_connecting"
    using accepting_media[OF b1(2-4), of b2 ?ub now tb "Got tb"] by (simp_all add: b2_def)
  define a1 where "a1 = hook_step (onCallAccepted i) ha"
  obtain ma where ma: "timers ha = [(ma, now + 45000, RingOut i conv)]" "ringTimeoutRef ha = Some ma" using ha(6) by blast
  have a1: "rtc_emits a1 = []" "cs_status (callState a1) = C_connecting"
    using accepted[OF ha(2-5) ma ha(7), of a1] by (simp_all add: a1_def in_call_def)
  let ?w1 = "emit (ToRoom (UserRoom (su_id ?ua))) (Calling (CallAccepted i ty)) w"
  let ?n1 = "n\<lparr>cn_client := (cn_client n)(a := a1, b := b2, c := hc), cn_up := [], cn_world := ?w1, cn_down := []\<rparr>"
  have run1: "net_run (map (Pair now) [Serve, Recv b, Recv c, Act b (AcceptsCall None), Act b (Settles 0 (WithMedia (Got tb) (Got tb))), Serve, Recv a])
      (n\<lparr>cn_client := (cn_client n)(a := ha), cn_up := [(a, CallUser i conv (su_id ?ub) ty)]\<rparr>) = ?n1"
  proof -
    have "net_run (map (Pair now) [Serve, Recv b, Recv c, Act b (AcceptsCall None), Act b (Settles 0 (WithMedia (Got tb) (Got tb)))])
        (n\<lparr>cn_client := (cn_client n)(a := ha), cn_up := [(a, CallUser i conv (su_id ?ub) ty)]\<rparr>)
      = n\<lparr>cn_client := (cn_client n)(a := ha, b := b2, c := hc), cn_up := [(b, AcceptCall i ty)], cn_world := w, cn_down := []\<rparr>"
      using ne assms(7) hb(1) hc(1) b1(1) b2(1) w(1)
      by (simp add: net_run_def receive_def client_step_def rooms pc Let_def flip: hb_def hc_def) (simp add: fun_upd_twist flip: b1_def b2_def)
    moreover have "receive now a (serve now (n\<lparr>cn_client := (cn_client n)(a := ha, b := b2, c := hc), cn_up := [(b, AcceptCall i ty)], cn_world := w,
        cn_down := []\<rparr>)) = ?n1"
      using ne assms(6) a1(1) w(3)
      by (simp add: serve_def handleCallAccept_def receive_def client_step_def rooms Let_def flip: a1_def)
         (simp add: emit_def receive_def client_step_def Let_def fun_upd_twist flip: a1_def)
    ultimately show ?thesis by (simp add: net_run_def)
  qed
  let ?c1 = "hook_step (fire ?pb t (nextTimer (cn_client n c))) hc" and ?a2 = "hook_step (over_with R_rejected t) a1"
  let ?w2 = "emit (ToRoom (UserRoom (su_id ?ua))) (Calling (CallRejected i)) (?w1\<lparr>w_calls := mdelete i (w_calls ?w1)\<rparr>)"
  let ?n2 = "?n1\<lparr>cn_client := (cn_client n)(a := ?a2, b := b2, c := ?c1), cn_world := ?w2\<rparr>"
  have "net_run [(t, Act c (Fires (nextTimer (cn_client n c)))), (t, Serve), (t, Recv a)] ?n1 = ?n2"
    using ne assms(6) hc(2) w(3) rejected_call(2)[of R_rejected t a1]
    by (simp add: net_run_def client_step_def serve_def handleCallReject_def receive_def client_step_def rooms pc Let_def emit_def fun_upd_twist)
  moreover have "mget (w_calls ?w2) i = None" by (simp add: emit_def)
  ultimately show ?thesis unfolding net_run_append ha(1) run1 using assms(1) a1(2) b2(2) rejected_call by (intro exI[of _ ?n1] exI[of _ ?n2]) simp
qed

section \<open>Instances\<close>

text \<open>User 2 on socket 21, user 1 on sockets 11 and perhaps 12.\<close>

definition demo_net :: "(sock_id \<times> sock) list \<Rightarrow> (jsstr \<Rightarrow> jsstr option) call_net" where
  "demo_net ss = \<lparr>cn_world = demo_start\<lparr>w_sockets := ss\<rparr>, cn_client = (\<lambda>_. rtc_init),
     cn_user = (\<lambda>s. \<lparr>su_id = (if s = [21] then 2 else 1), su_nickname = [], su_email = None, su_role = None\<rparr>), cn_up = [], cn_down = []\<rparr>"

definition demo_track :: track where
  "demo_track = \<lparr>tk_video = False, tk_enabled = True, tk_live = True, tk_screenLabel = False\<rparr>"

lemma demo_rest: "at_rest (cn_client (demo_net ss) s)" "peers (cn_client (demo_net ss) s) = []" "nextTimer (cn_client (demo_net ss) s) = 0"
  by (simp_all add: demo_net_def at_rest_def rtc_init_def)

lemma demo_rooms:
  "sockets_for (cn_world (demo_net ss)) (ToRoom r) = map fst (filter (\<lambda>(s, k). r \<in> set (k_rooms k)) ss)"
  "w_calls (cn_world (demo_net ss)) = []" "su_id (cn_user (demo_net ss) s) = (if s = [21] then 2 else 1)" "cn_up (demo_net ss) = []" "cn_down (demo_net ss) = []"
  by (simp_all add: demo_net_def sockets_for_def receives_def start_world_def)

lemma demo_rate:
  "fst (rateLimit [21] CallLim ''callUser'' now (cn_world (demo_net (([21], demo_sock 21 2 None (Some [2])) # ss))))"
  by (simp add: demo_net_def start_world_def rateLimit_def demo_sock_def isAllowed_def new_limiter_def lim_hits_def)


theorem second_tab_ends_call_witness:
  "\<exists>es. callState (cn_client (net_run es (demo_net [([21], demo_sock 21 2 None (Some [2])), ([11], demo_sock 11 1 (Some [1]) None),
       ([12], demo_sock 12 1 (Some [1]) None)])) [21]) = ended_with R_rejected"
proof -
  let ?n = "demo_net [([21], demo_sock 21 2 None (Some [2])), ([11], demo_sock 11 1 (Some [1]) None), ([12], demo_sock 12 1 (Some [1]) None)]"
  have "\<exists>n1 n2. net_run (map (Pair 0) [Act [21] (StartsCall 1 (su_id (cn_user ?n [11])) Audio), Act [21] (Settles 0 (WithMedia (Got [demo_track]) (Got [demo_track])))]
        @ map (Pair 0) [Serve, Recv [11], Recv [12], Act [11] (AcceptsCall None), Act [11] (Settles 0 (WithMedia (Got []) (Got []))), Serve, Recv [21]]) ?n = n1
    \<and> net_run [(45000, Act [12] (Fires (nextTimer (cn_client ?n [12])))), (45000, Serve), (45000, Recv [21])] n1 = n2
    \<and> callState (cn_client n2 [21]) = ended_with R_rejected"
    using second_tab_ends_call[where a = "[21]" and b = "[11]" and c = "[12]" and n = ?n and now = 0 and t = 45000 and conv = 1 and ty = Audio
        and ta = "[demo_track]" and tb = "[]", OF _ _ _ _ _ _ _ demo_rest(1) demo_rest(1) demo_rest(1) refl _ demo_rate]
    unfolding demo_rooms by (simp add: demo_sock_def demo_rooms)
  then obtain es es' where "callState (cn_client (net_run es' (net_run es ?n)) [21]) = ended_with R_rejected" by blast
  then show ?thesis by (intro exI[of _ "es @ es'"]) (simp add: net_run_append)
qed

end
