(* ===== verification/E2ESession.thy ===== *)
theory E2ESession
  imports CryptoDb
begin

text \<open>
  End-to-end encryption of messages, \<open>client/src/hooks/useE2E.ts\<close>: direct messages over a Double Ratchet session per pair of
  users, or per pair of devices with one envelope per device, and group messages over sender keys.  The primitives in the WASM
  worker (X3DH, ratchet, sender keys) are a parameter; each takes a seed for the randomness it draws, and \<open>None\<close> is a rejected
  call.  What the server answers is a parameter too.  The code runs the operations of one session under a lock, one after the
  other, so that each is one function here.
\<close>

type_synonym seed = nat

record wasm =
  generateDhKeypair :: "seed \<Rightarrow> bytes"
  generateSigningKeypair :: "seed \<Rightarrow> bytes"
  ed25519_sign :: "bytes \<Rightarrow> bytes \<Rightarrow> bytes"
  encryptKeyWithPin :: "seed \<Rightarrow> bytes \<Rightarrow> bytes \<Rightarrow> bytes"
  decryptKeyWithPin :: "bytes \<Rightarrow> bytes \<Rightarrow> bytes option"
  x3dhSend :: "seed \<Rightarrow> bytes \<Rightarrow> bytes \<Rightarrow> bytes option"
  x3dhReceive :: "bytes \<Rightarrow> bytes \<Rightarrow> bytes \<Rightarrow> bytes \<Rightarrow> bytes option"
  ratchetInitSender :: "seed \<Rightarrow> bytes \<Rightarrow> bytes \<Rightarrow> bytes option"
  ratchetInitReceiver :: "bytes \<Rightarrow> bytes \<Rightarrow> bytes option"
  ratchetEncrypt :: "seed \<Rightarrow> bytes \<Rightarrow> bytes \<Rightarrow> (bytes \<times> bytes) option"
  ratchetDecrypt :: "seed \<Rightarrow> bytes \<Rightarrow> bytes \<Rightarrow> (bytes \<times> bytes) option"
  groupSenderGenerate :: "seed \<Rightarrow> bytes \<times> bytes"
  groupSenderEncrypt :: "bytes \<Rightarrow> bytes \<Rightarrow> (bytes \<times> bytes) option"
  groupReceiverFromDist :: "bytes \<Rightarrow> bytes option"
  groupReceiverDecrypt :: "bytes \<Rightarrow> bytes \<Rightarrow> (bytes \<times> bytes) option"

section \<open>Bundles\<close>

definition V2_DM :: jsstr where "V2_DM = js ''v2:''"
definition V2_GROUP :: jsstr where "V2_GROUP = js ''v2g:''"
definition V3_DM :: jsstr where "V3_DM = js ''v3:''"
definition INIT_FLAG :: nat where "INIT_FLAG = 1"

definition buildBundle :: "identity_keys \<Rightarrow> bytes option" where
  "buildBundle k =
     Option.bind (array_set (replicate 161 0) (ikSignPub k) 0) (\<lambda>b.
     Option.bind (array_set b (id_ikDhPub k) 32) (\<lambda>b.
     Option.bind (array_set b (id_spkPub k) 64) (\<lambda>b.
     Option.bind (array_set b (id_spkSig k) 96) (\<lambda>b. Some (b[160 := 0])))))"

definition buildDeviceBundle :: "bytes \<Rightarrow> device_keys \<Rightarrow> bytes option" where
  "buildDeviceBundle signPub dk =
     Option.bind (array_set (replicate 161 0) signPub 0) (\<lambda>b.
     Option.bind (array_set b (ikDhPub dk) 32) (\<lambda>b.
     Option.bind (array_set b (spkPub dk) 64) (\<lambda>b.
     Option.bind (array_set b (spkSig dk) 96) (\<lambda>b. Some (b[160 := 0])))))"

definition generateIdentityKeys :: "wasm \<Rightarrow> seed \<Rightarrow> seed \<Rightarrow> seed \<Rightarrow> identity_keys" where
  "generateIdentityKeys W r1 r2 r3 =
     (let dhKp = generateDhKeypair W r1; signKp = generateSigningKeypair W r2; spkKp = generateDhKeypair W r3;
          seed = js_slice 0 32 signKp; pub = js_slice 32 64 spkKp
      in \<lparr>ikSignSeed = seed, ikSignPub = js_slice 32 64 signKp, id_ikDhSecret = js_slice 0 32 dhKp, id_ikDhPub = js_slice 32 64 dhKp,
          id_spkSecret = js_slice 0 32 spkKp, id_spkPub = pub, id_spkSig = ed25519_sign W seed pub\<rparr>)"

text \<open>\<open>fetchBundle\<close>: the text the server returned, decoded.\<close>

definition fetchBundle :: "(id \<Rightarrow> jsstr option) \<Rightarrow> id \<Rightarrow> bytes option" where
  "fetchBundle keys userId = Option.bind (keys userId) base64urlToBuf"

section \<open>Ratchet sessions\<close>

text \<open>\<open>Array.prototype.sort\<close> without a comparison function orders numbers by their text.\<close>

fun str_less :: "jsstr \<Rightarrow> jsstr \<Rightarrow> bool" where
  "str_less [] t = (t \<noteq> [])"
| "str_less (a # s) [] = False"
| "str_less (a # s) (b # t) = (a < b \<or> a = b \<and> str_less s t)"

definition pairKey :: "id \<Rightarrow> id \<Rightarrow> jsstr" where
  "pairKey a b =
     (let x = int_str a; y = int_str b
      in if str_less y x then y @ js '':'' @ x else x @ js '':'' @ y)"

definition devicePairKey :: "id \<Rightarrow> id \<Rightarrow> jsstr" where
  "devicePairKey a b = js ''d'' @ int_str (min a b) @ js '':d'' @ int_str (max a b)"

text \<open>A new session towards the owner of a bundle, with the 65 bytes that the first message carries.\<close>

definition start_session :: "wasm \<Rightarrow> seed \<Rightarrow> bytes \<Rightarrow> bytes option \<Rightarrow> (bytes \<times> bytes) option" where
  "start_session W rnd ik bundle =
     Option.bind bundle (\<lambda>b.
     Option.bind (x3dhSend W rnd ik b) (\<lambda>result.
       map_option (\<lambda>sb. (sb, js_slice 32 97 result)) (ratchetInitSender W rnd (js_slice 0 32 result) (js_slice 64 96 b))))"

definition dr_wire :: "bytes option \<Rightarrow> bytes \<Rightarrow> bytes" where
  "dr_wire initMsg ct =
     (case initMsg of
        None \<Rightarrow> 0 # ct
      | Some i \<Rightarrow> INIT_FLAG # i @ replicate (65 - length i) 0 @ ct)"

definition ratchet_send ::
    "wasm \<Rightarrow> seed \<Rightarrow> jsstr \<Rightarrow> jsstr \<Rightarrow> bytes \<Rightarrow> bytes option \<Rightarrow> bytes \<Rightarrow> crypto_db \<Rightarrow> jsstr option \<times> crypto_db" where
  "ratchet_send W rnd prefix ck ik bundle plaintext db =
     (case (case loadRatchetSession ck db of
              Some s \<Rightarrow> Some (s, None)
            | None \<Rightarrow> map_option (\<lambda>(s, i). (s, Some i)) (start_session W rnd ik bundle)) of
        None \<Rightarrow> (None, db)
      | Some (s, initMsg) \<Rightarrow>
          (case ratchetEncrypt W rnd s plaintext of
             None \<Rightarrow> (None, db)
           | Some (ct, s') \<Rightarrow> (Some (prefix @ bufToBase64url (dr_wire initMsg ct)), saveRatchetSession ck s' db)))"

definition drEncrypt :: "wasm \<Rightarrow> seed \<Rightarrow> (id \<Rightarrow> jsstr option) \<Rightarrow> identity_keys \<Rightarrow> id \<Rightarrow> id \<Rightarrow> bytes \<Rightarrow> crypto_db \<Rightarrow> jsstr option \<times> crypto_db" where
  "drEncrypt W rnd keys ident myId peerId plaintext db =
     ratchet_send W rnd V2_DM (pairKey myId peerId) (id_ikDhSecret ident) (fetchBundle keys peerId) plaintext db"

text \<open>\<open>fetchDeviceBundle\<close> gives \<open>null\<close> on every error; the caller then throws.\<close>

definition drDeviceEncrypt :: "wasm \<Rightarrow> seed \<Rightarrow> (id \<Rightarrow> bytes option) \<Rightarrow> identity_keys \<Rightarrow> id \<Rightarrow> id \<Rightarrow> bytes \<Rightarrow> crypto_db \<Rightarrow> jsstr option \<times> crypto_db" where
  "drDeviceEncrypt W rnd bundles ident senderDeviceId recipientDeviceId plaintext db =
     ratchet_send W rnd V3_DM (devicePairKey senderDeviceId recipientDeviceId) (id_ikDhSecret ident) (bundles recipientDeviceId) plaintext db"

text \<open>Receiving: an exception, \<open>null\<close> when there is no session, or the plaintext.\<close>

datatype opened = Threw | Null | Plain bytes

definition open_with :: "wasm \<Rightarrow> seed \<Rightarrow> jsstr \<Rightarrow> bytes option \<Rightarrow> bytes \<Rightarrow> crypto_db \<Rightarrow> opened \<times> crypto_db" where
  "open_with W rnd ck session ct db =
     (case Option.bind session (\<lambda>s. ratchetDecrypt W rnd s ct) of
        None \<Rightarrow> (Threw, db)
      | Some (pt, s') \<Rightarrow> (Plain pt, saveRatchetSession ck s' db))"

definition has_init :: "bytes \<Rightarrow> bool" where
  "has_init wire \<longleftrightarrow> wire \<noteq> [] \<and> odd (hd wire)"

definition receiver_session :: "wasm \<Rightarrow> bytes \<Rightarrow> bytes \<Rightarrow> bytes \<Rightarrow> bytes option" where
  "receiver_session W ik spk initMsg =
     Option.bind (x3dhReceive W ik spk [] initMsg) (\<lambda>sk. ratchetInitReceiver W sk spk)"

definition ratchet_receive ::
    "wasm \<Rightarrow> seed \<Rightarrow> jsstr \<Rightarrow> jsstr \<Rightarrow> (bytes \<Rightarrow> bytes option) \<Rightarrow> jsstr \<Rightarrow> crypto_db \<Rightarrow> opened \<times> crypto_db" where
  "ratchet_receive W rnd prefix ck receiver content db =
     (case base64urlToBuf (drop (length prefix) content) of
        None \<Rightarrow> (Threw, db)
      | Some wire \<Rightarrow>
          (let session = loadRatchetSession ck db
           in if has_init wire then
                (case open_with W rnd ck session (drop 66 wire) db of
                   (Threw, _) \<Rightarrow> open_with W rnd ck (receiver (js_slice 1 66 wire)) (drop 66 wire) db
                 | r \<Rightarrow> r)
              else if session = None then (Null, db)
              else open_with W rnd ck session (drop 1 wire) db))"

definition drDecrypt :: "wasm \<Rightarrow> seed \<Rightarrow> identity_keys \<Rightarrow> id \<Rightarrow> id \<Rightarrow> jsstr \<Rightarrow> crypto_db \<Rightarrow> opened \<times> crypto_db" where
  "drDecrypt W rnd ident myId senderId content db =
     ratchet_receive W rnd V2_DM (pairKey myId senderId) (receiver_session W (id_ikDhSecret ident) (id_spkSecret ident)) content db"

text \<open>Without device keys, reading their secrets throws.\<close>

definition drDeviceDecrypt :: "wasm \<Rightarrow> seed \<Rightarrow> device_keys option \<Rightarrow> id \<Rightarrow> id \<Rightarrow> jsstr \<Rightarrow> crypto_db \<Rightarrow> opened \<times> crypto_db" where
  "drDeviceDecrypt W rnd dk senderDeviceId recipientDeviceId wireStr db =
     ratchet_receive W rnd V3_DM (devicePairKey senderDeviceId recipientDeviceId)
       (\<lambda>i. Option.bind dk (\<lambda>k. receiver_session W (ikDhSecret k) (spkSecret k) i)) wireStr db"

section \<open>Group keys\<close>

text \<open>The distribution message of a sender key, sealed for one member.\<close>

definition sealDistMsg :: "wasm \<Rightarrow> webcrypto \<Rightarrow> seed \<Rightarrow> bytes \<Rightarrow> identity_keys \<Rightarrow> bytes \<Rightarrow> bytes \<Rightarrow> bytes option" where
  "sealDistMsg W w rnd iv ident distMsg recipientBundle =
     Option.bind (x3dhSend W rnd (id_ikDhSecret ident) recipientBundle) (\<lambda>result.
       let ct = gcm_encrypt w (js_slice 0 32 result) iv distMsg
       in Option.bind (array_set (replicate (65 + 12 + length ct) 0) (js_slice 32 97 result) 0) (\<lambda>env.
          Option.bind (array_set env iv 65) (\<lambda>env. array_set env ct 77)))"

definition openDistMsg :: "wasm \<Rightarrow> webcrypto \<Rightarrow> identity_keys \<Rightarrow> bytes \<Rightarrow> bytes option" where
  "openDistMsg W w ident envelope =
     Option.bind (x3dhReceive W (id_ikDhSecret ident) (id_spkSecret ident) [] (js_slice 0 65 envelope)) (\<lambda>sk.
       gcm_decrypt w sk (js_slice 65 77 envelope) (drop 77 envelope))"

text \<open>\<open>doDistribute\<close> stores a new sender key and gives the sealed copies to post; a member without a usable bundle is skipped.\<close>

definition dist_payload ::
    "wasm \<Rightarrow> webcrypto \<Rightarrow> (id \<Rightarrow> seed) \<Rightarrow> (id \<Rightarrow> bytes) \<Rightarrow> (id \<Rightarrow> jsstr option) \<Rightarrow> identity_keys \<Rightarrow> bytes \<Rightarrow> id \<Rightarrow> (id \<times> jsstr) list" where
  "dist_payload W w rnds ivs keys ident distMsg memberId =
     (case Option.bind (fetchBundle keys memberId) (sealDistMsg W w (rnds memberId) (ivs memberId) ident distMsg) of
        None \<Rightarrow> [] | Some env \<Rightarrow> [(memberId, bufToBase64url env)])"

definition doDistribute ::
    "wasm \<Rightarrow> webcrypto \<Rightarrow> seed \<Rightarrow> (id \<Rightarrow> seed) \<Rightarrow> (id \<Rightarrow> bytes) \<Rightarrow> (id \<Rightarrow> jsstr option) \<Rightarrow> identity_keys \<Rightarrow> id \<Rightarrow> id list \<Rightarrow> crypto_db
     \<Rightarrow> (id \<times> jsstr) list \<times> crypto_db" where
  "doDistribute W w rnd rnds ivs keys ident conversationId memberUserIds db =
     (let (senderBytes, distMsg) = groupSenderGenerate W rnd
      in (concat (map (dist_payload W w rnds ivs keys ident distMsg) memberUserIds), saveGroupSender conversationId senderBytes db))"

text \<open>One entry of \<open>sender-keys/for-me\<close> during the prefetch; the second component asks the sender for a new distribution.\<close>

record sender_entry =
  e_senderId :: id
  e_version :: int
  e_encryptedKey :: "jsstr option"

definition prefetch_entry :: "wasm \<Rightarrow> webcrypto \<Rightarrow> identity_keys \<Rightarrow> id \<Rightarrow> id \<Rightarrow> sender_entry \<Rightarrow> crypto_db \<Rightarrow> bool \<times> id list \<times> crypto_db" where
  "prefetch_entry W w ident me conversationId e db =
     (if e_version e \<noteq> 2 \<or> \<not> truthy (e_encryptedKey e) then (False, [], db)
      else if loadGroupReceiver conversationId (e_senderId e) db \<noteq> None then (e_senderId e = me, [], db)
      else
        (case base64urlToBuf (the (e_encryptedKey e)) of
           None \<Rightarrow> (False, [], db)
         | Some env \<Rightarrow>
             (case openDistMsg W w ident env of
                None \<Rightarrow> (False, if e_senderId e \<noteq> me then [e_senderId e] else [], db)
              | Some distMsg \<Rightarrow>
                  (case groupReceiverFromDist W distMsg of
                     None \<Rightarrow> (False, [], db)
                   | Some r \<Rightarrow> (e_senderId e = me, [], saveGroupReceiver conversationId (e_senderId e) r db)))))"

fun prefetch_all :: "wasm \<Rightarrow> webcrypto \<Rightarrow> identity_keys \<Rightarrow> id \<Rightarrow> id \<Rightarrow> sender_entry list \<Rightarrow> crypto_db \<Rightarrow> bool \<times> id list \<times> crypto_db" where
  "prefetch_all W w ident me conversationId [] db = (False, [], db)"
| "prefetch_all W w ident me conversationId (e # es) db =
     (case prefetch_entry W w ident me conversationId e db of
        (mine, failed, db) \<Rightarrow>
          (case prefetch_all W w ident me conversationId es db of (mine', failed', db) \<Rightarrow> (mine \<or> mine', failed @ failed', db)))"

section \<open>What the primitives promise\<close>

text \<open>The public halves of the key pairs; the public ratchet key that a seed draws; and when one session may send to another with nothing
  under way between them, where the ratchet keys that the two have used are within a set.\<close>

record key_theory =
  dh_pub :: "bytes \<Rightarrow> bytes"
  sign_pub :: "bytes \<Rightarrow> bytes"
  drawn :: "seed \<Rightarrow> bytes"
  ready :: "bytes set \<Rightarrow> bytes \<Rightarrow> bytes \<Rightarrow> bool"

definition key32 :: "bytes \<Rightarrow> bool" where
  "key32 s \<longleftrightarrow> length s = 32 \<and> is_bytes s"

definition key_laws :: "wasm \<Rightarrow> key_theory \<Rightarrow> bool" where
  "key_laws W K \<longleftrightarrow>
     (\<forall>s. key32 s \<longrightarrow> key32 (dh_pub K s) \<and> key32 (sign_pub K s))
     \<and> (\<forall>s m. key32 s \<and> is_bytes m \<longrightarrow> length (ed25519_sign W s m) = 64 \<and> is_bytes (ed25519_sign W s m))
     \<and> (\<forall>r. \<exists>s. generateDhKeypair W r = s @ dh_pub K s \<and> key32 s)
     \<and> (\<forall>r. \<exists>s. generateSigningKeypair W r = s @ sign_pub K s \<and> key32 s)"

text \<open>A bundle whose prekey is signed by its owner.\<close>

definition valid_bundle :: "wasm \<Rightarrow> key_theory \<Rightarrow> bytes \<Rightarrow> bytes \<Rightarrow> bytes \<Rightarrow> bool" where
  "valid_bundle W K ik spk b \<longleftrightarrow>
     key32 ik \<and> key32 spk \<and> (\<exists>seed. key32 seed \<and> b = sign_pub K seed @ dh_pub K ik @ dh_pub K spk @ ed25519_sign W seed (dh_pub K spk) @ [0])"

text \<open>Both sides of X3DH agree on the secret that the initial message leads to.\<close>

definition x3dh_laws :: "wasm \<Rightarrow> key_theory \<Rightarrow> bool" where
  "x3dh_laws W K \<longleftrightarrow>
     (\<forall>rnd a ik spk b. key32 a \<and> valid_bundle W K ik spk b \<longrightarrow>
        (\<exists>sk initMsg. x3dhSend W rnd a b = Some (sk @ initMsg) \<and> length sk = 32 \<and> is_bytes sk \<and> length initMsg = 65
           \<and> is_bytes initMsg \<and> x3dhReceive W ik spk [] initMsg = Some sk))"

text \<open>A ratchet: the two ends of a new session are ready in one direction; what one that is ready sends the other opens, and then they are
  ready in both directions unless the receiver draws a ratchet key that the session has had.\<close>

definition ratchet_laws :: "wasm \<Rightarrow> key_theory \<Rightarrow> bool" where
  "ratchet_laws W K \<longleftrightarrow>
     (\<forall>rnd sk spk. key32 sk \<and> key32 spk \<longrightarrow>
        (\<exists>s r. ratchetInitSender W rnd sk (dh_pub K spk) = Some s \<and> ratchetInitReceiver W sk spk = Some r
           \<and> ready K {drawn K rnd, dh_pub K spk} s r))
     \<and> (\<forall>rnd rnd' U s r p. ready K U s r \<and> is_bytes p \<longrightarrow>
          (\<exists>c s' r'. ratchetEncrypt W rnd s p = Some (c, s') \<and> is_bytes c \<and> ratchetDecrypt W rnd' r c = Some (p, r')
             \<and> (drawn K rnd' \<notin> U \<longrightarrow> ready K (insert (drawn K rnd') U) s' r' \<and> ready K (insert (drawn K rnd') U) r' s')))
     \<and> (\<forall>U V s r. ready K U s r \<and> U \<subseteq> V \<longrightarrow> ready K V s r)"

lemma x3dh_lawsD:
  assumes "x3dh_laws W K" "key32 a" "valid_bundle W K ik spk b"
  obtains sk initMsg where "x3dhSend W rnd a b = Some (sk @ initMsg)" "length sk = 32" "is_bytes sk" "length initMsg = 65"
    "is_bytes initMsg" "x3dhReceive W ik spk [] initMsg = Some sk"
  using assms unfolding x3dh_laws_def by blast

lemma ratchet_initD:
  assumes "ratchet_laws W K" "length sk = 32" "is_bytes sk" "key32 spk"
  obtains s r where "ratchetInitSender W rnd sk (dh_pub K spk) = Some s" "ratchetInitReceiver W sk spk = Some r"
    "ready K {drawn K rnd, dh_pub K spk} s r"
proof -
  have "key32 sk" using assms(2,3) by (simp add: key32_def)
  then show thesis using assms(1)[unfolded ratchet_laws_def, THEN conjunct1, rule_format, of sk spk rnd] assms(4) that by blast
qed

lemma ratchet_stepD:
  assumes "ratchet_laws W K" "ready K U s r" "is_bytes p"
  obtains c s' r' where "ratchetEncrypt W rnd s p = Some (c, s')" "is_bytes c" "ratchetDecrypt W rnd' r c = Some (p, r')"
    "drawn K rnd' \<notin> U \<longrightarrow> ready K (insert (drawn K rnd') U) s' r' \<and> ready K (insert (drawn K rnd') U) r' s'"
  using assms(1)[unfolded ratchet_laws_def, THEN conjunct2, THEN conjunct1, rule_format, of U s r p rnd rnd'] assms(2,3) that by blast

lemma ready_mono: "ratchet_laws W K \<Longrightarrow> ready K U s r \<Longrightarrow> U \<subseteq> V \<Longrightarrow> ready K V s r"
  unfolding ratchet_laws_def by (elim conjE) blast

section \<open>Names of sessions\<close>

lemma str_less_asym: "str_less s t \<Longrightarrow> \<not> str_less t s"
proof (induction s t rule: str_less.induct)
  case (1 t)
  then show ?case by (cases t) auto
qed auto

lemma str_less_total: "s \<noteq> t \<Longrightarrow> str_less s t \<or> str_less t s"
proof (induction s t rule: str_less.induct)
  case (1 t)
  then show ?case by (cases t) auto
qed auto

lemma pairKey_sym: "pairKey a b = pairKey b a"
  using str_less_asym str_less_total[of "int_str a" "int_str b"] by (auto simp: pairKey_def Let_def)

lemma devicePairKey_sym: "devicePairKey a b = devicePairKey b a"
  by (simp add: devicePairKey_def min.commute max.commute)

lemma load_save_ratchet [simp]:
  "loadRatchetSession k (saveRatchetSession k' s db) = (if k = k' then Some s else loadRatchetSession k db)"
  by (simp add: loadRatchetSession_def saveRatchetSession_def as_array_def)

section \<open>One message of a session\<close>

text \<open>Neither side has a session yet, or their sessions may send to each other.\<close>

definition in_step :: "key_theory \<Rightarrow> bytes set \<Rightarrow> jsstr \<Rightarrow> crypto_db \<Rightarrow> crypto_db \<Rightarrow> bool" where
  "in_step K U ck db db' \<longleftrightarrow>
     (case (loadRatchetSession ck db, loadRatchetSession ck db') of
        (None, None) \<Rightarrow> True
      | (Some s, Some r) \<Rightarrow> ready K U s r \<and> ready K U r s
      | _ \<Rightarrow> False)"

lemma in_step_sym: "in_step K U ck db db' = in_step K U ck db' db"
  by (auto simp: in_step_def split: option.splits)

lemma bundle_spk:
  assumes "valid_bundle W K ik spk b" "key_laws W K"
  shows "js_slice 64 96 b = dh_pub K spk"
  using assms unfolding valid_bundle_def key_laws_def by (auto simp: js_slice_def key32_def)

lemma wire_text:
  "is_bytes wire \<Longrightarrow> base64urlToBuf (drop (length prefix) (prefix @ bufToBase64url wire)) = Some wire"
  using base64url_inverse by simp

lemma deliver:
  fixes rnd rnd' :: seed
  assumes laws: "key_laws W K" "x3dh_laws W K" "ratchet_laws W K" and b: "valid_bundle W K ik' spk' b"
    and step: "in_step K U ck db db'" and p: "is_bytes p" and own: "key32 ik"
  defines "V \<equiv> insert (drawn K rnd) (insert (dh_pub K spk') U)"
  shows "\<exists>c s r. ratchet_send W rnd prefix ck ik (Some b) p db = (Some c, saveRatchetSession ck s db)
    \<and> ratchet_receive W rnd' prefix ck (receiver_session W ik' spk') c db' = (Plain p, saveRatchetSession ck r db')
    \<and> starts_with c prefix \<and> (drawn K rnd' \<notin> V \<longrightarrow> ready K (insert (drawn K rnd') V) s r \<and> ready K (insert (drawn K rnd') V) r s)"
proof (cases "loadRatchetSession ck db")
  case None
  have spk: "key32 spk'" using b by (simp add: valid_bundle_def)
  from None have none: "loadRatchetSession ck db' = None" using step by (auto simp: in_step_def split: option.splits)
  obtain sk i where x: "x3dhSend W rnd ik b = Some (sk @ i)" "length sk = 32" "is_bytes sk" "length i = 65" "is_bytes i"
    "x3dhReceive W ik' spk' [] i = Some sk" by (rule x3dh_lawsD[OF laws(2) own b])
  obtain s r where ini: "ratchetInitSender W rnd sk (dh_pub K spk') = Some s" "ratchetInitReceiver W sk spk' = Some r" "ready K {drawn K rnd, dh_pub K spk'} s r"
    by (rule ratchet_initD[OF laws(3) x(2,3) spk])
  have "ready K V s r" by (rule ready_mono[OF laws(3) ini(3)]) (auto simp: V_def)
  obtain c s' r' where m: "ratchetEncrypt W rnd s p = Some (c, s')" "is_bytes c" "ratchetDecrypt W rnd' r c = Some (p, r')"
    "drawn K rnd' \<notin> V \<longrightarrow> ready K (insert (drawn K rnd') V) s' r' \<and> ready K (insert (drawn K rnd') V) r' s'"
    using ratchet_stepD[OF laws(3) \<open>ready K V s r\<close> p] by metis
  let ?wire = "INIT_FLAG # i @ c"
  have w: "is_bytes ?wire" using x(5) m(2) by (simp add: is_bytes_def INIT_FLAG_def)
  have slices: "js_slice 0 32 (sk @ i) = sk" "js_slice 32 97 (sk @ i) = i" "js_slice 1 66 ?wire = i" "drop 66 ?wire = c"
    using x(2,4) by (simp_all add: js_slice_def)
  have "ratchet_send W rnd prefix ck ik (Some b) p db = (Some (prefix @ bufToBase64url ?wire), saveRatchetSession ck s' db)"
    using None x(1,4) ini(1) m(1) bundle_spk[OF b laws(1)] slices by (simp add: ratchet_send_def start_session_def dr_wire_def)
  moreover have "ratchet_receive W rnd' prefix ck (receiver_session W ik' spk') (prefix @ bufToBase64url ?wire) db' = (Plain p, saveRatchetSession ck r' db')"
    using none x(6) ini(2) m(3) slices(3,4) unfolding ratchet_receive_def wire_text[OF w]
    by (simp add: has_init_def INIT_FLAG_def open_with_def receiver_session_def)
  ultimately show ?thesis using m(4)
    by (intro exI[of _ "prefix @ bufToBase64url ?wire"] exI[of _ s'] exI[of _ r']) simp
next
  case (Some s)
  then obtain r where r: "loadRatchetSession ck db' = Some r" "ready K U s r"
    using step by (auto simp: in_step_def split: option.splits)
  have "ready K V s r" by (rule ready_mono[OF laws(3) r(2)]) (auto simp: V_def)
  obtain c s' r' where m: "ratchetEncrypt W rnd s p = Some (c, s')" "is_bytes c" "ratchetDecrypt W rnd' r c = Some (p, r')"
    "drawn K rnd' \<notin> V \<longrightarrow> ready K (insert (drawn K rnd') V) s' r' \<and> ready K (insert (drawn K rnd') V) r' s'"
    using ratchet_stepD[OF laws(3) \<open>ready K V s r\<close> p] by metis
  have w: "is_bytes (0 # c)" using m(2) by (simp add: is_bytes_def)
  have "ratchet_send W rnd prefix ck ik (Some b) p db = (Some (prefix @ bufToBase64url (0 # c)), saveRatchetSession ck s' db)"
    using Some m(1) by (simp add: ratchet_send_def dr_wire_def)
  moreover have "ratchet_receive W rnd' prefix ck (receiver_session W ik' spk') (prefix @ bufToBase64url (0 # c)) db' = (Plain p, saveRatchetSession ck r' db')"
    using r(1) m(3) unfolding ratchet_receive_def wire_text[OF w] by (simp add: has_init_def open_with_def)
  ultimately show ?thesis using m(4)
    by (intro exI[of _ "prefix @ bufToBase64url (0 # c)"] exI[of _ s'] exI[of _ r']) simp
qed

section \<open>Conversations\<close>

text \<open>Direct messages in lockstep: each is opened by the peer before the next is sent.  A message is the sender (the first user or
  not), the two seeds and the plaintext; the result is what the peer's \<open>drDecrypt\<close> gave.\<close>

type_synonym letter = "bool \<times> seed \<times> seed \<times> bytes"

fun converse ::
    "wasm \<Rightarrow> (id \<Rightarrow> jsstr option) \<Rightarrow> identity_keys \<Rightarrow> identity_keys \<Rightarrow> id \<Rightarrow> id \<Rightarrow> letter list \<Rightarrow> crypto_db \<Rightarrow> crypto_db \<Rightarrow> opened list" where
  "converse W keys ka kb a b [] da db = []"
| "converse W keys ka kb a b ((from_a, r, r', p) # ms) da db =
     (if from_a
      then (case drEncrypt W r keys ka a b p da of
              (None, da) \<Rightarrow> Threw # converse W keys ka kb a b ms da db
            | (Some c, da) \<Rightarrow> (case drDecrypt W r' kb b a c db of (opn, db) \<Rightarrow> opn # converse W keys ka kb a b ms da db))
      else (case drEncrypt W r keys kb b a p db of
              (None, db) \<Rightarrow> Threw # converse W keys ka kb a b ms da db
            | (Some c, db) \<Rightarrow> (case drDecrypt W r' ka a b c da of (opn, da) \<Rightarrow> opn # converse W keys ka kb a b ms da db)))"

definition published :: "wasm \<Rightarrow> key_theory \<Rightarrow> (id \<Rightarrow> jsstr option) \<Rightarrow> id \<Rightarrow> identity_keys \<Rightarrow> bool" where
  "published W K keys u ident \<longleftrightarrow>
     (\<exists>b. fetchBundle keys u = Some b \<and> valid_bundle W K (id_ikDhSecret ident) (id_spkSecret ident) b)"

lemma in_step_saved: "ready K U s r \<Longrightarrow> ready K U r s \<Longrightarrow> in_step K U ck (saveRatchetSession ck s d) (saveRatchetSession ck r d')"
  by (simp add: in_step_def)

lemma published_key32: "published W K keys u k \<Longrightarrow> key32 (id_ikDhSecret k)"
  by (auto simp: published_def valid_bundle_def)

lemma dr_deliver:
  assumes "key_laws W K" "x3dh_laws W K" "ratchet_laws W K" "key32 (id_ikDhSecret ka)" "published W K keys b kb"
    "in_step K U (pairKey a b) da db" "is_bytes p" "dh_pub K (id_spkSecret kb) \<in> U" "drawn K r' \<notin> insert (drawn K r) U"
  obtains c da' db' where "drEncrypt W r keys ka a b p da = (Some c, da')" "drDecrypt W r' kb b a c db = (Plain p, db')"
    "in_step K (U \<union> {drawn K r, drawn K r'}) (pairKey a b) da' db'"
proof -
  obtain bn where b: "fetchBundle keys b = Some bn" "valid_bundle W K (id_ikDhSecret kb) (id_spkSecret kb) bn"
    using assms(5) unfolding published_def by blast
  have V: "insert (drawn K r) (insert (dh_pub K (id_spkSecret kb)) U) = insert (drawn K r) U" using assms(8) by auto
  have U: "insert (drawn K r') (insert (drawn K r) U) = U \<union> {drawn K r, drawn K r'}" by auto
  from deliver[OF assms(1-3) b(2) assms(6,7,4), of r V2_DM r', unfolded V U] assms(9)
  obtain c s t where "ratchet_send W r V2_DM (pairKey a b) (id_ikDhSecret ka) (Some bn) p da = (Some c, saveRatchetSession (pairKey a b) s da)"
    "ratchet_receive W r' V2_DM (pairKey a b) (receiver_session W (id_ikDhSecret kb) (id_spkSecret kb)) c db
      = (Plain p, saveRatchetSession (pairKey a b) t db)"
    "ready K (U \<union> {drawn K r, drawn K r'}) s t" "ready K (U \<union> {drawn K r, drawn K r'}) t s" by blast
  then show thesis using that in_step_saved unfolding drEncrypt_def drDecrypt_def b(1) pairKey_sym[of b a] by blast
qed

text \<open>The ratchet keys that the seeds of the messages can draw.\<close>

definition draws :: "key_theory \<Rightarrow> letter list \<Rightarrow> bytes list" where
  "draws K ms = concat (map (\<lambda>(f, r, r', p). [drawn K r, drawn K r']) ms)"

text \<open>Direct messages arrive as they were sent.  Two users whose bundles are published under their identities, and who have no
  session or sessions in step, exchange any number of messages in any direction, each opened before the next is sent, with seeds that
  draw ratchet keys no two of which are equal: every plaintext is returned, the first message setting up both sessions through X3DH.
  What is assumed of the primitives is proved of the cryptographic core in \<open>RustLaws\<close>.\<close>

theorem direct_conversation:
  assumes "key_laws W K" "x3dh_laws W K" "ratchet_laws W K" "published W K keys a ka" "published W K keys b kb"
    "in_step K U (pairKey a b) da db" "list_all (\<lambda>(f, r, r', p). is_bytes p) ms"
    "dh_pub K (id_spkSecret ka) \<in> U" "dh_pub K (id_spkSecret kb) \<in> U" "distinct (draws K ms)" "set (draws K ms) \<inter> U = {}"
  shows "converse W keys ka kb a b ms da db = map (\<lambda>(f, r, r', p). Plain p) ms"
  using assms(6-)
proof (induction ms arbitrary: U da db)
  case (Cons m ms)
  obtain f r r' p where m: "m = (f, r, r', p)" by (cases m)
  then have p: "is_bytes p" and ps: "list_all (\<lambda>(f, r, r', p). is_bytes p) ms" using Cons.prems(2) by simp_all
  let ?U = "U \<union> {drawn K r, drawn K r'}"
  have new: "drawn K r' \<notin> insert (drawn K r) U" and rest: "distinct (draws K ms)" "set (draws K ms) \<inter> ?U = {}"
    using Cons.prems(5,6) m by (auto simp: draws_def)
  have spk: "dh_pub K (id_spkSecret ka) \<in> ?U" "dh_pub K (id_spkSecret kb) \<in> ?U" using Cons.prems(3,4) by auto
  note own = published_key32[OF assms(4)] published_key32[OF assms(5)]
  show ?case
  proof (cases f)
    case True
    obtain c da' db' where "drEncrypt W r keys ka a b p da = (Some c, da')" "drDecrypt W r' kb b a c db = (Plain p, db')"
      "in_step K ?U (pairKey a b) da' db'"
      by (rule dr_deliver[OF assms(1-3) own(1) assms(5) Cons.prems(1) p Cons.prems(4) new])
    then show ?thesis using Cons.IH[OF _ ps spk rest] True m by simp
  next
    case False
    have "in_step K U (pairKey b a) db da" using Cons.prems(1) in_step_sym by (simp add: pairKey_sym[of b a])
    from dr_deliver[OF assms(1-3) own(2) assms(4) this p Cons.prems(3) new] obtain c da' db'
      where "drEncrypt W r keys kb b a p db = (Some c, db')" "drDecrypt W r' ka a b c da = (Plain p, da')" "in_step K ?U (pairKey b a) db' da'"
      by blast
    then show ?thesis using Cons.IH[OF _ ps spk rest, of da' db'] False m in_step_sym by (simp add: pairKey_sym[of b a])
  qed
qed simp

section \<open>Crossing first messages\<close>

text \<open>Sessions of different handshakes do not open each other's messages: \<open>rt\<close> is the handshake secret a session stems from.\<close>

definition root_laws :: "wasm \<Rightarrow> (bytes \<Rightarrow> bytes) \<Rightarrow> bool" where
  "root_laws W rt \<longleftrightarrow>
     (\<forall>rnd sk pub s. ratchetInitSender W rnd sk pub = Some s \<longrightarrow> rt s = sk)
     \<and> (\<forall>sk spk s. ratchetInitReceiver W sk spk = Some s \<longrightarrow> rt s = sk)
     \<and> (\<forall>rnd s p c s'. ratchetEncrypt W rnd s p = Some (c, s') \<longrightarrow> rt s' = rt s \<and> is_bytes c)
     \<and> (\<forall>rnd s c p s'. ratchetDecrypt W rnd s c = Some (p, s') \<longrightarrow> rt s' = rt s)
     \<and> (\<forall>rnd rnd' s p c s' r. ratchetEncrypt W rnd s p = Some (c, s') \<and> rt r \<noteq> rt s \<longrightarrow> ratchetDecrypt W rnd' r c = None)"

lemma root_encrypt:
  "root_laws W rt \<Longrightarrow> ratchetEncrypt W rnd s p = Some (c, s') \<Longrightarrow> rt s' = rt s \<and> is_bytes c"
  unfolding root_laws_def by blast

lemma root_decrypt:
  "root_laws W rt \<Longrightarrow> ratchetDecrypt W rnd s c = Some (p, s') \<Longrightarrow> rt s' = rt s"
  unfolding root_laws_def by blast

lemma root_foreign:
  "root_laws W rt \<Longrightarrow> ratchetEncrypt W rnd s p = Some (c, s') \<Longrightarrow> rt r \<noteq> rt s \<Longrightarrow> ratchetDecrypt W rnd' r c = None"
  unfolding root_laws_def by blast

lemma root_init_sender: "root_laws W rt \<Longrightarrow> ratchetInitSender W rnd sk pub = Some s \<Longrightarrow> rt s = sk"
  unfolding root_laws_def by (elim conjE) metis

lemma root_init_receiver: "root_laws W rt \<Longrightarrow> ratchetInitReceiver W sk spk = Some s \<Longrightarrow> rt s = sk"
  unfolding root_laws_def by (elim conjE) metis

text \<open>Sessions of different handshakes: everything sent afterwards is lost.\<close>

definition estranged :: "(bytes \<Rightarrow> bytes) \<Rightarrow> jsstr \<Rightarrow> crypto_db \<Rightarrow> crypto_db \<Rightarrow> bool" where
  "estranged rt ck da db \<longleftrightarrow>
     (\<exists>s r. loadRatchetSession ck da = Some s \<and> loadRatchetSession ck db = Some r \<and> rt s \<noteq> rt r)"

lemma estranged_sym: "estranged rt ck da db = estranged rt ck db da"
  unfolding estranged_def by metis

lemma estranged_send:
  assumes "root_laws W rt" "estranged rt (pairKey a b) da db"
  shows "case drEncrypt W r keys ka a b p da of
      (None, d) \<Rightarrow> d = da
    | (Some c, d) \<Rightarrow> drDecrypt W r' kb b a c db = (Threw, db) \<and> estranged rt (pairKey a b) d db"
proof -
  obtain s t where st: "loadRatchetSession (pairKey a b) da = Some s" "loadRatchetSession (pairKey a b) db = Some t" "rt s \<noteq> rt t"
    using assms(2) unfolding estranged_def by blast
  show ?thesis
  proof (cases "ratchetEncrypt W r s p")
    case None
    then show ?thesis using st(1) by (simp add: drEncrypt_def ratchet_send_def)
  next
    case (Some m)
    obtain c s' where c: "ratchetEncrypt W r s p = Some (c, s')" using Some by (cases m) simp
    have w: "is_bytes (0 # c)" using root_encrypt[OF assms(1) c] by (simp add: is_bytes_def)
    have "drEncrypt W r keys ka a b p da = (Some (V2_DM @ bufToBase64url (0 # c)), saveRatchetSession (pairKey a b) s' da)"
      using st(1) c by (simp add: drEncrypt_def ratchet_send_def dr_wire_def)
    moreover have "drDecrypt W r' kb b a (V2_DM @ bufToBase64url (0 # c)) db = (Threw, db)"
      using st(2,3) root_foreign[OF assms(1) c] unfolding drDecrypt_def ratchet_receive_def wire_text[OF w] pairKey_sym[of b a]
      by (simp add: has_init_def open_with_def)
    moreover have "estranged rt (pairKey a b) (saveRatchetSession (pairKey a b) s' da) db"
      using st root_encrypt[OF assms(1) c] by (simp add: estranged_def)
    ultimately show ?thesis by simp
  qed
qed

lemma estranged_forever:
  assumes "root_laws W rt"
  shows "estranged rt (pairKey a b) da db \<Longrightarrow> converse W keys ka kb a b ms da db = map (\<lambda>_. Threw) ms"
proof (induction ms arbitrary: da db)
  case (Cons m ms)
  obtain f r r' p where m: "m = (f, r, r', p)" by (cases m)
  have "estranged rt (pairKey b a) db da" using Cons.prems estranged_sym by (simp add: pairKey_sym[of b a])
  then show ?case
    using Cons.IH Cons.prems m estranged_sym
      estranged_send[OF assms Cons.prems, where r = r and keys = keys and ka = ka and p = p and r' = r' and kb = kb]
      estranged_send[OF assms, where r = r and keys = keys and ka = kb and p = p and r' = r' and kb = ka and a = b and b = a and da = db and db = da]
    by (cases f) (auto simp: pairKey_sym[of b a] split: prod.splits option.splits)
qed simp

text \<open>Opening a first message while an own first message is under way: the own session is dropped for the peer's.\<close>

lemma crossing_receive:
  assumes laws: "key_laws W K" "x3dh_laws W K" "ratchet_laws W K" "root_laws W rt"
    and b: "valid_bundle W K ik spk bn" and x: "x3dhSend W r ik0 bn = Some (sk @ i)" "length sk = 32" "key32 ik0"
    and sent: "ratchet_send W r V2_DM ck ik0 (Some bn) p d = (Some c, d1)" "loadRatchetSession ck d = None" "is_bytes p"
    and own: "loadRatchetSession ck d' = Some s" "rt s \<noteq> sk"
  shows "\<exists>t. ratchet_receive W r' V2_DM ck (receiver_session W ik spk) c d' = (Plain p, saveRatchetSession ck t d') \<and> rt t = sk"
proof -
  obtain sk' i' where x': "x3dhSend W r ik0 bn = Some (sk' @ i')" "length sk' = 32" "is_bytes sk'" "length i' = 65" "is_bytes i'"
    "x3dhReceive W ik spk [] i' = Some sk'" by (rule x3dh_lawsD[OF laws(2) x(3) b])
  have spk: "key32 spk" using b by (simp add: valid_bundle_def)
  have sk: "sk' = sk" "i' = i" using x x'(1,2) by (simp_all add: append_eq_append_conv)
  obtain s0 r0 where ini: "ratchetInitSender W r sk (dh_pub K spk) = Some s0" "ratchetInitReceiver W sk spk = Some r0" "ready K {drawn K r, dh_pub K spk} s0 r0"
    using ratchet_initD[OF laws(3) x'(2,3) spk] sk by metis
  obtain ct s1 r1 where m: "ratchetEncrypt W r s0 p = Some (ct, s1)" "is_bytes ct" "ratchetDecrypt W r' r0 ct = Some (p, r1)"
    by (rule ratchet_stepD[OF laws(3) ini(3) sent(3)])
  let ?wire = "INIT_FLAG # i @ ct"
  have w: "is_bytes ?wire" using x'(5) m(2) sk by (simp add: is_bytes_def INIT_FLAG_def)
  have slices: "js_slice 0 32 (sk @ i) = sk" "js_slice 32 97 (sk @ i) = i" "js_slice 1 66 ?wire = i" "drop 66 ?wire = ct"
    using x'(2,4) sk by (simp_all add: js_slice_def)
  have c: "c = V2_DM @ bufToBase64url ?wire"
    using sent(1,2) x'(1,4) sk ini(1) m(1) bundle_spk[OF b laws(1)] slices by (simp add: ratchet_send_def start_session_def dr_wire_def)
  have "ratchetDecrypt W r' s ct = None"
    using root_foreign[OF laws(4) m(1)] own(2) root_init_sender[OF laws(4) ini(1)] by simp
  then have "ratchet_receive W r' V2_DM ck (receiver_session W ik spk) c d' = (Plain p, saveRatchetSession ck r1 d')"
    using own(1) x'(6) sk ini(2) m(3) slices(3,4) unfolding ratchet_receive_def c wire_text[OF w]
    by (simp add: has_init_def INIT_FLAG_def open_with_def receiver_session_def)
  then show ?thesis using root_decrypt[OF laws(4) m(3)] root_init_receiver[OF laws(4) ini(2)] by auto
qed

text \<open>Two first messages that cross on the way break the conversation for good.  Both users start a session, each sends its first
  message before it has seen the other's, and the two handshakes have different secrets.  Both messages are opened; but each side
  replaces its own session by the one of the peer's handshake, and from then on no message of either side is ever opened by the other,
  whatever they send, until a session is deleted.\<close>

theorem crossing_first_messages:
  assumes "key_laws W K" "x3dh_laws W K" "ratchet_laws W K" "root_laws W rt" "published W K keys a ka" "published W K keys b kb"
    "loadRatchetSession (pairKey a b) da = None" "loadRatchetSession (pairKey a b) db = None" "is_bytes pa" "is_bytes pb"
    "x3dhSend W ra (id_ikDhSecret ka) (the (fetchBundle keys b)) = Some (ska @ ia)" "length ska = 32"
    "x3dhSend W rb (id_ikDhSecret kb) (the (fetchBundle keys a)) = Some (skb @ ib)" "length skb = 32" "ska \<noteq> skb"
    "drEncrypt W ra keys ka a b pa da = (Some ca, da1)" "drEncrypt W rb keys kb b a pb db = (Some cb, db1)"
  shows "fst (drDecrypt W ra' ka a b cb da1) = Plain pb \<and> fst (drDecrypt W rb' kb b a ca db1) = Plain pa
    \<and> converse W keys ka kb a b ms (snd (drDecrypt W ra' ka a b cb da1)) (snd (drDecrypt W rb' kb b a ca db1)) = map (\<lambda>_. Threw) ms"
proof -
  obtain bb where bb: "fetchBundle keys b = Some bb" "valid_bundle W K (id_ikDhSecret kb) (id_spkSecret kb) bb"
    using assms(6) unfolding published_def by blast
  obtain ba where ba: "fetchBundle keys a = Some ba" "valid_bundle W K (id_ikDhSecret ka) (id_spkSecret ka) ba"
    using assms(5) unfolding published_def by blast
  have own: "\<exists>s. loadRatchetSession ck d1 = Some s \<and> rt s = sk"
    if h: "ratchet_send W r V2_DM ck ik (Some bn) p d = (Some c, d1)" "loadRatchetSession ck d = None"
      "x3dhSend W r ik bn = Some (sk @ i)" "length sk = 32" for ck d1 r ik bn p d c sk i
    using h root_init_sender[OF assms(4)] root_encrypt[OF assms(4)]
    by (auto simp: ratchet_send_def start_session_def js_slice_def bind_eq_Some_conv split: option.splits prod.splits)
  note sa = assms(16)[unfolded drEncrypt_def bb(1)] and sb = assms(17)[unfolded drEncrypt_def ba(1) pairKey_sym[of b a]]
  obtain s where s: "loadRatchetSession (pairKey a b) da1 = Some s" "rt s = ska" using own[OF sa assms(7)] assms(11,12) bb(1) by auto
  obtain t where t: "loadRatchetSession (pairKey a b) db1 = Some t" "rt t = skb" using own[OF sb assms(8)] assms(13,14) ba(1) by auto
  obtain s' where s': "drDecrypt W ra' ka a b cb da1 = (Plain pb, saveRatchetSession (pairKey a b) s' da1)" "rt s' = skb"
    using crossing_receive[OF assms(1-4) ba(2) _ assms(14) published_key32[OF assms(6)] sb assms(8,10) s(1)] assms(13,15) ba(1) s(2)
    unfolding drDecrypt_def by auto
  obtain t' where t': "drDecrypt W rb' kb b a ca db1 = (Plain pa, saveRatchetSession (pairKey a b) t' db1)" "rt t' = ska"
    using crossing_receive[OF assms(1-4) bb(2) _ assms(12) published_key32[OF assms(5)] sa assms(7,9) t(1)] assms(11,15) bb(1) t(2)
    unfolding drDecrypt_def pairKey_sym[of b a] by auto
  have "estranged rt (pairKey a b) (saveRatchetSession (pairKey a b) s' da1) (saveRatchetSession (pairKey a b) t' db1)"
    using s'(2) t'(2) assms(15) by (auto simp: estranged_def)
  then show ?thesis using s'(1) t'(1) estranged_forever[OF assms(4)] by simp
qed

section \<open>Published identities\<close>

lemma built_bundle:
  assumes "length (ikSignPub k) = 32" "length (id_ikDhPub k) = 32" "length (id_spkPub k) = 32" "length (id_spkSig k) = 64"
  shows "buildBundle k = Some (ikSignPub k @ id_ikDhPub k @ id_spkPub k @ id_spkSig k @ [0])"
proof -
  have step: "array_set (p @ replicate n 0) q (length p) = Some ((p @ q) @ replicate (n - length q) 0)" if "length q \<le> n" for p q n
    using array_set_fits[OF refl that] by simp
  show ?thesis
    using assms step[of "ikSignPub k" 161 "[]"] step[of "id_ikDhPub k" 129 "ikSignPub k"]
      step[of "id_spkPub k" 97 "ikSignPub k @ id_ikDhPub k"] step[of "id_spkSig k" 65 "ikSignPub k @ id_ikDhPub k @ id_spkPub k"]
    by (simp add: buildBundle_def list_update_append)
qed

text \<open>Keys as \<open>generateIdentityKeys\<close> makes them.\<close>

definition genuine :: "wasm \<Rightarrow> key_theory \<Rightarrow> identity_keys \<Rightarrow> bool" where
  "genuine W K k \<longleftrightarrow>
     ikSignPub k = sign_pub K (ikSignSeed k) \<and> id_ikDhPub k = dh_pub K (id_ikDhSecret k) \<and> id_spkPub k = dh_pub K (id_spkSecret k)
     \<and> id_spkSig k = ed25519_sign W (ikSignSeed k) (id_spkPub k)
     \<and> key32 (ikSignSeed k) \<and> key32 (id_ikDhSecret k) \<and> key32 (id_spkSecret k)"

lemma generated_genuine:
  assumes "key_laws W K"
  shows "genuine W K (generateIdentityKeys W r1 r2 r3)"
proof -
  obtain s1 s3 s2 where s: "generateDhKeypair W r1 = s1 @ dh_pub K s1" "key32 s1" "generateDhKeypair W r3 = s3 @ dh_pub K s3" "key32 s3"
    "generateSigningKeypair W r2 = s2 @ sign_pub K s2" "key32 s2"
    using assms unfolding key_laws_def by metis
  then have "length (dh_pub K s1) = 32" "length (dh_pub K s3) = 32" "length (sign_pub K s2) = 32" using assms by (simp_all add: key_laws_def key32_def)
  then show ?thesis using s by (simp add: genuine_def generateIdentityKeys_def js_slice_def key32_def Let_def)
qed

lemma genuine_bundle:
  assumes "key_laws W K" "genuine W K k"
  obtains b where "buildBundle k = Some b" "valid_bundle W K (id_ikDhSecret k) (id_spkSecret k) b" "is_bytes b"
proof -
  have lens: "length (ikSignPub k) = 32" "length (id_ikDhPub k) = 32" "length (id_spkPub k) = 32" "length (id_spkSig k) = 64"
    using assms by (simp_all add: key_laws_def genuine_def key32_def)
  let ?b = "ikSignPub k @ id_ikDhPub k @ id_spkPub k @ id_spkSig k @ [0]"
  have "buildBundle k = Some ?b" by (rule built_bundle[OF lens])
  moreover have "valid_bundle W K (id_ikDhSecret k) (id_spkSecret k) ?b"
    using assms(2) unfolding valid_bundle_def genuine_def by auto
  moreover have "is_bytes ?b"
    using assms by (simp add: key_laws_def genuine_def key32_def is_bytes_def)
  ultimately show thesis by (rule that)
qed

definition publish :: "(id \<Rightarrow> identity_keys option) \<Rightarrow> id \<Rightarrow> jsstr option" where
  "publish ids u = Option.bind (ids u) (\<lambda>k. map_option bufToBase64url (buildBundle k))"

lemma publish_published:
  assumes "key_laws W K" "ids u = Some k" "genuine W K k"
  shows "published W K (publish ids) u k"
proof -
  obtain b where b: "buildBundle k = Some b" "valid_bundle W K (id_ikDhSecret k) (id_spkSecret k) b" "is_bytes b"
    by (rule genuine_bundle[OF assms(1,3)])
  then have "fetchBundle (publish ids) u = Some b" using assms(2) base64url_inverse[OF b(3)] by (simp add: fetchBundle_def publish_def)
  then show ?thesis using b(2) by (auto simp: published_def)
qed

section \<open>A toy instance\<close>

definition bytes_of_len :: "nat \<Rightarrow> bytes \<Rightarrow> bytes" where
  "bytes_of_len n s = map (\<lambda>x. x mod 256) (take n (s @ replicate n 0))"

lemma bytes_of_len [simp]: "length (bytes_of_len n s) = n" "is_bytes (bytes_of_len n s)"
  by (auto simp: bytes_of_len_def is_bytes_def list_all_iff)

definition toy_keys :: key_theory where
  "toy_keys = \<lparr>dh_pub = bytes_of_len 32, sign_pub = bytes_of_len 32, drawn = (\<lambda>r. [r]), ready = (\<lambda>U s r. s = r \<and> length s = 32 \<and> is_bytes s)\<rparr>"

text \<open>A prefix-free code of a PIN in bytes.\<close>

definition pin_code :: "bytes \<Rightarrow> bytes" where
  "pin_code pin = concat (map (\<lambda>x. replicate x 1 @ [0]) pin) @ [2]"

definition toy_wasm :: wasm where
  "toy_wasm = \<lparr>generateDhKeypair = (\<lambda>r. bytes_of_len 32 [r] @ bytes_of_len 32 (bytes_of_len 32 [r])),
     generateSigningKeypair = (\<lambda>r. bytes_of_len 32 [r] @ bytes_of_len 32 (bytes_of_len 32 [r])),
     ed25519_sign = (\<lambda>s m. bytes_of_len 64 (s @ m)), encryptKeyWithPin = (\<lambda>r k pin. pin_code pin @ k),
     decryptKeyWithPin = (\<lambda>b pin. if starts_with b (pin_code pin) then Some (drop (length (pin_code pin)) b) else None),
     x3dhSend = (\<lambda>r a b. Some (bytes_of_len 32 [r] @ bytes_of_len 65 [r])),
     x3dhReceive = (\<lambda>ik spk opk i. Some (bytes_of_len 32 (take 1 i))),
     ratchetInitSender = (\<lambda>r sk pub. Some sk), ratchetInitReceiver = (\<lambda>sk spk. Some sk),
     ratchetEncrypt = (\<lambda>r s p. if length s = 32 \<and> is_bytes s \<and> is_bytes p then Some (s @ p, s) else None),
     ratchetDecrypt = (\<lambda>r s c. if length s = 32 \<and> take 32 c = s then Some (drop 32 c, s) else None),
     groupSenderGenerate = (\<lambda>r. (bytes_of_len 4 [r], bytes_of_len 4 [r])),
     groupSenderEncrypt = (\<lambda>s p. Some (s @ p, s)), groupReceiverFromDist = Some,
     groupReceiverDecrypt = (\<lambda>r c. if take (length r) c = r then Some (drop (length r) c, r) else None)\<rparr>"

lemma toy_bytes_head: "bytes_of_len 32 (take 1 (bytes_of_len 65 [r])) = bytes_of_len 32 [r]"
  by (simp add: bytes_of_len_def)

lemma toy_laws: "key_laws toy_wasm toy_keys" "x3dh_laws toy_wasm toy_keys" "ratchet_laws toy_wasm toy_keys" "root_laws toy_wasm (\<lambda>s. s)"
proof -
  show "key_laws toy_wasm toy_keys" by (auto simp: key_laws_def toy_wasm_def toy_keys_def key32_def)
  show "x3dh_laws toy_wasm toy_keys" using toy_bytes_head by (simp add: x3dh_laws_def toy_wasm_def toy_keys_def)
  show "ratchet_laws toy_wasm toy_keys" by (simp add: ratchet_laws_def toy_wasm_def toy_keys_def is_bytes_def key32_def)
  show "root_laws toy_wasm (\<lambda>s. s)" by (auto simp: root_laws_def toy_wasm_def is_bytes_def split: if_splits)
qed

definition toy_id :: "seed \<Rightarrow> identity_keys" where
  "toy_id r = generateIdentityKeys toy_wasm r (r + 1) (r + 2)"

definition toy_users :: "id \<Rightarrow> jsstr option" where
  "toy_users = publish (\<lambda>u. if u = 1 then Some (toy_id 10) else if u = 2 then Some (toy_id 20) else None)"

lemma toy_published: "published toy_wasm toy_keys toy_users 1 (toy_id 10)" "published toy_wasm toy_keys toy_users 2 (toy_id 20)"
  unfolding toy_users_def
  by (rule publish_published[OF toy_laws(1)], simp, simp add: toy_id_def generated_genuine[OF toy_laws(1)])+

lemma fresh_db: "loadRatchetSession k empty_db = None"
  by (simp add: loadRatchetSession_def db_get_def empty_db_def)

lemma toy_dh_length: "length (dh_pub toy_keys s) = 32"
  by (simp add: toy_keys_def)

theorem direct_conversation_witness:
  "converse toy_wasm toy_users (toy_id 10) (toy_id 20) 1 2 [(True, 5, 6, [104, 105]), (True, 7, 8, [33]), (False, 9, 10, [255])] empty_db empty_db
   = [Plain [104, 105], Plain [33], Plain [255]]"
proof -
  let ?ms = "[(True, 5, 6, [104, 105]), (True, 7, 8, [33]), (False, 9, 10, [255])]" and ?U = "{s. length s = 32}"
  have "in_step toy_keys ?U (pairKey 1 2) empty_db empty_db" by (simp add: in_step_def fresh_db)
  moreover have "distinct (draws toy_keys ?ms)" "set (draws toy_keys ?ms) \<inter> ?U = {}" by (simp_all add: draws_def toy_keys_def)
  ultimately show ?thesis
    using direct_conversation[OF toy_laws(1-3) toy_published, of ?U empty_db empty_db ?ms] by (simp add: is_bytes_def toy_dh_length)
qed

theorem crossing_first_messages_witness:
  "\<exists>da db. converse toy_wasm toy_users (toy_id 10) (toy_id 20) 1 2 [(True, 5, 6, [104]), (False, 7, 8, [105])] da db = [Threw, Threw]"
proof -
  obtain ba where ba: "fetchBundle toy_users 1 = Some ba" using toy_published(1) by (auto simp: published_def)
  obtain bb where bb: "fetchBundle toy_users 2 = Some bb" using toy_published(2) by (auto simp: published_def)
  have x: "x3dhSend toy_wasm r ik b = Some (bytes_of_len 32 [r] @ bytes_of_len 65 [r])" for r ik b by (simp add: toy_wasm_def)
  have ne: "bytes_of_len 32 [1] \<noteq> bytes_of_len 32 [2]" by (simp add: bytes_of_len_def)
  have byte: "is_bytes [104]" "is_bytes [105]" by (simp_all add: is_bytes_def)
  have sent: "\<exists>c d. drEncrypt toy_wasm r toy_users k a b p empty_db = (Some c, d)" if "fetchBundle toy_users b = Some z" "is_bytes p" for r k a b p z
    using that by (simp add: drEncrypt_def ratchet_send_def start_session_def fresh_db toy_wasm_def js_slice_def)
  obtain ca da where ca: "drEncrypt toy_wasm 1 toy_users (toy_id 10) 1 2 [104] empty_db = (Some ca, da)" using sent[OF bb byte(1)] by blast
  obtain cb db where cb: "drEncrypt toy_wasm 2 toy_users (toy_id 20) 2 1 [105] empty_db = (Some cb, db)" using sent[OF ba byte(2)] by blast
  show ?thesis
    using crossing_first_messages[OF toy_laws toy_published fresh_db fresh_db byte x _ x _ ne ca cb,
        where ms = "[(True, 5, 6, [104]), (False, 7, 8, [105])]"] by auto
qed

end
