(* ===== verification/E2E.thy ===== *)
theory E2E
  imports E2ESession
begin

text \<open>
  The hook \<open>client/src/hooks/useE2E.ts\<close> over the sessions of \<open>E2ESession\<close>: its module-level state, encryption and
  decryption of texts and files for users, devices and groups, the distribution and prefetch of sender keys, start-up, recovery
  with a PIN, key rotation and wiping.  Requests to the server take their answers from \<open>e2e_srv\<close>; what the hook posts and emits
  is logged.  The callbacks that tell components about the status only copy it and are left out.
\<close>

section \<open>State\<close>

datatype e2e_status = IdleStatus | ReadyStatus | NeedsRecovery | NeedsSetup | KeysDesynced

datatype e2e_out =
    PostBundle jsstr
  | PostDevice jsstr
  | PostRecovery jsstr bool
  | PostSenderKeys id "(id \<times> jsstr) list"
  | DeleteMySenderKeys
  | RequestRedistribution id id

record e2e =
  identity :: "identity_keys option"
  currentUserId :: "id option"
  initialized :: bool
  initRunning :: bool
  initGeneration :: nat
  keysWereRotated :: bool
  e2eStatus :: e2e_status
  pendingRecoveryBlob :: "jsstr option"
  legacyPrivKey :: "cryptokey option"
  myDeviceId :: "int option"
  deviceKeys :: "device_keys option"
  legacyKeyCache :: "(id, bytes option option) jsmap"
  peerV2Cache :: "(id, bool) jsmap"
  deviceBundleCache :: "(id, bytes option) jsmap"
  e_db :: crypto_db
  e_br :: browser
  e_out :: "e2e_out list"

datatype 'a reply = Answered 'a | NotFound404 | Unreachable

definition ok_of :: "'a reply \<Rightarrow> 'a option" where
  "ok_of r = (case r of Answered x \<Rightarrow> Some x | _ \<Rightarrow> None)"

record e2e_srv =
  v2_bundle :: "id \<Rightarrow> jsstr reply"
  v3_bundle :: "id \<Rightarrow> jsstr reply"
  v3_devices :: "id \<Rightarrow> id list reply"
  v1_public :: "id \<Rightarrow> jsstr reply"
  recovery_blob :: "jsstr reply"
  sender_entries :: "id \<Rightarrow> sender_entry list reply"
  posted_device :: "int reply"
  post_ok :: bool

definition falsy_id :: "int option \<Rightarrow> bool" where
  "falsy_id i \<longleftrightarrow> i = None \<or> i = Some 0"

definition v2_text :: "e2e_srv \<Rightarrow> id \<Rightarrow> jsstr option" where
  "v2_text srv u = ok_of (v2_bundle srv u)"

definition LOCKED :: jsstr where
  "LOCKED = [91, 55357, 56594, 32, 1053, 1077, 32, 1074, 1076, 1072, 1083, 1086, 1089, 1103, 32, 1088, 1086, 1079, 1096, 1080,
     1092, 1088, 1091, 1074, 1072, 1090, 1080, 93]"

definition NO_SENDER_KEY :: jsstr where
  "NO_SENDER_KEY = [91, 55357, 56594, 32, 1053, 1077, 1084, 1072, 1108, 32, 1082, 1083, 1102, 1095, 1072, 32, 1074, 1110, 1076,
     1087, 1088, 1072, 1074, 1085, 1080, 1082, 1072, 93]"

definition tryUtf8 :: "bytes \<Rightarrow> jsstr option" where
  "tryUtf8 b = (if concat (map utf8_bytes (utf8_run 0 0 128 191 b)) = b then Some (decode_utf8 b) else None)"

definition checkPeerHasV2 :: "e2e_srv \<Rightarrow> id \<Rightarrow> e2e \<Rightarrow> bool \<times> e2e" where
  "checkPeerHasV2 srv peerId st =
     (case mget (peerV2Cache st) peerId of
        Some b \<Rightarrow> (b, st)
      | None \<Rightarrow>
          (case v2_bundle srv peerId of
             Answered _ \<Rightarrow> (True, st\<lparr>peerV2Cache := mset_at peerId True (peerV2Cache st)\<rparr>)
           | NotFound404 \<Rightarrow> (False, st\<lparr>peerV2Cache := mset_at peerId False (peerV2Cache st)\<rparr>)
           | Unreachable \<Rightarrow> (True, st)))"

text \<open>\<open>legacyKey\<close>: \<open>None\<close> is a rejected promise (also when cached), \<open>Some None\<close> is \<open>null\<close>.\<close>

definition legacyKey :: "webcrypto \<Rightarrow> e2e_srv \<Rightarrow> id \<Rightarrow> e2e \<Rightarrow> bytes option option \<times> e2e" where
  "legacyKey w srv peerId st =
     (case legacyPrivKey st of
        None \<Rightarrow> (Some None, st)
      | Some priv \<Rightarrow>
          (case mget (legacyKeyCache st) peerId of
             Some r \<Rightarrow> (r, st)
           | None \<Rightarrow>
               (let r = (case v1_public srv peerId of
                           Answered pk \<Rightarrow> map_option Some (legacyDeriveSharedKey w priv pk)
                         | _ \<Rightarrow> Some None)
                in (r, st\<lparr>legacyKeyCache := mset_at peerId r (legacyKeyCache st)\<rparr>))))"

section \<open>Direct messages\<close>

definition encrypt :: "wasm \<Rightarrow> seed \<Rightarrow> e2e_srv \<Rightarrow> jsstr \<Rightarrow> id \<Rightarrow> e2e \<Rightarrow> jsstr option \<times> e2e" where
  "encrypt W rnd srv content targetUserId st =
     (case identity st of
        None \<Rightarrow> (Some content, st)
      | Some ident \<Rightarrow>
          if \<not> initialized st \<or> falsy_id (currentUserId st) then (Some content, st)
          else (case drEncrypt W rnd (v2_text srv) ident (the (currentUserId st)) targetUserId (encode_utf8 content) (e_db st) of
                  (c, db) \<Rightarrow> (c, st\<lparr>e_db := db\<rparr>)))"

definition legacy_text :: "webcrypto \<Rightarrow> e2e_srv \<Rightarrow> jsstr \<Rightarrow> id \<Rightarrow> e2e \<Rightarrow> jsstr \<times> e2e" where
  "legacy_text w srv ciphertext senderId st =
     (case legacyKey w srv senderId st of
        (None, st) \<Rightarrow> (LOCKED, st)
      | (Some None, st) \<Rightarrow> (ciphertext, st)
      | (Some (Some key), st) \<Rightarrow> (case legacyDecryptText w key ciphertext of None \<Rightarrow> LOCKED | Some t \<Rightarrow> t, st))"

definition decrypt :: "wasm \<Rightarrow> webcrypto \<Rightarrow> seed \<Rightarrow> e2e_srv \<Rightarrow> jsstr \<Rightarrow> id \<Rightarrow> e2e \<Rightarrow> jsstr \<times> e2e" where
  "decrypt W w rnd srv ciphertext senderUserId st =
     (if \<not> initialized st \<or> falsy_id (currentUserId st)
      then (if starts_with ciphertext V2_DM \<or> starts_with ciphertext V2_GROUP then LOCKED else ciphertext, st)
      else
        (case identity st of
           Some ident \<Rightarrow>
             if starts_with ciphertext V2_DM
             then (case drDecrypt W rnd ident (the (currentUserId st)) senderUserId ciphertext (e_db st) of
                     (r, db) \<Rightarrow> (case r of Plain pt \<Rightarrow> decode_utf8 pt | _ \<Rightarrow> LOCKED, st\<lparr>e_db := db\<rparr>))
             else legacy_text w srv ciphertext senderUserId st
         | None \<Rightarrow> legacy_text w srv ciphertext senderUserId st))"

definition encryptBinary :: "wasm \<Rightarrow> seed \<Rightarrow> e2e_srv \<Rightarrow> bytes \<Rightarrow> id \<Rightarrow> e2e \<Rightarrow> bytes option \<times> e2e" where
  "encryptBinary W rnd srv data targetUserId st =
     (case identity st of
        None \<Rightarrow> (Some data, st)
      | Some ident \<Rightarrow>
          if \<not> initialized st \<or> falsy_id (currentUserId st) then (Some data, st)
          else (case drEncrypt W rnd (v2_text srv) ident (the (currentUserId st)) targetUserId data (e_db st) of
                  (c, db) \<Rightarrow> (map_option encode_utf8 c, st\<lparr>e_db := db\<rparr>)))"

definition legacy_binary :: "webcrypto \<Rightarrow> e2e_srv \<Rightarrow> bytes \<Rightarrow> id \<Rightarrow> e2e \<Rightarrow> bytes \<times> e2e" where
  "legacy_binary w srv data peerId st =
     (case legacyKey w srv peerId st of
        (Some (Some key), st) \<Rightarrow> (case legacyDecryptBinary w key data of None \<Rightarrow> data | Some d \<Rightarrow> d, st)
      | (_, st) \<Rightarrow> (data, st))"

definition decryptBinary :: "wasm \<Rightarrow> webcrypto \<Rightarrow> seed \<Rightarrow> e2e_srv \<Rightarrow> bytes \<Rightarrow> id \<Rightarrow> e2e \<Rightarrow> bytes \<times> e2e" where
  "decryptBinary W w rnd srv data peerUserId st =
     (if \<not> initialized st \<or> falsy_id (currentUserId st) then (data, st)
      else
        (case (tryUtf8 data, identity st) of
           (Some text, Some ident) \<Rightarrow>
             if starts_with text V2_DM
             then (case drDecrypt W rnd ident (the (currentUserId st)) peerUserId text (e_db st) of
                     (r, db) \<Rightarrow> (case r of Plain pt \<Rightarrow> pt | _ \<Rightarrow> data, st\<lparr>e_db := db\<rparr>))
             else legacy_binary w srv data peerUserId st
         | _ \<Rightarrow> legacy_binary w srv data peerUserId st))"

definition invalidatePeerSession :: "id \<Rightarrow> e2e \<Rightarrow> e2e" where
  "invalidatePeerSession peerId st =
     (if falsy_id (currentUserId st) then st
      else st\<lparr>e_db := deleteRatchetSession (pairKey (the (currentUserId st)) peerId) (e_db st)\<rparr>)"

definition invalidatePeerKey :: "id \<Rightarrow> e2e \<Rightarrow> e2e" where
  "invalidatePeerKey userId st =
     st\<lparr>legacyKeyCache := mdelete userId (legacyKeyCache st), peerV2Cache := mdelete userId (peerV2Cache st)\<rparr>"

section \<open>One envelope per device\<close>

type_synonym envelope = "id \<times> jsstr"

definition fetchDeviceBundle :: "e2e_srv \<Rightarrow> id \<Rightarrow> e2e \<Rightarrow> bytes option \<times> e2e" where
  "fetchDeviceBundle srv deviceId st =
     (case mget (deviceBundleCache st) deviceId of
        Some b \<Rightarrow> (b, st)
      | None \<Rightarrow>
          (let b = Option.bind (ok_of (v3_bundle srv deviceId)) base64urlToBuf
           in (b, st\<lparr>deviceBundleCache := mset_at deviceId b (deviceBundleCache st)\<rparr>)))"

text \<open>The bundle is fetched only when there is no session with the device.\<close>

definition seal_envelope :: "wasm \<Rightarrow> seed \<Rightarrow> e2e_srv \<Rightarrow> identity_keys \<Rightarrow> id \<Rightarrow> bytes \<Rightarrow> id \<Rightarrow> e2e \<Rightarrow> envelope list \<times> e2e" where
  "seal_envelope W rnd srv ident me messageKey deviceId st =
     (let (bundle, st) = (if loadRatchetSession (devicePairKey me deviceId) (e_db st) = None then fetchDeviceBundle srv deviceId st else (None, st))
      in case drDeviceEncrypt W rnd (\<lambda>_. bundle) ident me deviceId messageKey (e_db st) of
           (None, db) \<Rightarrow> ([], st\<lparr>e_db := db\<rparr>)
         | (Some c, db) \<Rightarrow> ([(deviceId, c)], st\<lparr>e_db := db\<rparr>))"

fun seal_envelopes :: "wasm \<Rightarrow> (nat \<Rightarrow> seed) \<Rightarrow> e2e_srv \<Rightarrow> identity_keys \<Rightarrow> id \<Rightarrow> bytes \<Rightarrow> id list \<Rightarrow> e2e \<Rightarrow> envelope list \<times> e2e" where
  "seal_envelopes W R srv ident me messageKey [] st = ([], st)"
| "seal_envelopes W R srv ident me messageKey (d # ds) st =
     (let (e, st) = seal_envelope W (R (length ds)) srv ident me messageKey d st;
          (es, st) = seal_envelopes W R srv ident me messageKey ds st
      in (e @ es, st))"

definition target_devices :: "e2e_srv \<Rightarrow> id \<Rightarrow> id \<Rightarrow> id \<Rightarrow> id list" where
  "target_devices srv recipientUserId userId me =
     (case ok_of (v3_devices srv recipientUserId) of None \<Rightarrow> [] | Some ds \<Rightarrow> ds)
     @ (if recipientUserId \<noteq> userId
        then filter (\<lambda>d. d \<noteq> me) (case ok_of (v3_devices srv userId) of None \<Rightarrow> [] | Some ds \<Rightarrow> ds) else [])"

definition encryptV3Internal ::
    "wasm \<Rightarrow> webcrypto \<Rightarrow> (nat \<Rightarrow> seed) \<Rightarrow> e2e_srv \<Rightarrow> bytes \<Rightarrow> bytes \<Rightarrow> jsstr \<Rightarrow> id \<Rightarrow> e2e \<Rightarrow> (jsstr \<times> envelope list) option \<times> e2e" where
  "encryptV3Internal W w R srv messageKey msgIv plaintext recipientUserId st =
     (case identity st of
        None \<Rightarrow> (None, st)
      | Some ident \<Rightarrow>
          if falsy_id (myDeviceId st) \<or> falsy_id (currentUserId st) then (None, st)
          else
            (let content = V3_DM @ bufToBase64url (msgIv @ gcm_encrypt w messageKey msgIv (encode_utf8 plaintext));
                 (envelopes, st) = seal_envelopes W R srv ident (the (myDeviceId st)) messageKey
                   (target_devices srv recipientUserId (the (currentUserId st)) (the (myDeviceId st))) st
             in (Some (content, envelopes), st)))"

definition decryptV3Internal ::
    "wasm \<Rightarrow> webcrypto \<Rightarrow> seed \<Rightarrow> jsstr \<Rightarrow> id \<Rightarrow> envelope list \<Rightarrow> e2e \<Rightarrow> jsstr option \<times> e2e" where
  "decryptV3Internal W w rnd content senderDeviceId envelopes st =
     (if identity st = None \<or> falsy_id (myDeviceId st) then (None, st)
      else
        (case map_of envelopes (the (myDeviceId st)) of
           None \<Rightarrow> (None, st)
         | Some ct \<Rightarrow>
             (case drDeviceDecrypt W rnd (deviceKeys st) senderDeviceId (the (myDeviceId st)) ct (e_db st) of
                (Plain messageKey, db) \<Rightarrow>
                  (Option.bind (base64urlToBuf (drop (length V3_DM) content)) (\<lambda>ctBuf.
                     map_option decode_utf8 (gcm_decrypt w messageKey (take 12 ctBuf) (drop 12 ctBuf))), st\<lparr>e_db := db\<rparr>)
              | (_, db) \<Rightarrow> (None, st\<lparr>e_db := db\<rparr>))))"

section \<open>Groups\<close>

definition encryptForGroup :: "wasm \<Rightarrow> jsstr \<Rightarrow> id \<Rightarrow> e2e \<Rightarrow> jsstr option \<times> e2e" where
  "encryptForGroup W content conversationId st =
     (if identity st = None \<or> \<not> initialized st then (Some content, st)
      else
        (case loadGroupSender conversationId (e_db st) of
           None \<Rightarrow> (Some content, st)
         | Some senderBytes \<Rightarrow>
             (case groupSenderEncrypt W senderBytes (encode_utf8 content) of
                None \<Rightarrow> (None, st)
              | Some (ct, s') \<Rightarrow> (Some (V2_GROUP @ bufToBase64url ct), st\<lparr>e_db := saveGroupSender conversationId s' (e_db st)\<rparr>))))"

definition decryptFromGroup :: "wasm \<Rightarrow> webcrypto \<Rightarrow> e2e_srv \<Rightarrow> jsstr \<Rightarrow> id \<Rightarrow> id \<Rightarrow> e2e \<Rightarrow> jsstr \<times> e2e" where
  "decryptFromGroup W w srv ciphertext conversationId senderId st =
     (if \<not> initialized st
      then (if starts_with ciphertext V2_DM \<or> starts_with ciphertext V2_GROUP then LOCKED else ciphertext, st)
      else if starts_with ciphertext V2_GROUP \<and> identity st \<noteq> None then
        (case base64urlToBuf (drop (length V2_GROUP) ciphertext) of
           None \<Rightarrow> (LOCKED, st)
         | Some data \<Rightarrow>
             (case loadGroupReceiver conversationId senderId (e_db st) of
                None \<Rightarrow> (NO_SENDER_KEY, st)
              | Some r \<Rightarrow>
                  (case groupReceiverDecrypt W r data of
                     None \<Rightarrow> (LOCKED, st)
                   | Some (pt, r') \<Rightarrow> (decode_utf8 pt, st\<lparr>e_db := saveGroupReceiver conversationId senderId r' (e_db st)\<rparr>))))
      else legacy_text w srv ciphertext senderId st)"

text \<open>\<open>doDistribute\<close> in the hook: nothing before start-up; the copies are posted when there is one, and a failed post throws after the new
  key has been stored.\<close>

definition distribute ::
    "wasm \<Rightarrow> webcrypto \<Rightarrow> seed \<Rightarrow> (id \<Rightarrow> seed) \<Rightarrow> (id \<Rightarrow> bytes) \<Rightarrow> e2e_srv \<Rightarrow> id \<Rightarrow> id list \<Rightarrow> e2e \<Rightarrow> bool \<times> e2e" where
  "distribute W w rnd rnds ivs srv conversationId memberUserIds st =
     (case identity st of
        None \<Rightarrow> (True, st)
      | Some ident \<Rightarrow>
          if \<not> initialized st then (True, st)
          else
            (case doDistribute W w rnd rnds ivs (v2_text srv) ident conversationId memberUserIds (e_db st) of
               (payloads, db) \<Rightarrow>
                 (let st = st\<lparr>e_db := db\<rparr>
                  in if payloads = [] then (True, st)
                     else (post_ok srv, st\<lparr>e_out := e_out st @ [PostSenderKeys conversationId payloads]\<rparr>))))"

definition encryptBinaryForGroup ::
    "wasm \<Rightarrow> webcrypto \<Rightarrow> seed \<Rightarrow> (id \<Rightarrow> seed) \<Rightarrow> (id \<Rightarrow> bytes) \<Rightarrow> e2e_srv \<Rightarrow> bytes \<Rightarrow> id \<Rightarrow> id list \<Rightarrow> e2e \<Rightarrow> bytes option \<times> e2e" where
  "encryptBinaryForGroup W w rnd rnds ivs srv data conversationId memberIds st =
     (if identity st = None \<or> \<not> initialized st then (Some data, st)
      else
        (let (ok, st) = (if loadGroupSender conversationId (e_db st) \<noteq> None \<or> memberIds = [] then (True, st)
                         else distribute W w rnd rnds ivs srv conversationId memberIds st)
         in if \<not> ok then (None, st)
            else case loadGroupSender conversationId (e_db st) of
                   None \<Rightarrow> (Some data, st)
                 | Some s \<Rightarrow>
                     (case groupSenderEncrypt W s data of
                        None \<Rightarrow> (None, st)
                      | Some (ct, s') \<Rightarrow>
                          (Some (encode_utf8 (V2_GROUP @ bufToBase64url ct)), st\<lparr>e_db := saveGroupSender conversationId s' (e_db st)\<rparr>))))"

definition decryptBinaryFromGroup :: "wasm \<Rightarrow> webcrypto \<Rightarrow> e2e_srv \<Rightarrow> bytes \<Rightarrow> id \<Rightarrow> id \<Rightarrow> e2e \<Rightarrow> bytes \<times> e2e" where
  "decryptBinaryFromGroup W w srv data conversationId senderId st =
     (case tryUtf8 data of
        Some text \<Rightarrow>
          if starts_with text V2_GROUP
          then (case decryptFromGroup W w srv text conversationId senderId st of (s, st) \<Rightarrow> (encode_utf8 s, st))
          else legacy_binary w srv data senderId st
      | None \<Rightarrow> legacy_binary w srv data senderId st)"

definition prefetchGroupSenderKeys ::
    "wasm \<Rightarrow> webcrypto \<Rightarrow> seed \<Rightarrow> (id \<Rightarrow> seed) \<Rightarrow> (id \<Rightarrow> bytes) \<Rightarrow> e2e_srv \<Rightarrow> id \<Rightarrow> id list \<Rightarrow> bool \<Rightarrow> e2e \<Rightarrow> bool \<times> e2e" where
  "prefetchGroupSenderKeys W w rnd rnds ivs srv conversationId memberUserIds socket st =
     (case identity st of
        None \<Rightarrow> (True, st)
      | Some ident \<Rightarrow>
          if \<not> initialized st \<or> falsy_id (currentUserId st) then (True, st)
          else
            (case ok_of (sender_entries srv conversationId) of
               None \<Rightarrow> (True, st)
             | Some entries \<Rightarrow>
                 (let me = the (currentUserId st);
                      (hasMySenderKey, failedSenders, db) = prefetch_all W w ident me conversationId entries (e_db st);
                      st = st\<lparr>e_db := db,
                              e_out := e_out st @ (if socket then map (RequestRedistribution conversationId) failedSenders else [])\<rparr>;
                      myEntryExists = list_ex (\<lambda>e. e_senderId e = me \<and> e_version e = 2) entries
                  in if \<not> hasMySenderKey \<and> \<not> myEntryExists
                     then distribute W w rnd rnds ivs srv conversationId memberUserIds st
                     else (True, st))))"

definition invalidateGroupKeys :: "id \<Rightarrow> e2e \<Rightarrow> e2e" where
  "invalidateGroupKeys conversationId st =
     st\<lparr>e_db := deleteAllGroupReceivers conversationId (deleteGroupSender conversationId (e_db st))\<rparr>"

section \<open>Start-up, recovery, rotation\<close>

text \<open>Registering this browser: the device keys, the post, the stored identifier; an exception leaves the stored identifier.  The first
  argument of the result tells whether the registration went through.\<close>

definition registerBrowser :: "wasm \<Rightarrow> seed \<Rightarrow> seed \<Rightarrow> e2e_srv \<Rightarrow> id \<Rightarrow> identity_keys \<Rightarrow> e2e \<Rightarrow> bool \<times> e2e" where
  "registerBrowser W r1 r2 srv userId keys st =
     (case getOrCreateDeviceKeys (ed25519_sign W) (generateDhKeypair W r1) (generateDhKeypair W r2) userId (ikSignSeed keys) (e_br st) of
        (None, br) \<Rightarrow> (False, st\<lparr>e_br := br\<rparr>)
      | (Some dk, br) \<Rightarrow>
          (let st = st\<lparr>e_br := br, deviceKeys := Some dk\<rparr>
           in case buildDeviceBundle (ikSignPub keys) dk of
                None \<Rightarrow> (False, st)
              | Some b \<Rightarrow>
                  (let st = st\<lparr>e_out := e_out st @ [PostDevice (bufToBase64url b)]\<rparr>
                   in case posted_device srv of
                        Answered d \<Rightarrow> (True, st\<lparr>e_br := storeDeviceId userId d (e_br st), myDeviceId := Some d\<rparr>)
                      | _ \<Rightarrow> (False, st))))"

definition stored_device :: "id \<Rightarrow> e2e \<Rightarrow> e2e" where
  "stored_device userId st = st\<lparr>myDeviceId := Option.bind (getStoredDeviceId userId (e_br st)) (\<lambda>x. x)\<rparr>"

definition load_legacy :: "webcrypto \<Rightarrow> bytes \<Rightarrow> bytes \<Rightarrow> id \<Rightarrow> e2e \<Rightarrow> e2e" where
  "load_legacy w rnd iv userId st =
     (case loadPrivateKey w rnd iv userId (e_br st) of
        (r, br) \<Rightarrow> st\<lparr>legacyPrivKey := (case r of Loaded k \<Rightarrow> Some k | _ \<Rightarrow> None), e_br := br\<rparr>)"

text \<open>The effect that runs once the user is known, in the three stretches between which another operation may raise
  \<open>initGeneration\<close>: \<open>Some gen\<close> goes on with the loading of the identity, \<open>Some keys\<close> with the last part.\<close>

definition init_begin :: "id \<Rightarrow> e2e \<Rightarrow> nat option \<times> e2e" where
  "init_begin userId st =
     (if userId = 0 \<or> initialized st \<and> identity st \<noteq> None \<or> initRunning st then (None, st)
      else (Some (initGeneration st + 1),
            st\<lparr>currentUserId := Some userId, e2eStatus := IdleStatus, initRunning := True, initGeneration := initGeneration st + 1\<rparr>))"

definition init_stop :: "e2e \<Rightarrow> e2e" where
  "init_stop st = st\<lparr>initRunning := False\<rparr>"

definition init_keys ::
    "wasm \<Rightarrow> webcrypto \<Rightarrow> (nat \<Rightarrow> seed) \<Rightarrow> bytes \<Rightarrow> bytes \<Rightarrow> e2e_srv \<Rightarrow> id \<Rightarrow> nat \<Rightarrow> identity_keys option \<Rightarrow> e2e \<Rightarrow> identity_keys option \<times> e2e" where
  "init_keys W w R rnd iv srv userId gen loaded st =
     (if gen \<noteq> initGeneration st then (None, init_stop st)
      else
        (case loaded of
           Some keys \<Rightarrow> (Some keys, if ok_of (recovery_blob srv) = None then st\<lparr>e2eStatus := NeedsSetup\<rparr> else st)
         | None \<Rightarrow>
             (case recovery_blob srv of
                Answered blob \<Rightarrow> (None, init_stop (st\<lparr>pendingRecoveryBlob := Some blob, e2eStatus := NeedsRecovery\<rparr>))
              | Unreachable \<Rightarrow> (None, init_stop st)
              | NotFound404 \<Rightarrow>
                  (let keys = generateIdentityKeys W (R 0) (R 1) (R 2)
                   in case saveIdentityKeys w rnd iv userId keys (e_db st) of
                        (False, db) \<Rightarrow> (None, init_stop (st\<lparr>e_db := db\<rparr>))
                      | (True, db) \<Rightarrow>
                          (case buildBundle keys of
                             None \<Rightarrow> (None, init_stop (st\<lparr>e_db := db\<rparr>))
                           | Some b \<Rightarrow>
                               (let st = st\<lparr>e_db := db, e_out := e_out st @ [PostBundle (bufToBase64url b)]\<rparr>
                                in if \<not> post_ok srv then (None, init_stop st)
                                   else (Some keys, st\<lparr>keysWereRotated := True, e2eStatus := NeedsSetup\<rparr>)))))))"

definition init_finish ::
    "wasm \<Rightarrow> webcrypto \<Rightarrow> (nat \<Rightarrow> seed) \<Rightarrow> bytes \<Rightarrow> bytes \<Rightarrow> e2e_srv \<Rightarrow> id \<Rightarrow> nat \<Rightarrow> identity_keys \<Rightarrow> e2e \<Rightarrow> e2e" where
  "init_finish W w R rnd iv srv userId gen keys st =
     (if gen \<noteq> initGeneration st then init_stop st
      else
        (let st = (load_legacy w rnd iv userId st)\<lparr>identity := Some keys, initialized := True\<rparr>;
             st = (case registerBrowser W (R 3) (R 4) srv userId keys st of
                     (True, st) \<Rightarrow> st | (False, st) \<Rightarrow> stored_device userId st);
             st = (if e2eStatus st \<noteq> NeedsSetup \<and> e2eStatus st \<noteq> KeysDesynced then st\<lparr>e2eStatus := ReadyStatus\<rparr> else st)
         in init_stop st))"

definition on_logout :: "e2e \<Rightarrow> e2e" where
  "on_logout st =
     st\<lparr>identity := None, legacyPrivKey := None, initialized := False, initRunning := False, currentUserId := None,
        keysWereRotated := False, pendingRecoveryBlob := None, myDeviceId := None, deviceKeys := None,
        legacyKeyCache := [], peerV2Cache := [], deviceBundleCache := [], e2eStatus := IdleStatus\<rparr>"

text \<open>The recovery blob: 256 bytes in a fixed layout.\<close>

definition pack_recovery :: "identity_keys \<Rightarrow> bytes option" where
  "pack_recovery k =
     Option.bind (array_set (replicate 256 0) (id_ikDhSecret k) 0) (\<lambda>b.
     Option.bind (array_set b (ikSignSeed k) 32) (\<lambda>b.
     Option.bind (array_set b (id_spkSecret k) 64) (\<lambda>b.
     Option.bind (array_set b (id_ikDhPub k) 96) (\<lambda>b.
     Option.bind (array_set b (ikSignPub k) 128) (\<lambda>b.
     Option.bind (array_set b (id_spkPub k) 160) (\<lambda>b.
       array_set b (id_spkSig k) 192))))))"

definition unpack_recovery :: "bytes \<Rightarrow> identity_keys" where
  "unpack_recovery b =
     \<lparr>ikSignSeed = js_slice 32 64 b, ikSignPub = js_slice 128 160 b, id_ikDhSecret = js_slice 0 32 b, id_ikDhPub = js_slice 96 128 b,
      id_spkSecret = js_slice 64 96 b, id_spkPub = js_slice 160 192 b, id_spkSig = js_slice 192 256 b\<rparr>"

definition unlockWithPin ::
    "wasm \<Rightarrow> webcrypto \<Rightarrow> (nat \<Rightarrow> seed) \<Rightarrow> bytes \<Rightarrow> bytes \<Rightarrow> e2e_srv \<Rightarrow> jsstr \<Rightarrow> e2e \<Rightarrow> bool \<times> e2e" where
  "unlockWithPin W w R rnd iv srv pin st =
     (if \<not> truthy (pendingRecoveryBlob st) \<or> falsy_id (currentUserId st) then (False, st)
      else
        (let userId = the (currentUserId st)
         in case Option.bind (base64urlToBuf (the (pendingRecoveryBlob st))) (\<lambda>b. decryptKeyWithPin W b (encode_utf8 pin)) of
              None \<Rightarrow> (False, st)
            | Some keyBytes \<Rightarrow>
                (let keys = unpack_recovery keyBytes
                 in case saveIdentityKeys w rnd iv userId keys (e_db st) of
                      (False, db) \<Rightarrow> (False, st\<lparr>e_db := db\<rparr>)
                    | (True, db) \<Rightarrow>
                        (let st = (load_legacy w rnd iv userId (st\<lparr>e_db := db\<rparr>))
                               \<lparr>identity := Some keys, initialized := True, pendingRecoveryBlob := None\<rparr>;
                             st = (case registerBrowser W (R 3) (R 4) srv userId keys st of
                                     (True, st) \<Rightarrow> st | (False, st) \<Rightarrow> stored_device userId st)
                         in (True, st\<lparr>e2eStatus := ReadyStatus\<rparr>)))))"

definition setupRecovery :: "wasm \<Rightarrow> seed \<Rightarrow> e2e_srv \<Rightarrow> jsstr \<Rightarrow> bool \<Rightarrow> e2e \<Rightarrow> bool \<times> e2e" where
  "setupRecovery W rnd srv pin isReset st =
     (case identity st of
        None \<Rightarrow> (False, st)
      | Some keys \<Rightarrow>
          if \<not> initialized st \<or> falsy_id (currentUserId st) then (False, st)
          else
            (case pack_recovery keys of
               None \<Rightarrow> (False, st)
             | Some blob \<Rightarrow>
                 (let st = st\<lparr>e_out := e_out st @ [PostRecovery (bufToBase64url (encryptKeyWithPin W rnd blob (encode_utf8 pin))) isReset]\<rparr>
                  in if \<not> post_ok srv then (False, st)
                     else (True, if e2eStatus st = NeedsSetup then st\<lparr>e2eStatus := ReadyStatus\<rparr> else st))))"

definition resetToNewKeys ::
    "wasm \<Rightarrow> webcrypto \<Rightarrow> (nat \<Rightarrow> seed) \<Rightarrow> bytes \<Rightarrow> bytes \<Rightarrow> e2e_srv \<Rightarrow> id \<Rightarrow> e2e \<Rightarrow> bool \<times> e2e" where
  "resetToNewKeys W w R rnd iv srv myUserId st =
     (if myUserId = 0 then (False, st)
      else
        (let st = st\<lparr>initGeneration := initGeneration st + 1, initRunning := False, legacyKeyCache := [], deviceBundleCache := []\<rparr>;
             keys = generateIdentityKeys W (R 0) (R 1) (R 2)
         in case saveIdentityKeys w rnd iv myUserId keys (e_db st) of
              (False, db) \<Rightarrow> (False, st\<lparr>e_db := db\<rparr>)
            | (True, db) \<Rightarrow>
                (let st = st\<lparr>e_db := db\<rparr>
                 in case buildBundle keys of
                      None \<Rightarrow> (False, st)
                    | Some b \<Rightarrow>
                        (let st = st\<lparr>e_out := e_out st @ [PostBundle (bufToBase64url b)]\<rparr>
                         in if \<not> post_ok srv then (False, st)
                            else
                              (let st = st\<lparr>e_out := e_out st @ [DeleteMySenderKeys], e_br := clearDeviceKeys myUserId (e_br st), deviceKeys := None\<rparr>;
                                   st = (case registerBrowser W (R 3) (R 4) srv myUserId keys st of
                                           (True, st) \<Rightarrow> st
                                         | (False, st) \<Rightarrow> st\<lparr>e_br := clearDeviceId myUserId (e_br st), myDeviceId := None\<rparr>)
                               in (True, st\<lparr>identity := Some keys, initialized := True, keysWereRotated := True, e2eStatus := NeedsSetup\<rparr>))))))"

definition clearAllKeyMaterial :: "id option \<Rightarrow> e2e \<Rightarrow> e2e" where
  "clearAllKeyMaterial user st =
     (if falsy_id user then st
      else
        (let u = the user
         in st\<lparr>e_db := deleteIdentityKeys u (clearAllCryptoState u (e_db st)), e_br := clearDeviceKeys u (clearDeviceId u (e_br st)),
               myDeviceId := None, deviceKeys := None, deviceBundleCache := []\<rparr>))"

end
