(* ===== verification/ClientMetadata.thy ===== *)
theory ClientMetadata
  imports Metadata
begin

text \<open>
  How the client reads message metadata, \<open>client/src/lib/parseMetadata.ts\<close>: anything that is not well formed becomes the default
  instead of an error.  \<open>pf\<close> is \<open>parseFloat\<close> of the \<open>String\<close> of a JSON value that is not a number (\<open>None\<close> is \<open>NaN\<close>).
\<close>

record client_meta =
  waveform :: "rat list"
  duration :: rat
  mimeType :: jsstr
  encrypted :: bool
  destructAfterSeconds :: "int option"

definition client_forbidden_keys :: "jsstr list" where
  "client_forbidden_keys = map js [''__proto__'', ''constructor'', ''prototype'', ''toString'', ''valueOf'']"

definition meta_defaults :: client_meta where
  "meta_defaults = \<lparr>waveform = [], duration = 0, mimeType = js ''audio/webm'', encrypted = False, destructAfterSeconds = None\<rparr>"

definition client_safe_mime :: "json_env \<Rightarrow> jsstr \<Rightarrow> bool" where
  "client_safe_mime J mime =
     (let n = trim (toLower J mime)
      in if \<not> starts_with n (js ''audio/'') then False
         else if length n > 100 then False
         else if list_ex (includes_str n) (map js [''html'', ''javascript'', ''script'', ''<'', ''>'']) then False
         else True)"

text \<open>\<open>typeof v === 'number' ? v : parseFloat(String(v))\<close>; \<open>Some\<close> only for a finite number.\<close>

definition finite_number :: "(json \<Rightarrow> jsnum option) \<Rightarrow> json \<Rightarrow> rat option" where
  "finite_number pf v =
     (case (case v of JNum n \<Rightarrow> Some n | _ \<Rightarrow> pf v) of Some (Fin x) \<Rightarrow> Some x | _ \<Rightarrow> None)"

definition read_point :: "(json \<Rightarrow> jsnum option) \<Rightarrow> json \<Rightarrow> rat" where
  "read_point pf v = (case finite_number pf v of None \<Rightarrow> 1 / 20 | Some x \<Rightarrow> min 1 (max 0 x))"

definition read_waveform :: "(json \<Rightarrow> jsnum option) \<Rightarrow> json option \<Rightarrow> rat list" where
  "read_waveform pf v = (case v of Some (JArr ps) \<Rightarrow> map (read_point pf) (take 2000 ps) | _ \<Rightarrow> [])"

definition read_duration :: "(json \<Rightarrow> jsnum option) \<Rightarrow> json option \<Rightarrow> rat" where
  "read_duration pf v =
     (case v of
        None \<Rightarrow> 0
      | Some d \<Rightarrow> (case finite_number pf d of Some n \<Rightarrow> if 0 \<le> n \<and> n \<le> 10800 then n else 0 | None \<Rightarrow> 0))"

definition read_mime :: "json_env \<Rightarrow> json option \<Rightarrow> jsstr" where
  "read_mime J v =
     (case v of
        Some (JStr m) \<Rightarrow> if trim m \<noteq> [] \<and> client_safe_mime J (trim m) then trim m else mimeType meta_defaults
      | _ \<Rightarrow> mimeType meta_defaults)"

definition read_destruct :: "(json \<Rightarrow> jsnum option) \<Rightarrow> json option \<Rightarrow> int option" where
  "read_destruct pf v =
     (case v of
        None \<Rightarrow> None
      | Some d \<Rightarrow>
          (case finite_number pf d of
             Some n \<Rightarrow> if 1 \<le> n \<and> n \<le> 7 * 24 * 3600 then Some (math_round n) else None
           | None \<Rightarrow> None))"

definition parseMetadata :: "json_env \<Rightarrow> (json \<Rightarrow> jsnum option) \<Rightarrow> jsstr option \<Rightarrow> client_meta" where
  "parseMetadata J pf raw =
     (if \<not> truthy raw then meta_defaults
      else case parse J (the raw) of
        Some (JObj ps) \<Rightarrow>
          if list_ex (\<lambda>k. k \<in> set (map fst ps)) client_forbidden_keys then meta_defaults
          else \<lparr>waveform = read_waveform pf (map_of ps (js ''waveform'')),
                duration = read_duration pf (map_of ps (js ''duration'')),
                mimeType = read_mime J (map_of ps (js ''mimeType'')),
                encrypted = (map_of ps (js ''encrypted'') = Some (JBool True)),
                destructAfterSeconds = read_destruct pf (map_of ps (js ''destructAfterSeconds''))\<rparr>
      | _ \<Rightarrow> meta_defaults)"

definition hasMetadata :: "jsstr option \<Rightarrow> bool" where
  "hasMetadata raw = (case raw of None \<Rightarrow> False | Some s \<Rightarrow> length s > 2)"

section \<open>Whatever arrives, the result is in range\<close>

definition client_meta_ok :: "json_env \<Rightarrow> client_meta \<Rightarrow> bool" where
  "client_meta_ok J m \<longleftrightarrow>
     length (waveform m) \<le> 2000 \<and> list_all (\<lambda>x. 0 \<le> x \<and> x \<le> 1) (waveform m)
     \<and> 0 \<le> duration m \<and> duration m \<le> 10800
     \<and> (mimeType m = js ''audio/webm'' \<or> client_safe_mime J (mimeType m))
     \<and> (case destructAfterSeconds m of None \<Rightarrow> True | Some n \<Rightarrow> 1 \<le> n \<and> n \<le> 604800)"

lemma read_waveform_ok: "length (read_waveform pf v) \<le> 2000 \<and> list_all (\<lambda>x. 0 \<le> x \<and> x \<le> 1) (read_waveform pf v)"
  by (auto simp: read_waveform_def read_point_def list_all_iff split: option.splits json.splits)

lemma read_duration_ok: "0 \<le> read_duration pf v \<and> read_duration pf v \<le> 10800"
  by (auto simp: read_duration_def split: option.splits)

lemma read_mime_ok: "read_mime J v = js ''audio/webm'' \<or> client_safe_mime J (read_mime J v)"
  by (auto simp: read_mime_def meta_defaults_def split: option.splits json.splits)

lemma read_destruct_ok: "case read_destruct pf v of None \<Rightarrow> True | Some n \<Rightarrow> 1 \<le> n \<and> n \<le> 604800"
  using math_round_bounds[of 1 _ 604800] by (auto simp: read_destruct_def split: option.splits)


section \<open>Agreement with the server\<close>

lemma server_mime_client: "isSafeAudioMime J m \<Longrightarrow> client_safe_mime J m"
  by (auto simp: isSafeAudioMime_def client_safe_mime_def Let_def split: if_splits)

lemma read_waveform_stored:
  "length xs \<le> 2000 \<Longrightarrow> \<forall>x\<in>set xs. 0 \<le> x \<and> x \<le> 1 \<Longrightarrow> read_waveform pf (Some (JArr (map (JNum \<circ> Fin) xs))) = xs"
  by (simp add: read_waveform_def read_point_def finite_number_def map_idI)

definition server_view :: "validated \<Rightarrow> client_meta" where
  "server_view v =
     \<lparr>waveform = (case vm_waveform v of None \<Rightarrow> [] | Some xs \<Rightarrow> xs),
      duration = (case vm_duration v of None \<Rightarrow> 0 | Some x \<Rightarrow> x),
      mimeType = (case vm_mimeType v of None \<Rightarrow> js ''audio/webm'' | Some m \<Rightarrow> m),
      encrypted = vm_encrypted v, destructAfterSeconds = vm_destruct v\<rparr>"

lemma read_mime_stored:
  assumes "toLower J [] = []" "isSafeAudioMime J m" "trim m = m"
  shows "read_mime J (Some (JStr m)) = m"
proof -
  have "m \<noteq> []" using assms(1,2) by (auto simp: isSafeAudioMime_def starts_with_def Let_def)
  then show ?thesis using assms(2,3) server_mime_client by (simp add: read_mime_def)
qed

lemma read_stored:
  assumes "toLower J [] = []" "valid_meta J v"
  shows "read_waveform pf (map_of (result_props v) (js ''waveform'')) = waveform (server_view v)"
    "read_duration pf (map_of (result_props v) (js ''duration'')) = duration (server_view v)"
    "read_mime J (map_of (result_props v) (js ''mimeType'')) = mimeType (server_view v)"
    "read_destruct pf (map_of (result_props v) (js ''destructAfterSeconds'')) = destructAfterSeconds (server_view v)"
proof -
  show "read_waveform pf (map_of (result_props v) (js ''waveform'')) = waveform (server_view v)"
    using assms(2) read_waveform_stored
    by (cases "vm_waveform v") (auto simp: server_view_def valid_meta_def MAX_WAVEFORM_POINTS_def read_waveform_def)
  show "read_duration pf (map_of (result_props v) (js ''duration'')) = duration (server_view v)"
    using assms(2)
    by (cases "vm_duration v")
      (auto simp: server_view_def valid_meta_def duration_ok_def MAX_DURATION_SEC_def read_duration_def finite_number_def)
  show "read_mime J (map_of (result_props v) (js ''mimeType'')) = mimeType (server_view v)"
    using assms read_mime_stored
    by (cases "vm_mimeType v") (auto simp: server_view_def valid_meta_def read_mime_def meta_defaults_def)
  show "read_destruct pf (map_of (result_props v) (js ''destructAfterSeconds'')) = destructAfterSeconds (server_view v)"
    using assms(2)
    by (cases "vm_destruct v") (auto simp: server_view_def valid_meta_def read_destruct_def finite_number_def)
qed

lemma json_lawsD:
  assumes "json_laws J"
  shows "parse J t = Some j \<Longrightarrow> doubles (fl J) j" "doubles (fl J) j \<Longrightarrow> stringify J j \<noteq> []"
    "doubles (fl J) j \<Longrightarrow> parse J (stringify J j) = Some j"
  using assms by (simp_all add: json_laws_def)

lemma allowed_not_forbidden: "set allowedKeys \<inter> set client_forbidden_keys = {}"
  by (simp add: allowedKeys_def client_forbidden_keys_def)



end
