(* ===== verification/ClientQueue.thy ===== *)
theory ClientQueue
  imports Prelude
begin

text \<open>
  The offline queue of \<open>client/src/hooks/useOfflineQueue.ts\<close>.  The hook's state is the queue (the ref and the React state are
  written together), the online flag and, while \<open>flush\<close> runs, the rest of its loop: the messages still to send and those that
  failed.  \<open>flush\<close> awaits \<open>onFlush\<close> once per message, so other calls can run in between; one step is one call or one
  answer of \<open>onFlush\<close>.  The output of a step lists the messages that were sent and the failures that were reported.
\<close>

record queued =
  queueId :: jsstr
  q_conversationId :: id
  q_content :: jsstr
  q_replyToId :: "id option"
  q_createdAt :: time
  q_senderId :: id
  q_otherUserId :: "id option"

record flush_run =
  toFlush :: "queued list"
  failed :: "queued list"

record offline_queue =
  queueRef :: "queued list"
  isOnline :: bool
  flushing :: "flush_run option"

definition useOfflineQueue :: "bool \<Rightarrow> offline_queue" where
  "useOfflineQueue online = \<lparr>queueRef = [], isOnline = online, flushing = None\<rparr>"

definition syncQueue :: "queued list \<Rightarrow> offline_queue \<Rightarrow> offline_queue" where
  "syncQueue next q = q\<lparr>queueRef := next\<rparr>"

text \<open>\<open>qid\<close> is the identifier made from the clock and the random number.\<close>

definition enqueue :: "jsstr \<Rightarrow> queued \<Rightarrow> offline_queue \<Rightarrow> jsstr \<times> offline_queue" where
  "enqueue qid msg q =
     (let item = msg\<lparr>queueId := qid\<rparr> in (queueId item, syncQueue (queueRef q @ [item]) q))"

definition flush :: "offline_queue \<Rightarrow> offline_queue" where
  "flush q =
     (if flushing q \<noteq> None then q
      else if queueRef q = [] then q
      else q\<lparr>flushing := Some \<lparr>toFlush = queueRef q, failed = []\<rparr>\<rparr>)"

text \<open>The answer of \<open>onFlush\<close> for the current message: sent, or \<open>false\<close> or a throw.\<close>

datatype q_output = Sent queued | FlushFailed queued

definition flush_step :: "bool \<Rightarrow> offline_queue \<Rightarrow> q_output list \<times> offline_queue" where
  "flush_step ok q =
     (case flushing q of
        None \<Rightarrow> ([], q)
      | Some r \<Rightarrow>
          (case toFlush r of
             [] \<Rightarrow> ([], q)
           | msg # rest \<Rightarrow>
               (let fl = (if ok then failed r else failed r @ [msg]);
                    out = (if ok then [Sent msg] else [FlushFailed msg])
                in (out, if rest = [] then (syncQueue fl q)\<lparr>flushing := None\<rparr>
                         else q\<lparr>flushing := Some \<lparr>toFlush = rest, failed = fl\<rparr>\<rparr>))))"

definition goOnline :: "offline_queue \<Rightarrow> offline_queue" where
  "goOnline q = flush (q\<lparr>isOnline := True\<rparr>)"

definition goOffline :: "offline_queue \<Rightarrow> offline_queue" where
  "goOffline q = q\<lparr>isOnline := False\<rparr>"

datatype q_event = Enqueue jsstr queued | Flush | Answer bool | Online | Offline

fun q_step :: "q_event \<Rightarrow> offline_queue \<Rightarrow> q_output list \<times> offline_queue" where
  "q_step (Enqueue qid msg) q = ([], snd (enqueue qid msg q))"
| "q_step Flush q = ([], flush q)"
| "q_step (Answer ok) q = flush_step ok q"
| "q_step Online q = ([], goOnline q)"
| "q_step Offline q = ([], goOffline q)"

fun q_run :: "q_event list \<Rightarrow> offline_queue \<Rightarrow> q_output list \<times> offline_queue" where
  "q_run [] q = ([], q)"
| "q_run (e # es) q = (let (out, q) = q_step e q; (out', q) = q_run es q in (out @ out', q))"

section \<open>Reading a run\<close>

text \<open>The answers of a run, and the outcome of a loop over a batch with given answers.\<close>

fun answers :: "q_event list \<Rightarrow> bool list" where
  "answers [] = []"
| "answers (Answer ok # es) = ok # answers es"
| "answers (_ # es) = answers es"

fun batch_outputs :: "queued list \<Rightarrow> bool list \<Rightarrow> q_output list" where
  "batch_outputs (m # ms) (ok # oks) = (if ok then Sent m else FlushFailed m) # batch_outputs ms oks"
| "batch_outputs _ _ = []"

fun batch_failed :: "queued list \<Rightarrow> bool list \<Rightarrow> queued list" where
  "batch_failed (m # ms) (ok # oks) = (if ok then batch_failed ms oks else m # batch_failed ms oks)"
| "batch_failed _ _ = []"

lemma q_run_append: "q_run (es @ fs) q = (let (o1, q) = q_run es q; (o2, q) = q_run fs q in (o1 @ o2, q))"
  by (induction es arbitrary: q) (simp_all add: Let_def split: prod.splits)

text \<open>The other calls leave a running loop alone; they may only change the queue that it will overwrite.\<close>

lemma other_step:
  assumes "\<And>ok. e \<noteq> Answer ok" "flushing q = Some r"
  shows "\<exists>qs on. q_step e q = ([], q\<lparr>queueRef := qs, isOnline := on\<rparr>)"
proof (cases e)
  case (Enqueue qid msg)
  then show ?thesis
    by (intro exI[of _ "queueRef q @ [msg\<lparr>queueId := qid\<rparr>]"] exI[of _ "isOnline q"]) (simp add: enqueue_def syncQueue_def)
next
  case Flush
  then show ?thesis using assms(2) by (intro exI[of _ "queueRef q"] exI[of _ "isOnline q"]) (simp add: flush_def)
next
  case Online
  then show ?thesis using assms(2) by (intro exI[of _ "queueRef q"] exI[of _ True]) (simp add: goOnline_def flush_def)
next
  case Offline
  then show ?thesis by (intro exI[of _ "queueRef q"] exI[of _ False]) (simp add: goOffline_def)
qed (use assms(1) in blast)

lemma running_loop:
  assumes "flushing q = Some \<lparr>toFlush = ms, failed = fl\<rparr>" "ms \<noteq> []" "length (answers es) = length ms - 1"
  shows "\<exists>on. q_run (es @ [Answer ok]) q
    = (batch_outputs ms (answers es @ [ok]),
       \<lparr>queueRef = fl @ batch_failed ms (answers es @ [ok]), isOnline = on, flushing = None\<rparr>)"
  using assms
proof (induction es arbitrary: q ms fl)
  case Nil
  then obtain m where "ms = [m]" by (cases ms) auto
  with Nil show ?case
    by (intro exI[of _ "isOnline q"]) (auto simp: flush_step_def syncQueue_def Let_def)
next
  case (Cons e es)
  show ?case
  proof (cases "\<exists>b. e = Answer b")
    case True
    then obtain b where e: "e = Answer b" by blast
    then obtain m ms' where m: "ms = m # ms'" "Suc (length (answers es)) = length ms'"
      using Cons.prems by (cases ms) auto
    then have ms: "ms = m # ms'" "ms' \<noteq> []" "length (answers es) = length ms' - 1" by auto
    let ?q = "q\<lparr>flushing := Some \<lparr>toFlush = ms', failed = (if b then fl else fl @ [m])\<rparr>\<rparr>"
    have step: "q_step e q = ([if b then Sent m else FlushFailed m], ?q)"
      using Cons.prems(1) ms e by (simp add: flush_step_def Let_def)
    have ih: "\<exists>on. q_run (es @ [Answer ok]) ?q
      = (batch_outputs ms' (answers es @ [ok]),
         \<lparr>queueRef = (if b then fl else fl @ [m]) @ batch_failed ms' (answers es @ [ok]), isOnline = on, flushing = None\<rparr>)"
      by (rule Cons.IH) (use ms in simp_all)
    then show ?thesis using step ms e by auto
  next
    case False
    then obtain qs on where step: "q_step e q = ([], q\<lparr>queueRef := qs, isOnline := on\<rparr>)"
      using other_step[of e q] Cons.prems(1) by blast
    have "answers (e # es) = answers es" using False by (cases e) auto
    with Cons.prems step Cons.IH[of "q\<lparr>queueRef := qs, isOnline := on\<rparr>" ms fl] show ?thesis by auto
  qed
qed

section \<open>Properties\<close>

text \<open>C38. What a flush does, whatever is called while it runs.  Once started, it ends after one answer per message of its batch; the
  messages are sent or reported in the order they were queued, the queue is then exactly the messages that failed, in order, and
  nothing else.  So each message of the batch is sent or kept, never both and never dropped; when every answer is positive the
  whole batch was sent in order and the queue is empty.\<close>

theorem flush_completes:
  assumes "flushing q = None" "queueRef q \<noteq> []" "length (answers es) = length (queueRef q) - 1"
    "q_run (Flush # es @ [Answer ok]) q = (out, q')"
  shows "flushing q' = None
    \<and> out = batch_outputs (queueRef q) (answers es @ [ok])
    \<and> queueRef q' = batch_failed (queueRef q) (answers es @ [ok])
    \<and> (list_all id (answers es @ [ok]) \<longrightarrow> out = map Sent (queueRef q) \<and> queueRef q' = [])"
proof -
  let ?q = "q\<lparr>flushing := Some \<lparr>toFlush = queueRef q, failed = []\<rparr>\<rparr>"
  have "q_run (Flush # es @ [Answer ok]) q = q_run (es @ [Answer ok]) ?q"
    using assms(1,2) by (simp add: flush_def)
  then have res: "flushing q' = None" "out = batch_outputs (queueRef q) (answers es @ [ok])"
    "queueRef q' = batch_failed (queueRef q) (answers es @ [ok])"
    using running_loop[of ?q "queueRef q" "[]" es ok] assms(2-4) by auto
  have all_sent: "length bs = length ms \<Longrightarrow> list_all id bs \<Longrightarrow> batch_outputs ms bs = map Sent ms \<and> batch_failed ms bs = []"
    for ms :: "queued list" and bs
    by (induction ms bs rule: batch_failed.induct) auto
  have "length (answers es @ [ok]) = length (queueRef q)" using assms(2,3) by (cases "queueRef q") auto
  from all_sent[OF this] show ?thesis unfolding res(2,3) using res(1) by simp
qed

abbreviation demo_msg :: "jsstr \<Rightarrow> queued" where
  "demo_msg t \<equiv> \<lparr>queueId = t, q_conversationId = 1, q_content = t, q_replyToId = None, q_createdAt = 0, q_senderId = 7,
     q_otherUserId = Some 8\<rparr>"

theorem flush_completes_witness:
  "q_run [Flush, Enqueue [3] (demo_msg [3]), Answer True, Answer False] \<lparr>queueRef = [demo_msg [1], demo_msg [2]], isOnline = True, flushing = None\<rparr>
   = ([Sent (demo_msg [1]), FlushFailed (demo_msg [2])], \<lparr>queueRef = [demo_msg [2]], isOnline = True, flushing = None\<rparr>)"
proof -
  let ?q = "\<lparr>queueRef = [demo_msg [1], demo_msg [2]], isOnline = True, flushing = None\<rparr>"
  obtain out q' where r: "q_run (Flush # [Enqueue [3] (demo_msg [3]), Answer True] @ [Answer False]) ?q = (out, q')"
    by fastforce
  have "flushing q' = None \<and> out = [Sent (demo_msg [1]), FlushFailed (demo_msg [2])] \<and> queueRef q' = [demo_msg [2]]"
    using flush_completes[OF _ _ _ r] by simp
  moreover have "isOnline q' = True"
    using r by (auto simp: flush_def flush_step_def enqueue_def syncQueue_def Let_def)
  ultimately show ?thesis using r by (cases q') simp
qed

text \<open>A message queued while a flush is running is lost: it is neither sent by that flush nor in the queue after it, unless an
  equal message was already in the batch.\<close>

theorem enqueue_during_flush_lost:
  assumes "flushing q = None" "queueRef q \<noteq> []" "length (answers (es @ fs)) = length (queueRef q) - 1"
    "m\<lparr>queueId := qid\<rparr> \<notin> set (queueRef q)"
    "q_run (Flush # (es @ Enqueue qid m # fs) @ [Answer ok]) q = (out, q')"
  shows "m\<lparr>queueId := qid\<rparr> \<notin> set (queueRef q') \<and> Sent (m\<lparr>queueId := qid\<rparr>) \<notin> set out"
proof -
  let ?es = "es @ Enqueue qid m # fs"
  let ?q = "q\<lparr>flushing := Some \<lparr>toFlush = queueRef q, failed = []\<rparr>\<rparr>"
  have ans: "answers (as @ bs) = answers as @ answers bs" for as bs
    by (induction as rule: answers.induct) auto
  then have len: "length (answers ?es) = length (queueRef q) - 1" using assms(3) by simp
  have "q_run (Flush # ?es @ [Answer ok]) q = q_run (?es @ [Answer ok]) ?q"
    using assms(1,2) by (simp add: flush_def)
  then have res: "out = batch_outputs (queueRef q) (answers ?es @ [ok])"
    "queueRef q' = batch_failed (queueRef q) (answers ?es @ [ok])"
    using running_loop[of ?q "queueRef q" "[]" ?es ok] assms(2,5) len by auto
  have sub: "set (batch_failed ms bs) \<subseteq> set ms \<and> (Sent x \<in> set (batch_outputs ms bs) \<longrightarrow> x \<in> set ms)" for ms bs x
    by (induction ms bs rule: batch_failed.induct) (auto split: if_splits)
  show ?thesis unfolding res using sub assms(4) by blast
qed

theorem enqueue_during_flush_lost_witness:
  "let q = \<lparr>queueRef = [demo_msg [1]], isOnline = True, flushing = None\<rparr>;
       (out, q') = q_run (Flush # ([] @ Enqueue [2] (demo_msg [9]) # []) @ [Answer True]) q
   in (demo_msg [9])\<lparr>queueId := [2]\<rparr> \<notin> set (queueRef q') \<and> Sent ((demo_msg [9])\<lparr>queueId := [2]\<rparr>) \<notin> set out"
  using enqueue_during_flush_lost[of "\<lparr>queueRef = [demo_msg [1]], isOnline = True, flushing = None\<rparr>" "[]" "[]" "[2]" "demo_msg [9]" True]
  by (auto split: prod.splits simp del: q_run.simps)

end
