(* ===== verification/ClientMessages.thy ===== *)
theory ClientMessages
  imports E2E ClientMetadata ClientQueue
begin

text \<open>
  The message list of an open conversation, \<open>client/src/hooks/useMessages.ts\<close>: decryption of the history and of arriving
  messages over the hook of \<open>E2E\<close>, the updates of the list (every \<open>setMessages\<close> is one function on the list), sending, the
  offline queue's callback, self-destruct timers and the typing indicator.  Requests take their answers as arguments; decryptions
  of one batch run in list order; what is emitted to the socket is logged.
\<close>

section \<open>Messages\<close>

record reply =
  rp_id :: "id option"
  rp_content :: "jsstr option"

record cmsg =
  m_id :: "id option"
  m_content :: jsstr
  m_senderId :: id
  m_conversationId :: id
  m_createdAt :: time
  m_editedAt :: "time option"
  m_deletedAt :: "time option"
  m_isRead :: bool
  m_reactions :: "jsstr list"
  m_replyToId :: "id option"
  m_replyTo :: "reply option"
  m_fileUrl :: "jsstr option"
  m_metadata :: "jsstr option"
  m_scheduledAt :: "time option"
  m_isPending :: bool
  m_sendFailed :: bool
  m_queueId :: "jsstr option"
  m_localBlob :: bool
  m_isLegacy :: bool
  m_pendingCipher :: "jsstr option"
  m_senderDeviceId :: "int option"
  m_envelopes :: "envelope list"

datatype conv_type = DIRECT | GROUP | CHANNEL

text \<open>The hook's arguments, and what its asynchronous calls draw on.\<close>

record mprops =
  conversationId :: "id option"
  p_currentUserId :: "id option"
  socket :: "bool option"
  otherUserId :: "id option"
  conversationType :: conv_type
  groupMemberIds :: "id list"

record menv =
  en_wasm :: wasm
  en_crypto :: webcrypto
  en_srv :: e2e_srv
  en_seed :: seed
  en_json :: json_env
  en_number :: "json \<Rightarrow> jsnum option"

datatype m_emit =
    SendMessage id jsstr "id option" "jsstr option" "time option" "int option" "envelope list option"
  | EditMessage id jsstr
  | DeleteMessage id
  | ToggleReaction id jsstr
  | MarkAsRead id
  | Typing id bool

definition isDirect :: "mprops \<Rightarrow> bool" where
  "isDirect p \<longleftrightarrow> conversationType p = DIRECT \<and> \<not> falsy_id (otherUserId p)"

definition isGroup :: "mprops \<Rightarrow> bool" where
  "isGroup p \<longleftrightarrow> conversationType p = GROUP \<and> \<not> falsy_id (conversationId p)"

section \<open>Encryption by conversation type\<close>

definition encryptContent :: "menv \<Rightarrow> mprops \<Rightarrow> jsstr \<Rightarrow> e2e \<Rightarrow> jsstr option \<times> e2e" where
  "encryptContent en p content st =
     (if isDirect p then encrypt (en_wasm en) (en_seed en) (en_srv en) content (the (otherUserId p)) st
      else if isGroup p then encryptForGroup (en_wasm en) content (the (conversationId p)) st
      else (Some content, st))"

definition decryptContent :: "menv \<Rightarrow> mprops \<Rightarrow> jsstr \<Rightarrow> id \<Rightarrow> e2e \<Rightarrow> jsstr \<times> e2e" where
  "decryptContent en p ciphertext senderId st =
     (if isDirect p then decrypt (en_wasm en) (en_crypto en) (en_seed en) (en_srv en) ciphertext (the (otherUserId p)) st
      else if isGroup p then decryptFromGroup (en_wasm en) (en_crypto en) (en_srv en) ciphertext (the (conversationId p)) senderId st
      else (ciphertext, st))"

text \<open>\<open>encryptDirect\<close>: one envelope per device when there is one, else the ratchet of the pair.\<close>

record direct_payload =
  dp_payload :: jsstr
  dp_envelopes :: "envelope list option"
  dp_senderDeviceId :: "int option"

definition encryptDirect :: "menv \<Rightarrow> (nat \<Rightarrow> seed) \<Rightarrow> bytes \<Rightarrow> bytes \<Rightarrow> mprops \<Rightarrow> jsstr \<Rightarrow> e2e \<Rightarrow> direct_payload option \<times> e2e" where
  "encryptDirect en R messageKey iv p content st =
     (let me = myDeviceId st;
          (v3, st) = (if falsy_id me \<or> falsy_id (otherUserId p) then (None, st)
                      else encryptV3Internal (en_wasm en) (en_crypto en) R (en_srv en) messageKey iv content (the (otherUserId p)) st)
      in case v3 of
           Some (c, e # es) \<Rightarrow> (Some \<lparr>dp_payload = c, dp_envelopes = Some (e # es), dp_senderDeviceId = me\<rparr>, st)
         | _ \<Rightarrow>
             (case encrypt (en_wasm en) (en_seed en) (en_srv en) content (the (otherUserId p)) st of
                (None, st) \<Rightarrow> (None, st)
              | (Some c, st) \<Rightarrow> (Some \<lparr>dp_payload = c, dp_envelopes = None, dp_senderDeviceId = None\<rparr>, st)))"

definition b64_text :: "nat \<Rightarrow> bool" where
  "b64_text c \<longleftrightarrow> 65 \<le> c \<and> c \<le> 90 \<or> 97 \<le> c \<and> c \<le> 122 \<or> digit c \<or> c = 95 \<or> c = 45"

definition versioned :: "jsstr \<Rightarrow> bool" where
  "versioned s \<longleftrightarrow> starts_with s V2_DM \<or> starts_with s V2_GROUP \<or> starts_with s V3_DM"

definition looksEncrypted :: "jsstr option \<Rightarrow> bool" where
  "looksEncrypted s = (case s of None \<Rightarrow> False | Some s \<Rightarrow> length s > 20 \<and> (versioned s \<or> list_all b64_text s))"

definition isLegacyCipher :: "jsstr \<Rightarrow> bool" where
  "isLegacyCipher s \<longleftrightarrow> looksEncrypted (Some s) \<and> \<not> versioned s"

definition lock_mark :: jsstr where
  "lock_mark = [91, 55357, 56594]"

section \<open>Decrypting the history\<close>

text \<open>The plaintext cache; its records are written by \<open>savePlaintext\<close> only.\<close>

definition cached :: "id option \<Rightarrow> e2e \<Rightarrow> (jsstr \<times> bool) option" where
  "cached i st =
     (if falsy_id i then None
      else case loadPlaintext (the i) (e_db st) of Some (DText c l) \<Rightarrow> Some (c, l) | _ \<Rightarrow> None)"

definition remember :: "id option \<Rightarrow> jsstr \<Rightarrow> bool \<Rightarrow> e2e \<Rightarrow> e2e" where
  "remember i content legacy st = (if falsy_id i then st else st\<lparr>e_db := savePlaintext (the i) content legacy (e_db st)\<rparr>)"

text \<open>\<open>None\<close>: \<open>b64Dec\<close> throws.\<close>

definition store_media :: "id option \<Rightarrow> jsstr \<Rightarrow> e2e \<Rightarrow> e2e option" where
  "store_media i content st =
     (case base64urlToBuf (drop (length MEDIA_KEY_PREFIX) content) of
        None \<Rightarrow> None
      | Some packed \<Rightarrow>
          (case unpackMediaKey packed of
             (key, iv) \<Rightarrow>
               Some (if falsy_id i then st
                     else case saveMediaKey (the i) key iv (e_db st) of None \<Rightarrow> st | Some db \<Rightarrow> st\<lparr>e_db := db\<rparr>)))"

definition is_v3 :: "cmsg \<Rightarrow> bool" where
  "is_v3 m \<longleftrightarrow> starts_with (m_content m) V3_DM \<and> \<not> falsy_id (m_senderDeviceId m) \<and> m_envelopes m \<noteq> []"

definition is_media :: "cmsg \<Rightarrow> jsstr \<Rightarrow> bool" where
  "is_media m content \<longleftrightarrow> truthy (m_fileUrl m) \<and> starts_with content MEDIA_KEY_PREFIX"

definition unreadable :: "cmsg \<Rightarrow> cmsg" where
  "unreadable m = m\<lparr>m_content := if truthy (m_fileUrl m) then [] else LOCKED\<rparr>"

text \<open>The envelope of this device, its plaintext remembered.\<close>

definition open_v3 :: "menv \<Rightarrow> cmsg \<Rightarrow> e2e \<Rightarrow> cmsg \<times> e2e" where
  "open_v3 en m st =
     (case decryptV3Internal (en_wasm en) (en_crypto en) (en_seed en) (m_content m) (the (m_senderDeviceId m)) (m_envelopes m) st of
        (None, st) \<Rightarrow> (unreadable m, st)
      | (Some plain, st) \<Rightarrow>
          (let st = remember (m_id m) plain False st
           in if is_media m plain
              then (case store_media (m_id m) plain st of None \<Rightarrow> (unreadable m, st) | Some st \<Rightarrow> (m\<lparr>m_content := []\<rparr>, st))
              else (m\<lparr>m_content := plain\<rparr>, st)))"

definition open_v2_file :: "menv \<Rightarrow> mprops \<Rightarrow> cmsg \<Rightarrow> e2e \<Rightarrow> cmsg \<times> e2e" where
  "open_v2_file en p m st =
     (let st = (if falsy_id (m_id m) \<or> loadMediaKey (the (m_id m)) (e_db st) \<noteq> None then st
                else case decryptContent en p (m_content m) (m_senderId m) st of
                       (decoded, st) \<Rightarrow>
                         if starts_with decoded MEDIA_KEY_PREFIX
                         then (case store_media (m_id m) decoded st of None \<Rightarrow> st | Some st \<Rightarrow> st) else st)
      in (m\<lparr>m_content := []\<rparr>, st))"

definition open_v2_text :: "menv \<Rightarrow> mprops \<Rightarrow> cmsg \<Rightarrow> e2e \<Rightarrow> cmsg \<times> e2e" where
  "open_v2_text en p m st =
     (case decryptContent en p (m_content m) (m_senderId m) st of
        (plain, st) \<Rightarrow>
          (m\<lparr>m_content := plain, m_isLegacy := m_isLegacy m \<or> isLegacyCipher (m_content m)\<rparr>,
           if starts_with plain lock_mark then st else remember (m_id m) plain (isLegacyCipher (m_content m)) st))"

text \<open>One message of the history; \<open>None\<close> rejects the whole batch.\<close>

definition decrypt_history :: "menv \<Rightarrow> mprops \<Rightarrow> cmsg \<Rightarrow> e2e \<Rightarrow> cmsg option \<times> e2e" where
  "decrypt_history en p m st =
     (if is_v3 m then
        (case cached (m_id m) st of
           Some (c, l) \<Rightarrow>
             if is_media m c
             then (case store_media (m_id m) c st of None \<Rightarrow> (None, st) | Some st \<Rightarrow> (Some (m\<lparr>m_content := []\<rparr>), st))
             else (Some (m\<lparr>m_content := c\<rparr>), st)
         | None \<Rightarrow> (case open_v3 en m st of (m, st) \<Rightarrow> (Some m, st)))
      else if truthy (m_fileUrl m) \<and> looksEncrypted (Some (m_content m)) then
        (case open_v2_file en p m st of (m, st) \<Rightarrow> (Some m, st))
      else if looksEncrypted (Some (m_content m)) then
        (case cached (m_id m) st of
           Some (c, l) \<Rightarrow> (Some (m\<lparr>m_content := c, m_isLegacy := m_isLegacy m \<or> l\<rparr>), st)
         | None \<Rightarrow> (case open_v2_text en p m st of (m, st) \<Rightarrow> (Some m, st)))
      else (Some m, st))"

definition resolveReplyContent :: "menv \<Rightarrow> mprops \<Rightarrow> reply \<Rightarrow> id \<Rightarrow> e2e \<Rightarrow> jsstr \<times> e2e" where
  "resolveReplyContent en p r senderId st =
     (case cached (rp_id r) st of
        Some (c, l) \<Rightarrow> (c, st)
      | None \<Rightarrow>
          (let c = (case rp_content r of None \<Rightarrow> [] | Some c \<Rightarrow> c)
           in if starts_with c V3_DM then (c, st) else decryptContent en p c senderId st))"

definition resolve_reply :: "menv \<Rightarrow> mprops \<Rightarrow> cmsg \<Rightarrow> e2e \<Rightarrow> cmsg \<times> e2e" where
  "resolve_reply en p m st =
     (case m_replyTo m of
        None \<Rightarrow> (m, st)
      | Some r \<Rightarrow>
          if looksEncrypted (rp_content r)
          then (case resolveReplyContent en p r (m_senderId m) st of (c, st) \<Rightarrow> (m\<lparr>m_replyTo := Some (r\<lparr>rp_content := Some c\<rparr>)\<rparr>, st))
          else (m, st))"

fun history_pass1 :: "menv \<Rightarrow> mprops \<Rightarrow> cmsg list \<Rightarrow> e2e \<Rightarrow> cmsg list option \<times> e2e" where
  "history_pass1 en p [] st = (Some [], st)"
| "history_pass1 en p (m # ms) st =
     (case decrypt_history en p m st of
        (r, st) \<Rightarrow> (case history_pass1 en p ms st of
                      (rs, st) \<Rightarrow> (case (r, rs) of (Some m, Some ms) \<Rightarrow> Some (m # ms) | _ \<Rightarrow> None, st)))"

fun history_pass2 :: "menv \<Rightarrow> mprops \<Rightarrow> cmsg list \<Rightarrow> e2e \<Rightarrow> cmsg list \<times> e2e" where
  "history_pass2 en p [] st = ([], st)"
| "history_pass2 en p (m # ms) st =
     (case resolve_reply en p m st of (m, st) \<Rightarrow> (case history_pass2 en p ms st of (ms, st) \<Rightarrow> (m # ms, st)))"

definition decryptMessages :: "menv \<Rightarrow> mprops \<Rightarrow> cmsg list \<Rightarrow> e2e \<Rightarrow> cmsg list option \<times> e2e" where
  "decryptMessages en p raw st =
     (case history_pass1 en p raw st of
        (None, st) \<Rightarrow> (None, st)
      | (Some ms, st) \<Rightarrow> (case history_pass2 en p ms st of (ms, st) \<Rightarrow> (Some ms, st)))"

section \<open>Updates of the list\<close>

definition same_user :: "mprops \<Rightarrow> id \<Rightarrow> bool" where
  "same_user p u \<longleftrightarrow> p_currentUserId p = Some u"

definition truthy_id :: "id option \<Rightarrow> bool" where
  "truthy_id i \<longleftrightarrow> \<not> falsy_id i"

text \<open>The key of \<open>deduplicateMessages\<close>: the identifier, or else the queue identifier; \<open>None\<close> when that is falsy too.\<close>

datatype dedup_key = ById id | ByQueue jsstr

definition dedup_key_of :: "cmsg \<Rightarrow> dedup_key option" where
  "dedup_key_of m =
     (case m_id m of
        Some i \<Rightarrow> if i = 0 then None else Some (ById i)
      | None \<Rightarrow> (case m_queueId m of Some q \<Rightarrow> if q = [] then None else Some (ByQueue q) | None \<Rightarrow> None))"

fun dedup_from :: "dedup_key set \<Rightarrow> cmsg list \<Rightarrow> cmsg list" where
  "dedup_from seen [] = []"
| "dedup_from seen (m # ms) =
     (case dedup_key_of m of
        None \<Rightarrow> dedup_from seen ms
      | Some k \<Rightarrow> if k \<in> seen then dedup_from seen ms else m # dedup_from (insert k seen) ms)"

definition deduplicateMessages :: "cmsg list \<Rightarrow> cmsg list" where
  "deduplicateMessages ms = dedup_from {} ms"

text \<open>Searching the list: the index of the first or last element with a property.\<close>

fun findIndex :: "('a \<Rightarrow> bool) \<Rightarrow> 'a list \<Rightarrow> nat option" where
  "findIndex P [] = None"
| "findIndex P (x # xs) = (if P x then Some 0 else map_option Suc (findIndex P xs))"

definition findLastIndex :: "('a \<Rightarrow> bool) \<Rightarrow> 'a list \<Rightarrow> nat option" where
  "findLastIndex P xs = map_option (\<lambda>i. length xs - 1 - i) (findIndex P (rev xs))"

text \<open>An optimistic message of the current user, with this ciphertext or any.\<close>

definition own_unconfirmed :: "mprops \<Rightarrow> cmsg \<Rightarrow> bool" where
  "own_unconfirmed p m \<longleftrightarrow> falsy_id (m_id m) \<and> same_user p (m_senderId m)"

definition own_cipher :: "mprops \<Rightarrow> jsstr \<Rightarrow> cmsg \<Rightarrow> bool" where
  "own_cipher p c m \<longleftrightarrow> own_unconfirmed p m \<and> m_pendingCipher m = Some c"

definition echo_index :: "mprops \<Rightarrow> jsstr \<Rightarrow> cmsg list \<Rightarrow> nat option" where
  "echo_index p rawCipher ms =
     (case findIndex (own_cipher p rawCipher) ms of Some i \<Rightarrow> Some i | None \<Rightarrow> findLastIndex (own_unconfirmed p) ms)"

definition has_id :: "cmsg list \<Rightarrow> id option \<Rightarrow> bool" where
  "has_id ms i \<longleftrightarrow> list_ex (\<lambda>m. m_id m = i) ms"

text \<open>\<open>setMessages\<close> in \<open>onMessage\<close>: the message is there already, or confirms an optimistic one, or is new.\<close>

definition confirm :: "cmsg \<Rightarrow> cmsg \<Rightarrow> cmsg" where
  "confirm opt m = m\<lparr>m_content := if truthy (m_fileUrl opt) then [] else m_content opt, m_isPending := False, m_queueId := None,
     m_pendingCipher := None\<rparr>"

definition same_incoming :: "cmsg \<Rightarrow> cmsg \<Rightarrow> bool" where
  "same_incoming m x \<longleftrightarrow>
     falsy_id (m_id x) \<and> m_senderId x = m_senderId m \<and> m_fileUrl x = m_fileUrl m
     \<and> (truthy (m_fileUrl m) \<or> m_content x = m_content m)"

definition merge_message :: "mprops \<Rightarrow> jsstr \<Rightarrow> cmsg \<Rightarrow> cmsg list \<Rightarrow> cmsg list" where
  "merge_message p rawCipher m prev =
     (if truthy_id (m_id m) \<and> has_id prev (m_id m) then prev
      else if same_user p (m_senderId m) then
        (case echo_index p rawCipher prev of
           Some i \<Rightarrow> prev[i := confirm (prev ! i) m]
         | None \<Rightarrow> prev @ [m])
      else
        (case findIndex (same_incoming m) prev of
           Some i \<Rightarrow> prev[i := m\<lparr>m_isPending := False, m_queueId := None\<rparr>]
         | None \<Rightarrow> prev @ [m]))"

text \<open>Whether \<open>onMessage\<close> appended, in which case \<open>hasMoreNewer\<close> becomes false.\<close>

definition merge_appends :: "mprops \<Rightarrow> jsstr \<Rightarrow> cmsg \<Rightarrow> cmsg list \<Rightarrow> bool" where
  "merge_appends p rawCipher m prev \<longleftrightarrow>
     \<not> (truthy_id (m_id m) \<and> has_id prev (m_id m))
     \<and> (if same_user p (m_senderId m) then echo_index p rawCipher prev = None else findIndex (same_incoming m) prev = None)"

definition add_scheduled :: "cmsg \<Rightarrow> cmsg list \<Rightarrow> cmsg list" where
  "add_scheduled m prev = (if has_id prev (m_id m) then prev else prev @ [m])"

definition update_id :: "id \<Rightarrow> (cmsg \<Rightarrow> cmsg) \<Rightarrow> cmsg list \<Rightarrow> cmsg list" where
  "update_id i f ms = map (\<lambda>m. if m_id m = Some i then f m else m) ms"

definition mark_deleted :: "time \<Rightarrow> id \<Rightarrow> cmsg list \<Rightarrow> cmsg list" where
  "mark_deleted now i = update_id i (m_deletedAt_update (\<lambda>_. Some now))"

definition mark_edited :: "jsstr \<Rightarrow> time \<Rightarrow> id \<Rightarrow> cmsg list \<Rightarrow> cmsg list" where
  "mark_edited content at_time i = update_id i (\<lambda>m. m\<lparr>m_content := content, m_editedAt := Some at_time\<rparr>)"

definition set_reactions :: "jsstr list \<Rightarrow> id \<Rightarrow> cmsg list \<Rightarrow> cmsg list" where
  "set_reactions rs i = update_id i (m_reactions_update (\<lambda>_. rs))"

definition mark_read :: "mprops \<Rightarrow> cmsg list \<Rightarrow> cmsg list" where
  "mark_read p ms = map (\<lambda>m. if same_user p (m_senderId m) then m\<lparr>m_isRead := True\<rparr> else m) ms"

definition mark_failed :: "jsstr \<Rightarrow> cmsg list \<Rightarrow> cmsg list" where
  "mark_failed q ms = map (\<lambda>m. if m_queueId m = Some q then m\<lparr>m_isPending := False, m_sendFailed := True\<rparr> else m) ms"

section \<open>The hook\<close>

record mhook =
  messages :: "cmsg list"
  typingUsers :: "(id \<times> jsstr) list"
  hasMore :: bool
  hasMoreNewer :: bool
  isLoadingMore :: bool
  isLoadingNewer :: bool
  jumpTarget :: "id option"
  firstUnreadId :: "id option"
  typingTimers :: "(id, time) jsmap"
  destructTimers :: "(id, time) jsmap"
  lastTypingSentAt :: time
  typingTimeout :: "time option"
  h_e2e :: e2e
  h_queue :: offline_queue
  h_emits :: "m_emit list"

definition socket_emit :: "mprops \<Rightarrow> m_emit \<Rightarrow> mhook \<Rightarrow> mhook" where
  "socket_emit p e h = (if socket p = None then h else h\<lparr>h_emits := h_emits h @ [e]\<rparr>)"

definition scheduleDestruct :: "id \<Rightarrow> time \<Rightarrow> time \<Rightarrow> mhook \<Rightarrow> mhook" where
  "scheduleDestruct i now delayMs h =
     (if i = 0 \<or> mhas (destructTimers h) i then h else h\<lparr>destructTimers := mset_at i (now + delayMs) (destructTimers h)\<rparr>)"

text \<open>The timer of a message fires.\<close>

definition destruct_fires :: "mprops \<Rightarrow> time \<Rightarrow> id \<Rightarrow> mhook \<Rightarrow> mhook" where
  "destruct_fires p now i h =
     (let h = socket_emit p (DeleteMessage i) h
      in h\<lparr>messages := mark_deleted now i (messages h), destructTimers := mdelete i (destructTimers h)\<rparr>)"

definition apply_destruct :: "menv \<Rightarrow> mprops \<Rightarrow> time \<Rightarrow> cmsg \<Rightarrow> mhook \<Rightarrow> mhook" where
  "apply_destruct en p now m h =
     (if falsy_id (m_id m) \<or> \<not> truthy (m_metadata m) \<or> m_deletedAt m \<noteq> None then h
      else case destructAfterSeconds (parseMetadata (en_json en) (en_number en) (m_metadata m)) of
             None \<Rightarrow> h
           | Some secs \<Rightarrow>
               (let remaining = secs * 1000 - (now - m_createdAt m)
                in if remaining \<le> 0 then socket_emit p (DeleteMessage (the (m_id m))) h
                   else scheduleDestruct (the (m_id m)) now remaining h))"

definition applyDestructTimers :: "menv \<Rightarrow> mprops \<Rightarrow> time \<Rightarrow> cmsg list \<Rightarrow> mhook \<Rightarrow> mhook" where
  "applyDestructTimers en p now ms h = fold (apply_destruct en p now) ms h"

definition clear_destruct_timers :: "mhook \<Rightarrow> mhook" where
  "clear_destruct_timers h = h\<lparr>destructTimers := []\<rparr>"

text \<open>The effect of the initial load: at once, and with the server's answer (messages and \<open>firstUnreadId\<close>).\<close>

definition open_conversation :: "mprops \<Rightarrow> bool \<Rightarrow> mhook \<Rightarrow> mhook" where
  "open_conversation p isReady h =
     (if falsy_id (conversationId p)
      then h\<lparr>messages := [], typingUsers := [], hasMore := True, hasMoreNewer := False, firstUnreadId := None\<rparr>
      else if \<not> isReady then h
      else h\<lparr>messages := [], typingUsers := [], hasMoreNewer := False, firstUnreadId := None\<rparr>)"

definition history_loaded :: "menv \<Rightarrow> mprops \<Rightarrow> time \<Rightarrow> cmsg list \<Rightarrow> id option \<Rightarrow> mhook \<Rightarrow> mhook" where
  "history_loaded en p now raw unread h =
     (case decryptMessages en p raw (h_e2e h) of
        (None, st) \<Rightarrow> h\<lparr>h_e2e := st\<rparr>
      | (Some ms, st) \<Rightarrow>
          (let h = h\<lparr>h_e2e := st, messages := ms, hasMore := length raw \<ge> 30,
                     firstUnreadId := if falsy_id unread then firstUnreadId h else unread\<rparr>;
               h = applyDestructTimers en p now ms h
           in socket_emit p (MarkAsRead (the (conversationId p))) h))"

text \<open>Older and newer pages: the request (\<open>Some\<close> of its cursor) and the answer.\<close>

definition loadMoreMessages :: "mprops \<Rightarrow> mhook \<Rightarrow> id option option \<times> mhook" where
  "loadMoreMessages p h =
     (if falsy_id (conversationId p) \<or> isLoadingMore h \<or> \<not> hasMore h \<or> messages h = [] then (None, h)
      else (Some (m_id (hd (messages h))), h\<lparr>isLoadingMore := True\<rparr>))"

definition older_loaded :: "menv \<Rightarrow> mprops \<Rightarrow> cmsg list option \<Rightarrow> mhook \<Rightarrow> mhook" where
  "older_loaded en p data h =
     (case data of
        None \<Rightarrow> h\<lparr>isLoadingMore := False\<rparr>
      | Some raw \<Rightarrow>
          (let h = (if length raw < 30 then h\<lparr>hasMore := False\<rparr> else h)
           in case decryptMessages en p raw (h_e2e h) of
                (None, st) \<Rightarrow> h\<lparr>h_e2e := st, isLoadingMore := False\<rparr>
              | (Some ms, st) \<Rightarrow> h\<lparr>h_e2e := st, messages := deduplicateMessages (ms @ messages h), isLoadingMore := False\<rparr>))"

definition loadNewerMessages :: "mprops \<Rightarrow> mhook \<Rightarrow> id option option \<times> mhook" where
  "loadNewerMessages p h =
     (if falsy_id (conversationId p) \<or> isLoadingNewer h \<or> \<not> hasMoreNewer h \<or> messages h = [] then (None, h)
      else (Some (m_id (last (messages h))), h\<lparr>isLoadingNewer := True\<rparr>))"

definition newer_loaded :: "menv \<Rightarrow> mprops \<Rightarrow> cmsg list option \<Rightarrow> mhook \<Rightarrow> mhook" where
  "newer_loaded en p data h =
     (case data of
        None \<Rightarrow> h\<lparr>isLoadingNewer := False\<rparr>
      | Some raw \<Rightarrow>
          (let h = (if length raw < 30 then h\<lparr>hasMoreNewer := False\<rparr> else h)
           in if raw = [] then h\<lparr>isLoadingNewer := False\<rparr>
              else case decryptMessages en p raw (h_e2e h) of
                (None, st) \<Rightarrow> h\<lparr>h_e2e := st, isLoadingNewer := False\<rparr>
              | (Some ms, st) \<Rightarrow> h\<lparr>h_e2e := st, messages := deduplicateMessages (messages h @ ms), isLoadingNewer := False\<rparr>))"

definition clearUnreadDivider :: "mhook \<Rightarrow> mhook" where
  "clearUnreadDivider h = h\<lparr>firstUnreadId := None\<rparr>"

section \<open>Events of the socket\<close>

text \<open>An arriving message before it is merged.  The echo of an own message takes its text from the optimistic message found in the list,
  or from the cache, or from this device's envelope.\<close>

definition optimistic_for :: "mprops \<Rightarrow> jsstr \<Rightarrow> cmsg list \<Rightarrow> cmsg option" where
  "optimistic_for p rawCipher ms =
     (case find (own_cipher p rawCipher) ms of Some m \<Rightarrow> Some m | None \<Rightarrow> find (own_unconfirmed p) (rev ms))"

definition echo_text :: "menv \<Rightarrow> mprops \<Rightarrow> cmsg list \<Rightarrow> cmsg \<Rightarrow> e2e \<Rightarrow> jsstr \<times> e2e" where
  "echo_text en p ms m st =
     (case optimistic_for p (m_content m) ms of
        Some opt \<Rightarrow> (m_content opt, st)
      | None \<Rightarrow>
          if falsy_id (m_id m) then (m_content m, st)
          else (case cached (m_id m) st of
                  Some (c, l) \<Rightarrow> (c, st)
                | None \<Rightarrow>
                    if is_v3 m
                    then (case decryptV3Internal (en_wasm en) (en_crypto en) (en_seed en) (m_content m) (the (m_senderDeviceId m)) (m_envelopes m) st of
                            (None, st) \<Rightarrow> (m_content m, st)
                          | (Some plain, st) \<Rightarrow> (plain, remember (m_id m) plain False st))
                    else (m_content m, st)))"

definition take_pending_media :: "cmsg \<Rightarrow> e2e \<Rightarrow> e2e" where
  "take_pending_media m st =
     (case consumePendingMediaKey (the (m_fileUrl m)) (e_db st) of
        (None, db) \<Rightarrow> st\<lparr>e_db := db\<rparr>
      | (Some (key, iv), db) \<Rightarrow> st\<lparr>e_db := (case saveMediaKey (the (m_id m)) key iv db of None \<Rightarrow> db | Some db \<Rightarrow> db)\<rparr>)"

definition receive_echo :: "menv \<Rightarrow> mprops \<Rightarrow> cmsg list \<Rightarrow> cmsg \<Rightarrow> e2e \<Rightarrow> cmsg \<times> e2e" where
  "receive_echo en p ms m st =
     (case echo_text en p ms m st of
        (plaintext, st) \<Rightarrow>
          (let d = m\<lparr>m_content := plaintext\<rparr>;
               st = (if truthy_id (m_id m) \<and> plaintext \<noteq> m_content m then remember (m_id m) plaintext False st else st);
               (d, st) = (if truthy (m_fileUrl m) \<and> truthy_id (m_id m) then (d\<lparr>m_content := []\<rparr>, take_pending_media m st) else (d, st))
           in resolve_reply en p d st))"

definition receive_peer :: "menv \<Rightarrow> mprops \<Rightarrow> cmsg \<Rightarrow> e2e \<Rightarrow> cmsg \<times> e2e" where
  "receive_peer en p m st =
     (let (d, st) = (if is_v3 m then open_v3 en m st
                     else if truthy (m_fileUrl m) \<and> looksEncrypted (Some (m_content m)) then open_v2_file en p m st
                     else if looksEncrypted (Some (m_content m)) then open_v2_text en p m st
                     else (m, st))
      in resolve_reply en p d st)"

definition onMessage :: "menv \<Rightarrow> mprops \<Rightarrow> time \<Rightarrow> cmsg \<Rightarrow> mhook \<Rightarrow> mhook" where
  "onMessage en p now m h =
     (if conversationId p \<noteq> Some (m_conversationId m) then h
      else
        (let isOwnEcho = same_user p (m_senderId m);
             (d, st) = (if isOwnEcho then receive_echo en p (messages h) m (h_e2e h) else receive_peer en p m (h_e2e h));
             h = apply_destruct en p now d (h\<lparr>h_e2e := st\<rparr>);
             h = h\<lparr>hasMoreNewer := if merge_appends p (m_content m) d (messages h) then False else hasMoreNewer h,
                   messages := merge_message p (m_content m) d (messages h),
                   typingUsers := filter (\<lambda>(u, n). u \<noteq> m_senderId m) (typingUsers h)\<rparr>
         in if isOwnEcho then h else socket_emit p (MarkAsRead (m_conversationId m)) h))"

definition onMessageScheduled :: "menv \<Rightarrow> mprops \<Rightarrow> cmsg \<Rightarrow> mhook \<Rightarrow> mhook" where
  "onMessageScheduled en p m h =
     (if conversationId p \<noteq> Some (m_conversationId m) then h
      else if looksEncrypted (Some (m_content m))
      then (case decryptContent en p (m_content m) (m_senderId m) (h_e2e h) of
              (plain, st) \<Rightarrow> h\<lparr>h_e2e := st, messages := add_scheduled (m\<lparr>m_content := plain\<rparr>) (messages h)\<rparr>)
      else h\<lparr>messages := add_scheduled m (messages h)\<rparr>)"

definition onDeleted :: "mprops \<Rightarrow> time \<Rightarrow> id \<Rightarrow> id \<Rightarrow> mhook \<Rightarrow> mhook" where
  "onDeleted p now messageId conv h =
     (if conversationId p \<noteq> Some conv then h else h\<lparr>messages := mark_deleted now messageId (messages h)\<rparr>)"

definition onEdited :: "menv \<Rightarrow> mprops \<Rightarrow> id \<Rightarrow> jsstr \<Rightarrow> time \<Rightarrow> id \<Rightarrow> id option \<Rightarrow> mhook \<Rightarrow> mhook" where
  "onEdited en p messageId content editedAt conv sender h =
     (if conversationId p \<noteq> Some conv then h
      else case find (\<lambda>m. m_id m = Some messageId) (messages h) of
             None \<Rightarrow> h
           | Some existing \<Rightarrow>
               (let s = (if falsy_id sender then m_senderId existing else the sender);
                    (c, st) = (if looksEncrypted (Some content) \<and> s \<noteq> 0 then decryptContent en p content s (h_e2e h) else (content, h_e2e h))
                in h\<lparr>h_e2e := st, messages := mark_edited c editedAt messageId (messages h)\<rparr>))"

definition onReaction :: "mprops \<Rightarrow> id \<Rightarrow> jsstr list \<Rightarrow> id \<Rightarrow> mhook \<Rightarrow> mhook" where
  "onReaction p messageId rs conv h =
     (if conversationId p \<noteq> Some conv then h else h\<lparr>messages := set_reactions rs messageId (messages h)\<rparr>)"

definition onRead :: "mprops \<Rightarrow> id \<Rightarrow> id \<Rightarrow> mhook \<Rightarrow> mhook" where
  "onRead p userId conv h =
     (if conversationId p \<noteq> Some conv \<or> same_user p userId then h else h\<lparr>messages := mark_read p (messages h)\<rparr>)"

definition onTyping :: "mprops \<Rightarrow> time \<Rightarrow> id \<Rightarrow> jsstr \<Rightarrow> id \<Rightarrow> bool \<Rightarrow> mhook \<Rightarrow> mhook" where
  "onTyping p now userId nickname conv isTyping h =
     (if conversationId p \<noteq> Some conv \<or> same_user p userId then h
      else if isTyping
      then h\<lparr>typingUsers := (if list_ex (\<lambda>(u, n). u = userId) (typingUsers h) then typingUsers h else typingUsers h @ [(userId, nickname)]),
             typingTimers := mset_at userId (now + 3500) (typingTimers h)\<rparr>
      else h\<lparr>typingTimers := mdelete userId (typingTimers h), typingUsers := filter (\<lambda>(u, n). u \<noteq> userId) (typingUsers h)\<rparr>)"

definition typing_expires :: "id \<Rightarrow> mhook \<Rightarrow> mhook" where
  "typing_expires userId h =
     h\<lparr>typingUsers := filter (\<lambda>(u, n). u \<noteq> userId) (typingUsers h), typingTimers := mdelete userId (typingTimers h)\<rparr>"

section \<open>Sending\<close>

text \<open>The callback of the offline queue: the open conversation's encryption, the queued message's conversation.\<close>

definition flushMessage :: "menv \<Rightarrow> mprops \<Rightarrow> queued \<Rightarrow> mhook \<Rightarrow> bool \<times> mhook" where
  "flushMessage en p msg h =
     (if socket p \<noteq> Some True then (False, h)
      else case encryptContent en p (q_content msg) (h_e2e h) of
             (None, st) \<Rightarrow> (False, h\<lparr>h_e2e := st\<rparr>)
           | (Some payload, st) \<Rightarrow>
               (True, socket_emit p (SendMessage (q_conversationId msg) payload (q_replyToId msg) None None None None) (h\<lparr>h_e2e := st\<rparr>)))"

definition flush_failed :: "queued \<Rightarrow> mhook \<Rightarrow> mhook" where
  "flush_failed msg h = h\<lparr>messages := mark_failed (queueId msg) (messages h)\<rparr>"

definition optimistic :: "mprops \<Rightarrow> time \<Rightarrow> jsstr \<Rightarrow> id option \<Rightarrow> jsstr option \<Rightarrow> cmsg" where
  "optimistic p now content replyToId metadata =
     \<lparr>m_id = None, m_content = content, m_senderId = the (p_currentUserId p), m_conversationId = the (conversationId p),
      m_createdAt = now, m_editedAt = None, m_deletedAt = None, m_isRead = False, m_reactions = [], m_replyToId = replyToId,
      m_replyTo = None, m_fileUrl = None, m_metadata = metadata, m_scheduledAt = None, m_isPending = False, m_sendFailed = False,
      m_queueId = None, m_localBlob = False, m_isLegacy = False, m_pendingCipher = None, m_senderDeviceId = None, m_envelopes = []\<rparr>"

text \<open>\<open>JSON.stringify({ destructAfterSeconds })\<close> of a positive number.\<close>

definition destruct_metadata :: "int option \<Rightarrow> jsstr option" where
  "destruct_metadata d =
     (if falsy_id d then None else Some (js ''{'' @ [34] @ js ''destructAfterSeconds'' @ [34] @ js '':'' @ int_str (the d) @ js ''}''))"

definition sendMessage ::
    "menv \<Rightarrow> (nat \<Rightarrow> seed) \<Rightarrow> bytes \<Rightarrow> bytes \<Rightarrow> mprops \<Rightarrow> time \<Rightarrow> jsstr \<Rightarrow> jsstr \<Rightarrow> jsstr \<Rightarrow> id option \<Rightarrow> time option \<Rightarrow> int option \<Rightarrow> mhook \<Rightarrow> mhook" where
  "sendMessage en R key iv p now qid tmpId content replyToId scheduledAt destructAfter h =
     (if trim content = [] \<or> falsy_id (conversationId p) \<or> falsy_id (p_currentUserId p) then h
      else
        (let canSend = (socket p = Some True \<and> isOnline (h_queue h));
             metadata = destruct_metadata destructAfter;
             conv = the (conversationId p)
         in if \<not> canSend \<and> scheduledAt = None
            then (let (queueId, q) = enqueue qid \<lparr>queueId = [], q_conversationId = conv, q_content = content, q_replyToId = replyToId,
                        q_createdAt = now, q_senderId = the (p_currentUserId p), q_otherUserId = otherUserId p\<rparr> (h_queue h)
                  in h\<lparr>h_queue := q, messages := messages h
                        @ [(optimistic p now content replyToId metadata)\<lparr>m_isPending := True, m_queueId := Some queueId\<rparr>]\<rparr>)
            else
              (let (r, st) = (if isDirect p then encryptDirect en R key iv p content (h_e2e h)
                     else (case encryptContent en p content (h_e2e h) of
                             (c, st) \<Rightarrow> (map_option (\<lambda>c. \<lparr>dp_payload = c, dp_envelopes = None, dp_senderDeviceId = None\<rparr>) c, st)));
                   h = h\<lparr>h_e2e := st\<rparr>
               in case r of
                    None \<Rightarrow> h
                  | Some d \<Rightarrow>
                      (let h = h\<lparr>messages := messages h @ [(optimistic p now content replyToId metadata)
                             \<lparr>m_scheduledAt := scheduledAt, m_queueId := Some tmpId, m_pendingCipher := Some (dp_payload d)\<rparr>]\<rparr>;
                           h = socket_emit p (SendMessage conv (dp_payload d) replyToId metadata scheduledAt (dp_senderDeviceId d) (dp_envelopes d)) h
                       in socket_emit p (Typing conv False) h))))"

definition sendFileMessage :: "mprops \<Rightarrow> time \<Rightarrow> jsstr \<Rightarrow> jsstr option \<Rightarrow> jsstr option \<Rightarrow> id option \<Rightarrow> int option \<Rightarrow> envelope list option \<Rightarrow> mhook \<Rightarrow> mhook" where
  "sendFileMessage p now fileUrl content metadata replyToId dev envelopes h =
     (if falsy_id (conversationId p) \<or> socket p = None \<or> falsy_id (p_currentUserId p) then h
      else
        (let c = (case content of None \<Rightarrow> [] | Some c \<Rightarrow> c);
             h = socket_emit p (SendMessage (the (conversationId p)) c replyToId metadata None dev envelopes) h
         in h\<lparr>messages := messages h @ [(optimistic p now c replyToId metadata)\<lparr>m_fileUrl := Some fileUrl, m_localBlob := True,
                m_senderDeviceId := dev, m_envelopes := (case envelopes of None \<Rightarrow> [] | Some es \<Rightarrow> es)\<rparr>]\<rparr>))"

definition deleteMessage_ui :: "mprops \<Rightarrow> id \<Rightarrow> mhook \<Rightarrow> mhook" where
  "deleteMessage_ui p messageId h = socket_emit p (DeleteMessage messageId) h"

text \<open>An encryption that throws leaves only its effect on the keys.\<close>

definition editMessage_ui :: "menv \<Rightarrow> mprops \<Rightarrow> time \<Rightarrow> id \<Rightarrow> jsstr \<Rightarrow> mhook \<Rightarrow> mhook" where
  "editMessage_ui en p now messageId content h =
     (if socket p = None then h
      else case encryptContent en p content (h_e2e h) of
             (None, st) \<Rightarrow> h\<lparr>h_e2e := st\<rparr>
           | (Some payload, st) \<Rightarrow>
               (let h = socket_emit p (EditMessage messageId payload) (h\<lparr>h_e2e := st\<rparr>)
                in h\<lparr>messages := mark_edited content now messageId (messages h)\<rparr>))"

definition toggleReaction_ui :: "mprops \<Rightarrow> id \<Rightarrow> jsstr \<Rightarrow> mhook \<Rightarrow> mhook" where
  "toggleReaction_ui p messageId emoji h = socket_emit p (ToggleReaction messageId emoji) h"

definition TYPING_THROTTLE_MS :: time where "TYPING_THROTTLE_MS = 1500"

definition notifyTyping :: "mprops \<Rightarrow> time \<Rightarrow> mhook \<Rightarrow> mhook" where
  "notifyTyping p now h =
     (if socket p = None \<or> falsy_id (conversationId p) \<or> now - lastTypingSentAt h < TYPING_THROTTLE_MS then h
      else (socket_emit p (Typing (the (conversationId p)) True) h)\<lparr>lastTypingSentAt := now, typingTimeout := Some (now + 2500)\<rparr>)"

definition typing_stops :: "mprops \<Rightarrow> id \<Rightarrow> mhook \<Rightarrow> mhook" where
  "typing_stops p conv h = (socket_emit p (Typing conv False) h)\<lparr>lastTypingSentAt := 0\<rparr>"

section \<open>Jumping\<close>

text \<open>\<open>jumpToMessage\<close>: at once when the message is in the list (\<open>None\<close>), else with the page around it.\<close>

definition jump_local :: "id \<Rightarrow> mhook \<Rightarrow> mhook option" where
  "jump_local messageId h = (if has_id (messages h) (Some messageId) then Some (h\<lparr>jumpTarget := Some messageId\<rparr>) else None)"

definition around_loaded :: "menv \<Rightarrow> mprops \<Rightarrow> id \<Rightarrow> cmsg list option \<Rightarrow> mhook \<Rightarrow> mhook" where
  "around_loaded en p messageId data h =
     (case data of
        None \<Rightarrow> h
      | Some raw \<Rightarrow>
          (case decryptMessages en p raw (h_e2e h) of
             (None, st) \<Rightarrow> h\<lparr>h_e2e := st\<rparr>
           | (Some ms, st) \<Rightarrow> h\<lparr>h_e2e := st, messages := ms, hasMore := True, hasMoreNewer := True, jumpTarget := Some messageId\<rparr>))"

definition latest_loaded :: "menv \<Rightarrow> mprops \<Rightarrow> cmsg list option \<Rightarrow> mhook \<Rightarrow> mhook" where
  "latest_loaded en p data h =
     (case data of
        None \<Rightarrow> h
      | Some raw \<Rightarrow>
          (case decryptMessages en p raw (h_e2e h) of
             (None, st) \<Rightarrow> h\<lparr>h_e2e := st\<rparr>
           | (Some ms, st) \<Rightarrow>
               socket_emit p (MarkAsRead (the (conversationId p)))
                 (h\<lparr>h_e2e := st, messages := ms, hasMore := length raw \<ge> 30, hasMoreNewer := False\<rparr>)))"

definition clearJumpTarget :: "mhook \<Rightarrow> mhook" where
  "clearJumpTarget h = h\<lparr>jumpTarget := None\<rparr>"

end
