(* ===== verification/E2EProperties.thy ===== *)
theory E2EProperties
  imports E2E
begin

text \<open>
  What the end-to-end encryption hook guarantees: group messages reach a member who was given the sender key, a message encrypted per
  device is read on each device, a PIN brings the identity to a new browser; and where texts leave the browser unencrypted.
\<close>

text \<open>A text that survives UTF-8: no lone surrogates, no byte-order mark at its start.\<close>

definition plain_text :: "jsstr \<Rightarrow> bool" where
  "plain_text s \<longleftrightarrow> well_paired s \<and> (s = [] \<or> hd s \<noteq> 65279)"

lemma plain_text_roundtrip: "plain_text s \<Longrightarrow> decode_utf8 (encode_utf8 s) = s"
  using utf8_roundtrip by (simp add: plain_text_def)

lemma plain_text_bytes: "plain_text s \<Longrightarrow> is_bytes (encode_utf8 s)"
  using is_bytes_utf8[OF code_points_scalar] by (simp add: plain_text_def encode_utf8_def)

section \<open>Groups\<close>

text \<open>Sender keys: the receiver made from a distribution message opens every message of the sender, in order.\<close>

definition group_laws :: "wasm \<Rightarrow> (bytes \<Rightarrow> bytes \<Rightarrow> bool) \<Rightarrow> bool" where
  "group_laws W gr \<longleftrightarrow>
     (\<forall>rnd. is_bytes (snd (groupSenderGenerate W rnd))
        \<and> (\<exists>r. groupReceiverFromDist W (snd (groupSenderGenerate W rnd)) = Some r \<and> gr (fst (groupSenderGenerate W rnd)) r))
     \<and> (\<forall>s r p. gr s r \<and> is_bytes p \<longrightarrow>
          (\<exists>c s' r'. groupSenderEncrypt W s p = Some (c, s') \<and> is_bytes c \<and> groupReceiverDecrypt W r c = Some (p, r') \<and> gr s' r'))"

lemma group_stepD:
  assumes "group_laws W gr" "gr s r" "is_bytes p"
  obtains c s' r' where "groupSenderEncrypt W s p = Some (c, s')" "is_bytes c" "groupReceiverDecrypt W r c = Some (p, r')" "gr s' r'"
  using assms unfolding group_laws_def by blast

fun group_talk :: "wasm \<Rightarrow> webcrypto \<Rightarrow> e2e_srv \<Rightarrow> id \<Rightarrow> id \<Rightarrow> jsstr list \<Rightarrow> e2e \<Rightarrow> e2e \<Rightarrow> jsstr list" where
  "group_talk W w srv conv sender [] sa sb = []"
| "group_talk W w srv conv sender (t # ts) sa sb =
     (case encryptForGroup W t conv sa of
        (None, sa) \<Rightarrow> group_talk W w srv conv sender ts sa sb
      | (Some c, sa) \<Rightarrow>
          (case decryptFromGroup W w srv c conv sender sb of (u, sb) \<Rightarrow> u # group_talk W w srv conv sender ts sa sb))"

lemma load_save_group [simp]:
  "loadGroupSender c (saveGroupSender c' s db) = (if c = c' then Some s else loadGroupSender c db)"
  "loadGroupReceiver c u (saveGroupReceiver c' u' s db) = (if c = c' \<and> u = u' then Some s else loadGroupReceiver c u db)"
  "loadGroupSender c (saveGroupReceiver c' u' s db) = loadGroupSender c db"
  "loadGroupReceiver c u (saveGroupSender c' s db) = loadGroupReceiver c u db"
  by (simp_all add: loadGroupSender_def saveGroupSender_def loadGroupReceiver_def saveGroupReceiver_def as_array_def receiver_key_inj)

definition group_ready :: "(bytes \<Rightarrow> bytes \<Rightarrow> bool) \<Rightarrow> id \<Rightarrow> id \<Rightarrow> e2e \<Rightarrow> e2e \<Rightarrow> bool" where
  "group_ready gr conv sender sa sb \<longleftrightarrow>
     identity sa \<noteq> None \<and> initialized sa \<and> identity sb \<noteq> None \<and> initialized sb
     \<and> (\<exists>s r. loadGroupSender conv (e_db sa) = Some s \<and> loadGroupReceiver conv sender (e_db sb) = Some r \<and> gr s r)"

lemma group_message:
  assumes "group_laws W gr" "group_ready gr conv sender sa sb" "plain_text t"
  obtains c sa' sb' where "encryptForGroup W t conv sa = (Some c, sa')" "starts_with c V2_GROUP"
    "decryptFromGroup W w srv c conv sender sb = (t, sb')" "group_ready gr conv sender sa' sb'"
proof -
  obtain s r where sr: "loadGroupSender conv (e_db sa) = Some s" "loadGroupReceiver conv sender (e_db sb) = Some r" "gr s r"
    using assms(2) unfolding group_ready_def by blast
  obtain c s' r' where m: "groupSenderEncrypt W s (encode_utf8 t) = Some (c, s')" "is_bytes c"
    "groupReceiverDecrypt W r c = Some (encode_utf8 t, r')" "gr s' r'"
    by (rule group_stepD[OF assms(1) sr(3) plain_text_bytes[OF assms(3)]])
  let ?c = "V2_GROUP @ bufToBase64url c"
  have up: "identity sa \<noteq> None" "initialized sa" "identity sb \<noteq> None" "initialized sb" using assms(2) by (auto simp: group_ready_def)
  have decoded: "base64urlToBuf (drop (length V2_GROUP) ?c) = Some c" by (rule wire_text[OF m(2)])
  show thesis
  proof (rule that)
    show "encryptForGroup W t conv sa = (Some ?c, sa\<lparr>e_db := saveGroupSender conv s' (e_db sa)\<rparr>)"
      using up sr(1) m(1) by (auto simp: encryptForGroup_def)
    show "starts_with ?c V2_GROUP" by simp
    show "decryptFromGroup W w srv ?c conv sender sb = (t, sb\<lparr>e_db := saveGroupReceiver conv sender r' (e_db sb)\<rparr>)"
      unfolding decryptFromGroup_def decoded using up sr(2) m(3) plain_text_roundtrip[OF assms(3)] by auto
    show "group_ready gr conv sender (sa\<lparr>e_db := saveGroupSender conv s' (e_db sa)\<rparr>) (sb\<lparr>e_db := saveGroupReceiver conv sender r' (e_db sb)\<rparr>)"
      using up m(4) by (simp add: group_ready_def)
  qed
qed

lemma group_talk_reads:
  "group_laws W gr \<Longrightarrow> group_ready gr conv sender sa sb \<Longrightarrow> list_all plain_text ts \<Longrightarrow> group_talk W w srv conv sender ts sa sb = ts"
proof (induction ts arbitrary: sa sb)
  case (Cons t ts)
  then have t: "plain_text t" by simp
  obtain c sa' sb' where "encryptForGroup W t conv sa = (Some c, sa')" "starts_with c V2_GROUP"
    "decryptFromGroup W w srv c conv sender sb = (t, sb')" "group_ready gr conv sender sa' sb'"
    by (rule group_message[OF Cons.prems(1,2) t])
  then show ?case using Cons by simp
qed simp

lemma sealed_dist:
  assumes "x3dh_laws W K" "gcm_inverts w" "valid_bundle W K (id_ikDhSecret kb) (id_spkSecret kb) b" "length iv = 12" "is_bytes iv" "is_bytes d"
    "key32 (id_ikDhSecret ka)"
  obtains env where "sealDistMsg W w rnd iv ka d b = Some env" "is_bytes env" "openDistMsg W w kb env = Some d" "env \<noteq> []"
proof -
  obtain sk i where x: "x3dhSend W rnd (id_ikDhSecret ka) b = Some (sk @ i)" "length sk = 32" "is_bytes sk" "length i = 65" "is_bytes i"
    "x3dhReceive W (id_ikDhSecret kb) (id_spkSecret kb) [] i = Some sk" by (rule x3dh_lawsD[OF assms(1,7,3)])
  let ?ct = "gcm_encrypt w sk iv d"
  note g = gcm_invertsD[OF assms(2,4,6), of sk]
  have fits: "array_set (replicate (65 + 12 + length ?ct) 0) i 0 = Some (i @ replicate (12 + length ?ct) 0)"
    "array_set (i @ replicate (12 + length ?ct) 0) iv 65 = Some (i @ iv @ replicate (length ?ct) 0)"
    "array_set (i @ iv @ replicate (length ?ct) 0) ?ct 77 = Some (i @ iv @ ?ct)"
    using x(4) assms(4) by (simp_all add: array_set_def)
  have "sealDistMsg W w rnd iv ka d b = Some (i @ iv @ ?ct)"
    using x(1,2,4) fits by (simp add: sealDistMsg_def js_slice_def Let_def)
  moreover have "openDistMsg W w kb (i @ iv @ ?ct) = Some d"
    using x(4,6) assms(4) g(1) by (simp add: openDistMsg_def js_slice_def)
  moreover have "i @ iv @ ?ct \<noteq> []" using x(4) by auto
  ultimately show thesis using that x(5) assms(5) g(2) by simp
qed

text \<open>The entry that the server serves to a member once the sender has posted its copies.\<close>

definition served :: "id \<Rightarrow> (id \<times> jsstr) list \<Rightarrow> id \<Rightarrow> sender_entry" where
  "served sender payloads m = \<lparr>e_senderId = sender, e_version = 2, e_encryptedKey = map_of payloads m\<rparr>"

lemma payload_of_member:
  assumes "fetchBundle keys m = Some b" "sealDistMsg W w (rnds m) (ivs m) ka d b = Some env" "m \<in> set ms"
  shows "map_of (concat (map (dist_payload W w rnds ivs keys ka d) ms)) m = Some (bufToBase64url env)"
  using assms(3)
proof (induction ms)
  case (Cons x ms)
  show ?case
  proof (cases "x = m")
    case True
    then show ?thesis using assms(1,2) by (simp add: dist_payload_def)
  next
    case False
    moreover have "map_of (dist_payload W w rnds ivs keys ka d x) m = None"
      using False by (simp add: dist_payload_def split: option.split)
    ultimately show ?thesis using Cons by (auto simp: map_add_def)
  qed
qed simp

lemma distribute_keeps:
  "identity (snd (distribute W w rnd rnds ivs srv conv ms st)) = identity st"
  "initialized (snd (distribute W w rnd rnds ivs srv conv ms st)) = initialized st"
  "loadGroupReceiver c u (e_db (snd (distribute W w rnd rnds ivs srv conv ms st))) = loadGroupReceiver c u (e_db st)"
  by (auto simp: distribute_def doDistribute_def Let_def split: option.splits prod.splits)

text \<open>Group messages reach the members.  A sender distributes a new key to the members of a conversation; for every member whose
  published bundle is genuine and who has no key of this sender yet, the prefetch of the served entry on the member's device installs
  it, and from then on every text the sender encrypts for the group, in order, is encrypted and is read by the member unchanged.\<close>

theorem group_conversation:
  assumes "key_laws W K" "x3dh_laws W K" "group_laws W gr" "gcm_inverts w"
    "identity sa = Some ka" "initialized sa" "identity sb = Some kb" "initialized sb" "currentUserId sb = Some m" "m \<noteq> 0"
    "published W K (v2_text srv) m kb" "m \<in> set members" "length (ivs m) = 12" "is_bytes (ivs m)"
    "loadGroupReceiver conv sender (e_db sb) = None" "distribute W w rnd rnds ivs srv conv members sa = (ok, sa')"
    "PostSenderKeys conv payloads = last (e_out sa')" "sender_entries srv' conv = Answered [served sender payloads m]" "list_all plain_text ts"
    "key32 (id_ikDhSecret ka)"
  shows "group_talk W w srv conv sender ts sa' (snd (prefetchGroupSenderKeys W w rnd' rnds' ivs' srv' conv members' sock sb)) = ts"
proof -
  obtain b where b: "fetchBundle (v2_text srv) m = Some b" "valid_bundle W K (id_ikDhSecret kb) (id_spkSecret kb) b"
    using assms(11) unfolding published_def by blast
  obtain s d where sd: "groupSenderGenerate W rnd = (s, d)" by (cases "groupSenderGenerate W rnd")
  obtain r where d: "is_bytes d" and r: "groupReceiverFromDist W d = Some r" "gr s r"
    using assms(3) sd unfolding group_laws_def by (metis fst_conv snd_conv)
  obtain env where env: "sealDistMsg W w (rnds m) (ivs m) ka d b = Some env" "is_bytes env" "openDistMsg W w kb env = Some d" "env \<noteq> []"
    by (rule sealed_dist[OF assms(2,4) b(2) assms(13,14) d assms(20)])
  let ?ps = "concat (map (dist_payload W w rnds ivs (v2_text srv) ka d) members)"
  have mine: "map_of ?ps m = Some (bufToBase64url env)" using payload_of_member[where rnds = rnds and ivs = ivs, OF b(1) env(1) assms(12)] .
  then have "?ps \<noteq> []" by (metis map_of.simps(1) option.distinct(1))
  then have sa': "sa' = sa\<lparr>e_db := saveGroupSender conv s (e_db sa), e_out := e_out sa @ [PostSenderKeys conv ?ps]\<rparr>"
    using assms(5,6,16) sd by (auto simp: distribute_def doDistribute_def Let_def simp del: concat_eq_Nil_conv split: if_splits)
  then have "payloads = ?ps" using assms(17) by simp
  then have entry: "served sender payloads m = \<lparr>e_senderId = sender, e_version = 2, e_encryptedKey = Some (bufToBase64url env)\<rparr>"
    using mine by (simp add: served_def)
  have ne: "bufToBase64url env \<noteq> []" using btoa_url_ne[OF env(4,2)] .
  have pre: "prefetch_all W w kb m conv [served sender payloads m] (e_db sb) = (sender = m \<or> False, [] @ [], saveGroupReceiver conv sender r (e_db sb))"
    using assms(15) ne base64url_inverse[OF env(2)] env(3) r(1) by (simp add: entry prefetch_entry_def)
  let ?sb = "snd (prefetchGroupSenderKeys W w rnd' rnds' ivs' srv' conv members' sock sb)"
  let ?st = "sb\<lparr>e_db := saveGroupReceiver conv sender r (e_db sb), e_out := e_out sb\<rparr>"
  have "?sb = ?st \<or> ?sb = snd (distribute W w rnd' rnds' ivs' srv' conv members' ?st)"
    using assms(7-10,18) pre by (simp add: prefetchGroupSenderKeys_def ok_of_def falsy_id_def Let_def)
  moreover have "identity ?st = Some kb" "initialized ?st" "loadGroupReceiver conv sender (e_db ?st) = Some r" using assms(7,8) by simp_all
  ultimately have "identity ?sb = Some kb \<and> initialized ?sb \<and> loadGroupReceiver conv sender (e_db ?sb) = Some r"
    using distribute_keeps by metis
  then have "group_ready gr conv sender sa' ?sb" using sa' assms(5,6) r(2) by (simp add: group_ready_def)
  then show ?thesis using group_talk_reads[OF assms(3)] assms(19) by simp
qed

lemma prefetch_entry_sender: "loadGroupSender c (snd (snd (prefetch_entry W w ident me conv e db))) = loadGroupSender c db"
  by (auto simp: prefetch_entry_def split: option.splits)

lemma prefetch_all_sender: "loadGroupSender c (snd (snd (prefetch_all W w ident me conv es db))) = loadGroupSender c db"
proof (induction es arbitrary: db)
  case (Cons e es)
  then show ?case using prefetch_entry_sender[of c W w ident me conv e db] by (simp split: prod.splits) (metis snd_conv)
qed simp

text \<open>A second browser of the sender sends group messages in the clear.  The prefetch takes an own entry on the server as proof that this
  browser can send, but the sender key itself is only in the database of the browser that made it.  So whenever the server has an own
  entry and this browser has no sender key for the conversation, the prefetch distributes nothing, and afterwards encrypting any text
  for the group returns the text itself, unencrypted, as a success.\<close>

theorem second_browser_sends_clear:
  assumes "identity st \<noteq> None" "initialized st" "\<not> falsy_id (currentUserId st)" "loadGroupSender conv (e_db st) = None"
    "sender_entries srv conv = Answered entries" "e \<in> set entries" "Some (e_senderId e) = currentUserId st" "e_version e = 2"
  shows "let st' = snd (prefetchGroupSenderKeys W w rnd rnds ivs srv conv members sock st)
    in fst (encryptForGroup W content conv st') = Some content \<and> (\<forall>ps. PostSenderKeys conv ps \<in> set (e_out st') \<longrightarrow> PostSenderKeys conv ps \<in> set (e_out st))"
proof -
  obtain ident where i: "identity st = Some ident" using assms(1) by blast
  obtain me where me: "currentUserId st = Some me" using assms(3) by (auto simp: falsy_id_def)
  have ex: "list_ex (\<lambda>e. e_senderId e = me \<and> e_version e = 2) entries" using assms(6-8) me by (auto simp: list_ex_iff)
  obtain mine failed db where pre: "prefetch_all W w ident me conv entries (e_db st) = (mine, failed, db)" by (metis prod_cases3)
  have none: "loadGroupSender conv db = None" using prefetch_all_sender[of conv W w ident me conv entries "e_db st"] pre assms(4) by simp
  show ?thesis
    using assms(2,3,5) i me ex pre none by (auto simp: prefetchGroupSenderKeys_def ok_of_def encryptForGroup_def Let_def)
qed

section \<open>One envelope per device\<close>

lemma devicePairKey_inj: "devicePairKey m d = devicePairKey m d' \<Longrightarrow> d = d'"
proof -
  assume eq: "devicePairKey m d = devicePairKey m d'"
  have form: "devicePairKey a b = 100 # int_str (min a b) @ js '':'' @ 100 # int_str (max a b)" for a b
    by (simp add: devicePairKey_def js_def)
  then have e: "int_str (min m d) @ js '':'' @ 100 # int_str (max m d) = int_str (min m d') @ js '':'' @ 100 # int_str (max m d')"
    using eq by simp
  then have "min m d = min m d'"
    using colon_prefix[of "min m d" "100 # int_str (max m d)" "min m d'"] by (metis append.assoc starts_with_append)
  then have "max m d = max m d'" using e by simp
  with \<open>min m d = min m d'\<close> show "d = d'" by linarith
qed

lemma ratchet_send_with_session:
  "loadRatchetSession ck db = Some s \<Longrightarrow> ratchet_send W rnd prefix ck ik b p db = ratchet_send W rnd prefix ck ik b' p db"
  by (simp add: ratchet_send_def)

lemma ratchet_send_other:
  "ratchet_send W rnd prefix ck ik b p db = (c, db') \<Longrightarrow> ck' \<noteq> ck \<Longrightarrow> loadRatchetSession ck' db' = loadRatchetSession ck' db"
  by (auto simp: ratchet_send_def split: option.splits prod.splits)

lemma seal_envelope_other:
  assumes "seal_envelope W rnd srv ident me key d' st = (e, st')" "d \<noteq> d'"
  shows "loadRatchetSession (devicePairKey me d) (e_db st') = loadRatchetSession (devicePairKey me d) (e_db st)
    \<and> fst (fetchDeviceBundle srv d st') = fst (fetchDeviceBundle srv d st) \<and> map_of e d = None"
proof -
  have "devicePairKey me d \<noteq> devicePairKey me d'" using devicePairKey_inj assms(2) by blast
  then show ?thesis using assms ratchet_send_other
    by (auto simp: seal_envelope_def drDeviceEncrypt_def fetchDeviceBundle_def Let_def split: option.splits prod.splits if_splits)
qed

text \<open>What the sender's state must offer for device \<open>d\<close>, and what the envelopes then hold for it.\<close>

lemma seal_envelopes_device:
  assumes laws: "key_laws W K" "x3dh_laws W K" "ratchet_laws W K" and b: "valid_bundle W K ik spk b" and key: "is_bytes key" "key32 (id_ikDhSecret ident)"
    and step: "in_step K U (devicePairKey me d) (e_db st) dbr" and fetch: "fst (fetchDeviceBundle srv d st) = Some b"
    and d: "d \<in> set ds" "distinct ds"
  shows "\<exists>c dbr'. map_of (fst (seal_envelopes W R srv ident me key ds st)) d = Some c
    \<and> ratchet_receive W rnd' V3_DM (devicePairKey me d) (receiver_session W ik spk) c dbr = (Plain key, dbr')"
  using step fetch d
proof (induction ds arbitrary: st)
  case (Cons x ds)
  obtain e st1 where e: "seal_envelope W (R (length ds)) srv ident me key x st = (e, st1)" by fastforce
  obtain es st2 where es: "seal_envelopes W R srv ident me key ds st1 = (es, st2)" by fastforce
  show ?case
  proof (cases "x = d")
    case True
    let ?ck = "devicePairKey me d"
    obtain c s r where m: "ratchet_send W (R (length ds)) V3_DM ?ck (id_ikDhSecret ident) (Some b) key (e_db st) = (Some c, saveRatchetSession ?ck s (e_db st))"
      "ratchet_receive W rnd' V3_DM ?ck (receiver_session W ik spk) c dbr = (Plain key, saveRatchetSession ?ck r dbr)"
      using deliver[OF laws b Cons.prems(1) key] by blast
    have db1: "e_db (snd (fetchDeviceBundle srv d st)) = e_db st" by (auto simp: fetchDeviceBundle_def Let_def split: option.splits)
    have "e = [(d, c)]"
    proof (cases "loadRatchetSession ?ck (e_db st)")
      case None
      then show ?thesis using e True m(1) Cons.prems(2) db1 by (auto simp: seal_envelope_def drDeviceEncrypt_def split: prod.splits)
    next
      case (Some t)
      then show ?thesis using e True m(1) ratchet_send_with_session[OF Some, of W _ _ _ None _ "Some b"]
        by (auto simp: seal_envelope_def drDeviceEncrypt_def)
    qed
    then show ?thesis using e es m(2) True by auto
  next
    case False
    note o = seal_envelope_other[OF e, of d]
    have "in_step K U (devicePairKey me d) (e_db st1) dbr" "fst (fetchDeviceBundle srv d st1) = Some b"
      using o False Cons.prems(1,2) by (auto simp: in_step_def)
    then show ?thesis using Cons.IH[of st1] Cons.prems(3,4) False e es o by (auto simp: map_add_def split: option.splits)
  qed
qed simp

text \<open>A message encrypted per device is read on each device: the sender seals one random message key for every device of the recipient and
  for its own other devices; on a device whose published bundle is genuine, and whose session with the sending device is new or in
  step, decrypting with the served envelopes returns the text.\<close>

lemma device_message:
  assumes "key_laws W K" "x3dh_laws W K" "ratchet_laws W K" "gcm_inverts w"
    "identity ss = Some ka" "myDeviceId ss = Some me" "me \<noteq> 0" "currentUserId ss = Some u" "u \<noteq> 0"
    "d \<in> set (target_devices srv recipient u me)" "distinct (target_devices srv recipient u me)"
    "fst (fetchDeviceBundle srv d ss) = Some b" "valid_bundle W K (ikDhSecret dk) (spkSecret dk) b"
    "identity sr \<noteq> None" "myDeviceId sr = Some d" "d \<noteq> 0" "deviceKeys sr = Some dk"
    "in_step K U (devicePairKey me d) (e_db ss) (e_db sr)" "is_bytes key" "length iv = 12" "is_bytes iv" "plain_text t"
    "key32 (id_ikDhSecret ka)"
  shows "\<exists>content envelopes ss'. encryptV3Internal W w R srv key iv t recipient ss = (Some (content, envelopes), ss')
    \<and> starts_with content V3_DM \<and> fst (decryptV3Internal W w rnd content me envelopes sr) = Some t"
proof -
  let ?ct = "gcm_encrypt w key iv (encode_utf8 t)"
  note g = gcm_invertsD[OF assms(4,20) plain_text_bytes[OF assms(22)], of key]
  obtain es ss' where es: "seal_envelopes W R srv ka me key (target_devices srv recipient u me) ss = (es, ss')" by fastforce
  obtain c dbr' where c: "map_of es d = Some c"
    "ratchet_receive W rnd V3_DM (devicePairKey me d) (receiver_session W (ikDhSecret dk) (spkSecret dk)) c (e_db sr) = (Plain key, dbr')"
    using seal_envelopes_device[OF assms(1-3,13,19,23,18,12,10,11), of R rnd] es by auto
  have content: "base64urlToBuf (drop (length V3_DM) (V3_DM @ bufToBase64url (iv @ ?ct))) = Some (iv @ ?ct)"
    using wire_text[of "iv @ ?ct"] assms(21) g(2) by simp
  have "fst (decryptV3Internal W w rnd (V3_DM @ bufToBase64url (iv @ ?ct)) me es sr) = Some t"
    unfolding decryptV3Internal_def content
    using assms(14-17,20) c g(1) plain_text_roundtrip[OF assms(22)] by (simp add: falsy_id_def drDeviceDecrypt_def)
  then show ?thesis using es assms(5-9) by (simp add: encryptV3Internal_def falsy_id_def)
qed

section \<open>Recovery with a PIN\<close>

definition pin_laws :: "wasm \<Rightarrow> bool" where
  "pin_laws W \<longleftrightarrow>
     (\<forall>r k pin. is_bytes k \<and> is_bytes pin \<longrightarrow> decryptKeyWithPin W (encryptKeyWithPin W r k pin) pin = Some k
        \<and> is_bytes (encryptKeyWithPin W r k pin) \<and> encryptKeyWithPin W r k pin \<noteq> [])"

lemma pack_recovery_concat:
  assumes "sized_keys k"
  shows "pack_recovery k = Some (id_ikDhSecret k @ ikSignSeed k @ id_spkSecret k @ id_ikDhPub k @ ikSignPub k @ id_spkPub k @ id_spkSig k)"
    "unpack_recovery (id_ikDhSecret k @ ikSignSeed k @ id_spkSecret k @ id_ikDhPub k @ ikSignPub k @ id_spkPub k @ id_spkSig k) = k"
    "is_bytes (id_ikDhSecret k @ ikSignSeed k @ id_spkSecret k @ id_ikDhPub k @ ikSignPub k @ id_spkPub k @ id_spkSig k)"
proof -
  have fits: "array_set (p @ replicate n 0) q (length p) = Some ((p @ q) @ replicate (n - length q) 0)" if "length q \<le> n" for p q n
    using array_set_fits[OF refl that] by simp
  let ?p1 = "id_ikDhSecret k" let ?p2 = "?p1 @ ikSignSeed k" let ?p3 = "?p2 @ id_spkSecret k" let ?p4 = "?p3 @ id_ikDhPub k"
  let ?p5 = "?p4 @ ikSignPub k" let ?p6 = "?p5 @ id_spkPub k"
  show "pack_recovery k = Some (id_ikDhSecret k @ ikSignSeed k @ id_spkSecret k @ id_ikDhPub k @ ikSignPub k @ id_spkPub k @ id_spkSig k)"
    using assms fits[of ?p1 256 "[]"] fits[of "ikSignSeed k" 224 ?p1] fits[of "id_spkSecret k" 192 ?p2] fits[of "id_ikDhPub k" 160 ?p3]
      fits[of "ikSignPub k" 128 ?p4] fits[of "id_spkPub k" 96 ?p5] fits[of "id_spkSig k" 64 ?p6]
    by (simp add: pack_recovery_def sized_keys_def)
qed (use assms in \<open>simp_all add: sized_keys_def unpack_recovery_def js_slice_def\<close>)

lemma registerBrowser_keeps:
  assumes "registerBrowser W r1 r2 srv u keys st = (ok, st')"
  shows "identity st' = identity st \<and> initialized st' = initialized st \<and> e_db st' = e_db st \<and> currentUserId st' = currentUserId st"
  using assms by (auto simp: registerBrowser_def Let_def split: option.splits prod.splits reply.splits)

lemma load_legacy_keeps:
  "e_db (load_legacy w rnd iv u st) = e_db st" "currentUserId (load_legacy w rnd iv u st) = currentUserId st"
  by (simp_all add: load_legacy_def split: prod.splits)

text \<open>A PIN moves the identity to a new browser.  \<open>setupRecovery\<close> posts the identity sealed under the PIN.  On another browser of the
  same user, without identity and vault, start-up takes the posted text and asks for recovery; a PIN that does not open it changes
  nothing; the PIN it was sealed under gives exactly the same identity, ready for use, and stored so that the next start loads it.\<close>

theorem pin_recovery:
  fixes R :: "nat \<Rightarrow> seed"
  assumes "pin_laws W" "gcm_inverts w" "sized_keys k" "identity st = Some k" "initialized st" "\<not> falsy_id (currentUserId st)"
    "setupRecovery W r srv pin isReset st = (True, st1)" "last (e_out st1) = PostRecovery blob reset"
    "u \<noteq> 0" "\<not> initialized nw" "\<not> initRunning nw" "ls (e_db nw) (v2_vault_key u) = None" "recovery_blob srv' = Answered blob"
    "is_bytes rnd" "rnd \<noteq> []" "length iv = 12" "is_bytes (encode_utf8 pin)"
  defines "nw1 \<equiv> snd (init_keys W w R rnd iv srv' u (initGeneration nw + 1) None (snd (init_begin u nw)))"
  shows "fst (init_begin u nw) = Some (initGeneration nw + 1) \<and> e2eStatus nw1 = NeedsRecovery \<and> pendingRecoveryBlob nw1 = Some blob
    \<and> (Option.bind (base64urlToBuf blob) (\<lambda>b. decryptKeyWithPin W b (encode_utf8 pin')) = None \<longrightarrow> unlockWithPin W w R rnd iv srv' pin' nw1 = (False, nw1))
    \<and> (\<exists>nw2. unlockWithPin W w R rnd iv srv' pin nw1 = (True, nw2) \<and> identity nw2 = Some k \<and> initialized nw2
         \<and> e2eStatus nw2 = ReadyStatus \<and> loadIdentityKeys w rnd' u (e_db nw2) = (Some k, e_db nw2))"
proof -
  let ?b = "id_ikDhSecret k @ ikSignSeed k @ id_spkSecret k @ id_ikDhPub k @ ikSignPub k @ id_spkPub k @ id_spkSig k"
  let ?enc = "encryptKeyWithPin W r ?b (encode_utf8 pin)"
  note pack = pack_recovery_concat[OF assms(3)]
  have law: "decryptKeyWithPin W ?enc (encode_utf8 pin) = Some ?b" "is_bytes ?enc" "?enc \<noteq> []"
    using assms(1,17) pack(3) unfolding pin_laws_def by blast+
  have blob: "blob = bufToBase64url ?enc"
    using assms(4-8) pack(1) by (auto simp: setupRecovery_def Let_def split: if_splits)
  have dec: "base64urlToBuf blob = Some ?enc" "blob \<noteq> []" using base64url_inverse[OF law(2)] btoa_url_ne[OF law(3,2)] blob by simp_all
  have nw1: "nw1 = nw\<lparr>currentUserId := Some u, e2eStatus := NeedsRecovery, initRunning := False, initGeneration := initGeneration nw + 1,
      pendingRecoveryBlob := Some blob\<rparr>"
    using assms(9-11,13) by (simp add: nw1_def init_begin_def init_keys_def init_stop_def)
  obtain db where db: "saveIdentityKeys w rnd iv u k (e_db nw) = (True, db)"
    by (rule save_identity_succeeds[OF assms(3,14,12)])
  let ?st = "(load_legacy w rnd iv u (nw1\<lparr>e_db := db\<rparr>))\<lparr>identity := Some k, initialized := True, pendingRecoveryBlob := None\<rparr>"
  obtain ok st2 where reg: "registerBrowser W (R 3) (R 4) srv' u k ?st = (ok, st2)" by fastforce
  note kept = registerBrowser_keeps[OF reg]
  let ?nw2 = "(if ok then st2 else stored_device u st2)\<lparr>e2eStatus := ReadyStatus\<rparr>"
  have "unlockWithPin W w R rnd iv srv' pin nw1 = (True, ?nw2)"
    using dec law(1) pack(2) db reg assms(9) by (cases ok) (simp_all add: unlockWithPin_def nw1 falsy_id_def truthy_def Let_def)
  moreover have "identity ?nw2 = Some k \<and> initialized ?nw2 \<and> e_db ?nw2 = db"
    using kept load_legacy_keeps by (simp add: stored_device_def)
  moreover have "loadIdentityKeys w rnd' u db = (Some k, db)"
    using saved_identity_loads[OF assms(2,3,14-16) db refl refl] .
  moreover have "unlockWithPin W w R rnd iv srv' pin' nw1 = (False, nw1)" if "Option.bind (base64urlToBuf blob) (\<lambda>b. decryptKeyWithPin W b (encode_utf8 pin')) = None"
    using dec that by (simp add: unlockWithPin_def nw1 falsy_id_def truthy_def)
  moreover have "fst (init_begin u nw) = Some (initGeneration nw + 1)" using assms(9-11) by (simp add: init_begin_def)
  ultimately show ?thesis by (simp add: nw1)
qed

section \<open>Concrete instances\<close>

lemma unary_inj: "concat (map (\<lambda>x. replicate x 1 @ [0 :: nat]) p) = concat (map (\<lambda>x. replicate x 1 @ [0]) q) \<Longrightarrow> p = q"
proof (induction p arbitrary: q)
  case Nil
  then show ?case by (cases q) auto
next
  case (Cons x p)
  then obtain y q' where q: "q = y # q'" by (cases q) auto
  have tw: "takeWhile (\<lambda>c. c = 1) (replicate n 1 @ 0 # s) = replicate n (1 :: nat)" for n s by (induction n) auto
  have eq: "replicate x 1 @ 0 # concat (map (\<lambda>x. replicate x 1 @ [0 :: nat]) p) = replicate y 1 @ 0 # concat (map (\<lambda>x. replicate x 1 @ [0]) q')"
    using Cons.prems q by simp
  have "replicate x (1 :: nat) = replicate y 1" using arg_cong[OF eq, of "takeWhile (\<lambda>c. c = 1)"] unfolding tw .
  then have "x = y" using arg_cong[of "replicate x (1 :: nat)" "replicate y 1" length] by simp
  then show ?case using eq Cons.IH q by simp
qed

lemma pin_code_prefix: "starts_with (pin_code p @ k) (pin_code q) \<longleftrightarrow> p = q"
proof
  assume "starts_with (pin_code p @ k) (pin_code q)"
  then obtain t where eq: "pin_code p @ k = pin_code q @ t" by (metis starts_withD)
  have two: "2 \<notin> set (concat (map (\<lambda>x. replicate x 1 @ [0 :: nat]) p))" for p by auto
  have tw: "takeWhile (\<lambda>c. c \<noteq> 2) (pin_code p @ k) = concat (map (\<lambda>x. replicate x 1 @ [0 :: nat]) p)" for p k
    using two[of p] by (simp add: pin_code_def takeWhile_tail) 
  show "p = q" using arg_cong[OF eq, of "takeWhile (\<lambda>c. c \<noteq> 2)"] unfolding tw by (rule unary_inj)
qed simp

lemma toy_pin_laws: "pin_laws toy_wasm"
proof -
  have "is_bytes (pin_code p)" for p by (auto simp: pin_code_def is_bytes_def list_all_iff)
  moreover have "pin_code p \<noteq> []" for p by (simp add: pin_code_def)
  ultimately show ?thesis using pin_code_prefix by (auto simp: pin_laws_def toy_wasm_def)
qed

lemma toy_group_laws: "group_laws toy_wasm (\<lambda>s r. s = r \<and> is_bytes s)"
  by (simp add: group_laws_def toy_wasm_def)

lemma toy_genuine: "genuine toy_wasm toy_keys (toy_id r)"
  by (simp add: toy_id_def generated_genuine[OF toy_laws(1)])

lemma genuine_sized:
  assumes "key_laws W K" "genuine W K k"
  shows "sized_keys k"
proof -
  have k: "key32 (ikSignSeed k)" "key32 (id_ikDhSecret k)" "key32 (id_spkSecret k)" using assms(2) by (simp_all add: genuine_def)
  then have "key32 (sign_pub K (ikSignSeed k))" "key32 (dh_pub K (id_ikDhSecret k))" and pub: "key32 (dh_pub K (id_spkSecret k))"
    using assms(1) unfolding key_laws_def by blast+
  moreover have "length (ed25519_sign W (ikSignSeed k) m) = 64 \<and> is_bytes (ed25519_sign W (ikSignSeed k) m)" if "is_bytes m" for m
    using assms(1) k(1) that unfolding key_laws_def by blast
  ultimately show ?thesis using assms(2) k by (simp add: sized_keys_def genuine_def key32_def)
qed

lemma toy_dh32: "key32 (id_ikDhSecret (toy_id r))"
  using toy_genuine by (simp add: genuine_def)

definition demo_e2e :: "id \<Rightarrow> seed \<Rightarrow> e2e" where
  "demo_e2e u r = \<lparr>identity = Some (toy_id r), currentUserId = Some u, initialized = True, initRunning = False, initGeneration = 1,
     keysWereRotated = False, e2eStatus = ReadyStatus, pendingRecoveryBlob = None, legacyPrivKey = None, myDeviceId = Some (100 + u),
     deviceKeys = Some \<lparr>ikDhSecret = id_ikDhSecret (toy_id r), ikDhPub = id_ikDhPub (toy_id r), spkSecret = id_spkSecret (toy_id r),
       spkPub = id_spkPub (toy_id r), spkSig = id_spkSig (toy_id r)\<rparr>,
     legacyKeyCache = [], peerV2Cache = [], deviceBundleCache = [], e_db = empty_db, e_br = \<lparr>local = (\<lambda>_. None), keypairs = (\<lambda>_. None)\<rparr>,
     e_out = []\<rparr>"

definition demo_srv :: e2e_srv where
  "demo_srv = \<lparr>v2_bundle = (\<lambda>u. case toy_users u of None \<Rightarrow> NotFound404 | Some t \<Rightarrow> Answered t),
     v3_bundle = (\<lambda>d. case toy_users (d - 100) of None \<Rightarrow> NotFound404 | Some t \<Rightarrow> Answered t),
     v3_devices = (\<lambda>u. Answered [100 + u]), v1_public = (\<lambda>_. NotFound404), recovery_blob = NotFound404,
     sender_entries = (\<lambda>_. Answered []), posted_device = Answered 101, post_ok = True\<rparr>"

lemma demo_v2: "v2_text demo_srv = toy_users"
  by (rule ext) (simp add: v2_text_def demo_srv_def ok_of_def split: option.split)

theorem second_browser_sends_clear_witness:
  "fst (encryptForGroup toy_wasm (js ''secret'') 5 (snd (prefetchGroupSenderKeys toy_wasm toy_crypto 1 (\<lambda>_. 2) (\<lambda>_. [])
     (demo_srv\<lparr>sender_entries := (\<lambda>_. Answered [\<lparr>e_senderId = 1, e_version = 2, e_encryptedKey = None\<rparr>])\<rparr>) 5 [1, 2] True (demo_e2e 1 10))))
   = Some (js ''secret'')"
  using second_browser_sends_clear[of "demo_e2e 1 10" 5 "demo_srv\<lparr>sender_entries := (\<lambda>_. Answered [\<lparr>e_senderId = 1, e_version = 2, e_encryptedKey = None\<rparr>])\<rparr>"
      "[\<lparr>e_senderId = 1, e_version = 2, e_encryptedKey = None\<rparr>]" "\<lparr>e_senderId = 1, e_version = 2, e_encryptedKey = None\<rparr>"
      toy_wasm toy_crypto 1 "\<lambda>_. 2" "\<lambda>_. []" "[1, 2]" True "js ''secret''"]
  by (simp add: demo_e2e_def falsy_id_def loadGroupSender_def db_get_def empty_db_def Let_def)

lemma demo_fields:
  "identity (demo_e2e u r) = Some (toy_id r)" "initialized (demo_e2e u r)" "currentUserId (demo_e2e u r) = Some u"
  "myDeviceId (demo_e2e u r) = Some (100 + u)" "e_db (demo_e2e u r) = empty_db" "deviceBundleCache (demo_e2e u r) = []" "e_out (demo_e2e u r) = []"
  by (simp_all add: demo_e2e_def)

lemma plain_hello: "plain_text (js ''hello'')" "plain_text (js ''bye'')"
  by (simp_all add: plain_text_def js_def high_surrogate_def low_surrogate_def)

theorem group_conversation_witness:
  "\<exists>sa sb. group_talk toy_wasm toy_crypto demo_srv 5 1 [js ''hello'', js ''bye''] sa sb = [js ''hello'', js ''bye'']"
proof -
  obtain ok sa' where d: "distribute toy_wasm toy_crypto 3 (\<lambda>_. 4) (\<lambda>_. replicate 12 0) demo_srv 5 [2] (demo_e2e 1 10) = (ok, sa')" by fastforce
  obtain b where b: "fetchBundle toy_users 2 = Some b" using toy_published(2) by (auto simp: published_def)
  obtain env where "sealDistMsg toy_wasm toy_crypto 4 (replicate 12 0) (toy_id 10) (snd (groupSenderGenerate toy_wasm 3)) b = Some env"
    by (simp add: sealDistMsg_def toy_wasm_def js_slice_def array_set_def Let_def)
  then have "\<exists>ps. e_out sa' = [PostSenderKeys 5 ps]"
    using d b by (auto simp: distribute_def demo_fields doDistribute_def dist_payload_def demo_v2 Let_def toy_wasm_def)
  then obtain ps where ps: "e_out sa' = [PostSenderKeys 5 ps]" by blast
  let ?srv = "demo_srv\<lparr>sender_entries := (\<lambda>_. Answered [served 1 ps 2])\<rparr>"
  have pub: "published toy_wasm toy_keys (v2_text demo_srv) 2 (toy_id 20)" using toy_published(2) by (simp add: demo_v2)
  have none: "loadGroupReceiver 5 1 (e_db (demo_e2e 2 20)) = None"
    by (simp add: demo_fields loadGroupReceiver_def db_get_def empty_db_def)
  show ?thesis
    using group_conversation[where payloads = ps and srv' = ?srv and ts = "[js ''hello'', js ''bye'']" and rnd' = 3 and rnds' = "\<lambda>_. 4" and ivs' = "\<lambda>_. []" and members' = "[]" and sock = False,
        OF toy_laws(1,2) toy_group_laws toy_inverts demo_fields(1,2) demo_fields(1,2,3) _ pub _ _ _ none d] ps plain_hello toy_dh32
    by simp blast
qed

lemma demo_device:
  obtains b where "fst (fetchDeviceBundle demo_srv 102 (demo_e2e 1 10)) = Some b"
    "valid_bundle toy_wasm toy_keys (id_ikDhSecret (toy_id 20)) (id_spkSecret (toy_id 20)) b"
    "target_devices demo_srv 2 1 101 = [102]" "in_step toy_keys {} (devicePairKey 101 102) (e_db (demo_e2e 1 10)) (e_db (demo_e2e 2 20))"
proof -
  obtain b where b: "fetchBundle toy_users 2 = Some b" "valid_bundle toy_wasm toy_keys (id_ikDhSecret (toy_id 20)) (id_spkSecret (toy_id 20)) b"
    using toy_published(2) by (auto simp: published_def)
  have "fst (fetchDeviceBundle demo_srv 102 (demo_e2e 1 10)) = Some b"
    using b(1) by (auto simp: fetchDeviceBundle_def demo_fields demo_srv_def ok_of_def fetchBundle_def Let_def bind_eq_Some_conv split: option.splits)
  moreover have "target_devices demo_srv 2 1 101 = [102]" by (simp add: target_devices_def demo_srv_def ok_of_def)
  moreover have "in_step toy_keys {} (devicePairKey 101 102) (e_db (demo_e2e 1 10)) (e_db (demo_e2e 2 20))" by (simp add: in_step_def demo_fields fresh_db)
  ultimately show thesis using that b(2) by blast
qed

theorem pin_recovery_witness:
  "\<exists>srv nw nw2. unlockWithPin toy_wasm toy_crypto (\<lambda>_. 3) [1] (replicate 12 0) srv (js ''1234'') nw = (True, nw2)
     \<and> identity nw2 = Some (toy_id 10) \<and> unlockWithPin toy_wasm toy_crypto (\<lambda>_. 3) [1] (replicate 12 0) srv (js ''1235'') nw = (False, nw)"
proof -
  have sized: "sized_keys (toy_id 10)" by (rule genuine_sized[OF toy_laws(1) toy_genuine])
  let ?enc = "encryptKeyWithPin toy_wasm 4 (the (pack_recovery (toy_id 10))) (encode_utf8 (js ''1234''))"
  let ?blob = "bufToBase64url ?enc"
  have posted: "setupRecovery toy_wasm 4 demo_srv (js ''1234'') False (demo_e2e 1 10) = (True, (demo_e2e 1 10)\<lparr>e_out := [PostRecovery ?blob False]\<rparr>)"
    using pack_recovery_concat(1)[OF sized] by (simp add: setupRecovery_def demo_fields falsy_id_def demo_srv_def) (simp add: demo_e2e_def)
  let ?srv = "demo_srv\<lparr>recovery_blob := Answered ?blob\<rparr>"
  let ?nw = "(demo_e2e 1 0)\<lparr>identity := None, initialized := False\<rparr>"
  have utf8: "encode_utf8 (js ''1235'') = [49, 50, 51, 53]" "encode_utf8 (js ''1234'') = [49, 50, 51, 52]"
    by (simp_all add: encode_utf8_def js_def utf8_bytes_def high_surrogate_def low_surrogate_def)
  have pin: "is_bytes (encode_utf8 (js ''1234''))" by (simp add: utf8(2) is_bytes_def)
  obtain k where k: "pack_recovery (toy_id 10) = Some k" "is_bytes k" using pack_recovery_concat(1,3)[OF sized] by blast
  have enc: "?enc = pin_code (encode_utf8 (js ''1234'')) @ k" by (simp add: toy_wasm_def k(1))
  have "is_bytes ?enc" using toy_pin_laws k pin unfolding pin_laws_def by (metis option.sel)
  then have wrong: "Option.bind (base64urlToBuf ?blob) (\<lambda>b. decryptKeyWithPin toy_wasm b (encode_utf8 (js ''1235''))) = None"
    using base64url_inverse[of ?enc] pin_code_prefix[of "encode_utf8 (js ''1234'')" k "encode_utf8 (js ''1235'')"] enc utf8 by (simp add: toy_wasm_def)
  have fresh: "\<not> initialized ?nw" "\<not> initRunning ?nw" "ls (e_db ?nw) (v2_vault_key 1) = None" by (simp_all add: demo_e2e_def empty_db_def)
  show ?thesis
    using pin_recovery[where R = "\<lambda>_. 3" and pin' = "js ''1235''" and rnd = "[1]" and iv = "replicate 12 0" and srv' = ?srv and reset = False,
        OF toy_pin_laws toy_inverts sized demo_fields(1,2) _ posted _ _ fresh] wrong pin
    by (simp add: demo_fields falsy_id_def) blast
qed

end
