(* ===== verification/ClientMessageProps.thy ===== *)
theory ClientMessageProps
  imports ClientMessages E2EProperties
begin

text \<open>
  Properties of the message list of \<open>ClientMessages\<close>: no message twice, how the echo of an own message is matched, a message
  from one user's input to the other's screen, and the faults of the cache and of the offline queue.
\<close>

section \<open>No message twice\<close>

definition ids :: "cmsg list \<Rightarrow> id option list" where
  "ids ms = filter truthy_id (map m_id ms)"

definition unique_ids :: "cmsg list \<Rightarrow> bool" where
  "unique_ids ms \<longleftrightarrow> distinct (ids ms)"

lemma ids_simps [simp]: "ids [] = []" "ids (m # ms) = (if truthy_id (m_id m) then m_id m # ids ms else ids ms)" "ids (xs @ ys) = ids xs @ ids ys"
  by (simp_all add: ids_def)

lemma has_id_ids: "truthy_id i \<Longrightarrow> has_id ms i \<longleftrightarrow> i \<in> set (ids ms)"
  by (auto simp: has_id_def list_ex_iff ids_def)

lemma ids_map_same: "(\<And>m. m_id (f m) = m_id m) \<Longrightarrow> ids (map f ms) = ids ms"
  by (simp add: ids_def comp_def)

lemma ids_marks [simp]:
  "ids (mark_deleted now i ms) = ids ms" "ids (mark_edited c t i ms) = ids ms" "ids (set_reactions rs i ms) = ids ms"
  "ids (mark_read p ms) = ids ms" "ids (mark_failed q ms) = ids ms"
  by (auto simp: mark_deleted_def mark_edited_def set_reactions_def mark_read_def mark_failed_def update_id_def intro!: ids_map_same)

lemma unique_append: "unique_ids ms \<Longrightarrow> (truthy_id (m_id m) \<Longrightarrow> \<not> has_id ms (m_id m)) \<Longrightarrow> unique_ids (ms @ [m])"
  by (auto simp: unique_ids_def has_id_ids)

lemma unique_replace:
  assumes "unique_ids ms" "i < length ms" "falsy_id (m_id (ms ! i))" "truthy_id (m_id m) \<Longrightarrow> \<not> has_id ms (m_id m)"
  shows "unique_ids (ms[i := m])"
proof -
  let ?a = "take i ms" and ?b = "drop (Suc i) ms"
  have ms: "ms = ?a @ ms ! i # ?b" and upd: "ms[i := m] = ?a @ m # ?b"
    using assms(2) by (simp_all add: id_take_nth_drop upd_conv_take_nth_drop)
  have "ids ms = ids ?a @ ids ?b" using assms(3) by (subst ms) (simp add: truthy_id_def del: append_take_drop_id)
  then have d: "distinct (ids ?a @ ids ?b)" and n: "truthy_id (m_id m) \<Longrightarrow> m_id m \<notin> set (ids ?a @ ids ?b)"
    using assms(1,4) has_id_ids[of "m_id m" ms] by (auto simp: unique_ids_def)
  show ?thesis unfolding unique_ids_def upd using d n by auto
qed

lemma findIndex_Some: "findIndex P xs = Some i \<Longrightarrow> i < length xs \<and> P (xs ! i) \<and> (\<forall>j < i. \<not> P (xs ! j))"
proof (induction xs arbitrary: i)
  case (Cons x xs)
  then show ?case by (auto simp: less_Suc_eq_0_disj split: if_splits)
qed simp

lemma findIndex_None: "findIndex P xs = None \<longleftrightarrow> (\<forall>x \<in> set xs. \<not> P x)"
  by (induction xs) auto

lemma findLastIndex_Some: "findLastIndex P xs = Some i \<Longrightarrow> i < length xs \<and> P (xs ! i)"
  using findIndex_Some[of P "rev xs"] by (auto simp: findLastIndex_def rev_nth)

lemma echo_index_Some: "echo_index p c ms = Some i \<Longrightarrow> i < length ms \<and> own_unconfirmed p (ms ! i)"
  using findIndex_Some findLastIndex_Some by (fastforce simp: echo_index_def own_cipher_def split: option.splits)

lemma merge_unique:
  assumes "unique_ids ms"
  shows "unique_ids (merge_message p c m ms)"
proof (cases "truthy_id (m_id m) \<and> has_id ms (m_id m)")
  case False
  then have new: "truthy_id (m_id m) \<Longrightarrow> \<not> has_id ms (m_id m)" by blast
  show ?thesis
  proof (cases "same_user p (m_senderId m)")
    case True
    then show ?thesis using False new assms unique_append echo_index_Some[of p c ms]
      by (auto simp: merge_message_def own_unconfirmed_def confirm_def intro!: unique_replace split: option.splits)
  next
    case other: False
    then show ?thesis using False new assms unique_append findIndex_Some[of "same_incoming m" ms]
      by (auto simp: merge_message_def same_incoming_def intro!: unique_replace split: option.splits)
  qed
qed (use assms in \<open>simp add: merge_message_def\<close>)

lemma scheduled_unique: "unique_ids ms \<Longrightarrow> unique_ids (add_scheduled m ms)"
  using unique_append by (auto simp: add_scheduled_def)

lemma dedup_unique: "distinct (ids (dedup_from seen ms)) \<and> (\<forall>i \<in> set (ids (dedup_from seen ms)). ById (the i) \<notin> seen)"
proof (induction ms arbitrary: seen)
  case (Cons m ms)
  show ?case
  proof (cases "dedup_key_of m")
    case None
    then show ?thesis using Cons by simp
  next
    case (Some k)
    show ?thesis
    proof (cases "k \<in> seen")
      case False
      have key: "truthy_id (m_id m) \<Longrightarrow> k = ById (the (m_id m))" using Some by (auto simp: dedup_key_of_def truthy_id_def falsy_id_def)
      have "truthy_id (m_id m) \<Longrightarrow> m_id m \<notin> set (ids (dedup_from (insert k seen) ms))"
        using Cons[of "insert k seen"] key by auto
      then show ?thesis using Cons[of "insert k seen"] Some False key by auto
    qed (use Cons Some in simp)
  qed
qed simp

lemma deduplicate_unique: "unique_ids (deduplicateMessages ms)"
  using dedup_unique by (simp add: unique_ids_def deduplicateMessages_def)

text \<open>Decryption keeps the identifiers and the order.\<close>

lemma decrypt_history_id: "decrypt_history en p m st = (Some m', st') \<Longrightarrow> m_id m' = m_id m"
  by (auto simp: decrypt_history_def open_v3_def open_v2_file_def open_v2_text_def unreadable_def Let_def
      split: if_splits option.splits prod.splits)

lemma resolve_reply_id: "resolve_reply en p m st = (m', st') \<Longrightarrow> m_id m' = m_id m \<and> m_content m' = m_content m"
  by (auto simp: resolve_reply_def split: option.splits if_splits prod.splits)

lemma pass1_ids: "history_pass1 en p ms st = (Some ms', st') \<Longrightarrow> map m_id ms' = map m_id ms"
proof (induction ms arbitrary: st ms' st')
  case (Cons m ms)
  then show ?case using decrypt_history_id by (fastforce split: prod.splits option.splits)
qed simp

lemma pass2_ids: "history_pass2 en p ms st = (ms', st') \<Longrightarrow> map m_id ms' = map m_id ms"
proof (induction ms arbitrary: st ms' st')
  case (Cons m ms)
  then show ?case using resolve_reply_id by (fastforce split: prod.splits)
qed simp

lemma decryptMessages_ids: "decryptMessages en p raw st = (Some ms, st') \<Longrightarrow> ids ms = ids raw"
  using pass1_ids pass2_ids by (fastforce simp: decryptMessages_def ids_def split: prod.splits option.splits)

text \<open>Everything that changes the list.\<close>

datatype m_event =
    Opened bool
  | HistoryLoaded time "cmsg list" "id option"
  | OlderLoaded "cmsg list option"
  | NewerLoaded "cmsg list option"
  | AroundLoaded id "cmsg list option"
  | LatestLoaded "cmsg list option"
  | Arrives time cmsg
  | Scheduled cmsg
  | Deleted time id id
  | Edited id jsstr time id "id option"
  | Reacted id "jsstr list" id
  | Read id id
  | Destructs time id
  | QueueFailed queued
  | Sends "nat \<Rightarrow> seed" bytes bytes time jsstr jsstr jsstr "id option" "time option" "int option"
  | SendsFile time jsstr "jsstr option" "jsstr option" "id option" "int option" "envelope list option"
  | EditsOwn time id jsstr

fun m_exec :: "menv \<Rightarrow> mprops \<Rightarrow> m_event \<Rightarrow> mhook \<Rightarrow> mhook" where
  "m_exec en p (Opened r) h = open_conversation p r h"
| "m_exec en p (HistoryLoaded t raw u) h = history_loaded en p t raw u h"
| "m_exec en p (OlderLoaded d) h = older_loaded en p d h"
| "m_exec en p (NewerLoaded d) h = newer_loaded en p d h"
| "m_exec en p (AroundLoaded i d) h = around_loaded en p i d h"
| "m_exec en p (LatestLoaded d) h = latest_loaded en p d h"
| "m_exec en p (Arrives t m) h = onMessage en p t m h"
| "m_exec en p (Scheduled m) h = onMessageScheduled en p m h"
| "m_exec en p (Deleted t i c) h = onDeleted p t i c h"
| "m_exec en p (Edited i x t c s) h = onEdited en p i x t c s h"
| "m_exec en p (Reacted i rs c) h = onReaction p i rs c h"
| "m_exec en p (Read u c) h = onRead p u c h"
| "m_exec en p (Destructs t i) h = destruct_fires p t i h"
| "m_exec en p (QueueFailed q) h = flush_failed q h"
| "m_exec en p (Sends R k iv t qid tmp x r sch d) h = sendMessage en R k iv p t qid tmp x r sch d h"
| "m_exec en p (SendsFile t f x md r dev es) h = sendFileMessage p t f x md r dev es h"
| "m_exec en p (EditsOwn t i x) h = editMessage_ui en p t i x h"

fun page_of :: "m_event \<Rightarrow> cmsg list" where
  "page_of (HistoryLoaded t raw u) = raw"
| "page_of (AroundLoaded i (Some raw)) = raw"
| "page_of (LatestLoaded (Some raw)) = raw"
| "page_of e = []"

definition m_run :: "(menv \<times> mprops \<times> m_event) list \<Rightarrow> mhook \<Rightarrow> mhook" where
  "m_run es h = fold (\<lambda>(en, p, e). m_exec en p e) es h"

lemma emit_messages [simp]: "messages (socket_emit p e h) = messages h"
  by (simp add: socket_emit_def)

lemma apply_destruct_messages [simp]: "messages (apply_destruct en p now m h) = messages h"
  by (simp add: apply_destruct_def scheduleDestruct_def Let_def split: option.split)

lemma applyDestructTimers_messages [simp]: "messages (applyDestructTimers en p now ms h) = messages h"
  unfolding applyDestructTimers_def by (induction ms arbitrary: h) simp_all

lemma received_id:
  "receive_echo en p ms m st = (d, st') \<Longrightarrow> m_id d = m_id m"
  "receive_peer en p m st = (d, st') \<Longrightarrow> m_id d = m_id m"
  by (auto simp: receive_echo_def receive_peer_def open_v3_def open_v2_file_def open_v2_text_def unreadable_def Let_def
      dest!: resolve_reply_id split: prod.splits if_splits option.splits)

lemma unique_page: "decryptMessages en p raw st = (Some ms, st') \<Longrightarrow> unique_ids raw \<Longrightarrow> unique_ids ms"
  using decryptMessages_ids by (simp add: unique_ids_def)

lemma own_new_unique: "unique_ids ms \<Longrightarrow> m_id m = None \<Longrightarrow> unique_ids (ms @ [m])"
  by (rule unique_append) (simp_all add: truthy_id_def falsy_id_def)

lemma m_exec_unique:
  assumes "unique_ids (messages h)" "unique_ids (page_of e)"
  shows "unique_ids (messages (m_exec en p e h))"
proof (cases e)
  case (Arrives t m)
  then show ?thesis using assms(1) merge_unique by (auto simp: onMessage_def Let_def split: prod.splits)
next
  case (Sends R k iv t qid tmp x r sch d)
  then show ?thesis using assms(1) own_new_unique
    by (auto simp: sendMessage_def Let_def optimistic_def split: prod.splits option.splits)
next
  case (SendsFile t f x md r dev es)
  then show ?thesis using assms(1) own_new_unique by (auto simp: sendFileMessage_def Let_def optimistic_def)
next
  case (HistoryLoaded t raw u)
  then show ?thesis using assms unique_page by (auto simp: history_loaded_def Let_def split: prod.splits option.splits)
next
  case (AroundLoaded i d)
  then show ?thesis using assms unique_page by (cases d) (auto simp: around_loaded_def split: prod.splits option.splits)
next
  case (LatestLoaded d)
  then show ?thesis using assms unique_page by (cases d) (auto simp: latest_loaded_def split: prod.splits option.splits)
next
  case (OlderLoaded d)
  then show ?thesis using assms(1) deduplicate_unique by (cases d) (auto simp: older_loaded_def Let_def split: prod.splits option.splits)
next
  case (NewerLoaded d)
  then show ?thesis using assms(1) deduplicate_unique by (cases d) (auto simp: newer_loaded_def Let_def split: prod.splits option.splits)
next
  case (Scheduled m)
  then show ?thesis using assms(1) scheduled_unique by (auto simp: onMessageScheduled_def split: prod.splits)
next
  case (Edited i x t c s)
  then show ?thesis using assms(1) by (auto simp: onEdited_def unique_ids_def Let_def split: prod.splits option.splits)
next
  case (EditsOwn t i x)
  then show ?thesis using assms(1) by (auto simp: editMessage_ui_def unique_ids_def Let_def split: prod.splits option.splits)
qed (use assms(1) in \<open>auto simp: open_conversation_def onDeleted_def onReaction_def onRead_def destruct_fires_def flush_failed_def
      unique_ids_def Let_def\<close>)


section \<open>From one user's input to the other's screen\<close>

lemma emit_some: "socket p = Some b \<Longrightarrow> h_emits (socket_emit p e h) = h_emits h @ [e]"
  by (simp add: socket_emit_def)

lemma resolve_no_reply: "m_replyTo m = None \<Longrightarrow> resolve_reply en p m st = (m, st)"
  by (simp add: resolve_reply_def)

lemma findIndex_append: "findIndex P xs = None \<Longrightarrow> findIndex P (xs @ ys) = map_option ((+) (length xs)) (findIndex P ys)"
  by (induction xs) (cases "findIndex P ys"; simp split: if_splits)+

text \<open>A new message of the other user, encrypted per device, shown in the recipient's list.\<close>

lemma shows_v3:
  assumes "conversationId p = Some c" "m_conversationId m = c" "\<not> same_user p (m_senderId m)" "m_replyTo m = None" "m_fileUrl m = None"
    "m_id m = Some i" "i \<noteq> 0" "\<not> has_id (messages h) (Some i)" "list_all (\<lambda>x. truthy_id (m_id x) \<or> same_user p (m_senderId x)) (messages h)"
    "is_v3 m" "fst (decryptV3Internal (en_wasm en) (en_crypto en) (en_seed en) (m_content m) (the (m_senderDeviceId m)) (m_envelopes m) (h_e2e h)) = Some t"
  shows "messages (onMessage en p now m h) = messages h @ [m\<lparr>m_content := t\<rparr>]
    \<and> cached (Some i) (h_e2e (onMessage en p now m h)) = Some (t, False)"
proof -
  obtain st where dec: "decryptV3Internal (en_wasm en) (en_crypto en) (en_seed en) (m_content m) (the (m_senderDeviceId m)) (m_envelopes m) (h_e2e h)
      = (Some t, st)" using assms(11) by (metis prod.collapse)
  let ?st = "st\<lparr>e_db := savePlaintext i t False (e_db st)\<rparr>"
  have "receive_peer en p m (h_e2e h) = (m\<lparr>m_content := t\<rparr>, ?st)"
    using dec assms(4-7,10) by (simp add: receive_peer_def open_v3_def remember_def is_media_def falsy_id_def resolve_no_reply)
  moreover have "findIndex (same_incoming (m\<lparr>m_content := t\<rparr>)) (messages h) = None"
    using assms(3,9) by (auto simp: findIndex_None same_incoming_def list_all_iff truthy_id_def)
  moreover have e2e: "h_e2e (apply_destruct en p now x g) = h_e2e g" for x g
    by (simp add: apply_destruct_def scheduleDestruct_def socket_emit_def Let_def split: option.split)
  moreover have "loadPlaintext i (savePlaintext i t False (e_db st)) = Some (DText t False)"
    by (simp add: loadPlaintext_def savePlaintext_def)
  ultimately show ?thesis using assms(1-3,6-8)
    by (simp add: onMessage_def merge_message_def merge_appends_def truthy_id_def falsy_id_def Let_def socket_emit_def cached_def)
qed

text \<open>The echo of an own message whose ciphertext only the last optimistic message carries.\<close>

lemma confirms_own:
  assumes "conversationId p = Some c" "m_conversationId m = c" "same_user p (m_senderId m)" "m_replyTo m = None" "m_fileUrl m = None"
    "m_id m = Some i" "i \<noteq> 0" "messages h = ms @ [opt]" "\<not> has_id ms (Some i)" "list_all (\<lambda>x. m_pendingCipher x \<noteq> Some (m_content m)) ms"
    "own_cipher p (m_content m) opt" "m_fileUrl opt = None"
  shows "messages (onMessage en p now m h)
    = ms @ [m\<lparr>m_content := m_content opt, m_isPending := False, m_queueId := None, m_pendingCipher := None\<rparr>]"
proof -
  have idx: "echo_index p (m_content m) (ms @ [opt]) = Some (length ms)"
    using assms(10,11) findIndex_append[of "own_cipher p (m_content m)" ms "[opt]"] findIndex_None[of "own_cipher p (m_content m)" ms]
    by (auto simp: echo_index_def own_cipher_def list_all_iff)
  have "m_id opt \<noteq> Some i" using assms(7,11) by (auto simp: own_cipher_def own_unconfirmed_def falsy_id_def)
  then have new: "\<not> has_id (messages h) (Some i)" using assms(8,9) by (simp add: has_id_def)
  obtain st where "receive_echo en p (messages h) m (h_e2e h) = (m\<lparr>m_content := fst (echo_text en p (messages h) m (h_e2e h))\<rparr>, st)"
    using assms(4,5) by (cases "echo_text en p (messages h) m (h_e2e h)") (auto simp: receive_echo_def resolve_no_reply)
  then show ?thesis using assms(1-3,5-8,12) idx new
    by (simp add: onMessage_def merge_message_def confirm_def truthy_id_def falsy_id_def Let_def)
qed

text \<open>A direct message, from the sender's input to both screens.  The sender is online and its device is registered; a device of the
  recipient has a genuine bundle and a session that is new or in step.  Then sending emits one message with an envelope per device and
  shows the text at once; when the message arrives at that device of the recipient, with the identifier the server gave it, the list
  there ends with the text, which is remembered for the next load; and its echo replaces the sender's optimistic entry, still with the
  text, leaving every other entry as it was.\<close>

theorem direct_message_end_to_end:
  assumes laws: "key_laws W K" "x3dh_laws W K" "ratchet_laws W K" "gcm_inverts w"
    and env: "en_wasm en = W" "en_crypto en = w" "en_wasm en' = W" "en_crypto en' = w"
    and ps: "conversationType ps = DIRECT" "otherUserId ps = Some b" "conversationId ps = Some c" "p_currentUserId ps = Some a"
      "socket ps = Some True" "isOnline (h_queue hs)" "a \<noteq> 0" "b \<noteq> 0" "c \<noteq> 0" "a \<noteq> b"
    and ss: "identity (h_e2e hs) = Some ka" "myDeviceId (h_e2e hs) = Some me" "me \<noteq> 0" "currentUserId (h_e2e hs) = Some a"
      "d \<in> set (target_devices (en_srv en) b a me)" "distinct (target_devices (en_srv en) b a me)"
      "fst (fetchDeviceBundle (en_srv en) d (h_e2e hs)) = Some bn" "valid_bundle W K (ikDhSecret dk) (spkSecret dk) bn"
    and sr: "identity (h_e2e hr) \<noteq> None" "myDeviceId (h_e2e hr) = Some d" "d \<noteq> 0" "deviceKeys (h_e2e hr) = Some dk"
      "in_step K U (devicePairKey me d) (e_db (h_e2e hs)) (e_db (h_e2e hr))" "key32 (id_ikDhSecret ka)"
    and inp: "is_bytes key" "length iv = 12" "is_bytes iv" "plain_text t" "trim t \<noteq> []"
    and pr: "conversationId pr = Some c" "p_currentUserId pr = Some b" "\<not> has_id (messages hr) (Some i)" "i \<noteq> 0"
      "list_all (\<lambda>x. truthy_id (m_id x) \<or> same_user pr (m_senderId x)) (messages hr)" "\<not> has_id (messages hs) (Some i)"
  shows "\<exists>payload envs opt. h_emits (sendMessage en R key iv ps now qid tmp t None None None hs)
        = h_emits hs @ [SendMessage c payload None None None (Some me) (Some envs), Typing c False]
    \<and> messages (sendMessage en R key iv ps now qid tmp t None None None hs) = messages hs @ [opt] \<and> m_content opt = t
    \<and> (\<forall>m. m_id m = Some i \<and> m_content m = payload \<and> m_senderId m = a \<and> m_conversationId m = c \<and> m_fileUrl m = None \<and> m_replyTo m = None
          \<and> m_senderDeviceId m = Some me \<and> m_envelopes m = envs \<longrightarrow>
        messages (onMessage en' pr now' m hr) = messages hr @ [m\<lparr>m_content := t\<rparr>]
        \<and> cached (Some i) (h_e2e (onMessage en' pr now' m hr)) = Some (t, False)
        \<and> (list_all (\<lambda>x. m_pendingCipher x \<noteq> Some payload) (messages hs) \<longrightarrow>
            messages (onMessage en ps now' m (sendMessage en R key iv ps now qid tmp t None None None hs))
            = messages hs @ [m\<lparr>m_content := t, m_isPending := False, m_queueId := None, m_pendingCipher := None\<rparr>]))"
proof -
  obtain content es st' where enc: "encryptV3Internal W w R (en_srv en) key iv t b (h_e2e hs) = (Some (content, es), st')"
    and v3: "starts_with content V3_DM" and dec: "fst (decryptV3Internal W w (en_seed en') content me es (h_e2e hr)) = Some t"
    using device_message[OF laws ss(1-4) ps(7) ss(5-8) sr(1-4) sr(5) inp(1-4) sr(6)] by blast
  have "es \<noteq> []" using dec by (auto simp: decryptV3Internal_def split: if_splits)
  then obtain e es' where es: "es = e # es'" by (cases es) auto
  let ?opt = "(optimistic ps now t None None)\<lparr>m_queueId := Some tmp, m_pendingCipher := Some content\<rparr>"
  let ?h = "sendMessage en R key iv ps now qid tmp t None None None hs"
  have dir: "isDirect ps" using ps(1,2,8) by (simp add: isDirect_def falsy_id_def)
  have sent: "h_emits ?h = h_emits hs @ [SendMessage c content None None None (Some me) (Some es), Typing c False]
      \<and> messages ?h = messages hs @ [?opt]"
    using enc env ps ss(2,3) inp(5) dir es
    by (simp add: sendMessage_def encryptDirect_def falsy_id_def destruct_metadata_def Let_def emit_some optimistic_def)
  have peer: "messages (onMessage en' pr now' m hr) = messages hr @ [m\<lparr>m_content := t\<rparr>]
      \<and> cached (Some i) (h_e2e (onMessage en' pr now' m hr)) = Some (t, False)"
    if m: "m_id m = Some i" "m_content m = content" "m_senderId m = a" "m_conversationId m = c" "m_fileUrl m = None" "m_replyTo m = None"
      "m_senderDeviceId m = Some me" "m_envelopes m = es" for m
  proof (rule shows_v3[OF pr(1) m(4) _ m(6,5,1) pr(4,3,5)])
    show "\<not> same_user pr (m_senderId m)" using pr(2) ps(10) m(3) by (simp add: same_user_def)
    show "is_v3 m" using v3 m(2,7,8) es ss(3) by (simp add: is_v3_def falsy_id_def)
    show "fst (decryptV3Internal (en_wasm en') (en_crypto en') (en_seed en') (m_content m) (the (m_senderDeviceId m)) (m_envelopes m) (h_e2e hr)) = Some t"
      using dec env m(2,7,8) by simp
  qed
  have echo: "messages (onMessage en ps now' m ?h) = messages hs @ [m\<lparr>m_content := t, m_isPending := False, m_queueId := None, m_pendingCipher := None\<rparr>]"
    if m: "m_id m = Some i" "m_content m = content" "m_senderId m = a" "m_conversationId m = c" "m_fileUrl m = None" "m_replyTo m = None"
      and fresh: "list_all (\<lambda>x. m_pendingCipher x \<noteq> Some content) (messages hs)" for m
    using confirms_own[OF ps(3) m(4) _ m(6,5,1) pr(4), of ?h "messages hs" ?opt en now'] sent fresh m ps(4) pr(6)
    by (simp add: same_user_def own_cipher_def own_unconfirmed_def optimistic_def falsy_id_def)
  show ?thesis
    by (rule exI[of _ content], rule exI[of _ es], rule exI[of _ ?opt]) (use sent peer echo in \<open>auto simp: optimistic_def\<close>)
qed

section \<open>Messages of the offline queue\<close>

lemma destruct_keeps: "h_e2e (apply_destruct en p now m h) = h_e2e h"
  by (simp add: apply_destruct_def scheduleDestruct_def socket_emit_def Let_def split: option.split)

lemma findLastIndex_split:
  assumes "\<forall>x \<in> set rest. \<not> P x" "P x"
  shows "findLastIndex P (ms @ x # rest) = Some (length ms)"
proof -
  have "findIndex P (rev rest @ x # rev ms) = Some (length rest)"
    using findIndex_append[of P "rev rest" "x # rev ms"] findIndex_None[of P "rev rest"] assms by auto
  then show ?thesis by (simp add: findLastIndex_def)
qed

lemma find_rev_split: "\<forall>x \<in> set rest. \<not> P x \<Longrightarrow> P x \<Longrightarrow> find P (rev (ms @ x # rest)) = Some x"
  by (induction rest rule: rev_induct) auto

text \<open>An echo whose ciphertext no entry carries takes the last unconfirmed entry.\<close>

lemma echo_falls_back:
  assumes "conversationId p = Some (m_conversationId m)" "same_user p (m_senderId m)" "m_replyTo m = None" "m_fileUrl m = None"
    "m_id m = Some i" "i \<noteq> 0" "messages h = ms @ opt # rest" "\<not> has_id (messages h) (Some i)"
    "list_all (\<lambda>x. m_pendingCipher x \<noteq> Some (m_content m)) (messages h)" "list_all (\<lambda>x. \<not> own_unconfirmed p x) rest"
    "own_unconfirmed p opt" "m_fileUrl opt = None" "m_content opt \<noteq> m_content m"
  shows "messages (onMessage en p now m h)
      = ms @ m\<lparr>m_content := m_content opt, m_isPending := False, m_queueId := None, m_pendingCipher := None\<rparr> # rest
    \<and> h_e2e (onMessage en p now m h) = remember (Some i) (m_content opt) False (h_e2e h)"
proof -
  have none: "find (own_cipher p (m_content m)) (messages h) = None" "findIndex (own_cipher p (m_content m)) (messages h) = None"
    using assms(9) by (auto simp: find_None_iff findIndex_None own_cipher_def list_all_iff)
  have rest: "\<forall>x \<in> set rest. \<not> own_unconfirmed p x" using assms(10) by (simp add: list_all_iff)
  have idx: "echo_index p (m_content m) (messages h) = Some (length ms)"
    using none(2) findLastIndex_split[OF rest assms(11), of ms] assms(7) by (simp add: echo_index_def)
  have "optimistic_for p (m_content m) (messages h) = Some opt"
    using none(1) find_rev_split[OF rest assms(11), of ms] assms(7) by (simp add: optimistic_for_def)
  then have echo: "receive_echo en p (messages h) m (h_e2e h)
      = (m\<lparr>m_content := m_content opt\<rparr>, remember (Some i) (m_content opt) False (h_e2e h))"
    using assms(3-6,13) by (simp add: receive_echo_def echo_text_def resolve_no_reply truthy_id_def falsy_id_def)
  then show ?thesis using assms(1,2,5-8,12) idx
    by (simp add: onMessage_def merge_message_def confirm_def destruct_keeps truthy_id_def falsy_id_def Let_def)
qed

lemma cached_remember: "i \<noteq> 0 \<Longrightarrow> cached (Some j) (remember (Some i) t l st) = (if j = i then Some (t, l) else cached (Some j) st)"
  by (auto simp: cached_def remember_def loadPlaintext_def savePlaintext_def falsy_id_def)

text \<open>Two messages sent from the offline queue change places.  The entries of the queue carry no ciphertext, so the echo of the
  first takes the text of the second, in the list and in the cache, and the echo of the second what is left: both identifiers are now
  shown, and remembered for every later load, with the other message's text.\<close>

theorem flushed_messages_swap:
  assumes "conversationId p = Some c" "m_conversationId m1 = c" "m_conversationId m2 = c" "same_user p (m_senderId m1)"
    "same_user p (m_senderId m2)" "m_replyTo m1 = None" "m_replyTo m2 = None" "m_fileUrl m1 = None" "m_fileUrl m2 = None"
    "m_id m1 = Some i" "m_id m2 = Some j" "i \<noteq> 0" "j \<noteq> 0" "i \<noteq> j"
    "messages h = ms @ [o1, o2]" "own_unconfirmed p o1" "own_unconfirmed p o2" "m_fileUrl o1 = None" "m_fileUrl o2 = None"
    "\<not> has_id ms (Some i)" "\<not> has_id ms (Some j)"
    "list_all (\<lambda>x. m_pendingCipher x \<notin> {Some (m_content m1), Some (m_content m2)}) (messages h)"
    "m_content o2 \<noteq> m_content m1" "m_content o1 \<noteq> m_content m2"
  shows "\<exists>x2 x1. messages (onMessage en' p t2 m2 (onMessage en p t1 m1 h)) = ms @ [x2, x1]
    \<and> (m_id x2, m_content x2) = (Some j, m_content o1) \<and> (m_id x1, m_content x1) = (Some i, m_content o2)
    \<and> cached (Some i) (h_e2e (onMessage en' p t2 m2 (onMessage en p t1 m1 h))) = Some (m_content o2, False)
    \<and> cached (Some j) (h_e2e (onMessage en' p t2 m2 (onMessage en p t1 m1 h))) = Some (m_content o1, False)"
proof -
  let ?x1 = "m1\<lparr>m_content := m_content o2, m_isPending := False, m_queueId := None, m_pendingCipher := None\<rparr>"
  let ?h1 = "onMessage en p t1 m1 h"
  have o: "m_id o1 \<noteq> Some i" "m_id o2 \<noteq> Some i" "m_id o1 \<noteq> Some j" using assms(12,13,16,17) by (auto simp: own_unconfirmed_def falsy_id_def)
  have first: "messages ?h1 = (ms @ [o1]) @ ?x1 # []" "h_e2e ?h1 = remember (Some i) (m_content o2) False (h_e2e h)"
    using echo_falls_back[of p m1 i h "ms @ [o1]" o2 "[]" en t1] assms o by (auto simp: has_id_def list_all_iff)
  have second: "messages (onMessage en' p t2 m2 ?h1)
      = ms @ m2\<lparr>m_content := m_content o1, m_isPending := False, m_queueId := None, m_pendingCipher := None\<rparr> # [?x1]"
    "h_e2e (onMessage en' p t2 m2 ?h1) = remember (Some j) (m_content o1) False (h_e2e ?h1)"
    using echo_falls_back[of p m2 j ?h1 ms o1 "[?x1]" en' t2] assms first o
    by (auto simp: has_id_def list_all_iff own_unconfirmed_def falsy_id_def)
  show ?thesis unfolding second first(2) using assms(10-14) by (simp add: cached_remember)
qed

text \<open>The offline queue is sent with the wrong encryption.  A text typed into a direct conversation while offline is queued and
  shown as pending; \<open>flush\<close> hands it to \<open>flushMessage\<close>, which encrypts for the conversation that is open by then.  If that is a
  channel, the text goes to the direct conversation in the clear, whereas with the conversation still open and the keys loaded what
  goes out is a message of the ratchet.\<close>

theorem queued_text_in_clear:
  assumes "conversationType p = DIRECT" "conversationId p = Some c" "c \<noteq> 0" "p_currentUserId p = Some a" "a \<noteq> 0" "otherUserId p = Some b" "b \<noteq> 0"
    "trim t \<noteq> []" "\<not> isOnline (h_queue h)"
  shows "\<exists>q. queueRef (h_queue (sendMessage en R key iv p now qid tmp t None None None h)) = queueRef (h_queue h) @ [q]
    \<and> messages (sendMessage en R key iv p now qid tmp t None None None h)
        = messages h @ [(optimistic p now t None None)\<lparr>m_isPending := True, m_queueId := Some qid\<rparr>]
    \<and> (\<forall>p' en' h'. socket p' = Some True \<and> conversationType p' = CHANNEL \<longrightarrow>
        flushMessage en' p' q h' = (True, h'\<lparr>h_emits := h_emits h' @ [SendMessage c t None None None None None]\<rparr>))
    \<and> (\<forall>en' h' h''. identity (h_e2e h') \<noteq> None \<and> initialized (h_e2e h') \<and> \<not> falsy_id (currentUserId (h_e2e h'))
        \<and> flushMessage en' (p\<lparr>socket := Some True\<rparr>) q h' = (True, h'') \<longrightarrow>
        (\<exists>x. h_emits h'' = h_emits h' @ [SendMessage c (V2_DM @ x) None None None None None]))"
proof -
  let ?q = "\<lparr>queueId = qid, q_conversationId = c, q_content = t, q_replyToId = None, q_createdAt = now, q_senderId = a, q_otherUserId = Some b\<rparr>"
  have "queueRef (h_queue (sendMessage en R key iv p now qid tmp t None None None h)) = queueRef (h_queue h) @ [?q]
    \<and> messages (sendMessage en R key iv p now qid tmp t None None None h)
        = messages h @ [(optimistic p now t None None)\<lparr>m_isPending := True, m_queueId := Some qid\<rparr>]"
    using assms by (simp add: sendMessage_def falsy_id_def enqueue_def syncQueue_def destruct_metadata_def Let_def)
  moreover have "flushMessage en' p' ?q h' = (True, h'\<lparr>h_emits := h_emits h' @ [SendMessage c t None None None None None]\<rparr>)"
    if "socket p' = Some True" "conversationType p' = CHANNEL" for p' en' h'
    using that by (simp add: flushMessage_def encryptContent_def isDirect_def isGroup_def socket_emit_def)
  moreover have "\<exists>x. h_emits h'' = h_emits h' @ [SendMessage c (V2_DM @ x) None None None None None]"
    if "identity (h_e2e h') \<noteq> None" "initialized (h_e2e h')" "\<not> falsy_id (currentUserId (h_e2e h'))"
      "flushMessage en' (p\<lparr>socket := Some True\<rparr>) ?q h' = (True, h'')" for en' h' h''
    using that assms(1,6,7)
    by (auto simp: flushMessage_def encryptContent_def isDirect_def encrypt_def drEncrypt_def ratchet_send_def socket_emit_def falsy_id_def
        split: option.splits prod.splits if_splits)
  ultimately show ?thesis by blast
qed

section \<open>Edits\<close>

text \<open>Decryption by conversation type leaves the plaintext cache alone.\<close>

lemma receive_cache: "ratchet_receive W rnd prefix ck f content db = (r, db') \<Longrightarrow> loadPlaintext i db' = loadPlaintext i db"
  by (auto simp: ratchet_receive_def open_with_def saveRatchetSession_def loadPlaintext_def Let_def split: option.splits if_splits opened.splits prod.splits)

lemma legacy_cache: "legacy_text w srv c u st = (t, st') \<Longrightarrow> e_db st' = e_db st"
  by (auto simp: legacy_text_def legacyKey_def Let_def split: option.splits prod.splits if_splits)

lemma decrypt_cache: "decryptContent en p c u st = (t, st') \<Longrightarrow> cached i st' = cached i st"
  using receive_cache legacy_cache
  by (fastforce simp: decryptContent_def decrypt_def decryptFromGroup_def drDecrypt_def cached_def saveGroupReceiver_def loadPlaintext_def
      split: if_splits option.splits prod.splits)

text \<open>An edited message falls back to its old text.  The event of an edit decrypts the new text and shows it, but leaves the old one in the
  plaintext cache; from then on every load of the message, which now carries the new ciphertext, shows the old text.\<close>

theorem edit_reverts_on_reload:
  assumes "conversationId p = Some c" "x \<in> set (messages h)" "m_id x = Some i" "i \<noteq> 0" "cached (Some i) (h_e2e h) = Some (old, l)"
    "m_id m = Some i" "looksEncrypted (Some (m_content m))" "\<not> truthy (m_fileUrl m)" "u \<noteq> 0"
  shows "x\<lparr>m_content := fst (decryptContent en p (m_content m) u (h_e2e h)), m_editedAt := Some t\<rparr>
      \<in> set (messages (onEdited en p i (m_content m) t c (Some u) h))
    \<and> (\<exists>m' st'. decrypt_history en' p' m (h_e2e (onEdited en p i (m_content m) t c (Some u) h)) = (Some m', st') \<and> m_content m' = old)"
proof -
  obtain e where e: "find (\<lambda>m. m_id m = Some i) (messages h) = Some e"
    using assms(2,3) by (cases "find (\<lambda>m. m_id m = Some i) (messages h)") (auto simp: find_None_iff)
  obtain new st where dec: "decryptContent en p (m_content m) u (h_e2e h) = (new, st)" by fastforce
  have h: "onEdited en p i (m_content m) t c (Some u) h = h\<lparr>h_e2e := st, messages := mark_edited new t i (messages h)\<rparr>"
    using assms(1,7,9) e dec by (simp add: onEdited_def falsy_id_def)
  have "x\<lparr>m_content := new, m_editedAt := Some t\<rparr> \<in> set (mark_edited new t i (messages h))"
    using assms(2,3) by (force simp: mark_edited_def update_id_def)
  moreover have "\<exists>m' st'. decrypt_history en' p' m st = (Some m', st') \<and> m_content m' = old"
    using decrypt_cache[OF dec] assms(5-8) by (auto simp: decrypt_history_def is_media_def)
  ultimately show ?thesis unfolding h dec by simp
qed

section \<open>Instances\<close>

definition demo_env :: menv where
  "demo_env = \<lparr>en_wasm = toy_wasm, en_crypto = toy_crypto, en_srv = demo_srv, en_seed = 3, en_json = demo_json, en_number = (\<lambda>_. None)\<rparr>"

definition demo_props :: "conv_type \<Rightarrow> id \<Rightarrow> id \<Rightarrow> mprops" where
  "demo_props ty u v = \<lparr>conversationId = Some 5, p_currentUserId = Some u, socket = Some True, otherUserId = Some v, conversationType = ty,
     groupMemberIds = []\<rparr>"

definition demo_hook :: "e2e \<Rightarrow> bool \<Rightarrow> cmsg list \<Rightarrow> mhook" where
  "demo_hook st online ms = \<lparr>messages = ms, typingUsers = [], hasMore = True, hasMoreNewer = False, isLoadingMore = False,
     isLoadingNewer = False, jumpTarget = None, firstUnreadId = None, typingTimers = [], destructTimers = [], lastTypingSentAt = 0,
     typingTimeout = None, h_e2e = st, h_queue = useOfflineQueue online, h_emits = []\<rparr>"

definition demo_cmsg :: "id \<Rightarrow> jsstr \<Rightarrow> id \<Rightarrow> envelope list \<Rightarrow> cmsg" where
  "demo_cmsg i t u es = (optimistic (demo_props DIRECT u 0) 0 t None None)\<lparr>m_id := Some i, m_senderDeviceId := Some 101, m_envelopes := es\<rparr>"

lemmas demo_defs = demo_env_def demo_props_def demo_hook_def demo_cmsg_def optimistic_def useOfflineQueue_def same_user_def own_unconfirmed_def
  falsy_id_def truthy_id_def has_id_def


theorem direct_message_end_to_end_witness:
  "\<exists>payload envs. h_emits (sendMessage demo_env (\<lambda>_. 4) [1] (replicate 12 0) (demo_props DIRECT 1 2) 0 [] [] (js ''hello'') None None None
        (demo_hook (demo_e2e 1 10) True [])) = [SendMessage 5 payload None None None (Some 101) (Some envs), Typing 5 False]
     \<and> map m_content (messages (onMessage demo_env (demo_props DIRECT 2 1) 9 (demo_cmsg 7 payload 1 envs) (demo_hook (demo_e2e 2 20) True [])))
       = [js ''hello'']"
proof -
  obtain b where b: "fst (fetchDeviceBundle demo_srv 102 (demo_e2e 1 10)) = Some b"
    "valid_bundle toy_wasm toy_keys (id_ikDhSecret (toy_id 20)) (id_spkSecret (toy_id 20)) b"
    "target_devices demo_srv 2 1 101 = [102]" "in_step toy_keys {} (devicePairKey 101 102) (e_db (demo_e2e 1 10)) (e_db (demo_e2e 2 20))"
    using demo_device by blast
  let ?dk = "\<lparr>ikDhSecret = id_ikDhSecret (toy_id 20), ikDhPub = id_ikDhPub (toy_id 20),
      spkSecret = id_spkSecret (toy_id 20), spkPub = id_spkPub (toy_id 20), spkSig = id_spkSig (toy_id 20)\<rparr>"
  have keys: "deviceKeys (demo_e2e 2 20) = Some ?dk" by (simp add: demo_e2e_def)
  let ?s = "demo_hook (demo_e2e 1 10) True []" and ?r = "demo_hook (demo_e2e 2 20) True []"
  let ?sent = "sendMessage demo_env (\<lambda>_. 4) [1] (replicate 12 0) (demo_props DIRECT 1 2) 0 [] [] (js ''hello'') None None None ?s"
  have "trim (js ''hello'') \<noteq> []" by (simp add: js_def trim_def js_space_def)
  then obtain payload envs where e: "h_emits ?sent = h_emits ?s @ [SendMessage 5 payload None None None (Some 101) (Some envs), Typing 5 False]"
    and m: "\<forall>m. m_id m = Some 7 \<and> m_content m = payload \<and> m_senderId m = 1 \<and> m_conversationId m = 5 \<and> m_fileUrl m = None \<and> m_replyTo m = None
          \<and> m_senderDeviceId m = Some 101 \<and> m_envelopes m = envs \<longrightarrow>
        messages (onMessage demo_env (demo_props DIRECT 2 1) 9 m ?r) = messages ?r @ [m\<lparr>m_content := js ''hello''\<rparr>]"
    using direct_message_end_to_end[where ps = "demo_props DIRECT 1 2" and pr = "demo_props DIRECT 2 1" and a = 1 and b = 2 and c = 5
        and hs = ?s and hr = ?r and me = 101 and d = 102 and bn = b and ka = "toy_id 10" and i = 7 and en = demo_env and en' = demo_env
        and key = "[1]" and iv = "replicate 12 0" and t = "js ''hello''" and R = "\<lambda>_. 4" and now = 0 and qid = "[]" and tmp = "[]" and now' = 9 and dk = ?dk and U = "{}",
        OF toy_laws(1-3) toy_inverts] keys b plain_hello(1) toy_dh32
    by (simp add: demo_env_def demo_props_def demo_hook_def useOfflineQueue_def demo_fields has_id_def) blast
  then show ?thesis using e m by (intro exI[of _ payload] exI[of _ envs]) (simp add: demo_hook_def demo_cmsg_def optimistic_def demo_props_def)
qed

theorem flushed_messages_swap_witness:
  "\<exists>x2 x1. messages (onMessage demo_env (demo_props CHANNEL 1 0) 9 (demo_cmsg 12 (js ''c2'') 1 [])
       (onMessage demo_env (demo_props CHANNEL 1 0) 8 (demo_cmsg 11 (js ''c1'') 1 []) (demo_hook (demo_e2e 1 10) True
          (map (\<lambda>t. optimistic (demo_props CHANNEL 1 0) 0 t None None) [js ''hello'', js ''bye''])))) = [x2, x1]
     \<and> (m_id x2, m_content x2) = (Some 12, js ''hello'') \<and> (m_id x1, m_content x1) = (Some 11, js ''bye'')"
proof -
  let ?o = "\<lambda>t. optimistic (demo_props CHANNEL 1 0) 0 t None None"
  have "own_unconfirmed (demo_props CHANNEL 1 0) (?o t)" "m_fileUrl (?o t) = None" "m_pendingCipher (?o t) = None" "m_content (?o t) = t" for t
    by (simp_all add: demo_defs)
  then show ?thesis
    using flushed_messages_swap[where p = "demo_props CHANNEL 1 0" and c = 5 and ?m1.0 = "demo_cmsg 11 (js ''c1'') 1 []"
        and ?m2.0 = "demo_cmsg 12 (js ''c2'') 1 []" and i = 11 and j = 12 and ?o1.0 = "?o (js ''hello'')" and ?o2.0 = "?o (js ''bye'')" and ms = "[]"
        and h = "demo_hook (demo_e2e 1 10) True (map ?o [js ''hello'', js ''bye''])" and en = demo_env and en' = demo_env and ?t1.0 = 8 and ?t2.0 = 9]
    by (simp add: demo_props_def demo_cmsg_def optimistic_def demo_hook_def same_user_def has_id_def js_def) blast
qed

theorem queued_text_in_clear_witness:
  "\<exists>q. queueRef (h_queue (sendMessage demo_env (\<lambda>_. 4) [1] [] (demo_props DIRECT 1 2) 0 (js ''q'') [] (js ''hello'') None None None
        (demo_hook (demo_e2e 1 10) False []))) = [q]
     \<and> h_emits (snd (flushMessage demo_env (demo_props CHANNEL 1 0) q (demo_hook (demo_e2e 1 10) True [])))
       = [SendMessage 5 (js ''hello'') None None None None None]"
proof -
  let ?h = "demo_hook (demo_e2e 1 10) False []"
  have "trim (js ''hello'') \<noteq> []" by (simp add: js_def trim_def js_space_def)
  then obtain q where q: "queueRef (h_queue (sendMessage demo_env (\<lambda>_. 4) [1] [] (demo_props DIRECT 1 2) 0 (js ''q'') [] (js ''hello'') None None None ?h))
      = queueRef (h_queue ?h) @ [q]"
    "\<forall>p' en' h'. socket p' = Some True \<and> conversationType p' = CHANNEL \<longrightarrow>
       flushMessage en' p' q h' = (True, h'\<lparr>h_emits := h_emits h' @ [SendMessage 5 (js ''hello'') None None None None None]\<rparr>)"
    using queued_text_in_clear[where p = "demo_props DIRECT 1 2" and c = 5 and a = 1 and b = 2 and t = "js ''hello''" and h = ?h and en = demo_env
        and R = "\<lambda>_. 4" and key = "[1]" and iv = "[]" and now = 0 and qid = "js ''q''" and tmp = "[]"]
    by (simp add: demo_props_def demo_hook_def useOfflineQueue_def) blast
  then show ?thesis by (intro exI[of _ q]) (simp add: demo_props_def demo_hook_def useOfflineQueue_def)
qed

theorem edit_reverts_on_reload_witness:
  "\<exists>m' st'. decrypt_history demo_env (demo_props DIRECT 2 1) (demo_cmsg 7 (V2_DM @ replicate 20 65) 1 [])
       (h_e2e (onEdited demo_env (demo_props DIRECT 2 1) 7 (V2_DM @ replicate 20 65) 9 5 (Some 1)
          (demo_hook ((demo_e2e 2 20)\<lparr>e_db := savePlaintext 7 (js ''old'') False empty_db\<rparr>) True [demo_cmsg 7 (js ''old'') 1 []]))) = (Some m', st')
     \<and> m_content m' = js ''old''"
proof -
  let ?h = "demo_hook ((demo_e2e 2 20)\<lparr>e_db := savePlaintext 7 (js ''old'') False empty_db\<rparr>) True [demo_cmsg 7 (js ''old'') 1 []]"
  have old: "cached (Some 7) (h_e2e ?h) = Some (js ''old'', False)"
    by (simp add: demo_hook_def cached_def savePlaintext_def loadPlaintext_def falsy_id_def)
  have enc: "looksEncrypted (Some (m_content (demo_cmsg 7 (V2_DM @ replicate 20 65) 1 [])))"
    by (simp add: demo_cmsg_def optimistic_def looksEncrypted_def versioned_def V2_DM_def js_def starts_with_def)
  show ?thesis
    using edit_reverts_on_reload[where p = "demo_props DIRECT 2 1" and c = 5 and x = "demo_cmsg 7 (js ''old'') 1 []" and h = ?h and i = 7
        and m = "demo_cmsg 7 (V2_DM @ replicate 20 65) 1 []" and u = 1 and en = demo_env and t = 9 and en' = demo_env and p' = "demo_props DIRECT 2 1",
        OF _ _ _ _ old _ enc]
    by (simp add: demo_props_def demo_hook_def demo_cmsg_def optimistic_def truthy_def)
qed

end
