(* ===== verification/ClientConversations.thy ===== *)
theory ClientConversations
  imports ClientMessageProps
begin

text \<open>
  The list of conversations in the side bar, \<open>client/src/hooks/useConversations.ts\<close>, and the friends,
  \<open>client/src/hooks/useFriends.ts\<close>: loading with the preview of the last message decrypted, and the updates by events of the socket.
  The keys are those of \<open>E2E\<close>, shared with the open conversation; answers of the server are arguments.
  Of a conversation and its last message the fields that some code of these hooks reads or writes are kept.
\<close>

section \<open>State\<close>

record last_msg =
  lm_id :: id
  lm_content :: jsstr
  lm_senderId :: id
  lm_createdAt :: time
  lm_fileUrl :: "jsstr option"

record conv_item =
  cv_id :: id
  cv_type :: conv_type
  cv_members :: "(id \<times> bool) list"
  cv_lastMessage :: "last_msg option"
  cv_unreadCount :: int
  cv_updatedAt :: time
  cv_isOnline :: "bool option"
  cv_pinnedMessageId :: "id option"
  cv_pinnedMessage :: "jsstr option"

datatype c_emit = JoinConversation id

record clist =
  conversations :: "conv_item list"
  c_isLoading :: bool
  c_isLoadingMore :: bool
  c_hasMore :: bool
  fetchInProgress :: bool
  activeConvId :: "id option"
  loadedCount :: nat
  c_emits :: "c_emit list"

definition PAGE_SIZE :: nat where "PAGE_SIZE = 20"

section \<open>Loading\<close>

definition other_member :: "id option \<Rightarrow> conv_item \<Rightarrow> id option" where
  "other_member me c = map_option fst (find (\<lambda>(u, _). Some u \<noteq> me) (cv_members c))"

definition set_last_content :: "jsstr \<Rightarrow> last_msg \<Rightarrow> conv_item \<Rightarrow> conv_item" where
  "set_last_content t m c = c\<lparr>cv_lastMessage := Some (m\<lparr>lm_content := t\<rparr>)\<rparr>"

definition decryptLastMessage :: "menv \<Rightarrow> id option \<Rightarrow> conv_item \<Rightarrow> e2e \<Rightarrow> conv_item \<times> e2e" where
  "decryptLastMessage en me conv st =
     (case cv_lastMessage conv of
        None \<Rightarrow> (conv, st)
      | Some m \<Rightarrow>
          (let c = lm_content m
           in if trim c = [] \<or> \<not> looksEncrypted (Some c) then (conv, st)
              else if starts_with c V3_DM \<and> lm_id m \<noteq> 0 then
                ((case cached (Some (lm_id m)) st of Some (t, l) \<Rightarrow> set_last_content t m conv | None \<Rightarrow> conv), st)
              else
                (case cv_type conv of
                   DIRECT \<Rightarrow>
                     (case other_member me conv of
                        None \<Rightarrow> (conv, st)
                      | Some o' \<Rightarrow>
                          (case decrypt (en_wasm en) (en_crypto en) (en_seed en) (en_srv en) c o' st of
                             (plain, st) \<Rightarrow> (if plain = c then conv else set_last_content plain m conv, st)))
                 | GROUP \<Rightarrow>
                     (case decryptFromGroup (en_wasm en) (en_crypto en) (en_srv en) c (cv_id conv) (lm_senderId m) st of
                        (plain, st) \<Rightarrow> (if plain = c then conv else set_last_content plain m conv, st))
                 | CHANNEL \<Rightarrow> (conv, st))))"

fun decrypt_all :: "menv \<Rightarrow> id option \<Rightarrow> conv_item list \<Rightarrow> e2e \<Rightarrow> conv_item list \<times> e2e" where
  "decrypt_all en me [] st = ([], st)"
| "decrypt_all en me (c # cs) st =
     (case decryptLastMessage en me c st of (c, st) \<Rightarrow> (case decrypt_all en me cs st of (cs, st) \<Rightarrow> (c # cs, st)))"

text \<open>\<open>fetchConversations\<close> and \<open>loadMore\<close> up to the request, and with the answer (\<open>None\<close> for an error).\<close>

definition fetch_begin :: "clist \<Rightarrow> bool \<times> clist" where
  "fetch_begin l = (if fetchInProgress l then (False, l) else (True, l\<lparr>fetchInProgress := True, c_isLoading := True\<rparr>))"

definition fetch_done :: "menv \<Rightarrow> id option \<Rightarrow> (conv_item list \<times> bool \<times> conv_item list) option \<Rightarrow> clist \<Rightarrow> e2e \<Rightarrow> clist \<times> e2e" where
  "fetch_done en me a l st =
     (let (l, st) = (case a of
            None \<Rightarrow> (l, st)
          | Some (main, hm, archived) \<Rightarrow>
              (case decrypt_all en me (main @ archived) st of
                 (cs, st) \<Rightarrow> (l\<lparr>conversations := cs, c_hasMore := hm, loadedCount := length main\<rparr>, st)))
      in (l\<lparr>c_isLoading := False, fetchInProgress := False\<rparr>, st))"

definition loadMore_begin :: "clist \<Rightarrow> nat option \<times> clist" where
  "loadMore_begin l = (if c_isLoadingMore l \<or> \<not> c_hasMore l then (None, l) else (Some (loadedCount l), l\<lparr>c_isLoadingMore := True\<rparr>))"

definition loadMore_done :: "menv \<Rightarrow> id option \<Rightarrow> (conv_item list \<times> bool) option \<Rightarrow> clist \<Rightarrow> e2e \<Rightarrow> clist \<times> e2e" where
  "loadMore_done en me a l st =
     (let (l, st) = (case a of
            None \<Rightarrow> (l, st)
          | Some (page, hm) \<Rightarrow>
              (case decrypt_all en me page st of
                 (cs, st) \<Rightarrow>
                   (let existing = map cv_id (conversations l)
                    in (l\<lparr>conversations := conversations l @ filter (\<lambda>c. cv_id c \<notin> set existing) cs, c_hasMore := hm,
                          loadedCount := loadedCount l + length cs\<rparr>, st))))
      in (l\<lparr>c_isLoadingMore := False\<rparr>, st))"

section \<open>Events of the socket\<close>

definition conv_of :: "id \<Rightarrow> clist \<Rightarrow> conv_item option" where
  "conv_of i l = find (\<lambda>c. cv_id c = i) (conversations l)"

text \<open>The text of an arriving message in the list.\<close>

definition preview_text :: "menv \<Rightarrow> id option \<Rightarrow> conv_item \<Rightarrow> cmsg \<Rightarrow> e2e \<Rightarrow> jsstr \<times> e2e" where
  "preview_text en me target m st =
     (let c = m_content m; own = (me = Some (m_senderId m))
      in if \<not> looksEncrypted (Some c) then (c, st)
         else
           (let (plain, st) =
              (if is_v3 m then
                 (case decryptV3Internal (en_wasm en) (en_crypto en) (en_seed en) c (the (m_senderDeviceId m)) (m_envelopes m) st of
                    (None, st) \<Rightarrow> (c, st)
                  | (Some plain, st) \<Rightarrow> (plain, st))
               else if \<not> own then
                 (case cv_type target of
                    DIRECT \<Rightarrow>
                      (case other_member me target of
                         None \<Rightarrow> (c, st)
                       | Some o' \<Rightarrow> decrypt (en_wasm en) (en_crypto en) (en_seed en) (en_srv en) c o' st)
                  | GROUP \<Rightarrow> decryptFromGroup (en_wasm en) (en_crypto en) (en_srv en) c (cv_id target) (m_senderId m) st
                  | CHANNEL \<Rightarrow> (c, st))
               else (case cached (m_id m) st of Some (t, l) \<Rightarrow> (t, st) | None \<Rightarrow> (c, st)))
            in if own \<and> plain = c
               then (case cv_lastMessage target of
                       None \<Rightarrow> (plain, st)
                     | Some e \<Rightarrow> (if lm_content e \<noteq> [] \<and> lm_content e \<noteq> c then lm_content e else plain, st))
               else (plain, st)))"

definition is_newer :: "cmsg \<Rightarrow> conv_item \<Rightarrow> bool" where
  "is_newer m c = (case cv_lastMessage c of None \<Rightarrow> True | Some e \<Rightarrow> m_createdAt m \<ge> lm_createdAt e)"

definition place_message :: "id option \<Rightarrow> id option \<Rightarrow> cmsg \<Rightarrow> jsstr \<Rightarrow> conv_item \<Rightarrow> conv_item" where
  "place_message me active m plain c =
     (if cv_id c \<noteq> m_conversationId m then c
      else c\<lparr>cv_lastMessage := (if is_newer m c
                then Some \<lparr>lm_id = the (m_id m), lm_content = plain, lm_senderId = m_senderId m, lm_createdAt = m_createdAt m,
                       lm_fileUrl = m_fileUrl m\<rparr>
                else cv_lastMessage c),
             cv_unreadCount := (if me = Some (m_senderId m) \<or> active = Some (m_conversationId m) then cv_unreadCount c
                else cv_unreadCount c + 1),
             cv_updatedAt := (if is_newer m c then m_createdAt m else cv_updatedAt c)\<rparr>)"

text \<open>\<open>Array.prototype.sort\<close> is stable; the newest comes first.\<close>

definition newest_first :: "conv_item list \<Rightarrow> conv_item list" where
  "newest_first cs = sort_key (\<lambda>c. - cv_updatedAt c) cs"

definition list_onMessage :: "menv \<Rightarrow> id option \<Rightarrow> cmsg \<Rightarrow> clist \<Rightarrow> e2e \<Rightarrow> clist \<times> e2e" where
  "list_onMessage en me m l st =
     (case conv_of (m_conversationId m) l of
        None \<Rightarrow> (snd (fetch_begin l), st)
      | Some target \<Rightarrow>
          (case preview_text en me target m st of
             (plain, st) \<Rightarrow> (l\<lparr>conversations := newest_first (map (place_message me (activeConvId l) m plain) (conversations l))\<rparr>, st)))"

definition list_onEdited :: "menv \<Rightarrow> id option \<Rightarrow> id \<Rightarrow> jsstr \<Rightarrow> id \<Rightarrow> id option \<Rightarrow> clist \<Rightarrow> e2e \<Rightarrow> clist \<times> e2e" where
  "list_onEdited en me messageId content conv sender l st =
     (case conv_of conv l of
        None \<Rightarrow> (l, st)
      | Some target \<Rightarrow>
          (case cv_lastMessage target of
             None \<Rightarrow> (l, st)
           | Some e \<Rightarrow>
               if lm_id e \<noteq> messageId then (l, st)
               else
                 (let (plain, st) =
                    (if length content > 20 \<and> list_all b64_text content then
                       (case cv_type target of
                          DIRECT \<Rightarrow>
                            (case other_member me target of
                               None \<Rightarrow> (content, st)
                             | Some o' \<Rightarrow> decrypt (en_wasm en) (en_crypto en) (en_seed en) (en_srv en) content o' st)
                        | GROUP \<Rightarrow> decryptFromGroup (en_wasm en) (en_crypto en) (en_srv en) content (cv_id target)
                                     (if falsy_id sender then lm_senderId e else the sender) st
                        | CHANNEL \<Rightarrow> (content, st))
                     else (content, st))
                  in (l\<lparr>conversations := map (\<lambda>c. if cv_id c \<noteq> conv then c
                          else c\<lparr>cv_lastMessage := map_option (\<lambda>x. x\<lparr>lm_content := plain\<rparr>) (cv_lastMessage c)\<rparr>) (conversations l)\<rparr>, st))))"

definition list_onUserStatus :: "id \<Rightarrow> bool \<Rightarrow> clist \<Rightarrow> clist" where
  "list_onUserStatus userId online l =
     l\<lparr>conversations := map (\<lambda>c.
         if cv_type c \<noteq> DIRECT \<or> \<not> list_ex (\<lambda>(u, _). u = userId) (cv_members c) then c
         else c\<lparr>cv_isOnline := Some online, cv_members := map (\<lambda>(u, x). (u, if u = userId then online else x)) (cv_members c)\<rparr>)
       (conversations l)\<rparr>"

definition list_onDeleted :: "id \<Rightarrow> id \<Rightarrow> clist \<Rightarrow> clist" where
  "list_onDeleted messageId conv l =
     l\<lparr>conversations := map (\<lambda>c. if cv_id c = conv \<and> map_option lm_id (cv_lastMessage c) = Some messageId then c\<lparr>cv_lastMessage := None\<rparr> else c)
       (conversations l)\<rparr>"

definition list_onAdded :: "id option \<Rightarrow> clist \<Rightarrow> clist" where
  "list_onAdded conv l =
     (let l = snd (fetch_begin l)
      in if falsy_id conv then l else l\<lparr>c_emits := c_emits l @ [JoinConversation (the conv)]\<rparr>)"

definition update_conv :: "id \<Rightarrow> (conv_item \<Rightarrow> conv_item) \<Rightarrow> clist \<Rightarrow> clist" where
  "update_conv i f l = l\<lparr>conversations := map (\<lambda>c. if cv_id c \<noteq> i then c else f c) (conversations l)\<rparr>"

definition list_onPinned :: "id \<Rightarrow> id \<Rightarrow> jsstr \<Rightarrow> clist \<Rightarrow> clist" where
  "list_onPinned conv mid m = update_conv conv (\<lambda>c. c\<lparr>cv_pinnedMessageId := Some mid, cv_pinnedMessage := Some m\<rparr>)"

definition list_onUnpinned :: "id \<Rightarrow> clist \<Rightarrow> clist" where
  "list_onUnpinned conv = update_conv conv (\<lambda>c. c\<lparr>cv_pinnedMessageId := None, cv_pinnedMessage := None\<rparr>)"

section \<open>Calls of the page\<close>

definition markConversationRead :: "id \<Rightarrow> clist \<Rightarrow> clist" where
  "markConversationRead conv = update_conv conv (\<lambda>c. c\<lparr>cv_unreadCount := 0\<rparr>)"

definition addConversation :: "conv_item \<Rightarrow> clist \<Rightarrow> clist" where
  "addConversation conv l =
     (if list_ex (\<lambda>c. cv_id c = cv_id conv) (conversations l) then l
      else l\<lparr>conversations := conv # conversations l, loadedCount := loadedCount l + 1\<rparr>)"

text \<open>The fields of a partial conversation are a function on conversations that keeps the identifier.\<close>

definition updateConversation :: "id \<Rightarrow> (conv_item \<Rightarrow> conv_item) \<Rightarrow> clist \<Rightarrow> clist" where
  "updateConversation conv part = update_conv conv (\<lambda>c. (part c)\<lparr>cv_id := conv\<rparr>)"

text \<open>\<open>handleSelectConversation\<close> of the chat page, with the ref to the open conversation.\<close>

definition select_conversation :: "id \<Rightarrow> clist \<Rightarrow> clist" where
  "select_conversation conv l = (markConversationRead conv l)\<lparr>activeConvId := Some conv\<rparr>"

section \<open>Friends\<close>

record friend_item =
  fi_friendshipId :: id
  fi_friendId :: id
  fi_isOnline :: bool

record friends_hook =
  friends :: "friend_item list"
  pendingRequests :: "id list"

definition fetchAll_done :: "(friend_item list \<times> id list) option \<Rightarrow> friends_hook \<Rightarrow> friends_hook" where
  "fetchAll_done a h = (case a of None \<Rightarrow> h | Some (f, p) \<Rightarrow> h\<lparr>friends := f, pendingRequests := p\<rparr>)"

definition friends_onStatus :: "id \<Rightarrow> bool \<Rightarrow> friends_hook \<Rightarrow> friends_hook" where
  "friends_onStatus userId online h =
     h\<lparr>friends := map (\<lambda>f. if fi_friendId f = userId then f\<lparr>fi_isOnline := online\<rparr> else f) (friends h)\<rparr>"

text \<open>\<open>removeFriend\<close> after the request succeeded.\<close>

definition removeFriend_done :: "id \<Rightarrow> friends_hook \<Rightarrow> friends_hook" where
  "removeFriend_done friendId h = h\<lparr>friends := filter (\<lambda>f. fi_friendId f \<noteq> friendId) (friends h)\<rparr>"

section \<open>One entry per conversation\<close>

definition conv_ids :: "clist \<Rightarrow> id list" where
  "conv_ids l = map cv_id (conversations l)"

datatype c_event =
    Fetched "(conv_item list \<times> bool \<times> conv_item list) option"
  | MoreLoaded "(conv_item list \<times> bool) option"
  | MessageArrives cmsg
  | EditArrives id jsstr id "id option"
  | StatusArrives id bool
  | DeleteArrives id id
  | AddedTo "id option"
  | PinArrives id id jsstr
  | UnpinArrives id
  | ReadByUser id
  | CreatedHere conv_item
  | Updated id "conv_item \<Rightarrow> conv_item"
  | Selected id

fun c_exec :: "menv \<Rightarrow> id option \<Rightarrow> c_event \<Rightarrow> clist \<times> e2e \<Rightarrow> clist \<times> e2e" where
  "c_exec en me (Fetched a) (l, st) = fetch_done en me a l st"
| "c_exec en me (MoreLoaded a) (l, st) = loadMore_done en me a l st"
| "c_exec en me (MessageArrives m) (l, st) = list_onMessage en me m l st"
| "c_exec en me (EditArrives i x c s) (l, st) = list_onEdited en me i x c s l st"
| "c_exec en me (StatusArrives u b) (l, st) = (list_onUserStatus u b l, st)"
| "c_exec en me (DeleteArrives i c) (l, st) = (list_onDeleted i c l, st)"
| "c_exec en me (AddedTo c) (l, st) = (list_onAdded c l, st)"
| "c_exec en me (PinArrives c i x) (l, st) = (list_onPinned c i x l, st)"
| "c_exec en me (UnpinArrives c) (l, st) = (list_onUnpinned c l, st)"
| "c_exec en me (ReadByUser c) (l, st) = (markConversationRead c l, st)"
| "c_exec en me (CreatedHere c) (l, st) = (addConversation c l, st)"
| "c_exec en me (Updated c f) (l, st) = (updateConversation c f l, st)"
| "c_exec en me (Selected c) (l, st) = (select_conversation c l, st)"

definition c_run :: "(menv \<times> id option \<times> c_event) list \<Rightarrow> clist \<times> e2e \<Rightarrow> clist \<times> e2e" where
  "c_run es s = fold (\<lambda>(en, me, e). c_exec en me e) es s"

text \<open>Answers of the server that repeat no conversation.\<close>

fun page_ok :: "c_event \<Rightarrow> bool" where
  "page_ok (Fetched (Some (main, hm, archived))) = distinct (map cv_id (main @ archived))"
| "page_ok (MoreLoaded (Some (page, hm))) = distinct (map cv_id page)"
| "page_ok e = True"

lemma decryptLastMessage_id [simp]: "decryptLastMessage en me c st = (c', st') \<Longrightarrow> cv_id c' = cv_id c"
  by (auto simp: decryptLastMessage_def set_last_content_def Let_def split: option.splits if_splits conv_type.splits prod.splits)

lemma decrypt_all_ids: "decrypt_all en me cs st = (cs', st') \<Longrightarrow> map cv_id cs' = map cv_id cs"
proof (induction cs arbitrary: st cs' st')
  case (Cons c cs)
  then show ?case by (fastforce split: prod.splits)
qed simp

lemma place_message_id [simp]: "cv_id (place_message me act m t c) = cv_id c"
  by (simp add: place_message_def)

lemma newest_first_ids: "distinct (map cv_id (newest_first cs)) \<longleftrightarrow> distinct (map cv_id cs)"
  unfolding newest_first_def by (metis distinct_map distinct_sort set_sort)

lemma map_same_ids: "(\<And>c. cv_id (f c) = cv_id c) \<Longrightarrow> map cv_id (map f cs) = map cv_id cs"
  by simp

lemma update_conv_ids: "(\<And>c. cv_id c = i \<Longrightarrow> cv_id (f c) = i) \<Longrightarrow> conv_ids (update_conv i f l) = conv_ids l"
  by (simp add: conv_ids_def update_conv_def)

lemma list_onMessage_ids: "distinct (conv_ids l) \<Longrightarrow> distinct (conv_ids (fst (list_onMessage en me m l st)))"
  by (simp add: list_onMessage_def conv_ids_def newest_first_ids fetch_begin_def comp_def split: option.split prod.split)

lemma list_onEdited_ids: "conv_ids (fst (list_onEdited en me i x c s l st)) = conv_ids l"
proof -
  have *: "cv_id (if cv_id y \<noteq> c then y else y\<lparr>cv_lastMessage := z\<rparr>) = cv_id y" for y z by simp
  show ?thesis by (auto simp: list_onEdited_def conv_ids_def comp_def * Let_def split: option.split prod.split)
qed

lemma if_same: "(if x = c \<and> P then c else x) = x" "(if x \<noteq> c then x else c) = x"
  by auto

lemma c_exec_ids:
  assumes "distinct (conv_ids l)" "page_ok e"
  shows "distinct (conv_ids (fst (c_exec en me e (l, st))))"
proof (cases e)
  case (Fetched a)
  then show ?thesis using assms decrypt_all_ids
    by (fastforce simp: fetch_done_def conv_ids_def Let_def split: option.splits prod.splits)
next
  case (MoreLoaded a)
  show ?thesis
  proof (cases a)
    case (Some x)
    obtain page hm where x: "x = (page, hm)" by fastforce
    obtain cs st' where cs: "decrypt_all en me page st = (cs, st')" by fastforce
    have "distinct (map cv_id (filter (\<lambda>c. cv_id c \<notin> set (map cv_id (conversations l))) cs))"
      using assms(2) decrypt_all_ids[OF cs] MoreLoaded Some x by (simp add: distinct_map_filter)
    then show ?thesis using assms(1) MoreLoaded Some x cs by (auto simp: loadMore_done_def conv_ids_def Let_def) (metis imageI)
  qed (use assms(1) MoreLoaded in \<open>simp add: loadMore_done_def conv_ids_def\<close>)
next
  case (CreatedHere c)
  then show ?thesis using assms(1) by (auto simp: addConversation_def conv_ids_def list_ex_iff)
qed (use assms(1) list_onMessage_ids list_onEdited_ids in \<open>auto simp: list_onUserStatus_def list_onDeleted_def list_onAdded_def list_onPinned_def
      list_onUnpinned_def markConversationRead_def updateConversation_def select_conversation_def fetch_begin_def update_conv_def conv_ids_def
      comp_def Let_def if_distrib[of cv_id] if_same cong: if_cong\<close>)


section \<open>Order and badges\<close>

lemma conv_of_iff: "distinct (conv_ids l) \<Longrightarrow> conv_of i l = Some c \<longleftrightarrow> c \<in> set (conversations l) \<and> cv_id c = i"
proof -
  have "distinct (map cv_id cs) \<Longrightarrow> find (\<lambda>c. cv_id c = i) cs = Some c \<longleftrightarrow> c \<in> set cs \<and> cv_id c = i" for cs
    by (induction cs) auto
  then show "distinct (conv_ids l) \<Longrightarrow> ?thesis" by (simp add: conv_of_def conv_ids_def)
qed

lemma placed_entry:
  assumes "distinct (conv_ids l)" "conv_of i l = Some c" "conv_of (m_conversationId m) l \<noteq> None"
  shows "\<exists>t. conv_of i (fst (list_onMessage en me m l st)) = Some (place_message me (activeConvId l) m t c)"
proof -
  obtain target where t: "conv_of (m_conversationId m) l = Some target" using assms(3) by blast
  obtain plain st' where p: "preview_text en me target m st = (plain, st')" by fastforce
  let ?l = "fst (list_onMessage en me m l st)"
  have l: "conversations ?l = newest_first (map (place_message me (activeConvId l) m plain) (conversations l))"
    using t p by (simp add: list_onMessage_def)
  have "distinct (conv_ids ?l)" using list_onMessage_ids[OF assms(1)] .
  then have "conv_of i ?l = Some (place_message me (activeConvId l) m plain c)"
    using conv_of_iff[OF assms(1)] assms(2) l by (auto simp: conv_of_iff newest_first_def)
  then show ?thesis by blast
qed

lemma active_kept: "activeConvId (fst (list_onMessage en me m l st)) = activeConvId l"
  by (auto simp: list_onMessage_def fetch_begin_def split: option.split prod.split)

text \<open>Order and badges of the side bar.  A message of a listed conversation leaves the list sorted by its last activity, with the same
  conversations; over any sequence of such messages the unread badge of a conversation grows by exactly the number of its messages from
  others while it is not open.\<close>

theorem badges_count:
  fixes en :: menv and me :: "id option" and st :: e2e
  assumes "distinct (conv_ids l)" "conv_of i l = Some c" "list_all (\<lambda>m. m_conversationId m \<in> set (conv_ids l)) ms"
  defines "l' \<equiv> fst (c_run (map (\<lambda>m. (en, me, MessageArrives m)) ms) (l, st))"
  shows "set (conv_ids l') = set (conv_ids l) \<and> (ms \<noteq> [] \<longrightarrow> sorted_wrt (\<lambda>x y. cv_updatedAt x \<ge> cv_updatedAt y) (conversations l'))
    \<and> map_option cv_unreadCount (conv_of i l') = Some (cv_unreadCount c
        + int (length (filter (\<lambda>m. m_conversationId m = i \<and> me \<noteq> Some (m_senderId m) \<and> activeConvId l \<noteq> Some i) ms)))"
  using assms(1-3) unfolding l'_def
proof (induction ms arbitrary: l st c)
  case (Cons m ms)
  let ?l = "fst (list_onMessage en me m l st)" and ?st = "snd (list_onMessage en me m l st)"
  have known: "conv_of (m_conversationId m) l \<noteq> None" using Cons.prems(3) by (auto simp: conv_of_def conv_ids_def find_None_iff)
  then obtain target where t: "conv_of (m_conversationId m) l = Some target" by blast
  obtain plain st' where p: "preview_text en me target m st = (plain, st')" by fastforce
  have l: "conversations ?l = newest_first (map (place_message me (activeConvId l) m plain) (conversations l))"
    using t p by (simp add: list_onMessage_def)
  have ids: "set (conv_ids ?l) = set (conv_ids l)" unfolding conv_ids_def l by (auto simp: newest_first_def image_image)
  have sorted: "sorted_wrt (\<lambda>x y. cv_updatedAt x \<ge> cv_updatedAt y) (conversations ?l)"
    unfolding l newest_first_def using sorted_sort_key[of "\<lambda>c. - cv_updatedAt c"] by (simp add: sorted_map)
  obtain t' where e: "conv_of i ?l = Some (place_message me (activeConvId l) m t' c)" using placed_entry[OF Cons.prems(1,2) known] by blast
  have run: "c_run (map (\<lambda>m. (en, me, MessageArrives m)) (m # ms)) (l, st) = c_run (map (\<lambda>m. (en, me, MessageArrives m)) ms) (?l, ?st)"
    by (simp add: c_run_def)
  have "list_all (\<lambda>m. m_conversationId m \<in> set (conv_ids ?l)) ms" using Cons.prems(3) ids by simp
  from Cons.IH[OF list_onMessage_ids[OF Cons.prems(1)] e this, of ?st] show ?case
    unfolding run active_kept using ids sorted conv_of_iff[OF Cons.prems(1)] Cons.prems(2)
    by (cases ms) (auto simp: place_message_def c_run_def)
qed (simp add: c_run_def)

section \<open>Instances\<close>

definition demo_conv :: "id \<Rightarrow> conv_item" where
  "demo_conv i = \<lparr>cv_id = i, cv_type = CHANNEL, cv_members = [(1, True), (2, True)], cv_lastMessage = None, cv_unreadCount = 0, cv_updatedAt = i,
     cv_isOnline = None, cv_pinnedMessageId = None, cv_pinnedMessage = None\<rparr>"

definition demo_list :: clist where
  "demo_list = \<lparr>conversations = [demo_conv 9, demo_conv 5], c_isLoading = False, c_isLoadingMore = False, c_hasMore = True, fetchInProgress = False,
     activeConvId = None, loadedCount = 2, c_emits = []\<rparr>"


theorem badges_count_witness:
  "\<exists>l. fst (c_run (map (\<lambda>m. (demo_env, Some 1, MessageArrives m))
        [demo_cmsg 7 (js ''hello'') 2 [], demo_cmsg 8 (js ''bye'') 2 [], demo_cmsg 9 (js ''hi'') 1 []]) (demo_list, demo_e2e 1 10)) = l
     \<and> map_option cv_unreadCount (conv_of 5 l) = Some 2"
  using badges_count[of demo_list 5 "demo_conv 5" "[demo_cmsg 7 (js ''hello'') 2 [], demo_cmsg 8 (js ''bye'') 2 [], demo_cmsg 9 (js ''hi'') 1 []]" demo_env "Some 1" "demo_e2e 1 10"]
  by (simp add: demo_list_def demo_conv_def conv_ids_def conv_of_def demo_cmsg_def optimistic_def demo_props_def)

end
