(* ===== verification/RustPrims.thy ===== *)
theory RustPrims
  imports Utf8 "HOL-Library.Word" "HOL-Library.List_Lexorder" "HOL-Library.Product_Lexorder"
begin

text \<open>
  The ground of the cryptographic core, \<open>crypto/core/src/error.rs\<close>, \<open>utils.rs\<close> and \<open>identity.rs\<close>.  The crates it calls (X25519, Ed25519,
  HMAC and SHA-256, HKDF, AES-GCM, Argon2id, LZ4, the random number generator of the system) are the record \<open>crates\<close>, and
  \<open>crate_laws\<close> states the documented behaviour that the core relies on.  Secret keys are their 32 bytes, which is what the crates
  store; \<open>zeroize\<close> is left out.  A \<open>BTreeMap\<close> is the association list of its entries in the order of the keys.
\<close>

section \<open>Errors\<close>

datatype crypto_error = InvalidKey | SignatureVerification | DecryptionFailed | KeyDerivation | InvalidCiphertext | KemEncapsulation
  | KemDecapsulation | SkipLimitExceeded | DecompressionFailed | ManifestTampered

text \<open>How a call ends without a result: with an error of the core, with a text thrown by the WASM layer, or with a panic.\<close>

datatype failure = Err crypto_error | JsErr jsstr | Panic

type_synonym u32 = "32 word"

section \<open>The crates\<close>

text \<open>What a random draw is for.  A call of the core is given a seed, and draws what it needs from it.\<close>

datatype draw = ForKeyPair | ForSigningKey | ForEphemeral | ForRatchet | ForSalt | ForNonce | ForChain | ForKeyId | ForSenderKey
  | ForOtp | ForSession | ForSyncPair | ForChunk u32

record crates =
  x25519_public :: "bytes \<Rightarrow> bytes"
  x25519 :: "bytes \<Rightarrow> bytes \<Rightarrow> bytes"
  ed25519_public :: "bytes \<Rightarrow> bytes"
  ed25519_signature :: "bytes \<Rightarrow> bytes \<Rightarrow> bytes"
  ed25519_point :: "bytes \<Rightarrow> bool"
  ed25519_accepts :: "bytes \<Rightarrow> bytes \<Rightarrow> bytes \<Rightarrow> bool"
  hmac_crate :: "bytes \<Rightarrow> bytes \<Rightarrow> bytes"
  sha256_crate :: "bytes \<Rightarrow> bytes"
  extract_crate :: "bytes option \<Rightarrow> bytes \<Rightarrow> bytes"
  expand_crate :: "bytes \<Rightarrow> bytes \<Rightarrow> nat \<Rightarrow> bytes option"
  gcm_seal :: "bytes \<Rightarrow> bytes \<Rightarrow> bytes \<Rightarrow> bytes \<Rightarrow> bytes option"
  gcm_open :: "bytes \<Rightarrow> bytes \<Rightarrow> bytes \<Rightarrow> bytes \<Rightarrow> bytes option"
  argon2id :: "u32 \<Rightarrow> u32 \<Rightarrow> u32 \<Rightarrow> bytes \<Rightarrow> bytes \<Rightarrow> bytes option"
  lz4_encode :: "bytes \<Rightarrow> bytes option"
  lz4_decode :: "bytes \<Rightarrow> bytes option"
  os_random :: "draw \<Rightarrow> nat \<Rightarrow> nat \<Rightarrow> bytes"

definition sized :: "nat \<Rightarrow> bytes \<Rightarrow> bool" where
  "sized n b \<longleftrightarrow> length b = n \<and> is_bytes b"

text \<open>Sizes; Diffie-Hellman commutes; a signature verifies under its key; AES-GCM and LZ4 invert; Argon2id accepts the parameters in use.\<close>

definition agreement_laws :: "crates \<Rightarrow> bool" where
  "agreement_laws P \<longleftrightarrow> (\<forall>a b. sized 32 a \<and> sized 32 b \<longrightarrow>
     sized 32 (x25519_public P a) \<and> sized 32 (x25519 P a b) \<and> x25519 P a (x25519_public P b) = x25519 P b (x25519_public P a))"

definition signature_laws :: "crates \<Rightarrow> bool" where
  "signature_laws P \<longleftrightarrow> (\<forall>s m. sized 32 s \<longrightarrow>
     sized 32 (ed25519_public P s) \<and> ed25519_point P (ed25519_public P s)
     \<and> sized 64 (ed25519_signature P s m) \<and> ed25519_accepts P (ed25519_public P s) m (ed25519_signature P s m))"

definition hash_laws :: "crates \<Rightarrow> bool" where
  "hash_laws P \<longleftrightarrow> (\<forall>k m s d seed n.
     sized 32 (hmac_crate P k m) \<and> sized 32 (sha256_crate P m) \<and> sized 32 (extract_crate P s m) \<and> sized n (os_random P d seed n))"

definition expand_law :: "crates \<Rightarrow> bool" where
  "expand_law P \<longleftrightarrow> (\<forall>prk info n. length prk = 32 \<and> n \<le> 255 * 32 \<longrightarrow> (\<exists>out. expand_crate P prk info n = Some out \<and> sized n out))"

definition gcm_law :: "crates \<Rightarrow> bool" where
  "gcm_law P \<longleftrightarrow> (\<forall>k n m a. length k = 32 \<and> length n = 12 \<longrightarrow>
     (\<exists>c. gcm_seal P k n m a = Some c \<and> length c = length m + 16 \<and> (is_bytes m \<longrightarrow> is_bytes c) \<and> gcm_open P k n c a = Some m))"

definition argon_law :: "crates \<Rightarrow> bool" where
  "argon_law P \<longleftrightarrow> (\<forall>pin salt. length salt = 16 \<longrightarrow> (\<exists>key. argon2id P 32768 2 1 pin salt = Some key \<and> sized 32 key))"

definition lz4_law :: "crates \<Rightarrow> bool" where
  "lz4_law P \<longleftrightarrow> (\<forall>m. \<exists>z. lz4_encode P m = Some z \<and> lz4_decode P z = Some m)"

definition crate_laws :: "crates \<Rightarrow> bool" where
  "crate_laws P \<longleftrightarrow> agreement_laws P \<and> signature_laws P \<and> hash_laws P \<and> expand_law P \<and> gcm_law P \<and> argon_law P \<and> lz4_law P"

lemma sizedD: "sized n b \<Longrightarrow> length b = n" "sized n b \<Longrightarrow> is_bytes b"
  by (simp_all add: sized_def)

lemma crate_keys:
  assumes "crate_laws P" "sized 32 s"
  shows "sized 32 (x25519_public P s)" "sized 32 (ed25519_public P s)" "ed25519_point P (ed25519_public P s)"
    "sized 64 (ed25519_signature P s m)" "ed25519_accepts P (ed25519_public P s) m (ed25519_signature P s m)"
  using assms by (simp_all add: crate_laws_def agreement_laws_def signature_laws_def)

lemma crate_dh:
  assumes "crate_laws P" "sized 32 a" "sized 32 b"
  shows "sized 32 (x25519 P a b)" "x25519 P a (x25519_public P b) = x25519 P b (x25519_public P a)"
  using assms unfolding crate_laws_def agreement_laws_def by blast+

lemma crate_hash:
  assumes "crate_laws P"
  shows "sized 32 (hmac_crate P k m)" "sized 32 (sha256_crate P m)" "sized 32 (extract_crate P s m)" "sized n (os_random P d seed n)"
  using assms unfolding crate_laws_def hash_laws_def by blast+

lemma crate_expand:
  assumes "crate_laws P" "length prk = 32" "n \<le> 255 * 32"
  obtains out where "expand_crate P prk info n = Some out" "sized n out"
  using assms unfolding crate_laws_def expand_law_def by blast

lemma crate_gcm:
  assumes "crate_laws P" "length k = 32" "length n = 12"
  obtains c where "gcm_seal P k n m a = Some c" "length c = length m + 16" "is_bytes m \<longrightarrow> is_bytes c" "gcm_open P k n c a = Some m"
  using assms unfolding crate_laws_def gcm_law_def by blast

lemma crate_argon:
  assumes "crate_laws P" "length salt = 16"
  obtains key where "argon2id P 32768 2 1 pin salt = Some key" "sized 32 key"
  using assms unfolding crate_laws_def argon_law_def by blast

lemma crate_lz4:
  assumes "crate_laws P"
  obtains z where "lz4_encode P m = Some z" "lz4_decode P z = Some m"
  using assms unfolding crate_laws_def lz4_law_def by blast

section \<open>Big-endian numbers\<close>

fun to_be :: "nat \<Rightarrow> nat \<Rightarrow> bytes" where
  "to_be 0 x = []"
| "to_be (Suc n) x = to_be n (x div 256) @ [x mod 256]"

definition from_be :: "bytes \<Rightarrow> nat" where
  "from_be b = foldl (\<lambda>a x. a * 256 + x) 0 b"

definition be32 :: "u32 \<Rightarrow> bytes" where
  "be32 w = to_be 4 (unat w)"

definition u32_be :: "bytes \<Rightarrow> u32" where
  "u32_be b = word_of_nat (from_be b)"

lemma to_be_sized [simp]: "length (to_be n x) = n" "is_bytes (to_be n x)"
  by (induction n arbitrary: x) (simp_all add: is_bytes_def)

lemma from_to_be: "from_be (to_be n x) = x mod 256 ^ n"
proof (induction n arbitrary: x)
  case (Suc n)
  have "from_be (to_be (Suc n) x) = x div 256 mod 256 ^ n * 256 + x mod 256"
    using Suc[of "x div 256"] by (simp add: from_be_def)
  also have "\<dots> = x mod 256 ^ Suc n" using mod_mult2_eq[of x 256 "256 ^ n"] by simp
  finally show ?case .
qed (simp add: from_be_def)

lemma be32 [simp]: "length (be32 w) = 4" "is_bytes (be32 w)" "u32_be (be32 w) = w"
proof -
  have "unat w < 2 ^ 32" using unsigned_less[of w] by simp
  then show "u32_be (be32 w) = w" by (simp add: u32_be_def be32_def from_to_be)
qed (simp_all add: be32_def)

section \<open>\<open>BTreeMap\<close>\<close>

fun bt_insert :: "'k::linorder \<Rightarrow> 'v \<Rightarrow> ('k \<times> 'v) list \<Rightarrow> ('k \<times> 'v) list" where
  "bt_insert k v [] = [(k, v)]"
| "bt_insert k v ((k', v') # m) =
     (if k < k' then (k, v) # (k', v') # m else if k = k' then (k, v) # m else (k', v') # bt_insert k v m)"

definition bt_remove :: "'k \<Rightarrow> ('k \<times> 'v) list \<Rightarrow> ('k \<times> 'v) list" where
  "bt_remove k m = filter (\<lambda>e. fst e \<noteq> k) m"

definition bt_ok :: "('k::linorder \<times> 'v) list \<Rightarrow> bool" where
  "bt_ok m \<longleftrightarrow> sorted_wrt (<) (map fst m)"

lemma bt_get_insert [simp]: "map_of (bt_insert k v m) = (map_of m)(k \<mapsto> v)"
  by (induction k v m rule: bt_insert.induct) (auto simp: fun_eq_iff)

lemma bt_get_remove [simp]: "map_of (bt_remove k m) = (map_of m)(k := None)"
  by (induction m) (auto simp: bt_remove_def fun_eq_iff)

lemma bt_insert_set: "set (bt_insert k v m) \<subseteq> insert (k, v) (set m)"
  by (induction k v m rule: bt_insert.induct) auto

lemma bt_insert_keys: "fst ` set (bt_insert k v m) = insert k (fst ` set m)"
  by (induction k v m rule: bt_insert.induct) auto

lemma bt_ok_insert [simp, intro]: "bt_ok m \<Longrightarrow> bt_ok (bt_insert k v m)"
proof (induction k v m rule: bt_insert.induct)
  case (2 k v k' v' m)
  then show ?case using bt_insert_keys[of k v m] by (auto simp: bt_ok_def)
qed (simp add: bt_ok_def)

lemma bt_ok_remove [simp, intro]: "bt_ok m \<Longrightarrow> bt_ok (bt_remove k m)"
  by (induction m) (auto simp: bt_ok_def bt_remove_def)

lemma bt_insert_last: "\<forall>x \<in> set m. fst x < k \<Longrightarrow> bt_insert k v m = m @ [(k, v)]"
  by (induction m) auto

lemma bt_insert_length: "length (bt_insert k v m) \<le> Suc (length m)"
  by (induction k v m rule: bt_insert.induct) auto

lemma bt_remove_length: "length (bt_remove k m) \<le> length m"
  by (simp add: bt_remove_def)

section \<open>\<open>utils.rs\<close>\<close>

definition hmac_sha256 :: "crates \<Rightarrow> bytes \<Rightarrow> bytes \<Rightarrow> bytes" where
  "hmac_sha256 P key data = hmac_crate P key data"

definition hkdf_extract :: "crates \<Rightarrow> bytes option \<Rightarrow> bytes \<Rightarrow> bytes" where
  "hkdf_extract P salt ikm = extract_crate P salt ikm"

text \<open>\<open>from_prk\<close> refuses a key shorter than the hash.\<close>

definition hkdf_expand :: "crates \<Rightarrow> bytes \<Rightarrow> bytes \<Rightarrow> nat \<Rightarrow> failure + bytes" where
  "hkdf_expand P prk info n =
     (if length prk < 32 then Inl (Err KeyDerivation)
      else case expand_crate P prk info n of None \<Rightarrow> Inl (Err KeyDerivation) | Some out \<Rightarrow> Inr out)"

definition hkdf :: "crates \<Rightarrow> nat \<Rightarrow> bytes option \<Rightarrow> bytes \<Rightarrow> bytes \<Rightarrow> failure + bytes" where
  "hkdf P n salt ikm info = hkdf_expand P (hkdf_extract P salt ikm) info n"

definition random_nonce :: "crates \<Rightarrow> draw \<Rightarrow> nat \<Rightarrow> bytes" where
  "random_nonce P d seed = os_random P d seed 12"

definition aead_encrypt :: "crates \<Rightarrow> bytes \<Rightarrow> bytes \<Rightarrow> bytes \<Rightarrow> bytes \<Rightarrow> failure + bytes" where
  "aead_encrypt P key nonce plaintext aad =
     (case gcm_seal P key nonce plaintext aad of None \<Rightarrow> Inl (Err DecryptionFailed) | Some c \<Rightarrow> Inr c)"

definition aead_decrypt :: "crates \<Rightarrow> bytes \<Rightarrow> bytes \<Rightarrow> bytes \<Rightarrow> bytes \<Rightarrow> failure + bytes" where
  "aead_decrypt P key nonce ciphertext aad =
     (if length ciphertext < 16 then Inl (Err InvalidCiphertext)
      else case gcm_open P key nonce ciphertext aad of None \<Rightarrow> Inl (Err DecryptionFailed) | Some p \<Rightarrow> Inr p)"

text \<open>\<open>ByteParser\<close>: the parser is the data from its position on.\<close>

definition read_fixed :: "nat \<Rightarrow> bytes \<Rightarrow> failure + bytes \<times> bytes" where
  "read_fixed n p = (if n > length p then Inl (Err InvalidCiphertext) else Inr (take n p, drop n p))"

definition read_bytes :: "nat \<Rightarrow> bytes \<Rightarrow> failure + bytes \<times> bytes" where
  "read_bytes n p = (if n > length p then Inl (Err InvalidCiphertext) else Inr (take n p, drop n p))"

definition read_u8 :: "bytes \<Rightarrow> failure + nat \<times> bytes" where
  "read_u8 p = (case p of [] \<Rightarrow> Inl (Err InvalidCiphertext) | v # p \<Rightarrow> Inr (v, p))"

definition read_u16 :: "bytes \<Rightarrow> failure + nat \<times> bytes" where
  "read_u16 p = rbind (read_fixed 2 p) (\<lambda>(b, p). Inr (from_be b, p))"

definition read_u32 :: "bytes \<Rightarrow> failure + u32 \<times> bytes" where
  "read_u32 p = rbind (read_fixed 4 p) (\<lambda>(b, p). Inr (u32_be b, p))"

lemma read_written [simp]:
  "length b = n \<Longrightarrow> read_fixed n (b @ p) = Inr (b, p)" "length b = n \<Longrightarrow> read_bytes n (b @ p) = Inr (b, p)"
  "read_u8 (v # p) = Inr (v, p)" "n < 65536 \<Longrightarrow> read_u16 (to_be 2 n @ p) = Inr (n, p)" "read_u32 (be32 w @ p) = Inr (w, p)"
  by (simp_all add: read_fixed_def read_bytes_def read_u8_def read_u16_def read_u32_def from_to_be)

lemma aead_roundtrip:
  assumes "crate_laws P" "length k = 32" "length n = 12"
  obtains c where "aead_encrypt P k n m a = Inr c" "is_bytes m \<longrightarrow> is_bytes c" "aead_decrypt P k n c a = Inr m" "length c = length m + 16"
proof -
  obtain c where g: "gcm_seal P k n m a = Some c" "length c = length m + 16" "is_bytes m \<longrightarrow> is_bytes c" "gcm_open P k n c a = Some m"
    by (rule crate_gcm[OF assms, of m a])
  show thesis by (rule that[of c]) (use g in \<open>simp_all add: aead_encrypt_def aead_decrypt_def\<close>)
qed

lemma hkdf_expands:
  assumes "crate_laws P" "n \<le> 255 * 32"
  obtains out where "hkdf_expand P (hkdf_extract P s m) info n = Inr out" "sized n out"
proof -
  have "length (extract_crate P s m) = 32" using crate_hash(3)[OF assms(1)] sizedD(1) by blast
  then obtain out where "expand_crate P (extract_crate P s m) info n = Some out" "sized n out" by (rule crate_expand[OF assms(1) _ assms(2)])
  then show thesis using that \<open>length (extract_crate P s m) = 32\<close> by (simp add: hkdf_expand_def hkdf_extract_def)
qed

section \<open>\<open>identity.rs\<close>\<close>

text \<open>A key pair is its secret half.\<close>

definition identity_generate :: "crates \<Rightarrow> draw \<Rightarrow> nat \<Rightarrow> bytes" where
  "identity_generate P d seed = os_random P d seed 32"

definition identity_public_key :: "crates \<Rightarrow> bytes \<Rightarrow> bytes" where
  "identity_public_key P kp = ed25519_public P kp"

definition identity_sign :: "crates \<Rightarrow> bytes \<Rightarrow> bytes \<Rightarrow> bytes" where
  "identity_sign P kp message = ed25519_signature P kp message"

definition identity_verify :: "crates \<Rightarrow> bytes \<Rightarrow> bytes \<Rightarrow> bytes \<Rightarrow> failure + unit" where
  "identity_verify P pk message signature =
     (if \<not> ed25519_point P pk then Inl (Err InvalidKey)
      else if \<not> ed25519_accepts P pk message signature then Inl (Err SignatureVerification) else Inr ())"

definition agreement_generate :: "crates \<Rightarrow> draw \<Rightarrow> nat \<Rightarrow> bytes" where
  "agreement_generate P d seed = os_random P d seed 32"

definition agreement_public_key :: "crates \<Rightarrow> bytes \<Rightarrow> bytes" where
  "agreement_public_key P kp = x25519_public P kp"

definition diffie_hellman :: "crates \<Rightarrow> bytes \<Rightarrow> bytes \<Rightarrow> bytes" where
  "diffie_hellman P kp theirs = x25519 P kp theirs"

lemma signed_verifies: "crate_laws P \<Longrightarrow> sized 32 s \<Longrightarrow> identity_verify P (identity_public_key P s) m (identity_sign P s m) = Inr ()"
  using crate_keys by (simp add: identity_verify_def identity_public_key_def identity_sign_def)

lemma agreement_key:
  assumes "crate_laws P" "sized 32 s"
  shows "sized 32 (agreement_public_key P s)" "length (agreement_public_key P s) = 32" "is_bytes (agreement_public_key P s)"
  using crate_keys(1)[OF assms] by (simp_all add: agreement_public_key_def sized_def)

lemma generated_sized: "crate_laws P \<Longrightarrow> sized 32 (agreement_generate P d seed)" "crate_laws P \<Longrightarrow> sized 32 (identity_generate P d seed)"
  using crate_hash(4) by (simp_all add: agreement_generate_def identity_generate_def)

lemma dh_commutes:
  "crate_laws P \<Longrightarrow> sized 32 a \<Longrightarrow> sized 32 b \<Longrightarrow> diffie_hellman P a (agreement_public_key P b) = diffie_hellman P b (agreement_public_key P a)"
  using crate_dh(2) by (simp add: diffie_hellman_def agreement_public_key_def)

section \<open>An instance of the crates\<close>

definition filled :: "nat \<Rightarrow> bytes \<Rightarrow> bytes" where
  "filled n s = map (\<lambda>x. x mod 256) (take n (s @ replicate n 0))"

lemma filled [simp]: "length (filled n s) = n" "is_bytes (filled n s)" "sized n (filled n s)"
  by (auto simp: filled_def is_bytes_def list_all_iff sized_def)

definition toy_crates :: crates where
  "toy_crates = \<lparr>x25519_public = (\<lambda>s. s), x25519 = (\<lambda>a b. map2 (\<lambda>x y. (x + y) mod 256) a b), ed25519_public = (\<lambda>s. s),
     ed25519_signature = (\<lambda>s m. filled 64 (s @ m)), ed25519_point = (\<lambda>_. True), ed25519_accepts = (\<lambda>pk m sig. sig = filled 64 (pk @ m)),
     hmac_crate = (\<lambda>k m. filled 32 (m @ k)), sha256_crate = filled 32, extract_crate = (\<lambda>s m. filled 32 m),
     expand_crate = (\<lambda>prk info n. Some (filled n prk)), gcm_seal = (\<lambda>k n m a. Some (filled 16 k @ m)),
     gcm_open = (\<lambda>k n c a. if take 16 c = filled 16 k then Some (drop 16 c) else None),
     argon2id = (\<lambda>m t p pin salt. Some (filled 32 pin)), lz4_encode = Some, lz4_decode = Some, os_random = (\<lambda>d seed n. filled n [seed])\<rparr>"

lemma toy_crate_laws: "crate_laws toy_crates"
proof -
  have "map2 (\<lambda>x y. (x + y) mod 256) a b = map2 (\<lambda>x y. (x + y) mod 256) b a" if "length a = length b" for a b :: bytes
    using that by (induction a b rule: list_induct2) (simp_all add: add.commute)
  then have "agreement_laws toy_crates"
    by (auto simp: agreement_laws_def toy_crates_def sized_def is_bytes_def list_all_iff)
  moreover have "is_bytes m \<longrightarrow> is_bytes (filled 16 k @ m)" for k m by simp
  ultimately show ?thesis
    by (simp add: crate_laws_def signature_laws_def hash_laws_def expand_law_def gcm_law_def argon_law_def lz4_law_def toy_crates_def)
qed

end
