(* ===== verification/RustRatchet.thy ===== *)
theory RustRatchet
  imports RustPrims
begin

text \<open>
  The Double Ratchet, \<open>crypto/core/src/double_ratchet.rs\<close>.  Counters are 32 bits wide and wrap, as in the release build.  An operation
  on \<open>&mut RatchetState\<close> returns its result together with the state it leaves, also when it fails half-way.
\<close>

definition MAX_SKIP :: u32 where "MAX_SKIP = 1000"

section \<open>Key derivation and headers\<close>

definition kdf_rk :: "crates \<Rightarrow> bytes \<Rightarrow> bytes \<Rightarrow> failure + bytes \<times> bytes" where
  "kdf_rk P rk dh_out =
     (let prk = hkdf_extract P (Some rk) dh_out
      in rbind (hkdf_expand P prk (js ''DR_RK'') 64) (\<lambda>buf. Inr (take 32 buf, drop 32 buf)))"

definition kdf_ck :: "crates \<Rightarrow> bytes \<Rightarrow> bytes \<times> bytes" where
  "kdf_ck P ck = (hmac_sha256 P ck [2], hmac_sha256 P ck [1])"

record message_header =
  h_dh :: bytes
  h_pn :: u32
  h_n :: u32

definition encode_header :: "message_header \<Rightarrow> bytes" where
  "encode_header h = h_dh h @ be32 (h_pn h) @ be32 (h_n h)"

definition message_nonce :: "u32 \<Rightarrow> bytes" where
  "message_nonce n = be32 n @ replicate 8 0"

definition build_aad :: "message_header \<Rightarrow> bytes \<Rightarrow> bytes" where
  "build_aad h extra = extra @ encode_header h"

section \<open>State\<close>

record ratchet_state =
  r_dhs :: bytes
  r_dhr :: "bytes option"
  r_rk :: bytes
  r_cks :: "bytes option"
  r_ckr :: "bytes option"
  r_ns :: u32
  r_nr :: u32
  r_pn :: u32
  mkskipped :: "((bytes \<times> u32) \<times> bytes) list"

abbreviation ratchet_public :: "crates \<Rightarrow> ratchet_state \<Rightarrow> bytes" where
  "ratchet_public P s \<equiv> agreement_public_key P (r_dhs s)"

definition init_sender :: "crates \<Rightarrow> nat \<Rightarrow> bytes \<Rightarrow> bytes \<Rightarrow> failure + ratchet_state" where
  "init_sender P seed sk bob_dh_pub =
     (let dhs = agreement_generate P ForRatchet seed; dh_out = diffie_hellman P dhs bob_dh_pub
      in rbind (kdf_rk P sk dh_out) (\<lambda>(rk, cks).
           Inr \<lparr>r_dhs = dhs, r_dhr = Some bob_dh_pub, r_rk = rk, r_cks = Some cks, r_ckr = None, r_ns = 0, r_nr = 0, r_pn = 0,
             mkskipped = []\<rparr>))"

definition init_receiver :: "bytes \<Rightarrow> bytes \<Rightarrow> ratchet_state" where
  "init_receiver sk our_dh_pair =
     \<lparr>r_dhs = our_dh_pair, r_dhr = None, r_rk = sk, r_cks = None, r_ckr = None, r_ns = 0, r_nr = 0, r_pn = 0, mkskipped = []\<rparr>"

section \<open>Ratchet steps\<close>

definition dh_ratchet :: "crates \<Rightarrow> nat \<Rightarrow> bytes \<Rightarrow> ratchet_state \<Rightarrow> (failure + unit) \<times> ratchet_state" where
  "dh_ratchet P seed dhr_new s =
     (let s = s\<lparr>r_pn := r_ns s, r_ns := 0, r_nr := 0, r_dhr := Some dhr_new\<rparr>
      in case kdf_rk P (r_rk s) (diffie_hellman P (r_dhs s) dhr_new) of
           Inl e \<Rightarrow> (Inl e, s)
         | Inr (rk1, ckr) \<Rightarrow>
             (let s = s\<lparr>r_rk := rk1, r_ckr := Some ckr, r_dhs := agreement_generate P ForRatchet seed\<rparr>
              in case kdf_rk P (r_rk s) (diffie_hellman P (r_dhs s) dhr_new) of
                   Inl e \<Rightarrow> (Inl e, s)
                 | Inr (rk2, cks) \<Rightarrow> (Inr (), s\<lparr>r_rk := rk2, r_cks := Some cks\<rparr>)))"

lemma u32_suc: "(nr :: u32) < until \<Longrightarrow> unat (nr + 1) = Suc (unat nr)"
proof -
  assume "nr < until"
  moreover have "unat until < 2 ^ 32" using unsigned_less[of until] by simp
  ultimately have "unat nr + 1 < 2 ^ 32" unfolding word_less_nat_alt by linarith
  then show ?thesis by (simp add: unat_word_ariths)
qed

text \<open>The loop of \<open>skip_message_keys\<close>, over the key under which the map keeps the message key of a number; the sender keys of groups
  run the same loop over plain numbers.\<close>

function skip_loop :: "crates \<Rightarrow> (u32 \<Rightarrow> 'k::linorder) \<Rightarrow> u32 \<Rightarrow> bytes \<Rightarrow> u32 \<Rightarrow> ('k \<times> bytes) list \<Rightarrow> bytes \<times> u32 \<times> ('k \<times> bytes) list" where
  "skip_loop P key until ckr nr m =
     (if nr < until
      then (case kdf_ck P ckr of (new_ck, mk) \<Rightarrow> skip_loop P key until new_ck (nr + 1) (bt_insert (key nr) mk m))
      else (ckr, nr, m))"
  by pat_completeness auto

termination
  by (relation "measure (\<lambda>(P, key, until, ckr, nr, m). unat until - unat nr)")
    (simp_all add: u32_suc word_less_nat_alt diff_less_mono2)

declare skip_loop.simps [simp del]

definition saturating_add :: "u32 \<Rightarrow> u32 \<Rightarrow> u32" where
  "saturating_add a b = (if unat a + unat b < 2 ^ 32 then a + b else - 1)"

definition skip_message_keys :: "crates \<Rightarrow> u32 \<Rightarrow> ratchet_state \<Rightarrow> (failure + unit) \<times> ratchet_state" where
  "skip_message_keys P until s =
     (if until \<le> r_nr s then (Inr (), s)
      else if saturating_add (r_nr s) MAX_SKIP < until then (Inl (Err SkipLimitExceeded), s)
      else case r_ckr s of
          None \<Rightarrow> (Inr (), s)
        | Some ckr \<Rightarrow>
            (case r_dhr s of
               None \<Rightarrow> (Inl Panic, s)
             | Some dhr_key \<Rightarrow>
                 (case skip_loop P (Pair dhr_key) until ckr (r_nr s) (mkskipped s) of
                    (ckr, nr, m) \<Rightarrow> (Inr (), s\<lparr>r_ckr := Some ckr, r_nr := nr, mkskipped := m\<rparr>))))"

section \<open>Messages\<close>

definition ratchet_encrypt :: "crates \<Rightarrow> bytes \<Rightarrow> bytes \<Rightarrow> ratchet_state \<Rightarrow> (failure + message_header \<times> bytes) \<times> ratchet_state" where
  "ratchet_encrypt P plaintext aad s =
     (case r_cks s of
        None \<Rightarrow> (Inl (Err InvalidKey), s)
      | Some cks \<Rightarrow>
          (let (new_cks, mk) = kdf_ck P cks; header = \<lparr>h_dh = ratchet_public P s, h_pn = r_pn s, h_n = r_ns s\<rparr>
           in (rbind (aead_encrypt P mk (message_nonce (h_n header)) plaintext (build_aad header aad)) (\<lambda>c. Inr (header, c)),
               s\<lparr>r_cks := Some new_cks, r_ns := r_ns s + 1\<rparr>)))"

definition decrypt_with_mk :: "crates \<Rightarrow> bytes \<Rightarrow> message_header \<Rightarrow> bytes \<Rightarrow> bytes \<Rightarrow> failure + bytes" where
  "decrypt_with_mk P mk header ciphertext aad =
     aead_decrypt P mk (message_nonce (h_n header)) ciphertext (build_aad header aad)"

text \<open>The part of \<open>decrypt\<close> after a DH ratchet step, if there was one.\<close>

definition decrypt_in_chain :: "crates \<Rightarrow> message_header \<Rightarrow> bytes \<Rightarrow> bytes \<Rightarrow> ratchet_state \<Rightarrow> (failure + bytes) \<times> ratchet_state" where
  "decrypt_in_chain P header ciphertext aad s =
     (case skip_message_keys P (h_n header) s of
        (Inl e, s) \<Rightarrow> (Inl e, s)
      | (Inr _, s) \<Rightarrow>
          (case r_ckr s of
             None \<Rightarrow> (Inl (Err InvalidKey), s)
           | Some ckr \<Rightarrow>
               (case kdf_ck P ckr of (new_ckr, mk) \<Rightarrow>
                  (decrypt_with_mk P mk header ciphertext aad, s\<lparr>r_ckr := Some new_ckr, r_nr := r_nr s + 1\<rparr>))))"

definition ratchet_decrypt ::
    "crates \<Rightarrow> nat \<Rightarrow> message_header \<Rightarrow> bytes \<Rightarrow> bytes \<Rightarrow> ratchet_state \<Rightarrow> (failure + bytes) \<times> ratchet_state" where
  "ratchet_decrypt P seed header ciphertext aad s =
     (case map_of (mkskipped s) (h_dh header, h_n header) of
        Some mk \<Rightarrow> (decrypt_with_mk P mk header ciphertext aad, s\<lparr>mkskipped := bt_remove (h_dh header, h_n header) (mkskipped s)\<rparr>)
      | None \<Rightarrow>
          if r_dhr s \<noteq> Some (h_dh header) then
            (case skip_message_keys P (h_pn header) s of
               (Inl e, s) \<Rightarrow> (Inl e, s)
             | (Inr _, s) \<Rightarrow>
                 (case dh_ratchet P seed (h_dh header) s of
                    (Inl e, s) \<Rightarrow> (Inl e, s)
                  | (Inr _, s) \<Rightarrow> decrypt_in_chain P header ciphertext aad s))
          else decrypt_in_chain P header ciphertext aad s)"

section \<open>Serialization\<close>

definition opt_bytes :: "bytes option \<Rightarrow> bytes" where
  "opt_bytes k = (case k of None \<Rightarrow> [0] | Some k \<Rightarrow> 1 # k)"

definition skipped_bytes :: "((bytes \<times> u32) \<times> bytes) list \<Rightarrow> bytes" where
  "skipped_bytes m = concat (map (\<lambda>((dh_key, iter), mk). to_be 2 (length dh_key mod 65536) @ dh_key @ be32 iter @ mk) m)"

definition ratchet_to_bytes :: "ratchet_state \<Rightarrow> bytes" where
  "ratchet_to_bytes s =
     [1] @ r_dhs s @ opt_bytes (r_dhr s) @ r_rk s @ opt_bytes (r_cks s) @ opt_bytes (r_ckr s)
     @ be32 (r_ns s) @ be32 (r_nr s) @ be32 (r_pn s) @ be32 (word_of_nat (length (mkskipped s))) @ skipped_bytes (mkskipped s)"

definition read_opt32 :: "bytes \<Rightarrow> failure + bytes option \<times> bytes" where
  "read_opt32 p = rbind (read_u8 p) (\<lambda>(b, p). if b = 1 then rbind (read_fixed 32 p) (\<lambda>(k, p). Inr (Some k, p)) else Inr (None, p))"

fun read_skipped :: "nat \<Rightarrow> bytes \<Rightarrow> ((bytes \<times> u32) \<times> bytes) list \<Rightarrow> failure + ((bytes \<times> u32) \<times> bytes) list" where
  "read_skipped 0 p m = Inr m"
| "read_skipped (Suc count) p m =
     rbind (read_u16 p) (\<lambda>(key_len, p). rbind (read_bytes key_len p) (\<lambda>(dh_key, p).
     rbind (read_u32 p) (\<lambda>(iter, p). rbind (read_fixed 32 p) (\<lambda>(mk, p). read_skipped count p (bt_insert (dh_key, iter) mk m)))))"

definition ratchet_from_bytes :: "bytes \<Rightarrow> failure + ratchet_state" where
  "ratchet_from_bytes data =
     rbind (read_u8 data) (\<lambda>(v, p). if v \<noteq> 1 then Inl (Err InvalidCiphertext) else
     rbind (read_fixed 32 p) (\<lambda>(dhs, p). rbind (read_opt32 p) (\<lambda>(dhr, p). rbind (read_fixed 32 p) (\<lambda>(rk, p).
     rbind (read_opt32 p) (\<lambda>(cks, p). rbind (read_opt32 p) (\<lambda>(ckr, p).
     rbind (read_u32 p) (\<lambda>(ns, p). rbind (read_u32 p) (\<lambda>(nr, p). rbind (read_u32 p) (\<lambda>(pn, p).
     rbind (read_u32 p) (\<lambda>(count, p). rbind (read_skipped (unat count) p []) (\<lambda>m.
       Inr \<lparr>r_dhs = dhs, r_dhr = dhr, r_rk = rk, r_cks = cks, r_ckr = ckr, r_ns = ns, r_nr = nr, r_pn = pn, mkskipped = m\<rparr>)))))))))))"

end
