(* ===== verification/RustRatchetProps.thy ===== *)
theory RustRatchetProps
  imports RustRatchet
begin

text \<open>
  What the Double Ratchet does: a stored session is restored exactly; the messages of a sending chain are decrypted in whatever order
  they arrive, across the DH ratchet step that the first of them causes; and the two ends stay in contact.
\<close>

section \<open>Stored sessions\<close>

definition opt_sized :: "bytes option \<Rightarrow> bool" where
  "opt_sized k = (case k of None \<Rightarrow> True | Some k \<Rightarrow> sized 32 k)"

definition skipped_ok :: "((bytes \<times> u32) \<times> bytes) list \<Rightarrow> bool" where
  "skipped_ok m \<longleftrightarrow> bt_ok m \<and> length m < 2 ^ 32 \<and> list_all (\<lambda>((d, n), mk). length d < 65536 \<and> length mk = 32) m"

definition ratchet_ok :: "ratchet_state \<Rightarrow> bool" where
  "ratchet_ok s \<longleftrightarrow> sized 32 (r_dhs s) \<and> opt_sized (r_dhr s) \<and> sized 32 (r_rk s) \<and> opt_sized (r_cks s) \<and> opt_sized (r_ckr s)
     \<and> skipped_ok (mkskipped s)"

lemma read_opt32_written [simp]: "opt_sized k \<Longrightarrow> read_opt32 (opt_bytes k @ p) = Inr (k, p)"
  by (auto simp: opt_sized_def opt_bytes_def read_opt32_def sized_def split: option.splits)

lemma read_skipped_written:
  assumes "bt_ok (m0 @ m)" "list_all (\<lambda>((d, n), mk). length d < 65536 \<and> length mk = 32) m"
  shows "read_skipped (length m) (skipped_bytes m @ p) m0 = Inr (m0 @ m)"
  using assms
proof (induction m arbitrary: m0)
  case (Cons e m)
  obtain d n mk where e: "e = ((d, n), mk)" by (metis surj_pair)
  have "bt_insert (d, n) mk m0 = m0 @ [e]"
    using Cons.prems(1) unfolding e by (intro bt_insert_last) (auto simp: bt_ok_def sorted_wrt_append)
  then show ?case using Cons e by (simp add: skipped_bytes_def)
qed (simp add: skipped_bytes_def)

lemma unat_count: "n < 2 ^ 32 \<Longrightarrow> unat (word_of_nat n :: u32) = n"
  by (simp add: unsigned_of_nat take_bit_nat_eq_self)

text \<open>A stored Double Ratchet session is restored exactly: reading what was written gives back every field, whatever the counters
  and however many keys of skipped messages it holds.\<close>

theorem ratchet_stored:
  assumes "ratchet_ok s"
  shows "ratchet_from_bytes (ratchet_to_bytes s) = Inr s"
proof -
  have "read_skipped (length (mkskipped s)) (skipped_bytes (mkskipped s)) [] = Inr (mkskipped s)"
    using assms read_skipped_written[of "[]" "mkskipped s" "[]"] by (simp add: ratchet_ok_def skipped_ok_def)
  then show ?thesis
    using assms by (simp add: ratchet_ok_def skipped_ok_def ratchet_from_bytes_def ratchet_to_bytes_def sized_def unat_count)
qed

section \<open>Chains\<close>

fun ck_at :: "crates \<Rightarrow> bytes \<Rightarrow> nat \<Rightarrow> bytes" where
  "ck_at P ck 0 = ck"
| "ck_at P ck (Suc i) = fst (kdf_ck P (ck_at P ck i))"

definition mk_at :: "crates \<Rightarrow> bytes \<Rightarrow> nat \<Rightarrow> bytes" where
  "mk_at P ck i = snd (kdf_ck P (ck_at P ck i))"

lemma ck_at_add: "ck_at P (ck_at P ck i) j = ck_at P ck (i + j)"
  by (induction j) simp_all

lemma mk_at_add: "mk_at P (ck_at P ck i) j = mk_at P ck (i + j)"
  by (simp add: mk_at_def ck_at_add)

lemma kdf_at: "kdf_ck P (ck_at P ck i) = (ck_at P ck (Suc i), mk_at P ck i)"
  by (simp add: mk_at_def)

lemma kdf_sized: "crate_laws P \<Longrightarrow> kdf_ck P ck = (ck', mk) \<Longrightarrow> sized 32 ck' \<and> sized 32 mk"
  using crate_hash(1) by (auto simp: kdf_ck_def hmac_sha256_def)

lemma mk_sized: "crate_laws P \<Longrightarrow> length (mk_at P ck i) = 32"
  using crate_hash(1) by (simp add: mk_at_def kdf_ck_def hmac_sha256_def sized_def)

lemma u32_bounds: "unat (n :: u32) < 2 ^ 32"
  using unsigned_less[of n] by simp

lemma skip_loop_result:
  assumes "unat nr + k = unat until" "inj key"
  shows "\<exists>m'. skip_loop P key until ck nr m = (ck_at P ck k, until, m') \<and> (bt_ok m \<longrightarrow> bt_ok m') \<and> length m' \<le> length m + k
    \<and> (\<forall>n. map_of m' (key n) = (if nr \<le> n \<and> n < until then Some (mk_at P ck (unat n - unat nr)) else map_of m (key n)))
    \<and> (\<forall>x. x \<notin> range key \<longrightarrow> map_of m' x = map_of m x)"
  using assms(1)
proof (induction k arbitrary: nr ck m)
  case 0
  then have "nr = until" by (simp add: word_unat_eq_iff)
  then show ?case by (auto simp: skip_loop.simps word_le_nat_alt word_less_nat_alt)
next
  case (Suc k)
  then have lt: "nr < until" by (simp add: word_less_nat_alt)
  let ?ck = "ck_at P ck 1" and ?m = "bt_insert (key nr) (mk_at P ck 0) m"
  have "unat (nr + 1) + k = unat until" using Suc.prems u32_suc[OF lt] by simp
  from Suc.IH[OF this, of ?ck ?m] obtain m' where m': "skip_loop P key until ?ck (nr + 1) ?m = (ck_at P ?ck k, until, m')"
    "bt_ok ?m \<longrightarrow> bt_ok m'" "length m' \<le> length ?m + k"
    "\<And>n. map_of m' (key n) = (if nr + 1 \<le> n \<and> n < until then Some (mk_at P ?ck (unat n - unat (nr + 1))) else map_of ?m (key n))"
    "\<And>x. x \<notin> range key \<Longrightarrow> map_of m' x = map_of ?m x"
    by blast
  have "skip_loop P key until ck nr m = (ck_at P ck (Suc k), until, m')"
    using m'(1) lt ck_at_add[of P ck 1 k] by (simp add: skip_loop.simps[of P key until ck] mk_at_def case_prod_beta)
  moreover have "map_of m' (key n) = (if nr \<le> n \<and> n < until then Some (mk_at P ck (unat n - unat nr)) else map_of m (key n))" for n
  proof (cases "n = nr")
    case True
    then show ?thesis using lt u32_suc[OF lt] m'(4)[of n] by (simp add: word_le_nat_alt)
  next
    case False
    then have "unat n \<noteq> unat nr" "key n \<noteq> key nr" using word_unat_eq_iff[of n nr] assms(2) by (auto dest: injD)
    then show ?thesis using m'(4)[of n] mk_at_add[of P ck 1 "unat n - Suc (unat nr)"] u32_suc[OF lt]
      by (auto simp: word_le_nat_alt word_less_nat_alt Suc_diff_Suc)
  qed
  moreover have "map_of m' x = map_of m x" if "x \<notin> range key" for x using m'(5)[OF that] that by auto
  moreover have "length m' \<le> length m + Suc k" using m'(3) bt_insert_length[of "key nr" "mk_at P ck 0" m] by linarith
  ultimately show ?case using m'(2) by blast
qed

lemma inj_pair: "inj (Pair d)"
  by (simp add: inj_def)

lemma skip_none: "until \<le> r_nr s \<Longrightarrow> skip_message_keys P until s = (Inr (), s)"
  by (simp add: skip_message_keys_def)

lemma max_skip: "unat MAX_SKIP = 1000"
  by (simp add: MAX_SKIP_def)

lemma saturating: "unat b \<le> unat a + unat c \<Longrightarrow> \<not> saturating_add a c < b"
  using u32_bounds[of b] unat_add_lem[of a c]
  by (auto simp: saturating_add_def word_less_nat_alt unat_word_ariths unsigned_minus_1_eq_mask mask_eq_exp_minus_1)

section \<open>A receiver in a chain\<close>

text \<open>The receiver follows the chain that starts with key \<open>ck\<close> at message \<open>n0\<close>; it has seen the messages in \<open>seen\<close> and keeps the keys of
  the others before \<open>r_nr\<close>.\<close>

definition follows :: "crates \<Rightarrow> bytes \<Rightarrow> bytes \<Rightarrow> nat \<Rightarrow> u32 set \<Rightarrow> ratchet_state \<Rightarrow> bool" where
  "follows P d ck n0 seen s \<longleftrightarrow>
     r_dhr s = Some d \<and> n0 \<le> unat (r_nr s) \<and> r_ckr s = Some (ck_at P ck (unat (r_nr s) - n0))
     \<and> (\<forall>n. n0 \<le> unat n \<longrightarrow>
          map_of (mkskipped s) (d, n) = (if n < r_nr s \<and> n \<notin> seen then Some (mk_at P ck (unat n - n0)) else None))
     \<and> (\<forall>n \<in> seen. n < r_nr s)"

lemma skip_in_chain:
  assumes "follows P d ck n0 seen s" "r_nr s \<le> n" "unat n \<le> n0 + 1000"
  shows "\<exists>m'. skip_message_keys P n s = (Inr (), s\<lparr>r_ckr := Some (ck_at P ck (unat n - n0)), r_nr := n, mkskipped := m'\<rparr>)
    \<and> (\<forall>e i. map_of m' (e, i) = (if e = d \<and> r_nr s \<le> i \<and> i < n then Some (mk_at P ck (unat i - n0)) else map_of (mkskipped s) (e, i)))"
proof (cases "r_nr s = n")
  case True
  have "s = s\<lparr>r_ckr := Some (ck_at P ck (unat n - n0)), r_nr := n, mkskipped := mkskipped s\<rparr>"
    using assms(1) True by (cases s) (simp add: follows_def)
  then show ?thesis using True by (intro exI[of _ "mkskipped s"]) (auto simp: skip_none)
next
  case False
  let ?nr = "r_nr s" let ?ck = "ck_at P ck (unat ?nr - n0)"
  have f: "r_dhr s = Some d" "n0 \<le> unat ?nr" "r_ckr s = Some ?ck" using assms(1) by (simp_all add: follows_def)
  have "\<not> n \<le> ?nr" using False assms(2) by simp
  moreover have "\<not> saturating_add ?nr MAX_SKIP < n" using saturating[of n ?nr MAX_SKIP] assms(3) f(2) max_skip by simp
  moreover have "unat ?nr + (unat n - unat ?nr) = unat n" using assms(2) by (simp add: word_le_nat_alt)
  then obtain m' where m': "skip_loop P (Pair d) n ?ck ?nr (mkskipped s) = (ck_at P ?ck (unat n - unat ?nr), n, m')"
    "\<And>i. map_of m' (d, i) = (if ?nr \<le> i \<and> i < n then Some (mk_at P ?ck (unat i - unat ?nr)) else map_of (mkskipped s) (d, i))"
    "\<And>x. x \<notin> range (Pair d) \<Longrightarrow> map_of m' x = map_of (mkskipped s) x"
    using skip_loop_result[of ?nr _ n "Pair d" P ?ck "mkskipped s"] by (metis inj_pair)
  from m'(2,3) have "map_of m' (e, i) = (if e = d \<and> ?nr \<le> i \<and> i < n then Some (mk_at P ?ck (unat i - unat ?nr)) else map_of (mkskipped s) (e, i))" for e i
    by (cases "e = d") auto
  moreover have "ck_at P ?ck (unat n - unat ?nr) = ck_at P ck (unat n - n0)"
    using ck_at_add f(2) assms(2) by (simp add: word_le_nat_alt)
  moreover have "mk_at P ?ck (unat i - unat ?nr) = mk_at P ck (unat i - n0)" if "?nr \<le> i" for i
    using mk_at_add f(2) that by (simp add: word_le_nat_alt)
  ultimately show ?thesis using f m'(1) by (intro exI[of _ m']) (simp add: skip_message_keys_def)
qed

lemma receive_in_chain:
  assumes "follows P d ck n0 seen s" "r_nr s \<le> h_n h" "unat (h_n h) \<le> n0 + 1000" "unat (h_n h) + 1 < 2 ^ 32"
  shows "\<exists>s'. decrypt_in_chain P h c aad s = (decrypt_with_mk P (mk_at P ck (unat (h_n h) - n0)) h c aad, s')
    \<and> follows P d ck n0 (insert (h_n h) seen) s'"
proof -
  let ?n = "h_n h"
  obtain m' where sk: "skip_message_keys P ?n s = (Inr (), s\<lparr>r_ckr := Some (ck_at P ck (unat ?n - n0)), r_nr := ?n, mkskipped := m'\<rparr>)"
    and m': "\<And>e i. map_of m' (e, i) = (if e = d \<and> r_nr s \<le> i \<and> i < ?n then Some (mk_at P ck (unat i - n0)) else map_of (mkskipped s) (e, i))"
    using skip_in_chain[OF assms(1-3)] by blast
  let ?s = "s\<lparr>r_ckr := Some (ck_at P ck (Suc (unat ?n - n0))), r_nr := ?n + 1, mkskipped := m'\<rparr>"
  have suc: "unat (?n + 1) = Suc (unat ?n)" using assms(4) by (simp add: unat_word_ariths)
  have f: "r_dhr s = Some d" "n0 \<le> unat (r_nr s)" "\<forall>n \<in> seen. n < r_nr s"
    "\<And>n. n0 \<le> unat n \<Longrightarrow> map_of (mkskipped s) (d, n) = (if n < r_nr s \<and> n \<notin> seen then Some (mk_at P ck (unat n - n0)) else None)"
    using assms(1) by (simp_all add: follows_def)
  have n0: "n0 \<le> unat ?n" using assms(2) f(2) by (simp add: word_le_nat_alt)
  have "map_of m' (d, n) = (if n < ?n + 1 \<and> n \<notin> insert ?n seen then Some (mk_at P ck (unat n - n0)) else None)" if "n0 \<le> unat n" for n
  proof (cases "r_nr s \<le> n \<and> n < ?n")
    case True
    then have "n \<notin> insert ?n seen" "n < ?n + 1" using f(3) suc by (auto simp: word_less_nat_alt word_le_nat_alt)
    then show ?thesis using True m' by simp
  next
    case False
    have "n < ?n + 1 \<and> n \<notin> insert ?n seen \<longleftrightarrow> n < r_nr s \<and> n \<notin> seen"
      using False suc assms(2) f(3) by (auto simp: word_less_nat_alt word_le_nat_alt less_Suc_eq word_unat_eq_iff)
    then show ?thesis using False m'[of d n] f(4)[OF that] by auto
  qed
  moreover have "\<forall>n \<in> insert ?n seen. n < ?n + 1"
    using f(3) suc assms(2) by (auto simp: word_less_nat_alt word_le_nat_alt)
  ultimately have "follows P d ck n0 (insert ?n seen) ?s"
    using f(1) n0 suc by (simp add: follows_def Suc_diff_le)
  moreover have "decrypt_in_chain P h c aad s = (decrypt_with_mk P (mk_at P ck (unat ?n - n0)) h c aad, ?s)"
    using kdf_at[of P ck "unat ?n - n0"] by (simp add: decrypt_in_chain_def sk mk_at_def case_prod_beta)
  ultimately show ?thesis by blast
qed

lemma receive_any:
  assumes "follows P d ck n0 seen s" "h_dh h = d" "n0 \<le> unat (h_n h)" "unat (h_n h) \<le> n0 + 1000" "unat (h_n h) + 1 < 2 ^ 32" "h_n h \<notin> seen"
  shows "\<exists>s'. ratchet_decrypt P seed h c aad s = (decrypt_with_mk P (mk_at P ck (unat (h_n h) - n0)) h c aad, s')
    \<and> follows P d ck n0 (insert (h_n h) seen) s'"
proof (cases "h_n h < r_nr s")
  case True
  let ?s = "s\<lparr>mkskipped := bt_remove (d, h_n h) (mkskipped s)\<rparr>"
  have "map_of (mkskipped s) (d, h_n h) = Some (mk_at P ck (unat (h_n h) - n0))" using assms(1,3,6) True by (simp add: follows_def)
  then have "ratchet_decrypt P seed h c aad s = (decrypt_with_mk P (mk_at P ck (unat (h_n h) - n0)) h c aad, ?s)"
    using assms(2) by (simp add: ratchet_decrypt_def)
  moreover have "follows P d ck n0 (insert (h_n h) seen) ?s" using assms(1) True by (auto simp: follows_def)
  ultimately show ?thesis by blast
next
  case False
  then have le: "r_nr s \<le> h_n h" by simp
  have "map_of (mkskipped s) (d, h_n h) = None" "r_dhr s = Some d" using assms(1,3) False by (simp_all add: follows_def)
  then have "ratchet_decrypt P seed h c aad s = decrypt_in_chain P h c aad s" using assms(2) by (simp add: ratchet_decrypt_def)
  then show ?thesis using receive_in_chain[OF assms(1) le assms(4,5)] by simp
qed

section \<open>Contact\<close>

text \<open>\<open>turned\<close>: the next message of \<open>S\<close> carries a ratchet key that \<open>R\<close> has not seen.  \<open>chained\<close>: \<open>R\<close> follows the sending chain of \<open>S\<close>.\<close>

definition turned :: "crates \<Rightarrow> ratchet_state \<Rightarrow> ratchet_state \<Rightarrow> bool" where
  "turned P S R \<longleftrightarrow>
     (\<exists>ck. r_cks S = Some ck \<and> kdf_rk P (r_rk R) (diffie_hellman P (r_dhs R) (ratchet_public P S)) = Inr (r_rk S, ck))
     \<and> r_dhr R \<noteq> Some (ratchet_public P S) \<and> r_dhr S = Some (ratchet_public P R) \<and> r_ns S = 0 \<and> r_pn S = r_nr R \<and> r_nr S = r_ns R"

definition chained :: "crates \<Rightarrow> ratchet_state \<Rightarrow> ratchet_state \<Rightarrow> bool" where
  "chained P S R \<longleftrightarrow> r_cks S \<noteq> None \<and> r_ckr R = r_cks S \<and> r_dhr R = Some (ratchet_public P S) \<and> r_nr R = r_ns S"

definition in_contact :: "crates \<Rightarrow> ratchet_state \<Rightarrow> ratchet_state \<Rightarrow> bool" where
  "in_contact P S R \<longleftrightarrow> turned P S R \<or> chained P S R \<and> turned P R S"

lemma kdf_rk_ok:
  assumes "crate_laws P"
  obtains rk ck where "kdf_rk P r d = Inr (rk, ck)" "sized 32 rk" "sized 32 ck"
proof -
  obtain out where "hkdf_expand P (hkdf_extract P (Some r) d) (js ''DR_RK'') 64 = Inr out" "sized 64 out"
    by (rule hkdf_expands[OF assms, of 64]) simp
  moreover have "sized 32 (take 32 out)" "sized 32 (drop 32 out)"
    using \<open>sized 64 out\<close> by (auto simp: sized_def is_bytes_def list_all_iff dest: in_set_takeD in_set_dropD)
  ultimately show thesis using that by (simp add: kdf_rk_def)
qed

lemma kdf_rk_sized:
  assumes "crate_laws P" "kdf_rk P r d = Inr (rk, ck)"
  shows "sized 32 rk" "sized 32 ck"
  using kdf_rk_ok[OF assms(1), of r d] assms(2) by (metis Inr_inject fst_conv snd_conv)+

text \<open>The state in which \<open>decrypt\<close> goes on after the DH ratchet step for a key of a peer that has turned.\<close>

lemma turned_decrypt:
  assumes "crate_laws P" "turned P S R" "map_of (mkskipped R) (ratchet_public P S, h_n h) = None" "h_dh h = ratchet_public P S" "h_pn h = r_pn S"
    "r_cks S = Some ck"
  shows "\<exists>rk cks. kdf_rk P (r_rk S) (diffie_hellman P (agreement_generate P ForRatchet seed) (ratchet_public P S)) = Inr (rk, cks)
    \<and> ratchet_decrypt P seed h c aad R = decrypt_in_chain P h c aad
        \<lparr>r_dhs = agreement_generate P ForRatchet seed, r_dhr = Some (ratchet_public P S), r_rk = rk, r_cks = Some cks, r_ckr = Some ck,
         r_ns = 0, r_nr = 0, r_pn = r_ns R, mkskipped = mkskipped R\<rparr>"
proof -
  obtain rk cks where k: "kdf_rk P (r_rk S) (diffie_hellman P (agreement_generate P ForRatchet seed) (ratchet_public P S)) = Inr (rk, cks)"
    using kdf_rk_ok[OF assms(1)] by metis
  have t: "kdf_rk P (r_rk R) (diffie_hellman P (r_dhs R) (ratchet_public P S)) = Inr (r_rk S, ck)" "r_dhr R \<noteq> Some (ratchet_public P S)"
    "r_pn S = r_nr R"
    using assms(2,6) by (auto simp: turned_def)
  have "skip_message_keys P (h_pn h) R = (Inr (), R)" using assms(5) t(3) by (simp add: skip_none)
  then show ?thesis using k t(1,2) assms(3,4) by (cases R) (simp add: ratchet_decrypt_def dh_ratchet_def Let_def)
qed

lemma chain_decrypt:
  assumes "r_ckr s = Some ck" "h_n h = r_nr s"
  shows "decrypt_in_chain P h c aad s = (decrypt_with_mk P (mk_at P ck 0) h c aad, s\<lparr>r_ckr := Some (ck_at P ck 1), r_nr := r_nr s + 1\<rparr>)"
  using assms by (simp add: decrypt_in_chain_def skip_none mk_at_def case_prod_beta)

lemma nonce_length [simp]: "length (message_nonce n) = 12"
  by (simp add: message_nonce_def)

lemma encrypt_ok:
  assumes "crate_laws P" "r_cks S = Some ck"
  obtains c where
    "ratchet_encrypt P p aad S = (Inr (\<lparr>h_dh = ratchet_public P S, h_pn = r_pn S, h_n = r_ns S\<rparr>, c), S\<lparr>r_cks := Some (ck_at P ck 1), r_ns := r_ns S + 1\<rparr>)"
    "decrypt_with_mk P (mk_at P ck 0) \<lparr>h_dh = ratchet_public P S, h_pn = r_pn S, h_n = r_ns S\<rparr> c aad = Inr p" "is_bytes p \<longrightarrow> is_bytes c"
proof -
  let ?h = "\<lparr>h_dh = ratchet_public P S, h_pn = r_pn S, h_n = r_ns S\<rparr>"
  obtain c where c: "aead_encrypt P (mk_at P ck 0) (message_nonce (r_ns S)) p (build_aad ?h aad) = Inr c" "is_bytes p \<longrightarrow> is_bytes c"
    "aead_decrypt P (mk_at P ck 0) (message_nonce (r_ns S)) c (build_aad ?h aad) = Inr p"
    using aead_roundtrip[OF assms(1) mk_sized[OF assms(1)] nonce_length] by metis
  show thesis
    by (rule that[of c]) (use assms(2) c in \<open>simp_all add: ratchet_encrypt_def decrypt_with_mk_def mk_at_def case_prod_beta Let_def\<close>)
qed

lemma init_contact:
  assumes "crate_laws P" "sized 32 sk" "sized 32 spk"
  obtains S where "init_sender P seed sk (agreement_public_key P spk) = Inr S" "turned P S (init_receiver sk spk)"
    "r_dhs S = agreement_generate P ForRatchet seed" "ratchet_ok S" "ratchet_ok (init_receiver sk spk)" "mkskipped S = []"
proof -
  let ?d = "agreement_generate P ForRatchet seed"
  have d: "sized 32 ?d" using generated_sized[OF assms(1)] by blast
  obtain rk ck where k: "kdf_rk P sk (diffie_hellman P ?d (agreement_public_key P spk)) = Inr (rk, ck)" "sized 32 rk" "sized 32 ck"
    using kdf_rk_ok[OF assms(1)] by metis
  show thesis
    by (rule that) (use k d assms agreement_key[OF assms(1,3)] dh_commutes[OF assms(1) d assms(3)] in
      \<open>auto simp: init_sender_def init_receiver_def turned_def ratchet_ok_def opt_sized_def skipped_ok_def bt_ok_def Let_def\<close>)
qed

text \<open>The two ends of a Double Ratchet stay in contact.  A message is decrypted to what was encrypted, in the running chain as well as
  after the DH ratchet step; and unless the receiver draws again the ratchet key it replaces, either of them can then send the next
  message.\<close>

theorem contact_kept:
  assumes "crate_laws P" "in_contact P S R" "ratchet_ok S" "ratchet_ok R" "mkskipped S = []" "mkskipped R = []"
  shows "\<exists>h c S' R'. ratchet_encrypt P p aad S = (Inr (h, c), S') \<and> ratchet_decrypt P seed h c aad R = (Inr p, R')
    \<and> (is_bytes p \<longrightarrow> is_bytes c) \<and> h_dh h = ratchet_public P S \<and> ratchet_ok S' \<and> ratchet_ok R' \<and> mkskipped S' = [] \<and> mkskipped R' = []
    \<and> r_dhs S' = r_dhs S \<and> r_dhs R' \<in> {r_dhs R, agreement_generate P ForRatchet seed}
    \<and> (agreement_public_key P (agreement_generate P ForRatchet seed) \<noteq> ratchet_public P R \<longrightarrow> in_contact P S' R' \<and> in_contact P R' S')"
proof -
  obtain ck where ck: "r_cks S = Some ck" using assms(2) by (auto simp: in_contact_def turned_def chained_def)
  let ?h = "\<lparr>h_dh = ratchet_public P S, h_pn = r_pn S, h_n = r_ns S\<rparr>" let ?S = "S\<lparr>r_cks := Some (ck_at P ck 1), r_ns := r_ns S + 1\<rparr>"
  obtain c where c: "ratchet_encrypt P p aad S = (Inr (?h, c), ?S)" "decrypt_with_mk P (mk_at P ck 0) ?h c aad = Inr p" "is_bytes p \<longrightarrow> is_bytes c"
    by (rule encrypt_ok[OF assms(1) ck])
  have ck1: "sized 32 (ck_at P ck 1)" using kdf_sized[OF assms(1)] by (metis One_nat_def ck_at.simps prod.collapse)
  then have S: "ratchet_ok ?S" "mkskipped ?S = []" using assms(3,5) by (simp_all add: ratchet_ok_def opt_sized_def)
  consider "turned P S R" | "chained P S R" "turned P R S" using assms(2) by (auto simp: in_contact_def)
  then show ?thesis
  proof cases
    case 1
    let ?d = "agreement_generate P ForRatchet seed"
    have skipped: "map_of (mkskipped R) (ratchet_public P S, h_n ?h) = None" by (simp add: assms(6))
    obtain rk cks where k: "kdf_rk P (r_rk S) (diffie_hellman P ?d (ratchet_public P S)) = Inr (rk, cks)"
      and dec: "ratchet_decrypt P seed ?h c aad R = decrypt_in_chain P ?h c aad
        \<lparr>r_dhs = ?d, r_dhr = Some (ratchet_public P S), r_rk = rk, r_cks = Some cks, r_ckr = Some ck, r_ns = 0, r_nr = 0, r_pn = r_ns R,
         mkskipped = mkskipped R\<rparr>"
      using turned_decrypt[OF assms(1) 1 skipped _ _ ck, of seed c aad] by auto
    let ?R = "\<lparr>r_dhs = ?d, r_dhr = Some (ratchet_public P S), r_rk = rk, r_cks = Some cks, r_ckr = Some (ck_at P ck 1), r_ns = 0, r_nr = 1,
         r_pn = r_ns R, mkskipped = []\<rparr>"
    have t: "r_ns S = 0" "r_nr S = r_ns R" "r_dhr S = Some (ratchet_public P R)" using 1 by (simp_all add: turned_def)
    have "ratchet_decrypt P seed ?h c aad R = (Inr p, ?R)"
      unfolding dec using chain_decrypt[of _ ck ?h P c aad] t(1) c(2) assms(6) by simp
    moreover have d: "sized 32 ?d" "sized 32 (r_dhs S)" using generated_sized[OF assms(1)] assms(3) by (simp_all add: ratchet_ok_def)
    then have "ratchet_ok ?R"
      using kdf_rk_sized[OF assms(1) k] ck1 agreement_key[OF assms(1) d(2)] by (simp add: ratchet_ok_def opt_sized_def skipped_ok_def bt_ok_def)
    moreover have "turned P ?R ?S" if "agreement_public_key P ?d \<noteq> ratchet_public P R"
      using k t that dh_commutes[OF assms(1) d] by (simp add: turned_def)
    moreover have "chained P ?S ?R" using t by (simp add: chained_def)
    ultimately show ?thesis using c(1,3) S by (intro exI[of _ ?h] exI[of _ c] exI[of _ ?S] exI[of _ ?R]) (simp add: in_contact_def)
  next
    case 2
    let ?R = "R\<lparr>r_ckr := Some (ck_at P ck 1), r_nr := r_nr R + 1\<rparr>"
    have t: "r_ckr R = Some ck" "r_dhr R = Some (ratchet_public P S)" "r_nr R = r_ns S" using 2(1) ck by (simp_all add: chained_def)
    have "ratchet_decrypt P seed ?h c aad R = (Inr p, ?R)"
      using chain_decrypt[OF t(1), of ?h P c aad] t c(2) assms(6) by (simp add: ratchet_decrypt_def)
    moreover have "ratchet_ok ?R" using assms(4) ck1 by (simp add: ratchet_ok_def opt_sized_def)
    moreover have "turned P ?R ?S" using 2 ck t by (simp add: turned_def chained_def)
    moreover have "chained P ?S ?R" using t by (simp add: chained_def)
    ultimately show ?thesis using c(1,3) S assms(6)
      by (intro exI[of _ ?h] exI[of _ c] exI[of _ ?S] exI[of _ ?R]) (simp add: in_contact_def)
  qed
qed

section \<open>Any order\<close>

fun ratchet_send_all :: "crates \<Rightarrow> bytes \<Rightarrow> bytes list \<Rightarrow> ratchet_state \<Rightarrow> (failure + message_header \<times> bytes) list" where
  "ratchet_send_all P aad [] s = []"
| "ratchet_send_all P aad (p # ps) s = (case ratchet_encrypt P p aad s of (r, s) \<Rightarrow> r # ratchet_send_all P aad ps s)"

text \<open>The messages of a list of positions, as they arrive; each is opened with a seed of its own.\<close>

fun ratchet_receive_all ::
    "crates \<Rightarrow> bytes \<Rightarrow> (failure + message_header \<times> bytes) list \<Rightarrow> (nat \<times> nat) list \<Rightarrow> ratchet_state \<Rightarrow> (failure + bytes) list" where
  "ratchet_receive_all P aad msgs [] s = []"
| "ratchet_receive_all P aad msgs ((seed, i) # is) s =
     (case msgs ! i of
        Inl e \<Rightarrow> Inl e # ratchet_receive_all P aad msgs is s
      | Inr (h, c) \<Rightarrow> (case ratchet_decrypt P seed h c aad s of (r, s) \<Rightarrow> r # ratchet_receive_all P aad msgs is s))"

lemma ratchet_send_all_length [simp]: "length (ratchet_send_all P aad ps s) = length ps"
  by (induction ps arbitrary: s) (auto split: prod.split)

lemma ratchet_sent:
  assumes "crate_laws P" "r_cks S = Some ck" "i < length ps"
  shows "\<exists>c. ratchet_send_all P aad ps S ! i = Inr (\<lparr>h_dh = ratchet_public P S, h_pn = r_pn S, h_n = r_ns S + word_of_nat i\<rparr>, c)
    \<and> decrypt_with_mk P (mk_at P ck i) \<lparr>h_dh = ratchet_public P S, h_pn = r_pn S, h_n = r_ns S + word_of_nat i\<rparr> c aad = Inr (ps ! i)"
  using assms(2,3)
proof (induction ps arbitrary: S ck i)
  case (Cons p ps)
  obtain c where c: "ratchet_encrypt P p aad S = (Inr (\<lparr>h_dh = ratchet_public P S, h_pn = r_pn S, h_n = r_ns S\<rparr>, c),
      S\<lparr>r_cks := Some (ck_at P ck 1), r_ns := r_ns S + 1\<rparr>)"
    "decrypt_with_mk P (mk_at P ck 0) \<lparr>h_dh = ratchet_public P S, h_pn = r_pn S, h_n = r_ns S\<rparr> c aad = Inr p"
    by (rule encrypt_ok[OF assms(1) Cons.prems(1)])
  show ?case
  proof (cases i)
    case 0
    then show ?thesis using c by simp
  next
    case (Suc j)
    then show ?thesis
      using Cons.IH[of "S\<lparr>r_cks := Some (ck_at P ck 1), r_ns := r_ns S + 1\<rparr>" "ck_at P ck 1" j] Cons.prems(2) c(1) mk_at_add[of P ck 1 j]
      by (simp add: add.assoc)
  qed
qed simp

lemma received_following:
  assumes "crate_laws P" "r_cks S = Some ck" "follows P (ratchet_public P S) ck (unat (r_ns S)) seen R"
    "distinct (map snd is)" "\<forall>i \<in> set (map snd is). i < length ps \<and> r_ns S + word_of_nat i \<notin> seen"
    "unat (r_ns S) + length ps < 2 ^ 32" "length ps \<le> 1001"
  shows "ratchet_receive_all P aad (ratchet_send_all P aad ps S) is R = map (\<lambda>(seed, i). Inr (ps ! i)) is"
  using assms(3-5)
proof (induction "is" arbitrary: seen R)
  case (Cons x "is")
  obtain seed i where x: "x = (seed, i)" by (cases x)
  let ?h = "\<lparr>h_dh = ratchet_public P S, h_pn = r_pn S, h_n = r_ns S + word_of_nat i\<rparr>"
  have i: "i < length ps" using Cons.prems(3) x by simp
  obtain c where c: "ratchet_send_all P aad ps S ! i = Inr (?h, c)" "decrypt_with_mk P (mk_at P ck i) ?h c aad = Inr (ps ! i)"
    using ratchet_sent[OF assms(1,2) i] by blast
  have num: "unat (r_ns S + word_of_nat j) = unat (r_ns S) + j" if "j < length ps" for j
    using assms(6) that by (simp add: unat_word_ariths unsigned_of_nat take_bit_nat_eq_self)
  obtain R' where R': "ratchet_decrypt P seed ?h c aad R = (decrypt_with_mk P (mk_at P ck (unat (h_n ?h) - unat (r_ns S))) ?h c aad, R')"
    "follows P (ratchet_public P S) ck (unat (r_ns S)) (insert (h_n ?h) seen) R'"
    using receive_any[OF Cons.prems(1), of ?h seed c aad] num[OF i] i assms(6,7) Cons.prems(3) x by auto
  have "\<forall>j \<in> set (map snd is). j < length ps \<and> r_ns S + word_of_nat j \<notin> insert (h_n ?h) seen"
  proof
    fix j assume j: "j \<in> set (map snd is)"
    then have "j < length ps" "j \<noteq> i" "r_ns S + word_of_nat j \<notin> seen" using Cons.prems(2,3) x by auto
    moreover have "r_ns S + word_of_nat j \<noteq> r_ns S + word_of_nat i" using num[OF i] num[OF \<open>j < length ps\<close>] \<open>j \<noteq> i\<close> by (metis add_left_cancel)
    ultimately show "j < length ps \<and> r_ns S + word_of_nat j \<notin> insert (h_n ?h) seen" by simp
  qed
  then show ?case using Cons.IH[OF R'(2)] Cons.prems(2) R'(1) c num[OF i] x by simp
qed simp

text \<open>C9. Messages of a ratchet chain arrive in any order.  A sender in contact with the receiver encrypts up to 1001 messages; whichever of
  them arrive, in whatever order and each once, each is decrypted to its own plaintext, also when the first to arrive causes the DH
  ratchet step and messages before it are still under way.\<close>

theorem ratchet_any_order:
  assumes "crate_laws P" "turned P S R \<or> chained P S R" "\<forall>n. map_of (mkskipped R) (ratchet_public P S, n) = None"
    "distinct (map snd is)" "\<forall>i \<in> set (map snd is). i < length ps" "unat (r_ns S) + length ps < 2 ^ 32" "length ps \<le> 1001"
  shows "ratchet_receive_all P aad (ratchet_send_all P aad ps S) is R = map (\<lambda>(seed, i). Inr (ps ! i)) is"
proof -
  obtain ck where ck: "r_cks S = Some ck" using assms(2) by (auto simp: turned_def chained_def)
  note following = received_following[OF assms(1) ck _ assms(4) _ assms(6,7), of "{}"]
  show ?thesis
  proof (cases "chained P S R")
    case True
    then have "follows P (ratchet_public P S) ck (unat (r_ns S)) {} R" using ck assms(3) by (auto simp: follows_def chained_def word_less_nat_alt)
    then show ?thesis using following assms(5) by simp
  next
    case False
    then have t: "turned P S R" using assms(2) by blast
    show ?thesis
    proof (cases "is")
      case (Cons x is')
      obtain seed i where x: "x = (seed, i)" by (cases x)
      let ?h = "\<lparr>h_dh = ratchet_public P S, h_pn = r_pn S, h_n = r_ns S + word_of_nat i\<rparr>"
      obtain c where c: "ratchet_send_all P aad ps S ! i = Inr (?h, c)"
        using ratchet_sent[OF assms(1) ck, of i ps aad] assms(5) Cons x by auto
      have new: "map_of (mkskipped R) (ratchet_public P S, h_n ?h) = None" using assms(3) by blast
      obtain s1 where s1: "ratchet_decrypt P seed ?h c aad R = decrypt_in_chain P ?h c aad s1" "r_dhr s1 = Some (ratchet_public P S)"
        "r_ckr s1 = Some ck" "r_nr s1 = 0" "mkskipped s1 = mkskipped R"
        using turned_decrypt[OF assms(1) t new _ _ ck, of seed c aad] by auto
      have "ratchet_decrypt P seed ?h c aad s1 = decrypt_in_chain P ?h c aad s1" using s1 assms(3) by (simp add: ratchet_decrypt_def)
      then have "ratchet_receive_all P aad (ratchet_send_all P aad ps S) is R = ratchet_receive_all P aad (ratchet_send_all P aad ps S) is s1"
        using Cons x c s1(1) by simp
      moreover have "follows P (ratchet_public P S) ck (unat (r_ns S)) {} s1" using t s1 assms(3) by (simp add: follows_def turned_def)
      ultimately show ?thesis using following assms(5) by simp
    qed simp
  qed
qed

section \<open>Too large a gap\<close>

text \<open>No peer can make a session buffer more than 1000 keys per chain step: a message whose number is further ahead is refused before
  any key is derived, and one call adds at most as many entries as it skips.\<close>

theorem skip_bounded:
  "(unat until > unat (r_nr s) + 1000 \<longrightarrow> skip_message_keys P until s = (Inl (Err SkipLimitExceeded), s))
   \<and> length (mkskipped (snd (skip_message_keys P until s))) \<le> length (mkskipped s) + 1000"
proof -
  have far: "saturating_add (r_nr s) MAX_SKIP < until" if "unat until > unat (r_nr s) + 1000"
    using that u32_bounds[of until] by (simp add: saturating_add_def word_less_nat_alt max_skip unat_word_ariths MAX_SKIP_def)
  have near: "length (mkskipped (snd (skip_message_keys P until s))) \<le> length (mkskipped s) + 1000"
    if "\<not> until \<le> r_nr s" "unat until \<le> unat (r_nr s) + 1000"
  proof (cases "\<exists>ck d. r_ckr s = Some ck \<and> r_dhr s = Some d")
    case True
    then obtain ck d where "r_ckr s = Some ck" "r_dhr s = Some d" by blast
    moreover have "unat (r_nr s) + (unat until - unat (r_nr s)) = unat until" using that(1) by (simp add: word_le_nat_alt)
    from skip_loop_result[OF this inj_pair, of P d ck "mkskipped s"] obtain a b m' where m': "skip_loop P (Pair d) until ck (r_nr s) (mkskipped s) = (a, b, m')"
      "length m' \<le> length (mkskipped s) + (unat until - unat (r_nr s))"
      by blast
    moreover have "length m' \<le> length (mkskipped s) + 1000" using m'(2) that(2) by linarith
    ultimately show ?thesis using that by (simp add: skip_message_keys_def)
  qed (auto simp: skip_message_keys_def split: option.split)
  have "\<not> until \<le> r_nr s" if "unat until > unat (r_nr s) + 1000" using that by (simp add: word_le_nat_alt)
  moreover have "length (mkskipped (snd (skip_message_keys P until s))) \<le> length (mkskipped s) + 1000" if "until \<le> r_nr s"
    using that by (simp add: skip_none)
  ultimately show ?thesis using far near by (fastforce simp: skip_message_keys_def)
qed

section \<open>Concrete sessions\<close>

lemma byte_key: "x < 256 \<Longrightarrow> sized 32 (replicate 32 x)"
  by (simp add: sized_def)

lemma toy_pair:
  obtains S where "turned toy_crates S (init_receiver (replicate 32 7) (replicate 32 9))" "r_ns S = 0" "ratchet_ok S" "mkskipped S = []"
    "ratchet_ok (init_receiver (replicate 32 7) (replicate 32 9))" "mkskipped (init_receiver (replicate 32 7) (replicate 32 9)) = []"
proof -
  have k: "sized 32 (replicate 32 7)" "sized 32 (replicate 32 9)" by (simp_all add: byte_key)
  obtain S where "turned toy_crates S (init_receiver (replicate 32 7) (replicate 32 9))" "ratchet_ok S" "mkskipped S = []"
    "ratchet_ok (init_receiver (replicate 32 7) (replicate 32 9))"
    using init_contact[OF toy_crate_laws k, of 5] by blast
  then show thesis using that by (auto simp: turned_def init_receiver_def)
qed

theorem ratchet_stored_witness:
  "ratchet_from_bytes (ratchet_to_bytes (init_receiver (replicate 32 7) (replicate 32 9))) = Inr (init_receiver (replicate 32 7) (replicate 32 9))"
  by (rule ratchet_stored) (rule toy_pair)

theorem contact_kept_witness:
  "\<exists>S R h c S' R'. ratchet_encrypt toy_crates [104] [] S = (Inr (h, c), S') \<and> ratchet_decrypt toy_crates 6 h c [] R = (Inr [104], R')
     \<and> in_contact toy_crates S' R' \<and> in_contact toy_crates R' S'"
proof -
  let ?R = "init_receiver (replicate 32 7) (replicate 32 9)"
  obtain S where S: "turned toy_crates S ?R" "ratchet_ok S" "mkskipped S = []" "ratchet_ok ?R" "mkskipped ?R = []" by (rule toy_pair)
  have "agreement_public_key toy_crates (agreement_generate toy_crates ForRatchet 6) ! 1 \<noteq> ratchet_public toy_crates ?R ! 1"
    by (simp add: agreement_public_key_def agreement_generate_def toy_crates_def init_receiver_def filled_def)
  then have "agreement_public_key toy_crates (agreement_generate toy_crates ForRatchet 6) \<noteq> ratchet_public toy_crates ?R" by metis
  then show ?thesis
    using contact_kept[OF toy_crate_laws _ S(2,4,3,5), of "[104]" "[]" 6] S(1) unfolding in_contact_def by blast
qed

theorem ratchet_any_order_witness:
  "\<exists>S R. ratchet_receive_all toy_crates [] (ratchet_send_all toy_crates [] [[104], [105], [106]] S) [(3, 2), (4, 0), (5, 1)] R
     = [Inr [106], Inr [104], Inr [105]]"
proof -
  let ?R = "init_receiver (replicate 32 7) (replicate 32 9)"
  obtain S where "turned toy_crates S ?R" "r_ns S = 0" by (rule toy_pair)
  then have "ratchet_receive_all toy_crates [] (ratchet_send_all toy_crates [] [[104], [105], [106]] S) [(3, 2), (4, 0), (5, 1)] ?R
     = [Inr [106], Inr [104], Inr [105]]"
    using ratchet_any_order[OF toy_crate_laws, of S ?R "[(3, 2), (4, 0), (5, 1)]" "[[104], [105], [106]]" "[]"]
    by (simp add: init_receiver_def)
  then show ?thesis by blast
qed

theorem skip_bounded_witness:
  "skip_message_keys toy_crates 1001 (init_receiver (replicate 32 7) (replicate 32 9))
   = (Inl (Err SkipLimitExceeded), init_receiver (replicate 32 7) (replicate 32 9))"
  using skip_bounded[of "init_receiver (replicate 32 7) (replicate 32 9)" 1001 toy_crates] by (simp add: init_receiver_def)

end
