(* ===== verification/RustGroup.thy ===== *)
theory RustGroup
  imports RustRatchetProps
begin

text \<open>
  Sender keys of groups, \<open>crypto/core/src/group/sender_key.rs\<close>, \<open>distribution.rs\<close> and \<open>mod.rs\<close>: the states of the sender and of a receiver,
  the distribution message, encryption with a signature, decryption, and the stored forms; with what a receiver reads.
\<close>

definition GROUP_MAX_SKIP :: u32 where "GROUP_MAX_SKIP = 2000"

section \<open>The sender\<close>

record sender_state =
  s_key_id :: u32
  s_iteration :: u32
  s_chain_key :: bytes
  s_signing_key :: bytes

text \<open>\<open>advance\<close> is the step of the symmetric ratchet, \<open>kdf_ck\<close>.\<close>

definition iteration_nonce :: "u32 \<Rightarrow> bytes" where
  "iteration_nonce n = be32 n @ replicate 8 0"

definition sender_generate :: "crates \<Rightarrow> nat \<Rightarrow> sender_state" where
  "sender_generate P seed =
     \<lparr>s_key_id = u32_be (os_random P ForKeyId seed 4), s_iteration = 0, s_chain_key = os_random P ForChain seed 32,
      s_signing_key = identity_generate P ForSenderKey seed\<rparr>"

definition next_message_key :: "crates \<Rightarrow> sender_state \<Rightarrow> (bytes \<times> bytes) \<times> sender_state" where
  "next_message_key P s =
     (let nonce = iteration_nonce (s_iteration s); (new_ck, mk) = kdf_ck P (s_chain_key s)
      in ((mk, nonce), s\<lparr>s_chain_key := new_ck, s_iteration := s_iteration s + 1\<rparr>))"

definition sender_to_bytes :: "sender_state \<Rightarrow> bytes" where
  "sender_to_bytes s = [1] @ be32 (s_key_id s) @ be32 (s_iteration s) @ s_chain_key s @ s_signing_key s"

definition sender_from_bytes :: "bytes \<Rightarrow> failure + sender_state" where
  "sender_from_bytes data =
     rbind (read_u8 data) (\<lambda>(v, p). if v \<noteq> 1 then Inl (Err InvalidCiphertext) else
     rbind (read_u32 p) (\<lambda>(key_id, p). rbind (read_u32 p) (\<lambda>(it, p). rbind (read_fixed 32 p) (\<lambda>(ck, p).
     rbind (read_fixed 32 p) (\<lambda>(seed, p).
       Inr \<lparr>s_key_id = key_id, s_iteration = it, s_chain_key = ck, s_signing_key = seed\<rparr>)))))"

section \<open>A receiver\<close>

record receiver_state =
  v_key_id :: u32
  v_iteration :: u32
  v_chain_key :: bytes
  v_signing_pub :: bytes
  v_skipped :: "(u32 \<times> bytes) list"

definition message_key_for :: "crates \<Rightarrow> u32 \<Rightarrow> receiver_state \<Rightarrow> (failure + bytes) \<times> receiver_state" where
  "message_key_for P target s =
     (case map_of (v_skipped s) target of
        Some mk \<Rightarrow> (Inr mk, s\<lparr>v_skipped := bt_remove target (v_skipped s)\<rparr>)
      | None \<Rightarrow>
          if target < v_iteration s then (Inl (Err DecryptionFailed), s)
          else if target - v_iteration s > GROUP_MAX_SKIP then (Inl (Err SkipLimitExceeded), s)
          else (case skip_loop P (\<lambda>n. n) target (v_chain_key s) (v_iteration s) (v_skipped s) of
                  (ck, it, m) \<Rightarrow>
                    (case kdf_ck P ck of
                       (new_ck, mk) \<Rightarrow> (Inr mk, s\<lparr>v_chain_key := new_ck, v_iteration := it + 1, v_skipped := m\<rparr>))))"

definition receiver_to_bytes :: "receiver_state \<Rightarrow> bytes" where
  "receiver_to_bytes s =
     [1] @ be32 (v_key_id s) @ be32 (v_iteration s) @ v_chain_key s @ v_signing_pub s @ be32 (word_of_nat (length (v_skipped s)))
     @ concat (map (\<lambda>(iter, mk). be32 iter @ mk) (v_skipped s))"

fun read_group_skipped :: "nat \<Rightarrow> bytes \<Rightarrow> (u32 \<times> bytes) list \<Rightarrow> failure + (u32 \<times> bytes) list" where
  "read_group_skipped 0 p m = Inr m"
| "read_group_skipped (Suc count) p m =
     rbind (read_u32 p) (\<lambda>(iter, p). rbind (read_fixed 32 p) (\<lambda>(mk, p). read_group_skipped count p (bt_insert iter mk m)))"

definition receiver_from_bytes :: "bytes \<Rightarrow> failure + receiver_state" where
  "receiver_from_bytes data =
     rbind (read_u8 data) (\<lambda>(v, p). if v \<noteq> 1 then Inl (Err InvalidCiphertext) else
     rbind (read_u32 p) (\<lambda>(key_id, p). rbind (read_u32 p) (\<lambda>(it, p). rbind (read_fixed 32 p) (\<lambda>(ck, p).
     rbind (read_fixed 32 p) (\<lambda>(pub, p). rbind (read_u32 p) (\<lambda>(count, p). rbind (read_group_skipped (unat count) p []) (\<lambda>m.
       Inr \<lparr>v_key_id = key_id, v_iteration = it, v_chain_key = ck, v_signing_pub = pub, v_skipped = m\<rparr>)))))))"

section \<open>Distribution\<close>

record distribution_message =
  d_key_id :: u32
  d_iteration :: u32
  d_chain_key :: bytes
  d_signing_pub :: bytes

definition create_distribution_message :: "crates \<Rightarrow> sender_state \<Rightarrow> distribution_message" where
  "create_distribution_message P s =
     \<lparr>d_key_id = s_key_id s, d_iteration = s_iteration s, d_chain_key = s_chain_key s, d_signing_pub = identity_public_key P (s_signing_key s)\<rparr>"

definition process_distribution_message :: "distribution_message \<Rightarrow> receiver_state" where
  "process_distribution_message d =
     \<lparr>v_key_id = d_key_id d, v_iteration = d_iteration d, v_chain_key = d_chain_key d, v_signing_pub = d_signing_pub d, v_skipped = []\<rparr>"

section \<open>Messages\<close>

record sender_key_message =
  g_key_id :: u32
  g_iteration :: u32
  g_ciphertext :: bytes
  g_signature :: bytes

definition message_aad :: "u32 \<Rightarrow> u32 \<Rightarrow> bytes" where
  "message_aad key_id iteration = be32 key_id @ be32 iteration"

definition signed_payload :: "u32 \<Rightarrow> u32 \<Rightarrow> bytes \<Rightarrow> bytes" where
  "signed_payload key_id iteration ciphertext = be32 key_id @ be32 iteration @ ciphertext"

definition group_encrypt :: "crates \<Rightarrow> bytes \<Rightarrow> sender_state \<Rightarrow> (failure + sender_key_message) \<times> sender_state" where
  "group_encrypt P plaintext s =
     (let key_id = s_key_id s; iteration = s_iteration s
      in case next_message_key P s of
           ((mk, nonce), s) \<Rightarrow>
             (rbind (aead_encrypt P mk nonce plaintext (message_aad key_id iteration)) (\<lambda>c.
                Inr \<lparr>g_key_id = key_id, g_iteration = iteration, g_ciphertext = c,
                  g_signature = identity_sign P (s_signing_key s) (signed_payload key_id iteration c)\<rparr>), s))"

definition group_decrypt :: "crates \<Rightarrow> sender_key_message \<Rightarrow> receiver_state \<Rightarrow> (failure + bytes) \<times> receiver_state" where
  "group_decrypt P m s =
     (case identity_verify P (v_signing_pub s) (signed_payload (g_key_id m) (g_iteration m) (g_ciphertext m)) (g_signature m) of
        Inl e \<Rightarrow> (Inl e, s)
      | Inr _ \<Rightarrow>
          (case message_key_for P (g_iteration m) s of
             (Inl e, s) \<Rightarrow> (Inl e, s)
           | (Inr mk, s) \<Rightarrow>
               (aead_decrypt P mk (iteration_nonce (g_iteration m)) (g_ciphertext m) (message_aad (g_key_id m) (g_iteration m)), s)))"

section \<open>Stored states\<close>

definition sender_ok :: "sender_state \<Rightarrow> bool" where
  "sender_ok s \<longleftrightarrow> sized 32 (s_chain_key s) \<and> sized 32 (s_signing_key s)"

definition receiver_ok :: "receiver_state \<Rightarrow> bool" where
  "receiver_ok s \<longleftrightarrow> sized 32 (v_chain_key s) \<and> sized 32 (v_signing_pub s) \<and> bt_ok (v_skipped s) \<and> length (v_skipped s) < 2 ^ 32
     \<and> list_all (\<lambda>(n, mk). length mk = 32) (v_skipped s)"

lemma sender_stored: "sender_ok s \<Longrightarrow> sender_from_bytes (sender_to_bytes s) = Inr s"
  using read_written(1)[of "s_signing_key s" 32 "[]"] by (simp add: sender_ok_def sender_from_bytes_def sender_to_bytes_def sized_def)

lemma read_group_skipped_written:
  assumes "bt_ok (m0 @ m)" "list_all (\<lambda>(n, mk). length mk = 32) m"
  shows "read_group_skipped (length m) (concat (map (\<lambda>(iter, mk). be32 iter @ mk) m)) m0 = Inr (m0 @ m)"
  using assms
proof (induction m arbitrary: m0)
  case (Cons e m)
  obtain n mk where e: "e = (n, mk)" by (cases e)
  have "bt_insert n mk m0 = m0 @ [e]"
    using Cons.prems(1) unfolding e by (intro bt_insert_last) (auto simp: bt_ok_def sorted_wrt_append)
  then show ?case using Cons e by simp
qed simp

lemma receiver_stored: "receiver_ok s \<Longrightarrow> receiver_from_bytes (receiver_to_bytes s) = Inr s"
  using read_group_skipped_written[of "[]" "v_skipped s"] unat_count
  by (simp add: receiver_ok_def receiver_from_bytes_def receiver_to_bytes_def sized_def)

section \<open>What a receiver reads\<close>

text \<open>The receiver follows the chain that starts with \<open>ck\<close> at message \<open>n0\<close>, of the sender with public signing key \<open>pub\<close>.\<close>

definition group_follows :: "crates \<Rightarrow> bytes \<Rightarrow> bytes \<Rightarrow> nat \<Rightarrow> u32 set \<Rightarrow> receiver_state \<Rightarrow> bool" where
  "group_follows P pub ck n0 seen s \<longleftrightarrow>
     v_signing_pub s = pub \<and> n0 \<le> unat (v_iteration s) \<and> v_chain_key s = ck_at P ck (unat (v_iteration s) - n0)
     \<and> (\<forall>n. map_of (v_skipped s) n = (if n0 \<le> unat n \<and> n < v_iteration s \<and> n \<notin> seen then Some (mk_at P ck (unat n - n0)) else None))
     \<and> (\<forall>n \<in> seen. n < v_iteration s)"

lemma key_in_chain:
  assumes "group_follows P pub ck n0 seen s" "v_iteration s \<le> n" "unat n \<le> n0 + 2000" "unat n + 1 < 2 ^ 32"
  shows "\<exists>s'. message_key_for P n s = (Inr (mk_at P ck (unat n - n0)), s') \<and> group_follows P pub ck n0 (insert n seen) s'"
proof -
  let ?it = "v_iteration s" let ?ck = "ck_at P ck (unat ?it - n0)"
  have f: "v_signing_pub s = pub" "n0 \<le> unat ?it" "v_chain_key s = ?ck" "\<forall>n \<in> seen. n < ?it"
    "\<And>n. map_of (v_skipped s) n = (if n0 \<le> unat n \<and> n < ?it \<and> n \<notin> seen then Some (mk_at P ck (unat n - n0)) else None)"
    using assms(1) by (simp_all add: group_follows_def)
  have le: "unat ?it \<le> unat n" using assms(2) by (simp add: word_le_nat_alt)
  then have sum: "unat ?it + (unat n - unat ?it) = unat n" by simp
  have suc: "unat (n + 1) = Suc (unat n)" using assms(4) by (simp add: unat_word_ariths)
  have "unat (n - ?it) = unat n - unat ?it" using assms(2) by (simp add: unat_sub)
  then have gap: "\<not> n - ?it > GROUP_MAX_SKIP" "\<not> n < ?it" "map_of (v_skipped s) n = None"
    using assms(2,3) f(2,5) le by (simp_all add: GROUP_MAX_SKIP_def word_less_nat_alt)
  have "inj (\<lambda>n :: u32. n)" by (simp add: inj_def)
  from skip_loop_result[OF sum this, of P ?ck "v_skipped s"] obtain m'
    where m': "skip_loop P (\<lambda>n. n) n ?ck ?it (v_skipped s) = (ck_at P ?ck (unat n - unat ?it), n, m')"
      "\<And>i. map_of m' i = (if ?it \<le> i \<and> i < n then Some (mk_at P ?ck (unat i - unat ?it)) else map_of (v_skipped s) i)" by blast
  have at: "ck_at P ?ck (unat n - unat ?it) = ck_at P ck (unat n - n0)" "\<And>i. ?it \<le> i \<Longrightarrow> mk_at P ?ck (unat i - unat ?it) = mk_at P ck (unat i - n0)"
    using ck_at_add mk_at_add f(2) le by (simp_all add: word_le_nat_alt)
  let ?s = "s\<lparr>v_chain_key := ck_at P ck (Suc (unat n - n0)), v_iteration := n + 1, v_skipped := m'\<rparr>"
  have "message_key_for P n s = (Inr (mk_at P ck (unat n - n0)), ?s)"
    using gap m'(1) f(3) at(1) by (simp add: message_key_for_def mk_at_def case_prod_beta)
  moreover have "map_of m' i = (if n0 \<le> unat i \<and> i < n + 1 \<and> i \<notin> insert n seen then Some (mk_at P ck (unat i - n0)) else None)" for i
  proof (cases "?it \<le> i \<and> i < n")
    case True
    then have "i \<notin> insert n seen" "i < n + 1" "n0 \<le> unat i" using f(2,4) suc by (auto simp: word_less_nat_alt word_le_nat_alt)
    then show ?thesis using True m'(2) at(2) by simp
  next
    case False
    have "i < n + 1 \<and> i \<notin> insert n seen \<longleftrightarrow> i < ?it \<and> i \<notin> seen"
      using False suc assms(2) f(4) by (auto simp: word_less_nat_alt word_le_nat_alt less_Suc_eq word_unat_eq_iff)
    then show ?thesis using False m'(2)[of i] f(5)[of i] by auto
  qed
  moreover have "\<forall>i \<in> insert n seen. i < n + 1" using f(4) suc le by (auto simp: word_less_nat_alt)
  ultimately show ?thesis using f(1,2) suc le by (intro exI[of _ ?s]) (simp add: group_follows_def Suc_diff_le)
qed

lemma key_any:
  assumes "group_follows P pub ck n0 seen s" "n0 \<le> unat n" "unat n \<le> n0 + 2000" "unat n + 1 < 2 ^ 32" "n \<notin> seen"
  shows "\<exists>s'. message_key_for P n s = (Inr (mk_at P ck (unat n - n0)), s') \<and> group_follows P pub ck n0 (insert n seen) s'"
proof (cases "n < v_iteration s")
  case True
  let ?s = "s\<lparr>v_skipped := bt_remove n (v_skipped s)\<rparr>"
  have "map_of (v_skipped s) n = Some (mk_at P ck (unat n - n0))" using assms(1,2,5) True by (simp add: group_follows_def)
  moreover have "group_follows P pub ck n0 (insert n seen) ?s" using assms(1) True by (auto simp: group_follows_def)
  ultimately show ?thesis by (intro exI[of _ ?s]) (simp add: message_key_for_def)
next
  case False
  then show ?thesis using key_in_chain[OF assms(1) _ assms(3,4)] by simp
qed

text \<open>A message that was read, or that was sent before the receiver was given the key, is refused without touching the state.\<close>

lemma key_refused:
  assumes "group_follows P pub ck n0 seen s" "n \<in> seen \<or> unat n < n0"
  shows "message_key_for P n s = (Inl (Err DecryptionFailed), s)"
proof -
  have "n < v_iteration s" using assms by (auto simp: group_follows_def word_less_nat_alt)
  moreover have "map_of (v_skipped s) n = None" using assms by (auto simp: group_follows_def)
  ultimately show ?thesis by (simp add: message_key_for_def)
qed

section \<open>Conversations in a group\<close>

fun group_send_all :: "crates \<Rightarrow> bytes list \<Rightarrow> sender_state \<Rightarrow> (failure + sender_key_message) list \<times> sender_state" where
  "group_send_all P [] s = ([], s)"
| "group_send_all P (p # ps) s = (case group_encrypt P p s of (r, s) \<Rightarrow> (case group_send_all P ps s of (rs, s) \<Rightarrow> (r # rs, s)))"

fun group_receive_all :: "crates \<Rightarrow> (failure + sender_key_message) list \<Rightarrow> nat list \<Rightarrow> receiver_state \<Rightarrow> (failure + bytes) list" where
  "group_receive_all P msgs [] s = []"
| "group_receive_all P msgs (i # is) s =
     (case msgs ! i of
        Inl e \<Rightarrow> Inl e # group_receive_all P msgs is s
      | Inr m \<Rightarrow> (case group_decrypt P m s of (r, s) \<Rightarrow> r # group_receive_all P msgs is s))"

text \<open>What a member should read who was given the key after \<open>k\<close> messages: each message once, and none from before.\<close>

fun group_read :: "bytes list \<Rightarrow> nat \<Rightarrow> nat set \<Rightarrow> nat list \<Rightarrow> (failure + bytes) list" where
  "group_read ps k seen [] = []"
| "group_read ps k seen (i # is) =
     (if i \<in> seen \<or> i < k then Inl (Err DecryptionFailed) else Inr (ps ! i)) # group_read ps k (insert i seen) is"

lemma iteration_nonce_length [simp]: "length (iteration_nonce n) = 12"
  by (simp add: iteration_nonce_def)

text \<open>A message as its receiver needs it: signed by the sender, and sealed under the key of its number.\<close>

definition good_message :: "crates \<Rightarrow> sender_state \<Rightarrow> u32 \<Rightarrow> bytes \<Rightarrow> bytes \<Rightarrow> sender_key_message \<Rightarrow> bool" where
  "good_message P s n mk p m \<longleftrightarrow> g_iteration m = n
     \<and> identity_verify P (identity_public_key P (s_signing_key s)) (signed_payload (g_key_id m) (g_iteration m) (g_ciphertext m)) (g_signature m) = Inr ()
     \<and> aead_decrypt P mk (iteration_nonce n) (g_ciphertext m) (message_aad (g_key_id m) n) = Inr p"

lemma group_encrypt_ok:
  assumes "crate_laws P" "sized 32 (s_signing_key s)"
  obtains m where "group_encrypt P p s = (Inr m, s\<lparr>s_chain_key := ck_at P (s_chain_key s) 1, s_iteration := s_iteration s + 1\<rparr>)"
    "good_message P s (s_iteration s) (mk_at P (s_chain_key s) 0) p m" "is_bytes p \<longrightarrow> is_bytes (g_ciphertext m)" "sized 64 (g_signature m)"
proof -
  obtain c where c: "aead_encrypt P (mk_at P (s_chain_key s) 0) (iteration_nonce (s_iteration s)) p (message_aad (s_key_id s) (s_iteration s)) = Inr c"
    "is_bytes p \<longrightarrow> is_bytes c"
    "aead_decrypt P (mk_at P (s_chain_key s) 0) (iteration_nonce (s_iteration s)) c (message_aad (s_key_id s) (s_iteration s)) = Inr p"
    using aead_roundtrip[OF assms(1) mk_sized[OF assms(1)] iteration_nonce_length] by metis
  let ?m = "\<lparr>g_key_id = s_key_id s, g_iteration = s_iteration s, g_ciphertext = c,
      g_signature = identity_sign P (s_signing_key s) (signed_payload (s_key_id s) (s_iteration s) c)\<rparr>"
  show thesis
    by (rule that[of ?m]) (use c signed_verifies[OF assms] crate_keys(4)[OF assms] in
      \<open>simp_all add: group_encrypt_def next_message_key_def good_message_def identity_sign_def mk_at_def case_prod_beta Let_def\<close>)
qed

lemma group_sent:
  assumes "crate_laws P" "sized 32 (s_signing_key s)"
  shows "snd (group_send_all P ps s) = s\<lparr>s_chain_key := ck_at P (s_chain_key s) (length ps), s_iteration := s_iteration s + word_of_nat (length ps)\<rparr>
    \<and> (\<forall>i < length ps. \<exists>m. fst (group_send_all P ps s) ! i = Inr m
         \<and> good_message P s (s_iteration s + word_of_nat i) (mk_at P (s_chain_key s) i) (ps ! i) m)"
  using assms(2)
proof (induction ps arbitrary: s)
  case (Cons p ps)
  let ?s = "s\<lparr>s_chain_key := ck_at P (s_chain_key s) 1, s_iteration := s_iteration s + 1\<rparr>"
  obtain m where m: "group_encrypt P p s = (Inr m, ?s)" "good_message P s (s_iteration s) (mk_at P (s_chain_key s) 0) p m"
    by (rule group_encrypt_ok[OF assms(1) Cons.prems])
  have good: "good_message P ?s n k q x \<longleftrightarrow> good_message P s n k q x" for n k q x by (simp add: good_message_def)
  note IH = Cons.IH[of ?s, unfolded good]
  have "\<exists>m. fst (group_send_all P (p # ps) s) ! i = Inr m
      \<and> good_message P s (s_iteration s + word_of_nat i) (mk_at P (s_chain_key s) i) ((p # ps) ! i) m" if i: "i < Suc (length ps)" for i
  proof (cases i)
    case 0
    then show ?thesis using m by (simp split: prod.split)
  next
    case (Suc j)
    then show ?thesis using IH Cons.prems m(1) i mk_at_add[of P "s_chain_key s" 1 j] by (auto simp: add.assoc split: prod.split)
  qed
  moreover have "snd (group_send_all P (p # ps) s) = snd (group_send_all P ps ?s)" using m(1) by (simp split: prod.split)
  ultimately show ?case using IH Cons.prems ck_at_add[of P "s_chain_key s" 1 "length ps"] by (simp add: add.assoc)
qed simp

lemma group_received:
  assumes "crate_laws P" "sized 32 (s_signing_key s)" "unat (s_iteration s) + length ps < 2 ^ 32" "length ps \<le> k + 2001"
    "group_follows P (identity_public_key P (s_signing_key s)) (ck_at P (s_chain_key s) k) (unat (s_iteration s) + k)
       ((\<lambda>i. s_iteration s + word_of_nat i) ` {i. i \<in> seen \<and> k \<le> i \<and> i < length ps}) r" "\<forall>i \<in> set is. i < length ps"
  shows "group_receive_all P (fst (group_send_all P ps s)) is r = group_read ps k seen is"
  using assms(5,6)
proof (induction "is" arbitrary: seen r)
  case (Cons i "is")
  let ?n = "\<lambda>i. s_iteration s + word_of_nat i" and ?seen = "\<lambda>s. {i. i \<in> s \<and> k \<le> i \<and> i < length ps}"
  have i: "i < length ps" using Cons.prems(2) by simp
  obtain m where m: "fst (group_send_all P ps s) ! i = Inr m" "good_message P s (?n i) (mk_at P (s_chain_key s) i) (ps ! i) m"
    using group_sent[OF assms(1,2), of ps] i by blast
  have num: "unat (?n j) = unat (s_iteration s) + j" if "j < length ps" for j
    using assms(3) that by (simp add: unat_word_ariths unsigned_of_nat take_bit_nat_eq_self)
  have inj: "?n j = ?n j' \<longleftrightarrow> j = j'" if "j < length ps" "j' < length ps" for j j' using num that by (metis add_left_cancel)
  have pub: "v_signing_pub r = identity_public_key P (s_signing_key s)" using Cons.prems(1) by (simp add: group_follows_def)
  have verified: "group_decrypt P m r = (case message_key_for P (?n i) r of (Inl e, r) \<Rightarrow> (Inl e, r)
      | (Inr mk, r) \<Rightarrow> (aead_decrypt P mk (iteration_nonce (?n i)) (g_ciphertext m) (message_aad (g_key_id m) (?n i)), r))"
  proof -
    have "identity_verify P (v_signing_pub r) (signed_payload (g_key_id m) (g_iteration m) (g_ciphertext m)) (g_signature m) = Inr ()"
      and it: "g_iteration m = ?n i" using m(2) unfolding good_message_def pub by blast+
    then show ?thesis unfolding group_decrypt_def it by simp
  qed
  show ?case
  proof (cases "i \<in> seen \<or> i < k")
    case True
    then have "?n i \<in> ?n ` ?seen seen \<or> unat (?n i) < unat (s_iteration s) + k" using i num by fastforce
    from key_refused[OF Cons.prems(1) this] have "group_decrypt P m r = (Inl (Err DecryptionFailed), r)" unfolding verified by simp
    moreover have "?seen (insert i seen) = ?seen seen" using True by auto
    ultimately show ?thesis using Cons.IH[of "insert i seen" r] Cons.prems m(1) True by simp
  next
    case False
    have "?n i \<notin> ?n ` ?seen seen" using False i inj by auto
    then obtain r' where r': "message_key_for P (?n i) r = (Inr (mk_at P (ck_at P (s_chain_key s) k) (unat (?n i) - (unat (s_iteration s) + k))), r')"
      "group_follows P (identity_public_key P (s_signing_key s)) (ck_at P (s_chain_key s) k) (unat (s_iteration s) + k) (insert (?n i) (?n ` ?seen seen)) r'"
      using key_any[OF Cons.prems(1), of "?n i"] num[OF i] False i assms(3,4) by auto
    have "insert (?n i) (?n ` ?seen seen) = ?n ` ?seen (insert i seen)" using False i by auto
    then have "group_receive_all P (fst (group_send_all P ps s)) is r' = group_read ps k (insert i seen) is"
      using Cons.IH[of "insert i seen" r'] r'(2) Cons.prems(2) by simp
    moreover have "group_decrypt P m r = (Inr (ps ! i), r')"
      unfolding verified r'(1) using m(2) num[OF i] False mk_at_add[of P "s_chain_key s" k "i - k"] by (simp add: good_message_def)
    ultimately show ?thesis using m(1) False by simp
  qed
qed simp

text \<open>C10. What a member of a group reads of a sender.  The sender encrypts any number of messages; a member is given the sender key after
  the first \<open>k\<close>, and messages (at most 2001 after that) arrive in any order, some never and some repeatedly.  Each message sent after
  the key was given is read, exactly as it was sent, when it arrives first; repeated ones, and those from before the key was given, are
  refused as undecipherable.\<close>

theorem group_any_order:
  assumes "crate_laws P" "sender_ok s" "unat (s_iteration s) + length ps < 2 ^ 32" "k \<le> length ps" "length ps \<le> k + 2001" "\<forall>i \<in> set is. i < length ps"
  shows "group_receive_all P (fst (group_send_all P ps s)) is
      (process_distribution_message (create_distribution_message P (snd (group_send_all P (take k ps) s))))
    = group_read ps k {} is"
proof (rule group_received[OF assms(1) _ assms(3,5) _ assms(6)])
  show key: "sized 32 (s_signing_key s)" using assms(2) by (simp add: sender_ok_def)
  have "snd (group_send_all P (take k ps) s) = s\<lparr>s_chain_key := ck_at P (s_chain_key s) k, s_iteration := s_iteration s + word_of_nat k\<rparr>"
    using group_sent[OF assms(1) key, of "take k ps"] assms(4) by (simp add: min_def)
  moreover have "unat (s_iteration s + word_of_nat k) = unat (s_iteration s) + k"
    using assms(3,4) by (simp add: unat_word_ariths unsigned_of_nat take_bit_nat_eq_self)
  ultimately show "group_follows P (identity_public_key P (s_signing_key s)) (ck_at P (s_chain_key s) k) (unat (s_iteration s) + k)
      ((\<lambda>i. s_iteration s + word_of_nat i) ` {i. i \<in> {} \<and> k \<le> i \<and> i < length ps})
      (process_distribution_message (create_distribution_message P (snd (group_send_all P (take k ps) s))))"
    by (auto simp: group_follows_def process_distribution_message_def create_distribution_message_def word_less_nat_alt)
qed

lemma generated_sender: "crate_laws P \<Longrightarrow> sender_ok (sender_generate P seed)"
  using crate_hash(4) generated_sized(2) by (simp add: sender_ok_def sender_generate_def)

theorem group_any_order_witness:
  "\<exists>s. group_receive_all toy_crates (fst (group_send_all toy_crates [[1], [2], [3]] s)) [2, 0, 1, 2]
      (process_distribution_message (create_distribution_message toy_crates (snd (group_send_all toy_crates [[1]] s))))
    = [Inr [3], Inl (Err DecryptionFailed), Inr [2], Inl (Err DecryptionFailed)]"
proof -
  have "unat (s_iteration (sender_generate toy_crates 5)) + 3 < 2 ^ 32" by (simp add: sender_generate_def)
  then show ?thesis
    using group_any_order[OF toy_crate_laws generated_sender[OF toy_crate_laws, of 5], of "[[1], [2], [3]]" 1 "[2, 0, 1, 2]"]
    by (intro exI[of _ "sender_generate toy_crates 5"]) simp
qed

end
