(* ===== verification/RustKeys.thy ===== *)
theory RustKeys
  imports RustPrims
begin

text \<open>
  Key agreement and the protection of keys by a PIN, \<open>crypto/core/src/x3dh.rs\<close> and \<open>crypto/core/src/pin_key.rs\<close>: both sides of X3DH
  derive one secret, and a blob sealed under a PIN is opened by it.
\<close>

section \<open>X3DH\<close>

record x3dh_bundle =
  b_ik_sign :: bytes
  b_ik_dh :: bytes
  b_spk :: bytes
  b_spk_sig :: bytes
  b_opk :: "bytes option"

record x3dh_init =
  i_ik_dh :: bytes
  i_ek :: bytes
  i_opk_used :: bool

text \<open>\<open>F\<close>, \<open>SALT\<close> and \<open>INFO\<close> of the derivation.\<close>

definition derive_sk :: "crates \<Rightarrow> bytes list \<Rightarrow> failure + bytes" where
  "derive_sk P dh_outputs = hkdf P 32 (Some (replicate 32 0)) (replicate 32 255 @ concat dh_outputs) (js ''X3DH'')"

definition x3dh_send :: "crates \<Rightarrow> nat \<Rightarrow> bytes \<Rightarrow> x3dh_bundle \<Rightarrow> failure + bytes \<times> x3dh_init" where
  "x3dh_send P seed our_ik_dh bundle =
     rbind (identity_verify P (b_ik_sign bundle) (b_spk bundle) (b_spk_sig bundle)) (\<lambda>_.
       let ek = agreement_generate P ForEphemeral seed;
           dh1 = diffie_hellman P our_ik_dh (b_spk bundle);
           dh2 = diffie_hellman P ek (b_ik_dh bundle);
           dh3 = diffie_hellman P ek (b_spk bundle)
       in rbind (case b_opk bundle of
                   Some opk \<Rightarrow> derive_sk P [dh1, dh2, dh3, diffie_hellman P ek opk]
                 | None \<Rightarrow> derive_sk P [dh1, dh2, dh3]) (\<lambda>sk.
            Inr (sk, \<lparr>i_ik_dh = agreement_public_key P our_ik_dh, i_ek = agreement_public_key P ek, i_opk_used = (b_opk bundle \<noteq> None)\<rparr>)))"

definition x3dh_receive :: "crates \<Rightarrow> bytes \<Rightarrow> bytes \<Rightarrow> bytes option \<Rightarrow> x3dh_init \<Rightarrow> failure + bytes" where
  "x3dh_receive P our_ik_dh our_spk our_opk init =
     (if i_opk_used init \<noteq> (our_opk \<noteq> None) then Inl (Err InvalidKey)
      else
        (let dh1 = diffie_hellman P our_spk (i_ik_dh init);
             dh2 = diffie_hellman P our_ik_dh (i_ek init);
             dh3 = diffie_hellman P our_spk (i_ek init)
         in case our_opk of
              Some opk \<Rightarrow> derive_sk P [dh1, dh2, dh3, diffie_hellman P opk (i_ek init)]
            | None \<Rightarrow> derive_sk P [dh1, dh2, dh3]))"

text \<open>The bundle that a user publishes for the secrets of the identity, the prekey and, if there is one, the one-time prekey.\<close>

definition own_bundle :: "crates \<Rightarrow> bytes \<Rightarrow> bytes \<Rightarrow> bytes \<Rightarrow> bytes option \<Rightarrow> x3dh_bundle" where
  "own_bundle P sign ik spk opk =
     \<lparr>b_ik_sign = identity_public_key P sign, b_ik_dh = agreement_public_key P ik, b_spk = agreement_public_key P spk,
      b_spk_sig = identity_sign P sign (agreement_public_key P spk), b_opk = map_option (agreement_public_key P) opk\<rparr>"

lemma derive_sk_ok:
  assumes "crate_laws P"
  obtains sk where "derive_sk P ds = Inr sk" "sized 32 sk"
  by (rule hkdf_expands[OF assms, of 32 "Some (replicate 32 0)" "replicate 32 255 @ concat ds" "js ''X3DH''"])
    (simp_all add: derive_sk_def hkdf_def)

text \<open>X3DH gives both sides one secret, with and without a one-time prekey: for any secrets of the two users, the sender accepts the
  receiver's own bundle, and the receiver derives from the initial message the 32 bytes that the sender has.  A bundle whose prekey
  signature does not verify is refused.\<close>

theorem x3dh_agreement:
  assumes "crate_laws P" "sized 32 a" "sized 32 sign" "sized 32 ik" "sized 32 spk" "\<forall>o' \<in> set_option opk. sized 32 o'"
  shows "(\<exists>sk init. x3dh_send P seed a (own_bundle P sign ik spk opk) = Inr (sk, init) \<and> sized 32 sk
      \<and> i_ik_dh init = agreement_public_key P a \<and> i_ek init = agreement_public_key P (agreement_generate P ForEphemeral seed)
      \<and> i_opk_used init = (opk \<noteq> None) \<and> x3dh_receive P ik spk opk init = Inr sk)
    \<and> (identity_verify P (b_ik_sign b) (b_spk b) (b_spk_sig b) = Inl e \<longrightarrow> x3dh_send P seed a b = Inl e)"
proof
  let ?ek = "agreement_generate P ForEphemeral seed" and ?b = "own_bundle P sign ik spk opk" and ?pub = "agreement_public_key P"
  have ek: "sized 32 ?ek" using generated_sized[OF assms(1)] by blast
  let ?ds = "[diffie_hellman P a (?pub spk), diffie_hellman P ?ek (?pub ik), diffie_hellman P ?ek (?pub spk)]
      @ (case opk of None \<Rightarrow> [] | Some o' \<Rightarrow> [diffie_hellman P ?ek (?pub o')])"
  obtain sk where sk: "derive_sk P ?ds = Inr sk" "sized 32 sk" by (rule derive_sk_ok[OF assms(1)])
  let ?i = "\<lparr>i_ik_dh = ?pub a, i_ek = ?pub ?ek, i_opk_used = (opk \<noteq> None)\<rparr>"
  have "x3dh_send P seed a ?b = Inr (sk, ?i)"
    using sk(1) signed_verifies[OF assms(1,3)] by (cases opk) (simp_all add: x3dh_send_def own_bundle_def Let_def)
  moreover have "x3dh_receive P ik spk opk ?i = Inr sk"
    using sk(1) dh_commutes[OF assms(1,2,5)] dh_commutes[OF assms(1) ek] assms(4-6)
    by (cases opk) (simp_all add: x3dh_receive_def Let_def)
  ultimately show "\<exists>sk init. x3dh_send P seed a ?b = Inr (sk, init) \<and> sized 32 sk \<and> i_ik_dh init = ?pub a \<and> i_ek init = ?pub ?ek
      \<and> i_opk_used init = (opk \<noteq> None) \<and> x3dh_receive P ik spk opk init = Inr sk"
    using sk(2) by (intro exI[of _ sk] exI[of _ ?i]) simp
qed (simp add: x3dh_send_def)

section \<open>Keys under a PIN\<close>

record encrypt_params =
  m_cost :: u32
  t_cost :: u32
  p_cost :: u32

definition WASM_PARAMS :: encrypt_params where
  "WASM_PARAMS = \<lparr>m_cost = 32768, t_cost = 2, p_cost = 1\<rparr>"

definition STANDARD_PARAMS :: encrypt_params where
  "STANDARD_PARAMS = \<lparr>m_cost = 65536, t_cost = 3, p_cost = 1\<rparr>"

record key_blob =
  kb_params :: encrypt_params
  kb_salt :: bytes
  kb_nonce :: bytes
  kb_ciphertext :: bytes

definition needs_upgrade :: "key_blob \<Rightarrow> encrypt_params \<Rightarrow> bool" where
  "needs_upgrade blob target \<longleftrightarrow>
     m_cost (kb_params blob) < m_cost target \<or> t_cost (kb_params blob) < t_cost target \<or> p_cost (kb_params blob) < p_cost target"

definition derive_aes_key :: "crates \<Rightarrow> bytes \<Rightarrow> bytes \<Rightarrow> encrypt_params \<Rightarrow> failure + bytes" where
  "derive_aes_key P pin salt params =
     (case argon2id P (m_cost params) (t_cost params) (p_cost params) pin salt of None \<Rightarrow> Inl (Err KeyDerivation) | Some key \<Rightarrow> Inr key)"

definition pin_aad :: "encrypt_params \<Rightarrow> bytes \<Rightarrow> bytes" where
  "pin_aad params salt = [1] @ be32 (m_cost params) @ be32 (t_cost params) @ be32 (p_cost params) @ salt"

definition encrypt_key_with_pin :: "crates \<Rightarrow> nat \<Rightarrow> bytes \<Rightarrow> bytes \<Rightarrow> encrypt_params \<Rightarrow> failure + key_blob" where
  "encrypt_key_with_pin P seed key_bytes pin params =
     (let salt = os_random P ForSalt seed 16; nonce = os_random P ForNonce seed 12
      in rbind (derive_aes_key P pin salt params) (\<lambda>aes_key.
         rbind (aead_encrypt P aes_key nonce key_bytes (pin_aad params salt)) (\<lambda>c.
           Inr \<lparr>kb_params = params, kb_salt = salt, kb_nonce = nonce, kb_ciphertext = c\<rparr>)))"

definition decrypt_key_with_pin :: "crates \<Rightarrow> key_blob \<Rightarrow> bytes \<Rightarrow> failure + bytes" where
  "decrypt_key_with_pin P blob pin =
     (if length (kb_ciphertext blob) < 16 then Inl (Err InvalidCiphertext)
      else rbind (derive_aes_key P pin (kb_salt blob) (kb_params blob)) (\<lambda>aes_key.
             aead_decrypt P aes_key (kb_nonce blob) (kb_ciphertext blob) (pin_aad (kb_params blob) (kb_salt blob))))"

definition serialize_blob :: "key_blob \<Rightarrow> bytes" where
  "serialize_blob blob = pin_aad (kb_params blob) (kb_salt blob) @ kb_nonce blob @ kb_ciphertext blob"

definition byte_range :: "nat \<Rightarrow> nat \<Rightarrow> bytes \<Rightarrow> bytes" where
  "byte_range a b data = take (b - a) (drop a data)"

definition deserialize_blob :: "bytes \<Rightarrow> failure + key_blob" where
  "deserialize_blob data =
     (if length data < 29 + 12 + 16 then Inl (Err InvalidCiphertext)
      else if data ! 0 \<noteq> 1 then Inl (Err InvalidKey)
      else Inr \<lparr>kb_params = \<lparr>m_cost = u32_be (byte_range 1 5 data), t_cost = u32_be (byte_range 5 9 data),
                p_cost = u32_be (byte_range 9 13 data)\<rparr>,
              kb_salt = byte_range 13 29 data, kb_nonce = byte_range 29 41 data, kb_ciphertext = drop 41 data\<rparr>)"

lemma byte_range_skip: "length a = n \<Longrightarrow> n \<le> i \<Longrightarrow> byte_range i j (a @ b) = byte_range (i - n) (j - n) b"
  by (simp add: byte_range_def)

lemma byte_range_hit: "length a = n \<Longrightarrow> byte_range 0 n (a @ b) = a"
  by (simp add: byte_range_def)

lemma blob_stored:
  assumes "length (kb_salt blob) = 16" "length (kb_nonce blob) = 12" "16 \<le> length (kb_ciphertext blob)"
  shows "deserialize_blob (serialize_blob blob) = Inr blob"
proof -
  have "byte_range 1 5 (serialize_blob blob) = be32 (m_cost (kb_params blob))" "byte_range 5 9 (serialize_blob blob) = be32 (t_cost (kb_params blob))"
    "byte_range 9 13 (serialize_blob blob) = be32 (p_cost (kb_params blob))" "byte_range 13 29 (serialize_blob blob) = kb_salt blob"
    "byte_range 29 41 (serialize_blob blob) = kb_nonce blob" "drop 41 (serialize_blob blob) = kb_ciphertext blob"
    using assms by (simp_all add: serialize_blob_def pin_aad_def byte_range_def)
  moreover have "length (serialize_blob blob) = 41 + length (kb_ciphertext blob)" "serialize_blob blob ! 0 = 1"
    using assms by (simp_all add: serialize_blob_def pin_aad_def)
  ultimately show ?thesis using assms by (simp add: deserialize_blob_def)
qed

text \<open>A key sealed under a PIN survives storage: the blob that \<open>encrypt_key_with_pin\<close> makes is read back from its bytes, and the same PIN
  opens it to the same key; a PIN for which the cipher refuses the ciphertext is answered with \<open>DecryptionFailed\<close>.\<close>

theorem pin_blob_roundtrip:
  assumes "crate_laws P"
  shows "\<exists>blob. encrypt_key_with_pin P seed key pin WASM_PARAMS = Inr blob \<and> deserialize_blob (serialize_blob blob) = Inr blob
    \<and> decrypt_key_with_pin P blob pin = Inr key \<and> (is_bytes key \<longrightarrow> is_bytes (serialize_blob blob)) \<and> serialize_blob blob \<noteq> []
    \<and> (\<forall>pin' k. derive_aes_key P pin' (kb_salt blob) WASM_PARAMS = Inr k
         \<and> gcm_open P k (kb_nonce blob) (kb_ciphertext blob) (pin_aad WASM_PARAMS (kb_salt blob)) = None
         \<longrightarrow> decrypt_key_with_pin P blob pin' = Inl (Err DecryptionFailed))"
proof -
  let ?salt = "os_random P ForSalt seed 16" and ?nonce = "os_random P ForNonce seed 12"
  have s: "length ?salt = 16" "is_bytes ?salt" "length ?nonce = 12" "is_bytes ?nonce"
    using crate_hash(4)[OF assms] by (auto simp: sized_def)
  obtain k where k: "argon2id P 32768 2 1 pin ?salt = Some k" "sized 32 k" by (rule crate_argon[OF assms s(1)])
  obtain c where c: "aead_encrypt P k ?nonce key (pin_aad WASM_PARAMS ?salt) = Inr c" "is_bytes key \<longrightarrow> is_bytes c"
    "aead_decrypt P k ?nonce c (pin_aad WASM_PARAMS ?salt) = Inr key" "length c = length key + 16"
    by (rule aead_roundtrip[OF assms sizedD(1)[OF k(2)] s(3)])
  let ?b = "\<lparr>kb_params = WASM_PARAMS, kb_salt = ?salt, kb_nonce = ?nonce, kb_ciphertext = c\<rparr>"
  have d: "derive_aes_key P pin ?salt WASM_PARAMS = Inr k" using k(1) by (simp add: derive_aes_key_def WASM_PARAMS_def)
  have "encrypt_key_with_pin P seed key pin WASM_PARAMS = Inr ?b" using c(1) d by (simp add: encrypt_key_with_pin_def Let_def)
  moreover have "deserialize_blob (serialize_blob ?b) = Inr ?b" by (rule blob_stored) (use s c(4) in simp_all)
  moreover have "decrypt_key_with_pin P ?b pin = Inr key" using c(3,4) d by (simp add: decrypt_key_with_pin_def)
  moreover have "is_bytes key \<longrightarrow> is_bytes (serialize_blob ?b)" using c(2) s by (simp add: serialize_blob_def pin_aad_def)
  moreover have "serialize_blob ?b \<noteq> []" by (simp add: serialize_blob_def pin_aad_def)
  ultimately show ?thesis using c(4)
    by (intro exI[of _ ?b]) (simp add: decrypt_key_with_pin_def aead_decrypt_def)
qed

theorem x3dh_agreement_witness:
  "\<exists>sk init. x3dh_send toy_crates 5 (replicate 32 1) (own_bundle toy_crates (replicate 32 2) (replicate 32 3) (replicate 32 4) (Some (replicate 32 6)))
     = Inr (sk, init) \<and> x3dh_receive toy_crates (replicate 32 3) (replicate 32 4) (Some (replicate 32 6)) init = Inr sk"
  using x3dh_agreement[OF toy_crate_laws, of "replicate 32 1" "replicate 32 2" "replicate 32 3" "replicate 32 4" "Some (replicate 32 6)" 5]
  by (simp add: sized_def) blast

theorem pin_blob_roundtrip_witness:
  "\<exists>blob. encrypt_key_with_pin toy_crates 5 [1, 2] [49, 50] WASM_PARAMS = Inr blob \<and> decrypt_key_with_pin toy_crates blob [49, 50] = Inr [1, 2]"
  using pin_blob_roundtrip[OF toy_crate_laws, of 5 "[1, 2]" "[49, 50]"] by blast

end
