(* ===== verification/RustSync.thy ===== *)
theory RustSync
  imports RustPrims
begin

text \<open>
  The sync protocol between two devices of a user, \<open>crypto/core/src/device_sync.rs\<close>: key exchange bound to the one-time password of the QR
  code, sealed chunks, and the manifest with its MAC.  Sizes are those of WASM, where \<open>usize\<close> has 32 bits.
\<close>

definition generate_otp :: "crates \<Rightarrow> nat \<Rightarrow> bytes" where
  "generate_otp P seed = os_random P ForOtp seed 16"

definition generate_session_id :: "crates \<Rightarrow> nat \<Rightarrow> bytes" where
  "generate_session_id P seed = os_random P ForSession seed 16"

definition sync_generate :: "crates \<Rightarrow> nat \<Rightarrow> bytes" where
  "sync_generate P seed = agreement_generate P ForSyncPair seed"

record sync_keys =
  chunk_key :: bytes
  sync_mac_key :: bytes

definition derive_sync_keys :: "crates \<Rightarrow> bytes \<Rightarrow> bytes \<Rightarrow> bytes \<Rightarrow> failure + sync_keys" where
  "derive_sync_keys P kp peer_pub otp =
     (let dh = diffie_hellman P kp peer_pub; salt = otp @ js ''vesper-sync-v1''
      in rbind (hkdf P 32 (Some salt) dh (js ''vesper-sync-v1-chunk-key'')) (\<lambda>chunk_key.
         rbind (hkdf P 32 (Some salt) dh (js ''vesper-sync-v1-mac-key'')) (\<lambda>mac_key.
           Inr \<lparr>chunk_key = chunk_key, sync_mac_key = mac_key\<rparr>)))"

definition sync_keys_from_bytes :: "bytes \<Rightarrow> sync_keys" where
  "sync_keys_from_bytes b = \<lparr>chunk_key = take 32 b, sync_mac_key = drop 32 b\<rparr>"

definition sync_keys_to_bytes :: "sync_keys \<Rightarrow> bytes" where
  "sync_keys_to_bytes k = chunk_key k @ sync_mac_key k"

section \<open>Chunks\<close>

definition lz4_compress :: "crates \<Rightarrow> bytes \<Rightarrow> failure + bytes" where
  "lz4_compress P data = (case lz4_encode P data of None \<Rightarrow> Inl (Err DecompressionFailed) | Some z \<Rightarrow> Inr z)"

definition lz4_decompress :: "crates \<Rightarrow> bytes \<Rightarrow> failure + bytes" where
  "lz4_decompress P data = (case lz4_decode P data of None \<Rightarrow> Inl (Err DecompressionFailed) | Some z \<Rightarrow> Inr z)"

definition seal_chunk :: "crates \<Rightarrow> nat \<Rightarrow> sync_keys \<Rightarrow> u32 \<Rightarrow> bytes \<Rightarrow> failure + bytes" where
  "seal_chunk P seed keys n plaintext =
     rbind (lz4_compress P plaintext) (\<lambda>compressed.
       let nonce = random_nonce P (ForChunk n) seed
       in rbind (aead_encrypt P (chunk_key keys) nonce compressed (be32 n)) (\<lambda>ct. Inr (nonce @ ct)))"

definition open_chunk :: "crates \<Rightarrow> sync_keys \<Rightarrow> u32 \<Rightarrow> bytes \<Rightarrow> failure + bytes" where
  "open_chunk P keys n data =
     (if length data < 12 + 16 then Inl (Err InvalidCiphertext)
      else rbind (aead_decrypt P (chunk_key keys) (take 12 data) (drop 12 data) (be32 n)) (lz4_decompress P))"

section \<open>The manifest\<close>

record manifest_entry =
  entry_id :: "64 word"
  entry_hash :: bytes

definition be64 :: "64 word \<Rightarrow> bytes" where
  "be64 w = to_be 8 (unat w)"

definition u64_be :: "bytes \<Rightarrow> 64 word" where
  "u64_be b = word_of_nat (from_be b)"

definition entries_bytes :: "manifest_entry list \<Rightarrow> bytes" where
  "entries_bytes es = concat (map (\<lambda>e. be64 (entry_id e) @ entry_hash e) es)"

definition build_manifest :: "crates \<Rightarrow> bytes \<Rightarrow> manifest_entry list \<Rightarrow> bytes" where
  "build_manifest P mac_key es =
     (let body = 1 # be32 (word_of_nat (length es)) @ entries_bytes es in body @ hmac_crate P mac_key body)"

fun parse_entries :: "nat \<Rightarrow> bytes \<Rightarrow> manifest_entry list" where
  "parse_entries 0 b = []"
| "parse_entries (Suc n) b = \<lparr>entry_id = u64_be (take 8 b), entry_hash = take 32 (drop 8 b)\<rparr> # parse_entries n (drop 40 b)"

definition verify_manifest :: "crates \<Rightarrow> bytes \<Rightarrow> bytes \<Rightarrow> failure + manifest_entry list" where
  "verify_manifest P mac_key data =
     (if length data < 37 then Inl (Err InvalidCiphertext)
      else
        (let body = take (length data - 32) data; mac_bytes = drop (length data - 32) data
         in if hmac_crate P mac_key body \<noteq> mac_bytes then Inl (Err ManifestTampered)
            else if body ! 0 \<noteq> 1 then Inl (Err InvalidCiphertext)
            else
              (let count = unat (u32_be (take 4 (drop 1 body)))
               in if count * 40 \<ge> 2 ^ 32 \<or> 5 + count * 40 \<ge> 2 ^ 32 then Inl (Err InvalidCiphertext)
                  else if length body \<noteq> 5 + count * 40 then Inl (Err InvalidCiphertext)
                  else Inr (parse_entries count (drop 5 body)))))"

definition hash_entry :: "crates \<Rightarrow> bytes \<Rightarrow> bytes" where
  "hash_entry P data = sha256_crate P data"

section \<open>What the protocol gives\<close>

lemma to_from_be: "is_bytes b \<Longrightarrow> to_be (length b) (from_be b) = b"
proof (induction b rule: rev_induct)
  case (snoc x b)
  then show ?case by (simp add: from_be_def)
qed simp

lemma from_be_bound: "is_bytes b \<Longrightarrow> from_be b < 256 ^ length b"
proof (induction b rule: rev_induct)
  case (snoc x b)
  then show ?case by (simp add: from_be_def)
qed (simp add: from_be_def)

lemma be64 [simp]: "length (be64 w) = 8" "is_bytes (be64 w)" "u64_be (be64 w) = w"
proof -
  have "unat w < 2 ^ 64" using unsigned_less[of w] by simp
  then show "u64_be (be64 w) = w" by (simp add: u64_be_def be64_def from_to_be)
qed (simp_all add: be64_def)

lemma be64_read: "is_bytes b \<Longrightarrow> length b = 8 \<Longrightarrow> be64 (u64_be b) = b"
  using from_be_bound[of b] to_from_be[of b] by (simp add: be64_def u64_be_def unsigned_of_nat take_bit_nat_eq_self)

lemma be32_read: "is_bytes b \<Longrightarrow> length b = 4 \<Longrightarrow> be32 (u32_be b) = b"
  using from_be_bound[of b] to_from_be[of b] by (simp add: be32_def u32_be_def unsigned_of_nat take_bit_nat_eq_self)

lemma is_bytes_part [simp]: "is_bytes b \<Longrightarrow> is_bytes (take n b)" "is_bytes b \<Longrightarrow> is_bytes (drop n b)"
  by (auto simp: is_bytes_def list_all_iff dest: in_set_takeD in_set_dropD)

lemma parse_written: "list_all (\<lambda>e. length (entry_hash e) = 32) es \<Longrightarrow> parse_entries (length es) (entries_bytes es) = es"
  by (induction es) (simp_all add: entries_bytes_def)

lemma entries_length: "list_all (\<lambda>e. length (entry_hash e) = 32) es \<Longrightarrow> length (entries_bytes es) = length es * 40"
  by (induction es) (simp_all add: entries_bytes_def)

lemma written_parsed:
  assumes "is_bytes b" "length b = n * 40"
  shows "entries_bytes (parse_entries n b) = b" "length (parse_entries n b) = n" "list_all (\<lambda>e. length (entry_hash e) = 32) (parse_entries n b)"
  using assms
proof (induction n arbitrary: b)
  case (Suc n)
  {
    case 1
    have "entries_bytes (parse_entries (Suc n) b) = take 8 b @ take 32 (drop 8 b) @ drop 40 b"
      using Suc.IH(1)[of "drop 40 b"] 1 be64_read[of "take 8 b"] by (simp add: entries_bytes_def)
    also have "\<dots> = take 8 b @ drop 8 b" using append_take_drop_id[of 32 "drop 8 b"] by simp
    finally show ?case by simp
  }
  case 2
  then show ?case using Suc.IH(2)[of "drop 40 b"] by simp
  case 3
  then show ?case using Suc.IH(3)[of "drop 40 b"] by simp
qed (simp_all add: entries_bytes_def)

lemma split_tail: "length t = 32 \<Longrightarrow> take (length (b @ t) - 32) (b @ t) = b \<and> drop (length (b @ t) - 32) (b @ t) = t"
  by simp

lemma mac_length: "crate_laws P \<Longrightarrow> length (hmac_crate P k m) = 32"
  using crate_hash(1) by (auto simp: sized_def)

lemma manifest_reads:
  assumes "crate_laws P" "list_all (\<lambda>e. length (entry_hash e) = 32) es" "5 + length es * 40 < 2 ^ 32"
  shows "verify_manifest P mac_key (build_manifest P mac_key es) = Inr es"
proof -
  let ?body = "1 # be32 (word_of_nat (length es)) @ entries_bytes es" let ?data = "build_manifest P mac_key es"
  note mac = mac_length[OF assms(1)]
  have d: "?data = ?body @ hmac_crate P mac_key ?body" by (simp add: build_manifest_def Let_def)
  have len: "length ?body = 5 + length es * 40" using entries_length[OF assms(2)] by simp
  have "take (length ?data - 32) ?data = ?body" "drop (length ?data - 32) ?data = hmac_crate P mac_key ?body"
    using split_tail[OF mac] unfolding d by blast+
  moreover have "\<not> length ?data < 37" using mac len unfolding d by simp
  moreover have "unat (word_of_nat (length es) :: u32) = length es" using assms(3) by (simp add: unsigned_of_nat take_bit_nat_eq_self)
  ultimately show ?thesis
    using len assms(3) parse_written[OF assms(2)] by (simp add: verify_manifest_def Let_def)
qed

text \<open>C20. The manifest of a device sync.  For entries with 32-byte hashes that fit 32-bit sizes, \<open>verify_manifest\<close> accepts exactly the bytes
  that \<open>build_manifest\<close> writes for them under the same key: it gives back the entries of what was built, and nothing else that it
  accepts is anything but the manifest of the entries it returns.\<close>

theorem manifest_exact:
  assumes "crate_laws P" "is_bytes data" "list_all (\<lambda>e. length (entry_hash e) = 32) es" "5 + length es * 40 < 2 ^ 32"
  shows "verify_manifest P mac_key data = Inr es \<longleftrightarrow> data = build_manifest P mac_key es"
proof
  let ?body = "1 # be32 (word_of_nat (length es)) @ entries_bytes es"
  show "verify_manifest P mac_key data = Inr es" if "data = build_manifest P mac_key es"
    using manifest_reads[OF assms(1,3,4)] that by simp
  show "data = build_manifest P mac_key es" if acc: "verify_manifest P mac_key data = Inr es"
  proof -
    let ?b = "take (length data - 32) data" let ?n = "unat (u32_be (take 4 (drop 1 ?b)))"
    have v: "37 \<le> length data" "hmac_crate P mac_key ?b = drop (length data - 32) data" "?b ! 0 = 1" "length ?b = 5 + ?n * 40"
      "es = parse_entries ?n (drop 5 ?b)"
      using acc by (auto simp: verify_manifest_def Let_def split: if_splits)
    have b: "is_bytes ?b" using assms(2) by simp
    have p: "entries_bytes es = drop 5 ?b" "length es = ?n" using written_parsed[of "drop 5 ?b" ?n] b v(4,5) by simp_all
    have "?b \<noteq> []" using v(4) by auto
    then have "?b = ?b ! 0 # take 4 (drop 1 ?b) @ drop 5 ?b"
      using append_take_drop_id[of 4 "drop 1 ?b"] by (cases ?b) simp_all
    moreover have "be32 (word_of_nat (length es)) = take 4 (drop 1 ?b)" using p(2) be32_read[of "take 4 (drop 1 ?b)"] b v(4) by simp
    ultimately have "?b = ?body" using v(3) p(1) by metis
    then show ?thesis using v(2) append_take_drop_id[of "length data - 32" data] by (metis build_manifest_def)
  qed
qed

lemma chunk_opens:
  assumes "crate_laws P" "length (chunk_key k) = 32"
  shows "\<exists>c. seal_chunk P seed k n plain = Inr c \<and> open_chunk P k n c = Inr plain"
proof -
  obtain z where z: "lz4_encode P plain = Some z" "lz4_decode P z = Some plain" by (rule crate_lz4[OF assms(1)])
  have nonce: "length (random_nonce P (ForChunk n) seed) = 12" using crate_hash(4)[OF assms(1)] by (simp add: random_nonce_def sized_def)
  obtain c where c: "aead_encrypt P (chunk_key k) (random_nonce P (ForChunk n) seed) z (be32 n) = Inr c"
    "aead_decrypt P (chunk_key k) (random_nonce P (ForChunk n) seed) c (be32 n) = Inr z" "length c = length z + 16"
    by (rule aead_roundtrip[OF assms nonce])
  have "seal_chunk P seed k n plain = Inr (random_nonce P (ForChunk n) seed @ c)"
    using z(1) c(1) by (simp add: seal_chunk_def lz4_compress_def Let_def)
  moreover have "open_chunk P k n (random_nonce P (ForChunk n) seed @ c) = Inr plain"
    using z(2) c(2,3) nonce by (simp add: open_chunk_def lz4_decompress_def)
  ultimately show ?thesis by blast
qed

lemma keys_agree:
  assumes "crate_laws P" "sized 32 a" "sized 32 b"
  obtains keys where "derive_sync_keys P a (agreement_public_key P b) otp = Inr keys" "derive_sync_keys P b (agreement_public_key P a) otp = Inr keys"
    "sized 64 (sync_keys_to_bytes keys)" "sync_keys_from_bytes (sync_keys_to_bytes keys) = keys" "length (chunk_key keys) = 32"
proof -
  let ?salt = "Some (otp @ js ''vesper-sync-v1'')" and ?dh = "diffie_hellman P a (agreement_public_key P b)"
  obtain k1 where k1: "hkdf_expand P (hkdf_extract P ?salt ?dh) (js ''vesper-sync-v1-chunk-key'') 32 = Inr k1" "sized 32 k1"
    by (rule hkdf_expands[OF assms(1), of 32]) simp
  obtain k2 where k2: "hkdf_expand P (hkdf_extract P ?salt ?dh) (js ''vesper-sync-v1-mac-key'') 32 = Inr k2" "sized 32 k2"
    by (rule hkdf_expands[OF assms(1), of 32]) simp
  let ?k = "\<lparr>chunk_key = k1, sync_mac_key = k2\<rparr>"
  show thesis
  proof (rule that[of ?k])
    show "derive_sync_keys P a (agreement_public_key P b) otp = Inr ?k" using k1 k2 by (simp add: derive_sync_keys_def hkdf_def)
    show "derive_sync_keys P b (agreement_public_key P a) otp = Inr ?k"
      using k1 k2 dh_commutes[OF assms] by (simp add: derive_sync_keys_def hkdf_def)
  qed (use k1(2) k2(2) in \<open>simp_all add: sync_keys_to_bytes_def sync_keys_from_bytes_def sized_def\<close>)
qed

text \<open>The two devices of a sync agree.  With each other's public keys and the same one-time password they derive the same two keys; and what
  one seals at a position of the stream the other opens at that position, unchanged.\<close>

theorem sync_devices_agree:
  assumes "crate_laws P" "sized 32 a" "sized 32 b"
  shows "\<exists>keys. derive_sync_keys P a (agreement_public_key P b) otp = Inr keys \<and> derive_sync_keys P b (agreement_public_key P a) otp = Inr keys
    \<and> sized 64 (sync_keys_to_bytes keys) \<and> sync_keys_from_bytes (sync_keys_to_bytes keys) = keys
    \<and> (\<exists>c. seal_chunk P seed keys n plain = Inr c \<and> open_chunk P keys n c = Inr plain)"
  using keys_agree[OF assms] chunk_opens[OF assms(1)] by metis

theorem manifest_exact_witness:
  "verify_manifest toy_crates [7] (build_manifest toy_crates [7] [\<lparr>entry_id = 3, entry_hash = replicate 32 9\<rparr>]) = Inr [\<lparr>entry_id = 3, entry_hash = replicate 32 9\<rparr>]"
proof -
  have "is_bytes (build_manifest toy_crates [7] [\<lparr>entry_id = 3, entry_hash = replicate 32 9\<rparr>])"
    by (simp add: build_manifest_def toy_crates_def entries_bytes_def Let_def)
  then show ?thesis using manifest_exact[OF toy_crate_laws, of _ "[\<lparr>entry_id = 3, entry_hash = replicate 32 9\<rparr>]" "[7]"] by simp
qed

theorem sync_devices_agree_witness:
  "\<exists>keys c. derive_sync_keys toy_crates (replicate 32 1) (agreement_public_key toy_crates (replicate 32 2)) [5] = Inr keys
     \<and> derive_sync_keys toy_crates (replicate 32 2) (agreement_public_key toy_crates (replicate 32 1)) [5] = Inr keys
     \<and> seal_chunk toy_crates 4 keys 9 [1, 2, 3] = Inr c \<and> open_chunk toy_crates keys 9 c = Inr [1, 2, 3]"
  using sync_devices_agree[OF toy_crate_laws, of "replicate 32 1" "replicate 32 2" "[5]" 4 9 "[1, 2, 3]"] by (simp add: sized_def) blast

end
