(* ===== verification/RustWasm.thy ===== *)
theory RustWasm
  imports RustGroup RustKeys RustSync
begin

text \<open>
  The functions that the WASM module exports, \<open>crypto/wasm/src/lib.rs\<close>: checks of lengths, and the wire forms of bundles, messages,
  distribution messages and manifests around the core.  A call that draws random bytes takes a seed.
\<close>

definition to32 :: "bytes \<Rightarrow> failure + bytes" where
  "to32 b = (if length b = 32 then Inr b else Inl (JsErr (js ''expected 32 bytes'')))"

definition to64 :: "bytes \<Rightarrow> failure + bytes" where
  "to64 b = (if length b = 64 then Inr b else Inl (JsErr (js ''expected 64 bytes'')))"

lemma to32 [simp]: "length b = 32 \<Longrightarrow> to32 b = Inr b" "length b = 64 \<Longrightarrow> to64 b = Inr b"
  by (simp_all add: to32_def to64_def)

section \<open>Keys\<close>

definition generate_key_agreement_keypair :: "crates \<Rightarrow> nat \<Rightarrow> bytes" where
  "generate_key_agreement_keypair P seed = (let kp = agreement_generate P ForKeyPair seed in kp @ agreement_public_key P kp)"

definition key_agreement_public_from_secret :: "crates \<Rightarrow> bytes \<Rightarrow> failure + bytes" where
  "key_agreement_public_from_secret P secret = rbind (to32 secret) (\<lambda>kp. Inr (agreement_public_key P kp))"

definition generate_signing_keypair :: "crates \<Rightarrow> nat \<Rightarrow> bytes" where
  "generate_signing_keypair P seed = (let kp = identity_generate P ForSigningKey seed in kp @ identity_public_key P kp)"

definition signing_public_from_seed :: "crates \<Rightarrow> bytes \<Rightarrow> failure + bytes" where
  "signing_public_from_seed P seed = rbind (to32 seed) (\<lambda>kp. Inr (identity_public_key P kp))"

definition wasm_sign :: "crates \<Rightarrow> bytes \<Rightarrow> bytes \<Rightarrow> failure + bytes" where
  "wasm_sign P seed message = rbind (to32 seed) (\<lambda>kp. Inr (identity_sign P kp message))"

definition verify_signature :: "crates \<Rightarrow> bytes \<Rightarrow> bytes \<Rightarrow> bytes \<Rightarrow> failure + bool" where
  "verify_signature P pub_key message sig =
     rbind (to32 pub_key) (\<lambda>pk. rbind (to64 sig) (\<lambda>sig. Inr (identity_verify P pk message sig = Inr ())))"

definition wasm_encrypt_key :: "crates \<Rightarrow> nat \<Rightarrow> bytes \<Rightarrow> bytes \<Rightarrow> failure + bytes" where
  "wasm_encrypt_key P seed key_bytes pin = rbind (encrypt_key_with_pin P seed key_bytes pin WASM_PARAMS) (\<lambda>blob. Inr (serialize_blob blob))"

definition wasm_decrypt_key :: "crates \<Rightarrow> bytes \<Rightarrow> bytes \<Rightarrow> failure + bytes" where
  "wasm_decrypt_key P blob_bytes pin = rbind (deserialize_blob blob_bytes) (\<lambda>blob. decrypt_key_with_pin P blob pin)"

section \<open>X3DH\<close>

definition parse_bundle :: "bytes \<Rightarrow> failure + x3dh_bundle" where
  "parse_bundle b =
     (if length b < 161 then Inl (JsErr (js ''bundle too short''))
      else
        rbind (if b ! 160 \<noteq> 0
               then (if length b < 193 then Inl (JsErr (js ''bundle: opk_present=1 but no opk bytes''))
                     else Inr (Some (byte_range 161 193 b)))
               else Inr None) (\<lambda>opk.
          Inr \<lparr>b_ik_sign = byte_range 0 32 b, b_ik_dh = byte_range 32 64 b, b_spk = byte_range 64 96 b, b_spk_sig = byte_range 96 160 b,
            b_opk = opk\<rparr>))"

definition wasm_x3dh_send :: "crates \<Rightarrow> nat \<Rightarrow> bytes \<Rightarrow> bytes \<Rightarrow> failure + bytes" where
  "wasm_x3dh_send P seed our_ik_dh_secret bundle_bytes =
     rbind (to32 our_ik_dh_secret) (\<lambda>our_ik_dh. rbind (parse_bundle bundle_bytes) (\<lambda>bundle.
     rbind (x3dh_send P seed our_ik_dh bundle) (\<lambda>(sk, init).
       Inr (sk @ i_ik_dh init @ i_ek init @ [if i_opk_used init then 1 else 0]))))"

definition wasm_x3dh_receive :: "crates \<Rightarrow> bytes \<Rightarrow> bytes \<Rightarrow> bytes \<Rightarrow> bytes \<Rightarrow> failure + bytes" where
  "wasm_x3dh_receive P our_ik_dh_secret our_spk_secret our_opk_secret init_msg =
     (if length init_msg < 65 then Inl (JsErr (js ''init message too short''))
      else
        rbind (to32 our_ik_dh_secret) (\<lambda>our_ik_dh. rbind (to32 our_spk_secret) (\<lambda>our_spk.
        rbind (if our_opk_secret = [] then Inr None else rbind (to32 our_opk_secret) (\<lambda>k. Inr (Some k))) (\<lambda>our_opk.
          x3dh_receive P our_ik_dh our_spk our_opk
            \<lparr>i_ik_dh = byte_range 0 32 init_msg, i_ek = byte_range 32 64 init_msg, i_opk_used = (init_msg ! 64 \<noteq> 0)\<rparr>))))"

section \<open>Ratchet sessions\<close>

definition session_init_sender :: "crates \<Rightarrow> nat \<Rightarrow> bytes \<Rightarrow> bytes \<Rightarrow> failure + ratchet_state" where
  "session_init_sender P seed sk bob_dh_pub = rbind (to32 sk) (\<lambda>sk. rbind (to32 bob_dh_pub) (\<lambda>pub. init_sender P seed sk pub))"

definition session_init_receiver :: "bytes \<Rightarrow> bytes \<Rightarrow> failure + ratchet_state" where
  "session_init_receiver sk our_dh_secret = rbind (to32 our_dh_secret) (\<lambda>kp. rbind (to32 sk) (\<lambda>sk. Inr (init_receiver sk kp)))"

definition session_encrypt :: "crates \<Rightarrow> bytes \<Rightarrow> bytes \<Rightarrow> ratchet_state \<Rightarrow> (failure + bytes) \<times> ratchet_state" where
  "session_encrypt P plaintext aad s =
     (case ratchet_encrypt P plaintext aad s of
        (r, s) \<Rightarrow> (rbind r (\<lambda>(hdr, ct). Inr (h_dh hdr @ be32 (h_pn hdr) @ be32 (h_n hdr) @ ct)), s))"

definition session_decrypt :: "crates \<Rightarrow> nat \<Rightarrow> bytes \<Rightarrow> bytes \<Rightarrow> ratchet_state \<Rightarrow> (failure + bytes) \<times> ratchet_state" where
  "session_decrypt P seed data aad s =
     (if length data < 40 then (Inl (JsErr (js ''message too short'')), s)
      else ratchet_decrypt P seed
             \<lparr>h_dh = byte_range 0 32 data, h_pn = u32_be (byte_range 32 36 data), h_n = u32_be (byte_range 36 40 data)\<rparr> (drop 40 data) aad s)"

section \<open>Group sessions\<close>

definition distribution_to_bytes :: "distribution_message \<Rightarrow> bytes" where
  "distribution_to_bytes d = be32 (d_key_id d) @ be32 (d_iteration d) @ d_chain_key d @ d_signing_pub d"

definition wasm_group_encrypt :: "crates \<Rightarrow> bytes \<Rightarrow> sender_state \<Rightarrow> (failure + bytes) \<times> sender_state" where
  "wasm_group_encrypt P plaintext s =
     (case group_encrypt P plaintext s of
        (r, s) \<Rightarrow> (rbind r (\<lambda>m. Inr (be32 (g_key_id m) @ be32 (g_iteration m) @ g_signature m @ g_ciphertext m)), s))"

definition receiver_from_distribution :: "bytes \<Rightarrow> failure + receiver_state" where
  "receiver_from_distribution b =
     (if length b < 72 then Inl (JsErr (js ''distribution message too short''))
      else Inr (process_distribution_message
        \<lparr>d_key_id = u32_be (byte_range 0 4 b), d_iteration = u32_be (byte_range 4 8 b), d_chain_key = byte_range 8 40 b,
         d_signing_pub = byte_range 40 72 b\<rparr>))"

definition wasm_group_decrypt :: "crates \<Rightarrow> bytes \<Rightarrow> receiver_state \<Rightarrow> (failure + bytes) \<times> receiver_state" where
  "wasm_group_decrypt P data s =
     (if length data < 72 then (Inl (JsErr (js ''group message too short'')), s)
      else group_decrypt P
        \<lparr>g_key_id = u32_be (byte_range 0 4 data), g_iteration = u32_be (byte_range 4 8 data), g_ciphertext = drop 72 data,
         g_signature = byte_range 8 72 data\<rparr> s)"

section \<open>Device sync\<close>

definition sync_generate_keypair :: "crates \<Rightarrow> nat \<Rightarrow> bytes" where
  "sync_generate_keypair P seed = (let kp = sync_generate P seed in kp @ agreement_public_key P kp)"

definition wasm_derive_keys :: "crates \<Rightarrow> bytes \<Rightarrow> bytes \<Rightarrow> bytes \<Rightarrow> failure + bytes" where
  "wasm_derive_keys P secret peer_pub otp =
     rbind (to32 secret) (\<lambda>kp. rbind (to32 peer_pub) (\<lambda>peer.
     if length otp \<noteq> 16 then Inl (JsErr (js ''otp must be 16 bytes''))
     else rbind (derive_sync_keys P kp peer otp) (\<lambda>keys. Inr (sync_keys_to_bytes keys))))"

definition wasm_seal_chunk :: "crates \<Rightarrow> nat \<Rightarrow> bytes \<Rightarrow> u32 \<Rightarrow> bytes \<Rightarrow> failure + bytes" where
  "wasm_seal_chunk P seed keys_bytes n plaintext =
     (if length keys_bytes \<noteq> 64 then Inl (JsErr (js ''keys must be 64 bytes''))
      else seal_chunk P seed (sync_keys_from_bytes keys_bytes) n plaintext)"

definition wasm_open_chunk :: "crates \<Rightarrow> bytes \<Rightarrow> u32 \<Rightarrow> bytes \<Rightarrow> failure + bytes" where
  "wasm_open_chunk P keys_bytes n data =
     (if length keys_bytes \<noteq> 64 then Inl (JsErr (js ''keys must be 64 bytes''))
      else open_chunk P (sync_keys_from_bytes keys_bytes) n data)"

fun zip_entries :: "nat \<Rightarrow> bytes \<Rightarrow> bytes \<Rightarrow> manifest_entry list" where
  "zip_entries 0 ids hashes = []"
| "zip_entries (Suc n) ids hashes =
     \<lparr>entry_id = u64_be (take 8 ids), entry_hash = take 32 hashes\<rparr> # zip_entries n (drop 8 ids) (drop 32 hashes)"

definition wasm_build_manifest :: "crates \<Rightarrow> bytes \<Rightarrow> bytes \<Rightarrow> bytes \<Rightarrow> failure + bytes" where
  "wasm_build_manifest P mac_key ids hashes =
     rbind (to32 mac_key) (\<lambda>mac_key.
     if length ids mod 8 \<noteq> 0 then Inl (JsErr (js ''ids must be n'' @ [215] @ js ''8 bytes''))
     else if length hashes mod 32 \<noteq> 0 then Inl (JsErr (js ''hashes must be n'' @ [215] @ js ''32 bytes''))
     else if length hashes div 32 \<noteq> length ids div 8 then Inl (JsErr (js ''ids and hashes counts must match''))
     else Inr (build_manifest P mac_key (zip_entries (length ids div 8) ids hashes)))"

definition wasm_verify_manifest :: "crates \<Rightarrow> bytes \<Rightarrow> bytes \<Rightarrow> failure + bytes" where
  "wasm_verify_manifest P mac_key manifest =
     rbind (to32 mac_key) (\<lambda>mac_key. rbind (verify_manifest P mac_key manifest) (\<lambda>es. Inr (entries_bytes es)))"

section \<open>Wire forms\<close>

lemma session_wire:
  assumes "ratchet_encrypt P p aad S = (Inr (h, c), S')" "length (h_dh h) = 32"
  shows "session_encrypt P p aad S = (Inr (h_dh h @ be32 (h_pn h) @ be32 (h_n h) @ c), S')"
    "session_decrypt P seed (h_dh h @ be32 (h_pn h) @ be32 (h_n h) @ c) aad R = ratchet_decrypt P seed h c aad R"
proof -
  show "session_encrypt P p aad S = (Inr (h_dh h @ be32 (h_pn h) @ be32 (h_n h) @ c), S')" using assms(1) by (simp add: session_encrypt_def)
  show "session_decrypt P seed (h_dh h @ be32 (h_pn h) @ be32 (h_n h) @ c) aad R = ratchet_decrypt P seed h c aad R"
    using assms(2) by (cases h) (simp add: session_decrypt_def byte_range_def)
qed

lemma group_wire:
  assumes "group_encrypt P p S = (Inr m, S')" "length (g_signature m) = 64"
  shows "\<exists>c. wasm_group_encrypt P p S = (Inr c, S') \<and> wasm_group_decrypt P c R = group_decrypt P m R
    \<and> (is_bytes (g_signature m) \<and> is_bytes (g_ciphertext m) \<longrightarrow> is_bytes c)"
proof -
  let ?c = "be32 (g_key_id m) @ be32 (g_iteration m) @ g_signature m @ g_ciphertext m"
  have "wasm_group_decrypt P ?c R = group_decrypt P m R" using assms(2) by (cases m) (simp add: wasm_group_decrypt_def byte_range_def)
  then show ?thesis using assms(1) by (intro exI[of _ ?c]) (simp add: wasm_group_encrypt_def)
qed

lemma distribution_wire:
  assumes "length (d_chain_key d) = 32" "length (d_signing_pub d) = 32"
  shows "receiver_from_distribution (distribution_to_bytes d) = Inr (process_distribution_message d)"
  using assms by (cases d) (simp add: receiver_from_distribution_def distribution_to_bytes_def byte_range_def)

end
