(* ===== verification/CryptoWorker.thy ===== *)
theory CryptoWorker
  imports RustWasm ClientCrypto
begin

text \<open>
  The crypto worker of the browser, \<open>client/src/workers/crypto.worker.ts\<close>, and the client that calls it,
  \<open>client/src/lib/cryptoWorkerClient.ts\<close>: the dispatch of a call to the WASM module by name, the worker's messages, and the remote calls with
  their identifiers and pending promises, interleaved in any way.  Every settled call has the outcome of its own request.
\<close>

section \<open>Dispatch\<close>

datatype js_val = U8 bytes | JsNum int | JsBool bool

type_synonym payload = "(jsstr \<times> js_val) list"

definition u8 :: "payload \<Rightarrow> string \<Rightarrow> failure + bytes" where
  "u8 p name =
     (case map_of p (js name) of
        Some (U8 b) \<Rightarrow> Inr b
      | Some (JsNum _) \<Rightarrow> Inl (JsErr (js (name @ '': expected Uint8Array, got number'')))
      | Some (JsBool _) \<Rightarrow> Inl (JsErr (js (name @ '': expected Uint8Array, got boolean'')))
      | None \<Rightarrow> Inl (JsErr (js (name @ '': expected Uint8Array, got undefined''))))"

text \<open>A number passed to a parameter of type \<open>u32\<close>.\<close>

definition num_u32 :: "payload \<Rightarrow> string \<Rightarrow> u32" where
  "num_u32 p name =
     (case map_of p (js name) of Some (JsNum n) \<Rightarrow> word_of_int n | Some (JsBool b) \<Rightarrow> (if b then 1 else 0) | _ \<Rightarrow> 0)"

definition answer :: "string \<Rightarrow> failure + bytes \<Rightarrow> failure + payload" where
  "answer name r = rbind r (\<lambda>b. Inr [(js name, U8 b)])"

text \<open>A call on a stored session: the result and the new stored form; an error frees the session without storing it.\<close>

definition on_session :: "(bytes \<Rightarrow> failure + 's) \<Rightarrow> ('s \<Rightarrow> bytes) \<Rightarrow> bytes \<Rightarrow> string \<Rightarrow> string \<Rightarrow> ('s \<Rightarrow> (failure + bytes) \<times> 's) \<Rightarrow> failure + payload" where
  "on_session from to stored result new f =
     rbind (from stored) (\<lambda>s. case f s of (r, s) \<Rightarrow> rbind r (\<lambda>b. Inr [(js result, U8 b), (js new, U8 (to s))]))"

definition dispatch_keys :: "crates \<Rightarrow> nat \<Rightarrow> jsstr \<Rightarrow> payload \<Rightarrow> (failure + payload) option" where
  "dispatch_keys P seed t p =
     (if t = js ''generateKeyAgreementKeypair'' then Some (answer ''keypair'' (Inr (generate_key_agreement_keypair P seed)))
      else if t = js ''generateSigningKeypair'' then Some (answer ''keypair'' (Inr (generate_signing_keypair P seed)))
      else if t = js ''sign'' then
        Some (answer ''sig'' (rbind (u8 p ''seed'') (\<lambda>s. rbind (u8 p ''message'') (\<lambda>m. wasm_sign P s m))))
      else if t = js ''verifySignature'' then
        Some (rbind (u8 p ''pubKey'') (\<lambda>k. rbind (u8 p ''message'') (\<lambda>m. rbind (u8 p ''sig'') (\<lambda>s.
          rbind (verify_signature P k m s) (\<lambda>b. Inr [(js ''valid'', JsBool b)])))))
      else if t = js ''encryptKeyWithPin'' then
        Some (answer ''blob'' (rbind (u8 p ''keyBytes'') (\<lambda>k. rbind (u8 p ''pin'') (\<lambda>pin. wasm_encrypt_key P seed k pin))))
      else if t = js ''decryptKeyWithPin'' then
        Some (answer ''keyBytes'' (rbind (u8 p ''blobBytes'') (\<lambda>b. rbind (u8 p ''pin'') (\<lambda>pin. wasm_decrypt_key P b pin))))
      else if t = js ''x3dhSend'' then
        Some (answer ''result'' (rbind (u8 p ''ourIkDhSecret'') (\<lambda>ik. rbind (u8 p ''bundleBytes'') (\<lambda>b. wasm_x3dh_send P seed ik b))))
      else if t = js ''x3dhReceive'' then
        Some (answer ''sk'' (rbind (u8 p ''ourIkDhSecret'') (\<lambda>ik. rbind (u8 p ''ourSpkSecret'') (\<lambda>spk. rbind (u8 p ''ourOpkSecret'') (\<lambda>opk.
          rbind (u8 p ''initMsgBytes'') (\<lambda>i. wasm_x3dh_receive P ik spk opk i))))))
      else None)"

definition dispatch_sessions :: "crates \<Rightarrow> nat \<Rightarrow> jsstr \<Rightarrow> payload \<Rightarrow> (failure + payload) option" where
  "dispatch_sessions P seed t p =
     (if t = js ''ratchetInitSender'' then
        Some (answer ''sessionBytes'' (rbind (u8 p ''sk'') (\<lambda>sk. rbind (u8 p ''bobDhPub'') (\<lambda>pub.
          rbind (session_init_sender P seed sk pub) (\<lambda>s. Inr (ratchet_to_bytes s))))))
      else if t = js ''ratchetInitReceiver'' then
        Some (answer ''sessionBytes'' (rbind (u8 p ''sk'') (\<lambda>sk. rbind (u8 p ''ourDhSecret'') (\<lambda>dh.
          rbind (session_init_receiver sk dh) (\<lambda>s. Inr (ratchet_to_bytes s))))))
      else if t = js ''ratchetEncrypt'' then
        Some (rbind (u8 p ''sessionBytes'') (\<lambda>b. on_session ratchet_from_bytes ratchet_to_bytes b ''ciphertext'' ''newSessionBytes'' (\<lambda>s.
          case rbind (u8 p ''plaintext'') (\<lambda>x. rbind (u8 p ''aad'') (\<lambda>a. Inr (x, a))) of
            Inl e \<Rightarrow> (Inl e, s) | Inr (x, a) \<Rightarrow> session_encrypt P x a s)))
      else if t = js ''ratchetDecrypt'' then
        Some (rbind (u8 p ''sessionBytes'') (\<lambda>b. on_session ratchet_from_bytes ratchet_to_bytes b ''plaintext'' ''newSessionBytes'' (\<lambda>s.
          case rbind (u8 p ''data'') (\<lambda>x. rbind (u8 p ''aad'') (\<lambda>a. Inr (x, a))) of
            Inl e \<Rightarrow> (Inl e, s) | Inr (x, a) \<Rightarrow> session_decrypt P seed x a s)))
      else if t = js ''groupSenderGenerate'' then
        (let s = sender_generate P seed
         in Some (Inr [(js ''senderBytes'', U8 (sender_to_bytes s)), (js ''distMsg'', U8 (distribution_to_bytes (create_distribution_message P s)))]))
      else if t = js ''groupSenderEncrypt'' then
        Some (rbind (u8 p ''senderBytes'') (\<lambda>b. on_session sender_from_bytes sender_to_bytes b ''ciphertext'' ''newSenderBytes'' (\<lambda>s.
          case u8 p ''plaintext'' of Inl e \<Rightarrow> (Inl e, s) | Inr x \<Rightarrow> wasm_group_encrypt P x s)))
      else if t = js ''groupSenderDistMsg'' then
        Some (answer ''distMsg'' (rbind (u8 p ''senderBytes'') (\<lambda>b. rbind (sender_from_bytes b) (\<lambda>s.
          Inr (distribution_to_bytes (create_distribution_message P s))))))
      else if t = js ''groupReceiverFromDist'' then
        Some (answer ''receiverBytes'' (rbind (u8 p ''distMsgBytes'') (\<lambda>d. rbind (receiver_from_distribution d) (\<lambda>s. Inr (receiver_to_bytes s)))))
      else if t = js ''groupReceiverDecrypt'' then
        Some (rbind (u8 p ''receiverBytes'') (\<lambda>b. on_session receiver_from_bytes receiver_to_bytes b ''plaintext'' ''newReceiverBytes'' (\<lambda>s.
          case u8 p ''data'' of Inl e \<Rightarrow> (Inl e, s) | Inr x \<Rightarrow> wasm_group_decrypt P x s)))
      else None)"

definition dispatch_sync :: "crates \<Rightarrow> nat \<Rightarrow> jsstr \<Rightarrow> payload \<Rightarrow> (failure + payload) option" where
  "dispatch_sync P seed t p =
     (if t = js ''syncGenerateOtp'' then Some (answer ''otp'' (Inr (generate_otp P seed)))
      else if t = js ''syncGenerateSessionId'' then Some (answer ''sessionId'' (Inr (generate_session_id P seed)))
      else if t = js ''syncGenerateKeypair'' then Some (answer ''keypair'' (Inr (sync_generate_keypair P seed)))
      else if t = js ''syncDeriveKeys'' then
        Some (answer ''keys'' (rbind (u8 p ''secret'') (\<lambda>s. rbind (u8 p ''peerPub'') (\<lambda>k. rbind (u8 p ''otp'') (\<lambda>o'. wasm_derive_keys P s k o')))))
      else if t = js ''syncSealChunk'' then
        Some (answer ''sealed'' (rbind (u8 p ''keys'') (\<lambda>k. rbind (u8 p ''plaintext'') (\<lambda>x. wasm_seal_chunk P seed k (num_u32 p ''seq'') x))))
      else if t = js ''syncOpenChunk'' then
        Some (answer ''plain'' (rbind (u8 p ''keys'') (\<lambda>k. rbind (u8 p ''data'') (\<lambda>x. wasm_open_chunk P k (num_u32 p ''seq'') x))))
      else if t = js ''syncBuildManifest'' then
        Some (answer ''manifest'' (rbind (u8 p ''macKey'') (\<lambda>k. rbind (u8 p ''ids'') (\<lambda>i. rbind (u8 p ''hashes'') (\<lambda>h. wasm_build_manifest P k i h)))))
      else if t = js ''syncVerifyManifest'' then
        Some (answer ''entries'' (rbind (u8 p ''macKey'') (\<lambda>k. rbind (u8 p ''manifest'') (\<lambda>m. wasm_verify_manifest P k m))))
      else None)"

definition dispatch :: "crates \<Rightarrow> nat \<Rightarrow> jsstr \<Rightarrow> payload \<Rightarrow> failure + payload" where
  "dispatch P seed t p =
     (case dispatch_keys P seed t p of Some r \<Rightarrow> r
      | None \<Rightarrow>
          (case dispatch_sessions P seed t p of Some r \<Rightarrow> r
           | None \<Rightarrow>
               (case dispatch_sync P seed t p of Some r \<Rightarrow> r
                | None \<Rightarrow> Inl (JsErr (js ''Unknown crypto operation: '' @ t)))))"

lemmas dispatch_defs = dispatch_def dispatch_keys_def dispatch_sessions_def dispatch_sync_def u8_def num_u32_def answer_def on_session_def

section \<open>The worker\<close>

fun crypto_error_text :: "crypto_error \<Rightarrow> jsstr" where
  "crypto_error_text InvalidKey = js ''invalid key material''"
| "crypto_error_text SignatureVerification = js ''signature verification failed''"
| "crypto_error_text DecryptionFailed = js ''AEAD decryption failed''"
| "crypto_error_text KeyDerivation = js ''key derivation failed''"
| "crypto_error_text InvalidCiphertext = js ''invalid ciphertext length''"
| "crypto_error_text KemEncapsulation = js ''KEM encapsulation failed''"
| "crypto_error_text KemDecapsulation = js ''KEM decapsulation failed''"
| "crypto_error_text SkipLimitExceeded = js ''too many skipped messages: possible DoS''"
| "crypto_error_text DecompressionFailed = js ''lz4 decompression failed''"
| "crypto_error_text ManifestTampered = js ''manifest MAC verification failed''"

text \<open>A panic aborts the module's call with the trap of an unreachable instruction.\<close>

fun failure_text :: "failure \<Rightarrow> jsstr" where
  "failure_text (Err e) = crypto_error_text e"
| "failure_text (JsErr s) = s"
| "failure_text Panic = js ''unreachable''"

datatype worker_msg = InitWorker | CallWorker jsstr jsstr payload

datatype worker_reply = WorkerReady | WorkerError | Done jsstr payload | Failed jsstr jsstr

text \<open>One message of the worker; \<open>mod\<close> tells that the module is initialised.  Initialising succeeds or not, and ends before the next
  message is taken; calls before it are dropped.\<close>

definition outcome_of :: "crates \<Rightarrow> nat \<Rightarrow> jsstr \<Rightarrow> payload \<Rightarrow> jsstr + payload" where
  "outcome_of P seed t p = (case dispatch P seed t p of Inl e \<Rightarrow> Inl (failure_text e) | Inr r \<Rightarrow> Inr r)"

fun worker_onmessage :: "crates \<Rightarrow> nat \<Rightarrow> bool \<Rightarrow> worker_msg \<Rightarrow> bool \<Rightarrow> worker_reply list \<times> bool" where
  "worker_onmessage P seed init_ok InitWorker m = (if init_ok then ([WorkerReady], True) else ([WorkerError], m))"
| "worker_onmessage P seed init_ok (CallWorker i t p) m =
     (if \<not> m then ([], m)
      else ([case outcome_of P seed t p of Inr r \<Rightarrow> Done i r | Inl e \<Rightarrow> Failed i e], m))"

section \<open>Remote calls\<close>

text \<open>\<open>ready_promise\<close>: pending, resolved or rejected.  A caller is a number; \<open>waiting\<close> holds the calls that await the promise, and \<open>settled\<close>
  what the promises of the calls were settled with.\<close>

record rpc =
  has_instance :: bool
  ready_promise :: "bool option"
  rpc_seq :: nat
  rpc_pending :: "(jsstr, nat) jsmap"
  rpc_waiting :: "(nat \<times> jsstr \<times> payload) list"
  rpc_settled :: "(nat \<times> (jsstr + payload)) list"
  to_worker :: "worker_msg list"
  from_worker :: "worker_reply list"
  worker_mod :: bool

definition rpc_start :: rpc where
  "rpc_start = \<lparr>has_instance = False, ready_promise = None, rpc_seq = 0, rpc_pending = [], rpc_waiting = [], rpc_settled = [],
     to_worker = [], from_worker = [], worker_mod = False\<rparr>"

definition ensureWorker :: "rpc \<Rightarrow> rpc" where
  "ensureWorker s = (if has_instance s then s else s\<lparr>has_instance := True, to_worker := to_worker s @ [InitWorker]\<rparr>)"

definition rpc_call :: "nat \<Rightarrow> jsstr \<Rightarrow> payload \<Rightarrow> rpc \<Rightarrow> rpc" where
  "rpc_call caller t p s = (let s = ensureWorker s in s\<lparr>rpc_waiting := rpc_waiting s @ [(caller, t, p)]\<rparr>)"

text \<open>A call goes on once the promise is settled; of a rejection the text is left out.\<close>

definition rpc_resume :: "nat \<Rightarrow> rpc \<Rightarrow> rpc" where
  "rpc_resume i s =
     (if i \<ge> length (rpc_waiting s) then s
      else
        (case rpc_waiting s ! i of
           (caller, t, p) \<Rightarrow>
             (let rest = take i (rpc_waiting s) @ drop (Suc i) (rpc_waiting s)
              in case ready_promise s of
                   None \<Rightarrow> s
                 | Some False \<Rightarrow> s\<lparr>rpc_waiting := rest, rpc_settled := rpc_settled s @ [(caller, Inl (js ''init failed''))]\<rparr>
                 | Some True \<Rightarrow>
                     (let ident = int_str (int (rpc_seq s + 1))
                      in s\<lparr>rpc_waiting := rest, rpc_seq := rpc_seq s + 1, rpc_pending := mset_at ident caller (rpc_pending s),
                           to_worker := to_worker s @ [CallWorker ident t p]\<rparr>))))"

definition settle_promise :: "bool \<Rightarrow> rpc \<Rightarrow> rpc" where
  "settle_promise ok s = (if ready_promise s = None then s\<lparr>ready_promise := Some ok\<rparr> else s)"

definition rpc_settle :: "jsstr \<Rightarrow> jsstr + payload \<Rightarrow> rpc \<Rightarrow> rpc" where
  "rpc_settle ident r s =
     (case mget (rpc_pending s) ident of
        None \<Rightarrow> s
      | Some caller \<Rightarrow> s\<lparr>rpc_pending := mdelete ident (rpc_pending s), rpc_settled := rpc_settled s @ [(caller, r)]\<rparr>)"

fun client_onmessage :: "worker_reply \<Rightarrow> rpc \<Rightarrow> rpc" where
  "client_onmessage WorkerReady s = settle_promise True s"
| "client_onmessage WorkerError s = settle_promise False s"
| "client_onmessage (Done ident r) s = rpc_settle ident (Inr r) s"
| "client_onmessage (Failed ident e) s = rpc_settle ident (Inl e) s"

text \<open>What can happen: a call, a waiting call going on, the worker taking its next message (with a seed), the client taking the next
  reply, an error event of the worker.\<close>

datatype rpc_event = Ask nat jsstr payload | Resume nat | WorkerTurn nat bool | ClientTurn | WorkerCrash

fun rpc_step :: "crates \<Rightarrow> rpc_event \<Rightarrow> rpc \<Rightarrow> rpc" where
  "rpc_step P (Ask caller t p) s = rpc_call caller t p s"
| "rpc_step P (Resume i) s = rpc_resume i s"
| "rpc_step P (WorkerTurn seed ok) s =
     (case to_worker s of
        [] \<Rightarrow> s
      | m # ms \<Rightarrow> (case worker_onmessage P seed ok m (worker_mod s) of
                    (rs, m') \<Rightarrow> s\<lparr>to_worker := ms, from_worker := from_worker s @ rs, worker_mod := m'\<rparr>))"
| "rpc_step P ClientTurn s = (case from_worker s of [] \<Rightarrow> s | r # rs \<Rightarrow> client_onmessage r (s\<lparr>from_worker := rs\<rparr>))"
| "rpc_step P WorkerCrash s = settle_promise False s"

definition rpc_run :: "crates \<Rightarrow> rpc_event list \<Rightarrow> rpc \<Rightarrow> rpc" where
  "rpc_run P es s = fold (rpc_step P) es s"

section \<open>Every call has its own answer\<close>

definition asked :: "rpc_event list \<Rightarrow> (nat \<times> jsstr \<times> payload) set" where
  "asked es = {(c, t, p). Ask c t p \<in> set es}"

fun call_id :: "worker_msg \<Rightarrow> jsstr option" where
  "call_id (CallWorker i t p) = Some i"
| "call_id InitWorker = None"

fun reply_id :: "worker_reply \<Rightarrow> jsstr option" where
  "reply_id (Done i r) = Some i"
| "reply_id (Failed i e) = Some i"
| "reply_id _ = None"

text \<open>The identifiers under way: each once, each with its pending caller.\<close>

definition in_flight :: "rpc \<Rightarrow> jsstr list" where
  "in_flight s = List.map_filter call_id (to_worker s) @ List.map_filter reply_id (from_worker s)"

fun reply_right :: "crates \<Rightarrow> (nat \<times> jsstr \<times> payload) set \<Rightarrow> (jsstr, nat) jsmap \<Rightarrow> worker_reply \<Rightarrow> bool" where
  "reply_right P A pend (Done i r) = (\<exists>c t p seed. mget pend i = Some c \<and> (c, t, p) \<in> A \<and> outcome_of P seed t p = Inr r)"
| "reply_right P A pend (Failed i e) = (\<exists>c t p seed. mget pend i = Some c \<and> (c, t, p) \<in> A \<and> outcome_of P seed t p = Inl e)"
| "reply_right P A pend _ = True"

fun call_right :: "(nat \<times> jsstr \<times> payload) set \<Rightarrow> (jsstr, nat) jsmap \<Rightarrow> worker_msg \<Rightarrow> bool" where
  "call_right A pend (CallWorker i t p) = (\<exists>c. mget pend i = Some c \<and> (c, t, p) \<in> A)"
| "call_right A pend InitWorker = True"

definition settled_right :: "crates \<Rightarrow> (nat \<times> jsstr \<times> payload) set \<Rightarrow> nat \<times> (jsstr + payload) \<Rightarrow> bool" where
  "settled_right P A e \<longleftrightarrow>
     (\<exists>t p. (fst e, t, p) \<in> A \<and> ((\<exists>seed. snd e = outcome_of P seed t p) \<or> snd e = Inl (js ''init failed'')))"

definition rpc_inv :: "crates \<Rightarrow> (nat \<times> jsstr \<times> payload) set \<Rightarrow> rpc \<Rightarrow> bool" where
  "rpc_inv P A s \<longleftrightarrow>
     set (rpc_waiting s) \<subseteq> A \<and> distinct (in_flight s) \<and> (\<forall>i c. mget (rpc_pending s) i = Some c \<longrightarrow> (\<exists>n \<le> rpc_seq s. i = int_str (int n)))
     \<and> (\<forall>m \<in> set (to_worker s). call_right A (rpc_pending s) m) \<and> (\<forall>r \<in> set (from_worker s). reply_right P A (rpc_pending s) r)
     \<and> (\<forall>e \<in> set (rpc_settled s). settled_right P A e)"

lemma flight_pending:
  assumes "rpc_inv P A s" "i \<in> set (in_flight s)"
  shows "mget (rpc_pending s) i \<noteq> None"
proof -
  from assms(2) consider m where "m \<in> set (to_worker s)" "call_id m = Some i" | r where "r \<in> set (from_worker s)" "reply_id r = Some i"
    unfolding in_flight_def by (force simp: List.map_filter_def)
  then show ?thesis
  proof cases
    case (1 m)
    then have "call_right A (rpc_pending s) m" using assms(1) by (simp add: rpc_inv_def)
    then show ?thesis using 1(2) by (cases m) auto
  next
    case (2 r)
    then have "reply_right P A (rpc_pending s) r" using assms(1) by (simp add: rpc_inv_def)
    then show ?thesis using 2(2) by (cases r) auto
  qed
qed

lemma call_right_mono:
  assumes "call_right A pend m" "\<And>j. call_id m = Some j \<Longrightarrow> mget pend' j = mget pend j"
  shows "call_right A pend' m"
  using assms by (cases m) auto

lemma reply_right_mono:
  assumes "reply_right P A pend r" "\<And>j. reply_id r = Some j \<Longrightarrow> mget pend' j = mget pend j"
  shows "reply_right P A pend' r"
  using assms by (cases r) auto

lemma filter_last: "List.map_filter f (xs @ [x]) = List.map_filter f xs @ (case f x of None \<Rightarrow> [] | Some y \<Rightarrow> [y])"
  by (simp add: List.map_filter_def split: option.splits)

lemma set_map_filter: "set (List.map_filter f xs) = {y. \<exists>x \<in> set xs. f x = Some y}"
  by (force simp: List.map_filter_def)

text \<open>Changing the pending caller of an identifier that is not among the messages.\<close>

lemma calls_right_upd:
  assumes "\<forall>m \<in> set ms. call_right A pend m" "i \<notin> set (List.map_filter call_id ms)" "\<And>j. j \<noteq> i \<Longrightarrow> mget pend' j = mget pend j"
  shows "\<forall>m \<in> set ms. call_right A pend' m"
proof
  fix m assume m: "m \<in> set ms"
  have "call_id m \<noteq> Some i" using assms(2) m unfolding set_map_filter by blast
  then have "mget pend' j = mget pend j" if "call_id m = Some j" for j using that assms(3)[of j] by metis
  then show "call_right A pend' m" using call_right_mono bspec[OF assms(1) m] by blast
qed

lemma replies_right_upd:
  assumes "\<forall>r \<in> set rs. reply_right P A pend r" "i \<notin> set (List.map_filter reply_id rs)" "\<And>j. j \<noteq> i \<Longrightarrow> mget pend' j = mget pend j"
  shows "\<forall>r \<in> set rs. reply_right P A pend' r"
proof
  fix r assume r: "r \<in> set rs"
  have "reply_id r \<noteq> Some i" using assms(2) r unfolding set_map_filter by blast
  then have "mget pend' j = mget pend j" if "reply_id r = Some j" for j using that assms(3)[of j] by metis
  then show "reply_right P A pend' r" using reply_right_mono bspec[OF assms(1) r] by blast
qed

lemma rpc_invD:
  assumes "rpc_inv P A s"
  shows "\<forall>m \<in> set (to_worker s). call_right A (rpc_pending s) m" "\<forall>r \<in> set (from_worker s). reply_right P A (rpc_pending s) r"
  using assms unfolding rpc_inv_def by blast+

lemma inv_ensure: "rpc_inv P A s \<Longrightarrow> rpc_inv P A (ensureWorker s)"
  by (auto simp: ensureWorker_def rpc_inv_def in_flight_def filter_last)

lemma inv_ask: "rpc_inv P A s \<Longrightarrow> (c, t, p) \<in> A \<Longrightarrow> rpc_inv P A (rpc_call c t p s)"
  using inv_ensure[of P A s] by (simp add: rpc_call_def Let_def rpc_inv_def in_flight_def)

lemma inv_settle_promise: "rpc_inv P A s \<Longrightarrow> rpc_inv P A (settle_promise ok s)"
  by (simp add: settle_promise_def rpc_inv_def in_flight_def)

text \<open>A new identifier is not pending, so not under way.\<close>

lemma new_ident:
  assumes "rpc_inv P A s"
  shows "int_str (int (rpc_seq s + 1)) \<notin> set (in_flight s)"
proof
  assume "int_str (int (rpc_seq s + 1)) \<in> set (in_flight s)"
  from flight_pending[OF assms this] obtain c where "mget (rpc_pending s) (int_str (int (rpc_seq s + 1))) = Some c" by auto
  with assms obtain n where "n \<le> rpc_seq s" "int_str (int (rpc_seq s + 1)) = int_str (int n)" unfolding rpc_inv_def by blast
  then show False by (simp only: int_str_inj)
qed

lemma inv_post:
  assumes inv: "rpc_inv P A s" and A: "(c, t, p) \<in> A" and W: "set w \<subseteq> A" and i: "i = int_str (int (rpc_seq s + 1))"
  shows "rpc_inv P A (s\<lparr>rpc_waiting := w, rpc_seq := rpc_seq s + 1, rpc_pending := mset_at i c (rpc_pending s),
           to_worker := to_worker s @ [CallWorker i t p]\<rparr>)"
proof -
  note new = new_ident[OF inv, folded i]
  have calls: "\<forall>m \<in> set (to_worker s). call_right A (mset_at i c (rpc_pending s)) m"
    by (rule calls_right_upd[OF rpc_invD(1)[OF inv], of i]) (use new in \<open>simp_all add: in_flight_def\<close>)
  have replies: "\<forall>r \<in> set (from_worker s). reply_right P A (mset_at i c (rpc_pending s)) r"
    by (rule replies_right_upd[OF rpc_invD(2)[OF inv], of i]) (use new in \<open>simp_all add: in_flight_def\<close>)
  have ids: "\<exists>n \<le> rpc_seq s + 1. j = int_str (int n)" if "mget (mset_at i c (rpc_pending s)) j = Some c'" for j c'
  proof (cases "i = j")
    case True
    then show ?thesis using i by blast
  next
    case False
    with that inv obtain n where "n \<le> rpc_seq s" "j = int_str (int n)" by (auto simp: rpc_inv_def)
    then show ?thesis by (intro exI[of _ n]) simp
  qed
  have call: "call_right A (mset_at i c (rpc_pending s)) (CallWorker i t p)" using A by simp
  have flight: "distinct (List.map_filter call_id (to_worker s) @ [i] @ List.map_filter reply_id (from_worker s))"
    using inv new by (auto simp: rpc_inv_def in_flight_def)
  show ?thesis
    unfolding rpc_inv_def
  proof (intro conjI)
    show "distinct (in_flight (s\<lparr>rpc_waiting := w, rpc_seq := rpc_seq s + 1, rpc_pending := mset_at i c (rpc_pending s),
           to_worker := to_worker s @ [CallWorker i t p]\<rparr>))"
      using flight by (simp add: in_flight_def filter_last)
  qed (use inv W call calls replies ids in \<open>simp_all add: rpc_inv_def del: mget_mset call_right.simps\<close>)
qed

lemma inv_resume:
  assumes inv: "rpc_inv P A s"
  shows "rpc_inv P A (rpc_resume i s)"
proof (cases "i \<ge> length (rpc_waiting s)")
  case False
  obtain c t p where e: "rpc_waiting s ! i = (c, t, p)" using prod_cases3 by blast
  let ?rest = "take i (rpc_waiting s) @ drop (Suc i) (rpc_waiting s)"
  have W: "set ?rest \<subseteq> A" "(c, t, p) \<in> A"
    using inv False nth_mem[of i "rpc_waiting s"] e by (auto simp: rpc_inv_def dest!: in_set_takeD in_set_dropD)
  show ?thesis
  proof (cases "ready_promise s")
    case (Some b)
    then show ?thesis
      using False e W inv inv_post[OF inv W(2,1) refl]
      by (cases b) (auto simp: rpc_resume_def Let_def rpc_inv_def in_flight_def settled_right_def)
  qed (use inv e False in \<open>simp add: rpc_resume_def Let_def\<close>)
qed (use inv in \<open>simp add: rpc_resume_def\<close>)

text \<open>The worker's answer carries the identifier of the call it takes.\<close>

lemma inv_worker:
  assumes inv: "rpc_inv P A s" and m: "to_worker s = m # ms" and w: "worker_onmessage P seed ok m (worker_mod s) = (rs, m')"
  shows "rpc_inv P A (s\<lparr>to_worker := ms, from_worker := from_worker s @ rs, worker_mod := m'\<rparr>)"
proof (cases m)
  case InitWorker
  then show ?thesis using inv m w by (cases ok) (auto simp: rpc_inv_def in_flight_def List.map_filter_simps filter_last)
next
  case (CallWorker i t p)
  then have "call_right A (rpc_pending s) (CallWorker i t p)" using inv m by (simp add: rpc_inv_def)
  then obtain c where c: "mget (rpc_pending s) i = Some c" "(c, t, p) \<in> A" by auto
  show ?thesis
    using inv m w CallWorker c
    by (cases "worker_mod s"; cases "outcome_of P seed t p") (auto simp: rpc_inv_def in_flight_def List.map_filter_simps filter_last)
qed

lemma inv_client:
  assumes inv: "rpc_inv P A s" and r: "from_worker s = r # rs"
  shows "rpc_inv P A (client_onmessage r (s\<lparr>from_worker := rs\<rparr>))"
proof (cases "reply_id r")
  case None
  have "rpc_inv P A (s\<lparr>from_worker := rs\<rparr>)" using inv r None by (simp add: rpc_inv_def in_flight_def List.map_filter_simps)
  then show ?thesis using None inv_settle_promise by (cases r) auto
next
  case (Some i)
  let ?res = "case r of Done j x \<Rightarrow> Inr x | Failed j e \<Rightarrow> Inl e | _ \<Rightarrow> undefined"
  have "reply_right P A (rpc_pending s) r" using inv r by (simp add: rpc_inv_def)
  then obtain c where c: "mget (rpc_pending s) i = Some c" "settled_right P A (c, ?res)"
    using Some by (cases r) (auto simp: settled_right_def, metis+)
  have step: "client_onmessage r (s\<lparr>from_worker := rs\<rparr>)
      = s\<lparr>from_worker := rs, rpc_pending := mdelete i (rpc_pending s), rpc_settled := rpc_settled s @ [(c, ?res)]\<rparr>"
    using Some c(1) by (cases r) (auto simp: rpc_settle_def)
  have new: "i \<notin> set (List.map_filter call_id (to_worker s))" "i \<notin> set (List.map_filter reply_id rs)"
    using inv r Some by (auto simp: rpc_inv_def in_flight_def List.map_filter_simps)
  have calls: "\<forall>m \<in> set (to_worker s). call_right A (mdelete i (rpc_pending s)) m"
    by (rule calls_right_upd[OF rpc_invD(1)[OF inv] new(1)]) simp
  have replies: "\<forall>q \<in> set rs. reply_right P A (mdelete i (rpc_pending s)) q"
    by (rule replies_right_upd[OF _ new(2), of P A "rpc_pending s"]) (use rpc_invD(2)[OF inv] r in simp_all)
  show ?thesis unfolding step
    using inv r Some c(2) calls replies by (auto simp: rpc_inv_def in_flight_def List.map_filter_simps)
qed

lemma inv_rpc_step: "rpc_inv P A s \<Longrightarrow> (\<And>c t p. e = Ask c t p \<Longrightarrow> (c, t, p) \<in> A) \<Longrightarrow> rpc_inv P A (rpc_step P e s)"
proof (cases e)
  case (WorkerTurn seed ok)
  then show "rpc_inv P A s \<Longrightarrow> ?thesis" by (auto split: list.split prod.split intro: inv_worker)
next
  case ClientTurn
  then show "rpc_inv P A s \<Longrightarrow> ?thesis" by (auto split: list.split intro: inv_client)
qed (auto intro: inv_ask inv_resume inv_settle_promise)

lemma inv_rpc_run:
  "rpc_inv P A s \<Longrightarrow> asked es \<subseteq> A \<Longrightarrow> rpc_inv P A (rpc_run P es s)"
proof (induction es arbitrary: s)
  case (Cons e es)
  have "rpc_inv P A (rpc_step P e s)" using Cons.prems by (intro inv_rpc_step) (auto simp: asked_def)
  moreover have "asked es \<subseteq> A" using Cons.prems(2) by (auto simp: asked_def)
  ultimately show ?case using Cons.IH by (simp add: rpc_run_def)
qed (simp add: rpc_run_def)

text \<open>C18. Remote calls do not get mixed up: whatever the order of calls, of the worker's turns, of its answers and of its crashes, a call
  that settles does so with the outcome that the worker's dispatch has for the operation and the payload of this very caller, or with the
  failure of the worker's initialisation.\<close>

theorem call_answers:
  assumes "(caller, r) \<in> set (rpc_settled (rpc_run P es rpc_start))"
  shows "\<exists>t p. Ask caller t p \<in> set es \<and> ((\<exists>seed. r = outcome_of P seed t p) \<or> r = Inl (js ''init failed''))"
proof -
  have "rpc_inv P (asked es) rpc_start" by (simp add: rpc_inv_def rpc_start_def in_flight_def List.map_filter_simps)
  from inv_rpc_run[OF this order_refl] assms have "settled_right P (asked es) (caller, r)" unfolding rpc_inv_def by blast
  then show ?thesis by (auto simp: settled_right_def asked_def)
qed

text \<open>Two callers at once; the second asks for something the worker does not know.\<close>

definition two_callers :: "rpc_event list" where
  "two_callers = [Ask 1 (js ''syncGenerateOtp'') [], Ask 2 (js ''noSuchThing'') [], WorkerTurn 0 True, ClientTurn, Resume 1, Resume 0,
     WorkerTurn 0 True, WorkerTurn 0 True, ClientTurn, ClientTurn]"

lemma second_answered: "(2, Inl (js ''Unknown crypto operation: noSuchThing'')) \<in> set (rpc_settled (rpc_run P two_callers rpc_start))"
  by (simp add: two_callers_def rpc_run_def rpc_start_def rpc_call_def ensureWorker_def rpc_resume_def settle_promise_def rpc_settle_def
      outcome_of_def dispatch_defs Let_def js_def)

theorem call_answers_witness:
  "\<exists>t p. Ask 2 t p \<in> set two_callers
     \<and> ((\<exists>seed. Inl (js ''Unknown crypto operation: noSuchThing'') = outcome_of toy_crates seed t p)
        \<or> (Inl (js ''Unknown crypto operation: noSuchThing'') :: jsstr + payload) = Inl (js ''init failed''))"
  by (rule call_answers[OF second_answered])

end
