(* ===== verification/RustLaws.thy ===== *)
theory RustLaws
  imports E2EProperties DeviceTransfer ClientMessageProps CryptoWorker
begin

text \<open>
  The cryptographic core behind the client: the operations that the client's model takes as parameters, defined as calls of the worker's
  dispatch into the WASM module, and the proof that they have everything the client's theorems assume of them.  So the end-to-end theorems
  of the client hold for the program's own core, and rest on the crates of \<open>RustPrims\<close> only.
\<close>

section \<open>Calls of the client\<close>

text \<open>\<open>call(type, payload)\<close> of \<open>cryptoWorkerClient.ts\<close> once it settles, \<open>None\<close> when it throws.\<close>

definition wasm_call :: "crates \<Rightarrow> nat \<Rightarrow> string \<Rightarrow> (string \<times> js_val) list \<Rightarrow> payload option" where
  "wasm_call P seed t p = (case outcome_of P seed (js t) (map (\<lambda>(k, v). (js k, v)) p) of Inl e \<Rightarrow> None | Inr r \<Rightarrow> Some r)"

definition field :: "string \<Rightarrow> payload \<Rightarrow> bytes" where
  "field name r = (case map_of r (js name) of Some (U8 b) \<Rightarrow> b | _ \<Rightarrow> [])"

definition get1 :: "string \<Rightarrow> payload option \<Rightarrow> bytes option" where
  "get1 a r = map_option (field a) r"

definition get2 :: "string \<Rightarrow> string \<Rightarrow> payload option \<Rightarrow> (bytes \<times> bytes) option" where
  "get2 a b r = map_option (\<lambda>r. (field a r, field b r)) r"

text \<open>Where the client's model has no failure, the value of a failed call is never looked at.\<close>

definition sure :: "bytes option \<Rightarrow> bytes" where
  "sure r = (case r of None \<Rightarrow> [] | Some b \<Rightarrow> b)"

definition rust_wasm :: "crates \<Rightarrow> wasm" where
  "rust_wasm P =
     \<lparr>generateDhKeypair = (\<lambda>seed. sure (get1 ''keypair'' (wasm_call P seed ''generateKeyAgreementKeypair'' []))),
      generateSigningKeypair = (\<lambda>seed. sure (get1 ''keypair'' (wasm_call P seed ''generateSigningKeypair'' []))),
      ed25519_sign = (\<lambda>s m. sure (get1 ''sig'' (wasm_call P 0 ''sign'' [(''seed'', U8 s), (''message'', U8 m)]))),
      encryptKeyWithPin = (\<lambda>seed k pin. sure (get1 ''blob'' (wasm_call P seed ''encryptKeyWithPin'' [(''keyBytes'', U8 k), (''pin'', U8 pin)]))),
      decryptKeyWithPin = (\<lambda>b pin. get1 ''keyBytes'' (wasm_call P 0 ''decryptKeyWithPin'' [(''blobBytes'', U8 b), (''pin'', U8 pin)])),
      x3dhSend = (\<lambda>seed ik b. get1 ''result'' (wasm_call P seed ''x3dhSend'' [(''ourIkDhSecret'', U8 ik), (''bundleBytes'', U8 b)])),
      x3dhReceive = (\<lambda>ik spk opk i. get1 ''sk'' (wasm_call P 0 ''x3dhReceive''
        [(''ourIkDhSecret'', U8 ik), (''ourSpkSecret'', U8 spk), (''ourOpkSecret'', U8 opk), (''initMsgBytes'', U8 i)])),
      ratchetInitSender = (\<lambda>seed sk pub. get1 ''sessionBytes'' (wasm_call P seed ''ratchetInitSender'' [(''sk'', U8 sk), (''bobDhPub'', U8 pub)])),
      ratchetInitReceiver = (\<lambda>sk dh. get1 ''sessionBytes'' (wasm_call P 0 ''ratchetInitReceiver'' [(''sk'', U8 sk), (''ourDhSecret'', U8 dh)])),
      ratchetEncrypt = (\<lambda>seed s p. get2 ''ciphertext'' ''newSessionBytes'' (wasm_call P seed ''ratchetEncrypt''
        [(''sessionBytes'', U8 s), (''plaintext'', U8 p), (''aad'', U8 [])])),
      ratchetDecrypt = (\<lambda>seed s c. get2 ''plaintext'' ''newSessionBytes'' (wasm_call P seed ''ratchetDecrypt''
        [(''sessionBytes'', U8 s), (''data'', U8 c), (''aad'', U8 [])])),
      groupSenderGenerate = (\<lambda>seed. case get2 ''senderBytes'' ''distMsg'' (wasm_call P seed ''groupSenderGenerate'' []) of None \<Rightarrow> ([], []) | Some r \<Rightarrow> r),
      groupSenderEncrypt = (\<lambda>s p. get2 ''ciphertext'' ''newSenderBytes'' (wasm_call P 0 ''groupSenderEncrypt'' [(''senderBytes'', U8 s), (''plaintext'', U8 p)])),
      groupReceiverFromDist = (\<lambda>d. get1 ''receiverBytes'' (wasm_call P 0 ''groupReceiverFromDist'' [(''distMsgBytes'', U8 d)])),
      groupReceiverDecrypt = (\<lambda>r c. get2 ''plaintext'' ''newReceiverBytes'' (wasm_call P 0 ''groupReceiverDecrypt'' [(''receiverBytes'', U8 r), (''data'', U8 c)]))\<rparr>"

text \<open>The calls of a device sync; the hash is WebCrypto's SHA-256.\<close>

definition rust_sync :: "crates \<Rightarrow> nat \<Rightarrow> sync_crypto" where
  "rust_sync P seed =
     \<lparr>sealChunk = (\<lambda>keys n p. sure (get1 ''sealed'' (wasm_call P seed ''syncSealChunk'' [(''keys'', U8 keys), (''seq'', JsNum (uint n)), (''plaintext'', U8 p)]))),
      openChunk = (\<lambda>keys n d. get1 ''plain'' (wasm_call P 0 ''syncOpenChunk'' [(''keys'', U8 keys), (''seq'', JsNum (uint n)), (''data'', U8 d)])),
      buildManifest = (\<lambda>k ids hashes. sure (get1 ''manifest'' (wasm_call P 0 ''syncBuildManifest'' [(''macKey'', U8 k), (''ids'', U8 ids), (''hashes'', U8 hashes)]))),
      verifyManifest = (\<lambda>k m. get1 ''entries'' (wasm_call P 0 ''syncVerifyManifest'' [(''macKey'', U8 k), (''manifest'', U8 m)])),
      deriveKeys = (\<lambda>secret pub otp. sure (get1 ''keys'' (wasm_call P 0 ''syncDeriveKeys'' [(''secret'', U8 secret), (''peerPub'', U8 pub), (''otp'', U8 otp)]))),
      sha256 = sha256_crate P\<rparr>"

section \<open>What each call computes\<close>

definition given :: "failure + 'a \<Rightarrow> 'a option" where
  "given r = (case r of Inl _ \<Rightarrow> None | Inr x \<Rightarrow> Some x)"

lemma given [simp]: "given (Inr x) = Some x" "given (Inl e) = None"
  by (simp_all add: given_def)

lemma sure [simp]: "sure (Some b) = b" "sure None = []"
  by (simp_all add: sure_def)

text \<open>A call on a stored state: nothing is stored unless it succeeds.\<close>

definition stored_call :: "(bytes \<Rightarrow> failure + 's) \<Rightarrow> ('s \<Rightarrow> bytes) \<Rightarrow> ('s \<Rightarrow> (failure + bytes) \<times> 's) \<Rightarrow> bytes \<Rightarrow> (bytes \<times> bytes) option" where
  "stored_call from to f b =
     (case from b of Inl _ \<Rightarrow> None | Inr s \<Rightarrow> (case f s of (Inl _, _) \<Rightarrow> None | (Inr r, s') \<Rightarrow> Some (r, to s')))"

lemma stored_callI: "from b = Inr s \<Longrightarrow> f s = (Inr r, s') \<Longrightarrow> stored_call from to f b = Some (r, to s')"
  by (simp add: stored_call_def)

lemmas call_defs = wasm_call_def outcome_of_def dispatch_defs get1_def get2_def field_def given_def stored_call_def rbind_def

lemma key_calls:
  "generateDhKeypair (rust_wasm P) seed = generate_key_agreement_keypair P seed"
  "generateSigningKeypair (rust_wasm P) seed = generate_signing_keypair P seed"
  "ed25519_sign (rust_wasm P) s m = sure (given (wasm_sign P s m))"
  "encryptKeyWithPin (rust_wasm P) seed k pin = sure (given (wasm_encrypt_key P seed k pin))"
  "decryptKeyWithPin (rust_wasm P) b pin = given (wasm_decrypt_key P b pin)"
  by (simp_all add: rust_wasm_def call_defs split: sum.split)

lemma x3dh_calls:
  "x3dhSend (rust_wasm P) seed ik b = given (wasm_x3dh_send P seed ik b)"
  "x3dhReceive (rust_wasm P) ik spk opk i = given (wasm_x3dh_receive P ik spk opk i)"
  by (simp_all add: rust_wasm_def call_defs split: sum.split)

lemma session_calls:
  "ratchetInitSender (rust_wasm P) seed sk pub = map_option ratchet_to_bytes (given (session_init_sender P seed sk pub))"
  "ratchetInitReceiver (rust_wasm P) sk dh = map_option ratchet_to_bytes (given (session_init_receiver sk dh))"
  by (simp_all add: rust_wasm_def call_defs split: sum.split)

lemma message_calls:
  "ratchetEncrypt (rust_wasm P) seed s p = stored_call ratchet_from_bytes ratchet_to_bytes (session_encrypt P p []) s"
  "ratchetDecrypt (rust_wasm P) seed s c = stored_call ratchet_from_bytes ratchet_to_bytes (session_decrypt P seed c []) s"
  by (simp_all add: rust_wasm_def call_defs split: sum.split prod.split)

lemma group_calls:
  "groupSenderGenerate (rust_wasm P) seed
   = (sender_to_bytes (sender_generate P seed), distribution_to_bytes (create_distribution_message P (sender_generate P seed)))"
  "groupReceiverFromDist (rust_wasm P) d = map_option receiver_to_bytes (given (receiver_from_distribution d))"
  "groupSenderEncrypt (rust_wasm P) s p = stored_call sender_from_bytes sender_to_bytes (wasm_group_encrypt P p) s"
  "groupReceiverDecrypt (rust_wasm P) r c = stored_call receiver_from_bytes receiver_to_bytes (wasm_group_decrypt P c) r"
  by (simp_all add: rust_wasm_def call_defs Let_def split: sum.split prod.split)

lemma sync_calls:
  "sealChunk (rust_sync P seed) keys n p = sure (given (wasm_seal_chunk P seed keys n p))"
  "openChunk (rust_sync P seed) keys n d = given (wasm_open_chunk P keys n d)"
  "buildManifest (rust_sync P seed) k seqs hashes = sure (given (wasm_build_manifest P k seqs hashes))"
  "verifyManifest (rust_sync P seed) k m = given (wasm_verify_manifest P k m)"
  "deriveKeys (rust_sync P seed) secret pub otp = sure (given (wasm_derive_keys P secret pub otp))"
  by (simp_all add: rust_sync_def call_defs split: sum.split)

section \<open>The laws\<close>

definition rust_ready :: "crates \<Rightarrow> bytes set \<Rightarrow> bytes \<Rightarrow> bytes \<Rightarrow> bool" where
  "rust_ready P U s r \<longleftrightarrow>
     (\<exists>S R. s = ratchet_to_bytes S \<and> r = ratchet_to_bytes R \<and> ratchet_ok S \<and> ratchet_ok R \<and> mkskipped S = [] \<and> mkskipped R = []
        \<and> in_contact P S R \<and> ratchet_public P S \<in> U \<and> ratchet_public P R \<in> U)"

definition rust_keys :: "crates \<Rightarrow> key_theory" where
  "rust_keys P =
     \<lparr>dh_pub = agreement_public_key P, sign_pub = identity_public_key P,
      drawn = (\<lambda>seed. agreement_public_key P (agreement_generate P ForRatchet seed)), ready = rust_ready P\<rparr>"

lemma rust_keys [simp]:
  "dh_pub (rust_keys P) = agreement_public_key P" "sign_pub (rust_keys P) = identity_public_key P"
  "drawn (rust_keys P) seed = agreement_public_key P (agreement_generate P ForRatchet seed)" "ready (rust_keys P) = rust_ready P"
  by (simp_all add: rust_keys_def)

lemma key32_sized: "key32 s \<longleftrightarrow> sized 32 s"
  by (simp add: key32_def sized_def)

lemma rust_sign: "sized 32 s \<Longrightarrow> ed25519_sign (rust_wasm P) s m = identity_sign P s m"
  by (simp add: key_calls wasm_sign_def sized_def)

lemma rust_key_laws:
  assumes "crate_laws P"
  shows "key_laws (rust_wasm P) (rust_keys P)"
  unfolding key_laws_def
proof (intro conjI allI impI)
  fix s m :: bytes and seed :: nat
  show "key32 (dh_pub (rust_keys P) s)" "key32 (sign_pub (rust_keys P) s)" if "key32 s"
    using crate_keys[OF assms] that by (simp_all add: key32_sized agreement_public_key_def identity_public_key_def)
  show "length (ed25519_sign (rust_wasm P) s m) = 64" "is_bytes (ed25519_sign (rust_wasm P) s m)" if "key32 s \<and> is_bytes m"
    using crate_keys(4)[OF assms] that by (simp_all add: key32_sized rust_sign identity_sign_def sized_def)
  show "\<exists>s. generateDhKeypair (rust_wasm P) seed = s @ dh_pub (rust_keys P) s \<and> key32 s"
    using generated_sized(1)[OF assms] by (auto simp: key_calls generate_key_agreement_keypair_def key32_sized Let_def)
  show "\<exists>s. generateSigningKeypair (rust_wasm P) seed = s @ sign_pub (rust_keys P) s \<and> key32 s"
    using generated_sized(2)[OF assms] by (auto simp: key_calls generate_signing_keypair_def key32_sized Let_def)
qed

lemma parse_own_bundle:
  assumes "crate_laws P" "sized 32 seed" "sized 32 ik" "sized 32 spk"
  shows "parse_bundle (identity_public_key P seed @ agreement_public_key P ik @ agreement_public_key P spk
      @ identity_sign P seed (agreement_public_key P spk) @ [0]) = Inr (own_bundle P seed ik spk None)"
proof -
  have "length (identity_public_key P seed) = 32" "length (agreement_public_key P ik) = 32" "length (agreement_public_key P spk) = 32"
    "length (identity_sign P seed (agreement_public_key P spk)) = 64"
    using crate_keys[OF assms(1)] assms(2-4) by (simp_all add: identity_public_key_def agreement_public_key_def identity_sign_def sized_def)
  then show ?thesis by (simp add: parse_bundle_def own_bundle_def byte_range_def nth_append)
qed

lemma rust_x3dh_laws:
  assumes "crate_laws P"
  shows "x3dh_laws (rust_wasm P) (rust_keys P)"
  unfolding x3dh_laws_def
proof (intro allI impI)
  fix rnd a ik spk b
  assume h: "key32 a \<and> valid_bundle (rust_wasm P) (rust_keys P) ik spk b"
  then obtain seed where s: "sized 32 a" "sized 32 ik" "sized 32 spk" "sized 32 seed"
    and b: "b = identity_public_key P seed @ agreement_public_key P ik @ agreement_public_key P spk
      @ identity_sign P seed (agreement_public_key P spk) @ [0]"
    by (auto simp: valid_bundle_def key32_sized rust_sign)
  obtain sk init where x: "x3dh_send P rnd a (own_bundle P seed ik spk None) = Inr (sk, init)" "sized 32 sk" "i_ik_dh init = agreement_public_key P a"
    "i_ek init = agreement_public_key P (agreement_generate P ForEphemeral rnd)" "\<not> i_opk_used init" "x3dh_receive P ik spk None init = Inr sk"
    using x3dh_agreement[OF assms s(1,4,2,3), of None rnd, THEN conjunct1] by auto
  have pub: "sized 32 (i_ik_dh init)" "sized 32 (i_ek init)"
    using x(3,4) agreement_key(1)[OF assms] s(1) generated_sized(1)[OF assms] by simp_all
  let ?m = "i_ik_dh init @ i_ek init @ [0]"
  have "x3dhSend (rust_wasm P) rnd a b = Some (sk @ ?m)"
    using x(1,5) s(1) by (simp add: x3dh_calls wasm_x3dh_send_def b parse_own_bundle[OF assms s(4,2,3)] sized_def)
  moreover have "x3dhReceive (rust_wasm P) ik spk [] ?m = Some sk"
    using x(5,6) s(2,3) pub by (cases init) (simp add: x3dh_calls wasm_x3dh_receive_def byte_range_def nth_append sized_def)
  ultimately show "\<exists>sk initMsg. x3dhSend (rust_wasm P) rnd a b = Some (sk @ initMsg) \<and> length sk = 32 \<and> is_bytes sk \<and> length initMsg = 65
      \<and> is_bytes initMsg \<and> x3dhReceive (rust_wasm P) ik spk [] initMsg = Some sk"
    using x(2) pub by (intro exI[of _ sk] exI[of _ ?m]) (simp add: sized_def)
qed

lemma rust_readyI:
  assumes "ratchet_ok S" "ratchet_ok R" "mkskipped S = []" "mkskipped R = []" "in_contact P S R" "ratchet_public P S \<in> U" "ratchet_public P R \<in> U"
  shows "rust_ready P U (ratchet_to_bytes S) (ratchet_to_bytes R)"
  using assms unfolding rust_ready_def by blast

lemma rust_init:
  assumes "crate_laws P" "sized 32 sk" "sized 32 spk"
  shows "\<exists>s r. ratchetInitSender (rust_wasm P) rnd sk (agreement_public_key P spk) = Some s \<and> ratchetInitReceiver (rust_wasm P) sk spk = Some r
    \<and> rust_ready P {agreement_public_key P (agreement_generate P ForRatchet rnd), agreement_public_key P spk} s r"
proof -
  obtain S where S: "init_sender P rnd sk (agreement_public_key P spk) = Inr S" "turned P S (init_receiver sk spk)"
    "r_dhs S = agreement_generate P ForRatchet rnd" "ratchet_ok S" "ratchet_ok (init_receiver sk spk)" "mkskipped S = []"
    by (rule init_contact[OF assms])
  have len: "length sk = 32" "length spk = 32" "length (agreement_public_key P spk) = 32"
    using assms(2,3) agreement_key(2)[OF assms(1,3)] by (simp_all add: sized_def)
  have "ratchetInitSender (rust_wasm P) rnd sk (agreement_public_key P spk) = Some (ratchet_to_bytes S)"
    "ratchetInitReceiver (rust_wasm P) sk spk = Some (ratchet_to_bytes (init_receiver sk spk))"
    using S(1) len by (simp_all add: session_calls session_init_sender_def session_init_receiver_def)
  moreover have "rust_ready P {agreement_public_key P (agreement_generate P ForRatchet rnd), agreement_public_key P spk}
      (ratchet_to_bytes S) (ratchet_to_bytes (init_receiver sk spk))"
    using S(2-6) by (intro rust_readyI) (simp_all add: in_contact_def init_receiver_def)
  ultimately show ?thesis by blast
qed

lemma rust_step:
  assumes "crate_laws P" "rust_ready P U s r" "is_bytes p"
  shows "\<exists>c s' r'. ratchetEncrypt (rust_wasm P) rnd s p = Some (c, s') \<and> is_bytes c \<and> ratchetDecrypt (rust_wasm P) seed r c = Some (p, r')
    \<and> (agreement_public_key P (agreement_generate P ForRatchet seed) \<notin> U \<longrightarrow>
         rust_ready P (insert (agreement_public_key P (agreement_generate P ForRatchet seed)) U) s' r'
         \<and> rust_ready P (insert (agreement_public_key P (agreement_generate P ForRatchet seed)) U) r' s')"
proof -
  let ?new = "agreement_generate P ForRatchet seed"
  obtain S R where s: "s = ratchet_to_bytes S" "r = ratchet_to_bytes R" and ok: "ratchet_ok S" "ratchet_ok R" "mkskipped S = []" "mkskipped R = []"
    "in_contact P S R" and U: "ratchet_public P S \<in> U" "ratchet_public P R \<in> U"
    using assms(2) unfolding rust_ready_def by blast
  obtain h c S' R' where e: "ratchet_encrypt P p [] S = (Inr (h, c), S')" "ratchet_decrypt P seed h c [] R = (Inr p, R')"
    and c: "is_bytes p \<longrightarrow> is_bytes c" "h_dh h = ratchet_public P S"
    and ok': "ratchet_ok S'" "ratchet_ok R'" "mkskipped S' = []" "mkskipped R' = []" "r_dhs S' = r_dhs S" "r_dhs R' \<in> {r_dhs R, ?new}"
    and contact: "agreement_public_key P ?new \<noteq> ratchet_public P R \<longrightarrow> in_contact P S' R' \<and> in_contact P R' S'"
    using contact_kept[OF assms(1) ok(5,1,2,3,4)] by metis
  have pub: "length (h_dh h) = 32" "is_bytes (h_dh h)"
    using agreement_key(2,3)[OF assms(1)] ok(1) c(2) by (simp_all add: ratchet_ok_def)
  let ?c = "h_dh h @ be32 (h_pn h) @ be32 (h_n h) @ c"
  note wire = session_wire[OF e(1) pub(1)]
  have "ratchetEncrypt (rust_wasm P) rnd s p = Some (?c, ratchet_to_bytes S')"
    unfolding message_calls s by (rule stored_callI, rule ratchet_stored, rule ok(1), rule wire(1))
  moreover have "ratchetDecrypt (rust_wasm P) seed r ?c = Some (p, ratchet_to_bytes R')"
    unfolding message_calls s by (rule stored_callI, rule ratchet_stored, rule ok(2), unfold wire(2), rule e(2))
  moreover have "is_bytes ?c" using pub(2) c(1) assms(3) by simp
  moreover have "ratchet_public P S' \<in> insert (agreement_public_key P ?new) U" "ratchet_public P R' \<in> insert (agreement_public_key P ?new) U"
    using U ok'(5,6) by auto
  moreover have "agreement_public_key P ?new \<notin> U \<longrightarrow> in_contact P S' R' \<and> in_contact P R' S'" using contact U(2) by metis
  ultimately show ?thesis using ok'(1-4) by (blast intro: rust_readyI)
qed

lemma rust_ratchet_laws:
  assumes "crate_laws P"
  shows "ratchet_laws (rust_wasm P) (rust_keys P)"
  unfolding ratchet_laws_def
proof (intro conjI allI impI)
  fix rnd rnd' :: nat and sk spk s r p :: bytes and U V :: "bytes set"
  show "\<exists>s r. ratchetInitSender (rust_wasm P) rnd sk (dh_pub (rust_keys P) spk) = Some s \<and> ratchetInitReceiver (rust_wasm P) sk spk = Some r
      \<and> ready (rust_keys P) {drawn (rust_keys P) rnd, dh_pub (rust_keys P) spk} s r" if "key32 sk \<and> key32 spk"
    using rust_init[OF assms, of sk spk rnd] that by (simp add: key32_sized)
  show "\<exists>c s' r'. ratchetEncrypt (rust_wasm P) rnd s p = Some (c, s') \<and> is_bytes c \<and> ratchetDecrypt (rust_wasm P) rnd' r c = Some (p, r')
      \<and> (drawn (rust_keys P) rnd' \<notin> U \<longrightarrow> ready (rust_keys P) (insert (drawn (rust_keys P) rnd') U) s' r'
          \<and> ready (rust_keys P) (insert (drawn (rust_keys P) rnd') U) r' s')" if "ready (rust_keys P) U s r \<and> is_bytes p"
    using rust_step[OF assms] that by simp
  show "ready (rust_keys P) V s r" if "ready (rust_keys P) U s r \<and> U \<subseteq> V"
    using that unfolding rust_keys rust_ready_def by blast
qed

text \<open>A member in step with the sender is in the state that the sender's key, distributed now, would give it.\<close>

definition rust_group :: "crates \<Rightarrow> bytes \<Rightarrow> bytes \<Rightarrow> bool" where
  "rust_group P s r \<longleftrightarrow>
     (\<exists>S. sender_ok S \<and> s = sender_to_bytes S \<and> r = receiver_to_bytes (process_distribution_message (create_distribution_message P S)))"

lemma fresh_receiver_ok:
  "crate_laws P \<Longrightarrow> sender_ok S \<Longrightarrow> receiver_ok (process_distribution_message (create_distribution_message P S))"
  using crate_keys(2)[of P "s_signing_key S"]
  by (simp add: sender_ok_def receiver_ok_def process_distribution_message_def create_distribution_message_def identity_public_key_def bt_ok_def)

lemma fresh_group_decrypt:
  assumes "crate_laws P" "sender_ok S" "good_message P S (s_iteration S) (mk_at P (s_chain_key S) 0) p m"
  shows "group_decrypt P m (process_distribution_message (create_distribution_message P S))
    = (Inr p, process_distribution_message (create_distribution_message P (S\<lparr>s_chain_key := ck_at P (s_chain_key S) 1, s_iteration := s_iteration S + 1\<rparr>)))"
proof -
  have "skip_loop P (\<lambda>n. n) n ck n [] = (ck, n, [])" for n :: u32 and ck by (subst skip_loop.simps) simp
  then have "message_key_for P (s_iteration S) (process_distribution_message (create_distribution_message P S))
      = (Inr (mk_at P (s_chain_key S) 0), process_distribution_message (create_distribution_message P
          (S\<lparr>s_chain_key := ck_at P (s_chain_key S) 1, s_iteration := s_iteration S + 1\<rparr>)))"
    by (simp add: message_key_for_def process_distribution_message_def create_distribution_message_def mk_at_def case_prod_beta)
  moreover have "v_signing_pub (process_distribution_message (create_distribution_message P S)) = identity_public_key P (s_signing_key S)"
    by (simp add: process_distribution_message_def create_distribution_message_def)
  moreover have it: "g_iteration m = s_iteration S" and "identity_verify P (identity_public_key P (s_signing_key S))
      (signed_payload (g_key_id m) (s_iteration S) (g_ciphertext m)) (g_signature m) = Inr ()"
    and "aead_decrypt P (mk_at P (s_chain_key S) 0) (iteration_nonce (s_iteration S)) (g_ciphertext m) (message_aad (g_key_id m) (s_iteration S)) = Inr p"
    using assms(3) unfolding good_message_def by metis+
  ultimately show ?thesis unfolding group_decrypt_def it by simp
qed

lemma rust_group_laws:
  assumes "crate_laws P"
  shows "group_laws (rust_wasm P) (rust_group P)"
  unfolding group_laws_def
proof (intro conjI allI impI)
  fix rnd :: nat and s r p :: bytes
  let ?S = "sender_generate P rnd" let ?d = "create_distribution_message P ?S"
  have S: "sender_ok ?S" by (rule generated_sender[OF assms])
  then have k: "sized 32 (s_chain_key ?S)" "sized 32 (identity_public_key P (s_signing_key ?S))"
    using crate_keys(2)[OF assms] by (simp_all add: sender_ok_def identity_public_key_def)
  then have d: "length (d_chain_key ?d) = 32" "length (d_signing_pub ?d) = 32" by (simp_all add: create_distribution_message_def sized_def)
  show "is_bytes (snd (groupSenderGenerate (rust_wasm P) rnd))"
    using k by (simp add: group_calls distribution_to_bytes_def create_distribution_message_def sized_def)
  have "groupReceiverFromDist (rust_wasm P) (snd (groupSenderGenerate (rust_wasm P) rnd)) = Some (receiver_to_bytes (process_distribution_message ?d))"
    using distribution_wire[OF d] by (simp add: group_calls)
  moreover have "rust_group P (fst (groupSenderGenerate (rust_wasm P) rnd)) (receiver_to_bytes (process_distribution_message ?d))"
    using S unfolding rust_group_def group_calls by auto
  ultimately show "\<exists>r. groupReceiverFromDist (rust_wasm P) (snd (groupSenderGenerate (rust_wasm P) rnd)) = Some r
      \<and> rust_group P (fst (groupSenderGenerate (rust_wasm P) rnd)) r" by blast
  show "\<exists>c s' r'. groupSenderEncrypt (rust_wasm P) s p = Some (c, s') \<and> is_bytes c \<and> groupReceiverDecrypt (rust_wasm P) r c = Some (p, r')
      \<and> rust_group P s' r'" if h: "rust_group P s r \<and> is_bytes p"
  proof -
    obtain S where S: "sender_ok S" "s = sender_to_bytes S" "r = receiver_to_bytes (process_distribution_message (create_distribution_message P S))"
      using h unfolding rust_group_def by blast
    then have key: "sized 32 (s_signing_key S)" by (simp add: sender_ok_def)
    let ?S = "S\<lparr>s_chain_key := ck_at P (s_chain_key S) 1, s_iteration := s_iteration S + 1\<rparr>"
    let ?R = "\<lambda>S. process_distribution_message (create_distribution_message P S)"
    obtain m where m: "group_encrypt P p S = (Inr m, ?S)" "good_message P S (s_iteration S) (mk_at P (s_chain_key S) 0) p m"
      "is_bytes p \<longrightarrow> is_bytes (g_ciphertext m)" "sized 64 (g_signature m)"
      by (rule group_encrypt_ok[OF assms key])
    obtain c where c: "wasm_group_encrypt P p S = (Inr c, ?S)" "wasm_group_decrypt P c (?R S) = group_decrypt P m (?R S)" "is_bytes c"
      using group_wire[OF m(1), of "?R S"] m(3,4) h by (auto simp: sized_def)
    have d: "group_decrypt P m (?R S) = (Inr p, ?R ?S)" using fresh_group_decrypt[OF assms S(1) m(2)] .
    have "groupSenderEncrypt (rust_wasm P) s p = Some (c, sender_to_bytes ?S)"
      unfolding group_calls S(2) by (rule stored_callI, rule sender_stored, rule S(1), rule c(1))
    moreover have "groupReceiverDecrypt (rust_wasm P) r c = Some (p, receiver_to_bytes (?R ?S))"
      unfolding group_calls S(3) by (rule stored_callI, rule receiver_stored, rule fresh_receiver_ok[OF assms S(1)]) (simp only: c(2) d)
    moreover have "sender_ok ?S" using S(1) crate_hash(1)[OF assms] by (simp add: sender_ok_def kdf_ck_def hmac_sha256_def)
    ultimately show ?thesis using c(3) unfolding rust_group_def by blast
  qed
qed

lemma rust_pin_laws:
  assumes "crate_laws P"
  shows "pin_laws (rust_wasm P)"
  unfolding pin_laws_def
proof (intro allI impI)
  fix seed :: nat and k pin :: bytes
  assume "is_bytes k \<and> is_bytes pin"
  moreover obtain blob where "encrypt_key_with_pin P seed k pin WASM_PARAMS = Inr blob" "deserialize_blob (serialize_blob blob) = Inr blob"
    "decrypt_key_with_pin P blob pin = Inr k" "is_bytes k \<longrightarrow> is_bytes (serialize_blob blob)" "serialize_blob blob \<noteq> []"
    using pin_blob_roundtrip[OF assms, of seed k pin] by blast
  ultimately show "decryptKeyWithPin (rust_wasm P) (encryptKeyWithPin (rust_wasm P) seed k pin) pin = Some k
      \<and> is_bytes (encryptKeyWithPin (rust_wasm P) seed k pin) \<and> encryptKeyWithPin (rust_wasm P) seed k pin \<noteq> []"
    by (simp add: key_calls wasm_encrypt_key_def wasm_decrypt_key_def)
qed

lemma zipped_entries:
  "is_bytes seqs \<Longrightarrow> length seqs = 8 * n \<Longrightarrow> length hashes = 32 * n \<Longrightarrow>
     entries_bytes (zip_entries n seqs hashes) = entries_of seqs hashes n \<and> length (zip_entries n seqs hashes) = n
     \<and> list_all (\<lambda>e. length (entry_hash e) = 32) (zip_entries n seqs hashes)"
proof (induction n arbitrary: seqs hashes)
  case (Suc n)
  then show ?case using Suc.IH[of "drop 8 seqs" "drop 32 hashes"] be64_read[of "take 8 seqs"] by (simp add: entries_bytes_def)
qed (simp add: entries_bytes_def)

lemma rust_sync_laws:
  assumes "crate_laws P" "length keys = 64"
  shows "sync_laws (rust_sync P seed) keys"
  unfolding sync_laws_def
proof (intro conjI allI impI)
  fix n :: seq and p :: bytes and i :: nat and seqs hashes :: bytes
  have "length (chunk_key (sync_keys_from_bytes keys)) = 32" using assms(2) by (simp add: sync_keys_from_bytes_def)
  from chunk_opens[OF assms(1) this] show "openChunk (rust_sync P seed) keys n (sealChunk (rust_sync P seed) keys n p) = Some p"
    using assms(2) by (metis given(1) sure(1) sync_calls(1,2) wasm_open_chunk_def wasm_seal_chunk_def)
  show "length (sha256 (rust_sync P seed) p) = 32" "is_bytes (sha256 (rust_sync P seed) p)"
    using crate_hash(2)[OF assms(1)] by (simp_all add: rust_sync_def sized_def)
  show "verifyManifest (rust_sync P seed) (mac_key keys) (buildManifest (rust_sync P seed) (mac_key keys) seqs hashes)
      = Some (entries_of seqs hashes i)"
    if h: "5 + i * 40 < 2 ^ 32 \<and> length seqs = 8 * i \<and> length hashes = 32 * i \<and> is_bytes seqs \<and> is_bytes hashes"
  proof -
    have mac: "length (mac_key keys) = 32" using assms(2) by (simp add: mac_key_def js_slice_def)
    have z: "entries_bytes (zip_entries i seqs hashes) = entries_of seqs hashes i" "length (zip_entries i seqs hashes) = i"
      "list_all (\<lambda>e. length (entry_hash e) = 32) (zip_entries i seqs hashes)" using zipped_entries[of seqs i hashes] h by auto
    have "wasm_build_manifest P (mac_key keys) seqs hashes = Inr (build_manifest P (mac_key keys) (zip_entries i seqs hashes))"
      using mac h by (simp add: wasm_build_manifest_def)
    moreover have "verify_manifest P (mac_key keys) (build_manifest P (mac_key keys) (zip_entries i seqs hashes)) = Inr (zip_entries i seqs hashes)"
      by (rule manifest_reads[OF assms(1) z(3)]) (use z(2) h in simp)
    ultimately show ?thesis using mac z(1) by (simp add: sync_calls wasm_verify_manifest_def)
  qed
qed

lemma rust_sync_keys:
  assumes "crate_laws P" "sized 32 a" "sized 32 b" "length otp = 16"
  shows "deriveKeys (rust_sync P seed) b (agreement_public_key P a) otp = deriveKeys (rust_sync P seed) a (agreement_public_key P b) otp"
    "length (deriveKeys (rust_sync P seed) a (agreement_public_key P b) otp) = 64"
proof -
  obtain keys where k: "derive_sync_keys P a (agreement_public_key P b) otp = Inr keys" "derive_sync_keys P b (agreement_public_key P a) otp = Inr keys"
    "sized 64 (sync_keys_to_bytes keys)"
    by (rule keys_agree[OF assms(1-3)])
  have "length a = 32" "length b = 32" "length (agreement_public_key P a) = 32" "length (agreement_public_key P b) = 32"
    using assms(2,3) agreement_key(2)[OF assms(1)] by (simp_all add: sized_def)
  then show "deriveKeys (rust_sync P seed) b (agreement_public_key P a) otp = deriveKeys (rust_sync P seed) a (agreement_public_key P b) otp"
    "length (deriveKeys (rust_sync P seed) a (agreement_public_key P b) otp) = 64"
    using k assms(4) by (simp_all add: sync_calls wasm_derive_keys_def sized_def)
qed

end
