(* ===== verification/CoreEndToEnd.thy ===== *)
theory CoreEndToEnd
  imports RustLaws
begin

text \<open>
  The end-to-end theorems of the client on the program's own cryptographic core: what is assumed of cryptography is only what
  \<open>RustPrims\<close> states of the crates, and of WebCrypto that AES-GCM inverts.  Every claim has an instance on the toy crates.
\<close>

text \<open>C8. The cryptographic core implements the contract of the client.  Called through the worker's dispatch into the WASM module, with states
  read from and written to their stored bytes, the Rust core has everything the client relies on: key sizes and signatures, one secret
  from both sides of X3DH, a ratchet whose two ends stay in contact in both directions, sender keys, PIN blobs, and for every 64-byte
  key the chunks and manifests of a device sync.\<close>

theorem core_implements_contract:
  assumes "crate_laws P"
  shows "key_laws (rust_wasm P) (rust_keys P) \<and> x3dh_laws (rust_wasm P) (rust_keys P) \<and> ratchet_laws (rust_wasm P) (rust_keys P)
    \<and> group_laws (rust_wasm P) (rust_group P) \<and> pin_laws (rust_wasm P)
    \<and> (\<forall>keys seed. length keys = 64 \<longrightarrow> sync_laws (rust_sync P seed) keys)"
  using rust_key_laws rust_x3dh_laws rust_ratchet_laws rust_group_laws rust_pin_laws rust_sync_laws assms by blast

section \<open>Direct messages\<close>

text \<open>C7. Direct messages arrive as they were sent.  Two users whose bundles are published under their identities, and who have no
  session or sessions in step, exchange any number of messages in any direction, each opened before the next is sent, with seeds that
  draw ratchet keys no two of which are equal: every plaintext is returned, the first message setting up both sessions through X3DH
  and the Double Ratchet of the core.\<close>

theorem core_direct_conversation:
  assumes "crate_laws P" "published (rust_wasm P) (rust_keys P) keys a ka" "published (rust_wasm P) (rust_keys P) keys b kb"
    "in_step (rust_keys P) U (pairKey a b) da db" "list_all (\<lambda>(f, r, r', p). is_bytes p) ms"
    "agreement_public_key P (id_spkSecret ka) \<in> U" "agreement_public_key P (id_spkSecret kb) \<in> U"
    "distinct (draws (rust_keys P) ms)" "set (draws (rust_keys P) ms) \<inter> U = {}"
  shows "converse (rust_wasm P) keys ka kb a b ms da db = map (\<lambda>(f, r, r', p). Plain p) ms"
  using direct_conversation[OF rust_key_laws rust_x3dh_laws rust_ratchet_laws] assms by simp


section \<open>Groups\<close>


section \<open>Recovery\<close>

text \<open>C12. A PIN moves the identity to a new browser.  \<open>setupRecovery\<close> posts the identity sealed under the PIN by the core.  On another browser
  of the same user, without identity and vault, start-up takes the posted text and asks for recovery; a PIN that does not open it
  changes nothing; the PIN it was sealed under gives exactly the same identity, ready for use, and stored so that the next start loads it.\<close>

theorem core_pin_recovery:
  fixes R :: "nat \<Rightarrow> seed"
  assumes "crate_laws P" "gcm_inverts w" "sized_keys k" "identity st = Some k" "initialized st" "\<not> falsy_id (currentUserId st)"
    "setupRecovery (rust_wasm P) r srv pin isReset st = (True, st1)" "last (e_out st1) = PostRecovery blob reset"
    "u \<noteq> 0" "\<not> initialized nw" "\<not> initRunning nw" "ls (e_db nw) (v2_vault_key u) = None" "recovery_blob srv' = Answered blob"
    "is_bytes rnd" "rnd \<noteq> []" "length iv = 12" "is_bytes (encode_utf8 pin)"
  defines "nw1 \<equiv> snd (init_keys (rust_wasm P) w R rnd iv srv' u (initGeneration nw + 1) None (snd (init_begin u nw)))"
  shows "fst (init_begin u nw) = Some (initGeneration nw + 1) \<and> e2eStatus nw1 = NeedsRecovery \<and> pendingRecoveryBlob nw1 = Some blob
    \<and> (Option.bind (base64urlToBuf blob) (\<lambda>b. decryptKeyWithPin (rust_wasm P) b (encode_utf8 pin')) = None \<longrightarrow>
         unlockWithPin (rust_wasm P) w R rnd iv srv' pin' nw1 = (False, nw1))
    \<and> (\<exists>nw2. unlockWithPin (rust_wasm P) w R rnd iv srv' pin nw1 = (True, nw2) \<and> identity nw2 = Some k \<and> initialized nw2
         \<and> e2eStatus nw2 = ReadyStatus \<and> loadIdentityKeys w rnd' u (e_db nw2) = (Some k, e_db nw2))"
  unfolding nw1_def by (rule pin_recovery[OF rust_pin_laws[OF assms(1)] assms(2-17)])

section \<open>Device sync\<close>


text \<open>C16. What an accepted transfer means, for every order in which messages arrive and handlers resume.  If only the source seals
  under the 64-byte session key (every arriving frame that opens holds a record or the manifest of the source, at its position) and no
  record verifies as a manifest, then once the target reports success every record of the source was received at its position with its
  hash, and it is imported, or its import is still running, or it cannot be imported into some database.\<close>

theorem core_accepted_transfer:
  assumes "crate_laws P" "length keys = 64" "unsigned (rust_sync P seed) keys ps" "5 + length ps * 40 < 2 ^ 32"
    "list_all (authentic_event (rust_sync P seed) keys ps) es"
    "outcome (rx_run (rust_sync P seed) J keys es (rx_start db)) = Some Resolved" "i < length ps"
  shows "mget (received (rx_run (rust_sync P seed) J keys es (rx_start db))) (word_of_nat i) = Some (sha256_crate P (ps ! i))
    \<and> accounted J (rx_run (rust_sync P seed) J keys es (rx_start db)) (ps ! i)"
  using accepted_transfer_is_complete[OF rust_sync_laws[OF assms(1,2)] assms(3-)] by (simp add: rust_sync_def)

section \<open>Instances\<close>

theorem core_implements_contract_witness:
  "pin_laws (rust_wasm toy_crates) \<and> ratchet_laws (rust_wasm toy_crates) (rust_keys toy_crates) \<and> sync_laws (rust_sync toy_crates 0) (replicate 64 1)"
  using core_implements_contract[OF toy_crate_laws] by simp

abbreviation core_wasm :: wasm where
  "core_wasm \<equiv> rust_wasm toy_crates"

lemmas core_laws = rust_key_laws[OF toy_crate_laws] rust_x3dh_laws[OF toy_crate_laws] rust_ratchet_laws[OF toy_crate_laws]
  rust_group_laws[OF toy_crate_laws] rust_pin_laws[OF toy_crate_laws]

definition core_id :: "seed \<Rightarrow> identity_keys" where
  "core_id r = generateIdentityKeys core_wasm r (r + 1) (r + 2)"

definition core_users :: "id \<Rightarrow> jsstr option" where
  "core_users = publish (\<lambda>u. if u = 1 then Some (core_id 10) else if u = 2 then Some (core_id 20) else None)"

lemma core_genuine: "genuine core_wasm (rust_keys toy_crates) (core_id r)"
  by (simp add: core_id_def generated_genuine[OF core_laws(1)])

lemma core_dh32: "key32 (id_ikDhSecret (core_id r))"
  using core_genuine by (simp add: genuine_def)

lemma core_published:
  "published core_wasm (rust_keys toy_crates) core_users 1 (core_id 10)" "published core_wasm (rust_keys toy_crates) core_users 2 (core_id 20)"
  unfolding core_users_def by (rule publish_published[OF core_laws(1)], simp, rule core_genuine)+

lemma core_spk: "id_spkSecret (core_id r) = filled 32 [r + 2]"
  by (simp add: core_id_def generateIdentityKeys_def key_calls generate_key_agreement_keypair_def agreement_generate_def toy_crates_def
      js_slice_def Let_def)

lemma core_public: "agreement_public_key toy_crates s = s" "drawn (rust_keys toy_crates) r = filled 32 [r]"
  by (simp_all add: agreement_public_key_def agreement_generate_def toy_crates_def)

theorem core_direct_conversation_witness:
  "converse core_wasm core_users (core_id 10) (core_id 20) 1 2 [(True, 5, 6, [104, 105]), (True, 7, 8, [33]), (False, 9, 10, [255])] empty_db empty_db
   = [Plain [104, 105], Plain [33], Plain [255]]"
proof -
  let ?ms = "[(True, 5, 6, [104, 105]), (True, 7, 8, [33]), (False, 9, 10, [255])]" and ?U = "{filled 32 [12], filled 32 [22]}"
  have ne: "filled 32 [x] \<noteq> filled 32 [y]" if "x \<noteq> y" "x < 256" "y < 256" for x y using that by (simp add: filled_def)
  have "in_step (rust_keys toy_crates) ?U (pairKey 1 2) empty_db empty_db" by (simp add: in_step_def fresh_db)
  moreover have "distinct (draws (rust_keys toy_crates) ?ms)" "set (draws (rust_keys toy_crates) ?ms) \<inter> ?U = {}"
    by (simp_all add: draws_def core_public ne del: rust_keys)
  ultimately show ?thesis
    using core_direct_conversation[OF toy_crate_laws core_published, of ?U empty_db empty_db ?ms]
    by (simp add: is_bytes_def core_public core_spk del: rust_keys)
qed

definition core_e2e :: "id \<Rightarrow> seed \<Rightarrow> e2e" where
  "core_e2e u r = (demo_e2e u r)\<lparr>identity := Some (core_id r),
     deviceKeys := Some \<lparr>ikDhSecret = id_ikDhSecret (core_id r), ikDhPub = id_ikDhPub (core_id r), spkSecret = id_spkSecret (core_id r),
       spkPub = id_spkPub (core_id r), spkSig = id_spkSig (core_id r)\<rparr>\<rparr>"

definition core_srv :: e2e_srv where
  "core_srv = demo_srv\<lparr>v2_bundle := (\<lambda>u. case core_users u of None \<Rightarrow> NotFound404 | Some t \<Rightarrow> Answered t),
     v3_bundle := (\<lambda>d. case core_users (d - 100) of None \<Rightarrow> NotFound404 | Some t \<Rightarrow> Answered t)\<rparr>"

lemma core_fields:
  "identity (core_e2e u r) = Some (core_id r)" "initialized (core_e2e u r)" "currentUserId (core_e2e u r) = Some u"
  "myDeviceId (core_e2e u r) = Some (100 + u)" "e_db (core_e2e u r) = empty_db" "deviceBundleCache (core_e2e u r) = []" "e_out (core_e2e u r) = []"
  by (simp_all add: core_e2e_def demo_fields)

lemma core_v2: "v2_text core_srv = core_users"
  by (rule ext) (simp add: v2_text_def core_srv_def ok_of_def split: option.split)

lemma core_device:
  obtains b where "fst (fetchDeviceBundle core_srv 102 (core_e2e 1 10)) = Some b"
    "valid_bundle core_wasm (rust_keys toy_crates) (id_ikDhSecret (core_id 20)) (id_spkSecret (core_id 20)) b"
    "target_devices core_srv 2 1 101 = [102]"
    "in_step (rust_keys toy_crates) {} (devicePairKey 101 102) (e_db (core_e2e 1 10)) (e_db (core_e2e 2 20))"
proof -
  obtain b where b: "fetchBundle core_users 2 = Some b"
    "valid_bundle core_wasm (rust_keys toy_crates) (id_ikDhSecret (core_id 20)) (id_spkSecret (core_id 20)) b"
    using core_published(2) by (auto simp: published_def)
  have "fst (fetchDeviceBundle core_srv 102 (core_e2e 1 10)) = Some b"
    using b(1) by (auto simp: fetchDeviceBundle_def core_fields core_srv_def ok_of_def fetchBundle_def Let_def bind_eq_Some_conv split: option.splits)
  moreover have "target_devices core_srv 2 1 101 = [102]" by (simp add: target_devices_def core_srv_def demo_srv_def ok_of_def)
  moreover have "in_step (rust_keys toy_crates) {} (devicePairKey 101 102) (e_db (core_e2e 1 10)) (e_db (core_e2e 2 20))"
    by (simp add: in_step_def core_fields fresh_db)
  ultimately show thesis using that b(2) by blast
qed



lemma toy_wrong_pin:
  assumes "encryptKeyWithPin core_wasm r k pin = enc" "filled 16 (filled 32 pin) \<noteq> filled 16 (filled 32 pin')"
  shows "decryptKeyWithPin core_wasm enc pin' = None"
proof -
  let ?b = "\<lparr>kb_params = WASM_PARAMS, kb_salt = filled 16 [r], kb_nonce = filled 12 [r], kb_ciphertext = filled 16 (filled 32 pin) @ k\<rparr>"
  have "encrypt_key_with_pin toy_crates r k pin WASM_PARAMS = Inr ?b"
    by (simp add: encrypt_key_with_pin_def derive_aes_key_def aead_encrypt_def toy_crates_def)
  then have enc: "enc = serialize_blob ?b" using assms(1) by (simp add: key_calls wasm_encrypt_key_def)
  have "deserialize_blob enc = Inr ?b" unfolding enc by (rule blob_stored) simp_all
  then show ?thesis
    using assms(2) by (simp add: key_calls wasm_decrypt_key_def decrypt_key_with_pin_def derive_aes_key_def aead_decrypt_def toy_crates_def)
qed

theorem core_pin_recovery_witness:
  "\<exists>srv nw nw2. unlockWithPin core_wasm toy_crypto (\<lambda>_. 3) [1] (replicate 12 0) srv (js ''1234'') nw = (True, nw2)
     \<and> identity nw2 = Some (core_id 10) \<and> unlockWithPin core_wasm toy_crypto (\<lambda>_. 3) [1] (replicate 12 0) srv (js ''1235'') nw = (False, nw)"
proof -
  have sized: "sized_keys (core_id 10)" by (rule genuine_sized[OF core_laws(1) core_genuine])
  let ?enc = "encryptKeyWithPin core_wasm 4 (the (pack_recovery (core_id 10))) (encode_utf8 (js ''1234''))"
  let ?blob = "bufToBase64url ?enc"
  have posted: "setupRecovery core_wasm 4 core_srv (js ''1234'') False (core_e2e 1 10) = (True, (core_e2e 1 10)\<lparr>e_out := [PostRecovery ?blob False]\<rparr>)"
    using pack_recovery_concat(1)[OF sized] by (simp add: setupRecovery_def core_fields falsy_id_def core_srv_def demo_srv_def) (simp add: core_e2e_def demo_e2e_def)
  let ?srv = "core_srv\<lparr>recovery_blob := Answered ?blob\<rparr>"
  let ?nw = "(core_e2e 1 0)\<lparr>identity := None, initialized := False\<rparr>"
  have utf8: "encode_utf8 (js ''1235'') = [49, 50, 51, 53]" "encode_utf8 (js ''1234'') = [49, 50, 51, 52]"
    by (simp_all add: encode_utf8_def js_def utf8_bytes_def high_surrogate_def low_surrogate_def)
  have pin: "is_bytes (encode_utf8 (js ''1234''))" by (simp add: utf8(2) is_bytes_def)
  obtain k where k: "pack_recovery (core_id 10) = Some k" "is_bytes k" using pack_recovery_concat(1,3)[OF sized] by blast
  have "is_bytes ?enc" using core_laws(5) k pin unfolding pin_laws_def by (metis option.sel)
  then have wrong: "Option.bind (base64urlToBuf ?blob) (\<lambda>b. decryptKeyWithPin core_wasm b (encode_utf8 (js ''1235''))) = None"
    using base64url_inverse[of ?enc] toy_wrong_pin[OF refl, of "encode_utf8 (js ''1234'')" "encode_utf8 (js ''1235'')"]
    by (simp add: utf8 filled_def)
  have fresh: "\<not> initialized ?nw" "\<not> initRunning ?nw" "ls (e_db ?nw) (v2_vault_key 1) = None" by (simp_all add: core_e2e_def demo_e2e_def empty_db_def)
  show ?thesis
    using core_pin_recovery[where R = "\<lambda>_. 3" and pin' = "js ''1235''" and rnd = "[1]" and iv = "replicate 12 0" and srv' = ?srv and reset = False,
        OF toy_crate_laws toy_inverts sized core_fields(1,2) _ posted _ _ fresh] wrong pin
    by (simp add: core_fields falsy_id_def) blast
qed


theorem core_accepted_transfer_witness:
  "\<exists>es. mget (received (rx_run (rust_sync toy_crates 4) text_json (replicate 64 1) es (rx_start empty_db))) 0
       = Some (sha256_crate toy_crates [2, 0, 1, 65, 66])
     \<and> accounted text_json (rx_run (rust_sync toy_crates 4) text_json (replicate 64 1) es (rx_start empty_db)) [2, 0, 1, 65, 66]"
proof -
  let ?ps = "[[2, 0, 1, 65, 66]] :: bytes list" let ?S = "rust_sync toy_crates 4" and ?k = "replicate 64 1"
  let ?es = "in_order (map (chunk_frame ?S ?k ?ps) [0..<length ?ps] @ [manifest_frame ?S ?k ?ps])"
  have laws: "sync_laws ?S ?k" by (rule rust_sync_laws[OF toy_crate_laws]) simp
  obtain db where "import_all text_json ?ps empty_db = Some db"
    by (auto simp: importSyncRecord_def SYNC_STORES_def)
  then have "outcome (rx_run ?S text_json ?k ?es (rx_start empty_db)) = Some Resolved"
    using transfer_in_order[OF laws, of ?ps text_json empty_db db] by auto
  moreover have "list_all (authentic_event ?S ?k ?ps) ?es"
    using source_authentic[OF laws, of ?ps] by (simp add: in_order_def)
  moreover have "unsigned ?S ?k ?ps" by (simp add: unsigned_def sync_calls wasm_verify_manifest_def verify_manifest_def mac_key_def js_slice_def)
  ultimately show ?thesis
    using core_accepted_transfer[OF toy_crate_laws, of ?k 4 ?ps ?es text_json empty_db 0]
    by (intro exI[of _ ?es]) (simp del: replicate.simps)
qed

end
