(* ===== verification/Spec2Isabelle.thy ===== *)
theory Spec2Isabelle
  imports AuthController ConvProperties Delivery Og Cleanup Keys Reports ConvHttp
    TokenRefresh SyncHook E2ELocks CallNetwork ClientConversations CoreEndToEnd
begin

text \<open>
  A verification development for the messenger web application: the NestJS server under \<open>server/src\<close>, with its
  database schema \<open>server/prisma/schema.prisma\<close>, the core of the browser client under \<open>client/src\<close> (keys and encryption,
  the message list, the conversation list, calls, the offline queue, device synchronisation, the renewal of tokens), and
  the cryptographic core in Rust under \<open>crypto\<close> with the worker between them.

  \<^bold>\<open>The program.\<close>  The server keeps users, sessions, conversations, messages, friendships, devices and keys in
  PostgreSQL (through Prisma), answers REST requests (controllers calling services) and pushes events over Socket.IO
  (\<open>chat.gateway.ts\<close>).  The gateway keeps in memory which sockets are connected and in which rooms, which users are
  online, the active calls, the timers of scheduled messages and the counters of a rate limiter; device-to-device
  synchronisation sessions live in Redis or in memory.  Messages are end-to-end encrypted, so the server handles
  opaque contents.  The client keeps identity keys, ratchet sessions, group sender keys and a cache of plaintexts in
  IndexedDB (\<open>cryptoDb.ts\<close>), calls a Rust module compiled to WebAssembly for X3DH, the double ratchet and sender keys,
  and shows conversations through React hooks; the hook of the message list stands on the encryption hook, which stands
  on the database.

  \<^bold>\<open>Conventions\<close> (\<open>Prelude\<close>).  A string is its list of UTF-16 code units; a number used as an id or as a time in milliseconds
  is an \<open>int\<close>; 32-bit bit operations are on words.  A service method is a function from the state to a result and a new
  state; the result is \<open>Inl\<close> of the HTTP error or \<open>Inr\<close> of the answer, so each \<open>throw\<close> is a branch, and writes made before
  a throw stay in the state unless the code runs them in a transaction.  A database table is a list of rows with a
  counter for the next id.  A JavaScript \<open>Map\<close> is an association list, a \<open>Set\<close> a list without repetition.  The clock is an
  argument.  Code outside the repository (bcrypt, JWT signing, TOTP, the JSON codec, DNS, \<open>fetch\<close>, the Redis client, web
  push, storage, the browser's WebCrypto, the Rust crates) is an argument of the definitions that use it, collected
  in a record where there are many; what the client relies on of the cryptography (decryption inverts encryption, both ends
  of a key agreement get one secret, a ratchet reads what its peer wrote in order) are named laws, with a concrete instance
  on which the witnesses run.  The theories of the client take the WebAssembly module as such an argument; \<open>RustLaws\<close>
  defines it from the Rust core behind the worker's dispatch and proves its laws from those of the crates.  On the client a request takes its answer as an argument, an \<open>await\<close> during which other code can
  matter splits a function into the steps before and after it, and randomness is an argument.

  \<^bold>\<open>Theories\<close>, in the order of their imports:

  \<^item> \<open>Schema\<close>: one record per model of the schema, the database, the cascades and \<open>SetNull\<close> actions of its foreign keys
    (\<open>delete_user\<close>, \<open>delete_messages\<close>, \<open>delete_devices\<close>) and transactions.  \<open>Demo\<close> holds small databases on which the
    witnesses run.
  \<^item> \<open>RateLimiter\<close> (\<open>chat/ws-rate-limiter.ts\<close>): the sliding window; no more than the limit is admitted in any window.
  \<^item> \<open>Auth\<close>, \<open>AuthController\<close> (\<open>auth/\<close>): accounts, refresh-token rotation, sessions, password reset, two-factor set-up; the
    invariant of the session table over all sequences of calls, and what each flow changes.
  \<^item> \<open>SyncSession\<close> (\<open>chat/sync-session.service.ts\<close>): the Redis and the in-memory store both refine one abstract map with
    expiry; the locale states what the gateway relies on.
  \<^item> \<open>Metadata\<close> (\<open>conversations/metadata.validator.ts\<close>): bounds of what passes, and that validation is idempotent.
  \<^item> \<open>MessageView\<close>, \<open>Conversations\<close> (\<open>conversations/conversations.service.ts\<close>), with \<open>ConvInvariant\<close> (the invariant of the chat
    tables over every operation) and \<open>ConvProperties\<close> (who may change what, the pages of messages, what hides a scheduled
    message, reactions, unread counts).
  \<^item> \<open>Friends\<close> (\<open>friends/\<close>): the two-row-per-pair relation refines an abstract relation between unordered pairs.
  \<^item> \<open>Sockets\<close>, \<open>Presence\<close>, \<open>Calls\<close>, \<open>DeviceSync\<close>, \<open>GatewayMessages\<close>: the handlers of \<open>chat/chat.gateway.ts\<close> over one record
    of the gateway's state, the database and the events sent; \<open>Push\<close> is \<open>push/\<close>.  \<open>Gateway\<close> makes them the steps of one
    transition system with its invariant; \<open>GatewayProperties\<close>, \<open>GatewaySchedule\<close> and \<open>Delivery\<close> state presence, identity,
    isolation of device synchronisation, call signalling, scheduled messages and who receives a message.
  \<^item> \<open>Ssrf\<close>, \<open>Og\<close> (\<open>og/\<close>): the guard of outgoing requests, link previews and their cache.
  \<^item> \<open>Storage\<close> (\<open>upload/\<close>, \<open>files/\<close>) and \<open>Cleanup\<close> (\<open>conversations/cleanup.service.ts\<close>): uploads, the cache of signed URLs, the
    hourly-grace removal of deleted messages and of the files nobody refers to.
  \<^item> \<open>Keys\<close> (\<open>keys/\<close>, \<open>devices/\<close>, \<open>common/verify-bundle.ts\<close>): published keys, device bundles and recovery data; every bundle
    served has been verified, and a user changes only their own key material.
  \<^item> \<open>Reports\<close> (\<open>reports/\<close>, \<open>users/\<close>) and \<open>ConvController\<close> (\<open>conversations/conversations.controller.ts\<close>, which also moves
    sockets between the gateway's rooms), and \<open>ConvHttp\<close>, by which its requests refine the service.
  \<^item> \<open>Base64\<close>, \<open>Utf8\<close>, \<open>ClientCrypto\<close> (\<open>client/src/lib/crypto.ts\<close>, \<open>cryptoLegacy.ts\<close>, \<open>mediaEncryption.ts\<close>, \<open>deviceKeys.ts\<close>):
    the formats in which keys and ciphertexts are stored and sent, with their round trips.
  \<^item> \<open>CryptoDb\<close> (\<open>lib/cryptoDb.ts\<close>): the stores of the crypto database, identity keys under a vault key, records exported for
    another device.
  \<^item> \<open>SyncWire\<close>, \<open>DeviceTransfer\<close>, \<open>SyncHook\<close> (\<open>hooks/useDeviceSync.ts\<close>): the QR code and the frames, the transfer with its
    concurrent handlers (what an accepted manifest means, for every interleaving), the state machine and its handshake.
  \<^item> \<open>E2ESession\<close>, \<open>E2E\<close>, \<open>E2EProperties\<close>, \<open>E2ELocks\<close> (\<open>hooks/useE2E.ts\<close>, \<open>lib/cryptoWorkerClient.ts\<close>): ratchet sessions
    between users and between devices, the hook's start-up, recovery, groups; a conversation is read as it was written, and
    the locks serialise the operations on one session.
  \<^item> \<open>ClientQueue\<close> (\<open>hooks/useOfflineQueue.ts\<close>), \<open>ClientMetadata\<close> (\<open>lib/parseMetadata.ts\<close>), \<open>TokenRefresh\<close> (\<open>lib/axios.ts\<close>,
    \<open>store/useAuthStore.ts\<close>): the offline queue, what the client reads from metadata the server accepted, and how renewing a token ends.
  \<^item> \<open>ClientMessages\<close>, \<open>ClientMessageProps\<close> (\<open>hooks/useMessages.ts\<close>): the message list; a direct message from one user's input to
    the other's screen, no message twice, and how an echo finds its entry.
  \<^item> \<open>ClientCalls\<close>, \<open>CallNetwork\<close> (\<open>hooks/useWebRTC.ts\<close>): the state machine of a call, and two browsers connected by the gateway's
    handlers: a call connects, and what a second tab does to it.
  \<^item> \<open>ClientConversations\<close> (\<open>hooks/useConversations.ts\<close>, \<open>hooks/useFriends.ts\<close>): the side bar, with no conversation twice, sorted
    by activity, and exact badges.
  \<^item> \<open>RustPrims\<close>, \<open>RustRatchet\<close>, \<open>RustGroup\<close>, \<open>RustKeys\<close>, \<open>RustSync\<close> (\<open>crypto/core/src\<close>): the Double Ratchet, sender keys, X3DH,
    PIN blobs and the sync protocol over the crates.  \<open>RustRatchetProps\<close> and the later parts of the others prove storage round
    trips, delivery in any order with the bound on skipped keys, agreement of keys, and which manifests are accepted.
  \<^item> \<open>RustWasm\<close> (\<open>crypto/wasm/src/lib.rs\<close>) and \<open>CryptoWorker\<close> (\<open>workers/crypto.worker.ts\<close>, \<open>lib/cryptoWorkerClient.ts\<close>): the exported
    functions, the dispatch by name and the remote calls, which do not get mixed up in any interleaving.
  \<^item> \<open>RustLaws\<close>, \<open>CoreEndToEnd\<close>: the operations of the client read off the dispatch, the proof that they keep the client's laws,
    and the end-to-end theorems of the client on the program's own core.

  \<^bold>\<open>Bounds and fuel.\<close>  No definition runs on fuel.  Every loop of the modelled code ends: the fold over rows, the redirects of
  \<open>fetch_loop\<close> (at most \<open>maxRedirects\<close>), the sliding window, the squeezing of blanks are functions with termination proofs.

  \<^bold>\<open>Interleaving.\<close>  One call of a handler or a service method is one step.  The code awaits the database in between, so
  two calls can interleave in the real program; the theorems speak of calls that do not.  Where a later failure leaves
  earlier writes in place, the model keeps them.

  \<^bold>\<open>Not modelled.\<close>  Of the client: pages and components (rendering), search, push
  subscription, image compression and uploads, the favicon, service workers.  Of the Rust crates their insides; the zeroizing of
  secrets.  Module wiring, \<open>main.ts\<close>, HTTP throttling and the JWT
  guard of Passport, which are the framework's; the text of e-mails; logging; the Redis adapter that links several server
  processes; failed transactions of IndexedDB.
\<close>

end
